(* ===== verification/Prelude.thy ===== *)
theory Prelude
  imports Main "HOL-Library.Word"
begin

text \<open>
  Vocabulary shared by every component of the relay model.

  \<^item> \<open>hashmap\<close>: the relay's \<^verbatim>\<open>HashMap\<close> and \<^verbatim>\<open>IndexMap\<close> values as association lists, with the
    operations the source uses (\<open>hm_get\<close>, \<open>hm_insert\<close>, \<open>hm_remove\<close>, \<open>hm_retain\<close>). The list order
    stands for the iteration order; insertion keeps the position of a key that is present.
  \<^item> \<open>json\<close>: \<^verbatim>\<open>serde_json::Value\<close>, built with insertion-ordered objects as in Cargo.lock
    (the indexmap dependency of serde_json).
  \<^item> the interfaces several components share, as locales: \<open>keyed_store\<close> (what a map promises),
    \<open>bounded_queue\<close> (a buffer that drops its oldest element), \<open>transition_system\<close> (invariants of
    reachable states), and \<open>epoch_counter\<close> (a wrapping 64-bit generation counter that detects
    interleaved work).
\<close>

unbundle bit_operations_syntax

named_theorems store_simps
named_theorems guard_defs

type_synonym u16 = "16 word"
type_synonym u32 = "32 word"
type_synonym u64 = "64 word"
type_synonym ('k, 'v) hashmap = "('k \<times> 'v) list"

section \<open>Results\<close>

text \<open>A fallible operation returns \<open>error + value\<close>: \<open>Inl\<close> is \<^verbatim>\<open>Err\<close>, \<open>Inr\<close> is \<^verbatim>\<open>Ok\<close>.\<close>

definition is_ok :: "'e + 'a \<Rightarrow> bool" where
  "is_ok r = (case r of Inl _ \<Rightarrow> False | Inr _ \<Rightarrow> True)"

definition and_then :: "'e + 'a \<Rightarrow> ('a \<Rightarrow> 'e + 'b) \<Rightarrow> 'e + 'b" where
  "and_then r f = (case r of Inl e \<Rightarrow> Inl e | Inr x \<Rightarrow> f x)"

definition ok :: "'e + 'a \<Rightarrow> 'a option" where
  "ok r = (case r of Inl _ \<Rightarrow> None | Inr x \<Rightarrow> Some x)"

lemma is_ok_simps [simp]: "is_ok (Inl e) = False" "is_ok (Inr x) = True"
  by (simp_all add: is_ok_def)

lemma and_then_simps [simp]: "and_then (Inl e) f = Inl e" "and_then (Inr x) f = f x"
  by (simp_all add: and_then_def)

lemma ok_simps [simp]: "ok (Inl e) = None" "ok (Inr x) = Some x"
  by (simp_all add: ok_def)

lemma and_then_Inr_iff: "and_then r f = Inr y \<longleftrightarrow> (\<exists>x. r = Inr x \<and> f x = Inr y)"
  by (cases r) auto

definition option_or :: "'a option \<Rightarrow> 'a option \<Rightarrow> 'a option" where
  "option_or a b = (case a of Some x \<Rightarrow> Some x | None \<Rightarrow> b)"

definition unwrap_or :: "'a \<Rightarrow> 'a option \<Rightarrow> 'a" where
  "unwrap_or d x = (case x of Some y \<Rightarrow> y | None \<Rightarrow> d)"

lemma option_or_simps [simp]:
  "option_or (Some x) b = Some x" "option_or None b = b"
  by (simp_all add: option_or_def)

lemma unwrap_or_simps [simp]: "unwrap_or d (Some x) = x" "unwrap_or d None = d"
  by (simp_all add: unwrap_or_def)

section \<open>Hash maps\<close>

definition hm_get :: "('k, 'v) hashmap \<Rightarrow> 'k \<Rightarrow> 'v option" where
  "hm_get m k = map_of m k"

fun hm_insert :: "'k \<Rightarrow> 'v \<Rightarrow> ('k, 'v) hashmap \<Rightarrow> ('k, 'v) hashmap" where
  "hm_insert k v [] = [(k, v)]"
| "hm_insert k v (p # m) = (if fst p = k then (k, v) # m else p # hm_insert k v m)"

definition hm_remove :: "'k \<Rightarrow> ('k, 'v) hashmap \<Rightarrow> ('k, 'v) hashmap" where
  "hm_remove k m = filter (\<lambda>p. fst p \<noteq> k) m"

definition hm_retain :: "('k \<Rightarrow> 'v \<Rightarrow> bool) \<Rightarrow> ('k, 'v) hashmap \<Rightarrow> ('k, 'v) hashmap" where
  "hm_retain P m = filter (\<lambda>p. P (fst p) (snd p)) m"

definition hm_contains :: "('k, 'v) hashmap \<Rightarrow> 'k \<Rightarrow> bool" where
  "hm_contains m k = (hm_get m k \<noteq> None)"

definition hm_wf :: "('k, 'v) hashmap \<Rightarrow> bool" where
  "hm_wf m = distinct (map fst m)"

lemma hm_get_empty [simp, store_simps]: "hm_get [] k = None"
  by (simp add: hm_get_def)

lemma hm_get_Cons: "hm_get (p # m) k = (if fst p = k then Some (snd p) else hm_get m k)"
  by (cases p) (auto simp: hm_get_def)

lemma hm_get_insert [store_simps]:
  "hm_get (hm_insert k v m) k' = (if k' = k then Some v else hm_get m k')"
  by (induction m) (auto simp: hm_get_Cons)

lemma hm_get_remove [store_simps]:
  "hm_get (hm_remove k m) k' = (if k' = k then None else hm_get m k')"
  by (induction m) (auto simp: hm_remove_def hm_get_Cons)

lemma hm_keys_insert: "fst ` set (hm_insert k v m) = insert k (fst ` set m)"
  by (induction m) auto

lemma hm_wf_empty [simp]: "hm_wf []"
  by (simp add: hm_wf_def)

lemma hm_wf_Cons: "hm_wf (p # m) \<longleftrightarrow> fst p \<notin> fst ` set m \<and> hm_wf m"
  by (simp add: hm_wf_def)

lemma hm_wf_insert [simp, intro]: "hm_wf m \<Longrightarrow> hm_wf (hm_insert k v m)"
  by (induction m) (auto simp: hm_wf_Cons hm_keys_insert image_iff)

lemma hm_wf_filter: "hm_wf m \<Longrightarrow> hm_wf (filter P m)"
  by (simp add: hm_wf_def distinct_map_filter)

lemma hm_wf_remove [simp, intro]: "hm_wf m \<Longrightarrow> hm_wf (hm_remove k m)"
  by (simp add: hm_remove_def hm_wf_filter)

lemma hm_wf_retain [simp, intro]: "hm_wf m \<Longrightarrow> hm_wf (hm_retain P m)"
  by (simp add: hm_retain_def hm_wf_filter)

lemma hm_get_eq_None: "hm_get m k = None \<longleftrightarrow> k \<notin> fst ` set m"
  by (simp add: hm_get_def map_of_eq_None_iff)

lemma hm_get_retain [store_simps]:
  assumes "hm_wf m"
  shows "hm_get (hm_retain P m) k =
    (case hm_get m k of None \<Rightarrow> None | Some v \<Rightarrow> if P k v then Some v else None)"
  using assms
proof (induction m)
  case Nil
  then show ?case by (simp add: hm_retain_def)
next
  case (Cons p m)
  then have wf: "hm_wf m" and fresh: "hm_get m (fst p) = None"
    by (auto simp: hm_wf_Cons hm_get_eq_None)
  with Cons.IH show ?case
    by (cases "fst p = k") (auto simp: hm_retain_def hm_get_Cons split: option.splits)
qed

lemma hm_in_set: "hm_wf m \<Longrightarrow> (k, v) \<in> set m \<longleftrightarrow> hm_get m k = Some v"
  by (simp add: hm_wf_def hm_get_def)

lemma hm_get_in_set: "hm_get m k = Some v \<Longrightarrow> (k, v) \<in> set m"
  by (simp add: hm_get_def map_of_SomeD)

lemma hm_set_insert: "set (hm_insert k v m) \<subseteq> insert (k, v) (set m)"
  by (induction m) auto

lemma hm_set_insert_wf:
  "hm_wf m \<Longrightarrow> set (hm_insert k v m) = insert (k, v) {p \<in> set m. fst p \<noteq> k}"
proof (induction m)
  case Nil
  then show ?case by simp
next
  case (Cons p m)
  have other: "fst q \<noteq> k" if "fst p = k" "q \<in> set m" for q
    using that Cons.prems by (auto simp: hm_wf_Cons image_iff)
  show ?case
    using Cons other by (auto simp: hm_wf_Cons)
qed

lemma hm_length_remove: "hm_wf m \<Longrightarrow> hm_get m k = Some v \<Longrightarrow> Suc (length (hm_remove k m)) = length m"
proof (induction m)
  case Nil
  then show ?case by simp
next
  case (Cons p m)
  show ?case
  proof (cases "fst p = k")
    case True
    then have "filter (\<lambda>p. fst p \<noteq> k) m = m"
      using Cons.prems by (intro filter_True) (auto simp: hm_wf_Cons image_iff)
    with True show ?thesis by (simp add: hm_remove_def)
  next
    case False
    with Cons show ?thesis by (simp add: hm_remove_def hm_wf_Cons hm_get_Cons)
  qed
qed

lemma hm_length_insert:
  "length (hm_insert k v m) = (if hm_contains m k then length m else Suc (length m))"
  by (induction m) (auto simp: hm_contains_def hm_get_Cons)

lemma hm_length_retain: "length (hm_retain P m) \<le> length m"
  by (simp add: hm_retain_def)

section \<open>The map interface\<close>

text \<open>What a component that keeps entries in a map relies on.\<close>

locale keyed_store =
  fixes lookup :: "'m \<Rightarrow> 'k \<Rightarrow> 'v option"
    and put :: "'k \<Rightarrow> 'v \<Rightarrow> 'm \<Rightarrow> 'm"
    and drop_key :: "'k \<Rightarrow> 'm \<Rightarrow> 'm"
    and keep :: "('k \<Rightarrow> 'v \<Rightarrow> bool) \<Rightarrow> 'm \<Rightarrow> 'm"
    and valid :: "'m \<Rightarrow> bool"
  assumes lookup_put: "lookup (put k v m) k' = (if k' = k then Some v else lookup m k')"
    and lookup_drop: "lookup (drop_key k m) k' = (if k' = k then None else lookup m k')"
    and lookup_keep: "valid m \<Longrightarrow> lookup (keep P m) k =
      (case lookup m k of None \<Rightarrow> None | Some v \<Rightarrow> if P k v then Some v else None)"
    and valid_put: "valid m \<Longrightarrow> valid (put k v m)"
    and valid_drop: "valid m \<Longrightarrow> valid (drop_key k m)"
    and valid_keep: "valid m \<Longrightarrow> valid (keep P m)"
begin

lemma take_once: "lookup (drop_key k m) k = None"
  by (simp add: lookup_drop)

lemma keep_subset: "valid m \<Longrightarrow> lookup (keep P m) k = Some v \<Longrightarrow> lookup m k = Some v \<and> P k v"
  by (auto simp: lookup_keep split: option.splits if_splits)

lemma keep_hit: "valid m \<Longrightarrow> lookup m k = Some v \<Longrightarrow> P k v \<Longrightarrow> lookup (keep P m) k = Some v"
  by (simp add: lookup_keep)

lemma put_other: "k' \<noteq> k \<Longrightarrow> lookup (put k v m) k' = lookup m k'"
  by (simp add: lookup_put)

lemma invariant_put:
  assumes "\<And>k v. lookup m k = Some v \<Longrightarrow> Q k v" and "Q k v"
  shows "lookup (put k v m) k' = Some v' \<Longrightarrow> Q k' v'"
  using assms by (auto simp: lookup_put split: if_splits)

end

interpretation hm: keyed_store hm_get hm_insert hm_remove hm_retain hm_wf
  by unfold_locales (auto simp: store_simps)


section \<open>Bounded buffers\<close>

text \<open>
  A buffer of fixed capacity that drops its oldest element when a new one arrives at a full
  buffer. \<open>elems\<close> reads the contents, oldest first.
\<close>

locale bounded_queue =
  fixes push :: "'a \<Rightarrow> 'q \<Rightarrow> 'q"
    and elems :: "'q \<Rightarrow> 'a list"
    and cap :: nat
    and valid :: "'q \<Rightarrow> bool"
  assumes cap_pos: "0 < cap"
    and valid_bound: "valid q \<Longrightarrow> length (elems q) \<le> cap"
    and valid_push: "valid q \<Longrightarrow> valid (push x q)"
    and elems_push: "valid q \<Longrightarrow> elems (push x q) =
      (if length (elems q) < cap then elems q else tl (elems q)) @ [x]"
begin

lemma push_bound: "valid q \<Longrightarrow> length (elems (push x q)) \<le> cap"
  by (simp add: valid_push valid_bound)

lemma newest_last: "valid q \<Longrightarrow> last (elems (push x q)) = x"
  by (simp add: elems_push)

lemma valid_fold: "valid q \<Longrightarrow> valid (fold push xs q)"
  by (induction xs arbitrary: q) (auto simp: valid_push)

lemma elems_push_drop:
  assumes "valid q"
  shows "elems (push x q) = drop (Suc (length (elems q)) - cap) (elems q @ [x])"
proof (cases "length (elems q) < cap")
  case True
  with assms show ?thesis by (simp add: elems_push)
next
  case False
  with assms have "length (elems q) = cap" by (simp add: valid_bound order_antisym)
  with assms cap_pos show ?thesis by (cases "elems q") (auto simp: elems_push)
qed

lemma elems_fold:
  "valid q \<Longrightarrow> elems (fold push xs q) = drop (length (elems q) + length xs - cap) (elems q @ xs)"
proof (induction xs arbitrary: q)
  case Nil
  then show ?case by (simp add: valid_bound)
next
  case (Cons x xs)
  let ?k = "Suc (length (elems q)) - cap"
  have len: "length (elems (push x q)) = Suc (length (elems q)) - ?k"
    using Cons.prems by (simp add: elems_push_drop)
  have sum: "length (elems (push x q)) + length xs - cap + ?k = length (elems q) + length (x # xs) - cap"
    using valid_bound [OF Cons.prems] by (simp add: len)
  have "elems (fold push (x # xs) q) =
      drop (length (elems (push x q)) + length xs - cap) (elems (push x q) @ xs)"
    using Cons by (simp add: valid_push)
  also have "elems (push x q) @ xs = drop ?k (elems q @ x # xs)"
    using Cons.prems cap_pos by (simp add: elems_push_drop)
  also have "drop (length (elems (push x q)) + length xs - cap) (drop ?k (elems q @ x # xs)) =
      drop (length (elems q) + length (x # xs) - cap) (elems q @ x # xs)"
    by (simp only: drop_drop sum)
  finally show ?case .
qed

end

section \<open>Transition systems\<close>

locale transition_system =
  fixes start :: "'s \<Rightarrow> bool"
    and step :: "'s \<Rightarrow> 's \<Rightarrow> bool"
    and safe :: "'s \<Rightarrow> bool"
  assumes safe_start: "start s \<Longrightarrow> safe s"
    and safe_step: "step s t \<Longrightarrow> safe s \<Longrightarrow> safe t"
begin

lemma safe_steps: "step\<^sup>*\<^sup>* s t \<Longrightarrow> safe s \<Longrightarrow> safe t"
  by (induction rule: rtranclp_induct) (auto intro: safe_step)

lemma safe_reachable: "start s \<Longrightarrow> step\<^sup>*\<^sup>* s t \<Longrightarrow> safe t"
  using safe_start safe_steps by blast

end

section \<open>Generation counters\<close>

text \<open>
  Several components guard a slow operation with a 64-bit counter: the operation samples the
  counter, works without a lock, and commits only if the counter still has the sampled value.
  Every conflicting operation bumps the counter. \<open>apply_all\<close> runs the interleaved operations.
\<close>

fun apply_all :: "('e \<Rightarrow> 's \<Rightarrow> 's) \<Rightarrow> 'e list \<Rightarrow> 's \<Rightarrow> 's" where
  "apply_all step [] s = s"
| "apply_all step (e # es) s = apply_all step es (step e s)"

fun bump_count :: "('e \<Rightarrow> 's \<Rightarrow> 's) \<Rightarrow> ('e \<Rightarrow> 's \<Rightarrow> bool) \<Rightarrow> 'e list \<Rightarrow> 's \<Rightarrow> nat" where
  "bump_count step bumps [] s = 0"
| "bump_count step bumps (e # es) s =
     (if bumps e s then 1 else 0) + bump_count step bumps es (step e s)"

lemma apply_all_append: "apply_all step (es @ fs) s = apply_all step fs (apply_all step es s)"
  by (induction es arbitrary: s) auto

locale epoch_counter =
  fixes epoch :: "'s \<Rightarrow> u64"
    and step :: "'e \<Rightarrow> 's \<Rightarrow> 's"
    and bumps :: "'e \<Rightarrow> 's \<Rightarrow> bool"
  assumes epoch_step: "epoch (step e s) = epoch s + (if bumps e s then 1 else 0)"
begin

lemma epoch_apply_all: "epoch (apply_all step es s) = epoch s + of_nat (bump_count step bumps es s)"
  by (induction es arbitrary: s) (auto simp: epoch_step)

lemma epoch_unchanged: "bump_count step bumps es s = 0 \<Longrightarrow> epoch (apply_all step es s) = epoch s"
  by (simp add: epoch_apply_all)

lemma epoch_detects:
  assumes "0 < bump_count step bumps es s" and "bump_count step bumps es s < 2 ^ 64"
  shows "epoch (apply_all step es s) \<noteq> epoch s"
proof
  assume "epoch (apply_all step es s) = epoch s"
  then have "(of_nat (bump_count step bumps es s) :: u64) = 0"
    by (simp add: epoch_apply_all)
  then have "2 ^ 64 dvd bump_count step bumps es s"
    by (simp add: word_of_nat_eq_0_iff)
  with assms show False by (auto dest: dvd_imp_le)
qed

lemma epoch_iff:
  assumes "bump_count step bumps es s < 2 ^ 64"
  shows "epoch (apply_all step es s) = epoch s \<longleftrightarrow> bump_count step bumps es s = 0"
  using epoch_detects [OF _ assms] epoch_unchanged by blast

end

section \<open>Normalisers\<close>

text \<open>A partial function into canonical values that leaves canonical values alone.\<close>

locale normaliser =
  fixes norm :: "'a \<Rightarrow> 'a option"
    and canonical :: "'a \<Rightarrow> bool"
  assumes norm_canonical: "norm x = Some y \<Longrightarrow> canonical y"
    and canonical_fixed: "canonical y \<Longrightarrow> norm y = Some y"
begin

lemma norm_idem: "norm x = Some y \<Longrightarrow> norm y = Some y"
  by (blast intro: norm_canonical canonical_fixed)

lemma norm_range: "(\<exists>x. norm x = Some y) \<longleftrightarrow> canonical y"
  by (blast intro: norm_canonical canonical_fixed)

end

section \<open>JSON values\<close>

text \<open>
  \<open>JFloat m e\<close> is the finite number \<open>m * 2 ^ e\<close>, which covers every finite \<^verbatim>\<open>f64\<close>.
\<close>

datatype jnum = JPos u64 | JNeg int | JFloat int int

datatype json =
    JNull
  | JBool bool
  | JNum jnum
  | JStr string
  | JArr "json list"
  | JObj "(string \<times> json) list"

fun json_get :: "json \<Rightarrow> string \<Rightarrow> json option" where
  "json_get (JObj m) k = hm_get m k"
| "json_get _ k = None"

fun json_str :: "json \<Rightarrow> string option" where
  "json_str (JStr s) = Some s"
| "json_str _ = None"

fun json_bool :: "json \<Rightarrow> bool option" where
  "json_bool (JBool b) = Some b"
| "json_bool _ = None"

fun json_arr :: "json \<Rightarrow> json list option" where
  "json_arr (JArr xs) = Some xs"
| "json_arr _ = None"

fun json_obj :: "json \<Rightarrow> (string \<times> json) list option" where
  "json_obj (JObj m) = Some m"
| "json_obj _ = None"

definition i64_max :: nat where
  "i64_max = 9223372036854775807"

definition u64_max :: nat where
  "u64_max = 18446744073709551615"

fun json_i64 :: "json \<Rightarrow> int option" where
  "json_i64 (JNum (JPos n)) = (if unat n \<le> i64_max then Some (int (unat n)) else None)"
| "json_i64 (JNum (JNeg i)) = Some i"
| "json_i64 _ = None"

fun json_u64 :: "json \<Rightarrow> u64 option" where
  "json_u64 (JNum (JPos n)) = Some n"
| "json_u64 _ = None"

text \<open>\<^verbatim>\<open>f as u64\<close>: truncation towards zero, saturating at the bounds.\<close>

definition float_to_u64 :: "int \<Rightarrow> int \<Rightarrow> u64" where
  "float_to_u64 m e =
     (if m \<le> 0 then 0
      else of_nat (min u64_max (if 0 \<le> e then nat m * 2 ^ nat e else nat m div 2 ^ nat (- e))))"

definition opt_get :: "json option \<Rightarrow> string \<Rightarrow> json option" where
  "opt_get v k = Option.bind v (\<lambda>x. json_get x k)"

lemma opt_get_simps [simp]: "opt_get None k = None" "opt_get (Some v) k = json_get v k"
  by (simp_all add: opt_get_def)

definition json_insert :: "string \<Rightarrow> json \<Rightarrow> json \<Rightarrow> json" where
  "json_insert k v j = (case j of JObj m \<Rightarrow> JObj (hm_insert k v m) | _ \<Rightarrow> j)"

lemma json_get_insert:
  "json_obj j = Some m \<Longrightarrow> json_get (json_insert k v j) k' = (if k' = k then Some v else json_get j k')"
  by (cases j) (auto simp: json_insert_def hm_get_insert)

end
