(* ===== verification/Text.thy ===== *)
theory Text
  imports Prelude
begin

text \<open>
  Rust strings. A \<^verbatim>\<open>str\<close> is its UTF-8 bytes, a \<open>string\<close> here (a \<open>char\<close> is one byte);
  \<open>chars\<close> decodes it into Unicode code points (\<open>nat\<close>) and \<open>utf8\<close> encodes code points.
  Around them: the standard-library functions the relay calls (\<^verbatim>\<open>trim\<close>, \<^verbatim>\<open>to_lowercase\<close>,
  \<^verbatim>\<open>split_whitespace\<close>, \<^verbatim>\<open>strip_prefix\<close>, \<^verbatim>\<open>strip_suffix\<close>, \<^verbatim>\<open>find\<close>, \<^verbatim>\<open>splitn\<close>, \<^verbatim>\<open>join\<close>).
\<close>

section \<open>UTF-8\<close>

definition byte :: "char \<Rightarrow> nat" where
  "byte c = of_char c"

lemma byte_less [simp]: "byte c < 256"
  by (simp add: byte_def)

lemma byte_inverse: "char_of (byte c) = c"
  by (simp add: byte_def)

lemma byte_inject: "byte a = byte b \<longleftrightarrow> a = b"
  by (metis byte_inverse)

lemma byte_nibbles [simp]: "byte c div 16 < 16" "byte c mod 16 < 16"
  using byte_less [of c] by (auto simp del: byte_less)

definition is_cont :: "nat \<Rightarrow> bool" where
  "is_cont b = (128 \<le> b \<and> b < 192)"

text \<open>Well-formed sequences of two, three and four bytes (Unicode, table 3-7).\<close>

definition seq2 :: "nat \<Rightarrow> nat \<Rightarrow> bool" where
  "seq2 a b = (194 \<le> a \<and> a < 224 \<and> is_cont b)"

definition seq3 :: "nat \<Rightarrow> nat \<Rightarrow> nat \<Rightarrow> bool" where
  "seq3 a b c = (224 \<le> a \<and> a < 240 \<and> is_cont b \<and> is_cont c \<and>
     (a = 224 \<longrightarrow> 160 \<le> b) \<and> (a = 237 \<longrightarrow> b < 160))"

definition seq4 :: "nat \<Rightarrow> nat \<Rightarrow> nat \<Rightarrow> nat \<Rightarrow> bool" where
  "seq4 a b c d = (240 \<le> a \<and> a < 245 \<and> is_cont b \<and> is_cont c \<and> is_cont d \<and>
     (a = 240 \<longrightarrow> 144 \<le> b) \<and> (a = 244 \<longrightarrow> b < 144))"

fun utf8_bytes :: "nat list \<Rightarrow> nat list option" where
  "utf8_bytes [] = Some []"
| "utf8_bytes (a # as) =
     (if a < 128 then map_option ((#) a) (utf8_bytes as)
      else case as of [] \<Rightarrow> None | b # bs \<Rightarrow>
        (if seq2 a b then map_option ((#) ((a - 192) * 64 + (b - 128))) (utf8_bytes bs)
         else case bs of [] \<Rightarrow> None | c # cs \<Rightarrow>
          (if seq3 a b c
           then map_option ((#) ((a - 224) * 4096 + (b - 128) * 64 + (c - 128))) (utf8_bytes cs)
           else case cs of [] \<Rightarrow> None | d # ds \<Rightarrow>
            (if seq4 a b c d
             then map_option ((#) ((a - 240) * 262144 + (b - 128) * 4096 + (c - 128) * 64 + (d - 128)))
                    (utf8_bytes ds)
             else None))))"

definition utf8_decode :: "string \<Rightarrow> nat list option" where
  "utf8_decode s = utf8_bytes (map byte s)"

definition is_utf8 :: "string \<Rightarrow> bool" where
  "is_utf8 s = (utf8_decode s \<noteq> None)"

definition chars :: "string \<Rightarrow> nat list" where
  "chars s = unwrap_or [] (utf8_decode s)"

definition utf8_code :: "nat \<Rightarrow> nat list" where
  "utf8_code c =
     (if c < 128 then [c]
      else if c < 2048 then [192 + c div 64, 128 + c mod 64]
      else if c < 65536 then [224 + c div 4096, 128 + c div 64 mod 64, 128 + c mod 64]
      else [240 + c div 262144, 128 + c div 4096 mod 64, 128 + c div 64 mod 64, 128 + c mod 64])"

definition utf8 :: "nat list \<Rightarrow> string" where
  "utf8 cs = map char_of (concat (map utf8_code cs))"

definition scalar :: "nat \<Rightarrow> bool" where
  "scalar c = (c < 1114112 \<and> \<not> (55296 \<le> c \<and> c < 57344))"

lemma split_code: "(c :: nat) = (c div 4096) * 4096 + (c div 64 mod 64) * 64 + c mod 64"
proof -
  have "c = (c div 64) * 64 + c mod 64" by simp
  moreover have "c div 64 = (c div 64 div 64) * 64 + c div 64 mod 64" by simp
  moreover have "c div 64 div 64 = c div 4096" by (simp add: div_mult2_eq [symmetric])
  ultimately show ?thesis by linarith
qed

lemma split_code': "(c :: nat) div 4096 = (c div 262144) * 64 + c div 4096 mod 64"
proof -
  have "c div 4096 = (c div 4096 div 64) * 64 + c div 4096 mod 64" by simp
  moreover have "c div 4096 div 64 = c div 262144" by (simp add: div_mult2_eq [symmetric])
  ultimately show ?thesis by linarith
qed

lemma utf8_bytes_code:
  assumes "scalar c"
  shows "utf8_bytes (utf8_code c @ bs) = map_option ((#) c) (utf8_bytes bs)"
proof -
  consider "c < 128" | "128 \<le> c" "c < 2048" | "2048 \<le> c" "c < 65536" | "65536 \<le> c"
    by linarith
  then show ?thesis
  proof cases
    case 1
    then show ?thesis by (simp add: utf8_code_def)
  next
    case 2
    have "c div 64 * 64 + c mod 64 = c" by simp
    moreover have "2 \<le> c div 64" "c div 64 < 32" using 2 by auto
    ultimately show ?thesis
      using 2 by (simp add: utf8_code_def seq2_def is_cont_def)
  next
    case 3
    let ?a = "c div 4096" and ?b = "c div 64 mod 64" and ?c = "c mod 64"
    have sum: "?a * 4096 + ?b * 64 + ?c = c"
      using split_code [of c] by (simp add: algebra_simps)
    have bounds: "?b < 64" "?c < 64" by simp_all
    have a: "?a < 16" using 3 by auto
    have zero: "?a = 0 \<Longrightarrow> 32 \<le> ?b" using 3 sum bounds by linarith
    have surr: "?a = 13 \<Longrightarrow> ?b < 32"
      using assms sum bounds unfolding scalar_def by linarith
    have "seq3 (224 + ?a) (128 + ?b) (128 + ?c)"
      using a zero surr by (simp add: seq3_def is_cont_def)
    then show ?thesis
      using 3 sum by (simp add: utf8_code_def seq2_def)
  next
    case 4
    let ?a = "c div 262144" and ?b = "c div 4096 mod 64" and ?c = "c div 64 mod 64" and ?d = "c mod 64"
    have sum: "?a * 262144 + ?b * 4096 + ?c * 64 + ?d = c"
      using split_code [of c] split_code' [of c] by (simp add: algebra_simps)
    have bounds: "?b < 64" "?c < 64" "?d < 64" by simp_all
    have a: "?a < 5" using assms 4 sum bounds unfolding scalar_def by linarith
    have zero: "?a = 0 \<Longrightarrow> 16 \<le> ?b" using 4 sum bounds by linarith
    have top: "?a = 4 \<Longrightarrow> ?b < 16" using assms sum bounds unfolding scalar_def by linarith
    have "seq4 (240 + ?a) (128 + ?b) (128 + ?c) (128 + ?d)"
      using a zero top by (simp add: seq4_def is_cont_def)
    then show ?thesis
      using 4 sum by (simp add: utf8_code_def seq2_def seq3_def)
  qed
qed

lemma utf8_code_bytes: "scalar c \<Longrightarrow> b \<in> set (utf8_code c) \<Longrightarrow> b < 256"
  by (auto simp: utf8_code_def scalar_def split: if_splits)

lemma byte_char_of: "b < 256 \<Longrightarrow> byte (char_of b) = b"
  by (simp add: byte_def)

lemma map_byte_utf8: "list_all scalar cs \<Longrightarrow> map byte (utf8 cs) = concat (map utf8_code cs)"
  by (induction cs) (auto simp: utf8_def byte_char_of utf8_code_bytes map_idI)

text \<open>Encoding code points and decoding the bytes gives the code points back.\<close>

lemma utf8_decode_utf8: "list_all scalar cs \<Longrightarrow> utf8_decode (utf8 cs) = Some cs"
proof -
  assume sc: "list_all scalar cs"
  have "utf8_bytes (concat (map utf8_code cs)) = Some cs"
    using sc by (induction cs) (auto simp: utf8_bytes_code)
  with sc show ?thesis by (simp add: utf8_decode_def map_byte_utf8)
qed

lemma chars_utf8: "list_all scalar cs \<Longrightarrow> chars (utf8 cs) = cs"
  by (simp add: chars_def utf8_decode_utf8)

definition is_ascii :: "string \<Rightarrow> bool" where
  "is_ascii s = list_all (\<lambda>c. byte c < 128) s"

lemma chars_ascii:
  assumes "is_ascii s"
  shows "utf8_decode s = Some (map byte s)" "chars s = map byte s"
proof -
  have "utf8_bytes (map byte s) = Some (map byte s)"
    using assms by (induction s) (auto simp: is_ascii_def)
  then show "utf8_decode s = Some (map byte s)" "chars s = map byte s"
    by (simp_all add: utf8_decode_def chars_def)
qed

lemma is_ascii_utf8: "is_ascii s \<Longrightarrow> is_utf8 s"
  by (simp add: is_utf8_def chars_ascii)

section \<open>Characters\<close>

definition is_lower :: "nat \<Rightarrow> bool" where "is_lower c = (97 \<le> c \<and> c \<le> 122)"
definition is_upper :: "nat \<Rightarrow> bool" where "is_upper c = (65 \<le> c \<and> c \<le> 90)"
definition is_digit :: "nat \<Rightarrow> bool" where "is_digit c = (48 \<le> c \<and> c \<le> 57)"
definition is_alnum :: "nat \<Rightarrow> bool" where "is_alnum c = (is_lower c \<or> is_upper c \<or> is_digit c)"

text \<open>Unicode \<^verbatim>\<open>White_Space\<close>.\<close>

definition is_space :: "nat \<Rightarrow> bool" where
  "is_space c = (9 \<le> c \<and> c \<le> 13 \<or> c = 32 \<or> c = 133 \<or> c = 160 \<or> c = 5760 \<or>
     8192 \<le> c \<and> c \<le> 8202 \<or> c = 8232 \<or> c = 8233 \<or> c = 8239 \<or> c = 8287 \<or> c = 12288)"

text \<open>
  \<^verbatim>\<open>char::to_lowercase\<close>, as far as ASCII results go. Besides \<open>A\<close> to \<open>Z\<close> exactly two code points
  have an ASCII character in their lower case: U+0130 (\<open>i\<close> and a combining dot) and U+212A
  (\<open>k\<close>). Every other code point above 127 stays above 127, and the callers treat those alike,
  so it stands for its own lower case.
\<close>

definition lower_char :: "nat \<Rightarrow> nat list" where
  "lower_char c =
     (if is_upper c then [c + 32] else if c = 304 then [105, 775] else if c = 8490 then [107] else [c])"

definition ascii_lower :: "char \<Rightarrow> char" where
  "ascii_lower c = (if is_upper (byte c) then char_of (byte c + 32) else c)"

definition eq_ignore_ascii_case :: "string \<Rightarrow> string \<Rightarrow> bool" where
  "eq_ignore_ascii_case a b = (map ascii_lower a = map ascii_lower b)"

section \<open>Trimming and splitting\<close>

definition trim_by :: "('a \<Rightarrow> bool) \<Rightarrow> 'a list \<Rightarrow> 'a list" where
  "trim_by P xs = rev (dropWhile P (rev (dropWhile P xs)))"

definition trim :: "string \<Rightarrow> string" where
  "trim s = utf8 (trim_by is_space (chars s))"

text \<open>Maximal runs of characters that do not satisfy \<open>P\<close>, as \<^verbatim>\<open>split_whitespace\<close> yields them.\<close>

fun words_by :: "('a \<Rightarrow> bool) \<Rightarrow> 'a list \<Rightarrow> 'a list \<Rightarrow> 'a list list" where
  "words_by P acc [] = (if acc = [] then [] else [rev acc])"
| "words_by P acc (c # cs) =
     (if P c then (if acc = [] then words_by P [] cs else rev acc # words_by P [] cs)
      else words_by P (c # acc) cs)"

definition split_whitespace :: "string \<Rightarrow> string list" where
  "split_whitespace s = map utf8 (words_by is_space [] (chars s))"

fun strip_prefix :: "'a list \<Rightarrow> 'a list \<Rightarrow> 'a list option" where
  "strip_prefix [] s = Some s"
| "strip_prefix (p # ps) (c # s) = (if p = c then strip_prefix ps s else None)"
| "strip_prefix (p # ps) [] = None"

definition strip_suffix :: "'a list \<Rightarrow> 'a list \<Rightarrow> 'a list option" where
  "strip_suffix p s = map_option rev (strip_prefix (rev p) (rev s))"

lemma strip_prefix_append [simp]: "strip_prefix p (p @ s) = Some s"
  by (induction p) auto

lemma strip_prefix_Some: "strip_prefix p s = Some r \<longleftrightarrow> s = p @ r"
  by (induction p s rule: strip_prefix.induct) auto

lemma strip_suffix_Some: "strip_suffix p s = Some r \<longleftrightarrow> s = r @ p"
  by (auto simp: strip_suffix_def strip_prefix_Some rev_swap)

definition starts_with :: "'a list \<Rightarrow> 'a list \<Rightarrow> bool" where
  "starts_with p s = (strip_prefix p s \<noteq> None)"

lemma starts_with_iff: "starts_with p s \<longleftrightarrow> (\<exists>r. s = p @ r)"
  by (auto simp: starts_with_def strip_prefix_Some)

text \<open>\<open>split_at_first pat s\<close>: the text before and after the first occurrence of \<open>pat\<close>.\<close>

fun split_at_first :: "'a list \<Rightarrow> 'a list \<Rightarrow> ('a list \<times> 'a list) option" where
  "split_at_first pat [] = (case strip_prefix pat [] of Some r \<Rightarrow> Some ([], r) | None \<Rightarrow> None)"
| "split_at_first pat (c # s) = (case strip_prefix pat (c # s) of
     Some r \<Rightarrow> Some ([], r)
   | None \<Rightarrow> map_option (\<lambda>(a, b). (c # a, b)) (split_at_first pat s))"

definition contains_str :: "string \<Rightarrow> string \<Rightarrow> bool" where
  "contains_str s pat = (split_at_first pat s \<noteq> None)"

lemma split_at_first_Some: "split_at_first pat s = Some (a, b) \<Longrightarrow> s = a @ pat @ b"
  by (induction pat s arbitrary: a b rule: split_at_first.induct)
     (auto simp: strip_prefix_Some split: option.splits)

lemma split_at_first_single: "c \<notin> set a \<Longrightarrow> split_at_first [c] (a @ c # b) = Some (a, b)"
  by (induction a) auto

lemma split_at_first_single_None: "split_at_first [c] s = None \<longleftrightarrow> c \<notin> set s"
  by (induction s) auto

lemma split_at_first_single_before: "split_at_first [c] s = Some (a, b) \<Longrightarrow> c \<notin> set a"
  by (induction s arbitrary: a b) (auto split: if_splits)

text \<open>\<^verbatim>\<open>splitn(n, pat)\<close>: at most \<open>n\<close> pieces, the last one keeps the rest.\<close>

fun splitn :: "nat \<Rightarrow> 'a list \<Rightarrow> 'a list \<Rightarrow> 'a list list" where
  "splitn 0 pat s = []"
| "splitn (Suc 0) pat s = [s]"
| "splitn (Suc (Suc n)) pat s = (case split_at_first pat s of
     None \<Rightarrow> [s] | Some (a, b) \<Rightarrow> a # splitn (Suc n) pat b)"

fun join :: "string \<Rightarrow> string list \<Rightarrow> string" where
  "join sep [] = []"
| "join sep [x] = x"
| "join sep (x # y # xs) = x @ sep @ join sep (y # xs)"

section \<open>Numbers in text\<close>

function dec_of_nat :: "nat \<Rightarrow> string" where
  "dec_of_nat n = (if n < 10 then [char_of (48 + n)] else dec_of_nat (n div 10) @ [char_of (48 + n mod 10)])"
  by pat_completeness auto
termination
  by (relation "measure id") auto

declare dec_of_nat.simps [simp del]

definition hex_digit :: "nat \<Rightarrow> char" where
  "hex_digit d = char_of (if d < 10 then 48 + d else 55 + d)"

definition hex_value :: "char \<Rightarrow> nat option" where
  "hex_value c =
     (let b = byte c in
      if is_digit b then Some (b - 48)
      else if 65 \<le> b \<and> b \<le> 70 then Some (b - 55)
      else if 97 \<le> b \<and> b \<le> 102 then Some (b - 87) else None)"

lemma hex_value_digit: "d < 16 \<Longrightarrow> hex_value (hex_digit d) = Some d"
  by (auto simp: hex_value_def hex_digit_def byte_def is_digit_def Let_def)

end
