(* ===== verification/Names.thy ===== *)
theory Names
  imports Text
begin

text \<open>
  Names (\<^verbatim>\<open>src/prefix.rs\<close>, \<^verbatim>\<open>src/adapter/server_name.rs\<close>,
  \<^verbatim>\<open>src/adapter/server_type_resolution.rs\<close>): the prefixed tool names clients see, the sanitised
  endpoint and server names, and the server type an endpoint advertises. Both sanitisers are
  normalisers: their outputs are exactly their fixed points.
\<close>

section \<open>Prefixed tool names\<close>

datatype prefix_error = MissingSegment string | EmptySegment string | EmptyToolSegment string

definition sep :: string where
  "sep = ''__''"

definition encode_tool_name :: "string \<Rightarrow> string option \<Rightarrow> string \<Rightarrow> string" where
  "encode_tool_name server_type instance_name tool =
     (case instance_name of
        Some inst \<Rightarrow> server_type @ sep @ inst @ sep @ tool
      | None \<Rightarrow> server_type @ sep @ tool)"

definition decode_tool_name :: "string \<Rightarrow> prefix_error + (string \<times> string option \<times> string)" where
  "decode_tool_name prefixed =
     (case splitn 3 sep prefixed of
        server_type # second # rest \<Rightarrow>
          (if server_type = [] \<or> second = [] then Inl (EmptySegment prefixed)
           else (case rest of
               tool # _ \<Rightarrow> (if tool = [] then Inl (EmptyToolSegment prefixed)
                             else Inr (server_type, Some second, tool))
             | [] \<Rightarrow> Inr (server_type, None, second)))
      | _ \<Rightarrow> Inl (MissingSegment prefixed))"

text \<open>
  A segment is separable when the first \<open>__\<close> of the segment followed by a separator is that
  separator: it holds no \<open>__\<close> and does not end in \<open>_\<close>.
\<close>

definition separable :: "string \<Rightarrow> bool" where
  "separable s = (split_at_first sep (s @ ''_'') = None)"

lemma separable_split: "separable s \<Longrightarrow> split_at_first sep (s @ sep @ t) = Some (s, t)"
proof (induction s)
  case Nil
  then show ?case by (simp add: sep_def separable_def split: list.splits)
next
  case (Cons c s)
  from Cons.prems have sep_s: "separable s" and here: "strip_prefix sep (c # s @ ''_'') = None"
    by (auto simp: separable_def split: option.splits)
  have "strip_prefix sep (c # s @ sep @ t) = None"
    using here by (cases s) (auto simp: sep_def split: if_splits)
  with Cons.IH [OF sep_s] show ?case by simp
qed

lemma splitn3: "splitn 3 pat s = (case split_at_first pat s of None \<Rightarrow> [s] | Some (a, b) \<Rightarrow>
  a # (case split_at_first pat b of None \<Rightarrow> [b] | Some (c, d) \<Rightarrow> [c, d]))"
  by (simp add: numeral_3_eq_3 split: option.splits)

lemma encode_append: "encode_tool_name st None tool = st @ sep @ tool"
  "encode_tool_name st (Some i) tool = st @ sep @ i @ sep @ tool"
  by (simp_all add: encode_tool_name_def)

text \<open>Decoding an encoded tool name returns the server type, the instance and the tool it was
  built from, for separable non-empty prefixes and a non-empty tool (which, without an instance,
  holds no separator of its own).\<close>

theorem tool_name_roundtrip:
  assumes "separable st" "st \<noteq> []" "tool \<noteq> []"
    and "case instance_name of None \<Rightarrow> split_at_first sep tool = None
         | Some i \<Rightarrow> separable i \<and> i \<noteq> []"
  shows "decode_tool_name (encode_tool_name st instance_name tool) = Inr (st, instance_name, tool)"
  using assms
  by (cases instance_name)
     (simp_all add: encode_append decode_tool_name_def splitn3 separable_split)

theorem tool_name_roundtrip_witness:
  "decode_tool_name (encode_tool_name ''fs'' (Some ''my-ep'') ''read__file'') =
     Inr (''fs'', Some ''my-ep'', ''read__file'')"
  by (rule tool_name_roundtrip) (simp_all add: separable_def sep_def)

lemma decode_ok_nonempty:
  assumes "decode_tool_name p = Inr (st, i, tool)"
  shows "st \<noteq> [] \<and> tool \<noteq> [] \<and> i \<noteq> Some []"
  using assms by (auto simp: decode_tool_name_def splitn3 split: option.splits list.splits if_splits)

text \<open>A decoded name encodes back to itself, whatever its segments are.\<close>

lemma encode_decode_tool_name:
  assumes "decode_tool_name p = Inr (st, i, tool)"
  shows "encode_tool_name st i tool = p"
  using assms
  by (auto simp: decode_tool_name_def splitn3 encode_append dest!: split_at_first_Some
      split: option.splits list.splits if_splits)

lemma decode_missing_segment: "(decode_tool_name p = Inl (MissingSegment p)) = (split_at_first sep p = None)"
  by (auto simp: decode_tool_name_def splitn3 split: option.splits list.splits)

section \<open>Endpoint names\<close>

definition endpoint_char :: "nat \<Rightarrow> bool" where
  "endpoint_char c = (is_lower c \<or> is_digit c \<or> c = 95 \<or> c = 45)"

definition sanitize_name :: "string \<Rightarrow> string option" where
  "sanitize_name name =
     (let lowered = concat (map lower_char (chars name));
          sanitized = filter endpoint_char (map (\<lambda>c. if c = 32 then 95 else c) lowered)
      in if sanitized = [] then None else Some (map char_of sanitized))"

definition canonical_name :: "string \<Rightarrow> bool" where
  "canonical_name s = (s \<noteq> [] \<and> list_all (\<lambda>c. endpoint_char (byte c)) s)"

lemma endpoint_char_props:
  assumes "endpoint_char c"
  shows "c < 128" "c \<noteq> 32" "\<not> is_space c" "lower_char c = [c]"
  using assms
  by (auto simp: endpoint_char_def is_lower_def is_digit_def is_space_def lower_char_def is_upper_def)

lemma endpoint_char_byte [simp]: "endpoint_char c \<Longrightarrow> byte (char_of c) = c"
  using endpoint_char_props(1) [of c] by (simp add: byte_char_of)

lemma map_byte_char_of: "list_all (\<lambda>c. c < 256) cs \<Longrightarrow> map byte (map char_of cs) = cs"
  by (induction cs) (auto simp: byte_char_of)

lemma map_char_of_byte: "map char_of (map byte s) = s"
  by (simp add: byte_inverse comp_def)

lemma concat_lower_id: "list_all (\<lambda>c. lower_char c = [c]) cs \<Longrightarrow> concat (map lower_char cs) = cs"
  by (induction cs) auto

lemma sanitize_name_fixed:
  assumes "canonical_name s"
  shows "sanitize_name s = Some s"
proof -
  let ?cs = "map byte s"
  have ep: "list_all endpoint_char ?cs" and ne: "?cs \<noteq> []"
    using assms by (auto simp: canonical_name_def list_all_iff)
  then have "is_ascii s"
    by (auto simp: is_ascii_def list_all_iff dest: endpoint_char_props(1))
  moreover have "concat (map lower_char ?cs) = ?cs"
    by (rule concat_lower_id) (use ep in \<open>auto simp: list_all_iff endpoint_char_props\<close>)
  moreover have "map (\<lambda>c. if c = 32 then 95 else c) ?cs = ?cs"
    by (rule map_idI) (use ep in \<open>auto simp: list_all_iff dest: endpoint_char_props(2)\<close>)
  moreover have "filter endpoint_char ?cs = ?cs"
    using ep by (auto simp: list_all_iff)
  ultimately show ?thesis
    using ne by (simp add: sanitize_name_def Let_def chars_ascii map_char_of_byte del: map_map)
qed

lemma sanitize_name_canonical:
  assumes "sanitize_name n = Some s"
  shows "canonical_name s"
  using assms
  by (auto simp: sanitize_name_def Let_def canonical_name_def list_all_iff split: if_splits)

interpretation names: normaliser sanitize_name canonical_name
  by unfold_locales (auto intro: sanitize_name_canonical sanitize_name_fixed)

section \<open>Server names\<close>

datatype server_name_error = NameMissing | NameEmpty | Unsanitizable string | TooLong nat

definition name_char :: "nat \<Rightarrow> bool" where
  "name_char c = (is_lower c \<or> is_digit c \<or> c = 95)"

text \<open>The loop over the lower-cased characters; the flag is \<^verbatim>\<open>last_was_dash\<close>.\<close>

fun sanitize_loop :: "bool \<Rightarrow> nat list \<Rightarrow> nat list" where
  "sanitize_loop dash [] = []"
| "sanitize_loop dash (c # cs) =
     (if name_char c then c # sanitize_loop False cs
      else if dash then sanitize_loop dash cs
      else 45 # sanitize_loop True cs)"

definition sanitize_server_name :: "string \<Rightarrow> server_name_error + string" where
  "sanitize_server_name raw =
     (let trimmed = trim_by is_space (chars raw) in
      if trimmed = [] then Inl NameEmpty
      else let out = sanitize_loop False (concat (map lower_char trimmed));
               sanitized = trim_by (\<lambda>c. c = 45) out
           in if sanitized = [] then Inl (Unsanitizable raw)
              else if 64 < length sanitized then Inl (TooLong (length sanitized))
              else Inr (map char_of sanitized))"

text \<open>\<open>dashed d cs\<close>: name characters and single dashes only; no dash first when \<open>d\<close>.\<close>

fun dashed :: "bool \<Rightarrow> nat list \<Rightarrow> bool" where
  "dashed d [] = True"
| "dashed d (c # cs) = (if name_char c then dashed False cs else c = 45 \<and> \<not> d \<and> dashed True cs)"

definition canonical_server_name :: "string \<Rightarrow> bool" where
  "canonical_server_name s =
     (s \<noteq> [] \<and> length s \<le> 64 \<and> dashed True (map byte s) \<and> byte (last s) \<noteq> 45)"

lemma name_char_not_dash: "name_char 45 = False"
  by (simp add: name_char_def is_lower_def is_digit_def)

lemma dashed_loop: "dashed d (sanitize_loop d cs)"
  by (induction d cs rule: sanitize_loop.induct) (auto simp: name_char_not_dash)

lemma loop_dashed: "dashed d cs \<Longrightarrow> sanitize_loop d cs = cs"
  by (induction d cs rule: dashed.induct) (auto split: if_splits)

lemma dashed_weaken: "dashed True cs \<Longrightarrow> dashed False cs"
  by (cases cs) (auto split: if_splits)

lemma dashed_append: "dashed d (xs @ ys) \<Longrightarrow> dashed d xs"
  by (induction d xs rule: dashed.induct) (auto split: if_splits)

lemma dashed_drop: "dashed d cs \<Longrightarrow> dashed True (dropWhile (\<lambda>c. c = 45) cs)"
proof (induction cs arbitrary: d)
  case Nil
  then show ?case by simp
next
  case (Cons c cs)
  show ?case
  proof (cases "c = 45")
    case True
    with Cons.prems have "dashed True cs" by (simp add: name_char_not_dash)
    with Cons.IH True show ?thesis by simp
  next
    case False
    with Cons.prems show ?thesis by (auto split: if_splits)
  qed
qed

lemma rev_dropWhile_rev_prefix: "\<exists>ys. xs = rev (dropWhile P (rev xs)) @ ys"
  by (metis rev_append rev_rev_ident takeWhile_dropWhile_id)

lemma last_rev_dropWhile: "rev (dropWhile P (rev xs)) \<noteq> [] \<Longrightarrow> \<not> P (last (rev (dropWhile P (rev xs))))"
  by (simp add: last_rev hd_dropWhile)

lemma dashed_trim:
  assumes "dashed d cs"
  shows "dashed True (trim_by (\<lambda>c. c = 45) cs)"
proof -
  let ?xs = "dropWhile (\<lambda>c. c = 45) cs"
  obtain ys where "?xs = rev (dropWhile (\<lambda>c. c = 45) (rev ?xs)) @ ys"
    using rev_dropWhile_rev_prefix by blast
  with dashed_drop [OF assms] show ?thesis
    unfolding trim_by_def by (metis dashed_append)
qed

lemma dashed_chars: "dashed d cs \<Longrightarrow> c \<in> set cs \<Longrightarrow> endpoint_char c"
  by (induction d cs rule: dashed.induct) (auto simp: endpoint_char_def name_char_def split: if_splits)

lemma trim_by_id:
  assumes "xs \<noteq> []" "\<not> P (hd xs)" "\<not> P (last xs)"
  shows "trim_by P xs = xs"
proof -
  have "dropWhile P xs = xs" using assms(1,2) by (cases xs) auto
  moreover have "dropWhile P (rev xs) = rev xs"
    using assms(1,3) by (cases xs rule: rev_cases) auto
  ultimately show ?thesis by (simp add: trim_by_def)
qed

lemma sanitize_server_name_canonical:
  assumes "sanitize_server_name raw = Inr s"
  shows "canonical_server_name s"
proof -
  let ?out = "sanitize_loop False (concat (map lower_char (trim_by is_space (chars raw))))"
  let ?t = "trim_by (\<lambda>c. c = 45) ?out"
  have t: "?t \<noteq> []" "length ?t \<le> 64" "s = map char_of ?t"
    using assms by (auto simp: sanitize_server_name_def Let_def split: if_splits)
  have d: "dashed True ?t" by (rule dashed_trim [OF dashed_loop])
  have small: "list_all (\<lambda>c. c < 256) ?t"
    using dashed_chars [OF d] endpoint_char_props(1) by (fastforce simp: list_all_iff)
  then have bytes: "map byte s = ?t" using t by (simp only: map_byte_char_of)
  have "last ?t \<noteq> 45"
    using last_rev_dropWhile [of "\<lambda>c. c = 45"] t(1) unfolding trim_by_def by metis
  moreover have "byte (last s) = last ?t"
    using t(1) bytes by (metis last_map map_is_Nil_conv)
  ultimately show ?thesis
    using t d bytes by (auto simp: canonical_server_name_def)
qed

lemma sanitize_server_name_fixed:
  assumes "canonical_server_name s"
  shows "sanitize_server_name s = Inr s"
proof -
  let ?cs = "map byte s"
  have s: "?cs \<noteq> []" "length ?cs \<le> 64" "dashed True ?cs" "last ?cs \<noteq> 45"
    using assms by (auto simp: canonical_server_name_def last_map)
  have ep: "\<And>c. c \<in> set ?cs \<Longrightarrow> endpoint_char c" by (rule dashed_chars [OF s(3)])
  then have "is_ascii s"
    by (auto simp: is_ascii_def list_all_iff dest: endpoint_char_props(1))
  then have chars: "chars s = ?cs" by (rule chars_ascii)
  have "trim_by is_space ?cs = ?cs"
    by (rule trim_by_id) (use s(1) ep endpoint_char_props(3) hd_in_set last_in_set in blast)+
  moreover have "concat (map lower_char ?cs) = ?cs"
    by (rule concat_lower_id) (use ep in \<open>auto simp: list_all_iff endpoint_char_props\<close>)
  moreover have "sanitize_loop False ?cs = ?cs"
    by (rule loop_dashed) (rule dashed_weaken [OF s(3)])
  moreover have "hd ?cs \<noteq> 45"
    using s(1,3) by (cases ?cs) (auto simp: name_char_not_dash)
  then have "trim_by (\<lambda>c. c = 45) ?cs = ?cs"
    using s(1,4) by (intro trim_by_id) auto
  ultimately show ?thesis
    using s(1,2) chars by (simp add: sanitize_server_name_def Let_def map_char_of_byte del: map_map)
qed

interpretation server_names: normaliser "\<lambda>s. ok (sanitize_server_name s)" canonical_server_name
proof unfold_locales
  show "ok (sanitize_server_name x) = Some y \<Longrightarrow> canonical_server_name y" for x y
    by (cases "sanitize_server_name x") (auto intro: sanitize_server_name_canonical)
  show "canonical_server_name y \<Longrightarrow> ok (sanitize_server_name y) = Some y" for y
    by (simp add: sanitize_server_name_fixed)
qed

text \<open>The names the server-name sanitiser can return are exactly the canonical ones (1 to 64
  characters of \<open>[a-z0-9_-]\<close>, no dash at either end, no two dashes in a row), and sanitising such
  a name again changes nothing.\<close>

theorem server_name_canonical:
  "(\<exists>raw. ok (sanitize_server_name raw) = Some s) = canonical_server_name s \<and>
   (canonical_server_name s \<longrightarrow> sanitize_server_name s = Inr s)"
  using server_names.norm_range sanitize_server_name_fixed by blast

theorem server_name_canonical_witness:
  "sanitize_server_name ''my-server_2'' = Inr ''my-server_2''"
proof -
  have "canonical_server_name ''my-server_2''"
    by (simp add: canonical_server_name_def byte_def name_char_def is_lower_def is_digit_def)
  then show ?thesis using server_name_canonical by blast
qed

section \<open>Server types\<close>

definition strip_suffixes :: "string list" where
  "strip_suffixes = [''-mcp-server'', ''_mcp_server'', ''-mcp'', ''_mcp'']"

fun strip_first :: "string list \<Rightarrow> string \<Rightarrow> string" where
  "strip_first [] name = name"
| "strip_first (sfx # sfxs) name = (case strip_suffix sfx name of
     Some stripped \<Rightarrow> (if stripped \<noteq> [] then stripped else strip_first sfxs name)
   | None \<Rightarrow> strip_first sfxs name)"

definition strip_mcp_server_suffix :: "string \<Rightarrow> string" where
  "strip_mcp_server_suffix name = strip_first strip_suffixes name"

definition effective_server_type :: "string option \<Rightarrow> string option \<Rightarrow> string option" where
  "effective_server_type override_field upstream_sanitized =
     (case override_field of
        Some o' \<Rightarrow> (case sanitize_server_name o' of
            Inr sanitized \<Rightarrow> Some sanitized
          | Inl _ \<Rightarrow> map_option strip_mcp_server_suffix upstream_sanitized)
      | None \<Rightarrow> map_option strip_mcp_server_suffix upstream_sanitized)"

lemma strip_first_cases:
  "strip_first sfxs name = name \<or> (\<exists>sfx \<in> set sfxs. name = strip_first sfxs name @ sfx \<and> strip_first sfxs name \<noteq> [])"
  by (induction sfxs) (auto simp: strip_suffix_Some split: option.splits)

lemma strip_mcp_nonempty: "name \<noteq> [] \<Longrightarrow> strip_mcp_server_suffix name \<noteq> []"
  using strip_first_cases [of strip_suffixes name] by (auto simp: strip_mcp_server_suffix_def)

lemma strip_mcp_prefix: "\<exists>sfx. name = strip_mcp_server_suffix name @ sfx \<and> (sfx = [] \<or> sfx \<in> set strip_suffixes)"
  using strip_first_cases [of strip_suffixes name] by (auto simp: strip_mcp_server_suffix_def)

text \<open>A usable override is advertised in canonical form and is never stripped; with an unusable
  or absent override, an upstream name is advertised with at most one of the four suffixes removed
  and never becomes empty.\<close>

theorem effective_server_type_rules:
  "(sanitize_server_name ov = Inr s \<longrightarrow>
      effective_server_type (Some ov) up = Some s \<and> canonical_server_name s) \<and>
   (name \<noteq> [] \<and> (ov' = None \<or> (\<exists>e. sanitize_server_name (the ov') = Inl e)) \<longrightarrow>
      (\<exists>t sfx. effective_server_type ov' (Some name) = Some t \<and> t \<noteq> [] \<and> name = t @ sfx \<and>
        (sfx = [] \<or> sfx \<in> set strip_suffixes)))"
  using strip_mcp_prefix [of name] strip_mcp_nonempty [of name] sanitize_server_name_canonical [of ov s]
  by (auto simp: effective_server_type_def split: option.splits sum.splits)

theorem effective_server_type_rules_witness:
  "\<exists>t sfx. effective_server_type (Some ''!!'') (Some ''github-mcp-server'') = Some t \<and> t \<noteq> [] \<and>
     ''github-mcp-server'' = t @ sfx \<and> (sfx = [] \<or> sfx \<in> set strip_suffixes)"
proof -
  have "sanitize_server_name ''!!'' = Inl (Unsanitizable ''!!'')"
    by (simp add: sanitize_server_name_def chars_ascii is_ascii_def byte_def trim_by_def is_space_def
        lower_char_def is_upper_def name_char_def is_lower_def is_digit_def)
  then show ?thesis
    using effective_server_type_rules [of "''x''" "''x''" None "''github-mcp-server''" "Some ''!!''"]
    by auto
qed

end
