(* ===== verification/Resource_Uri.thy ===== *)
theory Resource_Uri
  imports Text
begin

text \<open>
  Resource URIs (\<^verbatim>\<open>src/resource_uri.rs\<close>): the reversible per-endpoint wrapper
  \<open>mcp-relay://endpoint/percent-encoded-original\<close>. The percent-encoding crate is not part of the
  repository: the two functions the relay calls are arguments of the model, and the locale
  \<open>percent_codec\<close> states their documented per-byte behaviour.
\<close>

section \<open>The percent-encoding interface\<close>

text \<open>\<open>enc S s\<close> is \<^verbatim>\<open>utf8_percent_encode(s, S)\<close>; \<open>dec s\<close> are the bytes of
  \<^verbatim>\<open>percent_decode_str(s)\<close>.\<close>

locale percent_codec =
  fixes enc :: "(nat \<Rightarrow> bool) \<Rightarrow> string \<Rightarrow> string"
    and dec :: "string \<Rightarrow> string"
  assumes enc_Nil: "enc S [] = []"
    and enc_Cons: "enc S (c # s) =
      (if S (byte c) \<or> 128 \<le> byte c
       then CHR ''%'' # hex_digit (byte c div 16) # hex_digit (byte c mod 16) # enc S s
       else c # enc S s)"
    and dec_Nil: "dec [] = []"
    and dec_escape: "hex_value a = Some x \<Longrightarrow> hex_value b = Some y \<Longrightarrow>
      dec (CHR ''%'' # a # b # s) = char_of (16 * x + y) # dec s"
    and dec_plain: "c \<noteq> CHR ''%'' \<Longrightarrow> dec (c # s) = c # dec s"
begin

lemma dec_enc:
  assumes "S 37"
  shows "dec (enc S s) = s"
proof (induction s)
  case Nil
  show ?case by (simp add: enc_Nil dec_Nil)
next
  case (Cons c s)
  show ?case
  proof (cases "S (byte c) \<or> 128 \<le> byte c")
    case True
    have lt: "byte c < 256" by simp
    then have "hex_value (hex_digit (byte c div 16)) = Some (byte c div 16)"
      "hex_value (hex_digit (byte c mod 16)) = Some (byte c mod 16)"
      by (simp_all add: hex_value_digit less_mult_imp_div_less)
    moreover have "char_of (16 * (byte c div 16) + byte c mod 16) = c"
      by (simp add: byte_def)
    ultimately show ?thesis using True Cons by (simp add: enc_Cons dec_escape)
  next
    case False
    have "c \<noteq> CHR ''%''" using False assms by (auto simp: byte_def)
    with False Cons show ?thesis by (simp add: enc_Cons dec_plain)
  qed
qed

end

section \<open>Encode sets\<close>

definition controls :: "nat \<Rightarrow> bool" where
  "controls b = (b < 32 \<or> b = 127)"

definition encode_set_template :: "nat \<Rightarrow> bool" where
  "encode_set_template b =
     (controls b \<or> 32 \<le> b \<and> b \<le> 44 \<or> b = 47 \<or> 58 \<le> b \<and> b \<le> 64 \<or> 91 \<le> b \<and> b \<le> 94 \<or> b = 96 \<or> b = 124)"

definition encode_set :: "nat \<Rightarrow> bool" where
  "encode_set b = (encode_set_template b \<or> b = 123 \<or> b = 125)"

section \<open>Wrapping and unwrapping\<close>

datatype resource_uri_error =
  MissingScheme string | MissingSeparator string | EmptyEndpoint string | InvalidEncoding string

definition wrapper_prefix :: string where
  "wrapper_prefix = ''mcp-relay://''"

definition encode_resource_uri ::
  "((nat \<Rightarrow> bool) \<Rightarrow> string \<Rightarrow> string) \<Rightarrow> string \<Rightarrow> string \<Rightarrow> string" where
  "encode_resource_uri enc endpoint original =
     wrapper_prefix @ endpoint @ ''/'' @ enc encode_set original"

definition decode_resource_uri ::
  "(string \<Rightarrow> string) \<Rightarrow> string \<Rightarrow> resource_uri_error + (string \<times> string)" where
  "decode_resource_uri dec wrapped =
     (case strip_prefix wrapper_prefix wrapped of
        None \<Rightarrow> Inl (MissingScheme wrapped)
      | Some body \<Rightarrow>
         (case split_at_first ''/'' body of
            None \<Rightarrow> Inl (MissingSeparator wrapped)
          | Some (endpoint, encoded_original) \<Rightarrow>
             (if endpoint = [] then Inl (EmptyEndpoint wrapped)
              else let original = dec encoded_original
                   in if is_utf8 original then Inr (endpoint, original)
                      else Inl (InvalidEncoding wrapped))))"

definition maybe_encode_resource_uri ::
  "((nat \<Rightarrow> bool) \<Rightarrow> string \<Rightarrow> string) \<Rightarrow> string \<Rightarrow> string \<Rightarrow> bool \<Rightarrow> string" where
  "maybe_encode_resource_uri enc endpoint original skip_wrap =
     (if skip_wrap then original else encode_resource_uri enc endpoint original)"

definition encode_resource_uri_template ::
  "((nat \<Rightarrow> bool) \<Rightarrow> string \<Rightarrow> string) \<Rightarrow> string \<Rightarrow> string \<Rightarrow> string" where
  "encode_resource_uri_template enc endpoint original =
     wrapper_prefix @ endpoint @ ''/'' @ enc encode_set_template original"

definition maybe_encode_resource_uri_template ::
  "((nat \<Rightarrow> bool) \<Rightarrow> string \<Rightarrow> string) \<Rightarrow> string \<Rightarrow> string \<Rightarrow> bool \<Rightarrow> string" where
  "maybe_encode_resource_uri_template enc endpoint original skip_wrap =
     (if skip_wrap then original else encode_resource_uri_template enc endpoint original)"

definition maybe_decode_resource_uri ::
  "(string \<Rightarrow> string) \<Rightarrow> string \<Rightarrow> bool \<Rightarrow> resource_uri_error + (string option \<times> string)" where
  "maybe_decode_resource_uri dec incoming skip_wrap =
     (if skip_wrap then Inr (None, incoming)
      else and_then (decode_resource_uri dec incoming) (\<lambda>(ep, orig). Inr (Some ep, orig)))"

section \<open>Namespaces\<close>

text \<open>
  What the registry relies on: a wrapped URI names the endpoint it was wrapped for, and unwraps
  to the original. \<open>routable\<close> are the endpoint names this holds for.
\<close>

definition routable :: "string \<Rightarrow> bool" where
  "routable ep = (ep \<noteq> [] \<and> CHR ''/'' \<notin> set ep)"

locale uri_namespace =
  fixes wrap :: "string \<Rightarrow> string \<Rightarrow> string"
    and unwrap :: "string \<Rightarrow> 'e + (string \<times> string)"
    and good_ep :: "string \<Rightarrow> bool"
    and good_uri :: "string \<Rightarrow> bool"
  assumes unwrap_wrap: "good_ep ep \<Longrightarrow> good_uri u \<Longrightarrow> unwrap (wrap ep u) = Inr (ep, u)"
begin

lemma wrap_inject:
  assumes "good_ep e" "good_ep e'" "good_uri u" "good_uri u'" "wrap e u = wrap e' u'"
  shows "e = e' \<and> u = u'"
  by (metis assms unwrap_wrap sum.inject(2) prod.inject)

lemma no_cross_talk:
  "good_ep e \<Longrightarrow> good_ep e' \<Longrightarrow> good_uri u \<Longrightarrow> good_uri u' \<Longrightarrow> e \<noteq> e' \<Longrightarrow> wrap e u \<noteq> wrap e' u'"
  using wrap_inject by blast

end

lemma decode_wrapped:
  assumes "percent_codec enc dec" "S 37" "routable ep" "is_utf8 u"
  shows "decode_resource_uri dec (wrapper_prefix @ ep @ CHR ''/'' # enc S u) = Inr (ep, u)"
proof -
  have dec: "dec (enc S u) = u" by (rule percent_codec.dec_enc [where S = S, OF assms(1,2)])
  have "split_at_first [CHR ''/''] (ep @ CHR ''/'' # enc S u) = Some (ep, enc S u)"
    by (rule split_at_first_single) (use assms(3) in \<open>simp add: routable_def\<close>)
  then show ?thesis
    using assms(3,4) dec by (simp add: decode_resource_uri_def routable_def)
qed

lemma percent_in_sets: "encode_set 37" "encode_set_template 37"
  by (simp_all add: encode_set_def encode_set_template_def)

sublocale percent_codec \<subseteq> uris: uri_namespace "encode_resource_uri enc" "decode_resource_uri dec" routable is_utf8
  by unfold_locales (simp add: encode_resource_uri_def decode_wrapped [OF percent_codec_axioms] percent_in_sets)

sublocale percent_codec \<subseteq> templates: uri_namespace "encode_resource_uri_template enc" "decode_resource_uri dec" routable is_utf8
  by unfold_locales (simp add: encode_resource_uri_template_def decode_wrapped [OF percent_codec_axioms] percent_in_sets)

text \<open>A concrete codec, the functions the documentation of the crate describes.\<close>

definition pct_enc :: "(nat \<Rightarrow> bool) \<Rightarrow> string \<Rightarrow> string" where
  "pct_enc S s = concat (map (\<lambda>c.
     if S (byte c) \<or> 128 \<le> byte c
     then [CHR ''%'', hex_digit (byte c div 16), hex_digit (byte c mod 16)] else [c]) s)"

fun pct_dec :: "string \<Rightarrow> string" where
  "pct_dec [] = []"
| "pct_dec (c # s) =
     (if c = CHR ''%''
      then (case s of
          a # b # r \<Rightarrow> (case (hex_value a, hex_value b) of
              (Some x, Some y) \<Rightarrow> char_of (16 * x + y) # pct_dec r
            | _ \<Rightarrow> c # pct_dec s)
        | _ \<Rightarrow> c # pct_dec s)
      else c # pct_dec s)"

interpretation pct: percent_codec pct_enc pct_dec
  by unfold_locales (auto simp: pct_enc_def)

text \<open>For every percent codec with the documented per-byte behaviour, a resource URI or URI
  template wrapped for a routable endpoint unwraps to that endpoint and exactly the original,
  unless wrapping is skipped, where it passes through untouched.\<close>

theorem resource_uri_roundtrip:
  assumes "percent_codec enc dec" "routable ep" "is_utf8 original"
  shows "maybe_decode_resource_uri dec (maybe_encode_resource_uri enc ep original skip) skip =
      Inr (if skip then None else Some ep, original) \<and>
    maybe_decode_resource_uri dec (maybe_encode_resource_uri_template enc ep original skip) skip =
      Inr (if skip then None else Some ep, original)"
  using decode_wrapped [where S = encode_set, OF assms(1) percent_in_sets(1) assms(2,3)]
    decode_wrapped [where S = encode_set_template, OF assms(1) percent_in_sets(2) assms(2,3)]
  by (simp add: encode_resource_uri_def encode_resource_uri_template_def maybe_decode_resource_uri_def maybe_encode_resource_uri_def
      maybe_encode_resource_uri_template_def)

theorem resource_uri_roundtrip_witness:
  "maybe_decode_resource_uri pct_dec (maybe_encode_resource_uri pct_enc ''work'' ''ui://app/a b'' False) False =
     Inr (Some ''work'', ''ui://app/a b'')"
  using resource_uri_roundtrip [OF pct.percent_codec_axioms, of "''work''" "''ui://app/a b''" False]
  by (simp add: routable_def is_ascii_utf8 is_ascii_def byte_def)

text \<open>The encoded part of a wrapped URI is made of unreserved characters and percent escapes
  only, so wrapping a URI never introduces a path, query or fragment delimiter.\<close>

theorem wrapped_uri_alphabet:
  assumes "percent_codec enc dec"
  shows "\<exists>w. encode_resource_uri enc ep u = wrapper_prefix @ ep @ ''/'' @ w \<and>
    list_all (\<lambda>c. is_alnum (byte c) \<or> c \<in> set ''%-._~'') w"
proof -
  let ?w = "enc encode_set u"
  have plain: "is_alnum b \<or> b \<in> {45, 46, 95, 126}" if "\<not> encode_set b" "b < 128" for b
    using that unfolding encode_set_def encode_set_template_def controls_def is_alnum_def
      is_lower_def is_upper_def is_digit_def by simp arith
  have codes: "byte (CHR ''-'') = 45" "byte (CHR ''.'') = 46" "byte (CHR ''_'') = 95" "byte (CHR ''~'') = 126"
    by (simp_all add: byte_def)
  have named: "c \<in> set ''%-._~''" if "byte c \<in> {45, 46, 95, 126}" for c
    using that by (auto simp: codes [symmetric] byte_inject)
  have hex: "is_alnum (byte (hex_digit d))" if "d < 16" for d
    using that by (auto simp: hex_digit_def byte_char_of is_alnum_def is_digit_def is_upper_def)
  have "list_all (\<lambda>c. is_alnum (byte c) \<or> c \<in> set ''%-._~'') ?w"
  proof (induction u)
    case Nil
    show ?case by (simp add: percent_codec.enc_Nil [OF assms(1)])
  next
    case (Cons c u)
    have "byte c div 16 < 16" "byte c mod 16 < 16" by simp_all
    moreover have "is_alnum (byte c) \<or> c \<in> set ''%-._~''" if "\<not> encode_set (byte c)" "byte c < 128"
      using plain [OF that] named [of c] by auto
    ultimately show ?case
      using Cons hex by (auto simp: percent_codec.enc_Cons [OF assms(1)] not_le)
  qed
  then show ?thesis by (auto simp: encode_resource_uri_def)
qed

theorem wrapped_uri_alphabet_witness:
  "\<exists>w. encode_resource_uri pct_enc ''ep'' ''ui://a?b#c'' = wrapper_prefix @ ''ep'' @ ''/'' @ w \<and>
    list_all (\<lambda>c. is_alnum (byte c) \<or> c \<in> set ''%-._~'') w"
  by (rule wrapped_uri_alphabet [OF pct.percent_codec_axioms])

end
