(* ===== verification/Protocol.thy ===== *)
theory Protocol
  imports Text
begin

text \<open>
  Protocol dialects and JSON-RPC records (\<^verbatim>\<open>src/protocol.rs\<close>, \<^verbatim>\<open>src/jsonrpc.rs\<close>): the three MCP dialects,
  how the relay detects the dialect of an inbound request and of an upstream server, and the
  caching hint of a result.
\<close>

section \<open>JSON-RPC\<close>

record jsonrpc_error =
  err_code :: int
  err_message :: string
  err_data :: "json option"

record jsonrpc_request =
  rq_jsonrpc :: string
  rq_method :: string
  rq_params :: "json option"
  rq_id :: u64

record jsonrpc_notification =
  nt_jsonrpc :: string
  nt_method :: string
  nt_params :: "json option"

record jsonrpc_response =
  rs_jsonrpc :: string
  rs_result :: "json option"
  rs_error :: "jsonrpc_error option"
  rs_id :: "u64 option"

definition new_request :: "string \<Rightarrow> json option \<Rightarrow> u64 \<Rightarrow> jsonrpc_request" where
  "new_request method params i =
     \<lparr>rq_jsonrpc = ''2.0'', rq_method = method, rq_params = params, rq_id = i\<rparr>"

definition new_notification :: "string \<Rightarrow> json option \<Rightarrow> jsonrpc_notification" where
  "new_notification method params =
     \<lparr>nt_jsonrpc = ''2.0'', nt_method = method, nt_params = params\<rparr>"

section \<open>Dialects\<close>

datatype protocol_version = V2024_11_05 | V2025_03_26 | V2026_07_28

definition VERSION_2024_11_05 :: string where "VERSION_2024_11_05 = ''2024-11-05''"
definition VERSION_2025_03_26 :: string where "VERSION_2025_03_26 = ''2025-03-26''"
definition VERSION_2026_07_28 :: string where "VERSION_2026_07_28 = ''2026-07-28''"

definition META_CLIENT_INFO_KEY :: string where
  "META_CLIENT_INFO_KEY = ''io.modelcontextprotocol/clientInfo''"

definition LEGACY_DEFAULT :: protocol_version where
  "LEGACY_DEFAULT = V2025_03_26"

definition parse_version :: "string \<Rightarrow> protocol_version option" where
  "parse_version s =
     (if s = VERSION_2024_11_05 then Some V2024_11_05
      else if s = VERSION_2025_03_26 then Some V2025_03_26
      else if s = VERSION_2026_07_28 then Some V2026_07_28 else None)"

fun version_str :: "protocol_version \<Rightarrow> string" where
  "version_str V2024_11_05 = VERSION_2024_11_05"
| "version_str V2025_03_26 = VERSION_2025_03_26"
| "version_str V2026_07_28 = VERSION_2026_07_28"

definition is_2026 :: "protocol_version \<Rightarrow> bool" where
  "is_2026 v = (v = V2026_07_28)"

definition is_legacy :: "protocol_version \<Rightarrow> bool" where
  "is_legacy v = (\<not> is_2026 v)"

definition meta_client_info :: "json option \<Rightarrow> json option" where
  "meta_client_info params = opt_get (opt_get params ''_meta'') META_CLIENT_INFO_KEY"

definition detect_inbound_dialect :: "bool \<Rightarrow> string option \<Rightarrow> json option \<Rightarrow> protocol_version" where
  "detect_inbound_dialect has_initialize protocol_header params =
     (case Option.bind protocol_header parse_version of
        Some version \<Rightarrow> version
      | None \<Rightarrow> (if \<not> has_initialize \<and> meta_client_info params \<noteq> None then V2026_07_28
                 else LEGACY_DEFAULT))"

definition protocol_version_from_result :: "json \<Rightarrow> protocol_version option" where
  "protocol_version_from_result result =
     Option.bind (Option.bind (json_get result ''protocolVersion'') json_str) parse_version"

definition ttl_ms_from_result :: "json \<Rightarrow> u64 option" where
  "ttl_ms_from_result result =
     (case json_get result ''ttlMs'' of
        None \<Rightarrow> None
      | Some v \<Rightarrow>
         (case json_i64 v of
            Some n \<Rightarrow> Some (of_int (max n 0))
          | None \<Rightarrow>
             (case json_u64 v of
                Some n \<Rightarrow> Some n
              | None \<Rightarrow> (case v of JNum (JFloat m e) \<Rightarrow> Some (float_to_u64 m e) | _ \<Rightarrow> None))))"

definition detect_upstream_dialect :: "json option \<Rightarrow> json option \<Rightarrow> protocol_version" where
  "detect_upstream_dialect discover_result initialize_result =
     (case Option.bind discover_result protocol_version_from_result of
        Some version \<Rightarrow>
          (if is_2026 version then version
           else (case Option.bind initialize_result protocol_version_from_result of
               Some v \<Rightarrow> v | None \<Rightarrow> LEGACY_DEFAULT))
      | None \<Rightarrow> (case Option.bind initialize_result protocol_version_from_result of
               Some v \<Rightarrow> v | None \<Rightarrow> LEGACY_DEFAULT))"

lemmas version_strings = VERSION_2024_11_05_def VERSION_2025_03_26_def VERSION_2026_07_28_def

lemma parse_version_str [simp]: "parse_version (version_str v) = Some v"
  by (cases v) (simp_all add: parse_version_def version_strings)

lemma parse_version_Some: "parse_version s = Some v \<longleftrightarrow> s = version_str v"
  by (cases v) (auto simp: parse_version_def version_strings split: if_splits)

lemma is_legacy_cases: "is_legacy v \<longleftrightarrow> v = V2024_11_05 \<or> v = V2025_03_26"
  by (cases v) (auto simp: is_legacy_def is_2026_def)

text \<open>An inbound request is treated as 2026 exactly when its protocol header is the 2026
  version string, or there is no recognised header, no initialize handshake, and the client
  information sits in the request's metadata.\<close>

theorem inbound_2026_iff:
  "is_2026 (detect_inbound_dialect has_init header params) \<longleftrightarrow>
     header = Some VERSION_2026_07_28 \<or>
     Option.bind header parse_version = None \<and> \<not> has_init \<and> meta_client_info params \<noteq> None"
proof (cases header)
  case None
  then show ?thesis by (auto simp: detect_inbound_dialect_def is_2026_def LEGACY_DEFAULT_def)
next
  case (Some h)
  have "parse_version VERSION_2026_07_28 = Some V2026_07_28"
    using parse_version_str [of V2026_07_28] by (simp del: parse_version_str)
  moreover have "version_str v = VERSION_2026_07_28 \<longleftrightarrow> v = V2026_07_28" for v
    by (cases v) (simp_all add: version_strings)
  ultimately have str: "h = VERSION_2026_07_28 \<longleftrightarrow> parse_version h = Some V2026_07_28"
    using parse_version_Some [of h V2026_07_28] by simp
  show ?thesis
  proof (cases "parse_version h")
    case None
    with Some str show ?thesis
      by (simp add: detect_inbound_dialect_def is_2026_def LEGACY_DEFAULT_def)
  next
    case (Some v)
    with \<open>header = Some h\<close> str show ?thesis
      by (simp add: detect_inbound_dialect_def is_2026_def)
  qed
qed

text \<open>An upstream is 2026 only if one of its two results says so; a legacy discovery result
  never overrides the handshake, and unknown versions fall back to the legacy default.\<close>

theorem upstream_dialect_cases:
  "detect_upstream_dialect d i =
     (if Option.bind d protocol_version_from_result = Some V2026_07_28 then V2026_07_28
      else unwrap_or LEGACY_DEFAULT (Option.bind i protocol_version_from_result))"
  by (auto simp: detect_upstream_dialect_def is_2026_def split: option.splits)

lemma ttl_negative_is_zero:
  assumes "json_get r ''ttlMs'' = Some (JNum (JNeg n))" "n \<le> 0"
  shows "ttl_ms_from_result r = Some 0"
  using assms by (simp add: ttl_ms_from_result_def)

lemma ttl_unsigned:
  assumes "json_get r ''ttlMs'' = Some (JNum (JPos n))"
  shows "ttl_ms_from_result r = Some n"
  using assms by (simp add: ttl_ms_from_result_def)

end
