(* ===== verification/Addresses.thy ===== *)
theory Addresses
  imports Text
begin

text \<open>
  Network addresses: which IPs the listener may bind (\<^verbatim>\<open>src/listen_ips.rs\<close>), which hosts count as
  local network (\<^verbatim>\<open>src/local_network.rs\<close>), and the SSRF guard of OAuth requests
  (\<^verbatim>\<open>src/oauth/url_guard.rs\<close>). Address text syntax, URL parsing (the url crate) and DNS lookups
  are arguments of the operations that use them.
\<close>

type_synonym u8 = "8 word"

datatype ipv4 = Ipv4 u8 u8 u8 u8
datatype ipv6 = Ipv6 u16 u16 u16 u16 u16 u16 u16 u16
datatype ip = V4 ipv4 | V6 ipv6

section \<open>The standard library's address predicates\<close>

fun v4_loopback :: "ipv4 \<Rightarrow> bool" where "v4_loopback (Ipv4 a b c d) = (a = 127)"
fun v4_unspecified :: "ipv4 \<Rightarrow> bool" where "v4_unspecified (Ipv4 a b c d) = (a = 0 \<and> b = 0 \<and> c = 0 \<and> d = 0)"
fun v4_broadcast :: "ipv4 \<Rightarrow> bool" where "v4_broadcast (Ipv4 a b c d) = (a = 255 \<and> b = 255 \<and> c = 255 \<and> d = 255)"
fun v4_multicast :: "ipv4 \<Rightarrow> bool" where "v4_multicast (Ipv4 a b c d) = (224 \<le> a \<and> a \<le> 239)"
fun v4_link_local :: "ipv4 \<Rightarrow> bool" where "v4_link_local (Ipv4 a b c d) = (a = 169 \<and> b = 254)"
fun v4_private :: "ipv4 \<Rightarrow> bool" where
  "v4_private (Ipv4 a b c d) =
     (a = 10 \<or> a = 172 \<and> 16 \<le> b \<and> b \<le> 31 \<or> a = 192 \<and> b = 168)"

fun v6_loopback :: "ipv6 \<Rightarrow> bool" where
  "v6_loopback (Ipv6 a b c d e f g h) = (a = 0 \<and> b = 0 \<and> c = 0 \<and> d = 0 \<and> e = 0 \<and> f = 0 \<and> g = 0 \<and> h = 1)"
fun v6_unspecified :: "ipv6 \<Rightarrow> bool" where
  "v6_unspecified (Ipv6 a b c d e f g h) = (a = 0 \<and> b = 0 \<and> c = 0 \<and> d = 0 \<and> e = 0 \<and> f = 0 \<and> g = 0 \<and> h = 0)"
fun v6_multicast :: "ipv6 \<Rightarrow> bool" where
  "v6_multicast (Ipv6 a b c d e f g h) = (a AND 0xff00 = 0xff00)"
fun v6_first :: "ipv6 \<Rightarrow> u16" where
  "v6_first (Ipv6 a b c d e f g h) = a"

fun to_ipv4_mapped :: "ipv6 \<Rightarrow> ipv4 option" where
  "to_ipv4_mapped (Ipv6 a b c d e f g h) =
     (if a = 0 \<and> b = 0 \<and> c = 0 \<and> d = 0 \<and> e = 0 \<and> f = 0xffff
      then Some (Ipv4 (ucast (drop_bit 8 g)) (ucast g) (ucast (drop_bit 8 h)) (ucast h)) else None)"

definition ipv4_localhost :: ipv4 where
  "ipv4_localhost = Ipv4 127 0 0 1"

section \<open>Which addresses the listener may bind\<close>

datatype listen_ip_class = Eligible | Loopback | Ineligible string

fun is_cgnat :: "ipv4 \<Rightarrow> bool" where
  "is_cgnat (Ipv4 a b c d) = (a = 100 \<and> b AND 0xc0 = 64)"

definition classify_v4 :: "ipv4 \<Rightarrow> listen_ip_class" where
  "classify_v4 ip =
     (if v4_loopback ip then Loopback
      else if v4_unspecified ip
        then Ineligible ''unspecified address (0.0.0.0) would expose the relay on every interface''
      else if v4_broadcast ip then Ineligible ''broadcast address''
      else if v4_multicast ip then Ineligible ''multicast address''
      else if v4_link_local ip then Ineligible ''IPv4 link-local (169.254.0.0/16) is not supported''
      else if v4_private ip \<or> is_cgnat ip then Eligible
      else Ineligible ''public IPv4 address'')"

definition classify_v6 :: "ipv6 \<Rightarrow> listen_ip_class" where
  "classify_v6 ip =
     (case to_ipv4_mapped ip of
        Some v4 \<Rightarrow> classify_v4 v4
      | None \<Rightarrow>
         (if v6_loopback ip then Loopback
          else if v6_unspecified ip
            then Ineligible ''unspecified address (::) would expose the relay on every interface''
          else if v6_multicast ip then Ineligible ''multicast address''
          else let first = v6_first ip in
            if first AND 0xfe00 = 0xfc00 then Eligible
            else if first AND 0xffc0 = 0xfe80
              then Ineligible ''IPv6 link-local (fe80::/10) is not supported''
            else Ineligible ''public IPv6 address''))"

fun classify_listen_ip :: "ip \<Rightarrow> listen_ip_class" where
  "classify_listen_ip (V4 v4) = classify_v4 v4"
| "classify_listen_ip (V6 v6) = classify_v6 v6"

definition normalize_mapped :: "ip \<Rightarrow> ip" where
  "normalize_mapped ip = (case ip of
     V6 v6 \<Rightarrow> (case to_ipv4_mapped v6 of Some v4 \<Rightarrow> V4 v4 | None \<Rightarrow> ip) | V4 _ \<Rightarrow> ip)"

definition eligible_ip_kind :: "ip \<Rightarrow> string option" where
  "eligible_ip_kind ip =
     (if classify_listen_ip ip \<noteq> Eligible then None
      else Some (case normalize_mapped ip of
          V4 v4 \<Rightarrow> (if is_cgnat v4 then ''cgnat'' else ''private'')
        | V6 _ \<Rightarrow> ''ula''))"

text \<open>The acceptance loop; the warnings it logs are returned beside the addresses.\<close>

datatype listen_warning = Unparseable string | IneligibleEntry string string | LoopbackEntry string

fun accept_loop ::
  "(string \<Rightarrow> ip option) \<Rightarrow> bool \<Rightarrow> string list \<Rightarrow> ip list \<Rightarrow> listen_warning list \<Rightarrow> ip list \<times> listen_warning list" where
  "accept_loop parse warn [] ips ws = (ips, ws)"
| "accept_loop parse warn (entry # es) ips ws =
     (case parse (trim entry) of
        None \<Rightarrow> accept_loop parse warn es ips (if warn then ws @ [Unparseable entry] else ws)
      | Some ip0 \<Rightarrow>
         (let ip = normalize_mapped ip0 in
          case classify_listen_ip ip of
            Ineligible reason \<Rightarrow>
              accept_loop parse warn es ips (if warn then ws @ [IneligibleEntry entry reason] else ws)
          | Loopback \<Rightarrow>
              accept_loop parse warn es ips
                (if warn \<and> ip \<noteq> V4 ipv4_localhost then ws @ [LoopbackEntry entry] else ws)
          | Eligible \<Rightarrow>
              accept_loop parse warn es (if ip \<notin> set ips then ips @ [ip] else ips) ws))"

definition accepted_listen_ips ::
  "(string \<Rightarrow> ip option) \<Rightarrow> string list option \<Rightarrow> bool \<Rightarrow> ip list \<times> listen_warning list" where
  "accepted_listen_ips parse listen_ips warn_on_skip =
     accept_loop parse warn_on_skip (unwrap_or [] listen_ips) [] []"

definition resolve_extra_listen_addrs ::
  "(string \<Rightarrow> ip option) \<Rightarrow> string list option \<Rightarrow> u16 \<Rightarrow> (ip \<times> u16) list" where
  "resolve_extra_listen_addrs parse listen_ips port =
     map (\<lambda>ip. (ip, port)) (fst (accepted_listen_ips parse listen_ips True))"

definition canonical_listen_ips ::
  "(string \<Rightarrow> ip option) \<Rightarrow> (ip \<Rightarrow> string) \<Rightarrow> string list option \<Rightarrow> string list" where
  "canonical_listen_ips parse show_ip listen_ips =
     map show_ip (fst (accepted_listen_ips parse listen_ips False))"

subsection \<open>Eligibility as address ranges\<close>

fun v4_number :: "ipv4 \<Rightarrow> nat" where
  "v4_number (Ipv4 a b c d) = ((unat a * 256 + unat b) * 256 + unat c) * 256 + unat d"

definition in_range :: "nat \<Rightarrow> nat \<Rightarrow> nat \<Rightarrow> bool" where
  "in_range lo hi n = (lo \<le> n \<and> n \<le> hi)"

text \<open>10.0.0.0/8, 100.64.0.0/10, 172.16.0.0/12 and 192.168.0.0/16.\<close>

definition bindable_v4 :: "nat \<Rightarrow> bool" where
  "bindable_v4 n =
     (in_range 167772160 184549375 n \<or> in_range 1681915904 1686110207 n \<or>
      in_range 2886729728 2887778303 n \<or> in_range 3232235520 3232301055 n)"

lemma unat_lt2p_u8: "unat (b :: u8) < 256"
  using unsigned_less [of b] by simp

lemma u8_high_bits: "(b :: u8) AND 0xc0 = 64 \<longleftrightarrow> 64 \<le> b \<and> b < 128"
proof -
  have "\<forall>n < 256. (of_nat n :: u8) AND 0xc0 = 64 \<longleftrightarrow> 64 \<le> n \<and> n < 128"
    by code_simp
  moreover have "unat b < 256" using unat_lt2p_u8 [of b] .
  ultimately have "b AND 0xc0 = 64 \<longleftrightarrow> 64 \<le> unat b \<and> unat b < 128"
    by (metis of_nat_unat ucast_id)
  then show ?thesis by (simp add: word_le_nat_alt word_less_nat_alt)
qed

lemma u8_eq_nat: "(b :: u8) = numeral k \<longleftrightarrow> unat b = unat (numeral k :: u8)"
  by (simp add: word_unat_eq_iff)

lemma octet_range:
  fixes w x y z k l h :: nat
  assumes "w < 256" "x < 256" "y < 256" "z < 256" "l \<le> h" "h < 256"
  shows "in_range (k * 16777216 + l * 65536) (k * 16777216 + h * 65536 + 65535)
      (((w * 256 + x) * 256 + y) * 256 + z) \<longleftrightarrow> w = k \<and> l \<le> x \<and> x \<le> h"
proof -
  let ?n = "((w * 256 + x) * 256 + y) * 256 + z"
  consider "w < k" | "w = k" | "k < w" by linarith
  then show ?thesis
  proof cases
    case 1
    then have "Suc w * 16777216 \<le> k * 16777216" by (intro mult_le_mono1) simp
    with 1 assms show ?thesis unfolding in_range_def by auto
  next
    case 2
    have "l * 65536 \<le> x * 65536 + y * 256 + z \<longleftrightarrow> l \<le> x" using assms by linarith
    moreover have "x * 65536 + y * 256 + z \<le> h * 65536 + 65535 \<longleftrightarrow> x \<le> h" using assms by linarith
    ultimately show ?thesis using 2 unfolding in_range_def by (simp add: algebra_simps)
  next
    case 3
    then have "Suc k * 16777216 \<le> w * 16777216" by (intro mult_le_mono1) simp
    with 3 assms show ?thesis unfolding in_range_def by auto
  qed
qed

text \<open>An IPv4 address may be bound by the listener exactly when it lies in 10.0.0.0/8,
  100.64.0.0/10, 172.16.0.0/12 or 192.168.0.0/16.\<close>

theorem eligible_v4_ranges: "classify_listen_ip (V4 a) = Eligible \<longleftrightarrow> bindable_v4 (v4_number a)"
proof (cases a)
  case (Ipv4 w x y z)
  have lt: "unat w < 256" "unat x < 256" "unat y < 256" "unat z < 256"
    by (rule unat_lt2p_u8)+
  have "classify_listen_ip (V4 a) = Eligible \<longleftrightarrow>
      w = 10 \<or> w = 100 \<and> 64 \<le> x \<and> x < 128 \<or> w = 172 \<and> 16 \<le> x \<and> x \<le> 31 \<or> w = 192 \<and> x = 168"
    using Ipv4 by (auto simp: classify_v4_def u8_high_bits)
  also have "\<dots> \<longleftrightarrow>
      unat w = 10 \<and> 0 \<le> unat x \<and> unat x \<le> 255 \<or> unat w = 100 \<and> 64 \<le> unat x \<and> unat x \<le> 127 \<or>
      unat w = 172 \<and> 16 \<le> unat x \<and> unat x \<le> 31 \<or> unat w = 192 \<and> 168 \<le> unat x \<and> unat x \<le> 168"
    using lt(2) by (auto simp: word_le_nat_alt word_less_nat_alt u8_eq_nat)
  also have "\<dots> \<longleftrightarrow> bindable_v4 (v4_number a)"
    unfolding Ipv4 bindable_v4_def v4_number.simps
    using octet_range [OF lt, of 0 255 10] octet_range [OF lt, of 64 127 100]
      octet_range [OF lt, of 16 31 172] octet_range [OF lt, of 168 168 192]
    by simp
  finally show ?thesis .
qed


subsection \<open>What the acceptance loop keeps\<close>

lemma normalize_mapped_idem: "normalize_mapped (normalize_mapped ip) = normalize_mapped ip"
  by (auto simp: normalize_mapped_def split: ip.splits option.splits)

lemma classify_normalized: "classify_listen_ip (normalize_mapped ip) = classify_listen_ip ip"
  by (auto simp: normalize_mapped_def classify_v6_def split: ip.splits option.splits)

definition accepts :: "(string \<Rightarrow> ip option) \<Rightarrow> string \<Rightarrow> ip \<Rightarrow> bool" where
  "accepts parse entry ip =
     (\<exists>raw. parse (trim entry) = Some raw \<and> ip = normalize_mapped raw \<and> classify_listen_ip ip = Eligible)"

lemma accept_loop_set:
  "set (fst (accept_loop parse warn es ips ws)) = set ips \<union> {ip. \<exists>e \<in> set es. accepts parse e ip}"
proof (induction parse warn es ips ws rule: accept_loop.induct)
  case (1 parse warn ips ws)
  then show ?case by simp
next
  case (2 parse warn entry es ips ws)
  have split: "{ip. \<exists>e \<in> set (entry # es). accepts parse e ip} =
      {ip. accepts parse entry ip} \<union> {ip. \<exists>e \<in> set es. accepts parse e ip}"
    by auto
  show ?case
  proof (cases "parse (trim entry)")
    case None
    then have "{ip. accepts parse entry ip} = {}" by (simp add: accepts_def)
    with None 2(1) split show ?thesis by simp
  next
    case (Some raw)
    then have head: "{ip. accepts parse entry ip} =
        (if classify_listen_ip (normalize_mapped raw) = Eligible then {normalize_mapped raw} else {})"
      by (auto simp: accepts_def)
    show ?thesis
      using Some 2(2-4) [OF Some refl] split head
      by (auto simp: Let_def split: listen_ip_class.splits)
  qed
qed

lemma accept_loop_distinct: "distinct ips \<Longrightarrow> distinct (fst (accept_loop parse warn es ips ws))"
  by (induction es arbitrary: ips ws)
     (auto simp: Let_def split: option.splits listen_ip_class.splits)

lemma accept_loop_warn_indep:
  "fst (accept_loop parse w1 es ips ws1) = fst (accept_loop parse w2 es ips ws2)"
  by (induction es arbitrary: ips ws1 ws2)
     (auto simp: Let_def split: option.splits listen_ip_class.splits)

lemma accept_loop_silent: "snd (accept_loop parse False es ips ws) = ws"
  by (induction es arbitrary: ips)
     (auto simp: Let_def split: option.splits listen_ip_class.splits)

text \<open>The extra listener addresses are distinct, all on the configured port, never loopback or
  IPv4-mapped, and consist of exactly the eligible addresses among the entries (after trimming and
  un-mapping); the management echo lists the same addresses in the same order.\<close>

theorem extra_listen_addrs:
  "distinct (resolve_extra_listen_addrs parse entries port) \<and>
   (\<forall>ip p. (ip, p) \<in> set (resolve_extra_listen_addrs parse entries port) \<longleftrightarrow>
      p = port \<and> (\<exists>e \<in> set (unwrap_or [] entries). accepts parse e ip)) \<and>
   canonical_listen_ips parse show_ip entries =
     map (\<lambda>a. show_ip (fst a)) (resolve_extra_listen_addrs parse entries port)"
proof -
  have "distinct (fst (accepted_listen_ips parse entries True))"
    by (simp add: accepted_listen_ips_def accept_loop_distinct)
  then have "distinct (resolve_extra_listen_addrs parse entries port)"
    by (simp add: resolve_extra_listen_addrs_def distinct_map inj_on_def)
  moreover have "canonical_listen_ips parse show_ip entries =
      map (\<lambda>a. show_ip (fst a)) (resolve_extra_listen_addrs parse entries port)"
    using accept_loop_warn_indep [of parse False "unwrap_or [] entries" "[]" "[]" True "[]"]
    by (simp add: canonical_listen_ips_def resolve_extra_listen_addrs_def accepted_listen_ips_def comp_def)
  ultimately show ?thesis
    by (auto simp: resolve_extra_listen_addrs_def accepted_listen_ips_def accept_loop_set)
qed

lemma eligible_kind_iff: "eligible_ip_kind ip = None \<longleftrightarrow> classify_listen_ip ip \<noteq> Eligible"
  by (simp add: eligible_ip_kind_def)

section \<open>Local-network hosts\<close>

datatype host = Domain string | Host4 ipv4 | Host6 ipv6

definition is_private_ipv4 :: "ipv4 \<Rightarrow> bool" where
  "is_private_ipv4 ip = (v4_private ip \<or> v4_link_local ip)"

definition is_private_ipv6 :: "ipv6 \<Rightarrow> bool" where
  "is_private_ipv6 ip =
     (case to_ipv4_mapped ip of
        Some v4 \<Rightarrow> is_private_ipv4 v4
      | None \<Rightarrow> v6_first ip AND 0xfe00 = 0xfc00 \<or> v6_first ip AND 0xffc0 = 0xfe80)"

text \<open>\<open>rsplit_once_dot\<close>: the text after the last dot, if there is one.\<close>

definition rsplit_once_dot :: "string \<Rightarrow> string option" where
  "rsplit_once_dot s = (if CHR ''.'' \<in> set s then Some (rev (takeWhile (\<lambda>c. c \<noteq> CHR ''.'') (rev s))) else None)"

definition is_mdns_local_domain :: "string \<Rightarrow> bool" where
  "is_mdns_local_domain domain =
     (let trimmed = unwrap_or domain (strip_suffix ''.'' domain)
      in case rsplit_once_dot trimmed of
          Some tld \<Rightarrow> eq_ignore_ascii_case tld ''local'' | None \<Rightarrow> False)"

fun is_private_or_local_host :: "host \<Rightarrow> bool" where
  "is_private_or_local_host (Domain d) = is_mdns_local_domain d"
| "is_private_or_local_host (Host4 v4) = is_private_ipv4 v4"
| "is_private_or_local_host (Host6 v6) = is_private_ipv6 v6"

definition is_connection_refused :: "string \<Rightarrow> bool" where
  "is_connection_refused message = contains_str (map ascii_lower message) ''connection refused''"

text \<open>\<open>url_host\<close> stands for parsing with the url crate and reading the host.\<close>

definition url_targets_private_host :: "(string \<Rightarrow> host option) \<Rightarrow> string \<Rightarrow> bool" where
  "url_targets_private_host url_host url =
     (case url_host url of Some h \<Rightarrow> is_private_or_local_host h | None \<Rightarrow> False)"

definition with_local_network_hint ::
  "(string \<Rightarrow> host option) \<Rightarrow> string \<Rightarrow> string \<Rightarrow> string \<Rightarrow> bool \<Rightarrow> string" where
  "with_local_network_hint url_host hint url message is_macos =
     (if is_macos \<and> url_targets_private_host url_host url \<and> \<not> is_connection_refused message
      then message @ '' ('' @ hint @ '')'' else message)"

lemma loopback_host_no_hint:
  "v4_loopback a \<Longrightarrow> \<not> is_private_or_local_host (Host4 a)"
  by (cases a) (auto simp: is_private_ipv4_def)

section \<open>The SSRF guard\<close>

record parsed_url =
  url_scheme :: string
  url_host_str :: "string option"
  url_port :: "u16 option"

datatype url_guard_error =
    InvalidUrl string
  | SchemeNotAllowed string string
  | AddressNotAllowed ip string
  | ResolveFailed string string
  | NoAddresses string

record pinned_target =
  pin_host :: string
  pin_addrs :: "(ip \<times> u16) list"

fun is_loopback_or_link_local :: "ip \<Rightarrow> bool" where
  "is_loopback_or_link_local (V4 v4) = (v4_loopback v4 \<or> v4_link_local v4)"
| "is_loopback_or_link_local (V6 v6) = (v6_loopback v6 \<or> v6_first v6 AND 0xffc0 = 0xfe80)"

fun is_always_blocked :: "ip \<Rightarrow> bool" where
  "is_always_blocked (V4 v4) = (v4_unspecified v4 \<or> v4_multicast v4 \<or> v4_broadcast v4)"
| "is_always_blocked (V6 v6) = (v6_unspecified v6 \<or> v6_multicast v6)"

fun check_addrs :: "bool \<Rightarrow> string \<Rightarrow> (ip \<times> u16) list \<Rightarrow> url_guard_error + unit" where
  "check_addrs allow_insecure h [] = Inr ()"
| "check_addrs allow_insecure h ((ip, p) # as) =
     (if is_always_blocked ip then Inl (AddressNotAllowed ip h)
      else if \<not> allow_insecure \<and> is_loopback_or_link_local ip then Inl (AddressNotAllowed ip h)
      else check_addrs allow_insecure h as)"

definition validate_and_resolve ::
  "(string \<Rightarrow> parsed_url option) \<Rightarrow> (string \<Rightarrow> u16 \<Rightarrow> string + (ip \<times> u16) list) \<Rightarrow>
   string \<Rightarrow> bool \<Rightarrow> url_guard_error + pinned_target" where
  "validate_and_resolve parse_url lookup_host url allow_insecure =
     (case parse_url url of
        None \<Rightarrow> Inl (InvalidUrl url)
      | Some parsed \<Rightarrow>
         (if url_scheme parsed \<noteq> ''https'' \<and> \<not> (allow_insecure \<and> url_scheme parsed = ''http'')
          then Inl (SchemeNotAllowed (url_scheme parsed) url)
          else case url_host_str parsed of
              None \<Rightarrow> Inl (InvalidUrl url)
            | Some h \<Rightarrow>
               (case url_port parsed of
                  None \<Rightarrow> Inl (InvalidUrl url)
                | Some port \<Rightarrow>
                   (case lookup_host h port of
                      Inl e \<Rightarrow> Inl (ResolveFailed h e)
                    | Inr lookups \<Rightarrow>
                       (if lookups = [] then Inl (NoAddresses h)
                        else and_then (check_addrs allow_insecure h lookups)
                          (\<lambda>_. Inr \<lparr>pin_host = h, pin_addrs = lookups\<rparr>))))))"

lemma check_addrs_ok:
  "check_addrs ai h as = Inr () \<longleftrightarrow>
     (\<forall>a \<in> set as. \<not> is_always_blocked (fst a) \<and> (ai \<or> \<not> is_loopback_or_link_local (fst a)))"
  by (induction ai h as rule: check_addrs.induct) auto


definition sample_https :: "string \<Rightarrow> parsed_url option" where
  "sample_https url = Some \<lparr>url_scheme = ''https'', url_host_str = Some ''idp'', url_port = Some 443\<rparr>"


text \<open>The guard does not un-map IPv4-mapped IPv6 addresses: a lookup that answers
  \<open>::ffff:127.0.0.1\<close>, which the listener rules classify as loopback, passes even without the
  insecure option.\<close>

theorem guard_misses_mapped_loopback:
  "classify_listen_ip (V6 (Ipv6 0 0 0 0 0 0xffff 0x7f00 1)) = Loopback \<and>
   validate_and_resolve sample_https (\<lambda>h port. Inr [(V6 (Ipv6 0 0 0 0 0 0xffff 0x7f00 1), port)])
     url False =
   Inr \<lparr>pin_host = ''idp'', pin_addrs = [(V6 (Ipv6 0 0 0 0 0 0xffff 0x7f00 1), 443)]\<rparr>"
  by (simp add: classify_v6_def classify_v4_def validate_and_resolve_def sample_https_def)

end
