(* ===== verification/Tokens.thy ===== *)
theory Tokens
  imports Text
begin

text \<open>
  Token persistence (\<^verbatim>\<open>src/token_manager.rs\<close>): token sets, registered-client records and IdP
  credentials as files of one directory. A file's content is an abstract type; the serde
  serialisers are arguments. An I/O oracle decides which file operation fails, so every \<^verbatim>\<open>?\<close> of
  the source is a branch.
\<close>

section \<open>Records\<close>

record token_set =
  access_token :: string
  refresh_token :: "string option"
  expires_at :: "u64 option"
  token_type :: string
  scope :: "string option"
  issued_at :: "u64 option"

record dcr_credentials =
  client_id :: string
  client_secret :: "string option"
  client_secret_expires_at :: u64
  registered_at :: u64
  issuer :: "string option"
  resource_client_id :: "string option"
  resource_client_secret :: "string option"
  registered_via_dcr :: bool

record idp_credentials =
  idp_issuer :: string
  id_token :: string
  idp_refresh_token :: "string option"
  id_token_expires_at :: "u64 option"
  obtained_at :: u64

text \<open>\<open>now\<close> is the current Unix time in seconds.\<close>

definition token_is_valid :: "u64 \<Rightarrow> token_set \<Rightarrow> bool" where
  "token_is_valid now t = (case expires_at t of Some exp \<Rightarrow> now + 30 < exp | None \<Rightarrow> True)"

definition dcr_issuer_allows_reuse :: "string option \<Rightarrow> string option \<Rightarrow> bool" where
  "dcr_issuer_allows_reuse stored current =
     (case (stored, current) of (Some s, Some c) \<Rightarrow> s = c | _ \<Rightarrow> True)"

lemma token_valid_margin:
  assumes "token_is_valid now t" "expires_at t = Some exp" "unat now + 30 < 2 ^ 64"
  shows "unat now + 30 < unat exp"
proof -
  have "unat (now + 30) = unat now + 30"
    using assms(3) by (simp add: unat_add_lem [THEN iffD1])
  then show ?thesis using assms(1,2) by (simp add: token_is_valid_def word_less_nat_alt)
qed

section \<open>Scopes\<close>

fun push_new :: "'a list \<Rightarrow> 'a list \<Rightarrow> 'a list" where
  "push_new out [] = out"
| "push_new out (s # ss) = push_new (if s \<notin> set out then out @ [s] else out) ss"

definition merge_scopes :: "string option \<Rightarrow> string \<Rightarrow> string" where
  "merge_scopes prior requested =
     join '' '' (push_new [] (split_whitespace (unwrap_or [] prior) @ split_whitespace requested))"

lemma push_new_set: "set (push_new out ss) = set out \<union> set ss"
  by (induction out ss rule: push_new.induct) auto

lemma push_new_distinct: "distinct out \<Longrightarrow> distinct (push_new out ss)"
  by (induction out ss rule: push_new.induct) auto

lemma push_new_prefix: "\<exists>rest. push_new out ss = out @ rest"
proof (induction out ss rule: push_new.induct)
  case (1 out)
  show ?case by simp
next
  case (2 out s ss)
  then show ?case by (cases "s \<in> set out") auto
qed

lemma push_new_append: "push_new out (xs @ ys) = push_new (push_new out xs) ys"
  by (induction out xs rule: push_new.induct) auto

lemma push_new_known: "set ss \<subseteq> set out \<Longrightarrow> push_new out ss = out"
  by (induction out ss rule: push_new.induct) auto

section \<open>The token directory\<close>

record 'c stored =
  content :: 'c
  mode :: nat

type_synonym 'c fs = "(string, 'c stored) hashmap"

datatype io_op = OpWrite string | OpChmod string | OpRename string string | OpRead string | OpRemove string

datatype token_error = Io string | Json string

text \<open>
  The oracle: \<open>io op = Some e\<close> when the operation fails. A failing write may leave a partial
  temporary file, \<open>junk\<close>. Files are created with the process's default mode.
\<close>

record 'c world =
  io :: "io_op \<Rightarrow> string option"
  junk :: "'c option"
  default_mode :: nat
  files :: "'c fs"

definition write_file_op :: "string \<Rightarrow> 'c \<Rightarrow> 'c world \<Rightarrow> 'c world \<times> (token_error + unit)" where
  "write_file_op p c w =
     (let m = (case hm_get (files w) p of Some f \<Rightarrow> mode f | None \<Rightarrow> default_mode w) in
      case io w (OpWrite p) of
        Some e \<Rightarrow> (case junk w of
            None \<Rightarrow> (w, Inl (Io e))
          | Some j \<Rightarrow> (w\<lparr>files := hm_insert p \<lparr>content = j, mode = m\<rparr> (files w)\<rparr>, Inl (Io e)))
      | None \<Rightarrow> (w\<lparr>files := hm_insert p \<lparr>content = c, mode = m\<rparr> (files w)\<rparr>, Inr ()))"

definition chmod_op :: "string \<Rightarrow> nat \<Rightarrow> 'c world \<Rightarrow> 'c world \<times> (token_error + unit)" where
  "chmod_op p m w =
     (case io w (OpChmod p) of
        Some e \<Rightarrow> (w, Inl (Io e))
      | None \<Rightarrow> (case hm_get (files w) p of
            None \<Rightarrow> (w, Inl (Io ''not found''))
          | Some f \<Rightarrow> (w\<lparr>files := hm_insert p (f\<lparr>mode := m\<rparr>) (files w)\<rparr>, Inr ())))"

definition rename_op :: "string \<Rightarrow> string \<Rightarrow> 'c world \<Rightarrow> 'c world \<times> (token_error + unit)" where
  "rename_op p q w =
     (case io w (OpRename p q) of
        Some e \<Rightarrow> (w, Inl (Io e))
      | None \<Rightarrow> (case hm_get (files w) p of
            None \<Rightarrow> (w, Inl (Io ''not found''))
          | Some f \<Rightarrow> (w\<lparr>files := hm_insert q f (hm_remove p (files w))\<rparr>, Inr ())))"

text \<open>The write, chmod 0600, rename sequence every save uses.\<close>

definition save_file :: "string \<Rightarrow> 'c \<Rightarrow> 'c world \<Rightarrow> 'c world \<times> (token_error + unit)" where
  "save_file name c w =
     (let tmp = ''.'' @ name @ ''.tmp'' in
      case write_file_op tmp c w of
        (w1, Inl e) \<Rightarrow> (w1, Inl e)
      | (w1, Inr _) \<Rightarrow> (case chmod_op tmp 384 w1 of
            (w2, Inl e) \<Rightarrow> (w2, Inl e)
          | (w2, Inr _) \<Rightarrow> rename_op tmp name w2))"

text \<open>Reading a file: missing is \<^verbatim>\<open>None\<close>, other errors and unparsable content are errors.\<close>

definition load_file :: "('c \<Rightarrow> 'a option) \<Rightarrow> string \<Rightarrow> 'c world \<Rightarrow> token_error + 'a option" where
  "load_file de name w =
     (case io w (OpRead name) of
        Some e \<Rightarrow> Inl (Io e)
      | None \<Rightarrow> (case hm_get (files w) name of
            None \<Rightarrow> Inr None
          | Some f \<Rightarrow> (case de (content f) of Some x \<Rightarrow> Inr (Some x) | None \<Rightarrow> Inl (Json ''parse''))))"

definition delete_file :: "string \<Rightarrow> 'c world \<Rightarrow> 'c world \<times> (token_error + unit)" where
  "delete_file name w =
     (case hm_get (files w) name of
        None \<Rightarrow> (w, Inr ())
      | Some _ \<Rightarrow> (case io w (OpRemove name) of
            Some e \<Rightarrow> (w, Inl (Io e))
          | None \<Rightarrow> (w\<lparr>files := hm_remove name (files w)\<rparr>, Inr ())))"

definition token_file :: "string \<Rightarrow> string" where "token_file n = n @ ''.json''"
definition dcr_file :: "string \<Rightarrow> string" where "dcr_file n = n @ ''.dcr.json''"
definition idp_file :: "(string \<Rightarrow> string) \<Rightarrow> string \<Rightarrow> string" where
  "idp_file key_hash k = key_hash k @ ''.idp.json''"

definition save_tokens where
  "save_tokens ser n (t :: token_set) w = save_file (token_file n) (ser t) w"

definition load_tokens :: "('c \<Rightarrow> token_set option) \<Rightarrow> string \<Rightarrow> 'c world \<Rightarrow> token_error + token_set option" where
  "load_tokens de n w = load_file de (token_file n) w"

definition delete_tokens where
  "delete_tokens n w = delete_file (token_file n) w"

definition save_dcr where
  "save_dcr ser n (d :: dcr_credentials) w = save_file (dcr_file n) (ser d) w"

definition load_dcr :: "('c \<Rightarrow> dcr_credentials option) \<Rightarrow> string \<Rightarrow> 'c world \<Rightarrow> token_error + dcr_credentials option" where
  "load_dcr de n w = load_file de (dcr_file n) w"

definition delete_dcr where
  "delete_dcr n w = delete_file (dcr_file n) w"

definition save_idp where
  "save_idp ser key_hash k (d :: idp_credentials) w = save_file (idp_file key_hash k) (ser d) w"

definition load_idp :: "('c \<Rightarrow> idp_credentials option) \<Rightarrow> (string \<Rightarrow> string) \<Rightarrow> string \<Rightarrow> 'c world \<Rightarrow> token_error + idp_credentials option" where
  "load_idp de key_hash k w = load_file de (idp_file key_hash k) w"

definition delete_idp where
  "delete_idp key_hash k w = delete_file (idp_file key_hash k) w"

text \<open>Read-modify-write of a client record, under the write lock in the source.\<close>

definition update_dcr ::
  "(dcr_credentials \<Rightarrow> 'c) \<Rightarrow> ('c \<Rightarrow> dcr_credentials option) \<Rightarrow> string \<Rightarrow>
   (dcr_credentials option \<Rightarrow> token_error + dcr_credentials option) \<Rightarrow> 'c world \<Rightarrow>
   'c world \<times> (token_error + dcr_credentials option)" where
  "update_dcr ser de n upd w =
     (case load_dcr de n w of
        Inl e \<Rightarrow> (w, Inl e)
      | Inr existing \<Rightarrow> (case upd existing of
            Inl e \<Rightarrow> (w, Inl e)
          | Inr (Some creds) \<Rightarrow>
              (if existing \<noteq> Some creds
               then (case save_dcr ser n creds w of
                   (w1, Inl e) \<Rightarrow> (w1, Inl e) | (w1, Inr _) \<Rightarrow> (w1, Inr (Some creds)))
               else (w, Inr (Some creds)))
          | Inr None \<Rightarrow> (case delete_dcr n w of
                (w1, Inl e) \<Rightarrow> (w1, Inl e) | (w1, Inr _) \<Rightarrow> (w1, Inr None))))"

definition cleared :: "dcr_credentials \<Rightarrow> dcr_credentials" where
  "cleared existing =
     \<lparr>client_id = '''', client_secret = None, client_secret_expires_at = 0,
      registered_at = registered_at existing, issuer = None,
      resource_client_id = resource_client_id existing,
      resource_client_secret = resource_client_secret existing,
      registered_via_dcr = registered_via_dcr existing\<rparr>"

definition clear_dcr_requesting_client ::
  "(dcr_credentials \<Rightarrow> 'c) \<Rightarrow> ('c \<Rightarrow> dcr_credentials option) \<Rightarrow> string \<Rightarrow> string \<Rightarrow> 'c world \<Rightarrow>
   'c world \<times> (token_error + bool)" where
  "clear_dcr_requesting_client ser de n expected w =
     (case load_dcr de n w of
        Inl e \<Rightarrow> (w, Inl e)
      | Inr None \<Rightarrow> (w, Inr False)
      | Inr (Some existing) \<Rightarrow>
          (if \<not> registered_via_dcr existing then (w, Inr False)
           else if client_id existing \<noteq> expected then (w, Inr False)
           else (case save_dcr ser n (cleared existing) w of
               (w1, Inl e) \<Rightarrow> (w1, Inl e) | (w1, Inr _) \<Rightarrow> (w1, Inr True))))"

section \<open>Saving is atomic and private\<close>

definition tmp_of :: "string \<Rightarrow> string" where
  "tmp_of name = ''.'' @ name @ ''.tmp''"

lemma tmp_of_neq [simp]: "tmp_of name \<noteq> name" "name \<noteq> tmp_of name"
proof -
  have "length (tmp_of name) \<noteq> length name" by (simp add: tmp_of_def)
  then show "tmp_of name \<noteq> name" "name \<noteq> tmp_of name" by metis+
qed

lemmas file_ops = write_file_op_def chmod_op_def rename_op_def Let_def

lemma save_file_frame:
  assumes "save_file name c w = (w', r)" "p \<noteq> name" "p \<noteq> tmp_of name"
  shows "hm_get (files w') p = hm_get (files w) p"
  using assms unfolding save_file_def file_ops tmp_of_def
  by (auto simp: store_simps split: option.splits)

lemma save_file_outcome:
  assumes "save_file name c w = (w', r)"
  shows "case r of
      Inl e \<Rightarrow> hm_get (files w') name = hm_get (files w) name
    | Inr _ \<Rightarrow> hm_get (files w') name = Some \<lparr>content = c, mode = 384\<rparr> \<and>
        hm_get (files w') (tmp_of name) = None"
  using assms tmp_of_neq [of name] unfolding save_file_def file_ops tmp_of_def
  by (auto simp: store_simps split: option.splits if_splits)

lemma save_file_io: "save_file name c w = (w', r) \<Longrightarrow> io w' = io w"
  unfolding save_file_def file_ops by (auto split: option.splits)

text \<open>A token save is all or nothing, whichever file operation fails: after an error the token
  file is what it was; after success it holds exactly the new tokens with mode 0600, the temporary
  file is gone, and loading returns the saved tokens. No other file changes either way.\<close>

theorem save_tokens_atomic:
  assumes "\<And>t. de (ser t) = Some t" "save_tokens ser n t w = (w', r)"
  shows "(\<forall>p. p \<noteq> token_file n \<and> p \<noteq> tmp_of (token_file n) \<longrightarrow> hm_get (files w') p = hm_get (files w) p) \<and>
    (case r of
       Inl e \<Rightarrow> hm_get (files w') (token_file n) = hm_get (files w) (token_file n)
     | Inr _ \<Rightarrow> hm_get (files w') (token_file n) = Some \<lparr>content = ser t, mode = 384\<rparr> \<and>
         hm_get (files w') (tmp_of (token_file n)) = None \<and>
         (io w (OpRead (token_file n)) = None \<longrightarrow> load_tokens de n w' = Inr (Some t)))"
  using save_file_frame [OF assms(2) [unfolded save_tokens_def]]
    save_file_outcome [OF assms(2) [unfolded save_tokens_def]]
    save_file_io [OF assms(2) [unfolded save_tokens_def]] assms(1)
  by (auto simp: load_tokens_def load_file_def split: sum.splits)

definition sample_tokens :: token_set where
  "sample_tokens = \<lparr>access_token = ''at'', refresh_token = None, expires_at = Some 100,
     token_type = ''Bearer'', scope = None, issued_at = None\<rparr>"

definition sample_world :: "token_set world" where
  "sample_world = \<lparr>io = (\<lambda>_. None), junk = None, default_mode = 420, files = []\<rparr>"

theorem save_tokens_atomic_witness:
  "load_tokens Some ''ep'' (fst (save_tokens id ''ep'' sample_tokens sample_world)) = Inr (Some sample_tokens)"
proof -
  let ?s = "save_tokens id ''ep'' sample_tokens sample_world"
  have r: "snd ?s = Inr ()"
    by (simp add: save_tokens_def save_file_def file_ops token_file_def sample_world_def hm_get_Cons)
  have "?s = (fst ?s, snd ?s)" by simp
  from save_tokens_atomic [of Some id, OF _ this] r show ?thesis
    by (simp add: sample_world_def)
qed

lemma read_only_io: "io (fst (save_file name c w)) = io w"
  by (metis prod.collapse save_file_io)

text \<open>Clearing a rejected client never touches manually supplied credentials nor a record that
  names another client; when it does clear, the resource credentials, the registration time and the
  provenance survive and the client id, secret and issuer are gone.\<close>

theorem clear_client_guarded:
  assumes rt: "\<And>d. de (ser d) = Some d"
    and ok: "clear_dcr_requesting_client ser de n expected w = (w', Inr b)"
    and read: "io w (OpRead (dcr_file n)) = None"
  shows "if b then \<exists>d. load_dcr de n w = Inr (Some d) \<and> registered_via_dcr d \<and> client_id d = expected \<and>
            load_dcr de n w' = Inr (Some (cleared d)) \<and>
            resource_client_id (cleared d) = resource_client_id d \<and>
            resource_client_secret (cleared d) = resource_client_secret d \<and>
            registered_via_dcr (cleared d) \<and> client_id (cleared d) = '''' \<and> client_secret (cleared d) = None
         else w' = w \<and> (\<forall>d. load_dcr de n w = Inr (Some d) \<longrightarrow> \<not> registered_via_dcr d \<or> client_id d \<noteq> expected)"
proof (cases "load_dcr de n w")
  case (Inl e)
  with ok show ?thesis by (simp add: clear_dcr_requesting_client_def)
next
  case (Inr ex)
  show ?thesis
  proof (cases "\<exists>d. ex = Some d \<and> registered_via_dcr d \<and> client_id d = expected")
    case True
    then obtain d where d: "ex = Some d" "registered_via_dcr d" "client_id d = expected" by blast
    obtain w1 r where s: "save_dcr ser n (cleared d) w = (w1, r)" by fastforce
    from ok Inr d s have "w' = w1" "b" "is_ok r"
      by (auto simp: clear_dcr_requesting_client_def split: sum.splits)
    moreover from this have "hm_get (files w1) (dcr_file n) = Some \<lparr>content = ser (cleared d), mode = 384\<rparr>"
      using save_file_outcome [OF s [unfolded save_dcr_def]] by (cases r) auto
    moreover have "io w1 = io w" using save_file_io [OF s [unfolded save_dcr_def]] .
    ultimately show ?thesis
      using Inr d rt read by (auto simp: load_dcr_def load_file_def cleared_def)
  next
    case False
    with ok Inr show ?thesis
      by (auto simp: clear_dcr_requesting_client_def split: option.splits if_splits)
  qed
qed

definition sample_client :: dcr_credentials where
  "sample_client = \<lparr>client_id = ''cid'', client_secret = Some ''s'', client_secret_expires_at = 0,
     registered_at = 7, issuer = Some ''as'', resource_client_id = Some ''rid'',
     resource_client_secret = None, registered_via_dcr = True\<rparr>"

definition sample_dcr_world :: "dcr_credentials world" where
  "sample_dcr_world = \<lparr>io = (\<lambda>_. None), junk = None, default_mode = 420,
     files = [(''ep.dcr.json'', \<lparr>content = sample_client, mode = 384\<rparr>)]\<rparr>"

theorem clear_client_guarded_witness:
  "load_dcr Some ''ep'' (fst (clear_dcr_requesting_client id Some ''ep'' ''cid'' sample_dcr_world)) =
     Inr (Some (cleared sample_client))"
proof -
  let ?s = "clear_dcr_requesting_client id Some ''ep'' ''cid'' sample_dcr_world"
  have l: "load_dcr Some ''ep'' sample_dcr_world = Inr (Some sample_client)"
    by (simp add: load_dcr_def load_file_def sample_dcr_world_def dcr_file_def hm_get_Cons)
  have r: "snd ?s = Inr True"
    by (simp add: clear_dcr_requesting_client_def l)
       (simp add: sample_client_def save_dcr_def save_file_def file_ops dcr_file_def
         sample_dcr_world_def hm_get_Cons)
  then have "?s = (fst ?s, Inr True)" by (metis prod.collapse)
  from clear_client_guarded [of Some id, OF _ this] l show ?thesis
    by (simp add: sample_dcr_world_def)
qed

end
