(* ===== verification/Adapter_Core.thy ===== *)
theory Adapter_Core
  imports Text
begin

text \<open>
  The vocabulary every transport adapter shares (\<^verbatim>\<open>src/adapter/mod.rs\<close>): health, adapter errors,
  tool descriptors, the merge of request parameters, the capture of tool-level errors, and the
  rendering of errors.
\<close>

section \<open>Health, errors, tools\<close>

datatype health_status = Healthy | Unhealthy string | Starting | Stopped

datatype adapter_error =
    ProcessSpawnFailed string
  | ProcessCrashed string
  | Timeout u64
  | JsonRpcError int string "json option"
  | ProtocolError string
  | NotInitialized
  | ConnectionFailedErr string
  | HttpError u16 string
  | AuthenticationRequired string string
  | IoErr string
  | JsonErr string

record tool_info =
  ti_name :: string
  ti_description :: "string option"
  ti_input_schema :: json
  ti_annotations :: "json option"
  ti_title :: "string option"
  ti_output_schema :: "json option"
  ti_meta :: "json option"
  ti_extra :: "(string \<times> json) list"

section \<open>Request parameters\<close>

definition merge_request_params :: "(string \<times> json) list \<Rightarrow> json \<Rightarrow> json" where
  "merge_request_params request_params params =
     (if request_params = [] then params
      else case params of
        JObj obj \<Rightarrow> JObj (fold (\<lambda>(k, v) m. hm_insert k v m) request_params obj)
      | _ \<Rightarrow> params)"

lemma hm_get_append:
  "hm_get (xs @ ys) k = (case hm_get xs k of Some v \<Rightarrow> Some v | None \<Rightarrow> hm_get ys k)"
  by (induction xs) (auto simp: hm_get_Cons)

lemma fold_insert_get:
  "hm_get (fold (\<lambda>(k, v) m. hm_insert k v m) ps m) k =
     (case hm_get (rev ps) k of Some v \<Rightarrow> Some v | None \<Rightarrow> hm_get m k)"
proof (induction ps arbitrary: m)
  case Nil
  then show ?case by simp
next
  case (Cons p ps)
  then show ?case
    by (cases p) (auto simp: hm_get_append hm_get_insert hm_get_Cons split: option.splits)
qed

section \<open>Tool-level errors\<close>

definition MAX_CAPTURED_ERROR_MESSAGE_CHARS :: nat where
  "MAX_CAPTURED_ERROR_MESSAGE_CHARS = 2048"

fun find_map :: "('a \<Rightarrow> 'b option) \<Rightarrow> 'a list \<Rightarrow> 'b option" where
  "find_map f [] = None"
| "find_map f (x # xs) = (case f x of Some y \<Rightarrow> Some y | None \<Rightarrow> find_map f xs)"

definition tool_result_error_message :: "json \<Rightarrow> string option" where
  "tool_result_error_message value =
     (if Option.bind (json_get value ''isError'') json_bool \<noteq> Some True then None
      else
        let text = unwrap_or ''tool call returned an error result''
              (Option.bind (Option.bind (json_get value ''content'') json_arr)
                (find_map (\<lambda>item. Option.bind (json_get item ''text'') json_str)))
        in Some (utf8 (take MAX_CAPTURED_ERROR_MESSAGE_CHARS (chars text))))"

section \<open>Rendering errors\<close>

definition HTTP_ERROR_BODY_MAX_CHARS :: nat where
  "HTTP_ERROR_BODY_MAX_CHARS = 200"

definition ellipsis :: nat where "ellipsis = 8230"

definition truncate_for_display :: "string \<Rightarrow> nat \<Rightarrow> string" where
  "truncate_for_display s max_chars =
     (if length (chars s) \<le> max_chars then s
      else utf8 (take max_chars (chars s)) @ utf8 [ellipsis])"

definition dec_of_int :: "int \<Rightarrow> string" where
  "dec_of_int i = (if i < 0 then ''-'' @ dec_of_nat (nat (- i)) else dec_of_nat (nat i))"

fun display_error :: "adapter_error \<Rightarrow> string" where
  "display_error (ProcessSpawnFailed s) = ''failed to spawn process: '' @ s"
| "display_error (ProcessCrashed s) = ''process crashed: '' @ s"
| "display_error (Timeout n) = ''operation timed out after '' @ dec_of_nat (unat n) @ ''s''"
| "display_error (JsonRpcError code m d) = ''JSON-RPC error '' @ dec_of_int code @ '': '' @ m"
| "display_error (ProtocolError s) = ''protocol error: '' @ s"
| "display_error NotInitialized = ''adapter not initialized''"
| "display_error (ConnectionFailedErr s) = ''connection failed: '' @ s"
| "display_error (HttpError status body) = ''HTTP error '' @ dec_of_nat (unat status) @ '': '' @
     truncate_for_display body HTTP_ERROR_BODY_MAX_CHARS"
| "display_error (AuthenticationRequired e m) =
     ''Authentication required for endpoint '' @ [CHR 0x27] @ e @ [CHR 0x27] @ '': '' @ m"
| "display_error (IoErr s) = ''IO error: '' @ s"
| "display_error (JsonErr s) = ''JSON serialization error: '' @ s"

text \<open>The source chain of an error is the list of its layers' texts, outermost first.\<close>

fun format_error_chain_loop :: "string \<Rightarrow> string list \<Rightarrow> string" where
  "format_error_chain_loop msg [] = msg"
| "format_error_chain_loop msg (layer # layers) =
     format_error_chain_loop (if contains_str msg layer then msg else msg @ '': '' @ layer) layers"

definition format_error_chain :: "string \<Rightarrow> string list \<Rightarrow> string" where
  "format_error_chain msg layers = format_error_chain_loop msg layers"

definition message_names_url :: "(string \<Rightarrow> string option) \<Rightarrow> string \<Rightarrow> string \<Rightarrow> bool" where
  "message_names_url parse url message =
     (contains_str message url \<or>
      (case parse url of Some u \<Rightarrow> contains_str message u | None \<Rightarrow> False))"

definition connect_error_message :: "(string \<Rightarrow> string option) \<Rightarrow> string \<Rightarrow> string \<Rightarrow> string list \<Rightarrow> string" where
  "connect_error_message parse url msg layers =
     (let chain = format_error_chain msg layers in
      if message_names_url parse url chain then chain else url @ '': '' @ chain)"

section \<open>Properties\<close>

lemma strip_self [simp]: "strip_prefix p p = Some []"
  using strip_prefix_append [of p "[]"] by simp

lemma split_at_first_append: "split_at_first pat (a @ pat @ b) \<noteq> None"
proof (induction a)
  case Nil
  have "strip_prefix pat (pat @ b) = Some b" by simp
  then show ?case by (cases "pat @ b") simp_all
next
  case (Cons x a)
  then show ?case by (auto split: option.splits)
qed

lemma contains_str_iff: "contains_str s pat \<longleftrightarrow> (\<exists>a b. s = a @ pat @ b)"
proof
  assume "contains_str s pat"
  then obtain a b where "split_at_first pat s = Some (a, b)"
    by (auto simp: contains_str_def)
  then show "\<exists>a b. s = a @ pat @ b" using split_at_first_Some by blast
next
  assume "\<exists>a b. s = a @ pat @ b"
  then show "contains_str s pat"
    using split_at_first_append [of pat] by (auto simp: contains_str_def)
qed

lemma contains_str_append: "contains_str s pat \<Longrightarrow> contains_str (s @ t) pat"
  unfolding contains_str_iff by (metis append.assoc)

lemma contains_str_suffix: "contains_str (s @ pat) pat"
  unfolding contains_str_iff by (metis append_Nil2)

lemma chain_keeps: "contains_str msg p \<Longrightarrow> contains_str (format_error_chain_loop msg ls) p"
proof (induction msg ls rule: format_error_chain_loop.induct)
  case (1 msg)
  then show ?case by simp
next
  case (2 msg layer layers)
  show ?case
  proof (cases "contains_str msg layer")
    case True
    with 2 show ?thesis by simp
  next
    case False
    with 2(1) contains_str_append [OF 2(2), of "'': '' @ layer"] show ?thesis by simp
  qed
qed

lemma chain_contains_layer:
  "l \<in> set ls \<Longrightarrow> contains_str (format_error_chain_loop msg ls) l"
proof (induction msg ls rule: format_error_chain_loop.induct)
  case (1 msg)
  then show ?case by simp
next
  case (2 msg layer layers)
  have "contains_str (msg @ '': '' @ layer) layer"
    using contains_str_suffix [of "msg @ '': ''"] by simp
  with 2 show ?case by (cases "l = layer") (auto intro: chain_keeps)
qed

lemma chain_prefix: "\<exists>r. format_error_chain_loop msg ls = msg @ r"
  by (induction msg ls rule: format_error_chain_loop.induct) auto

end
