(* ===== verification/OAuth_State.thy ===== *)
theory OAuth_State
  imports Adapter_Core
begin

text \<open>
  The OAuth endpoint state machine (\<^verbatim>\<open>src/adapter/oauth/state.rs\<close>) and the pure decisions of the
  heartbeat (\<^verbatim>\<open>src/adapter/oauth/heartbeat.rs\<close>): health derivation, legal transitions, the
  transition ring buffer, refresh deadlines, probe classification and hysteresis.
  Instants are nanoseconds since an arbitrary origin.
\<close>

type_synonym instant = nat

section \<open>States and health\<close>

datatype oauth_state =
  NeedsLogin | Authenticated | Refreshing | AuthRequired | ConnectionFailed | Disconnected

definition TRANSITION_RING_BUFFER_CAPACITY :: nat where
  "TRANSITION_RING_BUFFER_CAPACITY = 16"

record transition_record =
  tr_from :: oauth_state
  tr_to :: oauth_state
  tr_reason :: string
  tr_timestamp :: instant

fun derive_health :: "oauth_state \<Rightarrow> health_status \<Rightarrow> health_status" where
  "derive_health Authenticated inner = inner"
| "derive_health Refreshing inner = Starting"
| "derive_health AuthRequired inner = Unhealthy ''auth required''"
| "derive_health ConnectionFailed inner =
     (case inner of Unhealthy r \<Rightarrow> Unhealthy r | _ \<Rightarrow> Unhealthy ''connection failed'')"
| "derive_health NeedsLogin inner = Unhealthy ''needs login''"
| "derive_health Disconnected inner = Stopped"

fun legal_pair :: "oauth_state \<Rightarrow> oauth_state \<Rightarrow> bool" where
  "legal_pair NeedsLogin to = (to \<in> {Refreshing, AuthRequired, Authenticated, ConnectionFailed, Disconnected})"
| "legal_pair Refreshing to = (to \<in> {Authenticated, AuthRequired, ConnectionFailed, Disconnected})"
| "legal_pair Authenticated to = (to \<in> {Refreshing, ConnectionFailed, AuthRequired, Disconnected})"
| "legal_pair ConnectionFailed to = (to \<in> {Authenticated, Refreshing, AuthRequired, Disconnected})"
| "legal_pair AuthRequired to = (to \<in> {Refreshing, Disconnected})"
| "legal_pair Disconnected to = (to \<in> {NeedsLogin, Refreshing})"

definition legal_transition :: "oauth_state \<Rightarrow> oauth_state \<Rightarrow> bool" where
  "legal_transition from to = (from = to \<or> legal_pair from to)"

text \<open>The ring buffer, oldest record first.\<close>

definition push_history :: "transition_record \<Rightarrow> transition_record list \<Rightarrow> transition_record list" where
  "push_history r history =
     (if TRANSITION_RING_BUFFER_CAPACITY \<le> length history then tl history else history) @ [r]"

text \<open>
  The release build: an illegal transition is recorded like any other (the assertion is a
  \<^verbatim>\<open>debug_assert\<close>). The result is the new state, the new history and the old state.
\<close>

definition do_transition ::
  "instant \<Rightarrow> oauth_state \<Rightarrow> oauth_state \<Rightarrow> string \<Rightarrow> transition_record list \<Rightarrow>
   oauth_state \<times> transition_record list \<times> oauth_state" where
  "do_transition now current new_state reason history =
     (new_state,
      push_history \<lparr>tr_from = current, tr_to = new_state, tr_reason = reason, tr_timestamp = now\<rparr> history,
      current)"

definition secs :: "nat \<Rightarrow> nat" where "secs n = n * 1000000000"

text \<open>
  \<^verbatim>\<open>Instant - Instant\<close> saturates at zero; \<^verbatim>\<open>Instant - Duration\<close> panics (\<open>None\<close>) below the origin.
\<close>

definition refresh_deadline :: "instant \<Rightarrow> instant \<Rightarrow> instant option" where
  "refresh_deadline issued_at expires_at =
     (let lifetime = expires_at - issued_at;
          seventy_five_pct = issued_at + lifetime * 3 div 4
      in if expires_at < secs 300 then None
         else Some (min seventy_five_pct (expires_at - secs 300)))"

definition fallback_refresh_deadline :: "instant \<Rightarrow> instant \<Rightarrow> instant" where
  "fallback_refresh_deadline now expires_at =
     (let target = (if secs 300 \<le> expires_at then expires_at - secs 300 else now) in max target now)"

section \<open>Heartbeat decisions\<close>

datatype probe_error = Network string | Upstream string | Auth

fun is_transport_dead :: "adapter_error \<Rightarrow> bool" where
  "is_transport_dead (ConnectionFailedErr m) = True"
| "is_transport_dead (Timeout n) = True"
| "is_transport_dead (HttpError status b) = (status = 0)"
| "is_transport_dead _ = False"

definition classify_adapter_error :: "adapter_error \<Rightarrow> probe_error" where
  "classify_adapter_error e =
     (case e of
        HttpError status b \<Rightarrow>
          (if status = 401 then Auth
           else if is_transport_dead e then Network (display_error e) else Upstream (display_error e))
      | _ \<Rightarrow> if is_transport_dead e then Network (display_error e) else Upstream (display_error e))"

datatype probe_action =
    MarkHealthy
  | BelowThreshold u32 string
  | MarkUnhealthy string bool
  | AuthFailed

definition sat_inc :: "u32 \<Rightarrow> u32" where
  "sat_inc n = (if n = - 1 then - 1 else n + 1)"

definition record_probe_failure :: "string \<Rightarrow> bool \<Rightarrow> u32 \<Rightarrow> u32 \<Rightarrow> probe_action \<times> u32" where
  "record_probe_failure reason transport_dead failures threshold =
     (let failures' = sat_inc failures in
      (if threshold \<le> failures' then MarkUnhealthy reason transport_dead
       else BelowThreshold failures' reason, failures'))"

fun classify_probe_result :: "probe_error + unit \<Rightarrow> u32 \<Rightarrow> u32 \<Rightarrow> probe_action \<times> u32" where
  "classify_probe_result (Inr _) failures threshold = (MarkHealthy, 0)"
| "classify_probe_result (Inl Auth) failures threshold = (AuthFailed, 0)"
| "classify_probe_result (Inl (Network reason)) failures threshold =
     record_probe_failure reason True failures threshold"
| "classify_probe_result (Inl (Upstream reason)) failures threshold =
     record_probe_failure reason False failures threshold"

datatype tick_action = Probe | Recover | Skip

fun classify_tick_action :: "oauth_state \<Rightarrow> tick_action" where
  "classify_tick_action Authenticated = Probe"
| "classify_tick_action ConnectionFailed = Recover"
| "classify_tick_action _ = Skip"

section \<open>Metrics\<close>

record oauth_metrics =
  token_refresh_success :: u64
  token_refresh_failure :: u64
  heartbeat_healthy :: u64
  heartbeat_unhealthy :: u64
  state_transitions :: u64

definition new_metrics :: oauth_metrics where
  "new_metrics = \<lparr>token_refresh_success = 0, token_refresh_failure = 0, heartbeat_healthy = 0,
     heartbeat_unhealthy = 0, state_transitions = 0\<rparr>"

definition inc_refresh_success :: "oauth_metrics \<Rightarrow> oauth_metrics" where
  "inc_refresh_success m = m\<lparr>token_refresh_success := token_refresh_success m + 1\<rparr>"

definition inc_refresh_failure :: "oauth_metrics \<Rightarrow> oauth_metrics" where
  "inc_refresh_failure m = m\<lparr>token_refresh_failure := token_refresh_failure m + 1\<rparr>"

definition inc_heartbeat_healthy :: "oauth_metrics \<Rightarrow> oauth_metrics" where
  "inc_heartbeat_healthy m = m\<lparr>heartbeat_healthy := heartbeat_healthy m + 1\<rparr>"

definition inc_heartbeat_unhealthy :: "oauth_metrics \<Rightarrow> oauth_metrics" where
  "inc_heartbeat_unhealthy m = m\<lparr>heartbeat_unhealthy := heartbeat_unhealthy m + 1\<rparr>"

definition inc_state_transition :: "oauth_metrics \<Rightarrow> oauth_metrics" where
  "inc_state_transition m = m\<lparr>state_transitions := state_transitions m + 1\<rparr>"

section \<open>The ring buffer is a bounded queue\<close>

interpretation history: bounded_queue push_history "\<lambda>h. h" TRANSITION_RING_BUFFER_CAPACITY
    "\<lambda>h. length h \<le> TRANSITION_RING_BUFFER_CAPACITY"
  by unfold_locales (auto simp: push_history_def TRANSITION_RING_BUFFER_CAPACITY_def)

text \<open>The history holds the last 16 records, in order.\<close>

lemma history_last: "fold push_history rs [] = drop (length rs - TRANSITION_RING_BUFFER_CAPACITY) rs"
  using history.elems_fold [of "[]" rs] by simp

section \<open>Health\<close>

lemma healthy_iff: "derive_health s h = Healthy \<longleftrightarrow> s = Authenticated \<and> h = Healthy"
  by (cases s; cases h) auto

lemma starting_iff: "derive_health s h = Starting \<longleftrightarrow> s = Refreshing \<or> s = Authenticated \<and> h = Starting"
  by (cases s; cases h) auto

section \<open>Deadlines\<close>

text \<open>The proactive refresh never fires after 75 percent of the token's lifetime nor within the
  last five minutes, whichever comes first, and it is exactly one of these two points; for a token
  that lives at least 20 minutes it is the 75 percent point, for a shorter one the five-minute
  point (which may lie before the token was issued).\<close>

theorem refresh_deadline_spec:
  assumes "issued \<le> expires" "secs 300 \<le> expires"
  shows "\<exists>d. refresh_deadline issued expires = Some d \<and>
     4 * d \<le> issued + 3 * expires \<and> d + secs 300 \<le> expires \<and>
     (if secs 1200 \<le> expires - issued then d = issued + (expires - issued) * 3 div 4
      else d + secs 300 = expires)"
proof -
  obtain l where e: "expires = issued + l" using assms(1) le_Suc_ex by blast
  have q: "4 * (l * 3 div 4) \<le> 3 * l" by simp
  have d: "refresh_deadline issued expires = Some (min (issued + l * 3 div 4) (expires - secs 300))"
    using assms(2) by (simp add: refresh_deadline_def Let_def e)
  show ?thesis
  proof (cases "secs 1200 \<le> l")
    case True
    have "l * 3 div 4 + secs 300 \<le> l" using True by (simp add: secs_def)
    then have "issued + l * 3 div 4 \<le> expires - secs 300" using e by linarith
    then show ?thesis using d True q e assms(2) by (simp add: min_def)
  next
    case False
    then have le: "expires - secs 300 \<le> issued + l * 3 div 4" using e by (simp add: secs_def)
    then show ?thesis using d False q e assms(2) by (simp add: min_absorb2)
  qed
qed

theorem refresh_deadline_spec_witness:
  "refresh_deadline 0 (secs 3600) = Some (secs 2700)"
  using refresh_deadline_spec [of 0 "secs 3600"] by (auto simp: secs_def)

section \<open>Hysteresis\<close>

fun is_failure :: "probe_error + unit \<Rightarrow> bool" where
  "is_failure (Inl (Network r)) = True"
| "is_failure (Inl (Upstream r)) = True"
| "is_failure _ = False"

text \<open>The counter after a sequence of probe results.\<close>

definition probe_run :: "u32 \<Rightarrow> (probe_error + unit) list \<Rightarrow> u32" where
  "probe_run threshold rs = fold (\<lambda>r failures. snd (classify_probe_result r failures threshold)) rs 0"

text \<open>Specification: the length of the trailing run of failures.\<close>

definition trailing_failures :: "(probe_error + unit) list \<Rightarrow> nat" where
  "trailing_failures rs = length (takeWhile is_failure (rev rs))"

lemma classify_failure:
  "is_failure r \<Longrightarrow> snd (classify_probe_result r n t) = sat_inc n"
  by (cases r rule: is_failure.cases) (auto simp: record_probe_failure_def Let_def)

lemma classify_reset:
  "\<not> is_failure r \<Longrightarrow> snd (classify_probe_result r n t) = 0"
  by (cases r rule: is_failure.cases) auto

lemma unat_sat_inc: "unat (sat_inc n) = min (Suc (unat n)) (2 ^ 32 - 1)"
proof (cases "n = - 1")
  case True
  have "unat (- 1 :: u32) = 2 ^ 32 - 1" by (simp add: unsigned_minus_1_eq_mask mask_eq_exp_minus_1)
  with True show ?thesis by (simp add: sat_inc_def)
next
  case False
  then have "unat (n + 1) = Suc (unat n)"
    by (metis Suc_eq_plus1 add.commute add.right_neutral add_eq_0_iff2 unatSuc)
  moreover have "unat (n + 1) < 2 ^ 32" using unsigned_less [of "n + 1", where 'a = nat] by simp
  ultimately show ?thesis using False by (simp add: sat_inc_def min_def)
qed

lemma probe_run_snoc:
  "probe_run t (rs @ [r]) = snd (classify_probe_result r (probe_run t rs) t)"
  by (simp add: probe_run_def)

lemma trailing_snoc:
  "trailing_failures (rs @ [r]) = (if is_failure r then Suc (trailing_failures rs) else 0)"
  by (simp add: trailing_failures_def)

lemma probe_run_count: "unat (probe_run t rs) = min (trailing_failures rs) (2 ^ 32 - 1)"
proof (induction rs rule: rev_induct)
  case Nil
  then show ?case by (simp add: probe_run_def trailing_failures_def)
next
  case (snoc r rs)
  then show ?case
    by (cases "is_failure r")
       (simp_all add: probe_run_snoc trailing_snoc classify_failure classify_reset unat_sat_inc)
qed

text \<open>Hysteresis. After any history of probes, the next failing probe marks the endpoint unhealthy
  exactly when it completes a run of at least \<open>threshold\<close> consecutive failures; a shorter run
  leaves the health alone and reports its length. A success or a 401 never marks unhealthy.\<close>

theorem probe_hysteresis:
  "(fst (classify_probe_result r (probe_run t rs) t) = MarkHealthy \<longleftrightarrow> r = Inr ()) \<and>
   (fst (classify_probe_result r (probe_run t rs) t) = AuthFailed \<longleftrightarrow> r = Inl Auth) \<and>
   ((\<exists>m d. fst (classify_probe_result r (probe_run t rs) t) = MarkUnhealthy m d) \<longleftrightarrow>
      is_failure r \<and> unat t \<le> trailing_failures (rs @ [r])) \<and>
   (\<forall>n m. fst (classify_probe_result r (probe_run t rs) t) = BelowThreshold n m \<longrightarrow>
      unat n = trailing_failures (rs @ [r]) \<and> trailing_failures (rs @ [r]) < unat t)"
proof (cases "is_failure r")
  case False
  then show ?thesis by (cases r rule: is_failure.cases) auto
next
  case True
  let ?n = "sat_inc (probe_run t rs)"
  have count: "unat ?n = min (trailing_failures (rs @ [r])) (2 ^ 32 - 1)"
    using True by (simp add: unat_sat_inc probe_run_count trailing_snoc)
  have t: "unat t \<le> 2 ^ 32 - 1" using unsigned_less [of t, where 'a = nat] by simp
  have le: "t \<le> ?n \<longleftrightarrow> unat t \<le> trailing_failures (rs @ [r])"
    using count t by (simp add: word_le_nat_alt)
  have exact: "\<not> t \<le> ?n \<Longrightarrow> unat ?n = trailing_failures (rs @ [r])"
    using count t by (simp add: word_le_nat_alt)
  from True obtain d m where "classify_probe_result r (probe_run t rs) t =
      record_probe_failure m d (probe_run t rs) t" "r \<noteq> Inr ()" "r \<noteq> Inl Auth"
    by (cases r rule: is_failure.cases) auto
  then show ?thesis using True le exact
    by (auto simp: record_probe_failure_def Let_def split: if_splits)
qed

theorem probe_hysteresis_witness:
  "fst (classify_probe_result (Inl (Network ''down'')) (probe_run 3 [Inl (Upstream ''e''), Inl (Network ''d'')]) 3)
     = MarkUnhealthy ''down'' True \<and>
   fst (classify_probe_result (Inl (Network ''down'')) (probe_run 3 [Inl (Upstream ''e'')]) 3)
     = BelowThreshold 2 ''down''"
proof -
  have "\<exists>m d. fst (classify_probe_result (Inl (Network ''down''))
      (probe_run 3 [Inl (Upstream ''e''), Inl (Network ''d'')]) 3) = MarkUnhealthy m d"
    using probe_hysteresis [of "Inl (Network ''down'')" 3 "[Inl (Upstream ''e''), Inl (Network ''d'')]"]
    by (simp add: trailing_failures_def)
  then have "fst (classify_probe_result (Inl (Network ''down''))
      (probe_run 3 [Inl (Upstream ''e''), Inl (Network ''d'')]) 3) = MarkUnhealthy ''down'' True"
    by (auto simp: record_probe_failure_def Let_def split: if_splits)
  then show ?thesis
    by (simp add: probe_run_def record_probe_failure_def Let_def sat_inc_def)
qed

end
