(* ===== verification/OAuth_Adapter.thy ===== *)
theory OAuth_Adapter
  imports OAuth_State Tokens
begin

text \<open>
  The OAuth adapter (\<^verbatim>\<open>src/adapter/oauth/mod.rs\<close>, \<^verbatim>\<open>OAuthAdapterInner\<close>) and its heartbeat loop
  (\<^verbatim>\<open>heartbeat.rs\<close>). One record holds the adapter's shared state; every critical section of the
  source is one operation on it. The operations of concurrent tasks interleave freely in
  OAuth_Runs. The HTTP transport, OAuth discovery and the serde codecs are arguments; each send on the
  tools-changed channel is logged in \<open>outer_sent\<close> with the lifecycle state it is sent in.
\<close>

section \<open>State\<close>

record recovery_tick_state =
  acked_generation :: u64
  tick_pending :: bool
  pending_recovery :: "u64 option"
  restore_owed :: bool
  baseline_invalidated :: bool

definition no_ticks :: recovery_tick_state where
  "no_ticks = \<lparr>acked_generation = 0, tick_pending = False, pending_recovery = None,
     restore_owed = False, baseline_invalidated = False\<rparr>"

record probed_tools =
  pt_fingerprint :: "u64 option"
  pt_recovery_generation :: u64

record inner_http =
  ih_url :: string
  ih_bearer :: string
  ih_recovery :: u64

record oauth_config =
  oc_endpoint_name :: string
  oc_url :: string
  oc_token_endpoint_url :: string
  oc_client_id :: string
  oc_client_secret :: "string option"
  oc_ema :: bool
  oc_probe_failure_threshold :: u32

record 'c codec =
  ser_tokens :: "token_set \<Rightarrow> 'c"
  de_tokens :: "'c \<Rightarrow> token_set option"
  ser_dcr :: "dcr_credentials \<Rightarrow> 'c"
  de_dcr :: "'c \<Rightarrow> dcr_credentials option"

text \<open>Where the holder of \<^verbatim>\<open>apply_lock\<close> stands.\<close>

datatype apply_pc =
    ApplyIdle
  | ApplyChecked token_set
  | ApplyEntered token_set
  | ApplySettled token_set oauth_state string bool
  | ApplyCommitted token_set bool
  | ApplyPublished token_set
  | Disconnecting

record 'c oauth_adapter =
  state :: oauth_state
  tokens :: "token_set option"
  token_endpoint_override :: "string option"
  client_credentials_override :: "(string \<times> string option) option"
  inner_adapter :: "inner_http option"
  forwarder_seen :: "u64 option"
  refresh_task :: "instant option"
  inner_health :: health_status
  probe_now :: bool
  recovery_tick :: recovery_tick_state
  transition_history :: "transition_record list"
  metrics :: oauth_metrics
  lifecycle_generation :: u64
  grant_epoch :: u64
  last_tools_fingerprint :: "u64 option"
  apply_pc :: apply_pc
  hb_failures :: u32
  hb_streak :: u64
  outer_sent :: "oauth_state list"
  disk :: "'c world"

definition new_adapter :: "'c world \<Rightarrow> 'c oauth_adapter" where
  "new_adapter d = \<lparr>state = NeedsLogin, tokens = None, token_endpoint_override = None,
     client_credentials_override = None, inner_adapter = None, forwarder_seen = None,
     refresh_task = None, inner_health = Starting, probe_now = False, recovery_tick = no_ticks,
     transition_history = [], metrics = new_metrics, lifecycle_generation = 0, grant_epoch = 0,
     last_tools_fingerprint = None, apply_pc = ApplyIdle, hb_failures = 0, hb_streak = 0,
     outer_sent = [], disk = d\<rparr>"

section \<open>Small reads and writes\<close>

definition effective_token_endpoint :: "oauth_config \<Rightarrow> 'c oauth_adapter \<Rightarrow> string" where
  "effective_token_endpoint cfg s =
     (case token_endpoint_override s of Some url \<Rightarrow> url | None \<Rightarrow> oc_token_endpoint_url cfg)"

definition set_token_endpoint_override :: "string \<Rightarrow> 'c oauth_adapter \<Rightarrow> 'c oauth_adapter" where
  "set_token_endpoint_override url s = s\<lparr>token_endpoint_override := Some url\<rparr>"

definition effective_client_pair :: "oauth_config \<Rightarrow> 'c oauth_adapter \<Rightarrow> string \<times> string option" where
  "effective_client_pair cfg s =
     (case client_credentials_override s of
        Some (cid, secret) \<Rightarrow> (cid, secret)
      | None \<Rightarrow> (oc_client_id cfg, oc_client_secret cfg))"

definition set_client_credentials ::
  "string \<Rightarrow> string option \<Rightarrow> 'c oauth_adapter \<Rightarrow> 'c oauth_adapter" where
  "set_client_credentials cid secret s = s\<lparr>client_credentials_override := Some (cid, secret)\<rparr>"

definition health :: "'c oauth_adapter \<Rightarrow> health_status" where
  "health s = derive_health (state s) (inner_health s)"

definition send_outer :: "'c oauth_adapter \<Rightarrow> 'c oauth_adapter" where
  "send_outer s = s\<lparr>outer_sent := outer_sent s @ [state s]\<rparr>"

definition upd_metrics :: "(oauth_metrics \<Rightarrow> oauth_metrics) \<Rightarrow> 'c oauth_adapter \<Rightarrow> 'c oauth_adapter" where
  "upd_metrics f s = s\<lparr>metrics := f (metrics s)\<rparr>"

definition upd_tick ::
  "(recovery_tick_state \<Rightarrow> recovery_tick_state) \<Rightarrow> 'c oauth_adapter \<Rightarrow> 'c oauth_adapter" where
  "upd_tick f s = s\<lparr>recovery_tick := f (recovery_tick s)\<rparr>"

definition deferred :: "'c oauth_adapter \<Rightarrow> bool" where
  "deferred s = (tick_pending (recovery_tick s) \<or> pending_recovery (recovery_tick s) \<noteq> None)"

section \<open>State writers\<close>

definition degraded :: "oauth_state \<Rightarrow> bool" where
  "degraded st = (st \<in> {AuthRequired, ConnectionFailed, Disconnected})"

definition clear_fingerprint_on_degraded :: "oauth_state \<Rightarrow> 'c oauth_adapter \<Rightarrow> 'c oauth_adapter" where
  "clear_fingerprint_on_degraded new_state s =
     (if degraded new_state
      then upd_tick (\<lambda>t. t\<lparr>restore_owed := True\<rparr>) (s\<lparr>last_tools_fingerprint := None\<rparr>)
      else s)"

definition recorded_transition ::
  "instant \<Rightarrow> oauth_state \<Rightarrow> string \<Rightarrow> 'c oauth_adapter \<Rightarrow> 'c oauth_adapter" where
  "recorded_transition now new_state reason s =
     (case do_transition now (state s) new_state reason (transition_history s) of
        (st, h, old) \<Rightarrow>
          s\<lparr>state := st, transition_history := h,
            lifecycle_generation := lifecycle_generation s + 1,
            metrics := inc_state_transition (metrics s)\<rparr>)"

definition transition_to ::
  "instant \<Rightarrow> oauth_state \<Rightarrow> string \<Rightarrow> 'c oauth_adapter \<Rightarrow> 'c oauth_adapter" where
  "transition_to now new_state reason s =
     recorded_transition now new_state reason (clear_fingerprint_on_degraded new_state s)"

definition transition_if_current ::
  "instant \<Rightarrow> u64 \<Rightarrow> oauth_state \<Rightarrow> string \<Rightarrow> 'c oauth_adapter \<Rightarrow> 'c oauth_adapter \<times> bool" where
  "transition_if_current now epoch new_state reason s =
     (if grant_epoch s \<noteq> epoch then (s, False)
      else (recorded_transition now new_state reason (clear_fingerprint_on_degraded new_state s), True))"

section \<open>The tools-changed accounting\<close>

definition take_deferred :: "recovery_tick_state \<Rightarrow> recovery_tick_state \<times> bool" where
  "take_deferred t =
     (let ordinary = tick_pending t; t1 = t\<lparr>tick_pending := False\<rparr> in
      case pending_recovery t1 of
        Some generation \<Rightarrow>
          (t1\<lparr>pending_recovery := None, acked_generation := max (acked_generation t1) generation\<rparr>, True)
      | None \<Rightarrow> (t1, ordinary))"

definition publish_or_retain_tick :: "bool \<Rightarrow> 'c oauth_adapter \<Rightarrow> 'c oauth_adapter \<times> bool" where
  "publish_or_retain_tick owed s =
     (if state s = Refreshing
      then (if owed then upd_tick (\<lambda>t. t\<lparr>tick_pending := True\<rparr>) s else s, False)
      else (case take_deferred (recovery_tick s) of (t, taken) \<Rightarrow>
        (let due = taken \<or> owed; s1 = s\<lparr>recovery_tick := t\<rparr>
         in (if due then send_outer s1 else s1, due))))"

text \<open>\<open>current\<close> is what the inner adapter's recovery counter reads inside the accounting lock.\<close>

definition commit_healthy_verdict ::
  "u64 \<Rightarrow> probed_tools option \<Rightarrow> u64 \<Rightarrow> 'c oauth_adapter \<Rightarrow> 'c oauth_adapter \<times> bool option" where
  "commit_healthy_verdict dispatched probed current s =
     (if state s \<noteq> Authenticated \<or> lifecycle_generation s \<noteq> dispatched then (s, None)
      else
        let previous = inner_health s;
            t0 = recovery_tick s;
            acked = (acked_generation t0 < current);
            t1 = (if acked then t0\<lparr>acked_generation := current\<rparr> else t0)
        in (case take_deferred t1 of (t2, pending) \<Rightarrow>
          (let owed = ((case previous of Unhealthy _ \<Rightarrow> True | _ \<Rightarrow> False) \<or> acked \<or> pending);
               s1 = s\<lparr>inner_health := Healthy, recovery_tick := t2\<rparr>;
               baseline = (case probed of
                   Some p \<Rightarrow> if pt_recovery_generation p = current then pt_fingerprint p else None
                 | None \<Rightarrow> None)
           in (if owed then send_outer (s1\<lparr>last_tools_fingerprint := baseline\<rparr>) else s1, Some owed))))"

definition note_unacked_recovery :: "u64 \<Rightarrow> 'c oauth_adapter \<Rightarrow> 'c oauth_adapter \<times> bool" where
  "note_unacked_recovery generation s =
     (if acked_generation (recovery_tick s) < generation
      then (upd_tick (\<lambda>t. t\<lparr>pending_recovery := Some (case pending_recovery t of
                None \<Rightarrow> generation | Some pending \<Rightarrow> max pending generation)\<rparr>) s, True)
      else (s, False))"

text \<open>One poll of the forwarder: \<open>current\<close> is the counter of the adapter that sent the tick.\<close>

definition poke_heartbeat_on_inner_recovery ::
  "u64 \<Rightarrow> u64 \<Rightarrow> 'c oauth_adapter \<Rightarrow> 'c oauth_adapter \<times> bool" where
  "poke_heartbeat_on_inner_recovery current seen s =
     (if current \<le> seen then (s, False)
      else (case note_unacked_recovery current (s\<lparr>forwarder_seen := Some current\<rparr>) of
          (s1, True) \<Rightarrow> (s1\<lparr>probe_now := True\<rparr>, True)
        | (s1, False) \<Rightarrow> (s1, True)))"

definition relay_classify :: "u64 \<Rightarrow> u64 \<Rightarrow> 'c oauth_adapter \<Rightarrow> 'c oauth_adapter \<times> bool" where
  "relay_classify current seen s =
     (case poke_heartbeat_on_inner_recovery current seen s of
        (s1, True) \<Rightarrow> (s1, True)
      | (s1, False) \<Rightarrow> (upd_tick (\<lambda>t. t\<lparr>baseline_invalidated := True\<rparr>) s1, False))"

definition relay_decide :: "'c oauth_adapter \<Rightarrow> 'c oauth_adapter" where
  "relay_decide s =
     (if state s = Refreshing then upd_tick (\<lambda>t. t\<lparr>tick_pending := True\<rparr>) s else send_outer s)"

definition relay_inner_tick :: "u64 \<Rightarrow> u64 \<Rightarrow> 'c oauth_adapter \<Rightarrow> 'c oauth_adapter" where
  "relay_inner_tick current seen s =
     (case relay_classify current seen s of
        (s1, True) \<Rightarrow> s1
      | (s1, False) \<Rightarrow> relay_decide (s1\<lparr>last_tools_fingerprint := None\<rparr>))"

text \<open>
  \<open>source\<close>: the replacement's recovery counter and the number of ticks queued on its receiver.
\<close>

definition drain_queued_ticks :: "nat \<Rightarrow> bool" where
  "drain_queued_ticks queued = (0 < queued)"

definition swap_tools_forwarder ::
  "(u64 \<times> nat) option \<Rightarrow> 'c oauth_adapter \<Rightarrow> 'c oauth_adapter \<times> bool" where
  "swap_tools_forwarder source s =
     (case source of
        None \<Rightarrow> (s\<lparr>forwarder_seen := None\<rparr>, False)
      | Some (seen_recovery, queued) \<Rightarrow>
          (let backlog = drain_queued_ticks queued in
           (upd_tick (\<lambda>t. t\<lparr>acked_generation := seen_recovery, pending_recovery := None,
                tick_pending := (pending_recovery t \<noteq> None \<or> backlog \<or> tick_pending t)\<rparr>)
              (s\<lparr>forwarder_seen := Some seen_recovery\<rparr>), backlog)))"

section \<open>Applying tokens\<close>

text \<open>
  Under \<^verbatim>\<open>apply_lock\<close>. \<open>refresh_epoch = None\<close> is a new grant. The result \<open>False\<close> is
  \<^verbatim>\<open>DroppedStaleGrant\<close>.
\<close>

definition apply_check :: "token_set \<Rightarrow> u64 option \<Rightarrow> 'c oauth_adapter \<Rightarrow> 'c oauth_adapter \<times> bool" where
  "apply_check ts refresh_epoch s =
     (case refresh_epoch of
        Some epoch \<Rightarrow>
          (if epoch \<noteq> grant_epoch s then (s, False) else (s\<lparr>apply_pc := ApplyChecked ts\<rparr>, True))
      | None \<Rightarrow> (s\<lparr>grant_epoch := grant_epoch s + 1, apply_pc := ApplyChecked ts\<rparr>, True))"

text \<open>Entering \<^verbatim>\<open>Refreshing\<close>, persisting the tokens and aborting the old refresh task.\<close>

definition apply_enter ::
  "'c codec \<Rightarrow> oauth_config \<Rightarrow> instant \<Rightarrow> token_set \<Rightarrow> 'c oauth_adapter \<Rightarrow> 'c oauth_adapter" where
  "apply_enter cd cfg now ts s =
     (let s1 = (if state s \<noteq> Refreshing
                then recorded_transition now Refreshing ''applying new tokens'' s else s);
          s2 = s1\<lparr>disk := fst (save_tokens (ser_tokens cd) (oc_endpoint_name cfg) ts (disk s1))\<rparr>
      in s2\<lparr>refresh_task := None, apply_pc := ApplyEntered ts\<rparr>)"

definition should_tick_decision ::
  "bool \<Rightarrow> bool \<Rightarrow> bool \<Rightarrow> bool \<Rightarrow> bool \<Rightarrow> u64 option \<Rightarrow> u64 option \<Rightarrow> bool" where
  "should_tick_decision was_listable was_healthy unacked_old_recovery restoring invalidated
       old_fingerprint new_fingerprint =
     (if \<not> was_listable \<or> \<not> was_healthy \<or> unacked_old_recovery \<or> restoring \<or> invalidated then True
      else case (old_fingerprint, new_fingerprint) of
          (Some old, Some new) \<Rightarrow> old \<noteq> new
        | (None, Some _) \<Rightarrow> True
        | (_, None) \<Rightarrow> False)"

text \<open>The rebuilt transport carries the new bearer; \<open>recovery\<close> is its recovery counter.\<close>

definition build_inner_adapter :: "oauth_config \<Rightarrow> token_set \<Rightarrow> u64 \<Rightarrow> inner_http" where
  "build_inner_adapter cfg ts recovery =
     \<lparr>ih_url = oc_url cfg, ih_bearer = ''Bearer '' @ access_token ts, ih_recovery = recovery\<rparr>"

text \<open>
  The inner adapter initialised: it replaces the old one, whose last recoveries and queued ticks
  (\<open>old_queued\<close>) are accounted for, and the forwarder is bound to it (\<open>new_queued\<close> ticks queued).
\<close>

definition apply_ready ::
  "oauth_config \<Rightarrow> token_set \<Rightarrow> u64 \<Rightarrow> u64 option \<Rightarrow> nat \<Rightarrow> nat \<Rightarrow> 'c oauth_adapter \<Rightarrow> 'c oauth_adapter" where
  "apply_ready cfg ts recovery new_fingerprint old_queued new_queued s =
     (let inner = build_inner_adapter cfg ts recovery;
          had_forwarder = (forwarder_seen s \<noteq> None);
          old = inner_adapter s;
          s1 = s\<lparr>forwarder_seen := None, inner_adapter := Some inner\<rparr>;
          was_listable = (old \<noteq> None);
          unacked_old_recovery =
            (case old of Some o' \<Rightarrow> acked_generation (recovery_tick s1) < ih_recovery o' | None \<Rightarrow> False);
          old_backlog = (had_forwarder \<and> drain_queued_ticks old_queued);
          s2 = (if old_backlog then upd_tick (\<lambda>t. t\<lparr>tick_pending := True\<rparr>) s1 else s1);
          restoring = restore_owed (recovery_tick s2);
          invalidated = baseline_invalidated (recovery_tick s2);
          s3 = upd_tick (\<lambda>t. t\<lparr>restore_owed := False, baseline_invalidated := False\<rparr>) s2;
          was_healthy = (inner_health s3 = Healthy);
          s4 = s3\<lparr>inner_health := Healthy\<rparr>
      in (case swap_tools_forwarder (Some (recovery, new_queued)) s4 of (s5, b) \<Rightarrow>
          (let backlog = (b \<or> old_backlog);
               should_tick = should_tick_decision was_listable was_healthy unacked_old_recovery
                   restoring invalidated (last_tools_fingerprint s5) new_fingerprint;
               s6 = (if backlog then s5\<lparr>last_tools_fingerprint := None\<rparr>
                     else if new_fingerprint \<noteq> None then s5\<lparr>last_tools_fingerprint := new_fingerprint\<rparr>
                     else s5)
           in s6\<lparr>apply_pc := ApplySettled ts Authenticated
                ''tokens applied, inner adapter ready'' should_tick\<rparr>)))"

definition apply_init_failed ::
  "token_set \<Rightarrow> health_status \<Rightarrow> string \<Rightarrow> 'c oauth_adapter \<Rightarrow> 'c oauth_adapter" where
  "apply_init_failed ts adapter_health e s =
     (let was_listable = (inner_adapter s \<noteq> None);
          s1 = s\<lparr>inner_health := adapter_health, inner_adapter := None, last_tools_fingerprint := None\<rparr>
      in (fst (swap_tools_forwarder None s1))\<lparr>apply_pc := ApplySettled ts ConnectionFailed
            (''inner adapter init failed: '' @ e) was_listable\<rparr>)"

definition apply_transition ::
  "instant \<Rightarrow> token_set \<Rightarrow> oauth_state \<Rightarrow> string \<Rightarrow> bool \<Rightarrow> 'c oauth_adapter \<Rightarrow> 'c oauth_adapter" where
  "apply_transition now ts target reason owed s =
     (transition_to now target reason s)\<lparr>apply_pc := ApplyCommitted ts owed\<rparr>"

definition apply_publish :: "token_set \<Rightarrow> bool \<Rightarrow> 'c oauth_adapter \<Rightarrow> 'c oauth_adapter" where
  "apply_publish ts owed s = (fst (publish_or_retain_tick owed s))\<lparr>apply_pc := ApplyPublished ts\<rparr>"

text \<open>
  Scheduling: \<open>now_secs\<close> is the wall clock, \<open>now\<close> the monotonic one. The outer \<open>None\<close> is a panic of
  instant arithmetic, the inner one "no proactive refresh".
\<close>

definition refresh_schedule ::
  "oauth_config \<Rightarrow> u64 \<Rightarrow> instant \<Rightarrow> token_set \<Rightarrow> instant option option" where
  "refresh_schedule cfg now_secs now ts =
     (if refresh_token ts = None \<and> \<not> oc_ema cfg then Some None
      else case expires_at ts of
        None \<Rightarrow> Some None
      | Some expires \<Rightarrow>
          (let expires_instant = now + secs (unat expires - unat now_secs) in
           case issued_at ts of
             Some issued \<Rightarrow>
               (if issued < expires then
                  (let back = secs (unat now_secs - unat issued) in
                   if now < back then None
                   else map_option Some (refresh_deadline (now - back) expires_instant))
                else Some (Some (fallback_refresh_deadline now expires_instant)))
           | None \<Rightarrow> Some (Some (fallback_refresh_deadline now expires_instant))))"

definition apply_finish ::
  "oauth_config \<Rightarrow> u64 \<Rightarrow> instant \<Rightarrow> token_set \<Rightarrow> 'c oauth_adapter \<Rightarrow> 'c oauth_adapter" where
  "apply_finish cfg now_secs now ts s =
     (let s1 = s\<lparr>tokens := Some ts, apply_pc := ApplyIdle\<rparr> in
      case refresh_schedule cfg now_secs now ts of
        Some (Some deadline) \<Rightarrow> s1\<lparr>refresh_task := Some deadline\<rparr>
      | _ \<Rightarrow> s1)"

text \<open>The whole apply without interleaving. \<open>init\<close> is the handshake's outcome.\<close>

datatype init_outcome =
    InitOk u64 "u64 option" nat nat
  | InitFailed health_status string

definition apply_tokens_inner ::
  "'c codec \<Rightarrow> oauth_config \<Rightarrow> u64 \<Rightarrow> instant \<Rightarrow> token_set \<Rightarrow> u64 option \<Rightarrow> init_outcome \<Rightarrow>
   'c oauth_adapter \<Rightarrow> 'c oauth_adapter \<times> bool" where
  "apply_tokens_inner cd cfg now_secs now ts refresh_epoch init s =
     (case apply_check ts refresh_epoch s of
        (s0, False) \<Rightarrow> (s0, False)
      | (s0, True) \<Rightarrow>
          (let s1 = apply_enter cd cfg now ts s0;
               s2 = (case init of
                   InitOk recovery fp oldq newq \<Rightarrow> apply_ready cfg ts recovery fp oldq newq s1
                 | InitFailed h e \<Rightarrow> apply_init_failed ts h e s1)
           in case apply_pc s2 of
                ApplySettled ts' target reason owed \<Rightarrow>
                  (apply_finish cfg now_secs now ts
                    (apply_publish ts owed (apply_transition now ts target reason owed s2)), True)
              | _ \<Rightarrow> (s2, True)))"

section \<open>Disconnecting and shutting down\<close>

definition disconnect_begin :: "'c oauth_adapter \<Rightarrow> 'c oauth_adapter" where
  "disconnect_begin s =
     (fst (swap_tools_forwarder None (s\<lparr>refresh_task := None\<rparr>)))
       \<lparr>inner_adapter := None, tokens := None, grant_epoch := grant_epoch s + 1, apply_pc := Disconnecting\<rparr>"

definition disconnect_end ::
  "oauth_config \<Rightarrow> instant \<Rightarrow> 'c oauth_adapter \<Rightarrow> 'c oauth_adapter \<times> (token_error + unit)" where
  "disconnect_end cfg now s =
     (case delete_tokens (oc_endpoint_name cfg) (disk s) of (d1, delete_result) \<Rightarrow>
       (let d2 = fst (delete_dcr (oc_endpoint_name cfg) d1);
            s1 = transition_to now Disconnected ''user disconnected'' (s\<lparr>disk := d2\<rparr>)
        in (s1\<lparr>apply_pc := ApplyIdle\<rparr>, delete_result)))"

definition disconnect ::
  "oauth_config \<Rightarrow> instant \<Rightarrow> 'c oauth_adapter \<Rightarrow> 'c oauth_adapter \<times> (token_error + unit)" where
  "disconnect cfg now s = disconnect_end cfg now (disconnect_begin s)"

text \<open>\<open>down\<close> is the result of shutting the inner adapter down.\<close>

definition shutdown ::
  "instant \<Rightarrow> adapter_error + unit \<Rightarrow> 'c oauth_adapter \<Rightarrow> 'c oauth_adapter \<times> (adapter_error + unit)" where
  "shutdown now down s =
     (let s1 = fst (swap_tools_forwarder None (s\<lparr>refresh_task := None\<rparr>)) in
      case (inner_adapter s1, down) of
        (Some _, Inl e) \<Rightarrow> (s1, Inl e)
      | _ \<Rightarrow> (transition_to now Disconnected ''shutdown'' (s1\<lparr>inner_adapter := None\<rparr>), Inr ()))"

end
