(* ===== verification/OAuth_Refresh.thy ===== *)
theory OAuth_Refresh
  imports OAuth_Adapter
begin

text \<open>
  Token refresh (\<^verbatim>\<open>do_token_refresh_with_epoch\<close>, its 404 fallback through discovery and its
  \<^verbatim>\<open>invalid_client\<close> self-heal), the enterprise-managed variant, and the heartbeat loop that drives
  both. The token endpoint, discovery and the JSON parser are fields of \<open>refresh_env\<close>.
\<close>

section \<open>Token responses\<close>

datatype oauth_error =
    NoRefreshToken string
  | RefreshFailed nat string
  | Http string
  | Ema string
  | StaleGrant string

datatype http_reply = SendError string | Reply nat string

datatype token_post_outcome =
    Success token_set
  | NotFound nat string
  | HttpErrorOut nat string
  | NetworkOut string
  | InvalidJson string

record refresh_env =
  post :: "string \<Rightarrow> (string \<times> string) list \<Rightarrow> http_reply"
  discover :: "string \<Rightarrow> string + string"
  parse_json :: "string \<Rightarrow> json option"
  wall :: u64
  mono :: instant

definition is_invalid_client_error :: "(string \<Rightarrow> json option) \<Rightarrow> string \<Rightarrow> bool" where
  "is_invalid_client_error parse body =
     (Option.bind (opt_get (parse body) ''error'') json_str = Some ''invalid_client'')"

definition token_set_of_response :: "u64 \<Rightarrow> string option \<Rightarrow> json \<Rightarrow> token_set" where
  "token_set_of_response now_secs old_refresh_token token_json =
     (let str = (\<lambda>k. Option.bind (json_get token_json k) json_str) in
      \<lparr>access_token = unwrap_or [] (str ''access_token''),
       refresh_token = option_or (str ''refresh_token'') old_refresh_token,
       expires_at = map_option (\<lambda>secs. now_secs + secs)
         (Option.bind (json_get token_json ''expires_in'') json_u64),
       token_type = unwrap_or ''Bearer'' (str ''token_type''),
       scope = str ''scope'',
       issued_at = Some now_secs\<rparr>)"

definition execute_token_post ::
  "refresh_env \<Rightarrow> (string \<times> string) list \<Rightarrow> string \<Rightarrow> 'c oauth_adapter \<Rightarrow> token_post_outcome" where
  "execute_token_post env form target_url s =
     (case post env target_url form of
        SendError e \<Rightarrow> NetworkOut e
      | Reply status body \<Rightarrow>
          (if \<not> (200 \<le> status \<and> status < 300)
           then (if status = 404 then NotFound status body else HttpErrorOut status body)
           else case parse_json env body of
               None \<Rightarrow> InvalidJson body
             | Some token_json \<Rightarrow>
                 Success (token_set_of_response (wall env)
                   (Option.bind (tokens s) refresh_token) token_json)))"

section \<open>Self-heal of a rejected client\<close>

definition handle_invalid_client_if_present ::
  "'c codec \<Rightarrow> oauth_config \<Rightarrow> refresh_env \<Rightarrow> string \<Rightarrow> string \<Rightarrow> 'c oauth_adapter \<Rightarrow>
   'c oauth_adapter \<times> string" where
  "handle_invalid_client_if_present cd cfg env body posted_client_id s =
     (if \<not> is_invalid_client_error (parse_json env) body then (s, ''token refresh failed'')
      else
        let endpoint = oc_endpoint_name cfg in
        case load_dcr (de_dcr cd) endpoint (disk s) of
          Inr (Some creds) \<Rightarrow>
            (if registered_via_dcr creds
             then (case clear_dcr_requesting_client (ser_dcr cd) (de_dcr cd) endpoint posted_client_id (disk s) of
                 (d, Inr True) \<Rightarrow>
                   (s\<lparr>disk := d\<rparr>, ''client registration invalidated; re-authorize to re-register'')
               | (d, _) \<Rightarrow> (s\<lparr>disk := d\<rparr>, ''token refresh failed''))
             else (s, ''token refresh failed''))
        | _ \<Rightarrow> (s, ''token refresh failed''))"

section \<open>Refresh\<close>

definition fail_refresh ::
  "instant \<Rightarrow> u64 \<Rightarrow> oauth_state \<Rightarrow> string \<Rightarrow> 'c oauth_adapter \<Rightarrow> 'c oauth_adapter" where
  "fail_refresh now epoch target reason s =
     fst (transition_if_current now epoch target reason (upd_metrics inc_refresh_failure s))"

definition handle_refresh_404 ::
  "'c codec \<Rightarrow> oauth_config \<Rightarrow> refresh_env \<Rightarrow> (string \<times> string) list \<Rightarrow> string \<Rightarrow> string \<Rightarrow> nat \<Rightarrow> string \<Rightarrow>
   u64 \<Rightarrow> 'c oauth_adapter \<Rightarrow> 'c oauth_adapter \<times> (oauth_error + token_set)" where
  "handle_refresh_404 cd cfg env form initial_url posted_client_id status body epoch s =
     (let original_err = Inl (RefreshFailed status body);
          give_up = (\<lambda>s. (fail_refresh (mono env) epoch AuthRequired ''token refresh failed'' s, original_err))
      in if oc_url cfg = [] then give_up s
         else case discover env (oc_url cfg) of
           Inl _ \<Rightarrow> give_up s
         | Inr token_endpoint \<Rightarrow>
             (if token_endpoint = initial_url then give_up s
              else
                let s1 = set_token_endpoint_override token_endpoint s in
                case execute_token_post env form token_endpoint s1 of
                  Success ts \<Rightarrow> (upd_metrics inc_refresh_success s1, Inr ts)
                | HttpErrorOut retry_status retry_body \<Rightarrow>
                    (case handle_invalid_client_if_present cd cfg env retry_body posted_client_id
                            (upd_metrics inc_refresh_failure s1) of
                       (s2, reason) \<Rightarrow>
                         (fst (transition_if_current (mono env) epoch AuthRequired reason s2), original_err))
                | _ \<Rightarrow> give_up s1))"

text \<open>The refresh grant of the current tokens, once the mutex is held and no other refresh won.\<close>

definition refresh_grant ::
  "'c codec \<Rightarrow> oauth_config \<Rightarrow> refresh_env \<Rightarrow> u64 \<Rightarrow> 'c oauth_adapter \<Rightarrow>
   'c oauth_adapter \<times> (oauth_error + token_set)" where
  "refresh_grant cd cfg env epoch s =
     (if epoch \<noteq> grant_epoch s then (s, Inl (StaleGrant (oc_endpoint_name cfg)))
      else case Option.bind (tokens s) refresh_token of
        None \<Rightarrow>
          (upd_metrics inc_refresh_failure
             (fst (transition_if_current (mono env) epoch AuthRequired ''no refresh token'' s)),
           Inl (NoRefreshToken (oc_endpoint_name cfg)))
      | Some rt \<Rightarrow>
          (let s1 = fst (transition_if_current (mono env) epoch Refreshing ''starting token refresh'' s)
           in case effective_client_pair cfg s1 of (posted_client_id, posted_client_secret) \<Rightarrow>
             (let form = [(''grant_type'', ''refresh_token''), (''refresh_token'', rt),
                          (''client_id'', posted_client_id)] @
                    (case posted_client_secret of Some secret \<Rightarrow> [(''client_secret'', secret)] | None \<Rightarrow> []);
                  initial_url = effective_token_endpoint cfg s1
              in case execute_token_post env form initial_url s1 of
                   Success ts \<Rightarrow> (upd_metrics inc_refresh_success s1, Inr ts)
                 | NotFound status body \<Rightarrow>
                     handle_refresh_404 cd cfg env form initial_url posted_client_id status body epoch s1
                 | HttpErrorOut status body \<Rightarrow>
                     (case handle_invalid_client_if_present cd cfg env body posted_client_id
                             (upd_metrics inc_refresh_failure s1) of
                        (s2, reason) \<Rightarrow>
                          (fst (transition_if_current (mono env) epoch AuthRequired reason s2),
                           Inl (RefreshFailed status body)))
                 | NetworkOut e \<Rightarrow>
                     (fail_refresh (mono env) epoch ConnectionFailed ''token refresh network error'' s1,
                      Inl (Http e))
                 | InvalidJson e \<Rightarrow>
                     (fail_refresh (mono env) epoch ConnectionFailed ''token refresh response not JSON'' s1,
                      Inl (Http e)))))"

text \<open>The outcome of the ID-JAG chain of an EMA endpoint.\<close>

datatype ema_outcome = EmaOk token_set | EmaStale | EmaReauth string | EmaDenied string | EmaOther string

definition do_ema_refresh ::
  "oauth_config \<Rightarrow> refresh_env \<Rightarrow> u64 \<Rightarrow> ema_outcome \<Rightarrow> 'c oauth_adapter \<Rightarrow>
   'c oauth_adapter \<times> (oauth_error + token_set)" where
  "do_ema_refresh cfg env epoch ema s =
     (let s1 = fst (transition_if_current (mono env) epoch Refreshing ''starting EMA token exchange'' s) in
      case ema of
        EmaOk ts \<Rightarrow> (upd_metrics inc_refresh_success s1, Inr ts)
      | EmaStale \<Rightarrow> (s1, Inl (StaleGrant (oc_endpoint_name cfg)))
      | EmaReauth e \<Rightarrow>
          (fail_refresh (mono env) epoch AuthRequired ''EMA re-authentication required'' s1, Inl (Ema e))
      | EmaDenied e \<Rightarrow>
          (fail_refresh (mono env) epoch AuthRequired ''EMA re-authentication required'' s1, Inl (Ema e))
      | EmaOther e \<Rightarrow>
          (fail_refresh (mono env) epoch ConnectionFailed ''EMA token exchange failed'' s1, Inl (Ema e)))"

text \<open>\<open>pre_token\<close> is the access token sampled before the refresh mutex was taken.\<close>

definition do_token_refresh_with_epoch ::
  "'c codec \<Rightarrow> oauth_config \<Rightarrow> refresh_env \<Rightarrow> ema_outcome \<Rightarrow> string option \<Rightarrow> u64 \<Rightarrow>
   'c oauth_adapter \<Rightarrow> 'c oauth_adapter \<times> (oauth_error + token_set)" where
  "do_token_refresh_with_epoch cd cfg env ema pre_token epoch s =
     (if oc_ema cfg then do_ema_refresh cfg env epoch ema s
      else case tokens s of
        Some t \<Rightarrow>
          (if Some (access_token t) \<noteq> pre_token then (s, Inr t) else refresh_grant cd cfg env epoch s)
      | None \<Rightarrow> refresh_grant cd cfg env epoch s)"

section \<open>Heartbeat\<close>

datatype list_outcome = ListOk "u64 option" u64 | ListErr adapter_error | ListTimedOut

definition probe_inner :: "nat \<Rightarrow> list_outcome \<Rightarrow> 'c oauth_adapter \<Rightarrow> probe_error + probed_tools" where
  "probe_inner timeout_secs r s =
     (if inner_adapter s = None then Inl (Network ''no inner adapter'')
      else case r of
        ListOk fp g \<Rightarrow> Inr \<lparr>pt_fingerprint = fp, pt_recovery_generation = g\<rparr>
      | ListErr e \<Rightarrow> Inl (classify_adapter_error e)
      | ListTimedOut \<Rightarrow> Inl (Network (''probe timed out after '' @ dec_of_nat timeout_secs @ ''s'')))"

text \<open>Dispatch: the coherent snapshot, and the reset of the failure streak of another generation.\<close>

definition hb_dispatch :: "'c oauth_adapter \<Rightarrow> 'c oauth_adapter \<times> tick_action \<times> u64" where
  "hb_dispatch s =
     (let generation = lifecycle_generation s;
          s1 = (if generation \<noteq> hb_streak s then s\<lparr>hb_failures := 0, hb_streak := generation\<rparr> else s)
      in (s1, classify_tick_action (state s), generation))"

definition hb_current :: "u64 \<Rightarrow> 'c oauth_adapter \<Rightarrow> bool" where
  "hb_current generation s = (state s = Authenticated \<and> lifecycle_generation s = generation)"

text \<open>The fence and the hysteresis accounting; \<open>None\<close> when the verdict is stale.\<close>

definition hb_account ::
  "oauth_config \<Rightarrow> u64 \<Rightarrow> probe_error + unit \<Rightarrow> 'c oauth_adapter \<Rightarrow>
   'c oauth_adapter \<times> probe_action option" where
  "hb_account cfg generation result s =
     (if \<not> hb_current generation s then (s, None)
      else case classify_probe_result result (hb_failures s) (oc_probe_failure_threshold cfg) of
        (action, failures) \<Rightarrow> (s\<lparr>hb_failures := failures\<rparr>, Some action))"

definition apply_probe_action ::
  "probe_action \<Rightarrow> u64 \<Rightarrow> probed_tools option \<Rightarrow> u64 \<Rightarrow> 'c oauth_adapter \<Rightarrow>
   'c oauth_adapter \<times> bool option" where
  "apply_probe_action action dispatched probed current s =
     (case action of
        MarkHealthy \<Rightarrow>
          (case commit_healthy_verdict dispatched probed current s of
             (s1, owed) \<Rightarrow>
               (if owed \<noteq> None then upd_metrics inc_heartbeat_healthy s1 else s1, owed))
      | BelowThreshold failures reason \<Rightarrow> (s, Some False)
      | MarkUnhealthy reason transport_dead \<Rightarrow>
          (upd_metrics inc_heartbeat_unhealthy
             (s\<lparr>inner_health := Unhealthy (if transport_dead then ''upstream unreachable'' else reason)\<rparr>),
           Some False)
      | AuthFailed \<Rightarrow>
          (if state s \<noteq> Authenticated \<or> lifecycle_generation s \<noteq> dispatched then (s, Some False)
           else
             let s1 = clear_fingerprint_on_degraded AuthRequired (upd_metrics inc_heartbeat_unhealthy s)
             in (s1\<lparr>state := AuthRequired, lifecycle_generation := lifecycle_generation s1 + 1\<rparr>,
                 Some False)))"

definition hb_verdict ::
  "oauth_config \<Rightarrow> u64 \<Rightarrow> probe_error + probed_tools \<Rightarrow> u64 \<Rightarrow> 'c oauth_adapter \<Rightarrow> 'c oauth_adapter" where
  "hb_verdict cfg generation r current s =
     (case hb_account cfg generation (case r of Inl e \<Rightarrow> Inl e | Inr _ \<Rightarrow> Inr ()) s of
        (s1, None) \<Rightarrow> s1
      | (s1, Some action) \<Rightarrow> fst (apply_probe_action action generation (ok r) current s1))"

text \<open>
  Recovery: one refresh under the epoch sampled at its start, and the guarded commit of its result.
\<close>

definition attempt_recovery ::
  "'c codec \<Rightarrow> oauth_config \<Rightarrow> refresh_env \<Rightarrow> ema_outcome \<Rightarrow> init_outcome \<Rightarrow> 'c oauth_adapter \<Rightarrow>
   'c oauth_adapter" where
  "attempt_recovery cd cfg env ema init s =
     (let refresh_epoch = grant_epoch s in
      case do_token_refresh_with_epoch cd cfg env ema (map_option access_token (tokens s)) refresh_epoch s of
        (s1, Inr ts) \<Rightarrow>
          fst (apply_tokens_inner cd cfg (wall env) (mono env) ts (Some refresh_epoch) init s1)
      | (s1, Inl _) \<Rightarrow> s1)"

text \<open>One iteration of the loop, without interleaving.\<close>

definition heartbeat_iteration ::
  "'c codec \<Rightarrow> oauth_config \<Rightarrow> refresh_env \<Rightarrow> ema_outcome \<Rightarrow> init_outcome \<Rightarrow> nat \<Rightarrow> list_outcome \<Rightarrow> u64 \<Rightarrow>
   'c oauth_adapter \<Rightarrow> 'c oauth_adapter" where
  "heartbeat_iteration cd cfg env ema init timeout_secs lst current s =
     (case hb_dispatch s of
        (s1, Skip, generation) \<Rightarrow> fst (publish_or_retain_tick False s1)
      | (s1, Probe, generation) \<Rightarrow> hb_verdict cfg generation (probe_inner timeout_secs lst s1) current s1
      | (s1, Recover, generation) \<Rightarrow>
          fst (publish_or_retain_tick False (attempt_recovery cd cfg env ema init s1)))"

end
