(* ===== verification/OAuth_Runs.thy ===== *)
theory OAuth_Runs
  imports OAuth_Refresh
begin

text \<open>
  Runs of the OAuth adapter: the critical sections of the concurrent tasks (token applies,
  refreshes, disconnects, the heartbeat, the tools forwarder, shutdown) as events that interleave
  freely, except that the holder of \<^verbatim>\<open>apply_lock\<close> excludes the sections that take it. The theorems
  bind what a task sampled before an arbitrary interleaving to what it may do afterwards.
\<close>

section \<open>Events\<close>

datatype 'c oauth_event =
    EvTransitionIfCurrent instant u64 oauth_state string
  | EvRefreshMetric bool
  | EvSelfHeal refresh_env string string
  | EvSetTokenEndpoint string
  | EvSetClient string "string option"
  | EvApplyCheck token_set "u64 option"
  | EvApplyEnter instant
  | EvApplyReady u64 "u64 option" nat nat
  | EvApplyInitFailed health_status string
  | EvApplyTransition instant
  | EvApplyPublish
  | EvApplyFinish u64 instant
  | EvDisconnectBegin
  | EvDisconnectEnd instant
  | EvShutdown instant "adapter_error + unit"
  | EvHbDispatch
  | EvHbSkip
  | EvHbFailed u64 probe_error
  | EvHbAccount u64 "probe_error + unit"
  | EvHbHealthy u64 "probed_tools option" u64
  | EvHbAuth u64
  | EvRelayClassify u64
  | EvRelayDecide
  | EvInnerRecovers

text \<open>
  A failed verdict is accounted and committed in one section; a success or a 401 is accounted first
  and committed in a later section of its own.
\<close>

fun ostep :: "'c codec \<Rightarrow> oauth_config \<Rightarrow> 'c oauth_event \<Rightarrow> 'c oauth_adapter \<Rightarrow> 'c oauth_adapter" where
  "ostep cd cfg (EvTransitionIfCurrent now epoch st reason) s =
     (if apply_pc s = ApplyIdle then fst (transition_if_current now epoch st reason s) else s)"
| "ostep cd cfg (EvRefreshMetric success) s =
     upd_metrics (if success then inc_refresh_success else inc_refresh_failure) s"
| "ostep cd cfg (EvSelfHeal env body cid) s =
     fst (handle_invalid_client_if_present cd cfg env body cid s)"
| "ostep cd cfg (EvSetTokenEndpoint url) s = set_token_endpoint_override url s"
| "ostep cd cfg (EvSetClient cid secret) s = set_client_credentials cid secret s"
| "ostep cd cfg (EvApplyCheck ts epoch) s =
     (if apply_pc s = ApplyIdle then fst (apply_check ts epoch s) else s)"
| "ostep cd cfg (EvApplyEnter now) s =
     (case apply_pc s of ApplyChecked ts \<Rightarrow> apply_enter cd cfg now ts s | _ \<Rightarrow> s)"
| "ostep cd cfg (EvApplyReady recovery fp oldq newq) s =
     (case apply_pc s of ApplyEntered ts \<Rightarrow> apply_ready cfg ts recovery fp oldq newq s | _ \<Rightarrow> s)"
| "ostep cd cfg (EvApplyInitFailed h e) s =
     (case apply_pc s of ApplyEntered ts \<Rightarrow> apply_init_failed ts h e s | _ \<Rightarrow> s)"
| "ostep cd cfg (EvApplyTransition now) s =
     (case apply_pc s of
        ApplySettled ts target reason owed \<Rightarrow> apply_transition now ts target reason owed s | _ \<Rightarrow> s)"
| "ostep cd cfg EvApplyPublish s =
     (case apply_pc s of ApplyCommitted ts owed \<Rightarrow> apply_publish ts owed s | _ \<Rightarrow> s)"
| "ostep cd cfg (EvApplyFinish now_secs now) s =
     (case apply_pc s of ApplyPublished ts \<Rightarrow> apply_finish cfg now_secs now ts s | _ \<Rightarrow> s)"
| "ostep cd cfg EvDisconnectBegin s = (if apply_pc s = ApplyIdle then disconnect_begin s else s)"
| "ostep cd cfg (EvDisconnectEnd now) s =
     (if apply_pc s = Disconnecting then fst (disconnect_end cfg now s) else s)"
| "ostep cd cfg (EvShutdown now down) s = fst (shutdown now down s)"
| "ostep cd cfg EvHbDispatch s = fst (hb_dispatch s)"
| "ostep cd cfg EvHbSkip s = fst (publish_or_retain_tick False s)"
| "ostep cd cfg (EvHbFailed g e) s =
     (if e = Auth then s
      else case hb_account cfg g (Inl e) s of
        (s1, None) \<Rightarrow> s1 | (s1, Some action) \<Rightarrow> fst (apply_probe_action action g None 0 s1))"
| "ostep cd cfg (EvHbAccount g r) s =
     (if is_failure r then s else fst (hb_account cfg g r s))"
| "ostep cd cfg (EvHbHealthy g probed current) s =
     fst (apply_probe_action MarkHealthy g probed current s)"
| "ostep cd cfg (EvHbAuth g) s = fst (apply_probe_action AuthFailed g None 0 s)"
| "ostep cd cfg (EvRelayClassify current) s =
     (case forwarder_seen s of Some seen \<Rightarrow> fst (relay_classify current seen s) | None \<Rightarrow> s)"
| "ostep cd cfg EvRelayDecide s =
     (if forwarder_seen s \<noteq> None then relay_decide (s\<lparr>last_tools_fingerprint := None\<rparr>) else s)"
| "ostep cd cfg EvInnerRecovers s =
     s\<lparr>inner_adapter := map_option (\<lambda>i. i\<lparr>ih_recovery := ih_recovery i + 1\<rparr>) (inner_adapter s)\<rparr>"

text \<open>Startup: what \<^verbatim>\<open>initialize\<close> does with the stored tokens before the first concurrent event.\<close>

definition startup ::
  "'c codec \<Rightarrow> oauth_config \<Rightarrow> u64 \<Rightarrow> instant \<Rightarrow> 'c world \<Rightarrow> 'c oauth_adapter" where
  "startup cd cfg now_secs now d =
     (let s = new_adapter d in
      if oc_ema cfg then s
      else case load_tokens (de_tokens cd) (oc_endpoint_name cfg) d of
        Inr (Some ts) \<Rightarrow>
          (if token_is_valid now_secs ts then s
           else if refresh_token ts \<noteq> None then s\<lparr>tokens := Some ts\<rparr>
           else transition_to now AuthRequired ''expired tokens without refresh token'' s)
      | _ \<Rightarrow> transition_to now NeedsLogin ''no existing tokens at startup'' s)"

lemmas oauth_ops =
  transition_if_current_def transition_to_def recorded_transition_def do_transition_def
  clear_fingerprint_on_degraded_def upd_tick_def upd_metrics_def send_outer_def
  publish_or_retain_tick_def take_deferred_def commit_healthy_verdict_def relay_decide_def
  relay_classify_def poke_heartbeat_on_inner_recovery_def note_unacked_recovery_def
  swap_tools_forwarder_def apply_check_def apply_enter_def apply_ready_def apply_init_failed_def
  apply_transition_def apply_publish_def apply_finish_def disconnect_begin_def disconnect_end_def
  shutdown_def hb_dispatch_def hb_account_def apply_probe_action_def
  set_token_endpoint_override_def set_client_credentials_def Let_def

lemmas refresh_ops =
  refresh_grant_def fail_refresh_def handle_refresh_404_def handle_invalid_client_if_present_def

section \<open>The sequential operations are runs\<close>

definition runs_to ::
  "'c codec \<Rightarrow> oauth_config \<Rightarrow> 'c oauth_adapter \<Rightarrow> 'c oauth_adapter \<Rightarrow> bool" where
  "runs_to cd cfg s t = (\<exists>es. t = apply_all (ostep cd cfg) es s)"

named_theorems runs

lemma runs_refl [runs]: "runs_to cd cfg s s"
  unfolding runs_to_def by (rule exI [of _ "[]"]) simp

lemma runs_trans: "runs_to cd cfg s t \<Longrightarrow> runs_to cd cfg t u \<Longrightarrow> runs_to cd cfg s u"
  unfolding runs_to_def by (metis apply_all_append)

lemma runs_event: "t = ostep cd cfg e s \<Longrightarrow> runs_to cd cfg s t"
  unfolding runs_to_def by (rule exI [of _ "[e]"]) simp

lemma pc_transition [simp]: "apply_pc (fst (transition_if_current now e st r s)) = apply_pc s"
  by (simp add: oauth_ops)

lemma pc_heal [simp]:
  "apply_pc (fst (handle_invalid_client_if_present cd cfg env body cid s)) = apply_pc s"
  by (auto simp: handle_invalid_client_if_present_def Let_def
      split: sum.splits option.splits prod.splits bool.splits)

lemma pc_metrics [simp]: "apply_pc (upd_metrics f s) = apply_pc s"
  by (simp add: upd_metrics_def)

lemma pc_endpoint [simp]: "apply_pc (set_token_endpoint_override u s) = apply_pc s"
  by (simp add: set_token_endpoint_override_def)

lemma runs_transition:
  "runs_to cd cfg s0 s \<Longrightarrow> apply_pc s = ApplyIdle \<Longrightarrow>
   runs_to cd cfg s0 (fst (transition_if_current now e st r s))"
  by (rule runs_trans, assumption, rule runs_event [where e = "EvTransitionIfCurrent now e st r"]) simp

lemma runs_failure: "runs_to cd cfg s0 s \<Longrightarrow> runs_to cd cfg s0 (upd_metrics inc_refresh_failure s)"
  by (rule runs_trans, assumption, rule runs_event [where e = "EvRefreshMetric False"]) simp

lemma runs_success: "runs_to cd cfg s0 s \<Longrightarrow> runs_to cd cfg s0 (upd_metrics inc_refresh_success s)"
  by (rule runs_trans, assumption, rule runs_event [where e = "EvRefreshMetric True"]) simp

lemma runs_heal:
  "runs_to cd cfg s0 s \<Longrightarrow>
   runs_to cd cfg s0 (fst (handle_invalid_client_if_present cd cfg env body cid s))"
  by (rule runs_trans, assumption, rule runs_event [where e = "EvSelfHeal env body cid"]) simp

lemma runs_endpoint: "runs_to cd cfg s0 s \<Longrightarrow> runs_to cd cfg s0 (set_token_endpoint_override u s)"
  by (rule runs_trans, assumption, rule runs_event [where e = "EvSetTokenEndpoint u"]) simp

lemma runs_fail:
  "runs_to cd cfg s0 s \<Longrightarrow> apply_pc s = ApplyIdle \<Longrightarrow> runs_to cd cfg s0 (fail_refresh now e st r s)"
  unfolding fail_refresh_def by (rule runs_transition [OF runs_failure]) simp_all

lemma runs_404:
  assumes "runs_to cd cfg s0 s" "apply_pc s = ApplyIdle"
  shows "runs_to cd cfg s0 (fst (handle_refresh_404 cd cfg env form u cid status body e s))"
  using assms unfolding handle_refresh_404_def Let_def
  by (auto simp: case_prod_beta intro!: runs_fail runs_success runs_transition runs_heal runs_failure runs_endpoint
      split: sum.splits token_post_outcome.splits)

lemma refresh_is_run:
  assumes "apply_pc s = ApplyIdle"
  shows "runs_to cd cfg s (fst (refresh_grant cd cfg env e s))"
  using assms unfolding refresh_grant_def Let_def
  by (auto simp: case_prod_beta intro!: runs_refl runs_fail runs_success runs_transition runs_heal runs_failure runs_404
      split: option.splits token_post_outcome.splits)

lemma apply_is_run:
  assumes "apply_pc s = ApplyIdle"
  shows "runs_to cd cfg s (fst (apply_tokens_inner cd cfg ns now ts epoch init s))"
proof (cases "snd (apply_check ts epoch s)")
  case False
  then have "fst (apply_tokens_inner cd cfg ns now ts epoch init s) = ostep cd cfg (EvApplyCheck ts epoch) s"
    using assms by (auto simp: apply_tokens_inner_def split: prod.splits bool.splits)
  then show ?thesis by (rule runs_event)
next
  case True
  let ?init = "case init of InitOk r fp oq nq \<Rightarrow> EvApplyReady r fp oq nq | InitFailed h e \<Rightarrow> EvApplyInitFailed h e"
  let ?es = "[EvApplyCheck ts epoch, EvApplyEnter now, ?init, EvApplyTransition now, EvApplyPublish,
      EvApplyFinish ns now]"
  obtain s0 where check: "apply_check ts epoch s = (s0, True)"
    using True by (metis prod.collapse)
  then have pc0: "apply_pc s0 = ApplyChecked ts"
    by (auto simp: apply_check_def split: option.splits if_splits)
  have pc1: "apply_pc (apply_enter cd cfg now ts s') = ApplyEntered ts" for s' :: "'a oauth_adapter"
    by (simp add: apply_enter_def Let_def)
  have pc4: "apply_pc (apply_transition now ts target reason owed s') = ApplyCommitted ts owed"
    for s' :: "'a oauth_adapter" and target reason owed
    by (simp add: apply_transition_def)
  have pc5: "apply_pc (apply_publish ts owed s') = ApplyPublished ts" for s' :: "'a oauth_adapter" and owed
    by (simp add: apply_publish_def)
  define s1 where "s1 = apply_enter cd cfg now ts s0"
  define s2 where "s2 = (case init of InitOk r fp oq nq \<Rightarrow> apply_ready cfg ts r fp oq nq s1
    | InitFailed h e \<Rightarrow> apply_init_failed ts h e s1)"
  obtain target reason owed where pc2: "apply_pc s2 = ApplySettled ts target reason owed"
    by (cases init) (auto simp: s2_def apply_ready_def apply_init_failed_def Let_def case_prod_beta)
  have s2: "ostep cd cfg ?init s1 = s2"
    by (cases init) (simp_all add: s2_def s1_def pc1)
  have "fst (apply_tokens_inner cd cfg ns now ts epoch init s) =
      apply_finish cfg ns now ts (apply_publish ts owed (apply_transition now ts target reason owed s2))"
    by (simp add: apply_tokens_inner_def check Let_def s1_def [symmetric] s2_def [symmetric] pc2)
  also have "\<dots> = apply_all (ostep cd cfg) ?es s"
    using assms by (simp add: check pc0 s1_def [symmetric] s2 pc2 pc4 pc5)
  finally have "fst (apply_tokens_inner cd cfg ns now ts epoch init s) = apply_all (ostep cd cfg) ?es s" .
  then show ?thesis unfolding runs_to_def by blast
qed

section \<open>Frames\<close>

text \<open>What the operations that only move ticks, health and counters leave alone.\<close>

definition same_core :: "'c oauth_adapter \<Rightarrow> 'c oauth_adapter \<Rightarrow> bool" where
  "same_core s t = (state t = state s \<and> grant_epoch t = grant_epoch s \<and>
     lifecycle_generation t = lifecycle_generation s \<and> apply_pc t = apply_pc s \<and>
     inner_adapter t = inner_adapter s \<and> tokens t = tokens s \<and>
     transition_history t = transition_history s)"

lemma core_heal: "same_core s (fst (handle_invalid_client_if_present cd cfg env body cid s))"
  by (auto simp: same_core_def handle_invalid_client_if_present_def Let_def
      split: sum.splits option.splits prod.splits bool.splits)

lemma core_metrics: "same_core s (upd_metrics f s)"
  by (simp add: same_core_def upd_metrics_def)

lemma core_endpoint: "same_core s (set_token_endpoint_override u s)"
  by (simp add: same_core_def set_token_endpoint_override_def)

lemma core_client: "same_core s (set_client_credentials c p s)"
  by (simp add: same_core_def set_client_credentials_def)

lemma core_publish: "same_core s (fst (publish_or_retain_tick owed s))"
  by (auto simp: same_core_def oauth_ops split: option.splits)

lemma core_dispatch: "same_core s (fst (hb_dispatch s))"
  by (simp add: same_core_def hb_dispatch_def Let_def)

lemma core_account: "same_core s (fst (hb_account cfg g r s))"
  by (auto simp: same_core_def hb_account_def split: prod.splits)

lemma core_commit: "same_core s (fst (commit_healthy_verdict g probed current s))"
  by (auto simp: same_core_def commit_healthy_verdict_def Let_def case_prod_beta send_outer_def)

lemma core_action:
  assumes "action \<noteq> AuthFailed"
  shows "same_core s (fst (apply_probe_action action g probed current s))"
  using assms core_commit [of s g probed current]
  by (cases action) (auto simp: apply_probe_action_def same_core_def upd_metrics_def case_prod_beta)

lemma core_classify: "same_core s (fst (relay_classify current seen s))"
  by (auto simp: same_core_def relay_classify_def poke_heartbeat_on_inner_recovery_def
      note_unacked_recovery_def upd_tick_def split: prod.splits bool.splits if_splits)

lemma core_decide: "same_core s (relay_decide (s\<lparr>last_tools_fingerprint := f\<rparr>))"
  by (simp add: same_core_def relay_decide_def upd_tick_def send_outer_def)

lemma core_refl: "same_core s s"
  by (simp add: same_core_def)

lemma core_failed:
  "same_core s (case hb_account cfg g (Inl e) s of
      (s1, None) \<Rightarrow> s1 | (s1, Some action) \<Rightarrow> fst (apply_probe_action action g None 0 s1))"
  if "e \<noteq> Auth"
proof (cases "hb_account cfg g (Inl e) s")
  case (Pair s1 a)
  have c: "same_core s s1" using core_account [of s cfg g "Inl e"] Pair by simp
  have "a \<noteq> Some AuthFailed"
    using Pair that by (cases e) (auto simp: hb_account_def record_probe_failure_def Let_def split: if_splits)
  then have "same_core s1 (fst (apply_probe_action x g None 0 s1))" if "a = Some x" for x
    using that core_action by auto
  with c Pair show ?thesis by (cases a) (auto simp: same_core_def)
qed

lemmas core_events =
  core_heal core_metrics core_endpoint core_client core_publish core_dispatch core_account core_action
  core_classify core_decide core_refl core_failed

text \<open>The events that write the lifecycle, the grant or the inner adapter.\<close>

fun is_core_event :: "'c oauth_event \<Rightarrow> bool" where
  "is_core_event (EvTransitionIfCurrent now e st r) = True"
| "is_core_event (EvApplyCheck ts e) = True"
| "is_core_event (EvApplyEnter now) = True"
| "is_core_event (EvApplyReady r fp oq nq) = True"
| "is_core_event (EvApplyInitFailed h e) = True"
| "is_core_event (EvApplyTransition now) = True"
| "is_core_event EvApplyPublish = True"
| "is_core_event (EvApplyFinish ns now) = True"
| "is_core_event EvDisconnectBegin = True"
| "is_core_event (EvDisconnectEnd now) = True"
| "is_core_event (EvShutdown now down) = True"
| "is_core_event (EvHbAuth g) = True"
| "is_core_event EvInnerRecovers = True"
| "is_core_event _ = False"

lemma core_event_frame: "\<not> is_core_event e \<Longrightarrow> same_core s (ostep cd cfg e s)"
  by (cases e) (auto simp: core_events intro!: core_action split: option.splits)

fun grant_bumps :: "'c oauth_event \<Rightarrow> 'c oauth_adapter \<Rightarrow> bool" where
  "grant_bumps (EvApplyCheck ts None) s = (apply_pc s = ApplyIdle)"
| "grant_bumps EvDisconnectBegin s = (apply_pc s = ApplyIdle)"
| "grant_bumps _ s = False"

fun is_checked :: "apply_pc \<Rightarrow> bool" where
  "is_checked (ApplyChecked ts) = True"
| "is_checked _ = False"

fun is_settled :: "apply_pc \<Rightarrow> bool" where
  "is_settled (ApplySettled ts target reason owed) = True"
| "is_settled _ = False"

fun is_entered :: "apply_pc \<Rightarrow> bool" where
  "is_entered (ApplyEntered ts) = True"
| "is_entered _ = False"

fun lifecycle_bumps :: "'c oauth_event \<Rightarrow> 'c oauth_adapter \<Rightarrow> bool" where
  "lifecycle_bumps (EvTransitionIfCurrent now e st r) s = (apply_pc s = ApplyIdle \<and> grant_epoch s = e)"
| "lifecycle_bumps (EvApplyEnter now) s = (is_checked (apply_pc s) \<and> state s \<noteq> Refreshing)"
| "lifecycle_bumps (EvApplyTransition now) s = is_settled (apply_pc s)"
| "lifecycle_bumps (EvDisconnectEnd now) s = (apply_pc s = Disconnecting)"
| "lifecycle_bumps (EvShutdown now down) s = (inner_adapter s = None \<or> is_ok down)"
| "lifecycle_bumps (EvHbAuth g) s = hb_current g s"
| "lifecycle_bumps _ s = False"

end
