(* ===== verification/OAuth_Safety.thy ===== *)
theory OAuth_Safety
  imports OAuth_Runs
begin

text \<open>
  What the interleavings of OAuth_Runs guarantee: generation counters that detect every replaced
  grant and every state write, ticks that are never published while refreshing and never lost,
  and the one transition the legality table rejects.
\<close>

section \<open>The two counters\<close>

lemma grant_step:
  "grant_epoch (ostep cd cfg e s) = grant_epoch s + (if grant_bumps e s then 1 else 0)"
proof (cases "is_core_event e")
  case False
  then have "same_core s (ostep cd cfg e s)" "\<not> grant_bumps e s"
    by (auto simp: core_event_frame elim: grant_bumps.elims)
  then show ?thesis by (simp add: same_core_def)
next
  case True
  then show ?thesis
  proof (cases e rule: is_core_event.cases)
    case (2 ts ep)
    then show ?thesis by (cases ep) (auto simp: apply_check_def)
  next
    case (4 r fp oq nq)
    then show ?thesis
      by (auto simp: apply_ready_def Let_def swap_tools_forwarder_def upd_tick_def split: apply_pc.split)
  qed (auto simp: oauth_ops split: apply_pc.split sum.split option.split prod.split)
qed

lemma lifecycle_step:
  "lifecycle_generation (ostep cd cfg e s) =
     lifecycle_generation s + (if lifecycle_bumps e s then 1 else 0)"
proof (cases "is_core_event e")
  case False
  then have "same_core s (ostep cd cfg e s)" "\<not> lifecycle_bumps e s"
    by (auto simp: core_event_frame elim: lifecycle_bumps.elims)
  then show ?thesis by (simp add: same_core_def)
next
  case True
  then show ?thesis
  proof (cases e rule: is_core_event.cases)
    case (4 r fp oq nq)
    then show ?thesis
      by (auto simp: apply_ready_def Let_def swap_tools_forwarder_def upd_tick_def split: apply_pc.split)
  qed (auto simp: oauth_ops hb_current_def split: apply_pc.split sum.split option.split prod.split)
qed

interpretation grants: epoch_counter grant_epoch "ostep cd cfg" grant_bumps for cd cfg
  by unfold_locales (rule grant_step)

interpretation lifecycle: epoch_counter lifecycle_generation "ostep cd cfg" lifecycle_bumps for cd cfg
  by unfold_locales (rule lifecycle_step)

section \<open>Stale refreshes\<close>

text \<open>C1: a refresh that outlives its grant has no effect. Whatever the tasks do between the moment a
  refresh samples the grant epoch and the moment it commits, if the grant was discarded or replaced
  in between (fewer than \<open>2 ^ 64\<close> times), then committing its tokens is dropped, its state
  transitions are refused, and neither changes anything; if it was not, the commit is accepted.\<close>

theorem stale_refresh_fenced:
  assumes "bump_count (ostep cd cfg) grant_bumps es s < 2 ^ 64"
  defines "t \<equiv> apply_all (ostep cd cfg) es s"
  shows "if 0 < bump_count (ostep cd cfg) grant_bumps es s
    then apply_tokens_inner cd cfg ns now ts (Some (grant_epoch s)) init t = (t, False) \<and>
         transition_if_current now (grant_epoch s) target reason t = (t, False) \<and>
         refresh_grant cd cfg env (grant_epoch s) t = (t, Inl (StaleGrant (oc_endpoint_name cfg)))
    else snd (apply_check ts (Some (grant_epoch s)) t) \<and>
         snd (transition_if_current now (grant_epoch s) target reason t)"
proof (cases "0 < bump_count (ostep cd cfg) grant_bumps es s")
  case True
  then have "grant_epoch t \<noteq> grant_epoch s"
    using grants.epoch_detects assms by blast
  then have "grant_epoch s \<noteq> grant_epoch t" "grant_epoch t \<noteq> grant_epoch s" by auto
  with True show ?thesis
    by (simp add: apply_tokens_inner_def apply_check_def transition_if_current_def refresh_grant_def)
next
  case False
  then have "grant_epoch t = grant_epoch s"
    using grants.epoch_unchanged unfolding t_def by blast
  with False show ?thesis by (simp add: apply_check_def transition_if_current_def)
qed

definition demo_world :: "unit world" where
  "demo_world = \<lparr>io = (\<lambda>_. None), junk = None, default_mode = 420, files = []\<rparr>"

definition demo_codec :: "unit codec" where
  "demo_codec = \<lparr>ser_tokens = (\<lambda>_. ()), de_tokens = (\<lambda>_. None), ser_dcr = (\<lambda>_. ()), de_dcr = (\<lambda>_. None)\<rparr>"

definition demo_config :: oauth_config where
  "demo_config = \<lparr>oc_endpoint_name = ''ep'', oc_url = ''u'', oc_token_endpoint_url = ''t'',
     oc_client_id = ''c'', oc_client_secret = None, oc_ema = False, oc_probe_failure_threshold = 3\<rparr>"

definition demo_env :: refresh_env where
  "demo_env = \<lparr>post = (\<lambda>_ _. SendError ''down''), discover = (\<lambda>_. Inl ''none''), parse_json = (\<lambda>_. None),
     wall = 0, mono = 0\<rparr>"

theorem stale_refresh_fenced_witness:
  "apply_tokens_inner demo_codec demo_config 0 0 sample_tokens (Some 0) (InitFailed Starting [])
     (apply_all (ostep demo_codec demo_config) [EvDisconnectBegin, EvDisconnectEnd 1] (new_adapter demo_world))
   = (apply_all (ostep demo_codec demo_config) [EvDisconnectBegin, EvDisconnectEnd 1] (new_adapter demo_world),
      False)"
proof -
  have n: "bump_count (ostep demo_codec demo_config) grant_bumps [EvDisconnectBegin, EvDisconnectEnd 1]
      (new_adapter demo_world) = 1"
    by (simp add: new_adapter_def)
  have e: "grant_epoch (new_adapter demo_world) = 0"
    by (simp add: new_adapter_def)
  show ?thesis
    using stale_refresh_fenced [where cd = demo_codec and cfg = demo_config and
        es = "[EvDisconnectBegin, EvDisconnectEnd 1]" and s = "new_adapter demo_world" and ns = 0 and
        now = 0 and ts = sample_tokens and init = "InitFailed Starting []"]
    unfolding n e by (simp del: apply_all.simps)
qed

section \<open>The heartbeat's fence\<close>

text \<open>While tokens are being installed the state is \<^verbatim>\<open>Refreshing\<close>, unless shutdown intervened.\<close>

definition apply_inv :: "'c oauth_adapter \<Rightarrow> bool" where
  "apply_inv s = (is_entered (apply_pc s) \<or> is_settled (apply_pc s) \<longrightarrow>
     state s = Refreshing \<or> state s = Disconnected)"

lemma apply_inv_step: "apply_inv s \<Longrightarrow> apply_inv (ostep cd cfg e s)"
proof (cases "is_core_event e")
  case False
  then have "same_core s (ostep cd cfg e s)" by (rule core_event_frame)
  moreover assume "apply_inv s"
  ultimately show ?thesis by (simp add: apply_inv_def same_core_def)
next
  case True
  assume inv: "apply_inv s"
  from True show ?thesis
  proof (cases e rule: is_core_event.cases)
    case (2 ts ep)
    with inv show ?thesis by (auto simp: apply_inv_def apply_check_def split: option.splits)
  next
    case (4 r fp oq nq)
    with inv show ?thesis
      by (auto simp: apply_inv_def apply_ready_def Let_def swap_tools_forwarder_def upd_tick_def
          split: apply_pc.splits)
  qed (use inv in \<open>auto simp: apply_inv_def oauth_ops split: apply_pc.splits sum.splits option.splits prod.splits\<close>)
qed

lemma apply_inv_run: "apply_inv s \<Longrightarrow> apply_inv (apply_all (ostep cd cfg) es s)"
  by (induction es arbitrary: s) (auto simp: apply_inv_step)

lemma apply_inv_start: "apply_inv (startup cd cfg ns now d)"
  by (auto simp: startup_def Let_def new_adapter_def apply_inv_def oauth_ops
      split: sum.splits option.splits)

text \<open>No event changes the state or replaces the inner adapter of an authenticated endpoint without a
  lifecycle bump; a disconnect may drop it just before its own bump.\<close>

definition bearer :: "'c oauth_adapter \<Rightarrow> string option" where
  "bearer s = map_option ih_bearer (inner_adapter s)"

definition probed_still :: "string option \<Rightarrow> 'c oauth_adapter \<Rightarrow> bool" where
  "probed_still b s = (state s = Authenticated \<and> (bearer s = b \<or> bearer s = None))"

lemma quiet_step:
  assumes "apply_inv s" "probed_still b s" "\<not> lifecycle_bumps e s"
  shows "probed_still b (ostep cd cfg e s)"
proof (cases "is_core_event e")
  case False
  then have "same_core s (ostep cd cfg e s)" by (rule core_event_frame)
  with assms(2) show ?thesis by (simp add: probed_still_def bearer_def same_core_def)
next
  case True
  have pc: "\<not> is_entered (apply_pc s)" "\<not> is_settled (apply_pc s)"
    using assms by (auto simp: apply_inv_def probed_still_def)
  from True show ?thesis
  proof (cases e rule: is_core_event.cases)
    case (2 ts ep)
    with assms show ?thesis
      by (auto simp: probed_still_def bearer_def apply_check_def split: option.splits)
  qed (use assms pc in \<open>auto simp: probed_still_def bearer_def oauth_ops hb_current_def option.map_comp comp_def
      split: apply_pc.splits sum.splits option.splits prod.splits\<close>)
qed

lemma quiet_run:
  assumes "apply_inv s" "probed_still b s" "bump_count (ostep cd cfg) lifecycle_bumps es s = 0"
  shows "probed_still b (apply_all (ostep cd cfg) es s)"
  using assms
proof (induction es arbitrary: s)
  case Nil
  then show ?case by simp
next
  case (Cons e es)
  from Cons.prems(3) have "\<not> lifecycle_bumps e s"
    "bump_count (ostep cd cfg) lifecycle_bumps es (ostep cd cfg e s) = 0"
    by (auto split: if_splits)
  with Cons show ?case by (simp add: apply_inv_step quiet_step)
qed


section \<open>A completed apply\<close>

lemma enter_facts:
  "state (apply_enter cd cfg now ts s) = Refreshing"
  "outer_sent (apply_enter cd cfg now ts s) = outer_sent s"
  "inner_adapter (apply_enter cd cfg now ts s) = inner_adapter s"
  "inner_health (apply_enter cd cfg now ts s) = inner_health s"
  "recovery_tick (apply_enter cd cfg now ts s) = recovery_tick s"
  "last_tools_fingerprint (apply_enter cd cfg now ts s) = last_tools_fingerprint s"
  "forwarder_seen (apply_enter cd cfg now ts s) = forwarder_seen s"
  "apply_pc (apply_enter cd cfg now ts s) = ApplyEntered ts"
  "grant_epoch (apply_enter cd cfg now ts s) = grant_epoch s"
  "disk (apply_enter cd cfg now ts s) = fst (save_tokens (ser_tokens cd) (oc_endpoint_name cfg) ts (disk s))"
  by (simp_all add: apply_enter_def Let_def recorded_transition_def do_transition_def)

text \<open>What makes the registry's view of the endpoint suspect before the apply.\<close>

definition suspect :: "nat \<Rightarrow> nat \<Rightarrow> u64 option \<Rightarrow> 'c oauth_adapter \<Rightarrow> bool" where
  "suspect oldq newq fp s =
     (inner_adapter s = None \<or> inner_health s \<noteq> Healthy \<or> restore_owed (recovery_tick s) \<or>
      baseline_invalidated (recovery_tick s) \<or> deferred s \<or>
      (case inner_adapter s of Some i \<Rightarrow> acked_generation (recovery_tick s) < ih_recovery i | None \<Rightarrow> False) \<or>
      (forwarder_seen s \<noteq> None \<and> 0 < oldq) \<or> 0 < newq \<or>
      (fp \<noteq> None \<and> fp \<noteq> last_tools_fingerprint s))"

lemma ready_facts:
  assumes t_def: "t = apply_ready cfg ts r fp oldq newq s"
  shows "state t = state s" "outer_sent t = outer_sent s" "inner_health t = Healthy"
    "inner_adapter t = Some (build_inner_adapter cfg ts r)" "disk t = disk s"
    "grant_epoch t = grant_epoch s"
    "\<exists>owed. apply_pc t = ApplySettled ts Authenticated ''tokens applied, inner adapter ready'' owed \<and>
       (owed \<or> deferred t \<longleftrightarrow> suspect oldq newq fp s)"
    "\<not> restore_owed (recovery_tick t)"
proof -
  show "\<exists>owed. apply_pc t = ApplySettled ts Authenticated ''tokens applied, inner adapter ready'' owed \<and>
       (owed \<or> deferred t \<longleftrightarrow> suspect oldq newq fp s)"
    by (auto simp: t_def apply_ready_def Let_def swap_tools_forwarder_def upd_tick_def suspect_def
        should_tick_decision_def drain_queued_ticks_def deferred_def split: option.splits)
qed (simp_all add: t_def apply_ready_def Let_def swap_tools_forwarder_def upd_tick_def)

lemma publish_facts:
  assumes "state s \<noteq> Refreshing"
  assumes t_def: "t = apply_publish ts owed s"
  shows "state t = state s" "inner_health t = inner_health s" "inner_adapter t = inner_adapter s"
    "outer_sent t = outer_sent s @ (if owed \<or> deferred s then [state s] else [])"
    "\<not> deferred t" "apply_pc t = ApplyPublished ts" "disk t = disk s" "grant_epoch t = grant_epoch s"
  using assms(1)
  by (auto simp: t_def apply_publish_def publish_or_retain_tick_def take_deferred_def Let_def
      send_outer_def deferred_def split: option.splits)

lemma transition_facts:
  assumes t_def: "t = apply_transition now ts target reason owed s"
  shows "state t = target" "inner_health t = inner_health s" "inner_adapter t = inner_adapter s"
    "outer_sent t = outer_sent s" "deferred t = deferred s" "disk t = disk s"
    "grant_epoch t = grant_epoch s"
  by (simp_all add: t_def apply_transition_def transition_to_def recorded_transition_def
      do_transition_def clear_fingerprint_on_degraded_def upd_tick_def deferred_def)

lemma finish_facts:
  assumes t_def: "t = apply_finish cfg ns now ts s"
  shows "state t = state s" "inner_health t = inner_health s" "inner_adapter t = inner_adapter s"
    "outer_sent t = outer_sent s" "deferred t = deferred s" "tokens t = Some ts" "disk t = disk s"
    "apply_pc t = ApplyIdle" "grant_epoch t = grant_epoch s"
  by (auto simp: t_def apply_finish_def Let_def deferred_def split: option.splits)

lemma check_facts:
  assumes "apply_check ts epoch s = (t, True)"
  shows "t = s\<lparr>grant_epoch := grant_epoch s + (if epoch = None then 1 else 0), apply_pc := ApplyChecked ts\<rparr>"
  using assms by (auto simp: apply_check_def split: option.splits if_splits)

text \<open>An apply that passes the epoch check and whose handshake succeeds leaves a healthy,
  authenticated endpoint whose transport carries the new bearer, with the tokens in memory and
  saved, nothing deferred and the lock free; it publishes exactly one tick, after becoming healthy,
  when the registry's view was suspect for any reason, and none otherwise.\<close>

theorem apply_success:
  assumes "snd (apply_check ts epoch s)"
  shows "\<exists>t. apply_tokens_inner cd cfg ns now ts epoch (InitOk r fp oldq newq) s = (t, True) \<and>
     state t = Authenticated \<and> health t = Healthy \<and> tokens t = Some ts \<and>
     inner_adapter t = Some (build_inner_adapter cfg ts r) \<and> apply_pc t = ApplyIdle \<and> \<not> deferred t \<and>
     disk t = fst (save_tokens (ser_tokens cd) (oc_endpoint_name cfg) ts (disk s)) \<and>
     grant_epoch t = grant_epoch s + (if epoch = None then 1 else 0) \<and>
     outer_sent t = outer_sent s @ (if suspect oldq newq fp s then [Authenticated] else [])"
proof -
  obtain s0 where check: "apply_check ts epoch s = (s0, True)"
    using assms by (metis prod.collapse)
  note s0 = check_facts [OF check]
  define s1 where "s1 = apply_enter cd cfg now ts s0"
  define s2 where "s2 = apply_ready cfg ts r fp oldq newq s1"
  obtain owed where owed: "apply_pc s2 = ApplySettled ts Authenticated ''tokens applied, inner adapter ready'' owed"
      "owed \<or> deferred s2 \<longleftrightarrow> suspect oldq newq fp s1"
    using ready_facts(7) [OF s2_def] by blast
  define s3 where "s3 = apply_transition now ts Authenticated ''tokens applied, inner adapter ready'' owed s2"
  define s4 where "s4 = apply_publish ts owed s3"
  have eq: "apply_tokens_inner cd cfg ns now ts epoch (InitOk r fp oldq newq) s =
      (apply_finish cfg ns now ts s4, True)"
    by (simp add: apply_tokens_inner_def check Let_def s1_def [symmetric] s2_def [symmetric] owed(1)
        s3_def [symmetric] s4_def [symmetric])
  have susp: "suspect oldq newq fp s1 = suspect oldq newq fp s"
    by (simp add: suspect_def s1_def enter_facts s0 deferred_def cong: option.case_cong)
  have st3: "state s3 = Authenticated" by (simp add: s3_def transition_facts [OF refl])
  have p: "state s3 \<noteq> Refreshing" by (simp add: st3)
  have sent3: "outer_sent s3 = outer_sent s"
    using transition_facts(4) [OF s3_def] ready_facts(2) [OF s2_def] by (simp add: s1_def enter_facts s0)
  have def3: "deferred s3 = deferred s2" by (rule transition_facts(5) [OF s3_def])
  have sent: "outer_sent s4 = outer_sent s @ (if suspect oldq newq fp s then [Authenticated] else [])"
    using publish_facts(4) [OF p s4_def] owed(2) susp sent3 def3 st3 by simp
  have disk4: "disk s4 = fst (save_tokens (ser_tokens cd) (oc_endpoint_name cfg) ts (disk s))"
    using publish_facts(7) [OF p s4_def] transition_facts(6) [OF s3_def] ready_facts(5) [OF s2_def]
    by (simp add: s1_def enter_facts s0)
  have epoch4: "grant_epoch s4 = grant_epoch s + (if epoch = None then 1 else 0)"
    using publish_facts(8) [OF p s4_def] transition_facts(7) [OF s3_def] ready_facts(6) [OF s2_def]
    by (simp add: s1_def enter_facts s0)
  have rest: "state s4 = Authenticated" "inner_health s4 = Healthy" "\<not> deferred s4"
      "inner_adapter s4 = Some (build_inner_adapter cfg ts r)"
    using publish_facts(1,2,3,5) [OF p s4_def] st3 transition_facts(2,3) [OF s3_def] ready_facts(3,4) [OF s2_def]
    by simp_all
  show ?thesis
    by (rule exI [of _ "apply_finish cfg ns now ts s4"])
       (simp add: eq finish_facts [OF refl] sent disk4 epoch4 rest health_def)
qed

lemma apply_ok_state:
  assumes "snd (apply_check ts epoch s)"
  shows "state (fst (apply_tokens_inner cd cfg ns now ts epoch (InitOk r fp oldq newq) s)) = Authenticated"
proof -
  obtain s0 where check: "apply_check ts epoch s = (s0, True)"
    using assms by (metis prod.collapse)
  define s2 where "s2 = apply_ready cfg ts r fp oldq newq (apply_enter cd cfg now ts s0)"
  obtain owed where owed: "apply_pc s2 = ApplySettled ts Authenticated ''tokens applied, inner adapter ready'' owed"
    using ready_facts(7) [OF s2_def] by blast
  have "state (apply_publish ts owed (apply_transition now ts Authenticated reason owed s2)) = Authenticated"
    for reason
    by (subst publish_facts [OF _ refl]) (simp_all add: transition_facts [OF refl])
  then show ?thesis
    by (simp add: apply_tokens_inner_def check Let_def s2_def [symmetric] owed finish_facts [OF refl])
qed

definition authed :: "unit oauth_adapter" where
  "authed = fst (apply_tokens_inner demo_codec demo_config 0 0 sample_tokens None
     (InitOk 0 (Some 5) 0 0) (new_adapter demo_world))"

lemma authed_facts: "apply_inv authed" "state authed = Authenticated"
proof -
  have "runs_to demo_codec demo_config (new_adapter demo_world) authed"
    unfolding authed_def by (rule apply_is_run) (simp add: new_adapter_def)
  then obtain es where "authed = apply_all (ostep demo_codec demo_config) es (new_adapter demo_world)"
    unfolding runs_to_def by blast
  moreover have "apply_inv (new_adapter demo_world)"
    by (simp add: apply_inv_def new_adapter_def)
  ultimately show "apply_inv authed" by (metis apply_inv_run)
  show "state authed = Authenticated"
    using apply_ok_state [of sample_tokens None "new_adapter demo_world"]
    by (simp add: authed_def apply_check_def)
qed

theorem apply_success_witness:
  "health authed = Healthy \<and> tokens authed = Some sample_tokens \<and> outer_sent authed = [Authenticated]"
  using apply_success [where ts = sample_tokens and epoch = None and s = "new_adapter demo_world" and
      cd = demo_codec and cfg = demo_config and ns = 0 and now = 0 and r = 0 and fp = "Some 5" and
      oldq = 0 and newq = 0]
  unfolding authed_def by (auto simp: apply_check_def new_adapter_def suspect_def)


section \<open>Ticks\<close>

text \<open>Every event either leaves the sent ticks alone or adds one while not refreshing; a deferred tick
  stays deferred until one is sent.\<close>

definition tick_ok :: "'c oauth_adapter \<Rightarrow> 'c oauth_adapter \<Rightarrow> bool" where
  "tick_ok s t = ((outer_sent t = outer_sent s \<and> (deferred s \<longrightarrow> deferred t)) \<or>
     (state s \<noteq> Refreshing \<and> outer_sent t = outer_sent s @ [state s]))"

lemma tick_heal: "tick_ok s (fst (handle_invalid_client_if_present cd cfg env body cid s))"
  by (auto simp: tick_ok_def deferred_def handle_invalid_client_if_present_def Let_def
      split: sum.splits option.splits prod.splits bool.splits)

lemma tick_publish: "tick_ok s (fst (publish_or_retain_tick owed s))"
  by (auto simp: tick_ok_def deferred_def oauth_ops split: option.splits)

lemma tick_commit: "tick_ok s (fst (commit_healthy_verdict g probed current s))"
  by (auto simp: tick_ok_def deferred_def commit_healthy_verdict_def take_deferred_def Let_def
      case_prod_beta send_outer_def split: option.splits health_status.splits)

lemma tick_action: "tick_ok s (fst (apply_probe_action a g probed current s))"
  using tick_commit [of s g probed current]
  by (cases a) (auto simp: apply_probe_action_def tick_ok_def deferred_def upd_metrics_def case_prod_beta
      clear_fingerprint_on_degraded_def upd_tick_def Let_def)

lemma tick_account: "tick_ok s (fst (hb_account cfg g r s))"
  by (auto simp: tick_ok_def deferred_def hb_account_def split: prod.splits)

lemma account_ticks:
  "hb_account cfg g r s = (s1, a) \<Longrightarrow>
   outer_sent s1 = outer_sent s \<and> recovery_tick s1 = recovery_tick s \<and> state s1 = state s"
  by (auto simp: hb_account_def split: if_splits prod.splits)

lemma tick_failed:
  "tick_ok s (case hb_account cfg g r s of
      (s1, None) \<Rightarrow> s1 | (s1, Some action) \<Rightarrow> fst (apply_probe_action action g None 0 s1))"
proof (cases "hb_account cfg g r s")
  case (Pair s1 a)
  then show ?thesis
    using account_ticks [OF Pair] tick_action [of s1 "the a" g None 0]
    by (cases a) (auto simp: tick_ok_def deferred_def)
qed

lemma tick_ready: "tick_ok s (apply_ready cfg ts r fp oldq newq s)"
  by (auto simp: tick_ok_def deferred_def apply_ready_def Let_def swap_tools_forwarder_def upd_tick_def)

lemma tick_apply_publish: "tick_ok s (apply_publish ts owed s)"
  using tick_publish [of s owed] by (simp add: tick_ok_def deferred_def apply_publish_def)

lemma tick_decide: "tick_ok s (relay_decide (s\<lparr>last_tools_fingerprint := f\<rparr>))"
  by (simp add: tick_ok_def deferred_def relay_decide_def upd_tick_def send_outer_def)

lemma tick_classify: "tick_ok s (fst (relay_classify current seen s))"
  by (auto simp: tick_ok_def deferred_def relay_classify_def poke_heartbeat_on_inner_recovery_def
      note_unacked_recovery_def upd_tick_def split: prod.splits bool.splits if_splits)

lemma tick_refl: "tick_ok s s"
  by (simp add: tick_ok_def)

lemma tick_step: "tick_ok s (ostep cd cfg e s)"
proof (cases e)
  case (EvHbFailed g r)
  then show ?thesis using tick_failed [of s g cfg "Inl r"] by (simp add: tick_refl)
next
  case (EvDisconnectEnd now)
  then show ?thesis by (auto simp: tick_refl) (auto simp: tick_ok_def deferred_def oauth_ops split: prod.split)
next
  case (EvShutdown now down)
  then show ?thesis by (auto simp: tick_ok_def deferred_def oauth_ops split: option.split sum.split)
next
  case (EvApplyCheck ts ep)
  then show ?thesis by (auto simp: tick_ok_def deferred_def apply_check_def split: option.split)
next
  case (EvApplyFinish ns now)
  then show ?thesis
    by (auto simp: tick_refl split: apply_pc.split)
       (auto simp: tick_ok_def deferred_def apply_finish_def Let_def split: option.split)
next
  case (EvApplyEnter now)
  then show ?thesis
    by (auto simp: tick_refl split: apply_pc.split) (auto simp: tick_ok_def deferred_def enter_facts)
qed (auto simp: tick_heal tick_publish tick_action tick_account tick_ready tick_apply_publish tick_decide
    tick_classify tick_refl split: apply_pc.split option.split,
  auto simp: tick_ok_def deferred_def oauth_ops split: prod.split)

definition quiet_while_refreshing :: "'c oauth_adapter \<Rightarrow> bool" where
  "quiet_while_refreshing s = (Refreshing \<notin> set (outer_sent s))"

lemma startup_quiet: "quiet_while_refreshing (startup cd cfg ns now d)"
  by (auto simp: startup_def Let_def new_adapter_def quiet_while_refreshing_def oauth_ops
      split: sum.splits option.splits)

interpretation adapter_runs: transition_system
    "\<lambda>s. \<exists>ns now d. s = startup cd cfg ns now d" "\<lambda>s t. \<exists>e. t = ostep cd cfg e s"
    quiet_while_refreshing
  for cd cfg
proof (unfold_locales, goal_cases)
  case (1 s)
  then show ?case by (auto simp: startup_quiet)
next
  case (2 s t)
  then obtain e where "t = ostep cd cfg e s" by blast
  with tick_step [of s cd cfg e] 2(2) show ?case
    by (auto simp: tick_ok_def quiet_while_refreshing_def)
qed

lemma run_steps: "(\<lambda>s t. \<exists>e. t = ostep cd cfg e s)\<^sup>*\<^sup>* s (apply_all (ostep cd cfg) es s)"
proof (induction es arbitrary: s)
  case Nil
  then show ?case by simp
next
  case (Cons e es)
  then show ?case
    by (auto intro: converse_rtranclp_into_rtranclp [where b = "ostep cd cfg e s"])
qed

lemma sent_grows: "length (outer_sent s) \<le> length (outer_sent (apply_all (ostep cd cfg) es s))"
proof (induction es arbitrary: s)
  case Nil
  then show ?case by simp
next
  case (Cons e es)
  have "length (outer_sent s) \<le> length (outer_sent (ostep cd cfg e s))"
    using tick_step [of s cd cfg e] by (auto simp: tick_ok_def)
  also have "\<dots> \<le> length (outer_sent (apply_all (ostep cd cfg) (e # es) s))"
    using Cons.IH by simp
  finally show ?case .
qed

lemma deferred_run:
  "deferred s \<Longrightarrow>
   deferred (apply_all (ostep cd cfg) es s) \<or>
   length (outer_sent s) < length (outer_sent (apply_all (ostep cd cfg) es s))"
proof (induction es arbitrary: s)
  case Nil
  then show ?case by simp
next
  case (Cons e es)
  from tick_step [of s cd cfg e] Cons.prems consider
      "deferred (ostep cd cfg e s)" "outer_sent (ostep cd cfg e s) = outer_sent s"
    | "length (outer_sent s) < length (outer_sent (ostep cd cfg e s))"
    by (auto simp: tick_ok_def)
  then show ?case
  proof cases
    case 1
    with Cons.IH [of "ostep cd cfg e s"] show ?thesis by simp
  next
    case 2
    have "length (outer_sent (ostep cd cfg e s)) \<le> length (outer_sent (apply_all (ostep cd cfg) (e # es) s))"
      using sent_grows [of "ostep cd cfg e s"] by simp
    with 2 show ?thesis by linarith
  qed
qed

text \<open>C14: tools-changed ticks. From any startup, whatever the concurrent tasks do, no tick is ever
  published while the endpoint is refreshing (when its health reads \<^verbatim>\<open>Starting\<close>); and at any point of
  the run, a tick that is deferred then stays deferred until some tick is published: it is never
  silently dropped, whichever applies, disconnects and swaps intervene.\<close>

theorem ticks_sound:
  fixes cd :: "'c codec" and cfg :: oauth_config and es es' :: "'c oauth_event list" and ns :: u64
    and now :: instant and d :: "'c world"
  defines "s \<equiv> apply_all (ostep cd cfg) es (startup cd cfg ns now d)"
  shows "Refreshing \<notin> set (outer_sent s) \<and>
    (\<not> deferred s \<or> deferred (apply_all (ostep cd cfg) es' s) \<or>
       length (outer_sent s) < length (outer_sent (apply_all (ostep cd cfg) es' s)))"
proof -
  have "quiet_while_refreshing s"
    unfolding s_def by (rule adapter_runs.safe_reachable [OF _ run_steps]) blast
  then show ?thesis
    using deferred_run [of s] by (auto simp: quiet_while_refreshing_def)
qed

definition mid_apply :: "unit oauth_event list" where
  "mid_apply = [EvApplyCheck sample_tokens None, EvApplyEnter 0, EvApplyReady 0 None 0 1]"

definition first_start :: "unit oauth_adapter" where
  "first_start = startup demo_codec demo_config 0 0 demo_world"

lemma mid_apply_state:
  "\<exists>s1. apply_all (ostep demo_codec demo_config) mid_apply first_start =
     apply_ready demo_config sample_tokens 0 None 0 1 s1"
proof -
  have "apply_pc first_start = ApplyIdle"
    by (simp add: first_start_def startup_def demo_config_def load_tokens_def load_file_def demo_world_def
        new_adapter_def transition_to_def recorded_transition_def do_transition_def
        clear_fingerprint_on_degraded_def degraded_def)
  then have "apply_all (ostep demo_codec demo_config) mid_apply first_start =
      apply_ready demo_config sample_tokens 0 None 0 1 (apply_enter demo_codec demo_config 0 sample_tokens
        (fst (apply_check sample_tokens None first_start)))"
    by (simp add: mid_apply_def apply_check_def enter_facts)
  then show ?thesis by blast
qed

lemma mid_apply_deferred:
  "deferred (apply_all (ostep demo_codec demo_config) mid_apply first_start)"
  using mid_apply_state
  by (auto simp: apply_ready_def Let_def swap_tools_forwarder_def upd_tick_def drain_queued_ticks_def
      deferred_def)

theorem ticks_sound_witness:
  "deferred (apply_all (ostep demo_codec demo_config) mid_apply first_start) \<and>
   length (outer_sent (apply_all (ostep demo_codec demo_config) mid_apply first_start)) <
   length (outer_sent (apply_all (ostep demo_codec demo_config) [EvApplyTransition 0, EvApplyPublish]
     (apply_all (ostep demo_codec demo_config) mid_apply first_start)))"
proof -
  let ?s = "apply_all (ostep demo_codec demo_config) mid_apply first_start"
  let ?t = "apply_all (ostep demo_codec demo_config) [EvApplyTransition 0, EvApplyPublish] ?s"
  obtain s1 where s1: "?s = apply_ready demo_config sample_tokens 0 None 0 1 s1"
    using mid_apply_state by blast
  obtain r owed where pc: "apply_pc ?s = ApplySettled sample_tokens Authenticated r owed"
    using ready_facts(7) [OF s1] by blast
  have "?t = apply_publish sample_tokens owed (apply_transition 0 sample_tokens Authenticated r owed ?s)"
    using pc by (simp add: apply_transition_def)
  moreover have "\<not> deferred (apply_publish sample_tokens owed
      (apply_transition 0 sample_tokens Authenticated r owed ?s))"
    by (rule publish_facts(5) [OF _ refl]) (simp add: transition_facts(1) [OF refl])
  ultimately have "\<not> deferred ?t" by simp
  then show ?thesis
    using ticks_sound [where cd = demo_codec and cfg = demo_config and es = mid_apply and
        es' = "[EvApplyTransition 0, EvApplyPublish]" and ns = 0 and now = 0 and d = demo_world]
      mid_apply_deferred unfolding first_start_def [symmetric] by blast
qed

section \<open>Transitions the table rejects, and a write the history misses\<close>

text \<open>A user's disconnect can be undone by a refresh. A heartbeat recovery (or a 401 retry) that
  samples the grant epoch once the disconnect has bumped it passes every epoch check, finds no
  refresh token and moves the endpoint from \<^verbatim>\<open>Disconnected\<close> to \<^verbatim>\<open>AuthRequired\<close>: a transition the
  legality table does not contain, so a debug build panics there and a release build reports a
  disconnected endpoint as one that needs a login.\<close>

theorem disconnect_then_recovery_illegal:
  fixes s0 :: "'c oauth_adapter" and now :: instant and cfg :: oauth_config
  assumes "\<not> oc_ema cfg"
  defines "s \<equiv> fst (disconnect cfg now s0)"
  shows "state s = Disconnected \<and> health s = Stopped \<and>
    state (attempt_recovery cd cfg env ema init s) = AuthRequired \<and>
    health (attempt_recovery cd cfg env ema init s) = Unhealthy ''auth required'' \<and>
    \<not> legal_transition Disconnected AuthRequired"
proof -
  obtain d1 res where d: "delete_tokens (oc_endpoint_name cfg) (disk (disconnect_begin s0)) = (d1, res)"
    by fastforce
  have st: "state s = Disconnected"
    by (simp add: s_def disconnect_def disconnect_end_def d Let_def transition_to_def
        recorded_transition_def do_transition_def)
  have "tokens (disconnect_begin s0) = None"
    by (simp add: disconnect_begin_def)
  then have tok: "tokens s = None"
    by (simp add: s_def disconnect_def disconnect_end_def d Let_def transition_to_def recorded_transition_def
        do_transition_def clear_fingerprint_on_degraded_def upd_tick_def)
  have "do_token_refresh_with_epoch cd cfg env ema None (grant_epoch s) s =
      (upd_metrics inc_refresh_failure
         (fst (transition_if_current (mono env) (grant_epoch s) AuthRequired ''no refresh token'' s)),
       Inl (NoRefreshToken (oc_endpoint_name cfg)))"
    using assms(1) tok by (simp add: do_token_refresh_with_epoch_def refresh_grant_def)
  then have "state (attempt_recovery cd cfg env ema init s) = AuthRequired"
    by (simp add: attempt_recovery_def tok transition_if_current_def recorded_transition_def
        do_transition_def upd_metrics_def)
  with st show ?thesis by (simp add: health_def legal_transition_def)
qed

theorem disconnect_then_recovery_illegal_witness:
  "state (attempt_recovery demo_codec demo_config demo_env EmaStale (InitFailed Starting [])
     (fst (disconnect demo_config 1 authed))) = AuthRequired"
  using disconnect_then_recovery_illegal [of demo_config 1 authed]
  by (simp add: demo_config_def)

text \<open>The heartbeat's 401 is a second writer of the state: it moves an authenticated endpoint to
  \<^verbatim>\<open>AuthRequired\<close> and bumps the generation, but leaves the transition history and the transition
  metric as they were, so the history is not a complete log of the last transitions.\<close>

theorem auth_failure_unrecorded:
  fixes probed :: "probed_tools option" and current :: u64
  defines "t g s \<equiv> fst (apply_probe_action AuthFailed g probed current s)"
  shows "transition_history (t g s) = transition_history s \<and>
    state_transitions (metrics (t g s)) = state_transitions (metrics s) \<and>
    (if hb_current g s
     then state (t g s) = AuthRequired \<and> lifecycle_generation (t g s) = lifecycle_generation s + 1 \<and>
       restore_owed (recovery_tick (t g s)) \<and> last_tools_fingerprint (t g s) = None
     else t g s = s)"
  by (auto simp: t_def apply_probe_action_def Let_def clear_fingerprint_on_degraded_def degraded_def
      upd_tick_def upd_metrics_def inc_heartbeat_unhealthy_def hb_current_def)

end
