(* ===== verification/OAuth_Flows.thy ===== *)
theory OAuth_Flows
  imports Tokens
begin

text \<open>
  Pending OAuth logins and setup sessions (\<^verbatim>\<open>src/oauth/mod.rs\<close>): \<^verbatim>\<open>OAuthFlowManager\<close> with its
  per-endpoint reset generations and commit locks, and \<^verbatim>\<open>OAuthSetupManager\<close> with its commit claims.
  Every method is one critical section, so each is one function on the manager's state. Instants are
  nanoseconds; the random state parameters and session ids are arguments.
\<close>

type_synonym instant_ns = nat

definition FLOW_MAX_AGE :: nat where
  "FLOW_MAX_AGE = 600 * 1000000000"

section \<open>Pending flows\<close>

record pkce_challenge =
  pk_verifier :: string
  pk_challenge :: string

record pending_flow =
  pf_endpoint_name :: string
  pf_code_verifier :: string
  pf_token_endpoint :: string
  pf_client_id :: string
  pf_client_secret :: "string option"
  pf_redirect_uri :: string
  pf_issuer :: "string option"
  pf_iss_parameter_supported :: bool
  pf_idp_issuer :: "string option"
  pf_idp_credential_key :: "string option"
  pf_created_at :: instant_ns
  pf_generation :: u64

record flow_manager =
  pending :: "(string, pending_flow) hashmap"
  generations :: "(string, u64) hashmap"

text \<open>The arguments every start method shares.\<close>

record flow_request =
  fq_endpoint_name :: string
  fq_token_endpoint :: string
  fq_client_id :: string
  fq_client_secret :: "string option"
  fq_pkce :: pkce_challenge
  fq_redirect_uri :: string
  fq_issuer :: "string option"
  fq_iss_parameter_supported :: bool

definition new_flow_manager :: flow_manager where
  "new_flow_manager = \<lparr>pending = [], generations = []\<rparr>"

definition generation :: "string \<Rightarrow> flow_manager \<Rightarrow> u64" where
  "generation ep m = unwrap_or 0 (hm_get (generations m) ep)"

definition make_flow :: "instant_ns \<Rightarrow> flow_request \<Rightarrow> (string \<times> string) option \<Rightarrow> u64 \<Rightarrow> pending_flow" where
  "make_flow now q idp gen =
     \<lparr>pf_endpoint_name = fq_endpoint_name q, pf_code_verifier = pk_verifier (fq_pkce q),
      pf_token_endpoint = fq_token_endpoint q, pf_client_id = fq_client_id q,
      pf_client_secret = fq_client_secret q, pf_redirect_uri = fq_redirect_uri q,
      pf_issuer = fq_issuer q, pf_iss_parameter_supported = fq_iss_parameter_supported q,
      pf_idp_issuer = map_option fst idp, pf_idp_credential_key = map_option snd idp,
      pf_created_at = now, pf_generation = gen\<rparr>"

definition start_flow :: "string \<Rightarrow> instant_ns \<Rightarrow> flow_request \<Rightarrow> flow_manager \<Rightarrow> flow_manager \<times> string" where
  "start_flow state now q m =
     (let flow = make_flow now q None (generation (fq_endpoint_name q) m)
      in (m\<lparr>pending := hm_insert state flow (pending m)\<rparr>, state))"

definition start_flow_if_current ::
  "string \<Rightarrow> instant_ns \<Rightarrow> u64 \<Rightarrow> flow_request \<Rightarrow> flow_manager \<Rightarrow> flow_manager \<times> string option" where
  "start_flow_if_current state now expected_generation q m =
     (if generation (fq_endpoint_name q) m \<noteq> expected_generation then (m, None)
      else
        let flow = make_flow now q None expected_generation
        in (m\<lparr>pending := hm_insert state flow (pending m)\<rparr>, Some state))"

definition start_idp_flow ::
  "string \<Rightarrow> instant_ns \<Rightarrow> flow_request \<Rightarrow> string \<Rightarrow> string \<Rightarrow> flow_manager \<Rightarrow> flow_manager \<times> string" where
  "start_idp_flow state now q idp_url credential_key m =
     (let flow = make_flow now q (Some (idp_url, credential_key)) (generation (fq_endpoint_name q) m)
      in (m\<lparr>pending := hm_insert state flow (pending m)\<rparr>, state))"

definition consume_flow :: "instant_ns \<Rightarrow> string \<Rightarrow> flow_manager \<Rightarrow> flow_manager \<times> pending_flow option" where
  "consume_flow now state m =
     (case hm_get (pending m) state of
        None \<Rightarrow> (m, None)
      | Some flow \<Rightarrow>
          (let m1 = m\<lparr>pending := hm_remove state (pending m)\<rparr>
           in if FLOW_MAX_AGE < now - pf_created_at flow then (m1, None) else (m1, Some flow)))"

definition invalidate_endpoint :: "string \<Rightarrow> flow_manager \<Rightarrow> flow_manager \<times> nat" where
  "invalidate_endpoint ep m =
     (let gens = hm_insert ep (generation ep m + 1) (generations m);
          before = length (pending m);
          p = hm_retain (\<lambda>_ f. pf_endpoint_name f \<noteq> ep) (pending m)
      in (m\<lparr>pending := p, generations := gens\<rparr>, before - length p))"

definition is_current :: "pending_flow \<Rightarrow> flow_manager \<Rightarrow> bool" where
  "is_current f m = (pf_generation f = generation (pf_endpoint_name f) m)"

definition cleanup_stale :: "instant_ns \<Rightarrow> flow_manager \<Rightarrow> flow_manager" where
  "cleanup_stale now m =
     m\<lparr>pending := hm_retain (\<lambda>_ f. now - pf_created_at f < FLOW_MAX_AGE) (pending m)\<rparr>"

section \<open>Runs\<close>

datatype flow_event =
    Start string instant_ns flow_request
  | StartIfCurrent string instant_ns u64 flow_request
  | StartIdp string instant_ns flow_request string string
  | Consume instant_ns string
  | Invalidate string
  | Cleanup instant_ns

fun fstep :: "flow_event \<Rightarrow> flow_manager \<Rightarrow> flow_manager" where
  "fstep (Start st now q) m = fst (start_flow st now q m)"
| "fstep (StartIfCurrent st now g q) m = fst (start_flow_if_current st now g q m)"
| "fstep (StartIdp st now q i k) m = fst (start_idp_flow st now q i k m)"
| "fstep (Consume now st) m = fst (consume_flow now st m)"
| "fstep (Invalidate ep) m = fst (invalidate_endpoint ep m)"
| "fstep (Cleanup now) m = cleanup_stale now m"

fun is_reset :: "string \<Rightarrow> flow_event \<Rightarrow> flow_manager \<Rightarrow> bool" where
  "is_reset ep (Invalidate ep') m = (ep' = ep)"
| "is_reset ep _ m = False"

lemma generation_pending [simp]: "generation ep (m\<lparr>pending := p\<rparr>) = generation ep m"
  by (simp add: generation_def)

lemma generation_invalidate:
  "generation ep (fst (invalidate_endpoint ep' m)) = generation ep m + (if ep' = ep then 1 else 0)"
  by (simp add: invalidate_endpoint_def Let_def generation_def store_simps)

lemma generation_step: "generation ep (fstep e m) = generation ep m + (if is_reset ep e m then 1 else 0)"
  by (cases e) (auto simp: start_flow_def start_flow_if_current_def start_idp_flow_def consume_flow_def
      cleanup_stale_def generation_invalidate Let_def split: option.splits)

interpretation resets: epoch_counter "generation ep" fstep "is_reset ep" for ep
  by unfold_locales (rule generation_step)

text \<open>Well-formedness: pending flows belong to the generation their endpoint is in.\<close>

definition flows_ok :: "flow_manager \<Rightarrow> bool" where
  "flows_ok m = (hm_wf (pending m) \<and> (\<forall>st f. hm_get (pending m) st = Some f \<longrightarrow> is_current f m))"

lemma flows_ok_new: "flows_ok new_flow_manager"
  by (simp add: flows_ok_def new_flow_manager_def)

lemma flows_ok_insert:
  assumes "flows_ok m" "pf_generation f = generation (pf_endpoint_name f) m"
  shows "flows_ok (m\<lparr>pending := hm_insert st f (pending m)\<rparr>)"
  using assms by (auto simp: flows_ok_def is_current_def store_simps)

lemma flows_ok_step: "flows_ok m \<Longrightarrow> flows_ok (fstep e m)"
proof (cases e)
  case (Start st now q)
  assume "flows_ok m"
  then show ?thesis
    using Start by (auto simp: start_flow_def Let_def make_flow_def intro!: flows_ok_insert)
next
  case (StartIfCurrent st now g q)
  assume "flows_ok m"
  then show ?thesis
    using StartIfCurrent by (auto simp: start_flow_if_current_def Let_def make_flow_def intro!: flows_ok_insert)
next
  case (StartIdp st now q i k)
  assume "flows_ok m"
  then show ?thesis
    using StartIdp by (auto simp: start_idp_flow_def Let_def make_flow_def intro!: flows_ok_insert)
next
  case (Consume now st)
  assume "flows_ok m"
  then show ?thesis
    using Consume by (auto simp: consume_flow_def Let_def flows_ok_def is_current_def store_simps
        split: option.splits if_splits)
next
  case (Invalidate ep)
  assume ok: "flows_ok m"
  show ?thesis
    using ok Invalidate
    by (auto simp: flows_ok_def is_current_def generation_invalidate)
       (auto simp: invalidate_endpoint_def Let_def store_simps split: option.splits if_splits)
next
  case (Cleanup now)
  assume "flows_ok m"
  then show ?thesis
    using Cleanup by (auto simp: cleanup_stale_def flows_ok_def is_current_def store_simps
        split: option.splits if_splits)
qed

lemma flows_ok_run: "flows_ok m \<Longrightarrow> flows_ok (apply_all fstep es m)"
  by (induction es arbitrary: m) (auto simp: flows_ok_step)

section \<open>Resets supersede\<close>

text \<open>The states under which a run starts flows.\<close>

fun started :: "flow_event list \<Rightarrow> string list" where
  "started [] = []"
| "started (Start st now q # es) = st # started es"
| "started (StartIfCurrent st now g q # es) = st # started es"
| "started (StartIdp st now q i k # es) = st # started es"
| "started (e # es) = started es"

text \<open>A flow under a state that is not started again only disappears.\<close>

lemma pending_step:
  assumes "hm_wf (pending m)" "hm_get (pending (fstep e m)) st = Some f" "st \<notin> set (started [e])"
  shows "hm_get (pending m) st = Some f"
  using assms
  by (cases e) (auto simp: start_flow_def start_flow_if_current_def start_idp_flow_def consume_flow_def
      cleanup_stale_def invalidate_endpoint_def Let_def store_simps split: option.splits if_splits)

lemma started_Cons: "set (started (e # es)) = set (started [e]) \<union> set (started es)"
  by (cases e) auto

lemma pending_run:
  assumes "flows_ok m" "hm_get (pending (apply_all fstep es m)) st = Some f" "st \<notin> set (started es)"
  shows "hm_get (pending m) st = Some f"
  using assms
proof (induction es arbitrary: m)
  case Nil
  then show ?case by simp
next
  case (Cons e es)
  have new: "st \<notin> set (started [e])" "st \<notin> set (started es)"
    using Cons.prems(3) started_Cons [of e es] by auto
  have "hm_get (pending (fstep e m)) st = Some f"
    using Cons.IH [of "fstep e m"] Cons.prems new by (simp add: flows_ok_step)
  then show ?case
    using pending_step Cons.prems(1) new(1) unfolding flows_ok_def by blast
qed

text \<open>"Reset authorization" supersedes every login begun before it. If an endpoint is reset (fewer
  than \<open>2 ^ 64\<close> times) after a login started, then, whatever else happens in between: its callback
  can no longer consume the flow, a callback that consumed it earlier finds the flow not current, and
  a start that sampled the generation before the reset is refused. Without a reset the flow stays
  current.\<close>

theorem reset_supersedes:
  fixes now :: instant_ns
  assumes ok: "flows_ok m" and fresh: "st \<notin> set (started es)"
    and small: "bump_count fstep (is_reset (fq_endpoint_name q)) es m < 2 ^ 64"
  defines "m1 \<equiv> apply_all fstep es (fst (start_flow st now q m))"
    and "flow \<equiv> make_flow now q None (generation (fq_endpoint_name q) m)"
  shows "if bump_count fstep (is_reset (fq_endpoint_name q)) es m = 0 then is_current flow m1
    else snd (consume_flow later st m1) = None \<and> \<not> is_current flow m1 \<and>
      start_flow_if_current st' later (generation (fq_endpoint_name q) m) q m1 = (m1, None)"
proof -
  let ?ep = "fq_endpoint_name q"
  let ?s = "fst (start_flow st now q m)"
  have ep: "pf_endpoint_name flow = ?ep" "pf_generation flow = generation ?ep m"
    by (simp_all add: flow_def make_flow_def)
  have s: "?s = fstep (Start st now q) m" by simp
  have oks: "flows_ok ?s" unfolding s by (rule flows_ok_step [OF ok])
  have gen: "generation ?ep ?s = generation ?ep m" by (simp add: start_flow_def Let_def)
  have count: "bump_count fstep (is_reset ep) es ma = bump_count fstep (is_reset ep) es mb" for ep ma mb
  proof (induction es arbitrary: ma mb)
    case Nil
    then show ?case by simp
  next
    case (Cons e es)
    have "is_reset ep e ma = is_reset ep e mb" by (cases e) auto
    with Cons [of "fstep e ma" "fstep e mb"] show ?case by simp
  qed
  show ?thesis
  proof (cases "bump_count fstep (is_reset ?ep) es m = 0")
    case True
    then have "generation ?ep m1 = generation ?ep m"
      using resets.epoch_unchanged [of ?ep es ?s] count [of ?ep ?s m] gen by (simp add: m1_def)
    with True show ?thesis by (simp add: is_current_def ep)
  next
    case False
    then have neq: "generation ?ep m1 \<noteq> generation ?ep m"
      using resets.epoch_detects [of ?ep es ?s] count [of ?ep ?s m] gen small by (simp add: m1_def)
    have "hm_get (pending m1) st = None"
    proof (rule ccontr)
      assume "hm_get (pending m1) st \<noteq> None"
      then obtain f where f: "hm_get (pending m1) st = Some f" by blast
      then have "hm_get (pending ?s) st = Some f"
        using pending_run [OF oks _ fresh] by (simp add: m1_def)
      then have "f = flow" by (simp add: start_flow_def Let_def store_simps flow_def)
      moreover have "is_current f m1"
        using flows_ok_run [OF oks, of es] f by (simp add: flows_ok_def m1_def)
      ultimately show False using neq by (simp add: is_current_def ep)
    qed
    with False neq show ?thesis
      by (simp add: consume_flow_def is_current_def ep start_flow_if_current_def)
  qed
qed

definition demo_request :: flow_request where
  "demo_request = \<lparr>fq_endpoint_name = ''ep'', fq_token_endpoint = ''t'', fq_client_id = ''c'',
     fq_client_secret = None, fq_pkce = \<lparr>pk_verifier = ''v'', pk_challenge = ''h''\<rparr>,
     fq_redirect_uri = ''r'', fq_issuer = None, fq_iss_parameter_supported = False\<rparr>"

theorem reset_supersedes_witness:
  "snd (consume_flow 5 ''s'' (apply_all fstep [Invalidate ''ep''] (fst (start_flow ''s'' 0 demo_request
     new_flow_manager)))) = None"
  using reset_supersedes [OF flows_ok_new, of "''s''" "[Invalidate ''ep'']" demo_request 0 5 "''n''"]
  by (simp add: demo_request_def)

text \<open>A callback consumes a flow at most once and only within ten minutes: consuming returns the
  flow exactly when it is pending and at most 600 seconds old, removes it either way, and leaves the
  other flows and the generations alone; a second callback with the same state gets nothing.\<close>

theorem consume_once:
  "snd (consume_flow now st m) =
     (case hm_get (pending m) st of
        Some f \<Rightarrow> if now - pf_created_at f \<le> FLOW_MAX_AGE then Some f else None
      | None \<Rightarrow> None) \<and>
   snd (consume_flow later st (fst (consume_flow now st m))) = None \<and>
   (st' = st \<or> hm_get (pending (fst (consume_flow now st m))) st' = hm_get (pending m) st') \<and>
   generations (fst (consume_flow now st m)) = generations m"
  by (auto simp: consume_flow_def Let_def store_simps split: option.splits)

section \<open>Commit locks\<close>

text \<open>
  \<open>lt_locks\<close> holds weak references: a lock lives while its strong count is positive. \<open>lt_owner\<close>
  records for which endpoint a lock was created.
\<close>

record lock_table =
  lt_locks :: "(string, nat) hashmap"
  lt_strong :: "nat \<Rightarrow> nat"
  lt_next :: nat
  lt_owner :: "nat \<Rightarrow> string"

definition commit_lock :: "string \<Rightarrow> lock_table \<Rightarrow> lock_table \<times> nat" where
  "commit_lock ep t =
     (let locks = hm_retain (\<lambda>_ l. 0 < lt_strong t l) (lt_locks t) in
      case hm_get locks ep of
        Some l \<Rightarrow> (t\<lparr>lt_locks := locks, lt_strong := (lt_strong t)(l := lt_strong t l + 1)\<rparr>, l)
      | None \<Rightarrow>
          (let l = lt_next t in
           (t\<lparr>lt_locks := hm_insert ep l locks, lt_strong := (lt_strong t)(l := 1), lt_next := l + 1,
              lt_owner := (lt_owner t)(l := ep)\<rparr>, l)))"

definition drop_lock :: "nat \<Rightarrow> lock_table \<Rightarrow> lock_table" where
  "drop_lock l t = t\<lparr>lt_strong := (lt_strong t)(l := lt_strong t l - 1)\<rparr>"

definition locks_ok :: "lock_table \<Rightarrow> bool" where
  "locks_ok t = (hm_wf (lt_locks t) \<and>
     (\<forall>l. 0 < lt_strong t l \<longrightarrow> l < lt_next t \<and> hm_get (lt_locks t) (lt_owner t l) = Some l) \<and>
     (\<forall>ep l. hm_get (lt_locks t) ep = Some l \<longrightarrow> lt_owner t l = ep \<and> l < lt_next t))"

lemma locks_ok_lock:
  assumes ok: "locks_ok t"
  shows "locks_ok (fst (commit_lock ep t))"
proof -
  let ?locks = "hm_retain (\<lambda>_ l. 0 < lt_strong t l) (lt_locks t)"
  have wf: "hm_wf (lt_locks t)" using ok by (simp add: locks_ok_def)
  have live: "hm_get ?locks (lt_owner t l) = Some l" "l < lt_next t" if "0 < lt_strong t l" for l
    using ok that by (auto simp: locks_ok_def store_simps)
  have old: "lt_owner t l = e \<and> l < lt_next t \<and> 0 < lt_strong t l" if "hm_get ?locks e = Some l" for e l
    using ok that hm.keep_subset [OF wf] by (fastforce simp: locks_ok_def)
  show ?thesis
  proof (cases "hm_get ?locks ep")
    case (Some l)
    then have "fst (commit_lock ep t) =
        t\<lparr>lt_locks := ?locks, lt_strong := (lt_strong t)(l := lt_strong t l + 1)\<rparr>"
      by (simp add: commit_lock_def Let_def)
    with Some wf live old show ?thesis by (auto simp: locks_ok_def)
  next
    case None
    then have eq: "fst (commit_lock ep t) =
        t\<lparr>lt_locks := hm_insert ep (lt_next t) ?locks, lt_strong := (lt_strong t)(lt_next t := 1),
          lt_next := lt_next t + 1, lt_owner := (lt_owner t)(lt_next t := ep)\<rparr>"
      by (simp add: commit_lock_def Let_def)
    have "lt_owner t l \<noteq> ep" if "0 < lt_strong t l" for l
      using live(1) [OF that] None by auto
    then show ?thesis
      unfolding eq locks_ok_def using wf live old by (auto simp: hm_get_insert less_Suc_eq) force+
  qed
qed

lemma locks_ok_drop: "locks_ok t \<Longrightarrow> locks_ok (drop_lock l t)"
  by (auto simp: locks_ok_def drop_lock_def)

text \<open>Two callers that hold an endpoint's commit lock at the same time hold the same mutex, although
  the table only keeps weak references and drops dead ones: asking for the lock of an endpoint some
  caller still holds returns that caller's lock, and locks of different endpoints differ.\<close>

theorem commit_lock_shared:
  assumes "locks_ok t" "0 < lt_strong t l"
  shows "(snd (commit_lock ep t) = l \<longleftrightarrow> lt_owner t l = ep) \<and>
    locks_ok (fst (commit_lock ep t)) \<and> lt_owner (fst (commit_lock ep t)) (snd (commit_lock ep t)) = ep"
proof -
  from assms have l: "hm_get (lt_locks t) (lt_owner t l) = Some l" "l < lt_next t"
    by (auto simp: locks_ok_def)
  show ?thesis
    using assms l locks_ok_lock [OF assms(1), of ep]
    by (auto simp: commit_lock_def Let_def store_simps locks_ok_def split: option.splits if_splits)
qed

definition sample_table :: lock_table where
  "sample_table = fst (commit_lock ''a'' \<lparr>lt_locks = [], lt_strong = (\<lambda>_. 0), lt_next = 0, lt_owner = (\<lambda>_. [])\<rparr>)"

theorem commit_lock_shared_witness:
  "snd (commit_lock ''a'' sample_table) = 0 \<and> snd (commit_lock ''b'' sample_table) \<noteq> 0"
proof -
  have "locks_ok \<lparr>lt_locks = [], lt_strong = (\<lambda>_. 0), lt_next = 0, lt_owner = (\<lambda>_. [])\<rparr>"
    by (simp add: locks_ok_def)
  then have ok: "locks_ok sample_table" unfolding sample_table_def by (rule locks_ok_lock)
  have held: "0 < lt_strong sample_table 0" "lt_owner sample_table 0 = ''a''"
    by (simp_all add: sample_table_def commit_lock_def Let_def hm_retain_def)
  show ?thesis
    using commit_lock_shared [OF ok held(1), of "''a''"] commit_lock_shared [OF ok held(1), of "''b''"] held(2)
    by auto
qed

section \<open>Setup sessions\<close>

datatype setup_session_status = AwaitingCredentials | AwaitingAuth | Authorized | Committing

record oauth_setup_session =
  ss_name :: string
  ss_url :: string
  ss_scopes :: "string option"
  ss_tool_prefix :: "string option"
  ss_server_type_override :: "string option"
  ss_authorization_endpoint :: "string option"
  ss_token_endpoint :: "string option"
  ss_registration_endpoint :: "string option"
  ss_oauth_server_url :: "string option"
  ss_issuer :: "string option"
  ss_client_id :: "string option"
  ss_client_secret :: "string option"
  ss_client_secret_expires_at :: u64
  ss_registered_via_dcr :: bool
  ss_tokens :: "token_set option"
  ss_status :: setup_session_status
  ss_created_at :: instant_ns

type_synonym sessions = "(nat, oauth_setup_session) hashmap"

datatype commit_claim = Claimed oauth_setup_session | AlreadyCommitting | NotAuthorized | ClaimNotFound

datatype cancel_outcome = Cancelled | CommitInProgress | CancelNotFound

definition SETUP_SESSION_MAX_AGE :: nat where
  "SETUP_SESSION_MAX_AGE = 600 * 1000000000"

definition expired :: "instant_ns \<Rightarrow> oauth_setup_session \<Rightarrow> bool" where
  "expired now s = (SETUP_SESSION_MAX_AGE < now - ss_created_at s)"

definition fresh_session :: "instant_ns \<Rightarrow> oauth_setup_session \<Rightarrow> bool" where
  "fresh_session now s = (now - ss_created_at s < SETUP_SESSION_MAX_AGE)"

definition sweep_sessions :: "instant_ns \<Rightarrow> sessions \<Rightarrow> sessions" where
  "sweep_sessions now = hm_retain (\<lambda>_ s. fresh_session now s)"

definition create_session ::
  "nat \<Rightarrow> instant_ns \<Rightarrow> string \<Rightarrow> string \<Rightarrow> string option \<Rightarrow> string option \<Rightarrow> string option \<Rightarrow>
   sessions \<Rightarrow> sessions \<times> nat option" where
  "create_session uuid now name url scopes tool_prefix server_type_override m =
     (let m1 = sweep_sessions now m in
      if \<exists>s \<in> snd ` set m1. ss_name s = name then (m1, None)
      else (hm_insert uuid
        \<lparr>ss_name = name, ss_url = url, ss_scopes = scopes, ss_tool_prefix = tool_prefix,
         ss_server_type_override = server_type_override, ss_authorization_endpoint = None,
         ss_token_endpoint = None, ss_registration_endpoint = None, ss_oauth_server_url = None,
         ss_issuer = None, ss_client_id = None, ss_client_secret = None, ss_client_secret_expires_at = 0,
         ss_registered_via_dcr = False, ss_tokens = None, ss_status = AwaitingCredentials,
         ss_created_at = now\<rparr> m1, Some uuid))"

definition claim_for_commit :: "instant_ns \<Rightarrow> nat \<Rightarrow> sessions \<Rightarrow> sessions \<times> commit_claim" where
  "claim_for_commit now sid m =
     (case hm_get m sid of
        None \<Rightarrow> (m, ClaimNotFound)
      | Some session \<Rightarrow>
          (if expired now session then (hm_remove sid m, ClaimNotFound)
           else case ss_status session of
             Committing \<Rightarrow> (m, AlreadyCommitting)
           | Authorized \<Rightarrow>
               (let claimed = session\<lparr>ss_status := Committing, ss_created_at := now\<rparr>
                in (hm_insert sid claimed m, Claimed (claimed\<lparr>ss_status := Authorized\<rparr>)))
           | _ \<Rightarrow> (m, NotAuthorized)))"

definition release_commit_claim :: "nat \<Rightarrow> sessions \<Rightarrow> sessions" where
  "release_commit_claim sid m =
     (case hm_get m sid of
        Some session \<Rightarrow>
          (if ss_status session = Committing then hm_insert sid (session\<lparr>ss_status := Authorized\<rparr>) m else m)
      | None \<Rightarrow> m)"

definition cancel_session :: "instant_ns \<Rightarrow> nat \<Rightarrow> sessions \<Rightarrow> sessions \<times> cancel_outcome" where
  "cancel_session now sid m =
     (case hm_get m sid of
        None \<Rightarrow> (m, CancelNotFound)
      | Some s \<Rightarrow>
          (if expired now s then (hm_remove sid m, CancelNotFound)
           else if ss_status s = Committing then (m, CommitInProgress)
           else (hm_remove sid m, Cancelled)))"

text \<open>\<open>f\<close> is the caller's closure on the session.\<close>

definition get_session_mut ::
  "instant_ns \<Rightarrow> nat \<Rightarrow> (oauth_setup_session \<Rightarrow> oauth_setup_session \<times> 'r) \<Rightarrow> sessions \<Rightarrow> sessions \<times> 'r option" where
  "get_session_mut now sid f m =
     (case hm_get m sid of
        None \<Rightarrow> (m, None)
      | Some session \<Rightarrow>
          (if expired now session then (hm_remove sid m, None)
           else if ss_status session = Committing then (m, None)
           else case f session of (s', r) \<Rightarrow> (hm_insert sid s' m, Some r)))"

definition get_session :: "instant_ns \<Rightarrow> nat \<Rightarrow> (oauth_setup_session \<Rightarrow> 'r) \<Rightarrow> sessions \<Rightarrow> 'r option" where
  "get_session now sid f m =
     (case hm_get m sid of
        None \<Rightarrow> None
      | Some session \<Rightarrow> if expired now session then None else Some (f session))"

definition remove_session :: "nat \<Rightarrow> sessions \<Rightarrow> sessions \<times> oauth_setup_session option" where
  "remove_session sid m = (hm_remove sid m, hm_get m sid)"

definition mark_authorized :: "nat \<Rightarrow> token_set \<Rightarrow> sessions \<Rightarrow> sessions \<times> bool" where
  "mark_authorized sid toks m =
     (case hm_get m sid of
        Some session \<Rightarrow>
          (if ss_status session = Committing then (m, False)
           else (hm_insert sid (session\<lparr>ss_tokens := Some toks, ss_status := Authorized\<rparr>) m, True))
      | None \<Rightarrow> (m, False))"

definition is_name_reserved :: "instant_ns \<Rightarrow> string \<Rightarrow> sessions \<Rightarrow> bool" where
  "is_name_reserved now name m = (\<exists>s \<in> snd ` set m. ss_name s = name \<and> fresh_session now s)"

section \<open>Runs of the setup manager\<close>

datatype setup_event =
    Create nat instant_ns string string "string option" "string option" "string option"
  | Claim instant_ns nat
  | Release nat
  | Cancel instant_ns nat
  | Edit instant_ns nat "oauth_setup_session \<Rightarrow> oauth_setup_session"
  | Remove nat
  | Mark nat token_set
  | Sweep instant_ns

fun sstep :: "setup_event \<Rightarrow> sessions \<Rightarrow> sessions" where
  "sstep (Create uuid now name url sc tp ov) m = fst (create_session uuid now name url sc tp ov m)"
| "sstep (Claim now sid) m = fst (claim_for_commit now sid m)"
| "sstep (Release sid) m = release_commit_claim sid m"
| "sstep (Cancel now sid) m = fst (cancel_session now sid m)"
| "sstep (Edit now sid f) m = fst (get_session_mut now sid (\<lambda>s. (f s, ())) m)"
| "sstep (Remove sid) m = fst (remove_session sid m)"
| "sstep (Mark sid toks) m = fst (mark_authorized sid toks m)"
| "sstep (Sweep now) m = sweep_sessions now m"

text \<open>The closures the handlers pass keep the name; new ids are unused.\<close>

fun setup_event_ok :: "setup_event \<Rightarrow> sessions \<Rightarrow> bool" where
  "setup_event_ok (Create uuid now name url sc tp ov) m = (hm_get m uuid = None)"
| "setup_event_ok (Edit now sid f) m = (\<forall>s. ss_name (f s) = ss_name s \<and> ss_status (f s) \<noteq> Committing)"
| "setup_event_ok _ m = True"

definition names_unique :: "sessions \<Rightarrow> bool" where
  "names_unique m = (hm_wf m \<and>
     (\<forall>i j s t. hm_get m i = Some s \<longrightarrow> hm_get m j = Some t \<longrightarrow> ss_name s = ss_name t \<longrightarrow> i = j))"

lemma names_unique_update:
  assumes "names_unique m" "hm_get m i = Some s" "ss_name s' = ss_name s"
  shows "names_unique (hm_insert i s' m)"
  using assms unfolding names_unique_def by (auto simp: store_simps)

lemma names_unique_retain: "names_unique m \<Longrightarrow> names_unique (hm_retain P m)"
  unfolding names_unique_def by (auto simp: store_simps split: option.splits if_splits)

lemma names_unique_remove: "names_unique m \<Longrightarrow> names_unique (hm_remove i m)"
  unfolding names_unique_def by (auto simp: store_simps split: if_splits)

lemma names_unique_create:
  assumes "names_unique m"
  shows "names_unique (fst (create_session uuid now name url sc tp ov m))"
proof -
  have u: "names_unique (sweep_sessions now m)"
    unfolding sweep_sessions_def by (rule names_unique_retain [OF assms])
  have "ss_name s \<noteq> name" if "hm_get (sweep_sessions now m) i = Some s"
    "\<not> (\<exists>s \<in> snd ` set (sweep_sessions now m). ss_name s = name)" for i s
    using that hm_get_in_set by fastforce
  with u show ?thesis
    unfolding create_session_def Let_def names_unique_def by (auto simp: store_simps)
qed

lemma names_unique_step: "names_unique m \<Longrightarrow> setup_event_ok e m \<Longrightarrow> names_unique (sstep e m)"
  by (cases e)
     (auto simp: names_unique_create claim_for_commit_def release_commit_claim_def cancel_session_def
        get_session_mut_def remove_session_def mark_authorized_def sweep_sessions_def Let_def
        names_unique_retain names_unique_remove intro!: names_unique_update
        split: option.splits setup_session_status.splits)

fun setup_run_ok :: "setup_event list \<Rightarrow> sessions \<Rightarrow> bool" where
  "setup_run_ok [] m = True"
| "setup_run_ok (e # es) m = (setup_event_ok e m \<and> setup_run_ok es (sstep e m))"

lemma names_unique_run: "names_unique m \<Longrightarrow> setup_run_ok es m \<Longrightarrow> names_unique (apply_all sstep es m)"
  by (induction es arbitrary: m) (auto simp: names_unique_step)

text \<open>A claimed session is frozen: until its claim is released, the session is removed or swept, or its
  lease has lapsed, nothing changes it.\<close>

fun ends_claim :: "nat \<Rightarrow> setup_event \<Rightarrow> bool" where
  "ends_claim sid (Release i) = (i = sid)"
| "ends_claim sid (Remove i) = (i = sid)"
| "ends_claim sid _ = False"

fun event_time :: "setup_event \<Rightarrow> instant_ns option" where
  "event_time (Create uuid now name url sc tp ov) = Some now"
| "event_time (Claim now sid) = Some now"
| "event_time (Cancel now sid) = Some now"
| "event_time (Edit now sid f) = Some now"
| "event_time (Sweep now) = Some now"
| "event_time _ = None"

definition within_lease :: "instant_ns \<Rightarrow> setup_event \<Rightarrow> bool" where
  "within_lease t e = (case event_time e of Some now \<Rightarrow> now - t < SETUP_SESSION_MAX_AGE | None \<Rightarrow> True)"

lemma claim_other: "i \<noteq> sid \<Longrightarrow> hm_get (fst (claim_for_commit now i m)) sid = hm_get m sid"
  unfolding claim_for_commit_def Let_def
  by (simp add: store_simps split: option.split setup_session_status.split)

lemma claimed_frozen_step:
  assumes wf: "hm_wf m" and s: "hm_get m sid = Some s" "ss_status s = Committing"
    and e: "\<not> ends_claim sid e" "within_lease (ss_created_at s) e" "setup_event_ok e m"
  shows "hm_get (sstep e m) sid = Some s"
proof (cases e)
  case (Create uuid now name url sc tp ov)
  have "hm_get (sweep_sessions now m) sid = Some s" "uuid \<noteq> sid"
    using Create wf s e by (auto simp: sweep_sessions_def store_simps fresh_session_def within_lease_def)
  then show ?thesis using Create by (simp add: create_session_def Let_def hm_get_insert)
next
  case (Claim now i)
  then show ?thesis
    using s e claim_other [of i sid now m]
    by (cases "i = sid") (simp_all add: claim_for_commit_def within_lease_def expired_def)
next
  case (Release i)
  then show ?thesis using s e by (auto simp: release_commit_claim_def store_simps split: option.split)
next
  case (Cancel now i)
  then show ?thesis
    using s e by (auto simp: cancel_session_def within_lease_def expired_def store_simps split: option.split)
next
  case (Edit now i f)
  then show ?thesis
    using s e by (auto simp: get_session_mut_def within_lease_def expired_def store_simps split: option.split)
next
  case (Remove i)
  then show ?thesis using s e by (simp add: remove_session_def store_simps)
next
  case (Mark i toks)
  then show ?thesis using s e by (auto simp: mark_authorized_def store_simps split: option.split)
next
  case (Sweep now)
  then show ?thesis
    using wf s e by (simp add: sweep_sessions_def store_simps fresh_session_def within_lease_def)
qed

lemma claimed_frozen_run:
  assumes "names_unique m" "hm_get m sid = Some s" "ss_status s = Committing"
    "list_all (\<lambda>e. \<not> ends_claim sid e \<and> within_lease (ss_created_at s) e) es" "setup_run_ok es m"
  shows "hm_get (apply_all sstep es m) sid = Some s"
  using assms
proof (induction es arbitrary: m)
  case Nil
  then show ?case by simp
next
  case (Cons e es)
  have "hm_get (sstep e m) sid = Some s"
    using Cons.prems by (intro claimed_frozen_step) (auto simp: names_unique_def)
  with Cons show ?case by (simp add: names_unique_step)
qed

text \<open>Exactly one commit consumes a setup session. A successful claim snapshots the authorised
  session; until that claim is released or the session removed, and for ten minutes after the claim,
  whatever other requests arrive, every further claim answers "already committing", a cancel answers
  "commit in progress", edits and late callbacks are refused, and the session stays exactly as
  claimed.\<close>

theorem commit_claim_exclusive:
  assumes uniq: "names_unique m" and claim: "claim_for_commit t sid m = (m', Claimed snap)"
    and es: "list_all (\<lambda>e. \<not> ends_claim sid e \<and> within_lease t e) es" "setup_run_ok es m'"
    and now: "now - t < SETUP_SESSION_MAX_AGE"
  defines "m'' \<equiv> apply_all sstep es m'"
  shows "ss_status snap = Authorized \<and>
    hm_get m'' sid = Some (snap\<lparr>ss_status := Committing\<rparr>) \<and>
    claim_for_commit now sid m'' = (m'', AlreadyCommitting) \<and>
    cancel_session now sid m'' = (m'', CommitInProgress) \<and>
    mark_authorized sid toks m'' = (m'', False) \<and>
    get_session_mut now sid f m'' = (m'', None) \<and>
    is_name_reserved now (ss_name snap) m''"
proof -
  obtain s where s: "hm_get m sid = Some s" "snap = s\<lparr>ss_created_at := t, ss_status := Authorized\<rparr>"
      "m' = hm_insert sid (s\<lparr>ss_status := Committing, ss_created_at := t\<rparr>) m"
    using claim by (auto simp: claim_for_commit_def Let_def split: option.splits setup_session_status.splits if_splits)
  let ?c = "snap\<lparr>ss_status := Committing\<rparr>"
  have c: "?c = s\<lparr>ss_status := Committing, ss_created_at := t\<rparr>" using s(2) by simp
  have "names_unique m'" using names_unique_update [OF uniq s(1)] s(3) by simp
  moreover have "hm_get m' sid = Some ?c" using s(3) c by (simp add: store_simps)
  ultimately have got: "hm_get m'' sid = Some ?c"
    unfolding m''_def using es s(2) by (intro claimed_frozen_run) auto
  have "(sid, ?c) \<in> set m''" by (rule hm_get_in_set [OF got])
  then have "is_name_reserved now (ss_name snap) m''"
    using now s(2) by (force simp: is_name_reserved_def fresh_session_def)
  with got s(2) now show ?thesis
    by (simp add: claim_for_commit_def cancel_session_def mark_authorized_def get_session_mut_def expired_def)
qed

definition sample_session :: oauth_setup_session where
  "sample_session =
     \<lparr>ss_name = ''n'', ss_url = ''u'', ss_scopes = None, ss_tool_prefix = None, ss_server_type_override = None,
      ss_authorization_endpoint = None, ss_token_endpoint = None, ss_registration_endpoint = None,
      ss_oauth_server_url = None, ss_issuer = None, ss_client_id = None, ss_client_secret = None,
      ss_client_secret_expires_at = 0, ss_registered_via_dcr = False, ss_tokens = None,
      ss_status = Authorized, ss_created_at = 0\<rparr>"

theorem commit_claim_exclusive_witness:
  "claim_for_commit 9 7 (apply_all sstep [Cancel 6 7, Mark 7 sample_tokens]
     (fst (claim_for_commit 5 7 [(7, sample_session)]))) =
   (apply_all sstep [Cancel 6 7, Mark 7 sample_tokens] (fst (claim_for_commit 5 7 [(7, sample_session)])),
    AlreadyCommitting)"
proof -
  have claim: "claim_for_commit 5 7 [(7, sample_session)] =
      (fst (claim_for_commit 5 7 [(7, sample_session)]), Claimed (sample_session\<lparr>ss_created_at := 5\<rparr>))"
    by (simp add: claim_for_commit_def hm_get_Cons expired_def SETUP_SESSION_MAX_AGE_def sample_session_def)
  have "names_unique [(7, sample_session)]"
    by (auto simp: names_unique_def hm_wf_def hm_get_Cons split: if_splits)
  from commit_claim_exclusive [OF this claim, of "[Cancel 6 7, Mark 7 sample_tokens]" 9 sample_tokens
      "\<lambda>s. (s, ())"]
  show ?thesis
    by (simp add: within_lease_def SETUP_SESSION_MAX_AGE_def del: apply_all.simps)
qed

text \<open>No two live setup sessions hold the same name, in every run of the manager.\<close>

theorem setup_names_unique:
  assumes "setup_run_ok es []"
    "hm_get (apply_all sstep es []) i = Some s" "hm_get (apply_all sstep es []) j = Some t" "i \<noteq> j"
  shows "ss_name s \<noteq> ss_name t"
proof -
  have "names_unique []" by (simp add: names_unique_def)
  from names_unique_run [OF this assms(1)] assms(2-4) show ?thesis
    unfolding names_unique_def by blast
qed

theorem setup_names_unique_witness:
  "ss_name (the (hm_get (apply_all sstep [Create 1 0 ''a'' ''u'' None None None, Create 2 0 ''b'' ''u'' None None None] []) 1)) \<noteq>
   ss_name (the (hm_get (apply_all sstep [Create 1 0 ''a'' ''u'' None None None, Create 2 0 ''b'' ''u'' None None None] []) 2))"
proof -
  have run: "setup_run_ok [Create 1 0 ''a'' ''u'' None None None, Create 2 0 ''b'' ''u'' None None None] []"
    by (simp add: create_session_def Let_def sweep_sessions_def hm_retain_def hm_get_Cons)
  have "hm_get (apply_all sstep [Create 1 0 ''a'' ''u'' None None None, Create 2 0 ''b'' ''u'' None None None] []) 1 \<noteq> None"
    "hm_get (apply_all sstep [Create 1 0 ''a'' ''u'' None None None, Create 2 0 ''b'' ''u'' None None None] []) 2 \<noteq> None"
    by (simp_all add: create_session_def Let_def sweep_sessions_def hm_retain_def hm_get_Cons fresh_session_def
        SETUP_SESSION_MAX_AGE_def)
  then show ?thesis
    using setup_names_unique [OF run, of 1 _ 2] by fastforce
qed

end
