(* ===== verification/Sessions.thy ===== *)
theory Sessions
  imports Protocol
begin

text \<open>
  Who is calling: the client identity (\<^verbatim>\<open>src/events.rs\<close>, \<^verbatim>\<open>ClientIdentity\<close>), its wire form and
  label, how the inbound dispatch resolves it (\<^verbatim>\<open>src/server.rs\<close>), and the bounded LRU store of
  session identities (\<^verbatim>\<open>SessionIdentityStore\<close>) with its refinement to a recency list.
\<close>

section \<open>Identities\<close>

record client_identity =
  ci_name :: "string option"
  ci_version :: "string option"
  ci_user_agent :: "string option"
  ci_origin :: "string option"

definition empty_identity :: client_identity where
  "empty_identity = \<lparr>ci_name = None, ci_version = None, ci_user_agent = None, ci_origin = None\<rparr>"

definition identity_is_empty :: "client_identity \<Rightarrow> bool" where
  "identity_is_empty c = (ci_name c = None \<and> ci_version c = None \<and> ci_user_agent c = None \<and> ci_origin c = None)"

definition trim_end :: "string \<Rightarrow> string" where
  "trim_end s = utf8 (rev (dropWhile is_space (rev (chars s))))"

definition ascii_lowercase :: "string \<Rightarrow> string" where
  "ascii_lowercase s = map ascii_lower s"

definition strip_mcp_remote_suffix :: "string \<Rightarrow> string" where
  "strip_mcp_remote_suffix name =
     (case split_at_first '' (via mcp-remote'' (ascii_lowercase name) of
        Some (before, _) \<Rightarrow> trim_end (take (length before) name)
      | None \<Rightarrow> name)"

definition known_label :: "string \<Rightarrow> string option" where
  "known_label lower =
     (if starts_with ''local-agent-mode-'' lower then Some ''Claude Cowork''
      else if lower = ''claude-ai'' then Some ''Claude Desktop''
      else if lower = ''claude-code'' then Some ''Claude Code''
      else if lower = ''anthropic'' \<or> starts_with ''anthropic-'' lower \<or> starts_with ''anthropic '' lower
        then Some ''Claude''
      else if starts_with ''cursor-vscode'' lower \<or> lower = ''cursor'' then Some ''Cursor''
      else None)"

definition ua_token :: "string \<Rightarrow> string" where
  "ua_token ua = trim (utf8 (takeWhile (\<lambda>c. \<not> (c = 47 \<or> is_space c)) (chars ua)))"

definition ua_label :: "string option \<Rightarrow> string option" where
  "ua_label user_agent =
     (case user_agent of
        Some ua \<Rightarrow> if ua_token ua \<noteq> [] then Some (ua_token ua) else None
      | None \<Rightarrow> None)"

definition client_label :: "client_identity \<Rightarrow> string option" where
  "client_label c =
     (case ci_name c of
        Some name \<Rightarrow>
          (let stripped = trim (strip_mcp_remote_suffix name) in
           if stripped \<noteq> [] then
             (case known_label (ascii_lowercase stripped) of
                Some label \<Rightarrow> Some label
              | None \<Rightarrow> Some stripped)
           else ua_label (ci_user_agent c))
      | None \<Rightarrow> ua_label (ci_user_agent c))"

text \<open>The wire form: absent fields are omitted, the label is added; reading ignores the label.\<close>

definition entry :: "string \<Rightarrow> string option \<Rightarrow> (string \<times> json) list" where
  "entry k v = (case v of Some s \<Rightarrow> [(k, JStr s)] | None \<Rightarrow> [])"

definition serialize_identity :: "client_identity \<Rightarrow> json" where
  "serialize_identity c = JObj (entry ''name'' (ci_name c) @ entry ''version'' (ci_version c) @
     entry ''user_agent'' (ci_user_agent c) @ entry ''origin'' (ci_origin c) @
     entry ''label'' (client_label c))"

fun de_opt_string :: "json option \<Rightarrow> string option option" where
  "de_opt_string None = Some None"
| "de_opt_string (Some JNull) = Some None"
| "de_opt_string (Some (JStr s)) = Some (Some s)"
| "de_opt_string (Some _) = None"

definition read_identity ::
  "json option \<Rightarrow> json option \<Rightarrow> json option \<Rightarrow> json option \<Rightarrow> client_identity option" where
  "read_identity n v u og =
     (case (de_opt_string n, de_opt_string v, de_opt_string u, de_opt_string og) of
        (Some n', Some v', Some u', Some og') \<Rightarrow>
          Some \<lparr>ci_name = n', ci_version = v', ci_user_agent = u', ci_origin = og'\<rparr>
      | _ \<Rightarrow> None)"

text \<open>The derived deserialiser takes an object or the sequence of the four fields.\<close>

definition deserialize_identity :: "json \<Rightarrow> client_identity option" where
  "deserialize_identity j =
     (case j of
        JObj m \<Rightarrow> read_identity (json_get j ''name'') (json_get j ''version'') (json_get j ''user_agent'')
                    (json_get j ''origin'')
      | JArr [n, v, u, og] \<Rightarrow> read_identity (Some n) (Some v) (Some u) (Some og)
      | _ \<Rightarrow> None)"

lemma hm_get_entry [simp]:
  "hm_get (entry k v @ m) k' = (if k' = k then (case v of Some s \<Rightarrow> Some (JStr s) | None \<Rightarrow> hm_get m k') else hm_get m k')"
  by (auto simp: entry_def hm_get_Cons split: option.splits)

lemma hm_get_entry_last [simp]:
  "hm_get (entry k v) k' = (if k' = k then map_option JStr v else None)"
  by (auto simp: entry_def hm_get_Cons split: option.splits)

lemma identity_roundtrip: "deserialize_identity (serialize_identity c) = Some c"
  by (cases "ci_name c"; cases "ci_version c"; cases "ci_user_agent c"; cases "ci_origin c")
     (simp_all add: serialize_identity_def deserialize_identity_def read_identity_def)

section \<open>Span context\<close>

text \<open>The fields captured per span, innermost span first.\<close>

record captured_span =
  cs_request_uid :: "string option"
  cs_profile :: "string option"
  cs_client :: "client_identity option"

definition no_capture :: captured_span where
  "no_capture = \<lparr>cs_request_uid = None, cs_profile = None, cs_client = None\<rparr>"

definition record_field ::
  "(string \<Rightarrow> json option) \<Rightarrow> bool \<Rightarrow> bool \<Rightarrow> string \<Rightarrow> string \<Rightarrow> captured_span \<Rightarrow> captured_span" where
  "record_field parse is_request is_mcp_request name value c =
     (if is_request \<and> name = ''client'' then
        (case Option.bind (parse value) deserialize_identity of
           Some i \<Rightarrow> if \<not> identity_is_empty i then c\<lparr>cs_client := Some i\<rparr> else c
         | None \<Rightarrow> c)
      else if is_request \<and> name = ''request_uid'' then
        (if value \<noteq> [] then c\<lparr>cs_request_uid := Some value\<rparr> else c)
      else if is_mcp_request \<and> name = ''profile'' then c\<lparr>cs_profile := Some value\<rparr>
      else c)"

definition on_new_span ::
  "(string \<Rightarrow> json option) \<Rightarrow> string \<Rightarrow> (string \<times> string) list \<Rightarrow> captured_span option" where
  "on_new_span parse span_name recorded =
     (let is_request = (span_name = ''request''); is_mcp_request = (span_name = ''mcp_request'') in
      if \<not> (is_request \<or> is_mcp_request) then None
      else Some (fold (\<lambda>(k, v). record_field parse is_request is_mcp_request k v) recorded no_capture))"

definition current_request_context :: "captured_span option list \<Rightarrow> captured_span" where
  "current_request_context scope =
     fold (\<lambda>ext ctx. case ext of
         None \<Rightarrow> ctx
       | Some c \<Rightarrow> \<lparr>cs_request_uid = option_or (cs_request_uid ctx) (cs_request_uid c),
                    cs_profile = option_or (cs_profile ctx) (cs_profile c),
                    cs_client = option_or (cs_client ctx) (cs_client c)\<rparr>) scope no_capture"

section \<open>Resolving the caller\<close>

text \<open>Headers: a lookup of the first value of a (lower-case) name that is valid visible ASCII.\<close>

type_synonym headers = "string \<Rightarrow> string option"

definition identity_from_headers :: "headers \<Rightarrow> client_identity" where
  "identity_from_headers h =
     \<lparr>ci_name = None, ci_version = None, ci_user_agent = h ''user-agent'', ci_origin = h ''origin''\<rparr>"

definition identity_from_info :: "json option \<Rightarrow> client_identity" where
  "identity_from_info info =
     (case info of
        None \<Rightarrow> empty_identity
      | Some i \<Rightarrow>
          \<lparr>ci_name = Option.bind (json_get i ''name'') json_str,
           ci_version = Option.bind (json_get i ''version'') json_str,
           ci_user_agent = None, ci_origin = None\<rparr>)"

definition identity_from_initialize_params :: "json option \<Rightarrow> client_identity" where
  "identity_from_initialize_params params = identity_from_info (opt_get params ''clientInfo'')"

definition identity_from_meta_client_info :: "json option \<Rightarrow> client_identity" where
  "identity_from_meta_client_info params = identity_from_info (meta_client_info params)"

definition merge_identity :: "client_identity \<Rightarrow> client_identity \<Rightarrow> client_identity" where
  "merge_identity p f =
     \<lparr>ci_name = option_or (ci_name p) (ci_name f), ci_version = option_or (ci_version p) (ci_version f),
      ci_user_agent = option_or (ci_user_agent p) (ci_user_agent f),
      ci_origin = option_or (ci_origin p) (ci_origin f)\<rparr>"

definition none_if_empty :: "client_identity \<Rightarrow> client_identity option" where
  "none_if_empty c = (if identity_is_empty c then None else Some c)"

section \<open>The session store\<close>

text \<open>\<open>recency\<close> is the \<^verbatim>\<open>BTreeMap\<close>: keys in ascending order.\<close>

record session_store =
  sst_capacity :: nat
  sst_next_seq :: u64
  sst_entries :: "(string, client_identity \<times> protocol_version \<times> u64) hashmap"
  sst_recency :: "(u64 \<times> string) list"

fun bt_insert :: "u64 \<Rightarrow> 'a \<Rightarrow> (u64 \<times> 'a) list \<Rightarrow> (u64 \<times> 'a) list" where
  "bt_insert k v [] = [(k, v)]"
| "bt_insert k v ((k', v') # m) =
     (if k < k' then (k, v) # (k', v') # m
      else if k = k' then (k, v) # m
      else (k', v') # bt_insert k v m)"

definition bt_remove :: "u64 \<Rightarrow> (u64 \<times> 'a) list \<Rightarrow> (u64 \<times> 'a) list" where
  "bt_remove k m = filter (\<lambda>p. fst p \<noteq> k) m"

definition with_capacity :: "nat \<Rightarrow> session_store" where
  "with_capacity cap = \<lparr>sst_capacity = max cap 1, sst_next_seq = 0, sst_entries = [], sst_recency = []\<rparr>"

definition next_seq :: "session_store \<Rightarrow> session_store \<times> u64" where
  "next_seq s = (s\<lparr>sst_next_seq := (if sst_next_seq s = - 1 then - 1 else sst_next_seq s + 1)\<rparr>, sst_next_seq s)"

fun evict :: "nat \<Rightarrow> (string, 'v) hashmap \<Rightarrow> (u64 \<times> string) list \<Rightarrow> (string, 'v) hashmap \<times> (u64 \<times> string) list" where
  "evict cap entries [] = (entries, [])"
| "evict cap entries ((q, key) # rest) =
     (if cap \<le> length entries then evict cap (hm_remove key entries) rest
      else (entries, (q, key) # rest))"

definition insert_with_dialect ::
  "string \<Rightarrow> client_identity \<Rightarrow> protocol_version \<Rightarrow> session_store \<Rightarrow> session_store \<times> client_identity option" where
  "insert_with_dialect sid identity dialect s =
     (case next_seq s of (s1, new_seq) \<Rightarrow>
       (let (entries, recency, previous) =
              (case hm_get (sst_entries s1) sid of
                 Some (prev_id, _, prev_seq) \<Rightarrow>
                   (hm_remove sid (sst_entries s1), bt_remove prev_seq (sst_recency s1), Some prev_id)
               | None \<Rightarrow> (sst_entries s1, sst_recency s1, None));
            (entries', recency') = evict (sst_capacity s1) entries recency
        in (s1\<lparr>sst_recency := bt_insert new_seq sid recency',
               sst_entries := hm_insert sid (identity, dialect, new_seq) entries'\<rparr>, previous)))"

definition get_identity :: "string \<Rightarrow> session_store \<Rightarrow> session_store \<times> client_identity option" where
  "get_identity sid s =
     (case hm_get (sst_entries s) sid of
        None \<Rightarrow> (s, None)
      | Some (identity, dialect, prev_seq) \<Rightarrow>
          (case next_seq (s\<lparr>sst_recency := bt_remove prev_seq (sst_recency s)\<rparr>) of
             (s1, new_seq) \<Rightarrow>
               (s1\<lparr>sst_recency := bt_insert new_seq sid (sst_recency s1),
                   sst_entries := hm_insert sid (identity, dialect, new_seq) (sst_entries s1)\<rparr>,
                Some identity)))"

definition session_dialect :: "string \<Rightarrow> session_store \<Rightarrow> protocol_version option" where
  "session_dialect sid s = map_option (\<lambda>(_, d, _). d) (hm_get (sst_entries s) sid)"

definition resolve_inbound_identity :: "headers \<Rightarrow> session_store \<Rightarrow> session_store \<times> client_identity option" where
  "resolve_inbound_identity h s =
     (let header_identity = identity_from_headers h;
          (s1, session_identity) = (case h ''mcp-session-id'' of
              None \<Rightarrow> (s, None) | Some sid \<Rightarrow> get_identity sid s);
          merged = (case session_identity of
              Some i \<Rightarrow> merge_identity i header_identity | None \<Rightarrow> header_identity)
      in (s1, none_if_empty merged))"

definition resolve_inbound_identity_versioned ::
  "headers \<Rightarrow> json option \<Rightarrow> session_store \<Rightarrow> session_store \<times> client_identity option" where
  "resolve_inbound_identity_versioned h params s =
     (if \<not> is_2026 (detect_inbound_dialect False (h ''mcp-protocol-version'') params)
      then resolve_inbound_identity h s
      else (s, none_if_empty (merge_identity (identity_from_meta_client_info params) (identity_from_headers h))))"

section \<open>The store is an LRU list\<close>

text \<open>Specification: the sessions in order of use, the most recent last.\<close>

type_synonym lru = "(string \<times> client_identity \<times> protocol_version) list"

definition lru_insert :: "nat \<Rightarrow> string \<Rightarrow> client_identity \<times> protocol_version \<Rightarrow> lru \<Rightarrow> lru" where
  "lru_insert cap k v xs =
     (let ys = filter (\<lambda>p. fst p \<noteq> k) xs in drop (Suc (length ys) - cap) ys @ [(k, v)])"

definition lru_touch :: "string \<Rightarrow> lru \<Rightarrow> lru" where
  "lru_touch k xs =
     (case map_of xs k of None \<Rightarrow> xs | Some v \<Rightarrow> filter (\<lambda>p. fst p \<noteq> k) xs @ [(k, v)])"

definition linked :: "(string, 'i \<times> 'd \<times> u64) hashmap \<Rightarrow> (u64 \<times> string) list \<Rightarrow> bool" where
  "linked entries recency = (hm_wf entries \<and> sorted_wrt (<) (map fst recency) \<and>
     (\<forall>q k. (q, k) \<in> set recency \<longleftrightarrow> (\<exists>i d. hm_get entries k = Some (i, d, q))))"

definition store_ok :: "session_store \<Rightarrow> bool" where
  "store_ok s = (linked (sst_entries s) (sst_recency s) \<and> 1 \<le> sst_capacity s \<and>
     length (sst_recency s) \<le> sst_capacity s \<and>
     (\<forall>q \<in> fst ` set (sst_recency s). q < sst_next_seq s))"

definition val_of :: "(string, 'i \<times> 'd \<times> u64) hashmap \<Rightarrow> string \<Rightarrow> 'i \<times> 'd" where
  "val_of entries k = (case hm_get entries k of Some (i, d, q) \<Rightarrow> (i, d) | None \<Rightarrow> undefined)"

definition lru_of :: "session_store \<Rightarrow> lru" where
  "lru_of s = map (\<lambda>(q, k). (k, val_of (sst_entries s) k)) (sst_recency s)"

lemma linked_distinct: "linked entries recency \<Longrightarrow> distinct (map snd recency)"
proof -
  assume l: "linked entries recency"
  have d: "distinct recency"
    using l strict_sorted_iff [of "map fst recency"] by (auto simp: linked_def distinct_map)
  have "inj_on snd (set recency)"
    using l unfolding linked_def inj_on_def by fastforce
  with d show "distinct (map snd recency)" by (simp add: distinct_map)
qed

lemma linked_length: "linked entries recency \<Longrightarrow> length entries = length recency"
proof -
  assume l: "linked entries recency"
  have "set (map snd recency) = set (map fst entries)"
  proof (intro equalityI subsetI)
    fix k assume "k \<in> set (map snd recency)"
    then obtain q where "(q, k) \<in> set recency" by auto
    with l have "hm_get entries k \<noteq> None" unfolding linked_def by fastforce
    then show "k \<in> set (map fst entries)" by (simp add: hm_get_eq_None)
  next
    fix k assume "k \<in> set (map fst entries)"
    then have "hm_get entries k \<noteq> None" by (simp add: hm_get_eq_None)
    then obtain i d q where "hm_get entries k = Some (i, d, q)" by auto
    with l have "(q, k) \<in> set recency" unfolding linked_def by blast
    then show "k \<in> set (map snd recency)" by force
  qed
  moreover have "distinct (map fst entries)" using l by (simp add: linked_def hm_wf_def)
  ultimately show ?thesis
    using linked_distinct [OF l] by (metis distinct_card length_map)
qed

lemma linked_drop:
  assumes "linked entries ((q, k) # rest)"
  shows "linked (hm_remove k entries) rest"
proof -
  have fresh: "k \<notin> snd ` set rest" using linked_distinct [OF assms] by auto
  have "(q', k') \<in> set rest \<longleftrightarrow> (\<exists>i d. hm_get (hm_remove k entries) k' = Some (i, d, q'))" for q' k'
  proof -
    have "(q', k') \<in> set rest \<longleftrightarrow> k' \<noteq> k \<and> (q', k') \<in> set ((q, k) # rest)"
      using fresh by force
    also have "\<dots> \<longleftrightarrow> k' \<noteq> k \<and> (\<exists>i d. hm_get entries k' = Some (i, d, q'))"
      using assms unfolding linked_def by blast
    also have "\<dots> \<longleftrightarrow> (\<exists>i d. hm_get (hm_remove k entries) k' = Some (i, d, q'))"
      by (simp add: hm_get_remove)
    finally show ?thesis .
  qed
  with assms show ?thesis by (simp add: linked_def)
qed

lemma linked_remove:
  assumes "linked entries recency" "hm_get entries k = Some (i, d, q)"
  shows "linked (hm_remove k entries) (bt_remove q recency)"
    and "bt_remove q recency = filter (\<lambda>p. snd p \<noteq> k) recency"
proof -
  have s: "sorted_wrt (<) (map fst recency)" using assms by (simp add: linked_def)
  have here: "(q, k) \<in> set recency" using assms by (auto simp: linked_def)
  have d1: "distinct (map fst recency)" using s strict_sorted_iff by blast
  have d2: "distinct (map snd recency)" using linked_distinct assms(1) by blast
  have same: "fst p = q \<longleftrightarrow> snd p = k" if "p \<in> set recency" for p
    using that here d1 d2 unfolding distinct_map inj_on_def by (metis fst_conv snd_conv)
  show eq: "bt_remove q recency = filter (\<lambda>p. snd p \<noteq> k) recency"
    unfolding bt_remove_def by (rule filter_cong) (auto simp: same)
  have "sorted_wrt (<) (map fst (filter (\<lambda>p. snd p \<noteq> k) recency))"
    using s by (metis sorted_wrt_filter sorted_wrt_map)
  with assms show "linked (hm_remove k entries) (bt_remove q recency)"
    unfolding eq linked_def by (auto simp: hm_get_remove)
qed

lemma bt_insert_last: "\<forall>q \<in> fst ` set m. q < n \<Longrightarrow> bt_insert n v m = m @ [(n, v)]"
  by (induction n v m rule: bt_insert.induct) auto

lemma evict_spec:
  assumes "linked entries recency"
  shows "linked (fst (evict cap entries recency)) (snd (evict cap entries recency)) \<and>
    snd (evict cap entries recency) = drop (Suc (length recency) - max cap 1) recency \<and>
    (\<forall>k \<in> snd ` set (snd (evict cap entries recency)).
       hm_get (fst (evict cap entries recency)) k = hm_get entries k)"
  using assms
proof (induction cap entries recency rule: evict.induct)
  case (1 cap entries)
  then show ?case by simp
next
  case (2 cap entries q key rest)
  have len: "length entries = Suc (length rest)" using linked_length [OF 2(2)] by simp
  show ?case
  proof (cases "cap \<le> length entries")
    case True
    have l: "linked (hm_remove key entries) rest" by (rule linked_drop [OF 2(2)])
    note IH = 2(1) [OF True l]
    have "snd (evict cap (hm_remove key entries) rest) = drop (Suc (length ((q, key) # rest)) - max cap 1) ((q, key) # rest)"
      using IH True len by (simp add: Suc_diff_le)
    moreover have "key \<notin> snd ` set rest" using linked_distinct [OF 2(2)] by auto
    moreover have "set (snd (evict cap (hm_remove key entries) rest)) \<subseteq> set rest"
      using IH by (metis set_drop_subset)
    ultimately show ?thesis using True IH by (auto simp: hm_get_remove)
  next
    case False
    with 2(2) len show ?thesis by simp
  qed
qed

lemma val_of_cong: "hm_get es k = hm_get es' k \<Longrightarrow> val_of es k = val_of es' k"
  by (simp add: val_of_def)

lemma linked_insert:
  assumes "linked entries recency" "hm_get entries k = None" "\<forall>q \<in> fst ` set recency. q < n"
  shows "linked (hm_insert k (i, d, n) entries) (recency @ [(n, k)])"
proof -
  have "sorted_wrt (<) (map fst (recency @ [(n, k)]))"
    using assms by (auto simp: linked_def sorted_wrt_append)
  moreover have "(q, k') \<in> set (recency @ [(n, k)]) \<longleftrightarrow>
      (\<exists>i' d'. hm_get (hm_insert k (i, d, n) entries) k' = Some (i', d', q))" for q k'
  proof (cases "k' = k")
    case True
    have "(q, k) \<notin> set recency" using assms(1,2) by (auto simp: linked_def)
    with True show ?thesis by (auto simp: hm_get_insert)
  next
    case False
    with assms(1) show ?thesis by (auto simp: hm_get_insert linked_def)
  qed
  ultimately show ?thesis using assms(1) by (simp add: linked_def)
qed

lemma map_of_lru:
  assumes "store_ok s"
  shows "map_of (lru_of s) k = map_option (\<lambda>(i, d, q). (i, d)) (hm_get (sst_entries s) k)"
proof -
  have l: "linked (sst_entries s) (sst_recency s)" using assms by (simp add: store_ok_def)
  show ?thesis
  proof (cases "hm_get (sst_entries s) k")
    case None
    then have "k \<notin> snd ` set (sst_recency s)" using l by (fastforce simp: linked_def)
    then have "k \<notin> fst ` set (lru_of s)" by (auto simp: lru_of_def image_iff)
    with None show ?thesis by (simp add: map_of_eq_None_iff)
  next
    case (Some v)
    obtain i d q where v: "v = (i, d, q)" by (cases v)
    then have "(q, k) \<in> set (sst_recency s)" using l Some by (auto simp: linked_def)
    then have "(k, val_of (sst_entries s) k) \<in> set (lru_of s)" by (force simp: lru_of_def)
    moreover have "map fst (lru_of s) = map snd (sst_recency s)"
      by (simp add: lru_of_def case_prod_beta comp_def)
    then have "distinct (map fst (lru_of s))" using linked_distinct [OF l] by simp
    ultimately have "map_of (lru_of s) k = Some (val_of (sst_entries s) k)" by simp
    with Some v show ?thesis by (simp add: val_of_def)
  qed
qed

text \<open>Removing a present key from the two tables is filtering the list; an absent key changes nothing.\<close>

lemma lru_filter_absent:
  "linked entries recency \<Longrightarrow> hm_get entries k = None \<Longrightarrow> filter (\<lambda>p. snd p \<noteq> k) recency = recency"
  by (rule filter_True) (fastforce simp: linked_def)

lemma room_for_next:
  assumes "store_ok s" "sst_next_seq s \<noteq> - 1"
  shows "q \<in> fst ` set (sst_recency s) \<Longrightarrow> q < sst_next_seq s + 1" "sst_next_seq s < sst_next_seq s + 1"
proof -
  show less: "sst_next_seq s < sst_next_seq s + 1"
  proof -
    have "unat (sst_next_seq s + 1) = Suc (unat (sst_next_seq s))"
      using assms(2) by (metis Suc_eq_plus1 add.commute add.right_neutral add_eq_0_iff2 unatSuc)
    then show ?thesis by (simp add: word_less_nat_alt)
  qed
  show "q < sst_next_seq s + 1" if "q \<in> fst ` set (sst_recency s)"
    using assms(1) that less unfolding store_ok_def by (meson order_less_trans)
qed

definition seq_room :: "session_store \<Rightarrow> bool" where
  "seq_room s = (sst_next_seq s \<noteq> - 1)"

lemma insert_refines:
  assumes ok: "store_ok s" and room: "seq_room s" and r_def: "r = insert_with_dialect k i d s"
  shows "store_ok (fst r)" "lru_of (fst r) = lru_insert (sst_capacity s) k (i, d) (lru_of s)"
    "snd r = map_option fst (map_of (lru_of s) k)"
proof -
  let ?n = "sst_next_seq s" and ?cap = "sst_capacity s"
  have l: "linked (sst_entries s) (sst_recency s)" and cap: "1 \<le> ?cap"
    and below: "\<forall>q \<in> fst ` set (sst_recency s). q < ?n"
    using ok by (simp_all add: store_ok_def)
  define es where "es = hm_remove k (sst_entries s)"
  define rs where "rs = filter (\<lambda>p. snd p \<noteq> k) (sst_recency s)"
  have parts: "(case hm_get (sst_entries s) k of
      Some (prev_id, _, prev_seq) \<Rightarrow> (hm_remove k (sst_entries s), bt_remove prev_seq (sst_recency s), Some prev_id)
    | None \<Rightarrow> (sst_entries s, sst_recency s, None)) =
    (es, rs, map_option fst (hm_get (sst_entries s) k))"
  proof (cases "hm_get (sst_entries s) k")
    case None
    have "es = sst_entries s"
      using None unfolding es_def hm_remove_def hm_get_eq_None by (intro filter_True) force
    with None lru_filter_absent [OF l None] show ?thesis by (simp add: rs_def)
  next
    case (Some v)
    obtain i' d' q where v: "v = (i', d', q)" by (cases v)
    with linked_remove(2) [OF l, of k i' d' q] Some show ?thesis by (simp add: es_def rs_def)
  qed
  have lk: "linked es rs"
  proof (cases "hm_get (sst_entries s) k")
    case None
    have "es = sst_entries s"
      using None unfolding es_def hm_remove_def hm_get_eq_None by (intro filter_True) force
    with lru_filter_absent [OF l None] l show ?thesis by (simp add: rs_def)
  next
    case (Some v)
    obtain i' d' q where v: "v = (i', d', q)" by (cases v)
    from linked_remove [OF l, of k i' d' q] Some v show ?thesis by (simp add: es_def rs_def)
  qed
  define es' where "es' = fst (evict ?cap es rs)"
  define rs' where "rs' = snd (evict ?cap es rs)"
  have ev: "linked es' rs'" "rs' = drop (Suc (length rs) - ?cap) rs"
      "\<And>k'. k' \<in> snd ` set rs' \<Longrightarrow> hm_get es' k' = hm_get es k'"
    using evict_spec [OF lk, of ?cap, folded es'_def rs'_def] cap by (auto simp: max_absorb1)
  have sub: "set rs' \<subseteq> set rs" unfolding ev(2) by (rule set_drop_subset)
  then have below': "\<forall>q \<in> fst ` set rs'. q < ?n"
    using below unfolding rs_def by fastforce
  have absent: "hm_get es' k = None"
  proof (rule ccontr)
    assume "hm_get es' k \<noteq> None"
    then obtain i' d' q where "hm_get es' k = Some (i', d', q)" by fastforce
    then have "(q, k) \<in> set rs'" using ev(1) unfolding linked_def by blast
    then show False using sub unfolding rs_def by auto
  qed
  have fst_r: "fst r = s\<lparr>sst_next_seq := ?n + 1, sst_recency := rs' @ [(?n, k)],
      sst_entries := hm_insert k (i, d, ?n) es'\<rparr>"
    and snd_r: "snd r = map_option fst (hm_get (sst_entries s) k)"
    using room parts bt_insert_last [OF below']
    by (auto simp: r_def insert_with_dialect_def next_seq_def seq_room_def Let_def case_prod_beta
        es'_def rs'_def split: option.splits)
  have len: "length rs' < ?cap" unfolding ev(2) using cap by simp
  have "linked (hm_insert k (i, d, ?n) es') (rs' @ [(?n, k)])"
    by (rule linked_insert [OF ev(1) absent below'])
  moreover have "q < ?n + 1" if "q \<in> fst ` set (rs' @ [(?n, k)])" for q
  proof -
    have "q = ?n \<or> q \<in> fst ` set (sst_recency s)" using that sub unfolding rs_def by auto
    then show ?thesis using room_for_next [OF ok] room unfolding seq_room_def by blast
  qed
  ultimately show "store_ok (fst r)"
    using fst_r cap len unfolding store_ok_def by simp
  have old: "val_of (hm_insert k (i, d, ?n) es') k' = val_of (sst_entries s) k'" if "k' \<in> snd ` set rs'" for k'
  proof -
    have "k' \<noteq> k" using that sub unfolding rs_def by auto
    then show ?thesis using ev(3) [OF that] by (simp add: val_of_def hm_get_insert es_def hm_get_remove)
  qed
  have "map (\<lambda>(q, k'). (k', val_of (hm_insert k (i, d, ?n) es') k')) rs' =
      map (\<lambda>(q, k). (k, val_of (sst_entries s) k)) rs'"
    using old by force
  then have "lru_of (fst r) = map (\<lambda>(q, k). (k, val_of (sst_entries s) k)) rs' @ [(k, (i, d))]"
    by (simp add: lru_of_def fst_r) (simp add: val_of_def hm_get_insert)
  moreover have "filter (\<lambda>p. fst p \<noteq> k) (lru_of s) = map (\<lambda>(q, k). (k, val_of (sst_entries s) k)) rs"
    by (simp add: lru_of_def rs_def filter_map comp_def case_prod_beta)
  ultimately show "lru_of (fst r) = lru_insert ?cap k (i, d) (lru_of s)"
    by (simp add: lru_insert_def Let_def ev(2) drop_map)
  show "snd r = map_option fst (map_of (lru_of s) k)"
    by (cases "hm_get (sst_entries s) k") (auto simp: snd_r map_of_lru [OF ok])
qed

lemma touch_refines:
  assumes ok: "store_ok s" and room: "seq_room s"
  shows "store_ok (fst (get_identity k s))" "lru_of (fst (get_identity k s)) = lru_touch k (lru_of s)"
    "snd (get_identity k s) = map_option fst (map_of (lru_of s) k)"
proof -
  have l: "linked (sst_entries s) (sst_recency s)"
    and below: "\<forall>q \<in> fst ` set (sst_recency s). q < sst_next_seq s"
    using ok by (simp_all add: store_ok_def)
  show "snd (get_identity k s) = map_option fst (map_of (lru_of s) k)"
    by (auto simp: get_identity_def next_seq_def map_of_lru [OF ok] split: option.splits)
  have goal: "store_ok (fst (get_identity k s)) \<and> lru_of (fst (get_identity k s)) = lru_touch k (lru_of s)"
  proof (cases "hm_get (sst_entries s) k")
    case None
    then show ?thesis using ok by (simp add: get_identity_def lru_touch_def map_of_lru [OF ok])
  next
    case (Some v)
    obtain i d q where v: "v = (i, d, q)" by (cases v)
    define rs where "rs = filter (\<lambda>p. snd p \<noteq> k) (sst_recency s)"
    have rm: "bt_remove q (sst_recency s) = rs" "linked (hm_remove k (sst_entries s)) rs"
      using linked_remove [OF l, of k i d q] Some v by (simp_all add: rs_def)
    have below': "\<forall>q \<in> fst ` set rs. q < sst_next_seq s" using below unfolding rs_def by auto
    have fst_g: "fst (get_identity k s) = s\<lparr>sst_next_seq := sst_next_seq s + 1,
        sst_recency := rs @ [(sst_next_seq s, k)],
        sst_entries := hm_insert k (i, d, sst_next_seq s) (sst_entries s)\<rparr>"
      using room Some v rm(1) bt_insert_last [OF below']
      by (simp add: get_identity_def next_seq_def seq_room_def)
    have "hm_get (hm_remove k (sst_entries s)) k = None" by (simp add: hm_get_remove)
    from linked_insert [OF rm(2) this below', of i d]
    have "linked (hm_insert k (i, d, sst_next_seq s) (sst_entries s)) (rs @ [(sst_next_seq s, k)])"
      using l unfolding linked_def by (auto simp: hm_get_insert hm_get_remove)
    moreover have "length (rs @ [(sst_next_seq s, k)]) = length (sst_recency s)"
      using linked_length [OF rm(2)] linked_length [OF l] hm_length_remove [of "sst_entries s" k v] l Some
      by (simp add: linked_def)
    moreover have "q < sst_next_seq s + 1" if "q \<in> fst ` set (rs @ [(sst_next_seq s, k)])" for q
    proof -
      have "q = sst_next_seq s \<or> q \<in> fst ` set (sst_recency s)" using that unfolding rs_def by auto
      then show ?thesis using room_for_next [OF ok] room unfolding seq_room_def by blast
    qed
    ultimately have "store_ok (fst (get_identity k s))"
      using ok unfolding store_ok_def by (simp add: fst_g)
    moreover have "lru_of (fst (get_identity k s)) = lru_touch k (lru_of s)"
    proof -
      have "val_of (hm_insert k (i, d, n) (sst_entries s)) k' = val_of (sst_entries s) k'" if "k' \<noteq> k" for k' n
        using that by (simp add: val_of_def hm_get_insert)
      then have "lru_of (fst (get_identity k s)) =
          map (\<lambda>(q, k). (k, val_of (sst_entries s) k)) rs @ [(k, (i, d))]"
        by (auto simp: lru_of_def fst_g rs_def val_of_def hm_get_insert)
      then show ?thesis
        using Some v by (simp add: lru_touch_def map_of_lru [OF ok])
          (simp add: lru_of_def rs_def filter_map comp_def case_prod_beta)
    qed
    ultimately show ?thesis by blast
  qed
  then show "store_ok (fst (get_identity k s))" "lru_of (fst (get_identity k s)) = lru_touch k (lru_of s)"
    by blast+
qed

lemma store_ok_empty: "store_ok (with_capacity n)"
  by (simp add: store_ok_def with_capacity_def linked_def)

text \<open>C21: the session store is an LRU cache. As long as the 64-bit recency counter has not saturated, its
  two tables implement the list of sessions in order of use: inserting moves the session to the end
  and drops the least recently used ones beyond the capacity (which is at least one), a lookup
  returns what was stored last for that session and moves it to the end, and both keep the tables
  consistent.\<close>

theorem session_store_lru:
  assumes "store_ok s" "seq_room s"
  shows "lru_of (fst (insert_with_dialect k i d s)) = lru_insert (sst_capacity s) k (i, d) (lru_of s) \<and>
    snd (insert_with_dialect k i d s) = map_option fst (map_of (lru_of s) k) \<and>
    store_ok (fst (insert_with_dialect k i d s)) \<and>
    lru_of (fst (get_identity k s)) = lru_touch k (lru_of s) \<and>
    snd (get_identity k s) = map_option fst (map_of (lru_of s) k) \<and>
    store_ok (fst (get_identity k s)) \<and>
    session_dialect k s = map_option snd (map_of (lru_of s) k) \<and>
    length (lru_of (fst (insert_with_dialect k i d s))) \<le> max (sst_capacity s) 1"
proof -
  have "session_dialect k s = map_option snd (map_of (lru_of s) k)"
    by (cases "hm_get (sst_entries s) k") (auto simp: session_dialect_def map_of_lru [OF assms(1)])
  moreover have "length (lru_insert (sst_capacity s) k (i, d) (lru_of s)) \<le> max (sst_capacity s) 1"
    by (simp add: lru_insert_def Let_def)
  ultimately show ?thesis
    using insert_refines [OF assms refl, of k i d] touch_refines [OF assms, of k] by simp
qed

theorem session_store_lru_witness:
  "lru_of (fst (insert_with_dialect ''a'' empty_identity V2025_03_26 (with_capacity 0))) =
     [(''a'', (empty_identity, V2025_03_26))]"
  using session_store_lru [OF store_ok_empty [of 0], of "''a''" empty_identity V2025_03_26]
  by (simp add: seq_room_def with_capacity_def lru_of_def lru_insert_def)

text \<open>Who the caller is. A 2026 request is identified by its own metadata and never touches the
  session store; a legacy request by its session, if it has one, and otherwise by its headers; each
  field of the structured identity wins over the header fallback, and the wire form of every
  identity reads back as itself.\<close>

theorem caller_resolution:
  "(case resolve_inbound_identity_versioned h params s of (s', who) \<Rightarrow>
     (if is_2026 (detect_inbound_dialect False (h ''mcp-protocol-version'') params)
      then s' = s \<and> who = none_if_empty (merge_identity (identity_from_meta_client_info params) (identity_from_headers h))
      else (case h ''mcp-session-id'' of
          None \<Rightarrow> s' = s \<and> who = none_if_empty (identity_from_headers h)
        | Some sid \<Rightarrow> s' = fst (get_identity sid s) \<and>
            (case hm_get (sst_entries s) sid of
               None \<Rightarrow> who = none_if_empty (identity_from_headers h)
             | Some (i, d, q) \<Rightarrow> who = none_if_empty (merge_identity i (identity_from_headers h)))))) \<and>
   (case ci_name p of Some n \<Rightarrow> ci_name (merge_identity p f) = Some n
    | None \<Rightarrow> ci_name (merge_identity p f) = ci_name f) \<and>
   deserialize_identity (serialize_identity c) = Some c"
  using identity_roundtrip [of c]
  by (auto simp: resolve_inbound_identity_versioned_def resolve_inbound_identity_def Let_def
      get_identity_def next_seq_def merge_identity_def split: option.splits)

end
