(* ===== verification/Supervision.thy ===== *)
theory Supervision
  imports Names Adapter_Core "HOL-Library.List_Lexorder" "HOL-Library.Char_ord" "HOL-Library.Multiset"
begin

text \<open>
  The pure parts of the process and connection supervisors: how a stdio endpoint is spawned
  (isolation mode, container arguments, the outcome reported to the management API), the ring
  buffer of its stderr, and the crash trackers that pace respawns (\<^verbatim>\<open>src/adapter/stdio.rs\<close>) and
  reconnects (\<^verbatim>\<open>src/adapter/sse.rs\<close>). Instants and durations are nanoseconds.
\<close>

type_synonym nanos = nat

definition seconds :: "nat \<Rightarrow> nanos" where
  "seconds n = n * 1000000000"

section \<open>Spawn plans\<close>

datatype isolation_mode = Container | Direct

definition from_config_value :: "string option \<Rightarrow> isolation_mode" where
  "from_config_value v = (case v of Some m \<Rightarrow> if m = ''container'' then Container else Direct | None \<Rightarrow> Direct)"

definition DEFAULT_CONTAINER_IMAGE :: string where
  "DEFAULT_CONTAINER_IMAGE = ''ghcr.io/endara-ai/mcp-runner:latest''"

record stdio_config =
  cfg_command :: string
  cfg_args :: "string list"
  cfg_env :: "(string, string) hashmap"
  cfg_server_type_override :: "string option"
  cfg_endpoint_name :: string
  cfg_isolation :: isolation_mode
  cfg_container_image :: "string option"
  cfg_mounts :: "string list"

definition container_name_for :: "string \<Rightarrow> string" where
  "container_name_for endpoint_name =
     ''endara-mcp-'' @ unwrap_or ''endpoint'' (sanitize_name endpoint_name)"

definition image_of :: "stdio_config \<Rightarrow> string" where
  "image_of c = unwrap_or DEFAULT_CONTAINER_IMAGE (cfg_container_image c)"

text \<open>The keys in the iteration order of the \<^verbatim>\<open>HashMap\<close>, sorted bytewise as Rust orders strings.\<close>

definition env_args :: "(string, string) hashmap \<Rightarrow> string list" where
  "env_args env = concat (map (\<lambda>k. [''-e'', k @ ''='' @ unwrap_or [] (hm_get env k)]) (sort (map fst env)))"

definition build_container_run_args :: "stdio_config \<Rightarrow> string list" where
  "build_container_run_args c =
     [''run'', ''-i'', ''--rm'', ''--name'', container_name_for (cfg_endpoint_name c)]
     @ concat (map (\<lambda>m. [''-v'', m]) (cfg_mounts c))
     @ env_args (cfg_env c)
     @ [image_of c, cfg_command c] @ cfg_args c"

definition resolve_spawn_plan :: "stdio_config \<Rightarrow> string option \<Rightarrow> string \<times> string list" where
  "resolve_spawn_plan c runtime =
     (case runtime of
        Some rt \<Rightarrow> if cfg_isolation c = Container then (rt, build_container_run_args c)
                   else (cfg_command c, cfg_args c)
      | None \<Rightarrow> (cfg_command c, cfg_args c))"

record isolation_state =
  configured :: string
  actual :: string
  iso_runtime :: "string option"
  iso_container_name :: "string option"
  iso_image :: "string option"

definition resolve_isolation_state :: "stdio_config \<Rightarrow> string option \<Rightarrow> isolation_state" where
  "resolve_isolation_state c runtime_kind =
     (let conf = (case cfg_isolation c of Container \<Rightarrow> ''container'' | Direct \<Rightarrow> ''none'');
          direct = \<lparr>configured = conf, actual = ''direct'', iso_runtime = None,
                    iso_container_name = None, iso_image = None\<rparr>
      in case runtime_kind of
           Some kind \<Rightarrow>
             if cfg_isolation c = Container
             then \<lparr>configured = conf, actual = ''container'', iso_runtime = Some kind,
                   iso_container_name = Some (container_name_for (cfg_endpoint_name c)),
                   iso_image = Some (image_of c)\<rparr>
             else direct
         | None \<Rightarrow> direct)"

text \<open>
  The runtime a spawn uses: the detector is asked only when isolation is requested
  (\<^verbatim>\<open>spawn_process\<close>); \<open>detected\<close> is its answer, a command-line path with the runtime's name.
\<close>

definition spawn_runtime :: "stdio_config \<Rightarrow> (string \<times> string) option \<Rightarrow> (string \<times> string) option" where
  "spawn_runtime c detected = (if cfg_isolation c = Container then detected else None)"

lemma mset_fst_sort:
  assumes "mset e1 = mset e2"
  shows "sort (map fst e1) = sort (map fst e2)"
proof -
  have "mset (map fst e1) = mset (map fst e2)"
    using assms by simp
  then show ?thesis
    using properties_for_sort [of "sort (map fst e2)" "map fst e1"] by simp
qed

lemma hm_get_mset:
  assumes "mset e1 = mset e2" "hm_wf e1"
  shows "hm_get e1 k = hm_get e2 k"
proof -
  have set: "set e1 = set e2"
    using assms(1) by (rule mset_eq_setD)
  have wf2: "hm_wf e2"
    using assms by (metis hm_wf_def mset_eq_imp_distinct_iff mset_map)
  have iff: "hm_get e1 k = Some v \<longleftrightarrow> hm_get e2 k = Some v" for v
    using set hm_in_set [OF assms(2)] hm_in_set [OF wf2] by metis
  show ?thesis
  proof (cases "hm_get e1 k")
    case None
    then show ?thesis using iff by (metis not_None_eq)
  next
    case (Some v)
    then show ?thesis using iff [of v] by simp
  qed
qed

lemma env_args_order:
  assumes "mset e1 = mset e2" "hm_wf e1"
  shows "env_args e1 = env_args e2"
  by (simp add: env_args_def mset_fst_sort [OF assms(1)] hm_get_mset [OF assms])

lemma env_args_passed:
  assumes "hm_get env k = Some v"
  shows "\<exists>xs ys. env_args env = xs @ [''-e'', k @ ''='' @ v] @ ys"
proof -
  have "k \<in> set (sort (map fst env))"
    using hm_get_in_set [OF assms] by force
  then obtain as bs where "sort (map fst env) = as @ k # bs"
    by (meson split_list)
  then show ?thesis
    using assms by (auto simp: env_args_def)
qed

lemma container_spawn_plan_parts:
  assumes same: "mset env' = mset (cfg_env c)" and wf: "hm_wf (cfg_env c)"
  shows "build_container_run_args (c\<lparr>cfg_env := env'\<rparr>) = build_container_run_args c"
    and "hm_get (cfg_env c) k = Some v \<Longrightarrow>
      \<exists>xs ys. build_container_run_args c = xs @ [''-e'', k @ ''='' @ v] @ ys @ [image_of c, cfg_command c] @ cfg_args c"
    and "actual (resolve_isolation_state c (map_option snd (spawn_runtime c detected))) =
      (if cfg_isolation c = Container \<and> detected \<noteq> None then ''container'' else ''direct'')"
    and "resolve_spawn_plan c (map_option fst (spawn_runtime c detected)) =
      (if actual (resolve_isolation_state c (map_option snd (spawn_runtime c detected))) = ''container''
       then (fst (the detected), build_container_run_args c) else (cfg_command c, cfg_args c))"
proof -
  have "mset (cfg_env c) = mset env'"
    using same by simp
  then show "build_container_run_args (c\<lparr>cfg_env := env'\<rparr>) = build_container_run_args c"
    using env_args_order [OF _ wf] by (simp add: build_container_run_args_def image_of_def)
next
  assume "hm_get (cfg_env c) k = Some v"
  then obtain xs ys where "env_args (cfg_env c) = xs @ [''-e'', k @ ''='' @ v] @ ys"
    using env_args_passed by blast
  then have "build_container_run_args c =
      ([''run'', ''-i'', ''--rm'', ''--name'', container_name_for (cfg_endpoint_name c)]
       @ concat (map (\<lambda>m. [''-v'', m]) (cfg_mounts c)) @ xs)
      @ [''-e'', k @ ''='' @ v] @ ys @ [image_of c, cfg_command c] @ cfg_args c"
    by (simp add: build_container_run_args_def)
  then show "\<exists>xs ys. build_container_run_args c = xs @ [''-e'', k @ ''='' @ v] @ ys @ [image_of c, cfg_command c] @ cfg_args c"
    by blast
qed (auto simp: resolve_isolation_state_def resolve_spawn_plan_def spawn_runtime_def Let_def
      split: option.splits)

text \<open>A container spawn is deterministic and complete. The argument vector does not depend on the
  iteration order of the environment map, every configured variable is passed with its value, and
  what the management API reports as the actual outcome is what was spawned: \<open>container\<close> exactly
  when the program is the runtime with the container arguments, the command itself otherwise.\<close>

theorem container_spawn_plan:
  assumes same: "mset env' = mset (cfg_env c)" and wf: "hm_wf (cfg_env c)"
  shows "build_container_run_args (c\<lparr>cfg_env := env'\<rparr>) = build_container_run_args c \<and>
    (hm_get (cfg_env c) k = Some v \<longrightarrow>
      (\<exists>xs ys. build_container_run_args c = xs @ [''-e'', k @ ''='' @ v] @ ys @ [image_of c, cfg_command c] @ cfg_args c)) \<and>
    actual (resolve_isolation_state c (map_option snd (spawn_runtime c detected))) =
      (if cfg_isolation c = Container \<and> detected \<noteq> None then ''container'' else ''direct'') \<and>
    resolve_spawn_plan c (map_option fst (spawn_runtime c detected)) =
      (if actual (resolve_isolation_state c (map_option snd (spawn_runtime c detected))) = ''container''
       then (fst (the detected), build_container_run_args c) else (cfg_command c, cfg_args c))"
  using container_spawn_plan_parts [OF assms] by blast

definition sample_config :: stdio_config where
  "sample_config = \<lparr>cfg_command = ''srv'', cfg_args = [''-x''], cfg_env = [(''B'', ''2''), (''A'', ''1'')],
     cfg_server_type_override = None, cfg_endpoint_name = ''My Srv'', cfg_isolation = Container,
     cfg_container_image = None, cfg_mounts = []\<rparr>"

theorem container_spawn_plan_witness:
  "build_container_run_args (sample_config\<lparr>cfg_env := [(''A'', ''1''), (''B'', ''2'')]\<rparr>) =
     build_container_run_args sample_config"
  by (rule container_spawn_plan [THEN conjunct1]) (simp_all add: sample_config_def hm_wf_def)

section \<open>The stderr ring buffer\<close>

record ring_buffer =
  rb_lines :: "string list"
  rb_capacity :: nat
  rb_write_pos :: nat
  rb_count :: nat

definition ring_new :: "nat \<Rightarrow> ring_buffer" where
  "ring_new capacity = \<lparr>rb_lines = replicate capacity [], rb_capacity = capacity, rb_write_pos = 0, rb_count = 0\<rparr>"

text \<open>
  The source indexes with \<open>write_pos\<close> and takes it modulo the capacity, so a zero capacity panics;
  the adapter uses 1000.
\<close>

definition ring_push :: "string \<Rightarrow> ring_buffer \<Rightarrow> ring_buffer" where
  "ring_push line b = b\<lparr>rb_lines := (rb_lines b)[rb_write_pos b := line],
     rb_write_pos := (rb_write_pos b + 1) mod rb_capacity b,
     rb_count := (if rb_count b < rb_capacity b then rb_count b + 1 else rb_count b)\<rparr>"

definition ring_lines :: "ring_buffer \<Rightarrow> string list" where
  "ring_lines b =
     (if rb_count b < rb_capacity b then take (rb_count b) (rb_lines b)
      else map (\<lambda>i. rb_lines b ! ((rb_write_pos b + i) mod rb_capacity b)) [0..<rb_capacity b])"

definition STDERR_CAPACITY :: nat where
  "STDERR_CAPACITY = 1000"

definition ring_ok :: "nat \<Rightarrow> ring_buffer \<Rightarrow> bool" where
  "ring_ok n b = (rb_capacity b = n \<and> length (rb_lines b) = n \<and> rb_count b \<le> n \<and>
     rb_write_pos b < n \<and> (rb_count b < n \<longrightarrow> rb_write_pos b = rb_count b))"

lemma ring_ok_new: "0 < n \<Longrightarrow> ring_ok n (ring_new n)"
  by (simp add: ring_ok_def ring_new_def)

lemma ring_ok_push: "ring_ok n b \<Longrightarrow> ring_ok n (ring_push x b)"
  by (auto simp: ring_ok_def ring_push_def mod_Suc)

lemma length_ring_lines: "ring_ok n b \<Longrightarrow> length (ring_lines b) = rb_count b"
  by (auto simp: ring_ok_def ring_lines_def)

lemma mod_next: "p < n \<Longrightarrow> i < n \<Longrightarrow> ((p + 1) mod n + i) mod n = (p + Suc i) mod (n::nat)"
  by (simp add: mod_simps)

lemma mod_hits_start:
  assumes "p < n" "0 < i" "i < (n::nat)"
  shows "(p + i) mod n \<noteq> p"
proof
  assume "(p + i) mod n = p"
  then have "(p + i) mod n = p mod n" using assms by simp
  then have "n dvd i" by (simp add: mod_eq_dvd_iff_nat)
  then show False using assms by (auto dest: dvd_imp_le)
qed

lemma ring_lines_push:
  assumes ok: "ring_ok n b"
  shows "ring_lines (ring_push x b) =
    (if length (ring_lines b) < n then ring_lines b else tl (ring_lines b)) @ [x]"
proof (cases "rb_count b < n")
  case not_full: True
  then have pos: "rb_write_pos b = rb_count b" and len: "length (rb_lines b) = n" and cap: "rb_capacity b = n"
    using ok by (auto simp: ring_ok_def)
  have old: "ring_lines b = take (rb_count b) (rb_lines b)"
    using not_full cap by (simp add: ring_lines_def)
  have new: "take (rb_count b + 1) ((rb_lines b)[rb_count b := x]) = take (rb_count b) (rb_lines b) @ [x]"
    using not_full len by (simp add: take_Suc_conv_app_nth)
  have "ring_lines (ring_push x b) = take (rb_count b + 1) ((rb_lines b)[rb_count b := x])"
  proof (cases "rb_count b + 1 < n")
    case True
    then show ?thesis using not_full cap pos by (simp add: ring_lines_def ring_push_def)
  next
    case False
    with not_full have last: "rb_count b + 1 = n" by simp
    then have "ring_lines (ring_push x b) = map (\<lambda>i. (rb_lines b)[rb_count b := x] ! (i mod n)) [0..<n]"
      using cap pos by (simp add: ring_lines_def ring_push_def)
    also have "\<dots> = map (\<lambda>i. (rb_lines b)[rb_count b := x] ! i) [0..<n]"
      by (rule map_cong) auto
    also have "\<dots> = (rb_lines b)[rb_count b := x]"
      using len by (metis length_list_update map_nth)
    finally show ?thesis using last len by simp
  qed
  with old new length_ring_lines [OF ok] not_full show ?thesis by simp
next
  case full: False
  then have count: "rb_count b = n" and len: "length (rb_lines b) = n" and cap: "rb_capacity b = n"
    and pos: "rb_write_pos b < n"
    using ok by (auto simp: ring_ok_def)
  let ?p = "rb_write_pos b"
  have old: "ring_lines b = map (\<lambda>i. rb_lines b ! ((?p + i) mod n)) [0..<n]"
    using count cap by (simp add: ring_lines_def)
  have new: "ring_lines (ring_push x b) =
      map (\<lambda>i. (rb_lines b)[?p := x] ! (((?p + 1) mod n + i) mod n)) [0..<n]"
    using count cap by (simp add: ring_lines_def ring_push_def)
  have "ring_lines (ring_push x b) = tl (ring_lines b) @ [x]"
  proof (rule nth_equalityI)
    show "length (ring_lines (ring_push x b)) = length (tl (ring_lines b) @ [x])"
      using pos by (simp add: old new)
  next
    fix i assume "i < length (ring_lines (ring_push x b))"
    then have i: "i < n" by (simp add: new)
    have lhs: "ring_lines (ring_push x b) ! i = (rb_lines b)[?p := x] ! ((?p + Suc i) mod n)"
      using i mod_next [OF pos i] by (simp add: new)
    show "ring_lines (ring_push x b) ! i = (tl (ring_lines b) @ [x]) ! i"
    proof (cases "Suc i < n")
      case True
      then have "(?p + Suc i) mod n \<noteq> ?p"
        using pos mod_hits_start [of ?p n "Suc i"] by simp
      moreover have "i < n - Suc 0" using True by simp
      ultimately show ?thesis using True lhs by (simp add: old nth_append nth_tl)
    next
      case False
      with i have "Suc i = n" by simp
      then have "(?p + Suc i) mod n = ?p" using pos by simp
      moreover have "i = n - Suc 0" using False i by simp
      ultimately show ?thesis using lhs len pos by (simp add: old nth_append)
    qed
  qed
  then show ?thesis using count length_ring_lines [OF ok] by simp
qed

interpretation stderr: bounded_queue ring_push ring_lines STDERR_CAPACITY "ring_ok STDERR_CAPACITY"
proof unfold_locales
  show "0 < STDERR_CAPACITY" by (simp add: STDERR_CAPACITY_def)
next
  fix q assume "ring_ok STDERR_CAPACITY q"
  then show "length (ring_lines q) \<le> STDERR_CAPACITY"
    by (simp add: length_ring_lines) (simp add: ring_ok_def)
qed (simp_all add: ring_ok_push ring_lines_push)

text \<open>After any number of lines the adapter's stderr buffer holds the last 1000 of them, in
  order.\<close>

theorem stderr_keeps_last:
  "ring_lines (fold ring_push xs (ring_new STDERR_CAPACITY)) = drop (length xs - STDERR_CAPACITY) xs"
proof -
  have ok: "ring_ok STDERR_CAPACITY (ring_new STDERR_CAPACITY)"
    by (rule ring_ok_new) (simp add: STDERR_CAPACITY_def)
  have "ring_lines (ring_new STDERR_CAPACITY) = []"
    by (simp add: ring_lines_def ring_new_def STDERR_CAPACITY_def)
  with stderr.elems_fold [OF ok, of xs] show ?thesis by simp
qed

section \<open>The crash tracker of the respawn supervisor\<close>

record crash_tracker =
  ct_timestamps :: "nanos list"
  consecutive_crashes :: u32
  last_crash :: "nanos option"
  backoff_unit :: nanos

definition crash_new :: crash_tracker where
  "crash_new = \<lparr>ct_timestamps = [], consecutive_crashes = 0, last_crash = None, backoff_unit = seconds 1\<rparr>"

definition backoff_units :: "u32 \<Rightarrow> nat" where
  "backoff_units streak =
     (if streak = 0 \<or> streak = 1 then 1 else if streak = 2 then 2 else if streak = 3 then 4
      else if streak = 4 then 8 else 60)"

definition backoff_for :: "u32 \<Rightarrow> crash_tracker \<Rightarrow> nanos" where
  "backoff_for streak t = backoff_unit t * backoff_units streak"

definition stability_interval :: "crash_tracker \<Rightarrow> nanos" where
  "stability_interval t = backoff_unit t * 120"

text \<open>
  \<^verbatim>\<open>now - 60s\<close>: instants are relative to the origin of the clock, and an instant before it keeps
  every timestamp, as the truncated subtraction does.
\<close>

definition record_crash :: "nanos \<Rightarrow> crash_tracker \<Rightarrow> crash_tracker \<times> bool \<times> nanos" where
  "record_crash now t =
     (let streak = (case last_crash t of
                      Some prev \<Rightarrow> if stability_interval t \<le> now - prev then 0 else consecutive_crashes t
                    | None \<Rightarrow> consecutive_crashes t);
          backoff = backoff_for streak t;
          kept = filter (\<lambda>ts. now - seconds 60 \<le> ts) (ct_timestamps t @ [now])
      in (t\<lparr>ct_timestamps := kept, consecutive_crashes := streak + 1, last_crash := Some now\<rparr>,
          3 \<le> length kept, backoff))"

definition crash_reset :: "crash_tracker \<Rightarrow> crash_tracker" where
  "crash_reset t = t\<lparr>consecutive_crashes := 0, last_crash := None\<rparr>"

definition calculate_backoff :: "u32 \<Rightarrow> nanos" where
  "calculate_backoff n = seconds (backoff_units n)"

text \<open>A run of crashes at the given times, with the verdicts.\<close>

fun crash_run :: "nanos list \<Rightarrow> crash_tracker \<Rightarrow> crash_tracker \<times> (bool \<times> nanos) list" where
  "crash_run [] t = (t, [])"
| "crash_run (now # ts) t =
     (let (t', v) = record_crash now t; (t'', vs) = crash_run ts t' in (t'', v # vs))"

definition crash_verdicts :: "nanos list \<Rightarrow> crash_tracker \<Rightarrow> (bool \<times> nanos) list" where
  "crash_verdicts ts t = snd (crash_run ts t)"

lemma crash_verdicts_simps [simp]:
  "crash_verdicts [] t = []"
  "crash_verdicts (now # ts) t = snd (record_crash now t) # crash_verdicts ts (fst (record_crash now t))"
  by (auto simp: crash_verdicts_def Let_def split: prod.splits)

lemma length_crash_verdicts [simp]: "length (crash_verdicts ts t) = length ts"
  by (induction ts arbitrary: t) auto

text \<open>The crashes of a streak: each less than a stability interval after the one before.\<close>

fun in_streak :: "nanos \<Rightarrow> nanos list \<Rightarrow> bool" where
  "in_streak d [] = True"
| "in_streak d [x] = True"
| "in_streak d (x # y # ts) = (y - x < d \<and> in_streak d (y # ts))"

lemma crash_streak_step:
  assumes "case last_crash t of Some l \<Rightarrow> now - l < stability_interval t | None \<Rightarrow> True"
  shows "snd (snd (record_crash now t)) = backoff_for (consecutive_crashes t) t"
    and "consecutive_crashes (fst (record_crash now t)) = consecutive_crashes t + 1"
    and "last_crash (fst (record_crash now t)) = Some now"
    and "backoff_unit (fst (record_crash now t)) = backoff_unit t"
  using assms by (auto simp: record_crash_def Let_def split: option.splits)

lemma crash_streak_delays:
  assumes "in_streak (stability_interval t) (case last_crash t of Some l \<Rightarrow> l # ts | None \<Rightarrow> ts)"
  shows "map snd (crash_verdicts ts t) =
    map (\<lambda>i. backoff_unit t * backoff_units (consecutive_crashes t + of_nat i)) [0..<length ts]"
  using assms
proof (induction ts arbitrary: t)
  case Nil
  then show ?case by simp
next
  case (Cons now ts)
  let ?t = "fst (record_crash now t)"
  have gap: "case last_crash t of Some l \<Rightarrow> now - l < stability_interval t | None \<Rightarrow> True"
    using Cons.prems by (cases "last_crash t") auto
  note step = crash_streak_step [OF gap]
  have "in_streak (stability_interval ?t) (now # ts)"
    using Cons.prems step(4) by (cases "last_crash t") (auto simp: stability_interval_def)
  then have IH: "map snd (crash_verdicts ts ?t) =
      map (\<lambda>i. backoff_unit ?t * backoff_units (consecutive_crashes ?t + of_nat i)) [0..<length ts]"
    using Cons.IH [of ?t] step(3) by simp
  have "map (\<lambda>i. f (i + 1)) [0..<length ts] = map f [1..<length (now # ts)]" for f :: "nat \<Rightarrow> nat"
  proof -
    have "map (\<lambda>i. f (i + 1)) [0..<length ts] = map f (map Suc [0..<length ts])" by simp
    then show ?thesis by (simp only: map_Suc_upt) simp
  qed
  from this [of "\<lambda>i. backoff_unit t * backoff_units (consecutive_crashes t + of_nat i)"]
  have shift: "map (\<lambda>i. backoff_unit t * backoff_units (consecutive_crashes t + 1 + of_nat i)) [0..<length ts] =
      map (\<lambda>i. backoff_unit t * backoff_units (consecutive_crashes t + of_nat i)) [1..<length (now # ts)]"
    by (simp add: add.assoc)
  have "[0..<length (now # ts)] = 0 # [1..<length (now # ts)]"
    by (simp add: upt_rec)
  then show ?case
    using IH step shift by (simp add: backoff_for_def)
qed

lemma crash_window_step:
  assumes "ct_timestamps t = filter (\<lambda>x. now0 - seconds 60 \<le> x) past" "now0 \<le> now"
  shows "ct_timestamps (fst (record_crash now t)) = filter (\<lambda>x. now - seconds 60 \<le> x) (past @ [now])"
    and "fst (snd (record_crash now t)) = (3 \<le> length (filter (\<lambda>x. now - seconds 60 \<le> x) (past @ [now])))"
proof -
  have "filter (\<lambda>x. now - seconds 60 \<le> x) (filter (\<lambda>x. now0 - seconds 60 \<le> x) past) =
      filter (\<lambda>x. now - seconds 60 \<le> x) past"
    unfolding filter_filter using assms(2) by (intro filter_cong) auto
  with assms(1)
  show "ct_timestamps (fst (record_crash now t)) = filter (\<lambda>x. now - seconds 60 \<le> x) (past @ [now])"
    and "fst (snd (record_crash now t)) = (3 \<le> length (filter (\<lambda>x. now - seconds 60 \<le> x) (past @ [now])))"
    by (simp_all add: record_crash_def Let_def)
qed

lemma crash_window:
  assumes "sorted (now0 # ts)" and "ct_timestamps t = filter (\<lambda>x. now0 - seconds 60 \<le> x) past"
    and "i < length ts"
  shows "fst (crash_verdicts ts t ! i) =
    (3 \<le> length (filter (\<lambda>x. ts ! i - seconds 60 \<le> x) (past @ take (Suc i) ts)))"
  using assms
proof (induction ts arbitrary: t past now0 i)
  case Nil
  then show ?case by simp
next
  case (Cons now ts)
  have le: "now0 \<le> now" using Cons.prems(1) by simp
  note step = crash_window_step [OF Cons.prems(2) le]
  show ?case
  proof (cases i)
    case 0
    then show ?thesis using step(2) by simp
  next
    case (Suc j)
    have "sorted (now # ts)" using Cons.prems(1) by simp
    then have "fst (crash_verdicts ts (fst (record_crash now t)) ! j) =
        (3 \<le> length (filter (\<lambda>x. ts ! j - seconds 60 \<le> x) ((past @ [now]) @ take (Suc j) ts)))"
      using Cons.IH [OF _ step(1)] Cons.prems(3) Suc by simp
    then show ?thesis using Suc by simp
  qed
qed

lemma u32_of_nat: "n < 2 ^ 32 \<Longrightarrow> unat (of_nat n :: u32) = n"
  by (simp add: unat_of_nat take_bit_nat_eq_self)

lemma u32_of_nat_inject:
  assumes "m < 2 ^ 32" "n < 2 ^ 32"
  shows "(of_nat m :: u32) = of_nat n \<longleftrightarrow> m = n"
  using u32_of_nat [OF assms(1)] u32_of_nat [OF assms(2)] by metis

lemma crash_tracker_spec_parts:
  assumes "i < length ts" "sorted ts" "length ts < 2 ^ 32"
  shows "in_streak (seconds 120) ts \<Longrightarrow>
      snd (crash_verdicts ts crash_new ! i) = seconds (if i < 5 then [1, 1, 2, 4, 8] ! i else 60)"
    and "fst (crash_verdicts ts crash_new ! i) =
      (3 \<le> length (filter (\<lambda>x. ts ! i - seconds 60 \<le> x) (take (Suc i) ts)))"
proof -
  assume "in_streak (seconds 120) ts"
  moreover have "stability_interval crash_new = seconds 120"
    by (simp add: stability_interval_def crash_new_def seconds_def)
  ultimately have "map snd (crash_verdicts ts crash_new) =
      map (\<lambda>i. backoff_unit crash_new * backoff_units (consecutive_crashes crash_new + of_nat i)) [0..<length ts]"
    by (intro crash_streak_delays) (simp add: crash_new_def)
  then have "map snd (crash_verdicts ts crash_new) ! i = seconds 1 * backoff_units (of_nat i)"
    using assms(1) by (simp add: crash_new_def)
  then have "snd (crash_verdicts ts crash_new ! i) = seconds 1 * backoff_units (of_nat i)"
    using assms(1) by simp
  moreover have "backoff_units (of_nat i) = (if i < 5 then [1, 1, 2, 4, 8] ! i else 60)"
  proof (cases "i < 5")
    case True
    then have "i = 0 \<or> i = 1 \<or> i = 2 \<or> i = 3 \<or> i = 4" by auto
    then show ?thesis by (auto simp: backoff_units_def)
  next
    case False
    have "(of_nat i :: u32) \<noteq> of_nat k" if "k < 5" for k
      using False that assms(1,3) u32_of_nat_inject [of i k] by simp
    from this [of 0] this [of 1] this [of 2] this [of 3] this [of 4] False
    show ?thesis by (simp add: backoff_units_def)
  qed
  ultimately show "snd (crash_verdicts ts crash_new ! i) = seconds (if i < 5 then [1, 1, 2, 4, 8] ! i else 60)"
    by (simp add: seconds_def)
next
  have "sorted (0 # ts)" using assms(2) by simp
  then show "fst (crash_verdicts ts crash_new ! i) =
      (3 \<le> length (filter (\<lambda>x. ts ! i - seconds 60 \<le> x) (take (Suc i) ts)))"
    using crash_window [of 0 ts crash_new "[]" i] assms(1) by (simp add: crash_new_def)
qed

text \<open>The pacing of respawns. From a fresh tracker, for crashes at increasing times (fewer than
  2^32 of them): while the crashes of the run stay less than two minutes apart the waits are
  1, 1, 2, 4, 8 and then 60 seconds; and a crash is reported as a crash loop exactly when it is at
  least the third within the last 60 seconds.\<close>

theorem crash_tracker_spec:
  assumes "i < length ts" "sorted ts" "length ts < 2 ^ 32"
  shows "(in_streak (seconds 120) ts \<longrightarrow>
      snd (crash_verdicts ts crash_new ! i) = seconds (if i < 5 then [1, 1, 2, 4, 8] ! i else 60)) \<and>
    fst (crash_verdicts ts crash_new ! i) =
      (3 \<le> length (filter (\<lambda>x. ts ! i - seconds 60 \<le> x) (take (Suc i) ts)))"
  using crash_tracker_spec_parts [OF assms] by blast

theorem crash_tracker_spec_witness:
  "snd (crash_verdicts [0, seconds 2, seconds 4] crash_new ! 2) = seconds 2 \<and>
   fst (crash_verdicts [0, seconds 2, seconds 4] crash_new ! 2)"
  using crash_tracker_spec [of 2 "[0, seconds 2, seconds 4]"] by (simp_all add: seconds_def)

section \<open>The failure tracker of the reconnect supervisors\<close>

record failure_tracker =
  ft_timestamps :: "nanos list"
  consecutive_failures :: u32
  failure_window :: nanos
  max_failures_in_window :: nat
  base_backoff :: nanos

definition failure_new :: failure_tracker where
  "failure_new = \<lparr>ft_timestamps = [], consecutive_failures = 0, failure_window = seconds 60,
     max_failures_in_window = 3, base_backoff = seconds 1\<rparr>"

definition record_failure :: "nanos \<Rightarrow> failure_tracker \<Rightarrow> failure_tracker \<times> bool" where
  "record_failure now t =
     (let cutoff = (if failure_window t \<le> now then now - failure_window t else now);
          kept = filter (\<lambda>ts. cutoff \<le> ts) (ft_timestamps t @ [now])
      in (t\<lparr>consecutive_failures := consecutive_failures t + 1, ft_timestamps := kept\<rparr>,
          max_failures_in_window t \<le> length kept))"

definition backoff_duration :: "failure_tracker \<Rightarrow> nanos" where
  "backoff_duration t =
     base_backoff t *
     (let n = consecutive_failures t in
      if n = 0 \<or> n = 1 then 1 else if n = 2 then 2 else if n = 3 then 4 else if n = 4 then 8
      else if n = 5 then 16 else if n = 6 then 32 else 60)"

definition failure_reset :: "failure_tracker \<Rightarrow> failure_tracker" where
  "failure_reset t = t\<lparr>consecutive_failures := 0, ft_timestamps := []\<rparr>"

text \<open>What both supervisors do on a failed attempt: record it, then wait \<open>backoff_duration\<close>.\<close>

fun failure_delays :: "nanos list \<Rightarrow> failure_tracker \<Rightarrow> nanos list" where
  "failure_delays [] t = []"
| "failure_delays (now # ts) t =
     (let (t', cap) = record_failure now t in backoff_duration t' # failure_delays ts t')"

lemma failure_delays_len [simp]: "length (failure_delays ts t) = length ts"
  by (induction ts arbitrary: t) (auto simp: Let_def split: prod.splits)

lemma failure_delays_nth:
  "i < length ts \<Longrightarrow> failure_delays ts t ! i =
     backoff_duration (t\<lparr>consecutive_failures := consecutive_failures t + of_nat (Suc i)\<rparr>)"
proof (induction ts arbitrary: t i)
  case Nil
  then show ?case by simp
next
  case (Cons now ts)
  show ?case
  proof (cases i)
    case 0
    then show ?thesis by (simp add: record_failure_def backoff_duration_def Let_def)
  next
    case (Suc j)
    let ?t = "fst (record_failure now t)"
    have same: "?t\<lparr>consecutive_failures := n\<rparr> = t\<lparr>consecutive_failures := n, ft_timestamps := ft_timestamps ?t\<rparr>" for n
      by (simp add: record_failure_def Let_def)
    have "failure_delays (now # ts) t ! i = failure_delays ts ?t ! j"
      using Suc by (simp add: Let_def split: prod.splits)
    also have "\<dots> = backoff_duration (?t\<lparr>consecutive_failures := consecutive_failures ?t + of_nat (Suc j)\<rparr>)"
      using Cons.IH [of j ?t] Cons.prems Suc by simp
    also have "consecutive_failures ?t + of_nat (Suc j) = consecutive_failures t + of_nat (Suc i)"
      using Suc by (simp add: record_failure_def Let_def)
    finally show ?thesis by (simp only: same) (simp add: backoff_duration_def)
  qed
qed

text \<open>The waits between reconnect attempts: 1, 2, 4, 8, 16, 32 seconds and 60 from the seventh
  consecutive failure on. A failure is recorded before its wait is computed, so the schedule starts
  at the second entry of the documented one (1, 1, 2, 4, 8, 16, 32, then 60 from the eighth).\<close>

theorem reconnect_schedule:
  assumes "i < length ts" "length ts < 2 ^ 32"
  shows "failure_delays ts failure_new ! i =
    seconds (if i < 6 then [1, 2, 4, 8, 16, 32] ! i else 60)"
proof -
  have eq: "failure_delays ts failure_new ! i = backoff_duration (failure_new\<lparr>consecutive_failures := of_nat (Suc i)\<rparr>)"
    using failure_delays_nth [OF assms(1), of failure_new] by (simp add: failure_new_def)
  show ?thesis
  proof (cases "i < 6")
    case True
    then have "i = 0 \<or> i = 1 \<or> i = 2 \<or> i = 3 \<or> i = 4 \<or> i = 5" by auto
    then show ?thesis unfolding eq by (auto simp: backoff_duration_def failure_new_def seconds_def)
  next
    case False
    have "(of_nat (Suc i) :: u32) \<noteq> of_nat k" if "k \<le> 6" for k
      using False that assms u32_of_nat_inject [of "Suc i" k] by (simp del: of_nat_Suc)
    from this [of 0] this [of 1] this [of 2] this [of 3] this [of 4] this [of 5] this [of 6] False
    have "backoff_duration (failure_new\<lparr>consecutive_failures := of_nat (Suc i)\<rparr>) = base_backoff failure_new * 60"
      by (simp only: backoff_duration_def failure_new_def Let_def of_nat_0 of_nat_1 of_nat_numeral) simp
    then show ?thesis unfolding eq using False by (simp add: failure_new_def seconds_def)
  qed
qed

theorem reconnect_schedule_witness:
  "failure_delays [0, 1, 2, 3, 4, 5, 6] failure_new ! 6 = seconds 60"
  using reconnect_schedule [of 6 "[0, 1, 2, 3, 4, 5, 6]"] by simp

end
