(* ===== verification/Stdio_Lifecycle.thy ===== *)
theory Stdio_Lifecycle
  imports Supervision
begin

text \<open>
  The lifecycle of a stdio endpoint (\<^verbatim>\<open>src/adapter/stdio.rs\<close>): the child process, its reader's
  end-of-file hook, the respawn supervisor, and \<^verbatim>\<open>initialize\<close> and \<^verbatim>\<open>shutdown\<close>, interleaved. Every
  atomic operation and every critical section is one step of a task; the program counters of the
  tasks (\<open>task\<close>) and of the lifecycle caller (\<open>life\<close>) carry the local variables the source keeps
  across its awaits. The operating system's processes (\<open>running\<close>) and the reader tasks (\<open>readers\<close>)
  are part of the state. A lifecycle call runs to completion (the methods take \<^verbatim>\<open>&mut self\<close>), and
  a process dies when it is killed.
\<close>

section \<open>State\<close>

definition NO_PENDING_EOF :: u64 where
  "NO_PENDING_EOF = - 1"

definition UNHEALTHY_REASON :: string where
  "UNHEALTHY_REASON = ''3+ crashes in 60 seconds''"

record stdio =
  child :: "nat option"
  stdin_writer :: "nat option"
  stdout_handle :: "nat option"
  stdio_health :: health_status
  crash_state :: crash_tracker
  shutdown_requested :: bool
  stdio_gen :: u64
  pending_eof_gen :: u64
  respawning :: bool
  tools_ticks :: nat
  running :: "nat list"
  readers :: "(nat \<times> u64) list"
  next_pid :: nat

definition new_stdio :: stdio where
  "new_stdio = \<lparr>child = None, stdin_writer = None, stdout_handle = None, stdio_health = Stopped,
     crash_state = crash_new, shutdown_requested = False, stdio_gen = 0,
     pending_eof_gen = NO_PENDING_EOF, respawning = False, tools_ticks = 0, running = [],
     readers = [], next_pid = 0\<rparr>"

definition kill_pid :: "nat \<Rightarrow> stdio \<Rightarrow> stdio" where
  "kill_pid pid s = s\<lparr>running := removeAll pid (running s)\<rparr>"

definition abort_reader :: "nat \<Rightarrow> stdio \<Rightarrow> stdio" where
  "abort_reader pid s = s\<lparr>readers := filter (\<lambda>r. fst r \<noteq> pid) (readers s)\<rparr>"

section \<open>Critical sections\<close>

text \<open>The health write at the top of \<^verbatim>\<open>spawn_process\<close>, under the write lock.\<close>

definition spawn_starting :: "stdio \<Rightarrow> stdio" where
  "spawn_starting s =
     (let keep_unhealthy = (respawning s \<and> (case stdio_health s of Unhealthy _ \<Rightarrow> True | _ \<Rightarrow> False))
      in if \<not> shutdown_requested s \<and> \<not> keep_unhealthy then s\<lparr>stdio_health := Starting\<rparr> else s)"

text \<open>The process starts and its reader task, tagged with the spawn's generation, with it.\<close>

definition spawn_child :: "u64 \<Rightarrow> stdio \<Rightarrow> stdio \<times> nat" where
  "spawn_child spawn_gen s =
     (let pid = next_pid s in
      (s\<lparr>running := pid # running s, readers := (pid, spawn_gen) # readers s, next_pid := pid + 1\<rparr>, pid))"

text \<open>The install at the end of \<^verbatim>\<open>spawn_process\<close>, under the child lock: \<open>None\<close> when the generation moved.
  A child already in the slot is dropped, not killed.\<close>

definition spawn_install :: "u64 \<Rightarrow> nat \<Rightarrow> stdio \<Rightarrow> stdio option" where
  "spawn_install spawn_gen pid s =
     (if stdio_gen s \<noteq> spawn_gen then None
      else Some (s\<lparr>child := Some pid, stdin_writer := Some pid, stdout_handle := Some pid\<rparr>))"

definition spawn_discard :: "nat \<Rightarrow> stdio \<Rightarrow> stdio" where
  "spawn_discard pid s = kill_pid pid (abort_reader pid s)"

definition write_health_if_current :: "u64 \<Rightarrow> health_status \<Rightarrow> stdio \<Rightarrow> stdio" where
  "write_health_if_current expected status s =
     (if stdio_gen s = expected \<and> \<not> shutdown_requested s then s\<lparr>stdio_health := status\<rparr> else s)"

definition kill_child_quiet :: "stdio \<Rightarrow> stdio" where
  "kill_child_quiet s =
     (case child s of None \<Rightarrow> s | Some pid \<Rightarrow> kill_pid pid (s\<lparr>child := None\<rparr>))"

section \<open>Tasks\<close>

text \<open>
  The program counters of the end-of-file hook and the supervisor it may start. The first argument
  is the generation the task acts for; in a spawn the second is the generation \<^verbatim>\<open>spawn_process\<close>
  loaded at entry.
\<close>

datatype task =
    HookFlag u64 | HookGen u64 | HookSwap u64 | HookStore u64 | HookRetry u64 | HookErase u64
  | Gate u64 | LoopFlag u64 | LoopGen u64 | Record u64 | Mark u64 | Sleeping u64 | Claim u64
  | Reap u64 | DropStdin u64 | Join u64 | SpawnEnter u64
  | SpawnStart u64 u64 | Exec u64 u64 | Install u64 u64 nat | Discard u64 nat
  | Handshake u64 | Commit u64 | After u64 | Clear | Rearm | Finished

fun maybe_start_respawn_supervisor :: "task \<Rightarrow> stdio \<Rightarrow> stdio \<times> task" where
  "maybe_start_respawn_supervisor (HookFlag g) s = (s, if shutdown_requested s then Finished else HookGen g)"
| "maybe_start_respawn_supervisor (HookGen g) s = (s, if stdio_gen s \<noteq> g then Finished else HookSwap g)"
| "maybe_start_respawn_supervisor (HookSwap g) s =
     (s\<lparr>respawning := True\<rparr>, if respawning s then HookStore g else Gate g)"
| "maybe_start_respawn_supervisor (HookStore g) s = (s\<lparr>pending_eof_gen := g\<rparr>, HookRetry g)"
| "maybe_start_respawn_supervisor (HookRetry g) s =
     (s\<lparr>respawning := True\<rparr>, if respawning s then Finished else HookErase g)"
| "maybe_start_respawn_supervisor (HookErase g) s = (s\<lparr>pending_eof_gen := NO_PENDING_EOF\<rparr>, Gate g)"
| "maybe_start_respawn_supervisor (Gate g) s = (s, if stdio_health s = Healthy then LoopFlag g else Clear)"
| "maybe_start_respawn_supervisor Clear s = (s\<lparr>respawning := False\<rparr>, Rearm)"
| "maybe_start_respawn_supervisor Rearm s =
     (s\<lparr>pending_eof_gen := NO_PENDING_EOF\<rparr>,
      if pending_eof_gen s \<noteq> NO_PENDING_EOF then HookFlag (pending_eof_gen s) else Finished)"
| "maybe_start_respawn_supervisor t s = (s, t)"

text \<open>One respawn attempt. \<open>good\<close> is the outcome of the spawn or of the handshake.\<close>

fun respawn_once :: "bool \<Rightarrow> task \<Rightarrow> stdio \<Rightarrow> stdio \<times> task" where
  "respawn_once good (Reap a) s = (kill_child_quiet s, DropStdin a)"
| "respawn_once good (DropStdin a) s = (s\<lparr>stdin_writer := None\<rparr>, Join a)"
| "respawn_once good (Join a) s = (s\<lparr>stdout_handle := None\<rparr>, SpawnEnter a)"
| "respawn_once good (SpawnEnter a) s = (s, SpawnStart a (stdio_gen s))"
| "respawn_once good (SpawnStart a g) s = (spawn_starting s, Exec a g)"
| "respawn_once good (Exec a g) s =
     (if good then (let (s', pid) = spawn_child g s in (s', Install a g pid)) else (s, LoopFlag a))"
| "respawn_once good (Install a g pid) s =
     (case spawn_install g pid s of Some s' \<Rightarrow> (s', Handshake a) | None \<Rightarrow> (s, Discard a pid))"
| "respawn_once good (Discard a pid) s = (spawn_discard pid s, LoopFlag a)"
| "respawn_once good (Handshake a) s = (s, if good then Commit a else LoopFlag a)"
| "respawn_once good (Commit a) s = (write_health_if_current a Healthy s, After a)"
| "respawn_once good t s = (s, t)"

fun run_respawn_supervisor :: "nanos \<Rightarrow> task \<Rightarrow> stdio \<Rightarrow> stdio \<times> task" where
  "run_respawn_supervisor now (LoopFlag g) s = (s, if shutdown_requested s then Clear else LoopGen g)"
| "run_respawn_supervisor now (LoopGen g) s = (s, if stdio_gen s \<noteq> g then Clear else Record g)"
| "run_respawn_supervisor now (Record g) s =
     (let (t, unhealthy, backoff) = record_crash now (crash_state s)
      in (s\<lparr>crash_state := t\<rparr>, if unhealthy then Mark g else Sleeping g))"
| "run_respawn_supervisor now (Mark g) s =
     (write_health_if_current g (Unhealthy UNHEALTHY_REASON) s, Sleeping g)"
| "run_respawn_supervisor now (Sleeping g) s = (s, if shutdown_requested s then Clear else Claim g)"
| "run_respawn_supervisor now (Claim g) s =
     (if stdio_gen s = g then (s\<lparr>stdio_gen := g + 1\<rparr>, Reap (g + 1)) else (s, Clear))"
| "run_respawn_supervisor now (After a) s =
     (if shutdown_requested s \<or> stdio_gen s \<noteq> a then (s, Clear)
      else (s\<lparr>tools_ticks := tools_ticks s + 1\<rparr>, Clear))"
| "run_respawn_supervisor now t s = (s, t)"

text \<open>The step of a task: the function that owns its program counter.\<close>

fun in_hook :: "task \<Rightarrow> bool" where
  "in_hook (HookFlag g) = True" | "in_hook (HookGen g) = True" | "in_hook (HookSwap g) = True"
| "in_hook (HookStore g) = True" | "in_hook (HookRetry g) = True" | "in_hook (HookErase g) = True"
| "in_hook (Gate g) = True" | "in_hook Clear = True" | "in_hook Rearm = True" | "in_hook _ = False"

fun in_attempt :: "task \<Rightarrow> bool" where
  "in_attempt (Reap a) = True" | "in_attempt (DropStdin a) = True" | "in_attempt (Join a) = True"
| "in_attempt (SpawnEnter a) = True" | "in_attempt (SpawnStart a g) = True"
| "in_attempt (Exec a g) = True" | "in_attempt (Install a g pid) = True"
| "in_attempt (Discard a pid) = True" | "in_attempt (Handshake a) = True"
| "in_attempt (Commit a) = True" | "in_attempt _ = False"

definition task_step :: "nanos \<Rightarrow> bool \<Rightarrow> task \<Rightarrow> stdio \<Rightarrow> stdio \<times> task" where
  "task_step now good t s =
     (if in_hook t then maybe_start_respawn_supervisor t s
      else if in_attempt t then respawn_once good t s
      else run_respawn_supervisor now t s)"

section \<open>Lifecycle calls\<close>

datatype life =
    LifeIdle
  | ShutBump | ShutHealth | ShutStdin | ShutKill | ShutAbort
  | InitArm u64 | InitEnter u64 | InitStart u64 u64 | InitExec u64 u64 | InitInstall u64 u64 nat
  | InitDiscard nat | InitHandshake u64 | InitCommit u64 | InitReset

definition shutdown_begin :: "stdio \<Rightarrow> stdio \<times> life" where
  "shutdown_begin s = (s\<lparr>shutdown_requested := True\<rparr>, ShutBump)"

fun shutdown_step :: "life \<Rightarrow> stdio \<Rightarrow> stdio \<times> life" where
  "shutdown_step ShutBump s = (s\<lparr>stdio_gen := stdio_gen s + 1\<rparr>, ShutHealth)"
| "shutdown_step ShutHealth s = (s\<lparr>stdio_health := Stopped\<rparr>, ShutStdin)"
| "shutdown_step ShutStdin s = (s\<lparr>stdin_writer := None\<rparr>, ShutKill)"
| "shutdown_step ShutKill s = (kill_child_quiet s, ShutAbort)"
| "shutdown_step ShutAbort s =
     (case stdout_handle s of
        Some pid \<Rightarrow> abort_reader pid (s\<lparr>stdout_handle := None\<rparr>)
      | None \<Rightarrow> s, LifeIdle)"
| "shutdown_step l s = (s, l)"

definition initialize_begin :: "stdio \<Rightarrow> stdio \<times> life" where
  "initialize_begin s = (s\<lparr>stdio_gen := stdio_gen s + 1\<rparr>, InitArm (stdio_gen s + 1))"

fun initialize_step :: "bool \<Rightarrow> life \<Rightarrow> stdio \<Rightarrow> stdio \<times> life" where
  "initialize_step good (InitArm g) s = (s\<lparr>shutdown_requested := False\<rparr>, InitEnter g)"
| "initialize_step good (InitEnter g) s = (s, InitStart g (stdio_gen s))"
| "initialize_step good (InitStart g sg) s = (spawn_starting s, InitExec g sg)"
| "initialize_step good (InitExec g sg) s =
     (if good then (let (s', pid) = spawn_child sg s in (s', InitInstall g sg pid)) else (s, LifeIdle))"
| "initialize_step good (InitInstall g sg pid) s =
     (case spawn_install sg pid s of Some s' \<Rightarrow> (s', InitHandshake g) | None \<Rightarrow> (s, InitDiscard pid))"
| "initialize_step good (InitDiscard pid) s = (spawn_discard pid s, LifeIdle)"
| "initialize_step good (InitHandshake g) s = (s, if good then InitCommit g else LifeIdle)"
| "initialize_step good (InitCommit g) s = (write_health_if_current g Healthy s, InitReset)"
| "initialize_step good InitReset s = (s\<lparr>crash_state := crash_reset (crash_state s)\<rparr>, LifeIdle)"
| "initialize_step good l s = (s, l)"

fun in_shutdown :: "life \<Rightarrow> bool" where
  "in_shutdown ShutBump = True" | "in_shutdown ShutHealth = True" | "in_shutdown ShutStdin = True"
| "in_shutdown ShutKill = True" | "in_shutdown ShutAbort = True" | "in_shutdown _ = False"

definition life_step :: "bool \<Rightarrow> life \<Rightarrow> stdio \<Rightarrow> stdio \<times> life" where
  "life_step good l s = (if in_shutdown l then shutdown_step l s else initialize_step good l s)"

section \<open>Runs\<close>

record system =
  adapter :: stdio
  caller :: life
  tasks :: "task list"

definition new_system :: system where
  "new_system = \<lparr>adapter = new_stdio, caller = LifeIdle, tasks = []\<rparr>"

text \<open>
  What can happen next: the idle caller begins a lifecycle call, the caller or a task takes its next
  step, a process exits on its own, or the reader of a dead process reaches the end of its output
  and runs the hook.
\<close>

datatype event =
    Begin_shutdown
  | Begin_initialize
  | Call bool
  | Task nat nanos bool
  | Exits nat
  | Eof nat u64

fun exec :: "event \<Rightarrow> system \<Rightarrow> system" where
  "exec Begin_shutdown S =
     (if caller S = LifeIdle
      then let (s, l) = shutdown_begin (adapter S) in S\<lparr>adapter := s, caller := l\<rparr> else S)"
| "exec Begin_initialize S =
     (if caller S = LifeIdle
      then let (s, l) = initialize_begin (adapter S) in S\<lparr>adapter := s, caller := l\<rparr> else S)"
| "exec (Call good) S =
     (let (s, l) = life_step good (caller S) (adapter S) in S\<lparr>adapter := s, caller := l\<rparr>)"
| "exec (Task i now good) S =
     (if i < length (tasks S)
      then let (s, t) = task_step now good (tasks S ! i) (adapter S)
           in S\<lparr>adapter := s, tasks := (tasks S)[i := t]\<rparr>
      else S)"
| "exec (Exits pid) S = S\<lparr>adapter := kill_pid pid (adapter S)\<rparr>"
| "exec (Eof pid g) S =
     (if pid \<notin> set (running (adapter S)) \<and> (pid, g) \<in> set (readers (adapter S))
      then S\<lparr>adapter := abort_reader pid (adapter S), tasks := tasks S @ [HookFlag g]\<rparr>
      else S)"

section \<open>At most one supervisor\<close>

text \<open>A task holds the supervisor slot from the successful swap to the clearing of the flag.\<close>

fun owns_slot :: "task \<Rightarrow> bool" where
  "owns_slot (HookFlag g) = False" | "owns_slot (HookGen g) = False" | "owns_slot (HookSwap g) = False"
| "owns_slot (HookStore g) = False" | "owns_slot (HookRetry g) = False" | "owns_slot Rearm = False"
| "owns_slot Finished = False" | "owns_slot _ = True"

definition slot_count :: "system \<Rightarrow> nat" where
  "slot_count S = length (filter owns_slot (tasks S))"

definition one_supervisor :: "system \<Rightarrow> bool" where
  "one_supervisor S = (slot_count S = (if respawning (adapter S) then 1 else 0))"

lemma length_filter_update:
  "i < length xs \<Longrightarrow>
   length (filter P (xs[i := y])) + (if P (xs ! i) then 1 else 0) =
   length (filter P xs) + (if P y then 1 else (0::nat))"
proof (induction xs arbitrary: i)
  case Nil
  then show ?case by simp
next
  case (Cons x xs)
  show ?case
  proof (cases i)
    case 0
    then show ?thesis by simp
  next
    case (Suc j)
    then show ?thesis using Cons.IH [of j] Cons.prems by simp
  qed
qed

lemma respawning_helpers [simp]:
  "respawning (kill_pid p s) = respawning s"
  "respawning (abort_reader p s) = respawning s"
  "respawning (spawn_starting s) = respawning s"
  "respawning (fst (spawn_child g s)) = respawning s"
  "respawning (spawn_discard p s) = respawning s"
  "respawning (write_health_if_current e h s) = respawning s"
  "respawning (kill_child_quiet s) = respawning s"
  by (auto simp: kill_pid_def abort_reader_def spawn_starting_def spawn_child_def spawn_discard_def
      write_health_if_current_def kill_child_quiet_def Let_def
      split: option.splits if_splits)

lemma slot_task_step:
  assumes "task_step now good t s = (s', t')" "owns_slot t \<Longrightarrow> respawning s"
  shows "(if owns_slot t' then 1 else 0) + (if respawning s then 1 else (0::nat)) =
    (if owns_slot t then 1 else 0) + (if respawning s' then 1 else 0)"
  using assms
  by (cases t) (auto simp: task_step_def Let_def spawn_child_def spawn_install_def split: if_splits option.splits prod.splits)

lemma respawning_life:
  "respawning (fst (life_step good l s)) = respawning s"
  by (cases l) (auto simp: life_step_def Let_def spawn_child_def spawn_install_def split: option.splits if_splits prod.splits)

lemma one_supervisor_exec:
  assumes "one_supervisor S"
  shows "one_supervisor (exec e S)"
proof (cases e)
  case (Task i now good)
  show ?thesis
  proof (cases "i < length (tasks S)")
    case True
    obtain s t where st: "task_step now good (tasks S ! i) (adapter S) = (s, t)" by fastforce
    have owner: "respawning (adapter S)" if "owns_slot (tasks S ! i)"
    proof -
      have "tasks S ! i \<in> set (filter owns_slot (tasks S))" using that True by simp
      then show ?thesis using assms by (auto simp: one_supervisor_def slot_count_def filter_empty_conv split: if_splits)
    qed
    show ?thesis
      using assms slot_task_step [OF st owner] length_filter_update [OF True, of owns_slot t] True Task st
      by (auto simp: one_supervisor_def slot_count_def split: if_splits)
  qed (use assms Task in simp)
next
  case (Call good)
  then show ?thesis using assms respawning_life [of good "caller S" "adapter S"]
    by (auto simp: one_supervisor_def slot_count_def split: prod.splits)
qed (use assms in \<open>auto simp: one_supervisor_def slot_count_def shutdown_begin_def initialize_begin_def\<close>)

end
