(* ===== verification/Stdio_Safety.thy ===== *)
theory Stdio_Safety
  imports Stdio_Lifecycle
begin

text \<open>
  Safety of the stdio lifecycle over every interleaving of its tasks: at most one supervisor, a
  shutdown that stays shut down, and supervisors that stand down when the lifecycle moves on.
\<close>

section \<open>Invariants of every run\<close>

text \<open>The flag is raised first; the health is Stopped once \<^verbatim>\<open>shutdown\<close> has written it.\<close>

definition stays_stopped :: "system \<Rightarrow> bool" where
  "stays_stopped S = (shutdown_requested (adapter S) \<longrightarrow> caller S \<noteq> ShutBump \<longrightarrow> caller S \<noteq> ShutHealth \<longrightarrow>
     stdio_health (adapter S) = Stopped)"

lemma health_kept [simp]:
  "stdio_health (kill_pid p s) = stdio_health s"
  "stdio_health (abort_reader p s) = stdio_health s"
  "stdio_health (fst (spawn_child g s)) = stdio_health s"
  "stdio_health (spawn_discard p s) = stdio_health s"
  "stdio_health (kill_child_quiet s) = stdio_health s"
  by (auto simp: kill_pid_def abort_reader_def spawn_child_def spawn_discard_def
      kill_child_quiet_def Let_def split: option.splits if_splits)

lemma flag_kept [simp]:
  "shutdown_requested (kill_pid p s) = shutdown_requested s"
  "shutdown_requested (abort_reader p s) = shutdown_requested s"
  "shutdown_requested (spawn_starting s) = shutdown_requested s"
  "shutdown_requested (fst (spawn_child g s)) = shutdown_requested s"
  "shutdown_requested (spawn_discard p s) = shutdown_requested s"
  "shutdown_requested (write_health_if_current e h s) = shutdown_requested s"
  "shutdown_requested (kill_child_quiet s) = shutdown_requested s"
  by (auto simp: kill_pid_def abort_reader_def spawn_child_def spawn_discard_def spawn_starting_def
      write_health_if_current_def kill_child_quiet_def Let_def
      split: option.splits if_splits)

lemma flag_guards_health [simp]:
  "shutdown_requested s \<Longrightarrow> spawn_starting s = s"
  "shutdown_requested s \<Longrightarrow> write_health_if_current e h s = s"
  by (simp_all add: spawn_starting_def write_health_if_current_def)

lemma task_step_flag:
  assumes "task_step now good t s = (s', t')"
  shows "shutdown_requested s' = shutdown_requested s"
    and "shutdown_requested s \<Longrightarrow> stdio_health s' = stdio_health s"
  using assms
  by (cases t; auto simp: task_step_def Let_def spawn_child_def spawn_install_def split: if_splits option.splits prod.splits)+

lemma life_step_flag:
  assumes "life_step good l s = (s', l')" "shutdown_requested s'" "l' \<noteq> ShutBump" "l' \<noteq> ShutHealth"
    and "shutdown_requested s \<Longrightarrow> l \<noteq> ShutBump \<Longrightarrow> l \<noteq> ShutHealth \<Longrightarrow> stdio_health s = Stopped"
  shows "stdio_health s' = Stopped"
  using assms
  by (cases l) (auto simp: life_step_def Let_def spawn_child_def spawn_install_def split: if_splits option.splits prod.splits)

lemma stays_stopped_exec: "stays_stopped S \<Longrightarrow> stays_stopped (exec e S)"
proof (cases e)
  case (Task i now good)
  assume inv: "stays_stopped S"
  obtain s t where st: "task_step now good (tasks S ! i) (adapter S) = (s, t)" by fastforce
  show ?thesis
    using inv task_step_flag [OF st] Task st by (auto simp: stays_stopped_def)
next
  case (Call good)
  assume inv: "stays_stopped S"
  obtain s l where sl: "life_step good (caller S) (adapter S) = (s, l)" by fastforce
  show ?thesis
    using inv life_step_flag [OF sl] Call sl by (auto simp: stays_stopped_def)
qed (auto simp: stays_stopped_def shutdown_begin_def initialize_begin_def)

lemma start_invariants: "one_supervisor new_system" "stays_stopped new_system"
  by (simp_all add: one_supervisor_def stays_stopped_def new_system_def new_stdio_def slot_count_def)

interpretation stdio_runs: transition_system "\<lambda>S. S = new_system" "\<lambda>S T. \<exists>e. T = exec e S"
    "\<lambda>S. one_supervisor S \<and> stays_stopped S"
  by unfold_locales (auto simp: start_invariants intro: one_supervisor_exec stays_stopped_exec)

lemma apply_all_reaches: "(\<lambda>S T. \<exists>e. T = exec e S)\<^sup>*\<^sup>* S (apply_all exec es S)"
  by (induction es arbitrary: S) (auto intro: converse_rtranclp_into_rtranclp)

lemma supervision_invariants_parts:
  "length (filter owns_slot (tasks (apply_all exec es new_system))) =
     (if respawning (adapter (apply_all exec es new_system)) then 1 else 0)"
  "stays_stopped (apply_all exec es new_system)"
  using stdio_runs.safe_reachable [OF refl apply_all_reaches]
  by (auto simp: one_supervisor_def slot_count_def)

text \<open>In every run of a stdio endpoint, at most one respawn supervisor exists and the respawning
  flag says whether one does; and once a shutdown has written its health, the endpoint stays Stopped
  until the flag is cleared by the next initialize, whatever the old supervisors still do.\<close>

theorem supervision_invariants:
  "length (filter owns_slot (tasks (apply_all exec es new_system))) =
     (if respawning (adapter (apply_all exec es new_system)) then 1 else 0) \<and>
   stays_stopped (apply_all exec es new_system)"
  using supervision_invariants_parts by blast

section \<open>Stale supervisors\<close>

definition task_bumps :: "task \<Rightarrow> stdio \<Rightarrow> bool" where
  "task_bumps t s = (case t of Claim g \<Rightarrow> stdio_gen s = g | _ \<Rightarrow> False)"

fun bumps_gen :: "event \<Rightarrow> system \<Rightarrow> bool" where
  "bumps_gen Begin_initialize S = (caller S = LifeIdle)"
| "bumps_gen (Call good) S = (caller S = ShutBump)"
| "bumps_gen (Task i now good) S = (i < length (tasks S) \<and> task_bumps (tasks S ! i) (adapter S))"
| "bumps_gen _ S = False"

lemma gen_kept [simp]:
  "stdio_gen (kill_pid p s) = stdio_gen s"
  "stdio_gen (abort_reader p s) = stdio_gen s"
  "stdio_gen (spawn_starting s) = stdio_gen s"
  "stdio_gen (fst (spawn_child g s)) = stdio_gen s"
  "stdio_gen (spawn_discard p s) = stdio_gen s"
  "stdio_gen (write_health_if_current e h s) = stdio_gen s"
  "stdio_gen (kill_child_quiet s) = stdio_gen s"
  by (auto simp: kill_pid_def abort_reader_def spawn_child_def spawn_discard_def spawn_starting_def
      write_health_if_current_def kill_child_quiet_def Let_def
      split: option.splits if_splits)

lemma task_step_gen:
  "task_step now good t s = (s', t') \<Longrightarrow> stdio_gen s' = stdio_gen s + (if task_bumps t s then 1 else 0)"
  by (cases t) (auto simp: task_step_def task_bumps_def Let_def spawn_child_def spawn_install_def
      split: if_splits option.splits prod.splits)

lemma life_step_gen:
  "life_step good l s = (s', l') \<Longrightarrow> stdio_gen s' = stdio_gen s + (if l = ShutBump then 1 else 0)"
  by (cases l) (auto simp: life_step_def Let_def spawn_child_def spawn_install_def split: if_splits option.splits prod.splits)

interpretation lifecycles: epoch_counter "\<lambda>S. stdio_gen (adapter S)" exec bumps_gen
proof
  fix e S
  show "stdio_gen (adapter (exec e S)) = stdio_gen (adapter S) + (if bumps_gen e S then 1 else 0)"
  proof (cases e)
    case (Task i now good)
    obtain s t where st: "task_step now good (tasks S ! i) (adapter S) = (s, t)" by fastforce
    show ?thesis using task_step_gen [OF st] Task st by auto
  next
    case (Call good)
    obtain s l where sl: "life_step good (caller S) (adapter S) = (s, l)" by fastforce
    show ?thesis using life_step_gen [OF sl] Call sl by auto
  qed (auto simp: shutdown_begin_def initialize_begin_def)
qed

fun steps_task :: "nat \<Rightarrow> event \<Rightarrow> bool" where
  "steps_task i (Task j now good) = (i = j)"
| "steps_task i _ = False"

lemma tasks_exec:
  assumes "i < length (tasks S)" "\<not> steps_task i e"
  shows "tasks (exec e S) ! i = tasks S ! i \<and> i < length (tasks (exec e S))"
  using assms
  by (cases e) (auto simp: shutdown_begin_def initialize_begin_def nth_append split: prod.splits)

lemma parked_task:
  assumes "i < length (tasks S)" "list_all (\<lambda>e. \<not> steps_task i e) es"
  shows "tasks (apply_all exec es S) ! i = tasks S ! i \<and> i < length (tasks (apply_all exec es S))"
  using assms
proof (induction es arbitrary: S)
  case Nil
  then show ?case by simp
next
  case (Cons e es)
  then show ?case using tasks_exec [of i S e] by simp
qed

text \<open>What a step of a supervisor whose generation has passed still does to the adapter.\<close>

lemma stale_steps:
  "stdio_gen s \<noteq> g \<Longrightarrow> task_step now good (Claim g) s = (s, Clear)"
  "stdio_gen s \<noteq> g \<Longrightarrow> task_step now good (LoopGen g) s = (s, Clear)"
  "stdio_gen s \<noteq> g \<Longrightarrow> task_step now good (Mark g) s = (s, Sleeping g)"
  "stdio_gen s \<noteq> g \<Longrightarrow> task_step now good (Commit g) s = (s, After g)"
  "stdio_gen s \<noteq> g \<Longrightarrow> task_step now good (After g) s = (s, Clear)"
  "stdio_gen s \<noteq> g \<Longrightarrow> task_step now good (Install a g pid) s = (s, Discard a pid)"
  "task_step now good (Discard a pid) s = (spawn_discard pid s, LoopFlag a)"
  by (simp_all add: task_step_def write_health_if_current_def spawn_install_def)

lemma parked_supervisor_stands_down_parts:
  fixes S and g
  defines "g \<equiv> stdio_gen (adapter S)"
  assumes "i < length (tasks S)" and "list_all (\<lambda>e. \<not> steps_task i e) es"
    and "0 < bump_count exec bumps_gen es S" "bump_count exec bumps_gen es S < 2 ^ 64"
    and T: "T = apply_all exec es S"
    and woken: "T' = exec (Task i now good) T" and again: "T'' = exec (Task i now' good') T'"
  shows "tasks S ! i = Sleeping g \<Longrightarrow>
      adapter T' = adapter T \<and>
      (tasks T' ! i = Clear \<or> tasks T' ! i = Claim g \<and> adapter T'' = adapter T \<and> tasks T'' ! i = Clear)"
    and "tasks S ! i = Install a g pid \<Longrightarrow> adapter T'' = spawn_discard pid (adapter T)"
proof -
  have moved: "stdio_gen (adapter T) \<noteq> g"
    using lifecycles.epoch_detects [OF assms(4,5)] T by (simp add: g_def)
  have same: "tasks T ! i = tasks S ! i" and len: "i < length (tasks T)"
    using parked_task [OF assms(2,3)] T by simp_all
  show "adapter T' = adapter T \<and>
      (tasks T' ! i = Clear \<or> tasks T' ! i = Claim g \<and> adapter T'' = adapter T \<and> tasks T'' ! i = Clear)"
    if "tasks S ! i = Sleeping g"
  proof (cases "shutdown_requested (adapter T)")
    case True
    then have "T' = T\<lparr>tasks := (tasks T)[i := Clear]\<rparr>"
      using woken that same len by (simp add: task_step_def)
    then show ?thesis using len by simp
  next
    case False
    then have T': "T' = T\<lparr>tasks := (tasks T)[i := Claim g]\<rparr>"
      using woken that same len by (simp add: task_step_def)
    then have "T'' = T\<lparr>tasks := (tasks T)[i := Clear]\<rparr>"
      using again len moved by (simp add: stale_steps)
    with T' show ?thesis using len by simp
  qed
  show "adapter T'' = spawn_discard pid (adapter T)" if "tasks S ! i = Install a g pid"
    using woken again that same len moved by (simp add: stale_steps)
qed

text \<open>A parked supervisor never disturbs the lifecycle that replaced its own. Whatever runs while
  it is parked in its backoff, if the generation was bumped meanwhile (a shutdown, an initialize;
  fewer than 2^64 times) then waking up ends it and leaves the adapter exactly as it is: the child,
  its pipes and the health. And a child it was spawning is torn down again instead of being
  installed.\<close>

theorem parked_supervisor_stands_down:
  fixes S and g
  defines "g \<equiv> stdio_gen (adapter S)"
  assumes "i < length (tasks S)" and "list_all (\<lambda>e. \<not> steps_task i e) es"
    and "0 < bump_count exec bumps_gen es S" "bump_count exec bumps_gen es S < 2 ^ 64"
    and "T = apply_all exec es S"
    and "T' = exec (Task i now good) T" and "T'' = exec (Task i now' good') T'"
  shows "(tasks S ! i = Sleeping g \<longrightarrow>
      adapter T' = adapter T \<and>
      (tasks T' ! i = Clear \<or> tasks T' ! i = Claim g \<and> adapter T'' = adapter T \<and> tasks T'' ! i = Clear)) \<and>
    (tasks S ! i = Install a g pid \<longrightarrow> adapter T'' = spawn_discard pid (adapter T))"
  using parked_supervisor_stands_down_parts [OF assms(2-)] unfolding g_def by blast

definition parked_system :: system where
  "parked_system = new_system\<lparr>tasks := [Sleeping 0]\<rparr>"

theorem parked_supervisor_stands_down_witness:
  "adapter (exec (Task 0 0 True) (apply_all exec [Begin_shutdown, Call True, Call True] parked_system)) =
     adapter (apply_all exec [Begin_shutdown, Call True, Call True] parked_system)"
proof -
  have b: "bump_count exec bumps_gen [Begin_shutdown, Call True, Call True] parked_system = 1"
    by (simp add: parked_system_def new_system_def new_stdio_def shutdown_begin_def life_step_def)
  have g: "stdio_gen (adapter parked_system) = 0" "length (tasks parked_system) = 1"
    "tasks parked_system ! 0 = Sleeping 0"
    by (simp_all add: parked_system_def new_system_def new_stdio_def)
  show ?thesis
    by (rule parked_supervisor_stands_down [of 0 parked_system "[Begin_shutdown, Call True, Call True]",
          OF _ _ _ _ refl refl refl, THEN conjunct1, THEN mp, THEN conjunct1])
      (simp_all only: b g list.pred_inject steps_task.simps, simp_all)
qed

end
