(* ===== verification/Stdio_Processes.thy ===== *)
theory Stdio_Processes
  imports Stdio_Safety
begin

text \<open>
  Which child processes of a stdio endpoint can outlive a shutdown: none, in every run in which no
  lifecycle call lands between a supervisor's claim of its attempt and the spawn's load of the
  generation; and one does in a run where a shutdown lands there.
\<close>

section \<open>Processes that outlive a shutdown\<close>

text \<open>
  A supervisor that has claimed its attempt and not yet entered \<^verbatim>\<open>spawn_process\<close>. A run is calm when
  no lifecycle call bumps the generation while a task is in that window, the counter does not wrap
  round, and \<^verbatim>\<open>initialize\<close> is called on an adapter without a child (new, or shut down).
\<close>

fun in_window :: "task \<Rightarrow> bool" where
  "in_window (Reap a) = True" | "in_window (DropStdin a) = True" | "in_window (Join a) = True"
| "in_window (SpawnEnter a) = True" | "in_window _ = False"

fun lifecycle_bump :: "event \<Rightarrow> system \<Rightarrow> bool" where
  "lifecycle_bump Begin_initialize S = (caller S = LifeIdle)"
| "lifecycle_bump (Call good) S = (caller S = ShutBump)"
| "lifecycle_bump _ S = False"

definition calm :: "event \<Rightarrow> system \<Rightarrow> bool" where
  "calm e S =
     ((bumps_gen e S \<longrightarrow> stdio_gen (adapter S) \<noteq> - 1) \<and>
      (lifecycle_bump e S \<longrightarrow> list_all (\<lambda>t. \<not> in_window t) (tasks S)) \<and>
      (e = Begin_initialize \<longrightarrow> caller S = LifeIdle \<longrightarrow> child (adapter S) = None))"

fun calm_run :: "event list \<Rightarrow> system \<Rightarrow> bool" where
  "calm_run [] S = True"
| "calm_run (e # es) S = (calm e S \<and> calm_run es (exec e S))"

text \<open>
  The phases of the caller. In a quiet phase every task acts for an older generation than the
  current one; while a new child starts, only hooks may act for the current one.
\<close>

fun quiet :: "bool \<Rightarrow> life \<Rightarrow> bool" where
  "quiet flag LifeIdle = flag"
| "quiet flag ShutHealth = True" | "quiet flag ShutStdin = True"
| "quiet flag ShutKill = True" | "quiet flag ShutAbort = True"
| "quiet flag (InitArm g) = True" | "quiet flag (InitEnter g) = True"
| "quiet flag (InitStart g sg) = True" | "quiet flag (InitExec g sg) = True"
| "quiet flag _ = False"

fun child_starting :: "life \<Rightarrow> bool" where
  "child_starting (InitInstall g sg pid) = True"
| "child_starting (InitHandshake g) = True"
| "child_starting _ = False"

fun life_ok :: "stdio \<Rightarrow> life \<Rightarrow> bool" where
  "life_ok s LifeIdle = (shutdown_requested s \<longrightarrow> child s = None)"
| "life_ok s ShutBump = shutdown_requested s" | "life_ok s ShutHealth = shutdown_requested s"
| "life_ok s ShutStdin = shutdown_requested s" | "life_ok s ShutKill = shutdown_requested s"
| "life_ok s ShutAbort = (shutdown_requested s \<and> child s = None)"
| "life_ok s (InitArm g) = (g = stdio_gen s \<and> child s = None)"
| "life_ok s (InitEnter g) = (\<not> shutdown_requested s \<and> g = stdio_gen s \<and> child s = None)"
| "life_ok s (InitStart g sg) = (\<not> shutdown_requested s \<and> g = stdio_gen s \<and> sg = g \<and> child s = None)"
| "life_ok s (InitExec g sg) =
     (\<not> shutdown_requested s \<and> g = stdio_gen s \<and> sg = g \<and> child s = None \<and> stdio_health s \<noteq> Healthy)"
| "life_ok s (InitInstall g sg pid) =
     (\<not> shutdown_requested s \<and> g = stdio_gen s \<and> sg = g \<and> child s = None \<and> stdio_health s \<noteq> Healthy)"
| "life_ok s (InitHandshake g) = (\<not> shutdown_requested s \<and> g = stdio_gen s \<and> stdio_health s \<noteq> Healthy)"
| "life_ok s (InitDiscard pid) = False"
| "life_ok s (InitCommit g) = (\<not> shutdown_requested s)"
| "life_ok s InitReset = (\<not> shutdown_requested s)"

definition older :: "bool \<Rightarrow> u64 \<Rightarrow> u64 \<Rightarrow> bool" where
  "older q gen g = (g \<le> gen \<and> (q \<longrightarrow> g \<noteq> gen))"

text \<open>\<open>q\<close>: the phase is quiet; \<open>st\<close>: a child is starting.\<close>

fun task_ok :: "bool \<Rightarrow> bool \<Rightarrow> stdio \<Rightarrow> task \<Rightarrow> bool" where
  "task_ok q st s (HookFlag g) = older q (stdio_gen s) g"
| "task_ok q st s (HookGen g) = older q (stdio_gen s) g"
| "task_ok q st s (HookSwap g) = older q (stdio_gen s) g"
| "task_ok q st s (HookStore g) = older q (stdio_gen s) g"
| "task_ok q st s (HookRetry g) = older q (stdio_gen s) g"
| "task_ok q st s (HookErase g) = older q (stdio_gen s) g"
| "task_ok q st s (Gate g) = older q (stdio_gen s) g"
| "task_ok q st s (LoopFlag g) = older (q \<or> st) (stdio_gen s) g"
| "task_ok q st s (LoopGen g) = older (q \<or> st) (stdio_gen s) g"
| "task_ok q st s (Record g) = older (q \<or> st) (stdio_gen s) g"
| "task_ok q st s (Mark g) = older (q \<or> st) (stdio_gen s) g"
| "task_ok q st s (Sleeping g) = older (q \<or> st) (stdio_gen s) g"
| "task_ok q st s (Claim g) = older (q \<or> st) (stdio_gen s) g"
| "task_ok q st s (Reap a) = (a = stdio_gen s \<and> \<not> q \<and> \<not> st)"
| "task_ok q st s (DropStdin a) = (a = stdio_gen s \<and> \<not> q \<and> \<not> st \<and> child s = None)"
| "task_ok q st s (Join a) = (a = stdio_gen s \<and> \<not> q \<and> \<not> st \<and> child s = None)"
| "task_ok q st s (SpawnEnter a) = (a = stdio_gen s \<and> \<not> q \<and> \<not> st \<and> child s = None)"
| "task_ok q st s (SpawnStart a g) =
     (g = a \<and> older (q \<or> st) (stdio_gen s) a \<and> (a = stdio_gen s \<longrightarrow> child s = None))"
| "task_ok q st s (Exec a g) =
     (g = a \<and> older (q \<or> st) (stdio_gen s) a \<and> (a = stdio_gen s \<longrightarrow> child s = None))"
| "task_ok q st s (Install a g pid) =
     (g = a \<and> older (q \<or> st) (stdio_gen s) a \<and> (a = stdio_gen s \<longrightarrow> child s = None))"
| "task_ok q st s (Discard a pid) = older (q \<or> st) (stdio_gen s) a"
| "task_ok q st s (Handshake a) = older (q \<or> st) (stdio_gen s) a"
| "task_ok q st s (Commit a) = older (q \<or> st) (stdio_gen s) a"
| "task_ok q st s (After a) = older (q \<or> st) (stdio_gen s) a"
| "task_ok q st s Clear = True"
| "task_ok q st s Rearm = True"
| "task_ok q st s Finished = True"

definition gens_ok :: "bool \<Rightarrow> stdio \<Rightarrow> bool" where
  "gens_ok q s =
     ((\<forall>r \<in> set (readers s). older q (stdio_gen s) (snd r)) \<and>
      (pending_eof_gen s \<noteq> NO_PENDING_EOF \<longrightarrow> older q (stdio_gen s) (pending_eof_gen s)))"

fun task_holds :: "nat \<Rightarrow> task \<Rightarrow> bool" where
  "task_holds pid (Install a g p) = (p = pid)"
| "task_holds pid (Discard a p) = (p = pid)"
| "task_holds pid _ = False"

fun life_holds :: "nat \<Rightarrow> life \<Rightarrow> bool" where
  "life_holds pid (InitInstall g sg p) = (p = pid)"
| "life_holds pid _ = False"

definition accounted :: "system \<Rightarrow> bool" where
  "accounted S = (\<forall>pid \<in> set (running (adapter S)).
     child (adapter S) = Some pid \<or> life_holds pid (caller S) \<or> (\<exists>t \<in> set (tasks S). task_holds pid t))"

definition quiet_of :: "system \<Rightarrow> bool" where
  "quiet_of S = quiet (shutdown_requested (adapter S)) (caller S)"

definition lifecycle_ok :: "system \<Rightarrow> bool" where
  "lifecycle_ok S =
     (life_ok (adapter S) (caller S) \<and>
      (\<forall>t \<in> set (tasks S). task_ok (quiet_of S) (child_starting (caller S)) (adapter S) t) \<and>
      gens_ok (quiet_of S) (adapter S))"

lemma older_bump: "gen \<noteq> - 1 \<Longrightarrow> older q' gen g \<Longrightarrow> older q (gen + 1) g"
proof -
  assume ne: "gen \<noteq> - 1" and o: "older q' gen g"
  have max: "unat (- 1 :: u64) = 2 ^ 64 - 1"
    by (simp add: unsigned_minus_1_eq_mask mask_eq_exp_minus_1)
  have "unat gen \<noteq> 2 ^ 64 - 1"
    using ne max by (metis unsigned_word_eqI)
  moreover have "unat gen < 2 ^ 64" using unsigned_less [of gen] by simp
  ultimately have "unat gen + 1 < 2 ^ 64" by simp
  then have "unat (gen + 1) = unat gen + 1" by (simp add: unat_word_ariths)
  then have "gen < gen + 1" by (simp add: word_less_nat_alt)
  then show ?thesis using o by (auto simp: older_def)
qed

lemma older_weaken: "older q gen g \<Longrightarrow> (q' \<Longrightarrow> q) \<Longrightarrow> older q' gen g"
  by (auto simp: older_def)

lemma older_current [simp]: "older q gen gen = (\<not> q)"
  by (auto simp: older_def)

lemma unique_owner:
  assumes "one_supervisor S" "i < length (tasks S)" "j < length (tasks S)"
    and "owns_slot (tasks S ! i)" "owns_slot (tasks S ! j)"
  shows "i = j"
proof (rule ccontr)
  assume ne: "i \<noteq> j"
  let ?ts = "(tasks S)[i := Finished]"
  have "tasks S ! j \<in> set (filter owns_slot ?ts)"
    using assms ne by (simp, metis length_list_update nth_list_update_neq nth_mem)
  then have "0 < length (filter owns_slot ?ts)" using length_pos_if_in_set by fast
  moreover have "length (filter owns_slot ?ts) + 1 = length (filter owns_slot (tasks S))"
    using length_filter_update [OF assms(2), of owns_slot Finished] assms(4) by simp
  ultimately show False
    using assms(1) by (simp add: one_supervisor_def slot_count_def split: if_splits)
qed

lemma life_ok_relax:
  "life_ok s l \<Longrightarrow> \<not> quiet (shutdown_requested s) l \<Longrightarrow> \<not> child_starting l \<Longrightarrow>
   shutdown_requested s' = shutdown_requested s \<Longrightarrow> life_ok s' l"
  by (cases l) auto

lemma life_ok_same:
  "life_ok s l \<Longrightarrow> shutdown_requested s' = shutdown_requested s \<Longrightarrow> stdio_gen s' = stdio_gen s \<Longrightarrow>
   (child s = None \<Longrightarrow> child s' = None) \<Longrightarrow>
   (stdio_health s \<noteq> Healthy \<Longrightarrow> stdio_health s' \<noteq> Healthy) \<Longrightarrow> life_ok s' l"
  by (cases l) auto

lemma child_kept [simp]:
  "child (kill_pid p s) = child s"
  "child (abort_reader p s) = child s"
  "child (spawn_starting s) = child s"
  "child (fst (spawn_child g s)) = child s"
  "child (spawn_discard p s) = child s"
  "child (write_health_if_current e h s) = child s"
  "child (kill_child_quiet s) = None"
  by (auto simp: kill_pid_def abort_reader_def spawn_child_def spawn_discard_def spawn_starting_def
      write_health_if_current_def kill_child_quiet_def Let_def split: option.splits if_splits)

lemma starting_not_healthy: "stdio_health s \<noteq> Healthy \<Longrightarrow> stdio_health (spawn_starting s) \<noteq> Healthy"
  by (auto simp: spawn_starting_def Let_def)

lemma readers_kept [simp]:
  "readers (kill_pid p s) = readers s"
  "readers (abort_reader p s) = filter (\<lambda>r. fst r \<noteq> p) (readers s)"
  "readers (spawn_starting s) = readers s"
  "readers (spawn_discard p s) = filter (\<lambda>r. fst r \<noteq> p) (readers s)"
  "readers (write_health_if_current e h s) = readers s"
  "readers (kill_child_quiet s) = readers s"
  by (auto simp: kill_pid_def abort_reader_def spawn_discard_def spawn_starting_def
      write_health_if_current_def kill_child_quiet_def Let_def split: option.splits if_splits)

lemma pending_kept [simp]:
  "pending_eof_gen (kill_pid p s) = pending_eof_gen s"
  "pending_eof_gen (abort_reader p s) = pending_eof_gen s"
  "pending_eof_gen (spawn_starting s) = pending_eof_gen s"
  "pending_eof_gen (spawn_discard p s) = pending_eof_gen s"
  "pending_eof_gen (write_health_if_current e h s) = pending_eof_gen s"
  "pending_eof_gen (kill_child_quiet s) = pending_eof_gen s"
  by (auto simp: kill_pid_def abort_reader_def spawn_discard_def spawn_starting_def
      write_health_if_current_def kill_child_quiet_def Let_def split: option.splits if_splits)

text \<open>What one step of a task can change.\<close>

lemma task_step_changes:
  assumes "task_step now good t s = (s', t')"
  shows "child s' = child s \<or> child s' = None \<or> (\<exists>a pid. t = Install a (stdio_gen s) pid)"
    and "stdio_health s' = stdio_health s \<or> stdio_health s' \<noteq> Healthy \<or> t = Commit (stdio_gen s)"
    and "r \<in> set (readers s') \<Longrightarrow> r \<in> set (readers s) \<or> (\<exists>a. t = Exec a (snd r))"
    and "pending_eof_gen s' = pending_eof_gen s \<or> pending_eof_gen s' = NO_PENDING_EOF \<or>
      t = HookStore (pending_eof_gen s')"
proof -
  show "child s' = child s \<or> child s' = None \<or> (\<exists>a pid. t = Install a (stdio_gen s) pid)"
    using assms by (cases t) (auto simp: task_step_def Let_def spawn_child_def spawn_install_def
        split: if_splits prod.splits)
  show "stdio_health s' = stdio_health s \<or> stdio_health s' \<noteq> Healthy \<or> t = Commit (stdio_gen s)"
    using assms by (cases t) (auto simp: task_step_def Let_def spawn_child_def spawn_install_def
        spawn_starting_def write_health_if_current_def split: if_splits prod.splits)
  show "r \<in> set (readers s') \<Longrightarrow> r \<in> set (readers s) \<or> (\<exists>a. t = Exec a (snd r))"
    using assms by (cases t) (auto simp: task_step_def Let_def spawn_child_def spawn_install_def
        split: if_splits prod.splits)
  show "pending_eof_gen s' = pending_eof_gen s \<or> pending_eof_gen s' = NO_PENDING_EOF \<or>
      t = HookStore (pending_eof_gen s')"
    using assms by (cases t) (auto simp: task_step_def Let_def spawn_child_def spawn_install_def
        split: if_splits prod.splits)
qed

text \<open>The step of a task keeps the invariant of the caller, of the readers, and its own.\<close>

lemma task_step_life:
  assumes step: "task_step now good t s = (s', t')"
    and ok: "task_ok (quiet (shutdown_requested s) l) (child_starting l) s t" "life_ok s l"
  shows "life_ok s' l"
proof (cases "\<not> quiet (shutdown_requested s) l \<and> \<not> child_starting l")
  case True
  then show ?thesis using life_ok_relax [OF ok(2)] task_step_flag(1) [OF step] by simp
next
  case False
  have g: "stdio_gen s' = stdio_gen s"
    using task_step_gen [OF step] ok(1) False by (auto simp: task_bumps_def split: task.splits)
  have c: "child s' = None" if "child s = None"
    using task_step_changes(1) [OF step] ok(1) False that by auto
  have h: "stdio_health s' \<noteq> Healthy" if "stdio_health s \<noteq> Healthy"
    using task_step_changes(2) [OF step] ok(1) False that by auto
  show ?thesis
    by (rule life_ok_same [OF ok(2) task_step_flag(1) [OF step] g]) (erule c, erule h)
qed

lemma task_step_gens:
  assumes step: "task_step now good t s = (s', t')" and ok: "task_ok q st s t" and gens: "gens_ok q s"
    and nowrap: "task_bumps t s \<Longrightarrow> stdio_gen s \<noteq> - 1"
  shows "gens_ok q s'"
proof -
  have lift: "older q (stdio_gen s') g" if o: "older q (stdio_gen s) g" for g
  proof (cases "task_bumps t s")
    case True
    then have gen: "stdio_gen s' = stdio_gen s + 1" using task_step_gen [OF step] by simp
    show ?thesis unfolding gen by (rule older_bump [OF nowrap [OF True] o])
  next
    case False
    then show ?thesis using o task_step_gen [OF step] by simp
  qed
  have "older q (stdio_gen s') (snd r)" if r: "r \<in> set (readers s')" for r
  proof -
    have "older q (stdio_gen s) (snd r)"
      using task_step_changes(3) [OF step r]
    proof
      assume "r \<in> set (readers s)"
      then show ?thesis using gens by (simp add: gens_ok_def)
    next
      assume "\<exists>a. t = Exec a (snd r)"
      then have "older (q \<or> st) (stdio_gen s) (snd r)" using ok by auto
      then show ?thesis by (simp add: older_def)
    qed
    then show ?thesis by (rule lift)
  qed
  moreover have "older q (stdio_gen s') (pending_eof_gen s')" if "pending_eof_gen s' \<noteq> NO_PENDING_EOF"
  proof -
    have "older q (stdio_gen s) (pending_eof_gen s')"
      using task_step_changes(4) [OF step] ok gens that by (auto simp: gens_ok_def)
    then show ?thesis by (rule lift)
  qed
  ultimately show ?thesis by (simp add: gens_ok_def)
qed

lemma task_step_own:
  assumes step: "task_step now good t s = (s', t')" and ok: "task_ok q st s t" and gens: "gens_ok q s"
    and nowrap: "task_bumps t s \<Longrightarrow> stdio_gen s \<noteq> - 1" and st: "st \<Longrightarrow> stdio_health s \<noteq> Healthy"
    and qs: "q \<Longrightarrow> \<not> st"
  shows "task_ok q st s' t'"
  using assms
  by (cases t) (auto simp: task_step_def task_bumps_def Let_def spawn_child_def spawn_install_def gens_ok_def older_def
      split: if_splits option.splits prod.splits)

lemma task_step_other:
  assumes step: "task_step now good t s = (s', t')" and ok: "task_ok q st s t" and other: "task_ok q st s u"
    and nowrap: "task_bumps t s \<Longrightarrow> stdio_gen s \<noteq> - 1" and excl: "owns_slot t \<Longrightarrow> \<not> owns_slot u"
  shows "task_ok q st s' u"
proof (cases "owns_slot t")
  case False
  then have "stdio_gen s' = stdio_gen s" "child s' = child s"
    using step by (cases t; auto simp: task_step_def split: if_splits)+
  then show ?thesis using other by (cases u) auto
next
  case True
  then have u: "\<not> owns_slot u" using excl by simp
  show ?thesis
  proof (cases "task_bumps t s")
    case True
    then have "\<not> q" using ok by (auto simp: task_bumps_def split: task.splits)
    then show ?thesis
      using u other task_step_gen [OF step] True older_bump [OF nowrap [OF True]] by (cases u) auto
  next
    case False
    then show ?thesis using u other task_step_gen [OF step] by (cases u) auto
  qed
qed

text \<open>The invariant is kept by every event of a calm run.\<close>

lemma lifecycle_task:
  assumes inv: "one_supervisor S" "lifecycle_ok S" and calm: "calm (Task i now good) S"
  shows "lifecycle_ok (exec (Task i now good) S)"
proof (cases "i < length (tasks S)")
  case False
  then show ?thesis using inv by simp
next
  case i: True
  let ?t = "tasks S ! i" and ?s = "adapter S" and ?q = "quiet_of S" and ?st = "child_starting (caller S)"
  obtain s' t' where step: "task_step now good ?t ?s = (s', t')" by fastforce
  have life: "life_ok ?s (caller S)" and each: "\<And>u. u \<in> set (tasks S) \<Longrightarrow> task_ok ?q ?st ?s u" and gens: "gens_ok ?q ?s"
    using inv(2) by (auto simp: lifecycle_ok_def)
  have own: "task_ok ?q ?st ?s ?t" using each i by simp
  have nowrap: "stdio_gen ?s \<noteq> - 1" if "task_bumps ?t ?s" using calm that i by (simp add: calm_def)
  have st: "stdio_health ?s \<noteq> Healthy" if ?st using life that by (cases "caller S") auto
  have qs: "\<not> ?st" if ?q using that by (cases "caller S") (auto simp: quiet_of_def)
  have T: "exec (Task i now good) S = S\<lparr>adapter := s', tasks := (tasks S)[i := t']\<rparr>"
    using i step by simp
  have q': "quiet_of (exec (Task i now good) S) = ?q"
    using T task_step_flag(1) [OF step] by (simp add: quiet_of_def)
  have "task_ok ?q ?st s' u" if u: "u \<in> set ((tasks S)[i := t'])" for u
  proof -
    obtain j where j: "j < length (tasks S)" "u = (tasks S)[i := t'] ! j"
      using u by (auto simp: in_set_conv_nth)
    show ?thesis
    proof (cases "j = i")
      case True
      then show ?thesis using j task_step_own [OF step own gens nowrap st qs] by simp
    next
      case False
      then have u: "u = tasks S ! j" using j by simp
      have excl: "\<not> owns_slot u" if "owns_slot ?t"
        using unique_owner [OF inv(1) i j(1)] that False u by auto
      show ?thesis
        using task_step_other [OF step own _ nowrap excl] each j(1) u by simp
    qed
  qed
  then show ?thesis
    using T q' task_step_life [OF step _ life] own task_step_gens [OF step own gens nowrap]
    by (simp add: lifecycle_ok_def quiet_of_def)
qed

lemma task_ok_bump:
  assumes "task_ok q st s t" "stdio_gen s \<noteq> - 1" "\<not> in_window t" "stdio_gen s' = stdio_gen s + 1"
  shows "task_ok q' st' s' t"
proof -
  have up: "older q'' (stdio_gen s') g" if "older p (stdio_gen s) g" for p q'' g
    using older_bump [OF assms(2) that] assms(4) by simp
  have ne: "\<not> older p (stdio_gen s) (stdio_gen s')" for p
    using up [of p "stdio_gen s'" True] by auto
  show ?thesis
    using assms(1,3) up ne by (cases t) auto
qed

lemma gens_ok_bump:
  assumes "gens_ok q s" "stdio_gen s \<noteq> - 1" "stdio_gen s' = stdio_gen s + 1"
    "readers s' = readers s" "pending_eof_gen s' = pending_eof_gen s"
  shows "gens_ok q' s'"
  using assms older_bump [OF assms(2)] by (auto simp: gens_ok_def)

lemma task_ok_same:
  "task_ok q st s t \<Longrightarrow> stdio_gen s' = stdio_gen s \<Longrightarrow> (child s = None \<Longrightarrow> child s' = None) \<Longrightarrow>
   (q' \<Longrightarrow> q) \<Longrightarrow> (st' \<Longrightarrow> q \<or> st) \<Longrightarrow> task_ok q' st' s' t"
  by (cases t) (auto simp: older_def)

lemma gens_ok_same:
  "gens_ok q s \<Longrightarrow> stdio_gen s' = stdio_gen s \<Longrightarrow> set (readers s') \<subseteq> set (readers s) \<Longrightarrow>
   pending_eof_gen s' = pending_eof_gen s \<Longrightarrow> (q' \<Longrightarrow> q) \<Longrightarrow> gens_ok q' s'"
  by (auto simp: gens_ok_def older_def)

text \<open>The step of the caller.\<close>

lemma life_step_parts:
  assumes step: "life_step good l s = (s', l')" and ok: "life_ok s l" and bump: "l \<noteq> ShutBump"
  shows "life_ok s' l'"
    and "quiet (shutdown_requested s') l' \<Longrightarrow> quiet (shutdown_requested s) l"
    and "child_starting l' \<Longrightarrow> quiet (shutdown_requested s) l \<or> child_starting l"
    and "child s = None \<Longrightarrow> child s' = None \<or> child_starting l"
    and "stdio_gen s' = stdio_gen s"
    and "pending_eof_gen s' = pending_eof_gen s"
    and "set (readers s') \<subseteq> set (readers s) \<union> (if child_starting l' then {(next_pid s, stdio_gen s)} else {})"
proof -
  show "life_ok s' l'"
    using step ok bump
    by (cases l) (auto simp: life_step_def Let_def spawn_child_def spawn_install_def spawn_starting_def
        write_health_if_current_def split: if_splits option.splits health_status.splits)
  show "quiet (shutdown_requested s') l' \<Longrightarrow> quiet (shutdown_requested s) l"
    using step ok bump
    by (cases l) (auto simp: life_step_def Let_def spawn_child_def spawn_install_def split: if_splits option.splits)
  show "child_starting l' \<Longrightarrow> quiet (shutdown_requested s) l \<or> child_starting l"
    using step ok bump
    by (cases l) (auto simp: life_step_def Let_def spawn_child_def spawn_install_def split: if_splits option.splits)
  show "child s = None \<Longrightarrow> child s' = None \<or> child_starting l"
    using step ok bump
    by (cases l) (auto simp: life_step_def Let_def spawn_child_def spawn_install_def split: if_splits option.splits)
  show "stdio_gen s' = stdio_gen s"
    using life_step_gen [OF step] bump by simp
  show "pending_eof_gen s' = pending_eof_gen s"
    using step by (cases l) (auto simp: life_step_def Let_def spawn_child_def spawn_install_def
        split: if_splits option.splits)
  show "set (readers s') \<subseteq> set (readers s) \<union> (if child_starting l' then {(next_pid s, stdio_gen s)} else {})"
    using step ok by (cases l) (auto simp: life_step_def Let_def spawn_child_def spawn_install_def
        split: if_splits option.splits)
qed

lemma lifecycle_call:
  assumes inv: "lifecycle_ok S" and calm: "calm (Call good) S"
  shows "lifecycle_ok (exec (Call good) S)"
proof -
  let ?s = "adapter S" and ?l = "caller S"
  obtain s' l' where step: "life_step good ?l ?s = (s', l')" by fastforce
  have life: "life_ok ?s ?l" and each: "\<And>u. u \<in> set (tasks S) \<Longrightarrow> task_ok (quiet_of S) (child_starting ?l) ?s u"
    and gens: "gens_ok (quiet_of S) ?s"
    using inv by (auto simp: lifecycle_ok_def)
  have T: "exec (Call good) S = S\<lparr>adapter := s', caller := l'\<rparr>" using step by simp
  show ?thesis
  proof (cases "?l = ShutBump")
    case True
    then have s': "s' = ?s\<lparr>stdio_gen := stdio_gen ?s + 1\<rparr>" and l': "l' = ShutHealth"
      using step by (auto simp: life_step_def)
    have nowrap: "stdio_gen ?s \<noteq> - 1" and window: "\<And>u. u \<in> set (tasks S) \<Longrightarrow> \<not> in_window u"
      using calm True by (auto simp: calm_def list_all_iff)
    show ?thesis
      using T s' l' life True task_ok_bump [OF each nowrap window, of _ s'] gens_ok_bump [OF gens nowrap, of s']
      by (simp add: lifecycle_ok_def)
  next
    case False
    note parts = life_step_parts [OF step life False]
    have q: "quiet_of S" if "quiet (shutdown_requested s') l'" using parts(2) that by (simp add: quiet_of_def)
    have "task_ok (quiet (shutdown_requested s') l') (child_starting l') s' u" if u: "u \<in> set (tasks S)" for u
    proof (cases "child_starting ?l")
      case True
      have nq: "\<not> quiet_of S" using True by (cases ?l) (auto simp: quiet_of_def)
      then have nq': "\<not> quiet (shutdown_requested s') l'" using q by blast
      show ?thesis
        using each [OF u] True parts(5) nq nq' by (cases u) (auto simp: older_def)
    next
      case False
      then have c: "child ?s = None \<Longrightarrow> child s' = None" using parts(4) by blast
      show ?thesis
        by (rule task_ok_same [OF each [OF u] parts(5) c q]) (use parts(3) False in \<open>auto simp: quiet_of_def\<close>)
    qed
    moreover have "gens_ok (quiet (shutdown_requested s') l') s'"
    proof -
      have "older (quiet (shutdown_requested s') l') (stdio_gen s') (snd r)" if "r \<in> set (readers s')" for r
      proof (cases "r \<in> set (readers ?s)")
        case True
        then show ?thesis using gens q parts(5) by (auto simp: gens_ok_def older_def)
      next
        case False
        then have "child_starting l'" "snd r = stdio_gen s'"
          using parts(5,7) that by (auto split: if_splits)
        then show ?thesis by (cases l') (auto simp: older_def)
      qed
      moreover have "older (quiet (shutdown_requested s') l') (stdio_gen s') (pending_eof_gen s')"
        if "pending_eof_gen s' \<noteq> NO_PENDING_EOF"
        using gens q parts(5,6) that by (auto simp: gens_ok_def older_def)
      ultimately show ?thesis by (simp add: gens_ok_def)
    qed
    ultimately show ?thesis using T parts(1) by (simp add: lifecycle_ok_def quiet_of_def)
  qed
qed

lemma lifecycle_begin:
  assumes inv: "lifecycle_ok S" and calm: "calm Begin_initialize S"
  shows "lifecycle_ok (exec Begin_initialize S)"
proof (cases "caller S = LifeIdle")
  case False
  then show ?thesis using inv by simp
next
  case True
  have nowrap: "stdio_gen (adapter S) \<noteq> - 1" and window: "\<And>u. u \<in> set (tasks S) \<Longrightarrow> \<not> in_window u"
    and none: "child (adapter S) = None"
    using calm True by (auto simp: calm_def list_all_iff)
  have each: "\<And>u. u \<in> set (tasks S) \<Longrightarrow> task_ok (quiet_of S) (child_starting (caller S)) (adapter S) u"
    and gens: "gens_ok (quiet_of S) (adapter S)"
    using inv by (auto simp: lifecycle_ok_def)
  show ?thesis
    using True none task_ok_bump [OF each nowrap window] gens_ok_bump [OF gens nowrap]
    by (simp add: lifecycle_ok_def initialize_begin_def)
qed

lemma lifecycle_exec:
  assumes "one_supervisor S" "lifecycle_ok S" "calm e S"
  shows "lifecycle_ok (exec e S)"
proof (cases e)
  case Begin_shutdown
  have "task_ok False False (adapter S\<lparr>shutdown_requested := True\<rparr>) u"
    if "u \<in> set (tasks S)" "caller S = LifeIdle" for u
    by (rule task_ok_same [of "quiet_of S" False "adapter S"]) (use assms(2) that in \<open>auto simp: lifecycle_ok_def\<close>)
  moreover have "gens_ok False (adapter S\<lparr>shutdown_requested := True\<rparr>)"
    by (rule gens_ok_same [of "quiet_of S" "adapter S"]) (use assms(2) in \<open>auto simp: lifecycle_ok_def\<close>)
  ultimately show ?thesis
    using Begin_shutdown assms(2) by (auto simp: lifecycle_ok_def shutdown_begin_def quiet_of_def)
next
  case (Exits pid)
  have "task_ok q st (kill_pid pid s) u = task_ok q st s u" for q st s u
    by (cases u) auto
  moreover have "life_ok (kill_pid pid s) l = life_ok s l" for s l
    by (cases l) auto
  ultimately show ?thesis
    using Exits assms(2) by (simp add: lifecycle_ok_def quiet_of_def gens_ok_def)
next
  case (Eof pid g)
  have "task_ok q st (abort_reader pid s) u = task_ok q st s u" for q st s u
    by (cases u) auto
  moreover have "life_ok (abort_reader pid s) l = life_ok s l" for s l
    by (cases l) auto
  ultimately show ?thesis
    using Eof assms(2) by (auto simp: lifecycle_ok_def quiet_of_def gens_ok_def)
qed (use assms lifecycle_task lifecycle_call lifecycle_begin in auto)


section \<open>Every running process has an owner\<close>

lemma task_step_holds:
  assumes step: "task_step now good t s = (s', t')" and ok: "task_ok q st s t" and run: "pid \<in> set (running s')"
  shows "task_holds pid t' \<or>
    pid \<in> set (running s) \<and> (child s = Some pid \<longrightarrow> child s' = Some pid) \<and>
    (task_holds pid t \<longrightarrow> child s' = Some pid)"
  using assms
  by (cases t) (auto simp: task_step_def Let_def spawn_child_def spawn_install_def spawn_starting_def
      write_health_if_current_def kill_child_quiet_def kill_pid_def spawn_discard_def abort_reader_def
      split: if_splits option.splits prod.splits)

lemma life_step_holds:
  assumes step: "life_step good l s = (s', l')" and ok: "life_ok s l" and run: "pid \<in> set (running s')"
  shows "life_holds pid l' \<or>
    pid \<in> set (running s) \<and> (child s = Some pid \<longrightarrow> child s' = Some pid) \<and>
    (life_holds pid l \<longrightarrow> child s' = Some pid)"
  using assms
  by (cases l) (auto simp: life_step_def Let_def spawn_child_def spawn_install_def spawn_starting_def
      write_health_if_current_def kill_child_quiet_def kill_pid_def spawn_discard_def abort_reader_def
      split: if_splits option.splits prod.splits)

lemma accounted_exec:
  assumes inv: "lifecycle_ok S" "accounted S"
  shows "accounted (exec e S)"
proof (cases e)
  case (Task i now good)
  show ?thesis
  proof (cases "i < length (tasks S)")
    case False
    then show ?thesis using Task inv by simp
  next
    case i: True
    obtain s' t' where step: "task_step now good (tasks S ! i) (adapter S) = (s', t')" by fastforce
    have ok: "task_ok (quiet_of S) (child_starting (caller S)) (adapter S) (tasks S ! i)"
      using inv(1) i by (auto simp: lifecycle_ok_def)
    have "child s' = Some pid \<or> life_holds pid (caller S) \<or> (\<exists>t \<in> set ((tasks S)[i := t']). task_holds pid t)"
      if run: "pid \<in> set (running s')" for pid
      using task_step_holds [OF step ok run]
    proof
      assume "task_holds pid t'"
      then show ?thesis using i by (metis set_update_memI)
    next
      assume h: "pid \<in> set (running (adapter S)) \<and> (child (adapter S) = Some pid \<longrightarrow> child s' = Some pid) \<and>
        (task_holds pid (tasks S ! i) \<longrightarrow> child s' = Some pid)"
      then consider "child (adapter S) = Some pid" | "life_holds pid (caller S)"
        | t where "t \<in> set (tasks S)" "task_holds pid t"
        using inv(2) by (auto simp: accounted_def)
      then show ?thesis
      proof cases
        case (3 t)
        then obtain j where "j < length (tasks S)" "tasks S ! j = t" by (auto simp: in_set_conv_nth)
        then show ?thesis using h 3 by (cases "j = i") (auto, metis length_list_update nth_list_update_neq nth_mem)
      qed (use h in auto)
    qed
    then show ?thesis using Task step i by (simp add: accounted_def)
  qed
next
  case (Call good)
  obtain s' l' where step: "life_step good (caller S) (adapter S) = (s', l')" by fastforce
  have "life_ok (adapter S) (caller S)" using inv(1) by (simp add: lifecycle_ok_def)
  from life_step_holds [OF step this] show ?thesis
    using Call step inv(2) by (fastforce simp: accounted_def)
qed (use inv in \<open>auto simp: accounted_def shutdown_begin_def initialize_begin_def kill_pid_def abort_reader_def\<close>)

lemma new_system_ok: "one_supervisor new_system" "lifecycle_ok new_system" "accounted new_system"
  by (rule start_invariants(1))
    (simp_all add: lifecycle_ok_def accounted_def new_system_def new_stdio_def gens_ok_def quiet_of_def)

lemma calm_run_ok:
  assumes "calm_run es S" "one_supervisor S" "lifecycle_ok S" "accounted S"
  shows "lifecycle_ok (apply_all exec es S) \<and> accounted (apply_all exec es S)"
  using assms
proof (induction es arbitrary: S)
  case Nil
  then show ?case by simp
next
  case (Cons e es)
  then show ?case using one_supervisor_exec lifecycle_exec accounted_exec by simp
qed

lemma shutdown_reaps_every_child_parts:
  assumes calm: "calm_run es new_system" and S: "S = apply_all exec es new_system"
    and shut: "caller S = LifeIdle" "shutdown_requested (adapter S)" and pid: "pid \<in> set (running (adapter S))"
  shows "child (adapter S) = None"
    and "\<exists>i a. i < length (tasks S) \<and>
      (tasks S ! i = Discard a pid \<or> (\<exists>g. tasks S ! i = Install a g pid \<and>
        tasks (exec (Task i now good) S) ! i = Discard a pid \<and> adapter (exec (Task i now good) S) = adapter S))"
    and "tasks S ! i = Discard a pid \<Longrightarrow> i < length (tasks S) \<Longrightarrow>
      pid \<notin> set (running (adapter (exec (Task i now good) S)))"
proof -
  have inv: "lifecycle_ok S" "accounted S"
    using calm_run_ok [OF calm new_system_ok] S by simp_all
  show none: "child (adapter S) = None"
    using inv(1) shut by (simp add: lifecycle_ok_def)
  then obtain t where t: "t \<in> set (tasks S)" "task_holds pid t"
    using inv(2) pid shut(1) by (auto simp: accounted_def)
  then obtain i where i: "i < length (tasks S)" "tasks S ! i = t" by (auto simp: in_set_conv_nth)
  have q: "quiet_of S" using shut by (simp add: quiet_of_def)
  show "\<exists>i a. i < length (tasks S) \<and>
      (tasks S ! i = Discard a pid \<or> (\<exists>g. tasks S ! i = Install a g pid \<and>
        tasks (exec (Task i now good) S) ! i = Discard a pid \<and> adapter (exec (Task i now good) S) = adapter S))"
  proof (cases t)
    case (Install a g p)
    then have "task_ok True (child_starting (caller S)) (adapter S) (Install a g pid)"
      using inv(1) t q by (auto simp: lifecycle_ok_def)
    then have "g \<noteq> stdio_gen (adapter S)" by (auto simp: older_def)
    then have "task_step now good (Install a g pid) (adapter S) = (adapter S, Discard a pid)"
      by (simp add: stale_steps)
    then show ?thesis using i Install t by (intro exI [of _ i]) auto
  qed (use t i in auto)
  show "pid \<notin> set (running (adapter (exec (Task i now good) S)))"
    if "tasks S ! i = Discard a pid" "i < length (tasks S)" for i a
    using that by (simp add: task_step_def spawn_discard_def kill_pid_def abort_reader_def)
qed


text \<open>
  A run used below: the endpoint starts (generation 1, child 0), the child dies, its hook and the
  supervisor it starts take their steps; then a shutdown runs to its end.
\<close>

lemmas run_simps = new_stdio_def initialize_begin_def shutdown_begin_def life_step_def task_step_def
  spawn_starting_def spawn_child_def spawn_install_def write_health_if_current_def kill_pid_def
  abort_reader_def kill_child_quiet_def spawn_discard_def

lemma replicate_steps:
  "replicate 5 x = [x, x, x, x, x]"
  "replicate 8 x = [x, x, x, x, x, x, x, x]"
  "replicate 10 x = [x, x, x, x, x, x, x, x, x, x]"
  "replicate 11 x = [x, x, x, x, x, x, x, x, x, x, x]"
  by (simp_all add: numeral_eq_Suc)

definition start_and_crash :: "event list" where
  "start_and_crash = Begin_initialize # replicate 8 (Call True) @ [Exits 0, Eof 0 1]"

definition supervise :: "nat \<Rightarrow> event list" where
  "supervise n = replicate n (Task 0 0 True)"

definition shut_down :: "event list" where
  "shut_down = Begin_shutdown # replicate 5 (Call True)"

lemma calm_run_append: "calm_run (es @ fs) S = (calm_run es S \<and> calm_run fs (apply_all exec es S))"
  by (induction es arbitrary: S) auto

definition crashed_system :: system where
  "crashed_system = \<lparr>adapter = new_stdio\<lparr>stdin_writer := Some 0, child := Some 0, stdout_handle := Some 0,
     stdio_health := Healthy, crash_state := crash_reset crash_new, stdio_gen := 1, next_pid := 1\<rparr>,
     caller = LifeIdle, tasks = [HookFlag 1]\<rparr>"

lemma start_and_crash_run:
  "apply_all exec start_and_crash new_system = crashed_system" "calm_run start_and_crash new_system"
  by (simp_all add: start_and_crash_def crashed_system_def new_system_def calm_def replicate_steps run_simps)

definition crashed_once :: crash_tracker where
  "crashed_once = fst (record_crash 0 (crash_reset crash_new))"

lemma first_crash: "record_crash 0 (crash_reset crash_new) = (crashed_once, False, seconds 1)"
  by (simp add: crashed_once_def record_crash_def crash_reset_def crash_new_def backoff_for_def backoff_units_def)

definition claimed_system :: "nat option \<Rightarrow> task \<Rightarrow> system" where
  "claimed_system c t = \<lparr>adapter = new_stdio\<lparr>stdin_writer := Some 0, child := c, stdout_handle := Some 0,
     stdio_health := Healthy, crash_state := crashed_once, stdio_gen := 2,
     respawning := True, next_pid := 1\<rparr>, caller = LifeIdle, tasks = [t]\<rparr>"

lemma supervise_to_reap:
  "apply_all exec (supervise 10) crashed_system = claimed_system None (DropStdin 2)"
  "calm_run (supervise 10) crashed_system"
  by (simp_all add: supervise_def crashed_system_def claimed_system_def calm_def task_bumps_def first_crash replicate_steps run_simps)

lemma supervise_to_install:
  "apply_all exec (supervise 5) (claimed_system None (DropStdin 2)) =
     (claimed_system None (Install 2 2 1))
       \<lparr>adapter := (adapter (claimed_system None (DropStdin 2)))
         \<lparr>stdin_writer := None, stdout_handle := None, stdio_health := Starting, running := [1],
          readers := [(1, 2)], next_pid := 2\<rparr>\<rparr>"
  "calm_run (supervise 5) (claimed_system None (DropStdin 2))"
  by (simp_all add: supervise_def claimed_system_def calm_def task_bumps_def replicate_steps run_simps)

definition late_shutdown :: "event list" where
  "late_shutdown = start_and_crash @ supervise 10 @ supervise 5 @ shut_down"


text \<open>A shutdown that lands in the window leaks a process. The supervisor has claimed its attempt and
  taken the dead child out of the slot; the shutdown bumps the generation, finds no child to kill and
  returns; \<^verbatim>\<open>spawn_process\<close> then loads the bumped generation, so its install guard passes. In the final
  state every task has ended, the endpoint is shut down and Stopped, and a child process runs in the
  slot.\<close>

theorem shutdown_race_leaks_child:
  "let S = apply_all exec (start_and_crash @ supervise 10 @ shut_down @ supervise 11) new_system in
     caller S = LifeIdle \<and> shutdown_requested (adapter S) \<and> stdio_health (adapter S) = Stopped \<and>
     tasks S = [Finished] \<and> running (adapter S) = [1] \<and> child (adapter S) = Some 1"
  unfolding apply_all_append start_and_crash_run supervise_to_reap
  by (simp add: shut_down_def supervise_def claimed_system_def replicate_steps run_simps)

end
