(* ===== verification/Stdio_Calls.thy ===== *)
theory Stdio_Calls
  imports Names Protocol Adapter_Core
begin

text \<open>
  The requests of a stdio endpoint (\<^verbatim>\<open>src/adapter/stdio.rs\<close>): how a request is addressed and its
  answer dispatched back to its caller by id, what the caller gets in each outcome, and the
  handshake, which probes for a stateless upstream before it falls back to \<^verbatim>\<open>initialize\<close>. Parsing a
  line is an argument (\<^verbatim>\<open>serde_json::from_str\<close>), and so are the answers of the upstream.
\<close>

section \<open>Outgoing requests\<close>

definition RELAY_VERSION :: string where
  "RELAY_VERSION = ''0.1.14''"

definition relay_client_info :: json where
  "relay_client_info = JObj [(''name'', JStr ''endara-relay''), (''version'', JStr RELAY_VERSION)]"

text \<open>\<^verbatim>\<open>params["_meta"]\<close> of an object without the key reads as null, so it is replaced by an object.\<close>

definition inject_client_info :: "json option \<Rightarrow> json option" where
  "inject_client_info params =
     Some (case unwrap_or (JObj []) params of
       JObj m \<Rightarrow>
         (let meta = (case hm_get m ''_meta'' of Some (JObj mm) \<Rightarrow> mm | _ \<Rightarrow> [])
          in JObj (hm_insert ''_meta'' (JObj (hm_insert META_CLIENT_INFO_KEY relay_client_info meta)) m))
     | v \<Rightarrow> v)"

definition outgoing_params :: "protocol_version \<Rightarrow> json option \<Rightarrow> json option" where
  "outgoing_params dialect params = (if is_2026 dialect then inject_client_info params else params)"

lemma meta_client_info_inject:
  assumes "params = None \<or> (\<exists>m. params = Some (JObj m))"
  shows "meta_client_info (inject_client_info params) = Some relay_client_info"
  using assms
  by (auto simp: meta_client_info_def inject_client_info_def Let_def hm_get_insert hm_get_Cons)

lemma inject_keeps_params:
  assumes "k \<noteq> ''_meta''"
  shows "opt_get (inject_client_info (Some (JObj m))) k = hm_get m k"
  using assms by (simp add: inject_client_info_def Let_def hm_get_insert)

section \<open>Dispatching answers\<close>

text \<open>
  \<open>pending\<close> holds the one-shot senders, a sender standing for the request that created it; the calls
  made so far are numbered. \<open>delivered\<close> records which request got which line.
\<close>

record request_table =
  request_id :: u64
  pending_requests :: "(u64, nat) hashmap"
  calls_made :: nat
  delivered :: "(nat \<times> string) list"

definition new_table :: request_table where
  "new_table = \<lparr>request_id = 1, pending_requests = [], calls_made = 0, delivered = []\<rparr>"

text \<open>\<^verbatim>\<open>next_id\<close> and the insertion before the write.\<close>

definition register_call :: "request_table \<Rightarrow> request_table \<times> u64" where
  "register_call t =
     (t\<lparr>request_id := request_id t + 1, pending_requests := hm_insert (request_id t) (calls_made t) (pending_requests t),
        calls_made := calls_made t + 1\<rparr>, request_id t)"

definition forget_call :: "u64 \<Rightarrow> request_table \<Rightarrow> request_table" where
  "forget_call i t = t\<lparr>pending_requests := hm_remove i (pending_requests t)\<rparr>"

datatype line_effect = Answer u64 | UnknownId u64 | ToolsChanged | Dropped | NotJson

definition on_line :: "(string \<Rightarrow> json option) \<Rightarrow> string \<Rightarrow> request_table \<Rightarrow> request_table \<times> line_effect" where
  "on_line parse line t =
     (case parse line of
        None \<Rightarrow> (t, NotJson)
      | Some obj \<Rightarrow>
         (case Option.bind (json_get obj ''id'') json_u64 of
            Some i \<Rightarrow>
              (case hm_get (pending_requests t) i of
                 Some w \<Rightarrow> (t\<lparr>pending_requests := hm_remove i (pending_requests t),
                              delivered := (w, line) # delivered t\<rparr>, Answer i)
               | None \<Rightarrow> (t, UnknownId i))
          | None \<Rightarrow>
              (t, if Option.bind (json_get obj ''method'') json_str = Some ''notifications/tools/list_changed''
                  then ToolsChanged else Dropped)))"

text \<open>The end of the output: the callers still waiting are dropped, unless a newer lifecycle owns the
  table.\<close>

definition on_eof :: "u64 \<Rightarrow> u64 \<Rightarrow> request_table \<Rightarrow> request_table" where
  "on_eof spawn_gen generation t = (if generation = spawn_gen then t\<lparr>pending_requests := []\<rparr> else t)"

datatype table_event =
    Register
  | Forget u64
  | Line string
  | End u64 u64

fun table_step :: "(string \<Rightarrow> json option) \<Rightarrow> table_event \<Rightarrow> request_table \<Rightarrow> request_table" where
  "table_step parse Register t = fst (register_call t)"
| "table_step parse (Forget i) t = forget_call i t"
| "table_step parse (Line l) t = fst (on_line parse l t)"
| "table_step parse (End g g') t = on_eof g g' t"

definition call_id :: "nat \<Rightarrow> u64" where
  "call_id w = of_nat (Suc w)"

definition table_ok :: "(string \<Rightarrow> json option) \<Rightarrow> request_table \<Rightarrow> bool" where
  "table_ok parse t =
     (request_id t = call_id (calls_made t) \<and>
      (\<forall>p \<in> set (pending_requests t). fst p = call_id (snd p) \<and> snd p < calls_made t) \<and>
      (\<forall>d \<in> set (delivered t). fst d < calls_made t \<and>
        Option.bind (parse (snd d)) (\<lambda>obj. Option.bind (json_get obj ''id'') json_u64) = Some (call_id (fst d))) \<and>
      hm_wf (pending_requests t) \<and> distinct (map fst (delivered t)) \<and>
      fst ` set (delivered t) \<inter> snd ` set (pending_requests t) = {})"

lemma call_id_inject: "v < 2 ^ 64 - 1 \<Longrightarrow> w < 2 ^ 64 - 1 \<Longrightarrow> call_id v = call_id w \<longleftrightarrow> v = w"
proof -
  assume v: "v < 2 ^ 64 - 1" and w: "w < 2 ^ 64 - 1"
  have "unat (of_nat (Suc n) :: u64) = Suc n" if "n < 2 ^ 64 - 1" for n
    using that by (simp only: unat_of_nat) (simp add: take_bit_nat_eq_self)
  from this [OF v] this [OF w] show ?thesis
    unfolding call_id_def by (metis Suc_inject)
qed

lemma table_ok_register:
  assumes ok: "table_ok parse t" and room: "calls_made t < 2 ^ 64 - 1"
  shows "table_ok parse (fst (register_call t))"
proof -
  let ?n = "calls_made t"
  have fresh: "hm_get (pending_requests t) (call_id ?n) = None"
  proof (rule ccontr)
    assume "hm_get (pending_requests t) (call_id ?n) \<noteq> None"
    then obtain w where "(call_id ?n, w) \<in> set (pending_requests t)"
      using hm_get_in_set by fast
    then have "call_id ?n = call_id w" "w < ?n"
      using ok by (auto simp: table_ok_def)
    then show False using room call_id_inject [of ?n w] by simp
  qed
  have set: "set (hm_insert (request_id t) ?n (pending_requests t)) \<subseteq> insert (call_id ?n, ?n) (set (pending_requests t))"
    using hm_set_insert ok by (fastforce simp: table_ok_def)
  have new: "?n \<notin> fst ` set (delivered t)" using ok by (auto simp: table_ok_def)
  have idn: "request_id t + 1 = call_id (Suc ?n)" using ok by (simp add: table_ok_def call_id_def)
  let ?t = "fst (register_call t)"
  have fields: "request_id ?t = request_id t + 1" "calls_made ?t = Suc ?n" "delivered ?t = delivered t"
    "pending_requests ?t = hm_insert (request_id t) ?n (pending_requests t)"
    by (simp_all add: register_call_def)
  have pend: "fst p = call_id (snd p) \<and> snd p < Suc ?n" if p: "p \<in> set (pending_requests ?t)" for p
  proof (cases "p = (call_id ?n, ?n)")
    case False
    then have "p \<in> set (pending_requests t)" using p set by (auto simp: fields)
    then show ?thesis using ok by (auto simp: table_ok_def)
  qed simp
  have apart: "w \<notin> snd ` set (pending_requests ?t)" if w: "w \<in> fst ` set (delivered t)" for w
  proof
    assume "w \<in> snd ` set (pending_requests ?t)"
    then have "w = ?n \<or> w \<in> snd ` set (pending_requests t)" using set by (auto simp: fields)
    then show False using w new ok by (auto simp: table_ok_def)
  qed
  have del: "fst d < Suc ?n \<and>
      Option.bind (parse (snd d)) (\<lambda>obj. Option.bind (json_get obj ''id'') json_u64) = Some (call_id (fst d))"
    if "d \<in> set (delivered t)" for d
    using ok that by (auto simp: table_ok_def less_SucI)
  have "distinct (map fst (delivered t))" "hm_wf (pending_requests ?t)"
    using ok by (auto simp: table_ok_def fields)
  then show ?thesis
    unfolding table_ok_def using idn pend apart del by (auto simp: fields)
qed

lemma table_ok_step:
  assumes "table_ok parse t" "e = Register \<Longrightarrow> calls_made t < 2 ^ 64 - 1"
  shows "table_ok parse (table_step parse e t)"
proof (cases e)
  case Register
  then show ?thesis using assms table_ok_register by simp
next
  case (Forget i)
  then show ?thesis using assms by (auto simp: table_ok_def forget_call_def hm_remove_def hm_wf_filter)
next
  case (End g g')
  then show ?thesis using assms by (auto simp: table_ok_def on_eof_def)
next
  case (Line l)
  show ?thesis
  proof (cases "snd (on_line parse l t)")
    case (Answer i)
    then obtain obj w where p: "parse l = Some obj" "Option.bind (json_get obj ''id'') json_u64 = Some i"
      and w: "hm_get (pending_requests t) i = Some w"
      by (auto simp: on_line_def split: option.splits if_splits)
    have wset: "(i, w) \<in> set (pending_requests t)" using w hm_get_in_set by fast
    then have i: "i = call_id w" and lt: "w < calls_made t" using assms(1) by (auto simp: table_ok_def)
    have new: "w \<notin> fst ` set (delivered t)" using assms(1) wset by (force simp: table_ok_def)
    have gone: "w \<notin> snd ` set (hm_remove i (pending_requests t))"
      using assms(1) i by (auto simp: table_ok_def hm_remove_def)
    have "table_step parse e t = t\<lparr>pending_requests := hm_remove i (pending_requests t), delivered := (w, l) # delivered t\<rparr>"
      using Line p w by (simp add: on_line_def)
    then show ?thesis
      using assms(1) new gone lt i p by (auto simp: table_ok_def hm_remove_def hm_wf_filter)
  qed (use assms(1) Line in \<open>auto simp: on_line_def split: option.splits if_splits\<close>)
qed

lemma calls_step: "calls_made (table_step parse e t) = calls_made t + (if e = Register then 1 else 0)"
  by (cases e) (auto simp: register_call_def forget_call_def on_line_def on_eof_def split: option.splits)

lemma table_ok_run:
  assumes "table_ok parse t" "calls_made t + length (filter (\<lambda>e. e = Register) es) < 2 ^ 64"
  shows "table_ok parse (apply_all (table_step parse) es t)"
  using assms
proof (induction es arbitrary: t)
  case Nil
  then show ?case by simp
next
  case (Cons e es)
  have "table_ok parse (table_step parse e t)"
    using Cons.prems by (intro table_ok_step) auto
  moreover have "calls_made (table_step parse e t) + length (filter (\<lambda>e. e = Register) es) < 2 ^ 64"
    using Cons.prems(2) by (simp add: calls_step split: if_splits)
  ultimately show ?case using Cons.IH by simp
qed

lemma answers_correlated_parts:
  assumes "length (filter (\<lambda>e. e = Register) es) < 2 ^ 64"
    and "t = apply_all (table_step parse) es new_table"
  shows "(w, line) \<in> set (delivered t) \<Longrightarrow>
      Option.bind (parse line) (\<lambda>obj. Option.bind (json_get obj ''id'') json_u64) = Some (call_id w)"
    and "distinct (map fst (delivered t))"
    and "(w, line) \<in> set (delivered t) \<Longrightarrow> w \<notin> snd ` set (pending_requests t)"
    and "pending_requests (on_eof g g t) = []"
proof -
  have "table_ok parse new_table"
    by (simp add: table_ok_def new_table_def call_id_def)
  then have ok: "table_ok parse t"
    using table_ok_run assms by (simp add: new_table_def)
  then show "distinct (map fst (delivered t))" by (simp add: table_ok_def)
  show "Option.bind (parse line) (\<lambda>obj. Option.bind (json_get obj ''id'') json_u64) = Some (call_id w)"
    if "(w, line) \<in> set (delivered t)" using ok that by (force simp: table_ok_def)
  show "w \<notin> snd ` set (pending_requests t)" if "(w, line) \<in> set (delivered t)"
    using ok that by (force simp: table_ok_def)
qed (simp add: on_eof_def)

text \<open>Answers reach their own callers. In every interleaving of requests, timeouts, output lines and
  ends of output (fewer than 2^64 requests), the line delivered to a caller is one whose id is the
  caller's request id, no caller gets two answers, no answered caller is still waiting, and the end
  of the output of the current process leaves nobody waiting.\<close>

theorem answers_correlated:
  assumes "length (filter (\<lambda>e. e = Register) es) < 2 ^ 64"
    and "t = apply_all (table_step parse) es new_table"
  shows "((w, line) \<in> set (delivered t) \<longrightarrow>
      Option.bind (parse line) (\<lambda>obj. Option.bind (json_get obj ''id'') json_u64) = Some (call_id w) \<and>
      w \<notin> snd ` set (pending_requests t)) \<and>
    distinct (map fst (delivered t)) \<and> pending_requests (on_eof g g t) = []"
  using answers_correlated_parts [OF assms] by blast

definition sample_line :: "string \<Rightarrow> json option" where
  "sample_line l = (if l = ''a'' then Some (JObj [(''id'', JNum (JPos 1))]) else None)"

theorem answers_correlated_witness:
  "Option.bind (sample_line ''a'') (\<lambda>obj. Option.bind (json_get obj ''id'') json_u64) = Some (call_id 0)"
  by (rule answers_correlated [of "[Register, Line ''a'']", OF _ refl, THEN conjunct1, THEN mp, THEN conjunct1])
    (simp_all add: new_table_def register_call_def on_line_def sample_line_def hm_get_Cons)

section \<open>Outcomes\<close>

definition CRASH_USER_MESSAGE :: string where
  "CRASH_USER_MESSAGE = ''Server failed to start. See Logs tab for details.''"

definition crashed_error :: adapter_error where
  "crashed_error = ProcessCrashed CRASH_USER_MESSAGE"

text \<open>How the exchange ends for the caller: no pipe, a failed write, the sender dropped by the end of the
  output, thirty seconds without an answer, or the answering line.\<close>

datatype exchange = NoPipe | WriteFailed | SenderDropped | TimedOut | Answered string

definition request_outcome :: "(string \<Rightarrow> string + jsonrpc_response) \<Rightarrow> exchange \<Rightarrow> adapter_error + json" where
  "request_outcome decode x =
     (case x of
        NoPipe \<Rightarrow> Inl NotInitialized
      | WriteFailed \<Rightarrow> Inl crashed_error
      | SenderDropped \<Rightarrow> Inl crashed_error
      | TimedOut \<Rightarrow> Inl (Timeout 30)
      | Answered line \<Rightarrow>
         (case decode line of
            Inl e \<Rightarrow> Inl (ProtocolError (''invalid JSON-RPC response: '' @ e))
          | Inr r \<Rightarrow>
             (case rs_error r of
                Some err \<Rightarrow> Inl (JsonRpcError (err_code err) (err_message err) (err_data err))
              | None \<Rightarrow>
                 (case rs_result r of
                    Some v \<Rightarrow> Inr v
                  | None \<Rightarrow> Inl (ProtocolError ''response has no result'')))))"

text \<open>External callers fail fast while a respawn is in flight.\<close>

definition send_external_request :: "bool \<Rightarrow> health_status \<Rightarrow> (unit \<Rightarrow> adapter_error + json) \<Rightarrow> adapter_error + json" where
  "send_external_request respawning health send =
     (if respawning \<and> health \<noteq> Healthy then Inl crashed_error else send ())"

section \<open>The handshake\<close>

text \<open>\<open>debug\<close> renders a string as Rust's \<^verbatim>\<open>{:?}\<close> does; it only reaches the text of an error.\<close>

definition server_name_message :: "(string \<Rightarrow> string) \<Rightarrow> (nat \<Rightarrow> string) \<Rightarrow> server_name_error \<Rightarrow> string" where
  "server_name_message debug decimal e =
     (case e of
        NameMissing \<Rightarrow> ''server did not report `serverInfo.name` in initialize response''
      | NameEmpty \<Rightarrow> ''`serverInfo.name` was present but empty after trimming''
      | Unsanitizable raw \<Rightarrow> ''`serverInfo.name` '' @ debug raw @ '' reduced to empty after sanitization''
      | TooLong len \<Rightarrow> ''`serverInfo.name` length '' @ decimal len @ '' exceeds 64-character limit'')"

record upstream_view =
  upstream_dialect :: protocol_version
  view_server_type :: "string option"
  view_upstream_name :: "string option"

definition server_info_name :: "json \<Rightarrow> string option" where
  "server_info_name result =
     Option.bind (json_get result ''serverInfo'') (\<lambda>si. Option.bind (json_get si ''name'') json_str)"

definition apply_server_identity ::
  "(server_name_error \<Rightarrow> string) \<Rightarrow> string option \<Rightarrow> json \<Rightarrow> upstream_view \<Rightarrow> upstream_view \<times> (adapter_error + unit)" where
  "apply_server_identity message override result v =
     (case server_info_name result of
        None \<Rightarrow> (v, Inl (ProtocolError (message NameMissing)))
      | Some raw \<Rightarrow>
         (case sanitize_server_name raw of
            Inl e \<Rightarrow> (v, Inl (ProtocolError (message e)))
          | Inr sanitized \<Rightarrow>
              (v\<lparr>view_server_type := effective_server_type override (Some sanitized),
                 view_upstream_name := Some (strip_mcp_server_suffix sanitized)\<rparr>, Inr ())))"

text \<open>
  \<open>ask\<close> is the upstream: the result of a request with the given method and parameters. A probe that
  takes longer than three seconds counts as no answer. The messages sent are returned in order.
\<close>

type_synonym upstream = "string \<Rightarrow> json option \<Rightarrow> adapter_error + json"

definition probe_params :: "upstream_view \<Rightarrow> json option" where
  "probe_params v = outgoing_params (upstream_dialect v) (inject_client_info None)"

definition try_discover_probe :: "upstream \<Rightarrow> bool \<Rightarrow> upstream_view \<Rightarrow> json option" where
  "try_discover_probe ask in_time v =
     (if in_time then ok (ask ''server/discover'' (probe_params v)) else None)"

definition initialize_params :: json where
  "initialize_params = JObj [
     (''protocolVersion'', JStr (version_str V2024_11_05)),
     (''capabilities'', JObj []),
     (''clientInfo'', JObj [(''name'', JStr ''endara-relay''), (''version'', JStr RELAY_VERSION)])]"

definition mcp_initialize ::
  "(server_name_error \<Rightarrow> string) \<Rightarrow> string option \<Rightarrow> upstream \<Rightarrow> bool \<Rightarrow> upstream_view \<Rightarrow>
   upstream_view \<times> (adapter_error + unit) \<times> (string \<times> json option) list" where
  "mcp_initialize message override ask in_time v =
     (let discover_result = try_discover_probe ask in_time v;
          sent = [(''server/discover'', probe_params v)]
      in if is_2026 (detect_upstream_dialect discover_result None)
         then (let (v', r) = apply_server_identity message override (the discover_result)
                               (v\<lparr>upstream_dialect := V2026_07_28\<rparr>)
               in (v', r, sent))
         else (let params = outgoing_params (upstream_dialect v) (Some initialize_params);
                   sent2 = sent @ [(''initialize'', params)]
               in case ask ''initialize'' params of
                    Inl e \<Rightarrow> (v, Inl e, sent2)
                  | Inr result \<Rightarrow>
                     (case apply_server_identity message override result v of
                        (v1, Inl e) \<Rightarrow> (v1, Inl e, sent2)
                      | (v1, Inr u) \<Rightarrow>
                         (let d = detect_upstream_dialect discover_result (Some result)
                          in (v1\<lparr>upstream_dialect := d\<rparr>, Inr (),
                              sent2 @ [(''notifications/initialized'', outgoing_params d None)])))))"

definition identity_accepted :: "json \<Rightarrow> bool" where
  "identity_accepted result = (case server_info_name result of None \<Rightarrow> False | Some raw \<Rightarrow> is_ok (sanitize_server_name raw))"

lemma apply_server_identity_cases:
  "snd (apply_server_identity message override result v) = Inr () \<longleftrightarrow> identity_accepted result"
  "\<not> identity_accepted result \<Longrightarrow> fst (apply_server_identity message override result v) = v"
  "upstream_dialect (fst (apply_server_identity message override result v)) = upstream_dialect v"
  by (auto simp: apply_server_identity_def identity_accepted_def is_ok_def split: option.splits sum.splits)

lemma detect_2026_alone:
  "is_2026 (detect_upstream_dialect d None) \<longleftrightarrow>
     (\<exists>r. d = Some r \<and> protocol_version_from_result r = Some V2026_07_28)"
  by (cases d) (auto simp: detect_upstream_dialect_def is_2026_def LEGACY_DEFAULT_def split: option.splits)

lemma detect_legacy_result:
  "\<not> is_2026 (detect_upstream_dialect d None) \<Longrightarrow>
   detect_upstream_dialect d (Some r) = unwrap_or LEGACY_DEFAULT (protocol_version_from_result r)"
  by (auto simp: detect_upstream_dialect_def is_2026_def split: option.splits)

lemma handshake_outcome_parts:
  fixes ask :: upstream and v :: upstream_view
  assumes run: "mcp_initialize message override ask in_time v = (v', r, sent)"
  defines "stateless \<equiv> in_time \<and>
    (\<exists>d. ask ''server/discover'' (probe_params v) = Inr d \<and> protocol_version_from_result d = Some V2026_07_28)"
  defines "answer \<equiv> (if stateless then ask ''server/discover'' (probe_params v)
    else ask ''initialize'' (outgoing_params (upstream_dialect v) (Some initialize_params)))"
  shows "r = Inr () \<longleftrightarrow> (\<exists>result. answer = Inr result \<and> identity_accepted result)"
    and "map fst sent = (if stateless then [''server/discover'']
      else [''server/discover'', ''initialize''] @ (if r = Inr () then [''notifications/initialized''] else []))"
    and "r = Inr () \<Longrightarrow> upstream_dialect v' =
      (if stateless then V2026_07_28 else unwrap_or LEGACY_DEFAULT (protocol_version_from_result (projr answer)))"
    and "r \<noteq> Inr () \<Longrightarrow> view_server_type v' = view_server_type v \<and> view_upstream_name v' = view_upstream_name v"
proof -
  let ?d = "try_discover_probe ask in_time v"
  have stateless: "stateless = is_2026 (detect_upstream_dialect ?d None)"
    by (auto simp: stateless_def detect_2026_alone try_discover_probe_def ok_def split: sum.splits)
  note ident = apply_server_identity_cases
  have all: "(r = Inr () \<longleftrightarrow> (\<exists>result. answer = Inr result \<and> identity_accepted result)) \<and>
      map fst sent = (if stateless then [''server/discover'']
        else [''server/discover'', ''initialize''] @ (if r = Inr () then [''notifications/initialized''] else [])) \<and>
      (r = Inr () \<longrightarrow> upstream_dialect v' =
        (if stateless then V2026_07_28 else unwrap_or LEGACY_DEFAULT (protocol_version_from_result (projr answer)))) \<and>
      (r \<noteq> Inr () \<longrightarrow> view_server_type v' = view_server_type v \<and> view_upstream_name v' = view_upstream_name v)"
  proof (cases stateless)
    case True
    then obtain d where d: "in_time" "ask ''server/discover'' (probe_params v) = Inr d"
      by (auto simp: stateless_def)
    then have probe: "?d = Some d" by (simp add: try_discover_probe_def)
    let ?v = "v\<lparr>upstream_dialect := V2026_07_28\<rparr>"
    obtain w e where w: "apply_server_identity message override d ?v = (w, e)" by fastforce
    then have out: "v' = w" "r = e" "sent = [(''server/discover'', probe_params v)]"
      using run True stateless probe by (auto simp: mcp_initialize_def)
    show ?thesis
      using True out d ident [where result = d and message = message and override = override and v = ?v] w by (auto simp: answer_def)
  next
    case False
    let ?a = "ask ''initialize'' (outgoing_params (upstream_dialect v) (Some initialize_params))"
    show ?thesis
    proof (cases ?a)
      case (Inl e)
      then show ?thesis using run False stateless by (auto simp: mcp_initialize_def answer_def)
    next
      case (Inr result)
      obtain w e where w: "apply_server_identity message override result v = (w, e)" by fastforce
      show ?thesis
      proof (cases e)
        case (Inl x)
        then have "\<not> identity_accepted result" using ident(1) [where result = result and message = message and override = override and v = v] w by auto
        then show ?thesis
          using run False stateless Inr Inl w ident(2) [where result = result and message = message and override = override and v = v]
          by (auto simp: mcp_initialize_def answer_def)
      next
        case (Inr u)
        then have "identity_accepted result" using ident(1) [where result = result and message = message and override = override and v = v] w by auto
        moreover have "v' = w\<lparr>upstream_dialect := detect_upstream_dialect ?d (Some result)\<rparr>" "r = Inr ()"
            "map fst sent = [''server/discover'', ''initialize'', ''notifications/initialized'']"
          using run False stateless \<open>?a = Inr result\<close> Inr w by (auto simp: mcp_initialize_def Let_def)
        ultimately show ?thesis
          using False stateless \<open>?a = Inr result\<close> detect_legacy_result [of ?d result]
          by (simp add: answer_def)
      qed
    qed
  qed
  then show "r = Inr () \<longleftrightarrow> (\<exists>result. answer = Inr result \<and> identity_accepted result)" by blast
  show "map fst sent = (if stateless then [''server/discover'']
      else [''server/discover'', ''initialize''] @ (if r = Inr () then [''notifications/initialized''] else []))"
    using all by blast
  show "upstream_dialect v' = (if stateless then V2026_07_28
      else unwrap_or LEGACY_DEFAULT (protocol_version_from_result (projr answer)))" if "r = Inr ()"
    using all that by blast
  show "view_server_type v' = view_server_type v \<and> view_upstream_name v' = view_upstream_name v" if "r \<noteq> Inr ()"
    using all that by blast
qed

text \<open>The handshake. A server that answers the discovery probe in time as 2026 is used statelessly:
  the probe is the only message sent. Otherwise \<open>initialize\<close> follows and, once its answer is
  accepted, the initialized notification. Either way it succeeds exactly when the answering result
  names the server with a name that sanitizes, a success records the dialect of that result, and a
  refused name leaves the recorded names alone.\<close>

theorem handshake_outcome:
  fixes ask :: upstream and v :: upstream_view
  assumes "mcp_initialize message override ask in_time v = (v', r, sent)"
  defines "stateless \<equiv> in_time \<and>
    (\<exists>d. ask ''server/discover'' (probe_params v) = Inr d \<and> protocol_version_from_result d = Some V2026_07_28)"
  defines "answer \<equiv> (if stateless then ask ''server/discover'' (probe_params v)
    else ask ''initialize'' (outgoing_params (upstream_dialect v) (Some initialize_params)))"
  shows "(r = Inr () \<longleftrightarrow> (\<exists>result. answer = Inr result \<and> identity_accepted result)) \<and>
    map fst sent = (if stateless then [''server/discover'']
      else [''server/discover'', ''initialize''] @ (if r = Inr () then [''notifications/initialized''] else [])) \<and>
    (r = Inr () \<longrightarrow> upstream_dialect v' =
      (if stateless then V2026_07_28 else unwrap_or LEGACY_DEFAULT (protocol_version_from_result (projr answer)))) \<and>
    (r \<noteq> Inr () \<longrightarrow> view_server_type v' = view_server_type v \<and> view_upstream_name v' = view_upstream_name v)"
  using handshake_outcome_parts [OF assms(1), folded stateless_def, folded answer_def] by blast

definition demo_upstream :: upstream where
  "demo_upstream meth params =
     (if meth = ''initialize'' then Inr (JObj [(''serverInfo'', JObj [(''name'', JStr ''srv'')])])
      else Inl (Timeout 3))"

definition demo_view :: upstream_view where
  "demo_view = \<lparr>upstream_dialect = V2024_11_05, view_server_type = None, view_upstream_name = None\<rparr>"

theorem handshake_outcome_witness:
  "map fst (snd (snd (mcp_initialize (\<lambda>e. []) None demo_upstream True demo_view))) =
     [''server/discover'', ''initialize''] @
     (if fst (snd (mcp_initialize (\<lambda>e. []) None demo_upstream True demo_view)) = Inr ()
      then [''notifications/initialized''] else [])"
proof -
  obtain v' r sent where run: "mcp_initialize (\<lambda>e. []) None demo_upstream True demo_view = (v', r, sent)"
    by (cases "mcp_initialize (\<lambda>e. []) None demo_upstream True demo_view") auto
  show ?thesis
    using handshake_outcome [OF run, THEN conjunct2, THEN conjunct1] by (simp add: run demo_upstream_def)
qed

end
