(* ===== verification/Config.thy ===== *)
theory Config
  imports Names
begin

text \<open>
  The configuration (\<^verbatim>\<open>src/config.rs\<close>): its records, path expansion, the resolution of environment
  references, the strict and the graceful validation, and the difference of two configurations that drives
  the hot reload. Parsing TOML and reading files are not modelled; \<open>env\<close> is the process environment.
  Tests for single characters look at bytes: they are all for ASCII, and no byte of a longer character is.
\<close>

section \<open>Records\<close>

record observability_config =
  ob_enabled :: bool
  ob_store_payloads :: bool
  ob_payload_window_minutes :: u64
  ob_record_retention_days :: u64
  ob_max_db_size_mb :: u64
  ob_max_payload_bytes :: u64
  ob_payload_buffer_budget_mb :: u64

definition default_observability :: observability_config where
  "default_observability = \<lparr>ob_enabled = True, ob_store_payloads = True, ob_payload_window_minutes = 10,
     ob_record_retention_days = 7, ob_max_db_size_mb = 1024, ob_max_payload_bytes = 262144,
     ob_payload_buffer_budget_mb = 128\<rparr>"

record relay_config =
  rc_machine_name :: string
  rc_local_js_execution :: "bool option"
  rc_token_dir :: "string option"
  rc_allow_insecure_oauth :: "bool option"
  rc_toon_output :: "bool option"
  rc_startup_init_timeout_secs :: "u64 option"
  rc_session_identity_max_sessions :: "nat option"
  rc_validate_inputs :: "bool option"
  rc_observability :: observability_config
  rc_log_retention_days :: "u32 option"
  rc_write_dirs :: "string list option"
  rc_listen_ips :: "string list option"

definition default_relay :: "string option \<Rightarrow> relay_config" where
  "default_relay hostname = \<lparr>rc_machine_name = unwrap_or ''unknown'' hostname, rc_local_js_execution = None,
     rc_token_dir = None, rc_allow_insecure_oauth = None, rc_toon_output = None, rc_startup_init_timeout_secs = None,
     rc_session_identity_max_sessions = None, rc_validate_inputs = None, rc_observability = default_observability,
     rc_log_retention_days = None, rc_write_dirs = None, rc_listen_ips = None\<rparr>"

datatype transport = Stdio | Sse | Http | Oauth

fun show_transport :: "transport \<Rightarrow> string" where
  "show_transport Stdio = ''stdio''"
| "show_transport Sse = ''sse''"
| "show_transport Http = ''http''"
| "show_transport Oauth = ''oauth''"

record profile_config =
  pc_name :: string
  pc_path :: string
  pc_endpoints :: "string list"
  pc_js_execution :: bool
  pc_toon_output :: bool

record organization =
  og_name :: string
  og_provider :: string
  og_idp :: string
  og_client_id :: "string option"

record endpoint_auth =
  ea_type :: string
  ea_organization :: "string option"
  ea_idp :: "string option"
  ea_resource :: "string option"

record endpoint_config =
  ec_name :: string
  ec_description :: "string option"
  ec_tool_prefix :: "string option"
  ec_transport :: transport
  ec_command :: "string option"
  ec_args :: "string list option"
  ec_url :: "string option"
  ec_env :: "(string, string) hashmap option"
  ec_headers :: "(string, string) hashmap option"
  ec_disabled :: bool
  ec_disabled_tools :: "string list"
  ec_oauth_server_url :: "string option"
  ec_client_id :: "string option"
  ec_client_secret :: "string option"
  ec_scopes :: "string list option"
  ec_token_endpoint :: "string option"
  ec_server_type_override :: "string option"
  ec_isolation :: "string option"
  ec_container_image :: "string option"
  ec_mounts :: "string list option"
  ec_auth :: "endpoint_auth option"

record config =
  cf_relay :: relay_config
  cf_endpoints :: "endpoint_config list"
  cf_profiles :: "profile_config list option"
  cf_organizations :: "organization list"

definition default_config :: "string option \<Rightarrow> config" where
  "default_config hostname = \<lparr>cf_relay = default_relay hostname, cf_endpoints = [], cf_profiles = None,
     cf_organizations = []\<rparr>"

definition resolved_tool_prefix :: "endpoint_config \<Rightarrow> string option" where
  "resolved_tool_prefix ep =
     (case ec_tool_prefix ep of Some tp \<Rightarrow> Some tp | None \<Rightarrow> sanitize_name (ec_name ep))"

datatype config_error = EnvVarMissing string string | ValidationError string

definition tick :: "string \<Rightarrow> string" where
  "tick s = [CHR 0x27] @ s @ [CHR 0x27]"

fun show_config_error :: "config_error \<Rightarrow> string" where
  "show_config_error (EnvVarMissing v ep) =
     ''Environment variable '' @ tick v @ '' not found for endpoint '' @ tick ep"
| "show_config_error (ValidationError msg) = ''Validation error: '' @ msg"

section \<open>Paths\<close>

definition path_join :: "string \<Rightarrow> string \<Rightarrow> string" where
  "path_join base rest =
     (if starts_with ''/'' rest then rest
      else if base = [] \<or> last base = CHR ''/'' then base @ rest else base @ ''/'' @ rest)"

definition expand_tilde :: "string option \<Rightarrow> string \<Rightarrow> string" where
  "expand_tilde home path =
     (if starts_with ''~/'' path \<or> path = ''~''
      then (case home of
              Some h \<Rightarrow> path_join h (unwrap_or [] (strip_prefix ''~/'' path))
            | None \<Rightarrow> path)
      else path)"

definition is_absolute :: "string \<Rightarrow> bool" where
  "is_absolute p = starts_with ''/'' p"

definition resolve_write_roots ::
  "string option \<Rightarrow> (string \<Rightarrow> string option) \<Rightarrow> (string \<Rightarrow> bool) \<Rightarrow> config \<Rightarrow> string list" where
  "resolve_write_roots home canonicalize is_dir c =
     filter is_dir (List.map_filter (\<lambda>d. canonicalize (expand_tilde home d)) (unwrap_or [] (rc_write_dirs (cf_relay c))))"

section \<open>Environment references\<close>

type_synonym environment = "string \<Rightarrow> string option"

definition resolve_env_value :: "environment \<Rightarrow> string \<Rightarrow> string \<Rightarrow> config_error + string" where
  "resolve_env_value env endpoint value =
     (case strip_prefix ''$$'' value of
        Some rest \<Rightarrow> Inr (''$'' @ rest)
      | None \<Rightarrow>
         (case strip_prefix ''$'' value of
            Some var_name \<Rightarrow>
              (if var_name = [] then Inr value
               else case env var_name of Some val \<Rightarrow> Inr val | None \<Rightarrow> Inl (EnvVarMissing var_name endpoint))
          | None \<Rightarrow> Inr value))"

definition var_char :: "char \<Rightarrow> bool" where
  "var_char c = (is_alnum (byte c) \<or> c = CHR ''_'')"

function resolve_header_value :: "environment \<Rightarrow> string \<Rightarrow> string \<Rightarrow> config_error + string" where
  "resolve_header_value env endpoint [] = Inr []"
| "resolve_header_value env endpoint (c # cs) =
     (if c \<noteq> CHR ''$'' then map_sum id (\<lambda>r. c # r) (resolve_header_value env endpoint cs)
      else if cs \<noteq> [] \<and> hd cs = CHR ''$'' then map_sum id (\<lambda>r. CHR ''$'' # r) (resolve_header_value env endpoint (tl cs))
      else if takeWhile var_char cs = [] then map_sum id (\<lambda>r. CHR ''$'' # r) (resolve_header_value env endpoint cs)
      else case env (takeWhile var_char cs) of
             None \<Rightarrow> Inl (EnvVarMissing (takeWhile var_char cs) endpoint)
           | Some val \<Rightarrow> map_sum id (\<lambda>r. val @ r) (resolve_header_value env endpoint (dropWhile var_char cs)))"
  by pat_completeness auto
termination
  by (relation "measure (\<lambda>(env, endpoint, cs). length cs)") (auto simp: le_imp_less_Suc length_dropWhile_le)

fun resolve_map :: "(string \<Rightarrow> config_error + string) \<Rightarrow> (string, string) hashmap \<Rightarrow> config_error + (string, string) hashmap" where
  "resolve_map f [] = Inr []"
| "resolve_map f ((k, v) # m) = and_then (f v) (\<lambda>v'. and_then (resolve_map f m) (\<lambda>m'. Inr ((k, v') # m')))"

definition resolve_opt :: "(string \<Rightarrow> config_error + string) \<Rightarrow> (string, string) hashmap option \<Rightarrow>
    config_error + (string, string) hashmap option" where
  "resolve_opt f m = (case m of None \<Rightarrow> Inr None | Some m \<Rightarrow> map_sum id Some (resolve_map f m))"

definition resolve_endpoint :: "environment \<Rightarrow> endpoint_config \<Rightarrow> config_error + endpoint_config" where
  "resolve_endpoint env ep =
     and_then (resolve_opt (resolve_env_value env (ec_name ep)) (ec_env ep)) (\<lambda>e.
     and_then (resolve_opt (resolve_header_value env (ec_name ep)) (ec_headers ep)) (\<lambda>h.
       Inr (ep\<lparr>ec_env := e, ec_headers := h\<rparr>)))"

fun resolve_endpoints :: "environment \<Rightarrow> endpoint_config list \<Rightarrow> config_error + endpoint_config list" where
  "resolve_endpoints env [] = Inr []"
| "resolve_endpoints env (ep # eps) =
     and_then (resolve_endpoint env ep) (\<lambda>ep'. and_then (resolve_endpoints env eps) (\<lambda>eps'. Inr (ep' # eps')))"

definition resolve_env_vars :: "environment \<Rightarrow> config \<Rightarrow> config_error + config" where
  "resolve_env_vars env c = map_sum id (\<lambda>eps. c\<lparr>cf_endpoints := eps\<rparr>) (resolve_endpoints env (cf_endpoints c))"

text \<open>A warning: the endpoint's name and the message.\<close>

type_synonym warning = "string \<times> string"

definition resolve_endpoint_graceful ::
  "environment \<Rightarrow> endpoint_config \<Rightarrow> warning list \<Rightarrow> endpoint_config \<times> warning list" where
  "resolve_endpoint_graceful env ep ws =
     (case resolve_opt (resolve_env_value env (ec_name ep)) (ec_env ep) of
        Inl e \<Rightarrow> (ep, ws @ [(ec_name ep, show_config_error e)])
      | Inr em \<Rightarrow>
         (let ep1 = ep\<lparr>ec_env := em\<rparr>
          in case resolve_opt (resolve_header_value env (ec_name ep)) (ec_headers ep) of
               Inl e \<Rightarrow> (ep1, ws @ [(ec_name ep, show_config_error e)])
             | Inr hm \<Rightarrow> (if list_all (\<lambda>w. fst w \<noteq> ec_name ep) ws then (ep1\<lparr>ec_headers := hm\<rparr>, ws) else (ep1, ws))))"

fun resolve_endpoints_graceful ::
  "environment \<Rightarrow> endpoint_config list \<Rightarrow> warning list \<Rightarrow> endpoint_config list \<times> warning list" where
  "resolve_endpoints_graceful env [] ws = ([], ws)"
| "resolve_endpoints_graceful env (ep # eps) ws =
     (let (ep', ws1) = resolve_endpoint_graceful env ep ws;
          (eps', ws2) = resolve_endpoints_graceful env eps ws1
      in (ep' # eps', ws2))"

section \<open>Validation\<close>

definition is_valid_endpoint_name :: "string \<Rightarrow> bool" where
  "is_valid_endpoint_name nm =
     (case nm of
        [] \<Rightarrow> False
      | c # cs \<Rightarrow> (is_lower (byte c) \<or> is_digit (byte c)) \<and>
                 list_all (\<lambda>c. is_lower (byte c) \<or> is_digit (byte c) \<or> c = CHR ''_'' \<or> c = CHR ''-'') cs)"

definition blank :: "string option \<Rightarrow> bool" where
  "blank s = (trim_by is_space (chars (unwrap_or [] s)) = [])"

definition dq :: "string \<Rightarrow> string" where
  "dq s = [CHR 0x22] @ s @ [CHR 0x22]"

definition dash :: string where
  "dash = '' '' @ map char_of [226, 128, 148 :: nat] @ '' ''"

definition validate_endpoint_auth :: "endpoint_config \<Rightarrow> string option" where
  "validate_endpoint_auth ep =
     (case ec_auth ep of
        None \<Rightarrow> None
      | Some a \<Rightarrow>
         (if ea_type a = ''ema'' then
            (if blank (ea_resource a)
             then Some (''auth.type = '' @ dq ''ema'' @ '' requires a non-empty '' @ tick ''resource'' @ '' (MCP server URL)'')
             else if blank (ea_organization a) \<and> blank (ea_idp a)
             then Some (''auth.type = '' @ dq ''ema'' @ '' requires an '' @ tick ''organization'' @
               '' (the name of an [[organizations]] entry) or a bare '' @ tick ''idp'' @ '' (IdP issuer URL; deprecated)'')
             else None)
          else Some (''unknown auth.type '' @ tick (ea_type a) @ dash @ ''supported values: '' @ dq ''ema'')))"

definition missing :: "string option \<Rightarrow> bool" where
  "missing s = (s = None \<or> s = Some [])"

text \<open>The prefix check of both validations: the message, if any, and the prefixes seen so far. \<open>bad\<close> is the
  wording for a prefix that does not match the pattern.\<close>

definition check_prefix :: "(string \<Rightarrow> string \<Rightarrow> string) \<Rightarrow> endpoint_config \<Rightarrow> string list \<Rightarrow> string option \<times> string list" where
  "check_prefix bad ep seen =
     (case resolved_tool_prefix ep of
        None \<Rightarrow> (Some (''Endpoint '' @ tick (ec_name ep) @
          '': name cannot be sanitized into a valid tool prefix. Set '' @ tick ''tool_prefix'' @ '' explicitly.''), seen)
      | Some tp \<Rightarrow>
         (if \<not> is_valid_endpoint_name tp then (Some (bad (ec_name ep) tp), seen)
          else if tp \<in> set seen
            then (Some (''Duplicate tool_prefix '' @ tick tp @ '' (from endpoint '' @ tick (ec_name ep) @ '')''), seen)
          else (None, tp # seen)))"

definition bad_prefix_strict :: "string \<Rightarrow> string \<Rightarrow> string" where
  "bad_prefix_strict nm tp = ''Endpoint '' @ tick nm @ '': tool_prefix '' @ tick tp @
     '' must match ^[a-z0-9][a-z0-9_-]*$ (lowercase alphanumeric, hyphens, underscores; must start with letter or digit)''"

definition bad_prefix_graceful :: "string \<Rightarrow> string \<Rightarrow> string" where
  "bad_prefix_graceful nm tp = ''Endpoint '' @ tick nm @ '': tool_prefix '' @ tick tp @
     '' is invalid: must match ^[a-z0-9][a-z0-9_-]*$''"

definition transport_problem :: "endpoint_config \<Rightarrow> string option" where
  "transport_problem ep =
     (case ec_transport ep of
        Stdio \<Rightarrow> (if missing (ec_command ep) then Some (''stdio transport requires a '' @ tick ''command'' @ '' field'') else None)
      | t \<Rightarrow> (if missing (ec_url ep) then Some (show_transport t @ '' transport requires a '' @ tick ''url'' @ '' field'') else None))"

definition opt_list :: "'a option \<Rightarrow> 'a list" where
  "opt_list x = (case x of None \<Rightarrow> [] | Some y \<Rightarrow> [y])"

definition endpoint_errors :: "endpoint_config \<Rightarrow> string list \<Rightarrow> string list \<times> string list" where
  "endpoint_errors ep seen =
     (let (prefix_msg, seen') = check_prefix bad_prefix_strict ep seen;
          here = (\<lambda>m. ''Endpoint '' @ tick (ec_name ep) @ '': '' @ m)
      in ((if ec_name ep = [] then [''Endpoint name must not be empty''] else []) @ opt_list prefix_msg @
          map here (opt_list (transport_problem ep)) @ map here (opt_list (validate_endpoint_auth ep)), seen'))"

fun validate_loop :: "endpoint_config list \<Rightarrow> string list \<Rightarrow> string list" where
  "validate_loop [] seen = []"
| "validate_loop (ep # eps) seen = (let (errs, seen') = endpoint_errors ep seen in errs @ validate_loop eps seen')"

definition validate_config :: "config \<Rightarrow> string list + unit" where
  "validate_config c = (case validate_loop (cf_endpoints c) [] of [] \<Rightarrow> Inr () | errs \<Rightarrow> Inl errs)"

definition isolation_problem :: "endpoint_config \<Rightarrow> string option" where
  "isolation_problem ep =
     (case ec_isolation ep of
        Some mode \<Rightarrow> (if mode \<noteq> ''container'' \<and> mode \<noteq> ''none''
          then Some (''invalid isolation value '' @ tick mode @ dash @ ''expected '' @ dq ''container'' @ '' or '' @ dq ''none'')
          else None)
      | None \<Rightarrow> None)"

definition endpoint_warnings :: "endpoint_config \<Rightarrow> warning list \<Rightarrow> string list \<Rightarrow> string list \<times> string list" where
  "endpoint_warnings ep ws seen =
     (let already_warned = list_ex (\<lambda>w. fst w = ec_name ep) ws;
          (prefix_msg, seen') = check_prefix bad_prefix_graceful ep seen
      in ((if ec_name ep = [] then [''Endpoint name must not be empty''] else []) @ opt_list prefix_msg @
          (if already_warned then []
           else opt_list (transport_problem ep) @ opt_list (isolation_problem ep) @ opt_list (validate_endpoint_auth ep)),
          seen'))"

fun validate_graceful :: "endpoint_config list \<Rightarrow> string list \<Rightarrow> warning list \<Rightarrow> warning list" where
  "validate_graceful [] seen ws = ws"
| "validate_graceful (ep # eps) seen ws =
     (let (msgs, seen') = endpoint_warnings ep ws seen
      in validate_graceful eps seen' (ws @ map (\<lambda>m. (ec_name ep, m)) msgs))"

definition warned_endpoint_names :: "warning list \<Rightarrow> string set" where
  "warned_endpoint_names ws = set (map fst ws)"

section \<open>Profiles and write directories\<close>

definition RESERVED_PROFILE_PATHS :: "string list" where
  "RESERVED_PROFILE_PATHS = [''sse'', ''initialize'', ''tools'', ''oauth'', ''healthz'']"

definition path_pattern :: "string \<Rightarrow> bool" where
  "path_pattern p =
     (case p of
        [] \<Rightarrow> False
      | c # cs \<Rightarrow> is_alnum (byte c) \<and> list_all (\<lambda>c. is_alnum (byte c) \<or> c = CHR ''_'' \<or> c = CHR ''-'') cs)"

definition validate_profile_path :: "string \<Rightarrow> string option" where
  "validate_profile_path path =
     (if path = [] then Some ''profile path must not be empty''
      else if \<not> path_pattern path
        then Some (''profile path '' @ tick path @ '' contains invalid characters'' @ dash @
          ''use letters, digits, hyphens, or underscores (must start with a letter or digit)'')
      else if list_ex (\<lambda>r. eq_ignore_ascii_case r path) RESERVED_PROFILE_PATHS
        then Some (''profile path '' @ tick path @ '' is reserved by the relay'')
      else None)"

definition to_ascii_lowercase :: "string \<Rightarrow> string" where
  "to_ascii_lowercase s = map ascii_lower s"

definition profile_errors ::
  "string set \<Rightarrow> profile_config \<Rightarrow> string list \<times> string list \<Rightarrow> string list \<times> string list \<times> string list" where
  "profile_errors endpoint_names p seen =
     (let (seen_names, seen_paths) = seen;
          (name_errs, seen_names') =
            (if blank (Some (pc_name p)) then ([''Profile name must not be empty''], seen_names)
             else if pc_name p \<in> set seen_names then ([''Duplicate profile name: '' @ tick (pc_name p)], seen_names)
             else ([], pc_name p # seen_names));
          (path_errs, seen_paths') =
            (case validate_profile_path (pc_path p) of
               Some msg \<Rightarrow> ([''Profile '' @ tick (pc_name p) @ '': '' @ msg], seen_paths)
             | None \<Rightarrow>
                (let key = to_ascii_lowercase (pc_path p)
                 in if key \<in> set seen_paths
                    then ([''Duplicate profile path '' @ tick (pc_path p) @ '' (paths are case-insensitive)''], seen_paths)
                    else ([], key # seen_paths)))
      in (name_errs @ path_errs @
          map (\<lambda>n. ''Profile '' @ tick (pc_name p) @ '' references unknown endpoint '' @ tick n)
            (filter (\<lambda>n. n \<notin> endpoint_names) (pc_endpoints p)),
          seen_names', seen_paths'))"

fun profiles_loop :: "string set \<Rightarrow> profile_config list \<Rightarrow> string list \<times> string list \<Rightarrow> string list" where
  "profiles_loop names [] seen = []"
| "profiles_loop names (p # ps) seen =
     (let (errs, seen') = profile_errors names p seen in errs @ profiles_loop names ps seen')"

definition validate_profiles :: "config \<Rightarrow> string list + unit" where
  "validate_profiles c =
     (case cf_profiles c of
        None \<Rightarrow> Inr ()
      | Some ps \<Rightarrow>
         (case profiles_loop (set (map ec_name (cf_endpoints c))) ps ([], []) of [] \<Rightarrow> Inr () | errs \<Rightarrow> Inl errs))"

definition validate_write_dirs :: "string option \<Rightarrow> config \<Rightarrow> string list + unit" where
  "validate_write_dirs home c =
     (case map (\<lambda>d. ''relay.write_dirs entry '' @ tick d @ '' must be an absolute path'')
             (filter (\<lambda>d. \<not> is_absolute (expand_tilde home d)) (unwrap_or [] (rc_write_dirs (cf_relay c)))) of
        [] \<Rightarrow> Inr () | errs \<Rightarrow> Inl errs)"

definition fatal :: "string list + unit \<Rightarrow> config_error + unit" where
  "fatal r = map_sum (\<lambda>errs. ValidationError (join ''; '' errs)) id r"

text \<open>Both entry points start from the parsed document.\<close>

definition parse_and_validate :: "environment \<Rightarrow> string option \<Rightarrow> config \<Rightarrow> config_error + config" where
  "parse_and_validate env home parsed =
     and_then (resolve_env_vars env parsed) (\<lambda>c.
     and_then (fatal (validate_config c)) (\<lambda>_.
     and_then (fatal (validate_profiles c)) (\<lambda>_.
     and_then (fatal (validate_write_dirs home c)) (\<lambda>_. Inr c))))"

definition parse_and_validate_graceful ::
  "environment \<Rightarrow> string option \<Rightarrow> config \<Rightarrow> config_error + (config \<times> warning list)" where
  "parse_and_validate_graceful env home parsed =
     (let (eps, ws) = resolve_endpoints_graceful env (cf_endpoints parsed) [];
          c = parsed\<lparr>cf_endpoints := eps\<rparr>;
          ws' = validate_graceful eps [] ws
      in and_then (fatal (validate_profiles c)) (\<lambda>_.
         and_then (fatal (validate_write_dirs home c)) (\<lambda>_. Inr (c, ws'))))"

section \<open>Differences\<close>

definition same_endpoint :: "endpoint_config \<Rightarrow> endpoint_config \<Rightarrow> bool" where
  "same_endpoint a b =
     (ec_name a = ec_name b \<and> ec_tool_prefix a = ec_tool_prefix b \<and> ec_transport a = ec_transport b \<and>
      ec_command a = ec_command b \<and> ec_args a = ec_args b \<and> ec_url a = ec_url b \<and>
      map_option map_of (ec_env a) = map_option map_of (ec_env b) \<and>
      map_option map_of (ec_headers a) = map_option map_of (ec_headers b) \<and>
      ec_oauth_server_url a = ec_oauth_server_url b \<and> ec_client_id a = ec_client_id b \<and>
      ec_client_secret a = ec_client_secret b \<and> ec_scopes a = ec_scopes b \<and>
      ec_server_type_override a = ec_server_type_override b \<and> ec_isolation a = ec_isolation b \<and>
      ec_container_image a = ec_container_image b \<and> ec_mounts a = ec_mounts b \<and> ec_auth a = ec_auth b)"

record config_diff =
  cd_added :: "endpoint_config list"
  cd_removed :: "string list"
  cd_changed :: "(string \<times> endpoint_config) list"
  cd_unchanged :: "string list"
  cd_organizations_changed :: bool

text \<open>Collecting into a map keeps the last endpoint of a name.\<close>

definition by_name :: "endpoint_config list \<Rightarrow> (string, endpoint_config) hashmap" where
  "by_name eps = fold (\<lambda>e m. hm_insert (ec_name e) e m) eps []"

definition diff_configs :: "config \<Rightarrow> config \<Rightarrow> config_diff" where
  "diff_configs old new =
     (let old_map = by_name (cf_endpoints old); new_map = by_name (cf_endpoints new)
      in \<lparr>cd_added = map snd (filter (\<lambda>(n, e). hm_get old_map n = None) new_map),
          cd_removed = map fst (filter (\<lambda>(n, e). \<not> hm_contains new_map n) old_map),
          cd_changed = filter (\<lambda>(n, e). case hm_get old_map n of None \<Rightarrow> False | Some o' \<Rightarrow> \<not> same_endpoint o' e) new_map,
          cd_unchanged = map fst (filter (\<lambda>(n, e). case hm_get old_map n of None \<Rightarrow> False | Some o' \<Rightarrow> same_endpoint o' e) new_map),
          cd_organizations_changed = (cf_organizations old \<noteq> cf_organizations new)\<rparr>)"

end
