(* ===== verification/Config_Checks.thy ===== *)
theory Config_Checks
  imports Config
begin

text \<open>
  What the configuration checks promise: how references to the environment resolve, that the graceful
  validation without warnings is the strict one, what holds of an endpoint that was not warned about,
  which profile lists pass, and what the difference of two configurations reports.
\<close>

section \<open>Environment references\<close>

definition escape_dollar :: "string \<Rightarrow> string" where
  "escape_dollar s = concat (map (\<lambda>c. if c = CHR ''$'' then ''$$'' else [c]) s)"

lemma header_escape: "resolve_header_value env ep (escape_dollar s) = Inr s"
  by (induction s) (auto simp: escape_dollar_def)

lemma header_error:
  "resolve_header_value env ep s = Inl e \<Longrightarrow> \<exists>v. e = EnvVarMissing v ep \<and> v \<noteq> [] \<and> list_all var_char v \<and> env v = None"
proof (induction env ep s rule: resolve_header_value.induct)
  case (1 env endpoint)
  then show ?case by simp
next
  case (2 env endpoint c cs)
  have "list_all var_char (takeWhile var_char cs)"
    by (auto simp: list_all_iff dest: set_takeWhileD)
  moreover have inl: "\<exists>x. r = Inl x \<and> e = x" if "map_sum id f r = Inl e" for f and r :: "config_error + string"
    using that by (cases r) auto
  ultimately show ?case
    using 2 by (auto split: if_splits option.splits dest!: inl)
qed

text \<open>A header value in which every dollar sign is doubled resolves to the value itself, whatever the
  environment; text before a reference is kept and a reference becomes the variable's value; resolving
  fails only for a named variable that is not set, and says which; and an environment value is a literal,
  an escaped literal or one whole variable.\<close>

theorem references_resolve:
  "resolve_header_value env ep (escape_dollar s) = Inr s \<and>
   (env v = Some x \<and> v \<noteq> [] \<and> list_all var_char v \<and> (rest = [] \<or> \<not> var_char (hd rest)) \<longrightarrow>
      resolve_header_value env ep (escape_dollar s @ ''$'' @ v @ rest) =
        map_sum id (\<lambda>r. s @ x @ r) (resolve_header_value env ep rest)) \<and>
   (\<forall>e. resolve_header_value env ep t = Inl e \<longrightarrow> (\<exists>n. e = EnvVarMissing n ep \<and> env n = None)) \<and>
   resolve_env_value env ep (''$$'' @ t) = Inr (''$'' @ t) \<and>
   (t \<noteq> [] \<and> hd t \<noteq> CHR ''$'' \<longrightarrow> resolve_env_value env ep (''$'' @ t) =
      (case env t of Some val \<Rightarrow> Inr val | None \<Rightarrow> Inl (EnvVarMissing t ep)) \<and>
      resolve_env_value env ep t = Inr t)"
proof (intro conjI impI allI)
  show "resolve_header_value env ep (escape_dollar s) = Inr s" by (rule header_escape)
  show "resolve_env_value env ep (''$$'' @ t) = Inr (''$'' @ t)" by (simp add: resolve_env_value_def)
  show "\<exists>n. e = EnvVarMissing n ep \<and> env n = None" if "resolve_header_value env ep t = Inl e" for e
    using header_error [OF that] by blast
  show "resolve_header_value env ep (escape_dollar s @ ''$'' @ v @ rest) =
      map_sum id (\<lambda>r. s @ x @ r) (resolve_header_value env ep rest)"
    if a: "env v = Some x \<and> v \<noteq> [] \<and> list_all var_char v \<and> (rest = [] \<or> \<not> var_char (hd rest))"
  proof -
    have tw: "takeWhile var_char (v @ rest) = v" "dropWhile var_char (v @ rest) = rest"
      using a by (cases rest; simp add: takeWhile_append2 dropWhile_append2 list_all_iff)+
    have hd: "hd (v @ rest) \<noteq> CHR ''$''"
      using a by (cases v) (auto simp: var_char_def byte_def is_alnum_def is_lower_def is_upper_def is_digit_def)
    have "resolve_header_value env ep (''$'' @ v @ rest) = map_sum id (\<lambda>r. x @ r) (resolve_header_value env ep rest)"
      using a hd tw by simp
    then show ?thesis
      by (induction s) (auto simp: escape_dollar_def sum.map_comp comp_def id_def)
  qed
  show "resolve_env_value env ep (''$'' @ t) = (case env t of Some val \<Rightarrow> Inr val | None \<Rightarrow> Inl (EnvVarMissing t ep))"
    if "t \<noteq> [] \<and> hd t \<noteq> CHR ''$''"
  proof -
    from that obtain a u where "t = a # u" "a \<noteq> CHR ''$''" by (cases t) auto
    then show ?thesis by (simp add: resolve_env_value_def split: option.split)
  qed
  show "resolve_env_value env ep t = Inr t" if "t \<noteq> [] \<and> hd t \<noteq> CHR ''$''"
  proof -
    from that obtain a u where "t = a # u" "a \<noteq> CHR ''$''" by (cases t) auto
    then show ?thesis by (simp add: resolve_env_value_def)
  qed
qed

theorem references_resolve_witness:
  "resolve_header_value [''TOKEN'' \<mapsto> ''abc''] ''ep'' ''Bearer $TOKEN'' = Inr ''Bearer abc''"
  using references_resolve [of "[''TOKEN'' \<mapsto> ''abc'']" "''ep''" "''Bearer ''" "''TOKEN''" "''abc''" "[]" "[]"]
  by (simp add: escape_dollar_def var_char_def byte_def is_alnum_def is_lower_def is_upper_def)

section \<open>Strict and graceful\<close>

lemma graceful_one:
  "resolve_endpoint_graceful env ep [] = (ep', []) \<longleftrightarrow> resolve_endpoint env ep = Inr ep'"
  by (auto simp: resolve_endpoint_graceful_def resolve_endpoint_def Let_def split: sum.splits)

lemma graceful_one_grows: "\<exists>x. snd (resolve_endpoint_graceful env ep ws) = ws @ x"
  by (auto simp: resolve_endpoint_graceful_def Let_def split: sum.splits)

lemma graceful_grows: "\<exists>x. snd (resolve_endpoints_graceful env eps ws) = ws @ x"
proof (induction eps arbitrary: ws)
  case Nil
  then show ?case by simp
next
  case (Cons ep eps)
  obtain x where x: "snd (resolve_endpoint_graceful env ep ws) = ws @ x" using graceful_one_grows by blast
  obtain y where "snd (resolve_endpoints_graceful env eps (ws @ x)) = (ws @ x) @ y" using Cons by blast
  then show ?case using x by (simp add: case_prod_beta)
qed

lemma graceful_resolves:
  "resolve_endpoints_graceful env eps [] = (eps', []) \<longleftrightarrow> resolve_endpoints env eps = Inr eps'"
proof (induction eps arbitrary: eps')
  case Nil
  then show ?case by auto
next
  case (Cons ep eps)
  obtain e1 w1 where one: "resolve_endpoint_graceful env ep [] = (e1, w1)" by (cases "resolve_endpoint_graceful env ep []")
  show ?case
  proof (cases "w1 = []")
    case True
    then show ?thesis
      using Cons one graceful_one [of env ep e1] by (auto simp: case_prod_beta and_then_Inr_iff prod_eq_iff)
  next
    case False
    then have "resolve_endpoint env ep \<noteq> Inr e" for e using one graceful_one [of env ep e] by auto
    moreover have "snd (resolve_endpoints_graceful env eps w1) \<noteq> []"
      using graceful_grows [of env eps w1] False by auto
    ultimately show ?thesis using one by (auto simp: case_prod_beta and_then_Inr_iff)
  qed
qed

lemma opt_list_Nil [simp]: "opt_list x = [] \<longleftrightarrow> x = None"
  by (auto simp: opt_list_def split: option.splits)

lemma check_prefix_bad:
  "snd (check_prefix b ep seen) = snd (check_prefix b' ep seen)"
  "fst (check_prefix b ep seen) = None \<longleftrightarrow> fst (check_prefix b' ep seen) = None"
  by (auto simp: check_prefix_def split: option.splits)

lemma warnings_errors:
  "snd (endpoint_warnings ep [] seen) = snd (endpoint_errors ep seen)"
  "fst (endpoint_warnings ep [] seen) = [] \<longleftrightarrow> fst (endpoint_errors ep seen) = [] \<and> isolation_problem ep = None"
  using check_prefix_bad [of bad_prefix_strict ep seen bad_prefix_graceful]
  by (auto simp: endpoint_warnings_def endpoint_errors_def Let_def case_prod_beta)

lemma validate_graceful_grows: "\<exists>x. validate_graceful eps seen ws = ws @ x"
proof (induction eps arbitrary: seen ws)
  case (Cons ep eps)
  obtain msgs seen' where m: "endpoint_warnings ep ws seen = (msgs, seen')"
    by (cases "endpoint_warnings ep ws seen")
  obtain x where "validate_graceful eps seen' (ws @ map (\<lambda>m. (ec_name ep, m)) msgs) =
      (ws @ map (\<lambda>m. (ec_name ep, m)) msgs) @ x"
    using Cons by blast
  then show ?case using m by simp
qed simp

lemma validate_graceful_clean:
  "validate_graceful eps seen [] = [] \<longleftrightarrow> validate_loop eps seen = [] \<and> list_all (\<lambda>ep. isolation_problem ep = None) eps"
proof (induction eps arbitrary: seen)
  case (Cons ep eps)
  obtain msgs seen' where m: "endpoint_warnings ep [] seen = (msgs, seen')"
    by (cases "endpoint_warnings ep [] seen")
  have e: "snd (endpoint_errors ep seen) = seen'" "msgs = [] \<longleftrightarrow> fst (endpoint_errors ep seen) = [] \<and> isolation_problem ep = None"
    using warnings_errors [of ep seen] m by simp_all
  show ?case
  proof (cases "msgs = []")
    case True
    then show ?thesis using Cons m e by (simp add: case_prod_beta)
  next
    case False
    then have "validate_graceful eps seen' (map (\<lambda>m. (ec_name ep, m)) msgs) \<noteq> []"
      using validate_graceful_grows [of eps seen' "map (\<lambda>m. (ec_name ep, m)) msgs"] by auto
    then show ?thesis using False m e by (auto simp: case_prod_beta)
  qed
qed simp

lemma fatal_ok [simp]: "fatal r = Inr u \<longleftrightarrow> r = Inr u"
  by (cases r) (auto simp: fatal_def)

lemma validate_config_ok: "validate_config c = Inr u \<longleftrightarrow> validate_loop (cf_endpoints c) [] = []"
  by (auto simp: validate_config_def split: list.splits)

text \<open>The graceful loader reports no warning and returns a configuration exactly if the strict
  loader accepts the document with that configuration and every isolation value is one of the two
  known ones (which only the graceful loader looks at).\<close>

theorem graceful_clean_iff_strict:
  "parse_and_validate_graceful env home parsed = Inr (c, []) \<longleftrightarrow>
   parse_and_validate env home parsed = Inr c \<and> list_all (\<lambda>ep. isolation_problem ep = None) (cf_endpoints c)"
proof -
  obtain eps ws where g: "resolve_endpoints_graceful env (cf_endpoints parsed) [] = (eps, ws)"
    by (cases "resolve_endpoints_graceful env (cf_endpoints parsed) []")
  show ?thesis
  proof (cases "ws = []")
    case True
    then have "resolve_endpoints env (cf_endpoints parsed) = Inr eps" using g graceful_resolves by simp
    then have r: "resolve_env_vars env parsed = Inr (parsed\<lparr>cf_endpoints := eps\<rparr>)"
      by (simp add: resolve_env_vars_def)
    show ?thesis
      using True g r validate_graceful_clean [of eps "[]"]
      by (auto simp: parse_and_validate_graceful_def parse_and_validate_def and_then_Inr_iff validate_config_ok Let_def)
  next
    case False
    then have "resolve_endpoints env (cf_endpoints parsed) \<noteq> Inr x" for x using g graceful_resolves by (metis prod.inject)
    then have "resolve_env_vars env parsed \<noteq> Inr x" for x
      by (cases "resolve_endpoints env (cf_endpoints parsed)") (auto simp: resolve_env_vars_def)
    moreover have "validate_graceful eps [] ws \<noteq> []" using validate_graceful_grows [of eps "[]" ws] False by auto
    ultimately show ?thesis
      using g by (auto simp: parse_and_validate_graceful_def parse_and_validate_def and_then_Inr_iff Let_def)
  qed
qed

definition plain_endpoint :: "string \<Rightarrow> endpoint_config" where
  "plain_endpoint nm = \<lparr>ec_name = nm, ec_description = None, ec_tool_prefix = None, ec_transport = Http,
     ec_command = None, ec_args = None, ec_url = Some ''http://h'', ec_env = None, ec_headers = None,
     ec_disabled = False, ec_disabled_tools = [], ec_oauth_server_url = None, ec_client_id = None,
     ec_client_secret = None, ec_scopes = None, ec_token_endpoint = None, ec_server_type_override = None,
     ec_isolation = None, ec_container_image = None, ec_mounts = None, ec_auth = None\<rparr>"

text \<open>The four checks an endpoint's fields must pass.\<close>

definition well_formed :: "endpoint_config \<Rightarrow> bool" where
  "well_formed ep =
     (ec_name ep \<noteq> [] \<and> (\<exists>tp. resolved_tool_prefix ep = Some tp \<and> is_valid_endpoint_name tp) \<and>
      transport_problem ep = None \<and> isolation_problem ep = None \<and> validate_endpoint_auth ep = None)"

lemma resolve_keeps_name: "resolve_endpoint env ep = Inr ep' \<Longrightarrow> ec_name ep' = ec_name ep"
  by (auto simp: resolve_endpoint_def and_then_Inr_iff)

lemma graceful_one_name: "ec_name (fst (resolve_endpoint_graceful env ep ws)) = ec_name ep"
  by (auto simp: resolve_endpoint_graceful_def Let_def split: sum.splits)

lemma graceful_one_unwarned:
  assumes "ec_name ep \<notin> fst ` set (snd (resolve_endpoint_graceful env ep ws))"
  shows "resolve_endpoint env ep = Inr (fst (resolve_endpoint_graceful env ep ws))"
  using assms
  by (auto simp: resolve_endpoint_graceful_def resolve_endpoint_def Let_def list_all_iff image_iff
      split: sum.splits if_splits)

lemma graceful_unwarned:
  assumes "ep' \<in> set (fst (resolve_endpoints_graceful env eps ws))"
    and "ec_name ep' \<notin> fst ` set (snd (resolve_endpoints_graceful env eps ws))"
  shows "\<exists>ep \<in> set eps. resolve_endpoint env ep = Inr ep'"
  using assms
proof (induction eps arbitrary: ws)
  case (Cons ep eps)
  let ?one = "resolve_endpoint_graceful env ep ws"
  obtain x where "snd (resolve_endpoints_graceful env eps (snd ?one)) = snd ?one @ x"
    using graceful_grows by blast
  then have fresh: "ec_name ep' \<notin> fst ` set (snd ?one)"
    using Cons.prems(2) by (auto simp: case_prod_beta)
  have "ep' = fst ?one \<or> ep' \<in> set (fst (resolve_endpoints_graceful env eps (snd ?one)))"
    using Cons.prems(1) by (simp add: case_prod_beta)
  then show ?case
  proof
    assume ep': "ep' = fst ?one"
    then have "resolve_endpoint env ep = Inr ep'"
      using fresh graceful_one_unwarned [of ep env ws] graceful_one_name [of env ep ws] by simp
    then show ?thesis by auto
  next
    assume "ep' \<in> set (fst (resolve_endpoints_graceful env eps (snd ?one)))"
    then show ?thesis using Cons.IH [of "snd ?one"] Cons.prems(2) by (simp add: case_prod_beta)
  qed
qed simp

lemma check_prefix_None:
  "fst (check_prefix b ep seen) = None \<longleftrightarrow>
     (\<exists>tp. resolved_tool_prefix ep = Some tp \<and> is_valid_endpoint_name tp \<and> tp \<notin> set seen)"
  "fst (check_prefix b ep seen) = None \<Longrightarrow> snd (check_prefix b ep seen) = the (resolved_tool_prefix ep) # seen"
  "set seen \<subseteq> set (snd (check_prefix b ep seen))"
  by (auto simp: check_prefix_def split: option.splits)

lemma validate_unwarned:
  assumes "ec_name ep \<notin> fst ` set (validate_graceful (as @ ep # bs) seen ws)"
  shows "well_formed ep \<and> the (resolved_tool_prefix ep) \<notin> set seen \<and>
    (\<forall>a \<in> set as. ec_name a \<notin> fst ` set (validate_graceful (as @ ep # bs) seen ws) \<longrightarrow>
       resolved_tool_prefix a \<noteq> resolved_tool_prefix ep)"
  using assms
proof (induction as arbitrary: seen ws)
  case Nil
  obtain msgs seen' where m: "endpoint_warnings ep ws seen = (msgs, seen')" by (cases "endpoint_warnings ep ws seen")
  obtain x where x: "validate_graceful bs seen' (ws @ map (\<lambda>m. (ec_name ep, m)) msgs) = (ws @ map (\<lambda>m. (ec_name ep, m)) msgs) @ x"
    using validate_graceful_grows by blast
  have fresh: "ec_name ep \<notin> fst ` set ws" using x Nil m by auto
  have "msgs = []" using x Nil m by (cases msgs) auto
  then have "fst (endpoint_warnings ep ws seen) = []" using m by simp
  then have clean: "ec_name ep \<noteq> []" "fst (check_prefix bad_prefix_graceful ep seen) = None" "transport_problem ep = None"
    "isolation_problem ep = None" "validate_endpoint_auth ep = None"
    using fresh by (auto simp: endpoint_warnings_def Let_def case_prod_beta list_ex_iff image_iff split: if_splits)
  then show ?case using check_prefix_None(1) [of bad_prefix_graceful ep seen] by (auto simp: well_formed_def)
next
  case (Cons a as)
  obtain msgs seen' where m: "endpoint_warnings a ws seen = (msgs, seen')" by (cases "endpoint_warnings a ws seen")
  let ?ws = "ws @ map (\<lambda>m. (ec_name a, m)) msgs" and ?out = "validate_graceful ((a # as) @ ep # bs) seen ws"
  have out: "?out = validate_graceful (as @ ep # bs) seen' ?ws" using m by simp
  have seen': "seen' = snd (check_prefix bad_prefix_graceful a seen)"
    using m by (auto simp: endpoint_warnings_def Let_def case_prod_beta)
  have IH: "well_formed ep" "the (resolved_tool_prefix ep) \<notin> set seen'"
    "\<forall>a \<in> set as. ec_name a \<notin> fst ` set ?out \<longrightarrow> resolved_tool_prefix a \<noteq> resolved_tool_prefix ep"
    using Cons.IH [of seen' ?ws] Cons.prems unfolding out by auto
  have "resolved_tool_prefix a \<noteq> resolved_tool_prefix ep" if "ec_name a \<notin> fst ` set ?out"
  proof -
    obtain x where "?out = ?ws @ x" using validate_graceful_grows out by metis
    then have "msgs = []" using that by (cases msgs) auto
    then have "fst (check_prefix bad_prefix_graceful a seen) = None"
      using m by (auto simp: endpoint_warnings_def Let_def case_prod_beta)
    then have "the (resolved_tool_prefix a) \<in> set seen'"
      using check_prefix_None(2) seen' by auto
    then show ?thesis using IH(2) by metis
  qed
  then show ?case using IH check_prefix_None(3) [of seen bad_prefix_graceful a] seen' by auto
qed

lemma graceful_parts:
  assumes "parse_and_validate_graceful env home parsed = Inr (c, ws)"
  shows "cf_endpoints c = fst (resolve_endpoints_graceful env (cf_endpoints parsed) [])"
    "ws = validate_graceful (cf_endpoints c) [] (snd (resolve_endpoints_graceful env (cf_endpoints parsed) []))"
    "validate_profiles c = Inr ()"
  using assms by (auto simp: parse_and_validate_graceful_def Let_def case_prod_beta and_then_Inr_iff)

text \<open>An endpoint the graceful loader does not warn about is as good as one the strict loader accepts:
  its environment and headers are resolved, its name, prefix, transport fields, isolation and auth
  block are valid, and no earlier endpoint without a warning has its tool prefix.\<close>

theorem unwarned_endpoint_valid:
  assumes "parse_and_validate_graceful env home parsed = Inr (c, ws)"
    and "cf_endpoints c = as @ ep # bs" and "ec_name ep \<notin> warned_endpoint_names ws"
  shows "(\<exists>raw \<in> set (cf_endpoints parsed). resolve_endpoint env raw = Inr ep) \<and> well_formed ep \<and>
    (\<forall>a \<in> set as. ec_name a \<notin> warned_endpoint_names ws \<longrightarrow> resolved_tool_prefix a \<noteq> resolved_tool_prefix ep)"
proof -
  let ?g = "resolve_endpoints_graceful env (cf_endpoints parsed) []"
  note parts = graceful_parts [OF assms(1)]
  obtain x where "ws = snd ?g @ x" using validate_graceful_grows parts(2) by metis
  then have "ec_name ep \<notin> fst ` set (snd ?g)" using assms(3) by (auto simp: warned_endpoint_names_def)
  then have "\<exists>raw \<in> set (cf_endpoints parsed). resolve_endpoint env raw = Inr ep"
    using graceful_unwarned [of ep env "cf_endpoints parsed" "[]"] parts(1) [symmetric] assms(2) by simp
  then show ?thesis
    using validate_unwarned [of ep as bs "[]" "snd ?g"] parts(2) assms(2,3)
    by (simp add: warned_endpoint_names_def)
qed

definition two_plain :: config where
  "two_plain = (default_config None)\<lparr>cf_endpoints := [plain_endpoint ''fs'', (plain_endpoint ''git'')\<lparr>ec_url := None\<rparr>]\<rparr>"

lemmas plain_defs = plain_endpoint_def resolved_tool_prefix_def sanitize_name_def chars_ascii is_ascii_def byte_def
  lower_char_def is_upper_def is_lower_def is_digit_def endpoint_char_def is_valid_endpoint_name_def

theorem unwarned_endpoint_valid_witness:
  "well_formed (plain_endpoint ''fs'')"
proof -
  let ?git = "(plain_endpoint ''git'')\<lparr>ec_url := None\<rparr>"
  have "\<exists>msg. parse_and_validate_graceful (\<lambda>_. None) None two_plain = Inr (two_plain, [(''git'', msg)])"
    by (simp add: parse_and_validate_graceful_def two_plain_def default_config_def default_relay_def
        resolve_endpoint_graceful_def resolve_opt_def Let_def endpoint_warnings_def check_prefix_def plain_defs
        transport_problem_def isolation_problem_def validate_endpoint_auth_def missing_def opt_list_def
        validate_profiles_def validate_write_dirs_def fatal_def)
  then obtain msg where g: "parse_and_validate_graceful (\<lambda>_. None) None two_plain = Inr (two_plain, [(''git'', msg)])" by blast
  have "cf_endpoints two_plain = [] @ plain_endpoint ''fs'' # [?git]" by (simp add: two_plain_def)
  from unwarned_endpoint_valid [OF g this] show ?thesis by (simp add: warned_endpoint_names_def plain_endpoint_def)
qed

section \<open>Profiles\<close>

definition profile_ok :: "string set \<Rightarrow> profile_config \<Rightarrow> bool" where
  "profile_ok names p =
     (\<not> blank (Some (pc_name p)) \<and> path_pattern (pc_path p) \<and>
      list_all (\<lambda>r. \<not> eq_ignore_ascii_case r (pc_path p)) RESERVED_PROFILE_PATHS \<and> set (pc_endpoints p) \<subseteq> names)"

lemma profile_path_ok: "validate_profile_path p = None \<longleftrightarrow>
    path_pattern p \<and> list_all (\<lambda>r. \<not> eq_ignore_ascii_case r p) RESERVED_PROFILE_PATHS"
  by (auto simp: validate_profile_path_def list_ex_iff list_all_iff path_pattern_def)

lemma profile_errors_none:
  "fst (profile_errors names p (sn, sp)) = [] \<longleftrightarrow>
     profile_ok names p \<and> pc_name p \<notin> set sn \<and> to_ascii_lowercase (pc_path p) \<notin> set sp"
  "fst (profile_errors names p (sn, sp)) = [] \<Longrightarrow>
     snd (profile_errors names p (sn, sp)) = (pc_name p # sn, to_ascii_lowercase (pc_path p) # sp)"
  using profile_path_ok [of "pc_path p"]
  by (cases "validate_profile_path (pc_path p)";
      auto simp: profile_errors_def profile_ok_def Let_def filter_empty_conv split: if_splits)+

lemma profiles_loop_none:
  "profiles_loop names ps (sn, sp) = [] \<longleftrightarrow>
     list_all (profile_ok names) ps \<and> distinct (map pc_name ps) \<and> set (map pc_name ps) \<inter> set sn = {} \<and>
     distinct (map (\<lambda>p. to_ascii_lowercase (pc_path p)) ps) \<and>
     set (map (\<lambda>p. to_ascii_lowercase (pc_path p)) ps) \<inter> set sp = {}"
proof (induction ps arbitrary: sn sp)
  case (Cons p ps)
  show ?case
  proof (cases "fst (profile_errors names p (sn, sp)) = []")
    case True
    then show ?thesis
      using Cons [of "pc_name p # sn" "to_ascii_lowercase (pc_path p) # sp"]
        profile_errors_none [of names p sn sp] by (auto simp: case_prod_beta)
  next
    case False
    then show ?thesis using profile_errors_none(1) [of names p sn sp] by (auto simp: case_prod_beta)
  qed
qed simp

text \<open>A profile list passes exactly if every profile has a name that is not blank, a path of the
  allowed form that is not reserved in any capitalisation, and only configured endpoints, and no two
  profiles share a name or, ignoring case, a path.\<close>

theorem profiles_valid_iff:
  "validate_profiles c = Inr () \<longleftrightarrow>
     list_all (profile_ok (set (map ec_name (cf_endpoints c)))) (unwrap_or [] (cf_profiles c)) \<and>
     distinct (map pc_name (unwrap_or [] (cf_profiles c))) \<and>
     distinct (map (\<lambda>p. to_ascii_lowercase (pc_path p)) (unwrap_or [] (cf_profiles c)))"
  using profiles_loop_none [of "set (map ec_name (cf_endpoints c))" "unwrap_or [] (cf_profiles c)" "[]" "[]"]
  by (cases "cf_profiles c") (auto simp: validate_profiles_def split: list.splits)

section \<open>Differences\<close>

lemma fold_by_name:
  "hm_wf m \<Longrightarrow> hm_wf (fold (\<lambda>e m. hm_insert (ec_name e) e m) eps m)"
  "hm_get (fold (\<lambda>e m. hm_insert (ec_name e) e m) eps m) n =
     (case find (\<lambda>e. ec_name e = n) (rev eps) of Some e \<Rightarrow> Some e | None \<Rightarrow> hm_get m n)"
proof (induction eps arbitrary: m rule: rev_induct)
  case (snoc e eps)
  { case 1 then show ?case using snoc by simp }
  { case 2 show ?case using snoc by (simp add: hm_get_insert) }
qed simp_all

lemma by_name_wf [simp]: "hm_wf (by_name eps)"
  by (simp add: by_name_def fold_by_name)

lemma by_name_get: "hm_get (by_name eps) n = find (\<lambda>e. ec_name e = n) (rev eps)"
  by (simp add: by_name_def fold_by_name split: option.splits)

lemma by_name_in:
  assumes "distinct (map ec_name eps)"
  shows "(n, e) \<in> set (by_name eps) \<longleftrightarrow> e \<in> set eps \<and> ec_name e = n"
proof -
  have "find (\<lambda>e. ec_name e = n) (rev eps) = Some e \<longleftrightarrow> e \<in> set eps \<and> ec_name e = n"
    using assms
  proof (induction eps rule: rev_induct)
    case (snoc x xs)
    then show ?case by (auto simp: image_iff)
  qed simp
  then show ?thesis by (simp add: hm_in_set by_name_get)
qed

lemma by_name_none: "hm_get (by_name eps) n = None \<longleftrightarrow> n \<notin> ec_name ` set eps"
  by (auto simp: by_name_get find_None_iff)

lemma diff_sets:
  assumes old: "distinct (map ec_name (cf_endpoints old))" and new: "distinct (map ec_name (cf_endpoints new))"
  shows "set (cd_added (diff_configs old new)) = {e \<in> set (cf_endpoints new). ec_name e \<notin> ec_name ` set (cf_endpoints old)} \<and>
    set (cd_removed (diff_configs old new)) = ec_name ` set (cf_endpoints old) - ec_name ` set (cf_endpoints new) \<and>
    set (cd_changed (diff_configs old new)) =
      {(ec_name e, e) |e. e \<in> set (cf_endpoints new) \<and>
         (\<exists>o' \<in> set (cf_endpoints old). ec_name o' = ec_name e \<and> \<not> same_endpoint o' e)} \<and>
    set (cd_unchanged (diff_configs old new)) =
      {ec_name e |e. e \<in> set (cf_endpoints new) \<and>
         (\<exists>o' \<in> set (cf_endpoints old). ec_name o' = ec_name e \<and> same_endpoint o' e)} \<and>
    (cd_organizations_changed (diff_configs old new) \<longleftrightarrow> cf_organizations old \<noteq> cf_organizations new)"
proof -
  let ?old = "by_name (cf_endpoints old)" and ?new = "by_name (cf_endpoints new)"
  have oldv: "hm_get ?old n = Some e \<longleftrightarrow> e \<in> set (cf_endpoints old) \<and> ec_name e = n" for n e
    using by_name_in [OF old, of n e] by (simp add: hm_in_set)
  have newv: "(n, e) \<in> set ?new \<longleftrightarrow> e \<in> set (cf_endpoints new) \<and> ec_name e = n" for n e
    by (rule by_name_in [OF new])
  have oldin: "(n, e) \<in> set ?old \<longleftrightarrow> e \<in> set (cf_endpoints old) \<and> ec_name e = n" for n e
    by (rule by_name_in [OF old])
  have one: "(case hm_get ?old n of None \<Rightarrow> False | Some o' \<Rightarrow> P o') \<longleftrightarrow>
      (\<exists>o' \<in> set (cf_endpoints old). ec_name o' = n \<and> P o')" for n P
  proof (cases "hm_get ?old n")
    case None
    then show ?thesis using by_name_none [of "cf_endpoints old" n] by auto
  next
    case (Some o')
    have "o'' = o'" if "o'' \<in> set (cf_endpoints old)" "ec_name o'' = n" for o''
      using that Some oldv [of n o''] by simp
    then show ?thesis using Some oldv [of n o'] by auto
  qed
  show ?thesis
    by (auto simp: diff_configs_def Let_def newv oldin one by_name_none hm_contains_def image_iff; metis)
qed

text \<open>For configurations without duplicate endpoint names, the difference puts every endpoint of the
  new configuration in exactly one class by its name: added if the old one has no such name, changed if
  a compared field differs, unchanged otherwise; removed are the names that are gone; and the
  organisations are compared as they are.\<close>

theorem diff_classifies:
  assumes old: "distinct (map ec_name (cf_endpoints old))" and new: "distinct (map ec_name (cf_endpoints new))"
  shows "set (cd_added (diff_configs old new)) = {e \<in> set (cf_endpoints new). ec_name e \<notin> ec_name ` set (cf_endpoints old)} \<and>
    set (cd_removed (diff_configs old new)) = ec_name ` set (cf_endpoints old) - ec_name ` set (cf_endpoints new) \<and>
    set (cd_changed (diff_configs old new)) =
      {(ec_name e, e) |e. e \<in> set (cf_endpoints new) \<and>
         (\<exists>o' \<in> set (cf_endpoints old). ec_name o' = ec_name e \<and> \<not> same_endpoint o' e)} \<and>
    set (cd_unchanged (diff_configs old new)) =
      {ec_name e |e. e \<in> set (cf_endpoints new) \<and>
         (\<exists>o' \<in> set (cf_endpoints old). ec_name o' = ec_name e \<and> same_endpoint o' e)} \<and>
    (cd_organizations_changed (diff_configs old new) \<longleftrightarrow> cf_organizations old \<noteq> cf_organizations new)"
  by (rule diff_sets [OF assms])

theorem diff_classifies_witness:
  "set (cd_added (diff_configs (default_config None) ((default_config None)\<lparr>cf_endpoints := [plain_endpoint ''fs'']\<rparr>))) =
     {plain_endpoint ''fs''}"
proof -
  have o': "distinct (map ec_name (cf_endpoints (default_config None)))" by (simp add: default_config_def)
  have n: "distinct (map ec_name (cf_endpoints ((default_config None)\<lparr>cf_endpoints := [plain_endpoint ''fs'']\<rparr>)))" by simp
  from diff_classifies [OF o' n] show ?thesis by (auto simp: default_config_def)
qed

text \<open>An edit of the token endpoint or the description of endpoints is no difference at all: nothing
  is added, removed or changed, so a hot reload keeps the adapters built from the old values.\<close>

theorem diff_misses_token_endpoint:
  "cd_added (diff_configs c (c\<lparr>cf_endpoints := map (\<lambda>e. e\<lparr>ec_token_endpoint := t e, ec_description := d e\<rparr>) (cf_endpoints c)\<rparr>)) = [] \<and>
   cd_removed (diff_configs c (c\<lparr>cf_endpoints := map (\<lambda>e. e\<lparr>ec_token_endpoint := t e, ec_description := d e\<rparr>) (cf_endpoints c)\<rparr>)) = [] \<and>
   cd_changed (diff_configs c (c\<lparr>cf_endpoints := map (\<lambda>e. e\<lparr>ec_token_endpoint := t e, ec_description := d e\<rparr>) (cf_endpoints c)\<rparr>)) = []"
proof -
  let ?f = "\<lambda>e. e\<lparr>ec_token_endpoint := t e, ec_description := d e\<rparr>"
  have name: "ec_name (?f e) = ec_name e" for e by simp
  have find: "find (\<lambda>e. ec_name e = n) (map ?f es) = map_option ?f (find (\<lambda>e. ec_name e = n) es)" for n es
    by (induction es) auto
  have get: "hm_get (by_name (map ?f es)) n = map_option ?f (hm_get (by_name es) n)" for n es
    by (simp add: by_name_get rev_map find)
  have mem: "(n, e) \<in> set (by_name es) \<longleftrightarrow> hm_get (by_name es) n = Some e" for n e es
    by (simp add: hm_in_set)
  show ?thesis
    by (auto simp: diff_configs_def Let_def filter_empty_conv mem get hm_contains_def same_endpoint_def
        split: option.splits)
qed

end
