(* ===== verification/Building.thy ===== *)
theory Building
  imports Config_Checks Tokens Supervision
begin

text \<open>
  From an endpoint's configuration to its adapter (\<^verbatim>\<open>create_adapter\<close> and its helpers in \<^verbatim>\<open>src/watcher.rs\<close>): which
  adapter is built, with which configuration, and when a failed adapter takes its place. The adapters' own
  \<^verbatim>\<open>initialize\<close>, authorization-server discovery (network calls) and the files of the token store are arguments.
\<close>

section \<open>OAuth coordinates\<close>

definition trim_slashes :: "string \<Rightarrow> string" where
  "trim_slashes s = rev (dropWhile (\<lambda>c. c = CHR 0x2F) (rev s))"

definition conventional_token_endpoint :: "string \<Rightarrow> string" where
  "conventional_token_endpoint base = trim_slashes base @ ''/token''"

text \<open>\<^verbatim>\<open>.as_deref().map(str::trim).filter(|s| !s.is_empty())\<close>.\<close>

definition nonblank :: "string option \<Rightarrow> string option" where
  "nonblank v = Option.bind v (\<lambda>s. if trim s = [] then None else Some (trim s))"

record server_metadata =
  sm_issuer :: string
  sm_authorization_endpoint :: string
  sm_token_endpoint :: string

type_synonym discovery = "string \<Rightarrow> string + server_metadata"

definition resolve_oauth_token_endpoint :: "discovery \<Rightarrow> endpoint_config \<Rightarrow> string" where
  "resolve_oauth_token_endpoint discover ep =
     (case nonblank (ec_token_endpoint ep) of
        Some explicit \<Rightarrow> explicit
      | None \<Rightarrow>
         (case nonblank (ec_oauth_server_url ep) of
            None \<Rightarrow> conventional_token_endpoint []
          | Some base \<Rightarrow>
             (case discover base of
                Inr disc \<Rightarrow> sm_token_endpoint disc
              | Inl e \<Rightarrow> conventional_token_endpoint base)))"

definition resolve_oauth_client_creds ::
  "('c \<Rightarrow> dcr_credentials option) \<Rightarrow> 'c world \<Rightarrow> endpoint_config \<Rightarrow> string \<times> string option" where
  "resolve_oauth_client_creds de w ep =
     (case load_dcr de (ec_name ep) w of
        Inr (Some creds) \<Rightarrow> (client_id creds, client_secret creds)
      | Inr None \<Rightarrow> (unwrap_or [] (ec_client_id ep), ec_client_secret ep)
      | Inl e \<Rightarrow> (unwrap_or [] (ec_client_id ep), ec_client_secret ep))"

section \<open>EMA endpoints\<close>

definition is_ema_endpoint :: "endpoint_config \<Rightarrow> bool" where
  "is_ema_endpoint ep = (case ec_auth ep of Some a \<Rightarrow> ea_type a = ''ema'' | None \<Rightarrow> False)"

record resolved_ema_idp =
  ri_idp_key :: string
  ri_idp_issuer :: string
  ri_resource :: string
  ri_client_id :: "string option"

definition resolve_ema_idp :: "endpoint_config \<Rightarrow> organization list \<Rightarrow> resolved_ema_idp option" where
  "resolve_ema_idp ep orgs =
     Option.bind (ec_auth ep) (\<lambda>auth.
       if ea_type auth \<noteq> ''ema'' then None
       else Option.bind (nonblank (ea_resource auth)) (\<lambda>resource.
         case nonblank (ea_organization auth) of
           Some org_name \<Rightarrow>
             Option.bind (find (\<lambda>o'. og_name o' = org_name) orgs) (\<lambda>org.
               if trim (og_idp org) = [] then None
               else Some \<lparr>ri_idp_key = og_name org, ri_idp_issuer = trim (og_idp org), ri_resource = resource,
                 ri_client_id = nonblank (og_client_id org)\<rparr>)
         | None \<Rightarrow>
             Option.bind (nonblank (ea_idp auth)) (\<lambda>idp.
               Some \<lparr>ri_idp_key = idp, ri_idp_issuer = idp, ri_resource = resource, ri_client_id = None\<rparr>)))"

record ema_config =
  em_idp_key :: string
  em_idp_issuer :: string
  em_idp_authorization_endpoint :: string
  em_idp_token_endpoint :: string
  em_as_issuer :: string
  em_as_token_endpoint :: string
  em_resource :: string
  em_client_id :: "string option"
  em_client_secret :: "string option"
  em_resource_client_id :: "string option"
  em_resource_client_secret :: "string option"
  em_resource_scope :: "string option"

definition resource_scope :: "endpoint_config \<Rightarrow> string option" where
  "resource_scope ep = Option.bind (map_option (join '' '') (ec_scopes ep)) (\<lambda>s. if s = [] then None else Some s)"

definition resolve_ema_config ::
  "discovery \<Rightarrow> discovery \<Rightarrow> endpoint_config \<Rightarrow> resolved_ema_idp \<Rightarrow> string option \<Rightarrow> string option \<Rightarrow> string option \<Rightarrow>
   ema_config option" where
  "resolve_ema_config discover_idp discover_resource ep ri secret rid rsecret =
     (case discover_idp (ri_idp_issuer ri) of
        Inl e \<Rightarrow> None
      | Inr idp \<Rightarrow>
         (case discover_resource (ri_resource ri) of
            Inl e \<Rightarrow> None
          | Inr as \<Rightarrow> Some \<lparr>em_idp_key = ri_idp_key ri, em_idp_issuer = ri_idp_issuer ri,
              em_idp_authorization_endpoint = sm_authorization_endpoint idp, em_idp_token_endpoint = sm_token_endpoint idp,
              em_as_issuer = sm_issuer as, em_as_token_endpoint = sm_token_endpoint as, em_resource = ri_resource ri,
              em_client_id = ri_client_id ri, em_client_secret = secret, em_resource_client_id = rid,
              em_resource_client_secret = rsecret, em_resource_scope = resource_scope ep\<rparr>))"

section \<open>Building\<close>

record stdio_config =
  sc_command :: string
  sc_args :: "string list"
  sc_env :: "(string, string) hashmap"
  sc_server_type_override :: "string option"
  sc_endpoint_name :: string
  sc_isolation :: isolation_mode
  sc_container_image :: "string option"
  sc_mounts :: "string list"

record remote_config =
  rm_url :: string
  rm_timeout_secs :: u64
  rm_headers :: "(string, string) hashmap"
  rm_server_type_override :: "string option"
  rm_endpoint_name :: string

record oauth_build =
  ob_endpoint_name :: string
  ob_url :: string
  ob_token_endpoint_url :: string
  ob_client_id :: string
  ob_client_secret :: "string option"
  ob_heartbeat_interval_secs :: u64
  ob_probe_timeout_secs :: u64
  ob_probe_failure_threshold :: u32
  ob_server_type_override :: "string option"
  ob_allow_insecure :: bool
  ob_ema :: "ema_config option"

datatype built =
    BuiltFailed string "string option"
  | BuiltStdio stdio_config
  | BuiltSse remote_config
  | BuiltHttp remote_config bool
  | BuiltOAuth oauth_build

text \<open>What building relies on: the outcome of the first \<^verbatim>\<open>initialize\<close> of each adapter, discovery, the token store.\<close>

record 'c builder =
  bd_init_stdio :: "stdio_config \<Rightarrow> adapter_error + unit"
  bd_init_sse :: "remote_config \<Rightarrow> adapter_error + unit"
  bd_init_http :: "remote_config \<Rightarrow> adapter_error + unit"
  bd_discover_idp :: discovery
  bd_discover_resource :: discovery
  bd_dcr :: "'c \<Rightarrow> dcr_credentials option"
  bd_disk :: "'c world"
  bd_allow_insecure :: bool
  bd_jit :: bool

definition new_http_config :: "string \<Rightarrow> remote_config" where
  "new_http_config url = \<lparr>rm_url = url, rm_timeout_secs = 30, rm_headers = [], rm_server_type_override = None, rm_endpoint_name = []\<rparr>"

definition new_sse_config :: "string \<Rightarrow> remote_config" where
  "new_sse_config url = \<lparr>rm_url = url, rm_timeout_secs = 30, rm_headers = [], rm_server_type_override = None, rm_endpoint_name = []\<rparr>"

definition is_permanent_init_failure :: "adapter_error \<Rightarrow> bool" where
  "is_permanent_init_failure err =
     (case err of HttpError status b \<Rightarrow> status = 401 \<or> status = 403 \<or> status = 404 | ProtocolError m \<Rightarrow> True | _ \<Rightarrow> False)"

definition ENDARA_CLIENT_METADATA_URL :: string where
  "ENDARA_CLIENT_METADATA_URL = ''https://endara.ai/oauth/client-metadata.json''"

definition loaded_dcr :: "'c builder \<Rightarrow> string \<Rightarrow> dcr_credentials option" where
  "loaded_dcr b key = (case load_dcr (bd_dcr b) key (bd_disk b) of Inr creds \<Rightarrow> creds | Inl e \<Rightarrow> None)"

definition requesting_secret :: "string option \<Rightarrow> dcr_credentials option \<Rightarrow> string option" where
  "requesting_secret org_client_id dcr =
     (case (org_client_id, dcr) of
        (Some cid, Some creds) \<Rightarrow> if client_id creds = cid then client_secret creds else None
      | _ \<Rightarrow> None)"

definition build_ema_adapter :: "'c builder \<Rightarrow> endpoint_config \<Rightarrow> organization list \<Rightarrow> built" where
  "build_ema_adapter b ep orgs =
     (case resolve_ema_idp ep orgs of
        None \<Rightarrow> BuiltFailed (''EMA endpoint '' @ tick (ec_name ep) @ '' is missing a resolvable organization/idp and resource'')
          (ec_server_type_override ep)
      | Some resolved \<Rightarrow>
         (if ec_transport ep \<notin> {Http, Oauth}
          then BuiltFailed (''EMA endpoint '' @ tick (ec_name ep) @ '' requires transport '' @ dq ''http'' @ '' or '' @ dq ''oauth'' @
            '', got '' @ dq (show_transport (ec_transport ep))) (ec_server_type_override ep)
          else if trim (unwrap_or [] (ec_url ep)) = []
          then BuiltFailed (''EMA endpoint '' @ tick (ec_name ep) @ '' requires a non-empty '' @ tick ''url'' @ '' (upstream MCP server URL)'')
            (ec_server_type_override ep)
          else
            let secret = requesting_secret (ri_client_id resolved) (loaded_dcr b (ri_idp_key resolved));
                endpoint_dcr = loaded_dcr b (ec_name ep)
            in case resolve_ema_config (bd_discover_idp b) (bd_discover_resource b) ep resolved secret
                 (Option.bind endpoint_dcr resource_client_id) (Option.bind endpoint_dcr resource_client_secret) of
                 None \<Rightarrow> BuiltFailed (''EMA endpoint '' @ tick (ec_name ep) @ '' could not resolve IdP/resource discovery'')
                   (ec_server_type_override ep)
               | Some ema \<Rightarrow> BuiltOAuth \<lparr>ob_endpoint_name = ec_name ep, ob_url = unwrap_or [] (ec_url ep),
                   ob_token_endpoint_url = em_as_token_endpoint ema, ob_client_id = ENDARA_CLIENT_METADATA_URL,
                   ob_client_secret = None, ob_heartbeat_interval_secs = 30, ob_probe_timeout_secs = 10,
                   ob_probe_failure_threshold = 3, ob_server_type_override = ec_server_type_override ep,
                   ob_allow_insecure = bd_allow_insecure b, ob_ema = Some ema\<rparr>))"

definition create_adapter :: "'c builder \<Rightarrow> endpoint_config \<Rightarrow> organization list \<Rightarrow> built" where
  "create_adapter b ep orgs =
     (if is_ema_endpoint ep then build_ema_adapter b ep orgs
      else
        case ec_transport ep of
          Stdio \<Rightarrow>
            let c = \<lparr>sc_command = unwrap_or [] (ec_command ep), sc_args = unwrap_or [] (ec_args ep),
                  sc_env = unwrap_or [] (ec_env ep), sc_server_type_override = ec_server_type_override ep,
                  sc_endpoint_name = ec_name ep, sc_isolation = from_config_value (ec_isolation ep),
                  sc_container_image = ec_container_image ep, sc_mounts = unwrap_or [] (ec_mounts ep)\<rparr>
            in (case bd_init_stdio b c of
                  Inr u \<Rightarrow> BuiltStdio c
                | Inl e \<Rightarrow> BuiltFailed (display_error e) (ec_server_type_override ep))
        | Sse \<Rightarrow>
            let c = (new_sse_config (unwrap_or [] (ec_url ep)))\<lparr>rm_headers := unwrap_or [] (ec_headers ep),
                  rm_server_type_override := ec_server_type_override ep, rm_endpoint_name := ec_name ep\<rparr>
            in (case bd_init_sse b c of
                  Inr u \<Rightarrow> BuiltSse c
                | Inl e \<Rightarrow> BuiltFailed (display_error e) (ec_server_type_override ep))
        | Http \<Rightarrow>
            let c = (new_http_config (unwrap_or [] (ec_url ep)))\<lparr>rm_headers := unwrap_or [] (ec_headers ep),
                  rm_server_type_override := ec_server_type_override ep, rm_endpoint_name := ec_name ep\<rparr>
            in (case bd_init_http b c of
                  Inr u \<Rightarrow> BuiltHttp c (bd_jit b)
                | Inl e \<Rightarrow>
                   (if is_permanent_init_failure e
                    then BuiltFailed (''Failed to initialize HTTP adapter: '' @ display_error e) (ec_server_type_override ep)
                    else BuiltHttp c (bd_jit b)))
        | Oauth \<Rightarrow>
            let (cid, secret) = resolve_oauth_client_creds (bd_dcr b) (bd_disk b) ep
            in BuiltOAuth \<lparr>ob_endpoint_name = ec_name ep, ob_url = unwrap_or [] (ec_url ep),
                 ob_token_endpoint_url = resolve_oauth_token_endpoint (bd_discover_idp b) ep, ob_client_id = cid,
                 ob_client_secret = secret, ob_heartbeat_interval_secs = 30, ob_probe_timeout_secs = 10,
                 ob_probe_failure_threshold = 3, ob_server_type_override = ec_server_type_override ep,
                 ob_allow_insecure = bd_allow_insecure b, ob_ema = None\<rparr>)"

section \<open>A sample\<close>

definition acme :: "string \<Rightarrow> organization" where
  "acme idp = \<lparr>og_name = ''acme'', og_provider = ''okta'', og_idp = idp, og_client_id = Some ''cid''\<rparr>"

definition ema_endpoint :: "string \<Rightarrow> endpoint_config" where
  "ema_endpoint nm = (plain_endpoint nm)\<lparr>ec_auth := Some \<lparr>ea_type = ''ema'', ea_organization = Some ''acme'', ea_idp = None,
     ea_resource = Some ''r''\<rparr>\<rparr>"

definition sample_builder :: "dcr_credentials builder" where
  "sample_builder = \<lparr>bd_init_stdio = (\<lambda>c. Inr ()), bd_init_sse = (\<lambda>c. Inr ()), bd_init_http = (\<lambda>c. Inr ()),
     bd_discover_idp = (\<lambda>u. Inr \<lparr>sm_issuer = u, sm_authorization_endpoint = u @ ''/authorize'', sm_token_endpoint = u @ ''/token''\<rparr>),
     bd_discover_resource = (\<lambda>u. Inr \<lparr>sm_issuer = u, sm_authorization_endpoint = u @ ''/authorize'', sm_token_endpoint = u @ ''/token''\<rparr>),
     bd_dcr = Some,
     bd_disk = \<lparr>io = (\<lambda>_. None), junk = None, default_mode = 420, files = [(''acme.dcr.json'', \<lparr>content = sample_client, mode = 384\<rparr>)]\<rparr>,
     bd_allow_insecure = False, bd_jit = True\<rparr>"

lemma sample_trims: "trim ''old'' = ''old''" "trim ''new'' = ''new''" "trim ''acme'' = ''acme''" "trim ''r'' = ''r''"
    "trim ''cid'' = ''cid''" "trim ''http://h'' = ''http://h''"
  by (simp_all add: trim_def chars_ascii is_ascii_def byte_def trim_by_def is_space_def utf8_def utf8_code_def char_of_def
      bit_iff_odd)

lemma sample_resolves:
  "trim idp \<noteq> [] \<Longrightarrow> resolve_ema_idp (ema_endpoint nm) [acme idp] =
     Some \<lparr>ri_idp_key = ''acme'', ri_idp_issuer = trim idp, ri_resource = ''r'', ri_client_id = Some ''cid''\<rparr>"
  by (simp add: resolve_ema_idp_def ema_endpoint_def nonblank_def acme_def sample_trims)

lemma sample_secret: "loaded_dcr sample_builder ''acme'' = Some sample_client"
  by (simp add: loaded_dcr_def sample_builder_def load_dcr_def load_file_def dcr_file_def hm_get_Cons)

lemma sample_built:
  "\<exists>ob em. create_adapter sample_builder (ema_endpoint nm) [acme ''new''] = BuiltOAuth ob \<and> ob_ema ob = Some em \<and>
     em_client_secret em = Some ''s'' \<and> em_client_id em = Some ''cid'' \<and> em_idp_key em = ''acme''"
proof -
  have ema: "is_ema_endpoint (ema_endpoint nm)" by (simp add: is_ema_endpoint_def ema_endpoint_def)
  have "ec_transport (ema_endpoint nm) = Http" "ec_url (ema_endpoint nm) = Some ''http://h''"
    by (simp_all add: ema_endpoint_def plain_endpoint_def)
  then show ?thesis
    by (simp add: create_adapter_def ema build_ema_adapter_def sample_resolves sample_trims sample_secret requesting_secret_def
        resolve_ema_config_def Let_def) (simp add: sample_builder_def sample_client_def)
qed

section \<open>Which credentials an adapter gets\<close>

lemma resolved_ema:
  assumes "resolve_ema_idp ep orgs = Some ri"
  shows "\<exists>auth. ec_auth ep = Some auth \<and> ea_type auth = ''ema'' \<and> nonblank (ea_resource auth) = Some (ri_resource ri) \<and>
    (case nonblank (ea_organization auth) of
       Some n \<Rightarrow> ri_idp_key ri = n \<and> (\<exists>org. find (\<lambda>o'. og_name o' = n) orgs = Some org \<and>
         ri_idp_issuer ri = trim (og_idp org) \<and> ri_client_id ri = nonblank (og_client_id org))
     | None \<Rightarrow> nonblank (ea_idp auth) = Some (ri_idp_key ri) \<and> ri_idp_issuer ri = ri_idp_key ri \<and> ri_client_id ri = None)"
  using assms by (auto simp: resolve_ema_idp_def find_Some_iff split: bind_splits if_splits option.splits)

lemma built_ema:
  assumes "create_adapter b ep orgs = BuiltOAuth ob" "ob_ema ob = Some em"
  obtains ri where "resolve_ema_idp ep orgs = Some ri" "ob_client_secret ob = None"
    "em_idp_key em = ri_idp_key ri" "em_idp_issuer em = ri_idp_issuer ri" "em_client_id em = ri_client_id ri"
    "em_client_secret em = requesting_secret (ri_client_id ri) (loaded_dcr b (ri_idp_key ri))"
    "em_resource_client_secret em = Option.bind (loaded_dcr b (ec_name ep)) resource_client_secret"
    "em_resource_client_id em = Option.bind (loaded_dcr b (ec_name ep)) resource_client_id"
  using assms
  by (auto simp: create_adapter_def build_ema_adapter_def resolve_ema_config_def Let_def case_prod_unfold
      split: if_splits option.splits sum.splits transport.splits)

text \<open>C18: a secret only goes where it was registered for. The adapter built for an EMA endpoint has no client secret of its
  own; the secret of its identity-provider legs is the one stored under its pool key, and only when it was stored for
  the very client id the organization configures; the resource credential comes from the endpoint's own record alone.\<close>

theorem ema_credentials_confined:
  assumes built: "create_adapter b ep orgs = BuiltOAuth ob" and ema: "ob_ema ob = Some em"
  shows "ob_client_secret ob = None \<and>
    (\<forall>s. em_client_secret em = Some s \<longrightarrow>
       (\<exists>d. load_dcr (bd_dcr b) (em_idp_key em) (bd_disk b) = Inr (Some d) \<and> em_client_id em = Some (client_id d) \<and>
          client_secret d = Some s)) \<and>
    (\<forall>s. em_resource_client_secret em = Some s \<longrightarrow>
       (\<exists>d. load_dcr (bd_dcr b) (ec_name ep) (bd_disk b) = Inr (Some d) \<and> resource_client_secret d = Some s))"
proof -
  obtain ri where ri: "resolve_ema_idp ep orgs = Some ri" "ob_client_secret ob = None" "em_idp_key em = ri_idp_key ri"
    "em_client_id em = ri_client_id ri"
    "em_client_secret em = requesting_secret (ri_client_id ri) (loaded_dcr b (ri_idp_key ri))"
    "em_resource_client_secret em = Option.bind (loaded_dcr b (ec_name ep)) resource_client_secret"
    using built_ema [OF built ema] by metis
  have loaded: "loaded_dcr b k = Some d \<longleftrightarrow> load_dcr (bd_dcr b) k (bd_disk b) = Inr (Some d)" for k d
    by (auto simp: loaded_dcr_def split: sum.splits)
  show ?thesis
    using ri by (auto simp: requesting_secret_def loaded [symmetric] bind_eq_Some_conv split: option.splits if_splits)
qed

theorem ema_credentials_confined_witness:
  "load_dcr (bd_dcr sample_builder) ''acme'' (bd_disk sample_builder) = Inr (Some sample_client)"
proof -
  obtain ob em where b: "create_adapter sample_builder (ema_endpoint ''fs'') [acme ''new''] = BuiltOAuth ob" "ob_ema ob = Some em"
    "em_client_secret em = Some ''s''" "em_idp_key em = ''acme''"
    using sample_built by blast
  from ema_credentials_confined [OF b(1,2)] b(3,4) show ?thesis
    using sample_secret by (auto simp: loaded_dcr_def split: sum.splits)
qed

text \<open>Endpoints that name the same organization share one pooled identity-provider credential: the same key, issuer and
  client id, and so the same stored secret, whatever else their configurations say.\<close>

theorem ema_organization_shared:
  assumes b1: "create_adapter b ep1 orgs = BuiltOAuth ob1" "ob_ema ob1 = Some em1"
    and b2: "create_adapter b ep2 orgs = BuiltOAuth ob2" "ob_ema ob2 = Some em2"
    and org: "Option.bind (ec_auth ep1) (\<lambda>a. nonblank (ea_organization a)) = Some n"
      "Option.bind (ec_auth ep2) (\<lambda>a. nonblank (ea_organization a)) = Some n"
  shows "em_idp_key em1 = n \<and> em_idp_key em2 = n \<and> em_idp_issuer em1 = em_idp_issuer em2 \<and>
    em_client_id em1 = em_client_id em2 \<and> em_client_secret em1 = em_client_secret em2"
proof -
  obtain r1 where r1: "resolve_ema_idp ep1 orgs = Some r1" "em_idp_key em1 = ri_idp_key r1" "em_idp_issuer em1 = ri_idp_issuer r1"
    "em_client_id em1 = ri_client_id r1" "em_client_secret em1 = requesting_secret (ri_client_id r1) (loaded_dcr b (ri_idp_key r1))"
    using built_ema [OF b1] by metis
  obtain r2 where r2: "resolve_ema_idp ep2 orgs = Some r2" "em_idp_key em2 = ri_idp_key r2" "em_idp_issuer em2 = ri_idp_issuer r2"
    "em_client_id em2 = ri_client_id r2" "em_client_secret em2 = requesting_secret (ri_client_id r2) (loaded_dcr b (ri_idp_key r2))"
    using built_ema [OF b2] by metis
  have "ri_idp_key r1 = n" "ri_idp_key r2 = n" "ri_idp_issuer r1 = ri_idp_issuer r2" "ri_client_id r1 = ri_client_id r2"
    using resolved_ema [OF r1(1)] resolved_ema [OF r2(1)] org by auto
  then show ?thesis using r1 r2 by simp
qed

theorem ema_organization_shared_witness:
  "\<exists>ob1 em1 ob2 em2. create_adapter sample_builder (ema_endpoint ''fs'') [acme ''new''] = BuiltOAuth ob1 \<and> ob_ema ob1 = Some em1 \<and>
     create_adapter sample_builder (ema_endpoint ''git'') [acme ''new''] = BuiltOAuth ob2 \<and> ob_ema ob2 = Some em2 \<and>
     em_client_secret em1 = em_client_secret em2 \<and> em_idp_key em2 = ''acme''"
proof -
  obtain ob1 em1 ob2 em2 where b: "create_adapter sample_builder (ema_endpoint ''fs'') [acme ''new''] = BuiltOAuth ob1"
    "ob_ema ob1 = Some em1" "create_adapter sample_builder (ema_endpoint ''git'') [acme ''new''] = BuiltOAuth ob2" "ob_ema ob2 = Some em2"
    using sample_built by metis
  have org: "Option.bind (ec_auth (ema_endpoint nm)) (\<lambda>a. nonblank (ea_organization a)) = Some ''acme''" for nm
    by (simp add: ema_endpoint_def nonblank_def sample_trims)
  from ema_organization_shared [OF b org org] b show ?thesis by blast
qed

lemma utf8_eq_Nil: "utf8 xs = [] \<longleftrightarrow> xs = []"
  by (cases xs) (simp_all add: utf8_def utf8_code_def)

lemma blank_nonblank: "blank v \<longleftrightarrow> nonblank v = None"
  by (cases v) (simp_all add: blank_def nonblank_def trim_def utf8_eq_Nil chars_ascii is_ascii_def trim_by_def)

text \<open>What validation of an EMA block leaves open: a block that passes it fails to resolve exactly when it names an
  organization that the configuration does not have, or has without an issuer. A bare issuer always resolves.\<close>


theorem valid_ema_resolves_or_dangles:
  assumes "validate_endpoint_auth ep = None" "ec_auth ep = Some auth"
  shows "resolve_ema_idp ep orgs = None \<longleftrightarrow>
    (\<exists>n. nonblank (ea_organization auth) = Some n \<and>
       (case find (\<lambda>o'. og_name o' = n) orgs of None \<Rightarrow> True | Some org \<Rightarrow> trim (og_idp org) = []))"
  using assms
  by (cases "nonblank (ea_organization auth)"; cases "nonblank (ea_resource auth)"; cases "nonblank (ea_idp auth)")
    (auto simp: validate_endpoint_auth_def resolve_ema_idp_def blank_nonblank split: option.split if_splits)

theorem valid_ema_resolves_or_dangles_witness:
  "validate_endpoint_auth (ema_endpoint ''fs'') = None \<and> resolve_ema_idp (ema_endpoint ''fs'') [] = None"
proof -
  have v: "validate_endpoint_auth (ema_endpoint ''fs'') = None"
    by (simp add: validate_endpoint_auth_def ema_endpoint_def blank_nonblank nonblank_def sample_trims)
  have a: "ec_auth (ema_endpoint ''fs'') = Some \<lparr>ea_type = ''ema'', ea_organization = Some ''acme'', ea_idp = None, ea_resource = Some ''r''\<rparr>"
    by (simp add: ema_endpoint_def)
  show ?thesis using v valid_ema_resolves_or_dangles [OF v a, of "[]"] by (simp add: nonblank_def sample_trims)
qed

end
