(* ===== verification/Http_Calls.thy ===== *)
theory Http_Calls
  imports Building Stdio_Calls
begin

text \<open>
  The messages of a plain HTTP endpoint (\<^verbatim>\<open>src/adapter/http.rs\<close>): which headers a request carries, how a reply
  (one JSON body or an event stream) becomes the outcome of the request, how the errors are classified, and the
  line reader of the server-initiated stream. Sending over the network and parsing JSON (\<^verbatim>\<open>serde_json\<close>) are
  arguments.
\<close>

section \<open>Headers\<close>

text \<open>A header map keeps one value per name, names in lower case. \<open>valid\<close> says which pairs \<^verbatim>\<open>reqwest\<close> accepts.\<close>

type_synonym headers = "(string, string) hashmap"

definition reserved_header :: "string \<Rightarrow> bool" where
  "reserved_header key = (eq_ignore_ascii_case key ''content-type'' \<or> eq_ignore_ascii_case key ''accept'')"

definition insert_header :: "(string \<times> string \<Rightarrow> bool) \<Rightarrow> string \<times> string \<Rightarrow> headers \<Rightarrow> headers" where
  "insert_header valid p hs =
     (if reserved_header (fst p) then hs
      else if valid p then hm_insert (map ascii_lower (fst p)) (snd p) hs else hs)"

definition default_headers :: "(string \<times> string \<Rightarrow> bool) \<Rightarrow> remote_config \<Rightarrow> headers" where
  "default_headers valid c =
     fold (insert_header valid) (rm_headers c) (hm_insert ''accept'' ''application/json, text/event-stream'' [])"

definition MCP_SESSION_ID_HEADER :: string where "MCP_SESSION_ID_HEADER = ''mcp-session-id''"
definition MCP_PROTOCOL_VERSION_HEADER :: string where "MCP_PROTOCOL_VERSION_HEADER = ''mcp-protocol-version''"
definition MCP_METHOD_HEADER :: string where "MCP_METHOD_HEADER = ''mcp-method''"
definition MCP_NAME_HEADER :: string where "MCP_NAME_HEADER = ''mcp-name''"

definition apply_2026_headers :: "(string \<Rightarrow> bool) \<Rightarrow> string \<Rightarrow> json option \<Rightarrow> headers" where
  "apply_2026_headers valid_value method params =
     [(MCP_PROTOCOL_VERSION_HEADER, VERSION_2026_07_28)] @
     (if valid_value method then [(MCP_METHOD_HEADER, method)] else []) @
     (if method = ''tools/call''
      then (case Option.bind (opt_get params ''name'') json_str of
              Some nm \<Rightarrow> if valid_value nm then [(MCP_NAME_HEADER, nm)] else []
            | None \<Rightarrow> [])
      else [])"

text \<open>The headers a request adds to the defaults: the dialect's, then the just-in-time bearer if one is stored.\<close>

definition request_headers ::
  "(string \<Rightarrow> bool) \<Rightarrow> protocol_version \<Rightarrow> string option \<Rightarrow> string option \<Rightarrow> string \<Rightarrow> json option \<Rightarrow> headers" where
  "request_headers valid_value dialect session bearer method params =
     (if is_2026 dialect then apply_2026_headers valid_value method params
      else case session of
        Some sid \<Rightarrow> if valid_value sid then [(MCP_SESSION_ID_HEADER, sid)] else []
      | None \<Rightarrow> []) @
     (case bearer of
        Some token \<Rightarrow> if valid_value (''Bearer '' @ token) then [(''authorization'', ''Bearer '' @ token)] else []
      | None \<Rightarrow> [])"

definition listener_headers :: "(string \<times> string \<Rightarrow> bool) \<Rightarrow> (string \<Rightarrow> bool) \<Rightarrow> remote_config \<Rightarrow> string option \<Rightarrow> headers" where
  "listener_headers valid valid_value c session =
     (let hs = fold (insert_header valid) (rm_headers c) (hm_insert ''accept'' ''text/event-stream'' [])
      in case session of
           Some sid \<Rightarrow> if valid_value sid then hm_insert MCP_SESSION_ID_HEADER sid hs else hs
         | None \<Rightarrow> hs)"

section \<open>Event streams\<close>

fun split_all :: "nat \<Rightarrow> string \<Rightarrow> string \<Rightarrow> string list" where
  "split_all 0 pat s = [s]"
| "split_all (Suc n) pat s =
     (case split_at_first pat s of None \<Rightarrow> [s] | Some (before, rest) \<Rightarrow> before # split_all n pat rest)"

definition NL :: char where "NL = CHR 0x0A"
definition CR :: char where "CR = CHR 0x0D"

definition strip_cr :: "string \<Rightarrow> string" where
  "strip_cr s = unwrap_or s (strip_suffix [CR] s)"

text \<open>\<^verbatim>\<open>str::lines\<close>.\<close>

fun text_lines :: "string \<Rightarrow> string \<Rightarrow> string list" where
  "text_lines acc [] = (if acc = [] then [] else [rev acc])"
| "text_lines acc (c # cs) = (if c = NL then strip_cr (rev acc) # text_lines [] cs else text_lines (c # acc) cs)"

definition unspace :: "string \<Rightarrow> string" where
  "unspace d = unwrap_or d (strip_prefix '' '' d)"

definition data_part :: "string \<Rightarrow> string option" where
  "data_part line = map_option unspace (strip_prefix ''data:'' line)"

definition event_data :: "string \<Rightarrow> string option" where
  "event_data event =
     (let parts = filter (\<lambda>d. d \<noteq> []) (List.map_filter data_part (text_lines [] (trim event)))
      in if parts = [] then None else Some (join [NL] parts))"

definition body_events :: "string \<Rightarrow> string list" where
  "body_events body = List.map_filter event_data (split_all (length body) [NL, NL] body)"

definition is_tools_changed :: "(string \<Rightarrow> json option) \<Rightarrow> string \<Rightarrow> bool" where
  "is_tools_changed parse_value d =
     (case parse_value d of
        Some v \<Rightarrow> json_get v ''id'' = None \<and> Option.bind (json_get v ''method'') json_str = Some ''notifications/tools/list_changed''
      | None \<Rightarrow> False)"

text \<open>The number of ticks sent on the way, and the response.\<close>

definition parse_sse_response ::
  "(string \<Rightarrow> json option) \<Rightarrow> (string \<Rightarrow> jsonrpc_response option) \<Rightarrow> string \<Rightarrow> u64 \<Rightarrow> nat \<times> (adapter_error + jsonrpc_response)" where
  "parse_sse_response parse_value parse_response body i =
     (let events = body_events body
      in (length (filter (is_tools_changed parse_value) events),
          case find_map (\<lambda>d. case parse_response d of Some r \<Rightarrow> if rs_id r = Some i then Some r else None | None \<Rightarrow> None) events of
            Some r \<Rightarrow> Inr r
          | None \<Rightarrow> Inl (ProtocolError ''no matching JSON-RPC response found in SSE stream'')))"

section \<open>Replies\<close>

text \<open>A body read may fail: whether by timeout, and the text of the error.\<close>

record http_reply =
  hr_status :: u16
  hr_session_header :: "string option"
  hr_www_authenticate :: "string option"
  hr_content_type :: string
  hr_body :: "(bool \<times> string) + string"

record json_parsers =
  jp_value :: "string \<Rightarrow> json option"
  jp_event :: "string \<Rightarrow> jsonrpc_response option"
  jp_body :: "string \<Rightarrow> string + jsonrpc_response"

definition is_success :: "u16 \<Rightarrow> bool" where
  "is_success status = (200 \<le> status \<and> status < 300)"

definition is_sse :: "http_reply \<Rightarrow> bool" where
  "is_sse r = contains_str (hr_content_type r) ''text/event-stream''"

definition body_or_empty :: "http_reply \<Rightarrow> string" where
  "body_or_empty r = (case hr_body r of Inr b \<Rightarrow> b | Inl e \<Rightarrow> [])"

definition response_result :: "jsonrpc_response \<Rightarrow> adapter_error + json" where
  "response_result r =
     (case rs_error r of
        Some err \<Rightarrow> Inl (JsonRpcError (err_code err) (err_message err) (err_data err))
      | None \<Rightarrow> (case rs_result r of Some v \<Rightarrow> Inr v | None \<Rightarrow> Inl (ProtocolError ''response has no result'')))"

text \<open>\<^verbatim>\<open>send_request_inner\<close> from the reply on: the ticks and the result.\<close>

definition request_outcome :: "json_parsers \<Rightarrow> u64 \<Rightarrow> adapter_error + http_reply \<Rightarrow> nat \<times> (adapter_error + json)" where
  "request_outcome jp i sent =
     (case sent of
        Inl e \<Rightarrow> (0, Inl e)
      | Inr r \<Rightarrow>
         (if \<not> is_success (hr_status r) then (0, Inl (HttpError (hr_status r) (body_or_empty r)))
          else if is_sse r
          then (case hr_body r of
                  Inl e \<Rightarrow> (0, Inl (ProtocolError (''failed to read SSE body: '' @ snd e)))
                | Inr b \<Rightarrow> (let (ticks, res) = parse_sse_response (jp_value jp) (jp_event jp) b i
                            in (ticks, and_then res response_result)))
          else (case hr_body r of
                  Inl e \<Rightarrow> (0, Inl (ProtocolError (''invalid JSON-RPC response: '' @ snd e)))
                | Inr b \<Rightarrow> (0, case jp_body jp b of
                    Inl e \<Rightarrow> Inl (ProtocolError (''invalid JSON-RPC response: '' @ e))
                  | Inr resp \<Rightarrow> response_result resp))))"

definition challenge_after :: "adapter_error + http_reply \<Rightarrow> string option \<Rightarrow> string option" where
  "challenge_after sent before =
     (case sent of
        Inr r \<Rightarrow> if is_success (hr_status r) then before
                  else if hr_status r = 401 then hr_www_authenticate r else None
      | Inl e \<Rightarrow> before)"

definition is_transport_dead :: "adapter_error \<Rightarrow> bool" where
  "is_transport_dead err =
     (case err of ConnectionFailedErr m \<Rightarrow> True | Timeout n \<Rightarrow> True | HttpError status b \<Rightarrow> status = 0 | _ \<Rightarrow> False)"

definition body_read_error :: "u64 \<Rightarrow> bool \<times> string \<Rightarrow> adapter_error" where
  "body_read_error timeout_secs e =
     (if fst e then Timeout timeout_secs
      else HttpError 0 (''failed to read handshake response body: '' @ snd e))"

text \<open>The \<^verbatim>\<open>initialize\<close> exchange of the handshake, with the session id the reply announces.\<close>

definition initialize_outcome ::
  "json_parsers \<Rightarrow> u64 \<Rightarrow> u64 \<Rightarrow> adapter_error + http_reply \<Rightarrow> nat \<times> (adapter_error + (json \<times> string option))" where
  "initialize_outcome jp timeout_secs i sent =
     (case sent of
        Inl e \<Rightarrow> (0, Inl e)
      | Inr r \<Rightarrow>
         (if \<not> is_success (hr_status r) then (0, Inl (HttpError (hr_status r) (body_or_empty r)))
          else case hr_body r of
            Inl e \<Rightarrow> (0, Inl (body_read_error timeout_secs e))
          | Inr b \<Rightarrow>
             (let (ticks, res) =
                (if is_sse r then parse_sse_response (jp_value jp) (jp_event jp) b i
                 else (0, case jp_body jp b of
                            Inl e \<Rightarrow> Inl (ProtocolError (''invalid JSON-RPC response: '' @ e))
                          | Inr resp \<Rightarrow> Inr resp))
              in (ticks, and_then res (\<lambda>resp. map_sum id (\<lambda>v. (v, nonblank (hr_session_header r))) (response_result resp))))))"

text \<open>\<^verbatim>\<open>try_discover_probe\<close>: every failure, and a reply after the probe's timeout, counts as no answer.\<close>

definition http_discover_probe :: "json_parsers \<Rightarrow> u64 \<Rightarrow> bool \<Rightarrow> adapter_error + http_reply \<Rightarrow> json option" where
  "http_discover_probe jp i in_time sent = (if in_time then ok (snd (request_outcome jp i sent)) else None)"

definition array_field :: "string \<Rightarrow> adapter_error + json \<Rightarrow> adapter_error + json list" where
  "array_field key res =
     and_then res (\<lambda>v. case json_get v key of Some (JArr items) \<Rightarrow> Inr items | _ \<Rightarrow> Inr [])"

definition http_list_resources where
  "http_list_resources = array_field ''resources''"

definition http_list_resource_templates where
  "http_list_resource_templates = array_field ''resourceTemplates''"

definition http_list_prompts where
  "http_list_prompts = array_field ''prompts''"

section \<open>The server-initiated stream\<close>

text \<open>The reader keeps the text after the last line break and the data lines of the event being read.\<close>

record stream_reader =
  sr_buffer :: string
  sr_data :: "string list"
  sr_ticks :: nat

definition new_reader :: stream_reader where
  "new_reader = \<lparr>sr_buffer = [], sr_data = [], sr_ticks = 0\<rparr>"

definition trim_cr :: "string \<Rightarrow> string" where
  "trim_cr s = rev (dropWhile (\<lambda>c. c = CR) (rev s))"

definition on_stream_line :: "(string \<Rightarrow> json option) \<Rightarrow> string \<Rightarrow> stream_reader \<Rightarrow> stream_reader" where
  "on_stream_line parse_value raw s =
     (let line = trim_cr raw
      in if line = []
         then (if sr_data s = [] then s
               else s\<lparr>sr_data := [], sr_ticks := (if is_tools_changed parse_value (join [NL] (sr_data s)) then sr_ticks s + 1 else sr_ticks s)\<rparr>)
         else case data_part line of Some d \<Rightarrow> s\<lparr>sr_data := sr_data s @ [d]\<rparr> | None \<Rightarrow> s)"

function drain_lines :: "(string \<Rightarrow> json option) \<Rightarrow> string \<Rightarrow> stream_reader \<Rightarrow> stream_reader" where
  "drain_lines parse_value buffer s =
     (case split_at_first [NL] buffer of
        None \<Rightarrow> s\<lparr>sr_buffer := buffer\<rparr>
      | Some (line, rest) \<Rightarrow> drain_lines parse_value rest (on_stream_line parse_value line s))"
  by pat_completeness auto
termination
  by (relation "measure (\<lambda>(p, b, s). length b)") (auto dest!: split_at_first_Some)

definition on_stream_chunk :: "(string \<Rightarrow> json option) \<Rightarrow> string \<Rightarrow> stream_reader \<Rightarrow> stream_reader" where
  "on_stream_chunk parse_value chunk s = drain_lines parse_value (sr_buffer s @ chunk) s"

declare drain_lines.simps [simp del]

section \<open>How a stream is cut into chunks does not matter\<close>

lemma on_stream_line_buffer: "on_stream_line p l (s\<lparr>sr_buffer := b\<rparr>) = (on_stream_line p l s)\<lparr>sr_buffer := b\<rparr>"
  by (simp add: on_stream_line_def Let_def split: option.split)

lemma drain_buffer: "drain_lines p b (s\<lparr>sr_buffer := x\<rparr>) = drain_lines p b s"
proof (induction p b s arbitrary: x rule: drain_lines.induct)
  case (1 p b s)
  show ?case
  proof (cases "split_at_first [NL] b")
    case None
    then show ?thesis by (simp add: drain_lines.simps [of p b])
  next
    case (Some q)
    obtain line rest where q: "q = (line, rest)" by (cases q)
    show ?thesis
      using 1 [OF Some q [symmetric], of x] by (simp add: drain_lines.simps [of p b] Some q on_stream_line_buffer)
  qed
qed

lemma drain_append:
  "drain_lines p (b @ c) s = drain_lines p (sr_buffer (drain_lines p b s) @ c) (drain_lines p b s)"
proof (induction p b s rule: drain_lines.induct)
  case (1 p b s)
  show ?case
  proof (cases "split_at_first [NL] b")
    case None
    then show ?thesis by (simp add: drain_lines.simps [of p b] drain_buffer)
  next
    case (Some q)
    obtain line rest where q: "q = (line, rest)" by (cases q)
    have b: "b = line @ NL # rest" and l: "NL \<notin> set line"
      using split_at_first_Some [OF Some [unfolded q]] split_at_first_single_before [OF Some [unfolded q]] by simp_all
    have "split_at_first [NL] (b @ c) = Some (line, rest @ c)"
      unfolding b using split_at_first_single [OF l, of "rest @ c"] by simp
    then show ?thesis
      using 1 [OF Some q [symmetric]] by (simp add: drain_lines.simps [of p "b @ c"] drain_lines.simps [of p b] Some q)
  qed
qed

lemma chunk_append: "on_stream_chunk p (c @ d) s = on_stream_chunk p d (on_stream_chunk p c s)"
  using drain_append [of p "sr_buffer s @ c" d s] by (simp add: on_stream_chunk_def)

lemma chunks_concat: "cs \<noteq> [] \<Longrightarrow> fold (on_stream_chunk p) cs s = on_stream_chunk p (concat cs) s"
proof (induction cs arbitrary: s)
  case (Cons c cs)
  then show ?case by (cases "cs = []") (simp_all add: chunk_append)
qed simp

text \<open>An event of one data line, ended by a blank line.\<close>

definition render_event :: "string \<Rightarrow> string \<Rightarrow> string" where
  "render_event eol d = ''data: '' @ d @ eol @ eol"

definition one_line :: "string \<Rightarrow> bool" where
  "one_line d = (is_ascii d \<and> NL \<notin> set d \<and> CR \<notin> set d \<and> (\<exists>m. d = CHR ''{'' # m @ ''}''))"

lemma drain_line: "NL \<notin> set l \<Longrightarrow> drain_lines p (l @ NL # rest) s = drain_lines p rest (on_stream_line p l s)"
  by (simp add: drain_lines.simps [of p "l @ NL # rest"] split_at_first_single)

lemma trim_cr_plain: "CR \<notin> set l \<Longrightarrow> trim_cr l = l" "CR \<notin> set l \<Longrightarrow> trim_cr (l @ [CR]) = l"
proof -
  have drop: "CR \<notin> set l \<Longrightarrow> dropWhile (\<lambda>c. c = CR) l = l" for l by (cases l) auto
  show "CR \<notin> set l \<Longrightarrow> trim_cr l = l" "CR \<notin> set l \<Longrightarrow> trim_cr (l @ [CR]) = l"
    using drop [of "rev l"] by (simp_all add: trim_cr_def)
qed

lemma data_line: "data_part (''data: '' @ d) = Some d"
  by (simp add: data_part_def unspace_def)

lemma line_ends: "CR \<noteq> NL" "CR \<notin> set ''data: ''" "NL \<notin> set ''data: ''" "set ''data: '' \<inter> {NL, CR} = {}"
  by (simp_all add: CR_def NL_def)

lemma reader_event:
  assumes "NL \<notin> set d" "CR \<notin> set d" and eol: "eol = [NL] \<or> eol = [CR, NL]" and idle: "sr_data s = []"
  shows "drain_lines p (render_event eol d @ rest) s =
    drain_lines p rest (s\<lparr>sr_ticks := sr_ticks s + (if is_tools_changed p d then 1 else 0)\<rparr>)"
proof -
  have cr: "CR \<notin> set (''data: '' @ d)" and nl: "NL \<notin> set (''data: '' @ d)" using assms line_ends by auto
  have line: "on_stream_line p (''data: '' @ d) s = s\<lparr>sr_data := [d]\<rparr>"
    "on_stream_line p (''data: '' @ d @ [CR]) s = s\<lparr>sr_data := [d]\<rparr>"
    using trim_cr_plain [OF cr] idle by (simp_all add: on_stream_line_def Let_def data_line [simplified])
  have blank: "on_stream_line p [] (s\<lparr>sr_data := [d]\<rparr>) = s\<lparr>sr_ticks := sr_ticks s + (if is_tools_changed p d then 1 else 0)\<rparr>"
    "on_stream_line p [CR] (s\<lparr>sr_data := [d]\<rparr>) = s\<lparr>sr_ticks := sr_ticks s + (if is_tools_changed p d then 1 else 0)\<rparr>"
    using idle by (simp_all add: on_stream_line_def trim_cr_def)
  from eol show ?thesis
  proof
    assume e: "eol = [NL]"
    have "render_event eol d @ rest = (''data: '' @ d) @ NL # ([] @ NL # rest)" by (simp add: render_event_def e)
    then show ?thesis using drain_line [OF nl] drain_line [of "[]"] line(1) blank(1) by simp
  next
    assume e: "eol = [CR, NL]"
    have "render_event eol d @ rest = (''data: '' @ d @ [CR]) @ NL # ([CR] @ NL # rest)" by (simp add: render_event_def e)
    moreover have "NL \<notin> set (''data: '' @ d @ [CR])" "NL \<notin> set [CR]" using nl line_ends by auto
    ultimately show ?thesis using drain_line [of "''data: '' @ d @ [CR]"] drain_line [of "[CR]"] line(2) blank(2) by simp
  qed
qed

lemma reader_events:
  assumes "list_all one_line ds" "eol = [NL] \<or> eol = [CR, NL]" "sr_data s = []"
  shows "drain_lines p (concat (map (render_event eol) ds)) s =
    s\<lparr>sr_buffer := [], sr_ticks := sr_ticks s + length (filter (is_tools_changed p) ds)\<rparr>"
  using assms
proof (induction ds arbitrary: s)
  case Nil
  then show ?case by (simp add: drain_lines.simps)
next
  case (Cons d ds)
  then show ?case using reader_event [of d eol s p "concat (map (render_event eol) ds)"] by (simp add: one_line_def)
qed

text \<open>However the network cuts a server-initiated stream into chunks, and whether its lines end in LF or CRLF, the
  listener sends one tick for each tools-changed notification in it and none for anything else.\<close>

theorem listener_ticks:
  assumes "concat cs = concat (map (render_event eol) ds)" "list_all one_line ds" "eol = [NL] \<or> eol = [CR, NL]"
  shows "sr_ticks (fold (on_stream_chunk p) cs new_reader) = length (filter (is_tools_changed p) ds)"
proof (cases "cs = []")
  case True
  then have "ds = []" using assms(1) by (cases ds) (simp_all add: render_event_def)
  then show ?thesis using True by (simp add: new_reader_def)
next
  case False
  have "fold (on_stream_chunk p) cs new_reader = drain_lines p (concat (map (render_event eol) ds)) new_reader"
    using chunks_concat [OF False, of p new_reader] assms(1) by (simp add: on_stream_chunk_def new_reader_def)
  then show ?thesis using reader_events [OF assms(2,3), of new_reader p] by (simp add: new_reader_def)
qed

section \<open>Whole bodies\<close>

lemma utf8_map_byte: "is_ascii s \<Longrightarrow> utf8 (map byte s) = s"
  by (induction s) (simp_all add: utf8_def utf8_code_def is_ascii_def byte_def)

lemma trim_ascii: "is_ascii s \<Longrightarrow> trim s = utf8 (trim_by is_space (map byte s))"
  by (simp add: trim_def chars_ascii)

lemma trim_same:
  assumes "is_ascii s" "s \<noteq> []" "\<not> is_space (byte (hd s))" "\<not> is_space (byte (last s))"
  shows "trim s = s"
  using assms trim_by_id [of "map byte s" is_space] by (simp add: trim_ascii hd_map last_map utf8_map_byte)

lemma dropWhile_all_then: "list_all P xs \<Longrightarrow> dropWhile P (xs @ ys) = dropWhile P ys"
  by (induction xs) auto

lemma trim_tail:
  assumes "is_ascii s" "s \<noteq> []" "\<not> is_space (byte (hd s))" "\<not> is_space (byte (last s))"
    and "is_ascii w" "list_all (\<lambda>c. is_space (byte c)) w"
  shows "trim (s @ w) = s"
proof -
  have a: "is_ascii (s @ w)" using assms by (simp add: is_ascii_def)
  have "trim_by is_space (map byte (s @ w)) = trim_by is_space (map byte s)"
  proof -
    have 1: "dropWhile is_space (map byte (s @ w)) = map byte (s @ w)" "dropWhile is_space (map byte s) = map byte s"
      using assms(2,3) by (cases s; simp)+
    have "list_all is_space (rev (map byte w))" using assms(6) by (simp add: list_all_iff)
    then show ?thesis unfolding trim_by_def 1 by (simp add: dropWhile_all_then)
  qed
  then show ?thesis using trim_same [OF assms(1-4)] by (simp add: trim_ascii [OF a] trim_ascii [OF assms(1)])
qed

lemma text_lines_line: "NL \<notin> set l \<Longrightarrow> text_lines acc (l @ NL # rest) = strip_cr (rev acc @ l) # text_lines [] rest"
  by (induction l arbitrary: acc) auto

lemma text_lines_last: "NL \<notin> set l \<Longrightarrow> text_lines acc l = (if rev acc @ l = [] then [] else [rev acc @ l])"
  by (induction l arbitrary: acc) auto

lemma strip_cr_plain: "CR \<notin> set l \<Longrightarrow> strip_cr l = l" "strip_cr (l @ [CR]) = l"
proof -
  show "CR \<notin> set l \<Longrightarrow> strip_cr l = l"
    by (auto simp: strip_cr_def unwrap_or_def strip_suffix_Some split: option.split)
  have "strip_suffix [CR] (l @ [CR]) = Some l" by (simp add: strip_suffix_Some)
  then show "strip_cr (l @ [CR]) = l" by (simp add: strip_cr_def)
qed

lemma one_line_parts:
  assumes "one_line d"
  shows "d \<noteq> []" "is_ascii (''data: '' @ d)" "\<not> is_space (byte (last (''data: '' @ d)))" "NL \<notin> set (''data: '' @ d)" "CR \<notin> set (''data: '' @ d)"
  using assms line_ends by (auto simp: one_line_def is_ascii_def byte_def is_space_def)

lemma event_of_line: "one_line d \<Longrightarrow> event_data (''data: '' @ d) = Some d"
proof -
  assume d: "one_line d"
  note o' = one_line_parts [OF d]
  have "trim (''data: '' @ d) = ''data: '' @ d"
    using o' by (intro trim_same) (simp_all add: byte_def is_space_def)
  then have "text_lines [] (trim (''data: '' @ d)) = [''data: '' @ d]"
    using text_lines_last [OF o'(4), of "[]"] by simp
  then show ?thesis using o'(1) data_line [of d] by (simp add: event_data_def Let_def)
qed

lemma split_first_pair: "NL \<notin> set a \<Longrightarrow> split_at_first [NL, NL] (a @ NL # NL # b) = Some (a, b)"
  by (induction a) auto

lemma lf_split:
  assumes "list_all one_line ds" "length ds \<le> n"
  shows "split_all n [NL, NL] (concat (map (render_event [NL]) ds)) = map (\<lambda>d. ''data: '' @ d) ds @ [[]]"
  using assms
proof (induction ds arbitrary: n)
  case Nil
  then show ?case by (cases n) simp_all
next
  case (Cons d ds)
  then obtain m where n: "n = Suc m" by (cases n) auto
  have "NL \<notin> set (''data: '' @ d)" using Cons.prems one_line_parts(4) [of d] by simp
  from split_first_pair [OF this] show ?case
    using Cons by (simp add: n render_event_def)
qed

lemma lf_body_events: "list_all one_line ds \<Longrightarrow> body_events (concat (map (render_event [NL]) ds)) = ds"
proof -
  assume ds: "list_all one_line ds"
  have "length ds \<le> length (concat (map (render_event [NL]) ds))"
    by (induction ds) (simp_all add: render_event_def)
  then have "body_events (concat (map (render_event [NL]) ds)) = List.map_filter event_data (map (\<lambda>d. ''data: '' @ d) ds @ [[]])"
    using lf_split [OF ds] by (simp add: body_events_def)
  also have "\<dots> = List.map_filter (\<lambda>d. Some d) ds @ List.map_filter event_data [[]]"
  proof -
    have "List.map_filter event_data (map (\<lambda>d. ''data: '' @ d) xs @ ys) = xs @ List.map_filter event_data ys"
      if "list_all one_line xs" for xs ys
      using that
    proof (induction xs)
      case (Cons x xs)
      then show ?case using event_of_line [of x] by (simp add: List.map_filter_def)
    qed simp
    from this [OF ds] show ?thesis by (simp add: List.map_filter_def)
  qed
  also have "event_data [] = None" by (simp add: event_data_def trim_def chars_ascii is_ascii_def trim_by_def utf8_def List.map_filter_def)
  then have "List.map_filter (\<lambda>d. Some d) ds @ List.map_filter event_data [[]] = ds" by (simp add: List.map_filter_def)
  finally show ?thesis .
qed

text \<open>In text whose line breaks all follow a carriage return no two of them are adjacent.\<close>

fun breaks_after_cr :: "char \<Rightarrow> string \<Rightarrow> bool" where
  "breaks_after_cr prev [] = True"
| "breaks_after_cr prev (c # cs) = ((c = NL \<longrightarrow> prev = CR) \<and> breaks_after_cr c cs)"

lemma breaks_append: "breaks_after_cr prev (a @ b) \<longleftrightarrow> breaks_after_cr prev a \<and> breaks_after_cr (last (prev # a)) b"
  by (induction a arbitrary: prev) auto

lemma breaks_none: "NL \<notin> set a \<Longrightarrow> breaks_after_cr prev a"
  by (induction a arbitrary: prev) auto

lemma breaks_no_pair: "breaks_after_cr prev s \<Longrightarrow> split_at_first [NL, NL] s = None"
proof (induction s arbitrary: prev)
  case (Cons c cs)
  then show ?case using line_ends by (cases cs) auto
qed simp

lemma crlf_breaks: "list_all one_line ds \<Longrightarrow> breaks_after_cr prev (concat (map (render_event [CR, NL]) ds))"
proof (induction ds arbitrary: prev)
  case (Cons d ds)
  have nl: "NL \<notin> set (''data: '' @ d)" using Cons.prems one_line_parts(4) [of d] by simp
  have "render_event [CR, NL] d = (''data: '' @ d) @ [CR, NL, CR, NL]" by (simp add: render_event_def)
  then show ?case using Cons line_ends(1) breaks_none [OF nl]
    by (simp only: list.map concat.simps breaks_append) (simp del: append_Cons)
qed simp

lemma crlf_lines:
  assumes "list_all one_line xs" "one_line d"
  shows "text_lines [] (concat (map (render_event [CR, NL]) xs) @ ''data: '' @ d) =
    concat (map (\<lambda>x. [''data: '' @ x, []]) xs) @ [''data: '' @ d]"
  using assms
proof (induction xs)
  case Nil
  then show ?case using text_lines_last [of "''data: '' @ d" "[]"] one_line_parts(4) by simp
next
  case (Cons x xs)
  let ?rest = "concat (map (render_event [CR, NL]) xs) @ ''data: '' @ d"
  have "NL \<notin> set (''data: '' @ x @ [CR])" using Cons.prems one_line_parts(4) line_ends by auto
  from text_lines_line [OF this, of "[]" "[CR] @ NL # ?rest"]
  have "text_lines [] (render_event [CR, NL] x @ ?rest) = strip_cr (''data: '' @ x @ [CR]) # text_lines [] ([CR] @ NL # ?rest)"
    by (simp add: render_event_def)
  also have "text_lines [] ([CR] @ NL # ?rest) = strip_cr [CR] # text_lines [] ?rest"
    using text_lines_line [of "[CR]" "[]" ?rest] line_ends by simp
  finally show ?case using Cons strip_cr_plain(2) [of "''data: '' @ x"] strip_cr_plain(2) [of "[]"] by simp
qed

lemma data_parts: "List.map_filter data_part (concat (map (\<lambda>x. [''data: '' @ x, []]) xs) @ [''data: '' @ d]) = xs @ [d]"
  by (induction xs) (simp_all add: List.map_filter_def data_line [simplified], simp_all add: data_part_def)

lemma crlf_body_events:
  assumes "list_all one_line xs" "one_line d"
  shows "body_events (concat (map (render_event [CR, NL]) (xs @ [d]))) = [join [NL] (xs @ [d])]"
proof -
  let ?s = "concat (map (render_event [CR, NL]) xs) @ ''data: '' @ d"
  let ?body = "concat (map (render_event [CR, NL]) (xs @ [d]))"
  have body: "?body = ?s @ [CR, NL, CR, NL]" by (simp add: render_event_def)
  have "split_at_first [NL, NL] ?body = None"
    using assms by (intro breaks_no_pair [OF crlf_breaks]) simp
  moreover have "split_at_first pat b = None \<Longrightarrow> split_all n pat b = [b]" for n pat and b :: string by (cases n) simp_all
  ultimately have split: "split_all (length ?body) [NL, NL] ?body = [?body]" by blast
  have ascii: "is_ascii ?s"
    using assms by (induction xs) (auto simp: render_event_def one_line_def is_ascii_def byte_def NL_def CR_def)
  have "hd ?s = CHR ''d''" by (cases xs) (simp_all add: render_event_def)
  then have "trim ?body = ?s"
    unfolding body using ascii one_line_parts(1,3) [OF assms(2)]
    by (intro trim_tail) (simp_all add: byte_def is_space_def is_ascii_def NL_def CR_def)
  then have lines: "text_lines [] (trim ?body) = concat (map (\<lambda>x. [''data: '' @ x, []]) xs) @ [''data: '' @ d]"
    using crlf_lines [OF assms] by simp
  have "filter (\<lambda>d. d \<noteq> []) (xs @ [d]) = xs @ [d]"
    using assms one_line_parts(1) by (auto simp: list_all_iff filter_id_conv)
  then have "event_data ?body = Some (join [NL] (xs @ [d]))"
    unfolding event_data_def lines data_parts by (simp add: Let_def)
  then show ?thesis unfolding body_events_def split by (simp only: List.map_filter_def) simp
qed

definition answers :: "json_parsers \<Rightarrow> u64 \<Rightarrow> string \<Rightarrow> jsonrpc_response option" where
  "answers jp i d = (case jp_event jp d of Some r \<Rightarrow> if rs_id r = Some i then Some r else None | None \<Rightarrow> None)"

lemma parse_by_events:
  "parse_sse_response (jp_value jp) (jp_event jp) body i =
     (length (filter (is_tools_changed (jp_value jp)) (body_events body)),
      case find_map (answers jp i) (body_events body) of
        Some r \<Rightarrow> Inr r | None \<Rightarrow> Inl (ProtocolError ''no matching JSON-RPC response found in SSE stream''))"
proof -
  have "(\<lambda>d. case jp_event jp d of Some r \<Rightarrow> if rs_id r = Some i then Some r else None | None \<Rightarrow> None) = answers jp i"
    by (simp add: answers_def fun_eq_iff)
  then show ?thesis by (simp add: parse_sse_response_def Let_def)
qed

text \<open>A reply that is a stream of events yields the first response with the request's id, and one tick for each
  tools-changed notification on the way, when its lines end in LF.\<close>

theorem sse_reply_answered:
  assumes "list_all one_line ds" "hr_body r = Inr (concat (map (render_event [NL]) ds))" "is_sse r" "is_success (hr_status r)"
    and "find_map (answers jp i) ds = Some resp"
  shows "request_outcome jp i (Inr r) = (length (filter (is_tools_changed (jp_value jp)) ds), response_result resp)"
  using assms by (simp add: request_outcome_def parse_by_events lf_body_events)

text \<open>When the lines end in CRLF, as event streams may, a reply of several events is read as one event: the text of
  all of them joined. As that is no JSON document, the answer it carries is lost and the request fails with a protocol
  error, although the same reply with LF line ends is answered.\<close>

theorem crlf_reply_lost:
  assumes ds: "list_all one_line ds" "length ds > 1" and r: "is_sse r" "is_success (hr_status r)"
    and found: "find_map (answers jp i) ds = Some resp"
    and no_json: "jp_event jp (join [NL] ds) = None" "jp_value jp (join [NL] ds) = None"
  shows "request_outcome jp i (Inr (r\<lparr>hr_body := Inr (concat (map (render_event [CR, NL]) ds))\<rparr>)) =
      (0, Inl (ProtocolError ''no matching JSON-RPC response found in SSE stream'')) \<and>
    snd (request_outcome jp i (Inr (r\<lparr>hr_body := Inr (concat (map (render_event [NL]) ds))\<rparr>))) = response_result resp"
proof
  obtain xs d where x: "ds = xs @ [d]" using ds(2) by (cases ds rule: rev_cases) auto
  have "body_events (concat (map (render_event [CR, NL]) ds)) = [join [NL] ds]"
    unfolding x using crlf_body_events [of xs d] ds(1) by (simp add: x)
  then show "request_outcome jp i (Inr (r\<lparr>hr_body := Inr (concat (map (render_event [CR, NL]) ds))\<rparr>)) =
      (0, Inl (ProtocolError ''no matching JSON-RPC response found in SSE stream''))"
    using r no_json by (simp add: request_outcome_def parse_by_events is_sse_def answers_def is_tools_changed_def and_then_def)
  show "snd (request_outcome jp i (Inr (r\<lparr>hr_body := Inr (concat (map (render_event [NL]) ds))\<rparr>))) = response_result resp"
    using r found ds(1) by (simp add: request_outcome_def parse_by_events lf_body_events is_sse_def)
qed

lemma response_result_error:
  "response_result r = Inl e \<Longrightarrow> (\<exists>m. e = ProtocolError m) \<or> (\<exists>c m d. e = JsonRpcError c m d)"
  by (auto simp: response_result_def split: option.splits)

lemma answer_error:
  assumes "is_success (hr_status r)" "hr_body r = Inr b" "snd (initialize_outcome jp timeout i (Inr r)) = Inl e"
  shows "(\<exists>m. e = ProtocolError m) \<or> (\<exists>c m d. e = JsonRpcError c m d)"
proof -
  have step: "and_then res (\<lambda>resp. map_sum id (\<lambda>v. (v, x)) (response_result resp)) = Inl e \<Longrightarrow>
      (\<And>e'. res = Inl e' \<Longrightarrow> \<exists>m. e' = ProtocolError m) \<Longrightarrow> ?thesis" for res x
    using response_result_error by (cases res; cases "response_result (projr res)") (auto simp: and_then_def)
  show ?thesis
  proof (cases "is_sse r")
    case True
    then show ?thesis using assms
      by (intro step) (auto simp: initialize_outcome_def parse_by_events split: option.splits)
  next
    case False
    then show ?thesis using assms
      by (intro step) (auto simp: initialize_outcome_def split: sum.splits)
  qed
qed

text \<open>Which failures of the \<^verbatim>\<open>initialize\<close> exchange end the background retries. A reply with status 401, 403 or 404
  does, and so does a body that was read in full and is no valid answer; a failed send, any other status, a body that
  could not be read and a JSON-RPC error do not.\<close>

theorem permanent_failures_exact:
  assumes send: "case sent of Inl e \<Rightarrow> is_transport_dead e | Inr r \<Rightarrow> True"
    and failed: "snd (initialize_outcome jp timeout i sent) = Inl e"
  shows "is_permanent_init_failure e \<longleftrightarrow>
    (\<exists>r. sent = Inr r \<and>
       (hr_status r \<in> {401, 403, 404} \<or> is_success (hr_status r) \<and> (\<exists>b. hr_body r = Inr b) \<and> \<not> (\<exists>c m d. e = JsonRpcError c m d)))"
proof (cases sent)
  case (Inl e')
  then show ?thesis using send failed
    by (auto simp: initialize_outcome_def is_transport_dead_def is_permanent_init_failure_def split: adapter_error.splits)
next
  case (Inr r)
  have range: "\<not> is_success 401" "\<not> is_success 403" "\<not> is_success 404" by (simp_all add: is_success_def)
  show ?thesis
  proof (cases "is_success (hr_status r)")
    case False
    then have "e = HttpError (hr_status r) (body_or_empty r)" using failed by (simp add: Inr initialize_outcome_def)
    then show ?thesis using False by (auto simp: Inr is_permanent_init_failure_def)
  next
    case True
    then have status: "hr_status r \<notin> {401, 403, 404}" using range by auto
    show ?thesis
    proof (cases "hr_body r")
      case (Inl be)
      then have "e = body_read_error timeout be" using failed True by (simp add: Inr initialize_outcome_def)
      then show ?thesis using Inl status by (auto simp: \<open>sent = Inr r\<close> is_permanent_init_failure_def body_read_error_def)
    next
      case (Inr b)
      then show ?thesis
        using answer_error [OF True Inr, of jp timeout i e] failed True status
        by (auto simp: \<open>sent = Inr r\<close> is_permanent_init_failure_def)
    qed
  qed
qed

section \<open>Samples\<close>

definition sample_jp :: json_parsers where
  "sample_jp = \<lparr>jp_value = (\<lambda>d. if d = ''{t}'' then Some (JObj [(''method'', JStr ''notifications/tools/list_changed'')]) else None),
     jp_event = (\<lambda>d. if d = ''{r}'' then Some \<lparr>rs_jsonrpc = ''2.0'', rs_result = Some JNull, rs_error = None, rs_id = Some 1\<rparr> else None),
     jp_body = (\<lambda>b. Inl ''no'')\<rparr>"

definition sample_reply :: "string \<Rightarrow> http_reply" where
  "sample_reply body = \<lparr>hr_status = 200, hr_session_header = None, hr_www_authenticate = None,
     hr_content_type = ''text/event-stream'', hr_body = Inr body\<rparr>"

lemma sample_events: "list_all one_line [''{t}'', ''{r}'']"
  by (simp add: one_line_def is_ascii_def byte_def NL_def CR_def)

lemma sample_found: "find_map (answers sample_jp 1) [''{t}'', ''{r}''] =
    Some \<lparr>rs_jsonrpc = ''2.0'', rs_result = Some JNull, rs_error = None, rs_id = Some 1\<rparr>"
  by (simp add: answers_def sample_jp_def)

lemma sample_reply_ok: "is_sse (sample_reply b)" "is_success (hr_status (sample_reply b))" "hr_body (sample_reply b) = Inr b"
  by (simp_all add: is_sse_def sample_reply_def contains_str_def is_success_def)

theorem listener_ticks_witness:
  "sr_ticks (fold (on_stream_chunk (jp_value sample_jp)) [''data: {'', ''t}'' @ [CR], [NL, CR, NL]] new_reader) = 1"
proof -
  have c: "concat [''data: {'', ''t}'' @ [CR], [NL, CR, NL]] = concat (map (render_event [CR, NL]) [''{t}''])"
    by (simp add: render_event_def)
  have o': "list_all one_line [''{t}'']" using sample_events by simp
  have "length (filter (is_tools_changed (jp_value sample_jp)) [''{t}'']) = 1"
    by (simp add: is_tools_changed_def sample_jp_def hm_get_Cons)
  then show ?thesis using listener_ticks [OF c o', of "jp_value sample_jp"] by simp
qed

theorem sse_reply_answered_witness:
  "request_outcome sample_jp 1 (Inr (sample_reply (concat (map (render_event [NL]) [''{t}'', ''{r}''])))) = (1, Inr JNull)"
  using sse_reply_answered [OF sample_events sample_reply_ok(3,1,2) sample_found]
  by (simp add: is_tools_changed_def sample_jp_def response_result_def hm_get_Cons)

theorem crlf_reply_lost_witness:
  "request_outcome sample_jp 1 (Inr ((sample_reply [])\<lparr>hr_body := Inr (concat (map (render_event [CR, NL]) [''{t}'', ''{r}'']))\<rparr>)) =
     (0, Inl (ProtocolError ''no matching JSON-RPC response found in SSE stream''))"
proof -
  have two: "1 < length [''{t}'', ''{r}'']" by simp
  have no: "jp_event sample_jp (join [NL] [''{t}'', ''{r}'']) = None" "jp_value sample_jp (join [NL] [''{t}'', ''{r}'']) = None"
    by (simp_all add: sample_jp_def)
  show ?thesis using crlf_reply_lost [OF sample_events two sample_reply_ok(1,2) sample_found no, of "[]"] by blast
qed

theorem permanent_failures_exact_witness:
  "is_permanent_init_failure (HttpError 404 ''gone'')"
proof -
  let ?r = "(sample_reply ''gone'')\<lparr>hr_status := 404\<rparr>"
  have failed: "snd (initialize_outcome sample_jp 30 1 (Inr ?r)) = Inl (HttpError 404 ''gone'')"
    by (simp add: initialize_outcome_def sample_reply_def is_success_def body_or_empty_def)
  have "case Inr ?r of Inl e \<Rightarrow> is_transport_dead e | Inr r \<Rightarrow> True" by simp
  from permanent_failures_exact [OF this failed] show ?thesis by simp
qed

end
