(* ===== verification/Http_Adapter.thy ===== *)
theory Http_Adapter
  imports Http_Calls
begin

text \<open>
  The life of a plain HTTP endpoint (\<^verbatim>\<open>src/adapter/http.rs\<close>): requests that demote and recover it, the handshake,
  the supervisor that reconnects in the background, and \<^verbatim>\<open>initialize\<close> and \<^verbatim>\<open>shutdown\<close> of its owner. A section
  under one lock, or between two awaits, is one step; the steps of the owner, of the supervisor and of the requests
  interleave. What the upstream answers and how long the supervisor sleeps are inputs of the steps.
\<close>

section \<open>State\<close>

record get_listener =
  gl_session :: "string option"
  gl_finished :: bool

record http =
  h_health :: health_status
  h_failures :: u64
  h_server_type :: "string option"
  h_upstream_name :: "string option"
  h_session :: "string option"
  h_dialect :: protocol_version
  h_completed :: bool
  h_deferred :: bool
  h_capable :: bool
  h_listener :: "get_listener option"
  h_backoff :: failure_tracker
  h_generation :: u64
  h_from_unhealthy :: bool
  h_permanent :: bool
  h_shutting_down :: bool
  h_permit :: bool
  h_ticks :: nat

definition new_http :: http where
  "new_http = \<lparr>h_health = Stopped, h_failures = 0, h_server_type = None, h_upstream_name = None, h_session = None,
     h_dialect = V2025_03_26, h_completed = False, h_deferred = False, h_capable = False, h_listener = None,
     h_backoff = failure_new, h_generation = 0, h_from_unhealthy = False, h_permanent = False, h_shutting_down = False,
     h_permit = False, h_ticks = 0\<rparr>"

definition unhealthy :: "http \<Rightarrow> bool" where
  "unhealthy h = (case h_health h of Unhealthy r \<Rightarrow> True | _ \<Rightarrow> False)"

definition TRANSPORT_FAILURE_THRESHOLD :: u64 where
  "TRANSPORT_FAILURE_THRESHOLD = 3"

definition reset_backoff :: "http \<Rightarrow> http" where
  "reset_backoff h = h\<lparr>h_backoff := failure_reset (h_backoff h)\<rparr>"

section \<open>Requests\<close>

text \<open>What a request still has to do after the locked part of its accounting.\<close>

datatype post = PostArm | PostFlip | PostTick | PostRepair

definition note_request_success :: "http \<Rightarrow> http \<times> post list" where
  "note_request_success h =
     (let h1 = h\<lparr>h_failures := 0\<rparr>
      in if h_completed h \<and> unhealthy h
         then (h1\<lparr>h_health := Healthy, h_generation := h_generation h + 1\<rparr>, [PostFlip])
         else (h1, if h_completed h \<and> h_health h = Healthy then [PostRepair] else []))"

definition note_transport_failure :: "http \<Rightarrow> http \<times> post list" where
  "note_transport_failure h =
     (let count = h_failures h + 1; h1 = h\<lparr>h_failures := count\<rparr>
      in if TRANSPORT_FAILURE_THRESHOLD \<le> count \<and> h_health h \<noteq> Stopped
         then (h1\<lparr>h_permanent := (if unhealthy h then h_permanent h else False),
                 h_health := Unhealthy ''upstream unreachable''\<rparr>,
               if unhealthy h then [] else [PostArm])
         else (h1, []))"

section \<open>The listener\<close>

definition spawn_get_listener :: "http \<Rightarrow> http" where
  "spawn_get_listener h =
     (if h_shutting_down h then h
      else h\<lparr>h_deferred := False, h_listener := Some \<lparr>gl_session = h_session h, gl_finished = False\<rparr>\<rparr>)"

definition listener_ended_after_streaming :: "http \<Rightarrow> bool" where
  "listener_ended_after_streaming h = (h_capable h \<and> (case h_listener h of Some l \<Rightarrow> gl_finished l | None \<Rightarrow> False))"

text \<open>\<open>locked\<close>: someone holds the handshake lock, so \<^verbatim>\<open>try_lock\<close> fails.\<close>

definition replace_get_listener_after_recovery :: "bool \<Rightarrow> http \<Rightarrow> http" where
  "replace_get_listener_after_recovery locked h = (if locked then h\<lparr>h_deferred := True\<rparr> else spawn_get_listener h)"

definition repair_get_listener_if_ended :: "bool \<Rightarrow> http \<Rightarrow> http" where
  "repair_get_listener_if_ended locked h =
     (if listener_ended_after_streaming h then replace_get_listener_after_recovery locked h else h)"

section \<open>The handshake\<close>

record handshake_config =
  hc_override :: "string option"
  hc_message :: "server_name_error \<Rightarrow> string"

record server_identity =
  si_effective :: "string option"
  si_stripped :: string

definition validate_server_identity :: "handshake_config \<Rightarrow> json \<Rightarrow> adapter_error + server_identity" where
  "validate_server_identity cfg result =
     (case server_info_name result of
        None \<Rightarrow> Inl (ProtocolError (hc_message cfg NameMissing))
      | Some raw \<Rightarrow>
         (case sanitize_server_name raw of
            Inl e \<Rightarrow> Inl (ProtocolError (hc_message cfg e))
          | Inr sanitized \<Rightarrow> Inr \<lparr>si_effective = effective_server_type (hc_override cfg) (Some sanitized),
              si_stripped = strip_mcp_server_suffix sanitized\<rparr>))"

definition commit_server_identity :: "server_identity \<Rightarrow> http \<Rightarrow> http" where
  "commit_server_identity idn h = h\<lparr>h_server_type := si_effective idn, h_upstream_name := Some (si_stripped idn)\<rparr>"

definition set_handshake_unhealthy :: "string \<Rightarrow> bool \<Rightarrow> bool \<Rightarrow> http \<Rightarrow> http" where
  "set_handshake_unhealthy reason permanent supervisor_attempt h =
     (if supervisor_attempt \<and> \<not> unhealthy h then h
      else h\<lparr>h_permanent := permanent, h_health := Unhealthy reason\<rparr>)"

definition fail_handshake :: "adapter_error \<Rightarrow> bool \<Rightarrow> http \<Rightarrow> http" where
  "fail_handshake e supervisor_attempt h =
     set_handshake_unhealthy (display_error e) (is_permanent_init_failure e) supervisor_attempt h"

text \<open>An invalid identity is reported by its message alone.\<close>

definition fail_identity :: "adapter_error \<Rightarrow> bool \<Rightarrow> http \<Rightarrow> http" where
  "fail_identity e supervisor_attempt h =
     set_handshake_unhealthy (case e of ProtocolError msg \<Rightarrow> msg | _ \<Rightarrow> display_error e) (is_permanent_init_failure e)
       supervisor_attempt h"

definition mark_healthy_locked :: "http \<Rightarrow> http \<times> bool" where
  "mark_healthy_locked h =
     (let was_unhealthy = unhealthy h \<or> h_from_unhealthy h
      in (h\<lparr>h_failures := 0, h_completed := True, h_permanent := False, h_from_unhealthy := False, h_health := Healthy,
            h_generation := (if was_unhealthy then h_generation h + 1 else h_generation h)\<rparr>, was_unhealthy))"

definition finish_handshake_healthy :: "bool \<Rightarrow> http \<Rightarrow> http" where
  "finish_handshake_healthy flipped h =
     (let h1 = reset_backoff h in if flipped then h1\<lparr>h_ticks := h_ticks h1 + 1\<rparr> else h1)"

definition commit_2026_handshake :: "server_identity \<Rightarrow> bool \<Rightarrow> http \<Rightarrow> (http \<times> bool) option" where
  "commit_2026_handshake idn supervisor_attempt h =
     (if supervisor_attempt \<and> \<not> unhealthy h then None
      else Some (mark_healthy_locked (spawn_get_listener
        ((commit_server_identity idn h)\<lparr>h_dialect := V2026_07_28, h_session := None\<rparr>))))"

datatype handshake_outcome = Completed | Obsolete | Failed adapter_error

text \<open>Where a handshake stands; its owner holds the handshake lock throughout.\<close>

datatype handshake =
    HsProbe
  | HsProbed "json option"
  | HsCommit2026 server_identity
  | HsSend "json option"
  | HsSent "json option"
  | HsAnswered "json option" json "string option"
  | HsIdentified "json option" json "string option"
  | HsSession "json option" json
  | HsNotify
  | HsNotified
  | HsListening
  | HsFinish bool
  | HsDone handshake_outcome

text \<open>Inputs: carry on (a timer or a lock came through), a hint of a recovery, the result of the dialect probe, the
  outcome of the \<^verbatim>\<open>initialize\<close> exchange.\<close>

datatype input = Go | Hint | ProbeReply "json option" | InitReply "adapter_error + (json \<times> string option)"

fun handshake_step :: "handshake_config \<Rightarrow> bool \<Rightarrow> input \<Rightarrow> handshake \<Rightarrow> http \<Rightarrow> http \<times> handshake" where
  "handshake_step cfg spv inp HsProbe h = (case inp of ProbeReply d \<Rightarrow> (h, HsProbed d) | _ \<Rightarrow> (h, HsProbe))"
| "handshake_step cfg spv inp (HsProbed d) h =
     (if spv \<and> \<not> unhealthy h then (h, HsDone Obsolete)
      else if is_2026 (detect_upstream_dialect d None)
      then (case validate_server_identity cfg (the d) of
              Inl e \<Rightarrow> (fail_identity e spv h, HsDone (Failed e))
            | Inr idn \<Rightarrow> (h, HsCommit2026 idn))
      else (h, HsSend d))"
| "handshake_step cfg spv inp (HsCommit2026 idn) h =
     (case commit_2026_handshake idn spv h of None \<Rightarrow> (h, HsDone Obsolete) | Some (h', flipped) \<Rightarrow> (h', HsFinish flipped))"
| "handshake_step cfg spv inp (HsSend d) h = (if spv \<and> \<not> unhealthy h then (h, HsDone Obsolete) else (h, HsSent d))"
| "handshake_step cfg spv inp (HsSent d) h =
     (case inp of
        InitReply (Inl e) \<Rightarrow> (fail_handshake e spv h, HsDone (Failed e))
      | InitReply (Inr (result, sid)) \<Rightarrow> (h, HsAnswered d result sid)
      | _ \<Rightarrow> (h, HsSent d))"
| "handshake_step cfg spv inp (HsAnswered d result sid) h =
     (case validate_server_identity cfg result of
        Inl e \<Rightarrow> (fail_identity e spv h, HsDone (Failed e))
      | Inr idn \<Rightarrow> (commit_server_identity idn h, HsIdentified d result sid))"
| "handshake_step cfg spv inp (HsIdentified d result sid) h = (h\<lparr>h_session := sid\<rparr>, HsSession d result)"
| "handshake_step cfg spv inp (HsSession d result) h =
     (h\<lparr>h_dialect := detect_upstream_dialect d (Some result)\<rparr>, HsNotify)"
| "handshake_step cfg spv inp HsNotify h = (h, HsNotified)"
| "handshake_step cfg spv inp HsNotified h = (spawn_get_listener h, HsListening)"
| "handshake_step cfg spv inp HsListening h = (case mark_healthy_locked h of (h', flipped) \<Rightarrow> (h', HsFinish flipped))"
| "handshake_step cfg spv inp (HsFinish flipped) h = (finish_handshake_healthy flipped h, HsDone Completed)"
| "handshake_step cfg spv inp (HsDone out) h = (h, HsDone out)"

section \<open>The supervisor\<close>

datatype supervisor =
    SupParked
  | SupCheck
  | SupCheckPermanent
  | SupBackoff
  | SupRecheck
  | SupLockWait
  | SupLockCheck
  | SupLockPermanent
  | SupHandshake handshake
  | SupPayOff

definition supervisor_holds_lock :: "supervisor option \<Rightarrow> bool" where
  "supervisor_holds_lock s =
     (case s of Some SupLockCheck \<Rightarrow> True | Some SupLockPermanent \<Rightarrow> True | Some (SupHandshake hs) \<Rightarrow> True | _ \<Rightarrow> False)"

text \<open>Standing down: the adapter is not unhealthy any more, or the last handshake failed for good.\<close>

definition stand_down_unless_unhealthy :: "supervisor \<Rightarrow> http \<Rightarrow> http \<times> supervisor" where
  "stand_down_unless_unhealthy next_pc h = (if unhealthy h then (h, next_pc) else (reset_backoff h, SupPayOff))"

definition stood_down_on_permanent_failure :: "supervisor \<Rightarrow> http \<Rightarrow> http \<times> supervisor" where
  "stood_down_on_permanent_failure next_pc h = (if h_permanent h then (reset_backoff h, SupPayOff) else (h, next_pc))"

definition record_attempt :: "nanos \<Rightarrow> http \<Rightarrow> http" where
  "record_attempt now h = h\<lparr>h_backoff := fst (record_failure now (h_backoff h))\<rparr>"

text \<open>\<open>locked\<close>: the owner holds the handshake lock.\<close>

fun supervisor_step :: "handshake_config \<Rightarrow> bool \<Rightarrow> nanos \<Rightarrow> input \<Rightarrow> supervisor \<Rightarrow> http \<Rightarrow> http \<times> supervisor" where
  "supervisor_step cfg locked now inp SupParked h =
     (if h_permit h then (h\<lparr>h_permit := False\<rparr>, SupCheck) else (h, SupParked))"
| "supervisor_step cfg locked now inp SupCheck h = stand_down_unless_unhealthy SupCheckPermanent h"
| "supervisor_step cfg locked now inp SupCheckPermanent h =
     (if h_permanent h then (reset_backoff h, SupPayOff) else (record_attempt now h, SupBackoff))"
| "supervisor_step cfg locked now inp SupBackoff h =
     (case inp of Hint \<Rightarrow> stand_down_unless_unhealthy SupBackoff h | _ \<Rightarrow> (h, SupRecheck))"
| "supervisor_step cfg locked now inp SupRecheck h = stand_down_unless_unhealthy SupLockWait h"
| "supervisor_step cfg locked now inp SupLockWait h = (h, if locked then SupLockWait else SupLockCheck)"
| "supervisor_step cfg locked now inp SupLockCheck h = stand_down_unless_unhealthy SupLockPermanent h"
| "supervisor_step cfg locked now inp SupLockPermanent h = stood_down_on_permanent_failure (SupHandshake HsProbe) h"
| "supervisor_step cfg locked now inp (SupHandshake hs) h =
     (case hs of
        HsDone Completed \<Rightarrow> (h, SupParked)
      | HsDone Obsolete \<Rightarrow> (reset_backoff h, SupPayOff)
      | HsDone (Failed e) \<Rightarrow> if is_permanent_init_failure e then (reset_backoff h, SupPayOff) else (h, SupCheck)
      | _ \<Rightarrow>
         (if hs = HsProbe \<and> inp = Hint then stand_down_unless_unhealthy (SupHandshake HsProbe) h
          else case handshake_step cfg True inp hs h of (h', hs') \<Rightarrow> (h', SupHandshake hs')))"
| "supervisor_step cfg locked now inp SupPayOff h =
     (if h_deferred h then (replace_get_listener_after_recovery locked (h\<lparr>h_deferred := False\<rparr>), SupParked) else (h, SupParked))"

definition ensure_supervisor_running :: "http \<Rightarrow> supervisor option \<Rightarrow> supervisor option" where
  "ensure_supervisor_running h s = (if h_shutting_down h then s else case s of Some pc \<Rightarrow> Some pc | None \<Rightarrow> Some SupParked)"

section \<open>The owner\<close>

datatype owner =
    OwnerIdle
  | OwnerLockWait
  | OwnerLocked
  | OwnerHandshake handshake
  | OwnerFailed adapter_error
  | OwnerRetry
  | OwnerArm
  | OwnerEnsure
  | OwnerAbort
  | OwnerDrain
  | OwnerReset
  | OwnerStop

definition owner_holds_lock :: "owner \<Rightarrow> bool" where
  "owner_holds_lock w = (case w of OwnerLocked \<Rightarrow> True | OwnerHandshake hs \<Rightarrow> True | _ \<Rightarrow> False)"

section \<open>The system\<close>

record endpoint =
  ep_http :: http
  ep_supervisor :: "supervisor option"
  ep_owner :: owner
  ep_posts :: "post list"

definition new_endpoint :: endpoint where
  "new_endpoint = \<lparr>ep_http = new_http, ep_supervisor = None, ep_owner = OwnerIdle, ep_posts = []\<rparr>"

definition lock_held :: "endpoint \<Rightarrow> bool" where
  "lock_held s = (supervisor_holds_lock (ep_supervisor s) \<or> owner_holds_lock (ep_owner s))"

definition arm_supervisor :: "endpoint \<Rightarrow> endpoint" where
  "arm_supervisor s =
     s\<lparr>ep_supervisor := ensure_supervisor_running (ep_http s) (ep_supervisor s), ep_http := (ep_http s)\<lparr>h_permit := True\<rparr>\<rparr>"

fun post_step :: "post \<Rightarrow> endpoint \<Rightarrow> endpoint" where
  "post_step PostArm s = arm_supervisor s"
| "post_step PostFlip s =
     s\<lparr>ep_http := replace_get_listener_after_recovery (lock_held s) (ep_http s), ep_posts := ep_posts s @ [PostTick]\<rparr>"
| "post_step PostTick s = s\<lparr>ep_http := (ep_http s)\<lparr>h_ticks := h_ticks (ep_http s) + 1\<rparr>\<rparr>"
| "post_step PostRepair s = s\<lparr>ep_http := repair_get_listener_if_ended (lock_held s) (ep_http s)\<rparr>"

text \<open>One step of \<^verbatim>\<open>initialize\<close> or \<^verbatim>\<open>shutdown\<close>.\<close>

fun owner_step :: "handshake_config \<Rightarrow> input \<Rightarrow> owner \<Rightarrow> endpoint \<Rightarrow> endpoint" where
  "owner_step cfg inp OwnerIdle s = s"
| "owner_step cfg inp OwnerLockWait s =
     (if supervisor_holds_lock (ep_supervisor s) then s else s\<lparr>ep_owner := OwnerLocked\<rparr>)"
| "owner_step cfg inp OwnerLocked s =
     s\<lparr>ep_http := (ep_http s)\<lparr>h_from_unhealthy := unhealthy (ep_http s), h_health := Starting\<rparr>, ep_owner := OwnerHandshake HsProbe\<rparr>"
| "owner_step cfg inp (OwnerHandshake hs) s =
     (case hs of
        HsDone (Failed e) \<Rightarrow> s\<lparr>ep_owner := OwnerFailed e\<rparr>
      | HsDone out \<Rightarrow> s\<lparr>ep_owner := OwnerEnsure\<rparr>
      | _ \<Rightarrow> (case handshake_step cfg False inp hs (ep_http s) of (h, hs') \<Rightarrow> s\<lparr>ep_http := h, ep_owner := OwnerHandshake hs'\<rparr>))"
| "owner_step cfg inp (OwnerFailed e) s =
     s\<lparr>ep_http := (ep_http s)\<lparr>h_from_unhealthy := False\<rparr>,
       ep_owner := (if is_permanent_init_failure e then OwnerIdle else OwnerRetry)\<rparr>"
| "owner_step cfg inp OwnerRetry s = s\<lparr>ep_owner := (if unhealthy (ep_http s) then OwnerArm else OwnerIdle)\<rparr>"
| "owner_step cfg inp OwnerArm s = (arm_supervisor s)\<lparr>ep_owner := OwnerIdle\<rparr>"
| "owner_step cfg inp OwnerEnsure s =
     s\<lparr>ep_supervisor := ensure_supervisor_running (ep_http s) (ep_supervisor s), ep_owner := OwnerIdle\<rparr>"
| "owner_step cfg inp OwnerAbort s = s\<lparr>ep_supervisor := None, ep_owner := OwnerDrain\<rparr>"
| "owner_step cfg inp OwnerDrain s = s\<lparr>ep_http := (ep_http s)\<lparr>h_listener := None\<rparr>, ep_owner := OwnerReset\<rparr>"
| "owner_step cfg inp OwnerReset s = s\<lparr>ep_http := (ep_http s)\<lparr>h_completed := False\<rparr>, ep_owner := OwnerStop\<rparr>"
| "owner_step cfg inp OwnerStop s = s\<lparr>ep_http := (ep_http s)\<lparr>h_health := Stopped\<rparr>, ep_owner := OwnerIdle\<rparr>"

text \<open>
  What can happen: a request succeeds or fails at the transport, the rest of a request's accounting runs, the
  supervisor or the owner takes its next step, the idle owner begins \<^verbatim>\<open>initialize\<close> or \<^verbatim>\<open>shutdown\<close>, the listener's
  request is answered, the stream ends.
\<close>

datatype happening =
    RequestOk
  | RequestDead
  | Finish nat
  | Supervise nanos input
  | Owner input
  | Initialize
  | Shutdown
  | StreamAnswered bool
  | StreamEnded

definition end_listener :: "http \<Rightarrow> http" where
  "end_listener h = h\<lparr>h_listener := map_option (\<lambda>l. l\<lparr>gl_finished := True\<rparr>) (h_listener h)\<rparr>"

fun endpoint_step :: "handshake_config \<Rightarrow> happening \<Rightarrow> endpoint \<Rightarrow> endpoint" where
  "endpoint_step cfg RequestOk s =
     (case note_request_success (ep_http s) of (h, ps) \<Rightarrow> s\<lparr>ep_http := h, ep_posts := ep_posts s @ ps\<rparr>)"
| "endpoint_step cfg RequestDead s =
     (case note_transport_failure (ep_http s) of (h, ps) \<Rightarrow> s\<lparr>ep_http := h, ep_posts := ep_posts s @ ps\<rparr>)"
| "endpoint_step cfg (Finish i) s =
     (if i < length (ep_posts s)
      then post_step (ep_posts s ! i) (s\<lparr>ep_posts := take i (ep_posts s) @ drop (Suc i) (ep_posts s)\<rparr>)
      else s)"
| "endpoint_step cfg (Supervise now inp) s =
     (case ep_supervisor s of
        None \<Rightarrow> s
      | Some pc \<Rightarrow>
         (case supervisor_step cfg (owner_holds_lock (ep_owner s)) now inp pc (ep_http s) of
            (h, pc') \<Rightarrow> s\<lparr>ep_http := h, ep_supervisor := Some pc'\<rparr>))"
| "endpoint_step cfg (Owner inp) s = owner_step cfg inp (ep_owner s) s"
| "endpoint_step cfg Initialize s =
     (if ep_owner s = OwnerIdle then s\<lparr>ep_http := (ep_http s)\<lparr>h_shutting_down := False\<rparr>, ep_owner := OwnerLockWait\<rparr> else s)"
| "endpoint_step cfg Shutdown s =
     (if ep_owner s = OwnerIdle then s\<lparr>ep_http := (ep_http s)\<lparr>h_shutting_down := True\<rparr>, ep_owner := OwnerAbort\<rparr> else s)"
| "endpoint_step cfg (StreamAnswered ok_answer) s =
     (let h = ep_http s in s\<lparr>ep_http := (if ok_answer then h\<lparr>h_capable := True\<rparr> else end_listener (h\<lparr>h_capable := False\<rparr>))\<rparr>)"
| "endpoint_step cfg StreamEnded s = s\<lparr>ep_http := end_listener (ep_http s)\<rparr>"

definition run_endpoint :: "handshake_config \<Rightarrow> happening list \<Rightarrow> endpoint \<Rightarrow> endpoint" where
  "run_endpoint cfg es s = apply_all (endpoint_step cfg) es s"

text \<open>\<^verbatim>\<open>list_tools_tracked\<close>: what is returned without asking the upstream, and the recovery generation an answer
  belongs to, given the generation and health read before the request and the flip its own success performed.\<close>

definition list_without_session :: "http \<Rightarrow> bool" where
  "list_without_session h = (unhealthy h \<and> \<not> h_completed h)"

definition attributed_generation :: "u64 \<Rightarrow> bool \<Rightarrow> u64 option \<Rightarrow> u64" where
  "attributed_generation before dispatched_unhealthy recovered_to =
     (case recovered_to of
        Some g \<Rightarrow> if dispatched_unhealthy \<and> g = before + 1 then g else before
      | None \<Rightarrow> before)"

end
