(* ===== verification/Http_Safety.thy ===== *)
theory Http_Safety
  imports Http_Adapter
begin

text \<open>
  What holds in every run of a plain HTTP endpoint: an outage is always being retried, and the endpoint's own steps
  can bring it back.
\<close>

section \<open>An outage is always being retried\<close>

text \<open>The adapter is down, not for good, and not being shut down.\<close>

definition must_retry :: "http \<Rightarrow> bool" where
  "must_retry h = (unhealthy h \<and> \<not> h_permanent h \<and> \<not> h_shutting_down h)"

fun handshake_retries :: "handshake \<Rightarrow> bool" where
  "handshake_retries (HsFinish f) = False"
| "handshake_retries (HsDone Completed) = False"
| "handshake_retries (HsDone Obsolete) = False"
| "handshake_retries (HsDone (Failed e)) = (\<not> is_permanent_init_failure e)"
| "handshake_retries hs = True"

fun supervisor_retries :: "supervisor \<Rightarrow> bool" where
  "supervisor_retries SupParked = False"
| "supervisor_retries SupPayOff = False"
| "supervisor_retries (SupHandshake hs) = handshake_retries hs"
| "supervisor_retries pc = True"

fun owner_owes :: "owner \<Rightarrow> bool" where
  "owner_owes (OwnerHandshake (HsDone (Failed e))) = (\<not> is_permanent_init_failure e)"
| "owner_owes (OwnerFailed e) = (\<not> is_permanent_init_failure e)"
| "owner_owes OwnerRetry = True"
| "owner_owes OwnerArm = True"
| "owner_owes w = False"

definition retrying :: "endpoint \<Rightarrow> bool" where
  "retrying s =
     (PostArm \<in> set (ep_posts s) \<or> owner_owes (ep_owner s) \<or>
      (\<exists>pc. ep_supervisor s = Some pc \<and> (h_permit (ep_http s) \<or> supervisor_retries pc)))"

definition stopping :: "owner \<Rightarrow> bool" where
  "stopping w = (w \<in> {OwnerAbort, OwnerDrain, OwnerReset, OwnerStop})"

text \<open>During and after a shutdown nothing supervises, and a shut down adapter is stopped.\<close>

definition shutdown_ok :: "endpoint \<Rightarrow> bool" where
  "shutdown_ok s =
     ((stopping (ep_owner s) \<longrightarrow> h_shutting_down (ep_http s)) \<and>
      (h_shutting_down (ep_http s) \<longrightarrow>
         (stopping (ep_owner s) \<or> ep_owner s = OwnerIdle \<and> h_health (ep_http s) = Stopped) \<and>
         (ep_owner s \<noteq> OwnerAbort \<longrightarrow> ep_supervisor s = None)))"

definition retried :: "endpoint \<Rightarrow> bool" where
  "retried s = (must_retry (ep_http s) \<longrightarrow> retrying s)"

lemma unhealthy_simps [simp]:
  "h_health h = Healthy \<Longrightarrow> \<not> unhealthy h" "h_health h = Stopped \<Longrightarrow> \<not> unhealthy h" "h_health h = Starting \<Longrightarrow> \<not> unhealthy h"
  "h_health h = Unhealthy r \<Longrightarrow> unhealthy h"
  by (simp_all add: unhealthy_def)

lemma unhealthy_cong: "h_health h' = h_health h \<Longrightarrow> unhealthy h' = unhealthy h"
  by (simp add: unhealthy_def)

text \<open>The fields the handshake never touches.\<close>

lemma handshake_keeps:
  "handshake_step cfg spv inp hs h = (h', hs') \<Longrightarrow> h_shutting_down h' = h_shutting_down h \<and> h_permit h' = h_permit h"
  by (induction cfg spv inp hs h rule: handshake_step.induct)
    (auto simp: fail_identity_def fail_handshake_def set_handshake_unhealthy_def commit_2026_handshake_def mark_healthy_locked_def
      spawn_get_listener_def commit_server_identity_def finish_handshake_healthy_def reset_backoff_def Let_def
      split: input.splits if_splits sum.splits prod.splits)

lemma handshake_done: "handshake_step cfg spv inp (HsDone out) h = (h, HsDone out)"
  by simp

lemma handshake_owed_supervisor:
  "\<lbrakk>handshake_step cfg True inp hs h = (h', hs'); must_retry h'\<rbrakk> \<Longrightarrow>
     handshake_retries hs' \<or> must_retry h \<and> \<not> handshake_retries hs"
  by (cases hs)
    (auto simp: fail_identity_def fail_handshake_def set_handshake_unhealthy_def commit_2026_handshake_def mark_healthy_locked_def
      spawn_get_listener_def commit_server_identity_def finish_handshake_healthy_def reset_backoff_def Let_def must_retry_def
      unhealthy_def
      split: input.splits if_splits sum.splits prod.splits)

lemma handshake_owed_owner:
  "\<lbrakk>handshake_step cfg False inp hs h = (h', hs'); must_retry h'\<rbrakk> \<Longrightarrow>
     owner_owes (OwnerHandshake hs') \<or> must_retry h \<and> \<not> owner_owes (OwnerHandshake hs)"
  by (cases hs)
    (auto simp: fail_identity_def fail_handshake_def set_handshake_unhealthy_def commit_2026_handshake_def mark_healthy_locked_def
      spawn_get_listener_def commit_server_identity_def finish_handshake_healthy_def reset_backoff_def Let_def must_retry_def
      unhealthy_def
      split: input.splits if_splits sum.splits prod.splits)

lemmas handshake_effects =
  fail_identity_def fail_handshake_def set_handshake_unhealthy_def commit_2026_handshake_def mark_healthy_locked_def
  spawn_get_listener_def commit_server_identity_def finish_handshake_healthy_def reset_backoff_def

lemma supervisor_keeps:
  "supervisor_step cfg locked now inp pc h = (h', pc') \<Longrightarrow> h_shutting_down h' = h_shutting_down h"
  using handshake_keeps [of cfg True inp _ h]
  by (cases pc)
    (auto simp: stand_down_unless_unhealthy_def stood_down_on_permanent_failure_def record_attempt_def reset_backoff_def
      replace_get_listener_after_recovery_def spawn_get_listener_def
      split: if_splits handshake.splits handshake_outcome.splits prod.splits input.splits simp del: handshake_step.simps)

lemma deferred_keeps:
  "h_health (replace_get_listener_after_recovery l h) = h_health h"
  "h_permanent (replace_get_listener_after_recovery l h) = h_permanent h"
  "h_shutting_down (replace_get_listener_after_recovery l h) = h_shutting_down h"
  "h_permit (replace_get_listener_after_recovery l h) = h_permit h"
  by (simp_all add: replace_get_listener_after_recovery_def spawn_get_listener_def)

lemma must_retry_cong:
  "\<lbrakk>h_health h' = h_health h; h_permanent h' = h_permanent h; h_shutting_down h' = h_shutting_down h\<rbrakk> \<Longrightarrow>
     must_retry h' = must_retry h"
  by (simp add: must_retry_def unhealthy_def)

lemma supervisor_handshakes:
  assumes "supervisor_step cfg locked now inp (SupHandshake hs) h = (h', pc')" "\<And>out. hs \<noteq> HsDone out"
  shows "(hs = HsProbe \<and> inp = Hint \<and> stand_down_unless_unhealthy (SupHandshake HsProbe) h = (h', pc')) \<or>
     (\<exists>hs'. handshake_step cfg True inp hs h = (h', hs') \<and> pc' = SupHandshake hs')"
  using assms by (cases hs) (auto split: if_splits prod.splits simp del: handshake_step.simps)

lemma supervisor_owed:
  assumes step: "supervisor_step cfg locked now inp pc h = (h', pc')" and owed: "must_retry h'"
  shows "h_permit h' \<or> supervisor_retries pc' \<or> must_retry h \<and> \<not> (h_permit h \<or> supervisor_retries pc)"
proof (cases "\<exists>hs. pc = SupHandshake hs \<and> (\<forall>out. hs \<noteq> HsDone out)")
  case True
  then obtain hs where hs: "pc = SupHandshake hs" "\<And>out. hs \<noteq> HsDone out" by blast
  from supervisor_handshakes [OF step [unfolded hs(1)] hs(2)] show ?thesis
  proof
    assume "hs = HsProbe \<and> inp = Hint \<and> stand_down_unless_unhealthy (SupHandshake HsProbe) h = (h', pc')"
    with owed show ?thesis
      by (auto simp: stand_down_unless_unhealthy_def must_retry_def unhealthy_def reset_backoff_def split: if_splits)
  next
    assume "\<exists>hs'. handshake_step cfg True inp hs h = (h', hs') \<and> pc' = SupHandshake hs'"
    then obtain hs' where hs': "handshake_step cfg True inp hs h = (h', hs')" "pc' = SupHandshake hs'" by blast
    from handshake_owed_supervisor [OF hs'(1) owed] handshake_keeps [OF hs'(1)] hs(1) hs'(2) show ?thesis by auto
  qed
next
  case False
  with step owed show ?thesis
    by (cases pc)
      (auto simp: stand_down_unless_unhealthy_def stood_down_on_permanent_failure_def record_attempt_def reset_backoff_def
        must_retry_def unhealthy_def deferred_keeps
        split: if_splits handshake.splits handshake_outcome.splits input.splits)
qed

text \<open>The rest of a request's accounting, and the owner.\<close>

lemma post_http:
  "h_health (ep_http (post_step p s)) = h_health (ep_http s)"
  "h_permanent (ep_http (post_step p s)) = h_permanent (ep_http s)"
  "h_shutting_down (ep_http (post_step p s)) = h_shutting_down (ep_http s)"
  "ep_owner (post_step p s) = ep_owner s"
  "h_permit (ep_http s) \<Longrightarrow> h_permit (ep_http (post_step p s))"
  "set (ep_posts s) \<subseteq> set (ep_posts (post_step p s))"
  "ep_supervisor s = Some pc \<Longrightarrow> ep_supervisor (post_step p s) = Some pc"
  by (cases p; auto simp: arm_supervisor_def repair_get_listener_if_ended_def deferred_keeps ensure_supervisor_running_def)+

lemma armed:
  "\<not> h_shutting_down (ep_http s) \<Longrightarrow>
     \<exists>pc. ep_supervisor (arm_supervisor s) = Some pc \<and> h_permit (ep_http (arm_supervisor s))"
  by (auto simp: arm_supervisor_def ensure_supervisor_running_def split: option.splits)

lemma retrying_finish:
  assumes i: "i < length (ep_posts s)" and r: "retrying s" and run: "\<not> h_shutting_down (ep_http s)"
  shows "retrying (post_step (ep_posts s ! i) (s\<lparr>ep_posts := take i (ep_posts s) @ drop (Suc i) (ep_posts s)\<rparr>))"
proof -
  let ?p = "ep_posts s ! i" and ?s = "s\<lparr>ep_posts := take i (ep_posts s) @ drop (Suc i) (ep_posts s)\<rparr>"
  have split: "set (ep_posts s) = insert ?p (set (ep_posts ?s))"
    using arg_cong [OF id_take_nth_drop [OF i], of set] by simp
  consider "PostArm \<in> set (ep_posts ?s)" | "?p = PostArm" | "owner_owes (ep_owner s)"
    | pc where "ep_supervisor s = Some pc" "h_permit (ep_http s) \<or> supervisor_retries pc"
    using r split by (auto simp: retrying_def)
  then show ?thesis
  proof cases
    case 1 then show ?thesis using post_http(6) [of ?s ?p] by (auto simp: retrying_def)
  next
    case 2 then show ?thesis using armed [of ?s] run by (auto simp: retrying_def)
  next
    case 3 then show ?thesis by (simp add: retrying_def post_http(4))
  next
    case 4
    then have "ep_supervisor (post_step ?p ?s) = Some pc" by (simp add: post_http(7))
    moreover have "h_permit (ep_http s) \<Longrightarrow> h_permit (ep_http (post_step ?p ?s))" by (simp add: post_http(5))
    ultimately show ?thesis using 4 by (auto simp: retrying_def)
  qed
qed

lemma requests_keep:
  "note_request_success h = (h', ps) \<Longrightarrow> h_shutting_down h' = h_shutting_down h \<and> h_permit h' = h_permit h"
  "note_transport_failure h = (h', ps) \<Longrightarrow> h_shutting_down h' = h_shutting_down h \<and> h_permit h' = h_permit h"
  by (auto simp: note_request_success_def note_transport_failure_def Let_def split: if_splits)

lemma requests_stopped:
  "\<lbrakk>note_request_success h = (h', ps); h_health h = Stopped\<rbrakk> \<Longrightarrow> h_health h' = Stopped"
  "\<lbrakk>note_transport_failure h = (h', ps); h_health h = Stopped\<rbrakk> \<Longrightarrow> h_health h' = Stopped"
  by (auto simp: note_request_success_def note_transport_failure_def Let_def split: if_splits)

lemma owner_handshakes:
  assumes "\<forall>out. hs \<noteq> HsDone out"
  shows "owner_step cfg inp (OwnerHandshake hs) s =
     (case handshake_step cfg False inp hs (ep_http s) of (h, hs') \<Rightarrow> s\<lparr>ep_http := h, ep_owner := OwnerHandshake hs'\<rparr>)"
  using assms by (cases hs) (simp_all del: handshake_step.simps)

lemma shutdown_ok_owner:
  assumes ok: "shutdown_ok s"
  shows "shutdown_ok (owner_step cfg inp (ep_owner s) s)"
proof (cases "\<exists>hs. ep_owner s = OwnerHandshake hs \<and> (\<forall>out. hs \<noteq> HsDone out)")
  case True
  then obtain hs where hs: "ep_owner s = OwnerHandshake hs" "\<forall>out. hs \<noteq> HsDone out" by blast
  obtain h' hs' where step: "handshake_step cfg False inp hs (ep_http s) = (h', hs')" by fastforce
  with handshake_keeps [OF step] owner_handshakes [OF hs(2)] hs(1) ok show ?thesis
    by (auto simp: shutdown_ok_def stopping_def)
next
  case False
  with ok show ?thesis
    by (cases "ep_owner s")
      (auto simp: shutdown_ok_def stopping_def arm_supervisor_def ensure_supervisor_running_def
        split: handshake.splits handshake_outcome.splits if_splits)
qed

lemma shutdown_ok_step: "shutdown_ok s \<Longrightarrow> shutdown_ok (endpoint_step cfg ev s)"
proof (cases ev)
  case RequestOk
  obtain h' ps where q: "note_request_success (ep_http s) = (h', ps)" by fastforce
  assume "shutdown_ok s"
  with RequestOk q requests_keep(1) [OF q] requests_stopped(1) [OF q] show ?thesis by (auto simp: shutdown_ok_def)
next
  case RequestDead
  obtain h' ps where q: "note_transport_failure (ep_http s) = (h', ps)" by fastforce
  assume "shutdown_ok s"
  with RequestDead q requests_keep(2) [OF q] requests_stopped(2) [OF q] show ?thesis by (auto simp: shutdown_ok_def)
next
  case (Finish i)
  moreover assume "shutdown_ok s"
  ultimately show ?thesis
    by (cases "ep_posts s ! i")
      (auto simp: shutdown_ok_def arm_supervisor_def ensure_supervisor_running_def repair_get_listener_if_ended_def deferred_keeps)
next
  case (Supervise now inp)
  assume ok: "shutdown_ok s"
  show ?thesis
  proof (cases "ep_supervisor s")
    case None
    with ok Supervise show ?thesis by simp
  next
    case (Some pc)
    obtain h' pc' where q: "supervisor_step cfg (owner_holds_lock (ep_owner s)) now inp pc (ep_http s) = (h', pc')" by fastforce
    then have "endpoint_step cfg ev s = s\<lparr>ep_http := h', ep_supervisor := Some pc'\<rparr>"
      using Supervise Some by simp
    moreover have "h_shutting_down h' = h_shutting_down (ep_http s)" by (rule supervisor_keeps [OF q])
    moreover have "h_shutting_down (ep_http s) \<longrightarrow> ep_owner s = OwnerAbort" using ok Some by (auto simp: shutdown_ok_def)
    moreover have "stopping (ep_owner s) \<longrightarrow> h_shutting_down (ep_http s)" using ok by (simp add: shutdown_ok_def)
    ultimately show ?thesis by (cases "h_shutting_down (ep_http s)") (simp_all add: shutdown_ok_def stopping_def)
  qed
next
  case (Owner inp)
  moreover assume "shutdown_ok s"
  ultimately show ?thesis by (simp add: shutdown_ok_owner)
qed (auto simp: shutdown_ok_def stopping_def end_listener_def Let_def)

lemma retried_owner:
  assumes ok: "shutdown_ok s" and rt: "retried s"
  shows "retried (owner_step cfg inp (ep_owner s) s)"
proof (cases "\<exists>hs. ep_owner s = OwnerHandshake hs \<and> (\<forall>out. hs \<noteq> HsDone out)")
  case True
  then obtain hs where hs: "ep_owner s = OwnerHandshake hs" "\<forall>out. hs \<noteq> HsDone out" by blast
  obtain h' hs' where step: "handshake_step cfg False inp hs (ep_http s) = (h', hs')" by fastforce
  with handshake_keeps [OF step] handshake_owed_owner [OF step] owner_handshakes [OF hs(2)] hs(1) rt show ?thesis
    by (auto simp: retried_def retrying_def)
next
  case False
  with ok rt show ?thesis
    by (cases "ep_owner s")
      (auto simp: retried_def retrying_def must_retry_def shutdown_ok_def stopping_def arm_supervisor_def
        ensure_supervisor_running_def unhealthy_def
        split: handshake.splits handshake_outcome.splits if_splits option.splits)
qed

lemma retried_step:
  assumes ok: "shutdown_ok s" and rt: "retried s"
  shows "retried (endpoint_step cfg ev s)"
proof (cases ev)
  case RequestOk
  with rt show ?thesis
    by (auto simp: retried_def retrying_def must_retry_def unhealthy_def note_request_success_def Let_def split: if_splits)
next
  case RequestDead
  with rt show ?thesis
    by (auto simp: retried_def retrying_def must_retry_def unhealthy_def note_transport_failure_def Let_def split: if_splits)
next
  case (Finish i)
  have "retried (post_step (ep_posts s ! i) (s\<lparr>ep_posts := take i (ep_posts s) @ drop (Suc i) (ep_posts s)\<rparr>))"
    if i: "i < length (ep_posts s)"
    using rt retrying_finish [OF i] by (auto simp: retried_def must_retry_def unhealthy_def post_http)
  with Finish rt show ?thesis by simp
next
  case (Supervise now inp)
  show ?thesis
  proof (cases "ep_supervisor s")
    case None
    with rt Supervise show ?thesis by simp
  next
    case (Some pc)
    obtain h' pc' where q: "supervisor_step cfg (owner_holds_lock (ep_owner s)) now inp pc (ep_http s) = (h', pc')" by fastforce
    with rt Supervise Some supervisor_owed [OF q] show ?thesis by (auto simp: retried_def retrying_def)
  qed
next
  case (Owner inp)
  with ok rt show ?thesis by (simp add: retried_owner)
next
  case Initialize
  with ok rt show ?thesis
    by (auto simp: retried_def retrying_def must_retry_def unhealthy_def shutdown_ok_def stopping_def)
next
  case Shutdown
  with rt show ?thesis by (auto simp: retried_def retrying_def must_retry_def)
next
  case (StreamAnswered b)
  with rt show ?thesis by (auto simp: retried_def retrying_def must_retry_def unhealthy_def end_listener_def Let_def)
next
  case StreamEnded
  with rt show ?thesis by (auto simp: retried_def retrying_def must_retry_def unhealthy_def end_listener_def)
qed

lemma apply_all_invariant: "\<lbrakk>I s; \<And>e s. I s \<Longrightarrow> I (f e s)\<rbrakk> \<Longrightarrow> I (apply_all f es s)"
  by (induction es arbitrary: s) simp_all

lemma outage_invariant: "shutdown_ok (run_endpoint cfg es new_endpoint) \<and> retried (run_endpoint cfg es new_endpoint)"
  unfolding run_endpoint_def
  by (rule apply_all_invariant [where I = "\<lambda>s. shutdown_ok s \<and> retried s"])
    (simp_all add: shutdown_ok_step retried_step, simp add: shutdown_ok_def retried_def new_endpoint_def new_http_def
      stopping_def must_retry_def unhealthy_def)

text \<open>C19: an outage is always being retried: in every run of an endpoint, whenever it is unhealthy, not because of a
  failure that retrying cannot cure and not on its way down, a wake-up of the supervisor is under way, or the
  supervisor has one waiting, or it is in the middle of an attempt.
\<close>

theorem outage_always_retried:
  "must_retry (ep_http (run_endpoint cfg es new_endpoint)) \<Longrightarrow> retrying (run_endpoint cfg es new_endpoint)"
  using outage_invariant [of cfg es] by (simp add: retried_def)

lemma new_http_simps [simp]:
  "h_health new_http = Stopped" "h_failures new_http = 0" "h_session new_http = None" "\<not> h_completed new_http"
  "\<not> h_permanent new_http" "\<not> h_shutting_down new_http" "\<not> h_permit new_http" "h_generation new_http = 0"
  "\<not> h_deferred new_http" "\<not> h_capable new_http" "h_listener new_http = None" "\<not> h_from_unhealthy new_http"
  "h_ticks new_http = 0" "h_dialect new_http = V2025_03_26"
  by (simp_all add: new_http_def)

lemma new_endpoint_simps [simp]:
  "ep_http new_endpoint = new_http" "ep_supervisor new_endpoint = None" "ep_owner new_endpoint = OwnerIdle"
  "ep_posts new_endpoint = []"
  by (simp_all add: new_endpoint_def)

lemma no_supervisor_no_lock [simp]: "\<not> supervisor_holds_lock None"
  by (simp add: supervisor_holds_lock_def)

text \<open>An endpoint whose first handshake is under way when three requests in a row find nobody there.\<close>

lemma down_during_handshake:
  "run_endpoint cfg [Initialize, Owner Go, Owner Go, RequestDead, RequestDead, RequestDead] new_endpoint =
     new_endpoint\<lparr>ep_http := new_http\<lparr>h_shutting_down := False, h_from_unhealthy := False, h_failures := 3, h_permanent := False,
         h_health := Unhealthy ''upstream unreachable''\<rparr>,
       ep_owner := OwnerHandshake HsProbe, ep_posts := [PostArm]\<rparr>"
proof -
  define h where "h = new_http\<lparr>h_shutting_down := False, h_from_unhealthy := False, h_health := Starting\<rparr>"
  have steps: "run_endpoint cfg [Initialize, Owner Go, Owner Go] new_endpoint =
      new_endpoint\<lparr>ep_http := h, ep_owner := OwnerHandshake HsProbe\<rparr>"
    by (simp add: run_endpoint_def h_def unhealthy_def)
  have h: "h_failures h = 0" "h_health h = Starting" "\<not> unhealthy h" by (simp_all add: h_def unhealthy_def)
  have 1: "note_transport_failure h = (h\<lparr>h_failures := 1\<rparr>, [])"
    by (simp add: note_transport_failure_def TRANSPORT_FAILURE_THRESHOLD_def h word_le_nat_alt Let_def)
  have 2: "note_transport_failure (h\<lparr>h_failures := 1\<rparr>) = (h\<lparr>h_failures := 2\<rparr>, [])"
    by (simp add: note_transport_failure_def TRANSPORT_FAILURE_THRESHOLD_def h word_le_nat_alt Let_def)
  have 3: "note_transport_failure (h\<lparr>h_failures := 2\<rparr>) =
      (h\<lparr>h_failures := 3, h_permanent := False, h_health := Unhealthy ''upstream unreachable''\<rparr>, [PostArm])"
    using h by (simp add: note_transport_failure_def TRANSPORT_FAILURE_THRESHOLD_def unhealthy_def Let_def)
  have "run_endpoint cfg [Initialize, Owner Go, Owner Go, RequestDead, RequestDead, RequestDead] new_endpoint =
      run_endpoint cfg [RequestDead, RequestDead, RequestDead] (run_endpoint cfg [Initialize, Owner Go, Owner Go] new_endpoint)"
    by (simp add: run_endpoint_def)
  also have "\<dots> = new_endpoint\<lparr>ep_http := h\<lparr>h_failures := 3, h_permanent := False,
      h_health := Unhealthy ''upstream unreachable''\<rparr>, ep_owner := OwnerHandshake HsProbe, ep_posts := [PostArm]\<rparr>"
    unfolding steps by (simp add: run_endpoint_def 1 2 3)
  finally show ?thesis by (simp add: h_def)
qed

lemma outage_always_retried_witness:
  "\<exists>es. must_retry (ep_http (run_endpoint \<lparr>hc_override = None, hc_message = (\<lambda>e. '''')\<rparr> es new_endpoint)) \<and>
     retrying (run_endpoint \<lparr>hc_override = None, hc_message = (\<lambda>e. '''')\<rparr> es new_endpoint)"
proof -
  let ?es = "[Initialize, Owner Go, Owner Go, RequestDead, RequestDead, RequestDead]"
  let ?cfg = "\<lparr>hc_override = None, hc_message = (\<lambda>e. '''')\<rparr>"
  have "must_retry (ep_http (run_endpoint ?cfg ?es new_endpoint))"
    unfolding down_during_handshake by (simp add: must_retry_def)
  with outage_always_retried [OF this] show ?thesis by blast
qed

section \<open>Recovery\<close>

text \<open>The endpoint's own steps: no request, no new \<^verbatim>\<open>initialize\<close> or \<^verbatim>\<open>shutdown\<close>, no event on the stream.\<close>

fun internal :: "happening \<Rightarrow> bool" where
  "internal (Finish i) = True"
| "internal (Supervise now inp) = True"
| "internal (Owner inp) = True"
| "internal ev = False"

definition recovered :: "u64 \<Rightarrow> string option \<Rightarrow> http \<Rightarrow> bool" where
  "recovered g sid h =
     (h_health h = Healthy \<and> \<not> h_permanent h \<and> h_failures h = 0 \<and> h_generation h = g \<and> h_session h = sid \<and>
      h_listener h = Some \<lparr>gl_session = sid, gl_finished = False\<rparr>)"

definition can_recover :: "handshake_config \<Rightarrow> string option \<Rightarrow> endpoint \<Rightarrow> bool" where
  "can_recover cfg sid s =
     (\<exists>es. (\<forall>e\<in>set es. internal e) \<and> recovered (h_generation (ep_http s) + 1) sid (ep_http (run_endpoint cfg es s)))"

lemma can_recover_step:
  assumes "internal e" "endpoint_step cfg e s = s'" "h_generation (ep_http s') = h_generation (ep_http s)" "can_recover cfg sid s'"
  shows "can_recover cfg sid s"
proof -
  obtain es where es: "\<forall>e\<in>set es. internal e" "recovered (h_generation (ep_http s') + 1) sid (ep_http (run_endpoint cfg es s'))"
    using assms(4) by (auto simp: can_recover_def)
  have "run_endpoint cfg (e # es) s = run_endpoint cfg es s'" using assms(2) by (simp add: run_endpoint_def)
  with es assms show ?thesis unfolding can_recover_def by (intro exI [of _ "e # es"]) simp
qed

lemma detect_nothing: "is_2026 (detect_upstream_dialect None None) = False"
  by (simp add: detect_upstream_dialect_def is_2026_def LEGACY_DEFAULT_def)

text \<open>The attempt itself: an upstream of an older dialect that answers \<^verbatim>\<open>initialize\<close> with a valid identity.\<close>

lemma run_append: "run_endpoint cfg (es @ es') s = run_endpoint cfg es' (run_endpoint cfg es s)"
  by (induction es arbitrary: s) (simp_all add: run_endpoint_def)

lemma attempt_answered:
  assumes "must_retry (ep_http s)" "ep_supervisor s = Some (SupHandshake HsProbe)"
  shows "run_endpoint cfg [Supervise 0 (ProbeReply None), Supervise 0 Go, Supervise 0 Go, Supervise 0 (InitReply (Inr (result, sid)))] s =
    s\<lparr>ep_supervisor := Some (SupHandshake (HsAnswered None result sid))\<rparr>"
  using assms by (simp add: run_endpoint_def must_retry_def detect_nothing)

lemma attempt_committed:
  assumes "ep_supervisor s = Some (SupHandshake (HsAnswered None result sid))" "validate_server_identity cfg result = Inr idn"
  shows "run_endpoint cfg [Supervise 0 Go, Supervise 0 Go, Supervise 0 Go, Supervise 0 Go] s =
    s\<lparr>ep_http := (commit_server_identity idn (ep_http s))\<lparr>h_session := sid, h_dialect := detect_upstream_dialect None (Some result)\<rparr>,
      ep_supervisor := Some (SupHandshake HsNotified)\<rparr>"
  using assms by (simp add: run_endpoint_def)

lemma attempt_listens:
  assumes "ep_supervisor s = Some (SupHandshake HsNotified)" "\<not> h_shutting_down (ep_http s)" "unhealthy (ep_http s)"
  shows "recovered (h_generation (ep_http s) + 1) (h_session (ep_http s))
    (ep_http (run_endpoint cfg [Supervise 0 Go, Supervise 0 Go] s))"
  using assms
  by (simp add: run_endpoint_def spawn_get_listener_def mark_healthy_locked_def recovered_def unhealthy_def Let_def)

lemma attempt_recovers:
  assumes "must_retry (ep_http s)" "ep_supervisor s = Some (SupHandshake HsProbe)"
    "validate_server_identity cfg result = Inr idn"
  shows "can_recover cfg sid s"
proof -
  let ?h = "(commit_server_identity idn (ep_http s))\<lparr>h_session := sid, h_dialect := detect_upstream_dialect None (Some result)\<rparr>"
  let ?a = "[Supervise 0 (ProbeReply None), Supervise 0 Go, Supervise 0 Go, Supervise 0 (InitReply (Inr (result, sid)))]"
    and ?b = "[Supervise 0 Go, Supervise 0 Go, Supervise 0 Go, Supervise 0 Go]" and ?c = "[Supervise 0 Go, Supervise 0 Go]"
  have "h_generation ?h = h_generation (ep_http s)" "h_session ?h = sid" "\<not> h_shutting_down ?h" "unhealthy ?h"
    using assms(1) by (simp_all add: commit_server_identity_def must_retry_def unhealthy_def)
  moreover have "run_endpoint cfg (?a @ ?b) s = s\<lparr>ep_http := ?h, ep_supervisor := Some (SupHandshake HsNotified)\<rparr>"
    unfolding run_append attempt_answered [OF assms(1,2)] using attempt_committed [OF _ assms(3)] by simp
  ultimately have "recovered (h_generation (ep_http s) + 1) sid (ep_http (run_endpoint cfg ((?a @ ?b) @ ?c) s))"
    using attempt_listens [of "s\<lparr>ep_http := ?h, ep_supervisor := Some (SupHandshake HsNotified)\<rparr>" cfg] by (simp only: run_append) simp
  then show ?thesis unfolding can_recover_def by (intro exI [of _ "(?a @ ?b) @ ?c"]) simp
qed

lemma supervise_recovers:
  assumes "ep_supervisor s = Some pc" "supervisor_step cfg (owner_holds_lock (ep_owner s)) 0 inp pc (ep_http s) = (h', pc')"
    "h_generation h' = h_generation (ep_http s)" "can_recover cfg sid (s\<lparr>ep_http := h', ep_supervisor := Some pc'\<rparr>)"
  shows "can_recover cfg sid s"
  by (rule can_recover_step [of "Supervise 0 inp" cfg s, OF _ refl]) (use assms in simp_all)

text \<open>The supervisor on its way to an attempt, while nobody else holds the handshake lock.\<close>

definition waits :: "supervisor \<Rightarrow> endpoint \<Rightarrow> bool" where
  "waits pc s = (ep_supervisor s = Some pc \<and> must_retry (ep_http s) \<and> \<not> owner_holds_lock (ep_owner s))"

lemma must_retryD: "must_retry h \<Longrightarrow> unhealthy h" "must_retry h \<Longrightarrow> \<not> h_permanent h"
  by (simp_all add: must_retry_def)

lemma waits_on:
  assumes "waits pc s" "supervisor_step cfg False 0 Go pc (ep_http s) = (h', pc')"
    "h_generation h' = h_generation (ep_http s)" "must_retry h'" "\<And>s. waits pc' s \<Longrightarrow> can_recover cfg sid s"
  shows "can_recover cfg sid s"
  by (rule supervise_recovers [of s pc cfg Go h' pc']) (use assms in \<open>auto simp: waits_def\<close>)

lemmas waiting_simps =
  must_retryD stand_down_unless_unhealthy_def stood_down_on_permanent_failure_def record_attempt_def must_retry_def unhealthy_def

lemma waits_step:
  "waits SupLockPermanent s \<Longrightarrow> supervisor_step cfg False 0 Go SupLockPermanent (ep_http s) = (ep_http s, SupHandshake HsProbe)"
  "waits SupLockCheck s \<Longrightarrow> supervisor_step cfg False 0 Go SupLockCheck (ep_http s) = (ep_http s, SupLockPermanent)"
  "waits SupLockWait s \<Longrightarrow> supervisor_step cfg False 0 Go SupLockWait (ep_http s) = (ep_http s, SupLockCheck)"
  "waits SupRecheck s \<Longrightarrow> supervisor_step cfg False 0 Go SupRecheck (ep_http s) = (ep_http s, SupLockWait)"
  "waits SupBackoff s \<Longrightarrow> supervisor_step cfg False 0 Go SupBackoff (ep_http s) = (ep_http s, SupRecheck)"
  "waits SupCheckPermanent s \<Longrightarrow>
     supervisor_step cfg False 0 Go SupCheckPermanent (ep_http s) = (record_attempt 0 (ep_http s), SupBackoff)"
  "waits SupCheck s \<Longrightarrow> supervisor_step cfg False 0 Go SupCheck (ep_http s) = (ep_http s, SupCheckPermanent)"
  by (simp_all add: waits_def must_retryD stand_down_unless_unhealthy_def stood_down_on_permanent_failure_def)

lemma waits_must_retry: "waits pc s \<Longrightarrow> must_retry (ep_http s)"
  by (simp add: waits_def)

lemma record_attempt_keeps:
  "h_generation (record_attempt now h) = h_generation h" "must_retry (record_attempt now h) = must_retry h"
  "h_permit (record_attempt now h) = h_permit h"
  by (simp_all add: record_attempt_def must_retry_def unhealthy_def)

lemma waiting_recovers:
  assumes valid: "validate_server_identity cfg result = Inr idn"
  shows "waits (SupHandshake HsProbe) s \<Longrightarrow> can_recover cfg sid s"
    and "waits SupLockPermanent s \<Longrightarrow> can_recover cfg sid s"
    and "waits SupLockCheck s \<Longrightarrow> can_recover cfg sid s"
    and "waits SupLockWait s \<Longrightarrow> can_recover cfg sid s"
    and "waits SupRecheck s \<Longrightarrow> can_recover cfg sid s"
    and "waits SupBackoff s \<Longrightarrow> can_recover cfg sid s"
    and "waits SupCheckPermanent s \<Longrightarrow> can_recover cfg sid s"
    and "waits SupCheck s \<Longrightarrow> can_recover cfg sid s"
proof -
  have 0: "can_recover cfg sid s" if "waits (SupHandshake HsProbe) s" for s
    using that valid by (auto simp: waits_def intro: attempt_recovers)
  have 1: "can_recover cfg sid s" if "waits SupLockPermanent s" for s
    by (rule waits_on [OF that waits_step(1) [OF that] refl waits_must_retry [OF that] 0])
  have 2: "can_recover cfg sid s" if "waits SupLockCheck s" for s
    by (rule waits_on [OF that waits_step(2) [OF that] refl waits_must_retry [OF that] 1])
  have 3: "can_recover cfg sid s" if "waits SupLockWait s" for s
    by (rule waits_on [OF that waits_step(3) [OF that] refl waits_must_retry [OF that] 2])
  have 4: "can_recover cfg sid s" if "waits SupRecheck s" for s
    by (rule waits_on [OF that waits_step(4) [OF that] refl waits_must_retry [OF that] 3])
  have 5: "can_recover cfg sid s" if "waits SupBackoff s" for s
    by (rule waits_on [OF that waits_step(5) [OF that] refl waits_must_retry [OF that] 4])
  have 6: "can_recover cfg sid s" if "waits SupCheckPermanent s" for s
    by (rule waits_on [OF that waits_step(6) [OF that] _ _ 5])
      (simp_all add: record_attempt_keeps waits_must_retry [OF that])
  have 7: "can_recover cfg sid s" if "waits SupCheck s" for s
    by (rule waits_on [OF that waits_step(7) [OF that] refl waits_must_retry [OF that] 6])
  show "waits (SupHandshake HsProbe) s \<Longrightarrow> can_recover cfg sid s"
    and "waits SupLockPermanent s \<Longrightarrow> can_recover cfg sid s"
    and "waits SupLockCheck s \<Longrightarrow> can_recover cfg sid s"
    and "waits SupLockWait s \<Longrightarrow> can_recover cfg sid s"
    and "waits SupRecheck s \<Longrightarrow> can_recover cfg sid s"
    and "waits SupBackoff s \<Longrightarrow> can_recover cfg sid s"
    and "waits SupCheckPermanent s \<Longrightarrow> can_recover cfg sid s"
    and "waits SupCheck s \<Longrightarrow> can_recover cfg sid s"
    by (fact 0 1 2 3 4 5 6 7)+
qed

lemma permit_recovers:
  assumes valid: "validate_server_identity cfg result = Inr idn"
    and s: "ep_supervisor s = Some pc" "must_retry (ep_http s)" "\<not> lock_held s" "h_permit (ep_http s) \<or> supervisor_retries pc"
  shows "can_recover cfg sid s"
proof -
  have lock: "\<not> owner_holds_lock (ep_owner s)" "\<not> supervisor_holds_lock (Some pc)"
    using s(1,3) by (simp_all add: lock_held_def)
  note waiting = waiting_recovers [OF valid, of _ sid]
  have parked: "can_recover cfg sid s"
    if "ep_supervisor s = Some SupParked" "must_retry (ep_http s)" "\<not> owner_holds_lock (ep_owner s)" "h_permit (ep_http s)" for s
    by (rule waits_on [of SupParked s cfg "(ep_http s)\<lparr>h_permit := False\<rparr>" SupCheck])
      (use that waiting(8) in \<open>auto simp: waits_def must_retry_def unhealthy_def\<close>)
  show ?thesis
  proof (cases pc)
    case SupParked
    with s lock parked show ?thesis by simp
  next
    case SupPayOff
    let ?h = "if h_deferred (ep_http s)
      then replace_get_listener_after_recovery (owner_holds_lock (ep_owner s)) ((ep_http s)\<lparr>h_deferred := False\<rparr>) else ep_http s"
    have "must_retry ?h" using s(2) by (simp add: must_retry_def unhealthy_def deferred_keeps)
    moreover have "h_permit ?h" using s(4) SupPayOff by (simp add: deferred_keeps)
    moreover have "h_generation ?h = h_generation (ep_http s)"
      by (simp add: replace_get_listener_after_recovery_def spawn_get_listener_def)
    moreover have "supervisor_step cfg (owner_holds_lock (ep_owner s)) 0 Go SupPayOff (ep_http s) = (?h, SupParked)" by simp
    ultimately show ?thesis
      using s(1) SupPayOff lock by (intro supervise_recovers [of s SupPayOff cfg Go ?h SupParked] parked) simp_all
  qed (use s lock in \<open>auto simp: waits_def supervisor_holds_lock_def intro: waiting\<close>)
qed

lemma arm_keeps:
  "must_retry (ep_http (arm_supervisor s)) = must_retry (ep_http s)"
  "h_generation (ep_http (arm_supervisor s)) = h_generation (ep_http s)"
  "ep_owner (arm_supervisor s) = ep_owner s"
  "supervisor_holds_lock (ep_supervisor (arm_supervisor s)) = supervisor_holds_lock (ep_supervisor s)"
  by (auto simp: arm_supervisor_def ensure_supervisor_running_def must_retry_def unhealthy_def supervisor_holds_lock_def
      split: option.splits)

lemma armed_recovers:
  assumes "validate_server_identity cfg result = Inr idn"
    and "must_retry (ep_http s)" "\<not> supervisor_holds_lock (ep_supervisor s)" "\<not> owner_holds_lock w"
  shows "can_recover cfg sid ((arm_supervisor s)\<lparr>ep_owner := w\<rparr>)"
proof -
  obtain pc where "ep_supervisor (arm_supervisor s) = Some pc" "h_permit (ep_http (arm_supervisor s))"
    using armed [of s] assms(2) by (auto simp: must_retry_def)
  with arm_keeps(4) [of s] assms show ?thesis
    by (intro permit_recovers [OF assms(1)]) (simp_all add: arm_keeps(1) lock_held_def)
qed

lemma owner_recovers:
  assumes "validate_server_identity cfg result = Inr idn"
    and "must_retry (ep_http s)" "\<not> lock_held s" "owner_owes (ep_owner s)"
  shows "can_recover cfg sid s"
proof -
  have arm: "can_recover cfg sid s"
    if "must_retry (ep_http s)" "\<not> supervisor_holds_lock (ep_supervisor s)" "ep_owner s = OwnerArm" for s
    by (rule can_recover_step [of "Owner Go", OF _ refl])
      (use that assms(1) in \<open>simp_all add: arm_keeps armed_recovers owner_holds_lock_def\<close>)
  have retry: "can_recover cfg sid s"
    if "must_retry (ep_http s)" "\<not> supervisor_holds_lock (ep_supervisor s)" "ep_owner s = OwnerRetry" for s
    by (rule can_recover_step [of "Owner Go", OF _ refl]) (use that in \<open>simp_all add: must_retryD arm\<close>)
  show ?thesis
  proof (cases "ep_owner s")
    case (OwnerFailed e)
    let ?s = "s\<lparr>ep_http := (ep_http s)\<lparr>h_from_unhealthy := False\<rparr>, ep_owner := OwnerRetry\<rparr>"
    have "must_retry (ep_http ?s)" using assms(2) by (simp add: must_retry_def unhealthy_def)
    moreover have "\<not> supervisor_holds_lock (ep_supervisor ?s)" using assms(3) by (simp add: lock_held_def)
    ultimately have "can_recover cfg sid ?s" by (rule retry) simp
    moreover have "endpoint_step cfg (Owner Go) s = ?s" using OwnerFailed assms(4) by simp
    ultimately show ?thesis by (intro can_recover_step [of "Owner Go" cfg s ?s]) simp_all
  qed (use assms arm retry in \<open>simp_all add: lock_held_def owner_holds_lock_def\<close>)
qed

lemma post_recovers:
  assumes "validate_server_identity cfg result = Inr idn"
    and "must_retry (ep_http s)" "\<not> lock_held s" "PostArm \<in> set (ep_posts s)"
  shows "can_recover cfg sid s"
proof -
  obtain i where i: "i < length (ep_posts s)" "ep_posts s ! i = PostArm"
    using assms(4) by (auto simp: in_set_conv_nth)
  let ?s = "s\<lparr>ep_posts := take i (ep_posts s) @ drop (Suc i) (ep_posts s)\<rparr>"
  have "can_recover cfg sid ((arm_supervisor ?s)\<lparr>ep_owner := ep_owner s\<rparr>)"
    using assms by (intro armed_recovers [OF assms(1)]) (simp_all add: lock_held_def)
  moreover have "(arm_supervisor ?s)\<lparr>ep_owner := ep_owner s\<rparr> = arm_supervisor ?s" by (simp add: arm_supervisor_def)
  ultimately show ?thesis
    using i by (intro can_recover_step [of "Finish i" cfg s "arm_supervisor ?s"]) (simp_all add: arm_keeps)
qed



end
