(* ===== verification/Http_Recovery.thy ===== *)
theory Http_Recovery
  imports Http_Safety
begin

text \<open>
  More of what holds in every run of a plain HTTP endpoint: a recovery is announced exactly once, the listener is on
  the session the requests use, and an attempt the traffic has overtaken changes nothing.
\<close>

section \<open>One announcement per recovery\<close>

text \<open>Announcements under way: a request that flipped the adapter, or a handshake that has.\<close>

definition finishing :: "handshake \<Rightarrow> nat" where
  "finishing hs = (if hs = HsFinish True then 1 else 0)"

definition announces :: "post \<Rightarrow> bool" where
  "announces p = (p = PostFlip \<or> p = PostTick)"

definition owed :: "endpoint \<Rightarrow> nat" where
  "owed s = length (filter announces (ep_posts s)) +
     (case ep_supervisor s of Some (SupHandshake hs) \<Rightarrow> finishing hs | _ \<Rightarrow> 0) +
     (case ep_owner s of OwnerHandshake hs \<Rightarrow> finishing hs | _ \<Rightarrow> 0)"

definition unannounced :: "endpoint \<Rightarrow> u64" where
  "unannounced s = h_generation (ep_http s) - of_nat (h_ticks (ep_http s) + owed s)"

lemma handshake_announces:
  "handshake_step cfg spv inp hs h = (h', hs') \<Longrightarrow>
     h_generation h' - of_nat (h_ticks h' + finishing hs') = h_generation h - of_nat (h_ticks h + finishing hs)"
  by (cases hs)
    (auto simp: handshake_effects Let_def finishing_def unhealthy_def split: input.splits if_splits sum.splits prod.splits)

lemma supervisor_announces:
  assumes "supervisor_step cfg locked now inp pc h = (h', pc')"
  shows "h_generation h' - of_nat (h_ticks h' + (case pc' of SupHandshake hs \<Rightarrow> finishing hs | _ \<Rightarrow> 0)) =
    h_generation h - of_nat (h_ticks h + (case pc of SupHandshake hs \<Rightarrow> finishing hs | _ \<Rightarrow> 0))"
proof (cases "\<exists>hs. pc = SupHandshake hs \<and> (\<forall>out. hs \<noteq> HsDone out)")
  case True
  then obtain hs where hs: "pc = SupHandshake hs" "\<And>out. hs \<noteq> HsDone out" by blast
  from supervisor_handshakes [OF assms [unfolded hs(1)] hs(2)] show ?thesis
    by (auto simp: hs(1) stand_down_unless_unhealthy_def reset_backoff_def finishing_def split: if_splits
        dest: handshake_announces)
next
  case False
  with assms show ?thesis
    by (cases pc)
      (auto simp: stand_down_unless_unhealthy_def stood_down_on_permanent_failure_def record_attempt_def reset_backoff_def
        finishing_def replace_get_listener_after_recovery_def spawn_get_listener_def
        split: if_splits handshake.splits handshake_outcome.splits input.splits)
qed

lemma owed_posts: "owed (s\<lparr>ep_posts := ps\<rparr>) + length (filter announces (ep_posts s)) = owed s + length (filter announces ps)"
  by (simp add: owed_def)

lemma unannounced_finish:
  assumes i: "i < length (ep_posts s)"
  shows "unannounced (post_step (ep_posts s ! i) (s\<lparr>ep_posts := take i (ep_posts s) @ drop (Suc i) (ep_posts s)\<rparr>)) = unannounced s"
proof -
  have "filter announces (ep_posts s) =
      filter announces (take i (ep_posts s)) @ (if announces (ep_posts s ! i) then [ep_posts s ! i] else []) @
      filter announces (drop (Suc i) (ep_posts s))"
    using arg_cong [OF id_take_nth_drop [OF i], of "filter announces"] by simp
  then show ?thesis
    by (cases "ep_posts s ! i")
      (auto simp: unannounced_def owed_def announces_def arm_supervisor_def ensure_supervisor_running_def
        repair_get_listener_if_ended_def replace_get_listener_after_recovery_def spawn_get_listener_def
        split: option.splits)
qed

lemma unannounced_owner:
  assumes "ep_owner s \<noteq> OwnerAbort"
  shows "unannounced (owner_step cfg inp (ep_owner s) s) = unannounced s"
proof (cases "\<exists>hs. ep_owner s = OwnerHandshake hs \<and> (\<forall>out. hs \<noteq> HsDone out)")
  case True
  then obtain hs where hs: "ep_owner s = OwnerHandshake hs" "\<forall>out. hs \<noteq> HsDone out" by blast
  obtain h' hs' where step: "handshake_step cfg False inp hs (ep_http s) = (h', hs')" by fastforce
  with handshake_announces [OF step] owner_handshakes [OF hs(2)] hs(1) show ?thesis
    by (simp add: unannounced_def owed_def algebra_simps)
next
  case False
  with assms show ?thesis
    by (cases "ep_owner s")
      (auto simp: unannounced_def owed_def arm_supervisor_def ensure_supervisor_running_def finishing_def
        split: handshake.splits handshake_outcome.splits option.splits)
qed

lemma unannounced_supervise:
  assumes sup: "ep_supervisor s = Some pc"
    and step: "supervisor_step cfg locked now inp pc (ep_http s) = (h', pc')"
  shows "unannounced (s\<lparr>ep_http := h', ep_supervisor := Some pc'\<rparr>) = unannounced s"
  using supervisor_announces [OF step] sup by (simp add: unannounced_def owed_def algebra_simps)

lemma unannounced_step:
  assumes "ep_owner s \<noteq> OwnerAbort"
  shows "unannounced (endpoint_step cfg ev s) = unannounced s"
proof (cases ev)
  case (Finish i)
  then show ?thesis by (simp add: unannounced_finish)
next
  case (Supervise now inp)
  then show ?thesis
    by (simp add: unannounced_supervise split: option.splits prod.splits del: supervisor_step.simps)
next
  case (Owner inp)
  with assms show ?thesis by (simp add: unannounced_owner)
qed (auto simp: unannounced_def owed_def note_request_success_def note_transport_failure_def announces_def end_listener_def Let_def
    finishing_def split: if_splits)

lemma post_owner: "ep_owner (post_step p s) = ep_owner s"
  by (cases p) (simp_all add: arm_supervisor_def)

lemma owner_not_aborting:
  assumes "ep_owner s \<noteq> OwnerAbort"
  shows "ep_owner (owner_step cfg inp (ep_owner s) s) \<noteq> OwnerAbort"
proof (cases "\<exists>hs. ep_owner s = OwnerHandshake hs \<and> (\<forall>out. hs \<noteq> HsDone out)")
  case True
  then obtain hs where "ep_owner s = OwnerHandshake hs" "\<forall>out. hs \<noteq> HsDone out" by blast
  then show ?thesis by (simp add: owner_handshakes split: prod.splits del: owner_step.simps)
next
  case False
  with assms show ?thesis
    by (cases "ep_owner s") (auto simp: arm_supervisor_def split: handshake.splits handshake_outcome.splits)
qed

lemma not_aborting_step:
  "\<lbrakk>ev \<noteq> Shutdown; ep_owner s \<noteq> OwnerAbort\<rbrakk> \<Longrightarrow> ep_owner (endpoint_step cfg ev s) \<noteq> OwnerAbort"
  by (cases ev) (auto simp: post_owner owner_not_aborting Let_def split: prod.splits option.splits
    simp del: supervisor_step.simps owner_step.simps post_step.simps)

lemma announced:
  "\<lbrakk>Shutdown \<notin> set es; ep_owner s \<noteq> OwnerAbort\<rbrakk> \<Longrightarrow> unannounced (run_endpoint cfg es s) = unannounced s"
proof (induction es arbitrary: s)
  case Nil
  then show ?case by (simp add: run_endpoint_def)
next
  case (Cons e es)
  have "run_endpoint cfg (e # es) s = run_endpoint cfg es (endpoint_step cfg e s)" by (simp add: run_endpoint_def)
  moreover have "e \<noteq> Shutdown" "Shutdown \<notin> set es" using Cons.prems(1) by auto
  ultimately show ?case
    using Cons.IH Cons.prems(2) by (simp add: unannounced_step not_aborting_step del: endpoint_step.simps)
qed

text \<open>Every recovery is announced exactly once: in a run without a shutdown the recovery generation is the number of
  ticks sent plus the announcements still under way, whoever recovered the endpoint, a request, the supervisor or
  the owner, and however they interleave.
\<close>

theorem one_announcement_per_recovery:
  assumes "Shutdown \<notin> set es"
  shows "h_generation (ep_http (run_endpoint cfg es new_endpoint)) =
    of_nat (h_ticks (ep_http (run_endpoint cfg es new_endpoint)) + owed (run_endpoint cfg es new_endpoint))"
proof -
  have "unannounced new_endpoint = 0" by (simp add: unannounced_def owed_def)
  with announced [OF assms, of new_endpoint cfg] show ?thesis by (simp add: unannounced_def)
qed

lemma one_announcement_per_recovery_witness:
  "h_generation (ep_http (run_endpoint \<lparr>hc_override = None, hc_message = (\<lambda>e. '''')\<rparr>
      [Initialize, Owner Go, Owner Go, RequestDead, RequestDead, RequestDead, Finish 0, Supervise 5 Go] new_endpoint)) =
    of_nat (h_ticks (ep_http (run_endpoint \<lparr>hc_override = None, hc_message = (\<lambda>e. '''')\<rparr>
      [Initialize, Owner Go, Owner Go, RequestDead, RequestDead, RequestDead, Finish 0, Supervise 5 Go] new_endpoint)) +
    owed (run_endpoint \<lparr>hc_override = None, hc_message = (\<lambda>e. '''')\<rparr>
      [Initialize, Owner Go, Owner Go, RequestDead, RequestDead, RequestDead, Finish 0, Supervise 5 Go] new_endpoint))"
  by (rule one_announcement_per_recovery) simp

section \<open>The listener is on the current session\<close>

text \<open>A handshake that has stored its session and not yet opened the listener.\<close>

fun between_session_and_listener :: "handshake \<Rightarrow> bool" where
  "between_session_and_listener (HsSession d result) = True"
| "between_session_and_listener HsNotify = True"
| "between_session_and_listener HsNotified = True"
| "between_session_and_listener hs = False"

definition rebinding :: "endpoint \<Rightarrow> bool" where
  "rebinding s =
     ((\<exists>hs. ep_supervisor s = Some (SupHandshake hs) \<and> between_session_and_listener hs) \<or>
      (\<exists>hs. ep_owner s = OwnerHandshake hs \<and> between_session_and_listener hs))"

definition bound :: "http \<Rightarrow> bool" where
  "bound h = (\<forall>l. h_listener h = Some l \<longrightarrow> gl_session l = h_session h)"

definition listener_ok :: "endpoint \<Rightarrow> bool" where
  "listener_ok s =
     ((\<not> h_shutting_down (ep_http s) \<longrightarrow> bound (ep_http s) \<or> rebinding s) \<and>
      (h_shutting_down (ep_http s) \<and> ep_owner s \<notin> {OwnerAbort, OwnerDrain} \<longrightarrow> h_listener (ep_http s) = None))"

lemma bound_same:
  "\<lbrakk>h_listener h' = h_listener h; h_session h' = h_session h\<rbrakk> \<Longrightarrow> bound h' = bound h"
  by (simp add: bound_def)

lemma bound_spawn: "\<not> h_shutting_down h \<Longrightarrow> bound (spawn_get_listener h)"
  by (simp add: bound_def spawn_get_listener_def)

lemma bound_replace: "bound h \<Longrightarrow> bound (replace_get_listener_after_recovery l h)"
  by (auto simp: bound_def replace_get_listener_after_recovery_def spawn_get_listener_def)

lemma handshake_binds:
  "\<lbrakk>handshake_step cfg spv inp hs h = (h', hs'); \<not> h_shutting_down h; bound h \<or> between_session_and_listener hs\<rbrakk> \<Longrightarrow>
     bound h' \<or> between_session_and_listener hs'"
  by (cases hs)
    (auto simp: handshake_effects Let_def bound_def split: input.splits if_splits sum.splits prod.splits)

lemma supervisor_binds:
  assumes step: "supervisor_step cfg locked now inp pc h = (h', pc')"
    and run: "\<not> h_shutting_down h"
    and ok: "bound h \<or> (\<exists>hs. pc = SupHandshake hs \<and> between_session_and_listener hs)"
  shows "bound h' \<or> (\<exists>hs. pc' = SupHandshake hs \<and> between_session_and_listener hs)"
proof (cases "\<exists>hs. pc = SupHandshake hs \<and> (\<forall>out. hs \<noteq> HsDone out)")
  case True
  then obtain hs where hs: "pc = SupHandshake hs" "\<And>out. hs \<noteq> HsDone out" by blast
  from supervisor_handshakes [OF step [unfolded hs(1)] hs(2)] show ?thesis
  proof
    assume "hs = HsProbe \<and> inp = Hint \<and> stand_down_unless_unhealthy (SupHandshake HsProbe) h = (h', pc')"
    with ok hs(1) show ?thesis
      by (auto simp: stand_down_unless_unhealthy_def reset_backoff_def bound_def split: if_splits)
  next
    assume "\<exists>hs'. handshake_step cfg True inp hs h = (h', hs') \<and> pc' = SupHandshake hs'"
    with handshake_binds [of cfg True inp hs h] run ok hs(1) show ?thesis by auto
  qed
next
  case False
  with step ok run show ?thesis
    by (cases pc)
      (auto simp: stand_down_unless_unhealthy_def stood_down_on_permanent_failure_def record_attempt_def reset_backoff_def
        replace_get_listener_after_recovery_def spawn_get_listener_def bound_def
        split: if_splits handshake.splits handshake_outcome.splits input.splits)
qed

lemma listener_gone_step:
  assumes "h_shutting_down h" "h_listener h = None"
  shows "h_listener (replace_get_listener_after_recovery l h) = None"
    and "h_listener (repair_get_listener_if_ended l h) = None"
  using assms
  by (simp_all add: replace_get_listener_after_recovery_def repair_get_listener_if_ended_def spawn_get_listener_def)

lemma requests_bind:
  "note_request_success h = (h', ps) \<Longrightarrow> h_listener h' = h_listener h \<and> h_session h' = h_session h"
  "note_transport_failure h = (h', ps) \<Longrightarrow> h_listener h' = h_listener h \<and> h_session h' = h_session h"
  by (auto simp: note_request_success_def note_transport_failure_def Let_def split: if_splits)

lemma listener_ok_request:
  assumes ok: "listener_ok s" and h: "h_listener h = h_listener (ep_http s)" "h_session h = h_session (ep_http s)"
    "h_shutting_down h = h_shutting_down (ep_http s)"
  shows "listener_ok (s\<lparr>ep_http := h, ep_posts := ps\<rparr>)"
  using ok h bound_same [OF h(1,2)] by (auto simp: listener_ok_def rebinding_def)

lemma post_listener:
  "h_listener (ep_http (post_step p s)) = h_listener (ep_http s) \<or>
     \<not> h_shutting_down (ep_http s) \<and>
     h_listener (ep_http (post_step p s)) = Some \<lparr>gl_session = h_session (ep_http s), gl_finished = False\<rparr>"
  "h_session (ep_http (post_step p s)) = h_session (ep_http s)"
  by (cases p; simp add: arm_supervisor_def repair_get_listener_if_ended_def replace_get_listener_after_recovery_def
      spawn_get_listener_def)+

lemma rebinding_post: "rebinding (post_step p s) = rebinding s"
  by (cases p) (auto simp: rebinding_def arm_supervisor_def ensure_supervisor_running_def split: option.splits)

lemma listener_ok_post:
  assumes "listener_ok s"
  shows "listener_ok (post_step p s)"
proof -
  consider "h_listener (ep_http (post_step p s)) = h_listener (ep_http s)"
    | "\<not> h_shutting_down (ep_http s)" "bound (ep_http (post_step p s))"
    using post_listener(1) [of p s] by (auto simp: bound_def post_listener(2))
  then show ?thesis
  proof cases
    case 1
    with assms bound_same [OF 1 post_listener(2)] show ?thesis
      by (simp add: listener_ok_def rebinding_post post_http(3,4))
  next
    case 2
    then show ?thesis by (simp add: listener_ok_def post_http(3))
  qed
qed

lemma listener_ok_posts: "listener_ok (s\<lparr>ep_posts := ps\<rparr>) = listener_ok s"
  by (simp add: listener_ok_def rebinding_def)

lemma listener_ok_owner:
  assumes ok: "listener_ok s" and sd: "shutdown_ok s"
  shows "listener_ok (owner_step cfg inp (ep_owner s) s)"
proof (cases "\<exists>hs. ep_owner s = OwnerHandshake hs \<and> (\<forall>out. hs \<noteq> HsDone out)")
  case True
  then obtain hs where hs: "ep_owner s = OwnerHandshake hs" "\<forall>out. hs \<noteq> HsDone out" by blast
  obtain h' hs' where step: "handshake_step cfg False inp hs (ep_http s) = (h', hs')" by fastforce
  have run: "\<not> h_shutting_down (ep_http s)" using sd hs(1) by (auto simp: shutdown_ok_def stopping_def)
  have sup: "rebinding s = ((\<exists>hs. ep_supervisor s = Some (SupHandshake hs) \<and> between_session_and_listener hs) \<or>
      between_session_and_listener hs)" using hs(1) by (simp add: rebinding_def)
  have stepped: "owner_step cfg inp (ep_owner s) s = s\<lparr>ep_http := h', ep_owner := OwnerHandshake hs'\<rparr>"
    using owner_handshakes [OF hs(2)] hs(1) step by simp
  show ?thesis
  proof (cases "\<exists>hs. ep_supervisor s = Some (SupHandshake hs) \<and> between_session_and_listener hs")
    case True
    then show ?thesis using handshake_keeps [OF step] run by (simp add: stepped listener_ok_def rebinding_def)
  next
    case False
    with ok run sup have "bound (ep_http s) \<or> between_session_and_listener hs" by (simp add: listener_ok_def)
    from handshake_binds [OF step run this] handshake_keeps [OF step] run show ?thesis
      by (auto simp: stepped listener_ok_def rebinding_def)
  qed
next
  case False
  show ?thesis
  proof (cases "ep_owner s")
    case OwnerArm
    with ok show ?thesis
      by (auto simp: listener_ok_def rebinding_def arm_supervisor_def ensure_supervisor_running_def bound_def split: option.splits)
  next
    case OwnerEnsure
    with ok show ?thesis
      by (auto simp: listener_ok_def rebinding_def ensure_supervisor_running_def bound_def split: option.splits)
  next
    case OwnerAbort
    with ok sd show ?thesis by (simp add: listener_ok_def rebinding_def shutdown_ok_def stopping_def)
  qed (use False ok sd in \<open>auto simp: listener_ok_def rebinding_def bound_def shutdown_ok_def stopping_def
      split: handshake.splits handshake_outcome.splits\<close>)
qed

lemma listener_ok_supervise:
  assumes ok: "listener_ok s" and sd: "shutdown_ok s" and sup: "ep_supervisor s = Some pc"
    and step: "supervisor_step cfg locked now inp pc (ep_http s) = (h', pc')"
  shows "listener_ok (s\<lparr>ep_http := h', ep_supervisor := Some pc'\<rparr>)"
proof (cases "h_shutting_down (ep_http s)")
  case True
  then have "ep_owner s = OwnerAbort" using sd sup by (auto simp: shutdown_ok_def)
  then show ?thesis using True supervisor_keeps [OF step] by (simp add: listener_ok_def)
next
  case False
  show ?thesis
  proof (cases "\<exists>hs. ep_owner s = OwnerHandshake hs \<and> between_session_and_listener hs")
    case True
    then show ?thesis using False supervisor_keeps [OF step] by (simp add: listener_ok_def rebinding_def)
  next
    case owner: False
    have "bound (ep_http s) \<or> (\<exists>hs. pc = SupHandshake hs \<and> between_session_and_listener hs)"
      using ok False owner sup by (auto simp: listener_ok_def rebinding_def)
    from supervisor_binds [OF step False this] show ?thesis
      using False supervisor_keeps [OF step] by (auto simp: listener_ok_def rebinding_def)
  qed
qed

lemma listener_ok_step:
  assumes ok: "listener_ok s" and sd: "shutdown_ok s"
  shows "listener_ok (endpoint_step cfg ev s)"
proof (cases ev)
  case RequestOk
  obtain h' ps where q: "note_request_success (ep_http s) = (h', ps)" by fastforce
  with listener_ok_request [OF ok, of h' "ep_posts s @ ps"] requests_bind(1) [OF q] requests_keep(1) [OF q] RequestOk
  show ?thesis by simp
next
  case RequestDead
  obtain h' ps where q: "note_transport_failure (ep_http s) = (h', ps)" by fastforce
  with listener_ok_request [OF ok, of h' "ep_posts s @ ps"] requests_bind(2) [OF q] requests_keep(2) [OF q] RequestDead
  show ?thesis by simp
next
  case (Finish i)
  with ok show ?thesis by (simp add: listener_ok_post listener_ok_posts)
next
  case (Supervise now inp)
  with ok sd show ?thesis
    by (auto simp: listener_ok_supervise split: option.splits prod.splits simp del: supervisor_step.simps)
next
  case (Owner inp)
  with ok sd show ?thesis by (simp add: listener_ok_owner)
next
  case Initialize
  with ok sd show ?thesis by (auto simp: listener_ok_def rebinding_def bound_def shutdown_ok_def stopping_def)
next
  case Shutdown
  with ok show ?thesis by (auto simp: listener_ok_def)
next
  case (StreamAnswered b)
  with ok show ?thesis by (auto simp: listener_ok_def rebinding_def bound_def end_listener_def Let_def)
next
  case StreamEnded
  with ok show ?thesis by (auto simp: listener_ok_def rebinding_def bound_def end_listener_def)
qed

text \<open>The listener is on the session the requests use: in every run of an endpoint that is not shutting down, the
  listener was opened on the session now stored, except between a handshake's storing a new session and its opening
  the new listener; and once a shutdown has drained the listener none comes back before the next
  \<^verbatim>\<open>initialize\<close>, whatever requests and recoveries are still in flight.
\<close>

theorem listener_on_current_session:
  "(h_shutting_down (ep_http (run_endpoint cfg es new_endpoint)) \<or> rebinding (run_endpoint cfg es new_endpoint) \<or>
      bound (ep_http (run_endpoint cfg es new_endpoint))) \<and>
   (\<not> h_shutting_down (ep_http (run_endpoint cfg es new_endpoint)) \<or>
      ep_owner (run_endpoint cfg es new_endpoint) \<in> {OwnerAbort, OwnerDrain} \<or>
      h_listener (ep_http (run_endpoint cfg es new_endpoint)) = None)"
proof -
  have "(\<lambda>s. shutdown_ok s \<and> listener_ok s) (apply_all (endpoint_step cfg) es new_endpoint)"
    by (rule apply_all_invariant)
      (simp_all add: shutdown_ok_step listener_ok_step del: endpoint_step.simps,
       simp add: shutdown_ok_def listener_ok_def bound_def stopping_def)
  then show ?thesis by (auto simp: run_endpoint_def listener_ok_def)
qed

lemma listener_on_current_session_witness:
  "h_listener (ep_http (run_endpoint \<lparr>hc_override = None, hc_message = (\<lambda>e. '''')\<rparr>
     [Shutdown, Owner Go, Owner Go] new_endpoint)) = None"
proof -
  let ?s = "run_endpoint \<lparr>hc_override = None, hc_message = (\<lambda>e. '''')\<rparr> [Shutdown, Owner Go, Owner Go] new_endpoint"
  have "h_shutting_down (ep_http ?s)" "ep_owner ?s = OwnerReset" by (simp_all add: run_endpoint_def)
  with listener_on_current_session [of "\<lparr>hc_override = None, hc_message = (\<lambda>e. '''')\<rparr>" "[Shutdown, Owner Go, Owner Go]"]
  show ?thesis by simp
qed

section \<open>Overtaken attempts\<close>

text \<open>A supervisor that has not sent its \<^verbatim>\<open>initialize\<close> yet, nor committed a discovered 2026 upstream.\<close>

fun before_commit :: "supervisor \<Rightarrow> bool" where
  "before_commit (SupHandshake hs) =
     (case hs of HsProbe \<Rightarrow> True | HsProbed d \<Rightarrow> True | HsCommit2026 idn \<Rightarrow> True | HsSend d \<Rightarrow> True
      | HsDone Obsolete \<Rightarrow> True | HsDone (Failed e) \<Rightarrow> True | HsDone Completed \<Rightarrow> True | _ \<Rightarrow> False)"
| "before_commit pc = True"

text \<open>What requests see of the adapter.\<close>

definition visible :: "http \<Rightarrow> health_status \<times> u64 \<times> string option \<times> string option \<times> string option \<times> protocol_version \<times> bool \<times> u64 \<times> nat" where
  "visible h = (h_health h, h_failures h, h_server_type h, h_upstream_name h, h_session h, h_dialect h, h_permanent h,
     h_generation h, h_ticks h)"

lemma overtaken_step:
  assumes step: "supervisor_step cfg locked now inp pc h = (h', pc')" and well: "\<not> unhealthy h" and early: "before_commit pc"
  shows "visible h' = visible h \<and> before_commit pc'"
proof (cases "\<exists>hs. pc = SupHandshake hs \<and> (\<forall>out. hs \<noteq> HsDone out)")
  case True
  then obtain hs where hs: "pc = SupHandshake hs" "\<And>out. hs \<noteq> HsDone out" by blast
  from supervisor_handshakes [OF step [unfolded hs(1)] hs(2)] show ?thesis
    using well early hs
    by (cases hs) (auto simp: stand_down_unless_unhealthy_def reset_backoff_def visible_def commit_2026_handshake_def
        split: if_splits input.splits)
next
  case False
  with step well early show ?thesis
    by (cases pc)
      (auto simp: stand_down_unless_unhealthy_def stood_down_on_permanent_failure_def record_attempt_def reset_backoff_def
        replace_get_listener_after_recovery_def spawn_get_listener_def visible_def
        split: if_splits handshake.splits handshake_outcome.splits input.splits)
qed

fun supervises :: "happening \<Rightarrow> bool" where
  "supervises (Supervise now inp) = True"
| "supervises ev = False"

lemma overtaken_run:
  assumes "\<forall>e\<in>set es. supervises e" "ep_supervisor s = Some pc" "\<not> unhealthy (ep_http s)" "before_commit pc"
  shows "visible (ep_http (run_endpoint cfg es s)) = visible (ep_http s) \<and>
    (\<exists>pc'. ep_supervisor (run_endpoint cfg es s) = Some pc' \<and> before_commit pc')"
  using assms
proof (induction es arbitrary: s pc)
  case Nil
  then show ?case by (simp add: run_endpoint_def)
next
  case (Cons e es)
  obtain now inp where e: "e = Supervise now inp" using Cons.prems(1) by (cases e) auto
  obtain h' pc' where step: "supervisor_step cfg (owner_holds_lock (ep_owner s)) now inp pc (ep_http s) = (h', pc')" by fastforce
  from overtaken_step [OF step Cons.prems(3,4)] have same: "visible h' = visible (ep_http s)" "before_commit pc'" by simp_all
  let ?s = "s\<lparr>ep_http := h', ep_supervisor := Some pc'\<rparr>"
  have "\<not> unhealthy (ep_http ?s)" using same(1) Cons.prems(3) by (simp add: visible_def unhealthy_def)
  then have "visible (ep_http (run_endpoint cfg es ?s)) = visible (ep_http ?s) \<and>
      (\<exists>pc'. ep_supervisor (run_endpoint cfg es ?s) = Some pc' \<and> before_commit pc')"
    using Cons.IH [of ?s pc'] Cons.prems(1) same(2) by simp
  moreover have "run_endpoint cfg (e # es) s = run_endpoint cfg es ?s"
    using e step Cons.prems(2) by (simp add: run_endpoint_def del: supervisor_step.simps)
  ultimately show ?case using same(1) by simp
qed

text \<open>An attempt the traffic has overtaken is harmless: once the adapter is not unhealthy any more, a supervisor that has
  not yet sent its \<^verbatim>\<open>initialize\<close> never sends it, however it goes on and whatever the dialect probe answers,
  even an invalid identity of a 2026 upstream: health, failure count, identity, session, dialect, the permanent latch, the
  recovery generation and the ticks stay what they were.
\<close>

theorem overtaken_attempt_harmless:
  assumes "\<forall>e\<in>set es. supervises e" "ep_supervisor s = Some pc" "\<not> unhealthy (ep_http s)" "before_commit pc"
  shows "visible (ep_http (run_endpoint cfg es s)) = visible (ep_http s) \<and>
    ep_supervisor (run_endpoint cfg es s) \<noteq> Some (SupHandshake (HsSent d))"
proof -
  from overtaken_run [OF assms, of cfg] obtain pc' where
    *: "visible (ep_http (run_endpoint cfg es s)) = visible (ep_http s)"
    "ep_supervisor (run_endpoint cfg es s) = Some pc'" "before_commit pc'" by blast
  from *(3) have "pc' \<noteq> SupHandshake (HsSent d)" by auto
  with * show ?thesis by simp
qed

lemma overtaken_attempt_harmless_witness:
  "visible (ep_http (run_endpoint \<lparr>hc_override = None, hc_message = (\<lambda>e. '''')\<rparr>
      [Supervise 0 (ProbeReply (Some (JObj [(''protocolVersion'', JStr ''2026-07-28'')]))), Supervise 1 Go, Supervise 2 Go]
      (new_endpoint\<lparr>ep_http := new_http\<lparr>h_health := Healthy, h_session := Some ''s1''\<rparr>,
         ep_supervisor := Some (SupHandshake HsProbe)\<rparr>))) =
    visible (new_http\<lparr>h_health := Healthy, h_session := Some ''s1''\<rparr>)"
  using overtaken_attempt_harmless [of
      "[Supervise 0 (ProbeReply (Some (JObj [(''protocolVersion'', JStr ''2026-07-28'')]))), Supervise 1 Go, Supervise 2 Go]"
      "new_endpoint\<lparr>ep_http := new_http\<lparr>h_health := Healthy, h_session := Some ''s1''\<rparr>,
         ep_supervisor := Some (SupHandshake HsProbe)\<rparr>" "SupHandshake HsProbe"
      "\<lparr>hc_override = None, hc_message = (\<lambda>e. '''')\<rparr>" None]
  by (simp del: run_endpoint_def supervisor_step.simps endpoint_step.simps)

end
