(* ===== verification/Rewrite.thy ===== *)
theory Rewrite
  imports Resource_Uri
begin

text \<open>
  The rewriting of resource pointers in results (\<^verbatim>\<open>src/tool_call_rewrite.rs\<close>): the enumerated URI slots
  of a tool descriptor, of a tool result and of a prompt are wrapped for the endpoint they came from,
  and everything else passes through. The traversals are stated over the function applied to a slot,
  so that wrapping, unwrapping and erasing the slots are instances of one walk.
\<close>

section \<open>In-place updates of JSON objects\<close>

text \<open>\<^verbatim>\<open>get_mut\<close> followed by a write: the member keeps its place.\<close>

fun at :: "string \<Rightarrow> (json \<Rightarrow> json) \<Rightarrow> (string \<times> json) list \<Rightarrow> (string \<times> json) list" where
  "at k h [] = []"
| "at k h (p # m) = (if fst p = k then (k, h (snd p)) # m else p # at k h m)"

fun on_obj :: "((string \<times> json) list \<Rightarrow> (string \<times> json) list) \<Rightarrow> json \<Rightarrow> json" where
  "on_obj h (JObj m) = JObj (h m)"
| "on_obj h j = j"

fun on_arr :: "(json list \<Rightarrow> json list) \<Rightarrow> json \<Rightarrow> json" where
  "on_arr h (JArr xs) = JArr (h xs)"
| "on_arr h j = j"

fun on_str :: "(string \<Rightarrow> string) \<Rightarrow> json \<Rightarrow> json" where
  "on_str f (JStr s) = JStr (f s)"
| "on_str f j = j"

lemma at_insert: "hm_get m k = Some v \<Longrightarrow> at k h m = hm_insert k (h v) m"
  by (induction m) (auto simp: hm_get_Cons split: if_splits)

lemma at_absent: "hm_get m k = None \<Longrightarrow> at k h m = m"
  by (induction m) (auto simp: hm_get_Cons split: if_splits)

lemma at_at [simp]: "at k h (at k h' m) = at k (h \<circ> h') m"
  by (induction m) auto

lemma at_commute: "k \<noteq> k' \<Longrightarrow> at k h (at k' h' m) = at k' h' (at k h m)"
  by (induction m) auto

lemma at_id: "(\<And>v. hm_get m k = Some v \<Longrightarrow> h v = v) \<Longrightarrow> at k h m = m"
  by (induction m) (auto simp: hm_get_Cons)

lemma at_cong: "(\<And>v. hm_get m k = Some v \<Longrightarrow> h v = h' v) \<Longrightarrow> at k h m = at k h' m"
  by (induction m) (auto simp: hm_get_Cons)

lemma hm_get_at: "hm_get (at k h m) k' = (if k' = k then map_option h (hm_get m k) else hm_get m k')"
  by (induction m) (auto simp: hm_get_Cons)

lemma on_obj_comp: "on_obj h (on_obj h' j) = on_obj (h \<circ> h') j"
  by (cases j) auto

lemma on_arr_comp: "on_arr h (on_arr h' j) = on_arr (h \<circ> h') j"
  by (cases j) auto

lemma on_str_comp: "on_str f (on_str g j) = on_str (f \<circ> g) j"
  by (cases j) auto

lemma on_str_comp_fun: "on_str f \<circ> on_str g = on_str (f \<circ> g)"
  by (rule ext) (simp add: on_str_comp)

section \<open>The walks\<close>

definition walk_meta :: "(string \<Rightarrow> string) \<Rightarrow> (string \<times> json) list \<Rightarrow> (string \<times> json) list" where
  "walk_meta f meta =
     at ''openai/outputTemplate'' (on_str f) (at ''ui'' (on_obj (at ''resourceUri'' (on_str f))) meta)"

definition block_kind :: "json \<Rightarrow> string" where
  "block_kind item = unwrap_or [] (Option.bind (json_get item ''type'') json_str)"

definition walk_block :: "(string \<Rightarrow> string) \<Rightarrow> json \<Rightarrow> json" where
  "walk_block f item =
     (if block_kind item = ''resource'' then on_obj (at ''resource'' (on_obj (at ''uri'' (on_str f)))) item
      else if block_kind item = ''resource_link'' then on_obj (at ''uri'' (on_str f)) item
      else item)"

definition walk_result :: "(string \<Rightarrow> string) \<Rightarrow> json \<Rightarrow> json" where
  "walk_result f =
     on_obj (\<lambda>m. at ''content'' (on_arr (map (walk_block f))) (at ''_meta'' (on_obj (walk_meta f)) m))"

definition walk_message :: "(string \<Rightarrow> string) \<Rightarrow> json \<Rightarrow> json" where
  "walk_message f = on_obj (at ''content'' (\<lambda>content.
     case content of JArr items \<Rightarrow> JArr (map (walk_block f) items)
       | JObj m \<Rightarrow> walk_block f content
       | _ \<Rightarrow> content))"

definition walk_prompt :: "(string \<Rightarrow> string) \<Rightarrow> json \<Rightarrow> json" where
  "walk_prompt f = on_obj (at ''messages'' (on_arr (map (walk_message f))))"

section \<open>The rewrites\<close>

type_synonym percent_encoder = "(nat \<Rightarrow> bool) \<Rightarrow> string \<Rightarrow> string"

definition rewrite_meta_ui_pointers ::
  "percent_encoder \<Rightarrow> (string \<times> json) list \<Rightarrow> string \<Rightarrow> (string \<times> json) list" where
  "rewrite_meta_ui_pointers enc meta endpoint =
     walk_meta (\<lambda>uri. maybe_encode_resource_uri enc endpoint uri False) meta"

definition rewrite_tool_call_result :: "percent_encoder \<Rightarrow> json \<Rightarrow> string \<Rightarrow> bool \<Rightarrow> json" where
  "rewrite_tool_call_result enc result endpoint skip_wrap =
     (if skip_wrap then result
      else walk_result (\<lambda>uri. maybe_encode_resource_uri enc endpoint uri False) result)"

definition rewrite_prompt_get_result :: "percent_encoder \<Rightarrow> json \<Rightarrow> string \<Rightarrow> bool \<Rightarrow> json" where
  "rewrite_prompt_get_result enc result endpoint skip_wrap =
     (if skip_wrap then result
      else walk_prompt (\<lambda>uri. maybe_encode_resource_uri enc endpoint uri False) result)"

section \<open>Laws of the walks\<close>

text \<open>A walk over the slots of a value: composition is pointwise, and a function that fixes every slot
  fixes the value. \<open>slots\<close> lists the URIs in the slots.\<close>

locale slot_walk =
  fixes walk :: "(string \<Rightarrow> string) \<Rightarrow> 'v \<Rightarrow> 'v"
    and slots :: "'v \<Rightarrow> string list"
  assumes walk_comp: "walk f (walk g v) = walk (f \<circ> g) v"
    and walk_fix: "(\<And>u. u \<in> set (slots v) \<Longrightarrow> f u = u) \<Longrightarrow> walk f v = v"
    and walk_slots: "slots (walk f v) = map f (slots v)"
begin

lemma walk_inverse:
  assumes "\<And>u. u \<in> set (slots v) \<Longrightarrow> g (f u) = u"
  shows "walk g (walk f v) = v"
  using assms by (simp add: walk_comp walk_fix)

lemma walk_erase: "walk (\<lambda>_. c) (walk f v) = walk (\<lambda>_. c) v"
  by (simp add: walk_comp comp_def)

lemma walk_untouched: "slots v = [] \<Longrightarrow> walk f v = v"
  by (rule walk_fix) simp

end

fun str_slots :: "json option \<Rightarrow> string list" where
  "str_slots (Some (JStr u)) = [u]"
| "str_slots _ = []"

definition meta_slots :: "(string \<times> json) list \<Rightarrow> string list" where
  "meta_slots m = str_slots (opt_get (hm_get m ''ui'') ''resourceUri'') @ str_slots (hm_get m ''openai/outputTemplate'')"

definition block_slots :: "json \<Rightarrow> string list" where
  "block_slots item =
     (if block_kind item = ''resource'' then str_slots (opt_get (json_get item ''resource'') ''uri'')
      else if block_kind item = ''resource_link'' then str_slots (json_get item ''uri'')
      else [])"

definition obj_slots :: "((string \<times> json) list \<Rightarrow> string list) \<Rightarrow> json option \<Rightarrow> string list" where
  "obj_slots g v = (case v of Some (JObj m) \<Rightarrow> g m | _ \<Rightarrow> [])"

definition arr_slots :: "(json \<Rightarrow> string list) \<Rightarrow> json option \<Rightarrow> string list" where
  "arr_slots g v = (case v of Some (JArr xs) \<Rightarrow> concat (map g xs) | _ \<Rightarrow> [])"

definition result_slots :: "json \<Rightarrow> string list" where
  "result_slots r = obj_slots meta_slots (json_get r ''_meta'') @ arr_slots block_slots (json_get r ''content'')"

definition message_slots :: "json \<Rightarrow> string list" where
  "message_slots msg =
     (case json_get msg ''content'' of
        Some (JObj m) \<Rightarrow> block_slots (JObj m)
      | v \<Rightarrow> arr_slots block_slots v)"

definition prompt_slots :: "json \<Rightarrow> string list" where
  "prompt_slots r = arr_slots message_slots (json_get r ''messages'')"

lemma json_get_on_obj_at:
  "json_get (on_obj (at k h) j) k' = (if k' = k then map_option h (json_get j k) else json_get j k')"
  by (cases j) (auto simp: hm_get_at)

lemma str_slots_map: "str_slots (map_option (on_str f) v) = map f (str_slots v)"
  by (cases v rule: str_slots.cases) auto

lemma on_str_fix: "(\<And>u. u \<in> set (str_slots (Some v)) \<Longrightarrow> f u = u) \<Longrightarrow> on_str f v = v"
  by (cases v) auto

lemma str_slot_walk:
  "at k (on_str f) (at k (on_str g) m) = at k (on_str (f \<circ> g)) m"
  by (simp add: on_str_comp_fun)

lemma opt_get_map: "opt_get (map_option h v) k = Option.bind v (\<lambda>x. json_get (h x) k)"
  by (cases v) auto

lemma str_slots_member:
  "str_slots (opt_get (map_option (on_obj (at k (on_str f))) v) k) = map f (str_slots (opt_get v k))"
  by (cases v) (auto simp: json_get_on_obj_at str_slots_map)

interpretation meta_walk: slot_walk walk_meta meta_slots
proof
  fix f g :: "string \<Rightarrow> string" and m
  show "walk_meta f (walk_meta g m) = walk_meta (f \<circ> g) m"
    by (simp add: walk_meta_def at_commute [of "''ui''" "''openai/outputTemplate''"] on_str_comp_fun
        on_obj_comp comp_def on_str_comp)
  show "meta_slots (walk_meta f m) = map f (meta_slots m)"
    by (simp add: meta_slots_def walk_meta_def hm_get_at str_slots_map str_slots_member)
  assume fix_slots: "\<And>u. u \<in> set (meta_slots m) \<Longrightarrow> f u = u"
  have "at ''ui'' (on_obj (at ''resourceUri'' (on_str f))) m = m"
  proof (rule at_id)
    fix v assume v: "hm_get m ''ui'' = Some v"
    show "on_obj (at ''resourceUri'' (on_str f)) v = v"
    proof (cases v)
      case (JObj ui)
      have "at ''resourceUri'' (on_str f) ui = ui"
        by (rule at_id, rule on_str_fix) (use fix_slots v JObj in \<open>auto simp: meta_slots_def\<close>)
      then show ?thesis using JObj by simp
    qed auto
  qed
  moreover have "at ''openai/outputTemplate'' (on_str f) m = m"
    by (rule at_id, rule on_str_fix) (use fix_slots in \<open>auto simp: meta_slots_def\<close>)
  ultimately show "walk_meta f m = m" by (simp add: walk_meta_def)
qed

lemma block_kind_keeps:
  "k \<noteq> ''type'' \<Longrightarrow> block_kind (on_obj (at k h) j) = block_kind j"
  by (simp add: block_kind_def json_get_on_obj_at)

lemma on_obj_at_fix:
  "(\<And>v. json_get j k = Some v \<Longrightarrow> h v = v) \<Longrightarrow> on_obj (at k h) j = j"
  by (cases j) (auto intro: at_id)

interpretation block_walk: slot_walk walk_block block_slots
proof
  fix f g :: "string \<Rightarrow> string" and b
  show "walk_block f (walk_block g b) = walk_block (f \<circ> g) b"
    by (simp add: walk_block_def block_kind_keeps on_obj_comp comp_def on_str_comp)
  show "block_slots (walk_block f b) = map f (block_slots b)"
    by (simp add: block_slots_def walk_block_def block_kind_keeps json_get_on_obj_at str_slots_map str_slots_member)
  assume fix_slots: "\<And>u. u \<in> set (block_slots b) \<Longrightarrow> f u = u"
  show "walk_block f b = b"
  proof -
    have "on_obj (at ''resource'' (on_obj (at ''uri'' (on_str f)))) b = b" if k: "block_kind b = ''resource''"
      by (intro on_obj_at_fix on_str_fix) (use fix_slots k in \<open>auto simp: block_slots_def\<close>)
    moreover have "on_obj (at ''uri'' (on_str f)) b = b" if k: "block_kind b = ''resource_link''"
      by (intro on_obj_at_fix on_str_fix) (use fix_slots k in \<open>auto simp: block_slots_def\<close>)
    ultimately show ?thesis by (simp add: walk_block_def)
  qed
qed

lemma map_walk_comp: "walk_block f \<circ> walk_block g = walk_block (f \<circ> g)"
  by (rule ext) (simp add: block_walk.walk_comp)

lemma arr_slots_blocks: "arr_slots block_slots (map_option (on_arr (map (walk_block f))) v) = map f (arr_slots block_slots v)"
proof (cases v)
  case None
  then show ?thesis by (simp add: arr_slots_def)
next
  case (Some j)
  then show ?thesis
    by (cases j) (simp_all add: arr_slots_def block_walk.walk_slots map_concat comp_def)
qed

lemma on_arr_blocks_fix:
  "(\<And>u. u \<in> set (arr_slots block_slots (Some j)) \<Longrightarrow> f u = u) \<Longrightarrow> on_arr (map (walk_block f)) j = j"
  by (cases j) (auto simp: arr_slots_def intro!: map_idI block_walk.walk_fix)

lemma on_obj_meta_fix:
  "(\<And>u. u \<in> set (obj_slots meta_slots (Some j)) \<Longrightarrow> f u = u) \<Longrightarrow> on_obj (walk_meta f) j = j"
  by (cases j) (auto simp: obj_slots_def intro: meta_walk.walk_fix)

lemma obj_slots_meta: "obj_slots meta_slots (map_option (on_obj (walk_meta f)) v) = map f (obj_slots meta_slots v)"
proof (cases v)
  case None
  then show ?thesis by (simp add: obj_slots_def)
next
  case (Some j)
  then show ?thesis by (cases j) (simp_all add: obj_slots_def meta_walk.walk_slots)
qed

lemma walk_result_get:
  "json_get (walk_result f r) ''_meta'' = map_option (on_obj (walk_meta f)) (json_get r ''_meta'')"
  "json_get (walk_result f r) ''content'' = map_option (on_arr (map (walk_block f))) (json_get r ''content'')"
  "k \<noteq> ''_meta'' \<Longrightarrow> k \<noteq> ''content'' \<Longrightarrow> json_get (walk_result f r) k = json_get r k"
  by (cases r; simp add: walk_result_def hm_get_at)+

interpretation result_walk: slot_walk walk_result result_slots
proof
  fix f g :: "string \<Rightarrow> string" and r
  have meta: "on_obj (walk_meta f) \<circ> on_obj (walk_meta g) = on_obj (walk_meta (f \<circ> g))"
    by (rule ext) (simp add: on_obj_comp comp_def meta_walk.walk_comp)
  have content: "on_arr (map (walk_block f)) \<circ> on_arr (map (walk_block g)) = on_arr (map (walk_block (f \<circ> g)))"
    by (rule ext) (simp add: on_arr_comp map_walk_comp)
  show "walk_result f (walk_result g r) = walk_result (f \<circ> g) r"
    by (cases r) (simp_all add: walk_result_def at_commute [of "''_meta''" "''content''"] meta content)
  show "result_slots (walk_result f r) = map f (result_slots r)"
    by (simp add: result_slots_def walk_result_get obj_slots_meta arr_slots_blocks)
  assume fix_slots: "\<And>u. u \<in> set (result_slots r) \<Longrightarrow> f u = u"
  show "walk_result f r = r"
  proof (cases r)
    case (JObj m)
    have "at ''_meta'' (on_obj (walk_meta f)) m = m"
      by (intro at_id on_obj_meta_fix) (use fix_slots JObj in \<open>auto simp: result_slots_def\<close>)
    moreover have "at ''content'' (on_arr (map (walk_block f))) m = m"
      by (intro at_id on_arr_blocks_fix) (use fix_slots JObj in \<open>auto simp: result_slots_def\<close>)
    ultimately show ?thesis using JObj by (simp add: walk_result_def)
  qed (auto simp: walk_result_def)
qed

section \<open>Prompts\<close>

definition walk_content :: "(string \<Rightarrow> string) \<Rightarrow> json \<Rightarrow> json" where
  "walk_content f content =
     (case content of JArr items \<Rightarrow> JArr (map (walk_block f) items) | JObj m \<Rightarrow> walk_block f content | _ \<Rightarrow> content)"

definition content_slots :: "json \<Rightarrow> string list" where
  "content_slots c = (case c of JObj m \<Rightarrow> block_slots c | JArr xs \<Rightarrow> concat (map block_slots xs) | _ \<Rightarrow> [])"

lemma walk_message_content: "walk_message f = on_obj (at ''content'' (walk_content f))"
  by (simp add: walk_message_def walk_content_def [abs_def])

lemma walk_block_obj: "\<exists>m'. walk_block f (JObj m) = JObj m'"
  by (auto simp: walk_block_def)

lemma walk_content_obj: "walk_content f (JObj m) = walk_block f (JObj m)"
  by (simp add: walk_content_def)

lemma content_slots_obj: "content_slots (walk_block f (JObj m)) = block_slots (walk_block f (JObj m))"
  using walk_block_obj [of f m] by (auto simp: content_slots_def)

interpretation content_walk: slot_walk walk_content content_slots
proof
  fix f g :: "string \<Rightarrow> string" and c
  show "walk_content f (walk_content g c) = walk_content (f \<circ> g) c"
  proof (cases c)
    case (JObj m)
    obtain m' where "walk_block g (JObj m) = JObj m'" using walk_block_obj by blast
    then show ?thesis using JObj block_walk.walk_comp [of f g "JObj m"] by (simp add: walk_content_obj)
  qed (auto simp: walk_content_def block_walk.walk_comp)
  show "content_slots (walk_content f c) = map f (content_slots c)"
  proof (cases c)
    case (JObj m)
    then show ?thesis
      by (simp add: walk_content_obj content_slots_obj block_walk.walk_slots) (simp add: content_slots_def)
  qed (auto simp: walk_content_def content_slots_def block_walk.walk_slots map_concat comp_def)
  assume "\<And>u. u \<in> set (content_slots c) \<Longrightarrow> f u = u"
  then show "walk_content f c = c"
    by (cases c) (auto simp: walk_content_def content_slots_def intro!: map_idI block_walk.walk_fix)
qed

lemma message_slots_content: "message_slots msg = (case json_get msg ''content'' of Some c \<Rightarrow> content_slots c | None \<Rightarrow> [])"
  by (auto simp: message_slots_def content_slots_def arr_slots_def split: option.splits json.splits)

interpretation message_walk: slot_walk walk_message message_slots
proof
  fix f g :: "string \<Rightarrow> string" and msg
  have "walk_content f \<circ> walk_content g = walk_content (f \<circ> g)"
    by (rule ext) (simp add: content_walk.walk_comp)
  then show "walk_message f (walk_message g msg) = walk_message (f \<circ> g) msg"
    by (cases msg) (simp_all add: walk_message_content)
  show "message_slots (walk_message f msg) = map f (message_slots msg)"
    by (simp add: message_slots_content walk_message_content json_get_on_obj_at content_walk.walk_slots
        split: option.splits)
  assume "\<And>u. u \<in> set (message_slots msg) \<Longrightarrow> f u = u"
  then show "walk_message f msg = msg"
    unfolding walk_message_content
    by (intro on_obj_at_fix content_walk.walk_fix) (auto simp: message_slots_content)
qed

interpretation prompt_walk: slot_walk walk_prompt prompt_slots
proof
  fix f g :: "string \<Rightarrow> string" and r
  have "on_arr (map (walk_message f)) \<circ> on_arr (map (walk_message g)) = on_arr (map (walk_message (f \<circ> g)))"
    by (rule ext) (simp add: on_arr_comp comp_def message_walk.walk_comp)
  then show "walk_prompt f (walk_prompt g r) = walk_prompt (f \<circ> g) r"
    by (cases r) (simp_all add: walk_prompt_def)
  show "prompt_slots (walk_prompt f r) = map f (prompt_slots r)"
  proof (cases "json_get r ''messages''")
    case None
    then show ?thesis by (simp add: prompt_slots_def walk_prompt_def json_get_on_obj_at arr_slots_def)
  next
    case (Some j)
    then show ?thesis
      by (cases j) (simp_all add: prompt_slots_def walk_prompt_def json_get_on_obj_at arr_slots_def
          message_walk.walk_slots map_concat comp_def)
  qed
  assume fix_slots: "\<And>u. u \<in> set (prompt_slots r) \<Longrightarrow> f u = u"
  have "on_arr (map (walk_message f)) v = v" if "json_get r ''messages'' = Some v" for v
    using fix_slots that
    by (cases v) (auto simp: prompt_slots_def arr_slots_def intro!: map_idI message_walk.walk_fix)
  then show "walk_prompt f r = r"
    unfolding walk_prompt_def by (rule on_obj_at_fix)
qed

text \<open>Rewriting a result touches the enumerated pointers and nothing else, and loses nothing. For an
  endpoint that can be routed to and results whose pointers are valid strings: each pointer of the
  rewritten tool result or prompt decodes to that endpoint and the pointer the upstream sent, in
  order; decoding the pointers in place gives the upstream's result back; members other than the
  metadata and the content are unchanged; and with one endpoint the result is passed through.\<close>

theorem rewrite_reversible:
  assumes "percent_codec enc dec" "routable ep" and utf8: "list_all is_utf8 (result_slots r @ prompt_slots r)"
  defines "undo \<equiv> (\<lambda>u. case decode_resource_uri dec u of Inr (_, original) \<Rightarrow> original | Inl _ \<Rightarrow> u)"
  shows "map (decode_resource_uri dec) (result_slots (rewrite_tool_call_result enc r ep False)) =
      map (\<lambda>u. Inr (ep, u)) (result_slots r) \<and>
    map (decode_resource_uri dec) (prompt_slots (rewrite_prompt_get_result enc r ep False)) =
      map (\<lambda>u. Inr (ep, u)) (prompt_slots r) \<and>
    walk_result undo (rewrite_tool_call_result enc r ep False) = r \<and>
    walk_prompt undo (rewrite_prompt_get_result enc r ep False) = r \<and>
    (k \<notin> {''_meta'', ''content''} \<longrightarrow> json_get (rewrite_tool_call_result enc r ep skip) k = json_get r k) \<and>
    rewrite_tool_call_result enc r ep True = r \<and> rewrite_prompt_get_result enc r ep True = r"
proof -
  have dec: "decode_resource_uri dec (maybe_encode_resource_uri enc ep u False) = Inr (ep, u)" if "is_utf8 u" for u
    using decode_wrapped [where S = encode_set, OF assms(1) percent_in_sets(1) assms(2) that]
    by (simp add: maybe_encode_resource_uri_def encode_resource_uri_def)
  have each: "is_utf8 u" if "u \<in> set (result_slots r) \<or> u \<in> set (prompt_slots r)" for u
    using utf8 that by (auto simp: list_all_iff)
  have undo: "undo (maybe_encode_resource_uri enc ep u False) = u" if "is_utf8 u" for u
    using dec [OF that] by (simp add: undo_def)
  show ?thesis
    using dec undo each walk_result_get(3)
    by (simp add: rewrite_tool_call_result_def rewrite_prompt_get_result_def result_walk.walk_slots
        prompt_walk.walk_slots result_walk.walk_inverse prompt_walk.walk_inverse)
qed

definition linked_result :: json where
  "linked_result = JObj [(''content'', JArr [JObj [(''type'', JStr ''resource_link''), (''uri'', JStr ''ui://a'')]])]"

theorem rewrite_reversible_witness:
  "map (decode_resource_uri pct_dec) (result_slots (rewrite_tool_call_result pct_enc linked_result ''work'' False)) =
     [Inr (''work'', ''ui://a'')]"
proof -
  have slots: "result_slots linked_result = [''ui://a'']" "prompt_slots linked_result = []"
    by (simp_all add: linked_result_def result_slots_def prompt_slots_def obj_slots_def arr_slots_def
        block_slots_def block_kind_def hm_get_Cons)
  show ?thesis
    using rewrite_reversible [OF pct.percent_codec_axioms, of "''work''" linked_result, THEN conjunct1]
    by (simp add: slots routable_def is_ascii_utf8 is_ascii_def byte_def)
qed

end
