(* ===== verification/Schema_Check.thy ===== *)
theory Schema_Check
  imports Text
begin

text \<open>
  The schema gate in front of a tool call (\<^verbatim>\<open>src/registry.rs\<close>): which input schemas are worth
  compiling, how the errors of a validation become the model-facing result, and the lookups the
  messages use. Building a validator and running it (the \<^verbatim>\<open>jsonschema\<close> crate) and the edit distance
  (\<^verbatim>\<open>strsim\<close>) are arguments.
\<close>

section \<open>Schemas worth compiling\<close>

definition nonempty_obj :: "json \<Rightarrow> bool" where
  "nonempty_obj v = (case json_obj v of Some m \<Rightarrow> m \<noteq> [] | None \<Rightarrow> False)"

definition nonempty_arr :: "json \<Rightarrow> bool" where
  "nonempty_arr v = (case json_arr v of Some xs \<Rightarrow> xs \<noteq> [] | None \<Rightarrow> False)"

fun is_number :: "json \<Rightarrow> bool" where
  "is_number (JNum n) = True"
| "is_number _ = False"

definition schema_keyword_constrains :: "string \<Rightarrow> json \<Rightarrow> bool" where
  "schema_keyword_constrains key v =
     (if key \<in> {''properties'', ''patternProperties'', ''dependentRequired'', ''dependentSchemas'', ''dependencies''}
      then nonempty_obj v
      else if key \<in> {''required'', ''allOf'', ''anyOf'', ''oneOf'', ''enum''} then nonempty_arr v
      else if key \<in> {''additionalProperties'', ''unevaluatedProperties''} then v \<noteq> JBool True
      else if key = ''minProperties'' then (case json_u64 v of Some n \<Rightarrow> 0 < n | None \<Rightarrow> False)
      else if key = ''maxProperties'' then is_number v
      else if key = ''$ref'' then json_str v \<noteq> None
      else key \<in> {''not'', ''if'', ''propertyNames'', ''const''})"

definition schema_is_validatable :: "json \<Rightarrow> bool" where
  "schema_is_validatable schema =
     (case json_obj schema of
        None \<Rightarrow> False
      | Some obj \<Rightarrow>
         (case hm_get obj ''type'' of
            Some t \<Rightarrow> json_str t = Some ''object''
          | None \<Rightarrow> True) \<and>
         list_ex (\<lambda>(key, v). schema_keyword_constrains key v) obj)"

text \<open>\<open>build\<close> is the validator builder with the retriever that refuses external references.\<close>

definition compile_input_schema :: "(json \<Rightarrow> 'v option) \<Rightarrow> json \<Rightarrow> 'v option" where
  "compile_input_schema build schema = (if schema_is_validatable schema then build schema else None)"

section \<open>Reporting\<close>

definition bullet :: string where
  "bullet = map char_of [226, 128, 162, 32 :: nat]"

definition newline :: string where
  "newline = [char_of (10 :: nat)]"

definition format_validation_message :: "string \<Rightarrow> string list \<Rightarrow> string" where
  "format_validation_message prefixed_name errors =
     ''Input validation failed for tool '' @ [CHR 0x27] @ prefixed_name @ [CHR 0x27] @ '':'' @ newline @ newline
     @ concat (map (\<lambda>e. bullet @ e @ newline) errors)
     @ newline @ ''Please correct these fields and try again.''"

text \<open>\<^verbatim>\<open>retain\<close> with a set of the messages seen so far: the first occurrence of each stays.\<close>

fun keep_first :: "string list \<Rightarrow> string list \<Rightarrow> string list" where
  "keep_first seen [] = []"
| "keep_first seen (e # es) =
     (if e \<in> set seen then keep_first seen es else e # keep_first (e # seen) es)"

definition validate_with_validator ::
  "('v \<Rightarrow> json \<Rightarrow> json \<Rightarrow> string list) \<Rightarrow> string \<Rightarrow> 'v \<Rightarrow> json \<Rightarrow> json \<Rightarrow> (json \<times> string) option" where
  "validate_with_validator iter_errors nm validator schema arguments =
     (case iter_errors validator schema arguments of
        [] \<Rightarrow> None
      | errors \<Rightarrow>
         (let text = format_validation_message nm (keep_first [] errors)
          in Some (JObj [(''content'', JArr [JObj [(''type'', JStr ''text''), (''text'', JStr text)]]),
                         (''isError'', JBool True)], text)))"

lemma set_keep_first: "set (keep_first seen es) = set es - set seen"
  by (induction es arbitrary: seen) auto

lemma distinct_keep_first: "distinct (keep_first seen es)"
  by (induction es arbitrary: seen) (auto simp: set_keep_first)

lemma keep_first_id: "distinct es \<Longrightarrow> set es \<inter> set seen = {} \<Longrightarrow> keep_first seen es = es"
  by (induction es arbitrary: seen) auto

section \<open>Lookups for the messages\<close>

datatype segment = Property string | Index nat

definition next_schema :: "json \<Rightarrow> segment \<Rightarrow> json option" where
  "next_schema current seg =
     (case seg of
        Property nm \<Rightarrow>
          Option.bind (Option.bind (json_get current ''properties'') json_obj) (\<lambda>props. hm_get props nm)
      | Index i \<Rightarrow> (case json_get current ''items'' of
            Some items \<Rightarrow> if json_obj items \<noteq> None then Some items else None
          | None \<Rightarrow> None))"

fun walk_segments :: "json \<Rightarrow> json \<Rightarrow> segment list \<Rightarrow> json" where
  "walk_segments root current [] = current"
| "walk_segments root current (s # ss) =
     (case next_schema current s of Some n \<Rightarrow> walk_segments root n ss | None \<Rightarrow> root)"

definition subschema_for_segments :: "json \<Rightarrow> segment list \<Rightarrow> json" where
  "subschema_for_segments root segments = walk_segments root root segments"

definition schema_property_names :: "json \<Rightarrow> string list" where
  "schema_property_names schema =
     (case Option.bind (json_get schema ''properties'') json_obj of Some m \<Rightarrow> map fst m | None \<Rightarrow> [])"

definition enum_string_variants :: "json \<Rightarrow> string list" where
  "enum_string_variants options =
     (case json_arr options of Some vs \<Rightarrow> List.map_filter json_str vs | None \<Rightarrow> [])"

definition string_len :: "json \<Rightarrow> nat" where
  "string_len v = (case json_str v of Some s \<Rightarrow> length (chars s) | None \<Rightarrow> 0)"

definition array_len :: "json \<Rightarrow> nat" where
  "array_len v = (case json_arr v of Some xs \<Rightarrow> length xs | None \<Rightarrow> 0)"

definition SUGGESTION_MAX_DISTANCE :: nat where
  "SUGGESTION_MAX_DISTANCE = 2"

text \<open>\<^verbatim>\<open>min_by\<close> keeps the first of equal minima; the order is distance, then the name bytewise
  (\<open>lt\<close>).\<close>

fun min_by :: "('a \<Rightarrow> 'a \<Rightarrow> bool) \<Rightarrow> 'a list \<Rightarrow> 'a option" where
  "min_by lt [] = None"
| "min_by lt (x # xs) =
     (case min_by lt xs of None \<Rightarrow> Some x | Some y \<Rightarrow> if lt y x then Some y else Some x)"

definition closest_match ::
  "(string \<Rightarrow> string \<Rightarrow> nat) \<Rightarrow> (string \<Rightarrow> string \<Rightarrow> bool) \<Rightarrow> string \<Rightarrow> string list \<Rightarrow> string option" where
  "closest_match distance name_less input candidates =
     map_option snd
       (min_by (\<lambda>a b. fst a < fst b \<or> fst a = fst b \<and> name_less (snd a) (snd b))
         (filter (\<lambda>p. fst p \<le> SUGGESTION_MAX_DISTANCE) (map (\<lambda>c. (distance input c, c)) candidates)))"

lemma min_by_in: "min_by lt xs = Some x \<Longrightarrow> x \<in> set xs"
  by (induction xs arbitrary: x) (auto split: option.splits if_splits)

lemma min_by_None: "min_by lt xs = None \<longleftrightarrow> xs = []"
  by (cases xs) (auto split: option.splits)

lemma min_by_least:
  assumes "min_by lt xs = Some x" "y \<in> set xs"
    and trans: "\<And>a b c. lt a b \<Longrightarrow> lt b c \<Longrightarrow> lt a c" and asym: "\<And>a b. lt a b \<Longrightarrow> \<not> lt b a"
    and total: "\<And>a b c. lt a b \<Longrightarrow> lt a c \<or> lt c b"
  shows "\<not> lt y x"
  using assms(1,2)
proof (induction xs arbitrary: x)
  case Nil
  then show ?case by simp
next
  case (Cons z zs)
  show ?case
  proof (cases "min_by lt zs")
    case None
    then have "zs = []" by (simp add: min_by_None)
    then show ?thesis using Cons.prems asym by auto
  next
    case (Some w)
    then have IH: "y \<in> set zs \<Longrightarrow> \<not> lt y w" using Cons.IH by blast
    show ?thesis
    proof (cases "lt w z")
      case True
      then have "x = w" using Some Cons.prems(1) by simp
      then show ?thesis using IH Cons.prems(2) True asym by auto
    next
      case False
      then have "x = z" using Some Cons.prems(1) by simp
      then show ?thesis using IH Cons.prems(2) False asym total by (metis set_ConsD)
    qed
  qed
qed

lemma closest_match_none:
  "closest_match d l input cs = None \<longleftrightarrow> list_all (\<lambda>c. SUGGESTION_MAX_DISTANCE < d input c) cs"
  by (induction cs) (auto simp: closest_match_def min_by_None split: if_splits)

lemma closest_match_in:
  "closest_match d l input cs = Some c \<Longrightarrow> c \<in> set cs \<and> d input c \<le> SUGGESTION_MAX_DISTANCE"
  by (auto simp: closest_match_def dest!: min_by_in)

end
