(* ===== verification/Registry.thy ===== *)
theory Registry
  imports Names Rewrite Schema_Check Sessions Adapter_Core "HOL-Library.List_Lexorder" "HOL-Library.Char_ord"
begin

text \<open>
  The adapter registry (\<^verbatim>\<open>src/registry.rs\<close>): the registered endpoints with their tool caches, the merged
  catalog with its reverse lookup, and the routing of tool calls, resources and prompts. An adapter is
  what its trait (\<^verbatim>\<open>McpAdapter\<close>) answers at the moment of the call. The order of the \<open>adapters\<close> list is the
  iteration order of the \<^verbatim>\<open>HashMap\<close>. Clock readings, fresh ids, the span context, the percent encoder and
  the schema validator are arguments.
\<close>

section \<open>State\<close>

record adapter_view =
  av_health :: health_status
  av_health_after :: health_status
  av_list_tools :: "adapter_error + tool_info list"
  av_ttl_ms :: "u64 option"
  av_resources :: "adapter_error + json list"
  av_templates :: "adapter_error + json list"
  av_prompts :: "adapter_error + json list"
  av_call :: "string \<Rightarrow> json \<Rightarrow> (string \<times> json) list \<Rightarrow> adapter_error + json"
  av_read :: "string \<Rightarrow> adapter_error + json"
  av_get_prompt :: "string \<Rightarrow> json option \<Rightarrow> adapter_error + json"
  av_server_type :: "string option"
  av_upstream_name :: "string option"
  av_configured_type :: "string option"

record cached_tools =
  ct_tools :: "tool_info list"
  ct_expires_at :: "nat option"

record registered_adapter =
  ra_adapter :: adapter_view
  ra_transport :: string
  ra_description :: "string option"
  ra_tool_prefix :: "string option"
  ra_disabled :: bool
  ra_disabled_tools :: "string list"
  ra_tool_cache :: "cached_tools option"
  ra_cache_epoch :: u64

type_synonym adapters = "(string, registered_adapter) hashmap"
type_synonym tool_lookup = "(string, string \<times> string) hashmap"
type_synonym catalog = "tool_info list \<times> tool_lookup"

record 'v registry =
  r_adapters :: adapters
  r_catalog_cache :: "catalog option"
  r_generation :: u64
  r_schema_cache :: "(string, 'v option) hashmap"
  r_validate_inputs :: bool
  r_ticks :: "string list"

definition new_registry :: "'v registry" where
  "new_registry = \<lparr>r_adapters = [], r_catalog_cache = None, r_generation = 0, r_schema_cache = [],
     r_validate_inputs = True, r_ticks = []\<rparr>"

definition RELAY_WIDE_TOOLS_CHANGED :: string where
  "RELAY_WIDE_TOOLS_CHANGED = ''*''"

section \<open>Caches\<close>

definition is_fresh :: "nat \<Rightarrow> cached_tools \<Rightarrow> bool" where
  "is_fresh now c = (case ct_expires_at c of None \<Rightarrow> True | Some deadline \<Rightarrow> now < deadline)"

text \<open>\<^verbatim>\<open>Instant::checked_add\<close>: the seconds of an instant are a signed 64-bit integer.\<close>

definition instant_limit :: nat where
  "instant_limit = 2 ^ 63 * 1000000000"

definition ttl_expiry :: "nat \<Rightarrow> adapter_view \<Rightarrow> nat option" where
  "ttl_expiry now a =
     Option.bind (av_ttl_ms a) (\<lambda>ms. let t = now + unat ms * 1000000 in if t < instant_limit then Some t else None)"

definition store_if_epoch_unchanged ::
  "u64 \<Rightarrow> tool_info list \<Rightarrow> nat option \<Rightarrow> registered_adapter \<Rightarrow> registered_adapter" where
  "store_if_epoch_unchanged epoch_before tools expires_at e =
     (if ra_cache_epoch e = epoch_before
      then e\<lparr>ra_tool_cache := Some \<lparr>ct_tools = tools, ct_expires_at = expires_at\<rparr>\<rparr> else e)"

definition invalidate_tool_cache :: "registered_adapter \<Rightarrow> registered_adapter" where
  "invalidate_tool_cache e = e\<lparr>ra_tool_cache := None, ra_cache_epoch := ra_cache_epoch e + 1\<rparr>"

definition cached_list_tools ::
  "nat \<Rightarrow> registered_adapter \<Rightarrow> registered_adapter \<times> (adapter_error + tool_info list)" where
  "cached_list_tools now e =
     (let a = ra_adapter e;
          hit = (if av_health a = Healthy
                 then Option.bind (ra_tool_cache e) (\<lambda>c. if is_fresh now c then Some (ct_tools c) else None)
                 else None)
      in case hit of
           Some tools \<Rightarrow> (e, Inr tools)
         | None \<Rightarrow>
            (case av_list_tools a of
               Inl err \<Rightarrow> (e, Inl err)
             | Inr tools \<Rightarrow>
                (if av_health a = Healthy \<or> av_health_after a = Healthy
                 then (store_if_epoch_unchanged (ra_cache_epoch e) tools (ttl_expiry now a) e, Inr tools)
                 else (e, Inr tools))))"

definition invalidate_all_tool_caches :: "'v registry \<Rightarrow> 'v registry" where
  "invalidate_all_tool_caches r =
     r\<lparr>r_adapters := map (\<lambda>(n, e). (n, invalidate_tool_cache e)) (r_adapters r)\<rparr>"

definition invalidate_catalog_cache :: "'v registry \<Rightarrow> 'v registry" where
  "invalidate_catalog_cache r =
     (invalidate_all_tool_caches r)
       \<lparr>r_catalog_cache := None, r_generation := r_generation r + 1, r_schema_cache := []\<rparr>"

definition invalidate_endpoint_tool_cache :: "string \<Rightarrow> 'v registry \<Rightarrow> 'v registry" where
  "invalidate_endpoint_tool_cache nm r =
     (case hm_get (r_adapters r) nm of
        Some e \<Rightarrow> r\<lparr>r_adapters := hm_insert nm (invalidate_tool_cache e) (r_adapters r)\<rparr>
      | None \<Rightarrow> r)\<lparr>r_catalog_cache := None, r_generation := r_generation r + 1\<rparr>"

section \<open>Registration\<close>

definition tick_tools_changed :: "string \<Rightarrow> 'v registry \<Rightarrow> 'v registry" where
  "tick_tools_changed endpoint r = r\<lparr>r_ticks := r_ticks r @ [endpoint]\<rparr>"

definition register_adapter ::
  "string \<Rightarrow> adapter_view \<Rightarrow> string \<Rightarrow> string option \<Rightarrow> string option \<Rightarrow> 'v registry \<Rightarrow> 'v registry" where
  "register_adapter nm a transport description tool_prefix r =
     tick_tools_changed nm (invalidate_catalog_cache (r\<lparr>r_adapters := hm_insert nm
       \<lparr>ra_adapter = a, ra_transport = transport, ra_description = description, ra_tool_prefix = tool_prefix,
        ra_disabled = False, ra_disabled_tools = [], ra_tool_cache = None, ra_cache_epoch = 0\<rparr> (r_adapters r)\<rparr>))"

definition remove_adapter :: "string \<Rightarrow> 'v registry \<Rightarrow> 'v registry \<times> registered_adapter option" where
  "remove_adapter nm r =
     (case hm_get (r_adapters r) nm of
        None \<Rightarrow> (r, None)
      | Some e \<Rightarrow>
         (tick_tools_changed nm (invalidate_catalog_cache (r\<lparr>r_adapters := hm_remove nm (r_adapters r)\<rparr>)), Some e))"

text \<open>One round of the listener of an adapter's tools-changed ticks (a lagged receiver is a tick).\<close>

definition tools_changed_tick :: "string \<Rightarrow> 'v registry \<Rightarrow> 'v registry" where
  "tools_changed_tick endpoint r =
     tick_tools_changed endpoint (invalidate_catalog_cache (invalidate_endpoint_tool_cache endpoint r))"

section \<open>Counting\<close>

definition enabled :: "adapters \<Rightarrow> adapters" where
  "enabled m = filter (\<lambda>(n, e). \<not> ra_disabled e) m"

definition enabled_in :: "string set \<Rightarrow> adapters \<Rightarrow> adapters" where
  "enabled_in allowed m = filter (\<lambda>(n, e). \<not> ra_disabled e \<and> n \<in> allowed) m"

definition active_endpoint_count_in :: "string set \<Rightarrow> 'v registry \<Rightarrow> nat" where
  "active_endpoint_count_in allowed r = length (enabled_in allowed (r_adapters r))"

definition all_endpoint_count :: "'v registry \<Rightarrow> nat" where
  "all_endpoint_count r = length (enabled (r_adapters r))"

definition find_single_active_endpoint_in :: "string set \<Rightarrow> 'v registry \<Rightarrow> string option" where
  "find_single_active_endpoint_in allowed r =
     (case enabled_in allowed (r_adapters r) of [p] \<Rightarrow> Some (fst p) | _ \<Rightarrow> None)"

definition list_healthy :: "'v registry \<Rightarrow> string list" where
  "list_healthy r = map fst (filter (\<lambda>(n, e). av_health (ra_adapter e) = Healthy) (r_adapters r))"

definition lowercase :: "string \<Rightarrow> string" where
  "lowercase s = utf8 (concat (map lower_char (chars s)))"

text \<open>A \<^verbatim>\<open>BTreeSet\<close>: sorted, without duplicates.\<close>

definition type_set :: "adapters \<Rightarrow> string list" where
  "type_set m = sort (remdups (map lowercase (List.map_filter
     (\<lambda>(n, e). option_or (av_server_type (ra_adapter e)) (av_configured_type (ra_adapter e))) m)))"

definition all_server_types :: "'v registry \<Rightarrow> string list" where
  "all_server_types r = type_set (enabled (r_adapters r))"

definition endpoint_count_in :: "string set \<Rightarrow> 'v registry \<Rightarrow> nat" where
  "endpoint_count_in allowed r = length (enabled_in allowed (r_adapters r))"

definition healthy_only :: "adapters \<Rightarrow> adapters" where
  "healthy_only m = filter (\<lambda>(n, e). av_health (ra_adapter e) = Healthy) m"

definition ready_server_types :: "'v registry \<Rightarrow> string list" where
  "ready_server_types r = sort (remdups (map lowercase
     (List.map_filter (\<lambda>(n, e). av_server_type (ra_adapter e)) (healthy_only (r_adapters r)))))"

definition ready_endpoint_count :: "'v registry \<Rightarrow> nat" where
  "ready_endpoint_count r = length (healthy_only (r_adapters r))"

definition server_types_in :: "string set \<Rightarrow> 'v registry \<Rightarrow> string list" where
  "server_types_in allowed r = type_set (enabled_in allowed (r_adapters r))"

section \<open>The merged catalog\<close>

definition effective_prefix :: "bool \<Rightarrow> registered_adapter \<Rightarrow> string option" where
  "effective_prefix skip e = (if skip then None else ra_tool_prefix e)"

definition namespaced :: "string option \<Rightarrow> string \<Rightarrow> string" where
  "namespaced prefix nm = (case prefix of Some pfx \<Rightarrow> encode_tool_name pfx None nm | None \<Rightarrow> nm)"

definition UNAVAILABLE :: string where
  "UNAVAILABLE = ''['' @ map char_of [226, 154, 160, 239, 184, 143 :: nat] @ '' UNAVAILABLE] ''"

definition enriched_description :: "bool \<Rightarrow> string \<Rightarrow> string option \<Rightarrow> string" where
  "enriched_description is_healthy label desc =
     (if is_healthy then [] else UNAVAILABLE) @ ''['' @ label @ '']'' @
     (case desc of Some d \<Rightarrow> '' '' @ d | None \<Rightarrow> [])"

definition catalog_row :: "percent_encoder \<Rightarrow> bool \<Rightarrow> string \<Rightarrow> registered_adapter \<Rightarrow> tool_info \<Rightarrow> tool_info" where
  "catalog_row enc skip ep e t =
     t\<lparr>ti_name := namespaced (effective_prefix skip e) (ti_name t),
       ti_description := Some (enriched_description (av_health (ra_adapter e) = Healthy)
         (unwrap_or ep (ra_description e)) (ti_description t)),
       ti_meta := (if skip then ti_meta t
         else map_option (on_obj (\<lambda>m. rewrite_meta_ui_pointers enc m ep)) (ti_meta t))\<rparr>"

definition visible_tools :: "registered_adapter \<Rightarrow> tool_info list \<Rightarrow> tool_info list" where
  "visible_tools e tools = filter (\<lambda>t. ti_name t \<notin> set (ra_disabled_tools e)) tools"

definition entry_rows ::
  "percent_encoder \<Rightarrow> nat \<Rightarrow> bool \<Rightarrow> string \<times> registered_adapter \<Rightarrow>
   (string \<times> registered_adapter) \<times> (tool_info \<times> string \<times> string) list" where
  "entry_rows enc now skip p =
     (let (ep, e) = p in
      if ra_disabled e then (p, [])
      else (let (e', listed) = cached_list_tools now e in
            ((ep, e'),
             case listed of
               Inr tools \<Rightarrow> map (\<lambda>t. (catalog_row enc skip ep e t, ep, ti_name t)) (visible_tools e tools)
             | Inl _ \<Rightarrow> [])))"

definition skip_prefix :: "adapters \<Rightarrow> bool" where
  "skip_prefix m = (length (enabled m) \<le> 1)"

definition rows_of :: "percent_encoder \<Rightarrow> nat \<Rightarrow> adapters \<Rightarrow> (tool_info \<times> string \<times> string) list" where
  "rows_of enc now m = concat (map (\<lambda>p. snd (entry_rows enc now (skip_prefix m) p)) m)"

definition build_catalog :: "percent_encoder \<Rightarrow> nat \<Rightarrow> adapters \<Rightarrow> adapters \<times> catalog" where
  "build_catalog enc now m =
     (map (\<lambda>p. fst (entry_rows enc now (skip_prefix m) p)) m,
      (sort_key ti_name (map fst (rows_of enc now m)),
       fold (\<lambda>(t, owner) lookup. hm_insert (ti_name t) owner lookup) (rows_of enc now m) []))"

text \<open>The rebuild is stored only if no invalidation bumped the generation while it ran; \<open>r\<close> is the
  registry the rebuild read, \<open>r'\<close> the one it is stored into.\<close>

definition store_catalog :: "u64 \<Rightarrow> catalog \<Rightarrow> 'v registry \<Rightarrow> 'v registry" where
  "store_catalog generation_before c r' =
     (if r_generation r' = generation_before then r'\<lparr>r_catalog_cache := Some c\<rparr> else r')"

definition refresh_catalog :: "percent_encoder \<Rightarrow> nat \<Rightarrow> 'v registry \<Rightarrow> 'v registry \<times> catalog" where
  "refresh_catalog enc now r =
     (let (m, c) = build_catalog enc now (r_adapters r)
      in (store_catalog (r_generation r) c (r\<lparr>r_adapters := m\<rparr>), c))"

definition merged_catalog_with_lookup :: "percent_encoder \<Rightarrow> nat \<Rightarrow> 'v registry \<Rightarrow> 'v registry \<times> catalog" where
  "merged_catalog_with_lookup enc now r =
     (case r_catalog_cache r of Some c \<Rightarrow> (r, c) | None \<Rightarrow> refresh_catalog enc now r)"

section \<open>Switches\<close>

text \<open>The management handlers that flip an endpoint or a tool (\<^verbatim>\<open>src/management.rs\<close>): \<open>None\<close> is the
  not-found reply. \<open>down\<close> and \<open>up\<close> are what shutting down and initialising the adapter give: the
  adapter afterwards, and whether it worked. Writing the switches back to the configuration file is not
  part of the registry.\<close>

datatype switch_reply = Switched | ShutdownFailed adapter_error | InitializeFailed adapter_error

definition put_entry :: "string \<Rightarrow> registered_adapter \<Rightarrow> 'v registry \<Rightarrow> 'v registry" where
  "put_entry nm e r = r\<lparr>r_adapters := hm_insert nm e (r_adapters r)\<rparr>"

definition tick_if :: "bool \<Rightarrow> string \<Rightarrow> 'v registry \<Rightarrow> 'v registry" where
  "tick_if flipped nm r = (if flipped then tick_tools_changed nm r else r)"

definition disable_endpoint ::
  "(adapter_view \<Rightarrow> adapter_view \<times> (adapter_error + unit)) \<Rightarrow> string \<Rightarrow> 'v registry \<Rightarrow> 'v registry \<times> switch_reply option" where
  "disable_endpoint down nm r =
     (case hm_get (r_adapters r) nm of
        None \<Rightarrow> (r, None)
      | Some e \<Rightarrow>
         (let (a, res) = down (ra_adapter e)
          in case res of
               Inl err \<Rightarrow> (put_entry nm (e\<lparr>ra_adapter := a\<rparr>) r, Some (ShutdownFailed err))
             | Inr _ \<Rightarrow>
                (tick_if (\<not> ra_disabled e) nm (invalidate_catalog_cache
                   (put_entry nm (e\<lparr>ra_adapter := a, ra_disabled := True\<rparr>) r)), Some Switched)))"

definition enable_endpoint ::
  "(adapter_view \<Rightarrow> adapter_view \<times> (adapter_error + unit)) \<Rightarrow> string \<Rightarrow> 'v registry \<Rightarrow> 'v registry \<times> switch_reply option" where
  "enable_endpoint up nm r =
     (case hm_get (r_adapters r) nm of
        None \<Rightarrow> (r, None)
      | Some e \<Rightarrow>
         (let (a, res) = up (ra_adapter e)
          in (tick_if (ra_disabled e) nm (invalidate_catalog_cache
                (put_entry nm (e\<lparr>ra_adapter := a, ra_disabled := False\<rparr>) r)),
              Some (case res of Inr _ \<Rightarrow> Switched | Inl err \<Rightarrow> InitializeFailed err))))"

definition disable_tool :: "string \<Rightarrow> string \<Rightarrow> 'v registry \<Rightarrow> 'v registry \<times> switch_reply option" where
  "disable_tool nm tool r =
     (case hm_get (r_adapters r) nm of
        None \<Rightarrow> (r, None)
      | Some e \<Rightarrow>
         (tick_if (tool \<notin> set (ra_disabled_tools e)) nm (invalidate_catalog_cache
            (put_entry nm (e\<lparr>ra_disabled_tools := List.insert tool (ra_disabled_tools e)\<rparr>) r)), Some Switched))"

definition enable_tool :: "string \<Rightarrow> string \<Rightarrow> 'v registry \<Rightarrow> 'v registry \<times> switch_reply option" where
  "enable_tool nm tool r =
     (case hm_get (r_adapters r) nm of
        None \<Rightarrow> (r, None)
      | Some e \<Rightarrow>
         (tick_if (tool \<in> set (ra_disabled_tools e)) nm (invalidate_catalog_cache
            (put_entry nm (e\<lparr>ra_disabled_tools := removeAll tool (ra_disabled_tools e)\<rparr>) r)), Some Switched))"

text \<open>The refresh handler: drop the endpoint's cached tools, then list again.\<close>

definition refresh_endpoint :: "nat \<Rightarrow> string \<Rightarrow> 'v registry \<Rightarrow> 'v registry \<times> (adapter_error + tool_info list) option" where
  "refresh_endpoint now nm r =
     (let r1 = invalidate_endpoint_tool_cache nm r
      in case hm_get (r_adapters r1) nm of
           None \<Rightarrow> (r1, None)
         | Some e \<Rightarrow> (let (e', res) = cached_list_tools now e in (put_entry nm e' r1, Some res)))"

end
