(* ===== verification/Routing.thy ===== *)
theory Routing
  imports Registry
begin

text \<open>
  Routing through the registry (\<^verbatim>\<open>src/registry.rs\<close>, \<^verbatim>\<open>src/events.rs\<close>, \<^verbatim>\<open>src/observability/store.rs\<close>):
  tool calls with their early rejections, schema gate, dispatch and capture, and the lists and reads of
  resources and prompts. What a call makes visible outside the registry is the list of its effects, in
  order: bus events, requests to adapters, captured records.
\<close>

section \<open>Events and records\<close>

record tool_annotations =
  ta_title :: "string option"
  ta_read_only :: "bool option"
  ta_destructive :: "bool option"
  ta_idempotent :: "bool option"

datatype tool_call_event =
    CallStarted string "string option" string string string "string option" "string option"
      "string option" string "tool_annotations option" "client_identity option"
  | CallCompleted string string u64 string
  | CallFailed string string u64 string string

record call_record =
  cr_id :: "int option"
  cr_request_uid :: "string option"
  cr_endpoint :: "string option"
  cr_server_name :: "string option"
  cr_server_type :: "string option"
  cr_transport :: "string option"
  cr_profile :: "string option"
  cr_client_name :: "string option"
  cr_client_version :: "string option"
  cr_client_user_agent :: "string option"
  cr_client_origin :: "string option"
  cr_tool :: string
  cr_ts_start :: int
  cr_ts_end :: int
  cr_duration_ms :: int
  cr_success :: bool
  cr_error_message :: "string option"
  cr_request_bytes :: int
  cr_response_bytes :: int
  cr_streamed :: bool

record captured_payloads =
  cp_request :: json
  cp_response :: json
  cp_streamed :: bool

datatype effect =
    SendEvent tool_call_event
  | CallTool string string json "(string \<times> json) list"
  | ReadResource string string
  | GetPrompt string string "json option"
  | Capture call_record "captured_payloads option"

text \<open>What a call reads from outside the registry: the crates it calls, the wiring of the bus and of the
  capture pipeline, the span it runs in, clocks and fresh ids.\<close>

record 'v wiring =
  w_encode :: percent_encoder
  w_decode :: "string \<Rightarrow> string"
  w_build_validator :: "json \<Rightarrow> 'v option"
  w_iter_errors :: "'v \<Rightarrow> json \<Rightarrow> json \<Rightarrow> string list"
  w_to_string :: "json \<Rightarrow> string"
  w_bus :: bool
  w_observability :: "bool option"
  w_store_payloads :: bool
  w_span :: captured_span
  w_now :: nat
  w_iso_now :: string
  w_millis :: int
  w_elapsed_ms :: int
  w_uuid :: string
  w_utf8_error :: string

definition quoted :: "string \<Rightarrow> string" where
  "quoted s = [CHR 0x27] @ s @ [CHR 0x27]"

section \<open>Rejections\<close>

definition publish_pair ::
  "'v wiring \<Rightarrow> string \<Rightarrow> string \<Rightarrow> string \<Rightarrow> string option \<Rightarrow> string option \<Rightarrow> string \<Rightarrow> string \<Rightarrow> effect list" where
  "publish_pair w tool endpoint transport server_type server_name status msg =
     (if w_bus w then
        [SendEvent (CallStarted (w_uuid w) (cs_request_uid (w_span w)) (w_iso_now w) endpoint transport server_type
           (option_or server_type server_name) (cs_profile (w_span w)) tool None (cs_client (w_span w))),
         SendEvent (CallFailed (w_uuid w) (w_iso_now w) 0 status msg)]
      else [])"

definition publish_early_rejection ::
  "'v wiring \<Rightarrow> string \<Rightarrow> string \<Rightarrow> string \<Rightarrow> string option \<Rightarrow> string option \<Rightarrow> string \<Rightarrow>
   effect list \<times> (adapter_error + json)" where
  "publish_early_rejection w tool endpoint transport server_type server_name msg =
     (publish_pair w tool endpoint transport server_type server_name ''error'' msg, Inl (ProtocolError msg))"

definition publish_validation_failure ::
  "'v wiring \<Rightarrow> string \<Rightarrow> string \<Rightarrow> string \<Rightarrow> string option \<Rightarrow> string option \<Rightarrow> string \<Rightarrow> effect list" where
  "publish_validation_failure w tool endpoint transport server_type server_name msg =
     publish_pair w tool endpoint transport server_type server_name ''validation_error'' msg"

section \<open>Argument validation\<close>

definition compiled_validator :: "'v wiring \<Rightarrow> string \<Rightarrow> json \<Rightarrow> 'v registry \<Rightarrow> 'v registry \<times> 'v option" where
  "compiled_validator w prefixed_name schema r =
     (case hm_get (r_schema_cache r) prefixed_name of
        Some ent \<Rightarrow> (r, ent)
      | None \<Rightarrow>
         (let compiled = compile_input_schema (w_build_validator w) schema
          in (r\<lparr>r_schema_cache := hm_insert prefixed_name compiled (r_schema_cache r)\<rparr>, compiled)))"

definition validate_arguments ::
  "'v wiring \<Rightarrow> string \<Rightarrow> json \<Rightarrow> json \<Rightarrow> 'v registry \<Rightarrow> 'v registry \<times> (json \<times> string) option" where
  "validate_arguments w prefixed_name schema arguments r =
     (let (r', validator) = compiled_validator w prefixed_name schema r
      in (r', Option.bind validator (\<lambda>v. validate_with_validator (w_iter_errors w) prefixed_name v schema arguments)))"

section \<open>Tool calls\<close>

definition skip_wrap :: "'v registry \<Rightarrow> bool" where
  "skip_wrap r = (all_endpoint_count r \<le> 1)"

definition call_adapter ::
  "'v wiring \<Rightarrow> 'v registry \<Rightarrow> registered_adapter \<Rightarrow> string \<Rightarrow> string \<Rightarrow> json \<Rightarrow> (string \<times> json) list \<Rightarrow> adapter_error + json" where
  "call_adapter w r ent endpoint tool arguments params =
     map_sum id (\<lambda>v. rewrite_tool_call_result (w_encode w) v endpoint (skip_wrap r))
       (av_call (ra_adapter ent) tool arguments params)"

definition capture_outcome :: "'v wiring \<Rightarrow> adapter_error + json \<Rightarrow> bool \<times> string option \<times> json" where
  "capture_outcome w result =
     (case result of
        Inr v \<Rightarrow> (case tool_result_error_message v of Some msg \<Rightarrow> (False, Some msg, v) | None \<Rightarrow> (True, None, v))
      | Inl e \<Rightarrow> (False, Some (display_error e), JObj [(''error'', JStr (display_error e))]))"

definition capture_record ::
  "'v wiring \<Rightarrow> registered_adapter \<Rightarrow> string \<Rightarrow> string \<Rightarrow> json \<Rightarrow> adapter_error + json \<Rightarrow> effect" where
  "capture_record w ent endpoint tool arguments result =
     (let (success, error_message, response_value) = capture_outcome w result;
          client = cs_client (w_span w);
          server_type = av_server_type (ra_adapter ent)
      in Capture
        \<lparr>cr_id = None, cr_request_uid = Some (w_uuid w), cr_endpoint = Some endpoint,
         cr_server_name = option_or server_type (av_upstream_name (ra_adapter ent)),
         cr_server_type = server_type, cr_transport = Some (ra_transport ent), cr_profile = cs_profile (w_span w),
         cr_client_name = Option.bind client ci_name, cr_client_version = Option.bind client ci_version,
         cr_client_user_agent = Option.bind client ci_user_agent, cr_client_origin = Option.bind client ci_origin,
         cr_tool = tool, cr_ts_start = w_millis w, cr_ts_end = w_millis w + w_elapsed_ms w,
         cr_duration_ms = w_elapsed_ms w, cr_success = success, cr_error_message = error_message,
         cr_request_bytes = int (length (w_to_string w arguments)),
         cr_response_bytes = int (length (w_to_string w response_value)), cr_streamed = False\<rparr>
        (if w_store_payloads w
         then Some \<lparr>cp_request = arguments, cp_response = response_value, cp_streamed = False\<rparr> else None))"

definition captures :: "'v wiring \<Rightarrow> bool" where
  "captures w = (w_observability w = Some True \<and> cs_request_uid (w_span w) \<noteq> None)"

definition dispatch_tool_call ::
  "'v wiring \<Rightarrow> 'v registry \<Rightarrow> registered_adapter \<Rightarrow> string \<Rightarrow> string \<Rightarrow> json \<Rightarrow> (string \<times> json) list \<Rightarrow>
   effect list \<times> (adapter_error + json)" where
  "dispatch_tool_call w r ent endpoint tool arguments params =
     (let result = call_adapter w r ent endpoint tool arguments params
      in (CallTool endpoint tool arguments params #
          (if captures w then [capture_record w ent endpoint tool arguments result] else []), result))"

text \<open>The gates between the lookup and the schema check, each with the message it rejects with.\<close>

definition gate :: "registered_adapter \<Rightarrow> string \<Rightarrow> string \<Rightarrow> string option" where
  "gate ent endpoint tool =
     (if ra_disabled ent then Some (''endpoint '' @ quoted endpoint @ '' is disabled'')
      else if av_health (ra_adapter ent) \<noteq> Healthy
        then Some (''tool '' @ quoted tool @ '' is currently unavailable: endpoint '' @ quoted endpoint @ '' is not healthy'')
      else if tool \<in> set (ra_disabled_tools ent)
        then Some (''tool '' @ quoted tool @ '' is disabled on endpoint '' @ quoted endpoint)
      else None)"

definition schema_gate ::
  "'v wiring \<Rightarrow> tool_info list \<Rightarrow> string \<Rightarrow> json \<Rightarrow> 'v registry \<Rightarrow> 'v registry \<times> (json \<times> string) option" where
  "schema_gate w cat prefixed_name arguments r =
     (if r_validate_inputs r
      then (case find (\<lambda>t. ti_name t = prefixed_name) cat of
              Some t \<Rightarrow> validate_arguments w prefixed_name (ti_input_schema t) arguments r
            | None \<Rightarrow> (r, None))
      else (r, None))"

text \<open>The part after the catalog was read; \<open>r\<close> is the registry at the time the adapter map is locked.\<close>

definition route_resolved ::
  "'v wiring \<Rightarrow> catalog \<Rightarrow> string \<Rightarrow> json \<Rightarrow> (string \<times> json) list \<Rightarrow> 'v registry \<Rightarrow>
   'v registry \<times> effect list \<times> (adapter_error + json)" where
  "route_resolved w c prefixed_name arguments params r =
     (case hm_get (snd c) prefixed_name of
        None \<Rightarrow> (r, publish_early_rejection w prefixed_name ''unknown'' ''unknown'' None None
                      (''no tool found for prefixed name '' @ quoted prefixed_name))
      | Some (endpoint, tool) \<Rightarrow>
         (case hm_get (r_adapters r) endpoint of
            None \<Rightarrow> (r, publish_early_rejection w tool endpoint ''unknown'' None None
                          (''no adapter found for endpoint '' @ quoted endpoint))
          | Some ent \<Rightarrow>
             (case gate ent endpoint tool of
                Some msg \<Rightarrow> (r, publish_early_rejection w tool endpoint (ra_transport ent)
                   (av_server_type (ra_adapter ent)) (av_upstream_name (ra_adapter ent)) msg)
              | None \<Rightarrow>
                 (let (r', verdict) = schema_gate w (fst c) prefixed_name arguments r
                  in case verdict of
                       Some (result, msg) \<Rightarrow>
                         (r', publish_validation_failure w tool endpoint (ra_transport ent)
                            (av_server_type (ra_adapter ent)) (av_upstream_name (ra_adapter ent)) msg, Inr result)
                     | None \<Rightarrow> (r', dispatch_tool_call w r' ent endpoint tool arguments params)))))"

definition route_tool_call_with_request_params ::
  "'v wiring \<Rightarrow> string \<Rightarrow> json \<Rightarrow> (string \<times> json) list \<Rightarrow> 'v registry \<Rightarrow>
   'v registry \<times> effect list \<times> (adapter_error + json)" where
  "route_tool_call_with_request_params w prefixed_name arguments params r =
     (let (r', c) = merged_catalog_with_lookup (w_encode w) (w_now w) r
      in route_resolved w c prefixed_name arguments params r')"

definition route_tool_call ::
  "'v wiring \<Rightarrow> string \<Rightarrow> json \<Rightarrow> 'v registry \<Rightarrow> 'v registry \<times> effect list \<times> (adapter_error + json)" where
  "route_tool_call w prefixed_name arguments r = route_tool_call_with_request_params w prefixed_name arguments [] r"

section \<open>Resources and prompts\<close>

text \<open>The four resource lists share one loop: \<open>listing\<close> asks an adapter, \<open>key\<close> is the member that holds the
  URI, \<open>wrap\<close> wraps it.\<close>

definition wrap_item :: "string \<Rightarrow> (string \<Rightarrow> string) \<Rightarrow> json \<Rightarrow> json" where
  "wrap_item key wrap item =
     (case Option.bind (json_get item key) json_str of
        Some uri \<Rightarrow> json_insert key (JStr (wrap uri)) item
      | None \<Rightarrow> item)"

definition merge_items ::
  "(adapter_view \<Rightarrow> adapter_error + json list) \<Rightarrow> string \<Rightarrow> (string \<Rightarrow> string \<Rightarrow> string) \<Rightarrow> adapters \<Rightarrow> json list" where
  "merge_items listing key wrap m =
     concat (map (\<lambda>(ep, e). case listing (ra_adapter e) of Inr items \<Rightarrow> map (wrap_item key (wrap ep)) items | Inl err \<Rightarrow> []) m)"

definition list_resources :: "'v wiring \<Rightarrow> 'v registry \<Rightarrow> json list" where
  "list_resources w r = merge_items av_resources ''uri''
     (\<lambda>ep uri. maybe_encode_resource_uri (w_encode w) ep uri (all_endpoint_count r \<le> 1)) (enabled (r_adapters r))"

definition list_resource_templates :: "'v wiring \<Rightarrow> 'v registry \<Rightarrow> json list" where
  "list_resource_templates w r = merge_items av_templates ''uriTemplate''
     (\<lambda>ep uri. maybe_encode_resource_uri_template (w_encode w) ep uri (all_endpoint_count r \<le> 1)) (enabled (r_adapters r))"

definition list_resources_in :: "'v wiring \<Rightarrow> string set \<Rightarrow> 'v registry \<Rightarrow> json list" where
  "list_resources_in w allowed r = merge_items av_resources ''uri''
     (\<lambda>ep uri. maybe_encode_resource_uri (w_encode w) ep uri (active_endpoint_count_in allowed r \<le> 1))
     (enabled_in allowed (r_adapters r))"

definition list_resource_templates_in :: "'v wiring \<Rightarrow> string set \<Rightarrow> 'v registry \<Rightarrow> json list" where
  "list_resource_templates_in w allowed r = merge_items av_templates ''uriTemplate''
     (\<lambda>ep uri. maybe_encode_resource_uri_template (w_encode w) ep uri (active_endpoint_count_in allowed r \<le> 1))
     (enabled_in allowed (r_adapters r))"

definition prompt_rows :: "bool \<Rightarrow> adapters \<Rightarrow> (json \<times> (string \<times> string \<times> string) option) list" where
  "prompt_rows skip m =
     concat (map (\<lambda>(ep, e). case av_prompts (ra_adapter e) of
         Inl err \<Rightarrow> []
       | Inr items \<Rightarrow> map (\<lambda>item.
           case Option.bind (json_get item ''name'') json_str of
             None \<Rightarrow> (item, None)
           | Some raw \<Rightarrow>
              (let final = namespaced (effective_prefix skip e) raw
               in (json_insert ''name'' (JStr final) item, Some (final, ep, raw)))) items) m)"

definition collect_prompts ::
  "(json \<times> (string \<times> string \<times> string) option) list \<Rightarrow> json list \<times> tool_lookup" where
  "collect_prompts rows =
     (map fst rows, fold (\<lambda>(final, owner) lookup. hm_insert final owner lookup) (List.map_filter snd rows) [])"

definition list_prompts_with_lookup :: "'v registry \<Rightarrow> json list \<times> tool_lookup" where
  "list_prompts_with_lookup r = collect_prompts (prompt_rows (all_endpoint_count r \<le> 1) (enabled (r_adapters r)))"

definition list_prompts_in_with_lookup :: "string set \<Rightarrow> 'v registry \<Rightarrow> json list \<times> tool_lookup" where
  "list_prompts_in_with_lookup allowed r =
     collect_prompts (prompt_rows (active_endpoint_count_in allowed r \<le> 1) (enabled_in allowed (r_adapters r)))"

definition list_prompts :: "'v registry \<Rightarrow> json list" where
  "list_prompts r = fst (list_prompts_with_lookup r)"

definition list_prompts_in :: "string set \<Rightarrow> 'v registry \<Rightarrow> json list" where
  "list_prompts_in allowed r = fst (list_prompts_in_with_lookup allowed r)"

definition dispatch_gate :: "string \<Rightarrow> string \<Rightarrow> string \<Rightarrow> 'v registry \<Rightarrow> string + registered_adapter" where
  "dispatch_gate what name ep r =
     (case hm_get (r_adapters r) ep of
        None \<Rightarrow> Inl (''no adapter found for endpoint '' @ quoted ep)
      | Some e \<Rightarrow>
         (if ra_disabled e then Inl (''endpoint '' @ quoted ep @ '' is disabled'')
          else if av_health (ra_adapter e) \<noteq> Healthy
            then Inl (what @ quoted name @ '' is currently unavailable: endpoint '' @ quoted ep @ '' is not healthy'')
          else Inr e))"

definition dispatch_prompt_get_to ::
  "string \<Rightarrow> string \<Rightarrow> json option \<Rightarrow> 'v registry \<Rightarrow> effect list \<times> (adapter_error + json)" where
  "dispatch_prompt_get_to ep raw arguments r =
     (case dispatch_gate ''prompt '' raw ep r of
        Inl msg \<Rightarrow> ([], Inl (ProtocolError msg))
      | Inr e \<Rightarrow> ([GetPrompt ep raw arguments], av_get_prompt (ra_adapter e) raw arguments))"

definition dispatch_resource_read_to :: "string \<Rightarrow> string \<Rightarrow> 'v registry \<Rightarrow> effect list \<times> (adapter_error + json)" where
  "dispatch_resource_read_to ep original r =
     (case dispatch_gate ''resource '' original ep r of
        Inl msg \<Rightarrow> ([], Inl (ProtocolError msg))
      | Inr e \<Rightarrow> ([ReadResource ep original], av_read (ra_adapter e) original))"

definition route_prompt_get ::
  "'v wiring \<Rightarrow> string \<Rightarrow> json option \<Rightarrow> 'v registry \<Rightarrow> effect list \<times> (adapter_error + json)" where
  "route_prompt_get w prefixed_name arguments r =
     (case hm_get (snd (list_prompts_with_lookup r)) prefixed_name of
        None \<Rightarrow> ([], Inl (ProtocolError (''no prompt found for prefixed name '' @ quoted prefixed_name)))
      | Some (ep, raw) \<Rightarrow>
         map_prod id (map_sum id (\<lambda>v. rewrite_prompt_get_result (w_encode w) v ep (skip_wrap r)))
           (dispatch_prompt_get_to ep raw arguments r))"

text \<open>\<open>detail\<close> is the text of the UTF-8 error of the standard library.\<close>

definition show_uri_error :: "string \<Rightarrow> resource_uri_error \<Rightarrow> string" where
  "show_uri_error detail e = ''invalid wrapped resource URI: '' @
     (case e of
        MissingScheme u \<Rightarrow> ''missing '' @ quoted wrapper_prefix @ '' scheme prefix in '' @ quoted u
      | MissingSeparator u \<Rightarrow> ''missing '' @ quoted ''/'' @ '' separator after endpoint in '' @ quoted u
      | EmptyEndpoint u \<Rightarrow> ''empty endpoint segment in '' @ quoted u
      | InvalidEncoding u \<Rightarrow> ''invalid percent-encoding in '' @ quoted u @ '': '' @ detail)"

definition route_resource_read :: "'v wiring \<Rightarrow> string \<Rightarrow> 'v registry \<Rightarrow> effect list \<times> (adapter_error + json)" where
  "route_resource_read w wrapped r =
     (case maybe_decode_resource_uri (w_decode w) wrapped (skip_wrap r) of
        Inl e \<Rightarrow> ([], Inl (ProtocolError (''invalid resource URI '' @ quoted wrapped @ '': '' @ show_uri_error (w_utf8_error w) e)))
      | Inr (Some ep, original) \<Rightarrow> dispatch_resource_read_to ep original r
      | Inr (None, original) \<Rightarrow>
         (case enabled (r_adapters r) of
            p # ps \<Rightarrow> dispatch_resource_read_to (fst p) original r
          | [] \<Rightarrow> ([], Inl (ProtocolError (''no active endpoint to serve resource '' @ quoted wrapped)))))"

end
