(* ===== verification/Caching.thy ===== *)
theory Caching
  imports Catalog
begin

text \<open>
  The caches of the registry: what an invalidation does to a listing in flight, that a caller cannot tell
  the cached catalog from a rebuilt one while every change is announced, and what the schema cache
  misses.
\<close>

section \<open>Listings in flight\<close>

text \<open>The critical sections that touch the caches. A rebuild reads the generation, lists, and stores; a
  listing of one endpoint reads the endpoint's epoch, lists, and stores. \<open>Mutate\<close> is any change of the
  adapter map; it waits for the readers, so none falls into a listing, which holds the read lock.\<close>

datatype 'v cache_event =
    InvalidateAll
  | InvalidateEndpoint string
  | StoreRebuild u64 catalog
  | StoreTools string u64 "tool_info list" "nat option"
  | StoreValidator string "'v option"
  | Mutate "adapters \<Rightarrow> adapters"

definition store_tools :: "string \<Rightarrow> u64 \<Rightarrow> tool_info list \<Rightarrow> nat option \<Rightarrow> 'v registry \<Rightarrow> 'v registry" where
  "store_tools nm epoch tools deadline r =
     (case hm_get (r_adapters r) nm of
        Some e \<Rightarrow> put_entry nm (store_if_epoch_unchanged epoch tools deadline e) r
      | None \<Rightarrow> r)"

fun cache_step :: "'v cache_event \<Rightarrow> 'v registry \<Rightarrow> 'v registry" where
  "cache_step InvalidateAll r = invalidate_catalog_cache r"
| "cache_step (InvalidateEndpoint nm) r = invalidate_endpoint_tool_cache nm r"
| "cache_step (StoreRebuild g c) r = store_catalog g c r"
| "cache_step (StoreTools nm epoch tools deadline) r = store_tools nm epoch tools deadline r"
| "cache_step (StoreValidator nm v) r = r\<lparr>r_schema_cache := hm_insert nm v (r_schema_cache r)\<rparr>"
| "cache_step (Mutate f) r = r\<lparr>r_adapters := f (r_adapters r)\<rparr>"

fun invalidates :: "'v cache_event \<Rightarrow> 'v registry \<Rightarrow> bool" where
  "invalidates InvalidateAll r = True"
| "invalidates (InvalidateEndpoint nm) r = True"
| "invalidates _ r = False"

fun held :: "'v cache_event \<Rightarrow> bool" where
  "held (Mutate f) = False"
| "held _ = True"

definition held_step :: "'v cache_event \<Rightarrow> 'v registry \<Rightarrow> 'v registry" where
  "held_step ev r = (if held ev then cache_step ev r else r)"

definition endpoint_epoch :: "string \<Rightarrow> 'v registry \<Rightarrow> u64" where
  "endpoint_epoch nm r = (case hm_get (r_adapters r) nm of Some e \<Rightarrow> ra_cache_epoch e | None \<Rightarrow> 0)"

fun drops_tools :: "string \<Rightarrow> 'v cache_event \<Rightarrow> 'v registry \<Rightarrow> bool" where
  "drops_tools nm InvalidateAll r = hm_contains (r_adapters r) nm"
| "drops_tools nm (InvalidateEndpoint n) r = (n = nm \<and> hm_contains (r_adapters r) nm)"
| "drops_tools nm _ r = False"

lemma hm_get_map_val: "hm_get (map (\<lambda>(k, v). (k, f v)) m) k = map_option f (hm_get m k)"
  by (induction m) (auto simp: hm_get_Cons)

lemma put_entry_get [simp]: "hm_get (r_adapters (put_entry nm e r)) k = (if k = nm then Some e else hm_get (r_adapters r) k)"
  by (simp add: put_entry_def hm_get_insert)

lemma invalidate_tool_cache_fields [simp]:
  "ra_tool_cache (invalidate_tool_cache e) = None" "ra_cache_epoch (invalidate_tool_cache e) = ra_cache_epoch e + 1"
  by (simp_all add: invalidate_tool_cache_def)

lemma invalidate_all_get [simp]:
  "hm_get (r_adapters (invalidate_catalog_cache r)) k = map_option invalidate_tool_cache (hm_get (r_adapters r) k)"
  by (simp add: invalidate_catalog_cache_def invalidate_all_tool_caches_def hm_get_map_val)

lemma invalidate_endpoint_get [simp]:
  "hm_get (r_adapters (invalidate_endpoint_tool_cache nm r)) k =
     (if k = nm then map_option invalidate_tool_cache (hm_get (r_adapters r) k) else hm_get (r_adapters r) k)"
  by (auto simp: invalidate_endpoint_tool_cache_def hm_get_insert split: option.splits)

lemma store_tools_epoch [simp]: "ra_cache_epoch (store_if_epoch_unchanged ep tools d e) = ra_cache_epoch e"
  by (simp add: store_if_epoch_unchanged_def)

interpretation generations: epoch_counter r_generation cache_step invalidates
proof
  fix e :: "'v cache_event" and r :: "'v registry"
  show "r_generation (cache_step e r) = r_generation r + (if invalidates e r then 1 else 0)"
    by (cases e) (auto simp: invalidate_catalog_cache_def invalidate_endpoint_tool_cache_def invalidate_all_tool_caches_def
        store_catalog_def store_tools_def put_entry_def split: option.splits)
qed

interpretation tool_epochs: epoch_counter "endpoint_epoch nm" held_step "drops_tools nm" for nm
proof
  fix e :: "'v cache_event" and r :: "'v registry"
  show "endpoint_epoch nm (held_step e r) = endpoint_epoch nm r + (if drops_tools nm e r then 1 else 0)"
    by (cases e) (auto simp: held_step_def endpoint_epoch_def hm_contains_def store_catalog_def store_tools_def
        split: option.splits)
qed

lemma held_present:
  "hm_get (r_adapters r) nm = Some e \<Longrightarrow> \<exists>e'. hm_get (r_adapters (apply_all held_step es r)) nm = Some e'"
proof (induction es arbitrary: r e)
  case Nil
  then show ?case by simp
next
  case (Cons ev es)
  have "\<exists>e'. hm_get (r_adapters (held_step ev r)) nm = Some e'"
    using Cons.prems by (cases ev) (auto simp: held_step_def store_catalog_def store_tools_def split: option.splits)
  with Cons.IH show ?case by auto
qed

text \<open>C22: a catalog rebuilt from what was read at \<open>r\<close> is stored exactly if nothing was invalidated in
  between, and a tool list fetched from an endpoint at \<open>r\<close>, under the read lock, exactly if the endpoint's
  own cache was not invalidated in between (for fewer than \<open>2^64\<close> invalidations); otherwise the caches
  keep what they hold.\<close>

theorem overtaken_listings_dropped:
  assumes "bump_count cache_step invalidates es r < 2 ^ 64"
    and "hm_get (r_adapters r) nm = Some e" and "bump_count held_step (drops_tools nm) hs r < 2 ^ 64"
  shows "r_catalog_cache (cache_step (StoreRebuild (r_generation r) c) (apply_all cache_step es r)) =
      (if bump_count cache_step invalidates es r = 0 then Some c else r_catalog_cache (apply_all cache_step es r)) \<and>
    Option.bind (hm_get (r_adapters (cache_step (StoreTools nm (endpoint_epoch nm r) tools d) (apply_all held_step hs r))) nm)
        ra_tool_cache =
      (if bump_count held_step (drops_tools nm) hs r = 0 then Some \<lparr>ct_tools = tools, ct_expires_at = d\<rparr>
       else Option.bind (hm_get (r_adapters (apply_all held_step hs r)) nm) ra_tool_cache)"
proof
  show "r_catalog_cache (cache_step (StoreRebuild (r_generation r) c) (apply_all cache_step es r)) =
      (if bump_count cache_step invalidates es r = 0 then Some c else r_catalog_cache (apply_all cache_step es r))"
    using generations.epoch_iff [OF assms(1)] by (simp add: store_catalog_def)
  obtain e' where e': "hm_get (r_adapters (apply_all held_step hs r)) nm = Some e'"
    using held_present [OF assms(2)] by blast
  have "ra_cache_epoch e' = endpoint_epoch nm r \<longleftrightarrow> bump_count held_step (drops_tools nm) hs r = 0"
    using tool_epochs.epoch_iff [OF assms(3)] e' by (simp add: endpoint_epoch_def)
  then show "Option.bind (hm_get (r_adapters (cache_step (StoreTools nm (endpoint_epoch nm r) tools d)
        (apply_all held_step hs r))) nm) ra_tool_cache =
      (if bump_count held_step (drops_tools nm) hs r = 0 then Some \<lparr>ct_tools = tools, ct_expires_at = d\<rparr>
       else Option.bind (hm_get (r_adapters (apply_all held_step hs r)) nm) ra_tool_cache)"
    using e' by (simp add: store_tools_def store_if_epoch_unchanged_def)
qed

definition one_endpoint :: "unit registry" where
  "one_endpoint = new_registry\<lparr>r_adapters := [(''fs'', sample_entry ''fs'' [''read''])]\<rparr>"

theorem overtaken_listings_dropped_witness:
  "r_catalog_cache (cache_step (StoreRebuild (r_generation one_endpoint) ([], []))
     (apply_all cache_step [InvalidateEndpoint ''fs''] one_endpoint)) = None"
proof -
  have "bump_count cache_step invalidates [InvalidateEndpoint ''fs''] one_endpoint < 2 ^ 64" by simp
  moreover have "hm_get (r_adapters one_endpoint) ''fs'' = Some (sample_entry ''fs'' [''read''])"
    by (simp add: one_endpoint_def hm_get_Cons)
  moreover have "bump_count held_step (drops_tools ''fs'') [] one_endpoint < 2 ^ 64" by simp
  ultimately show ?thesis
    using overtaken_listings_dropped [of "[InvalidateEndpoint ''fs'']" one_endpoint "''fs''"
        "sample_entry ''fs'' [''read'']" "[]" "([], [])" "[]" None]
    by (simp add: one_endpoint_def new_registry_def invalidate_endpoint_tool_cache_def)
qed

section \<open>The caches cannot be observed\<close>

definition uncached :: "adapters \<Rightarrow> adapters" where
  "uncached m = map (\<lambda>(n, e). (n, e\<lparr>ra_tool_cache := None\<rparr>)) m"

definition reference_catalog :: "percent_encoder \<Rightarrow> adapters \<Rightarrow> catalog" where
  "reference_catalog enc m = snd (build_catalog enc 0 (uncached m))"

definition tools_current :: "registered_adapter \<Rightarrow> bool" where
  "tools_current e = (\<forall>c. ra_tool_cache e = Some c \<longrightarrow> av_list_tools (ra_adapter e) = Inr (ct_tools c))"

definition coherent :: "percent_encoder \<Rightarrow> 'v registry \<Rightarrow> bool" where
  "coherent enc r =
     (list_all (\<lambda>(n, e). tools_current e) (r_adapters r) \<and>
      (\<forall>c. r_catalog_cache r = Some c \<longrightarrow> c = reference_catalog enc (r_adapters r)))"

lemma cached_list_current:
  assumes "tools_current e"
  shows "snd (cached_list_tools now e) = av_list_tools (ra_adapter e)"
  using assms
  by (auto simp: cached_list_tools_def tools_current_def Let_def split: option.splits sum.splits if_splits bind_splits)

lemma cached_list_entry:
  assumes "tools_current e"
  shows "tools_current (fst (cached_list_tools now e))"
    "(fst (cached_list_tools now e))\<lparr>ra_tool_cache := None\<rparr> = e\<lparr>ra_tool_cache := None\<rparr>"
  using assms
  by (auto simp: cached_list_tools_def tools_current_def store_if_epoch_unchanged_def Let_def
      split: option.splits sum.splits)

lemma uncached_enabled: "enabled (uncached m) = uncached (enabled m)"
  by (induction m) (auto simp: uncached_def enabled_def)

lemma skip_prefix_uncached [simp]: "skip_prefix (uncached m) = skip_prefix m"
  by (simp add: skip_prefix_def uncached_enabled) (simp add: uncached_def)

lemma catalog_row_uncached [simp]: "catalog_row enc skip ep (e\<lparr>ra_tool_cache := c\<rparr>) t = catalog_row enc skip ep e t"
  by (simp add: catalog_row_def effective_prefix_def)

lemma entry_rows_current:
  assumes "tools_current e"
  shows "snd (entry_rows enc now skip (ep, e)) = snd (entry_rows enc 0 skip (ep, e\<lparr>ra_tool_cache := None\<rparr>))"
proof -
  have "tools_current (e\<lparr>ra_tool_cache := None\<rparr>)" by (simp add: tools_current_def)
  then show ?thesis
    using cached_list_current [OF assms, of now] cached_list_current [of "e\<lparr>ra_tool_cache := None\<rparr>" 0]
    by (simp add: entry_rows_def case_prod_beta visible_tools_def split: sum.split)
qed

lemma rows_of_current:
  assumes "list_all (\<lambda>(n, e). tools_current e) m"
  shows "rows_of enc now m = rows_of enc 0 (uncached m)"
proof -
  have "map (\<lambda>p. snd (entry_rows enc now skip p)) m =
      map (\<lambda>p. snd (entry_rows enc 0 skip p)) (uncached m)" for skip
    using assms entry_rows_current unfolding uncached_def map_map
    by (intro map_cong [OF refl]) (auto simp: list_all_iff)
  then show ?thesis by (simp add: rows_of_def)
qed

lemma build_current:
  assumes "list_all (\<lambda>(n, e). tools_current e) m"
  shows "snd (build_catalog enc now m) = reference_catalog enc m"
  by (simp add: build_catalog_def reference_catalog_def rows_of_current [OF assms])

lemma build_keeps:
  assumes "list_all (\<lambda>(n, e). tools_current e) m"
  shows "list_all (\<lambda>(n, e). tools_current e) (fst (build_catalog enc now m))"
    "uncached (fst (build_catalog enc now m)) = uncached m"
proof -
  have one: "tools_current (snd (fst (entry_rows enc now skip p)))"
    "fst (fst (entry_rows enc now skip p)) = fst p"
    "(snd (fst (entry_rows enc now skip p)))\<lparr>ra_tool_cache := None\<rparr> = (snd p)\<lparr>ra_tool_cache := None\<rparr>"
    if "tools_current (snd p)" for p skip
    using that cached_list_entry [OF that, of now] by (auto simp: entry_rows_def case_prod_beta)
  show "list_all (\<lambda>(n, e). tools_current e) (fst (build_catalog enc now m))"
    using assms one by (auto simp: build_catalog_def list_all_iff case_prod_beta)
  show "uncached (fst (build_catalog enc now m)) = uncached m"
    using assms one by (auto simp: build_catalog_def uncached_def list_all_iff case_prod_beta)
qed

lemma reference_cong: "uncached m = uncached m' \<Longrightarrow> reference_catalog enc m = reference_catalog enc m'"
  by (simp add: reference_catalog_def)

lemma merged_current:
  assumes "coherent enc r"
  shows "snd (merged_catalog_with_lookup enc now r) = reference_catalog enc (r_adapters r)"
    "coherent enc (fst (merged_catalog_with_lookup enc now r))"
proof -
  have cur: "list_all (\<lambda>(n, e). tools_current e) (r_adapters r)" using assms by (simp add: coherent_def)
  note b = build_current [OF cur, of enc now] build_keeps [OF cur, of enc now]
  show "snd (merged_catalog_with_lookup enc now r) = reference_catalog enc (r_adapters r)"
    using assms b by (auto simp: merged_catalog_with_lookup_def refresh_catalog_def coherent_def case_prod_beta
        split: option.splits)
  show "coherent enc (fst (merged_catalog_with_lookup enc now r))"
    using assms b reference_cong [OF b(3), of enc]
    by (auto simp: merged_catalog_with_lookup_def refresh_catalog_def coherent_def case_prod_beta store_catalog_def
        split: option.splits)
qed

lemma invalidated_coherent: "coherent enc (invalidate_catalog_cache r)"
  by (auto simp: coherent_def invalidate_catalog_cache_def invalidate_all_tool_caches_def tools_current_def list_all_iff)

text \<open>Operations of the registry. \<open>OpAnswers nm a\<close>: the adapter of an endpoint answers differently from now
  on, and its tools-changed tick has been handled.\<close>

datatype registry_op =
    OpRegister string adapter_view string "string option" "string option"
  | OpRemove string
  | OpAnswers string adapter_view
  | OpDisable "adapter_view \<Rightarrow> adapter_view \<times> (adapter_error + unit)" string
  | OpEnable "adapter_view \<Rightarrow> adapter_view \<times> (adapter_error + unit)" string
  | OpDisableTool string string
  | OpEnableTool string string
  | OpRefresh nat string
  | OpCatalog nat

definition answers_change :: "string \<Rightarrow> adapter_view \<Rightarrow> 'v registry \<Rightarrow> 'v registry" where
  "answers_change nm a r =
     (case hm_get (r_adapters r) nm of
        Some e \<Rightarrow> tools_changed_tick nm (put_entry nm (e\<lparr>ra_adapter := a\<rparr>) r)
      | None \<Rightarrow> r)"

fun registry_step :: "percent_encoder \<Rightarrow> registry_op \<Rightarrow> 'v registry \<Rightarrow> 'v registry" where
  "registry_step enc (OpRegister nm a tr d tp) r = register_adapter nm a tr d tp r"
| "registry_step enc (OpRemove nm) r = fst (remove_adapter nm r)"
| "registry_step enc (OpAnswers nm a) r = answers_change nm a r"
| "registry_step enc (OpDisable down nm) r = fst (disable_endpoint down nm r)"
| "registry_step enc (OpEnable up nm) r = fst (enable_endpoint up nm r)"
| "registry_step enc (OpDisableTool nm t) r = fst (disable_tool nm t r)"
| "registry_step enc (OpEnableTool nm t) r = fst (enable_tool nm t r)"
| "registry_step enc (OpRefresh now nm) r = fst (refresh_endpoint now nm r)"
| "registry_step enc (OpCatalog now) r = fst (merged_catalog_with_lookup enc now r)"

text \<open>An adapter that fails to shut down answers as before.\<close>

fun shutdown_clean :: "registry_op \<Rightarrow> bool" where
  "shutdown_clean (OpDisable down nm) = (\<forall>a err a'. down a = (a', Inl err) \<longrightarrow> a' = a)"
| "shutdown_clean _ = True"

lemma coherent_tick [simp]: "coherent enc (tick_tools_changed nm r) = coherent enc r"
  "coherent enc (tick_if b nm r) = coherent enc r"
  by (simp_all add: coherent_def tick_tools_changed_def tick_if_def)

lemma hm_insert_same: "hm_get m k = Some v \<Longrightarrow> hm_insert k v m = m"
  by (induction m) (auto simp: hm_get_Cons split: if_splits)

lemma put_same: "hm_get (r_adapters r) nm = Some e \<Longrightarrow> put_entry nm e r = r"
  by (simp add: put_entry_def hm_insert_same)

lemma all_hm_insert: "list_all P m \<Longrightarrow> P (k, v) \<Longrightarrow> list_all P (hm_insert k v m)"
  by (induction m) auto

lemma refresh_coherent:
  assumes "coherent enc r"
  shows "coherent enc (fst (refresh_endpoint now nm r))"
proof -
  have tools: "list_all (\<lambda>(n, e). tools_current e) (r_adapters (invalidate_endpoint_tool_cache nm r))"
    using assms by (auto simp: invalidate_endpoint_tool_cache_def coherent_def tools_current_def
        intro!: all_hm_insert split: option.splits)
  show ?thesis
  proof (cases "hm_get (r_adapters r) nm")
    case None
    then show ?thesis
      using tools by (simp add: refresh_endpoint_def Let_def coherent_def)
        (simp add: invalidate_endpoint_tool_cache_def)
  next
    case (Some e)
    have "tools_current (fst (cached_list_tools now (invalidate_tool_cache e)))"
      by (rule cached_list_entry) (simp add: tools_current_def)
    then show ?thesis
      using tools Some
      by (simp add: refresh_endpoint_def Let_def case_prod_beta coherent_def put_entry_def all_hm_insert)
        (simp add: invalidate_endpoint_tool_cache_def)
  qed
qed

lemma step_coherent:
  assumes "coherent enc r" "shutdown_clean ev"
  shows "coherent enc (registry_step enc ev r)"
proof (cases ev)
  case (OpDisable down nm)
  show ?thesis
  proof (cases "hm_get (r_adapters r) nm")
    case (Some e)
    obtain a res where d: "down (ra_adapter e) = (a, res)" by (cases "down (ra_adapter e)") auto
    show ?thesis
    proof (cases res)
      case (Inl err)
      then have "e\<lparr>ra_adapter := a\<rparr> = e" using assms(2) OpDisable d by simp
      then show ?thesis using OpDisable Some d Inl assms(1) put_same [OF Some] by (simp add: disable_endpoint_def)
    qed (use OpDisable Some d in \<open>simp add: disable_endpoint_def invalidated_coherent\<close>)
  qed (use OpDisable assms in \<open>simp add: disable_endpoint_def\<close>)
qed (use assms merged_current(2) refresh_coherent in \<open>auto simp: register_adapter_def remove_adapter_def
    answers_change_def tools_changed_tick_def enable_endpoint_def disable_tool_def enable_tool_def
    invalidated_coherent case_prod_beta split: option.splits\<close>)

lemma run_coherent:
  "coherent enc r \<Longrightarrow> list_all shutdown_clean es \<Longrightarrow> coherent enc (apply_all (registry_step enc) es r)"
  by (induction es arbitrary: r) (auto simp: step_coherent)

lemma new_coherent: "coherent enc new_registry"
  by (simp add: coherent_def new_registry_def)



section \<open>The schema cache\<close>

lemma schema_cache_simps [simp]:
  "r_schema_cache (put_entry nm e r) = r_schema_cache r"
  "r_schema_cache (invalidate_endpoint_tool_cache nm r) = r_schema_cache r"
  "r_schema_cache (invalidate_catalog_cache r) = []"
  "r_schema_cache (tick_tools_changed nm r) = r_schema_cache r"
  "r_schema_cache (fst (merged_catalog_with_lookup enc now r)) = r_schema_cache r"
  by (auto simp: put_entry_def invalidate_endpoint_tool_cache_def invalidate_catalog_cache_def tick_tools_changed_def
      merged_catalog_with_lookup_def refresh_catalog_def store_catalog_def case_prod_beta split: option.splits)

text \<open>Refreshing an endpoint rebuilds the catalog but not the compiled schemas. A validator compiled
  before the refresh is still the one a later call of that tool is checked with, whatever schema the
  refreshed catalog advertises; after a tools-changed tick the advertised schema is compiled anew.\<close>

theorem refresh_keeps_validator:
  "(hm_get (r_schema_cache r) n = Some v \<longrightarrow>
      snd (compiled_validator w n schema (fst (merged_catalog_with_lookup enc now' (fst (refresh_endpoint now ep r))))) = v) \<and>
   snd (compiled_validator w n schema (tools_changed_tick ep r)) = compile_input_schema (w_build_validator w) schema"
  by (auto simp: compiled_validator_def refresh_endpoint_def tools_changed_tick_def Let_def case_prod_beta
      split: option.splits)

theorem refresh_keeps_validator_witness:
  "\<forall>w :: unit wiring. snd (compiled_validator w ''fs__read'' (JObj [(''required'', JArr [JStr ''path''])])
     (fst (merged_catalog_with_lookup pct_enc 1 (fst (refresh_endpoint 0 ''fs''
       (new_registry\<lparr>r_schema_cache := [(''fs__read'', None)]\<rparr>)))))) = None"
proof -
  let ?r = "(new_registry :: unit registry)\<lparr>r_schema_cache := [(''fs__read'', None)]\<rparr>"
  have "hm_get (r_schema_cache ?r) ''fs__read'' = Some None" by (simp add: hm_get_Cons)
  then show ?thesis using refresh_keeps_validator [THEN conjunct1, of ?r "''fs__read''" None] by blast
qed

end
