(* ===== verification/Watcher.thy ===== *)
theory Watcher
  imports Caching Config_Checks
begin

text \<open>
  The configuration watcher (\<^verbatim>\<open>src/watcher.rs\<close>, placeholder adapters of \<^verbatim>\<open>src/adapter/mod.rs\<close>): a reload
  turns the difference of two configurations into registry operations and starts one background
  initialisation per added or changed endpoint. The part of a reload that handles one endpoint is one
  step; background initialisations finish in any order, between and after reloads. What building an
  adapter from a configuration gives (\<open>create\<close>) and what an adapter is after a shutdown (\<open>down\<close>) are
  arguments.
\<close>

section \<open>Placeholders\<close>

definition placeholder :: "health_status \<Rightarrow> adapter_error \<Rightarrow> string option \<Rightarrow> adapter_view" where
  "placeholder health err configured =
     \<lparr>av_health = health, av_health_after = health, av_list_tools = Inr [], av_ttl_ms = None, av_resources = Inr [],
      av_templates = Inr [], av_prompts = Inr [], av_call = (\<lambda>t a p. Inl err),
      av_read = (\<lambda>u. Inl (JsonRpcError (- 32601) ''resources/read not supported by this adapter'' None)),
      av_get_prompt = (\<lambda>n a. Inl (JsonRpcError (- 32601) ''prompts/get not supported by this adapter'' None)),
      av_server_type = None, av_upstream_name = None, av_configured_type = configured\<rparr>"

definition starting_adapter :: adapter_view where
  "starting_adapter = placeholder Starting NotInitialized None"

definition failed_adapter :: "string \<Rightarrow> string option \<Rightarrow> adapter_view" where
  "failed_adapter msg override_field =
     placeholder (Unhealthy msg) (ConnectionFailedErr (''server failed to initialize: '' @ msg))
       (map_option lowercase (effective_server_type override_field None))"

section \<open>Applying a difference\<close>

record init_task =
  it_config :: endpoint_config
  it_organizations :: "organization list"
  it_disabled :: bool

record 'v reload_state =
  rs_registry :: "'v registry"
  rs_pending :: "init_task list"

text \<open>\<^verbatim>\<open>and_modify\<close> or \<^verbatim>\<open>or_insert_with\<close> on the entry of the endpoint.\<close>

definition warning_messages :: "warning list \<Rightarrow> (string, string) hashmap" where
  "warning_messages ws =
     fold (\<lambda>(nm, msg) m. hm_insert nm (case hm_get m nm of Some old \<Rightarrow> old @ ''; '' @ msg | None \<Rightarrow> msg) m) ws []"

definition set_switches :: "string \<Rightarrow> bool \<Rightarrow> string list \<Rightarrow> 'v registry \<Rightarrow> 'v registry" where
  "set_switches nm disabled tools r =
     (case hm_get (r_adapters r) nm of
        Some e \<Rightarrow> put_entry nm (e\<lparr>ra_disabled := disabled, ra_disabled_tools := tools\<rparr>) r
      | None \<Rightarrow> r)"

definition register_endpoint :: "endpoint_config \<Rightarrow> adapter_view \<Rightarrow> string \<Rightarrow> 'v registry \<Rightarrow> 'v registry" where
  "register_endpoint ep a nm r =
     register_adapter nm a (show_transport (ec_transport ep)) (ec_description ep) (resolved_tool_prefix ep) r"

definition first_adapter :: "warning list \<Rightarrow> string \<Rightarrow> endpoint_config \<Rightarrow> adapter_view" where
  "first_adapter ws nm ep =
     (if nm \<in> warned_endpoint_names ws
      then failed_adapter (unwrap_or [] (hm_get (warning_messages ws) nm)) (ec_server_type_override ep)
      else starting_adapter)"

definition new_tasks :: "warning list \<Rightarrow> organization list \<Rightarrow> string \<Rightarrow> endpoint_config \<Rightarrow> bool \<Rightarrow> init_task list" where
  "new_tasks ws orgs nm ep disabled =
     (if nm \<in> warned_endpoint_names ws then [] else [\<lparr>it_config = ep, it_organizations = orgs, it_disabled = disabled\<rparr>])"

definition apply_removed :: "string \<Rightarrow> 'v reload_state \<Rightarrow> 'v reload_state" where
  "apply_removed nm st = st\<lparr>rs_registry := fst (remove_adapter nm (rs_registry st))\<rparr>"

definition apply_changed :: "warning list \<Rightarrow> organization list \<Rightarrow> string \<times> endpoint_config \<Rightarrow> 'v reload_state \<Rightarrow> 'v reload_state" where
  "apply_changed ws orgs p st =
     (let (nm, ep) = p; r = rs_registry st;
          (was_disabled, old_tools) = (case hm_get (r_adapters r) nm of
             Some e \<Rightarrow> (ra_disabled e, ra_disabled_tools e)
           | None \<Rightarrow> (ec_disabled ep, ec_disabled_tools ep))
      in \<lparr>rs_registry = set_switches nm was_disabled old_tools
            (register_endpoint ep (first_adapter ws nm ep) nm (fst (remove_adapter nm r))),
          rs_pending = rs_pending st @ new_tasks ws orgs nm ep was_disabled\<rparr>)"

definition apply_added :: "warning list \<Rightarrow> organization list \<Rightarrow> endpoint_config \<Rightarrow> 'v reload_state \<Rightarrow> 'v reload_state" where
  "apply_added ws orgs ep st =
     (let nm = ec_name ep;
          r1 = register_endpoint ep (first_adapter ws nm ep) nm (rs_registry st)
      in \<lparr>rs_registry = (if ec_disabled ep \<or> ec_disabled_tools ep \<noteq> []
            then set_switches nm (ec_disabled ep) (ec_disabled_tools ep) r1 else r1),
          rs_pending = rs_pending st @ new_tasks ws orgs nm ep (ec_disabled ep)\<rparr>)"

definition apply_diff_graceful :: "warning list \<Rightarrow> organization list \<Rightarrow> config_diff \<Rightarrow> 'v reload_state \<Rightarrow> 'v reload_state" where
  "apply_diff_graceful ws orgs d st =
     fold (apply_added ws orgs) (cd_added d) (fold (apply_changed ws orgs) (cd_changed d) (fold apply_removed (cd_removed d) st))"

definition apply_diff :: "organization list \<Rightarrow> config_diff \<Rightarrow> 'v reload_state \<Rightarrow> 'v reload_state" where
  "apply_diff orgs d st = apply_diff_graceful [] orgs d st"

text \<open>The end of a background initialisation: the adapter is put in place, shut down again if the endpoint
  was disabled when the reload looked, and the endpoint's cache is dropped.\<close>

definition install_adapter :: "(endpoint_config \<Rightarrow> organization list \<Rightarrow> adapter_view) \<Rightarrow> (adapter_view \<Rightarrow> adapter_view) \<Rightarrow> init_task \<Rightarrow> adapter_view" where
  "install_adapter create down t = (if it_disabled t then down (create (it_config t) (it_organizations t)) else create (it_config t) (it_organizations t))"

definition finish_init ::
  "(endpoint_config \<Rightarrow> organization list \<Rightarrow> adapter_view) \<Rightarrow> (adapter_view \<Rightarrow> adapter_view) \<Rightarrow> nat \<Rightarrow> 'v reload_state \<Rightarrow> 'v reload_state" where
  "finish_init create down i st =
     (if rs_pending st = [] then st
      else
        let k = i mod length (rs_pending st); t = rs_pending st ! k; nm = ec_name (it_config t); r = rs_registry st;
            r1 = (case hm_get (r_adapters r) nm of
                    Some e \<Rightarrow> put_entry nm (e\<lparr>ra_adapter := install_adapter create down t\<rparr>) r
                  | None \<Rightarrow> r)
        in \<lparr>rs_registry = invalidate_endpoint_tool_cache nm r1,
            rs_pending = take k (rs_pending st) @ drop (Suc k) (rs_pending st)\<rparr>)"

definition finish_all ::
  "(endpoint_config \<Rightarrow> organization list \<Rightarrow> adapter_view) \<Rightarrow> (adapter_view \<Rightarrow> adapter_view) \<Rightarrow> nat list \<Rightarrow> 'v reload_state \<Rightarrow> 'v reload_state" where
  "finish_all create down ks st = fold (finish_init create down) ks st"

section \<open>What an endpoint is set up as\<close>

text \<open>Everything about an entry but its caches.\<close>

record endpoint_setup =
  su_adapter :: adapter_view
  su_transport :: string
  su_description :: "string option"
  su_prefix :: "string option"
  su_disabled :: bool
  su_tools :: "string list"

definition setup_of :: "registered_adapter \<Rightarrow> endpoint_setup" where
  "setup_of e = \<lparr>su_adapter = ra_adapter e, su_transport = ra_transport e, su_description = ra_description e,
     su_prefix = ra_tool_prefix e, su_disabled = ra_disabled e, su_tools = ra_disabled_tools e\<rparr>"

definition setups :: "'v registry \<Rightarrow> string \<Rightarrow> endpoint_setup option" where
  "setups r nm = map_option setup_of (hm_get (r_adapters r) nm)"

definition configured :: "endpoint_config \<Rightarrow> adapter_view \<Rightarrow> bool \<Rightarrow> string list \<Rightarrow> endpoint_setup" where
  "configured ep a disabled tools = \<lparr>su_adapter = a, su_transport = show_transport (ec_transport ep),
     su_description = ec_description ep, su_prefix = resolved_tool_prefix ep, su_disabled = disabled, su_tools = tools\<rparr>"

lemma setup_invalidated [simp]: "setup_of (invalidate_tool_cache e) = setup_of e"
  by (simp add: setup_of_def invalidate_tool_cache_def)

lemma setups_invalidate [simp]:
  "setups (invalidate_catalog_cache r) = setups r" "setups (invalidate_endpoint_tool_cache nm r) = setups r"
  "setups (tick_tools_changed nm r) = setups r"
  by (auto simp: setups_def option.map_comp comp_def fun_eq_iff tick_tools_changed_def)

lemma setups_put [simp]: "setups (put_entry nm e r) = (setups r)(nm \<mapsto> setup_of e)"
  by (auto simp: setups_def fun_eq_iff)

lemma setups_remove [simp]: "setups (fst (remove_adapter nm r)) = (setups r)(nm := None)"
  by (auto simp: setups_def remove_adapter_def fun_eq_iff tick_tools_changed_def option.map_comp comp_def hm_get_remove
      split: option.splits)

lemma setups_insert: "setups (r\<lparr>r_adapters := hm_insert nm e (r_adapters r)\<rparr>) = (setups r)(nm \<mapsto> setup_of e)"
  by (auto simp: setups_def fun_eq_iff hm_get_insert)

lemma setups_register [simp]:
  "setups (register_endpoint ep a nm r) = (setups r)(nm \<mapsto> configured ep a False [])"
  by (simp add: register_endpoint_def register_adapter_def setups_insert) (simp add: setup_of_def configured_def)

lemma setups_switches [simp]:
  "setups (set_switches nm d ts r) =
     (setups r)(nm := map_option (\<lambda>s. s\<lparr>su_disabled := d, su_tools := ts\<rparr>) (setups r nm))"
  by (auto simp: set_switches_def setups_def fun_eq_iff setup_of_def split: option.splits)

lemma setups_names: "nm \<in> fst ` set (r_adapters r) \<longleftrightarrow> setups r nm \<noteq> None"
  using hm_get_eq_None [of "r_adapters r" nm] by (auto simp: setups_def)

text \<open>The switches a changed endpoint keeps.\<close>

definition kept_switches :: "endpoint_setup option \<Rightarrow> endpoint_config \<Rightarrow> bool \<times> string list" where
  "kept_switches s ep = (case s of Some s \<Rightarrow> (su_disabled s, su_tools s) | None \<Rightarrow> (ec_disabled ep, ec_disabled_tools ep))"

lemma apply_changed_effect:
  "setups (rs_registry (apply_changed ws orgs (nm, ep) st)) = (setups (rs_registry st))(nm \<mapsto>
     configured ep (first_adapter ws nm ep) (fst (kept_switches (setups (rs_registry st) nm) ep))
       (snd (kept_switches (setups (rs_registry st) nm) ep)))"
  "rs_pending (apply_changed ws orgs (nm, ep) st) =
     rs_pending st @ new_tasks ws orgs nm ep (fst (kept_switches (setups (rs_registry st) nm) ep))"
  by (auto simp: apply_changed_def Let_def kept_switches_def setups_def setup_of_def configured_def split: option.splits)

lemma apply_added_effect:
  "setups (rs_registry (apply_added ws orgs ep st)) = (setups (rs_registry st))(ec_name ep \<mapsto>
     configured ep (first_adapter ws (ec_name ep) ep) (ec_disabled ep) (ec_disabled_tools ep))"
  "rs_pending (apply_added ws orgs ep st) = rs_pending st @ new_tasks ws orgs (ec_name ep) ep (ec_disabled ep)"
  by (auto simp: apply_added_def Let_def configured_def)

lemma removed_effect:
  "setups (rs_registry (fold apply_removed ns st)) = (\<lambda>k. if k \<in> set ns then None else setups (rs_registry st) k)"
  "rs_pending (fold apply_removed ns st) = rs_pending st"
  by (induction ns arbitrary: st) (auto simp: apply_removed_def fun_eq_iff)

lemma changed_effect:
  assumes "distinct (map fst ps)"
  shows "setups (rs_registry (fold (apply_changed ws orgs) ps st)) = (\<lambda>k.
      case map_of ps k of
        Some ep \<Rightarrow> Some (configured ep (first_adapter ws k ep) (fst (kept_switches (setups (rs_registry st) k) ep))
          (snd (kept_switches (setups (rs_registry st) k) ep)))
      | None \<Rightarrow> setups (rs_registry st) k)"
  using assms
proof (induction ps arbitrary: st)
  case (Cons p ps)
  obtain nm ep where p: "p = (nm, ep)" by (cases p)
  then have "map_of ps nm = None" using Cons.prems by (auto simp: map_of_eq_None_iff)
  then show ?case
    using Cons.IH [of "apply_changed ws orgs (nm, ep) st"] Cons.prems
    by (auto simp: p apply_changed_effect fun_eq_iff split: option.split)
qed simp

lemma changed_pending:
  assumes "distinct (map fst ps)"
  shows "rs_pending (fold (apply_changed ws orgs) ps st) = rs_pending st @
      concat (map (\<lambda>(nm, ep). new_tasks ws orgs nm ep (fst (kept_switches (setups (rs_registry st) nm) ep))) ps)"
  using assms
proof (induction ps arbitrary: st)
  case (Cons p ps)
  obtain nm ep where p: "p = (nm, ep)" by (cases p)
  have same: "map (\<lambda>(nm, ep). new_tasks ws orgs nm ep (fst (kept_switches (setups (rs_registry (apply_changed ws orgs p st)) nm) ep))) ps =
      map (\<lambda>(nm, ep). new_tasks ws orgs nm ep (fst (kept_switches (setups (rs_registry st) nm) ep))) ps"
    using Cons.prems by (intro map_cong) (auto simp: p apply_changed_effect image_iff)
  show ?case
    using Cons.IH [of "apply_changed ws orgs p st", unfolded same] Cons.prems by (simp add: p apply_changed_effect(2))
qed simp

lemma added_effect:
  assumes "distinct (map ec_name eps)"
  shows "setups (rs_registry (fold (apply_added ws orgs) eps st)) = (\<lambda>k.
      case find (\<lambda>ep. ec_name ep = k) eps of
        Some ep \<Rightarrow> Some (configured ep (first_adapter ws k ep) (ec_disabled ep) (ec_disabled_tools ep))
      | None \<Rightarrow> setups (rs_registry st) k)"
  using assms
proof (induction eps arbitrary: st)
  case (Cons ep eps)
  have "find (\<lambda>e. ec_name e = ec_name ep) eps = None"
    using Cons.prems by (auto simp: find_None_iff image_iff)
  then show ?case using Cons.IH [of "apply_added ws orgs ep st"] Cons.prems
    by (auto simp: apply_added_effect fun_eq_iff split: option.split)
qed simp

lemma added_pending:
  "rs_pending (fold (apply_added ws orgs) eps st) = rs_pending st @
     concat (map (\<lambda>ep. new_tasks ws orgs (ec_name ep) ep (ec_disabled ep)) eps)"
  by (induction eps arbitrary: st) (simp_all add: apply_added_effect)

section \<open>Background initialisations\<close>

abbreviation task_name :: "init_task \<Rightarrow> string" where
  "task_name t \<equiv> ec_name (it_config t)"

lemma finish_effect:
  assumes "rs_pending st \<noteq> []"
  obtains xs t ys where "rs_pending st = xs @ t # ys" "rs_pending (finish_init create down k st) = xs @ ys"
    "setups (rs_registry (finish_init create down k st)) = (setups (rs_registry st))(task_name t :=
       map_option (\<lambda>s. s\<lparr>su_adapter := install_adapter create down t\<rparr>) (setups (rs_registry st) (task_name t)))"
proof -
  let ?i = "k mod length (rs_pending st)"
  let ?t = "rs_pending st ! ?i"
  have i: "?i < length (rs_pending st)" using assms by simp
  have "rs_pending st = take ?i (rs_pending st) @ ?t # drop (Suc ?i) (rs_pending st)"
    using i by (simp add: id_take_nth_drop)
  moreover have "rs_pending (finish_init create down k st) = take ?i (rs_pending st) @ drop (Suc ?i) (rs_pending st)"
    using assms by (simp add: finish_init_def Let_def)
  moreover have "setups (rs_registry (finish_init create down k st)) = (setups (rs_registry st))(task_name ?t :=
      map_option (\<lambda>s. s\<lparr>su_adapter := install_adapter create down ?t\<rparr>) (setups (rs_registry st) (task_name ?t)))"
    using assms by (auto simp: finish_init_def Let_def setups_def fun_eq_iff setup_of_def split: option.splits)
  ultimately show ?thesis by (rule that)
qed

lemma find_without:
  "n t \<notin> n ` set xs \<Longrightarrow> find (\<lambda>u. n u = k) (xs @ t # ys) = (if k = n t then Some t else find (\<lambda>u. n u = k) (xs @ ys))"
  by (induction xs) auto

lemma find_distinct: "distinct (map n xs) \<Longrightarrow> x \<in> set xs \<Longrightarrow> find (\<lambda>u. n u = n x) xs = Some x"
  by (induction xs) (auto simp: image_iff)

text \<open>Whatever the order, when no two initialisations are for the same endpoint every one of them takes effect.\<close>

lemma finish_all_effect:
  assumes "distinct (map task_name (rs_pending st))" "length ks = length (rs_pending st)"
  shows "rs_pending (finish_all create down ks st) = [] \<and>
    setups (rs_registry (finish_all create down ks st)) = (\<lambda>k.
      case find (\<lambda>t. task_name t = k) (rs_pending st) of
        Some t \<Rightarrow> map_option (\<lambda>s. s\<lparr>su_adapter := install_adapter create down t\<rparr>) (setups (rs_registry st) k)
      | None \<Rightarrow> setups (rs_registry st) k)"
  using assms
proof (induction ks arbitrary: st)
  case Nil
  then show ?case by (simp add: finish_all_def)
next
  case (Cons k ks)
  then have ne: "rs_pending st \<noteq> []" by auto
  obtain xs t ys where f: "rs_pending st = xs @ t # ys" "rs_pending (finish_init create down k st) = xs @ ys"
    "setups (rs_registry (finish_init create down k st)) = (setups (rs_registry st))(task_name t :=
       map_option (\<lambda>s. s\<lparr>su_adapter := install_adapter create down t\<rparr>) (setups (rs_registry st) (task_name t)))"
    using finish_effect [OF ne] by blast
  let ?st = "finish_init create down k st"
  have d: "distinct (map task_name (rs_pending ?st))" "length ks = length (rs_pending ?st)"
    using Cons.prems f by auto
  note IH = Cons.IH [OF d]
  have step: "finish_all create down (k # ks) st = finish_all create down ks ?st" by (simp add: finish_all_def)
  have none: "find (\<lambda>u. task_name u = task_name t) (xs @ ys) = None"
    using Cons.prems(1) f(1) by (auto simp: find_None_iff image_iff)
  have found: "find (\<lambda>u. task_name u = k') (xs @ t # ys) =
      (if k' = task_name t then Some t else find (\<lambda>u. task_name u = k') (xs @ ys))" for k'
    using Cons.prems(1) f(1) by (intro find_without) auto
  show ?case
    unfolding step using IH none by (auto simp: f found fun_eq_iff split: option.splits)
qed

section \<open>A whole reload\<close>

lemma by_name_keys: "(n, e) \<in> set (by_name eps) \<Longrightarrow> ec_name e = n"
proof -
  assume "(n, e) \<in> set (by_name eps)"
  then have "find (\<lambda>e. ec_name e = n) (rev eps) = Some e" by (simp add: hm_in_set by_name_get [symmetric])
  then show ?thesis by (auto simp: find_Some_iff)
qed

lemma diff_distinct:
  "distinct (map fst (cd_changed (diff_configs old new)))" "distinct (map ec_name (cd_added (diff_configs old new)))"
proof -
  have "distinct (map fst (filter P (by_name eps)))" for P eps
    using by_name_wf [of eps] by (simp add: hm_wf_def distinct_map_filter)
  moreover have "map ec_name (map snd (filter P (by_name eps))) = map fst (filter P (by_name eps))" for P eps
    by (auto intro: by_name_keys)
  ultimately show "distinct (map fst (cd_changed (diff_configs old new)))"
    "distinct (map ec_name (cd_added (diff_configs old new)))"
    by (simp_all add: diff_configs_def Let_def del: map_map)
qed

text \<open>\<open>unchanged_in old ep\<close>: the old configuration has an endpoint of that name that the difference takes for the same.\<close>

definition unchanged_in :: "config \<Rightarrow> endpoint_config \<Rightarrow> bool" where
  "unchanged_in old ep = (\<exists>o' \<in> set (cf_endpoints old). ec_name o' = ec_name ep \<and> same_endpoint o' ep)"

definition serves_config :: "config \<Rightarrow> 'v registry \<Rightarrow> bool" where
  "serves_config c r = (\<forall>k. setups r k \<noteq> None \<longleftrightarrow> k \<in> ec_name ` set (cf_endpoints c))"

definition reload_target ::
  "(endpoint_config \<Rightarrow> organization list \<Rightarrow> adapter_view) \<Rightarrow> (adapter_view \<Rightarrow> adapter_view) \<Rightarrow> warning list \<Rightarrow> organization list \<Rightarrow> config \<Rightarrow> 'v registry \<Rightarrow>
   endpoint_config \<Rightarrow>    endpoint_setup option" where
  "reload_target create down ws orgs old r ep =
     (let s = setups r (ec_name ep); (disabled, tools) = kept_switches s ep
      in if unchanged_in old ep then s
         else Some (configured ep
           (if ec_name ep \<in> warned_endpoint_names ws then first_adapter ws (ec_name ep) ep
            else install_adapter create down \<lparr>it_config = ep, it_organizations = orgs, it_disabled = disabled\<rparr>) disabled tools))"

lemma find_name:
  assumes "distinct (map ec_name eps)"
  shows "find (\<lambda>ep. ec_name ep = k) eps = Some ep \<longleftrightarrow> ep \<in> set eps \<and> ec_name ep = k"
  using assms find_distinct [of ec_name eps ep] by (auto simp: find_Some_iff in_set_conv_nth)

lemma map_of_iff: "distinct (map fst ps) \<Longrightarrow> map_of ps k = Some v \<longleftrightarrow> (k, v) \<in> set ps"
  by simp

text \<open>After the difference is applied, and before any initialisation ends.\<close>

lemma applied_setups:
  assumes old: "distinct (map ec_name (cf_endpoints old))" and new: "distinct (map ec_name (cf_endpoints new))"
    and serves: "serves_config old r" and st_def: "st = apply_diff_graceful ws orgs (diff_configs old new) \<lparr>rs_registry = r, rs_pending = []\<rparr>"
  shows "ep \<in> set (cf_endpoints new) \<Longrightarrow> setups (rs_registry st) (ec_name ep) =
      (if unchanged_in old ep then setups r (ec_name ep)
       else Some (configured ep (first_adapter ws (ec_name ep) ep) (fst (kept_switches (setups r (ec_name ep)) ep))
         (snd (kept_switches (setups r (ec_name ep)) ep))))"
    and "k \<notin> ec_name ` set (cf_endpoints new) \<Longrightarrow> setups (rs_registry st) k = None"
proof -
  let ?d = "diff_configs old new"
  note sets = diff_sets [OF old new]
  note dist = diff_distinct [of old new]
  have chg: "map_of (cd_changed ?d) k = Some ep \<longleftrightarrow> ep \<in> set (cf_endpoints new) \<and> ec_name ep = k \<and>
      (\<exists>o' \<in> set (cf_endpoints old). ec_name o' = k \<and> \<not> same_endpoint o' ep)" for k ep
    using sets map_of_iff [OF dist(1)] by auto
  have add: "find (\<lambda>ep. ec_name ep = k) (cd_added ?d) = Some ep \<longleftrightarrow>
      ep \<in> set (cf_endpoints new) \<and> ec_name ep = k \<and> k \<notin> ec_name ` set (cf_endpoints old)" for k ep
    using sets find_name [OF dist(2)] by auto
  have not_added: "find (\<lambda>ep. ec_name ep = k) (cd_added ?d) = None" if "k \<in> ec_name ` set (cf_endpoints old)" for k
    using add [of k] that by (metis not_None_eq)
  have st: "setups (rs_registry st) k =
      (case find (\<lambda>ep. ec_name ep = k) (cd_added ?d) of
         Some ep \<Rightarrow> Some (configured ep (first_adapter ws k ep) (ec_disabled ep) (ec_disabled_tools ep))
       | None \<Rightarrow> (case map_of (cd_changed ?d) k of
           Some ep \<Rightarrow> Some (configured ep (first_adapter ws k ep)
             (fst (kept_switches (if k \<in> set (cd_removed ?d) then None else setups r k) ep))
             (snd (kept_switches (if k \<in> set (cd_removed ?d) then None else setups r k) ep)))
         | None \<Rightarrow> (if k \<in> set (cd_removed ?d) then None else setups r k)))" for k
    unfolding st_def apply_diff_graceful_def added_effect [OF dist(2)] changed_effect [OF dist(1)] removed_effect
    by (simp split: option.split)
  show "setups (rs_registry st) (ec_name ep) =
      (if unchanged_in old ep then setups r (ec_name ep)
       else Some (configured ep (first_adapter ws (ec_name ep) ep) (fst (kept_switches (setups r (ec_name ep)) ep))
         (snd (kept_switches (setups r (ec_name ep)) ep))))" if ep: "ep \<in> set (cf_endpoints new)"
  proof -
    have keep: "ec_name ep \<notin> set (cd_removed ?d)" using ep sets by auto
    consider (fresh) "ec_name ep \<notin> ec_name ` set (cf_endpoints old)"
      | (same) o' where "o' \<in> set (cf_endpoints old)" "ec_name o' = ec_name ep" "same_endpoint o' ep"
      | (other) o' where "o' \<in> set (cf_endpoints old)" "ec_name o' = ec_name ep" "\<not> same_endpoint o' ep"
      by (metis imageE)
    then show ?thesis
    proof cases
      case fresh
      then have "find (\<lambda>e. ec_name e = ec_name ep) (cd_added ?d) = Some ep" "\<not> unchanged_in old ep"
        "setups r (ec_name ep) = None"
        using ep add serves by (auto simp: unchanged_in_def serves_config_def image_iff)
      then show ?thesis by (simp add: st kept_switches_def)
    next
      case same
      have "find (\<lambda>e. ec_name e = ec_name ep) (cd_added ?d) = None"
        using same(1,2) by (intro not_added) (metis imageI)
      moreover have "map_of (cd_changed ?d) (ec_name ep) = None"
      proof (cases "map_of (cd_changed ?d) (ec_name ep)")
        case (Some e)
        then obtain o'' where o'': "o'' \<in> set (cf_endpoints old)" "ec_name o'' = ec_name ep" "\<not> same_endpoint o'' e"
          "e \<in> set (cf_endpoints new)" "ec_name e = ec_name ep"
          using chg by blast
        then have "o'' = o'" "e = ep" using same ep distinct_map_eq [OF old] distinct_map_eq [OF new] by metis+
        then show ?thesis using o'' same by simp
      qed
      moreover have "unchanged_in old ep" using same by (auto simp: unchanged_in_def)
      ultimately show ?thesis using keep by (simp add: st)
    next
      case other
      have "find (\<lambda>e. ec_name e = ec_name ep) (cd_added ?d) = None"
        using other(1,2) by (intro not_added) (metis imageI)
      moreover have "map_of (cd_changed ?d) (ec_name ep) = Some ep" using chg ep other by blast
      moreover have "\<not> unchanged_in old ep"
        using other distinct_map_eq [OF old] unfolding unchanged_in_def by metis
      ultimately show ?thesis using keep by (simp add: st)
    qed
  qed
  show "setups (rs_registry st) k = None" if k: "k \<notin> ec_name ` set (cf_endpoints new)" for k
  proof -
    have "ep \<in> set (cd_added ?d) \<Longrightarrow> ec_name ep \<noteq> k" for ep
      using k conjunct1 [OF sets] by auto
    then have a: "find (\<lambda>e. ec_name e = k) (cd_added ?d) = None" by (auto simp: find_None_iff)
    have "(k, ep) \<notin> set (cd_changed ?d)" for ep
      using k conjunct1 [OF conjunct2 [OF conjunct2 [OF sets]]] by auto
    then have c: "map_of (cd_changed ?d) k = None" by (force simp: map_of_eq_None_iff)
    have "setups r k = None" if "k \<notin> set (cd_removed ?d)"
    proof -
      have "k \<notin> ec_name ` set (cf_endpoints old)" using that k conjunct1 [OF conjunct2 [OF sets]] by auto
      then show ?thesis using serves unfolding serves_config_def by blast
    qed
    then show ?thesis by (simp add: st a c)
  qed
qed

text \<open>The initialisations a reload starts: one for every endpoint that is not unchanged and has no warning.\<close>

definition task_for :: "organization list \<Rightarrow> 'v registry \<Rightarrow> endpoint_config \<Rightarrow> init_task" where
  "task_for orgs r ep = \<lparr>it_config = ep, it_organizations = orgs, it_disabled = fst (kept_switches (setups r (ec_name ep)) ep)\<rparr>"

lemma new_tasks_concat:
  "concat (map (\<lambda>x. new_tasks ws orgs (n x) (c x) (d x)) xs) =
     map (\<lambda>x. \<lparr>it_config = c x, it_organizations = orgs, it_disabled = d x\<rparr>) (filter (\<lambda>x. n x \<notin> warned_endpoint_names ws) xs)"
  by (induction xs) (simp_all add: new_tasks_def)

lemma applied_pending:
  assumes old: "distinct (map ec_name (cf_endpoints old))" and new: "distinct (map ec_name (cf_endpoints new))"
    and serves: "serves_config old r" and st_def: "st = apply_diff_graceful ws orgs (diff_configs old new) \<lparr>rs_registry = r, rs_pending = []\<rparr>"
  shows "distinct (map task_name (rs_pending st))"
    and "t \<in> set (rs_pending st) \<longleftrightarrow> (\<exists>ep \<in> set (cf_endpoints new).
      \<not> unchanged_in old ep \<and> ec_name ep \<notin> warned_endpoint_names ws \<and> t = task_for orgs r ep)"
proof -
  let ?d = "diff_configs old new"
  let ?w = "\<lambda>n. n \<notin> warned_endpoint_names ws"
  note sets = diff_sets [OF old new]
  note added = conjunct1 [OF sets] and removed = conjunct1 [OF conjunct2 [OF sets]]
    and changed = conjunct1 [OF conjunct2 [OF conjunct2 [OF sets]]]
  note dist = diff_distinct [of old new]
  have keys: "(n, ep) \<in> set (cd_changed ?d) \<Longrightarrow> ec_name ep = n \<and> n \<notin> set (cd_removed ?d) \<and> n \<in> ec_name ` set (cf_endpoints old)"
    for n ep unfolding changed removed by (auto intro: image_eqI [OF sym])
  have absent: "ep \<in> set (cd_added ?d) \<Longrightarrow> setups r (ec_name ep) = None" for ep
    using serves unfolding serves_config_def added by blast
  have "rs_pending st =
      map (\<lambda>(n, ep). \<lparr>it_config = ep, it_organizations = orgs, it_disabled =
        fst (kept_switches (if n \<in> set (cd_removed ?d) then None else setups r n) ep)\<rparr>) (filter (\<lambda>(n, ep). ?w n) (cd_changed ?d)) @
      map (\<lambda>ep. \<lparr>it_config = ep, it_organizations = orgs, it_disabled = ec_disabled ep\<rparr>) (filter (\<lambda>ep. ?w (ec_name ep)) (cd_added ?d))"
    unfolding st_def apply_diff_graceful_def added_pending changed_pending [OF dist(1)] removed_effect
    using new_tasks_concat [of ws orgs fst snd "\<lambda>p. fst (kept_switches (if fst p \<in> set (cd_removed ?d) then None else setups r (fst p)) (snd p))"]
      new_tasks_concat [of ws orgs ec_name "\<lambda>ep. ep" ec_disabled]
    by (simp add: case_prod_unfold cong: if_cong)
  also have "\<dots> = map (task_for orgs r) (map snd (filter (\<lambda>(n, ep). ?w n) (cd_changed ?d)) @ filter (\<lambda>ep. ?w (ec_name ep)) (cd_added ?d))"
    using keys absent by (auto simp: task_for_def kept_switches_def split: option.splits)
  finally have pending: "rs_pending st =
    map (task_for orgs r) (map snd (filter (\<lambda>(n, ep). ?w n) (cd_changed ?d)) @ filter (\<lambda>ep. ?w (ec_name ep)) (cd_added ?d))" .
  have names: "map ec_name (map snd (filter (\<lambda>(n, ep). ?w n) (cd_changed ?d))) = map fst (filter (\<lambda>(n, ep). ?w n) (cd_changed ?d))"
    using keys by auto
  have disjoint: "(ec_name ep, e) \<notin> set (cd_changed ?d)" if "ep \<in> set (cd_added ?d)" for ep e
    using that keys unfolding added by force
  have task: "task_name (task_for orgs r ep) = ec_name ep" for ep by (simp add: task_for_def)
  have "map task_name (rs_pending st) = map fst (filter (\<lambda>(n, ep). ?w n) (cd_changed ?d)) @
      map ec_name (filter (\<lambda>ep. ?w (ec_name ep)) (cd_added ?d))"
    using names by (simp add: pending task comp_def)
  then show "distinct (map task_name (rs_pending st))"
    using dist disjoint by (auto simp: distinct_map_filter)
  have "ep \<in> set (map snd (filter (\<lambda>(n, ep). ?w n) (cd_changed ?d)) @ filter (\<lambda>ep. ?w (ec_name ep)) (cd_added ?d)) \<longleftrightarrow>
      ep \<in> set (cf_endpoints new) \<and> \<not> unchanged_in old ep \<and> ?w (ec_name ep)" for ep
    using distinct_map_eq [OF old] unfolding unchanged_in_def by (auto simp: added changed image_iff) metis+
  then show "t \<in> set (rs_pending st) \<longleftrightarrow> (\<exists>ep \<in> set (cf_endpoints new).
      \<not> unchanged_in old ep \<and> ec_name ep \<notin> warned_endpoint_names ws \<and> t = task_for orgs r ep)"
    unfolding pending set_map image_iff by blast
qed

lemma task_found:
  assumes "distinct (map task_name ts)"
  shows "find (\<lambda>t. task_name t = k) ts = Some t \<longleftrightarrow> t \<in> set ts \<and> task_name t = k"
  using assms find_distinct [of task_name ts t] by (auto simp: find_Some_iff in_set_conv_nth)



section \<open>Overlapping reloads\<close>

definition one_change :: "string \<Rightarrow> endpoint_config \<Rightarrow> config_diff" where
  "one_change nm ep = \<lparr>cd_added = [], cd_removed = [], cd_changed = [(nm, ep)], cd_unchanged = [], cd_organizations_changed = False\<rparr>"

text \<open>Two reloads that change one enabled endpoint, the second before the initialisation of the first has ended:
  when the initialisations end in the other order, the endpoint ends up with the adapter of the older configuration
  under the transport, description and prefix of the newer one, with nothing pending that would correct it; when they
  end in the order they were started, the adapter is the newer one.\<close>

theorem stale_init_wins:
  assumes "ec_name v2 = nm" "ec_name v3 = nm" "setups r nm = Some s" "\<not> su_disabled s"
  shows "(let st = apply_diff orgs (one_change nm v3) (apply_diff orgs (one_change nm v2) \<lparr>rs_registry = r, rs_pending = []\<rparr>)
    in rs_pending (finish_all create down [1, 0] st) = [] \<and>
       setups (rs_registry (finish_all create down [1, 0] st)) nm = Some (configured v3 (create v2 orgs) False (su_tools s)) \<and>
       setups (rs_registry (finish_all create down [0, 0] st)) nm = Some (configured v3 (create v3 orgs) False (su_tools s)))"
proof -
  let ?st1 = "apply_changed [] orgs (nm, v2) \<lparr>rs_registry = r, rs_pending = []\<rparr>"
  let ?st = "apply_changed [] orgs (nm, v3) ?st1"
  have k1: "kept_switches (setups r nm) v2 = (False, su_tools s)" using assms by (simp add: kept_switches_def)
  then have k2: "kept_switches (setups (rs_registry ?st1) nm) v3 = (False, su_tools s)"
    by (simp add: apply_changed_effect kept_switches_def configured_def)
  have pend: "rs_pending ?st = [\<lparr>it_config = v2, it_organizations = orgs, it_disabled = False\<rparr>, \<lparr>it_config = v3, it_organizations = orgs, it_disabled = False\<rparr>]"
    using k1 k2 by (simp add: apply_changed_effect new_tasks_def warned_endpoint_names_def)
  have su: "setups (rs_registry ?st) nm = Some (configured v3 starting_adapter False (su_tools s))"
    using k2 by (simp add: apply_changed_effect first_adapter_def warned_endpoint_names_def)
  have step: "setups (rs_registry (finish_init create down i u)) = (setups (rs_registry u))(task_name t :=
      map_option (\<lambda>s. s\<lparr>su_adapter := install_adapter create down t\<rparr>) (setups (rs_registry u) (task_name t)))"
    if "rs_pending u \<noteq> []" "rs_pending u ! (i mod length (rs_pending u)) = t" for i u t
    using that by (auto simp: finish_init_def Let_def setups_def fun_eq_iff setup_of_def split: option.splits)
  have rest: "rs_pending (finish_init create down i u) =
      take (i mod length (rs_pending u)) (rs_pending u) @ drop (Suc (i mod length (rs_pending u))) (rs_pending u)"
    if "rs_pending u \<noteq> []" for i u
    using that by (simp add: finish_init_def Let_def)
  have st: "apply_diff orgs (one_change nm v3) (apply_diff orgs (one_change nm v2) \<lparr>rs_registry = r, rs_pending = []\<rparr>) = ?st"
    by (simp add: apply_diff_def apply_diff_graceful_def one_change_def)
  show ?thesis
    unfolding Let_def st using assms
    by (simp add: finish_all_def step rest pend su install_adapter_def configured_def numeral_2_eq_2)
qed

theorem stale_init_wins_witness:
  "(let r = register_endpoint (plain_endpoint ''fs'') starting_adapter ''fs'' (new_registry :: nat registry);
        v2 = (plain_endpoint ''fs'')\<lparr>ec_url := Some ''http://old''\<rparr>; v3 = (plain_endpoint ''fs'')\<lparr>ec_url := Some ''http://new''\<rparr>;
        create = (\<lambda>ep orgs. failed_adapter (unwrap_or [] (ec_url ep)) None);
        st = apply_diff [] (one_change ''fs'' v3) (apply_diff [] (one_change ''fs'' v2) \<lparr>rs_registry = r, rs_pending = []\<rparr>)
    in setups (rs_registry (finish_all create id [1, 0] st)) ''fs'' = Some (configured v3 (failed_adapter ''http://old'' None) False []))"
proof -
  have nm: "ec_name ((plain_endpoint ''fs'')\<lparr>ec_url := u\<rparr>) = ''fs''" for u by (simp add: plain_endpoint_def)
  have su: "setups (register_endpoint (plain_endpoint ''fs'') starting_adapter ''fs'' (new_registry :: nat registry)) ''fs'' =
      Some (configured (plain_endpoint ''fs'') starting_adapter False [])" by simp
  have on: "\<not> su_disabled (configured (plain_endpoint ''fs'') starting_adapter False [])" by (simp add: configured_def)
  show ?thesis
    using stale_init_wins [OF nm [of "Some ''http://old''"] nm [of "Some ''http://new''"] su on,
        where orgs = "[]" and create = "\<lambda>ep orgs. failed_adapter (unwrap_or [] (ec_url ep)) None" and down = id]
    by (simp add: Let_def configured_def unwrap_or_def)
qed

end
