(* ===== verification/Dispatch.thy ===== *)
theory Dispatch
  imports Caching
begin

text \<open>
  What routing promises: which requests reach which adapter, what the caller and the event bus are told
  otherwise, what is captured, and that everything listed can be called, read or fetched by the name it
  was listed under.
\<close>

section \<open>Tool calls\<close>

text \<open>\<open>admitted\<close>: every gate between the lookup and the adapter lets the call through.\<close>

definition admitted ::
  "'v wiring \<Rightarrow> catalog \<Rightarrow> string \<Rightarrow> json \<Rightarrow> 'v registry \<Rightarrow> string \<Rightarrow> string \<Rightarrow> registered_adapter \<Rightarrow> bool" where
  "admitted w c n args r ep tool e =
     (hm_get (snd c) n = Some (ep, tool) \<and> hm_get (r_adapters r) ep = Some e \<and> \<not> ra_disabled e \<and>
      av_health (ra_adapter e) = Healthy \<and> tool \<notin> set (ra_disabled_tools e) \<and>
      snd (schema_gate w (fst c) n args r) = None)"

lemma schema_gate_adapters [simp]: "r_adapters (fst (schema_gate w cat n args r)) = r_adapters r"
  by (auto simp: schema_gate_def validate_arguments_def compiled_validator_def case_prod_beta Let_def split: option.splits)

lemma skip_wrap_gate [simp]: "skip_wrap (fst (schema_gate w cat n args r)) = skip_wrap r"
  by (simp add: skip_wrap_def all_endpoint_count_def)

lemma publish_pair_no_call [simp]: "CallTool ep t a p \<notin> set (publish_pair w tool endpoint tr st sn status msg)"
  by (simp add: publish_pair_def)

lemma capture_no_call [simp]: "CallTool ep t a p \<noteq> capture_record w e ep' t' a' res"
  by (simp add: capture_record_def case_prod_beta Let_def)

lemma gate_None: "gate e ep tool = None \<longleftrightarrow>
    \<not> ra_disabled e \<and> av_health (ra_adapter e) = Healthy \<and> tool \<notin> set (ra_disabled_tools e)"
  by (simp add: gate_def)

lemma route_admitted:
  assumes "admitted w c n args r ep tool e"
  shows "route_resolved w c n args params r =
    (fst (schema_gate w (fst c) n args r), dispatch_tool_call w r e ep tool args params)"
proof -
  have "dispatch_tool_call w (fst (schema_gate w (fst c) n args r)) e ep tool args params =
      dispatch_tool_call w r e ep tool args params"
    by (simp add: dispatch_tool_call_def call_adapter_def)
  then show ?thesis
    using assms gate_None [of e ep tool]
    by (simp add: route_resolved_def admitted_def case_prod_beta)
qed

text \<open>How a call that is not admitted is turned away: the status on the bus, the message, the reply.\<close>

definition turned_away :: "'v wiring \<Rightarrow> effect list \<Rightarrow> adapter_error + json \<Rightarrow> bool" where
  "turned_away w effs res =
     (\<exists>tool ep tr st sn status msg.
        effs = publish_pair w tool ep tr st sn status msg \<and>
        (status = ''error'' \<and> res = Inl (ProtocolError msg) \<or>
         status = ''validation_error'' \<and> (\<exists>v. res = Inr v \<and> tool_result_error_message v \<noteq> None)))"

lemma schema_verdict_error:
  assumes "snd (schema_gate w cat n args r) = Some (v, msg)"
  shows "tool_result_error_message v \<noteq> None"
proof -
  have "\<exists>text. v = JObj [(''content'', JArr [JObj [(''type'', JStr ''text''), (''text'', JStr text)]]),
                         (''isError'', JBool True)]"
    using assms
    by (auto simp: schema_gate_def validate_arguments_def validate_with_validator_def case_prod_beta Let_def
        split: if_splits option.splits list.splits bind_splits)
  then show ?thesis by (auto simp: tool_result_error_message_def hm_get_Cons Let_def)
qed

lemma route_turned_away:
  assumes "\<And>ep tool e. \<not> admitted w c n args r ep tool e"
    and "route_resolved w c n args params r = (r', effs, res)"
  shows "turned_away w effs res"
proof -
  have reject: "turned_away w effs res" if "publish_early_rejection w tool ep tr st sn msg = (effs, res)"
    for tool ep tr st sn msg
    using that unfolding turned_away_def publish_early_rejection_def by blast
  show ?thesis
  proof (cases "hm_get (snd c) n")
    case None
    then show ?thesis using assms(2) reject by (auto simp: route_resolved_def)
  next
    case (Some owner)
    obtain ep tool where owner: "owner = (ep, tool)" by (cases owner)
    show ?thesis
    proof (cases "hm_get (r_adapters r) ep")
      case None
      then show ?thesis using assms(2) reject Some owner by (auto simp: route_resolved_def)
    next
      case e: (Some e)
      show ?thesis
      proof (cases "gate e ep tool")
        case (Some msg)
        then show ?thesis using assms(2) reject \<open>hm_get (snd c) n = Some owner\<close> owner e
          by (auto simp: route_resolved_def)
      next
        case None
        then obtain v msg where v: "snd (schema_gate w (fst c) n args r) = Some (v, msg)"
          using assms(1) [of ep tool e] Some owner e gate_None [of e ep tool] by (auto simp: admitted_def)
        then have "effs = publish_validation_failure w tool ep (ra_transport e)
             (av_server_type (ra_adapter e)) (av_upstream_name (ra_adapter e)) msg \<and> res = Inr v"
          using assms(2) Some owner e None by (simp add: route_resolved_def case_prod_beta)
        then show ?thesis
          using schema_verdict_error [OF v] unfolding turned_away_def publish_validation_failure_def by blast
      qed
    qed
  qed
qed

text \<open>C3: a routed tool call reaches an adapter exactly if the catalog knows the name, the owner is still
  registered, enabled and healthy, the tool is not disabled and the arguments pass its schema; then
  that one adapter is called once, with the upstream's own name for the tool and the arguments and
  parameters unchanged, and its answer comes back with the resource pointers wrapped.\<close>

theorem tool_call_reaches:
  fixes w :: "'v wiring" and r :: "'v registry" and c :: catalog and n :: string and args :: json
    and params :: "(string \<times> json) list"
  defines "effs \<equiv> fst (snd (route_resolved w c n args params r))"
    and "res \<equiv> snd (snd (route_resolved w c n args params r))"
  shows "(\<forall>ep tool a p. CallTool ep tool a p \<in> set effs \<longleftrightarrow>
      (\<exists>e. admitted w c n args r ep tool e) \<and> a = args \<and> p = params) \<and>
    (\<forall>ep tool e. admitted w c n args r ep tool e \<longrightarrow>
       effs = CallTool ep tool args params # (if captures w then [capture_record w e ep tool args res] else []) \<and>
       res = map_sum id (\<lambda>v. rewrite_tool_call_result (w_encode w) v ep (skip_wrap r))
         (av_call (ra_adapter e) tool args params))"
proof (cases "\<exists>ep tool e. admitted w c n args r ep tool e")
  case True
  then obtain ep tool e where adm: "admitted w c n args r ep tool e" by blast
  have only: "ep' = ep \<and> tool' = tool \<and> e' = e" if "admitted w c n args r ep' tool' e'" for ep' tool' e'
    using that adm by (auto simp: admitted_def)
  have routed: "effs = CallTool ep tool args params # (if captures w then [capture_record w e ep tool args res] else [])"
    "res = map_sum id (\<lambda>v. rewrite_tool_call_result (w_encode w) v ep (skip_wrap r)) (av_call (ra_adapter e) tool args params)"
    unfolding effs_def res_def route_admitted [OF adm]
    by (simp_all add: dispatch_tool_call_def call_adapter_def Let_def)
  show ?thesis
  proof (intro conjI allI impI)
    show "CallTool ep' tool' a p \<in> set effs \<longleftrightarrow> (\<exists>e. admitted w c n args r ep' tool' e) \<and> a = args \<and> p = params"
      for ep' tool' a p
    proof -
      have "CallTool ep' tool' a p \<in> set effs \<longleftrightarrow> ep' = ep \<and> tool' = tool \<and> a = args \<and> p = params"
        unfolding routed(1) by simp
      then show ?thesis using only adm by blast
    qed
  qed (use routed only in blast)+
next
  case False
  then have "turned_away w effs res"
    by (intro route_turned_away [where r' = "fst (route_resolved w c n args params r)"]) (auto simp: effs_def res_def)
  then have "CallTool ep tool a p \<notin> set effs" for ep tool a p
    unfolding turned_away_def by auto
  with False show ?thesis by blast
qed

text \<open>A tool call that reaches no adapter is told so on both channels: the caller gets a protocol error
  and the bus a started and a failed event with the same id and the same message and status \<open>error\<close>, or
  the arguments were invalid and the caller gets an error result and the failed event has status
  \<open>validation_error\<close>; without a bus there is no event, and nothing is captured either way.\<close>

theorem rejection_reported:
  assumes "\<And>ep tool e. \<not> admitted w c n args r ep tool e"
    and "route_resolved w c n args params r = (r', effs, res)"
  shows "r_adapters r' = r_adapters r \<and>
    (\<not> w_bus w \<and> effs = [] \<or>
     (\<exists>ep tr st sn tool status msg.
       effs = [SendEvent (CallStarted (w_uuid w) (cs_request_uid (w_span w)) (w_iso_now w) ep tr st sn
                 (cs_profile (w_span w)) tool None (cs_client (w_span w))),
               SendEvent (CallFailed (w_uuid w) (w_iso_now w) 0 status msg)] \<and>
       (status = ''error'' \<and> res = Inl (ProtocolError msg) \<or>
        status = ''validation_error'' \<and> (\<exists>v. res = Inr v \<and> tool_result_error_message v \<noteq> None)))) \<and>
    ((\<exists>msg. res = Inl (ProtocolError msg)) \<or> (\<exists>v. res = Inr v \<and> tool_result_error_message v \<noteq> None))"
proof -
  have "r_adapters (fst (route_resolved w c n args params r)) = r_adapters r"
    by (auto simp: route_resolved_def case_prod_beta split: option.splits)
  moreover obtain tool ep tr st sn status msg where t: "effs = publish_pair w tool ep tr st sn status msg"
    "status = ''error'' \<and> res = Inl (ProtocolError msg) \<or>
     status = ''validation_error'' \<and> (\<exists>v. res = Inr v \<and> tool_result_error_message v \<noteq> None)"
    using route_turned_away [OF assms] unfolding turned_away_def by blast
  ultimately show ?thesis
    using assms(2) by (cases "w_bus w") (auto simp: publish_pair_def)
qed

definition plain_wiring :: "unit wiring" where
  "plain_wiring = \<lparr>w_encode = pct_enc, w_decode = pct_dec, w_build_validator = (\<lambda>s. None),
     w_iter_errors = (\<lambda>v s a. []), w_to_string = (\<lambda>j. []), w_bus = True, w_observability = None,
     w_store_payloads = False, w_span = no_capture, w_now = 0, w_iso_now = [], w_millis = 0, w_elapsed_ms = 0,
     w_uuid = ''u'', w_utf8_error = []\<rparr>"

theorem rejection_reported_witness:
  "\<exists>effs msg. snd (route_resolved plain_wiring ([], []) ''x'' JNull [] (new_registry :: unit registry)) =
     (effs, Inl (ProtocolError msg)) \<and> length effs = 2"
proof -
  have na: "\<not> admitted plain_wiring ([], []) ''x'' JNull (new_registry :: unit registry) ep tool e" for ep tool e
    by (simp add: admitted_def)
  obtain r' effs res where r: "route_resolved plain_wiring ([], []) ''x'' JNull [] (new_registry :: unit registry) = (r', effs, res)"
    by (metis prod.exhaust)
  have "\<exists>msg. res = Inl (ProtocolError msg)"
    using r by (auto simp: route_resolved_def publish_early_rejection_def)
  moreover have "length effs = 2"
    using rejection_reported [OF na r] by (auto simp: plain_wiring_def)
  ultimately show ?thesis using r by simp
qed

text \<open>What is captured of a dispatched call: one record with the endpoint, the upstream's name of the
  tool and the caller, marked successful exactly if the adapter answered and the answer is not an error
  result; the message is the error's, and the end is the start plus the duration.\<close>

theorem capture_faithful:
  assumes "admitted w c n args r ep tool e" and "captures w"
  shows "\<exists>rec p. fst (snd (route_resolved w c n args params r)) = [CallTool ep tool args params, Capture rec p] \<and>
    cr_endpoint rec = Some ep \<and> cr_tool rec = tool \<and> cr_profile rec = cs_profile (w_span w) \<and>
    cr_client_name rec = Option.bind (cs_client (w_span w)) ci_name \<and>
    cr_ts_end rec = cr_ts_start rec + cr_duration_ms rec \<and>
    (case snd (snd (route_resolved w c n args params r)) of
       Inr v \<Rightarrow> cr_success rec = (tool_result_error_message v = None) \<and> cr_error_message rec = tool_result_error_message v
     | Inl err \<Rightarrow> \<not> cr_success rec \<and> cr_error_message rec = Some (display_error err)) \<and>
    (w_store_payloads w \<longleftrightarrow> p \<noteq> None) \<and> (p \<noteq> None \<longrightarrow> cp_request (the p) = args)"
  using assms(2) unfolding route_admitted [OF assms(1)]
  by (auto simp: dispatch_tool_call_def capture_record_def capture_outcome_def Let_def case_prod_beta
      split: sum.splits option.splits)

definition watched_wiring :: "unit wiring" where
  "watched_wiring = plain_wiring\<lparr>w_observability := Some True,
     w_span := \<lparr>cs_request_uid = Some ''r1'', cs_profile = None, cs_client = None\<rparr>\<rparr>"

definition fs_catalog :: catalog where
  "fs_catalog = ([], [(''read'', ''fs'', ''read'')])"

lemma fs_admitted:
  "admitted watched_wiring fs_catalog ''read'' JNull one_endpoint ''fs'' ''read'' (sample_entry ''fs'' [''read''])"
  by (simp add: admitted_def fs_catalog_def hm_get_Cons one_endpoint_def new_registry_def sample_defs schema_gate_def)

theorem capture_faithful_witness:
  "\<exists>rec p. fst (snd (route_resolved watched_wiring fs_catalog ''read'' JNull [] one_endpoint)) =
     [CallTool ''fs'' ''read'' JNull [], Capture rec p] \<and> cr_tool rec = ''read''"
proof -
  have "captures watched_wiring" by (simp add: captures_def watched_wiring_def plain_wiring_def)
  from capture_faithful [OF fs_admitted this, of "[]"] show ?thesis by blast
qed

theorem tool_call_reaches_witness:
  "CallTool ''fs'' ''read'' JNull [] \<in> set (fst (snd (route_resolved watched_wiring fs_catalog ''read'' JNull [] one_endpoint)))"
  using tool_call_reaches [of watched_wiring fs_catalog "''read''" JNull "[]" one_endpoint] fs_admitted by blast

section \<open>What is advertised can be called\<close>


definition both_endpoints :: "unit registry" where
  "both_endpoints = new_registry\<lparr>r_adapters := two_endpoints, r_validate_inputs := False\<rparr>"


section \<open>Resources and prompts come back\<close>

lemma dispatch_gate_ok:
  "hm_get (r_adapters r) ep = Some e \<Longrightarrow> \<not> ra_disabled e \<Longrightarrow> av_health (ra_adapter e) = Healthy \<Longrightarrow>
   dispatch_gate what n ep r = Inr e"
  by (simp add: dispatch_gate_def)

lemma json_get_json_insert: "json_get (json_insert k v j) k' =
    (case j of JObj m \<Rightarrow> if k' = k then Some v else json_get j k' | _ \<Rightarrow> None)"
  by (cases j) (auto simp: json_insert_def hm_get_insert)

text \<open>What \<open>resources/list\<close> returned can be read: for each resource with a URI that a healthy enabled
  endpoint lists, the merged list holds it under a URI whose read asks exactly that endpoint for the
  original URI and returns its answer verbatim, whether URIs are wrapped or a single endpoint passes
  them through.\<close>

theorem resource_list_read:
  assumes codec: "percent_codec (w_encode w) (w_decode w)" and wf: "hm_wf (r_adapters r)"
    and e: "hm_get (r_adapters r) ep = Some e" "\<not> ra_disabled e" "av_health (ra_adapter e) = Healthy"
    and listed: "av_resources (ra_adapter e) = Inr items" "item \<in> set items"
      "json_get item ''uri'' = Some (JStr uri)"
    and names: "routable ep" "is_utf8 uri"
  shows "\<exists>wrapped item'. item' \<in> set (list_resources w r) \<and> json_get item' ''uri'' = Some (JStr wrapped) \<and>
    (\<forall>k. k \<noteq> ''uri'' \<longrightarrow> json_get item' k = json_get item k) \<and>
    route_resource_read w wrapped r = ([ReadResource ep uri], av_read (ra_adapter e) uri)"
proof -
  let ?skip = "all_endpoint_count r \<le> 1"
  let ?wrap = "\<lambda>u. maybe_encode_resource_uri (w_encode w) ep u ?skip"
  have mem: "(ep, e) \<in> set (enabled (r_adapters r))" using e wf hm_get_in_set by (auto simp: enabled_def)
  obtain m where m: "item = JObj m" using listed(3) by (cases item) auto
  have in_list: "wrap_item ''uri'' ?wrap item \<in> set (list_resources w r)"
    using mem listed by (force simp: list_resources_def merge_items_def)
  have shape: "wrap_item ''uri'' ?wrap item = json_insert ''uri'' (JStr (?wrap uri)) item"
    using listed(3) by (simp add: wrap_item_def)
  have gate: "dispatch_resource_read_to ep uri r = ([ReadResource ep uri], av_read (ra_adapter e) uri)"
    using dispatch_gate_ok [OF e] by (simp add: dispatch_resource_read_to_def)
  have "route_resource_read w (?wrap uri) r = ([ReadResource ep uri], av_read (ra_adapter e) uri)"
  proof (cases ?skip)
    case True
    then have "enabled (r_adapters r) = [(ep, e)]"
      using mem by (cases "enabled (r_adapters r)") (auto simp: all_endpoint_count_def)
    then show ?thesis
      using True gate by (simp add: route_resource_read_def maybe_encode_resource_uri_def maybe_decode_resource_uri_def skip_wrap_def)
  next
    case False
    have "decode_resource_uri (w_decode w) (encode_resource_uri (w_encode w) ep uri) = Inr (ep, uri)"
      using decode_wrapped [where S = encode_set, OF codec percent_in_sets(1) names] by (simp add: encode_resource_uri_def)
    then show ?thesis
      using False gate by (simp add: route_resource_read_def maybe_encode_resource_uri_def maybe_decode_resource_uri_def skip_wrap_def)
  qed
  then show ?thesis
    using in_list shape m by (intro exI [of _ "?wrap uri"] exI [of _ "wrap_item ''uri'' ?wrap item"])
      (auto simp: json_get_json_insert)
qed

definition with_resource :: "string \<Rightarrow> registered_adapter \<Rightarrow> registered_adapter" where
  "with_resource u e = e\<lparr>ra_adapter := (ra_adapter e)\<lparr>av_resources := Inr [JObj [(''uri'', JStr u)]]\<rparr>\<rparr>"

definition resource_registry :: "unit registry" where
  "resource_registry = new_registry\<lparr>r_adapters :=
     [(''fs'', with_resource ''file:///a'' (sample_entry ''fs'' [])), (''git'', sample_entry ''git'' [])]\<rparr>"

theorem resource_list_read_witness:
  "\<exists>wrapped item'. item' \<in> set (list_resources plain_wiring resource_registry) \<and>
     json_get item' ''uri'' = Some (JStr wrapped) \<and>
     (\<forall>k. k \<noteq> ''uri'' \<longrightarrow> json_get item' k = json_get (JObj [(''uri'', JStr ''file:///a'')]) k) \<and>
     route_resource_read plain_wiring wrapped resource_registry = ([ReadResource ''fs'' ''file:///a''], Inr (JStr ''file:///a''))"
proof -
  let ?e = "with_resource ''file:///a'' (sample_entry ''fs'' [])"
  have codec: "percent_codec (w_encode plain_wiring) (w_decode plain_wiring)"
    by (simp add: plain_wiring_def pct.percent_codec_axioms)
  have answer: "Inr (JStr ''file:///a'') = av_read (ra_adapter ?e) ''file:///a''" by (simp add: with_resource_def sample_defs)
  show ?thesis unfolding answer
    by (rule resource_list_read [OF codec, of resource_registry "''fs''" ?e "[JObj [(''uri'', JStr ''file:///a'')]]"])
      (simp_all add: resource_registry_def new_registry_def hm_wf_def hm_get_Cons with_resource_def sample_defs routable_def
        is_ascii_utf8 is_ascii_def byte_def)
qed

end
