(* ===== verification/Profiles.thy ===== *)
theory Profiles
  imports Dispatch Config_Checks
begin

text \<open>
  Profiles (\<^verbatim>\<open>src/profile_registry.rs\<close>): a view of the registry restricted to a set of endpoints, and the
  registry of profiles with its hot reload. The interface the code tools use (\<^verbatim>\<open>MetaToolRegistry\<close>) is a
  locale, interpreted for the registry and for the view.
\<close>

section \<open>The view\<close>

definition keeps_allowed :: "string set \<Rightarrow> string \<times> string \<times> string \<Rightarrow> bool" where
  "keeps_allowed allowed p = (fst (snd p) \<in> allowed)"

definition restrict_catalog :: "string set \<Rightarrow> catalog \<Rightarrow> catalog" where
  "restrict_catalog allowed c =
     (let lookup = filter (keeps_allowed allowed) (snd c)
      in (filter (\<lambda>t. hm_contains lookup (ti_name t)) (fst c), lookup))"

definition view_merged_catalog :: "percent_encoder \<Rightarrow> nat \<Rightarrow> string set \<Rightarrow> 'v registry \<Rightarrow> 'v registry \<times> tool_info list" where
  "view_merged_catalog enc now allowed r =
     (let (r', cat, lookup) = merged_catalog_with_lookup enc now r
      in (r', filter (\<lambda>t. case hm_get lookup (ti_name t) of Some (ep, raw) \<Rightarrow> ep \<in> allowed | None \<Rightarrow> False) cat))"

definition view_merged_catalog_with_lookup ::
  "percent_encoder \<Rightarrow> nat \<Rightarrow> string set \<Rightarrow> 'v registry \<Rightarrow> 'v registry \<times> catalog" where
  "view_merged_catalog_with_lookup enc now allowed r =
     map_prod id (restrict_catalog allowed) (merged_catalog_with_lookup enc now r)"

definition profile_guard :: "string set \<Rightarrow> catalog \<Rightarrow> string \<Rightarrow> string option" where
  "profile_guard allowed c prefixed_name =
     (case hm_get (snd c) prefixed_name of
        None \<Rightarrow> Some (''no tool '' @ quoted prefixed_name @ '' in profile'')
      | Some (ep, raw) \<Rightarrow>
         (if ep \<notin> allowed then Some (''tool '' @ quoted prefixed_name @ '' is not available in this profile'') else None))"

text \<open>The guard reads the catalog and the inner call reads it again: \<open>between\<close> is what happens to the
  registry in the meantime.\<close>

definition view_route_with ::
  "('v registry \<Rightarrow> 'v registry) \<Rightarrow> 'v wiring \<Rightarrow> string set \<Rightarrow> string \<Rightarrow> json \<Rightarrow> (string \<times> json) list \<Rightarrow> 'v registry \<Rightarrow>
   'v registry \<times> effect list \<times> (adapter_error + json)" where
  "view_route_with between w allowed prefixed_name arguments params r =
     (let (r', c) = merged_catalog_with_lookup (w_encode w) (w_now w) r
      in case profile_guard allowed c prefixed_name of
           Some msg \<Rightarrow> (r', [], Inl (ProtocolError msg))
         | None \<Rightarrow> route_tool_call_with_request_params w prefixed_name arguments params (between r'))"

definition view_route_tool_call_with_request_params ::
  "'v wiring \<Rightarrow> string set \<Rightarrow> string \<Rightarrow> json \<Rightarrow> (string \<times> json) list \<Rightarrow> 'v registry \<Rightarrow>
   'v registry \<times> effect list \<times> (adapter_error + json)" where
  "view_route_tool_call_with_request_params = view_route_with id"

definition view_route_tool_call ::
  "'v wiring \<Rightarrow> string set \<Rightarrow> string \<Rightarrow> json \<Rightarrow> 'v registry \<Rightarrow> 'v registry \<times> effect list \<times> (adapter_error + json)" where
  "view_route_tool_call w allowed prefixed_name arguments r = view_route_with id w allowed prefixed_name arguments [] r"

definition view_list_resources :: "'v wiring \<Rightarrow> string set \<Rightarrow> 'v registry \<Rightarrow> json list" where
  "view_list_resources w allowed r = list_resources_in w allowed r"

definition view_list_resource_templates :: "'v wiring \<Rightarrow> string set \<Rightarrow> 'v registry \<Rightarrow> json list" where
  "view_list_resource_templates w allowed r = list_resource_templates_in w allowed r"

definition view_list_prompts :: "string set \<Rightarrow> 'v registry \<Rightarrow> json list" where
  "view_list_prompts allowed r = list_prompts_in allowed r"

definition view_route_prompt_get ::
  "'v wiring \<Rightarrow> string set \<Rightarrow> string \<Rightarrow> json option \<Rightarrow> 'v registry \<Rightarrow> effect list \<times> (adapter_error + json)" where
  "view_route_prompt_get w allowed prefixed_name arguments r =
     (case hm_get (snd (list_prompts_in_with_lookup allowed r)) prefixed_name of
        None \<Rightarrow> ([], Inl (ProtocolError (''no prompt '' @ quoted prefixed_name @ '' in profile'')))
      | Some (ep, raw) \<Rightarrow>
         (if ep \<notin> allowed
          then ([], Inl (ProtocolError (''prompt '' @ quoted prefixed_name @ '' is not available in this profile'')))
          else map_prod id (map_sum id (\<lambda>v. rewrite_prompt_get_result (w_encode w) v ep
                 (active_endpoint_count_in allowed r \<le> 1))) (dispatch_prompt_get_to ep raw arguments r)))"

definition view_route_resource_read ::
  "'v wiring \<Rightarrow> string set \<Rightarrow> string \<Rightarrow> 'v registry \<Rightarrow> effect list \<times> (adapter_error + json)" where
  "view_route_resource_read w allowed wrapped r =
     (case decode_resource_uri (w_decode w) wrapped of
        Inr (ep, original) \<Rightarrow>
          (if ep \<notin> allowed
           then ([], Inl (ProtocolError (''resource '' @ quoted wrapped @ '' is not available in this profile'')))
           else dispatch_resource_read_to ep original r)
      | Inl _ \<Rightarrow>
         (case find_single_active_endpoint_in allowed r of
            Some ep \<Rightarrow> dispatch_resource_read_to ep wrapped r
          | None \<Rightarrow> ([], Inl (ProtocolError (''no active endpoint to serve resource '' @ quoted wrapped)))))"

section \<open>The interface of the code tools\<close>

text \<open>\<open>catalog_of s\<close> is what the catalog read gives in a state, \<open>route\<close> a call; \<open>scope\<close> are the endpoints the
  registry may reach. Reading the catalog twice gives the same, a call only reaches endpoints in scope,
  and a call to a name the lookup does not know reaches none.\<close>

locale meta_tool_registry =
  fixes catalog_of :: "'s \<Rightarrow> catalog"
    and after_read :: "'s \<Rightarrow> 's"
    and route :: "string \<Rightarrow> json \<Rightarrow> 's \<Rightarrow> effect list \<times> (adapter_error + json)"
    and scope :: "string \<Rightarrow> bool"
    and good :: "'s \<Rightarrow> bool"
  assumes read_stable: "good s \<Longrightarrow> good (after_read s) \<and> catalog_of (after_read s) = catalog_of s"
    and route_by_lookup: "good s \<Longrightarrow> CallTool ep tool a p \<in> set (fst (route n args s)) \<Longrightarrow>
      hm_get (snd (catalog_of s)) n = Some (ep, tool) \<and> a = args"
    and lookup_scope: "good s \<Longrightarrow> hm_get (snd (catalog_of s)) n = Some (ep, tool) \<Longrightarrow> scope ep"
begin

lemma route_in_scope: "good s \<Longrightarrow> CallTool ep tool a p \<in> set (fst (route n args s)) \<Longrightarrow> scope ep"
  using route_by_lookup lookup_scope by blast

lemma unknown_unrouted:
  "good s \<Longrightarrow> hm_get (snd (catalog_of s)) n = None \<Longrightarrow> CallTool ep tool a p \<notin> set (fst (route n args s))"
  using route_by_lookup by fastforce

lemma one_owner:
  assumes "good s" "CallTool ep tool a p \<in> set (fst (route n args s))"
    and "CallTool ep' tool' a' p' \<in> set (fst (route n args' (after_read s)))"
  shows "ep' = ep \<and> tool' = tool"
  using route_by_lookup [OF assms(1,2)] route_by_lookup [OF _ assms(3)] read_stable [OF assms(1)] by simp

end

lemma route_by_admission:
  "CallTool ep tool a p \<in> set (fst (snd (route_resolved w c n args params r))) \<Longrightarrow>
   hm_get (snd c) n = Some (ep, tool) \<and> a = args \<and> p = params"
proof (cases "\<exists>ep tool e. admitted w c n args r ep tool e")
  case True
  then obtain ep' tool' e where adm: "admitted w c n args r ep' tool' e" by blast
  assume "CallTool ep tool a p \<in> set (fst (snd (route_resolved w c n args params r)))"
  then show ?thesis
    using adm unfolding route_admitted [OF adm]
    by (auto simp: dispatch_tool_call_def Let_def admitted_def split: if_splits)
next
  case False
  then have "turned_away w (fst (snd (route_resolved w c n args params r))) (snd (snd (route_resolved w c n args params r)))"
    by (intro route_turned_away [where r' = "fst (route_resolved w c n args params r)"]) auto
  moreover assume "CallTool ep tool a p \<in> set (fst (snd (route_resolved w c n args params r)))"
  ultimately show ?thesis unfolding turned_away_def by auto
qed

lemma merged_again:
  assumes "coherent enc r"
  shows "snd (merged_catalog_with_lookup enc now (fst (merged_catalog_with_lookup enc now r))) =
    snd (merged_catalog_with_lookup enc now r)"
proof -
  let ?r = "fst (merged_catalog_with_lookup enc now r)"
  have cur: "list_all (\<lambda>(n, e). tools_current e) (r_adapters r)" using assms by (simp add: coherent_def)
  have "uncached (r_adapters ?r) = uncached (r_adapters r)"
    using build_keeps(2) [OF cur, of enc now]
    by (auto simp: merged_catalog_with_lookup_def refresh_catalog_def store_catalog_def case_prod_beta split: option.splits)
  then show ?thesis
    using merged_current [OF assms, of now] merged_current(1) [OF merged_current(2) [OF assms], of now now]
      reference_cong [of "r_adapters ?r" "r_adapters r" enc] by simp
qed

interpretation global_tools: meta_tool_registry
  "\<lambda>r. snd (merged_catalog_with_lookup (w_encode w) (w_now w) r)"
  "\<lambda>r. fst (merged_catalog_with_lookup (w_encode w) (w_now w) r)"
  "\<lambda>n args r. snd (route_tool_call w n args r)" "\<lambda>ep. True" "coherent (w_encode w)" for w :: "'v wiring"
proof
  fix s :: "'v registry" and ep tool n args a p
  show "coherent (w_encode w) s \<Longrightarrow>
      coherent (w_encode w) (fst (merged_catalog_with_lookup (w_encode w) (w_now w) s)) \<and>
      snd (merged_catalog_with_lookup (w_encode w) (w_now w) (fst (merged_catalog_with_lookup (w_encode w) (w_now w) s))) =
      snd (merged_catalog_with_lookup (w_encode w) (w_now w) s)"
    by (simp add: merged_current(2) merged_again)
  show "CallTool ep tool a p \<in> set (fst (snd (route_tool_call w n args s))) \<Longrightarrow>
      hm_get (snd (snd (merged_catalog_with_lookup (w_encode w) (w_now w) s))) n = Some (ep, tool) \<and> a = args"
    by (auto simp: route_tool_call_def route_tool_call_with_request_params_def case_prod_beta dest!: route_by_admission)
qed simp

lemma hm_get_filter_owner:
  assumes "hm_wf l"
  shows "hm_get (filter (keeps_allowed allowed) l) n =
    (case hm_get l n of Some (ep, raw) \<Rightarrow> if ep \<in> allowed then Some (ep, raw) else None | None \<Rightarrow> None)"
proof -
  have "filter (keeps_allowed allowed) l = hm_retain (\<lambda>k v. fst v \<in> allowed) l"
    by (simp add: hm_retain_def keeps_allowed_def [abs_def])
  then show ?thesis using assms by (simp add: hm_get_retain split: option.splits)
qed

lemma fold_lookup_wf: "hm_wf l \<Longrightarrow> hm_wf (fold (\<lambda>(t, owner) l. hm_insert (ti_name t) owner l) rows l)"
  by (induction rows arbitrary: l) (auto simp: case_prod_beta)

lemma build_lookup_wf: "hm_wf (snd (snd (build_catalog enc now m)))"
  unfolding build_catalog_def snd_conv by (rule fold_lookup_wf) simp

lemma reference_lookup_wf: "hm_wf (snd (reference_catalog enc m))"
  by (simp add: reference_catalog_def build_lookup_wf)

lemma view_lookup:
  assumes "coherent enc r"
  shows "hm_get (snd (snd (view_merged_catalog_with_lookup enc now allowed r))) n =
    (case hm_get (snd (snd (merged_catalog_with_lookup enc now r))) n of
       Some (ep, raw) \<Rightarrow> if ep \<in> allowed then Some (ep, raw) else None | None \<Rightarrow> None)"
  using reference_lookup_wf [of enc "r_adapters r"] merged_current(1) [OF assms, of now]
  by (simp add: view_merged_catalog_with_lookup_def restrict_catalog_def Let_def hm_get_filter_owner)

lemma view_fst [simp]:
  "fst (view_merged_catalog_with_lookup enc now allowed r) = fst (merged_catalog_with_lookup enc now r)"
  by (simp add: view_merged_catalog_with_lookup_def)

lemma view_route_calls:
  assumes "coherent (w_encode w) r"
    and "CallTool ep tool a p \<in> set (fst (snd (view_route_tool_call_with_request_params w allowed n args params r)))"
  shows "hm_get (snd (snd (merged_catalog_with_lookup (w_encode w) (w_now w) r))) n = Some (ep, tool) \<and>
    ep \<in> allowed \<and> a = args \<and> p = params"
proof -
  let ?r = "fst (merged_catalog_with_lookup (w_encode w) (w_now w) r)"
    and ?c = "snd (merged_catalog_with_lookup (w_encode w) (w_now w) r)"
  have ok: "profile_guard allowed ?c n = None"
    and call: "CallTool ep tool a p \<in> set (fst (snd (route_tool_call_with_request_params w n args params ?r)))"
    using assms(2) by (auto simp: view_route_tool_call_with_request_params_def view_route_with_def case_prod_beta
        split: option.splits)
  have hit: "hm_get (snd ?c) n = Some (ep, tool) \<and> a = args \<and> p = params"
    using route_by_admission [of ep tool a p w] call merged_again [OF assms(1), of "w_now w"]
    by (auto simp: route_tool_call_with_request_params_def case_prod_beta)
  then show ?thesis using ok by (auto simp: profile_guard_def split: if_splits)
qed

interpretation profile_tools: meta_tool_registry
  "\<lambda>r. snd (view_merged_catalog_with_lookup (w_encode w) (w_now w) allowed r)"
  "\<lambda>r. fst (view_merged_catalog_with_lookup (w_encode w) (w_now w) allowed r)"
  "\<lambda>n args r. snd (view_route_tool_call w allowed n args r)" "\<lambda>ep. ep \<in> allowed" "coherent (w_encode w)"
  for w :: "'v wiring" and allowed
proof
  fix s :: "'v registry" and ep tool n args a p
  assume coh: "coherent (w_encode w) s"
  show "coherent (w_encode w) (fst (view_merged_catalog_with_lookup (w_encode w) (w_now w) allowed s)) \<and>
      snd (view_merged_catalog_with_lookup (w_encode w) (w_now w) allowed
        (fst (view_merged_catalog_with_lookup (w_encode w) (w_now w) allowed s))) =
      snd (view_merged_catalog_with_lookup (w_encode w) (w_now w) allowed s)"
    using merged_current(2) [OF coh] merged_again [OF coh, of "w_now w"]
    by (simp add: view_merged_catalog_with_lookup_def)
  show "hm_get (snd (snd (view_merged_catalog_with_lookup (w_encode w) (w_now w) allowed s))) n = Some (ep, tool) \<Longrightarrow> ep \<in> allowed"
    by (auto simp: view_lookup [OF coh] split: option.splits if_splits)
  assume "CallTool ep tool a p \<in> set (fst (snd (view_route_tool_call w allowed n args s)))"
  then have "CallTool ep tool a p \<in> set (fst (snd (view_route_tool_call_with_request_params w allowed n args [] s)))"
    by (simp add: view_route_tool_call_def view_route_tool_call_with_request_params_def)
  from view_route_calls [OF coh this]
  show "hm_get (snd (snd (view_merged_catalog_with_lookup (w_encode w) (w_now w) allowed s))) n = Some (ep, tool) \<and> a = args"
    by (simp add: view_lookup [OF coh])
qed

section \<open>Confinement\<close>

lemma find_single_allowed: "find_single_active_endpoint_in allowed r = Some ep \<Longrightarrow> ep \<in> allowed"
proof -
  assume "find_single_active_endpoint_in allowed r = Some ep"
  then have "\<exists>p. enabled_in allowed (r_adapters r) = [p] \<and> ep = fst p"
    by (auto simp: find_single_active_endpoint_in_def split: list.splits)
  then obtain p where "p \<in> set (enabled_in allowed (r_adapters r))" "ep = fst p" by auto
  then show ?thesis by (auto simp: enabled_in_def)
qed

lemma dispatch_effects:
  "ef \<in> set (fst (dispatch_resource_read_to ep u r)) \<Longrightarrow> ef = ReadResource ep u"
  "ef \<in> set (fst (dispatch_prompt_get_to ep n args r)) \<Longrightarrow> ef = GetPrompt ep n args"
  by (auto simp: dispatch_resource_read_to_def dispatch_prompt_get_to_def split: sum.splits)

text \<open>A client of a profile reaches no endpoint outside it: while the registry does not change under
  the call, no tool call, resource read or prompt fetch through the view asks an adapter the profile
  does not list, whatever name or URI the client sends.\<close>

theorem profile_confines:
  assumes "coherent (w_encode w) r"
  shows "(CallTool ep tool a p \<in> set (fst (snd (view_route_tool_call_with_request_params w allowed n args params r))) \<longrightarrow>
      ep \<in> allowed) \<and>
    (ReadResource ep u \<in> set (fst (view_route_resource_read w allowed n r)) \<longrightarrow> ep \<in> allowed) \<and>
    (GetPrompt ep raw o' \<in> set (fst (view_route_prompt_get w allowed n po r)) \<longrightarrow> ep \<in> allowed)"
proof (intro conjI impI)
  show "ep \<in> allowed" if "CallTool ep tool a p \<in> set (fst (snd (view_route_tool_call_with_request_params w allowed n args params r)))"
    using view_route_calls [OF assms that] by simp
  show "ep \<in> allowed" if "ReadResource ep u \<in> set (fst (view_route_resource_read w allowed n r))"
    using that
    by (auto simp: view_route_resource_read_def dest: find_single_allowed dest!: dispatch_effects
        split: sum.splits if_splits option.splits)
  show "ep \<in> allowed" if "GetPrompt ep raw o' \<in> set (fst (view_route_prompt_get w allowed n po r))"
    using that
    by (auto simp: view_route_prompt_get_def dest!: dispatch_effects split: if_splits option.splits)
qed

theorem profile_confines_witness:
  "CallTool ''git'' ''log'' JNull [] \<notin>
     set (fst (snd (view_route_tool_call_with_request_params plain_wiring {''fs''} ''git__log'' JNull [] both_endpoints)))"
proof -
  have coh: "coherent (w_encode plain_wiring) both_endpoints"
    by (simp add: coherent_def both_endpoints_def new_registry_def two_endpoints_def tools_current_def sample_entry_def)
  show ?thesis using profile_confines [OF coh, of "''git''" "''log''" JNull "[]" "{''fs''}"] by blast
qed

definition rename_fs :: "unit registry \<Rightarrow> unit registry" where
  "rename_fs r = register_adapter ''vault'' (sample_view [''read'']) ''stdio'' None (Some ''fs'') (fst (remove_adapter ''fs'' r))"

text \<open>The guard and the call read the catalog separately. If, in between, the endpoint that owned the
  name is replaced by another one with the same tool prefix, the call that passed the guard of a
  profile without that endpoint reaches it.\<close>

theorem profile_guard_race:
  "CallTool ''vault'' ''read'' JNull [] \<in>
     set (fst (snd (view_route_with rename_fs plain_wiring {''fs''} ''fs__read'' JNull [] both_endpoints)))"
proof -
  have guard: "profile_guard {''fs''} (snd (merged_catalog_with_lookup pct_enc 0 both_endpoints)) ''fs__read'' = None"
    by (simp add: profile_guard_def merged_catalog_with_lookup_def refresh_catalog_def both_endpoints_def new_registry_def
        build_catalog_def rows_of_def entry_rows_def two_endpoints_def sample_defs listing_defs skip_prefix_def enabled_def
        visible_tools_def catalog_row_def effective_prefix_def namespaced_def encode_tool_name_def sep_def hm_get_Cons)
  have read: "r_adapters (fst (merged_catalog_with_lookup pct_enc 0 both_endpoints)) =
      map (\<lambda>(n, e). (n, e\<lparr>ra_tool_cache := Some \<lparr>ct_tools = map sample_tool (if n = ''fs'' then [''read''] else [''log'']),
        ct_expires_at = None\<rparr>\<rparr>)) two_endpoints"
    "r_validate_inputs (fst (merged_catalog_with_lookup pct_enc 0 both_endpoints)) = False"
    by (simp_all add: merged_catalog_with_lookup_def refresh_catalog_def both_endpoints_def new_registry_def store_catalog_def
        build_catalog_def entry_rows_def two_endpoints_def sample_defs listing_defs)
  let ?r = "rename_fs (fst (merged_catalog_with_lookup pct_enc 0 both_endpoints))"
  have after: "r_catalog_cache ?r = None" "r_validate_inputs ?r = False"
    "r_adapters ?r = [(''git'', (sample_entry ''git'' [''log''])\<lparr>ra_cache_epoch := 2\<rparr>),
       (''vault'', (sample_entry ''fs'' [''read''])\<lparr>ra_cache_epoch := 1\<rparr>)]"
    using read
    by (simp_all add: rename_fs_def register_adapter_def remove_adapter_def tick_tools_changed_def invalidate_catalog_cache_def
        invalidate_all_tool_caches_def invalidate_tool_cache_def two_endpoints_def sample_entry_def hm_get_Cons hm_remove_def)
  have "hm_get (snd (snd (merged_catalog_with_lookup pct_enc 0 ?r))) ''fs__read'' = Some (''vault'', ''read'')"
    using after
    by (simp add: merged_catalog_with_lookup_def refresh_catalog_def build_catalog_def rows_of_def entry_rows_def sample_defs
        listing_defs skip_prefix_def enabled_def visible_tools_def catalog_row_def effective_prefix_def namespaced_def
        encode_tool_name_def sep_def hm_get_Cons)
  moreover have "\<exists>e. hm_get (r_adapters (fst (merged_catalog_with_lookup pct_enc 0 ?r))) ''vault'' = Some e \<and>
      gate e ''vault'' ''read'' = None" "r_validate_inputs (fst (merged_catalog_with_lookup pct_enc 0 ?r)) = False"
    using after
    by (simp_all add: merged_catalog_with_lookup_def refresh_catalog_def store_catalog_def build_catalog_def entry_rows_def
        sample_defs listing_defs hm_get_Cons gate_def)
  ultimately have "CallTool ''vault'' ''read'' JNull [] \<in>
      set (fst (snd (route_tool_call_with_request_params plain_wiring ''fs__read'' JNull [] ?r)))"
    by (auto simp: route_tool_call_with_request_params_def plain_wiring_def case_prod_beta route_resolved_def
        schema_gate_def dispatch_tool_call_def Let_def)
  then show ?thesis
    using guard by (simp add: view_route_with_def case_prod_beta) (simp add: plain_wiring_def)
qed

section \<open>The profile registry\<close>

record profile_context =
  px_config :: profile_config
  px_allowed :: "string set"
  px_js_execution :: bool
  px_toon_output :: bool

record profile_registry =
  pr_profiles :: "(string, profile_context) hashmap"
  pr_ticks :: "string list"

definition profile_context_of :: "profile_config \<Rightarrow> profile_context" where
  "profile_context_of p = \<lparr>px_config = p, px_allowed = set (pc_endpoints p), px_js_execution = pc_js_execution p,
     px_toon_output = pc_toon_output p\<rparr>"

definition profile_map :: "profile_config list \<Rightarrow> (string, profile_context) hashmap" where
  "profile_map ps = fold (\<lambda>p m. hm_insert (to_ascii_lowercase (pc_path p)) (profile_context_of p) m) ps []"

definition dirty :: "profile_context option \<Rightarrow> profile_context \<Rightarrow> bool" where
  "dirty old new =
     (case old of
        None \<Rightarrow> True
      | Some o' \<Rightarrow> px_allowed o' \<noteq> px_allowed new \<or> px_js_execution o' \<noteq> px_js_execution new)"

definition changed_paths ::
  "(string, profile_context) hashmap \<Rightarrow> (string, profile_context) hashmap \<Rightarrow> string list" where
  "changed_paths old new =
     map fst (filter (\<lambda>(path, ctx). dirty (hm_get old path) ctx) new) @
     map fst (filter (\<lambda>(path, ctx). \<not> hm_contains new path) old)"

definition rebuild :: "profile_config list \<Rightarrow> profile_registry \<Rightarrow> profile_registry" where
  "rebuild ps r =
     (let new_map = profile_map ps
      in \<lparr>pr_profiles = new_map, pr_ticks = pr_ticks r @ changed_paths (pr_profiles r) new_map\<rparr>)"

definition get_profile :: "string \<Rightarrow> profile_registry \<Rightarrow> profile_context option" where
  "get_profile path r = hm_get (pr_profiles r) (to_ascii_lowercase path)"

definition list_profiles :: "profile_registry \<Rightarrow> profile_context list" where
  "list_profiles r = map snd (pr_profiles r)"

text \<open>What a client of a path can see of its profile: nothing, or the endpoints and the code-tool flag.\<close>

definition surface :: "profile_registry \<Rightarrow> string \<Rightarrow> (string set \<times> bool) option" where
  "surface r path = map_option (\<lambda>ctx. (px_allowed ctx, px_js_execution ctx)) (hm_get (pr_profiles r) path)"

definition profile_registry_ok :: "profile_registry \<Rightarrow> bool" where
  "profile_registry_ok r = hm_wf (pr_profiles r)"

lemma profile_map_wf: "hm_wf (profile_map ps)"
proof -
  have "hm_wf m \<Longrightarrow> hm_wf (fold (\<lambda>p m. hm_insert (to_ascii_lowercase (pc_path p)) (profile_context_of p) m) ps m)" for m
    by (induction ps arbitrary: m) auto
  from this [of "[]"] show ?thesis by (simp add: profile_map_def)
qed

lemma rebuild_ok: "profile_registry_ok (rebuild ps r)"
  by (simp add: profile_registry_ok_def rebuild_def Let_def profile_map_wf)

lemma changed_iff:
  assumes "hm_wf old" "hm_wf new"
  shows "path \<in> set (changed_paths old new) \<longleftrightarrow>
      map_option (\<lambda>c. (px_allowed c, px_js_execution c)) (hm_get old path) \<noteq>
      map_option (\<lambda>c. (px_allowed c, px_js_execution c)) (hm_get new path)"
    "distinct (changed_paths old new)"
proof -
  have "path \<in> set (changed_paths old new) \<longleftrightarrow>
      (\<exists>c. hm_get new path = Some c \<and> dirty (hm_get old path) c) \<or>
      (hm_get new path = None \<and> hm_get old path \<noteq> None)"
    using assms by (auto simp: changed_paths_def hm_in_set hm_contains_def image_iff)
  then show "path \<in> set (changed_paths old new) \<longleftrightarrow>
      map_option (\<lambda>c. (px_allowed c, px_js_execution c)) (hm_get old path) \<noteq>
      map_option (\<lambda>c. (px_allowed c, px_js_execution c)) (hm_get new path)"
    by (cases "hm_get old path"; cases "hm_get new path") (auto simp: dirty_def)
  have "distinct (map fst (filter P m))" if "hm_wf m" for P and m :: "(string, profile_context) hashmap"
    using that by (simp add: hm_wf_def distinct_map_filter)
  moreover have "set (map fst (filter (\<lambda>(path, ctx). dirty (hm_get old path) ctx) new)) \<inter>
      set (map fst (filter (\<lambda>(path, ctx). \<not> hm_contains new path) old)) = {}"
    using assms by (auto simp: hm_contains_def hm_in_set)
  ultimately show "distinct (changed_paths old new)"
    using assms unfolding changed_paths_def distinct_append by blast
qed

lemma rebuild_get:
  assumes "distinct (map (\<lambda>p. to_ascii_lowercase (pc_path p)) ps)" "p \<in> set ps"
  shows "hm_get (profile_map ps) (to_ascii_lowercase (pc_path p)) = Some (profile_context_of p)"
proof -
  have "hm_get (fold (\<lambda>p m. hm_insert (to_ascii_lowercase (pc_path p)) (profile_context_of p) m) ps m)
      (to_ascii_lowercase (pc_path p)) = Some (profile_context_of p)" for m
    using assms
  proof (induction ps arbitrary: m rule: rev_induct)
    case (snoc x xs)
    then show ?case by (auto simp: hm_get_insert image_iff)
  qed simp
  then show ?thesis by (simp add: profile_map_def)
qed

text \<open>A reload of the profiles ticks exactly the paths whose clients can see a difference (the profile
  appeared, disappeared, or its endpoints or code-tool flag changed), each once; and for a profile list
  that passed validation, every profile is found under its path in any capitalisation, with the endpoints
  and flags of its configuration.\<close>

theorem rebuild_ticks_exactly:
  assumes "profile_registry_ok r" and "validate_profiles c = Inr ()"
  defines "r' \<equiv> rebuild (unwrap_or [] (cf_profiles c)) r"
  shows "(\<exists>ts. pr_ticks r' = pr_ticks r @ ts \<and> distinct ts \<and> (\<forall>path. path \<in> set ts \<longleftrightarrow> surface r path \<noteq> surface r' path)) \<and>
    (\<forall>p \<in> set (unwrap_or [] (cf_profiles c)). \<forall>path. to_ascii_lowercase path = to_ascii_lowercase (pc_path p) \<longrightarrow>
       get_profile path r' = Some (profile_context_of p)) \<and>
    profile_registry_ok r'"
proof (intro conjI ballI allI impI)
  let ?ps = "unwrap_or [] (cf_profiles c)"
  show "\<exists>ts. pr_ticks r' = pr_ticks r @ ts \<and> distinct ts \<and> (\<forall>path. path \<in> set ts \<longleftrightarrow> surface r path \<noteq> surface r' path)"
    using changed_iff [OF _ profile_map_wf [of ?ps], of "pr_profiles r"] assms(1)
    by (auto simp: r'_def rebuild_def Let_def surface_def profile_registry_ok_def)
  show "get_profile path r' = Some (profile_context_of p)"
    if "p \<in> set ?ps" "to_ascii_lowercase path = to_ascii_lowercase (pc_path p)" for p path
    using rebuild_get [of ?ps p] that assms(2)
    by (simp add: profiles_valid_iff r'_def rebuild_def Let_def get_profile_def)
  show "profile_registry_ok r'" by (simp add: r'_def rebuild_ok)
qed

definition work_profile :: profile_config where
  "work_profile = \<lparr>pc_name = ''Work'', pc_path = ''Work'', pc_endpoints = [''fs''], pc_js_execution = True, pc_toon_output = False\<rparr>"

definition work_config :: config where
  "work_config = (default_config None)\<lparr>cf_endpoints := [plain_endpoint ''fs''], cf_profiles := Some [work_profile]\<rparr>"

theorem rebuild_ticks_exactly_witness:
  "get_profile ''WORK'' (rebuild (unwrap_or [] (cf_profiles work_config)) \<lparr>pr_profiles = [], pr_ticks = []\<rparr>) =
     Some (profile_context_of work_profile)"
proof -
  have ok: "profile_registry_ok \<lparr>pr_profiles = [], pr_ticks = []\<rparr>" by (simp add: profile_registry_ok_def)
  have valid: "validate_profiles work_config = Inr ()"
    by (simp add: profiles_valid_iff work_config_def work_profile_def default_config_def plain_endpoint_def profile_ok_def
        blank_def chars_ascii is_ascii_def byte_def trim_by_def is_space_def path_pattern_def is_alnum_def is_lower_def
        is_upper_def RESERVED_PROFILE_PATHS_def eq_ignore_ascii_case_def ascii_lower_def)
  have "to_ascii_lowercase ''WORK'' = to_ascii_lowercase (pc_path work_profile)"
    by (simp add: to_ascii_lowercase_def work_profile_def ascii_lower_def byte_def is_upper_def char_of_def bit_iff_odd)
  moreover have "work_profile \<in> set (unwrap_or [] (cf_profiles work_config))" by (simp add: work_config_def)
  ultimately show ?thesis using rebuild_ticks_exactly [OF ok valid] by blast
qed

end
