(* ===== verification/Reload.thy ===== *)
theory Reload
  imports Watcher Profiles Building
begin

text \<open>
  The whole reload (\<^verbatim>\<open>reload_and_apply\<close> and \<^verbatim>\<open>watch_loop\<close> in \<^verbatim>\<open>src/watcher.rs\<close>): debouncing file events, loading
  with keep-last-good, and carrying the configuration over to the registry, the code-execution flag, the write
  roots, the validation toggle and the profiles. The parsed document is the event's argument; the file system the
  write roots are resolved against does not change during a run; poisoned locks are not modelled.
\<close>

section \<open>Debouncing\<close>

text \<open>The times at which reloads start, for the times of the file events: the loop waits for an event, drains what
  arrives for 500 ms, and reloads; a reload started at \<open>t\<close> takes \<open>dur t\<close>, and events wait in the channel meanwhile.\<close>

function watch_loop :: "(nat \<Rightarrow> nat) \<Rightarrow> nat \<Rightarrow> nat list \<Rightarrow> nat list" where
  "watch_loop dur free [] = []"
| "watch_loop dur free (e # es) =
     (let deadline = max free e + 500
      in deadline # watch_loop dur (deadline + dur deadline) (dropWhile (\<lambda>x. x < deadline) es))"
  by pat_completeness auto
termination
  by (relation "measure (\<lambda>(dur, free, es). length es)") (auto simp: less_Suc_eq_le length_dropWhile_le)

lemma watch_after: "t \<in> set (watch_loop dur free es) \<Longrightarrow> free + 500 \<le> t"
  by (induction dur free es rule: watch_loop.induct) (force simp: Let_def)+

text \<open>Every file event is followed by a reload that starts after it, so the last edit is always read, and reloads
  never overlap: each starts at least 500 ms after the previous one has ended.\<close>

theorem every_change_reloaded:
  "(sorted es \<longrightarrow> (\<forall>e \<in> set es. \<exists>t \<in> set (watch_loop dur free es). e < t)) \<and>
   sorted_wrt (\<lambda>s t. s + dur s + 500 \<le> t) (watch_loop dur free es)"
proof (induction dur free es rule: watch_loop.induct)
  case (2 dur free e es)
  let ?d = "max free e + 500"
  have le: "e < ?d" by simp
  have "\<exists>t \<in> set (watch_loop dur free (e # es)). x < t" if s: "sorted (e # es)" and x: "x \<in> set (e # es)" for x
  proof (cases "x < ?d")
    case True
    then show ?thesis by (auto simp: Let_def)
  next
    case False
    have "x \<in> set (dropWhile (\<lambda>y. y < ?d) es)"
      using x False le by (metis set_ConsD takeWhile_dropWhile_id Un_iff set_append set_takeWhileD)
    moreover have "sorted (dropWhile (\<lambda>y. y < ?d) es)" using s by (simp add: sorted_dropWhile)
    ultimately show ?thesis using "2.IH" [OF refl] by (auto simp: Let_def)
  qed
  moreover have "sorted_wrt (\<lambda>s t. s + dur s + 500 \<le> t) (watch_loop dur free (e # es))"
    using "2.IH" [OF refl] by (auto simp: Let_def dest: watch_after)
  ultimately show ?case by blast
qed simp

theorem every_change_reloaded_witness:
  "\<exists>t \<in> set (watch_loop (\<lambda>_. 100) 0 [10, 20, 700]). (700 :: nat) < t"
  using every_change_reloaded [of "[10, 20, 700]" "\<lambda>_. 100" 0] by simp

section \<open>Reloading\<close>

record 'v relay =
  rl_config :: config
  rl_reload :: "'v reload_state"
  rl_js_execution :: bool
  rl_write_roots :: "string list"
  rl_profiles :: profile_registry

definition load_config_graceful ::
  "environment \<Rightarrow> string option \<Rightarrow> config_error + config \<Rightarrow> config_error + (config \<times> warning list)" where
  "load_config_graceful env home parsed = and_then parsed (parse_and_validate_graceful env home)"

definition tick_tools_changed_relay_wide :: "'v registry \<Rightarrow> 'v registry" where
  "tick_tools_changed_relay_wide r = tick_tools_changed RELAY_WIDE_TOOLS_CHANGED r"

definition set_validate_inputs :: "bool \<Rightarrow> 'v registry \<Rightarrow> 'v registry" where
  "set_validate_inputs b r = r\<lparr>r_validate_inputs := b\<rparr>"

record machine =
  mc_env :: environment
  mc_home :: "string option"
  mc_canonicalize :: "string \<Rightarrow> string option"
  mc_is_dir :: "string \<Rightarrow> bool"

definition write_roots_of :: "machine \<Rightarrow> config \<Rightarrow> string list" where
  "write_roots_of m c = resolve_write_roots (mc_home m) (mc_canonicalize m) (mc_is_dir m) c"

definition reload_and_apply :: "machine \<Rightarrow> config_error + config \<Rightarrow> 'v relay \<Rightarrow> 'v relay \<times> (config_error + unit)" where
  "reload_and_apply m parsed rl =
     (case load_config_graceful (mc_env m) (mc_home m) parsed of
        Inl e \<Rightarrow> (rl, Inl e)
      | Inr (new_config, ws) \<Rightarrow>
          (let st = apply_diff_graceful ws (cf_organizations new_config) (diff_configs (rl_config rl) new_config) (rl_reload rl);
               new_js = unwrap_or False (rc_local_js_execution (cf_relay new_config));
               roots = write_roots_of m new_config;
               r1 = (if rl_write_roots rl \<noteq> roots then tick_tools_changed_relay_wide (rs_registry st) else rs_registry st);
               validate = unwrap_or True (rc_validate_inputs (cf_relay new_config));
               r2 = (if validate \<noteq> r_validate_inputs r1 then set_validate_inputs validate r1 else r1)
           in (\<lparr>rl_config = new_config, rl_reload = st\<lparr>rs_registry := r2\<rparr>,
                rl_js_execution = (if new_js \<noteq> rl_js_execution rl then new_js else rl_js_execution rl),
                rl_write_roots = (if rl_write_roots rl \<noteq> roots then roots else rl_write_roots rl),
                rl_profiles = rebuild (unwrap_or [] (cf_profiles new_config)) (rl_profiles rl)\<rparr>, Inr ())))"

text \<open>What can happen to the running relay: the file changes, or a background initialisation ends.\<close>

inductive relay_runs ::
  "machine \<Rightarrow> (endpoint_config \<Rightarrow> organization list \<Rightarrow> adapter_view) \<Rightarrow> (adapter_view \<Rightarrow> adapter_view) \<Rightarrow> 'v relay \<Rightarrow> 'v relay \<Rightarrow> bool"
  for m create down rl where
  runs_start: "relay_runs m create down rl rl"
| runs_reload: "relay_runs m create down rl rl' \<Longrightarrow> relay_runs m create down rl (fst (reload_and_apply m parsed rl'))"
| runs_finish: "relay_runs m create down rl rl' \<Longrightarrow>
    relay_runs m create down rl (rl'\<lparr>rl_reload := finish_init create down i (rl_reload rl')\<rparr>)"

section \<open>The running relay follows its configuration\<close>

definition in_step :: "machine \<Rightarrow> 'v relay \<Rightarrow> bool" where
  "in_step m rl =
     (let c = rl_config rl; r = rs_registry (rl_reload rl)
      in serves_config c r \<and>
         r_validate_inputs r = unwrap_or True (rc_validate_inputs (cf_relay c)) \<and>
         rl_js_execution rl = unwrap_or False (rc_local_js_execution (cf_relay c)) \<and>
         rl_write_roots rl = write_roots_of m c \<and>
         pr_profiles (rl_profiles rl) = profile_map (unwrap_or [] (cf_profiles c)) \<and>
         validate_profiles c = Inr ())"

lemma validate_keeps [simp]:
  "r_validate_inputs (put_entry nm e r) = r_validate_inputs r"
  "r_validate_inputs (invalidate_catalog_cache r) = r_validate_inputs r"
  "r_validate_inputs (tick_tools_changed nm r) = r_validate_inputs r"
  "r_validate_inputs (invalidate_endpoint_tool_cache nm r) = r_validate_inputs r"
  "r_validate_inputs (register_adapter nm a t d p r) = r_validate_inputs r"
  by (simp_all add: put_entry_def invalidate_catalog_cache_def invalidate_all_tool_caches_def tick_tools_changed_def
      invalidate_endpoint_tool_cache_def register_adapter_def split: option.split)

lemma validate_keeps_more [simp]:
  "r_validate_inputs (fst (remove_adapter nm r)) = r_validate_inputs r"
  "r_validate_inputs (set_switches nm dis ts r) = r_validate_inputs r"
  "r_validate_inputs (register_endpoint ep a nm r) = r_validate_inputs r"
  by (simp_all add: remove_adapter_def set_switches_def register_endpoint_def split: option.split)

lemma fold_keeps: "(\<And>x s. P s \<Longrightarrow> P (f x s)) \<Longrightarrow> P s \<Longrightarrow> P (fold f xs s)"
  by (induction xs arbitrary: s) auto

lemma apply_keeps_validate:
  "r_validate_inputs (rs_registry (apply_diff_graceful ws orgs d st)) = r_validate_inputs (rs_registry st)"
proof -
  let ?P = "\<lambda>u. r_validate_inputs (rs_registry u) = r_validate_inputs (rs_registry st)"
  have r: "?P u \<Longrightarrow> ?P (apply_removed nm u)" for nm u by (simp add: apply_removed_def)
  have c: "?P u \<Longrightarrow> ?P (apply_changed ws orgs p u)" for p u
    by (simp add: apply_changed_def Let_def case_prod_unfold)
  have a: "?P u \<Longrightarrow> ?P (apply_added ws orgs ep u)" for ep u by (simp add: apply_added_def Let_def)
  have 1: "?P (fold apply_removed (cd_removed d) st)" by (rule fold_keeps [where P = ?P, OF r]) simp_all
  have 2: "?P (fold (apply_changed ws orgs) (cd_changed d) (fold apply_removed (cd_removed d) st))"
    by (rule fold_keeps [where P = ?P, OF c 1])
  have "?P (fold (apply_added ws orgs) (cd_added d)
      (fold (apply_changed ws orgs) (cd_changed d) (fold apply_removed (cd_removed d) st)))"
    by (rule fold_keeps [where P = ?P, OF a 2])
  then show ?thesis by (simp add: apply_diff_graceful_def)
qed

lemma finish_keeps_validate:
  "r_validate_inputs (rs_registry (finish_init create down i st)) = r_validate_inputs (rs_registry st)"
  by (simp add: finish_init_def Let_def split: option.split)

lemma in_by_name: "(n, e) \<in> set (by_name eps) \<Longrightarrow> e \<in> set eps \<and> ec_name e = n"
proof -
  assume "(n, e) \<in> set (by_name eps)"
  then have "find (\<lambda>e. ec_name e = n) (rev eps) = Some e" by (simp add: hm_in_set by_name_get [symmetric])
  then show ?thesis by (auto simp: find_Some_iff) (metis length_rev nth_mem set_rev)
qed

lemma by_name_keys_iff: "n \<in> fst ` set (by_name eps) \<longleftrightarrow> n \<in> ec_name ` set eps"
  using hm_get_eq_None [of "by_name eps" n] by_name_none [of eps n] by argo

text \<open>Names only, whether or not a name occurs twice.\<close>

lemma diff_names:
  "ec_name ` set (cd_added (diff_configs old new)) = ec_name ` set (cf_endpoints new) - ec_name ` set (cf_endpoints old)"
  "set (cd_removed (diff_configs old new)) = ec_name ` set (cf_endpoints old) - ec_name ` set (cf_endpoints new)"
  "fst ` set (cd_changed (diff_configs old new)) \<subseteq> ec_name ` set (cf_endpoints new) \<inter> ec_name ` set (cf_endpoints old)"
proof -
  let ?o = "cf_endpoints old" and ?n = "cf_endpoints new"
  have "ec_name ` set (cd_added (diff_configs old new)) = fst ` {p \<in> set (by_name ?n). hm_get (by_name ?o) (fst p) = None}"
    by (force simp: diff_configs_def Let_def dest: in_by_name)
  also have "\<dots> = {k \<in> fst ` set (by_name ?n). k \<notin> ec_name ` set ?o}" by (auto simp: by_name_none)
  finally show "ec_name ` set (cd_added (diff_configs old new)) = ec_name ` set ?n - ec_name ` set ?o"
    by (auto simp: by_name_keys_iff)
  have "set (cd_removed (diff_configs old new)) = {k \<in> fst ` set (by_name ?o). \<not> hm_contains (by_name ?n) k}"
    by (auto simp: diff_configs_def Let_def)
  then show "set (cd_removed (diff_configs old new)) = ec_name ` set ?o - ec_name ` set ?n"
    by (auto simp: by_name_keys_iff hm_contains_def by_name_none)
  have "fst ` set (cd_changed (diff_configs old new)) \<subseteq>
      {k \<in> fst ` set (by_name ?n). hm_get (by_name ?o) k \<noteq> None}"
    by (auto simp: diff_configs_def Let_def split: option.splits)
  then show "fst ` set (cd_changed (diff_configs old new)) \<subseteq> ec_name ` set ?n \<inter> ec_name ` set ?o"
    by (auto simp: by_name_keys_iff by_name_none)
qed

lemma apply_serves:
  assumes "serves_config old (rs_registry st)"
  shows "serves_config new (rs_registry (apply_diff_graceful ws orgs (diff_configs old new) st))"
proof -
  let ?d = "diff_configs old new"
  note dist = diff_distinct [of old new]
  have found: "(find (\<lambda>ep. ec_name ep = k) eps = None) = (k \<notin> ec_name ` set eps)" for k eps
    by (auto simp: find_None_iff)
  have "setups (rs_registry (apply_diff_graceful ws orgs ?d st)) k \<noteq> None \<longleftrightarrow>
      k \<in> ec_name ` set (cd_added ?d) \<or> k \<in> fst ` set (cd_changed ?d) \<or>
      k \<notin> set (cd_removed ?d) \<and> setups (rs_registry st) k \<noteq> None" for k
    unfolding apply_diff_graceful_def added_effect [OF dist(2)] changed_effect [OF dist(1)] removed_effect
    using found [of k "cd_added ?d"] map_of_eq_None_iff [of "cd_changed ?d" k]
    by (cases "find (\<lambda>ep. ec_name ep = k) (cd_added ?d)"; cases "map_of (cd_changed ?d) k") auto
  moreover have "k \<in> fst ` set (cd_changed ?d) \<Longrightarrow> k \<in> ec_name ` set (cf_endpoints new)" for k
    using diff_names(3) [of old new] by (rule subsetD [THEN IntD1])
  ultimately show ?thesis
    using assms by (simp add: serves_config_def diff_names(1,2)) metis
qed

lemma finish_serves:
  "serves_config c (rs_registry st) \<Longrightarrow> serves_config c (rs_registry (finish_init create down i st))"
proof (cases "rs_pending st = []")
  case False
  obtain xs t ys where "setups (rs_registry (finish_init create down i st)) = (setups (rs_registry st))(task_name t :=
       map_option (\<lambda>s. s\<lparr>su_adapter := install_adapter create down t\<rparr>) (setups (rs_registry st) (task_name t)))"
    using finish_effect [OF False] by metis
  then show "serves_config c (rs_registry st) \<Longrightarrow> ?thesis" by (simp add: serves_config_def)
qed (simp add: finish_init_def)

lemma serves_same_setups: "setups r' = setups r \<Longrightarrow> serves_config c r' \<longleftrightarrow> serves_config c r"
  by (simp add: serves_config_def)

lemma setups_flags [simp]:
  "setups (tick_tools_changed_relay_wide r) = setups r" "setups (set_validate_inputs b r) = setups r"
  "r_validate_inputs (tick_tools_changed_relay_wide r) = r_validate_inputs r"
  "r_validate_inputs (set_validate_inputs b r) = b"
  by (simp_all add: tick_tools_changed_relay_wide_def set_validate_inputs_def setups_def fun_eq_iff)

lemma fatal_passes: "fatal r = Inr u \<longleftrightarrow> r = Inr u"
  by (cases r) (simp_all add: fatal_def)

lemma loaded_profiles_valid: "load_config_graceful env home parsed = Inr (c, ws) \<Longrightarrow> validate_profiles c = Inr ()"
  by (auto simp: load_config_graceful_def parse_and_validate_graceful_def and_then_Inr_iff Let_def fatal_passes case_prod_unfold)

lemma reload_in_step:
  assumes "in_step m rl"
  shows "in_step m (fst (reload_and_apply m parsed rl))"
proof (cases "load_config_graceful (mc_env m) (mc_home m) parsed")
  case (Inl e)
  then show ?thesis using assms by (simp add: reload_and_apply_def)
next
  case (Inr p)
  obtain c ws where p: "p = (c, ws)" by (cases p)
  let ?st = "apply_diff_graceful ws (cf_organizations c) (diff_configs (rl_config rl) c) (rl_reload rl)"
  have "serves_config c (rs_registry ?st)"
    using assms by (intro apply_serves) (simp add: in_step_def Let_def)
  then have serves: "serves_config c r" if "setups r = setups (rs_registry ?st)" for r
    using serves_same_setups [OF that] by simp
  have "validate_profiles c = Inr ()" using Inr p by (simp add: loaded_profiles_valid)
  then show ?thesis
    using assms by (auto simp: reload_and_apply_def Inr p in_step_def Let_def rebuild_def intro!: serves)
qed

lemma runs_in_step: "relay_runs m create down rl rl' \<Longrightarrow> in_step m rl \<Longrightarrow> in_step m rl'"
proof (induction rule: relay_runs.induct)
  case (runs_reload rl')
  then show ?case by (simp add: reload_in_step)
next
  case (runs_finish rl' i)
  then show ?case by (simp add: in_step_def Let_def finish_serves finish_keeps_validate)
qed simp


definition starting_relay :: "nat relay" where
  "starting_relay = \<lparr>rl_config = default_config None, rl_reload = \<lparr>rs_registry = new_registry, rs_pending = []\<rparr>,
     rl_js_execution = False, rl_write_roots = [], rl_profiles = \<lparr>pr_profiles = [], pr_ticks = []\<rparr>\<rparr>"

definition no_files :: machine where
  "no_files = \<lparr>mc_env = (\<lambda>v. None), mc_home = None, mc_canonicalize = (\<lambda>p. None), mc_is_dir = (\<lambda>p. False)\<rparr>"

lemma starting_in_step: "in_step no_files starting_relay"
  by (simp add: in_step_def Let_def starting_relay_def serves_config_def setups_def new_registry_def default_config_def
      default_relay_def write_roots_of_def resolve_write_roots_def profile_map_def validate_profiles_def unwrap_or_def
      no_files_def)


lemma hm_in_profile_map: "hm_get (profile_map ps) k = Some ctx \<Longrightarrow> \<exists>p \<in> set ps. ctx = profile_context_of p"
proof -
  have "hm_get (fold (\<lambda>p m. hm_insert (to_ascii_lowercase (pc_path p)) (profile_context_of p) m) ps m) k = Some ctx \<Longrightarrow>
      hm_get m k = Some ctx \<or> (\<exists>p \<in> set ps. ctx = profile_context_of p)" for m
  proof (induction ps arbitrary: m)
    case (Cons p ps)
    then show ?case by (fastforce simp: hm_get_insert split: if_splits)
  qed simp
  from this [of "[]"] show "hm_get (profile_map ps) k = Some ctx \<Longrightarrow> \<exists>p \<in> set ps. ctx = profile_context_of p"
    by (auto simp: profile_map_def)
qed

text \<open>Every endpoint a profile of the running relay allows is registered, at any time after any file changes and
  initialisations: no reload leaves a profile that refers to an endpoint that is gone.\<close>

theorem profiles_never_dangle:
  assumes run: "relay_runs m create down rl rl'" and start: "in_step m rl"
    and ctx: "get_profile path (rl_profiles rl') = Some ctx" and nm: "nm \<in> px_allowed ctx"
  shows "\<exists>s. setups (rs_registry (rl_reload rl')) nm = Some s"
proof -
  have step: "in_step m rl'" by (rule runs_in_step [OF run start])
  let ?c = "rl_config rl'" and ?ps = "unwrap_or [] (cf_profiles (rl_config rl'))"
  have "hm_get (profile_map ?ps) (to_ascii_lowercase path) = Some ctx"
    using ctx step by (simp add: get_profile_def in_step_def Let_def)
  from hm_in_profile_map [OF this] obtain p where p: "p \<in> set ?ps" "ctx = profile_context_of p" by blast
  have "list_all (profile_ok (set (map ec_name (cf_endpoints ?c)))) ?ps"
    using step profiles_loop_none [of "set (map ec_name (cf_endpoints ?c))" ?ps "[]" "[]"]
    by (cases "cf_profiles ?c") (auto simp: in_step_def Let_def validate_profiles_def split: list.splits)
  then have "nm \<in> ec_name ` set (cf_endpoints ?c)"
    using p nm by (auto simp: list_all_iff profile_ok_def profile_context_of_def)
  then show ?thesis using step by (auto simp: in_step_def Let_def serves_config_def)
qed

lemma work_config_loads: "\<exists>ws. load_config_graceful (\<lambda>v. None) None (Inr work_config) = Inr (work_config, ws)"
proof -
  have eps: "fst (resolve_endpoints_graceful (\<lambda>v. None) (cf_endpoints work_config) []) = cf_endpoints work_config"
    by (simp add: work_config_def plain_endpoint_def resolve_endpoint_graceful_def resolve_opt_def Let_def)
  then have same: "work_config\<lparr>cf_endpoints := fst (resolve_endpoints_graceful (\<lambda>v. None) (cf_endpoints work_config) [])\<rparr> = work_config"
    by simp
  have v: "validate_profiles work_config = Inr ()"
    by (simp add: profiles_valid_iff work_config_def work_profile_def default_config_def plain_endpoint_def profile_ok_def
        blank_def chars_ascii is_ascii_def byte_def trim_by_def is_space_def path_pattern_def is_alnum_def is_lower_def
        is_upper_def RESERVED_PROFILE_PATHS_def eq_ignore_ascii_case_def ascii_lower_def)
  have w: "validate_write_dirs None work_config = Inr ()"
    by (simp add: validate_write_dirs_def work_config_def default_config_def default_relay_def)
  show ?thesis
    by (simp add: load_config_graceful_def and_then_def parse_and_validate_graceful_def Let_def case_prod_unfold same v w fatal_def)
qed

theorem profiles_never_dangle_witness:
  "\<exists>s. setups (rs_registry (rl_reload (fst (reload_and_apply no_files (Inr work_config) starting_relay)))) ''fs'' = Some s"
proof -
  let ?rl = "fst (reload_and_apply no_files (Inr work_config) starting_relay)"
  obtain ws where l: "load_config_graceful (mc_env no_files) (mc_home no_files) (Inr work_config) = Inr (work_config, ws)"
    using work_config_loads by (auto simp: no_files_def)
  have run: "relay_runs no_files (\<lambda>ep orgs. starting_adapter) id starting_relay ?rl"
    by (intro relay_runs.intros)
  have "rl_profiles ?rl = rebuild [work_profile] \<lparr>pr_profiles = [], pr_ticks = []\<rparr>"
    using l by (simp add: reload_and_apply_def Let_def starting_relay_def) (simp add: work_config_def unwrap_or_def)
  then have "get_profile ''work'' (rl_profiles ?rl) = Some (profile_context_of work_profile)"
    by (simp add: get_profile_def rebuild_def profile_map_def work_profile_def to_ascii_lowercase_def
        ascii_lower_def byte_def is_upper_def char_of_def bit_iff_odd Let_def hm_get_def)
  moreover have "''fs'' \<in> px_allowed (profile_context_of work_profile)"
    by (simp add: profile_context_of_def work_profile_def)
  ultimately show ?thesis by (rule profiles_never_dangle [OF run starting_in_step])
qed

section \<open>Organizations\<close>

lemma same_endpoint_refl: "same_endpoint ep ep"
  by (simp add: same_endpoint_def)

lemma diff_same_endpoints:
  assumes "cf_endpoints new = cf_endpoints old"
  shows "cd_added (diff_configs old new) = []" "cd_removed (diff_configs old new) = []" "cd_changed (diff_configs old new) = []"
proof -
  have get: "hm_get (by_name (cf_endpoints old)) n = Some e" if "(n, e) \<in> set (by_name (cf_endpoints old))" for n e
    using that hm_in_set [OF by_name_wf] by blast
  show "cd_added (diff_configs old new) = []" "cd_removed (diff_configs old new) = []"
    "cd_changed (diff_configs old new) = []"
    using assms get by (auto simp: diff_configs_def Let_def filter_empty_conv hm_contains_def same_endpoint_refl)
qed

text \<open>A reload that changes organizations only does nothing to the running endpoints: no adapter is restarted and
  no initialisation is started, although the organization an EMA endpoint names may now resolve to another identity
  provider.\<close>

theorem org_change_ignored:
  assumes "cf_endpoints new = cf_endpoints old"
  shows "apply_diff_graceful ws (cf_organizations new) (diff_configs old new) st = st"
  by (simp add: apply_diff_graceful_def diff_same_endpoints [OF assms])

definition acme_config :: "string \<Rightarrow> config" where
  "acme_config idp = (default_config None)\<lparr>cf_endpoints := [ema_endpoint ''fs''], cf_organizations := [acme idp]\<rparr>"

theorem org_change_ignored_witness:
  "apply_diff_graceful [] [acme ''new''] (diff_configs (acme_config ''old'') (acme_config ''new'')) (rl_reload starting_relay) =
     rl_reload starting_relay \<and>
   map_option ri_idp_issuer (resolve_ema_idp (ema_endpoint ''fs'') [acme ''old'']) = Some ''old'' \<and>
   map_option ri_idp_issuer (resolve_ema_idp (ema_endpoint ''fs'') [acme ''new'']) = Some ''new''"
proof -
  have eps: "cf_endpoints (acme_config ''new'') = cf_endpoints (acme_config ''old'')" by (simp add: acme_config_def)
  have orgs: "cf_organizations (acme_config ''new'') = [acme ''new'']" by (simp add: acme_config_def)
  show ?thesis
    using org_change_ignored [OF eps, of "[]" "rl_reload starting_relay"]
    by (simp add: orgs sample_resolves sample_trims)
qed

end
