(* ===== verification/Sandbox_Files.thy ===== *)
theory Sandbox_Files
  imports Text
begin

text \<open>
  The sandbox's file access (\<^verbatim>\<open>src/js_sandbox.rs\<close>, \<^verbatim>\<open>src/js_sandbox/open_beneath.rs\<close>): the allowlist check,
  the opens anchored to a root's directory handle, the atomic write and the bounded read, with their quotas.
  The file system is a heap of inodes, so that a directory handle keeps denoting a directory that is renamed.
  Before each system call other processes may change it in any way (\<open>fo_env\<close>), and each call may fail
  (\<open>fo_fail\<close>). Modelled is the component-by-component walk of \<^verbatim>\<open>open_beneath\<close>, the tier every platform has.
\<close>

section \<open>The file system\<close>

type_synonym inode = nat

datatype node = Dir "(string \<times> inode) list" | Regular string | Symlink string | Special

record fs =
  fs_nodes :: "inode \<Rightarrow> node option"
  fs_next :: inode

datatype errno = ELOOP | ENOENT | EEXIST | ENOTDIR | EXDEV | EISDIR | InvalidInput string | OtherErrno string

definition root_inode :: inode where
  "root_inode = 0"

definition entries :: "fs \<Rightarrow> inode \<Rightarrow> (string \<times> inode) list" where
  "entries f i = (case fs_nodes f i of Some (Dir es) \<Rightarrow> es | _ \<Rightarrow> [])"

definition is_dir :: "fs \<Rightarrow> inode \<Rightarrow> bool" where
  "is_dir f i = (case fs_nodes f i of Some (Dir es) \<Rightarrow> True | _ \<Rightarrow> False)"

definition lookup :: "fs \<Rightarrow> inode \<Rightarrow> string \<Rightarrow> inode option" where
  "lookup f i name = map_of (entries f i) name"

definition node_named :: "fs \<Rightarrow> inode \<Rightarrow> string \<Rightarrow> node option" where
  "node_named f i name = Option.bind (lookup f i name) (fs_nodes f)"

definition set_entry :: "inode \<Rightarrow> string \<Rightarrow> inode \<Rightarrow> fs \<Rightarrow> fs" where
  "set_entry i name k f = f\<lparr>fs_nodes := (fs_nodes f)(i \<mapsto> Dir ((name, k) # filter (\<lambda>(m, q). m \<noteq> name) (entries f i)))\<rparr>"

definition remove_entry :: "inode \<Rightarrow> string \<Rightarrow> fs \<Rightarrow> fs" where
  "remove_entry i name f = f\<lparr>fs_nodes := (fs_nodes f)(i \<mapsto> Dir (filter (\<lambda>(m, q). m \<noteq> name) (entries f i)))\<rparr>"

definition add_node :: "inode \<Rightarrow> string \<Rightarrow> node \<Rightarrow> fs \<Rightarrow> fs" where
  "add_node i name n f =
     (let k = fs_next f in set_entry i name k (f\<lparr>fs_nodes := (fs_nodes f)(k \<mapsto> n), fs_next := Suc k\<rparr>))"

section \<open>Paths\<close>

text \<open>\<^verbatim>\<open>Path::components\<close> of an absolute path: slashes collapse, \<^verbatim>\<open>.\<close> disappears, \<^verbatim>\<open>..\<close> stays.\<close>

fun split_slash :: "string \<Rightarrow> string list" where
  "split_slash [] = [[]]"
| "split_slash (c # cs) = (if c = CHR ''/'' then [] # split_slash cs
     else case split_slash cs of [] \<Rightarrow> [[c]] | w # ws \<Rightarrow> (c # w) # ws)"

definition components :: "string \<Rightarrow> string list" where
  "components p = filter (\<lambda>c. c \<noteq> [] \<and> c \<noteq> ''.'') (split_slash p)"

definition is_absolute :: "string \<Rightarrow> bool" where
  "is_absolute p = (case p of c # cs \<Rightarrow> c = CHR ''/'' | [] \<Rightarrow> False)"

definition show_path :: "string list \<Rightarrow> string" where
  "show_path cs = (if cs = [] then ''/'' else concat (map (\<lambda>c. CHR ''/'' # c) cs))"

text \<open>
  Pathname resolution: every symbolic link on the way is followed, at most \<open>links\<close> of them; the result is the
  canonical path, from the root and free of links.
\<close>

definition LINK_LIMIT :: nat where
  "LINK_LIMIT = 40"

fun walk_to :: "fs \<Rightarrow> inode \<Rightarrow> string list \<Rightarrow> inode option" where
  "walk_to f i [] = Some i"
| "walk_to f i (c # cs) = (case lookup f i c of None \<Rightarrow> None | Some k \<Rightarrow> walk_to f k cs)"

definition node_at :: "fs \<Rightarrow> string list \<Rightarrow> node option" where
  "node_at f cs = Option.bind (walk_to f root_inode cs) (fs_nodes f)"

function resolve :: "fs \<Rightarrow> nat \<Rightarrow> string list \<Rightarrow> string list \<Rightarrow> errno + string list" where
  "resolve f links cur [] = Inr cur"
| "resolve f links cur (c # cs) =
     (if c = ''..'' then resolve f links (butlast cur) cs
      else case node_at f (cur @ [c]) of
        None \<Rightarrow> Inl ENOENT
      | Some (Symlink t) \<Rightarrow>
         (case links of
            0 \<Rightarrow> Inl ELOOP
          | Suc links' \<Rightarrow> resolve f links' (if is_absolute t then [] else cur) (components t @ cs))
      | Some (Dir es) \<Rightarrow> resolve f links (cur @ [c]) cs
      | Some n \<Rightarrow> if cs = [] then Inr (cur @ [c]) else Inl ENOTDIR)"
  by pat_completeness auto
termination
  by (relation "inv_image (less_than <*lex*> less_than) (\<lambda>(f, links, cur, cs). (links, length cs))") auto

definition canonicalize :: "fs \<Rightarrow> string list \<Rightarrow> errno + string list" where
  "canonicalize f cs = resolve f LINK_LIMIT [] cs"

definition path_exists :: "fs \<Rightarrow> string list \<Rightarrow> bool" where
  "path_exists f cs = (case canonicalize f cs of Inr q \<Rightarrow> True | Inl e \<Rightarrow> False)"

section \<open>System calls\<close>

text \<open>
  What other processes do before the \<open>n\<close>th call, which calls fail, and how much of a failing read or write still
  happens. The log keeps the file systems around every call that took effect.
\<close>

record outside =
  fo_env :: "nat \<Rightarrow> fs \<Rightarrow> fs"
  fo_fail :: "nat \<Rightarrow> errno option"
  fo_partial :: "nat \<Rightarrow> nat"

record os =
  os_fs :: fs
  os_clock :: nat
  os_log :: "(fs \<times> fs) list"

definition perform :: "outside \<Rightarrow> (fs \<Rightarrow> fs \<times> 'a) \<Rightarrow> os \<Rightarrow> os \<times> 'a" where
  "perform fo op s =
     (let f = fo_env fo (os_clock s) (os_fs s); (f', r) = op f
      in (\<lparr>os_fs = f', os_clock = Suc (os_clock s), os_log = os_log s @ [(f, f')]\<rparr>, r))"

definition syscall :: "outside \<Rightarrow> (fs \<Rightarrow> fs \<times> (errno + 'a)) \<Rightarrow> os \<Rightarrow> os \<times> (errno + 'a)" where
  "syscall fo op s = (case fo_fail fo (os_clock s) of Some e \<Rightarrow> perform fo (\<lambda>f. (f, Inl e)) s | None \<Rightarrow> perform fo op s)"

text \<open>\<open>open_dir\<close> does not follow a link: a link is no directory.\<close>

definition open_dir :: "inode \<Rightarrow> string \<Rightarrow> fs \<Rightarrow> fs \<times> (errno + inode)" where
  "open_dir i name f =
     (f, case lookup f i name of
           None \<Rightarrow> Inl ENOENT
         | Some k \<Rightarrow> if is_dir f k then Inr k else Inl ENOTDIR)"

definition fstatat_nofollow :: "inode \<Rightarrow> string \<Rightarrow> fs \<Rightarrow> fs \<times> (errno + node)" where
  "fstatat_nofollow i name f = (f, case node_named f i name of None \<Rightarrow> Inl ENOENT | Some n \<Rightarrow> Inr n)"

definition mkdirat :: "inode \<Rightarrow> string \<Rightarrow> fs \<Rightarrow> fs \<times> (errno + unit)" where
  "mkdirat i name f =
     (if \<not> is_dir f i then (f, Inl ENOENT)
      else if lookup f i name \<noteq> None then (f, Inl EEXIST)
      else (add_node i name (Dir []) f, Inr ()))"

definition create_exclusive :: "inode \<Rightarrow> string \<Rightarrow> fs \<Rightarrow> fs \<times> (errno + inode)" where
  "create_exclusive i name f =
     (if \<not> is_dir f i then (f, Inl ENOENT)
      else if lookup f i name \<noteq> None then (f, Inl EEXIST)
      else (add_node i name (Regular []) f, Inr (fs_next f)))"

definition put_bytes :: "inode \<Rightarrow> string \<Rightarrow> fs \<Rightarrow> fs" where
  "put_bytes k bytes f = f\<lparr>fs_nodes := (fs_nodes f)(k \<mapsto> Regular bytes)\<rparr>"

definition renameat :: "inode \<Rightarrow> string \<Rightarrow> string \<Rightarrow> fs \<Rightarrow> fs \<times> (errno + unit)" where
  "renameat i src dst f =
     (case lookup f i src of
        None \<Rightarrow> (f, Inl ENOENT)
      | Some k \<Rightarrow>
         (case node_named f i dst of
            Some (Dir es) \<Rightarrow> (f, Inl EISDIR)
          | _ \<Rightarrow> (set_entry i dst k (remove_entry i src f), Inr ())))"

definition unlinkat :: "inode \<Rightarrow> string \<Rightarrow> fs \<Rightarrow> fs \<times> (errno + unit)" where
  "unlinkat i name f =
     (case node_named f i name of
        None \<Rightarrow> (f, Inl ENOENT)
      | Some (Dir es) \<Rightarrow> (f, Inl EISDIR)
      | Some n \<Rightarrow> (remove_entry i name f, Inr ()))"

text \<open>Opening the root: links in its parents are followed, its last component must be a directory itself.\<close>

definition open_root_dir :: "string list \<Rightarrow> fs \<Rightarrow> fs \<times> (errno + inode)" where
  "open_root_dir root f =
     (if root = [] then (f, Inr root_inode)
      else case canonicalize f (butlast root) of
        Inl e \<Rightarrow> (f, Inl e)
      | Inr p \<Rightarrow> (case walk_to f root_inode p of None \<Rightarrow> (f, Inl ENOENT) | Some i \<Rightarrow> open_dir i (List.last root) f))"

section \<open>Opens beneath a root\<close>

definition chain :: "(os \<times> (errno + 'a)) \<Rightarrow> (os \<Rightarrow> 'a \<Rightarrow> os \<times> (errno + 'b)) \<Rightarrow> os \<times> (errno + 'b)" where
  "chain r k = (case r of (s, Inl e) \<Rightarrow> (s, Inl e) | (s, Inr x) \<Rightarrow> k s x)"

definition open_intermediate :: "outside \<Rightarrow> inode \<Rightarrow> string \<Rightarrow> os \<Rightarrow> os \<times> (errno + inode)" where
  "open_intermediate fo i name s =
     (case syscall fo (open_dir i name) s of
        (s1, Inl ENOTDIR) \<Rightarrow>
          (case syscall fo (fstatat_nofollow i name) s1 of
             (s2, Inr (Symlink t)) \<Rightarrow> (s2, Inl ELOOP)
           | (s2, r) \<Rightarrow> (s2, Inl ENOTDIR))
      | r \<Rightarrow> r)"

definition mkdirat_tolerating_exists :: "outside \<Rightarrow> inode \<Rightarrow> string \<Rightarrow> os \<Rightarrow> os \<times> (errno + unit)" where
  "mkdirat_tolerating_exists fo i name s =
     (case syscall fo (mkdirat i name) s of (s1, Inl EEXIST) \<Rightarrow> (s1, Inr ()) | r \<Rightarrow> r)"

definition enter_creating :: "outside \<Rightarrow> inode \<Rightarrow> string \<Rightarrow> os \<Rightarrow> os \<times> (errno + inode)" where
  "enter_creating fo i name s =
     (case open_intermediate fo i name s of
        (s1, Inl ENOENT) \<Rightarrow> chain (mkdirat_tolerating_exists fo i name s1) (\<lambda>s2 u. open_intermediate fo i name s2)
      | r \<Rightarrow> r)"

fun open_dir_beneath_creating :: "outside \<Rightarrow> inode \<Rightarrow> string list \<Rightarrow> os \<Rightarrow> os \<times> (errno + inode)" where
  "open_dir_beneath_creating fo i [] s = (s, Inr i)"
| "open_dir_beneath_creating fo i (c # cs) s =
     chain (enter_creating fo i c s) (\<lambda>s1 k. open_dir_beneath_creating fo k cs s1)"

fun walk_parents :: "outside \<Rightarrow> inode \<Rightarrow> string list \<Rightarrow> os \<Rightarrow> os \<times> (errno + inode)" where
  "walk_parents fo i [] s = (s, Inr i)"
| "walk_parents fo i (c # cs) s = chain (open_intermediate fo i c s) (\<lambda>s1 k. walk_parents fo k cs s1)"

text \<open>The final component: opened, or only looked at, without following a link.\<close>

definition open_final :: "inode \<Rightarrow> string \<Rightarrow> fs \<Rightarrow> fs \<times> (errno + inode)" where
  "open_final i name f =
     (f, case lookup f i name of
           None \<Rightarrow> Inl ENOENT
         | Some k \<Rightarrow> (case fs_nodes f k of Some (Symlink t) \<Rightarrow> Inl ELOOP | None \<Rightarrow> Inl ENOENT | Some n \<Rightarrow> Inr k))"

definition open_beneath_walk :: "outside \<Rightarrow> inode \<Rightarrow> string list \<Rightarrow> os \<Rightarrow> os \<times> (errno + inode)" where
  "open_beneath_walk fo i cs s =
     (if cs = [] then (s, Inl (InvalidInput ''open_beneath requires a non-empty relative path''))
      else chain (walk_parents fo i (butlast cs) s) (\<lambda>s1 k. syscall fo (open_final k (List.last cs)) s1))"

definition reject_symlink_stat :: "os \<times> (errno + node) \<Rightarrow> os \<times> (errno + node)" where
  "reject_symlink_stat r = (case r of (s, Inr (Symlink t)) \<Rightarrow> (s, Inl ELOOP) | _ \<Rightarrow> r)"

definition stat_self :: "inode \<Rightarrow> fs \<Rightarrow> fs \<times> (errno + node)" where
  "stat_self i f = (f, case fs_nodes f i of None \<Rightarrow> Inl ENOENT | Some n \<Rightarrow> Inr n)"

definition stat_beneath_walk :: "outside \<Rightarrow> inode \<Rightarrow> string list \<Rightarrow> os \<Rightarrow> os \<times> (errno + node)" where
  "stat_beneath_walk fo i cs s =
     (if cs = [] then syscall fo (stat_self i) s
      else chain (walk_parents fo i (butlast cs) s)
             (\<lambda>s1 k. reject_symlink_stat (syscall fo (fstatat_nofollow k (List.last cs)) s1)))"

definition open_root :: "outside \<Rightarrow> string list \<Rightarrow> os \<Rightarrow> os \<times> (errno + inode)" where
  "open_root fo root s =
     (case syscall fo (open_root_dir root) s of
        (s1, Inl ENOTDIR) \<Rightarrow>
          (case syscall fo (\<lambda>f. case canonicalize f (butlast root) of
                Inl e \<Rightarrow> (f, Inl e)
              | Inr p \<Rightarrow> (case walk_to f root_inode p of
                    None \<Rightarrow> (f, Inl ENOENT) | Some i \<Rightarrow> fstatat_nofollow i (List.last root) f)) s1 of
             (s2, Inr (Symlink t)) \<Rightarrow> (s2, Inl ELOOP)
           | (s2, r) \<Rightarrow> (s2, Inl ENOTDIR))
      | r \<Rightarrow> r)"

section \<open>The allowlist\<close>

record sandbox_env =
  se_display :: "errno \<Rightarrow> string"
  se_decode_base64 :: "string \<Rightarrow> string + string"
  se_encode_base64 :: "string \<Rightarrow> string"
  se_tmp_name :: "string \<Rightarrow> string"

definition in_quotes :: "string \<Rightarrow> string" where
  "in_quotes s = [CHR 39] @ s @ [CHR 39]"

definition write_dirs_rejection_message :: "string \<Rightarrow> string \<Rightarrow> string list list \<Rightarrow> string" where
  "write_dirs_rejection_message op p roots =
     op @ '': '' @ in_quotes p @ '' is not inside a configured write directory'' @
     (if op = ''readFile'' then '' (readFile is scoped to the same [relay] write_dirs allowlist as writeFile)'' else []) @
     ''. Add one under [relay] write_dirs in ~/.endara/config.toml, or in the Endara desktop app '' @
     ''under Settings '' @ utf8 [8594] @ '' Write directories.'' @
     (if roots = [] then [] else '' Currently allowed: '' @ join '', '' (map show_path roots) @ ''.'')"

fun is_prefix :: "'a list \<Rightarrow> 'a list \<Rightarrow> bool" where
  "is_prefix [] ys = True"
| "is_prefix (x # xs) [] = False"
| "is_prefix (x # xs) (y # ys) = (x = y \<and> is_prefix xs ys)"

text \<open>The deepest existing ancestor, and what is missing below it.\<close>

fun deepest_existing :: "fs \<Rightarrow> string list \<Rightarrow> string list \<Rightarrow> (string list \<times> string list) option" where
  "deepest_existing f [] missing = (if path_exists f [] then Some ([], missing) else None)"
| "deepest_existing f (c # cs) missing =
     (if path_exists f (rev (c # cs)) then Some (rev (c # cs), missing) else deepest_existing f cs (c # missing))"

definition resolve_write_path ::
  "sandbox_env \<Rightarrow> string \<Rightarrow> string \<Rightarrow> string list list \<Rightarrow> fs \<Rightarrow> string + (string list \<times> string list)" where
  "resolve_write_path se op p roots f =
     (if p = [] then Inl (op @ '': path must not be empty '' @ utf8 [8212] @ '' '' @ op @
          '' requires an absolute path inside a configured write directory'')
      else if CHR 0x00 \<in> set p then Inl (op @ '': path must not contain a NUL byte'')
      else if \<not> is_absolute p then Inl (op @ '': '' @ in_quotes p @ '' is a relative path '' @ utf8 [8212] @ '' '' @ op @
          '' requires an absolute path inside a configured write directory'')
      else if ''..'' \<in> set (components p) then
        Inl (op @ '': '' @ in_quotes p @ '' contains a '' @ in_quotes ''..'' @ '' path component, which is not allowed'')
      else if roots = [] then Inl (write_dirs_rejection_message op p roots)
      else case deepest_existing f (rev (components p)) [] of
        None \<Rightarrow> Inl (write_dirs_rejection_message op p roots)
      | Some (existing, missing) \<Rightarrow>
         (case canonicalize f existing of
            Inl e \<Rightarrow> Inl (op @ '': failed to resolve '' @ in_quotes p @ '': '' @ se_display se e)
          | Inr q \<Rightarrow>
             (case List.find (\<lambda>root. is_prefix root (q @ missing)) roots of
                Some root \<Rightarrow> Inr (q @ missing, root)
              | None \<Rightarrow> Inl (write_dirs_rejection_message op p roots))))"

section \<open>Writing\<close>

record write_limits =
  wl_max_file :: nat
  wl_max_files :: nat
  wl_max_total :: nat

definition MAX_WRITE_FILE_BYTES :: nat where
  "MAX_WRITE_FILE_BYTES = 32 * 1024 * 1024"

definition default_write_limits :: write_limits where
  "default_write_limits = \<lparr>wl_max_file = MAX_WRITE_FILE_BYTES, wl_max_files = 64, wl_max_total = 256 * 1024 * 1024\<rparr>"

record run_usage =
  ru_files :: nat
  ru_bytes :: nat

datatype write_rejection = InvalidArgument string | WriteFailed string

definition into_message :: "write_rejection \<Rightarrow> string" where
  "into_message r = (case r of InvalidArgument m \<Rightarrow> m | WriteFailed m \<Rightarrow> m)"

text \<open>Writing the bytes: a failing write has written a part of them.\<close>

definition write_all :: "outside \<Rightarrow> inode \<Rightarrow> string \<Rightarrow> os \<Rightarrow> os \<times> (errno + unit)" where
  "write_all fo k bytes s =
     (case fo_fail fo (os_clock s) of
        Some e \<Rightarrow> perform fo (\<lambda>f. (put_bytes k (take (fo_partial fo (os_clock s)) bytes) f, Inl e)) s
      | None \<Rightarrow> perform fo (\<lambda>f. (put_bytes k bytes f, Inr ())) s)"

definition escaped :: "string \<Rightarrow> string list \<Rightarrow> string" where
  "escaped op dest = op @ '': '' @ in_quotes (show_path dest) @ '' escaped the configured write directory during the write''"

definition parent_dirs_error :: "sandbox_env \<Rightarrow> string \<Rightarrow> string list \<Rightarrow> errno \<Rightarrow> string" where
  "parent_dirs_error se op dest e =
     (if e = ELOOP \<or> e = EXDEV then escaped op dest
      else op @ '': failed to create parent directories for '' @ in_quotes (show_path dest) @ '': '' @ se_display se e)"

definition root_error :: "sandbox_env \<Rightarrow> string \<Rightarrow> string list \<Rightarrow> string list \<Rightarrow> errno \<Rightarrow> string" where
  "root_error se op dest root e =
     (if e = ELOOP then escaped op dest
      else op @ '': configured write directory '' @ in_quotes (show_path root) @ '' is not accessible: '' @ se_display se e @
           '' '' @ utf8 [8212] @ '' recreate it or update [relay] write_dirs in ~/.endara/config.toml'')"

text \<open>The temporary file in the opened directory, and its publication; a failure removes it again.\<close>

definition publish ::
  "sandbox_env \<Rightarrow> outside \<Rightarrow> string \<Rightarrow> string list \<Rightarrow> string \<Rightarrow> inode \<Rightarrow> os \<Rightarrow> os \<times> (string + unit)" where
  "publish se fo op dest bytes dir s =
     (let file = List.last dest; tmp = se_tmp_name se file;
          (s1, written) = chain (syscall fo (create_exclusive dir tmp) s) (\<lambda>s1 k. write_all fo k bytes s1)
      in case written of
           Inl e \<Rightarrow> (fst (syscall fo (unlinkat dir tmp) s1),
                     Inl (op @ '': failed to write '' @ in_quotes (show_path dest) @ '': '' @ se_display se e))
         | Inr u \<Rightarrow>
            (case syscall fo (renameat dir tmp file) s1 of
               (s2, Inl e) \<Rightarrow> (fst (syscall fo (unlinkat dir tmp) s2),
                     Inl (op @ '': failed to finalise '' @ in_quotes (show_path dest) @ '': '' @ se_display se e))
             | (s2, Inr u) \<Rightarrow> (s2, Inr ())))"

fun strip_path :: "string list \<Rightarrow> string list \<Rightarrow> string list option" where
  "strip_path [] ys = Some ys"
| "strip_path (x # xs) [] = None"
| "strip_path (x # xs) (y # ys) = (if x = y then strip_path xs ys else None)"

definition write_atomic ::
  "sandbox_env \<Rightarrow> outside \<Rightarrow> string \<Rightarrow> string list \<Rightarrow> string \<Rightarrow> string list \<Rightarrow> os \<Rightarrow> os \<times> (string + unit)" where
  "write_atomic se fo op dest bytes root s =
     (if dest = [] then (s, Inl (op @ '': '' @ in_quotes ''/'' @ '' has no parent directory''))
      else case strip_path root (butlast dest) of
        None \<Rightarrow> (s, Inl (escaped op dest))
      | Some rel \<Rightarrow>
         (case open_root fo root s of
            (s1, Inl e) \<Rightarrow> (s1, Inl (root_error se op dest root e))
          | (s1, Inr i) \<Rightarrow>
             (case open_dir_beneath_creating fo i rel s1 of
                (s2, Inl e) \<Rightarrow> (s2, Inl (parent_dirs_error se op dest e))
              | (s2, Inr dir) \<Rightarrow> publish se fo op dest bytes dir s2)))"

definition trailing_padding :: "string \<Rightarrow> nat" where
  "trailing_padding d = length (filter (\<lambda>c. c = CHR ''='') (take 2 (rev d)))"

definition estimated_len :: "string \<Rightarrow> string \<Rightarrow> nat option" where
  "estimated_len encoding d =
     (if encoding = ''utf8'' then Some (length d)
      else if encoding = ''base64'' then Some (length d * 3 div 4 - trailing_padding d)
      else None)"

definition decode_data :: "sandbox_env \<Rightarrow> string \<Rightarrow> string \<Rightarrow> string \<Rightarrow> write_rejection + string" where
  "decode_data se op encoding d =
     (if encoding = ''utf8'' then Inr d
      else if encoding = ''base64''
      then (case se_decode_base64 se d of
              Inl m \<Rightarrow> Inl (WriteFailed (op @ '': invalid base64 data: '' @ m)) | Inr b \<Rightarrow> Inr b)
      else Inl (InvalidArgument (op @ '': unsupported encoding '' @ in_quotes encoding @ '' (expected '' @
             [CHR 34] @ ''utf8'' @ [CHR 34] @ '' or '' @ [CHR 34] @ ''base64'' @ [CHR 34] @ '')'')))"

text \<open>The destination and the number of bytes written. The allowlist check looks at the file system once.\<close>

definition write_checked ::
  "sandbox_env \<Rightarrow> outside \<Rightarrow> string \<Rightarrow> string \<Rightarrow> string \<Rightarrow> string \<Rightarrow> string list list \<Rightarrow> write_limits \<Rightarrow> run_usage \<Rightarrow> os \<Rightarrow>
     os \<times> (write_rejection + (string list \<times> nat))" where
  "write_checked se fo op p d encoding roots limits usage s =
     (case perform fo (\<lambda>f. (f, resolve_write_path se op p roots f)) s of
        (s1, Inl m) \<Rightarrow> (s1, Inl (WriteFailed m))
      | (s1, Inr (dest, root)) \<Rightarrow>
         (case decode_data se op encoding d of
            Inl r \<Rightarrow> (s1, Inl r)
          | Inr bytes \<Rightarrow>
             (if wl_max_total limits < ru_bytes usage + length bytes
              then (s1, Inl (WriteFailed (op @ '': writing '' @ dec_of_nat (length bytes) @
                     '' more bytes would exceed the per-run total write limit of '' @ dec_of_nat (wl_max_total limits) @
                     '' bytes ('' @ dec_of_nat (ru_bytes usage) @ '' bytes already written)'')))
              else (case write_atomic se fo op dest bytes root s1 of
                      (s2, Inl m) \<Rightarrow> (s2, Inl (WriteFailed m))
                    | (s2, Inr u) \<Rightarrow> (s2, Inr (dest, length bytes))))))"

definition write_file_to_roots ::
  "sandbox_env \<Rightarrow> outside \<Rightarrow> string \<Rightarrow> string \<Rightarrow> string \<Rightarrow> string \<Rightarrow> string list list \<Rightarrow> write_limits \<Rightarrow> run_usage \<Rightarrow> os \<Rightarrow>
     os \<times> (write_rejection + (string list \<times> nat))" where
  "write_file_to_roots se fo op p d encoding roots limits usage s =
     (if wl_max_files limits \<le> ru_files usage
      then (s, Inl (WriteFailed (op @ '': per-run limit of '' @ dec_of_nat (wl_max_files limits) @
             '' file writes reached '' @ utf8 [8212] @ '' no further files can be written by this script run'')))
      else case estimated_len encoding d of
        Some n \<Rightarrow>
          if wl_max_file limits < n
          then (s, Inl (WriteFailed (op @ '': data is '' @ (if encoding = ''base64'' then ''approximately '' else []) @
                 dec_of_nat n @ '' bytes, which exceeds the per-file limit of '' @ dec_of_nat (wl_max_file limits) @ '' bytes'')))
          else write_checked se fo op p d encoding roots limits usage s
      | None \<Rightarrow> write_checked se fo op p d encoding roots limits usage s)"

section \<open>Reading\<close>

definition open_error_message :: "sandbox_env \<Rightarrow> string \<Rightarrow> errno \<Rightarrow> string" where
  "open_error_message se p e =
     (if e = ENOENT then ''readFile: '' @ in_quotes p @ '' does not exist''
      else if e = ELOOP then ''readFile: '' @ in_quotes p @
        '' refers to a symbolic link or a path containing a symbolic link loop, which cannot be read''
      else ''readFile: failed to read '' @ in_quotes p @ '': '' @ se_display se e)"

definition reject_non_regular :: "string \<Rightarrow> node \<Rightarrow> string + unit" where
  "reject_non_regular p n =
     (case n of
        Dir es \<Rightarrow> Inl (''readFile: '' @ in_quotes p @ '' is a directory, not a file'')
      | Regular b \<Rightarrow> Inr ()
      | _ \<Rightarrow> Inl (''readFile: '' @ in_quotes p @ '' is not a regular file (FIFOs, devices, and sockets cannot be read)''))"

text \<open>Both need the path below the root; a failed root open is the only other way out.\<close>

definition beneath ::
  "outside \<Rightarrow> string list \<Rightarrow> string list \<Rightarrow> (outside \<Rightarrow> inode \<Rightarrow> string list \<Rightarrow> os \<Rightarrow> os \<times> (errno + 'a)) \<Rightarrow> os \<Rightarrow> os \<times> (errno + 'a)" where
  "beneath fo source root op s =
     (case strip_path root source of
        None \<Rightarrow> (s, Inl (InvalidInput ''path escaped its matched write directory before the open''))
      | Some rel \<Rightarrow> chain (open_root fo root s) (\<lambda>s1 i. op fo i rel s1))"

definition stat_for_read :: "outside \<Rightarrow> string list \<Rightarrow> string list \<Rightarrow> os \<Rightarrow> os \<times> (errno + node)" where
  "stat_for_read fo source root = beneath fo source root stat_beneath_walk"

definition open_for_read :: "outside \<Rightarrow> string list \<Rightarrow> string list \<Rightarrow> os \<Rightarrow> os \<times> (errno + inode)" where
  "open_for_read fo source root = beneath fo source root open_beneath_walk"

definition file_size :: "node \<Rightarrow> nat" where
  "file_size n = (case n of Regular b \<Rightarrow> length b | _ \<Rightarrow> 0)"

text \<open>At most one byte more than allowed; a failing read may have pulled a part.\<close>

definition read_bounded :: "outside \<Rightarrow> inode \<Rightarrow> nat \<Rightarrow> os \<Rightarrow> os \<times> string \<times> (errno + bool)" where
  "read_bounded fo k allowed s =
     (let content = (\<lambda>f. case fs_nodes f k of Some (Regular b) \<Rightarrow> take (Suc allowed) b | _ \<Rightarrow> [])
      in case fo_fail fo (os_clock s) of
           Some e \<Rightarrow> perform fo (\<lambda>f. (f, take (fo_partial fo (os_clock s)) (content f), Inl e)) s
         | None \<Rightarrow> perform fo (\<lambda>f. (f, content f, Inr (allowed < length (content f)))) s)"

text \<open>A run's limits and usage; reads have their own.\<close>

record sandbox_run =
  sr_roots :: "string list list"
  sr_write_limits :: write_limits
  sr_written :: run_usage
  sr_read_limits :: write_limits
  sr_read :: run_usage

definition new_run :: "string list list \<Rightarrow> sandbox_run" where
  "new_run roots = \<lparr>sr_roots = roots, sr_write_limits = default_write_limits, sr_written = \<lparr>ru_files = 0, ru_bytes = 0\<rparr>,
     sr_read_limits = default_write_limits, sr_read = \<lparr>ru_files = 0, ru_bytes = 0\<rparr>\<rparr>"

definition write_file_native ::
  "sandbox_env \<Rightarrow> outside \<Rightarrow> string \<Rightarrow> string \<Rightarrow> string \<Rightarrow> sandbox_run \<Rightarrow> os \<Rightarrow> sandbox_run \<times> os \<times> (write_rejection + string)" where
  "write_file_native se fo p d encoding r s =
     (case write_file_to_roots se fo ''writeFile'' p d encoding (sr_roots r) (sr_write_limits r) (sr_written r) s of
        (s1, Inl e) \<Rightarrow> (r, s1, Inl e)
      | (s1, Inr (dest, n)) \<Rightarrow>
         (r\<lparr>sr_written := \<lparr>ru_files = ru_files (sr_written r) + 1, ru_bytes = ru_bytes (sr_written r) + n\<rparr>\<rparr>, s1,
          Inr (show_path dest)))"

definition read_error :: "sandbox_env \<Rightarrow> string \<Rightarrow> errno \<Rightarrow> string" where
  "read_error se p e = ''readFile: failed to read '' @ in_quotes p @ '': '' @ se_display se e"

definition decode_contents :: "sandbox_env \<Rightarrow> string \<Rightarrow> string \<Rightarrow> string \<Rightarrow> string + string" where
  "decode_contents se p encoding b =
     (if encoding = ''utf8''
      then (if is_utf8 b then Inr b
            else Inl (''readFile: '' @ in_quotes p @ '' does not contain valid UTF-8 '' @ utf8 [8212] @ '' use { encoding: '' @
                   [CHR 34] @ ''base64'' @ [CHR 34] @ '' } to read binary files''))
      else Inr (se_encode_base64 se b))"

text \<open>The bounded read of the opened file and its accounting, which comes first whatever the outcome.\<close>

definition read_opened ::
  "sandbox_env \<Rightarrow> outside \<Rightarrow> string \<Rightarrow> string \<Rightarrow> inode \<Rightarrow> nat \<Rightarrow> sandbox_run \<Rightarrow> os \<Rightarrow> sandbox_run \<times> os \<times> (write_rejection + string)" where
  "read_opened se fo p encoding k allowed r s =
     (case read_bounded fo k allowed s of
        (s1, b, outcome) \<Rightarrow>
          (let u = sr_read r; lim = sr_read_limits r;
               r1 = r\<lparr>sr_read := \<lparr>ru_files = ru_files u + 1, ru_bytes = ru_bytes u + length b\<rparr>\<rparr>
           in (r1, s1,
               case outcome of
                 Inl e \<Rightarrow> Inl (WriteFailed (read_error se p e))
               | Inr True \<Rightarrow> Inl (WriteFailed (''readFile: '' @ in_quotes p @ '' exceeds the remaining read allowance of '' @
                     dec_of_nat allowed @ '' bytes (per-file limit '' @ dec_of_nat (wl_max_file lim) @
                     '' bytes, per-run total limit '' @ dec_of_nat (wl_max_total lim) @ '' bytes, '' @
                     dec_of_nat (ru_bytes u) @ '' bytes already read)''))
               | Inr False \<Rightarrow> map_sum WriteFailed id (decode_contents se p encoding b))))"

definition read_resolved ::
  "sandbox_env \<Rightarrow> outside \<Rightarrow> string \<Rightarrow> string \<Rightarrow> string list \<Rightarrow> string list \<Rightarrow> sandbox_run \<Rightarrow> os \<Rightarrow>
     sandbox_run \<times> os \<times> (write_rejection + string)" where
  "read_resolved se fo p encoding source root r s =
     (let lim = sr_read_limits r; u = sr_read r
      in case stat_for_read fo source root s of
           (s1, Inl e) \<Rightarrow> (r, s1, Inl (WriteFailed (open_error_message se p e)))
         | (s1, Inr n) \<Rightarrow>
            (case reject_non_regular p n of
               Inl m \<Rightarrow> (r, s1, Inl (WriteFailed m))
             | Inr ok_type \<Rightarrow>
                (case open_for_read fo source root s1 of
                   (s2, Inl e) \<Rightarrow> (r, s2, Inl (WriteFailed (open_error_message se p e)))
                 | (s2, Inr k) \<Rightarrow>
                    (case syscall fo (stat_self k) s2 of
                       (s3, Inl e) \<Rightarrow> (r, s3, Inl (WriteFailed (read_error se p e)))
                     | (s3, Inr meta) \<Rightarrow>
                        (case reject_non_regular p meta of
                           Inl m \<Rightarrow> (r, s3, Inl (WriteFailed m))
                         | Inr ok_meta \<Rightarrow>
                            (let n = file_size meta in
                             if wl_max_file lim < n
                             then (r, s3, Inl (WriteFailed (''readFile: '' @ in_quotes p @ '' is '' @ dec_of_nat n @
                                    '' bytes, which exceeds the per-file limit of '' @ dec_of_nat (wl_max_file lim) @ '' bytes'')))
                             else if wl_max_total lim < ru_bytes u + n
                             then (r, s3, Inl (WriteFailed (''readFile: reading '' @ dec_of_nat n @
                                    '' more bytes would exceed the per-run total read limit of '' @
                                    dec_of_nat (wl_max_total lim) @ '' bytes ('' @ dec_of_nat (ru_bytes u) @ '' bytes already read)'')))
                             else read_opened se fo p encoding k
                                    (min (wl_max_file lim) (wl_max_total lim - ru_bytes u)) r s3))))))"

definition read_file_native ::
  "sandbox_env \<Rightarrow> outside \<Rightarrow> string \<Rightarrow> string \<Rightarrow> sandbox_run \<Rightarrow> os \<Rightarrow> sandbox_run \<times> os \<times> (write_rejection + string)" where
  "read_file_native se fo p encoding r s =
     (let lim = sr_read_limits r; u = sr_read r in
      if encoding \<noteq> ''utf8'' \<and> encoding \<noteq> ''base64''
      then (r, s, Inl (InvalidArgument (''readFile: unsupported encoding '' @ in_quotes encoding @ '' (expected '' @
             [CHR 34] @ ''utf8'' @ [CHR 34] @ '' or '' @ [CHR 34] @ ''base64'' @ [CHR 34] @ '')'')))
      else if wl_max_files lim \<le> ru_files u
      then (r, s, Inl (WriteFailed (''readFile: per-run limit of '' @ dec_of_nat (wl_max_files lim) @ '' file reads reached '' @
             utf8 [8212] @ '' no further files can be read by this script run'')))
      else case perform fo (\<lambda>f. (f, resolve_write_path se ''readFile'' p (sr_roots r) f)) s of
        (s1, Inl m) \<Rightarrow> (r, s1, Inl (WriteFailed m))
      | (s1, Inr (source, root)) \<Rightarrow> read_resolved se fo p encoding source root r s1)"

end
