(* ===== verification/Sandbox_Safety.thy ===== *)
theory Sandbox_Safety
  imports Sandbox_Files
begin

text \<open>
  What the sandbox's file access guarantees: an accepted path lies in an allowed directory and is free of links, a
  write changes nothing outside the root it was admitted for whatever other processes do meanwhile, it is all or
  nothing under every failure, and a run's quotas hold.
\<close>

section \<open>The allowlist\<close>

lemma is_prefix_iff: "is_prefix xs ys \<longleftrightarrow> (\<exists>zs. ys = xs @ zs)"
  by (induction xs ys rule: is_prefix.induct) auto

lemma strip_path_iff: "strip_path xs ys = Some zs \<longleftrightarrow> ys = xs @ zs"
  by (induction xs ys rule: strip_path.induct) auto

lemma is_prefix_strip: "is_prefix xs ys \<longleftrightarrow> strip_path xs ys \<noteq> None"
  by (induction xs ys rule: is_prefix.induct) auto

lemma walk_to_append: "walk_to f i (xs @ ys) = Option.bind (walk_to f i xs) (\<lambda>k. walk_to f k ys)"
  by (induction xs arbitrary: i) (auto split: option.splits)

text \<open>A path free of links: every step leads to something that is no link.\<close>

definition link_free :: "fs \<Rightarrow> string list \<Rightarrow> bool" where
  "link_free f cs = (\<forall>n \<le> length cs. \<exists>nd. node_at f (take n cs) = Some nd \<and> (\<forall>t. nd \<noteq> Symlink t))"

lemma link_free_snoc:
  "\<lbrakk>link_free f cs; node_at f (cs @ [c]) = Some nd; \<And>t. nd \<noteq> Symlink t\<rbrakk> \<Longrightarrow> link_free f (cs @ [c])"
  by (auto simp: link_free_def le_Suc_eq)

lemma link_free_butlast: "link_free f cs \<Longrightarrow> link_free f (butlast cs)"
  by (auto simp: link_free_def butlast_conv_take)

lemma link_free_root: "is_dir f root_inode \<Longrightarrow> link_free f []"
  by (auto simp: link_free_def node_at_def is_dir_def split: option.splits node.splits)

lemma resolve_link_free:
  "\<lbrakk>resolve f links cur cs = Inr q; link_free f cur; link_free f []\<rbrakk> \<Longrightarrow> link_free f q"
proof (induction f links cur cs rule: resolve.induct)
  case (1 f links cur)
  then show ?case by simp
next
  case (2 f links cur c cs)
  show ?case
  proof (cases "c = ''..''")
    case True
    with 2 show ?thesis by (simp add: link_free_butlast)
  next
    case False
    then obtain nd where nd: "node_at f (cur @ [c]) = Some nd" using 2(4) by (auto split: option.splits)
    show ?thesis
    proof (cases nd)
      case (Dir es)
      with nd have "link_free f (cur @ [c])" using 2(5) by (intro link_free_snoc) auto
      then show ?thesis using 2(2) [OF False nd Dir] 2(4,6) False nd Dir by simp
    next
      case (Symlink t)
      then obtain links' where l: "links = Suc links'" using 2(4) False nd by (cases links) auto
      then show ?thesis using 2(3) [OF False nd Symlink l] 2(4,5,6) False nd Symlink by (simp split: if_splits)
    next
      case (Regular b)
      then show ?thesis using 2(4,5) False nd by (auto intro: link_free_snoc split: if_splits)
    next
      case Special
      then show ?thesis using 2(4,5) False nd by (auto intro: link_free_snoc split: if_splits)
    qed
  qed
qed

lemma deepest_existing_split:
  "deepest_existing f cs missing = Some (existing, missing') \<Longrightarrow> rev cs @ missing = existing @ missing' \<and> path_exists f existing"
  by (induction f cs missing rule: deepest_existing.induct) (auto split: if_splits)

text \<open>C24: the allowlist: a path the check accepts is absolute and has no \<open>..\<close>; the destination is one of the allowed
  roots or lies below it; it is the canonical path of the deepest ancestor that exists, free of links, followed by
  the components that do not exist yet, so that it names what the given path names.\<close>

theorem allowlist_contains:
  assumes "resolve_write_path se op p roots f = Inr (dest, root)" "is_dir f root_inode"
  shows "is_absolute p \<and> ''..'' \<notin> set (components p) \<and> root \<in> set roots \<and> is_prefix root dest \<and>
    (\<exists>existing missing q. components p = existing @ missing \<and> canonicalize f existing = Inr q \<and> dest = q @ missing \<and>
       link_free f q)"
proof -
  obtain existing missing q where d: "deepest_existing f (rev (components p)) [] = Some (existing, missing)"
    "canonicalize f existing = Inr q" "List.find (\<lambda>root. is_prefix root (q @ missing)) roots = Some root" "dest = q @ missing"
    and pre: "is_absolute p" "''..'' \<notin> set (components p)"
    using assms(1) by (auto simp: resolve_write_path_def split: if_splits option.splits prod.splits sum.splits)
  have "link_free f q"
    using resolve_link_free [of f LINK_LIMIT "[]" existing q] d(2) link_free_root [OF assms(2)] by (simp add: canonicalize_def)
  moreover have "root \<in> set roots" "is_prefix root dest" using d(3,4) by (auto simp: find_Some_iff)
  moreover have "components p = existing @ missing" using deepest_existing_split [OF d(1)] by simp
  ultimately show ?thesis using d pre by blast
qed

section \<open>Writes stay beneath the root\<close>

inductive below :: "fs \<Rightarrow> inode \<Rightarrow> inode \<Rightarrow> bool" for f i where
  self: "below f i i"
| step: "\<lbrakk>below f i k; lookup f k c = Some m\<rbrakk> \<Longrightarrow> below f i m"

text \<open>A directory handle: while it is a directory it lies below the root.\<close>

definition pinned :: "fs \<Rightarrow> inode \<Rightarrow> inode \<Rightarrow> bool" where
  "pinned f i k = (is_dir f k \<longrightarrow> below f i k)"

definition fs_ok :: "fs \<Rightarrow> bool" where
  "fs_ok f = (root_inode < fs_next f \<and> (\<forall>k \<ge> fs_next f. fs_nodes f k = None) \<and> (\<forall>k c m. lookup f k c = Some m \<longrightarrow> m < fs_next f))"

text \<open>
  What the other processes are assumed to leave alone: they move no directory out of the root, inode numbers are not
  given out twice, and a file does not turn into a directory. They may add, remove, replace and link anything, inside the root and out.
\<close>

definition keeps_beneath :: "outside \<Rightarrow> inode \<Rightarrow> bool" where
  "keeps_beneath fo i =
     (\<forall>n f. fs_ok f \<longrightarrow> fs_ok (fo_env fo n f) \<and> fs_next f \<le> fs_next (fo_env fo n f) \<and>
        (\<forall>k < fs_next f. (pinned f i k \<longrightarrow> pinned (fo_env fo n f) i k) \<and> (is_dir (fo_env fo n f) k \<longrightarrow> is_dir f k)))"

text \<open>A change that only alters entries of directories below the root, and files made since.\<close>

definition confined :: "inode \<Rightarrow> inode \<Rightarrow> fs \<Rightarrow> fs \<Rightarrow> bool" where
  "confined i fresh f f' =
     (\<forall>k. fs_nodes f' k \<noteq> fs_nodes f k \<longrightarrow> fresh \<le> k \<or> (is_dir f k \<and> is_dir f' k \<and> below f i k))"

text \<open>The state between two calls.\<close>

definition steady :: "inode \<Rightarrow> inode \<Rightarrow> (fs \<times> fs) list \<Rightarrow> os \<Rightarrow> bool" where
  "steady i fresh before s =
     (fs_ok (os_fs s) \<and> fresh \<le> fs_next (os_fs s) \<and> i < fresh \<and>
      (\<exists>new. os_log s = before @ new \<and> (\<forall>(f, f')\<in>set new. confined i fresh f f')))"

definition file_handle :: "inode \<Rightarrow> inode \<Rightarrow> os \<Rightarrow> bool" where
  "file_handle fresh k s = (fresh \<le> k \<and> k < fs_next (os_fs s) \<and> \<not> is_dir (os_fs s) k)"

definition handle :: "inode \<Rightarrow> inode \<Rightarrow> os \<Rightarrow> bool" where
  "handle i k s = (k < fs_next (os_fs s) \<and> pinned (os_fs s) i k)"

text \<open>An operation that keeps handles and changes only what it may.\<close>

definition gentle :: "inode \<Rightarrow> inode \<Rightarrow> (fs \<Rightarrow> fs \<times> 'a) \<Rightarrow> fs \<Rightarrow> bool" where
  "gentle i fresh op f =
     (let f' = fst (op f) in fs_ok f' \<and> fs_next f \<le> fs_next f' \<and> confined i fresh f f' \<and>
        (\<forall>k < fs_next f. (pinned f i k \<longrightarrow> pinned f' i k) \<and> (is_dir f' k \<longrightarrow> is_dir f k)))"

lemma gentle_same: "fs_ok f \<Longrightarrow> fst (op f) = f \<Longrightarrow> gentle i fresh op f"
  by (simp add: gentle_def confined_def)

text \<open>What an operation may rely on when it runs, and what holds after it.\<close>

definition ready :: "inode \<Rightarrow> inode \<Rightarrow> os \<Rightarrow> fs \<Rightarrow> bool" where
  "ready i fresh s f =
     (fs_ok f \<and> fresh \<le> fs_next f \<and> fs_next (os_fs s) \<le> fs_next f \<and> (\<forall>k. handle i k s \<longrightarrow> k < fs_next f \<and> pinned f i k) \<and>
      (\<forall>k. file_handle fresh k s \<longrightarrow> k < fs_next f \<and> \<not> is_dir f k))"

definition carried :: "inode \<Rightarrow> inode \<Rightarrow> os \<Rightarrow> os \<Rightarrow> bool" where
  "carried i fresh s s' =
     ((\<forall>k. handle i k s \<longrightarrow> handle i k s') \<and> (\<forall>k. file_handle fresh k s \<longrightarrow> file_handle fresh k s') \<and>
      fs_next (os_fs s) \<le> fs_next (os_fs s'))"

lemma carried_trans: "\<lbrakk>carried i fresh s s'; carried i fresh s' s''\<rbrakk> \<Longrightarrow> carried i fresh s s''"
  by (auto simp: carried_def)

lemma carried_refl: "carried i fresh s s"
  by (simp add: carried_def)

lemma perform_steady:
  assumes env: "keeps_beneath fo i" and s: "steady i fresh before s"
    and op: "\<And>f. ready i fresh s f \<Longrightarrow> gentle i fresh op f"
    and run: "perform fo op s = (s', r)"
  shows "steady i fresh before s' \<and> carried i fresh s s'"
    and "\<exists>f. ready i fresh s f \<and> op f = (os_fs s', r)"
proof -
  define f where "f = fo_env fo (os_clock s) (os_fs s)"
  have ok: "fs_ok f" "fs_next (os_fs s) \<le> fs_next f" using env s by (auto simp: f_def keeps_beneath_def steady_def)
  moreover have "fresh \<le> fs_next f" using s ok(2) by (simp add: steady_def)
  moreover have kept: "\<forall>k < fs_next (os_fs s). (pinned (os_fs s) i k \<longrightarrow> pinned f i k) \<and> (is_dir f k \<longrightarrow> is_dir (os_fs s) k)"
    using env s by (simp add: f_def keeps_beneath_def steady_def)
  moreover have "k < fs_next f \<and> pinned f i k" if "handle i k s" for k
    using that kept ok by (auto simp: handle_def)
  moreover have "k < fs_next f \<and> \<not> is_dir f k" if "file_handle fresh k s" for k
    using that kept ok by (auto simp: file_handle_def)
  ultimately have f: "ready i fresh s f" by (simp add: ready_def)
  from op [OF f] have g: "gentle i fresh op f" .
  have s': "s' = \<lparr>os_fs = fst (op f), os_clock = Suc (os_clock s), os_log = os_log s @ [(f, fst (op f))]\<rparr>" "r = snd (op f)"
    using run by (auto simp: perform_def f_def Let_def split: prod.splits)
  have g': "fs_next f \<le> fs_next (fst (op f))"
      "\<And>k. \<lbrakk>k < fs_next f; pinned f i k\<rbrakk> \<Longrightarrow> pinned (fst (op f)) i k"
      "\<And>k. \<lbrakk>k < fs_next f; is_dir (fst (op f)) k\<rbrakk> \<Longrightarrow> is_dir f k"
    using g by (auto simp: gentle_def Let_def)
  have "handle i k s'" if "handle i k s" for k
    using that f g'(1) g'(2) [of k] by (simp add: handle_def ready_def s'(1))
  moreover have "file_handle fresh k s'" if "file_handle fresh k s" for k
    using that f g'(1) g'(3) [of k] by (auto simp: file_handle_def ready_def s'(1))
  ultimately have "carried i fresh s s'"
    using f g'(1) by (simp add: carried_def ready_def s'(1))
  moreover have "steady i fresh before s'"
    using g s f by (auto simp: steady_def gentle_def ready_def s' Let_def)
  ultimately show "steady i fresh before s' \<and> carried i fresh s s'" by simp
  show "\<exists>f. ready i fresh s f \<and> op f = (os_fs s', r)" using f s' by (intro exI [of _ f]) simp
qed

text \<open>The operations.\<close>

lemma lookup_dir: "lookup f k c = Some m \<Longrightarrow> is_dir f k"
  by (auto simp: lookup_def entries_def is_dir_def split: option.splits node.splits)

lemma map_of_without: "map_of (filter (\<lambda>(m, q). m \<noteq> name) es) c = (if c = name then None else map_of es c)"
  by (induction es) auto

lemma lookup_set_entry:
  "lookup (set_entry k name m f) j c = (if j = k then if c = name then Some m else lookup f k c else lookup f j c)"
  by (auto simp: lookup_def set_entry_def entries_def map_of_without)

lemma lookup_remove_entry:
  "lookup (remove_entry k name f) j c = (if j = k \<and> c = name then None else lookup f j c)"
  by (auto simp: lookup_def remove_entry_def entries_def map_of_without)

lemma is_dir_set_entry: "is_dir f k \<Longrightarrow> is_dir (set_entry k name m f) j = is_dir f j"
  by (auto simp: is_dir_def set_entry_def)

lemma is_dir_remove_entry: "is_dir f k \<Longrightarrow> is_dir (remove_entry k name f) j = is_dir f j"
  by (auto simp: is_dir_def remove_entry_def)

lemma entry_keeps [simp]:
  "j \<noteq> k \<Longrightarrow> fs_nodes (set_entry k name m f) j = fs_nodes f j" "j \<noteq> k \<Longrightarrow> fs_nodes (remove_entry k name f) j = fs_nodes f j"
  "is_dir (set_entry k name m f) k" "is_dir (remove_entry k name f) k"
  "fs_next (set_entry k name m f) = fs_next f" "fs_next (remove_entry k name f) = fs_next f"
  by (simp_all add: set_entry_def remove_entry_def is_dir_def)

text \<open>A new name for a new inode.\<close>

lemma below_lt: "\<lbrakk>below f i k; fs_ok f; i < fs_next f\<rbrakk> \<Longrightarrow> k < fs_next f"
  by (induction rule: below.induct) (auto simp: fs_ok_def)

lemma below_mono:
  assumes "below f i k" "\<And>j c m. lookup f j c = Some m \<Longrightarrow> lookup f' j c = Some m"
  shows "below f' i k"
  using assms(1) by (induction rule: below.induct) (auto intro: below.intros assms(2))

lemma gentle_add_node:
  assumes f: "fs_ok f" "fresh \<le> fs_next f" and k: "is_dir f k" "pinned f i k" "lookup f k name = None"
    and n: "\<And>c. (case n of Dir es \<Rightarrow> map_of es c | _ \<Rightarrow> None) = None"
  shows "gentle i fresh (\<lambda>f. (add_node k name n f, x)) f"
proof -
  let ?g = "f\<lparr>fs_nodes := (fs_nodes f)(fs_next f \<mapsto> n), fs_next := Suc (fs_next f)\<rparr>"
  let ?f = "add_node k name n f"
  have kn: "k < fs_next f"
  proof (rule ccontr)
    assume "\<not> k < fs_next f"
    with f(1) have "fs_nodes f k = None" by (simp add: fs_ok_def)
    with k(1) show False by (simp add: is_dir_def)
  qed
  have lk: "lookup ?g j c = (if j = fs_next f then None else lookup f j c)" for j c
    using n [of c] by (auto simp: lookup_def entries_def split: node.splits)
  have fresh_none: "lookup f (fs_next f) c = None" for c
    using f(1) by (simp add: lookup_def entries_def fs_ok_def)
  have look: "lookup ?f j c = (if j = k \<and> c = name then Some (fs_next f) else lookup f j c)" for j c
    using kn fresh_none by (simp add: add_node_def Let_def lookup_set_entry lk)
  have dir: "is_dir ?f j = (if j = fs_next f then (\<exists>es. n = Dir es) else is_dir f j)" for j
    using k(1) kn by (auto simp: add_node_def Let_def is_dir_def set_entry_def split: node.splits)
  have "fs_ok ?f"
    using f(1) kn by (auto simp: fs_ok_def look less_Suc_eq split: if_splits)
      (auto simp: add_node_def set_entry_def Let_def fs_ok_def less_Suc_eq)
  moreover have "below ?f i j" if "below f i j" for j
    using that by (rule below_mono) (use k(3) in \<open>auto simp: look\<close>)
  moreover have "confined i fresh f ?f"
    using k f(2) dir [of k] kn by (auto simp: confined_def pinned_def add_node_def set_entry_def Let_def is_dir_def split: if_splits)
  moreover have "fs_next ?f = Suc (fs_next f)" by (simp add: add_node_def set_entry_def Let_def)
  ultimately show ?thesis by (auto simp: gentle_def pinned_def dir)
qed

text \<open>Names that move or go.\<close>

lemma below_except:
  assumes "below f i m"
    and "\<And>j c m. \<lbrakk>lookup f j c = Some m; is_dir f m\<rbrakk> \<Longrightarrow> \<exists>c'. lookup f' j c' = Some m"
  shows "is_dir f m \<Longrightarrow> below f' i m"
  using assms(1)
proof (induction rule: below.induct)
  case self
  show ?case by (rule below.self)
next
  case (step k c m)
  then have "below f' i k" using lookup_dir by blast
  moreover obtain c' where "lookup f' k c' = Some m" using assms(2) step by blast
  ultimately show ?case by (rule below.step)
qed

lemma gentle_entries:
  assumes f: "fs_ok f" "fresh \<le> fs_next f" and k: "is_dir f k" "pinned f i k"
    and nodes: "\<And>j. j \<noteq> k \<Longrightarrow> fs_nodes f' j = fs_nodes f j" "is_dir f' k" "fs_next f' = fs_next f"
    and looked: "\<And>j c m. lookup f' j c = Some m \<Longrightarrow> \<exists>c'. lookup f j c' = Some m"
    and kept: "\<And>j c m. \<lbrakk>lookup f j c = Some m; is_dir f m\<rbrakk> \<Longrightarrow> \<exists>c'. lookup f' j c' = Some m"
    and op: "fst (op f) = f'"
  shows "gentle i fresh op f"
proof -
  have kn: "k < fs_next f"
  proof (rule ccontr)
    assume "\<not> k < fs_next f"
    with f(1) have "fs_nodes f k = None" by (simp add: fs_ok_def)
    with k(1) show False by (simp add: is_dir_def)
  qed
  have dir: "is_dir f' j = is_dir f j" for j
    by (cases "j = k") (use nodes k(1) in \<open>simp_all add: is_dir_def\<close>)
  have "fs_ok f'"
    unfolding fs_ok_def
  proof (intro conjI allI impI)
    show "root_inode < fs_next f'" using f(1) nodes(3) by (simp add: fs_ok_def)
  next
    fix j assume "fs_next f' \<le> j"
    with nodes kn f(1) show "fs_nodes f' j = None" by (auto simp: fs_ok_def)
  next
    fix j c m assume "lookup f' j c = Some m"
    with looked f(1) nodes(3) show "m < fs_next f'" by (fastforce simp: fs_ok_def)
  qed
  moreover have "confined i fresh f f'"
    unfolding confined_def
  proof (intro allI impI)
    fix j assume "fs_nodes f' j \<noteq> fs_nodes f j"
    with nodes(1) have "j = k" by blast
    with k nodes(2) show "fresh \<le> j \<or> (is_dir f j \<and> is_dir f' j \<and> below f i j)" by (simp add: pinned_def)
  qed
  moreover have "pinned f' i j" if "pinned f i j" for j
    using that below_except [of f i j f'] kept by (auto simp: pinned_def dir)
  ultimately show ?thesis using nodes(3) dir by (simp add: gentle_def op)
qed

lemma gentle_rename:
  assumes "fs_ok f" "fresh \<le> fs_next f" "pinned f i k"
  shows "gentle i fresh (renameat k src dst) f"
proof (cases "fst (renameat k src dst f) = f")
  case True
  with assms(1) show ?thesis by (rule gentle_same)
next
  case False
  then obtain m where m: "lookup f k src = Some m" "\<And>es. node_named f k dst \<noteq> Some (Dir es)"
    "renameat k src dst f = (set_entry k dst m (remove_entry k src f), Inr ())"
    by (auto simp: renameat_def split: option.splits node.splits)
  let ?f = "set_entry k dst m (remove_entry k src f)"
  have dir: "is_dir f k" using m(1) by (rule lookup_dir)
  have look: "lookup ?f j c = (if j = k then if c = dst then Some m else if c = src then None else lookup f k c else lookup f j c)" for j c
    by (auto simp: lookup_set_entry lookup_remove_entry)
  show ?thesis
  proof (rule gentle_entries [OF assms(1,2) dir assms(3)])
    fix j c q assume q: "lookup f j c = Some q" "is_dir f q"
    show "\<exists>c'. lookup ?f j c' = Some q"
    proof (cases "j = k \<and> (c = src \<or> c = dst)")
      case True
      have "c = dst \<Longrightarrow> False"
        using q True m(2) by (auto simp: node_named_def is_dir_def split: option.splits node.splits)
      with q True m(1) show ?thesis by (intro exI [of _ dst]) (auto simp: look)
    next
      case False
      with q show ?thesis by (intro exI [of _ c]) (auto simp: look)
    qed
  qed (use m in \<open>auto simp: look split: if_splits\<close>)
qed

lemma gentle_unlink:
  assumes "fs_ok f" "fresh \<le> fs_next f" "pinned f i k"
  shows "gentle i fresh (unlinkat k name) f"
proof (cases "fst (unlinkat k name f) = f")
  case True
  with assms(1) show ?thesis by (rule gentle_same)
next
  case False
  then obtain m where m: "lookup f k name = Some m" "\<not> is_dir f m" "unlinkat k name f = (remove_entry k name f, Inr ())"
    by (auto simp: unlinkat_def node_named_def is_dir_def split: option.splits node.splits Option.bind_splits)
  have dir: "is_dir f k" using m(1) by (rule lookup_dir)
  show ?thesis
  proof (rule gentle_entries [OF assms(1,2) dir assms(3)])
    fix j c q assume q: "lookup f j c = Some q" "is_dir f q"
    with m show "\<exists>c'. lookup (remove_entry k name f) j c' = Some q"
      by (intro exI [of _ c]) (auto simp: lookup_remove_entry)
  qed (use m in \<open>auto simp: lookup_remove_entry split: if_splits\<close>)
qed

lemma gentle_put:
  assumes "fs_ok f" "fresh \<le> k" "k < fs_next f" "\<not> is_dir f k"
  shows "gentle i fresh (\<lambda>f. (put_bytes k bytes f, x)) f"
proof -
  have look: "lookup (put_bytes k bytes f) j c = lookup f j c" for j c
    using assms(4) by (auto simp: lookup_def put_bytes_def entries_def is_dir_def split: option.splits node.splits)
  have dir: "is_dir (put_bytes k bytes f) j = is_dir f j" for j
    using assms(4) by (auto simp: put_bytes_def is_dir_def)
  have "below f i j \<Longrightarrow> below (put_bytes k bytes f) i j" for j
    by (rule below_mono) (auto simp: look)
  moreover have "fs_ok (put_bytes k bytes f)"
    using assms(1,3) by (auto simp: fs_ok_def look) (auto simp: put_bytes_def)
  moreover have "confined i fresh f (put_bytes k bytes f)"
    using assms(2) by (auto simp: confined_def put_bytes_def split: if_splits)
  moreover have "fs_next (put_bytes k bytes f) = fs_next f" by (simp add: put_bytes_def)
  ultimately show ?thesis by (auto simp: gentle_def pinned_def dir)
qed

text \<open>A call, and a sequence of calls, that leaves the state steady and every handle in place.\<close>

definition runs :: "inode \<Rightarrow> inode \<Rightarrow> (fs \<times> fs) list \<Rightarrow> os \<Rightarrow> os \<Rightarrow> bool" where
  "runs i fresh before s s' = (steady i fresh before s' \<and> carried i fresh s s')"

lemma os_runs_trans: "\<lbrakk>runs i fresh before s s'; runs i fresh before s' s''\<rbrakk> \<Longrightarrow> runs i fresh before s s''"
  by (auto simp: runs_def intro: carried_trans)

lemma os_runs_refl: "steady i fresh before s \<Longrightarrow> runs i fresh before s s"
  by (simp add: runs_def carried_refl)

lemma runs_steady: "runs i fresh before s s' \<Longrightarrow> steady i fresh before s'"
  by (simp add: runs_def)

lemma runs_handle: "\<lbrakk>runs i fresh before s s'; handle i k s\<rbrakk> \<Longrightarrow> handle i k s'"
  by (simp add: runs_def carried_def)

lemma syscall_runs:
  assumes env: "keeps_beneath fo i" and s: "steady i fresh before s"
    and op: "\<And>f. ready i fresh s f \<Longrightarrow> gentle i fresh op f"
    and run: "syscall fo op s = (s', r)"
  shows "runs i fresh before s s'" and "r = Inr x \<Longrightarrow> \<exists>f. ready i fresh s f \<and> op f = (os_fs s', Inr x)"
proof -
  consider (fails) e where "fo_fail fo (os_clock s) = Some e" "perform fo (\<lambda>f. (f, Inl e)) s = (s', r)"
    | (works) "perform fo op s = (s', r)"
    using run by (auto simp: syscall_def split: option.splits)
  then have "runs i fresh before s s' \<and> (r = Inr x \<longrightarrow> (\<exists>f. ready i fresh s f \<and> op f = (os_fs s', Inr x)))"
  proof cases
    case fails
    have gentle: "gentle i fresh (\<lambda>f. (f, Inl e)) f" if "ready i fresh s f" for f
      using that by (intro gentle_same) (simp_all add: ready_def)
    from perform_steady [OF env s gentle fails(2)] show ?thesis by (auto simp: runs_def)
  next
    case works
    from perform_steady [OF env s op works] show ?thesis by (auto simp: runs_def)
  qed
  then show "runs i fresh before s s'" and "r = Inr x \<Longrightarrow> \<exists>f. ready i fresh s f \<and> op f = (os_fs s', Inr x)" by blast+
qed

lemma reads_run:
  assumes "keeps_beneath fo i" "steady i fresh before s" "\<And>f. fst (op f) = f" "syscall fo op s = (s', r)"
  shows "runs i fresh before s s'" and "r = Inr x \<Longrightarrow> \<exists>f. ready i fresh s f \<and> op f = (os_fs s', Inr x)"
proof -
  have "gentle i fresh op f" if "ready i fresh s f" for f
    using that assms(3) by (intro gentle_same) (simp_all add: ready_def)
  from syscall_runs [OF assms(1,2) this assms(4)]
  show "runs i fresh before s s'" and "r = Inr x \<Longrightarrow> \<exists>f. ready i fresh s f \<and> op f = (os_fs s', Inr x)" by blast+
qed

lemma open_dir_handle:
  assumes "keeps_beneath fo i" "steady i fresh before s" "handle i k s" "syscall fo (open_dir k name) s = (s', r)"
  shows "runs i fresh before s s'" and "r = Inr m \<Longrightarrow> handle i m s'"
proof -
  have same: "fst (open_dir k name f) = f" for f by (simp add: open_dir_def)
  note calls = reads_run [OF assms(1,2) same assms(4)]
  show "runs i fresh before s s'" by (rule calls(1))
  assume "r = Inr m"
  from calls(2) [OF this] obtain f where f: "ready i fresh s f" "open_dir k name f = (os_fs s', Inr m)" by blast
  then have "lookup f k name = Some m" "is_dir f m" "os_fs s' = f" by (auto simp: open_dir_def split: option.splits if_splits)
  moreover from this(1) have "below f i k" using f(1) assms(3) by (auto simp: ready_def pinned_def dest: lookup_dir)
  ultimately show "handle i m s'"
    using f(1) by (auto simp: handle_def pinned_def ready_def fs_ok_def intro: below.step)
qed

lemma open_intermediate_handle:
  assumes "keeps_beneath fo i" "steady i fresh before s" "handle i k s" "open_intermediate fo k name s = (s', r)"
  shows "runs i fresh before s s' \<and> (\<forall>m. r = Inr m \<longrightarrow> handle i m s')"
proof -
  obtain s1 r1 where first: "syscall fo (open_dir k name) s = (s1, r1)" by fastforce
  note calls = open_dir_handle [OF assms(1-3) first]
  show ?thesis
  proof (cases "r1 = Inl ENOTDIR")
    case True
    obtain s2 r2 where second: "syscall fo (fstatat_nofollow k name) s1 = (s2, r2)" by fastforce
    have "fst (fstatat_nofollow k name f) = f" for f by (simp add: fstatat_nofollow_def)
    from reads_run(1) [OF assms(1) runs_steady [OF calls(1)] this second] have "runs i fresh before s s2"
      using calls(1) os_runs_trans by blast
    moreover have "s' = s2 \<and> (\<exists>e. r = Inl e)"
      using assms(4) True first second by (auto simp: open_intermediate_def split: sum.splits node.splits)
    ultimately show ?thesis by auto
  next
    case False
    then have "s' = s1 \<and> r = r1" using assms(4) first by (auto simp: open_intermediate_def split: sum.splits errno.splits)
    with calls show ?thesis by auto
  qed
qed

lemma mkdirat_runs:
  assumes "keeps_beneath fo i" "steady i fresh before s" "handle i k s" "mkdirat_tolerating_exists fo k name s = (s', r)"
  shows "runs i fresh before s s'"
proof -
  obtain s1 r1 where first: "syscall fo (mkdirat k name) s = (s1, r1)" by fastforce
  have "gentle i fresh (mkdirat k name) f" if "ready i fresh s f" for f
  proof (cases "is_dir f k \<and> lookup f k name = None")
    case True
    have "gentle i fresh (\<lambda>f. (add_node k name (Dir []) f, Inr ())) f"
      by (rule gentle_add_node) (use that True assms(3) in \<open>auto simp: ready_def\<close>)
    with True show ?thesis by (simp add: gentle_def mkdirat_def)
  next
    case False
    then have "fst (mkdirat k name f) = f" by (auto simp: mkdirat_def)
    with that show ?thesis by (simp add: gentle_same ready_def)
  qed
  from syscall_runs(1) [OF assms(1,2) this first] assms(4) first show ?thesis
    by (auto simp: mkdirat_tolerating_exists_def split: sum.splits errno.splits)
qed

lemma enter_creating_handle:
  assumes "keeps_beneath fo i" "steady i fresh before s" "handle i k s" "enter_creating fo k name s = (s', r)"
  shows "runs i fresh before s s' \<and> (\<forall>m. r = Inr m \<longrightarrow> handle i m s')"
proof -
  obtain s1 r1 where first: "open_intermediate fo k name s = (s1, r1)" by fastforce
  note one = open_intermediate_handle [OF assms(1-3) first]
  show ?thesis
  proof (cases "r1 = Inl ENOENT")
    case True
    obtain s2 r2 where second: "mkdirat_tolerating_exists fo k name s1 = (s2, r2)" by fastforce
    have two: "runs i fresh before s s2" "handle i k s2"
      using mkdirat_runs [OF assms(1) runs_steady [OF conjunct1 [OF one]] runs_handle [OF conjunct1 [OF one] assms(3)] second]
        one assms(3) os_runs_trans runs_handle by blast+
    show ?thesis
    proof (cases r2)
      case (Inl e)
      with assms(4) True first second two show ?thesis by (auto simp: enter_creating_def chain_def)
    next
      case (Inr u)
      then have "open_intermediate fo k name s2 = (s', r)"
        using assms(4) True first second by (simp add: enter_creating_def chain_def)
      from open_intermediate_handle [OF assms(1) runs_steady [OF two(1)] two(2) this] two(1) show ?thesis
        using os_runs_trans by blast
    qed
  next
    case False
    then have "s' = s1 \<and> r = r1" using assms(4) first by (auto simp: enter_creating_def split: sum.splits errno.splits)
    with one show ?thesis by auto
  qed
qed

lemma open_dir_beneath_creating_handle:
  assumes "keeps_beneath fo i" "steady i fresh before s" "handle i k s" "open_dir_beneath_creating fo k cs s = (s', r)"
  shows "runs i fresh before s s' \<and> (\<forall>m. r = Inr m \<longrightarrow> handle i m s')"
  using assms(2-)
proof (induction cs arbitrary: k s)
  case Nil
  then show ?case by (auto intro: os_runs_refl)
next
  case (Cons c cs)
  obtain s1 r1 where first: "enter_creating fo k c s = (s1, r1)" by fastforce
  note one = enter_creating_handle [OF assms(1) Cons.prems(1,2) first]
  show ?case
  proof (cases r1)
    case (Inl e)
    with Cons.prems(3) first one show ?thesis by (auto simp: chain_def)
  next
    case (Inr m)
    then have "open_dir_beneath_creating fo m cs s1 = (s', r)" "handle i m s1"
      using Cons.prems(3) first one by (auto simp: chain_def)
    from Cons.IH [OF runs_steady [OF conjunct1 [OF one]] this(2,1)] one show ?thesis using os_runs_trans by blast
  qed
qed

lemma create_handle:
  assumes "keeps_beneath fo i" "steady i fresh before s" "handle i k s" "syscall fo (create_exclusive k name) s = (s', r)"
  shows "runs i fresh before s s'" and "r = Inr m \<Longrightarrow> file_handle fresh m s'"
proof -
  have "gentle i fresh (create_exclusive k name) f" if "ready i fresh s f" for f
  proof (cases "is_dir f k \<and> lookup f k name = None")
    case True
    have "gentle i fresh (\<lambda>f. (add_node k name (Regular []) f, Inr (fs_next f) :: errno + inode)) f"
      using gentle_add_node [of f fresh k i name "Regular []" "Inr (fs_next f) :: errno + inode"] that True assms(3)
      by (simp add: ready_def gentle_def)
    with True show ?thesis by (simp add: gentle_def create_exclusive_def)
  next
    case False
    then have "fst (create_exclusive k name f) = f" by (auto simp: create_exclusive_def)
    with that show ?thesis by (simp add: gentle_same ready_def)
  qed
  note calls = syscall_runs [OF assms(1,2) this assms(4)]
  show "runs i fresh before s s'" by (rule calls(1))
  assume "r = Inr m"
  then obtain f where f: "ready i fresh s f" "create_exclusive k name f = (os_fs s', Inr m)"
    using calls(2) [of m] by blast
  then have m: "m = fs_next f" "os_fs s' = add_node k name (Regular []) f" "is_dir f k"
    by (auto simp: create_exclusive_def split: if_splits)
  have "k \<noteq> fs_next f" using m(3) f(1) by (auto simp: ready_def fs_ok_def is_dir_def)
  then show "file_handle fresh m s'"
    using f(1) m by (auto simp: file_handle_def ready_def add_node_def set_entry_def is_dir_def Let_def)
qed

lemma write_all_runs:
  assumes "keeps_beneath fo i" "steady i fresh before s" "file_handle fresh k s" "write_all fo k bytes s = (s', r)"
  shows "runs i fresh before s s'"
proof -
  have "gentle i fresh (\<lambda>f. (put_bytes k b f, x)) f" if "ready i fresh s f" for b f and x :: "errno + unit"
    by (rule gentle_put) (use that assms(3) in \<open>auto simp: ready_def file_handle_def\<close>)
  from perform_steady(1) [OF assms(1,2) this] assms(4) show ?thesis
    by (auto simp: write_all_def runs_def split: option.splits)
qed

lemma publish_runs:
  assumes "keeps_beneath fo i" "steady i fresh before s" "handle i dir s" "publish se fo op dest bytes dir s = (s', r)"
  shows "runs i fresh before s s'"
proof -
  let ?file = "List.last dest" let ?tmp = "se_tmp_name se ?file"
  have unlink: "runs i fresh before u u'"
    if "steady i fresh before u" "handle i dir u" "syscall fo (unlinkat dir ?tmp) u = (u', q)" for u u' and q :: "errno + unit"
    by (rule syscall_runs(1) [OF assms(1) that(1) _ that(3)])
      (use that(2) in \<open>auto simp: ready_def intro: gentle_unlink\<close>)
  have rename: "runs i fresh before u u'"
    if "steady i fresh before u" "handle i dir u" "syscall fo (renameat dir ?tmp ?file) u = (u', q)" for u u' and q :: "errno + unit"
    by (rule syscall_runs(1) [OF assms(1) that(1) _ that(3)])
      (use that(2) in \<open>auto simp: ready_def intro: gentle_rename\<close>)
  obtain s1 r1 where first: "syscall fo (create_exclusive dir ?tmp) s = (s1, r1)" by fastforce
  note one = create_handle [OF assms(1-3) first]
  obtain s2 r2 where second: "chain (s1, r1) (\<lambda>s1 k. write_all fo k bytes s1) = (s2, r2)" by fastforce
  have two: "runs i fresh before s s2"
  proof (cases r1)
    case (Inl e)
    with second one show ?thesis by (simp add: chain_def)
  next
    case (Inr k)
    with second have "write_all fo k bytes s1 = (s2, r2)" by (simp add: chain_def)
    from write_all_runs [OF assms(1) runs_steady [OF one(1)] one(2) [OF Inr] this] one(1) show ?thesis
      by (blast intro: os_runs_trans)
  qed
  have ready: "steady i fresh before s2" "handle i dir s2" using two assms(3) runs_steady runs_handle by blast+
  obtain u3 q3 where gone: "syscall fo (unlinkat dir ?tmp) s2 = (u3, q3)" by fastforce
  obtain s3 r3 where third: "syscall fo (renameat dir ?tmp ?file) s2 = (s3, r3)" by fastforce
  obtain u4 q4 where gone': "syscall fo (unlinkat dir ?tmp) s3 = (u4, q4)" by fastforce
  note moved = rename [OF ready third]
  have "runs i fresh before s2 u3" by (rule unlink [OF ready gone])
  moreover have "runs i fresh before s2 u4"
    using unlink [OF runs_steady [OF moved] runs_handle [OF moved ready(2)] gone'] moved by (blast intro: os_runs_trans)
  moreover have "s' = u3 \<or> s' = s3 \<or> s' = u4"
    using assms(4) first second third gone gone' by (auto simp: publish_def Let_def split: sum.splits prod.splits)
  ultimately show ?thesis using two moved by (blast intro: os_runs_trans)
qed

lemma open_root_opened:
  assumes "open_root fo root s = (s1, Inr i)" "keeps_beneath fo i" "fs_ok (os_fs s)"
  shows "fs_ok (os_fs s1) \<and> i < fs_next (os_fs s1)"
proof -
  have "syscall fo (open_root_dir root) s = (s1, Inr i)"
    using assms(1) by (auto simp: open_root_def split: prod.splits sum.splits errno.splits node.splits)
  then have "open_root_dir root (fo_env fo (os_clock s) (os_fs s)) = (os_fs s1, Inr i)"
    by (auto simp: syscall_def perform_def Let_def split: option.splits prod.splits)
  moreover have "fs_ok (fo_env fo (os_clock s) (os_fs s))" using assms(2,3) by (simp add: keeps_beneath_def)
  ultimately show ?thesis
    by (auto simp: open_root_dir_def open_dir_def fs_ok_def split: if_splits sum.splits option.splits)
qed

lemma handle_root: "i < fs_next (os_fs s) \<Longrightarrow> handle i i s"
  by (auto simp: handle_def pinned_def intro: below.self)


text \<open>The read side.\<close>

lemma walk_parents_handle:
  assumes "keeps_beneath fo i" "steady i fresh before s" "handle i k s" "walk_parents fo k cs s = (s', r)"
  shows "runs i fresh before s s' \<and> (\<forall>m. r = Inr m \<longrightarrow> handle i m s')"
  using assms(2-)
proof (induction cs arbitrary: k s)
  case Nil
  then show ?case by (auto intro: os_runs_refl)
next
  case (Cons c cs)
  obtain s1 r1 where first: "open_intermediate fo k c s = (s1, r1)" by fastforce
  note one = open_intermediate_handle [OF assms(1) Cons.prems(1,2) first]
  show ?case
  proof (cases r1)
    case (Inl e)
    with Cons.prems(3) first one show ?thesis by (auto simp: chain_def)
  next
    case (Inr m)
    then have "walk_parents fo m cs s1 = (s', r)" "handle i m s1"
      using Cons.prems(3) first one by (auto simp: chain_def)
    from Cons.IH [OF runs_steady [OF conjunct1 [OF one]] this(2,1)] one show ?thesis using os_runs_trans by blast
  qed
qed

text \<open>A read stays beneath its root: whatever the other processes do before every call, the file that is opened is,
  at the moment of the open, an entry of a directory that lies below the opened root, under the last component of
  the admitted path, and no symbolic link, even when a component of the path was replaced by a link after the
  check.\<close>

theorem read_stays_beneath:
  assumes "open_root fo root s = (s1, Inr i)" "open_for_read fo source root s = (s', Inr k)"
    and "keeps_beneath fo i" "fs_ok (os_fs s)"
  shows "\<exists>dir. below (os_fs s') i dir \<and> lookup (os_fs s') dir (List.last source) = Some k \<and>
    (\<forall>t. fs_nodes (os_fs s') k \<noteq> Some (Symlink t))"
proof -
  obtain rel where rel: "strip_path root source = Some rel" "open_beneath_walk fo i rel s1 = (s', Inr k)"
    using assms(1,2) by (auto simp: open_for_read_def beneath_def chain_def split: option.splits)
  then have ne: "rel \<noteq> []" by (auto simp: open_beneath_walk_def)
  have last: "List.last source = List.last rel" using rel(1) ne by (auto simp: strip_path_iff)
  have root: "fs_ok (os_fs s1)" "i < fs_next (os_fs s1)" using open_root_opened [OF assms(1,3,4)] by simp_all
  have steady: "steady i (fs_next (os_fs s1)) (os_log s1) s1" using root by (simp add: steady_def)
  obtain s2 m where two: "walk_parents fo i (butlast rel) s1 = (s2, Inr m)" "syscall fo (open_final m (List.last rel)) s2 = (s', Inr k)"
    using rel(2) ne by (auto simp: open_beneath_walk_def chain_def split: prod.splits sum.splits)
  from walk_parents_handle [OF assms(3) steady handle_root [OF root(2)] two(1)]
  have h: "steady i (fs_next (os_fs s1)) (os_log s1) s2" "handle i m s2" by (auto simp: runs_def)
  have "fst (open_final m (List.last rel) f) = f" for f by (simp add: open_final_def)
  from reads_run(2) [OF assms(3) h(1) this two(2), of k] obtain f where f: "ready i (fs_next (os_fs s1)) s2 f"
    "open_final m (List.last rel) f = (os_fs s', Inr k)" by blast
  then have "f = os_fs s'" "lookup f m (List.last rel) = Some k" "\<forall>t. fs_nodes f k \<noteq> Some (Symlink t)"
    by (auto simp: open_final_def split: option.splits node.splits)
  moreover have "below f i m" using f(1) h(2) lookup_dir [OF calculation(2)] by (simp add: ready_def pinned_def)
  ultimately show ?thesis by (auto simp: last)
qed

definition lone_root :: fs where
  "lone_root = \<lparr>fs_nodes = [0 \<mapsto> Dir [(''w'', 1)], 1 \<mapsto> Dir []], fs_next = 2\<rparr>"

definition calm :: outside where
  "calm = \<lparr>fo_env = (\<lambda>n f. f), fo_fail = (\<lambda>n. None), fo_partial = (\<lambda>n. 0)\<rparr>"

definition plain_env :: sandbox_env where
  "plain_env = \<lparr>se_display = (\<lambda>e. ''error''), se_decode_base64 = Inr, se_encode_base64 = id, se_tmp_name = (\<lambda>n. ''.'' @ n @ ''.tmp'')\<rparr>"

lemma lone_root_ok: "fs_ok lone_root"
  by (auto simp: fs_ok_def lone_root_def root_inode_def lookup_def entries_def split: if_splits)

lemma calm_keeps: "keeps_beneath calm i"
  by (simp add: keeps_beneath_def calm_def)

lemma canonicalize_root: "canonicalize f [] = Inr []"
  by (simp add: canonicalize_def)

lemma open_lone_root:
  "open_root calm [''w''] \<lparr>os_fs = lone_root, os_clock = 0, os_log = []\<rparr> =
     (\<lparr>os_fs = lone_root, os_clock = 1, os_log = [(lone_root, lone_root)]\<rparr>, Inr 1)"
  by (simp add: open_root_def syscall_def perform_def calm_def open_root_dir_def canonicalize_root open_dir_def root_inode_def
      lookup_def entries_def is_dir_def lone_root_def Let_def)


definition one_file :: fs where
  "one_file = \<lparr>fs_nodes = [0 \<mapsto> Dir [(''w'', 1)], 1 \<mapsto> Dir [(''f'', 2)], 2 \<mapsto> Regular ''x''], fs_next = 3\<rparr>"

lemma read_stays_beneath_witness:
  "\<exists>dir. below one_file 1 dir \<and> lookup one_file dir ''f'' = Some 2 \<and> (\<forall>t. fs_nodes one_file 2 \<noteq> Some (Symlink t))"
proof -
  let ?s = "\<lparr>os_fs = one_file, os_clock = 0, os_log = []\<rparr>"
  have ok: "fs_ok one_file"
    by (auto simp: fs_ok_def one_file_def root_inode_def lookup_def entries_def split: if_splits)
  have opened: "open_root calm [''w''] ?s = (\<lparr>os_fs = one_file, os_clock = 1, os_log = [(one_file, one_file)]\<rparr>, Inr 1)"
    by (simp add: open_root_def syscall_def perform_def calm_def open_root_dir_def canonicalize_root open_dir_def root_inode_def
        lookup_def entries_def is_dir_def one_file_def Let_def)
  have "open_for_read calm [''w'', ''f''] [''w''] ?s =
      (\<lparr>os_fs = one_file, os_clock = 2, os_log = [(one_file, one_file), (one_file, one_file)]\<rparr>, Inr 2)"
    using opened
    by (simp add: open_for_read_def beneath_def chain_def open_beneath_walk_def syscall_def perform_def calm_def open_final_def
        lookup_def entries_def one_file_def Let_def)
  from read_stays_beneath [OF opened this calm_keeps] ok show ?thesis by simp
qed

lemma allowlist_contains_witness:
  "is_absolute ''/w//./d/f'' \<and> ''..'' \<notin> set (components ''/w//./d/f'') \<and> [''w''] \<in> set [[''w'']] \<and>
   is_prefix [''w''] [''w'', ''d'', ''f''] \<and>
   (\<exists>existing missing q. components ''/w//./d/f'' = existing @ missing \<and> canonicalize lone_root existing = Inr q \<and>
      [''w'', ''d'', ''f''] = q @ missing \<and> link_free lone_root q)"
proof (rule allowlist_contains [of plain_env "''writeFile''"])
  show "resolve_write_path plain_env ''writeFile'' ''/w//./d/f'' [[''w'']] lone_root = Inr ([''w'', ''d'', ''f''], [''w''])"
    by (simp add: resolve_write_path_def components_def is_absolute_def path_exists_def canonicalize_def LINK_LIMIT_def
        node_at_def root_inode_def lookup_def entries_def lone_root_def)
  show "is_dir lone_root root_inode" by (simp add: is_dir_def root_inode_def lone_root_def)
qed

section \<open>All or nothing\<close>

text \<open>What a name in a directory holds.\<close>

lemma lookup_put:
  "\<not> is_dir f k \<Longrightarrow> lookup (put_bytes k b f) j c = lookup f j c"
  by (auto simp: lookup_def put_bytes_def entries_def is_dir_def split: option.splits node.splits)

definition unused :: "fs \<Rightarrow> inode \<Rightarrow> string \<Rightarrow> bool" where
  "unused f dir tmp = (fs_ok f \<and> is_dir f dir \<and> lookup f dir tmp = None)"

definition created :: "fs \<Rightarrow> inode \<Rightarrow> string \<Rightarrow> string \<Rightarrow> fs" where
  "created f dir tmp b = put_bytes (fs_next f) b (add_node dir tmp (Regular []) f)"

lemma unused_lt: "unused f dir tmp \<Longrightarrow> dir < fs_next f"
  by (rule ccontr) (auto simp: unused_def fs_ok_def is_dir_def)

lemma add_lookup:
  assumes "unused f dir tmp"
  shows "lookup (add_node dir tmp (Regular []) f) j c = (if j = dir \<and> c = tmp then Some (fs_next f) else lookup f j c)"
proof -
  have "lookup (f\<lparr>fs_nodes := (fs_nodes f)(fs_next f \<mapsto> Regular []), fs_next := Suc (fs_next f)\<rparr>) j c = lookup f j c" for j c
    using assms by (auto simp: lookup_def entries_def fs_ok_def unused_def)
  then show ?thesis by (simp add: add_node_def Let_def lookup_set_entry)
qed

lemma created_lookup:
  assumes "unused f dir tmp"
  shows "lookup (created f dir tmp b) j c = (if j = dir \<and> c = tmp then Some (fs_next f) else lookup f j c)"
proof -
  have "\<not> is_dir (add_node dir tmp (Regular []) f) (fs_next f)"
    using unused_lt [OF assms] by (simp add: add_node_def Let_def is_dir_def set_entry_def)
  then show ?thesis by (simp add: created_def lookup_put add_lookup [OF assms])
qed

lemma created_node:
  "\<lbrakk>unused f dir tmp; k \<noteq> dir\<rbrakk> \<Longrightarrow>
     fs_nodes (created f dir tmp b) k = (if k = fs_next f then Some (Regular b) else fs_nodes f k)"
  using unused_lt [of f dir tmp] by (simp add: created_def put_bytes_def add_node_def Let_def)

lemma created_dir: "unused f dir tmp \<Longrightarrow> is_dir (created f dir tmp b) dir"
  using unused_lt [of f dir tmp] by (simp add: created_def put_bytes_def add_node_def Let_def is_dir_def set_entry_def)

text \<open>The directory and everything else but the temporary name are as they were.\<close>

definition untouched :: "fs \<Rightarrow> inode \<Rightarrow> string \<Rightarrow> fs \<Rightarrow> bool" where
  "untouched f dir tmp g =
     ((\<forall>c. c \<noteq> tmp \<longrightarrow> lookup g dir c = lookup f dir c) \<and> (\<forall>k < fs_next f. k \<noteq> dir \<longrightarrow> fs_nodes g k = fs_nodes f k) \<and>
      is_dir g dir)"

lemma untouched_self: "unused f dir tmp \<Longrightarrow> untouched f dir tmp f"
  by (simp add: untouched_def unused_def)

lemma untouched_created: "unused f dir tmp \<Longrightarrow> untouched f dir tmp (created f dir tmp b)"
  by (simp add: untouched_def created_lookup created_node created_dir)

lemma untouched_remove: "untouched f dir tmp g \<Longrightarrow> untouched f dir tmp (remove_entry dir tmp g)"
  by (simp add: untouched_def lookup_remove_entry)

lemma untouched_named:
  assumes "untouched f dir tmp g" "fs_ok f" "c \<noteq> tmp" "lookup f dir c \<noteq> Some dir"
  shows "node_named g dir c = node_named f dir c"
proof (cases "lookup f dir c")
  case None
  with assms show ?thesis by (simp add: node_named_def untouched_def)
next
  case (Some k)
  then have k: "k < fs_next f" "lookup g dir c = Some k" using assms by (auto simp: fs_ok_def untouched_def)
  with Some assms(1,4) show ?thesis by (auto simp: node_named_def untouched_def)
qed

definition published :: "fs \<Rightarrow> inode \<Rightarrow> string \<Rightarrow> string \<Rightarrow> string \<Rightarrow> fs \<Rightarrow> bool" where
  "published f dir tmp file bytes g =
     (node_named g dir file = Some (Regular bytes) \<and> lookup g dir tmp = None \<and>
      (\<forall>c. c \<noteq> tmp \<and> c \<noteq> file \<longrightarrow> lookup g dir c = lookup f dir c) \<and>
      (\<forall>k < fs_next f. k \<noteq> dir \<longrightarrow> fs_nodes g k = fs_nodes f k))"

lemma published_rename:
  assumes "unused f dir tmp" "tmp \<noteq> file"
  shows "published f dir tmp file bytes (set_entry dir file (fs_next f) (remove_entry dir tmp (created f dir tmp bytes)))"
  using unused_lt [OF assms(1)] assms
  by (auto simp: published_def node_named_def lookup_set_entry lookup_remove_entry created_lookup created_node)

lemma calm_perform:
  "\<lbrakk>\<And>n f. fo_env fo n f = f; perform fo op s = (s', r)\<rbrakk> \<Longrightarrow>
     op (os_fs s) = (os_fs s', r) \<and> os_log s' = os_log s @ [(os_fs s, os_fs s')]"
  by (auto simp: perform_def Let_def split: prod.splits)

lemma calm_syscall:
  assumes "\<And>n f. fo_env fo n f = f" "syscall fo op s = (s', r)"
  shows "(op (os_fs s) = (os_fs s', r) \<or> os_fs s' = os_fs s \<and> (\<exists>e. r = Inl e)) \<and> os_log s' = os_log s @ [(os_fs s, os_fs s')]"
  using assms(2) by (auto simp: syscall_def split: option.splits dest!: calm_perform [OF assms(1)])

lemma calm_write:
  assumes "\<And>n f. fo_env fo n f = f" "write_all fo k bytes s = (s', r)"
  shows "\<exists>b. os_fs s' = put_bytes k b (os_fs s) \<and> (r = Inr () \<longrightarrow> b = bytes) \<and> os_log s' = os_log s @ [(os_fs s, os_fs s')]"
  using assms(2) by (auto simp: write_all_def split: option.splits dest!: calm_perform [OF assms(1)]) metis

text \<open>Every state on the way holds the old or the complete new contents under the file's name.\<close>

definition old_or_new :: "fs \<Rightarrow> inode \<Rightarrow> string \<Rightarrow> string \<Rightarrow> fs \<Rightarrow> bool" where
  "old_or_new f dir file bytes g = (node_named g dir file \<in> {node_named f dir file, Some (Regular bytes)})"

lemma removed_tmp:
  assumes "untouched f dir tmp g" "unlinkat dir tmp g = (g', r)"
  shows "untouched f dir tmp g'"
  using assms untouched_remove [OF assms(1)] by (auto simp: unlinkat_def split: option.splits node.splits)

lemma publish_steps:
  assumes env: "\<And>n f. fo_env fo n f = f" and new: "unused (os_fs s) dir tmp" "tmp \<noteq> file"
    and tmp: "tmp = se_tmp_name se file" "file = List.last dest"
    and run: "publish se fo op dest bytes dir s = (s', r)"
  shows "\<exists>gs. os_log s' = os_log s @ gs \<and>
    (\<forall>(g, g')\<in>set gs. untouched (os_fs s) dir tmp g' \<or> published (os_fs s) dir tmp file bytes g') \<and>
    (case r of Inr u \<Rightarrow> published (os_fs s) dir tmp file bytes (os_fs s') | Inl m \<Rightarrow> untouched (os_fs s) dir tmp (os_fs s'))"
proof -
  let ?f = "os_fs s"
  obtain s1 r1 where first: "syscall fo (create_exclusive dir tmp) s = (s1, r1)" by fastforce
  obtain s2 r2 where second: "chain (s1, r1) (\<lambda>s1 k. write_all fo k bytes s1) = (s2, r2)" by fastforce
  obtain s3 r3 where third: "syscall fo (renameat dir tmp file) s2 = (s3, r3)" by fastforce
  obtain s4 r4 where gone: "syscall fo (unlinkat dir tmp) s2 = (s4, r4)" by fastforce
  obtain s5 r5 where gone': "syscall fo (unlinkat dir tmp) s3 = (s5, r5)" by fastforce
  have one: "os_log s1 = os_log s @ [(?f, os_fs s1)]"
      "(\<exists>e. r1 = Inl e) \<and> os_fs s1 = ?f \<or> r1 = Inr (fs_next ?f) \<and> os_fs s1 = add_node dir tmp (Regular []) ?f"
    using calm_syscall [OF env first] new(1) by (auto simp: create_exclusive_def unused_def)
  have added: "untouched ?f dir tmp (add_node dir tmp (Regular []) ?f)"
  proof -
    have "fs_nodes (add_node dir tmp (Regular []) ?f) k = fs_nodes ?f k" if "k < fs_next ?f" "k \<noteq> dir" for k
      using that by (simp add: add_node_def Let_def)
    moreover have "is_dir (add_node dir tmp (Regular []) ?f) dir" by (simp add: add_node_def Let_def)
    ultimately show ?thesis by (simp add: untouched_def add_lookup [OF new(1)])
  qed
  have two: "\<exists>gs. os_log s2 = os_log s @ gs \<and> (\<forall>(g, g')\<in>set gs. untouched ?f dir tmp g')"
      "untouched ?f dir tmp (os_fs s2)" "r2 = Inr () \<Longrightarrow> os_fs s2 = created ?f dir tmp bytes"
  proof -
    have "(\<exists>gs. os_log s2 = os_log s @ gs \<and> (\<forall>(g, g')\<in>set gs. untouched ?f dir tmp g')) \<and> untouched ?f dir tmp (os_fs s2) \<and>
        (r2 = Inr () \<longrightarrow> os_fs s2 = created ?f dir tmp bytes)"
    proof (cases r1)
      case (Inl e)
      with one second untouched_self [OF new(1)] show ?thesis by (auto simp: chain_def)
    next
      case (Inr k)
      with one have k: "k = fs_next ?f" "os_fs s1 = add_node dir tmp (Regular []) ?f" by auto
      have "write_all fo k bytes s1 = (s2, r2)" using second Inr by (simp add: chain_def)
      from calm_write [OF env this] obtain b where b: "os_fs s2 = created ?f dir tmp b" "r2 = Inr () \<longrightarrow> b = bytes"
        "os_log s2 = os_log s1 @ [(os_fs s1, os_fs s2)]" using k by (auto simp: created_def)
      with one(1) k added untouched_created [OF new(1)] show ?thesis by auto
    qed
    then show "\<exists>gs. os_log s2 = os_log s @ gs \<and> (\<forall>(g, g')\<in>set gs. untouched ?f dir tmp g')"
      "untouched ?f dir tmp (os_fs s2)" "r2 = Inr () \<Longrightarrow> os_fs s2 = created ?f dir tmp bytes" by blast+
  qed
  have unlinked: "untouched ?f dir tmp (os_fs u')" "os_log u' = os_log u @ [(os_fs u, os_fs u')]"
    if "untouched ?f dir tmp (os_fs u)" "syscall fo (unlinkat dir tmp) u = (u', q)" for u u' and q :: "errno + unit"
    using calm_syscall [OF env that(2)] that(1) removed_tmp [OF that(1)] by auto
  have three: "os_log s3 = os_log s2 @ [(os_fs s2, os_fs s3)]"
      "r3 = Inl e \<Longrightarrow> os_fs s3 = os_fs s2"
      "\<lbrakk>r2 = Inr (); r3 = Inr ()\<rbrakk> \<Longrightarrow> published ?f dir tmp file bytes (os_fs s3)" for e
  proof -
    have renamed: "os_fs s3 = set_entry dir file (fs_next ?f) (remove_entry dir tmp (created ?f dir tmp bytes))"
      if "r2 = Inr ()" "r3 = Inr ()"
      using calm_syscall [OF env third] two(3) [OF that(1)] that(2) created_lookup [OF new(1)]
      by (auto simp: renameat_def split: option.splits node.splits)
    then show "\<lbrakk>r2 = Inr (); r3 = Inr ()\<rbrakk> \<Longrightarrow> published ?f dir tmp file bytes (os_fs s3)"
      by (simp add: published_rename [OF new])
    show "os_log s3 = os_log s2 @ [(os_fs s2, os_fs s3)]" "r3 = Inl e \<Longrightarrow> os_fs s3 = os_fs s2" for e
      using calm_syscall [OF env third] by (auto simp: renameat_def split: option.splits node.splits)
  qed
  show ?thesis
  proof (cases r2)
    case (Inl e)
    then have "s' = s4" "\<exists>m. r = Inl m" using run first second gone tmp by (auto simp: publish_def Let_def)
    with unlinked [OF two(2) gone] two(1) show ?thesis by fastforce
  next
    case (Inr u)
    show ?thesis
    proof (cases r3)
      case (Inl e)
      then have "s' = s5" "\<exists>m. r = Inl m" using run first second third gone' tmp Inr by (auto simp: publish_def Let_def)
      moreover have "untouched ?f dir tmp (os_fs s3)" using three(2) [OF Inl] two(2) by simp
      ultimately show ?thesis using unlinked [OF _ gone'] two(1) three(1) by fastforce
    next
      case r3: (Inr v)
      then have "s' = s3" "r = Inr ()" using run first second third tmp Inr by (auto simp: publish_def Let_def)
      with three(1,3) two(1) Inr r3 show ?thesis by fastforce
    qed
  qed
qed



section \<open>Quotas\<close>

text \<open>The calls of one script run.\<close>

datatype file_call = WriteFile string string string | ReadFile string string

fun file_call_step :: "sandbox_env \<Rightarrow> outside \<Rightarrow> file_call \<Rightarrow> sandbox_run \<times> os \<Rightarrow> sandbox_run \<times> os" where
  "file_call_step se fo (WriteFile p d encoding) (r, s) = (case write_file_native se fo p d encoding r s of (r', s', res) \<Rightarrow> (r', s'))"
| "file_call_step se fo (ReadFile p encoding) (r, s) = (case read_file_native se fo p encoding r s of (r', s', res) \<Rightarrow> (r', s'))"

definition run_calls :: "sandbox_env \<Rightarrow> outside \<Rightarrow> file_call list \<Rightarrow> sandbox_run \<times> os \<Rightarrow> sandbox_run \<times> os" where
  "run_calls se fo calls = fold (file_call_step se fo) calls"

definition within_quota :: "string list list \<Rightarrow> sandbox_run \<Rightarrow> bool" where
  "within_quota roots r =
     (sr_roots r = roots \<and> sr_write_limits r = default_write_limits \<and> sr_read_limits r = default_write_limits \<and>
      ru_files (sr_written r) \<le> 64 \<and> ru_bytes (sr_written r) \<le> 256 * 1024 * 1024 \<and>
      ru_files (sr_read r) \<le> 64 \<and> ru_bytes (sr_read r) \<le> 256 * 1024 * 1024 + 1)"

lemma write_within:
  assumes "write_file_to_roots se fo op p d encoding roots limits usage s = (s', Inr (dest, n))"
  shows "ru_files usage < wl_max_files limits \<and> ru_bytes usage + n \<le> wl_max_total limits"
proof -
  have "ru_files usage < wl_max_files limits \<and> write_checked se fo op p d encoding roots limits usage s = (s', Inr (dest, n))"
    using assms by (auto simp: write_file_to_roots_def split: if_splits option.splits)
  then show ?thesis
    by (auto simp: write_checked_def split: prod.splits sum.splits if_splits)
qed

lemma write_native_quota:
  assumes "within_quota roots r" "write_file_native se fo p d encoding r s = (r', s', res)"
  shows "within_quota roots r'"
  using assms write_within [of se fo "''writeFile''" p d encoding "sr_roots r" "sr_write_limits r" "sr_written r" s]
  by (auto simp: write_file_native_def within_quota_def default_write_limits_def split: prod.splits sum.splits)

lemma read_bounded_le: "read_bounded fo k allowed s = (s', b, r) \<Longrightarrow> length b \<le> Suc allowed"
  by (auto simp: read_bounded_def perform_def Let_def split: option.splits node.splits prod.splits)

lemma read_opened_quota:
  assumes "within_quota roots r" "ru_files (sr_read r) < 64" "ru_bytes (sr_read r) \<le> 256 * 1024 * 1024"
    and "allowed \<le> 256 * 1024 * 1024 - ru_bytes (sr_read r)" "read_opened se fo p encoding k allowed r s = (r', s', res)"
  shows "within_quota roots r'"
proof -
  obtain s1 b outcome where b: "read_bounded fo k allowed s = (s1, b, outcome)" by (cases "read_bounded fo k allowed s") auto
  from read_bounded_le [OF b] assms b show ?thesis
    by (auto simp: read_opened_def within_quota_def Let_def)
qed

lemma read_resolved_quota:
  assumes "within_quota roots r" "ru_files (sr_read r) < 64" "read_resolved se fo p encoding source root r s = (r', s', res)"
  shows "within_quota roots r'"
proof -
  have lim: "wl_max_total (sr_read_limits r) = 256 * 1024 * 1024" using assms(1) by (simp add: within_quota_def default_write_limits_def)
  have "r' = r \<or> (\<exists>k s3. ru_bytes (sr_read r) \<le> wl_max_total (sr_read_limits r) \<and>
      read_opened se fo p encoding k
        (min (wl_max_file (sr_read_limits r)) (wl_max_total (sr_read_limits r) - ru_bytes (sr_read r))) r s3 = (r', s', res))"
    using assms(3) by (auto simp: read_resolved_def Let_def not_less split: prod.splits sum.splits if_splits dest: add_leD1)
  then show ?thesis
  proof
    assume "\<exists>k s3. ru_bytes (sr_read r) \<le> wl_max_total (sr_read_limits r) \<and>
      read_opened se fo p encoding k
        (min (wl_max_file (sr_read_limits r)) (wl_max_total (sr_read_limits r) - ru_bytes (sr_read r))) r s3 = (r', s', res)"
    then show ?thesis using read_opened_quota [OF assms(1,2)] lim by (metis min.cobounded2)
  qed (use assms(1) in simp)
qed

lemma read_native_quota:
  assumes "within_quota roots r" "read_file_native se fo p encoding r s = (r', s', res)"
  shows "within_quota roots r'"
proof -
  have "r' = r \<or> ru_files (sr_read r) < wl_max_files (sr_read_limits r) \<and>
      (\<exists>source root s1. read_resolved se fo p encoding source root r s1 = (r', s', res))"
    using assms(2) by (auto simp: read_file_native_def Let_def split: if_splits prod.splits sum.splits)
  then show ?thesis
    using assms(1) read_resolved_quota [OF assms(1)] by (auto simp: within_quota_def default_write_limits_def)
qed


end
