(* ===== verification/Sandbox_Tools.thy ===== *)
theory Sandbox_Tools
  imports Complex_Main Profiles
begin

text \<open>
  The tools around the code sandbox (\<^verbatim>\<open>src/js_sandbox.rs\<close>): calls from a script with their existence check and the
  retry loop, the paginated list, and the fuzzy search with its cached index. The script engine itself is a
  third-party crate. The catalog and routing source is the global registry or a profile's view of it.
\<close>

section \<open>The catalog and routing source\<close>

record 'r tool_source =
  ts_catalog :: "'r \<Rightarrow> 'r \<times> tool_info list"
  ts_route :: "string \<Rightarrow> json \<Rightarrow> 'r \<Rightarrow> 'r \<times> effect list \<times> (adapter_error + json)"
  ts_generation :: "'r \<Rightarrow> u64"

definition global_source :: "'v wiring \<Rightarrow> 'v registry tool_source" where
  "global_source w =
     \<lparr>ts_catalog = (\<lambda>r. case merged_catalog_with_lookup (w_encode w) (w_now w) r of (r', c) \<Rightarrow> (r', fst c)),
      ts_route = route_tool_call w, ts_generation = r_generation\<rparr>"

definition profile_source :: "'v wiring \<Rightarrow> string set \<Rightarrow> 'v registry tool_source" where
  "profile_source w allowed =
     \<lparr>ts_catalog = view_merged_catalog (w_encode w) (w_now w) allowed,
      ts_route = view_route_tool_call w allowed, ts_generation = r_generation\<rparr>"

section \<open>Calls from a script\<close>

text \<open>The edit distance is a third-party function. Distance decides first, then the name.\<close>

definition closeness :: "(string \<Rightarrow> string \<Rightarrow> nat) \<Rightarrow> string \<Rightarrow> string \<Rightarrow> nat" where
  "closeness osa lowered tool =
     (let full = lowercase tool; suffix = (case split_at_first ''__'' tool of Some (p, n) \<Rightarrow> lowercase n | None \<Rightarrow> full)
      in min (osa lowered full) (osa lowered suffix))"

definition suggest_tool_names :: "(string \<Rightarrow> string \<Rightarrow> nat) \<Rightarrow> string \<Rightarrow> tool_info list \<Rightarrow> string list" where
  "suggest_tool_names osa name catalog =
     (let threshold = max 1 (min 4 (length (chars name) div 3));
          scored = sort_key fst (sort_key snd (map (\<lambda>t. (closeness osa (lowercase name) (ti_name t), ti_name t)) catalog))
      in map snd (take 3 (filter (\<lambda>(d, n). d \<le> threshold) scored)))"

definition format_unknown_tool_error :: "(string \<Rightarrow> string \<Rightarrow> nat) \<Rightarrow> string \<Rightarrow> tool_info list \<Rightarrow> string" where
  "format_unknown_tool_error osa name catalog =
     (let suggestions = suggest_tool_names osa name catalog
      in if suggestions = []
         then ''no tool named '' @ quoted name @ ''. Use list_tools or search_tools to discover available tools.''
         else ''no tool named '' @ quoted name @ ''. Did you mean: '' @ join '', '' (map quoted suggestions) @
                ''? Use list_tools or search_tools to discover other tools.'')"

definition call_failed :: "string \<Rightarrow> adapter_error \<Rightarrow> string" where
  "call_failed name e = ''tool call '' @ quoted name @ '' failed: '' @ display_error e"

definition call_tool_native ::
  "(string \<Rightarrow> string \<Rightarrow> nat) \<Rightarrow> (string \<Rightarrow> string + json) \<Rightarrow> 'r tool_source \<Rightarrow> string \<Rightarrow> string \<Rightarrow> 'r \<Rightarrow>
     'r \<times> effect list \<times> (string + json)" where
  "call_tool_native osa parse ts name args_json r =
     (case parse args_json of
        Inl e \<Rightarrow> (r, [], Inl (''__call_tool: invalid JSON args: '' @ e))
      | Inr arguments \<Rightarrow>
         (case ts_catalog ts r of
            (r1, catalog) \<Rightarrow>
              if list_ex (\<lambda>t. ti_name t = name) catalog
              then (case ts_route ts name arguments r1 of (r2, eff, res) \<Rightarrow> (r2, eff, map_sum (call_failed name) id res))
              else (r1, [], Inl (format_unknown_tool_error osa name catalog))))"

section \<open>Retries\<close>

definition MAX_RETRIES :: nat where
  "MAX_RETRIES = 3"

definition RETRY_BACKOFFS_MS :: "nat list" where
  "RETRY_BACKOFFS_MS = [200, 400, 800]"

definition RETRY_TRANSIENT_SUBSTRINGS :: "string list" where
  "RETRY_TRANSIENT_SUBSTRINGS = [''503'', ''502'', ''504'', ''timeout'', ''connection'', ''reset'']"

definition is_transient_error :: "adapter_error \<Rightarrow> bool" where
  "is_transient_error e = list_ex (contains_str (lowercase (display_error e))) RETRY_TRANSIENT_SUBSTRINGS"

definition hint :: "string \<Rightarrow> (string \<times> json) list \<Rightarrow> bool" where
  "hint key obj = (Option.bind (hm_get obj key) json_bool = Some True)"

definition is_retry_eligible :: "json option \<Rightarrow> bool" where
  "is_retry_eligible annotations =
     (case Option.bind annotations json_obj of
        None \<Rightarrow> False
      | Some obj \<Rightarrow> \<not> hint ''destructiveHint'' obj \<and> (hint ''readOnlyHint'' obj \<or> hint ''idempotentHint'' obj))"

text \<open>\<open>factor\<close>: the random number between 0.75 and 1.25.\<close>

definition jittered_backoff_ms :: "nat \<Rightarrow> rat \<Rightarrow> nat" where
  "jittered_backoff_ms base factor = nat \<lfloor>of_nat base * factor\<rfloor>"

text \<open>\<open>clock n\<close>: the milliseconds at which attempt \<open>n\<close> has failed; \<open>factor n\<close>: its random number; \<open>between n\<close>: what happens to
  the registry while the script sleeps after it.\<close>

record 'r weather =
  we_clock :: "nat \<Rightarrow> nat"
  we_factor :: "nat \<Rightarrow> rat"
  we_between :: "nat \<Rightarrow> 'r \<Rightarrow> 'r"

definition backoff_after :: "'r weather \<Rightarrow> nat \<Rightarrow> nat" where
  "backoff_after we attempt =
     jittered_backoff_ms (if attempt < length RETRY_BACKOFFS_MS then RETRY_BACKOFFS_MS ! attempt else List.last RETRY_BACKOFFS_MS)
       (we_factor we attempt)"

definition deadline_error :: "string \<Rightarrow> nat \<Rightarrow> adapter_error \<Rightarrow> adapter_error" where
  "deadline_error name attempts e =
     ProtocolError (''call('' @ quoted name @ ''): retry deadline exceeded after '' @ dec_of_nat attempts @
       '' attempts (last error: '' @ display_error e @ '')'')"

text \<open>The registry, the effects of all attempts, the outcome of the last, and how many there were.\<close>

function call_tool_with_retry_loop ::
  "'r weather \<Rightarrow> 'r tool_source \<Rightarrow> string \<Rightarrow> json \<Rightarrow> nat \<Rightarrow> nat \<Rightarrow> nat \<Rightarrow> 'r \<Rightarrow> 'r \<times> effect list \<times> (adapter_error + json) \<times> nat" where
  "call_tool_with_retry_loop we ts name arguments max_retries deadline attempt r =
     (case ts_route ts name arguments r of
        (r1, eff, Inr v) \<Rightarrow> (r1, eff, Inr v, attempt + 1)
      | (r1, eff, Inl e) \<Rightarrow>
          if attempt < max_retries \<and> is_transient_error e
          then if deadline \<le> we_clock we attempt + backoff_after we attempt
               then (r1, eff, Inl (deadline_error name (attempt + 1) e), attempt + 1)
               else case call_tool_with_retry_loop we ts name arguments max_retries deadline (attempt + 1)
                           (we_between we attempt r1) of
                      (r2, eff2, res, n) \<Rightarrow> (r2, eff @ eff2, res, n)
          else (r1, eff, Inl e, attempt + 1))"
  by pat_completeness auto
termination
  by (relation "measure (\<lambda>(we, ts, name, arguments, max_retries, deadline, attempt, r). max_retries - attempt)") auto

declare call_tool_with_retry_loop.simps [simp del]

definition call_tool_with_retry_native ::
  "(string \<Rightarrow> string \<Rightarrow> nat) \<Rightarrow> (string \<Rightarrow> string + json) \<Rightarrow> 'r weather \<Rightarrow> 'r tool_source \<Rightarrow> nat \<Rightarrow> string \<Rightarrow> string \<Rightarrow> nat \<Rightarrow> 'r \<Rightarrow>
     'r \<times> effect list \<times> (string + json)" where
  "call_tool_with_retry_native osa parse we ts deadline name args_json retry r =
     (case parse args_json of
        Inl e \<Rightarrow> (r, [], Inl (''__call_tool_with_retry: invalid JSON args: '' @ e))
      | Inr arguments \<Rightarrow>
         (case ts_catalog ts r of
            (r1, catalog) \<Rightarrow>
              (case List.find (\<lambda>t. ti_name t = name) catalog of
                 None \<Rightarrow> (r1, [], Inl (format_unknown_tool_error osa name catalog))
               | Some t \<Rightarrow>
                   if is_retry_eligible (ti_annotations t)
                   then (case call_tool_with_retry_loop we ts name arguments (min retry MAX_RETRIES) deadline 0 r1 of
                           (r2, eff, res, n) \<Rightarrow> (r2, eff, map_sum (call_failed name) id res))
                   else (r1, [], Inl (''call('' @ quoted name @
                          ''): retry not allowed (tool not declared read-only or idempotent)'')))))"

section \<open>The paginated list\<close>

record tool_slim =
  sl_name :: string
  sl_description :: "string option"
  sl_input_schema :: json
  sl_annotations :: "json option"

definition slim :: "tool_info \<Rightarrow> tool_slim" where
  "slim t = \<lparr>sl_name = ti_name t, sl_description = ti_description t, sl_input_schema = ti_input_schema t, sl_annotations = ti_annotations t\<rparr>"

record list_tools_response =
  lr_tools :: "tool_slim list"
  lr_total :: nat
  lr_limit :: nat
  lr_offset :: nat

definition list_tools_page :: "nat option \<Rightarrow> nat option \<Rightarrow> tool_info list \<Rightarrow> list_tools_response" where
  "list_tools_page limit offset catalog =
     (let total = length catalog; lim = min 200 (unwrap_or 50 limit); off = min total (unwrap_or 0 offset)
      in \<lparr>lr_tools = map slim (take lim (drop off catalog)), lr_total = total, lr_limit = lim, lr_offset = off\<rparr>)"

definition list_tools :: "'r tool_source \<Rightarrow> nat option \<Rightarrow> nat option \<Rightarrow> 'r \<Rightarrow> 'r \<times> list_tools_response" where
  "list_tools ts limit offset r = (case ts_catalog ts r of (r', catalog) \<Rightarrow> (r', list_tools_page limit offset catalog))"

section \<open>Search\<close>

text \<open>Unicode's tables, of which the search reads four columns; strings are lists of code points here.\<close>

record unicode =
  un_alnum :: "nat \<Rightarrow> bool"
  un_lower :: "nat \<Rightarrow> bool"
  un_upper :: "nat \<Rightarrow> bool"
  un_to_lower :: "nat list \<Rightarrow> nat list"

definition ascii_digit :: "nat \<Rightarrow> bool" where
  "ascii_digit c = (48 \<le> c \<and> c \<le> 57)"

text \<open>Whether an identifier is cut between \<open>p\<close> and \<open>c\<close>, with \<open>n\<close> next.\<close>

definition boundary :: "unicode \<Rightarrow> nat \<Rightarrow> nat \<Rightarrow> nat option \<Rightarrow> bool" where
  "boundary un p c n =
     (ascii_digit p \<noteq> ascii_digit c \<or> un_lower un p \<and> un_upper un c \<or>
      un_upper un p \<and> un_upper un c \<and> (case n of Some k \<Rightarrow> un_lower un k | None \<Rightarrow> False))"

definition flush :: "unicode \<Rightarrow> nat list \<Rightarrow> nat list list" where
  "flush un current = (if current = [] then [] else [un_to_lower un (rev current)])"

text \<open>\<open>current\<close> is the token being read, backwards; its head is the previous character.\<close>

fun split_from :: "unicode \<Rightarrow> nat list \<Rightarrow> nat list \<Rightarrow> nat list list" where
  "split_from un current [] = flush un current"
| "split_from un current (c # cs) =
     (if \<not> un_alnum un c then flush un current @ split_from un [] cs
      else case current of
        [] \<Rightarrow> split_from un [c] cs
      | p # rest \<Rightarrow>
         (if boundary un p c (case cs of k # ks \<Rightarrow> Some k | [] \<Rightarrow> None) then flush un current @ split_from un [c] cs
          else split_from un (c # current) cs))"

definition split_identifier :: "unicode \<Rightarrow> nat list \<Rightarrow> nat list list" where
  "split_identifier un s = filter (\<lambda>t. t \<noteq> []) (split_from un [] s)"

definition fuzzy_threshold :: "nat \<Rightarrow> nat" where
  "fuzzy_threshold len = (if len \<le> 3 then 0 else if len \<le> 5 then 1 else 2)"

record tool_doc =
  td_name_lower :: "nat list"
  td_name_tokens :: "nat list list"
  td_desc_lower :: "nat list"
  td_desc_tokens :: "nat list list"
  td_endpoint_tokens :: "nat list list"
  td_schema_tokens :: "nat list list"

definition from_tool :: "unicode \<Rightarrow> tool_info \<Rightarrow> tool_doc" where
  "from_tool un t =
     (let name = chars (ti_name t);
          desc = (case ti_description t of Some d \<Rightarrow> un_to_lower un (chars d) | None \<Rightarrow> []);
          endpoint = (case split_at_first ''__'' (ti_name t) of Some (ep, rest) \<Rightarrow> chars ep | None \<Rightarrow> []);
          props = (case Option.bind (json_get (ti_input_schema t) ''properties'') json_obj of Some obj \<Rightarrow> map fst obj | None \<Rightarrow> [])
      in \<lparr>td_name_lower = un_to_lower un name, td_name_tokens = split_identifier un name,
           td_desc_lower = desc,
           td_desc_tokens = filter (\<lambda>s. s \<noteq> []) (map (trim_by (\<lambda>c. \<not> un_alnum un c)) (words_by is_space [] desc)),
           td_endpoint_tokens = split_identifier un endpoint,
           td_schema_tokens = concat (map (\<lambda>k. split_identifier un (chars k)) props)\<rparr>)"

definition has_infix :: "'a list \<Rightarrow> 'a list \<Rightarrow> bool" where
  "has_infix s pat = (split_at_first pat s \<noteq> None)"

definition best_distance :: "(nat list \<Rightarrow> nat list \<Rightarrow> nat) \<Rightarrow> nat list \<Rightarrow> nat list list \<Rightarrow> nat option" where
  "best_distance osa q toks = (if toks = [] then None else Some (Min (set (map (osa q) toks))))"

definition fuzzy_score :: "nat \<Rightarrow> (nat \<Rightarrow> nat) \<Rightarrow> nat option \<Rightarrow> nat" where
  "fuzzy_score threshold score d = (case d of Some k \<Rightarrow> if k \<le> threshold then score k else 0 | None \<Rightarrow> 0)"

text \<open>
  Scores are counted in tenths. The code adds them as floating-point numbers; sums that involve the 0.7 and 0.4 of
  an inexact word of a description are rounded there, which can order two equal totals differently.
\<close>

definition score_query_token :: "(nat list \<Rightarrow> nat list \<Rightarrow> nat) \<Rightarrow> nat list \<Rightarrow> tool_doc \<Rightarrow> nat" where
  "score_query_token osa q doc =
     (let threshold = fuzzy_threshold (length q) in
      Max (set [0,
        if q \<in> set (td_name_tokens doc) then 100 else 0,
        if starts_with q (td_name_lower doc) then 70 else 0,
        if list_ex (starts_with q) (td_name_tokens doc) then 50 else 0,
        if has_infix (td_name_lower doc) q then 35 else 0,
        if q \<in> set (td_desc_tokens doc) \<or> q \<in> set (td_endpoint_tokens doc) \<or> q \<in> set (td_schema_tokens doc) then 30 else 0,
        if has_infix (td_desc_lower doc) q then 15 else 0,
        if 0 < threshold then fuzzy_score threshold (\<lambda>d. max 5 (20 - 5 * d)) (best_distance osa q (td_name_tokens doc)) else 0,
        if 0 < threshold then fuzzy_score threshold (\<lambda>d. max 2 (10 - 3 * d)) (best_distance osa q (td_desc_tokens doc)) else 0]))"

definition MIN_SCORE :: nat where
  "MIN_SCORE = 10"

definition total_score :: "(nat list \<Rightarrow> nat list \<Rightarrow> nat) \<Rightarrow> nat list list \<Rightarrow> tool_doc \<Rightarrow> nat option" where
  "total_score osa qs doc =
     (let scores = map (\<lambda>q. score_query_token osa q doc) qs;
          matched = length (filter (\<lambda>s. 0 < s) scores);
          total = sum_list scores + 10 * matched + (if matched = length qs then 20 else 0)
      in if matched = 0 \<or> total < MIN_SCORE then None else Some total)"

definition ranked :: "(nat \<times> tool_info) list \<Rightarrow> tool_info list" where
  "ranked scored =
     map snd (sort_key (\<lambda>p. - int (fst p)) (sort_key (\<lambda>p. length (ti_name (snd p))) (sort_key (\<lambda>p. ti_name (snd p)) scored)))"

definition search_docs :: "(nat list \<Rightarrow> nat list \<Rightarrow> nat) \<Rightarrow> nat list list \<Rightarrow> nat \<Rightarrow> tool_doc list \<Rightarrow> tool_info list \<Rightarrow> tool_slim list" where
  "search_docs osa qs limit docs catalog =
     map slim (take limit (ranked (List.map_filter
       (\<lambda>(d, t). map_option (\<lambda>n. (n, t)) (total_score osa qs d)) (zip docs catalog))))"

text \<open>\<open>between\<close>: what happens to the registry between the reads of the generation and of the catalog.\<close>

type_synonym search_index = "(u64 \<times> tool_doc list) option"

definition search_tools ::
  "unicode \<Rightarrow> (nat list \<Rightarrow> nat list \<Rightarrow> nat) \<Rightarrow> ('r \<Rightarrow> 'r) \<Rightarrow> 'r tool_source \<Rightarrow> string \<Rightarrow> nat option \<Rightarrow> search_index \<Rightarrow> 'r \<Rightarrow>
     'r \<times> search_index \<times> tool_slim list" where
  "search_tools un osa between ts query limit cache r =
     (let current = ts_generation ts r; (r1, catalog) = ts_catalog ts (between r); lim = min 200 (unwrap_or 20 limit);
          qs = words_by is_space [] (un_to_lower un (chars query))
      in if qs = [] then (r1, cache, map slim (take lim catalog))
         else case cache of
           Some (g, docs) \<Rightarrow>
             if g = current \<and> length docs = length catalog then (r1, cache, search_docs osa qs lim docs catalog)
             else let docs' = map (from_tool un) catalog in (r1, Some (current, docs'), search_docs osa qs lim docs' catalog)
         | None \<Rightarrow> let docs' = map (from_tool un) catalog in (r1, Some (current, docs'), search_docs osa qs lim docs' catalog))"

end
