(* ===== verification/Sandbox_Search.thy ===== *)
theory Sandbox_Search
  imports Sandbox_Tools
begin

text \<open>
  What the tool search and the paginated list promise: the order and completeness of a search, that the cached
  index cannot be told from a fresh one while no change falls into a search, and that pages put together give
  the whole catalog.
\<close>

section \<open>The order of a search\<close>

definition better :: "nat \<times> tool_info \<Rightarrow> nat \<times> tool_info \<Rightarrow> bool" where
  "better p q \<longleftrightarrow> fst q < fst p \<or>
     fst p = fst q \<and> (length (ti_name (snd p)) < length (ti_name (snd q)) \<or>
       length (ti_name (snd p)) = length (ti_name (snd q)) \<and> ti_name (snd p) \<le> ti_name (snd q))"

lemma sorted_by_then:
  assumes "sorted_wrt (\<lambda>x y. (f x :: 'b :: linorder) \<le> f y) ys"
    and "\<And>k. sorted_wrt R (filter (\<lambda>x. f x = k) ys)"
  shows "sorted_wrt (\<lambda>x y. f x < f y \<or> f x = f y \<and> R x y) ys"
  using assms
proof (induction ys)
  case (Cons y ys)
  have "sorted_wrt R (filter (\<lambda>x. f x = k) ys)" for k using Cons.prems(2) [of k] by (simp split: if_splits)
  moreover have "f y < f z \<or> f y = f z \<and> R y z" if "z \<in> set ys" for z
    using Cons.prems(1) Cons.prems(2) [of "f y"] that by (auto simp: less_le)
  ultimately show ?case using Cons by simp
qed simp

lemma sort_key_then:
  assumes "sorted_wrt R ys"
  shows "sorted_wrt (\<lambda>x y. f x < f y \<or> f x = f y \<and> R x y) (sort_key f ys)"
proof (rule sorted_by_then)
  show "sorted_wrt (\<lambda>x y. f x \<le> f y) (sort_key f ys)"
    using sorted_sort_key [of f ys] by (simp add: sorted_map)
  show "sorted_wrt R (filter (\<lambda>x. f x = k) (sort_key f ys))" for k
    using assms by (simp add: sort_key_stable sorted_wrt_filter)
qed

definition ranking :: "(nat \<times> tool_info) list \<Rightarrow> (nat \<times> tool_info) list" where
  "ranking scored = sort_key (\<lambda>p. - int (fst p)) (sort_key (\<lambda>p. length (ti_name (snd p))) (sort_key (\<lambda>p. ti_name (snd p)) scored))"

lemma ranked_ranking: "ranked scored = map snd (ranking scored)"
  by (simp add: ranked_def ranking_def)

lemma ranking_mset [simp]: "mset (ranking scored) = mset scored"
  by (simp add: ranking_def)

lemma ranking_sorted: "sorted_wrt better (ranking scored)"
proof -
  have "sorted_wrt (\<lambda>p q. ti_name (snd p) \<le> ti_name (snd q)) (sort_key (\<lambda>p. ti_name (snd p)) scored)"
    using sorted_sort_key [of "\<lambda>p. ti_name (snd p)" scored] by (simp add: sorted_map)
  from sort_key_then [OF sort_key_then [OF this, of "\<lambda>p. length (ti_name (snd p))"], of "\<lambda>p. - int (fst p)"]
  show ?thesis unfolding ranking_def by (rule sorted_wrt_mono_rel [rotated]) (auto simp: better_def)
qed

definition hits :: "unicode \<Rightarrow> (nat list \<Rightarrow> nat list \<Rightarrow> nat) \<Rightarrow> nat list list \<Rightarrow> tool_info list \<Rightarrow> (nat \<times> tool_info) list" where
  "hits un osa qs catalog =
     List.map_filter (\<lambda>t. map_option (\<lambda>n. (n, t)) (total_score osa qs (from_tool un t))) catalog"

lemma fresh_search:
  "search_docs osa qs limit (map (from_tool un) catalog) catalog = map slim (take limit (map snd (ranking (hits un osa qs catalog))))"
proof -
  have "List.map_filter (\<lambda>(d, t). map_option (\<lambda>n. (n, t)) (total_score osa qs d)) (zip (map (from_tool un) catalog) catalog) =
      hits un osa qs catalog"
    unfolding hits_def by (induction catalog) (auto simp: List.map_filter_simps split: option.splits)
  then show ?thesis by (simp add: search_docs_def ranked_ranking)
qed

lemma mset_hits:
  "mset (map snd (hits un osa qs catalog)) = mset (filter (\<lambda>t. total_score osa qs (from_tool un t) \<noteq> None) catalog)"
  unfolding hits_def by (induction catalog) (auto simp: List.map_filter_simps split: option.splits)

lemma hits_scored: "p \<in> set (hits un osa qs catalog) \<Longrightarrow> total_score osa qs (from_tool un (snd p)) = Some (fst p)"
  unfolding hits_def by (induction catalog) (auto simp: List.map_filter_simps split: option.splits)

lemma name_token_scores:
  "q \<in> set (td_name_tokens doc) \<Longrightarrow> 100 \<le> score_query_token osa q doc"
  unfolding score_query_token_def Let_def by (rule Max_ge) simp_all

text \<open>A search that builds its index answers with the best of the tools that score, at most the limit of them: they
  are the tools of the catalog with a score, ordered by score, then length of name, then name, and cut. A tool one of
  whose name tokens is in the query is among them.\<close>

theorem search_ranks:
  "\<exists>ts. mset (map snd ts) = mset (filter (\<lambda>t. total_score osa qs (from_tool un t) \<noteq> None) catalog) \<and>
     sorted_wrt better ts \<and> list_all (\<lambda>(n, t). total_score osa qs (from_tool un t) = Some n) ts \<and>
     search_docs osa qs limit (map (from_tool un) catalog) catalog = map slim (take limit (map snd ts)) \<and>
     {t \<in> set catalog. set qs \<inter> set (td_name_tokens (from_tool un t)) \<noteq> {}} \<subseteq> snd ` set ts"
proof (intro exI conjI)
  let ?ts = "ranking (hits un osa qs catalog)"
  have set_ts: "set ?ts = set (hits un osa qs catalog)" by (metis ranking_mset set_mset_mset)
  show perm: "mset (map snd ?ts) = mset (filter (\<lambda>t. total_score osa qs (from_tool un t) \<noteq> None) catalog)"
    using mset_hits [of un osa qs catalog] by simp
  show "sorted_wrt better ?ts" by (rule ranking_sorted)
  show "list_all (\<lambda>(n, t). total_score osa qs (from_tool un t) = Some n) ?ts"
    using hits_scored by (auto simp: list_all_iff set_ts)
  show "search_docs osa qs limit (map (from_tool un) catalog) catalog = map slim (take limit (map snd ?ts))"
    by (rule fresh_search)
  have found: "total_score osa qs (from_tool un t) \<noteq> None" if "q \<in> set qs" "q \<in> set (td_name_tokens (from_tool un t))" for t q
  proof -
    let ?s = "map (\<lambda>q. score_query_token osa q (from_tool un t)) qs"
    have q: "100 \<le> score_query_token osa q (from_tool un t)" using that by (simp add: name_token_scores)
    have mem: "score_query_token osa q (from_tool un t) \<in> set ?s" using that(1) by simp
    from q member_le_sum_list [OF mem] have "100 \<le> sum_list ?s" by linarith
    moreover have "filter (\<lambda>s. 0 < s) ?s \<noteq> []" unfolding filter_empty_conv using mem q by (metis gr0I not_numeral_le_zero)
    ultimately show ?thesis by (simp add: total_score_def MIN_SCORE_def Let_def)
  qed
  have "set (map snd ?ts) = set (filter (\<lambda>t. total_score osa qs (from_tool un t) \<noteq> None) catalog)"
    using perm by (metis set_mset_mset)
  then show "{t \<in> set catalog. set qs \<inter> set (td_name_tokens (from_tool un t)) \<noteq> {}} \<subseteq> snd ` set ?ts"
    using found by auto
qed

section \<open>The cached index\<close>

text \<open>A source whose catalog is a part of the merged one: all of it, or what a profile shows.\<close>

locale catalog_source =
  fixes ts :: "'v registry tool_source" and enc :: percent_encoder and now :: nat
    and shown :: "catalog \<Rightarrow> tool_info list"
  assumes catalog_shown: "ts_catalog ts r = (let (r', c) = merged_catalog_with_lookup enc now r in (r', shown c))"
    and generation_read: "ts_generation ts r = r_generation r"
begin

lemma catalog_read:
  "snd (ts_catalog ts r) = shown (snd (merged_catalog_with_lookup enc now r))"
  "fst (ts_catalog ts r) = fst (merged_catalog_with_lookup enc now r)"
  by (simp_all add: catalog_shown case_prod_beta)

lemma catalog_cached: "r_catalog_cache r = Some c \<Longrightarrow> ts_catalog ts r = (r, shown c)"
  by (simp add: catalog_shown merged_catalog_with_lookup_def)

lemma catalog_stored:
  "r_catalog_cache (fst (ts_catalog ts r)) = Some (snd (merged_catalog_with_lookup enc now r))"
  by (simp add: catalog_read merged_catalog_with_lookup_def refresh_catalog_def case_prod_beta store_catalog_def
      split: option.splits)

lemma catalog_generation: "r_generation (fst (ts_catalog ts r)) = r_generation r"
  by (auto simp: catalog_read merged_catalog_with_lookup_def refresh_catalog_def case_prod_beta store_catalog_def
      split: option.splits)

lemma catalog_keeps_cache: "r_catalog_cache r = Some c \<Longrightarrow> r_catalog_cache (fst (ts_catalog ts r)) = Some c"
  by (simp add: catalog_cached)

end

definition profile_shown :: "string set \<Rightarrow> catalog \<Rightarrow> tool_info list" where
  "profile_shown allowed c =
     filter (\<lambda>t. case hm_get (snd c) (ti_name t) of Some (ep, raw) \<Rightarrow> ep \<in> allowed | None \<Rightarrow> False) (fst c)"

interpretation registry_source: catalog_source "global_source w" "w_encode w" "w_now w" fst for w
  by unfold_locales (simp_all add: global_source_def case_prod_beta)

interpretation view_source: catalog_source "profile_source w allowed" "w_encode w" "w_now w" "profile_shown allowed" for w allowed
  by unfold_locales (simp_all add: profile_source_def view_merged_catalog_def profile_shown_def case_prod_beta)

text \<open>The handler of the whole registry, or of a profile.\<close>

definition handler_source :: "string set option \<Rightarrow> 'v wiring \<Rightarrow> 'v registry tool_source" where
  "handler_source profile w = (case profile of None \<Rightarrow> global_source w | Some allowed \<Rightarrow> profile_source w allowed)"

definition handler_shown :: "string set option \<Rightarrow> catalog \<Rightarrow> tool_info list" where
  "handler_shown profile = (case profile of None \<Rightarrow> fst | Some allowed \<Rightarrow> profile_shown allowed)"

interpretation handler: catalog_source "handler_source profile w" "w_encode w" "w_now w" "handler_shown profile" for profile w
  by unfold_locales (simp_all add: handler_source_def handler_shown_def registry_source.catalog_shown
      registry_source.generation_read view_source.catalog_shown view_source.generation_read split: option.split)

text \<open>Changes of the registry and searches of one handler, one after the other.\<close>

datatype 'v code_event =
    Changed registry_op
  | Searched "'v wiring" string "nat option"

fun code_step ::
  "unicode \<Rightarrow> (nat list \<Rightarrow> nat list \<Rightarrow> nat) \<Rightarrow> percent_encoder \<Rightarrow> string set option \<Rightarrow> 'v code_event \<Rightarrow>
     'v registry \<times> search_index \<Rightarrow> 'v registry \<times> search_index" where
  "code_step un osa enc profile (Changed ev) (r, cache) = (registry_step enc ev r, cache)"
| "code_step un osa enc profile (Searched w query limit) (r, cache) =
     (case search_tools un osa id (handler_source profile w) query limit cache r of (r', cache', _) \<Rightarrow> (r', cache'))"

text \<open>\<open>n\<close>: how often the generation has advanced; the index carries the generation of some point of the past and is the
  index of the cached catalog if that is now.\<close>

definition indexed :: "unicode \<Rightarrow> string set option \<Rightarrow> nat \<Rightarrow> 'v registry \<times> search_index \<Rightarrow> bool" where
  "indexed un profile n rc \<longleftrightarrow> r_generation (fst rc) = of_nat n \<and>
     (\<forall>g docs. snd rc = Some (g, docs) \<longrightarrow>
        (\<exists>k\<le>n. g = of_nat k \<and>
           (k = n \<longrightarrow> (\<exists>c. r_catalog_cache (fst rc) = Some c \<and> docs = map (from_tool un) (handler_shown profile c)))))"

lemma registry_step_generation:
  fixes r :: "'v registry"
  shows "\<exists>d\<le>3. r_generation (registry_step enc ev r) = r_generation r + of_nat d \<and>
    (d = 0 \<longrightarrow> (\<forall>c. r_catalog_cache r = Some c \<longrightarrow> r_catalog_cache (registry_step enc ev r) = Some c))"
proof -
  have same: ?thesis if "r_generation (registry_step enc ev r) = r_generation r"
    "\<forall>c. r_catalog_cache r = Some c \<longrightarrow> r_catalog_cache (registry_step enc ev r) = Some c"
    using that by (intro exI [of _ 0]) simp
  have one: ?thesis if "r_generation (registry_step enc ev r) = r_generation r + 1"
    using that by (intro exI [of _ 1]) simp
  have two: ?thesis if "r_generation (registry_step enc ev r) = r_generation r + 2"
    using that by (intro exI [of _ 2]) simp
  note defs = register_adapter_def remove_adapter_def answers_change_def tools_changed_tick_def enable_endpoint_def
    disable_endpoint_def disable_tool_def enable_tool_def refresh_endpoint_def invalidate_catalog_cache_def
    invalidate_endpoint_tool_cache_def tick_tools_changed_def tick_if_def put_entry_def merged_catalog_with_lookup_def
    refresh_catalog_def store_catalog_def case_prod_beta Let_def
  have "r_generation (registry_step enc ev r) = r_generation r \<and>
        (\<forall>c. r_catalog_cache r = Some c \<longrightarrow> r_catalog_cache (registry_step enc ev r) = Some c) \<or>
      r_generation (registry_step enc ev r) = r_generation r + 1 \<or>
      r_generation (registry_step enc ev r) = r_generation r + 2"
    by (cases ev) (auto simp: defs split: option.splits sum.splits if_splits)
  then show ?thesis using same one two by blast
qed

lemma indexed_keeps:
  assumes "indexed un profile n (r, cache)" "r_generation r' = r_generation r"
    "\<And>c. r_catalog_cache r = Some c \<Longrightarrow> r_catalog_cache r' = Some c"
  shows "indexed un profile n (r', cache)"
  unfolding indexed_def fst_conv snd_conv
proof (intro conjI allI impI)
  show "r_generation r' = of_nat n" using assms by (simp add: indexed_def)
  fix g docs
  assume "cache = Some (g, docs)"
  then obtain k where "k \<le> n" "g = of_nat k"
    "k = n \<longrightarrow> (\<exists>c. r_catalog_cache r = Some c \<and> docs = map (from_tool un) (handler_shown profile c))"
    using assms(1) by (auto simp: indexed_def)
  then show "\<exists>k\<le>n. g = of_nat k \<and>
      (k = n \<longrightarrow> (\<exists>c. r_catalog_cache r' = Some c \<and> docs = map (from_tool un) (handler_shown profile c)))"
    using assms(3) by blast
qed

lemma indexed_changed:
  assumes "indexed un profile n (r, cache)"
  shows "\<exists>m\<le>n + 3. indexed un profile m (registry_step enc ev r, cache)"
proof -
  obtain d where d: "d \<le> 3" "r_generation (registry_step enc ev r) = r_generation r + of_nat d"
    "d = 0 \<longrightarrow> (\<forall>c. r_catalog_cache r = Some c \<longrightarrow> r_catalog_cache (registry_step enc ev r) = Some c)"
    using registry_step_generation [of enc ev r] by blast
  have "indexed un profile (n + d) (registry_step enc ev r, cache)"
    unfolding indexed_def fst_conv snd_conv
  proof (intro conjI allI impI)
    show "r_generation (registry_step enc ev r) = of_nat (n + d)" using assms d(2) by (simp add: indexed_def)
    fix g docs
    assume "cache = Some (g, docs)"
    then obtain k where k: "k \<le> n" "g = of_nat k"
      "k = n \<longrightarrow> (\<exists>c. r_catalog_cache r = Some c \<and> docs = map (from_tool un) (handler_shown profile c))"
      using assms by (auto simp: indexed_def)
    show "\<exists>k\<le>n + d. g = of_nat k \<and> (k = n + d \<longrightarrow>
        (\<exists>c. r_catalog_cache (registry_step enc ev r) = Some c \<and> docs = map (from_tool un) (handler_shown profile c)))"
      using k d(3) by (intro exI [of _ k]) auto
  qed
  with d(1) show ?thesis by (intro exI [of _ "n + d"]) simp
qed

lemma search_current:
  assumes "indexed un profile n (r, cache)" and "n < 2 ^ 64"
  shows "snd (snd (search_tools un osa id (handler_source profile w) query limit cache r)) =
      snd (snd (search_tools un osa id (handler_source profile w) query limit None r))"
    and "indexed un profile n (fst (search_tools un osa id (handler_source profile w) query limit cache r),
      fst (snd (search_tools un osa id (handler_source profile w) query limit cache r)))"
proof -
  obtain r1 cat where rc: "ts_catalog (handler_source profile w) r = (r1, cat)" by (meson surj_pair)
  have gen: "ts_generation (handler_source profile w) r = of_nat n" "r_generation r1 = of_nat n"
    using assms(1) handler.catalog_generation [of profile w r] rc
    by (simp_all add: handler.generation_read indexed_def)
  obtain c where c: "r_catalog_cache r1 = Some c" "cat = handler_shown profile c"
    using handler.catalog_stored [of profile w r] handler.catalog_read(1) [of profile w r] rc by simp
  have hit: "docs = map (from_tool un) cat" if "cache = Some (of_nat n, docs)" for docs
  proof -
    from that assms(1) obtain k where k: "k \<le> n" "(of_nat n :: u64) = of_nat k"
      "k = n \<longrightarrow> (\<exists>c. r_catalog_cache r = Some c \<and> docs = map (from_tool un) (handler_shown profile c))"
      by (auto simp: indexed_def)
    from k(1,2) assms(2) have "k = n" by (simp add: word_of_nat_eq_iff take_bit_nat_eq_self)
    then show ?thesis using k(3) handler.catalog_cached [of r] rc by auto
  qed
  show "snd (snd (search_tools un osa id (handler_source profile w) query limit cache r)) =
      snd (snd (search_tools un osa id (handler_source profile w) query limit None r))"
    using hit by (auto simp: search_tools_def rc gen Let_def split: option.splits)
  have old: "indexed un profile n (r1, cache)"
    by (rule indexed_keeps [OF assms(1)])
      (use assms(1) gen handler.catalog_keeps_cache [of r _ profile w] rc in \<open>auto simp: indexed_def\<close>)
  moreover have "indexed un profile n (r1, Some (of_nat n, map (from_tool un) cat))"
    using gen c by (auto simp: indexed_def)
  ultimately show "indexed un profile n (fst (search_tools un osa id (handler_source profile w) query limit cache r),
      fst (snd (search_tools un osa id (handler_source profile w) query limit cache r)))"
    by (auto simp: search_tools_def rc gen Let_def split: option.splits)
qed

lemma run_indexed:
  assumes "indexed un profile n rc" and "n + 3 * length es < 2 ^ 64"
  shows "\<exists>m<2 ^ 64. indexed un profile m (apply_all (code_step un osa enc profile) es rc)"
  using assms
proof (induction es arbitrary: n rc)
  case Nil
  then show ?case by auto
next
  case (Cons ev es)
  obtain r cache where rc: "rc = (r, cache)" by (cases rc)
  show ?case
  proof (cases ev)
    case (Changed op)
    from indexed_changed Cons.prems(1) obtain m where "m \<le> n + 3"
      "indexed un profile m (registry_step enc op r, cache)" unfolding rc by blast
    then show ?thesis using Cons.IH [of m] Cons.prems(2) by (simp add: rc Changed)
  next
    case (Searched w query limit)
    have "indexed un profile n (code_step un osa enc profile ev rc)"
      using search_current(2) [of un profile n r cache osa w query limit] Cons.prems by (simp add: rc Searched case_prod_beta)
    then show ?thesis using Cons.IH [of n] Cons.prems(2) by simp
  qed
qed

text \<open>In every run of registry operations and searches of a handler (of the whole registry or of a profile; fewer
  than \<open>2^62\<close> of them) in which no operation falls into a search, the next search gives what it would give without any
  stored index.\<close>

theorem search_index_transparent:
  assumes "length es < 2 ^ 62"
    and "apply_all (code_step un osa enc profile) es (new_registry, None) = (r, cache)"
  shows "snd (snd (search_tools un osa id (handler_source profile w) query limit cache r)) =
    snd (snd (search_tools un osa id (handler_source profile w) query limit None r))"
proof -
  have "indexed un profile 0 (new_registry, None)" by (simp add: indexed_def new_registry_def)
  then obtain m where "m < 2 ^ 64" "indexed un profile m (r, cache)"
    using run_indexed [of un profile 0 "(new_registry, None)" es osa enc] assms by auto
  then show ?thesis by (rule search_current(1) [rotated])
qed

definition ascii_columns :: unicode where
  "ascii_columns = \<lparr>un_alnum = (\<lambda>c. 48 \<le> c \<and> c \<le> 57 \<or> 65 \<le> c \<and> c \<le> 90 \<or> 97 \<le> c \<and> c \<le> 122),
     un_lower = (\<lambda>c. 97 \<le> c \<and> c \<le> 122), un_upper = (\<lambda>c. 65 \<le> c \<and> c \<le> 90),
     un_to_lower = map (\<lambda>c. if 65 \<le> c \<and> c \<le> 90 then c + 32 else c)\<rparr>"

definition mismatches :: "nat list \<Rightarrow> nat list \<Rightarrow> nat" where
  "mismatches a b = (if length a = length b then length (filter (\<lambda>(x, y). x \<noteq> y) (zip a b)) else max (length a) (length b))"

theorem search_index_transparent_witness:
  "\<forall>w :: unit wiring.
     let run = apply_all (code_step ascii_columns mismatches pct_enc (Some {''fs''}))
         [Changed (OpRegister ''fs'' (sample_view [''read'']) ''stdio'' None (Some ''fs'')),
          Searched w ''read'' None, Changed (OpDisableTool ''fs'' ''read'')] (new_registry, None)
     in snd (snd (search_tools ascii_columns mismatches id (handler_source (Some {''fs''}) w) ''read'' None (snd run) (fst run))) =
        snd (snd (search_tools ascii_columns mismatches id (handler_source (Some {''fs''}) w) ''read'' None None (fst run)))"
  unfolding Let_def by (intro allI search_index_transparent [OF _ prod.collapse [symmetric]]) simp

text \<open>A change between the two reads of a search is not caught when the number of tools stays the same: the old
  index is used with the new tools. Here \<^verbatim>\<open>read\<close> has been replaced by \<^verbatim>\<open>wipe\<close>, and a search for \<^verbatim>\<open>read\<close> answers \<^verbatim>\<open>wipe\<close>,
  where an index of what it read would answer nothing.\<close>

theorem search_index_race:
  "let old = sample_tool ''fs__read''; new = sample_tool ''fs__wipe'';
       r = (new_registry :: 'v registry)\<lparr>r_catalog_cache := Some ([old], [(''fs__read'', ''fs'', ''read'')])\<rparr>;
       replaced = (\<lambda>r. store_catalog 1 ([new], [(''fs__wipe'', ''fs'', ''wipe'')]) (invalidate_catalog_cache r));
       answers = (\<lambda>index. snd (snd (search_tools ascii_columns mismatches replaced (handler_source None w) ''read'' None index r)))
   in answers (Some (0, map (from_tool ascii_columns) [old])) = [slim new] \<and> answers None = []"
proof -
  let ?q = "words_by is_space [] (un_to_lower ascii_columns (chars ''read''))"
  have chars: "chars ''read'' = [114, 101, 97, 100]" "chars ''fs'' = [102, 115]"
    "chars ''fs__read'' = [102, 115, 95, 95, 114, 101, 97, 100]" "chars ''fs__wipe'' = [102, 115, 95, 95, 119, 105, 112, 101]"
    by (simp_all add: chars_ascii is_ascii_def byte_def)
  have split: "split_at_first ''__'' ''fs__read'' = Some (''fs'', ''read'')" "split_at_first ''__'' ''fs__wipe'' = Some (''fs'', ''wipe'')"
    by code_simp+
  have q: "?q = [[114, 101, 97, 100]]" by (simp add: chars ascii_columns_def is_space_def)
  have docs: "from_tool ascii_columns (sample_tool ''fs__read'') =
      \<lparr>td_name_lower = [102, 115, 95, 95, 114, 101, 97, 100], td_name_tokens = [[102, 115], [114, 101, 97, 100]],
       td_desc_lower = [], td_desc_tokens = [], td_endpoint_tokens = [[102, 115]], td_schema_tokens = []\<rparr>"
    "from_tool ascii_columns (sample_tool ''fs__wipe'') =
      \<lparr>td_name_lower = [102, 115, 95, 95, 119, 105, 112, 101], td_name_tokens = [[102, 115], [119, 105, 112, 101]],
       td_desc_lower = [], td_desc_tokens = [], td_endpoint_tokens = [[102, 115]], td_schema_tokens = []\<rparr>"
    by (simp_all add: from_tool_def sample_tool_def chars split Let_def split_identifier_def ascii_columns_def flush_def
        boundary_def ascii_digit_def)
  have hit: "total_score mismatches ?q (from_tool ascii_columns (sample_tool ''fs__read'')) \<noteq> None"
    and miss: "total_score mismatches ?q (from_tool ascii_columns (sample_tool ''fs__wipe'')) = None"
    unfolding q docs by code_simp+
  obtain n where n: "total_score mismatches ?q (from_tool ascii_columns (sample_tool ''fs__read'')) = Some n"
    using hit by auto
  show ?thesis
    using q n miss
    by (simp add: search_tools_def handler.generation_read handler.catalog_shown merged_catalog_with_lookup_def
        handler_shown_def store_catalog_def invalidate_catalog_cache_def new_registry_def search_docs_def ranked_def
        unwrap_or_def List.map_filter_simps)
qed

section \<open>Pages\<close>

lemma take_pages: "concat (map (\<lambda>k. take l (drop (k * l) xs)) [0..<m]) = take (m * l) xs"
proof (induction m)
  case (Suc m)
  then show ?case using take_add [of "m * l" l xs] by (simp add: add.commute)
qed simp

lemma page_of:
  assumes "l \<le> 200"
  shows "lr_tools (list_tools_page (Some l) (Some k) catalog) = map slim (take l (drop k catalog))"
    "lr_total (list_tools_page (Some l) (Some k) catalog) = length catalog"
  using assms by (auto simp: list_tools_page_def unwrap_or_def Let_def min_def)

text \<open>Pages of any size from 1 to 200, one after the other, give every tool of the catalog exactly once and in order, and
  each reports the whole number of tools; no page is longer than 200, whatever is asked for.\<close>

theorem pages_partition:
  assumes "l \<le> 200" "length catalog \<le> m * l"
  shows "concat (map (\<lambda>k. lr_tools (list_tools_page (Some l) (Some (k * l)) catalog)) [0..<m]) = map slim catalog \<and>
    (\<forall>k. lr_total (list_tools_page (Some l) (Some k) catalog) = length catalog) \<and>
    (\<forall>limit offset. length (lr_tools (list_tools_page limit offset catalog)) \<le> 200)"
proof (intro conjI allI)
  show "concat (map (\<lambda>k. lr_tools (list_tools_page (Some l) (Some (k * l)) catalog)) [0..<m]) = map slim catalog"
    using assms take_pages [of l "map slim catalog" m] by (simp add: page_of take_map drop_map)
  show "lr_total (list_tools_page (Some l) (Some k) catalog) = length catalog" for k
    using assms by (simp add: page_of)
  show "length (lr_tools (list_tools_page limit offset catalog)) \<le> 200" for limit offset
    by (simp add: list_tools_page_def Let_def)
qed

theorem pages_partition_witness:
  "concat (map (\<lambda>k. lr_tools (list_tools_page (Some 2) (Some (k * 2)) (map sample_tool [''a'', ''b'', ''c'']))) [0..<2]) =
    map slim (map sample_tool [''a'', ''b'', ''c''])"
  using pages_partition [of 2 "map sample_tool [''a'', ''b'', ''c'']" 2] by simp

end
