(* ===== verification/Sandbox_Calls.thy ===== *)
theory Sandbox_Calls
  imports Sandbox_Search
begin

text \<open>
  What a script's calls promise: how often a call is repeated and why it stops, which errors are taken for passing
  ones, and that scripts of a profile stay inside it.
\<close>

section \<open>How often a call is repeated\<close>

text \<open>The registry before attempt \<open>k\<close> if every attempt before it is followed by another; the outcome and the effects of
  attempt \<open>k\<close>; whether another follows as far as its outcome and the clock are concerned.\<close>

primrec attempt_state :: "'r weather \<Rightarrow> 'r tool_source \<Rightarrow> string \<Rightarrow> json \<Rightarrow> 'r \<Rightarrow> nat \<Rightarrow> 'r" where
  "attempt_state we ts name arguments r 0 = r"
| "attempt_state we ts name arguments r (Suc k) =
     we_between we k (fst (ts_route ts name arguments (attempt_state we ts name arguments r k)))"

definition attempt_at :: "'r weather \<Rightarrow> 'r tool_source \<Rightarrow> string \<Rightarrow> json \<Rightarrow> 'r \<Rightarrow> nat \<Rightarrow> 'r \<times> effect list \<times> (adapter_error + json)" where
  "attempt_at we ts name arguments r k = ts_route ts name arguments (attempt_state we ts name arguments r k)"

definition worth_repeating :: "'r weather \<Rightarrow> nat \<Rightarrow> nat \<Rightarrow> (adapter_error + json) \<Rightarrow> bool" where
  "worth_repeating we deadline k res =
     (case res of Inr v \<Rightarrow> False | Inl e \<Rightarrow> is_transient_error e \<and> we_clock we k + backoff_after we k < deadline)"

definition final_result :: "'r weather \<Rightarrow> string \<Rightarrow> nat \<Rightarrow> nat \<Rightarrow> nat \<Rightarrow> (adapter_error + json) \<Rightarrow> adapter_error + json" where
  "final_result we name max_retries deadline k res =
     (case res of Inr v \<Rightarrow> Inr v
      | Inl e \<Rightarrow> if k < max_retries \<and> is_transient_error e then Inl (deadline_error name (k + 1) e) else Inl e)"

definition outcome_of :: "'r weather \<Rightarrow> 'r tool_source \<Rightarrow> string \<Rightarrow> json \<Rightarrow> nat \<Rightarrow> nat \<Rightarrow> nat \<Rightarrow> 'r \<Rightarrow>
    'r \<times> effect list \<times> (adapter_error + json) \<times> nat \<Rightarrow> bool" where
  "outcome_of we ts name arguments max_retries deadline a r out =
     (case out of (r', eff, res, n) \<Rightarrow> a < n \<and> n \<le> max a max_retries + 1 \<and>
       (\<forall>k. a \<le> k \<and> Suc k < n \<longrightarrow> worth_repeating we deadline k (snd (snd (attempt_at we ts name arguments r k)))) \<and>
       (n \<le> max_retries \<longrightarrow> \<not> worth_repeating we deadline (n - 1) (snd (snd (attempt_at we ts name arguments r (n - 1))))) \<and>
       eff = concat (map (\<lambda>k. fst (snd (attempt_at we ts name arguments r k))) [a..<n]) \<and>
       r' = fst (attempt_at we ts name arguments r (n - 1)) \<and>
       res = final_result we name max_retries deadline (n - 1) (snd (snd (attempt_at we ts name arguments r (n - 1)))))"

lemma loop_once:
  assumes "ts_route ts name arguments r = (r1, eff, res)" and "\<not> (a < max_retries \<and> worth_repeating we deadline a res)"
  shows "call_tool_with_retry_loop we ts name arguments max_retries deadline a r =
    (r1, eff, final_result we name max_retries deadline a res, a + 1)"
  using assms by (subst call_tool_with_retry_loop.simps) (auto simp: worth_repeating_def final_result_def split: sum.splits)

lemma loop_again:
  assumes "ts_route ts name arguments r = (r1, eff, res)" and "a < max_retries" "worth_repeating we deadline a res"
  shows "call_tool_with_retry_loop we ts name arguments max_retries deadline a r =
    (case call_tool_with_retry_loop we ts name arguments max_retries deadline (a + 1) (we_between we a r1) of
       (r2, eff2, res2, n) \<Rightarrow> (r2, eff @ eff2, res2, n))"
  using assms by (subst call_tool_with_retry_loop.simps) (auto simp: worth_repeating_def split: sum.splits)

lemma loop_outcome:
  "outcome_of we ts name arguments max_retries deadline a r
     (call_tool_with_retry_loop we ts name arguments max_retries deadline a (attempt_state we ts name arguments r a))"
proof (induction "max_retries - a" arbitrary: a rule: less_induct)
  case less
  obtain r1 eff res where at: "attempt_at we ts name arguments r a = (r1, eff, res)" by (metis prod.exhaust)
  then have route: "ts_route ts name arguments (attempt_state we ts name arguments r a) = (r1, eff, res)"
    by (simp add: attempt_at_def)
  show ?case
  proof (cases "a < max_retries \<and> worth_repeating we deadline a res")
    case False
    then show ?thesis using at by (auto simp: loop_once [OF route False] outcome_of_def)
  next
    case True
    have state: "we_between we a r1 = attempt_state we ts name arguments r (Suc a)" using route by simp
    obtain r2 eff2 res2 n where rest: "call_tool_with_retry_loop we ts name arguments max_retries deadline (Suc a)
        (attempt_state we ts name arguments r (Suc a)) = (r2, eff2, res2, n)"
      by (metis prod.exhaust)
    have "max_retries - Suc a < max_retries - a" using True by linarith
    from less [OF this] have ih: "outcome_of we ts name arguments max_retries deadline (Suc a) r (r2, eff2, res2, n)"
      unfolding rest .
    have here: "call_tool_with_retry_loop we ts name arguments max_retries deadline a (attempt_state we ts name arguments r a) =
        (r2, eff @ eff2, res2, n)"
      using loop_again [OF route, of a max_retries we deadline] True rest state by simp
    have "[a..<n] = a # [Suc a..<n]" using ih by (intro upt_conv_Cons) (simp add: outcome_of_def)
    moreover have "worth_repeating we deadline k (snd (snd (attempt_at we ts name arguments r k)))" if "a \<le> k" "Suc k < n" for k
      using ih that True at by (cases "k = a") (auto simp: outcome_of_def)
    ultimately show ?thesis using ih at True unfolding here by (auto simp: outcome_of_def)
  qed
qed


text \<open>A source that drops the connection twice before it answers; its state counts the calls.\<close>

definition flaky_source :: "nat tool_source" where
  "flaky_source = \<lparr>ts_catalog = (\<lambda>n. (n, [(sample_tool ''fs__read'')\<lparr>ti_annotations := Some (JObj [(''readOnlyHint'', JBool True)])\<rparr>])),
     ts_route = (\<lambda>name arguments n. (Suc n, [CallTool ''fs'' ''read'' arguments []],
       if n < 2 then Inl (ConnectionFailedErr ''gone'') else Inr (JStr ''content''))),
     ts_generation = (\<lambda>n. 0)\<rparr>"

definition fair_weather :: "'r weather" where
  "fair_weather = \<lparr>we_clock = (\<lambda>n. 1000 * n), we_factor = (\<lambda>n. 1), we_between = (\<lambda>n r. r)\<rparr>"


section \<open>Time-outs\<close>

lemma lowercase_ascii:
  assumes "is_ascii s"
  shows "lowercase s = map ascii_lower s"
proof -
  have "utf8 (concat (map lower_char (map byte s))) = map ascii_lower s"
    using assms
  proof (induction s)
    case (Cons c s)
    have "utf8_code b = [b]" if "b < 128" for b using that by (simp add: utf8_code_def)
    then have "utf8 (lower_char (byte c)) = [ascii_lower c]"
      using Cons.prems by (auto simp: is_ascii_def lower_char_def ascii_lower_def utf8_def is_upper_def byte_inverse)
    then show ?case using Cons by (simp add: utf8_def is_ascii_def)
  qed (simp add: utf8_def)
  then show ?thesis using assms by (simp add: lowercase_def chars_ascii)
qed

lemma timeout_text: "lowercase (display_error (Timeout 30)) = ''operation timed out after 30s''"
proof -
  have "display_error (Timeout 30) = ''operation timed out after 30s''" by code_simp
  then show ?thesis by (simp add: lowercase_ascii is_ascii_def byte_def ascii_lower_def is_upper_def)
qed

lemma refused_text: "lowercase (display_error (ConnectionFailedErr ''refused'')) = ''connection failed: refused''"
  by (simp add: lowercase_ascii is_ascii_def byte_def ascii_lower_def is_upper_def)

text \<open>A call the upstream has not answered within 30 seconds is made once, whatever the retry budget and the
  deadline: the text of the error says \<^verbatim>\<open>timed out\<close>, and the list of transient errors has only \<^verbatim>\<open>timeout\<close>. After a
  refused connection it is made again.\<close>

theorem timeouts_not_retried:
  assumes "snd (snd (ts_route ts name arguments r)) = Inl (Timeout 30)"
  shows "call_tool_with_retry_loop we ts name arguments max_retries deadline 0 r =
      (fst (ts_route ts name arguments r), fst (snd (ts_route ts name arguments r)), Inl (Timeout 30), 1) \<and>
    is_transient_error (ConnectionFailedErr ''refused'')"
proof -
  have no: "\<not> is_transient_error (Timeout 30)"
    unfolding is_transient_error_def timeout_text RETRY_TRANSIENT_SUBSTRINGS_def
    by (simp add: contains_str_def)
  have stop: "\<not> (0 < max_retries \<and> worth_repeating we deadline 0 (Inl (Timeout 30)))" by (simp add: worth_repeating_def no)
  have "ts_route ts name arguments r =
      (fst (ts_route ts name arguments r), fst (snd (ts_route ts name arguments r)), Inl (Timeout 30))"
    using assms by (metis prod.collapse)
  from loop_once [OF this stop] have "call_tool_with_retry_loop we ts name arguments max_retries deadline 0 r =
      (fst (ts_route ts name arguments r), fst (snd (ts_route ts name arguments r)), Inl (Timeout 30), 1)"
    by (simp add: final_result_def no)
  moreover have "is_transient_error (ConnectionFailedErr ''refused'')"
    unfolding is_transient_error_def refused_text RETRY_TRANSIENT_SUBSTRINGS_def
    by (simp add: contains_str_def)
  ultimately show ?thesis by blast
qed

definition silent_source :: "unit tool_source" where
  "silent_source = \<lparr>ts_catalog = (\<lambda>r. (r, [])), ts_route = (\<lambda>name arguments r. (r, [CallTool ''fs'' name arguments []], Inl (Timeout 30))),
     ts_generation = (\<lambda>r. 0)\<rparr>"

theorem timeouts_not_retried_witness:
  "call_tool_with_retry_loop fair_weather silent_source ''read'' JNull 3 60000 0 () = ((), [CallTool ''fs'' ''read'' JNull []], Inl (Timeout 30), 1)"
  using timeouts_not_retried [of silent_source "''read''" JNull "()" fair_weather 3 60000] by (simp add: silent_source_def)

end
