(* ===== verification/Sandbox_Run.thy ===== *)
theory Sandbox_Run
  imports Sandbox_Calls Sandbox_Files
begin

text \<open>
  Script runs and the tools of the relay itself (\<^verbatim>\<open>src/js_sandbox.rs\<close>): a script asks native functions, one after
  the other, until it finishes or its time is up; the handler of \<^verbatim>\<open>list_tools\<close>, \<^verbatim>\<open>search_tools\<close>, \<^verbatim>\<open>execute_tools\<close> and
  \<^verbatim>\<open>write_file\<close>.
\<close>

section \<open>Native functions\<close>

datatype sandbox_error = SandboxTimeout nat | JsError string | Internal string

fun display_sandbox_error :: "sandbox_error \<Rightarrow> string" where
  "display_sandbox_error (SandboxTimeout s) = ''script execution timed out after '' @ dec_of_nat s @ ''s''"
| "display_sandbox_error (JsError m) = ''JavaScript error: '' @ m"
| "display_sandbox_error (Internal m) = ''internal error: '' @ m"

text \<open>
  The engine and the helpers it is given are third-party and JavaScript: a script is what it does next, given the
  catalog it was started with and the answers it has got so far. A run's outcome is the value of its promise, or the
  text of its error.
\<close>

datatype native_call =
    AskTool string string
  | AskToolWithRetry string string nat
  | AskWrite string string string
  | AskRead string string

datatype script_step = Ask native_call | Finish "sandbox_error + json"

type_synonym engine = "string \<Rightarrow> tool_info list \<Rightarrow> (string + json) list \<Rightarrow> script_step"

text \<open>What a run reads from outside: the crates, the clocks and random numbers of its retries (by the number of answers),
  the rest of the world of its file calls, its deadline, how many calls it makes before its time is up, and how many
  more it makes afterwards.\<close>

record 'r run_env =
  re_engine :: engine
  re_osa :: "string \<Rightarrow> string \<Rightarrow> nat"
  re_parse :: "string \<Rightarrow> string + json"
  re_weather :: "nat \<Rightarrow> 'r weather"
  re_deadline :: nat
  re_files :: sandbox_env
  re_outside :: outside
  re_in_time :: nat
  re_afterwards :: nat
  re_timeout_secs :: nat

record 'r script_state =
  ss_registry :: 'r
  ss_run :: sandbox_run
  ss_os :: os

definition file_answer :: "write_rejection + string \<Rightarrow> string + json" where
  "file_answer res = (case res of Inl e \<Rightarrow> Inl (into_message e) | Inr s \<Rightarrow> Inr (JStr s))"

fun native :: "'r run_env \<Rightarrow> 'r tool_source \<Rightarrow> nat \<Rightarrow> native_call \<Rightarrow> 'r script_state \<Rightarrow> 'r script_state \<times> effect list \<times> (string + json)" where
  "native re ts i (AskTool name args_json) s =
     (case call_tool_native (re_osa re) (re_parse re) ts name args_json (ss_registry s) of
        (r, eff, res) \<Rightarrow> (s\<lparr>ss_registry := r\<rparr>, eff, res))"
| "native re ts i (AskToolWithRetry name args_json retry) s =
     (case call_tool_with_retry_native (re_osa re) (re_parse re) (re_weather re i) ts (re_deadline re) name args_json retry
             (ss_registry s) of
        (r, eff, res) \<Rightarrow> (s\<lparr>ss_registry := r\<rparr>, eff, res))"
| "native re ts i (AskWrite p d encoding) s =
     (case write_file_native (re_files re) (re_outside re) p d encoding (ss_run s) (ss_os s) of
        (run, fs', res) \<Rightarrow> (s\<lparr>ss_run := run, ss_os := fs'\<rparr>, [], file_answer res))"
| "native re ts i (AskRead p encoding) s =
     (case read_file_native (re_files re) (re_outside re) p encoding (ss_run s) (ss_os s) of
        (run, fs', res) \<Rightarrow> (s\<lparr>ss_run := run, ss_os := fs'\<rparr>, [], file_answer res))"

section \<open>Running a script\<close>

text \<open>At most \<open>n\<close> calls; no result if the script has not finished by then.\<close>

fun run_js ::
  "'r run_env \<Rightarrow> 'r tool_source \<Rightarrow> ((string + json) list \<Rightarrow> script_step) \<Rightarrow> nat \<Rightarrow> (string + json) list \<Rightarrow> 'r script_state \<Rightarrow>
     'r script_state \<times> effect list \<times> (sandbox_error + json) option" where
  "run_js re ts script n answers s =
     (case script answers of
        Finish res \<Rightarrow> (s, [], Some res)
      | Ask c \<Rightarrow>
         (case n of
            0 \<Rightarrow> (s, [], None)
          | Suc m \<Rightarrow>
             (case native re ts (length answers) c s of
                (s1, eff, answer) \<Rightarrow>
                  (case run_js re ts script m (answers @ [answer]) s1 of
                     (s2, eff2, res) \<Rightarrow> (s2, eff @ eff2, res)))))"

declare run_js.simps [simp del]

text \<open>When the time is up the caller is told so; the thread that runs the script is not stopped.\<close>

definition execute ::
  "'r run_env \<Rightarrow> 'r tool_source \<Rightarrow> string list list \<Rightarrow> string \<Rightarrow> 'r \<Rightarrow> os \<Rightarrow> 'r \<times> os \<times> effect list \<times> (sandbox_error + json)" where
  "execute re ts write_roots script r fs =
     (case ts_catalog ts r of
        (r1, catalog) \<Rightarrow>
          let behaviour = re_engine re script catalog;
              start = \<lparr>ss_registry = r1, ss_run = new_run write_roots, ss_os = fs\<rparr>
          in case run_js re ts behaviour (re_in_time re) [] start of
               (s, eff, Some res) \<Rightarrow> (ss_registry s, ss_os s, eff, res)
             | (s, eff, None) \<Rightarrow>
                (case run_js re ts behaviour (re_in_time re + re_afterwards re) [] start of
                   (s', eff', late) \<Rightarrow> (ss_registry s', ss_os s', eff', Inl (SandboxTimeout (re_timeout_secs re)))))"

section \<open>The handler\<close>

definition opt_entry :: "string \<Rightarrow> json option \<Rightarrow> (string \<times> json) list" where
  "opt_entry k v = (case v of Some j \<Rightarrow> [(k, j)] | None \<Rightarrow> [])"

definition json_of_opt :: "string option \<Rightarrow> json" where
  "json_of_opt s = (case s of Some t \<Rightarrow> JStr t | None \<Rightarrow> JNull)"

definition json_of_nat :: "nat \<Rightarrow> json" where
  "json_of_nat n = JNum (JPos (of_nat n))"

definition slim_json :: "tool_slim \<Rightarrow> json" where
  "slim_json t =
     JObj ([(''name'', JStr (sl_name t)), (''description'', json_of_opt (sl_description t)), (''input_schema'', sl_input_schema t)] @
       opt_entry ''annotations'' (sl_annotations t))"

definition list_tools_json :: "list_tools_response \<Rightarrow> json" where
  "list_tools_json p =
     JObj [(''tools'', JArr (map slim_json (lr_tools p))), (''total'', json_of_nat (lr_total p)),
           (''limit'', json_of_nat (lr_limit p)), (''offset'', json_of_nat (lr_offset p))]"

definition write_file_tool ::
  "sandbox_env \<Rightarrow> outside \<Rightarrow> string list list \<Rightarrow> string \<Rightarrow> string \<Rightarrow> string \<Rightarrow> os \<Rightarrow> os \<times> (sandbox_error + json)" where
  "write_file_tool se fo write_roots p d encoding s =
     (case write_file_to_roots se fo ''write_file'' p d encoding write_roots default_write_limits \<lparr>ru_files = 0, ru_bytes = 0\<rparr> s of
        (s1, Inl e) \<Rightarrow> (s1, Inl (JsError (into_message e)))
      | (s1, Inr (dest, n)) \<Rightarrow> (s1, Inr (JObj [(''path'', JStr (show_path dest)), (''bytes'', json_of_nat n)])))"

end
