(* ===== verification/Advertise.thy ===== *)
theory Advertise
  imports Profiles Sandbox_Files
begin

text \<open>
  What the relay tells a connected model about the servers behind it (\<^verbatim>\<open>src/advertise.rs\<close>): the list of server types
  under its size cap, the instructions of an initialize result, and the descriptions of the tools of the relay itself.
\<close>

section \<open>The list of server types\<close>

definition RENDER_BYTE_CAP :: nat where
  "RENDER_BYTE_CAP = 8 * 1024"

definition cap_suffix :: string where
  "cap_suffix = '', '' @ utf8 [8230]"

text \<open>The entries that fit, and whether one did not; \<open>out\<close> is what has been written.\<close>

fun render_loop :: "nat \<Rightarrow> string \<Rightarrow> string list \<Rightarrow> string \<times> bool" where
  "render_loop cap out [] = (out, False)"
| "render_loop cap out (ty # types) =
     (if cap < length out + (if out = [] then 0 else 2) + length ty then (out, True)
      else render_loop cap ((if out = [] then [] else out @ '', '') @ ty) types)"

definition render_types :: "string list \<Rightarrow> string option" where
  "render_types types =
     (if types = [] then None
      else case render_loop (RENDER_BYTE_CAP - length cap_suffix) [] types of
        (out, truncated) \<Rightarrow> Some (if truncated then out @ cap_suffix else out))"

text \<open>The list of the whole registry, or of the endpoints of a profile.\<close>

definition render :: "string set option \<Rightarrow> 'v registry \<Rightarrow> string option" where
  "render scope r = render_types (case scope of Some allowed \<Rightarrow> server_types_in allowed r | None \<Rightarrow> all_server_types r)"

definition endpoint_count :: "string set option \<Rightarrow> 'v registry \<Rightarrow> nat" where
  "endpoint_count scope r = (case scope of Some allowed \<Rightarrow> endpoint_count_in allowed r | None \<Rightarrow> all_endpoint_count r)"

section \<open>Texts\<close>

definition dquote :: string where
  "dquote = [CHR 34]"

definition INSTRUCTIONS_LEAD_IN :: string where
  "INSTRUCTIONS_LEAD_IN =
     ''Endara Relay aggregates MCP servers behind a single endpoint.''"

definition LIST_TOOLS_BASE :: string where
  "LIST_TOOLS_BASE =
     ''List available tools with pagination. Returns `{ tools, total, limit, offset }`. Each '' @
     ''tool has `name`, `description`, and `input_schema`. The `name` is the exact identifier '' @
     ''to use when calling tools via `execute_tools`.''"

definition SEARCH_TOOLS_BASE :: string where
  "SEARCH_TOOLS_BASE =
     ''Fuzzy search across tool name, description, server endpoint, and input-schema property '' @
     ''names. Typo-tolerant (Levenshtein), case-insensitive, and aware of camelCase / '' @
     ''snake_case / kebab-case boundaries. Results are ranked by relevance (exact > prefix > '' @
     ''substring > fuzzy; name > description > endpoint); tools matching more query tokens '' @
     ''rank higher. Returns an array of matching tools, each with `name`, `description`, and '' @ ''`input_schema`.''"

definition TOON_OUTPUT_HINT :: string where
  "TOON_OUTPUT_HINT =
     ''Tool responses are returned in TOON format (Token-Oriented Object Notation) for reduced '' @
     ''token usage. TOON is a compact alternative to JSON '' @ utf8 [8212] @
     '' indentation-based, no braces, tabular arrays. Parse it like structured text. For large '' @
     ''responses saved to disk, the `toon` CLI can filter and query TOON data (like jq for '' @
     ''JSON). Use `toon --to-json` to convert back to JSON if needed. See '' @ ''https://toonformat.dev/cli/''"

definition EXECUTE_TOOLS_BASE :: string where
  "EXECUTE_TOOLS_BASE =
     ''Execute a JavaScript snippet that can call tools. Invoke a tool with `await call('' @ dquote @ ''tool_name'' @
     dquote @ '', { ...args })` '' @ utf8 [8212] @
     '' `call()` returns the unwrapped result directly, no manual envelope reading required. '' @
     ''Behind the scenes it returns `structuredContent` when the tool provides it, parses '' @
     ''`content[0].text` when it begins with `[` or `{`, returns the text as-is otherwise, and '' @
     ''throws an `Error` on `isError` envelopes (the message includes the tool name and '' @
     ''`content[0].text`). Multi-server tool names use `prefix__name` format (double '' @
     ''underscore); single-server mode has no prefix. Use `tools['' @ dquote @ ''tool_name'' @ dquote @
     ''](args)` only when you need the raw MCP envelope (`{ content, structuredContent, '' @ ''isError }`) '' @
     utf8 [8212] @ '' for example to inspect `isError` without throwing or to read the literal '' @
     ''`content[0].text`. Calling an unknown tool name throws an error that lists the closest '' @
     ''matching tools. Pass `{ retry: 3 }` as the third argument (e.g. `await call('' @ dquote @ ''name'' @ dquote @
     '', args, { retry: 3 })`) to retry transient errors on tools whose annotations declare '' @
     ''`readOnlyHint` or `idempotentHint`. Scripts can also access files on the relay host '' @
     ''with the `writeFile(absPath, data, opts?)` and `readFile(absPath, opts?)` globals '' @ utf8 [8212] @
     '' absolute paths only, `{ encoding: '' @ dquote @ ''utf8'' @ dquote @ '' }` (default) or `{ encoding: '' @
     dquote @ ''base64'' @ dquote @
     '' }` for binary data, and both are scoped to the user-configured `[relay] write_dirs` '' @
     ''directories (with none configured, filesystem access is disabled). Use `return` to send '' @ ''data back.'' @
     newline @ newline @ ''Examples:'' @ newline @ ''```js'' @ newline @
     ''// call() returns the unwrapped result '' @ utf8 [8212] @ '' no need to read content[0].text yourself.'' @
     newline @ ''const tasks = await call('' @ dquote @ ''todoist__get-tasks'' @ dquote @ '', { limit: 5 });'' @
     newline @ ''return tasks;'' @ newline @ ''```'' @ newline @ ''```js'' @ newline @
     ''// Chain two tool calls and combine their results.'' @ newline @ ''const projects = await call('' @ dquote @
     ''todoist__get-projects'' @ dquote @ '', {});'' @ newline @ ''const tasks = await call('' @ dquote @
     ''todoist__get-tasks'' @ dquote @ '', { project_id: projects[0].id });'' @ newline @
     ''return { projects, tasks };'' @ newline @ ''```'' @ newline @ ''```js'' @ newline @
     ''// Opt into retry for read-only / idempotent tools.'' @ newline @ ''const issues = await call('' @ dquote @
     ''github__list-issues'' @ dquote @ '', { repo: '' @ dquote @ ''endara-ai/relay'' @ dquote @
     '' }, { retry: 3 });'' @ newline @ ''return issues;'' @ newline @ ''```'' @ newline @ ''```js'' @ newline @
     ''// Use the tools[...] indexer when you need the raw MCP envelope.'' @ newline @ ''const r = await tools['' @
     dquote @ ''todoist__get-tasks'' @ dquote @ '']({ limit: 5 });'' @ newline @ ''return r.structuredContent;'' @
     newline @ ''```'' @ newline @ ''```js'' @ newline @
     ''// Fetch a binary file from an allowlisted directory as base64.'' @ newline @ ''return readFile('' @ dquote @
     ''/absolute/path/to/exports/photo.jpg'' @ dquote @ '', { encoding: '' @ dquote @ ''base64'' @ dquote @
     '' });'' @ newline @ ''```''"

section \<open>Instructions and descriptions\<close>

definition connected_types :: "string \<Rightarrow> string \<Rightarrow> string" where
  "connected_types base types = base @ newline @ newline @ ''Connected server types: '' @ types"

definition instructions :: "string set option \<Rightarrow> 'v registry \<Rightarrow> string option" where
  "instructions scope r =
     (case render scope r of
        Some types \<Rightarrow> Some (connected_types INSTRUCTIONS_LEAD_IN types)
      | None \<Rightarrow> if endpoint_count scope r = 0 then None else Some INSTRUCTIONS_LEAD_IN)"

definition search_tools_description :: "string set option \<Rightarrow> bool \<Rightarrow> 'v registry \<Rightarrow> string" where
  "search_tools_description scope toon_enabled r =
     (let base = (case render scope r of Some types \<Rightarrow> connected_types SEARCH_TOOLS_BASE types | None \<Rightarrow> SEARCH_TOOLS_BASE)
      in if toon_enabled then base @ newline @ newline @ TOON_OUTPUT_HINT else base)"

definition count_suffix_description :: "string \<Rightarrow> nat \<Rightarrow> string" where
  "count_suffix_description base n =
     (if 0 < n
      then base @ '' '' @ dec_of_nat n @ '' servers connected via Endara Relay '' @ utf8 [8212] @
           '' use search_tools to discover tools.''
      else base)"

definition list_tools_description :: "string set option \<Rightarrow> 'v registry \<Rightarrow> string" where
  "list_tools_description scope r = count_suffix_description LIST_TOOLS_BASE (endpoint_count scope r)"

definition execute_tools_description :: "string set option \<Rightarrow> 'v registry \<Rightarrow> string" where
  "execute_tools_description scope r = count_suffix_description EXECUTE_TOOLS_BASE (endpoint_count scope r)"

definition MCP_REQUEST_BODY_LIMIT :: nat where
  "MCP_REQUEST_BODY_LIMIT = 48 * 1024 * 1024"

definition write_file_description :: "string list list \<Rightarrow> string" where
  "write_file_description roots =
    (let dirs = join '', '' (map (\<lambda>root. ''`'' @ show_path root @ ''`'') roots) in
     ''Write a file on the relay host. `path` must be an absolute path inside one of the '' @
     ''allowed directories (configured via `[relay] write_dirs`): '' @
     dirs @
     ''. `data` is the file content '' @ utf8 [8212] @ '' `encoding` is `'' @ dquote @ ''utf8'' @ dquote @
     ''` (default) for text or `'' @ dquote @ ''base64'' @ dquote @
     ''` for binary data. Missing parent directories are created; an existing file is '' @
     ''overwritten atomically (no partial file is left behind on failure). Each file is '' @ ''limited to '' @
     dec_of_nat (MAX_WRITE_FILE_BYTES div 1048576) @
     '' MiB. The JSON-serialized request must also stay under '' @
     dec_of_nat (MCP_REQUEST_BODY_LIMIT div 1048576) @
     '' MiB: JSON escaping inflates `'' @ dquote @ ''utf8'' @ dquote @
     ''` text (quotes and backslashes double, control characters become six-character '' @
     ''escapes), so text made mostly of such characters may need to be sent as `'' @ dquote @ ''base64'' @ dquote @
     ''` '' @ utf8 [8212] @ '' base64 of a '' @
     dec_of_nat (MAX_WRITE_FILE_BYTES div 1048576) @
     '' MiB file always fits. Returns `{ path, bytes }` with the canonical path written and '' @
     ''the number of bytes.'')"

section \<open>The cap\<close>

lemma join_snoc: "join g (xs @ [x]) = (if xs = [] then x else join g xs @ g @ x)"
  by (induction g xs rule: join.induct) auto

lemma join_empty_iff: "list_all (\<lambda>x. x \<noteq> []) xs \<Longrightarrow> join g xs = [] \<longleftrightarrow> xs = []"
  by (cases "(g, xs)" rule: join.cases) auto

lemma render_loop_prefix:
  assumes "list_all (\<lambda>x. x \<noteq> []) (done_types @ types)" "length (join '', '' done_types) \<le> cap"
  shows "\<exists>k\<le>length types. fst (render_loop cap (join '', '' done_types) types) = join '', '' (done_types @ take k types) \<and>
    length (join '', '' (done_types @ take k types)) \<le> cap \<and>
    snd (render_loop cap (join '', '' done_types) types) = (k < length types) \<and>
    (k < length types \<longrightarrow> cap < length (join '', '' (done_types @ take (Suc k) types)))"
  using assms
proof (induction types arbitrary: done_types)
  case Nil
  then show ?case by simp
next
  case (Cons ty types)
  let ?j = "join '', '' done_types" and ?j' = "join '', '' (done_types @ [ty])"
  have empty: "?j = [] \<longleftrightarrow> done_types = []" using Cons.prems by (intro join_empty_iff) auto
  have len: "length ?j' = length ?j + (if ?j = [] then 0 else 2) + length ty"
    and shape: "?j' = (if ?j = [] then [] else ?j @ '', '') @ ty"
    by (auto simp: join_snoc empty)
  show ?case
  proof (cases "cap < length ?j'")
    case True
    then have "render_loop cap ?j (ty # types) = (?j, True)" by (simp add: len)
    with True Cons.prems show ?thesis by (intro exI [of _ 0]) simp
  next
    case False
    then have go: "render_loop cap ?j (ty # types) = render_loop cap ?j' types"
      using len by (simp add: shape)
    obtain k where "k \<le> length types" "fst (render_loop cap ?j' types) = join '', '' ((done_types @ [ty]) @ take k types)"
      "length (join '', '' ((done_types @ [ty]) @ take k types)) \<le> cap" "snd (render_loop cap ?j' types) = (k < length types)"
      "k < length types \<longrightarrow> cap < length (join '', '' ((done_types @ [ty]) @ take (Suc k) types))"
      using Cons.IH [of "done_types @ [ty]"] Cons.prems False by auto
    then show ?thesis unfolding go by (intro exI [of _ "Suc k"]) simp
  qed
qed

text \<open>The list of server types never exceeds 8 KiB: it is the comma-separated list of the types, or of the longest part
  of them that leaves room for the ellipsis, which then follows.\<close>

theorem render_capped:
  assumes "list_all (\<lambda>x. x \<noteq> []) types" "render_types types = Some out"
  shows "length out \<le> 8192 \<and>
    (\<exists>k\<le>length types. out = join '', '' (take k types) @ (if k < length types then cap_suffix else []) \<and>
       (k < length types \<longrightarrow> 8187 < length (join '', '' (take (Suc k) types))))"
proof -
  have suffix: "length cap_suffix = 5" by (simp add: cap_suffix_def utf8_def utf8_code_def)
  obtain k where k: "k \<le> length types" "fst (render_loop 8187 [] types) = join '', '' (take k types)"
    "length (join '', '' (take k types)) \<le> 8187" "snd (render_loop 8187 [] types) = (k < length types)"
    "k < length types \<longrightarrow> 8187 < length (join '', '' (take (Suc k) types))"
    using render_loop_prefix [of "[]" types 8187] assms(1) by auto
  have out: "out = join '', '' (take k types) @ (if k < length types then cap_suffix else [])"
    using assms(2) k by (auto simp: render_types_def RENDER_BYTE_CAP_def suffix case_prod_beta split: if_splits)
  with k suffix show ?thesis by auto
qed

theorem render_capped_witness:
  "\<exists>k\<le>2. ''github, slack'' = join '', '' (take k [''github'', ''slack'']) @ (if k < 2 then cap_suffix else [])"
proof -
  have "render_types [''github'', ''slack''] = Some ''github, slack''"
    by (simp add: render_types_def RENDER_BYTE_CAP_def cap_suffix_def utf8_def utf8_code_def)
  from render_capped [OF _ this] have "\<exists>k\<le>length [''github'', ''slack'']. ''github, slack'' =
      join '', '' (take k [''github'', ''slack'']) @ (if k < length [''github'', ''slack''] then cap_suffix else [])"
    by (simp del: take_Cons_numeral) blast
  then show ?thesis by (simp only: list.size One_nat_def add_0_right add_Suc_right numeral_2_eq_2)
qed

end
