(* ===== verification/Server.thy ===== *)
theory Server
  imports Sandbox_Run Advertise Sessions Protocol
begin

text \<open>
  The inbound server (\<^verbatim>\<open>src/server.rs\<close>): JSON-RPC messages and batches on \<^verbatim>\<open>/mcp\<close> and \<^verbatim>\<open>/mcp/{profile}\<close>, dispatched to
  the registry or to the view of a profile, with the conversion of results to TOON (\<^verbatim>\<open>src/toon_convert.rs\<close>).
\<close>

section \<open>State and environment\<close>

text \<open>The search index of the global handler and of the handlers of the profiles.\<close>

record 'v server =
  sv_registry :: "'v registry"
  sv_profiles :: profile_registry
  sv_sessions :: session_store
  sv_index :: search_index
  sv_profile_index :: "(string, search_index) hashmap"
  sv_os :: os

text \<open>What one message reads besides: the crates, the clocks and fresh ids, the switches, the allowlist and the limits of
  a script run.\<close>

record 'v message_env =
  me_wiring :: "'v wiring"
  me_run :: "'v registry run_env"
  me_unicode :: unicode
  me_distance :: "nat list \<Rightarrow> nat list \<Rightarrow> nat"
  me_toon :: "json \<Rightarrow> string option"
  me_pretty :: "json \<Rightarrow> string"
  me_version :: string
  me_js_mode :: bool
  me_toon_enabled :: bool
  me_write_roots :: "string list list"
  me_request_uid :: string
  me_session_id :: string

text \<open>The profile of a request: the path of its URL, and what the profile registry had for it.\<close>

type_synonym profile_ctx = "(string \<times> profile_context) option"

definition scope_of :: "profile_ctx \<Rightarrow> string set option" where
  "scope_of ctx = map_option (\<lambda>(path, c). px_allowed c) ctx"

definition js_mode :: "'v message_env \<Rightarrow> profile_ctx \<Rightarrow> bool" where
  "js_mode en ctx = (case ctx of Some (path, c) \<Rightarrow> px_js_execution c | None \<Rightarrow> me_js_mode en)"

definition toon_enabled :: "'v message_env \<Rightarrow> profile_ctx \<Rightarrow> bool" where
  "toon_enabled en ctx = (case ctx of Some (path, c) \<Rightarrow> px_toon_output c | None \<Rightarrow> me_toon_enabled en)"

definition handler_index :: "profile_ctx \<Rightarrow> 'v server \<Rightarrow> search_index" where
  "handler_index ctx s =
     (case ctx of Some (path, c) \<Rightarrow> unwrap_or None (hm_get (sv_profile_index s) (to_ascii_lowercase path)) | None \<Rightarrow> sv_index s)"

definition set_handler_index :: "profile_ctx \<Rightarrow> search_index \<Rightarrow> 'v server \<Rightarrow> 'v server" where
  "set_handler_index ctx cache s =
     (case ctx of
        Some (path, c) \<Rightarrow> s\<lparr>sv_profile_index := hm_insert (to_ascii_lowercase path) cache (sv_profile_index s)\<rparr>
      | None \<Rightarrow> s\<lparr>sv_index := cache\<rparr>)"

section \<open>Messages\<close>

definition error_code :: "int \<Rightarrow> json" where
  "error_code c = JNum (JNeg c)"

definition jsonrpc_response :: "json option \<Rightarrow> json \<Rightarrow> json" where
  "jsonrpc_response id' result = JObj [(''jsonrpc'', JStr ''2.0''), (''result'', result), (''id'', unwrap_or JNull id')]"

definition jsonrpc_error_message :: "json option \<Rightarrow> int \<Rightarrow> string \<Rightarrow> json" where
  "jsonrpc_error_message id' code message =
     JObj [(''jsonrpc'', JStr ''2.0''), (''error'', JObj [(''code'', error_code code), (''message'', JStr message)]),
           (''id'', unwrap_or JNull id')]"

text \<open>The fields of a message that deserialise to a request body: a null counts as absent, a method or version that is
  no string fails.\<close>

definition opt_string_field :: "json option \<Rightarrow> bool" where
  "opt_string_field v = (case v of None \<Rightarrow> True | Some JNull \<Rightarrow> True | Some (JStr s) \<Rightarrow> True | _ \<Rightarrow> False)"

definition non_null :: "json option \<Rightarrow> json option" where
  "non_null v = (if v = Some JNull then None else v)"

record jsonrpc_body =
  jb_params :: "json option"
  jb_id :: "json option"

definition parse_body :: "json \<Rightarrow> jsonrpc_body option" where
  "parse_body msg =
     (case msg of
        JObj m \<Rightarrow>
          (if opt_string_field (json_get msg ''jsonrpc'') \<and> opt_string_field (json_get msg ''method'')
           then Some \<lparr>jb_params = non_null (json_get msg ''params''), jb_id = non_null (json_get msg ''id'')\<rparr>
           else None)
      | _ \<Rightarrow> None)"

definition method_of :: "json \<Rightarrow> string" where
  "method_of msg = unwrap_or [] (Option.bind (json_get msg ''method'') json_str)"

definition is_notification :: "json \<Rightarrow> bool" where
  "is_notification msg = (json_get msg ''id'' = None \<or> json_get msg ''id'' = Some JNull)"

section \<open>TOON\<close>

definition is_container :: "json \<Rightarrow> bool" where
  "is_container j = (case j of JObj m \<Rightarrow> True | JArr xs \<Rightarrow> True | _ \<Rightarrow> False)"

definition toonify_item :: "(string \<Rightarrow> string + json) \<Rightarrow> (json \<Rightarrow> string option) \<Rightarrow> json \<Rightarrow> json" where
  "toonify_item parse encode item =
     (if Option.bind (json_get item ''type'') json_str \<noteq> Some ''text'' then item
      else case Option.bind (json_get item ''text'') json_str of
        None \<Rightarrow> item
      | Some t \<Rightarrow>
         (case parse t of
            Inl e \<Rightarrow> item
          | Inr v \<Rightarrow>
             (if \<not> is_container v then item
              else case encode v of Some toon \<Rightarrow> json_insert ''text'' (JStr toon) item | None \<Rightarrow> item)))"

definition toonify_call_result :: "(string \<Rightarrow> string + json) \<Rightarrow> (json \<Rightarrow> string option) \<Rightarrow> json \<Rightarrow> json" where
  "toonify_call_result parse encode result =
     (if Option.bind (json_get result ''isError'') json_bool = Some True then result
      else case Option.bind (json_get result ''content'') json_arr of
        None \<Rightarrow> result
      | Some items \<Rightarrow> json_insert ''content'' (JArr (map (toonify_item parse encode) items)) result)"

definition toonify_value :: "(json \<Rightarrow> string option) \<Rightarrow> (json \<Rightarrow> string) \<Rightarrow> json \<Rightarrow> string" where
  "toonify_value encode pretty v = (if is_container v then unwrap_or (pretty v) (encode v) else pretty v)"

section \<open>Tools of the relay\<close>

definition text_content :: "string \<Rightarrow> json" where
  "text_content t = JArr [JObj [(''type'', JStr ''text''), (''text'', JStr t)]]"

definition wrap_meta_tool_result :: "'v message_env \<Rightarrow> bool \<Rightarrow> json \<Rightarrow> json" where
  "wrap_meta_tool_result en toon result =
     JObj [(''content'', text_content (if toon then toonify_value (me_toon en) (me_pretty en) result else me_pretty en result))]"

definition meta_tool_error_result :: "string \<Rightarrow> json" where
  "meta_tool_error_result t = JObj [(''content'', text_content t), (''isError'', JBool True)]"

definition integer_schema :: "u64 \<Rightarrow> json" where
  "integer_schema low = JObj [(''type'', JStr ''integer''), (''minimum'', JNum (JPos low))]"

definition typed :: "string \<Rightarrow> json" where
  "typed t = JObj [(''type'', JStr t)]"

definition encodings :: "(string \<times> json) list" where
  "encodings = [(''type'', JStr ''string''), (''enum'', JArr [JStr ''utf8'', JStr ''base64'']), (''default'', JStr ''utf8'')]"

definition object_schema :: "(string \<times> json) list \<Rightarrow> string list \<Rightarrow> json" where
  "object_schema props required =
     JObj ([(''type'', JStr ''object''), (''properties'', JObj props)] @
       (if required = [] then [] else [(''required'', JArr (map JStr required))]) @ [(''additionalProperties'', JBool False)])"

definition meta_tool_schema :: "string \<Rightarrow> json option" where
  "meta_tool_schema name =
     (if name = ''list_tools'' then Some (object_schema [(''limit'', integer_schema 1), (''offset'', integer_schema 0)] [])
      else if name = ''search_tools'' then Some (object_schema [(''query'', typed ''string''), (''limit'', integer_schema 1)] [''query''])
      else if name = ''execute_tools'' then Some (object_schema [(''script'', typed ''string'')] [''script''])
      else if name = ''write_file''
      then Some (object_schema [(''path'', typed ''string''), (''data'', typed ''string''), (''encoding'', JObj encodings)] [''path'', ''data''])
      else None)"

text \<open>A schema that does not compile stops the relay at its start.\<close>

definition validate_meta_tool_args :: "'v message_env \<Rightarrow> 'v registry \<Rightarrow> string \<Rightarrow> json \<Rightarrow> json option" where
  "validate_meta_tool_args en r name arguments =
     (if \<not> r_validate_inputs r then None
      else case meta_tool_schema name of
        None \<Rightarrow> None
      | Some schema \<Rightarrow>
         (case w_build_validator (me_wiring en) schema of
            None \<Rightarrow> None
          | Some v \<Rightarrow> map_option fst (validate_with_validator (w_iter_errors (me_wiring en)) name v schema arguments)))"

section \<open>Initialisation and lists\<close>

definition build_initialize_result :: "'v message_env \<Rightarrow> profile_ctx \<Rightarrow> 'v registry \<Rightarrow> json" where
  "build_initialize_result en ctx r =
     JObj ([(''protocolVersion'', JStr VERSION_2025_03_26),
            (''capabilities'', JObj [(''tools'', JObj [(''listChanged'', JBool True)]), (''resources'', JObj []), (''prompts'', JObj [])]),
            (''serverInfo'', JObj [(''name'', JStr ''Endara Relay''), (''version'', JStr (me_version en))])] @
       opt_entry ''instructions'' (map_option JStr (instructions (scope_of ctx) r)))"

definition tool_definition :: "string \<Rightarrow> string \<Rightarrow> (string \<times> json) list \<Rightarrow> string list \<Rightarrow> json" where
  "tool_definition name description props required =
     JObj [(''name'', JStr name), (''description'', JStr description),
       (''inputSchema'', JObj ([(''type'', JStr ''object''), (''properties'', JObj props)] @
          (if required = [] then [] else [(''required'', JArr (map JStr required))])))]"

definition write_file_definition :: "string list list \<Rightarrow> json" where
  "write_file_definition roots =
     JObj [(''name'', JStr ''write_file''), (''description'', JStr (write_file_description roots)),
       (''inputSchema'', JObj [(''type'', JStr ''object''),
          (''properties'', JObj [
             (''path'', JObj [(''type'', JStr ''string''),
                (''description'', JStr ''Absolute path of the file to write, inside an allowed directory.'')]),
             (''data'', JObj [(''type'', JStr ''string''),
                (''description'', JStr (''File content (UTF-8 text, or base64 when encoding is '' @ dquote @ ''base64'' @ dquote @ '').''))]),
             (''encoding'', JObj (encodings @ [(''description'', JStr ''How to decode `data` before writing.'')]))]),
          (''required'', JArr [JStr ''path'', JStr ''data'']), (''additionalProperties'', JBool False)])]"

definition meta_tool_definitions :: "bool \<Rightarrow> bool \<Rightarrow> string set option \<Rightarrow> string list list \<Rightarrow> 'v registry \<Rightarrow> json list" where
  "meta_tool_definitions js toon scope roots r =
     [tool_definition ''list_tools'' (list_tools_description scope r) [(''limit'', typed ''integer''), (''offset'', typed ''integer'')] [],
      tool_definition ''search_tools'' (search_tools_description scope toon r)
        [(''query'', typed ''string''), (''limit'', typed ''integer'')] [''query'']] @
     (if js then [tool_definition ''execute_tools'' (execute_tools_description scope r) [(''script'', typed ''string'')] [''script'']]
      else []) @
     (if roots \<noteq> [] then [write_file_definition roots] else [])"

definition catalog_json :: "tool_info \<Rightarrow> json" where
  "catalog_json t =
     JObj ([(''name'', JStr (ti_name t)), (''description'', json_of_opt (ti_description t)), (''inputSchema'', ti_input_schema t)] @
       opt_entry ''annotations'' (ti_annotations t))"

definition name_of :: "json \<Rightarrow> string" where
  "name_of j = unwrap_or [] (Option.bind (json_get j ''name'') json_str)"

definition source_of :: "'v message_env \<Rightarrow> profile_ctx \<Rightarrow> 'v registry tool_source" where
  "source_of en ctx = handler_source (scope_of ctx) (me_wiring en)"

definition tools_listed :: "'v message_env \<Rightarrow> profile_ctx \<Rightarrow> 'v registry \<Rightarrow> 'v registry \<times> json list" where
  "tools_listed en ctx r =
     (let meta = meta_tool_definitions (js_mode en ctx) (toon_enabled en ctx) (scope_of ctx) (me_write_roots en) r
      in if js_mode en ctx then (r, meta)
         else case ts_catalog (source_of en ctx) r of
                (r', catalog) \<Rightarrow> (r', sort_key name_of (map catalog_json catalog @ meta)))"

definition mcp_tools_list :: "'v message_env \<Rightarrow> profile_ctx \<Rightarrow> json option \<Rightarrow> 'v registry \<Rightarrow> 'v registry \<times> json" where
  "mcp_tools_list en ctx id' r =
     (case tools_listed en ctx r of (r', tools) \<Rightarrow> (r', jsonrpc_response id' (JObj [(''tools'', JArr tools)])))"

definition mcp_initialize :: "'v message_env \<Rightarrow> profile_ctx \<Rightarrow> json option \<Rightarrow> 'v registry \<Rightarrow> json" where
  "mcp_initialize en ctx id' r = jsonrpc_response id' (build_initialize_result en ctx r)"

definition mcp_server_discover :: "'v message_env \<Rightarrow> profile_ctx \<Rightarrow> json option \<Rightarrow> 'v registry \<Rightarrow> 'v registry \<times> json" where
  "mcp_server_discover en ctx id' r =
     (case mcp_tools_list en ctx None r of
        (r', listed) \<Rightarrow>
          (r', jsonrpc_response id' (case opt_get (json_get listed ''result'') ''tools'' of
                 Some tools \<Rightarrow> json_insert ''tools'' tools (build_initialize_result en ctx r)
               | None \<Rightarrow> build_initialize_result en ctx r)))"

definition mcp_resources_list :: "'v message_env \<Rightarrow> profile_ctx \<Rightarrow> json option \<Rightarrow> 'v registry \<Rightarrow> json" where
  "mcp_resources_list en ctx id' r =
     jsonrpc_response id' (JObj [(''resources'', JArr (case scope_of ctx of
        Some allowed \<Rightarrow> view_list_resources (me_wiring en) allowed r | None \<Rightarrow> list_resources (me_wiring en) r))])"

definition mcp_resource_templates_list :: "'v message_env \<Rightarrow> profile_ctx \<Rightarrow> json option \<Rightarrow> 'v registry \<Rightarrow> json" where
  "mcp_resource_templates_list en ctx id' r =
     jsonrpc_response id' (JObj [(''resourceTemplates'', JArr (case scope_of ctx of
        Some allowed \<Rightarrow> view_list_resource_templates (me_wiring en) allowed r | None \<Rightarrow> list_resource_templates (me_wiring en) r))])"

definition mcp_prompts_list :: "profile_ctx \<Rightarrow> json option \<Rightarrow> 'v registry \<Rightarrow> json" where
  "mcp_prompts_list ctx id' r =
     jsonrpc_response id' (JObj [(''prompts'', JArr (case scope_of ctx of
        Some allowed \<Rightarrow> view_list_prompts allowed r | None \<Rightarrow> list_prompts r))])"

section \<open>Reads\<close>

definition answer_routed :: "json option \<Rightarrow> effect list \<times> (adapter_error + json) \<Rightarrow> effect list \<times> json" where
  "answer_routed id' er =
     (case er of (eff, Inr v) \<Rightarrow> (eff, jsonrpc_response id' v)
               | (eff, Inl e) \<Rightarrow> (eff, jsonrpc_error_message id' (-32603) (display_error e)))"

definition params_of :: "jsonrpc_body \<Rightarrow> json" where
  "params_of b = unwrap_or (JObj []) (jb_params b)"

definition str_param :: "json \<Rightarrow> string \<Rightarrow> string option" where
  "str_param params k = Option.bind (json_get params k) json_str"

definition mcp_prompts_get :: "'v message_env \<Rightarrow> profile_ctx \<Rightarrow> jsonrpc_body \<Rightarrow> 'v registry \<Rightarrow> effect list \<times> json" where
  "mcp_prompts_get en ctx b r =
     (case str_param (params_of b) ''name'' of
        None \<Rightarrow> ([], jsonrpc_error_message (jb_id b) (-32602) (''missing '' @ in_quotes ''name'' @ '' in params''))
      | Some name \<Rightarrow>
         (let arguments = json_get (params_of b) ''arguments''
          in answer_routed (jb_id b) (case scope_of ctx of
               Some allowed \<Rightarrow> view_route_prompt_get (me_wiring en) allowed name arguments r
             | None \<Rightarrow> route_prompt_get (me_wiring en) name arguments r)))"

definition mcp_resources_read :: "'v message_env \<Rightarrow> profile_ctx \<Rightarrow> jsonrpc_body \<Rightarrow> 'v registry \<Rightarrow> effect list \<times> json" where
  "mcp_resources_read en ctx b r =
     (case str_param (params_of b) ''uri'' of
        None \<Rightarrow> ([], jsonrpc_error_message (jb_id b) (-32602) (''missing '' @ in_quotes ''uri'' @ '' in params''))
      | Some uri \<Rightarrow>
         answer_routed (jb_id b) (case scope_of ctx of
           Some allowed \<Rightarrow> view_route_resource_read (me_wiring en) allowed uri r
         | None \<Rightarrow> route_resource_read (me_wiring en) uri r))"

section \<open>Calls\<close>

definition limit_param :: "json \<Rightarrow> string \<Rightarrow> nat option" where
  "limit_param arguments k = map_option unat (Option.bind (json_get arguments k) json_u64)"

text \<open>The thread of a script does not inherit the spans of the request: a new one carries the identifier and the client, the
  profile is not passed on.\<close>

definition sandbox_span :: "(string \<Rightarrow> json option) \<Rightarrow> (json \<Rightarrow> string) \<Rightarrow> captured_span \<Rightarrow> captured_span" where
  "sandbox_span parse show outer =
     (let client_json = (case cs_client outer of
            Some c \<Rightarrow> if identity_is_empty c then [] else show (serialize_identity c) | None \<Rightarrow> []);
          request_uid = unwrap_or [] (cs_request_uid outer)
      in if client_json = [] \<and> request_uid = [] then no_capture
         else current_request_context [on_new_span parse ''request''
                [(''method'', ''tools/call''), (''request_uid'', request_uid), (''client'', client_json)]])"

definition parse_json :: "'v message_env \<Rightarrow> string \<Rightarrow> json option" where
  "parse_json en t = ok (re_parse (me_run en) t)"

definition sandbox_source :: "'v message_env \<Rightarrow> profile_ctx \<Rightarrow> 'v registry tool_source" where
  "sandbox_source en ctx =
     (let w = me_wiring en
      in handler_source (scope_of ctx) (w\<lparr>w_span := sandbox_span (parse_json en) (w_to_string w) (w_span w)\<rparr>))"

definition on_registry :: "'v server \<Rightarrow> 'v registry \<times> json \<Rightarrow> 'v server \<times> effect list \<times> json" where
  "on_registry s rj = (case rj of (r, j) \<Rightarrow> (s\<lparr>sv_registry := r\<rparr>, [], j))"

definition call_list_tools :: "'v message_env \<Rightarrow> profile_ctx \<Rightarrow> json option \<Rightarrow> json \<Rightarrow> 'v server \<Rightarrow> 'v server \<times> effect list \<times> json" where
  "call_list_tools en ctx id' arguments s =
     (case list_tools (source_of en ctx) (limit_param arguments ''limit'') (limit_param arguments ''offset'') (sv_registry s) of
        (r, page) \<Rightarrow> (s\<lparr>sv_registry := r\<rparr>, [],
           jsonrpc_response id' (wrap_meta_tool_result en (toon_enabled en ctx) (list_tools_json page))))"

definition call_search_tools :: "'v message_env \<Rightarrow> profile_ctx \<Rightarrow> json option \<Rightarrow> json \<Rightarrow> 'v server \<Rightarrow> 'v server \<times> effect list \<times> json" where
  "call_search_tools en ctx id' arguments s =
     (case search_tools (me_unicode en) (me_distance en) id (source_of en ctx) (unwrap_or [] (str_param arguments ''query''))
             (limit_param arguments ''limit'') (handler_index ctx s) (sv_registry s) of
        (r, cache, found) \<Rightarrow> ((set_handler_index ctx cache s)\<lparr>sv_registry := r\<rparr>, [],
           jsonrpc_response id' (wrap_meta_tool_result en (toon_enabled en ctx) (JArr (map slim_json found)))))"

definition call_execute_tools :: "'v message_env \<Rightarrow> profile_ctx \<Rightarrow> json option \<Rightarrow> json \<Rightarrow> 'v server \<Rightarrow> 'v server \<times> effect list \<times> json" where
  "call_execute_tools en ctx id' arguments s =
     (case execute (me_run en) (sandbox_source en ctx) (me_write_roots en) (unwrap_or [] (str_param arguments ''script''))
             (sv_registry s) (sv_os s) of
        (r, fs', eff, res) \<Rightarrow> (s\<lparr>sv_registry := r, sv_os := fs'\<rparr>, eff,
           case res of
             Inr v \<Rightarrow> jsonrpc_response id' (wrap_meta_tool_result en (toon_enabled en ctx) v)
           | Inl e \<Rightarrow> jsonrpc_error_message id' (-32603) (display_sandbox_error e)))"

definition call_write_file :: "'v message_env \<Rightarrow> profile_ctx \<Rightarrow> json option \<Rightarrow> json \<Rightarrow> 'v server \<Rightarrow> 'v server \<times> effect list \<times> json" where
  "call_write_file en ctx id' arguments s =
     (let rejected = (\<lambda>m. (s, [], jsonrpc_response id' (meta_tool_error_result (''write_file: '' @ m))))
      in case str_param arguments ''path'' of
           None \<Rightarrow> rejected (in_quotes ''path'' @ '' is required and must be a string'')
         | Some p \<Rightarrow>
            (case str_param arguments ''data'' of
               None \<Rightarrow> rejected (in_quotes ''data'' @ '' is required and must be a string'')
             | Some d \<Rightarrow>
                (case (case json_get arguments ''encoding'' of None \<Rightarrow> Some ''utf8'' | Some j \<Rightarrow> json_str j) of
                   None \<Rightarrow> rejected (in_quotes ''encoding'' @ '' must be a string ('' @ dquote @ ''utf8'' @ dquote @ '' or '' @ dquote @
                             ''base64'' @ dquote @ '') when provided'')
                 | Some encoding \<Rightarrow>
                    (case write_file_tool (re_files (me_run en)) (re_outside (me_run en)) (me_write_roots en) p d encoding (sv_os s) of
                       (fs', res) \<Rightarrow> (s\<lparr>sv_os := fs'\<rparr>, [], jsonrpc_response id'
                          (case res of
                             Inr v \<Rightarrow> wrap_meta_tool_result en (toon_enabled en ctx) v
                           | Inl (JsError m) \<Rightarrow> meta_tool_error_result m
                           | Inl e \<Rightarrow> meta_tool_error_result (display_sandbox_error e)))))))"

text \<open>Everything in the parameters besides name and arguments goes to the upstream.\<close>

definition request_params :: "json \<Rightarrow> (string \<times> json) list" where
  "request_params params =
     (case json_obj params of Some m \<Rightarrow> filter (\<lambda>(k, v). k \<noteq> ''name'' \<and> k \<noteq> ''arguments'') m | None \<Rightarrow> [])"

definition call_upstream :: "'v message_env \<Rightarrow> profile_ctx \<Rightarrow> jsonrpc_body \<Rightarrow> string \<Rightarrow> json \<Rightarrow> 'v server \<Rightarrow> 'v server \<times> effect list \<times> json" where
  "call_upstream en ctx b name arguments s =
     (let params = request_params (params_of b)
      in case (case scope_of ctx of
                 Some allowed \<Rightarrow> view_route_tool_call_with_request_params (me_wiring en) allowed name arguments params (sv_registry s)
               | None \<Rightarrow> route_tool_call_with_request_params (me_wiring en) name arguments params (sv_registry s)) of
           (r, eff, Inr v) \<Rightarrow> (s\<lparr>sv_registry := r\<rparr>, eff, jsonrpc_response (jb_id b)
              (if toon_enabled en ctx then toonify_call_result (re_parse (me_run en)) (me_toon en) v else v))
         | (r, eff, Inl e) \<Rightarrow> (s\<lparr>sv_registry := r\<rparr>, eff, jsonrpc_error_message (jb_id b) (-32603) (display_error e)))"

definition EXECUTE_DISABLED :: string where
  "EXECUTE_DISABLED = ''execute_tools is disabled '' @ utf8 [8212] @ '' set relay.local_js_execution = true to enable the JS sandbox.''"

definition DIRECT_CALLS_DISABLED :: string where
  "DIRECT_CALLS_DISABLED = ''Direct tool calls are not allowed in JS execution mode. Use execute_tools instead.''"

text \<open>A tool of the relay: invalid arguments are answered before it runs.\<close>

definition validated ::
  "'v message_env \<Rightarrow> string \<Rightarrow> jsonrpc_body \<Rightarrow> json \<Rightarrow> 'v server \<Rightarrow> 'v server \<times> effect list \<times> json \<Rightarrow> 'v server \<times> effect list \<times> json" where
  "validated en name b arguments s run =
     (case validate_meta_tool_args en (sv_registry s) name arguments of
        Some err \<Rightarrow> (s, [], jsonrpc_response (jb_id b) err)
      | None \<Rightarrow> run)"

definition mcp_tools_call :: "'v message_env \<Rightarrow> profile_ctx \<Rightarrow> jsonrpc_body \<Rightarrow> 'v server \<Rightarrow> 'v server \<times> effect list \<times> json" where
  "mcp_tools_call en ctx b s =
     (case str_param (params_of b) ''name'' of
        None \<Rightarrow> (s, [], jsonrpc_error_message (jb_id b) (-32602) (''missing '' @ in_quotes ''name'' @ '' in params''))
      | Some name \<Rightarrow>
         (let arguments = unwrap_or (JObj []) (json_get (params_of b) ''arguments''); check = validated en name b arguments s
          in if name = ''list_tools'' then check (call_list_tools en ctx (jb_id b) arguments s)
             else if name = ''search_tools'' then check (call_search_tools en ctx (jb_id b) arguments s)
             else if name = ''execute_tools''
             then (if \<not> js_mode en ctx then (s, [], jsonrpc_error_message (jb_id b) (-32601) EXECUTE_DISABLED)
                   else check (call_execute_tools en ctx (jb_id b) arguments s))
             else if name = ''write_file'' then check (call_write_file en ctx (jb_id b) arguments s)
             else if js_mode en ctx then (s, [], jsonrpc_error_message (jb_id b) (-32601) DIRECT_CALLS_DISABLED)
             else call_upstream en ctx b name arguments s))"

section \<open>Messages of a request\<close>

text \<open>The span of a message, inside the one of its profile.\<close>

definition message_span :: "'v message_env \<Rightarrow> profile_ctx \<Rightarrow> client_identity option \<Rightarrow> json \<Rightarrow> captured_span" where
  "message_span en ctx identity msg =
     (let show = w_to_string (me_wiring en);
          client_json = (case identity of
            Some c \<Rightarrow> if identity_is_empty c then [] else show (serialize_identity c) | None \<Rightarrow> []);
          id_str = (case json_get msg ''id'' of Some v \<Rightarrow> show v | None \<Rightarrow> ''null'')
      in current_request_context
           ([on_new_span (parse_json en) ''request''
              [(''method'', method_of msg), (''id'', id_str), (''request_uid'', me_request_uid en), (''client'', client_json)]] @
            (case ctx of Some (path, c) \<Rightarrow> [on_new_span (parse_json en) ''mcp_request'' [(''profile'', path)]] | None \<Rightarrow> [])))"

definition in_span :: "captured_span \<Rightarrow> 'v message_env \<Rightarrow> 'v message_env" where
  "in_span sp en = en\<lparr>me_wiring := (me_wiring en)\<lparr>w_span := sp\<rparr>\<rparr>"

definition pure :: "'v server \<Rightarrow> json \<Rightarrow> 'v server \<times> effect list \<times> json" where
  "pure s j = (s, [], j)"

definition read_only :: "'v server \<Rightarrow> effect list \<times> json \<Rightarrow> 'v server \<times> effect list \<times> json" where
  "read_only s er = (s, er)"

definition dispatch :: "'v message_env \<Rightarrow> profile_ctx \<Rightarrow> string \<Rightarrow> jsonrpc_body \<Rightarrow> 'v server \<Rightarrow> 'v server \<times> effect list \<times> json" where
  "dispatch en ctx m b s =
     (let r = sv_registry s; id' = jb_id b in
      if m = ''initialize'' then pure s (mcp_initialize en ctx id' r)
      else if m = ''server/discover'' then on_registry s (mcp_server_discover en ctx id' r)
      else if m = ''tools/list'' then on_registry s (mcp_tools_list en ctx id' r)
      else if m = ''tools/call'' then mcp_tools_call en ctx b s
      else if m = ''resources/list'' then pure s (mcp_resources_list en ctx id' r)
      else if m = ''resources/templates/list'' then pure s (mcp_resource_templates_list en ctx id' r)
      else if m = ''resources/read'' then read_only s (mcp_resources_read en ctx b r)
      else if m = ''prompts/list'' then pure s (mcp_prompts_list ctx id' r)
      else if m = ''prompts/get'' then read_only s (mcp_prompts_get en ctx b r)
      else pure s (jsonrpc_error_message id' (-32601) (''method not found: '' @ m)))"

definition handle_single_message ::
  "'v message_env \<Rightarrow> profile_ctx \<Rightarrow> client_identity option \<Rightarrow> json \<Rightarrow> 'v server \<Rightarrow> 'v server \<times> effect list \<times> json option" where
  "handle_single_message en ctx identity msg s =
     (if is_notification msg then (s, [], None)
      else case parse_body msg of
        None \<Rightarrow> (s, [], Some (jsonrpc_error_message None (-32600) ''Invalid Request''))
      | Some b \<Rightarrow>
         (case dispatch (in_span (message_span en ctx identity msg) en) ctx (method_of msg) b s of
            (s', eff, j) \<Rightarrow> (s', eff, Some j)))"

text \<open>The caller, and for an \<^verbatim>\<open>initialize\<close> of the older protocols the session it is given.\<close>

definition resolve_identity_for_message ::
  "headers \<Rightarrow> string \<Rightarrow> json \<Rightarrow> session_store \<Rightarrow> session_store \<times> client_identity option \<times> string option" where
  "resolve_identity_for_message h fresh msg st =
     (let params = json_get msg ''params'' in
      if Option.bind (json_get msg ''method'') json_str \<noteq> Some ''initialize''
      then (case resolve_inbound_identity_versioned h params st of (st', identity) \<Rightarrow> (st', identity, None))
      else (let init_identity = identity_from_initialize_params params;
                identity = none_if_empty (merge_identity init_identity (identity_from_headers h));
                dialect = detect_inbound_dialect True (h ''mcp-protocol-version'') params
            in if is_2026 dialect then (st, identity, None)
               else ((if identity_is_empty init_identity then st else fst (insert_with_dialect fresh init_identity dialect st)),
                     identity, Some fresh)))"

definition validate_2026_routing_headers :: "headers \<Rightarrow> json \<Rightarrow> json option" where
  "validate_2026_routing_headers h msg =
     (let method = method_of msg;
          dialect = detect_inbound_dialect (method = ''initialize'') (h ''mcp-protocol-version'') (json_get msg ''params'');
          invalid = (\<lambda>m. Some (jsonrpc_error_message (json_get msg ''id'') (-32600) (''Invalid Request: '' @ m)));
          body_name = unwrap_or [] (Option.bind (opt_get (json_get msg ''params'') ''name'') json_str)
      in if \<not> is_2026 dialect then None
         else case (case h ''mcp-method'' of Some hm \<Rightarrow> if hm \<noteq> method then Some hm else None | None \<Rightarrow> None) of
           Some hm \<Rightarrow> invalid (''Mcp-Method header '' @ in_quotes hm @ '' does not match body method '' @ in_quotes method)
         | None \<Rightarrow>
            (case h ''mcp-name'' of
               Some hn \<Rightarrow> if method = ''tools/call'' \<and> hn \<noteq> body_name
                 then invalid (''Mcp-Name header '' @ in_quotes hn @ '' does not match tool name '' @ in_quotes body_name) else None
             | None \<Rightarrow> None))"

section \<open>Requests\<close>

record http_response =
  hr_status :: nat
  hr_body :: "json option"
  hr_session :: "string option"

definition json_response :: "json \<Rightarrow> http_response" where
  "json_response j = \<lparr>hr_status = 200, hr_body = Some j, hr_session = None\<rparr>"

definition accepted :: http_response where
  "accepted = \<lparr>hr_status = 202, hr_body = None, hr_session = None\<rparr>"

definition with_session_header :: "http_response \<Rightarrow> string option \<Rightarrow> http_response" where
  "with_session_header resp sid = (case sid of Some t \<Rightarrow> resp\<lparr>hr_session := Some t\<rparr> | None \<Rightarrow> resp)"

definition profile_not_found_response :: "string \<Rightarrow> http_response" where
  "profile_not_found_response path =
     \<lparr>hr_status = 404, hr_body = Some (jsonrpc_error_message None (-32004) (''unknown profile '' @ in_quotes path)), hr_session = None\<rparr>"

text \<open>One message of a request: the check of the headers, the caller, the answer.\<close>

definition one_message ::
  "'v message_env \<Rightarrow> profile_ctx \<Rightarrow> headers \<Rightarrow> json \<Rightarrow> 'v server \<Rightarrow> 'v server \<times> effect list \<times> json option \<times> string option" where
  "one_message en ctx h msg s =
     (case validate_2026_routing_headers h msg of
        Some err \<Rightarrow> (s, [], Some err, None)
      | None \<Rightarrow>
         (case resolve_identity_for_message h (me_session_id en) msg (sv_sessions s) of
            (st, identity, new_session) \<Rightarrow>
              (case handle_single_message en ctx identity msg (s\<lparr>sv_sessions := st\<rparr>) of
                 (s', eff, resp) \<Rightarrow> (s', eff, resp, new_session))))"

text \<open>\<open>ens i\<close>: the environment of the message with index \<open>i\<close>. The first session issued is the one announced.\<close>

fun run_batch ::
  "(nat \<Rightarrow> 'v message_env) \<Rightarrow> profile_ctx \<Rightarrow> headers \<Rightarrow> nat \<Rightarrow> json list \<Rightarrow> 'v server \<Rightarrow> 'v server \<times> effect list \<times> json list \<times> string option" where
  "run_batch ens ctx h i [] s = (s, [], [], None)"
| "run_batch ens ctx h i (msg # msgs) s =
     (case one_message (ens i) ctx h msg s of
        (s1, eff1, resp, sid) \<Rightarrow>
          (case run_batch ens ctx h (Suc i) msgs s1 of
             (s2, eff2, resps, sids) \<Rightarrow>
               (s2, eff1 @ eff2, (case resp of Some j \<Rightarrow> j # resps | None \<Rightarrow> resps), option_or sid sids)))"

definition mcp_unified_impl ::
  "(nat \<Rightarrow> 'v message_env) \<Rightarrow> profile_ctx \<Rightarrow> headers \<Rightarrow> json \<Rightarrow> 'v server \<Rightarrow> 'v server \<times> effect list \<times> http_response" where
  "mcp_unified_impl ens ctx h body s =
     (case body of
        JArr messages \<Rightarrow>
          (if messages = [] then (s, [], json_response (jsonrpc_error_message None (-32600) ''Invalid Request: empty batch''))
           else case run_batch ens ctx h 0 messages s of
             (s', eff, resps, sid) \<Rightarrow>
               (s', eff, with_session_header (if resps = [] then accepted else json_response (JArr resps)) sid))
      | JObj m \<Rightarrow>
          (case validate_2026_routing_headers h body of
             Some err \<Rightarrow> (s, [], json_response err)
           | None \<Rightarrow>
              (case one_message (ens 0) ctx h body s of
                 (s', eff, resp, sid) \<Rightarrow>
                   (s', eff, with_session_header (case resp of Some j \<Rightarrow> json_response j | None \<Rightarrow> accepted) sid)))
      | _ \<Rightarrow> (s, [], json_response (jsonrpc_error_message None (-32600) ''Invalid Request: expected object or array'')))"

definition mcp_unified :: "(nat \<Rightarrow> 'v message_env) \<Rightarrow> headers \<Rightarrow> json \<Rightarrow> 'v server \<Rightarrow> 'v server \<times> effect list \<times> http_response" where
  "mcp_unified ens h body s = mcp_unified_impl ens None h body s"

definition mcp_unified_profiled ::
  "(nat \<Rightarrow> 'v message_env) \<Rightarrow> string \<Rightarrow> headers \<Rightarrow> json \<Rightarrow> 'v server \<Rightarrow> 'v server \<times> effect list \<times> http_response" where
  "mcp_unified_profiled ens path h body s =
     (case get_profile path (sv_profiles s) of
        None \<Rightarrow> (s, [], profile_not_found_response path)
      | Some c \<Rightarrow> mcp_unified_impl ens (Some (path, c)) h body s)"

text \<open>Ending a session is refused.\<close>

definition method_not_allowed :: http_response where
  "method_not_allowed = \<lparr>hr_status = 405, hr_body = None, hr_session = None\<rparr>"

definition mcp_delete_profiled :: "string \<Rightarrow> 'v server \<Rightarrow> http_response" where
  "mcp_delete_profiled path s =
     (case get_profile path (sv_profiles s) of None \<Rightarrow> profile_not_found_response path | Some c \<Rightarrow> method_not_allowed)"

text \<open>Origins other than those of this host are not allowed by the cross-origin layer.\<close>

definition before_char :: "char \<Rightarrow> string \<Rightarrow> string" where
  "before_char c s = takeWhile (\<lambda>x. x \<noteq> c) s"

definition is_localhost_origin :: "string \<Rightarrow> bool" where
  "is_localhost_origin origin =
     (case option_or (strip_prefix ''http://'' origin) (strip_prefix ''https://'' origin) of
        None \<Rightarrow> False
      | Some host_port \<Rightarrow>
         (let host = (if starts_with ''['' host_port then before_char CHR '']'' host_port @ '']'' else before_char CHR '':'' host_port)
          in host \<in> {''localhost'', ''127.0.0.1'', ''[::1]''}))"

end
