(* ===== verification/Server_Safety.thy ===== *)
theory Server_Safety
  imports Server
begin

text \<open>
  What the inbound server promises: requests of a profile reach its endpoints only, scripts and batches included;
  every answer is a JSON-RPC response to a request that asked for it; what is listed can be called.
\<close>

section \<open>Confinement\<close>

fun effect_endpoint :: "effect \<Rightarrow> string option" where
  "effect_endpoint (CallTool ep tool arguments params) = Some ep"
| "effect_endpoint (ReadResource ep uri) = Some ep"
| "effect_endpoint (GetPrompt ep name arguments) = Some ep"
| "effect_endpoint _ = None"

definition stays_in :: "string set \<Rightarrow> effect list \<Rightarrow> bool" where
  "stays_in scope eff = list_all (\<lambda>e. case effect_endpoint e of Some ep \<Rightarrow> ep \<in> scope | None \<Rightarrow> True) eff"

lemma stays_in_simps [simp]:
  "stays_in scope []" "stays_in scope (e # es) = ((case effect_endpoint e of Some ep \<Rightarrow> ep \<in> scope | None \<Rightarrow> True) \<and> stays_in scope es)"
  "stays_in scope (es @ fs) = (stays_in scope es \<and> stays_in scope fs)"
  by (simp_all add: stays_in_def)

lemma stays_in_concat: "stays_in scope (concat ess) = list_all (stays_in scope) ess"
  by (induction ess) simp_all

text \<open>A source whose reads and calls keep an invariant of the registry and all of whose effects have a property; what the
  other tasks do between two attempts of a call is asked to keep the invariant too.\<close>

definition world_keeps :: "('r \<Rightarrow> bool) \<Rightarrow> 'r run_env \<Rightarrow> bool" where
  "world_keeps P re = (\<forall>i k r. P r \<longrightarrow> P (we_between (re_weather re i) k r))"


locale audited_source =
  fixes ts :: "'r tool_source" and inv :: "'r \<Rightarrow> bool" and P :: "effect \<Rightarrow> bool"
  assumes catalog_keeps: "inv r \<Longrightarrow> inv (fst (ts_catalog ts r))"
    and route_keeps: "inv r \<Longrightarrow> inv (fst (ts_route ts name arguments r))"
    and route_audited: "inv r \<Longrightarrow> list_all P (fst (snd (ts_route ts name arguments r)))"
begin

lemma routed:
  assumes "ts_route ts name arguments r = (r', eff, res)" "inv r"
  shows "inv r' \<and> list_all P eff"
  using route_keeps [OF assms(2), of name arguments] route_audited [OF assms(2), of name arguments] assms(1) by simp

lemma call_audited:
  assumes "call_tool_native osa parse ts name args_json r = (r', eff, res)" "inv r"
  shows "inv r' \<and> list_all P eff"
proof -
  obtain r1 cat where c: "ts_catalog ts r = (r1, cat)" by (cases "ts_catalog ts r")
  then have "inv r1" using catalog_keeps [OF assms(2)] by simp
  show ?thesis using assms \<open>inv r1\<close>
    by (auto simp: call_tool_native_def c split: sum.splits if_splits prod.splits dest: routed [OF _ \<open>inv r1\<close>])
qed

lemma loop_audited:
  assumes "call_tool_with_retry_loop (re_weather re i) ts name arguments max_retries deadline a r = (r', eff, res, n)" "inv r"
    and "world_keeps inv re"
  shows "inv r' \<and> list_all P eff"
  using assms(1,2)
proof (induction "max_retries - a" arbitrary: a r r' eff res n rule: less_induct)
  case less
  obtain r1 eff1 res1 where route: "ts_route ts name arguments r = (r1, eff1, res1)" by (metis prod.exhaust)
  have one: "inv r1" "list_all P eff1" using route_keeps [OF less.prems(2), of name arguments]
      route_audited [OF less.prems(2), of name arguments] by (simp_all add: route)
  show ?case
  proof (cases "a < max_retries \<and> worth_repeating (re_weather re i) deadline a res1")
    case False
    then show ?thesis using less.prems(1) one by (simp add: loop_once [OF route False])
  next
    case True
    obtain r2 eff2 res2 n2 where rest: "call_tool_with_retry_loop (re_weather re i) ts name arguments max_retries deadline (a + 1)
        (we_between (re_weather re i) a r1) = (r2, eff2, res2, n2)" by (metis prod.exhaust)
    have "inv r2 \<and> list_all P eff2"
    proof (rule less.hyps [OF _ rest])
      show "max_retries - (a + 1) < max_retries - a" using True by linarith
      show "inv (we_between (re_weather re i) a r1)" using assms(3) one(1) by (simp add: world_keeps_def)
    qed
    then show ?thesis using less.prems(1) one loop_again [OF route] True rest by auto
  qed
qed

lemma retry_audited:
  assumes "call_tool_with_retry_native osa parse (re_weather re i) ts deadline name args_json retry r = (r', eff, res)" "inv r"
    and "world_keeps inv re"
  shows "inv r' \<and> list_all P eff"
proof -
  obtain r1 cat where c: "ts_catalog ts r = (r1, cat)" by (cases "ts_catalog ts r")
  then have r1: "inv r1" using catalog_keeps [OF assms(2)] by simp
  show ?thesis using assms r1
    by (auto simp: call_tool_with_retry_native_def c split: sum.splits option.splits if_splits prod.splits
        dest: loop_audited [OF _ r1 assms(3)])
qed

lemma native_audited:
  assumes "native re ts i c s = (s', eff, answer)" "inv (ss_registry s)" "world_keeps inv re"
  shows "inv (ss_registry s') \<and> list_all P eff"
proof (cases c)
  case (AskTool name args_json)
  then show ?thesis using assms call_audited by (auto split: prod.splits)
next
  case (AskToolWithRetry name args_json retry)
  then show ?thesis using assms retry_audited by (auto split: prod.splits)
qed (use assms in \<open>auto split: prod.splits\<close>)

lemma run_audited:
  assumes "run_js re ts script n answers s = (s', eff, res)" "inv (ss_registry s)" "world_keeps inv re"
  shows "inv (ss_registry s') \<and> list_all P eff"
  using assms(1,2)
proof (induction n arbitrary: answers s s' eff res)
  case 0
  then show ?case by (subst (asm) run_js.simps) (auto split: script_step.splits)
next
  case (Suc n)
  show ?case
  proof (cases "script answers")
    case (Finish r)
    then show ?thesis using Suc.prems by (subst (asm) run_js.simps) auto
  next
    case (Ask c)
    obtain s1 eff1 answer where one: "native re ts (length answers) c s = (s1, eff1, answer)" by (metis prod.exhaust)
    obtain s2 eff2 res2 where rest: "run_js re ts script n (answers @ [answer]) s1 = (s2, eff2, res2)" by (metis prod.exhaust)
    have "inv (ss_registry s1) \<and> list_all P eff1" using native_audited [OF one Suc.prems(2) assms(3)] .
    moreover from this have "inv (ss_registry s2) \<and> list_all P eff2" using Suc.IH [OF rest] by simp
    ultimately show ?thesis using Suc.prems(1) by (subst (asm) run_js.simps) (auto simp: Ask one rest)
  qed
qed

lemma execute_audited:
  assumes "execute re ts roots script r fs = (r', fs', eff, res)" "inv r" "world_keeps inv re"
  shows "inv r' \<and> list_all P eff"
proof -
  obtain r1 cat where c: "ts_catalog ts r = (r1, cat)" by (cases "ts_catalog ts r")
  then have r1: "inv r1" using catalog_keeps [OF assms(2)] by simp
  let ?start = "\<lparr>ss_registry = r1, ss_run = new_run roots, ss_os = fs\<rparr>"
  have run: "inv (ss_registry s) \<and> list_all P eff2"
    if "run_js re ts (re_engine re script cat) n [] ?start = (s, eff2, res2)" for n s eff2 res2
    using run_audited [OF that] r1 assms(3) by simp
  show ?thesis
    using assms(1) by (auto simp: execute_def c Let_def split: prod.splits option.splits dest: run)
qed

end

text \<open>Routing leaves the catalog and the adapters as the read of the catalog left them.\<close>

lemma schema_gate_keeps:
  "r_adapters (fst (schema_gate w cat n arguments r)) = r_adapters r"
  "r_catalog_cache (fst (schema_gate w cat n arguments r)) = r_catalog_cache r"
  by (auto simp: schema_gate_def validate_arguments_def compiled_validator_def Let_def case_prod_beta split: option.splits)

lemma resolved_keeps:
  "r_adapters (fst (route_resolved w c n arguments params r)) = r_adapters r"
  "r_catalog_cache (fst (route_resolved w c n arguments params r)) = r_catalog_cache r"
  by (auto simp: route_resolved_def case_prod_beta schema_gate_keeps Let_def split: option.splits)

lemma route_coherent:
  "coherent (w_encode w) r \<Longrightarrow> coherent (w_encode w) (fst (route_tool_call_with_request_params w n arguments params r))"
  using merged_current(2) [of "w_encode w" r "w_now w"]
  by (simp add: route_tool_call_with_request_params_def case_prod_beta coherent_def resolved_keeps)

lemma view_route_coherent:
  assumes "coherent (w_encode w) r"
  shows "coherent (w_encode w) (fst (view_route_tool_call_with_request_params w allowed n arguments params r))"
  using route_coherent [OF merged_current(2) [OF assms, of "w_now w"]] merged_current(2) [OF assms, of "w_now w"]
  by (simp add: view_route_tool_call_with_request_params_def view_route_with_def case_prod_beta split: option.split)

lemma rejection_effects:
  "stays_in scope (fst (publish_early_rejection w tool ep tr st sn msg))"
  "stays_in scope (publish_validation_failure w tool ep tr st sn msg)"
  by (auto simp: publish_early_rejection_def publish_validation_failure_def publish_pair_def stays_in_def)

lemma stays_in_mono: "stays_in A eff \<Longrightarrow> A \<subseteq> B \<Longrightarrow> stays_in B eff"
  by (auto simp: stays_in_def list_all_iff split: option.splits)

lemma dispatch_stays: "stays_in {ep} (fst (dispatch_tool_call w r ent ep tool arguments params))"
  by (simp add: dispatch_tool_call_def capture_record_def Let_def case_prod_beta)

lemma resolved_stays:
  "stays_in (fst ` set_option (hm_get (snd c) n)) (fst (snd (route_resolved w c n arguments params r)))"
proof (cases "hm_get (snd c) n")
  case None
  then show ?thesis by (simp add: route_resolved_def rejection_effects)
next
  case (Some et)
  then show ?thesis
    by (cases et) (simp add: route_resolved_def rejection_effects dispatch_stays Let_def case_prod_beta split: option.split)
qed

lemma view_route_scoped:
  assumes "coherent (w_encode w) r"
  shows "stays_in allowed (fst (snd (view_route_tool_call_with_request_params w allowed n arguments params r)))"
proof -
  let ?r = "fst (merged_catalog_with_lookup (w_encode w) (w_now w) r)"
    and ?c = "snd (merged_catalog_with_lookup (w_encode w) (w_now w) r)"
  have read: "snd (merged_catalog_with_lookup (w_encode w) (w_now w) ?r) = ?c" by (rule merged_again [OF assms])
  show ?thesis
  proof (cases "profile_guard allowed ?c n")
    case None
    then have "fst ` set_option (hm_get (snd ?c) n) \<subseteq> allowed"
      by (auto simp: profile_guard_def split: option.splits if_splits)
    from stays_in_mono [OF resolved_stays this] None show ?thesis
      by (simp add: view_route_tool_call_with_request_params_def view_route_with_def route_tool_call_with_request_params_def
          case_prod_beta read)
  next
    case (Some msg)
    then show ?thesis by (simp add: view_route_tool_call_with_request_params_def view_route_with_def case_prod_beta)
  qed
qed

definition scope_set :: "profile_ctx \<Rightarrow> string set" where
  "scope_set ctx = (case scope_of ctx of Some allowed \<Rightarrow> allowed | None \<Rightarrow> UNIV)"

lemma stays_in_UNIV [simp]: "stays_in UNIV eff"
  by (simp add: stays_in_def list_all_iff split: option.split)

text \<open>What the other tasks do to the registry during a script keeps its caches coherent; the encoder of resource addresses
  is one function.\<close>

definition steady_env :: "percent_encoder \<Rightarrow> 'v message_env \<Rightarrow> bool" where
  "steady_env enc en \<longleftrightarrow> w_encode (me_wiring en) = enc \<and> world_keeps (coherent enc) (me_run en)"

lemma handler_keeps:
  fixes profile :: "string set option" and w :: "'v wiring"
  assumes "coherent (w_encode w) r"
  shows "coherent (w_encode w) (fst (ts_catalog (handler_source profile w) r))"
    "coherent (w_encode w) (fst (ts_route (handler_source profile w) n arguments r))"
    "stays_in (case profile of Some allowed \<Rightarrow> allowed | None \<Rightarrow> UNIV) (fst (snd (ts_route (handler_source profile w) n arguments r)))"
proof -
  show "coherent (w_encode w) (fst (ts_catalog (handler_source profile w) r))"
    using merged_current(2) [OF assms] by (simp add: handler.catalog_read)
  have view: "view_route_tool_call w allowed n arguments r = view_route_tool_call_with_request_params w allowed n arguments [] r"
    for allowed by (simp add: view_route_tool_call_def view_route_tool_call_with_request_params_def)
  show "coherent (w_encode w) (fst (ts_route (handler_source profile w) n arguments r))"
    using route_coherent [OF assms] view_route_coherent [OF assms]
    by (cases profile) (simp_all add: handler_source_def global_source_def profile_source_def route_tool_call_def view)
  show "stays_in (case profile of Some allowed \<Rightarrow> allowed | None \<Rightarrow> UNIV) (fst (snd (ts_route (handler_source profile w) n arguments r)))"
    using view_route_scoped [OF assms]
    by (cases profile) (simp_all add: handler_source_def profile_source_def view)
qed

definition effect_in :: "string set \<Rightarrow> effect \<Rightarrow> bool" where
  "effect_in scope e = (case effect_endpoint e of Some ep \<Rightarrow> ep \<in> scope | None \<Rightarrow> True)"

lemma stays_in_audited: "stays_in scope eff = list_all (effect_in scope) eff"
  by (simp add: stays_in_def effect_in_def [abs_def])

interpretation handler_scope: audited_source "handler_source profile w" "coherent (w_encode w)"
  "effect_in (case profile of Some allowed \<Rightarrow> allowed | None \<Rightarrow> UNIV)" for profile w
  by unfold_locales (fold stays_in_audited, (rule handler_keeps; assumption)+)

text \<open>What the server keeps: coherent caches. A request of a scope stays in it.\<close>

definition scoped_answer :: "percent_encoder \<Rightarrow> string set \<Rightarrow> 'v server \<times> effect list \<times> 'a \<Rightarrow> bool" where
  "scoped_answer enc scope out = (coherent enc (sv_registry (fst out)) \<and> stays_in scope (fst (snd out)))"

lemma scoped_answer_simps [simp]:
  "scoped_answer enc scope (s, eff, x) = (coherent enc (sv_registry s) \<and> stays_in scope eff)"
  by (simp add: scoped_answer_def)

lemma scope_set_alt: "scope_set ctx = (case scope_of ctx of Some allowed \<Rightarrow> allowed | None \<Rightarrow> UNIV)"
  by (simp add: scope_set_def)

lemma source_keeps:
  assumes "steady_env enc en" "coherent enc r"
  shows "coherent enc (fst (ts_catalog (source_of en ctx) r))"
  using handler_keeps(1) [of "me_wiring en" r] assms by (simp add: source_of_def steady_env_def)

lemma set_index_registry [simp]: "sv_registry (set_handler_index ctx cache s) = sv_registry s"
  by (simp add: set_handler_index_def split: option.split)

lemma list_tools_scoped:
  assumes "steady_env enc en" "coherent enc (sv_registry s)"
  shows "scoped_answer enc scope (call_list_tools en ctx id' arguments s)"
  using source_keeps [OF assms, of ctx]
  by (simp add: call_list_tools_def list_tools_def case_prod_beta)

lemma search_tools_scoped:
  assumes "steady_env enc en" "coherent enc (sv_registry s)"
  shows "scoped_answer enc scope (call_search_tools en ctx id' arguments s)"
  using source_keeps [OF assms, of ctx]
  by (auto simp: call_search_tools_def search_tools_def case_prod_beta Let_def split: option.split)

lemma execute_tools_scoped:
  assumes "steady_env enc en" "coherent enc (sv_registry s)"
  shows "scoped_answer enc (scope_set ctx) (call_execute_tools en ctx id' arguments s)"
proof -
  let ?w = "(me_wiring en)\<lparr>w_span := sandbox_span (parse_json en) (w_to_string (me_wiring en)) (w_span (me_wiring en))\<rparr>"
  let ?script = "unwrap_or [] (str_param arguments ''script'')"
  have src: "sandbox_source en ctx = handler_source (scope_of ctx) ?w" by (simp add: sandbox_source_def Let_def)
  have enc: "w_encode ?w = enc" using assms by (simp add: steady_env_def)
  obtain r fs' eff res where ex: "execute (me_run en) (handler_source (scope_of ctx) ?w) (me_write_roots en) ?script (sv_registry s) (sv_os s) =
      (r, fs', eff, res)" by (metis prod.exhaust)
  have "world_keeps (coherent (w_encode ?w)) (me_run en)" "coherent (w_encode ?w) (sv_registry s)"
    using assms unfolding enc by (simp_all add: steady_env_def)
  from handler_scope.execute_audited [OF ex this(2,1)] have "coherent enc r \<and> stays_in (scope_set ctx) eff"
    unfolding enc by (simp add: scope_set_alt stays_in_audited)
  then show ?thesis by (simp add: call_execute_tools_def src ex)
qed

lemma write_file_scoped:
  "coherent enc (sv_registry s) \<Longrightarrow> scoped_answer enc scope (call_write_file en ctx id' arguments s)"
  by (simp add: call_write_file_def Let_def case_prod_beta split: option.split)

lemma upstream_scoped:
  assumes "steady_env enc en" "coherent enc (sv_registry s)"
  shows "scoped_answer enc (scope_set ctx) (call_upstream en ctx b name arguments s)"
proof -
  have c: "coherent (w_encode (me_wiring en)) (sv_registry s)" using assms by (simp add: steady_env_def)
  show ?thesis
    using assms route_coherent [OF c] view_route_coherent [OF c] view_route_scoped [OF c]
    by (auto simp: call_upstream_def Let_def scope_set_alt case_prod_beta steady_env_def split: option.split sum.split)
qed

lemma tools_call_scoped:
  assumes "steady_env enc en" "coherent enc (sv_registry s)"
  shows "scoped_answer enc (scope_set ctx) (mcp_tools_call en ctx b s)"
  using assms list_tools_scoped [OF assms] search_tools_scoped [OF assms] execute_tools_scoped [OF assms]
    write_file_scoped [OF assms(2)] upstream_scoped [OF assms]
  by (simp add: mcp_tools_call_def validated_def Let_def split: option.split)

lemma reads_scoped:
  "stays_in (scope_set ctx) (fst (mcp_prompts_get en ctx b r))"
  "stays_in (scope_set ctx) (fst (mcp_resources_read en ctx b r))"
proof -
  have dispatched: "stays_in {ep} (fst (dispatch_prompt_get_to ep n args r))" "stays_in {ep} (fst (dispatch_resource_read_to ep u r))"
    for ep n args u
    by (simp_all add: dispatch_prompt_get_to_def dispatch_resource_read_to_def split: sum.split)
  have inside: "stays_in A (fst (dispatch_prompt_get_to ep n args r))" "stays_in A (fst (dispatch_resource_read_to ep u r))"
    if "ep \<in> A" for A ep n args u
    using stays_in_mono [OF dispatched(1)] stays_in_mono [OF dispatched(2)] that by simp_all
  have answer: "stays_in A (fst (answer_routed id' er)) = stays_in A (fst er)" for A id' er
    by (cases er) (auto simp: answer_routed_def split: sum.split)
  show "stays_in (scope_set ctx) (fst (mcp_prompts_get en ctx b r))"
    by (cases "scope_of ctx") (auto simp: mcp_prompts_get_def answer scope_set_alt Let_def view_route_prompt_get_def inside
        split: option.split)
  show "stays_in (scope_set ctx) (fst (mcp_resources_read en ctx b r))"
    by (cases "scope_of ctx") (auto simp: mcp_resources_read_def answer scope_set_alt view_route_resource_read_def inside
        dest: find_single_allowed split: option.split sum.split)
qed

lemma listed_scoped:
  assumes "steady_env enc en" "coherent enc r"
  shows "coherent enc (fst (mcp_tools_list en ctx id' r))" "coherent enc (fst (mcp_server_discover en ctx id' r))"
  using assms(2) source_keeps [OF assms, of ctx]
  by (auto simp: mcp_server_discover_def mcp_tools_list_def tools_listed_def Let_def case_prod_beta)

lemma dispatch_scoped:
  assumes "steady_env enc en" "coherent enc (sv_registry s)"
  shows "scoped_answer enc (scope_set ctx) (dispatch en ctx m b s)"
  using tools_call_scoped [OF assms, of ctx b] listed_scoped [OF assms, of ctx] reads_scoped [of ctx en b] assms(2)
  by (auto simp: dispatch_def Let_def pure_def read_only_def on_registry_def case_prod_beta scoped_answer_def)

lemma steady_in_span [simp]: "steady_env enc (in_span sp en) = steady_env enc en"
  by (simp add: steady_env_def in_span_def)

lemma message_scoped:
  assumes "steady_env enc en" "coherent enc (sv_registry s)"
  shows "scoped_answer enc (scope_set ctx) (one_message en ctx h msg s)"
proof -
  have "scoped_answer enc (scope_set ctx) (dispatch (in_span sp en) ctx m b (s\<lparr>sv_sessions := st\<rparr>))" for sp m b st
    using assms by (intro dispatch_scoped) simp_all
  then show ?thesis using assms(2)
    by (auto simp: one_message_def handle_single_message_def scoped_answer_def case_prod_beta split: option.split)
qed

lemma batch_scoped:
  assumes "\<forall>i. steady_env enc (ens i)" "coherent enc (sv_registry s)"
  shows "scoped_answer enc (scope_set ctx) (run_batch ens ctx h i msgs s)"
  using assms(2)
proof (induction msgs arbitrary: i s)
  case (Cons msg msgs)
  obtain s1 eff1 resp sid where one: "one_message (ens i) ctx h msg s = (s1, eff1, resp, sid)" by (metis prod.exhaust)
  have "coherent enc (sv_registry s1) \<and> stays_in (scope_set ctx) eff1"
    using message_scoped [of enc "ens i" s ctx h msg] assms(1) Cons.prems by (simp add: one)
  moreover from this have "scoped_answer enc (scope_set ctx) (run_batch ens ctx h (Suc i) msgs s1)" using Cons.IH by blast
  ultimately show ?case by (auto simp: one scoped_answer_def case_prod_beta)
qed simp


text \<open>A relay with two endpoints and a profile that has one of them; a script that asks for a tool of the other.\<close>

definition curious_script :: engine where
  "curious_script script catalog answers = (if answers = [] then Ask (AskTool ''git__log'' ''{}'') else Finish (Inr JNull))"

definition sample_run :: "'r run_env" where
  "sample_run = \<lparr>re_engine = curious_script, re_osa = (\<lambda>a b. max (length a) (length b)), re_parse = (\<lambda>t. Inr (JObj [])),
     re_weather = (\<lambda>i. \<lparr>we_clock = (\<lambda>n. n), we_factor = (\<lambda>n. 1), we_between = (\<lambda>k r. r)\<rparr>), re_deadline = 60000,
     re_files = \<lparr>se_display = (\<lambda>e. ''error''), se_decode_base64 = Inr, se_encode_base64 = id, se_tmp_name = (\<lambda>n. ''.'' @ n @ ''.tmp'')\<rparr>,
     re_outside = \<lparr>fo_env = (\<lambda>n f. f), fo_fail = (\<lambda>n. None), fo_partial = (\<lambda>n. 0)\<rparr>,
     re_in_time = 10, re_afterwards = 0, re_timeout_secs = 60\<rparr>"

definition sample_env :: "unit message_env" where
  "sample_env = \<lparr>me_wiring = plain_wiring, me_run = sample_run, me_unicode = ascii_columns, me_distance = mismatches,
     me_toon = (\<lambda>j. None), me_pretty = (\<lambda>j. []), me_version = ''1.0.0'', me_js_mode = False, me_toon_enabled = False,
     me_write_roots = [], me_request_uid = ''u1'', me_session_id = ''s1''\<rparr>"

definition sample_server :: "unit server" where
  "sample_server = \<lparr>sv_registry = both_endpoints,
     sv_profiles = \<lparr>pr_profiles = [(''work'', profile_context_of work_profile)], pr_ticks = []\<rparr>,
     sv_sessions = with_capacity 8, sv_index = None, sv_profile_index = [],
     sv_os = \<lparr>os_fs = \<lparr>fs_nodes = [0 \<mapsto> Dir []], fs_next = 1\<rparr>, os_clock = 0, os_log = []\<rparr>\<rparr>"

definition call_message :: "u64 \<Rightarrow> string \<Rightarrow> (string \<times> json) list \<Rightarrow> json" where
  "call_message n tool arguments =
     JObj [(''jsonrpc'', JStr ''2.0''), (''id'', JNum (JPos n)), (''method'', JStr ''tools/call''),
       (''params'', JObj [(''name'', JStr tool), (''arguments'', JObj arguments)])]"

lemma sample_facts:
  "get_profile ''work'' (sv_profiles sample_server) = Some (profile_context_of work_profile)"
  "coherent pct_enc (sv_registry sample_server)" "steady_env pct_enc sample_env"
proof -
  have "to_ascii_lowercase ''work'' = ''work''"
    by (simp add: to_ascii_lowercase_def ascii_lower_def byte_def is_upper_def)
  then show "get_profile ''work'' (sv_profiles sample_server) = Some (profile_context_of work_profile)"
    by (simp add: get_profile_def sample_server_def hm_get_Cons)
  show "coherent pct_enc (sv_registry sample_server)"
    by (simp add: sample_server_def coherent_def both_endpoints_def new_registry_def two_endpoints_def tools_current_def sample_entry_def)
  show "steady_env pct_enc sample_env"
    by (simp add: steady_env_def sample_env_def world_keeps_def sample_run_def plain_wiring_def)
qed


section \<open>Well-formed answers\<close>

definition is_response :: "json \<Rightarrow> bool" where
  "is_response j =
     (json_get j ''jsonrpc'' = Some (JStr ''2.0'') \<and> json_get j ''id'' \<noteq> None \<and>
      (json_get j ''result'' \<noteq> None \<and> json_get j ''error'' = None \<or>
       json_get j ''result'' = None \<and>
         (\<exists>code message. json_get j ''error'' = Some (JObj [(''code'', error_code code), (''message'', JStr message)]))))"

definition id_of :: "json \<Rightarrow> json" where
  "id_of j = unwrap_or JNull (json_get j ''id'')"

lemma response_simps [simp]:
  "is_response (jsonrpc_response id' result)" "id_of (jsonrpc_response id' result) = unwrap_or JNull id'"
  "is_response (jsonrpc_error_message id' code message)" "id_of (jsonrpc_error_message id' code message) = unwrap_or JNull id'"
  by (auto simp: is_response_def id_of_def jsonrpc_response_def jsonrpc_error_message_def hm_get_Cons)

text \<open>What a message is answered with, if at all: its own identifier, or none for one that cannot be read.\<close>

definition answer_id :: "headers \<Rightarrow> json \<Rightarrow> json option" where
  "answer_id h msg =
     (if validate_2026_routing_headers h msg \<noteq> None then Some (id_of msg)
      else if is_notification msg then None
      else if parse_body msg = None then Some JNull else json_get msg ''id'')"

definition answers :: "json option \<Rightarrow> json \<Rightarrow> bool" where
  "answers id' j = (is_response j \<and> id_of j = unwrap_or JNull id')"

lemma answers_simps [simp]:
  "answers id' (jsonrpc_response id' result)" "answers id' (jsonrpc_error_message id' code message)"
  by (simp_all add: answers_def)

lemma call_answers:
  "answers id' (snd (snd (call_list_tools en ctx id' arguments s)))"
  "answers id' (snd (snd (call_search_tools en ctx id' arguments s)))"
  "answers id' (snd (snd (call_execute_tools en ctx id' arguments s)))"
  "answers id' (snd (snd (call_write_file en ctx id' arguments s)))"
  "answers (jb_id b) (snd (snd (call_upstream en ctx b name arguments s)))"
  by (simp_all add: call_list_tools_def call_search_tools_def call_execute_tools_def call_write_file_def call_upstream_def
      Let_def case_prod_beta split: option.split sum.split)

lemma routed_answers [simp]: "answers id' (snd (answer_routed id' er))"
  by (cases er) (simp add: answer_routed_def split: sum.split)

lemma tools_call_answers: "answers (jb_id b) (snd (snd (mcp_tools_call en ctx b s)))"
  by (simp add: mcp_tools_call_def validated_def Let_def call_answers split: option.split)

lemma list_answers:
  "answers id' (snd (mcp_tools_list en ctx id' r))" "answers id' (snd (mcp_server_discover en ctx id' r))"
  "answers (jb_id b) (snd (mcp_prompts_get en ctx b r))" "answers (jb_id b) (snd (mcp_resources_read en ctx b r))"
  by (simp_all add: mcp_tools_list_def mcp_server_discover_def mcp_prompts_get_def mcp_resources_read_def Let_def case_prod_beta
      split: option.split)

lemma dispatch_answers: "answers (jb_id b) (snd (snd (dispatch en ctx m b s)))"
  by (simp add: dispatch_def Let_def pure_def read_only_def on_registry_def case_prod_beta tools_call_answers list_answers
      mcp_initialize_def mcp_resources_list_def mcp_resource_templates_list_def mcp_prompts_list_def)

lemma handled_answers:
  "list_all is_response (case snd (snd (handle_single_message en ctx identity msg s)) of Some j \<Rightarrow> [j] | None \<Rightarrow> []) \<and>
   map_option id_of (snd (snd (handle_single_message en ctx identity msg s))) =
     (if is_notification msg then None else if parse_body msg = None then Some JNull else json_get msg ''id'')"
proof (cases "is_notification msg \<or> parse_body msg = None")
  case True
  then show ?thesis by (auto simp: handle_single_message_def)
next
  case False
  then obtain b where b: "parse_body msg = Some b" by blast
  have "jb_id b = json_get msg ''id'' \<and> json_get msg ''id'' \<noteq> None"
    using b False by (auto simp: parse_body_def non_null_def is_notification_def split: json.splits if_splits)
  then show ?thesis
    using False b dispatch_answers [of b] by (auto simp: handle_single_message_def case_prod_beta answers_def unwrap_or_def)
qed

lemma message_answers:
  assumes "one_message en ctx h msg s = (s', eff, resp, sid)"
  shows "list_all is_response (case resp of Some j \<Rightarrow> [j] | None \<Rightarrow> []) \<and> map_option id_of resp = answer_id h msg"
proof (cases "validate_2026_routing_headers h msg")
  case (Some err)
  then have "is_response err \<and> id_of err = id_of msg"
    by (auto simp: validate_2026_routing_headers_def id_of_def [of msg] Let_def split: if_splits option.splits)
  then show ?thesis using assms unfolding one_message_def Some by (auto simp: answer_id_def Some)
next
  case None
  let ?id = "resolve_identity_for_message h (me_session_id en) msg (sv_sessions s)"
  have "resp = snd (snd (handle_single_message en ctx (fst (snd ?id)) msg (s\<lparr>sv_sessions := fst ?id\<rparr>)))"
    using assms by (auto simp: one_message_def None case_prod_beta)
  then show ?thesis
    using handled_answers [of en ctx "fst (snd ?id)" msg "s\<lparr>sv_sessions := fst ?id\<rparr>"] None
    by (simp add: answer_id_def)
qed

lemma batch_answers:
  assumes "run_batch ens ctx h i msgs s = (s', eff, resps, sid)"
  shows "list_all is_response resps \<and> map id_of resps = List.map_filter (answer_id h) msgs"
  using assms
proof (induction msgs arbitrary: i s s' eff resps sid)
  case (Cons msg msgs)
  obtain s1 eff1 resp sid1 where one: "one_message (ens i) ctx h msg s = (s1, eff1, resp, sid1)" by (metis prod.exhaust)
  obtain s2 eff2 resps2 sid2 where rest: "run_batch ens ctx h (Suc i) msgs s1 = (s2, eff2, resps2, sid2)" by (metis prod.exhaust)
  show ?case
    using Cons.prems Cons.IH [OF rest] message_answers [OF one]
    by (cases resp) (auto simp: one rest List.map_filter_simps split: option.splits)
qed (simp add: List.map_filter_simps)

text \<open>C6: every body the MCP routes answer with is a JSON-RPC response with a result or an error of code and message, or a
  non-empty array of them; for a batch the identifiers of the responses are, in order, those of the messages that
  ask for an answer. A request without a body to answer gets status 202.\<close>

theorem answers_well_formed:
  assumes "mcp_unified_impl ens ctx h body s = (s', eff, resp)"
  shows "hr_body resp = None \<and> hr_status resp = 202 \<or>
    (\<exists>j. hr_body resp = Some j \<and> hr_status resp = 200 \<and> is_response j \<and> (\<forall>m. body = JObj m \<longrightarrow> answer_id h body = Some (id_of j))) \<or>
    (\<exists>msgs js. body = JArr msgs \<and> hr_body resp = Some (JArr js) \<and> hr_status resp = 200 \<and> js \<noteq> [] \<and> list_all is_response js \<and>
       map id_of js = List.map_filter (answer_id h) msgs)"
proof (cases body)
  case (JArr msgs)
  show ?thesis
  proof (cases "msgs = []")
    case True
    then show ?thesis using assms JArr by (auto simp: mcp_unified_impl_def json_response_def)
  next
    case False
    obtain s2 eff2 resps sid where run: "run_batch ens ctx h 0 msgs s = (s2, eff2, resps, sid)" by (metis prod.exhaust)
    show ?thesis
      using assms JArr False batch_answers [OF run]
      by (auto simp: mcp_unified_impl_def run json_response_def accepted_def with_session_header_def split: if_splits option.splits)
  qed
next
  case (JObj m)
  obtain s2 eff2 resp2 sid where one: "one_message (ens 0) ctx h body s = (s2, eff2, resp2, sid)" by (metis prod.exhaust)
  have "validate_2026_routing_headers h body = None \<or> resp2 = validate_2026_routing_headers h body"
    using one by (auto simp: one_message_def split: option.splits)
  then show ?thesis
    using assms JObj message_answers [OF one] one
    by (auto simp: mcp_unified_impl_def json_response_def accepted_def with_session_header_def split: option.splits)
qed (use assms in \<open>auto simp: mcp_unified_impl_def json_response_def\<close>)

theorem answers_well_formed_witness:
  "let resp = snd (snd (mcp_unified_impl (\<lambda>i. sample_env) None (\<lambda>k. None) (JArr [call_message 1 ''git__log'' []]) sample_server)) in
     hr_body resp = None \<and> hr_status resp = 202 \<or>
     (\<exists>j. hr_body resp = Some j \<and> hr_status resp = 200 \<and> is_response j) \<or>
     (\<exists>js. hr_body resp = Some (JArr js) \<and> hr_status resp = 200 \<and> js \<noteq> [] \<and> list_all is_response js \<and>
        map id_of js = List.map_filter (answer_id (\<lambda>k. None)) [call_message 1 ''git__log'' []])"
proof -
  obtain s' eff resp where "mcp_unified_impl (\<lambda>i. sample_env) None (\<lambda>k. None) (JArr [call_message 1 ''git__log'' []]) sample_server =
      (s', eff, resp)" by (metis prod.exhaust)
  from answers_well_formed [OF this] this show ?thesis by (auto simp: Let_def)
qed

section \<open>What is listed can be called\<close>

definition refused :: "json \<Rightarrow> bool" where
  "refused j = (\<exists>m. json_get j ''error'' = Some (JObj [(''code'', error_code (-32601)), (''message'', JStr m)]))"

lemma refused_simps [simp]:
  "\<not> refused (jsonrpc_response id' result)" "refused (jsonrpc_error_message id' code m) = (code = -32601)"
  by (auto simp: refused_def jsonrpc_response_def jsonrpc_error_message_def hm_get_Cons error_code_def)

definition call_body :: "json option \<Rightarrow> string \<Rightarrow> json \<Rightarrow> jsonrpc_body" where
  "call_body id' name arguments = \<lparr>jb_params = Some (JObj [(''name'', JStr name), (''arguments'', arguments)]), jb_id = id'\<rparr>"

lemma call_body_simps [simp]:
  "params_of (call_body id' name arguments) = JObj [(''name'', JStr name), (''arguments'', arguments)]"
  "str_param (JObj [(''name'', JStr name), (''arguments'', arguments)]) ''name'' = Some name" "jb_id (call_body id' name arguments) = id'"
  by (simp_all add: call_body_def params_of_def str_param_def unwrap_or_def hm_get_Cons)

lemma calls_not_refused:
  "\<not> refused (snd (snd (call_list_tools en ctx id' arguments s)))"
  "\<not> refused (snd (snd (call_search_tools en ctx id' arguments s)))"
  "\<not> refused (snd (snd (call_execute_tools en ctx id' arguments s)))"
  "\<not> refused (snd (snd (call_write_file en ctx id' arguments s)))"
  "\<not> refused (snd (snd (call_upstream en ctx b name arguments s)))"
  by (simp_all add: call_list_tools_def call_search_tools_def call_execute_tools_def call_write_file_def call_upstream_def
      Let_def case_prod_beta split: option.split sum.split)

definition relay_tools :: "string set" where
  "relay_tools = {''list_tools'', ''search_tools'', ''execute_tools'', ''write_file''}"

lemma refused_iff:
  "refused (snd (snd (mcp_tools_call en ctx (call_body id' name arguments) s))) =
     (if js_mode en ctx then name \<notin> relay_tools else name = ''execute_tools'')"
  by (simp add: mcp_tools_call_def Let_def validated_def calls_not_refused relay_tools_def split: option.split)

lemma name_of_simps [simp]:
  "name_of (tool_definition name d props required) = name" "name_of (write_file_definition roots) = ''write_file''"
  "name_of (catalog_json t) = ti_name t"
  by (simp_all add: name_of_def tool_definition_def write_file_definition_def catalog_json_def hm_get_Cons unwrap_or_def)

lemma meta_names:
  "name_of ` set (meta_tool_definitions js toon scope roots r) =
     {''list_tools'', ''search_tools''} \<union> (if js then {''execute_tools''} else {}) \<union> (if roots = [] then {} else {''write_file''})"
  by (auto simp: meta_tool_definitions_def)

lemma listed_names:
  "name_of ` set (snd (tools_listed en ctx r)) =
     {''list_tools'', ''search_tools''} \<union> (if js_mode en ctx then {''execute_tools''} else {}) \<union>
     (if me_write_roots en = [] then {} else {''write_file''}) \<union>
     (if js_mode en ctx then {} else ti_name ` set (snd (ts_catalog (source_of en ctx) r)))"
  by (auto simp: tools_listed_def Let_def case_prod_beta image_Un meta_names image_image)



section \<open>Sessions\<close>

text \<open>The session an \<^verbatim>\<open>initialize\<close> of the older protocols gets identifies its client from then on: the next message that
  carries it is attributed to the name and version the client announced, whatever headers it comes with, and an
  \<^verbatim>\<open>initialize\<close> of the new protocol gets and stores none.\<close>

theorem session_recovers_caller:
  assumes "Option.bind (json_get msg ''method'') json_str = Some ''initialize''"
    and "resolve_identity_for_message h fresh msg st = (st', identity, sid)"
    and "\<not> identity_is_empty (identity_from_initialize_params (json_get msg ''params''))"
  shows "if is_2026 (detect_inbound_dialect True (h ''mcp-protocol-version'') (json_get msg ''params''))
    then sid = None \<and> st' = st
    else sid = Some fresh \<and>
      (h2 ''mcp-session-id'' = Some fresh \<and>
       \<not> is_2026 (detect_inbound_dialect False (h2 ''mcp-protocol-version'') (json_get msg2 ''params'')) \<and>
       Option.bind (json_get msg2 ''method'') json_str \<noteq> Some ''initialize'' \<longrightarrow>
         (\<exists>st2 i. resolve_identity_for_message h2 fresh2 msg2 st' = (st2, Some i, None) \<and>
           i = merge_identity (identity_from_initialize_params (json_get msg ''params'')) (identity_from_headers h2)))"
proof (cases "is_2026 (detect_inbound_dialect True (h ''mcp-protocol-version'') (json_get msg ''params''))")
  case True
  then show ?thesis using assms(1,2) by (simp add: resolve_identity_for_message_def Let_def)
next
  case False
  let ?i = "identity_from_initialize_params (json_get msg ''params'')"
  have st': "st' = fst (insert_with_dialect fresh ?i (detect_inbound_dialect True (h ''mcp-protocol-version'') (json_get msg ''params'')) st)"
    "sid = Some fresh"
    using assms False by (auto simp: resolve_identity_for_message_def Let_def)
  have stored: "\<exists>d q. hm_get (sst_entries st') fresh = Some (?i, d, q)"
    unfolding st'(1) by (auto simp: insert_with_dialect_def Let_def case_prod_beta hm_get_insert split: option.split)
  then have got: "snd (get_identity fresh st') = Some ?i"
    by (auto simp: get_identity_def case_prod_beta)
  have "\<not> identity_is_empty (merge_identity ?i (identity_from_headers h2))"
    using assms(3) by (auto simp: identity_is_empty_def merge_identity_def option_or_def split: option.splits)
  then show ?thesis
    using False st'(2) got
    by (auto simp: resolve_identity_for_message_def resolve_inbound_identity_versioned_def resolve_inbound_identity_def
        case_prod_beta none_if_empty_def Let_def split: option.split)
qed

definition hello :: json where
  "hello = JObj [(''jsonrpc'', JStr ''2.0''), (''id'', JNum (JPos 0)), (''method'', JStr ''initialize''),
     (''params'', JObj [(''clientInfo'', JObj [(''name'', JStr ''editor''), (''version'', JStr ''1'')])])]"

theorem session_recovers_caller_witness:
  "\<exists>st' identity sid. resolve_identity_for_message (\<lambda>k. None) ''s1'' hello (with_capacity 8) = (st', identity, sid) \<and> sid = Some ''s1''"
proof -
  obtain st' identity sid where r: "resolve_identity_for_message (\<lambda>k. None) ''s1'' hello (with_capacity 8) = (st', identity, sid)"
    by (metis prod.exhaust)
  have "Option.bind (json_get hello ''method'') json_str = Some ''initialize''" by (simp add: hello_def hm_get_Cons)
  moreover have "\<not> identity_is_empty (identity_from_initialize_params (json_get hello ''params''))"
    by (simp add: hello_def identity_from_initialize_params_def identity_from_info_def identity_is_empty_def hm_get_Cons)
  moreover have "\<not> is_2026 (detect_inbound_dialect True None (json_get hello ''params''))"
    by (simp add: detect_inbound_dialect_def is_2026_def LEGACY_DEFAULT_def)
  ultimately show ?thesis using session_recovers_caller [OF _ r] r by fastforce
qed

end
