(* ===== verification/Server_Limits.thy ===== *)
theory Server_Limits
  imports Server_Safety
begin

text \<open>
  Where the inbound server differs from what its documentation says: calls of scripts lose the profile, a tool of an
  upstream is shadowed by the relay's own, a script goes on after its caller was told that it timed out, a
  notification is answered.
\<close>

section \<open>The profile of a call\<close>

definition recorded_under :: "string option \<Rightarrow> effect \<Rightarrow> bool" where
  "recorded_under profile e =
     (case e of
        SendEvent (CallStarted uid rid ts ep tr st sn p tool an client) \<Rightarrow> p = profile
      | Capture rec payloads \<Rightarrow> cr_profile rec = profile
      | _ \<Rightarrow> True)"

lemma rejection_recorded:
  "list_all (recorded_under (cs_profile (w_span w))) (fst (publish_early_rejection w tool ep tr st sn msg))"
  "list_all (recorded_under (cs_profile (w_span w))) (publish_validation_failure w tool ep tr st sn msg)"
  by (auto simp: publish_early_rejection_def publish_validation_failure_def publish_pair_def recorded_under_def)

lemma dispatch_recorded:
  "list_all (recorded_under (cs_profile (w_span w))) (fst (dispatch_tool_call w r ent ep tool arguments params))"
  by (simp add: dispatch_tool_call_def capture_record_def recorded_under_def Let_def case_prod_beta)

lemma resolved_recorded:
  "list_all (recorded_under (cs_profile (w_span w))) (fst (snd (route_resolved w c n arguments params r)))"
  by (simp add: route_resolved_def rejection_recorded dispatch_recorded Let_def case_prod_beta split: option.split)

lemma route_recorded:
  "list_all (recorded_under (cs_profile (w_span w))) (fst (snd (route_tool_call_with_request_params w n arguments params r)))"
  "list_all (recorded_under (cs_profile (w_span w))) (fst (snd (view_route_tool_call_with_request_params w allowed n arguments params r)))"
  by (simp_all add: route_tool_call_with_request_params_def view_route_tool_call_with_request_params_def view_route_with_def
      resolved_recorded case_prod_beta split: option.split)

lemma handler_recorded:
  "list_all (recorded_under (cs_profile (w_span w))) (fst (snd (ts_route (handler_source profile w) n arguments r)))"
proof -
  have view: "view_route_tool_call w allowed n arguments r = view_route_tool_call_with_request_params w allowed n arguments [] r"
    for allowed by (simp add: view_route_tool_call_def view_route_tool_call_with_request_params_def)
  show ?thesis
    using route_recorded
    by (cases profile) (simp_all add: handler_source_def global_source_def profile_source_def route_tool_call_def view)
qed

interpretation handler_record: audited_source "handler_source profile w" "\<lambda>r. True"
  "recorded_under (cs_profile (w_span w))" for profile w
  by unfold_locales (simp_all add: handler_recorded)

lemma record_field_profile:
  "cs_profile (record_field parse True False name value c) = cs_profile c"
  by (auto simp: record_field_def split: option.split)

lemma request_span_profile:
  "on_new_span parse ''request'' recorded = Some c \<Longrightarrow> cs_profile c = None"
proof -
  have "cs_profile (fold (\<lambda>(k, v). record_field parse True False k v) recorded c) = cs_profile c" for c
    by (induction recorded arbitrary: c) (auto simp: record_field_profile)
  then show "on_new_span parse ''request'' recorded = Some c \<Longrightarrow> cs_profile c = None"
    by (auto simp: on_new_span_def no_capture_def)
qed

lemma request_span_some: "\<exists>c. on_new_span parse ''request'' recorded = Some c"
  by (simp add: on_new_span_def)

lemma sandbox_span_profile: "cs_profile (sandbox_span parse show outer) = None"
proof -
  obtain recorded where "sandbox_span parse show outer = no_capture \<or>
      sandbox_span parse show outer = current_request_context [on_new_span parse ''request'' recorded]"
    unfolding sandbox_span_def Let_def by metis
  moreover obtain c where c: "on_new_span parse ''request'' recorded = Some c" using request_span_some by blast
  ultimately show ?thesis
    using request_span_profile [OF c] by (auto simp: no_capture_def current_request_context_def option_or_def)
qed

lemma message_span_profile: "cs_profile (message_span en (Some (path, c)) identity msg) = Some path"
proof -
  obtain recorded where span: "message_span en (Some (path, c)) identity msg = current_request_context
      [on_new_span (parse_json en) ''request'' recorded, on_new_span (parse_json en) ''mcp_request'' [(''profile'', path)]]"
    unfolding message_span_def Let_def by simp
  obtain d where d: "on_new_span (parse_json en) ''request'' recorded = Some d" using request_span_some by blast
  have "on_new_span (parse_json en) ''mcp_request'' [(''profile'', path)] = Some (no_capture\<lparr>cs_profile := Some path\<rparr>)"
    by (simp add: on_new_span_def record_field_def Let_def)
  then show ?thesis
    using request_span_profile [OF d] d by (simp add: span current_request_context_def no_capture_def option_or_def)
qed

text \<open>What a direct call of a profile publishes and captures carries the path of the profile, and what a script of the
  same profile causes carries none, as if it had come through the route without a profile.\<close>

theorem script_calls_unattributed:
  assumes "out = handle_single_message en (Some (path, c)) identity msg s" and "method_of msg = ''tools/call''"
    and "parse_body msg = Some b" "\<not> is_notification msg" "str_param (params_of b) ''name'' = Some name"
  shows "list_all (recorded_under (if name = ''execute_tools'' then None else Some path)) (fst (snd out))"
proof -
  let ?en = "in_span (message_span en (Some (path, c)) identity msg) en" and ?ctx = "Some (path, c)"
  have span: "cs_profile (w_span (me_wiring ?en)) = Some path" by (simp add: in_span_def message_span_profile)
  have out: "fst (snd out) = fst (snd (mcp_tools_call ?en ?ctx b s))"
    using assms by (simp add: handle_single_message_def dispatch_def case_prod_beta)
  have upstream: "list_all (recorded_under (Some path)) (fst (snd (call_upstream ?en ?ctx b name arguments s)))" for arguments
    using route_recorded(2) [of "me_wiring ?en"] span
    by (auto simp: call_upstream_def scope_of_def Let_def case_prod_beta split: sum.split)
  have script: "list_all (recorded_under None) (fst (snd (call_execute_tools ?en ?ctx id' arguments s)))" for id' arguments
  proof -
    let ?w = "(me_wiring ?en)\<lparr>w_span := sandbox_span (parse_json ?en) (w_to_string (me_wiring ?en)) (w_span (me_wiring ?en))\<rparr>"
    let ?script = "unwrap_or [] (str_param arguments ''script'')"
    have src: "sandbox_source ?en ?ctx = handler_source (scope_of ?ctx) ?w" by (simp add: sandbox_source_def Let_def)
    obtain r fs' eff res where ex: "execute (me_run ?en) (handler_source (scope_of ?ctx) ?w) (me_write_roots ?en) ?script
        (sv_registry s) (sv_os s) = (r, fs', eff, res)" by (metis prod.exhaust)
    have "list_all (recorded_under (cs_profile (w_span ?w))) eff"
      using handler_record.execute_audited [OF ex] by (simp add: world_keeps_def)
    then show ?thesis by (simp add: call_execute_tools_def src ex sandbox_span_profile)
  qed
  have none: "fst (snd (call_list_tools ?en ?ctx id' arguments s)) = []" "fst (snd (call_search_tools ?en ?ctx id' arguments s)) = []"
    "fst (snd (call_write_file ?en ?ctx id' arguments s)) = []" for id' arguments
    by (simp_all add: call_list_tools_def call_search_tools_def call_write_file_def Let_def case_prod_beta split: option.split)
  show ?thesis
    unfolding out using assms(5) script upstream
    by (simp add: mcp_tools_call_def validated_def Let_def none split: option.split)
qed

theorem script_calls_unattributed_witness:
  "list_all (recorded_under None) (fst (snd (handle_single_message sample_env (Some (''Work'', profile_context_of work_profile)) None
     (call_message 1 ''execute_tools'' [(''script'', JStr ''...'')]) sample_server)))"
proof -
  let ?msg = "call_message 1 ''execute_tools'' [(''script'', JStr ''...'')]"
  have "method_of ?msg = ''tools/call''" "\<not> is_notification ?msg"
    by (simp_all add: call_message_def method_of_def is_notification_def hm_get_Cons unwrap_or_def)
  moreover obtain b where "parse_body ?msg = Some b" "str_param (params_of b) ''name'' = Some ''execute_tools''"
    by (simp add: call_message_def parse_body_def opt_string_field_def non_null_def hm_get_Cons params_of_def str_param_def unwrap_or_def)
  ultimately show ?thesis using script_calls_unattributed [OF refl] by fastforce
qed

section \<open>A shadowed tool\<close>

text \<open>One endpoint without prefix, a file server with a tool called \<^verbatim>\<open>write_file\<close>.\<close>

definition file_server :: "unit registry" where
  "file_server = new_registry\<lparr>r_adapters := [(''fs'', (sample_entry ''fs'' [''write_file''])\<lparr>ra_tool_prefix := None\<rparr>)]\<rparr>"

lemma write_file_never_upstream: "fst (snd (mcp_tools_call en ctx (call_body id' ''write_file'' arguments) s)) = []"
  by (simp add: mcp_tools_call_def validated_def call_write_file_def Let_def case_prod_beta split: option.split)

text \<open>With a single endpoint, whose tools are listed without prefix, a tool of it that has the name of one of the
  relay's own is listed but never called: the relay answers itself, even where its own tool is neither configured nor
  listed, as for \<^verbatim>\<open>write_file\<close> without write directories.\<close>

theorem own_tool_shadows:
  "''write_file'' \<in> name_of ` set (snd (tools_listed sample_env None file_server)) \<and>
   ''write_file'' \<notin> name_of ` set (meta_tool_definitions False False None (me_write_roots sample_env) file_server) \<and>
   fst (snd (mcp_tools_call sample_env None (call_body id' ''write_file'' arguments) (s\<lparr>sv_registry := file_server\<rparr>))) = []"
proof (intro conjI)
  have "map ti_name (snd (ts_catalog (source_of sample_env None) file_server)) = [''write_file'']"
    by (simp add: source_of_def scope_of_def handler.catalog_read handler_shown_def merged_catalog_with_lookup_def file_server_def
        new_registry_def refresh_catalog_def build_catalog_def rows_of_def entry_rows_def sample_defs listing_defs skip_prefix_def
        enabled_def visible_tools_def catalog_row_def effective_prefix_def namespaced_def case_prod_beta)
  then have "''write_file'' \<in> ti_name ` set (snd (ts_catalog (source_of sample_env None) file_server))"
    by (metis list.set_intros(1) list.set_map)
  then show "''write_file'' \<in> name_of ` set (snd (tools_listed sample_env None file_server))"
    by (simp add: listed_names js_mode_def sample_env_def)
  show "''write_file'' \<notin> name_of ` set (meta_tool_definitions False False None (me_write_roots sample_env) file_server)"
    by (simp add: meta_names sample_env_def)
qed (rule write_file_never_upstream)

section \<open>A script that is not stopped\<close>

definition slow_run :: "nat run_env" where
  "slow_run = sample_run\<lparr>re_engine := (\<lambda>script catalog answers. Ask (AskTool ''fs__read'' ''{}'')), re_in_time := 1, re_afterwards := 2\<rparr>"

text \<open>A script that has made one call when its time is up is reported as timed out, and makes its other calls all the
  same: the upstream gets three.\<close>

theorem timed_out_script_goes_on:
  "execute slow_run flaky_source roots script 0 fs =
     (3, fs, replicate 3 (CallTool ''fs'' ''read'' (JObj []) []), Inl (SandboxTimeout 60))"
proof -
  have call: "call_tool_native osa (\<lambda>t. Inr (JObj [])) flaky_source ''fs__read'' ''{}'' n =
      (Suc n, [CallTool ''fs'' ''read'' (JObj []) []],
       if n < 2 then Inl (call_failed ''fs__read'' (ConnectionFailedErr ''gone'')) else Inr (JStr ''content''))" for osa n
    by (simp add: call_tool_native_def flaky_source_def sample_tool_def)
  have native: "native slow_run flaky_source i (AskTool ''fs__read'' ''{}'') st =
      (st\<lparr>ss_registry := Suc (ss_registry st)\<rparr>, [CallTool ''fs'' ''read'' (JObj []) []],
       if ss_registry st < 2 then Inl (call_failed ''fs__read'' (ConnectionFailedErr ''gone'')) else Inr (JStr ''content''))" for i st
    by (simp add: call slow_run_def sample_run_def)
  have run: "run_js slow_run flaky_source (re_engine slow_run script cat) n answers st =
      (st\<lparr>ss_registry := ss_registry st + n\<rparr>, replicate n (CallTool ''fs'' ''read'' (JObj []) []), None)" for n answers st cat
  proof (induction n arbitrary: answers st)
    case 0
    then show ?case by (subst run_js.simps) (simp add: slow_run_def)
  next
    case (Suc n)
    have "re_engine slow_run script cat answers = Ask (AskTool ''fs__read'' ''{}'')" by (simp add: slow_run_def)
    then show ?case by (subst run_js.simps) (simp add: native Suc.IH del: native.simps)
  qed
  have cat: "ts_catalog flaky_source 0 = (0, snd (ts_catalog flaky_source 0))" by (simp add: flaky_source_def)
  have "re_in_time slow_run = 1" "re_afterwards slow_run = 2" "re_timeout_secs slow_run = 60"
    by (simp_all add: slow_run_def sample_run_def)
  then show ?thesis
    by (subst execute_def, subst cat) (simp add: run Let_def eval_nat_numeral)
qed

section \<open>Notifications\<close>

text \<open>A notification is answered, with an error without identifier, when a routing header of the new protocol does not
  agree with it; otherwise it never is.\<close>

theorem notification_answered:
  "is_notification msg \<Longrightarrow> one_message en ctx h msg s = (s', eff, resp, sid) \<Longrightarrow>
     resp \<noteq> None \<longleftrightarrow> validate_2026_routing_headers h msg \<noteq> None"
  by (auto simp: one_message_def handle_single_message_def case_prod_beta split: option.splits)

end
