(* ===== verification/Login_Callback.thy ===== *)
theory Login_Callback
  imports OAuth_Flows OAuth_Refresh
begin

text \<open>
  The OAuth callback (\<^verbatim>\<open>oauth_callback\<close> in \<^verbatim>\<open>src/server.rs\<close>) on the state the login endpoints share: the
  flow manager, the token directory, the setup sessions and the OAuth adapters. The handler is cut where
  it gives other tasks time: \<open>callback_begin\<close> runs up to the token request, \<open>callback_exchanged\<close> reads the
  reply, \<open>callback_commit\<close> is the section under the endpoint's commit lock. \<open>oauth_callback\<close> composes them
  around what other tasks do meanwhile. The token endpoint's reply, the clocks, the serialisers, base64,
  the JSON parser and the UUID parser are fields of \<open>login_env\<close>. A text is its UTF-8 bytes; every
  character the handler escapes is a single byte.
\<close>

section \<open>State and environment\<close>

record 'c login_state =
  ls_flows :: "flow_manager option"
  ls_has_tm :: bool
  ls_disk :: "'c world"
  ls_setups :: "sessions option"
  ls_adapters :: "(string, oauth_config \<times> 'c oauth_adapter) hashmap option"

record 'c login_env =
  le_codec :: "'c codec"
  le_ser_idp :: "idp_credentials \<Rightarrow> 'c"
  le_key_hash :: "string \<Rightarrow> string"
  le_now :: instant_ns
  le_wall :: u64
  le_mono :: instant
  le_init :: init_outcome
  le_decode :: "string \<Rightarrow> string option"
  le_json :: "string \<Rightarrow> json option"
  le_uuid :: "string \<Rightarrow> nat option"

definition trim_end_matches :: "char \<Rightarrow> string \<Rightarrow> string" where
  "trim_end_matches c s = rev (dropWhile (\<lambda>x. x = c) (rev s))"

definition field_str :: "json \<Rightarrow> string \<Rightarrow> string option" where
  "field_str j k = Option.bind (json_get j k) json_str"

section \<open>Pages\<close>

definition escape_char :: "char \<Rightarrow> string" where
  "escape_char c =
     (if c = CHR ''&'' then ''&amp;''
      else if c = CHR ''<'' then ''&lt;''
      else if c = CHR ''>'' then ''&gt;''
      else if c = CHR 0x22 then ''&quot;''
      else if c = CHR 0x27 then ''&#x27;''
      else [c])"

definition html_escape :: "string \<Rightarrow> string" where
  "html_escape s = concat (map escape_char s)"

record html_response =
  hp_headers :: "(string \<times> string) list"
  hp_body :: string

definition oauth_html_response :: "string \<Rightarrow> html_response" where
  "oauth_html_response body =
     \<lparr>hp_headers = [(''content-type'', ''text/html; charset=utf-8''),
        (''content-security-policy'', ''default-src '' @ [CHR 0x27] @ ''none'' @ [CHR 0x27] @
           ''; style-src '' @ [CHR 0x27] @ ''unsafe-inline'' @ [CHR 0x27]),
        (''x-content-type-options'', ''nosniff''), (''referrer-policy'', ''no-referrer'')],
      hp_body = body\<rparr>"

definition page_with :: "string \<Rightarrow> string \<Rightarrow> string" where
  "page_with title message =
     ''<html><body><h1>'' @ title @ ''</h1><p>'' @ message @ ''</p><p>You can close this window.</p></body></html>''"

definition error_page :: "string \<Rightarrow> html_response" where
  "error_page message = oauth_html_response (page_with ''OAuth Error'' message)"

definition NO_OAUTH_PAGE :: html_response where
  "NO_OAUTH_PAGE =
     oauth_html_response ''<html><body><h1>OAuth Error</h1><p>OAuth not configured.</p></body></html>''"

definition SUPERSEDED_BY_RESET :: html_response where
  "SUPERSEDED_BY_RESET =
     error_page ''This login session was superseded by a reset. Please click Authorize again.''"

definition SUPERSEDED_BY_CLIENT :: html_response where
  "SUPERSEDED_BY_CLIENT = error_page
     ''This login session was superseded by a newer client registration. Please click Authorize again.''"

definition discarded_page :: "string \<Rightarrow> html_response" where
  "discarded_page endpoint = error_page
     (''The authorization server no longer recognizes this client (<code>invalid_client</code>). The stale client registration for <strong>'' @
      html_escape endpoint @ ''</strong> has been discarded '' @ utf8 [8212] @
      '' please click <em>Authorize</em> again to register a fresh client.'')"

definition idp_page :: "string \<Rightarrow> html_response" where
  "idp_page endpoint = oauth_html_response (page_with ''Login Successful''
     (''Identity provider sign-in for <strong>'' @ html_escape endpoint @
      ''</strong> is complete. The connection will finish authenticating automatically.''))"

definition SETUP_DONE_PAGE :: html_response where
  "SETUP_DONE_PAGE = oauth_html_response
     ''<html><body><h1>Authorization Successful</h1><p>You can close this window and return to the app to complete setup.</p></body></html>''"

definition SETUP_GONE_PAGE :: html_response where
  "SETUP_GONE_PAGE = error_page ''Setup session not found or expired. Please start over.''"

definition success_page :: "string \<Rightarrow> html_response" where
  "success_page endpoint = oauth_html_response (page_with ''Login Successful''
     (''Endpoint <strong>'' @ html_escape endpoint @ ''</strong> is now authenticated.''))"

section \<open>Checks and tokens\<close>

record callback_params =
  cp_code :: "string option"
  cp_state :: "string option"
  cp_error :: "string option"
  cp_iss :: "string option"

fun validate_callback_iss :: "string option \<Rightarrow> string option \<Rightarrow> bool \<Rightarrow> bool" where
  "validate_callback_iss None provided iss_supported = True"
| "validate_callback_iss (Some expected) (Some p) iss_supported = (p = expected)"
| "validate_callback_iss (Some expected) None iss_supported = (\<not> iss_supported)"

text \<open>Seconds are added in 64 bits, as a release build does.\<close>

definition expiry_of_response :: "json \<Rightarrow> u64 \<Rightarrow> u64 option" where
  "expiry_of_response token_json now_secs =
     map_option (\<lambda>secs. now_secs + secs) (Option.bind (json_get token_json ''expires_in'') json_u64)"

definition idp_id_token_expiry :: "'c login_env \<Rightarrow> string \<Rightarrow> json \<Rightarrow> u64 \<Rightarrow> u64 option" where
  "idp_id_token_expiry env id_tok token_json now_secs =
     (let exp_from_jwt =
        (case splitn 4 ''.'' id_tok of
           header # payload # sig # _ \<Rightarrow>
             Option.bind (Option.bind (le_decode env (trim_end_matches (CHR ''='') payload)) (le_json env))
               (\<lambda>claims. Option.bind (json_get claims ''exp'') json_u64)
         | _ \<Rightarrow> None)
      in option_or exp_from_jwt (expiry_of_response token_json now_secs))"

definition build_idp_credentials ::
  "'c login_env \<Rightarrow> string \<Rightarrow> json \<Rightarrow> u64 \<Rightarrow> idp_credentials option" where
  "build_idp_credentials env idp token_json now_secs =
     (let id_tok = unwrap_or [] (field_str token_json ''id_token'') in
      if id_tok = [] then None
      else Some \<lparr>idp_issuer = idp, id_token = id_tok,
        idp_refresh_token = field_str token_json ''refresh_token'',
        id_token_expires_at = idp_id_token_expiry env id_tok token_json now_secs,
        obtained_at = now_secs\<rparr>)"

definition callback_token_set :: "u64 \<Rightarrow> json \<Rightarrow> token_set" where
  "callback_token_set now_secs token_json =
     \<lparr>access_token = unwrap_or [] (field_str token_json ''access_token''),
      refresh_token = field_str token_json ''refresh_token'',
      expires_at = expiry_of_response token_json now_secs,
      token_type = unwrap_or ''Bearer'' (field_str token_json ''token_type''),
      scope = field_str token_json ''scope'',
      issued_at = Some now_secs\<rparr>"

section \<open>Before the exchange\<close>

text \<open>The record on disk names another client than the flow.\<close>

definition client_replaced :: "pending_flow \<Rightarrow> dcr_credentials option \<Rightarrow> bool" where
  "client_replaced flow current =
     (case current of Some c \<Rightarrow> client_id c \<noteq> [] \<and> client_id c \<noteq> pf_client_id flow | None \<Rightarrow> False)"

definition read_client :: "'c login_env \<Rightarrow> string \<Rightarrow> 'c login_state \<Rightarrow> token_error + dcr_credentials option" where
  "read_client env name s = load_dcr (de_dcr (le_codec env)) name (ls_disk s)"

text \<open>The superseded-flow guard; an unreadable record does not stop the login.\<close>

definition superseded :: "'c login_env \<Rightarrow> pending_flow \<Rightarrow> 'c login_state \<Rightarrow> bool" where
  "superseded env flow s =
     (pf_idp_issuer flow = None \<and> ls_has_tm s \<and>
      (case read_client env (pf_endpoint_name flow) s of
         Inr current \<Rightarrow> client_replaced flow current | Inl _ \<Rightarrow> False))"

definition exchange_form :: "string \<Rightarrow> pending_flow \<Rightarrow> (string \<times> string) list" where
  "exchange_form code flow =
     [(''grant_type'', ''authorization_code''), (''code'', code), (''redirect_uri'', pf_redirect_uri flow),
      (''client_id'', pf_client_id flow), (''code_verifier'', pf_code_verifier flow)] @
     (case pf_client_secret flow of Some secret \<Rightarrow> [(''client_secret'', secret)] | None \<Rightarrow> [])"

definition flow_current :: "pending_flow \<Rightarrow> 'c login_state \<Rightarrow> bool" where
  "flow_current flow s = (case ls_flows s of Some m \<Rightarrow> is_current flow m | None \<Rightarrow> False)"

definition issuer_mismatch_page :: "string \<Rightarrow> string option \<Rightarrow> html_response" where
  "issuer_mismatch_page expected provided = error_page
     (''Authorization response issuer mismatch (expected '' @ html_escape expected @ '', got '' @
      html_escape (unwrap_or ''<missing>'' provided) @ '').'')"

text \<open>\<open>Inr\<close>: the consumed flow and the form posted to its token endpoint.\<close>

definition callback_begin ::
  "'c login_env \<Rightarrow> callback_params \<Rightarrow> 'c login_state \<Rightarrow>
   'c login_state \<times> (html_response + pending_flow \<times> (string \<times> string) list)" where
  "callback_begin env prm s =
     (case cp_error prm of
        Some err \<Rightarrow> (s, Inl (error_page (html_escape err)))
      | None \<Rightarrow> (case cp_code prm of
        None \<Rightarrow> (s, Inl (error_page ''Missing authorization code.''))
      | Some code \<Rightarrow> (case cp_state prm of
        None \<Rightarrow> (s, Inl (error_page ''Missing state parameter.''))
      | Some state_param \<Rightarrow> (case ls_flows s of
        None \<Rightarrow> (s, Inl NO_OAUTH_PAGE)
      | Some m \<Rightarrow> (case consume_flow (le_now env) state_param m of
        (m1, None) \<Rightarrow>
          (s\<lparr>ls_flows := Some m1\<rparr>,
           Inl (error_page ''Invalid or expired login session. Please try again.''))
      | (m1, Some flow) \<Rightarrow>
          (let s1 = s\<lparr>ls_flows := Some m1\<rparr> in
           (s1,
            if \<not> flow_current flow s1 then Inl SUPERSEDED_BY_RESET
            else if \<not> validate_callback_iss (pf_issuer flow) (cp_iss prm) (pf_iss_parameter_supported flow)
            then Inl (issuer_mismatch_page (unwrap_or [] (pf_issuer flow)) (cp_iss prm))
            else if superseded env flow s1 then Inl SUPERSEDED_BY_CLIENT
            else Inr (flow, exchange_form code flow))))))))"

section \<open>The exchange\<close>

datatype exchange_reply = ExchangeFailed string | Exchanged nat "string option" "string + json"

text \<open>The self-heal: \<open>True\<close> when the rejected registration was cleared.\<close>

definition discard_rejected_client ::
  "'c login_env \<Rightarrow> pending_flow \<Rightarrow> string \<Rightarrow> 'c login_state \<Rightarrow> 'c login_state \<times> bool" where
  "discard_rejected_client env flow body s =
     (if is_invalid_client_error (le_json env) body \<and> ls_has_tm s
      then (case read_client env (pf_endpoint_name flow) s of
          Inr (Some creds) \<Rightarrow>
            (if registered_via_dcr creds
             then (case clear_dcr_requesting_client (ser_dcr (le_codec env)) (de_dcr (le_codec env))
                     (pf_endpoint_name flow) (pf_client_id flow) (ls_disk s) of
                 (d, Inr discarded) \<Rightarrow> (s\<lparr>ls_disk := d\<rparr>, discarded)
               | (d, Inl _) \<Rightarrow> (s\<lparr>ls_disk := d\<rparr>, False))
             else (s, False))
        | _ \<Rightarrow> (s, False))
      else (s, False))"

definition callback_exchanged ::
  "'c login_env \<Rightarrow> pending_flow \<Rightarrow> exchange_reply \<Rightarrow> 'c login_state \<Rightarrow> 'c login_state \<times> (html_response + json)" where
  "callback_exchanged env flow reply s =
     (case reply of
        ExchangeFailed e \<Rightarrow> (s, Inl (error_page (''Failed to exchange code: '' @ html_escape e)))
      | Exchanged status text_body parsed \<Rightarrow>
          (if \<not> (200 \<le> status \<and> status < 300)
           then (let body = unwrap_or [] text_body in
             (case discard_rejected_client env flow body s of (s1, discarded) \<Rightarrow>
               (s1, Inl (if discarded then discarded_page (pf_endpoint_name flow)
                 else error_page (''Token endpoint returned '' @ html_escape (dec_of_nat status) @ '': '' @
                   html_escape body)))))
           else (case parsed of
               Inl e \<Rightarrow> (s, Inl (error_page (''Invalid token response: '' @ html_escape e)))
             | Inr token_json \<Rightarrow>
                 (if unwrap_or [] (field_str token_json ''access_token'') = []
                  then (s, Inl (error_page ''No access_token in response.''))
                  else (s, Inr token_json)))))"

section \<open>The commit\<close>

definition commit_idp ::
  "'c login_env \<Rightarrow> pending_flow \<Rightarrow> string \<Rightarrow> json \<Rightarrow> 'c login_state \<Rightarrow> 'c login_state" where
  "commit_idp env flow idp token_json s =
     (let credential_key = unwrap_or idp (pf_idp_credential_key flow) in
      case build_idp_credentials env idp token_json (le_wall env) of
        Some creds \<Rightarrow>
          (if ls_has_tm s
           then s\<lparr>ls_disk := fst (save_idp (le_ser_idp env) (le_key_hash env) credential_key creds (ls_disk s))\<rparr>
           else s)
      | None \<Rightarrow> s)"

definition commit_setup ::
  "'c login_env \<Rightarrow> string \<Rightarrow> token_set \<Rightarrow> 'c login_state \<Rightarrow> 'c login_state \<times> html_response" where
  "commit_setup env session_id_str ts s =
     (case (le_uuid env session_id_str, ls_setups s) of
        (Some sid, Some m) \<Rightarrow>
          (case mark_authorized sid ts m of
             (m1, True) \<Rightarrow> (s\<lparr>ls_setups := Some m1\<rparr>, SETUP_DONE_PAGE)
           | (m1, False) \<Rightarrow> (s\<lparr>ls_setups := Some m1\<rparr>, SETUP_GONE_PAGE))
      | _ \<Rightarrow> (s, SETUP_GONE_PAGE))"

text \<open>
  The revalidation: \<^verbatim>\<open>update_dcr\<close> with a closure that returns the record it is given and notes whether it
  names another client. Its own error is dropped.
\<close>

definition revalidate ::
  "'c login_env \<Rightarrow> pending_flow \<Rightarrow> 'c login_state \<Rightarrow> 'c login_state \<times> bool" where
  "revalidate env flow s =
     (let name = pf_endpoint_name flow;
          mismatch = (case read_client env name s of
              Inr current \<Rightarrow> client_replaced flow current | Inl _ \<Rightarrow> False)
      in (s\<lparr>ls_disk := fst (update_dcr (ser_dcr (le_codec env)) (de_dcr (le_codec env)) name Inr (ls_disk s))\<rparr>,
          mismatch))"

text \<open>The running adapter takes the tokens through its own apply, on the same directory.\<close>

definition apply_to_adapter ::
  "'c login_env \<Rightarrow> pending_flow \<Rightarrow> token_set \<Rightarrow> 'c login_state \<Rightarrow> 'c login_state" where
  "apply_to_adapter env flow ts s =
     (case ls_adapters s of
        None \<Rightarrow> s
      | Some inners \<Rightarrow> (case hm_get inners (pf_endpoint_name flow) of
            None \<Rightarrow> s
          | Some (cfg, inner) \<Rightarrow>
              (let a1 = set_token_endpoint_override (pf_token_endpoint flow) (inner\<lparr>disk := ls_disk s\<rparr>);
                   a2 = set_client_credentials (pf_client_id flow) (pf_client_secret flow) a1;
                   a3 = fst (apply_tokens_inner (le_codec env) cfg (le_wall env) (le_mono env) ts None
                          (le_init env) a2)
               in s\<lparr>ls_adapters := Some (hm_insert (pf_endpoint_name flow) (cfg, a3) inners),
                    ls_disk := disk a3\<rparr>)))"

definition commit_endpoint ::
  "'c login_env \<Rightarrow> pending_flow \<Rightarrow> token_set \<Rightarrow> 'c login_state \<Rightarrow> 'c login_state \<times> html_response" where
  "commit_endpoint env flow ts s =
     (let finish = (\<lambda>s. (apply_to_adapter env flow ts s, success_page (pf_endpoint_name flow))) in
      if ls_has_tm s
      then (case revalidate env flow s of
          (s1, True) \<Rightarrow> (s1, SUPERSEDED_BY_CLIENT)
        | (s1, False) \<Rightarrow>
            finish (s1\<lparr>ls_disk := fst (save_tokens (ser_tokens (le_codec env)) (pf_endpoint_name flow) ts (ls_disk s1))\<rparr>))
      else finish s)"

definition callback_commit ::
  "'c login_env \<Rightarrow> pending_flow \<Rightarrow> json \<Rightarrow> 'c login_state \<Rightarrow> 'c login_state \<times> html_response" where
  "callback_commit env flow token_json s =
     (let ts = callback_token_set (le_wall env) token_json in
      if \<not> flow_current flow s then (s, SUPERSEDED_BY_RESET)
      else case pf_idp_issuer flow of
        Some idp \<Rightarrow> (commit_idp env flow idp token_json s, idp_page (pf_endpoint_name flow))
      | None \<Rightarrow> (case strip_prefix ''setup:'' (pf_endpoint_name flow) of
            Some session_id_str \<Rightarrow> commit_setup env session_id_str ts s
          | None \<Rightarrow> commit_endpoint env flow ts s))"

text \<open>
  \<open>meanwhile\<close> is what other tasks do to the state during the exchange, \<open>waiting\<close> what they do until this
  task holds the commit lock.
\<close>

definition oauth_callback ::
  "'c login_env \<Rightarrow> callback_params \<Rightarrow> exchange_reply \<Rightarrow> ('c login_state \<Rightarrow> 'c login_state) \<Rightarrow>
   ('c login_state \<Rightarrow> 'c login_state) \<Rightarrow> 'c login_state \<Rightarrow> 'c login_state \<times> html_response" where
  "oauth_callback env prm reply meanwhile waiting s =
     (case callback_begin env prm s of
        (s1, Inl page) \<Rightarrow> (s1, page)
      | (s1, Inr (flow, form)) \<Rightarrow>
          (case callback_exchanged env flow reply (meanwhile s1) of
             (s2, Inl page) \<Rightarrow> (s2, page)
           | (s2, Inr token_json) \<Rightarrow> callback_commit env flow token_json (waiting s2)))"

end
