(* ===== verification/Discovery.thy ===== *)
theory Discovery
  imports Addresses Protocol
begin

text \<open>
  OAuth discovery (\<^verbatim>\<open>src/oauth/discovery.rs\<close>) and dynamic client registration (\<^verbatim>\<open>src/oauth/dcr.rs\<close>): the
  well-known locations, the order in which they are probed, the issuer check on each reply, and the
  classification of failures. The url crate, name resolution and the HTTP client are fields of
  \<open>oauth_net\<close>; a reply is a status and the JSON its body decodes to. Serde's reading of the metadata is
  written out for objects. Decoding failures and texts of the HTTP client carry no more than the code
  asks of them.
\<close>

section \<open>Failures\<close>

record http_error =
  he_timeout :: bool
  he_connect :: bool
  he_status :: "nat option"

datatype discovery_error =
    MetadataNotFound string
  | NoAuthorizationServer
  | AuthServerMetadataNotFound string
  | S256NotSupported
  | HttpFailure http_error
  | DiscoveryTimeout nat
  | UrlGuardRejected url_guard_error

fun is_transient :: "discovery_error \<Rightarrow> bool" where
  "is_transient (DiscoveryTimeout _) = True"
| "is_transient (HttpFailure e) =
     (he_timeout e \<or> he_connect e \<or>
      (case he_status e of Some status \<Rightarrow> 500 \<le> status \<and> status < 600 | None \<Rightarrow> False))"
| "is_transient (UrlGuardRejected (ResolveFailed _ _)) = True"
| "is_transient (UrlGuardRejected (NoAddresses _)) = True"
| "is_transient _ = False"

text \<open>The messages; \<open>show_http\<close> and \<open>show_ip\<close> are the texts of the client's errors and of addresses.\<close>

definition INSECURE_HINT :: string where
  "INSECURE_HINT = '' (set relay.allow_insecure_oauth=true to permit ''"

fun show_url_guard_error :: "(ip \<Rightarrow> string) \<Rightarrow> url_guard_error \<Rightarrow> string" where
  "show_url_guard_error show_ip (InvalidUrl url) = ''OAuth URL is not absolute or has no host: '' @ url"
| "show_url_guard_error show_ip (SchemeNotAllowed scheme url) =
     ''OAuth URL scheme '' @ [CHR 0x27] @ scheme @ [CHR 0x27] @ '' is not allowed'' @ INSECURE_HINT @
     ''http://): '' @ url"
| "show_url_guard_error show_ip (AddressNotAllowed addr h) =
     ''OAuth URL resolves to disallowed address '' @ show_ip addr @ '' for host '' @ [CHR 0x27] @ h @
     [CHR 0x27] @ INSECURE_HINT @ ''loopback/link-local during development)''"
| "show_url_guard_error show_ip (ResolveFailed h source) =
     ''Failed to resolve OAuth URL host '' @ [CHR 0x27] @ h @ [CHR 0x27] @ '': '' @ source"
| "show_url_guard_error show_ip (NoAddresses h) =
     ''DNS resolution returned no addresses for host '' @ [CHR 0x27] @ h @ [CHR 0x27]"

fun show_discovery_error :: "(http_error \<Rightarrow> string) \<Rightarrow> (ip \<Rightarrow> string) \<Rightarrow> discovery_error \<Rightarrow> string" where
  "show_discovery_error show_http show_ip (MetadataNotFound url) =
     ''Protected resource metadata not found at '' @ url @ '' '' @ utf8 [8212] @
     '' server may not support RFC 9728. Provide oauth_server_url manually.''"
| "show_discovery_error show_http show_ip NoAuthorizationServer =
     ''No authorization servers listed in protected resource metadata''"
| "show_discovery_error show_http show_ip (AuthServerMetadataNotFound url) =
     ''Authorization server metadata not found at '' @ url"
| "show_discovery_error show_http show_ip S256NotSupported =
     ''Authorization server does not support S256 PKCE code challenge method''"
| "show_discovery_error show_http show_ip (HttpFailure e) = ''Discovery HTTP error: '' @ show_http e"
| "show_discovery_error show_http show_ip (DiscoveryTimeout n) =
     ''Discovery timed out after '' @ dec_of_nat n @ ''s''"
| "show_discovery_error show_http show_ip (UrlGuardRejected e) =
     ''Discovery URL rejected by SSRF guard: '' @ show_url_guard_error show_ip e"

section \<open>Metadata\<close>

record resource_metadata =
  rm_resource :: string
  rm_authorization_servers :: "string list"
  rm_bearer_methods_supported :: "string list"
  rm_scopes_supported :: "string list"

record auth_server_metadata =
  asm_issuer :: string
  asm_authorization_endpoint :: string
  asm_token_endpoint :: string
  asm_registration_endpoint :: "string option"
  asm_scopes_supported :: "string list"
  asm_response_types_supported :: "string list"
  asm_grant_types_supported :: "string list"
  asm_code_challenge_methods_supported :: "string list"
  asm_token_endpoint_auth_methods_supported :: "string list"
  asm_revocation_endpoint :: "string option"
  asm_iss_parameter_supported :: bool
  asm_client_id_metadata_document_supported :: bool

record discovery_result =
  dr_auth_server_url :: string
  dr_issuer :: string
  dr_authorization_endpoint :: string
  dr_token_endpoint :: string
  dr_registration_endpoint :: "string option"
  dr_scopes_supported :: "string list"
  dr_code_challenge_methods_supported :: "string list"
  dr_token_endpoint_auth_methods :: "string list"
  dr_revocation_endpoint :: "string option"
  dr_iss_parameter_supported :: bool
  dr_client_id_metadata_document_supported :: bool

text \<open>One field each: required, optional, defaulted.\<close>

definition read_string :: "json \<Rightarrow> string \<Rightarrow> string option" where
  "read_string j k = Option.bind (json_get j k) json_str"

definition read_optional :: "json \<Rightarrow> string \<Rightarrow> string option option" where
  "read_optional j k =
     (case json_get j k of
        None \<Rightarrow> Some None | Some JNull \<Rightarrow> Some None | Some (JStr s) \<Rightarrow> Some (Some s) | Some _ \<Rightarrow> None)"

fun string_items :: "json list \<Rightarrow> string list option" where
  "string_items [] = Some []"
| "string_items (JStr s # js) = map_option ((#) s) (string_items js)"
| "string_items (_ # js) = None"

definition read_strings :: "json \<Rightarrow> string \<Rightarrow> string list option" where
  "read_strings j k = Option.bind (Option.bind (json_get j k) json_arr) string_items"

definition read_strings_default :: "json \<Rightarrow> string \<Rightarrow> string list option" where
  "read_strings_default j k = (if json_get j k = None then Some [] else read_strings j k)"

definition read_bool_default :: "json \<Rightarrow> string \<Rightarrow> bool option" where
  "read_bool_default j k = (case json_get j k of None \<Rightarrow> Some False | Some b \<Rightarrow> json_bool b)"

definition parse_resource_metadata :: "json \<Rightarrow> resource_metadata option" where
  "parse_resource_metadata j =
     (case (read_string j ''resource'', read_strings j ''authorization_servers'',
        read_strings_default j ''bearer_methods_supported'', read_strings_default j ''scopes_supported'') of
        (Some r, Some a, Some b, Some s) \<Rightarrow>
          Some \<lparr>rm_resource = r, rm_authorization_servers = a, rm_bearer_methods_supported = b,
            rm_scopes_supported = s\<rparr>
      | _ \<Rightarrow> None)"

definition parse_auth_server_metadata :: "json \<Rightarrow> auth_server_metadata option" where
  "parse_auth_server_metadata j =
     (case (read_string j ''issuer'', read_string j ''authorization_endpoint'', read_string j ''token_endpoint'',
        read_optional j ''registration_endpoint'', read_optional j ''revocation_endpoint'') of
        (Some iss, Some ae, Some te, Some re, Some rv) \<Rightarrow>
          (case (read_strings_default j ''scopes_supported'', read_strings_default j ''response_types_supported'',
             read_strings_default j ''grant_types_supported'',
             read_strings_default j ''code_challenge_methods_supported'',
             read_strings_default j ''token_endpoint_auth_methods_supported'') of
             (Some sc, Some rt, Some gt, Some cm, Some am) \<Rightarrow>
               (case (read_bool_default j ''authorization_response_iss_parameter_supported'',
                  read_bool_default j ''client_id_metadata_document_supported'') of
                  (Some ip, Some cd) \<Rightarrow>
                    Some \<lparr>asm_issuer = iss, asm_authorization_endpoint = ae, asm_token_endpoint = te,
                      asm_registration_endpoint = re, asm_scopes_supported = sc, asm_response_types_supported = rt,
                      asm_grant_types_supported = gt, asm_code_challenge_methods_supported = cm,
                      asm_token_endpoint_auth_methods_supported = am, asm_revocation_endpoint = rv,
                      asm_iss_parameter_supported = ip, asm_client_id_metadata_document_supported = cd\<rparr>
                | _ \<Rightarrow> None)
           | _ \<Rightarrow> None)
      | _ \<Rightarrow> None)"

section \<open>Well-known locations\<close>

text \<open>What the url crate reads of an address: the guard's view, the ASCII origin and the path.\<close>

record url_view =
  uv_guard :: parsed_url
  uv_origin :: string
  uv_path :: string

record oauth_net =
  on_parse :: "string \<Rightarrow> url_view option"
  on_lookup :: "string \<Rightarrow> u16 \<Rightarrow> string + (ip \<times> u16) list"
  on_get :: "pinned_target \<Rightarrow> string \<Rightarrow> http_error + nat \<times> (http_error + json)"
  on_post :: "pinned_target \<Rightarrow> string \<Rightarrow> json \<Rightarrow> http_error + nat \<times> string option \<times> (http_error + json)"

definition trim_slashes_end :: "string \<Rightarrow> string" where
  "trim_slashes_end s = rev (dropWhile (\<lambda>c. c = CHR 0x2F) (rev s))"

definition trim_slashes_both :: "string \<Rightarrow> string" where
  "trim_slashes_both s = trim_slashes_end (dropWhile (\<lambda>c. c = CHR 0x2F) s)"

definition build_well_known_url :: "oauth_net \<Rightarrow> string \<Rightarrow> string \<Rightarrow> discovery_error + string" where
  "build_well_known_url net base_url suffix =
     (case on_parse net base_url of
        None \<Rightarrow> Inl (MetadataNotFound base_url)
      | Some parsed \<Rightarrow>
          (let original_path = trim_slashes_both (uv_path parsed); origin = uv_origin parsed in
           if original_path = [] then Inr (origin @ ''/.well-known/'' @ suffix)
           else Inr (origin @ ''/.well-known/'' @ suffix @ ''/'' @ original_path)))"

definition build_well_known_url_root :: "oauth_net \<Rightarrow> string \<Rightarrow> string \<Rightarrow> discovery_error + string" where
  "build_well_known_url_root net base_url suffix =
     (case on_parse net base_url of
        None \<Rightarrow> Inl (MetadataNotFound base_url)
      | Some parsed \<Rightarrow> Inr (uv_origin parsed @ ''/.well-known/'' @ suffix))"

definition build_openid_configuration_url :: "oauth_net \<Rightarrow> string \<Rightarrow> discovery_error + string" where
  "build_openid_configuration_url net base_url =
     (case on_parse net base_url of
        None \<Rightarrow> Inl (MetadataNotFound base_url)
      | Some parsed \<Rightarrow>
          (let original_path = trim_slashes_both (uv_path parsed); origin = uv_origin parsed in
           if original_path = [] then Inr (origin @ ''/.well-known/openid-configuration'')
           else Inr (origin @ ''/'' @ original_path @ ''/.well-known/openid-configuration'')))"

definition has_path :: "oauth_net \<Rightarrow> string \<Rightarrow> bool" where
  "has_path net base_url =
     (case on_parse net base_url of Some u \<Rightarrow> trim_slashes_both (uv_path u) \<noteq> [] | None \<Rightarrow> False)"

definition normalize_issuer :: "string \<Rightarrow> string" where
  "normalize_issuer issuer = unwrap_or issuer (strip_suffix ''/'' issuer)"

section \<open>Fetching\<close>

definition validated_client :: "oauth_net \<Rightarrow> string \<Rightarrow> bool \<Rightarrow> url_guard_error + pinned_target" where
  "validated_client net url allow_insecure =
     validate_and_resolve (\<lambda>u. map_option uv_guard (on_parse net u)) (on_lookup net) url allow_insecure"

text \<open>\<open>error_for_status\<close>: a 4xx or 5xx reply is an error that carries its status.\<close>

definition fetch_well_known :: "oauth_net \<Rightarrow> pinned_target \<Rightarrow> string \<Rightarrow> discovery_error + (http_error + json)" where
  "fetch_well_known net client url =
     (case on_get net client url of
        Inl e \<Rightarrow> Inl (if he_timeout e then DiscoveryTimeout 10 else HttpFailure e)
      | Inr (status, body) \<Rightarrow>
          (if status = 404 then Inl (MetadataNotFound url)
           else if 400 \<le> status \<and> status < 600
           then Inl (HttpFailure \<lparr>he_timeout = False, he_connect = False, he_status = Some status\<rparr>)
           else Inr body))"

text \<open>A body that is not the expected document is a decoding error of the client.\<close>

definition decode_error :: http_error where
  "decode_error = \<lparr>he_timeout = False, he_connect = False, he_status = None\<rparr>"

definition body_as :: "(json \<Rightarrow> 'a option) \<Rightarrow> http_error + json \<Rightarrow> discovery_error + 'a" where
  "body_as parse body =
     (case body of
        Inl e \<Rightarrow> Inl (HttpFailure e)
      | Inr j \<Rightarrow> (case parse j of Some x \<Rightarrow> Inr x | None \<Rightarrow> Inl (HttpFailure decode_error)))"

section \<open>The authorization server\<close>

definition add_candidate :: "string \<Rightarrow> string \<Rightarrow> (string \<times> string) list \<Rightarrow> (string \<times> string) list" where
  "add_candidate url expected candidates =
     (if url \<in> fst ` set candidates then candidates else candidates @ [(url, expected)])"

text \<open>The locations in probing order, each with the issuer its document must name.\<close>

definition as_candidates :: "oauth_net \<Rightarrow> string \<Rightarrow> discovery_error + (string \<times> string) list" where
  "as_candidates net auth_server_url =
     (let err = Inl (AuthServerMetadataNotFound auth_server_url) in
      case on_parse net auth_server_url of
        None \<Rightarrow> err
      | Some parsed \<Rightarrow>
          (let origin = uv_origin parsed;
               input_path = trim_slashes_end (uv_path parsed);
               input_issuer = (if input_path = [] then origin else origin @ input_path)
           in (case (build_well_known_url net auth_server_url ''oauth-authorization-server'',
                build_well_known_url_root net auth_server_url ''oauth-authorization-server'',
                build_openid_configuration_url net auth_server_url,
                build_well_known_url_root net auth_server_url ''openid-configuration'') of
                (Inr as_path_insert, Inr as_root, Inr oidc_append, Inr oidc_root) \<Rightarrow>
                  Inr (add_candidate oidc_root origin
                    (add_candidate oidc_append input_issuer
                      (add_candidate as_root origin [(as_path_insert, input_issuer)])))
              | _ \<Rightarrow> err)))"

text \<open>\<open>Inr (Inl url)\<close>: every candidate missed, \<open>url\<close> the last to do so.\<close>

fun probe_candidates ::
  "oauth_net \<Rightarrow> pinned_target \<Rightarrow> string \<Rightarrow> (string \<times> string) list \<Rightarrow>
   discovery_error + (string + auth_server_metadata)" where
  "probe_candidates net client last_missed [] = Inr (Inl last_missed)"
| "probe_candidates net client last_missed ((candidate, expected_issuer) # cs) =
     (case fetch_well_known net client candidate of
        Inr body \<Rightarrow> (case body_as parse_auth_server_metadata body of
            Inl e \<Rightarrow> Inl e
          | Inr meta \<Rightarrow>
              (if normalize_issuer (asm_issuer meta) \<noteq> normalize_issuer expected_issuer
               then probe_candidates net client candidate cs
               else Inr (Inr meta)))
      | Inl (MetadataNotFound url) \<Rightarrow> probe_candidates net client url cs
      | Inl e \<Rightarrow> Inl e)"

definition discover_authorization_server :: "oauth_net \<Rightarrow> string \<Rightarrow> bool \<Rightarrow> discovery_error + discovery_result" where
  "discover_authorization_server net auth_server_url allow_insecure =
     (case as_candidates net auth_server_url of
        Inl e \<Rightarrow> Inl e
      | Inr candidates \<Rightarrow>
          (let as_path_insert = fst (hd candidates) in
           case validated_client net as_path_insert allow_insecure of
             Inl e \<Rightarrow> Inl (UrlGuardRejected e)
           | Inr client \<Rightarrow> (case probe_candidates net client as_path_insert candidates of
               Inl e \<Rightarrow> Inl e
             | Inr (Inl last_not_found) \<Rightarrow> Inl (AuthServerMetadataNotFound last_not_found)
             | Inr (Inr m) \<Rightarrow>
                 (if asm_code_challenge_methods_supported m \<noteq> [] \<and>
                     ''S256'' \<notin> set (asm_code_challenge_methods_supported m)
                  then Inl S256NotSupported
                  else Inr \<lparr>dr_auth_server_url = auth_server_url, dr_issuer = asm_issuer m,
                    dr_authorization_endpoint = asm_authorization_endpoint m,
                    dr_token_endpoint = asm_token_endpoint m,
                    dr_registration_endpoint = asm_registration_endpoint m,
                    dr_scopes_supported = asm_scopes_supported m,
                    dr_code_challenge_methods_supported = asm_code_challenge_methods_supported m,
                    dr_token_endpoint_auth_methods = asm_token_endpoint_auth_methods_supported m,
                    dr_revocation_endpoint = asm_revocation_endpoint m,
                    dr_iss_parameter_supported = asm_iss_parameter_supported m,
                    dr_client_id_metadata_document_supported =
                      asm_client_id_metadata_document_supported m\<rparr>))))"

section \<open>The protected resource\<close>

definition first_authorization_server ::
  "oauth_net \<Rightarrow> bool \<Rightarrow> resource_metadata \<Rightarrow> discovery_error + discovery_result" where
  "first_authorization_server net allow_insecure meta =
     (case rm_authorization_servers meta of
        [] \<Rightarrow> Inl NoAuthorizationServer
      | auth_server_url # _ \<Rightarrow> discover_authorization_server net auth_server_url allow_insecure)"

definition discover_oauth_server :: "oauth_net \<Rightarrow> string \<Rightarrow> bool \<Rightarrow> discovery_error + discovery_result" where
  "discover_oauth_server net resource_url allow_insecure =
     and_then (build_well_known_url net resource_url ''oauth-protected-resource'') (\<lambda>well_known_url.
     case validated_client net well_known_url allow_insecure of
       Inl e \<Rightarrow> Inl (UrlGuardRejected e)
     | Inr client \<Rightarrow>
         and_then
           (case fetch_well_known net client well_known_url of
              Inr body \<Rightarrow> body_as parse_resource_metadata body
            | Inl (MetadataNotFound url) \<Rightarrow>
                (if has_path net resource_url
                 then and_then (build_well_known_url_root net resource_url ''oauth-protected-resource'')
                   (\<lambda>root_url. case fetch_well_known net client root_url of
                      Inl _ \<Rightarrow> Inl (MetadataNotFound well_known_url)
                    | Inr body \<Rightarrow> body_as parse_resource_metadata body)
                 else Inl (MetadataNotFound url))
            | Inl e \<Rightarrow> Inl e)
           (first_authorization_server net allow_insecure))"

definition discover_oauth_server_from_metadata ::
  "oauth_net \<Rightarrow> string \<Rightarrow> bool \<Rightarrow> discovery_error + discovery_result" where
  "discover_oauth_server_from_metadata net resource_metadata_url allow_insecure =
     (case validated_client net resource_metadata_url allow_insecure of
        Inl e \<Rightarrow> Inl (UrlGuardRejected e)
      | Inr client \<Rightarrow>
          and_then (fetch_well_known net client resource_metadata_url) (\<lambda>body.
          and_then (body_as parse_resource_metadata body) (first_authorization_server net allow_insecure)))"

section \<open>Dynamic client registration\<close>

record client_registration =
  cr_client_id :: string
  cr_client_secret :: "string option"
  cr_client_secret_expires_at :: u64

datatype dcr_error = RegistrationFailed nat string | DcrHttp http_error | DcrUrlGuard url_guard_error

fun show_dcr_error :: "(http_error \<Rightarrow> string) \<Rightarrow> (ip \<Rightarrow> string) \<Rightarrow> dcr_error \<Rightarrow> string" where
  "show_dcr_error show_http show_ip (RegistrationFailed status body) =
     ''Dynamic Client Registration failed ('' @ dec_of_nat status @ ''): '' @ body"
| "show_dcr_error show_http show_ip (DcrHttp e) = ''DCR HTTP error: '' @ show_http e"
| "show_dcr_error show_http show_ip (DcrUrlGuard e) =
     ''DCR URL rejected by SSRF guard: '' @ show_url_guard_error show_ip e"

definition registration_request :: "string \<Rightarrow> string \<Rightarrow> json" where
  "registration_request redirect_uri endpoint_name =
     JObj [(''client_name'', JStr (''Endara Relay '' @ utf8 [8212] @ '' '' @ endpoint_name)),
       (''redirect_uris'', JArr [JStr redirect_uri]),
       (''grant_types'', JArr [JStr ''authorization_code'', JStr ''refresh_token'']),
       (''response_types'', JArr [JStr ''code'']),
       (''token_endpoint_auth_method'', JStr ''none''),
       (''application_type'', JStr ''native'')]"

definition parse_registration :: "json \<Rightarrow> client_registration option" where
  "parse_registration j =
     (case (read_string j ''client_id'', read_optional j ''client_secret'', read_optional j ''client_name'',
        case json_get j ''client_secret_expires_at'' of None \<Rightarrow> Some 0 | Some n \<Rightarrow> json_u64 n) of
        (Some cid, Some secret, Some _, Some expires) \<Rightarrow>
          Some \<lparr>cr_client_id = cid, cr_client_secret = secret, cr_client_secret_expires_at = expires\<rparr>
      | _ \<Rightarrow> None)"

definition register_client ::
  "oauth_net \<Rightarrow> string \<Rightarrow> string \<Rightarrow> string \<Rightarrow> bool \<Rightarrow> dcr_error + client_registration" where
  "register_client net registration_endpoint redirect_uri endpoint_name allow_insecure =
     (case validated_client net registration_endpoint allow_insecure of
        Inl e \<Rightarrow> Inl (DcrUrlGuard e)
      | Inr client \<Rightarrow>
          (case on_post net client registration_endpoint (registration_request redirect_uri endpoint_name) of
             Inl e \<Rightarrow> Inl (DcrHttp e)
           | Inr (status, text_body, body) \<Rightarrow>
               (if status = 400 then Inl (RegistrationFailed 400 (unwrap_or [] text_body))
                else if 400 \<le> status \<and> status < 600
                then Inl (DcrHttp \<lparr>he_timeout = False, he_connect = False, he_status = Some status\<rparr>)
                else case body of
                  Inl e \<Rightarrow> Inl (DcrHttp e)
                | Inr j \<Rightarrow> (case parse_registration j of
                    Some r \<Rightarrow> Inr r | None \<Rightarrow> Inl (DcrHttp decode_error)))))"

section \<open>What discovery establishes\<close>

text \<open>The reply of one location is accepted.\<close>

definition accepts :: "oauth_net \<Rightarrow> pinned_target \<Rightarrow> string \<times> string \<Rightarrow> auth_server_metadata \<Rightarrow> bool" where
  "accepts net client c m =
     (\<exists>body. fetch_well_known net client (fst c) = Inr body \<and>
        body_as parse_auth_server_metadata body = Inr m \<and>
        normalize_issuer (asm_issuer m) = normalize_issuer (snd c))"

text \<open>The location has no document, or one of another issuer.\<close>

definition misses :: "oauth_net \<Rightarrow> pinned_target \<Rightarrow> string \<times> string \<Rightarrow> bool" where
  "misses net client c =
     ((\<exists>url. fetch_well_known net client (fst c) = Inl (MetadataNotFound url)) \<or>
      (\<exists>body m. fetch_well_known net client (fst c) = Inr body \<and>
        body_as parse_auth_server_metadata body = Inr m \<and>
        normalize_issuer (asm_issuer m) \<noteq> normalize_issuer (snd c)))"

lemma probe_accepts:
  assumes "probe_candidates net client l cs = Inr (Inr m)"
  shows "\<exists>before c after. cs = before @ c # after \<and> accepts net client c m \<and>
    list_all (misses net client) before"
  using assms
proof (induction cs arbitrary: l)
  case Nil
  then show ?case by simp
next
  case (Cons c cs)
  obtain candidate expected where c: "c = (candidate, expected)" by fastforce
  show ?case
  proof (cases "accepts net client c m")
    case True
    then have "c # cs = [] @ c # cs \<and> accepts net client c m \<and> list_all (misses net client) []" by simp
    then show ?thesis by blast
  next
    case False
    then have miss: "misses net client c" and "\<exists>l'. probe_candidates net client l' cs = Inr (Inr m)"
      using Cons.prems unfolding misses_def accepts_def c
      by (auto split: sum.splits discovery_error.splits if_splits)
    then obtain l' where "probe_candidates net client l' cs = Inr (Inr m)" by blast
    from Cons.IH [OF this] obtain before d after where "cs = before @ d # after"
        "accepts net client d m" "list_all (misses net client) before" by blast
    with miss have "c # cs = (c # before) @ d # after \<and> accepts net client d m \<and>
        list_all (misses net client) (c # before)" by simp
    then show ?thesis by blast
  qed
qed

lemma candidates_of_origin:
  assumes "as_candidates net url = Inr cs"
  shows "\<exists>parsed. on_parse net url = Some parsed \<and> (\<forall>c \<in> set cs. starts_with (uv_origin parsed) (fst c))"
proof -
  from assms obtain parsed where p: "on_parse net url = Some parsed"
    by (cases "on_parse net url") (auto simp: as_candidates_def)
  let ?ok = "\<lambda>cs :: (string \<times> string) list. \<forall>c \<in> set cs. starts_with (uv_origin parsed) (fst c)"
  have add: "?ok (add_candidate u e cs)" if "starts_with (uv_origin parsed) u" "?ok cs" for u e cs
    using that by (auto simp: add_candidate_def)
  have urls: "build_well_known_url net url suffix = Inr u \<Longrightarrow> starts_with (uv_origin parsed) u"
    "build_well_known_url_root net url suffix = Inr u \<Longrightarrow> starts_with (uv_origin parsed) u"
    "build_openid_configuration_url net url = Inr u \<Longrightarrow> starts_with (uv_origin parsed) u" for suffix u
    by (auto simp: build_well_known_url_def build_well_known_url_root_def build_openid_configuration_url_def p
        Let_def starts_with_iff split: if_splits)
  from assms obtain u1 u2 u3 u4 iss where cs: "cs = add_candidate u4 (uv_origin parsed)
      (add_candidate u3 iss (add_candidate u2 (uv_origin parsed) [(u1, iss)]))"
    and u: "starts_with (uv_origin parsed) u1" "starts_with (uv_origin parsed) u2"
      "starts_with (uv_origin parsed) u3" "starts_with (uv_origin parsed) u4"
    unfolding as_candidates_def Let_def p by (auto simp: urls split: sum.splits)
  have "?ok cs" unfolding cs by (intro add u) (simp add: u)
  with p show ?thesis by blast
qed

text \<open>C12: a server that discovery returns is the first acceptable one: every location before it had no document or
  one of another issuer; its own document names, up to a trailing slash, the issuer expected at that location;
  all locations are on the origin of the address asked for, which
  the guard admitted; the server does not refuse S256; and what is returned is that
  document, labelled with the address asked for.\<close>

theorem discovery_issuer_bound:
  assumes "discover_authorization_server net url allow_insecure = Inr r"
  shows "\<exists>parsed client before c after m. as_candidates net url = Inr (before @ c # after) \<and>
    on_parse net url = Some parsed \<and>
    (\<forall>c' \<in> set (before @ c # after). starts_with (uv_origin parsed) (fst c')) \<and>
    validated_client net (fst (hd (before @ c # after))) allow_insecure = Inr client \<and>
    list_all (misses net client) before \<and> accepts net client c m \<and>
    normalize_issuer (dr_issuer r) = normalize_issuer (snd c) \<and>
    dr_auth_server_url r = url \<and> dr_issuer r = asm_issuer m \<and>
    dr_authorization_endpoint r = asm_authorization_endpoint m \<and> dr_token_endpoint r = asm_token_endpoint m \<and>
    dr_registration_endpoint r = asm_registration_endpoint m \<and>
    (asm_code_challenge_methods_supported m = [] \<or> ''S256'' \<in> set (asm_code_challenge_methods_supported m))"
proof -
  from assms obtain cs client m where
      cs: "as_candidates net url = Inr cs"
    and client: "validated_client net (fst (hd cs)) allow_insecure = Inr client"
    and m: "probe_candidates net client (fst (hd cs)) cs = Inr (Inr m)"
    and s256: "asm_code_challenge_methods_supported m = [] \<or> ''S256'' \<in> set (asm_code_challenge_methods_supported m)"
    and r: "dr_auth_server_url r = url" "dr_issuer r = asm_issuer m"
      "dr_authorization_endpoint r = asm_authorization_endpoint m" "dr_token_endpoint r = asm_token_endpoint m"
      "dr_registration_endpoint r = asm_registration_endpoint m"
    unfolding discover_authorization_server_def Let_def by (auto split: sum.splits if_splits)
  from probe_accepts [OF m] obtain before c after where
    c: "cs = before @ c # after" "accepts net client c m" "list_all (misses net client) before" by blast
  then have "normalize_issuer (dr_issuer r) = normalize_issuer (snd c)" using r by (auto simp: accepts_def)
  moreover from candidates_of_origin [OF cs] obtain parsed where "on_parse net url = Some parsed"
      "\<forall>c' \<in> set cs. starts_with (uv_origin parsed) (fst c')" by blast
  ultimately show ?thesis using cs client s256 r c by blast
qed

definition sample_metadata :: "string \<Rightarrow> json" where
  "sample_metadata iss = JObj [(''issuer'', JStr iss), (''authorization_endpoint'', JStr ''https://as/authorize''),
     (''token_endpoint'', JStr ''https://as/token'')]"

text \<open>A server under a path of its origin: the first location is missing, the second names the origin.\<close>

definition sample_net :: oauth_net where
  "sample_net = \<lparr>on_parse = (\<lambda>_. Some \<lparr>uv_guard = \<lparr>url_scheme = ''https'', url_host_str = Some ''as'',
       url_port = Some 443\<rparr>, uv_origin = ''https://as'', uv_path = ''/t''\<rparr>),
     on_lookup = (\<lambda>h port. Inr [(V4 (Ipv4 93 184 216 34), port)]),
     on_get = (\<lambda>client url. if url = ''https://as/.well-known/oauth-authorization-server/t''
       then Inr (404, Inr JNull) else Inr (200, Inr (sample_metadata ''https://as/''))),
     on_post = (\<lambda>client url body. Inr (400, None, Inr JNull))\<rparr>"

lemma sample_discovery:
  "discover_authorization_server sample_net ''https://as/t'' False =
     Inr \<lparr>dr_auth_server_url = ''https://as/t'', dr_issuer = ''https://as/'',
       dr_authorization_endpoint = ''https://as/authorize'', dr_token_endpoint = ''https://as/token'',
       dr_registration_endpoint = None, dr_scopes_supported = [], dr_code_challenge_methods_supported = [],
       dr_token_endpoint_auth_methods = [], dr_revocation_endpoint = None, dr_iss_parameter_supported = False,
       dr_client_id_metadata_document_supported = False\<rparr>"
  by code_simp

theorem discovery_issuer_bound_witness:
  "\<exists>before c after. as_candidates sample_net ''https://as/t'' = Inr (before @ c # after) \<and>
     normalize_issuer ''https://as/'' = normalize_issuer (snd c)"
  using discovery_issuer_bound [OF sample_discovery] by auto

end
