(* ===== verification/Login_Control.thy ===== *)
theory Login_Control
  imports Login_Callback Discovery Config
begin

text \<open>
  The management handlers that begin, reset and revoke OAuth logins and store client credentials
  (\<^verbatim>\<open>src/management.rs\<close>). \<open>oauth_start_inner\<close> gives other tasks time during discovery and during
  registration; what they do is its arguments \<open>discovering\<close> and \<open>registering\<close>. The other handlers are
  critical sections. The configuration, the network, the random values and the url crate's encoder are
  fields of \<open>manage_env\<close>.
\<close>

section \<open>Responses\<close>

record api_response =
  ar_status :: nat
  ar_body :: json

definition error_response :: "nat \<Rightarrow> string \<Rightarrow> string option \<Rightarrow> api_response" where
  "error_response status error detail =
     \<lparr>ar_status = status, ar_body = JObj ((''error'', JStr error) #
        (case detail of Some d \<Rightarrow> [(''detail'', JStr d)] | None \<Rightarrow> []))\<rparr>"

definition ok_response :: "json \<Rightarrow> api_response" where
  "ok_response body = \<lparr>ar_status = 200, ar_body = body\<rparr>"

definition quoted :: "string \<Rightarrow> string" where
  "quoted s = [CHR 0x27] @ s @ [CHR 0x27]"

definition endpoint_not_found :: "string \<Rightarrow> api_response" where
  "endpoint_not_found name = error_response 404 ''endpoint not found''
     (Some (''No endpoint named '' @ quoted name @ ''. Use GET /api/endpoints to list available endpoints.''))"

record 'c manage_env =
  mg_login :: "'c login_env"
  mg_config :: config
  mg_registered :: "string list"
  mg_port :: u16
  mg_net :: oauth_net
  mg_show_http :: "http_error \<Rightarrow> string"
  mg_show_ip :: "ip \<Rightarrow> string"
  mg_urlencode :: "string \<Rightarrow> string"
  mg_url_host :: "string \<Rightarrow> string option"
  mg_pkce :: pkce_challenge
  mg_state :: string

definition find_endpoint :: "config \<Rightarrow> string \<Rightarrow> endpoint_config option" where
  "find_endpoint cfg name = List.find (\<lambda>e. ec_name e = name) (cf_endpoints cfg)"

section \<open>Storing credentials\<close>

definition manual_client :: "u64 \<Rightarrow> string \<Rightarrow> string option \<Rightarrow> dcr_credentials" where
  "manual_client now_secs cid secret =
     \<lparr>client_id = cid, client_secret = secret, client_secret_expires_at = 0, registered_at = now_secs,
      issuer = None, resource_client_id = None, resource_client_secret = None, registered_via_dcr = False\<rparr>"

definition STORAGE_UNAVAILABLE :: api_response where
  "STORAGE_UNAVAILABLE = error_response 500 ''Token manager not available'' None"

definition oauth_credentials ::
  "'c manage_env \<Rightarrow> (token_error \<Rightarrow> string) \<Rightarrow> string \<Rightarrow> string \<Rightarrow> string option \<Rightarrow> 'c login_state \<Rightarrow>
   'c login_state \<times> api_response" where
  "oauth_credentials env show_error name cid secret s =
     (if find_endpoint (mg_config env) name = None then (s, endpoint_not_found name)
      else if trim cid = [] then (s, error_response 400 ''client_id must not be empty'' None)
      else if \<not> ls_has_tm s then (s, STORAGE_UNAVAILABLE)
      else (case save_dcr (ser_dcr (le_codec (mg_login env))) name
              (manual_client (le_wall (mg_login env)) cid secret) (ls_disk s) of
          (d, Inl e) \<Rightarrow> (s\<lparr>ls_disk := d\<rparr>,
            error_response 500 ''Failed to save credentials'' (Some (show_error e)))
        | (d, Inr _) \<Rightarrow> (s\<lparr>ls_disk := d\<rparr>, ok_response (JObj [(''status'', JStr ''saved'')]))))"

record credentials_request =
  rq_client_id :: "string option"
  rq_client_secret :: "string option"
  rq_resource_client_id :: "string option"
  rq_resource_client_secret :: "string option"

text \<open>Absent keeps, empty clears, anything else sets.\<close>

fun merge_field :: "string option \<Rightarrow> string option \<Rightarrow> string option" where
  "merge_field None current = current"
| "merge_field (Some v) current = (if v = [] then None else Some v)"

definition merged_client ::
  "u64 \<Rightarrow> credentials_request \<Rightarrow> dcr_credentials option \<Rightarrow> dcr_credentials" where
  "merged_client now_secs rq existing =
     (let touched = (rq_client_id rq \<noteq> None \<or> rq_client_secret rq \<noteq> None) in
      \<lparr>client_id = (case map_option trim (rq_client_id rq) of
           None \<Rightarrow> (case existing of Some c \<Rightarrow> client_id c | None \<Rightarrow> []) | Some cid \<Rightarrow> cid),
       client_secret = merge_field (map_option trim (rq_client_secret rq)) (Option.bind existing client_secret),
       client_secret_expires_at = (case existing of Some c \<Rightarrow> client_secret_expires_at c | None \<Rightarrow> 0),
       registered_at = (case existing of Some c \<Rightarrow> registered_at c | None \<Rightarrow> now_secs),
       issuer = (if touched then None else Option.bind existing issuer),
       resource_client_id =
         merge_field (map_option trim (rq_resource_client_id rq)) (Option.bind existing resource_client_id),
       resource_client_secret =
         merge_field (map_option trim (rq_resource_client_secret rq)) (Option.bind existing resource_client_secret),
       registered_via_dcr =
         (if touched then False else case existing of Some c \<Rightarrow> registered_via_dcr c | None \<Rightarrow> False)\<rparr>)"

datatype set_creds_error = Validation string | Storage token_error

definition set_credentials_update ::
  "u64 \<Rightarrow> credentials_request \<Rightarrow> dcr_credentials option \<Rightarrow> set_creds_error + dcr_credentials option" where
  "set_credentials_update now_secs rq existing =
     (let m = merged_client now_secs rq existing in
      if client_secret m \<noteq> None \<and> client_id m = []
      then Inl (Validation ''client_id must not be empty when setting client_secret'')
      else if resource_client_secret m \<noteq> None \<and> trim (unwrap_or [] (resource_client_id m)) = []
      then Inl (Validation ''resource_client_id must not be empty when setting resource_client_secret'')
      else if client_id m = [] \<and> client_secret m = None \<and> resource_client_id m = None \<and>
              resource_client_secret m = None
      then Inr None
      else Inr (Some m))"

text \<open>\<^verbatim>\<open>update_dcr\<close> at the handler's own error type: storage errors are injected, the closure's are not.\<close>

definition update_client ::
  "'c codec \<Rightarrow> string \<Rightarrow> (dcr_credentials option \<Rightarrow> set_creds_error + dcr_credentials option) \<Rightarrow> 'c world \<Rightarrow>
   'c world \<times> (set_creds_error + dcr_credentials option)" where
  "update_client cd name upd w =
     (case load_dcr (de_dcr cd) name w of
        Inl e \<Rightarrow> (w, Inl (Storage e))
      | Inr existing \<Rightarrow> (case upd existing of
            Inl e \<Rightarrow> (w, Inl e)
          | Inr new \<Rightarrow> (case update_dcr (ser_dcr cd) (de_dcr cd) name (\<lambda>_. Inr new) w of
              (w1, Inl e) \<Rightarrow> (w1, Inl (Storage e)) | (w1, Inr saved) \<Rightarrow> (w1, Inr saved))))"

definition set_endpoint_credentials ::
  "'c manage_env \<Rightarrow> (token_error \<Rightarrow> string) \<Rightarrow> string \<Rightarrow> credentials_request \<Rightarrow> 'c login_state \<Rightarrow>
   'c login_state \<times> api_response" where
  "set_endpoint_credentials env show_error name rq s =
     (if find_endpoint (mg_config env) name = None then (s, endpoint_not_found name)
      else if \<not> ls_has_tm s then (s, STORAGE_UNAVAILABLE)
      else (case update_client (le_codec (mg_login env)) name
              (set_credentials_update (le_wall (mg_login env)) rq) (ls_disk s) of
          (d, Inl (Validation msg)) \<Rightarrow> (s\<lparr>ls_disk := d\<rparr>, error_response 400 msg None)
        | (d, Inl (Storage e)) \<Rightarrow> (s\<lparr>ls_disk := d\<rparr>,
            error_response 500 ''Failed to persist credentials'' (Some (show_error e)))
        | (d, Inr saved) \<Rightarrow> (s\<lparr>ls_disk := d\<rparr>, ok_response (JObj [(''ok'', JBool True),
            (''client_secret_set'', JBool (Option.bind saved client_secret \<noteq> None)),
            (''resource_client_secret_set'', JBool (Option.bind saved resource_client_secret \<noteq> None))]))))"

definition credentials_view :: "string option \<Rightarrow> bool \<Rightarrow> string option \<Rightarrow> string option \<Rightarrow> bool \<Rightarrow> string \<Rightarrow> json" where
  "credentials_view cid secret_set server_url resource_cid resource_secret_set source =
     (let opt = (\<lambda>k v. case v of Some x \<Rightarrow> [(k, JStr x)] | None \<Rightarrow> []) in
      JObj (opt ''client_id'' cid @ [(''client_secret_set'', JBool secret_set)] @
        opt ''oauth_server_url'' server_url @ opt ''resource_client_id'' resource_cid @
        [(''resource_client_secret_set'', JBool resource_secret_set), (''source'', JStr source)]))"

definition get_endpoint_credentials :: "'c manage_env \<Rightarrow> string \<Rightarrow> 'c login_state \<Rightarrow> api_response" where
  "get_endpoint_credentials env name s =
     (case find_endpoint (mg_config env) name of
        None \<Rightarrow> endpoint_not_found name
      | Some ep \<Rightarrow>
          (let from_config = ok_response (credentials_view (ec_client_id ep)
                 (case ec_client_secret ep of Some secret \<Rightarrow> secret \<noteq> [] | None \<Rightarrow> False)
                 (ec_oauth_server_url ep) None False
                 (if ec_client_id ep \<noteq> None \<or> ec_client_secret ep \<noteq> None then ''config'' else ''none''))
           in if \<not> ls_has_tm s then from_config
              else (case read_client (mg_login env) name s of
                  Inr (Some creds) \<Rightarrow> ok_response (credentials_view
                    (if client_id creds = [] then None else Some (client_id creds))
                    (client_secret creds \<noteq> None) (ec_oauth_server_url ep) (resource_client_id creds)
                    (resource_client_secret creds \<noteq> None) ''dcr'')
                | _ \<Rightarrow> from_config)))"

section \<open>Starting a login\<close>

record resolved_server =
  rs_authorization_endpoint :: string
  rs_token_endpoint :: string
  rs_registration_endpoint :: "string option"
  rs_scopes :: "string list"
  rs_label :: "string option"
  rs_issuer :: "string option"
  rs_iss_supported :: bool

definition of_discovery :: "string option \<Rightarrow> discovery_result \<Rightarrow> resolved_server" where
  "of_discovery config_token_endpoint d =
     \<lparr>rs_authorization_endpoint = dr_authorization_endpoint d,
      rs_token_endpoint = unwrap_or (dr_token_endpoint d) config_token_endpoint,
      rs_registration_endpoint = dr_registration_endpoint d, rs_scopes = dr_scopes_supported d,
      rs_label = Some (dr_auth_server_url d), rs_issuer = Some (dr_issuer d),
      rs_iss_supported = dr_iss_parameter_supported d\<rparr>"

definition by_convention :: "string option \<Rightarrow> string \<Rightarrow> resolved_server" where
  "by_convention config_token_endpoint server_url =
     (let base = trim_end_matches CHR 0x2F server_url in
      \<lparr>rs_authorization_endpoint = base @ ''/authorize'',
       rs_token_endpoint = unwrap_or (base @ ''/token'') config_token_endpoint,
       rs_registration_endpoint = None, rs_scopes = [], rs_label = None, rs_issuer = None,
       rs_iss_supported = False\<rparr>)"

definition show_disc :: "'c manage_env \<Rightarrow> discovery_error \<Rightarrow> string" where
  "show_disc env e = show_discovery_error (mg_show_http env) (mg_show_ip env) e"

fun metadata_absent :: "discovery_error \<Rightarrow> bool" where
  "metadata_absent (MetadataNotFound _) = True"
| "metadata_absent (AuthServerMetadataNotFound _) = True"
| "metadata_absent _ = False"

definition resolve_server :: "'c manage_env \<Rightarrow> endpoint_config \<Rightarrow> bool \<Rightarrow> api_response + resolved_server" where
  "resolve_server env ep allow_insecure =
     (case ec_oauth_server_url ep of
        Some server_url \<Rightarrow>
          (case discover_authorization_server (mg_net env) server_url allow_insecure of
             Inr d \<Rightarrow> Inr (of_discovery (ec_token_endpoint ep) d)
           | Inl e \<Rightarrow>
               (if is_transient e
                then Inl (error_response 502 ''discovery_unreachable'' (Some
                  (''Could not reach the OAuth server to discover its endpoints. Check connectivity and try again. Details: '' @
                   show_disc env e)))
                else if metadata_absent e
                then Inr (by_convention (ec_token_endpoint ep) server_url)
                else Inl (error_response 400 ''discovery_failed'' (Some
                  (''Could not discover OAuth server endpoints from oauth_server_url. Fix the server metadata or the configured URL and try again. Details: '' @
                   show_disc env e)))))
      | None \<Rightarrow>
          (case discover_oauth_server (mg_net env) (unwrap_or [] (ec_url ep)) allow_insecure of
             Inr d \<Rightarrow> Inr (of_discovery None d)
           | Inl e \<Rightarrow> Inl (error_response 400 ''discovery_failed'' (Some
               (''Could not discover OAuth server for this endpoint. Configure oauth_server_url manually, or ensure the server supports RFC 9728. Details: '' @
                show_disc env e)))))"

text \<open>The client pair the login will use, and whether discovery output calls it registered.\<close>

type_synonym client_choice = "string \<times> string option \<times> bool"

definition loaded_client :: "'c manage_env \<Rightarrow> string \<Rightarrow> 'c login_state \<Rightarrow> dcr_credentials option" where
  "loaded_client env name s =
     (if ls_has_tm s then (case read_client (mg_login env) name s of Inr c \<Rightarrow> c | Inl _ \<Rightarrow> None) else None)"

definition invalidate_mismatched :: "string option \<Rightarrow> dcr_credentials option \<Rightarrow> dcr_credentials option" where
  "invalidate_mismatched current persisted =
     (case persisted of
        Some creds \<Rightarrow>
          (if registered_via_dcr creds \<and> \<not> dcr_issuer_allows_reuse (issuer creds) current
           then Some ((cleared creds)\<lparr>registered_via_dcr := True\<rparr>) else Some creds)
      | None \<Rightarrow> None)"

definition fresh_client ::
  "u64 \<Rightarrow> client_registration \<Rightarrow> string option \<Rightarrow> dcr_credentials option \<Rightarrow> dcr_credentials" where
  "fresh_client now_secs resp bind_issuer current =
     \<lparr>client_id = cr_client_id resp, client_secret = cr_client_secret resp,
      client_secret_expires_at = cr_client_secret_expires_at resp, registered_at = now_secs,
      issuer = bind_issuer, resource_client_id = Option.bind current resource_client_id,
      resource_client_secret = Option.bind current resource_client_secret, registered_via_dcr = True\<rparr>"

definition matches_snapshot :: "string option \<Rightarrow> dcr_credentials option \<Rightarrow> bool" where
  "matches_snapshot expected current =
     (case (current, expected) of
        (Some c, Some cid) \<Rightarrow> registered_via_dcr c \<and> client_id c = cid
      | (None, None) \<Rightarrow> True
      | _ \<Rightarrow> False)"

definition START_SUPERSEDED :: api_response where
  "START_SUPERSEDED = error_response 409 ''auth_start_superseded'' (Some
     ''Endpoint credentials were rotated by a concurrent operation during this Authorize. Please click Authorize again.'')"

text \<open>
  Re-registration: the fresh pair is stored only over the record the start had read (\<open>expected\<close>); a record
  another task has put there stops the start.
\<close>

definition reregister ::
  "'c manage_env \<Rightarrow> string \<Rightarrow> resolved_server \<Rightarrow> string option \<Rightarrow> dcr_credentials \<Rightarrow>
   dcr_error + client_registration \<Rightarrow> 'c login_state \<Rightarrow> 'c login_state \<times> (api_response + client_choice)" where
  "reregister env name rs expected creds outcome s =
     (case outcome of
        Inr resp \<Rightarrow>
          (if ls_has_tm s
           then (let cd = le_codec (mg_login env);
                     upd = (\<lambda>current. if \<not> matches_snapshot expected current then Inr current
                        else Inr (Some (fresh_client (le_wall (mg_login env)) resp (rs_issuer rs) current)));
                     snapshot_matched = (case read_client (mg_login env) name s of
                        Inr current \<Rightarrow> matches_snapshot expected current | Inl _ \<Rightarrow> True);
                     s1 = s\<lparr>ls_disk := fst (update_dcr (ser_dcr cd) (de_dcr cd) name upd (ls_disk s))\<rparr>
                 in if \<not> snapshot_matched then (s1, Inl START_SUPERSEDED)
                    else (s1, Inr (cr_client_id resp, cr_client_secret resp, True)))
           else (s, Inr (cr_client_id resp, cr_client_secret resp, True)))
      | Inl e \<Rightarrow>
          (if client_id creds = []
           then (s, Inl (error_response 503 ''dcr_registration_unavailable'' (Some
             (''DCR re-registration failed and no viable stored client_id remains. Retry once the registration endpoint is reachable. Details: '' @
              show_dcr_error (mg_show_http env) (mg_show_ip env) e))))
           else (s, Inr (client_id creds, client_secret creds, True))))"

definition dcr_unsupported :: "resolved_server \<Rightarrow> string \<Rightarrow> api_response" where
  "dcr_unsupported rs message =
     \<lparr>ar_status = 422, ar_body = JObj ([(''error'', JStr ''dcr_unsupported''), (''message'', JStr message),
        (''authorization_endpoint'', JStr (rs_authorization_endpoint rs)),
        (''token_endpoint'', JStr (rs_token_endpoint rs))] @
        (if rs_scopes rs = [] then [] else [(''scopes_supported'', JArr (map JStr (rs_scopes rs)))]))\<rparr>"

definition register_first ::
  "'c manage_env \<Rightarrow> string \<Rightarrow> resolved_server \<Rightarrow> dcr_error + client_registration \<Rightarrow> 'c login_state \<Rightarrow>
   'c login_state \<times> (api_response + client_choice)" where
  "register_first env name rs outcome s =
     (case outcome of
        Inr resp \<Rightarrow>
          (let creds = fresh_client (le_wall (mg_login env)) resp (rs_issuer rs) None;
               s1 = (if ls_has_tm s
                 then s\<lparr>ls_disk := fst (save_dcr (ser_dcr (le_codec (mg_login env))) name creds (ls_disk s))\<rparr>
                 else s)
           in (s1, Inr (cr_client_id resp, cr_client_secret resp, True)))
      | Inl e \<Rightarrow> (s, Inl (dcr_unsupported rs
          (''Dynamic Client Registration failed: '' @ show_dcr_error (mg_show_http env) (mg_show_ip env) e @
           ''. Submit credentials manually via POST /api/endpoints/'' @ name @ ''/oauth/credentials.''))))"

definition resolve_client ::
  "'c manage_env \<Rightarrow> string \<Rightarrow> endpoint_config \<Rightarrow> string \<Rightarrow> bool \<Rightarrow> resolved_server \<Rightarrow>
   ('c login_state \<Rightarrow> 'c login_state) \<Rightarrow> 'c login_state \<Rightarrow> 'c login_state \<times> (api_response + client_choice)" where
  "resolve_client env name ep redirect_uri allow_insecure rs registering s =
     (let loaded = loaded_client env name s;
          disk_client_id = Option.bind loaded (\<lambda>c. if registered_via_dcr c then Some (client_id c) else None);
          persisted = invalidate_mismatched (rs_issuer rs) loaded;
          register = (\<lambda>reg_endpoint. register_client (mg_net env) reg_endpoint redirect_uri name allow_insecure)
      in case (persisted, rs_registration_endpoint rs) of
           (Some creds, Some reg_endpoint) \<Rightarrow>
             (if registered_via_dcr creds
              then reregister env name rs disk_client_id creds (register reg_endpoint) (registering s)
              else (case ec_client_id ep of
                  Some cid \<Rightarrow> (s, Inr (cid,
                    (if client_id creds = cid then client_secret creds else ec_client_secret ep), False))
                | None \<Rightarrow> (s, Inr (client_id creds, client_secret creds, True))))
         | (Some creds, None) \<Rightarrow>
             (case ec_client_id ep of
                Some cid \<Rightarrow> (s, Inr (cid,
                  (if client_id creds = cid then client_secret creds else ec_client_secret ep), False))
              | None \<Rightarrow> (s, Inr (client_id creds, client_secret creds, True)))
         | (None, reg) \<Rightarrow>
             (case ec_client_id ep of
                Some cid \<Rightarrow> (s, Inr (cid, ec_client_secret ep, False))
              | None \<Rightarrow> (case reg of
                  Some reg_endpoint \<Rightarrow>
                    register_first env name rs (register reg_endpoint) (registering s)
                | None \<Rightarrow> (s, Inl (dcr_unsupported rs
                    (''No client_id configured and server does not support Dynamic Client Registration. Submit credentials manually via POST /api/endpoints/'' @
                     name @ ''/oauth/credentials.''))))))"

definition is_google_authorization_endpoint :: "'c manage_env \<Rightarrow> string \<Rightarrow> bool" where
  "is_google_authorization_endpoint env authorization_endpoint =
     (case mg_url_host env authorization_endpoint of
        Some h \<Rightarrow> eq_ignore_ascii_case h ''accounts.google.com'' | None \<Rightarrow> False)"

definition authorize_url ::
  "'c manage_env \<Rightarrow> resolved_server \<Rightarrow> string \<Rightarrow> string \<Rightarrow> string \<Rightarrow> bool \<Rightarrow> string \<Rightarrow> string" where
  "authorize_url env rs cid redirect_uri state_param force_consent merged_scope =
     (let enc = mg_urlencode env in
      rs_authorization_endpoint rs @ ''?response_type=code&client_id='' @ enc cid @
      ''&redirect_uri='' @ enc redirect_uri @ ''&state='' @ enc state_param @
      ''&code_challenge='' @ enc (pk_challenge (mg_pkce env)) @ ''&code_challenge_method=S256'' @
      (if force_consent then ''&prompt=consent'' else []) @
      (if is_google_authorization_endpoint env (rs_authorization_endpoint rs)
       then ''&access_type=offline'' else []) @
      (if merged_scope = [] then [] else ''&scope='' @ enc merged_scope))"

definition prior_scope :: "'c manage_env \<Rightarrow> string \<Rightarrow> 'c login_state \<Rightarrow> string option" where
  "prior_scope env name s =
     (if ls_has_tm s
      then (case load_tokens (de_tokens (le_codec (mg_login env))) name (ls_disk s) of
          Inr (Some t) \<Rightarrow> scope t | _ \<Rightarrow> None)
      else None)"

definition start_response :: "resolved_server \<Rightarrow> bool \<Rightarrow> string \<Rightarrow> api_response" where
  "start_response rs dcr_used url =
     ok_response (JObj ([(''authorize_url'', JStr url)] @
       (case rs_label rs of
          None \<Rightarrow> []
        | Some auth_server \<Rightarrow> [(''discovery'', JObj ([(''auth_server'', JStr auth_server),
            (''dcr_used'', JBool dcr_used)] @
            (if rs_scopes rs = [] then [] else [(''scopes_available'', JArr (map JStr (rs_scopes rs)))])))])))"

definition login_request ::
  "'c manage_env \<Rightarrow> string \<Rightarrow> resolved_server \<Rightarrow> string \<Rightarrow> client_choice \<Rightarrow> flow_request" where
  "login_request env name rs redirect_uri choice =
     \<lparr>fq_endpoint_name = name, fq_token_endpoint = rs_token_endpoint rs, fq_client_id = fst choice,
      fq_client_secret = fst (snd choice), fq_pkce = mg_pkce env, fq_redirect_uri = redirect_uri,
      fq_issuer = rs_issuer rs, fq_iss_parameter_supported = rs_iss_supported rs\<rparr>"

definition SUPERSEDED_START :: api_response where
  "SUPERSEDED_START = error_response 409 ''superseded_by_reset'' (Some
     (''Authorization was reset while this start was in progress; use the reset'' @ [CHR 0x27] @
      ''s authorize URL or retry''))"

text \<open>Registering the pending login and answering with its URL.\<close>

definition register_login ::
  "'c manage_env \<Rightarrow> string \<Rightarrow> endpoint_config \<Rightarrow> u64 \<Rightarrow> string \<Rightarrow> bool \<Rightarrow> resolved_server \<Rightarrow> client_choice \<Rightarrow>
   'c login_state \<Rightarrow> 'c login_state \<times> api_response" where
  "register_login env name ep start_generation redirect_uri force_consent rs choice s =
     (case ls_flows s of
        None \<Rightarrow> (s, SUPERSEDED_START)
      | Some m \<Rightarrow>
          (case start_flow_if_current (mg_state env) (le_now (mg_login env)) start_generation
                  (login_request env name rs redirect_uri choice) m of
             (m1, None) \<Rightarrow> (s\<lparr>ls_flows := Some m1\<rparr>, SUPERSEDED_START)
           | (m1, Some state_param) \<Rightarrow>
               (let s1 = s\<lparr>ls_flows := Some m1\<rparr>;
                    merged = merge_scopes (prior_scope env name s1) (join '' '' (unwrap_or [] (ec_scopes ep)))
                in (s1, start_response rs (snd (snd choice))
                     (authorize_url env rs (fst choice) redirect_uri state_param force_consent merged)))))"

definition redirect_uri_of :: "'c manage_env \<Rightarrow> string" where
  "redirect_uri_of env = ''http://127.0.0.1:'' @ dec_of_nat (unat (mg_port env)) @ ''/oauth/callback''"

definition oauth_start_inner ::
  "'c manage_env \<Rightarrow> ('c login_state \<Rightarrow> 'c login_state) \<Rightarrow> ('c login_state \<Rightarrow> 'c login_state) \<Rightarrow> string \<Rightarrow> bool \<Rightarrow>
   'c login_state \<Rightarrow> 'c login_state \<times> api_response" where
  "oauth_start_inner env discovering registering name force_consent s =
     (case find_endpoint (mg_config env) name of
        None \<Rightarrow> (s, endpoint_not_found name)
      | Some ep \<Rightarrow>
          (let allow_insecure = unwrap_or False (rc_allow_insecure_oauth (cf_relay (mg_config env))) in
           case ls_flows s of
             None \<Rightarrow> (s, error_response 500 ''OAuth not configured'' (Some ''OAuth flow manager not initialized''))
           | Some m \<Rightarrow>
               (let redirect_uri = redirect_uri_of env; start_generation = generation name m in
                case resolve_server env ep allow_insecure of
                  Inl r \<Rightarrow> (discovering s, r)
                | Inr rs \<Rightarrow>
                    (case resolve_client env name ep redirect_uri allow_insecure rs registering (discovering s) of
                       (s1, Inl r) \<Rightarrow> (s1, r)
                     | (s1, Inr choice) \<Rightarrow>
                         register_login env name ep start_generation redirect_uri force_consent rs choice s1))))"

section \<open>Revoking and resetting\<close>

definition not_oauth :: "string \<Rightarrow> api_response" where
  "not_oauth detail = error_response 400 ''endpoint is not configured for OAuth'' (Some detail)"

definition oauth_inner :: "'c manage_env \<Rightarrow> string \<Rightarrow> 'c login_state \<Rightarrow> api_response + oauth_config \<times> 'c oauth_adapter" where
  "oauth_inner env name s =
     (if name \<notin> set (mg_registered env) then Inl (endpoint_not_found name)
      else case ls_adapters s of
        None \<Rightarrow> Inl (not_oauth ''No OAuth adapter inners available'')
      | Some inners \<Rightarrow> (case hm_get inners name of
          None \<Rightarrow> Inl (not_oauth (''Endpoint '' @ quoted name @ '' is not an OAuth endpoint''))
        | Some inner \<Rightarrow> Inr inner))"

text \<open>Disconnecting the running adapter on the shared directory.\<close>

definition disconnect_inner ::
  "'c manage_env \<Rightarrow> string \<Rightarrow> oauth_config \<times> 'c oauth_adapter \<Rightarrow> 'c login_state \<Rightarrow>
   'c login_state \<times> (token_error + unit)" where
  "disconnect_inner env name inner s =
     (case disconnect (fst inner) (le_mono (mg_login env)) ((snd inner)\<lparr>disk := ls_disk s\<rparr>) of
        (a, r) \<Rightarrow> (s\<lparr>ls_adapters := map_option (hm_insert name (fst inner, a)) (ls_adapters s),
           ls_disk := disk a\<rparr>, r))"

definition DELETE_FAILED :: string where
  "DELETE_FAILED = ''failed to delete tokens from disk''"

definition oauth_revoke ::
  "'c manage_env \<Rightarrow> (token_error \<Rightarrow> string) \<Rightarrow> string \<Rightarrow> 'c login_state \<Rightarrow> 'c login_state \<times> api_response" where
  "oauth_revoke env show_error name s =
     (case oauth_inner env name s of
        Inl r \<Rightarrow> (s, r)
      | Inr inner \<Rightarrow>
          (case disconnect_inner env name inner s of
             (s1, Inl e) \<Rightarrow> (s1, error_response 500 DELETE_FAILED (Some
               (''The grant would survive a relay restart; retry the revoke. ('' @ show_error e @ '')'')))
           | (s1, Inr _) \<Rightarrow> (s1, ok_response (JObj [(''status'', JStr ''disconnected''),
               (''endpoint'', JStr name)]))))"

definition restore_registration ::
  "'c manage_env \<Rightarrow> string \<Rightarrow> dcr_credentials option \<Rightarrow> 'c login_state \<Rightarrow> 'c login_state" where
  "restore_registration env name preserved s =
     (case preserved of
        Some creds \<Rightarrow>
          (if ls_has_tm s
           then s\<lparr>ls_disk := fst (save_dcr (ser_dcr (le_codec (mg_login env))) name creds (ls_disk s))\<rparr> else s)
      | None \<Rightarrow> s)"

text \<open>The section of the reset under the endpoint's commit lock.\<close>

definition reset_grant ::
  "'c manage_env \<Rightarrow> (token_error \<Rightarrow> string) \<Rightarrow> string \<Rightarrow> 'c login_state \<Rightarrow>
   'c login_state \<times> (api_response + unit)" where
  "reset_grant env show_error name s =
     (case oauth_inner env name s of
        Inl r \<Rightarrow> (s, Inl r)
      | Inr inner \<Rightarrow>
          (let s1 = s\<lparr>ls_flows := map_option (\<lambda>m. fst (invalidate_endpoint name m)) (ls_flows s)\<rparr>;
               preserved = loaded_client env name s1
           in (case disconnect_inner env name inner s1 of
                 (s2, Inl e) \<Rightarrow> (s2, Inl (error_response 500 DELETE_FAILED (Some
                   (''Reset aborted: the old grant would survive a relay restart; retry the reset. ('' @
                    show_error e @ '')''))))
               | (s2, Inr _) \<Rightarrow> (restore_registration env name preserved s2, Inr ()))))"

definition oauth_reset ::
  "'c manage_env \<Rightarrow> (token_error \<Rightarrow> string) \<Rightarrow> ('c login_state \<Rightarrow> 'c login_state) \<Rightarrow>
   ('c login_state \<Rightarrow> 'c login_state) \<Rightarrow> string \<Rightarrow> 'c login_state \<Rightarrow> 'c login_state \<times> api_response" where
  "oauth_reset env show_error discovering registering name s =
     (case reset_grant env show_error name s of
        (s1, Inl r) \<Rightarrow> (s1, r)
      | (s1, Inr _) \<Rightarrow> oauth_start_inner env discovering registering name True s1)"

section \<open>Refreshing on demand and reporting\<close>

fun debug_state :: "oauth_state \<Rightarrow> string" where
  "debug_state NeedsLogin = ''NeedsLogin''"
| "debug_state Authenticated = ''Authenticated''"
| "debug_state Refreshing = ''Refreshing''"
| "debug_state AuthRequired = ''AuthRequired''"
| "debug_state ConnectionFailed = ''ConnectionFailed''"
| "debug_state Disconnected = ''Disconnected''"

fun status_name :: "oauth_state \<Rightarrow> string" where
  "status_name Authenticated = ''authenticated''"
| "status_name NeedsLogin = ''needs_login''"
| "status_name Refreshing = ''refreshing''"
| "status_name AuthRequired = ''auth_required''"
| "status_name Disconnected = ''disconnected''"
| "status_name ConnectionFailed = ''connection_failed''"

definition u64_field :: "string \<Rightarrow> u64 option \<Rightarrow> (string \<times> json) list" where
  "u64_field k v = (case v of Some n \<Rightarrow> [(k, JNum (JPos n))] | None \<Rightarrow> [])"

definition store_adapter ::
  "string \<Rightarrow> oauth_config \<Rightarrow> 'c oauth_adapter \<Rightarrow> 'c login_state \<Rightarrow> 'c login_state" where
  "store_adapter name cfg a s =
     s\<lparr>ls_adapters := map_option (hm_insert name (cfg, a)) (ls_adapters s), ls_disk := disk a\<rparr>"

definition not_committed :: "string \<Rightarrow> api_response" where
  "not_committed detail = error_response 409 ''token refresh not committed'' (Some detail)"

text \<open>
  \<open>renv\<close> and \<open>ema\<close> stand for the token endpoint as in the refresh loop; \<open>during\<close> is what other tasks do to the
  adapter between the reply and the commit.
\<close>

definition oauth_refresh ::
  "'c manage_env \<Rightarrow> refresh_env \<Rightarrow> ema_outcome \<Rightarrow> (oauth_error \<Rightarrow> string) \<Rightarrow>
   ('c oauth_adapter \<Rightarrow> 'c oauth_adapter) \<Rightarrow> string \<Rightarrow> 'c login_state \<Rightarrow> 'c login_state \<times> api_response" where
  "oauth_refresh env renv ema show_error during name s =
     (case oauth_inner env name s of
        Inl r \<Rightarrow> (s, r)
      | Inr (cfg, inner) \<Rightarrow>
          (if state inner = NeedsLogin
           then (s, error_response 400 ''cannot refresh tokens'' (Some ''endpoint has never been authenticated''))
           else if state inner = Disconnected
           then (s, error_response 400 ''cannot refresh tokens'' (Some ''endpoint is disconnected''))
           else
             (let env1 = mg_login env; cd = le_codec env1; a0 = inner\<lparr>disk := ls_disk s\<rparr>;
                  refresh_epoch = grant_epoch a0
              in case do_token_refresh_with_epoch cd cfg renv ema (map_option access_token (tokens a0))
                        refresh_epoch a0 of
                   (a1, Inl (StaleGrant e)) \<Rightarrow> (store_adapter name cfg a1 s, not_committed (show_error (StaleGrant e)))
                 | (a1, Inl e) \<Rightarrow> (store_adapter name cfg a1 s,
                     error_response 502 ''token refresh failed'' (Some (show_error e)))
                 | (a1, Inr new_tokens) \<Rightarrow>
                     (case apply_tokens_inner cd cfg (le_wall env1) (le_mono env1) new_tokens (Some refresh_epoch)
                             (le_init env1) (during a1) of
                        (a2, False) \<Rightarrow> (store_adapter name cfg a2 s, not_committed
                          ''the grant was discarded or replaced (disconnect/reset/re-login) while the refresh was in flight'')
                      | (a2, True) \<Rightarrow> (store_adapter name cfg a2 s, ok_response (JObj
                          ([(''status'', JStr (debug_state (state a2)))] @
                           u64_field ''expires_at'' (expires_at new_tokens) @
                           u64_field ''refreshed_at'' (issued_at new_tokens))))))))"

text \<open>\<^verbatim>\<open>lifetime * 3 / 4\<close> and the sums are taken in 64 bits; the difference to the clock as a signed word.\<close>

definition reported_refresh_at :: "token_set option \<Rightarrow> u64 option" where
  "reported_refresh_at toks =
     (case toks of
        Some t \<Rightarrow>
          (if refresh_token t = None then None
           else (case (issued_at t, expires_at t) of
               (Some issued, Some expires) \<Rightarrow>
                 (if issued < expires
                  then Some (min (issued + (expires - issued) * 3 div 4) (if expires < 300 then 0 else expires - 300))
                  else None)
             | _ \<Rightarrow> None))
      | None \<Rightarrow> None)"

definition i64_json :: "int \<Rightarrow> json" where
  "i64_json i = JNum (if i < 0 then JNeg i else JPos (word_of_int i))"

definition history_entry :: "instant \<Rightarrow> transition_record \<Rightarrow> json" where
  "history_entry now r = JObj [(''from'', JStr (debug_state (tr_from r))), (''to'', JStr (debug_state (tr_to r))),
     (''reason'', JStr (tr_reason r)), (''ago_ms'', JNum (JPos (of_nat ((now - tr_timestamp r) div 1000000))))]"

definition oauth_status :: "'c manage_env \<Rightarrow> (string \<Rightarrow> health_status) \<Rightarrow> string \<Rightarrow> 'c login_state \<Rightarrow> api_response" where
  "oauth_status env entry_health name s =
     (if name \<notin> set (mg_registered env) then endpoint_not_found name
      else case Option.bind (ls_adapters s) (\<lambda>inners. hm_get inners name) of
        Some (cfg, inner) \<Rightarrow>
          (let toks = tokens inner; now_secs = le_wall (mg_login env) in
           ok_response (JObj
             ([(''status'', JStr (status_name (state inner))), (''has_access_token'', JBool (toks \<noteq> None)),
               (''has_refresh_token'', JBool (Option.bind toks refresh_token \<noteq> None))] @
              u64_field ''expires_at'' (Option.bind toks expires_at) @
              (case Option.bind toks expires_at of
                 Some e \<Rightarrow> [(''expires_in_seconds'', i64_json (sint (e - now_secs)))] | None \<Rightarrow> []) @
              u64_field ''last_refreshed_at'' (Option.bind toks issued_at) @
              u64_field ''next_refresh_at'' (reported_refresh_at toks) @
              [(''state'', JStr (debug_state (state inner))),
               (''transition_history'', JArr (map (history_entry (le_mono (mg_login env))) (transition_history inner)))])))
      | None \<Rightarrow> ok_response (JObj [(''status'', JStr (case entry_health name of
            Healthy \<Rightarrow> ''authorized''
          | Unhealthy msg \<Rightarrow> (if msg = ''needs login'' then ''needs_login'' else ''unhealthy'')
          | _ \<Rightarrow> ''unhealthy''))]))"

end
