(* ===== verification/Login_Safety.thy ===== *)
theory Login_Safety
  imports Login_Control OAuth_Runs
begin

text \<open>
  What the login endpoints guarantee together: pages carry foreign text only as text; a reset decides the race
  with a callback; a commit touches one endpoint, one setup session or one identity provider; stored
  credentials are merged group by group and manual ones survive registration.
\<close>

section \<open>Pages\<close>

text \<open>The markup of a page: what stands between angle brackets.\<close>

fun markup :: "bool \<Rightarrow> string \<Rightarrow> string" where
  "markup inside [] = []"
| "markup False (c # s) = (if c = CHR ''<'' then c # markup True s else markup False s)"
| "markup True (c # s) = c # markup (c \<noteq> CHR ''>'') s"

definition CALLBACK_MARKUP :: "string list" where
  "CALLBACK_MARKUP =
     [''<html><body><h1></h1><p></p><p></p></body></html>'',
      ''<html><body><h1></h1><p></p></body></html>'',
      ''<html><body><h1></h1><p><strong></strong></p><p></p></body></html>'',
      ''<html><body><h1></h1><p><code></code><strong></strong><em></em></p><p></p></body></html>'']"

lemma markup_plain: "CHR ''<'' \<notin> set s \<Longrightarrow> markup False (s @ t) = markup False t"
  by (induction s) auto

lemma escape_plain: "CHR ''<'' \<notin> set (html_escape s)"
  by (auto simp: html_escape_def escape_char_def split: if_splits)

lemma markup_escape [simp]: "markup False (html_escape s @ t) = markup False t"
  by (rule markup_plain) (rule escape_plain)

lemma hp_body_response [simp]: "hp_body (oauth_html_response b) = b"
  by (simp add: oauth_html_response_def)

lemma markup_page: "markup False (page_with ''OAuth Error'' m) = ''<html><body><h1></h1><p>'' @ markup False (m @ ''</p><p>You can close this window.</p></body></html>'')"
  "markup False (page_with ''Login Successful'' m) = ''<html><body><h1></h1><p>'' @ markup False (m @ ''</p><p>You can close this window.</p></body></html>'')"
  by (simp_all add: page_with_def)

definition inert :: "html_response \<Rightarrow> bool" where
  "inert p = (markup False (hp_body p) \<in> set CALLBACK_MARKUP)"

lemma inert_error: "CHR ''<'' \<notin> set m \<Longrightarrow> inert (error_page m)"
  by (simp add: inert_def error_page_def markup_page markup_plain CALLBACK_MARKUP_def)

lemma char_of_neq: "of_char c \<noteq> n mod 256 \<Longrightarrow> c \<noteq> char_of (n :: nat)"
  by auto

lemma markup_dash: "markup False (utf8 [8212] @ t) = markup False t"
  by (rule markup_plain) (simp add: utf8_def utf8_code_def char_of_neq)

lemma inert_pages [simp]:
  "inert NO_OAUTH_PAGE" "inert SUPERSEDED_BY_RESET" "inert SUPERSEDED_BY_CLIENT" "inert SETUP_DONE_PAGE"
  "inert SETUP_GONE_PAGE" "inert (success_page n)" "inert (idp_page n)" "inert (discarded_page n)"
  by (simp_all add: NO_OAUTH_PAGE_def SUPERSEDED_BY_RESET_def SUPERSEDED_BY_CLIENT_def SETUP_GONE_PAGE_def inert_error)
     (simp_all add: inert_def SETUP_DONE_PAGE_def success_page_def idp_page_def discarded_page_def error_page_def
       markup_page CALLBACK_MARKUP_def markup_dash)

lemma inert_text: "inert (error_page (html_escape e))" "inert (issuer_mismatch_page ex pr)"
  by (simp_all add: inert_error escape_plain issuer_mismatch_page_def)

lemma inert_prefixed: "CHR ''<'' \<notin> set a \<Longrightarrow> inert (error_page (a @ html_escape e))"
  by (simp add: inert_error escape_plain)

lemma begin_pages: "callback_begin env prm s = (s1, Inl page) \<Longrightarrow> inert page"
  by (auto simp: callback_begin_def Let_def inert_text inert_error split: option.splits prod.splits if_splits)

lemma exchanged_pages: "callback_exchanged env flow reply s = (s1, Inl page) \<Longrightarrow> inert page"
  by (auto simp: callback_exchanged_def Let_def inert_error escape_plain
      split: exchange_reply.splits prod.splits if_splits sum.splits)

lemma commit_pages: "inert (snd (callback_commit env flow token_json s))"
  by (auto simp: callback_commit_def commit_setup_def commit_endpoint_def Let_def
      split: option.splits prod.splits bool.splits)

text \<open>C11: whatever the authorization server, the browser or the configuration put into error codes, issuers,
  reply bodies and endpoint names, the page the callback answers with has the markup of one of four fixed
  templates: foreign text is only ever text. Every page forbids scripts by its content security policy.\<close>

theorem callback_pages_inert:
  "markup False (hp_body (snd (oauth_callback env prm reply meanwhile waiting s))) \<in> set CALLBACK_MARKUP"
proof -
  have "inert (snd (oauth_callback env prm reply meanwhile waiting s))"
    unfolding oauth_callback_def
    by (auto simp: commit_pages dest: begin_pages exchanged_pages split: prod.splits sum.splits)
  then show ?thesis by (simp add: inert_def)
qed

section \<open>Frames\<close>

lemma delete_file_frame:
  "p \<noteq> name \<Longrightarrow> hm_get (files (fst (delete_file name w))) p = hm_get (files w) p"
  by (auto simp: delete_file_def store_simps split: option.splits)

lemma save_frame:
  "p \<noteq> name \<Longrightarrow> p \<noteq> tmp_of name \<Longrightarrow> hm_get (files (fst (save_file name c w))) p = hm_get (files w) p"
  using save_file_frame [of name c w "fst (save_file name c w)" "snd (save_file name c w)"] by simp

lemma apply_enter_disk:
  "disk (apply_enter cd cfg now ts s) =
     fst (save_tokens (ser_tokens cd) (oc_endpoint_name cfg) ts (disk s))"
  by (simp add: apply_enter_def Let_def recorded_transition_def split_beta)

lemma disk_simps [simp]:
  "disk (recorded_transition now st r s) = disk s" "disk (send_outer s) = disk s" "disk (upd_tick f s) = disk s"
  "disk (transition_to now st r s) = disk s" "disk (fst (publish_or_retain_tick owed s)) = disk s"
  "disk (fst (swap_tools_forwarder source s)) = disk s"
  by (auto simp: recorded_transition_def send_outer_def upd_tick_def transition_to_def
      clear_fingerprint_on_degraded_def publish_or_retain_tick_def swap_tools_forwarder_def Let_def
      split: prod.splits option.splits)

lemma apply_ready_disk [simp]: "disk (apply_ready cfg ts r fp oldq newq s) = disk s"
  by (auto simp: apply_ready_def Let_def swap_tools_forwarder_def split: option.splits)

lemma apply_rest_disk [simp]:
  "disk (apply_init_failed ts h e s) = disk s" "disk (apply_transition now ts st r owed s) = disk s"
  "disk (apply_publish ts owed s) = disk s" "disk (apply_finish cfg now_secs now ts s) = disk s"
  "disk (fst (apply_check ts epoch s)) = disk s"
  by (auto simp: apply_init_failed_def apply_transition_def apply_publish_def apply_finish_def apply_check_def
      Let_def split: option.splits)

lemma apply_tokens_disk:
  "disk (fst (apply_tokens_inner cd cfg now_secs now ts epoch init s)) =
     (if snd (apply_check ts epoch s)
      then fst (save_tokens (ser_tokens cd) (oc_endpoint_name cfg) ts (disk s)) else disk s)"
proof (cases "apply_check ts epoch s")
  case (Pair s0 b)
  then have "disk s0 = disk s" using apply_rest_disk(5) [of ts epoch s] by simp
  with Pair show ?thesis
    by (auto simp: apply_tokens_inner_def Let_def apply_enter_disk
        split: bool.splits init_outcome.splits apply_pc.splits)
qed

lemma revalidate_same [simp]: "fst (revalidate env flow s) = s"
  by (auto simp: revalidate_def Let_def update_dcr_def delete_dcr_def delete_file_def load_dcr_def load_file_def
      split: sum.splits option.splits)

section \<open>What a commit touches\<close>

definition adapter_of :: "string \<Rightarrow> 'c login_state \<Rightarrow> (oauth_config \<times> 'c oauth_adapter) option" where
  "adapter_of n s = Option.bind (ls_adapters s) (\<lambda>inners. hm_get inners n)"

text \<open>Every adapter is kept under the name in its own configuration.\<close>

definition adapters_keyed :: "'c login_state \<Rightarrow> bool" where
  "adapters_keyed s = (\<forall>n cfg a. adapter_of n s = Some (cfg, a) \<longrightarrow> oc_endpoint_name cfg = n)"

text \<open>Outside one file and its temporary, the directory is the same.\<close>

definition only_file :: "string \<Rightarrow> 'c login_state \<Rightarrow> 'c login_state \<Rightarrow> bool" where
  "only_file f s s' = (\<forall>p. p \<noteq> f \<longrightarrow> p \<noteq> tmp_of f \<longrightarrow>
     hm_get (files (ls_disk s')) p = hm_get (files (ls_disk s)) p)"

lemma only_file_refl [simp]: "only_file f s s"
  by (simp add: only_file_def)

lemma only_file_trans: "only_file f s t \<Longrightarrow> only_file f t u \<Longrightarrow> only_file f s u"
  by (simp add: only_file_def)

lemma only_file_save: "only_file f s (s\<lparr>ls_disk := fst (save_file f c (ls_disk s))\<rparr>)"
  by (simp add: only_file_def save_frame)

lemma apply_frame:
  assumes "adapters_keyed s"
  shows "only_file (token_file (pf_endpoint_name flow)) s (apply_to_adapter env flow ts s) \<and>
    ls_flows (apply_to_adapter env flow ts s) = ls_flows s \<and>
    ls_setups (apply_to_adapter env flow ts s) = ls_setups s \<and>
    (\<forall>n. n \<noteq> pf_endpoint_name flow \<longrightarrow> adapter_of n (apply_to_adapter env flow ts s) = adapter_of n s)"
proof (cases "adapter_of (pf_endpoint_name flow) s")
  case None
  then show ?thesis
    by (auto simp: apply_to_adapter_def adapter_of_def bind_eq_None_conv split: option.splits)
next
  case (Some ca)
  obtain cfg a where ca: "ca = (cfg, a)" by fastforce
  then have name: "oc_endpoint_name cfg = pf_endpoint_name flow"
    using assms Some by (simp add: adapters_keyed_def)
  from Some obtain inners where i: "ls_adapters s = Some inners" "hm_get inners (pf_endpoint_name flow) = Some (cfg, a)"
    by (auto simp: adapter_of_def ca bind_eq_Some_conv)
  show ?thesis
    by (auto simp: apply_to_adapter_def i Let_def adapter_of_def store_simps only_file_def apply_tokens_disk name
        save_tokens_def save_frame set_client_credentials_def set_token_endpoint_override_def)
qed

lemma endpoint_frame:
  assumes "adapters_keyed s" and commit: "commit_endpoint env flow ts s = (s', page)"
  shows "only_file (token_file (pf_endpoint_name flow)) s s' \<and> ls_flows s' = ls_flows s \<and>
    ls_setups s' = ls_setups s \<and> (\<forall>n. n \<noteq> pf_endpoint_name flow \<longrightarrow> adapter_of n s' = adapter_of n s) \<and>
    (ls_has_tm s \<longrightarrow> snd (revalidate env flow s) \<longrightarrow> s' = s \<and> page = SUPERSEDED_BY_CLIENT)"
proof -
  let ?save = "\<lambda>s. s\<lparr>ls_disk := fst (save_tokens (ser_tokens (le_codec env)) (pf_endpoint_name flow) ts (ls_disk s))\<rparr>"
  have keyed: "adapters_keyed (?save s)" using assms(1) by (simp add: adapters_keyed_def adapter_of_def)
  have save: "only_file (token_file (pf_endpoint_name flow)) s (?save s)"
    by (simp add: save_tokens_def only_file_save)
  have r: "revalidate env flow s = (s, b) \<Longrightarrow> snd (revalidate env flow s) = b" for b by simp
  obtain b where b: "revalidate env flow s = (s, b)" by (metis prod.collapse revalidate_same)
  consider "\<not> ls_has_tm s" | "ls_has_tm s" "b" | "ls_has_tm s" "\<not> b" by blast
  then show ?thesis
  proof cases
    case 1
    with commit apply_frame [OF assms(1), of flow env ts] show ?thesis
      by (auto simp: commit_endpoint_def)
  next
    case 2
    with commit b show ?thesis by (auto simp: commit_endpoint_def)
  next
    case 3
    with commit b have "s' = apply_to_adapter env flow ts (?save s)" by (auto simp: commit_endpoint_def)
    moreover from save have "only_file (token_file (pf_endpoint_name flow)) s s'"
      using apply_frame [OF keyed, of flow env ts] only_file_trans calculation by blast
    ultimately show ?thesis
      using apply_frame [OF keyed, of flow env ts] 3 b by (auto simp: adapter_of_def)
  qed
qed

lemma setup_frame:
  assumes "commit_setup env sid_str ts s = (s', page)"
  shows "ls_flows s' = ls_flows s \<and> ls_disk s' = ls_disk s \<and> ls_adapters s' = ls_adapters s \<and>
    (ls_setups s' = ls_setups s \<or> (\<exists>sid m session. le_uuid env sid_str = Some sid \<and> ls_setups s = Some m \<and>
       hm_get m sid = Some session \<and> ss_status session \<noteq> Committing \<and>
       ls_setups s' = Some (hm_insert sid (session\<lparr>ss_tokens := Some ts, ss_status := Authorized\<rparr>) m)))"
  using assms
  by (auto simp: commit_setup_def mark_authorized_def split: option.splits prod.splits if_splits)

text \<open>C9: a callback commits only for a flow of its endpoint's current generation, and then to one place. An
  identity-provider login writes that provider's credential file and nothing of any endpoint. A setup login
  stores the tokens in the named session unless that is being committed. Any other login writes the endpoint's
  token file and touches the endpoint's adapter only; and nothing at all when the client on disk was replaced.\<close>

theorem commit_confined:
  assumes "adapters_keyed s" and "callback_commit env flow token_json s = (s', page)"
  shows "if \<not> flow_current flow s then s' = s \<and> page = SUPERSEDED_BY_RESET
    else case pf_idp_issuer flow of
      Some idp \<Rightarrow> ls_flows s' = ls_flows s \<and> ls_setups s' = ls_setups s \<and> ls_adapters s' = ls_adapters s \<and>
        only_file (idp_file (le_key_hash env) (unwrap_or idp (pf_idp_credential_key flow))) s s'
    | None \<Rightarrow> (case strip_prefix ''setup:'' (pf_endpoint_name flow) of
        Some sid_str \<Rightarrow> ls_flows s' = ls_flows s \<and> ls_disk s' = ls_disk s \<and> ls_adapters s' = ls_adapters s \<and>
          (ls_setups s' = ls_setups s \<or> (\<exists>sid m session. le_uuid env sid_str = Some sid \<and>
             ls_setups s = Some m \<and> hm_get m sid = Some session \<and> ss_status session \<noteq> Committing \<and>
             ls_setups s' = Some (hm_insert sid (session\<lparr>ss_tokens :=
               Some (callback_token_set (le_wall env) token_json), ss_status := Authorized\<rparr>) m)))
      | None \<Rightarrow> only_file (token_file (pf_endpoint_name flow)) s s' \<and> ls_flows s' = ls_flows s \<and>
          ls_setups s' = ls_setups s \<and> (\<forall>n. n \<noteq> pf_endpoint_name flow \<longrightarrow> adapter_of n s' = adapter_of n s) \<and>
          (ls_has_tm s \<longrightarrow> snd (revalidate env flow s) \<longrightarrow> s' = s \<and> page = SUPERSEDED_BY_CLIENT))"
proof -
  have idp: "only_file (idp_file (le_key_hash env) k) s
      (s\<lparr>ls_disk := fst (save_idp (le_ser_idp env) (le_key_hash env) k creds (ls_disk s))\<rparr>)" for k creds
    by (simp add: save_idp_def only_file_save)
  show ?thesis
  proof (cases "flow_current flow s")
    case False
    then show ?thesis using assms(2) by (simp add: callback_commit_def)
  next
    case cur: True
    consider i where "pf_idp_issuer flow = Some i"
      | sid_str where "pf_idp_issuer flow = None" "strip_prefix ''setup:'' (pf_endpoint_name flow) = Some sid_str"
      | "pf_idp_issuer flow = None" "strip_prefix ''setup:'' (pf_endpoint_name flow) = None"
      by (cases "pf_idp_issuer flow"; cases "strip_prefix ''setup:'' (pf_endpoint_name flow)") auto
    then show ?thesis
    proof cases
      case 1
      with cur show ?thesis
        using assms(2) by (auto simp: callback_commit_def commit_idp_def Let_def idp split: option.splits)
    next
      case 2
      with cur assms(2) have "commit_setup env sid_str (callback_token_set (le_wall env) token_json) s = (s', page)"
        by (simp add: callback_commit_def)
      from setup_frame [OF this] cur 2 show ?thesis by simp
    next
      case 3
      with cur assms(2) have "commit_endpoint env flow (callback_token_set (le_wall env) token_json) s = (s', page)"
        by (simp add: callback_commit_def)
      from endpoint_frame [OF assms(1) this] cur 3 show ?thesis by simp
    qed
  qed
qed

section \<open>Resets and callbacks\<close>

lemma begin_current:
  assumes "callback_begin env prm s = (s1, Inr (flow, form))"
  shows "flow_current flow s1"
  using assms by (auto simp: callback_begin_def Let_def split: option.splits prod.splits if_splits)

lemma disconnect_inner_flows [simp]: "ls_flows (fst (disconnect_inner env name inner s)) = ls_flows s"
  by (simp add: disconnect_inner_def split: prod.split)

lemma restore_flows [simp]: "ls_flows (restore_registration env name p s) = ls_flows s"
  by (simp add: restore_registration_def split: option.split)

lemma reset_invalidates:
  assumes "oauth_inner env name s = Inr inner"
  shows "ls_flows (fst (reset_grant env show name s)) = map_option (fstep (Invalidate name)) (ls_flows s)"
proof -
  have "fstep (Invalidate name) = (\<lambda>m. fst (invalidate_endpoint name m))" by (rule ext) simp
  moreover have "ls_flows x = ls_flows t" if "disconnect_inner env name inner t = (x, r)" for t x r
    using disconnect_inner_flows [of env name inner t] that by simp
  ultimately show ?thesis by (auto simp: reset_grant_def assms Let_def split: prod.splits sum.splits)
qed

text \<open>C8: a "Reset authorization" decides its race with a login. While the code is exchanged, and until the
  callback holds the commit lock, other logins of every endpoint may start, finish, expire and be reset (fewer
  than \<open>2 ^ 64\<close> times). If the login's own endpoint was reset, the callback changes nothing and says so; otherwise
  its flow is still current and it commits. A reset of a running OAuth endpoint counts even when it fails to
  delete the tokens.\<close>

theorem reset_decides_race:
  assumes begun: "callback_begin env prm s = (s1, Inr (flow, form))"
    and exchanged: "callback_exchanged env flow reply (meanwhile s1) = (s2, Inr token_json)"
    and before: "ls_flows s1 = Some m" and after: "ls_flows (waiting s2) = Some (apply_all fstep es m)"
    and few: "bump_count fstep (is_reset (pf_endpoint_name flow)) es m < 2 ^ 64"
  shows "(if bump_count fstep (is_reset (pf_endpoint_name flow)) es m = 0
     then flow_current flow (waiting s2) \<and>
       oauth_callback env prm reply meanwhile waiting s = callback_commit env flow token_json (waiting s2)
     else oauth_callback env prm reply meanwhile waiting s = (waiting s2, SUPERSEDED_BY_RESET)) \<and>
   (\<forall>menv show t inner. oauth_inner menv (pf_endpoint_name flow) t = Inr inner \<longrightarrow>
     ls_flows (fst (reset_grant menv show (pf_endpoint_name flow) t)) =
       map_option (fstep (Invalidate (pf_endpoint_name flow))) (ls_flows t))"
proof -
  let ?ep = "pf_endpoint_name flow"
  have gen: "pf_generation flow = generation ?ep m"
    using begin_current [OF begun] by (simp add: flow_current_def before is_current_def)
  have run: "oauth_callback env prm reply meanwhile waiting s = callback_commit env flow token_json (waiting s2)"
    by (simp add: oauth_callback_def begun exchanged)
  have cur: "flow_current flow (waiting s2) = (generation ?ep (apply_all fstep es m) = generation ?ep m)"
    by (simp add: flow_current_def after is_current_def gen eq_commute)
  show ?thesis
  proof (cases "bump_count fstep (is_reset ?ep) es m = 0")
    case True
    then have "flow_current flow (waiting s2)" using cur resets.epoch_unchanged by blast
    with True run show ?thesis by (simp add: reset_invalidates)
  next
    case False
    then have "\<not> flow_current flow (waiting s2)" using cur resets.epoch_detects few by blast
    with False run show ?thesis by (simp add: callback_commit_def reset_invalidates)
  qed
qed

section \<open>A login from start to callback\<close>

datatype document = Tokens_doc token_set | Client_doc dcr_credentials | Idp_doc idp_credentials

fun tokens_of :: "document \<Rightarrow> token_set option" where
  "tokens_of (Tokens_doc t) = Some t" | "tokens_of _ = None"

fun client_of :: "document \<Rightarrow> dcr_credentials option" where
  "client_of (Client_doc d) = Some d" | "client_of _ = None"

definition sample_codec :: "document codec" where
  "sample_codec = \<lparr>ser_tokens = Tokens_doc, de_tokens = tokens_of, ser_dcr = Client_doc, de_dcr = client_of\<rparr>"

definition sample_login :: "document login_env" where
  "sample_login = \<lparr>le_codec = sample_codec, le_ser_idp = Idp_doc, le_key_hash = id, le_now = 5, le_wall = 100,
     le_mono = secs 1000, le_init = InitOk 0 None 0 0, le_decode = Some, le_json = (\<lambda>_. None), le_uuid = (\<lambda>_. None)\<rparr>"

definition empty_dir :: "document world" where
  "empty_dir = \<lparr>io = (\<lambda>_. None), junk = None, default_mode = 420, files = []\<rparr>"

definition sample_flow :: pending_flow where
  "sample_flow = make_flow 0 demo_request None 0"

definition sample_state :: "document login_state" where
  "sample_state = \<lparr>ls_flows = Some \<lparr>pending = [(''st'', sample_flow)], generations = []\<rparr>, ls_has_tm = True,
     ls_disk = empty_dir, ls_setups = None, ls_adapters = Some []\<rparr>"

definition sample_params :: callback_params where
  "sample_params = \<lparr>cp_code = Some ''code'', cp_state = Some ''st'', cp_error = None, cp_iss = None\<rparr>"

definition sample_reply :: json where
  "sample_reply = JObj [(''access_token'', JStr ''at'')]"

definition idle_state :: "document login_state" where
  "idle_state = sample_state\<lparr>ls_flows := Some new_flow_manager\<rparr>"

lemma sample_begin:
  "callback_begin sample_login sample_params sample_state = (idle_state, Inr (sample_flow, exchange_form ''code'' sample_flow))"
  by (simp add: callback_begin_def sample_params_def sample_state_def sample_login_def consume_flow_def
      hm_get_Cons hm_remove_def FLOW_MAX_AGE_def flow_current_def is_current_def generation_def unwrap_or_def
      idle_state_def new_flow_manager_def superseded_def read_client_def sample_codec_def load_dcr_def load_file_def
      empty_dir_def client_replaced_def sample_flow_def make_flow_def demo_request_def)

lemma sample_exchange:
  "callback_exchanged sample_login sample_flow (Exchanged 200 None (Inr sample_reply)) idle_state =
     (idle_state, Inr sample_reply)"
  by (simp add: callback_exchanged_def sample_reply_def field_str_def hm_get_Cons unwrap_or_def)

definition reset_waiting :: "document login_state \<Rightarrow> document login_state" where
  "reset_waiting s = s\<lparr>ls_flows := map_option (fstep (Invalidate ''ep'')) (ls_flows s)\<rparr>"

theorem reset_decides_race_witness:
  "oauth_callback sample_login sample_params (Exchanged 200 None (Inr sample_reply)) id reset_waiting sample_state =
     (reset_waiting idle_state, SUPERSEDED_BY_RESET)"
proof -
  have ep: "pf_endpoint_name sample_flow = ''ep''" by (simp add: sample_flow_def make_flow_def demo_request_def)
  have exchanged: "callback_exchanged sample_login sample_flow (Exchanged 200 None (Inr sample_reply)) (id idle_state) =
      (idle_state, Inr sample_reply)"
    by (simp add: sample_exchange)
  have before: "ls_flows idle_state = Some new_flow_manager" by (simp add: idle_state_def)
  have after: "ls_flows (reset_waiting idle_state) = Some (apply_all fstep [Invalidate ''ep''] new_flow_manager)"
    by (simp add: reset_waiting_def idle_state_def)
  from reset_decides_race [where meanwhile = id and waiting = reset_waiting and es = "[Invalidate ''ep'']",
      OF sample_begin exchanged before after] show ?thesis by (auto simp: ep)
qed

theorem commit_confined_witness:
  "only_file ''ep.json'' idle_state
     (fst (callback_commit sample_login sample_flow sample_reply idle_state))"
proof -
  have keyed: "adapters_keyed idle_state"
    by (simp add: adapters_keyed_def adapter_of_def idle_state_def sample_state_def)
  have "flow_current sample_flow idle_state" "pf_idp_issuer sample_flow = None" "pf_endpoint_name sample_flow = ''ep''"
    by (simp_all add: flow_current_def idle_state_def is_current_def sample_flow_def make_flow_def demo_request_def
        generation_def new_flow_manager_def unwrap_or_def)
  then show ?thesis
    using commit_confined [OF keyed, of sample_login sample_flow sample_reply
        "fst (callback_commit sample_login sample_flow sample_reply idle_state)"
        "snd (callback_commit sample_login sample_flow sample_reply idle_state)"]
    by (simp add: token_file_def)
qed

section \<open>Stored credentials\<close>

text \<open>Reading a stored record back, on a directory whose reads succeed.\<close>

lemma load_after_save:
  assumes rt: "\<And>d. de (ser d) = Some d" and saved: "save_dcr ser n d w = (w1, Inr u)"
    and readable: "io w (OpRead (dcr_file n)) = None"
  shows "load_dcr de n w1 = Inr (Some d)"
  using save_file_outcome [OF saved [unfolded save_dcr_def]] save_file_io [OF saved [unfolded save_dcr_def]]
    readable rt by (simp add: load_dcr_def load_file_def)

lemma save_succeeds:
  assumes "\<And>op. io w op = None"
  obtains w1 where "save_dcr ser n d w = (w1, Inr ())"
  using assms that by (auto simp: save_dcr_def save_file_def file_ops store_simps)

lemma load_after_failed_save:
  assumes "save_dcr ser n d w = (w1, Inl e)"
  shows "load_dcr de n w1 = load_dcr de n w"
proof -
  have "hm_get (files w1) (dcr_file n) = hm_get (files w) (dcr_file n)" "io w1 = io w"
    using save_file_outcome [OF assms [unfolded save_dcr_def]] save_file_io [OF assms [unfolded save_dcr_def]] by simp_all
  then show ?thesis by (simp add: load_dcr_def load_file_def split: option.split)
qed

lemma delete_file_outcome:
  assumes "delete_file f w = (w1, r)"
  shows "io w1 = io w" "case r of Inr _ \<Rightarrow> hm_get (files w1) f = None | Inl _ \<Rightarrow> w1 = w"
  using assms by (auto simp: delete_file_def store_simps split: option.splits)

text \<open>An atomic update stores what its closure returns, or leaves the record alone.\<close>

lemma update_dcr_outcome:
  assumes rt: "\<And>d. de (ser d) = Some d" and up: "update_dcr ser de n upd w = (w1, r)"
    and readable: "io w (OpRead (dcr_file n)) = None"
  shows "case r of
      Inr saved \<Rightarrow> load_dcr de n w1 = Inr saved \<and>
        (\<exists>existing. load_dcr de n w = Inr existing \<and> upd existing = Inr saved)
    | Inl _ \<Rightarrow> load_dcr de n w1 = load_dcr de n w"
proof (cases "load_dcr de n w")
  case (Inl e)
  with up have "r = Inl e" "w1 = w" by (simp_all add: update_dcr_def)
  then show ?thesis by simp
next
  case (Inr existing)
  show ?thesis
  proof (cases "upd existing")
    case (Inl e)
    with Inr up have "r = Inl e" "w1 = w" by (simp_all add: update_dcr_def)
    then show ?thesis by simp
  next
    case new: (Inr c)
    show ?thesis
    proof (cases c)
      case None
      have "load_dcr de n w2 = Inr None" if "delete_dcr n w = (w2, Inr u)" for w2 u
        using delete_file_outcome [OF that [unfolded delete_dcr_def]] readable
        by (simp add: load_dcr_def load_file_def)
      moreover have "w2 = w" if "delete_dcr n w = (w2, Inl e)" for w2 e
        using delete_file_outcome [OF that [unfolded delete_dcr_def]] by simp
      ultimately show ?thesis using Inr new None up
        by (auto simp: update_dcr_def split: prod.splits sum.splits)
    next
      case (Some d)
      show ?thesis
      proof (cases "existing = Some d")
        case True
        with Inr new Some up have "r = Inr (Some d)" "w1 = w" by (simp_all add: update_dcr_def)
        with Inr new Some True show ?thesis by simp
      next
        case False
        obtain w2 q where s: "save_dcr ser n d w = (w2, q)" by fastforce
        show ?thesis
        proof (cases q)
          case (Inl e)
          with s False Inr new Some up have "r = Inl e" "w1 = w2" by (simp_all add: update_dcr_def)
          with load_after_failed_save s Inl show ?thesis by fastforce
        next
          case Inr': (Inr u)
          with s False Inr new Some up have "r = Inr (Some d)" "w1 = w2" by (simp_all add: update_dcr_def)
          with load_after_save [OF rt s [unfolded Inr'] readable] Inr new Some show ?thesis by simp
        qed
      qed
    qed
  qed
qed

text \<open>The two groups of a stored record.\<close>

definition requesting :: "dcr_credentials option \<Rightarrow> string \<times> string option \<times> string option \<times> bool" where
  "requesting r = (case r of None \<Rightarrow> ([], None, None, False)
     | Some d \<Rightarrow> (client_id d, client_secret d, issuer d, registered_via_dcr d))"

definition resource_pair :: "dcr_credentials option \<Rightarrow> string option \<times> string option" where
  "resource_pair r = (Option.bind r resource_client_id, Option.bind r resource_client_secret)"

definition storable :: "dcr_credentials option \<Rightarrow> bool" where
  "storable r = (case r of None \<Rightarrow> True | Some d \<Rightarrow>
     (client_secret d \<noteq> None \<longrightarrow> client_id d \<noteq> []) \<and>
     (resource_client_secret d \<noteq> None \<longrightarrow> (\<exists>rid. resource_client_id d = Some rid \<and> trim rid \<noteq> [])))"

lemma set_credentials_cases:
  assumes "set_credentials_update now_secs rq existing = Inr saved"
  defines "m \<equiv> merged_client now_secs rq existing"
  shows "client_secret m \<noteq> None \<longrightarrow> client_id m \<noteq> []"
    "resource_client_secret m \<noteq> None \<longrightarrow> trim (unwrap_or [] (resource_client_id m)) \<noteq> []"
    "saved = Some m \<or> saved = None \<and> client_id m = [] \<and> client_secret m = None \<and>
       resource_client_id m = None \<and> resource_client_secret m = None"
  using assms(1) unfolding m_def set_credentials_update_def Let_def by (auto split: if_splits)

lemma trim_nil [simp]: "trim [] = []"
  by (simp add: trim_def trim_by_def chars_ascii is_ascii_def utf8_def)

lemma merged_groups:
  "rq_client_id rq = None \<Longrightarrow> rq_client_secret rq = None \<Longrightarrow>
     requesting (Some (merged_client now_secs rq existing)) = requesting existing"
  "rq_client_id rq \<noteq> None \<or> rq_client_secret rq \<noteq> None \<Longrightarrow>
     issuer (merged_client now_secs rq existing) = None \<and> \<not> registered_via_dcr (merged_client now_secs rq existing)"
  "rq_resource_client_id rq = None \<Longrightarrow> rq_resource_client_secret rq = None \<Longrightarrow>
     resource_pair (Some (merged_client now_secs rq existing)) = resource_pair existing"
  by (auto simp: merged_client_def Let_def requesting_def resource_pair_def split: option.splits)

lemma set_credentials_storable:
  assumes "set_credentials_update now_secs rq existing = Inr saved"
  shows "storable saved"
  using set_credentials_cases [OF assms] by (auto simp: storable_def unwrap_or_def split: option.splits)

lemma set_credentials_resource:
  assumes "set_credentials_update now_secs rq existing = Inr saved"
    and "rq_resource_client_id rq = None" "rq_resource_client_secret rq = None"
  shows "resource_pair saved = resource_pair existing"
  using set_credentials_cases [OF assms(1)] merged_groups(3) [OF assms(2,3), of now_secs existing]
  by (auto simp: resource_pair_def)

lemma update_client_outcome:
  assumes rt: "\<And>d. de_dcr cd (ser_dcr cd d) = Some d" and up: "update_client cd n upd w = (w1, r)"
    and readable: "io w (OpRead (dcr_file n)) = None"
  shows "case r of
      Inr saved \<Rightarrow> load_dcr (de_dcr cd) n w1 = Inr saved \<and>
        (\<exists>existing. load_dcr (de_dcr cd) n w = Inr existing \<and> upd existing = Inr saved)
    | Inl _ \<Rightarrow> load_dcr (de_dcr cd) n w1 = load_dcr (de_dcr cd) n w"
proof -
  consider e where "load_dcr (de_dcr cd) n w = Inl e"
    | existing e where "load_dcr (de_dcr cd) n w = Inr existing" "upd existing = Inl e"
    | existing new where "load_dcr (de_dcr cd) n w = Inr existing" "upd existing = Inr new"
    by (metis sum.exhaust)
  then show ?thesis
  proof cases
    case 1
    with up have "r = Inl (Storage e)" "w1 = w" by (simp_all add: update_client_def)
    then show ?thesis by simp
  next
    case 2
    with up have "r = Inl e" "w1 = w" by (simp_all add: update_client_def)
    then show ?thesis by simp
  next
    case 3
    obtain w2 q where q: "update_dcr (ser_dcr cd) (de_dcr cd) n (\<lambda>_. Inr new) w = (w2, q)" by fastforce
    with 3 up have "w1 = w2" "r = map_sum Storage id q"
      by (auto simp: update_client_def split: sum.splits)
    with update_dcr_outcome [OF rt q readable] 3 show ?thesis by (cases q) auto
  qed
qed

text \<open>Storing credentials for an endpoint, whatever file operation fails. Unless the answer is 200 the record
  is as it was. After a 200 the record on disk pairs each secret with a client id; a request that names neither
  requesting field leaves that group with its provenance and issuer, one that names either marks the record as
  supplied by hand; a request that names no resource field leaves the resource pair.\<close>

theorem credentials_merge:
  assumes rt: "\<And>d. de_dcr (le_codec (mg_login env)) (ser_dcr (le_codec (mg_login env)) d) = Some d"
    and readable: "io (ls_disk s) (OpRead (dcr_file name)) = None"
    and set: "set_endpoint_credentials env show name rq s = (s', resp)"
  shows "if ar_status resp = 200
    then \<exists>old new. read_client (mg_login env) name s = Inr old \<and> read_client (mg_login env) name s' = Inr new \<and>
      storable new \<and>
      (if rq_client_id rq = None \<and> rq_client_secret rq = None
       then new = None \<or> requesting new = requesting old
       else \<forall>d. new = Some d \<longrightarrow> issuer d = None \<and> \<not> registered_via_dcr d) \<and>
      (rq_resource_client_id rq = None \<and> rq_resource_client_secret rq = None \<longrightarrow>
        resource_pair new = resource_pair old)
    else read_client (mg_login env) name s' = read_client (mg_login env) name s"
proof -
  let ?cd = "le_codec (mg_login env)"
  let ?upd = "set_credentials_update (le_wall (mg_login env)) rq"
  obtain w1 r where u: "update_client ?cd name ?upd (ls_disk s) = (w1, r)" by fastforce
  note outcome = update_client_outcome [OF rt u readable]
  consider "s' = s" "ar_status resp \<noteq> 200"
    | e where "r = Inl e" "s' = s\<lparr>ls_disk := w1\<rparr>" "ar_status resp \<noteq> 200"
    | saved where "r = Inr saved" "s' = s\<lparr>ls_disk := w1\<rparr>" "ar_status resp = 200"
    using set u by (auto simp: set_endpoint_credentials_def endpoint_not_found_def STORAGE_UNAVAILABLE_def
        error_response_def ok_response_def split: if_splits sum.splits set_creds_error.splits)
  then show ?thesis
  proof cases
    case 1
    then show ?thesis by simp
  next
    case 2
    with outcome show ?thesis by (simp add: read_client_def)
  next
    case 3
    with outcome obtain existing where e: "load_dcr (de_dcr ?cd) name w1 = Inr saved"
        "load_dcr (de_dcr ?cd) name (ls_disk s) = Inr existing" "?upd existing = Inr saved" by auto
    have "storable saved" using set_credentials_storable [OF e(3)] .
    moreover have "saved = None \<or> saved = Some (merged_client (le_wall (mg_login env)) rq existing)"
      using set_credentials_cases(3) [OF e(3)] by blast
    ultimately show ?thesis
      using 3 e merged_groups set_credentials_resource [OF e(3)] by (auto simp: read_client_def)
  qed
qed

section \<open>Starting\<close>

lemma status_error [simp]: "ar_status (error_response n e d) = n" "ar_status (ok_response j) = 200"
  by (simp_all add: error_response_def ok_response_def)

lemma refusals [simp]:
  "ar_status (endpoint_not_found n) = 404" "ar_status START_SUPERSEDED = 409" "ar_status SUPERSEDED_START = 409"
  "ar_status (dcr_unsupported rs m) = 422" "ar_status (start_response rs b u) = 200"
  by (simp_all add: endpoint_not_found_def START_SUPERSEDED_def SUPERSEDED_START_def dcr_unsupported_def start_response_def)

lemma resolve_server_refused: "resolve_server env ep ins = Inl r \<Longrightarrow> ar_status r \<noteq> 200"
  by (auto simp: resolve_server_def split: option.splits sum.splits if_splits)

lemma reregister_refused: "reregister env name rs ex creds out s = (s1, Inl r) \<Longrightarrow> ar_status r \<noteq> 200"
  by (auto simp: reregister_def Let_def split: sum.splits if_splits)

lemma register_first_refused: "register_first env name rs out s = (s1, Inl r) \<Longrightarrow> ar_status r \<noteq> 200"
  by (auto simp: register_first_def Let_def split: sum.splits if_splits)

lemma resolve_client_refused:
  "resolve_client env name ep uri ins rs registering s = (s1, Inl r) \<Longrightarrow> ar_status r \<noteq> 200"
  by (auto simp: resolve_client_def Let_def dest: reregister_refused register_first_refused
      split: option.splits if_splits)

text \<open>A start that answers 200 went all the way and registered its login.\<close>

lemma start_success:
  assumes start: "oauth_start_inner env discovering registering name force_consent s = (s', resp)"
    and ok200: "ar_status resp = 200"
  obtains ep rs choice s1 m m1 where
    "find_endpoint (mg_config env) name = Some ep" "ls_flows s = Some m"
    "resolve_server env ep (unwrap_or False (rc_allow_insecure_oauth (cf_relay (mg_config env)))) = Inr rs"
    "resolve_client env name ep (redirect_uri_of env)
       (unwrap_or False (rc_allow_insecure_oauth (cf_relay (mg_config env)))) rs registering (discovering s) = (s1, Inr choice)"
    "ls_flows s1 = Some m1" "generation name m1 = generation name m"
    "s' = s1\<lparr>ls_flows := Some (m1\<lparr>pending := hm_insert (mg_state env) (make_flow (le_now (mg_login env))
       (login_request env name rs (redirect_uri_of env) choice) None (generation name m)) (pending m1)\<rparr>)\<rparr>"
proof -
  let ?ins = "unwrap_or False (rc_allow_insecure_oauth (cf_relay (mg_config env)))"
  obtain ep where ep: "find_endpoint (mg_config env) name = Some ep"
    using assms by (cases "find_endpoint (mg_config env) name") (auto simp: oauth_start_inner_def)
  obtain m where m: "ls_flows s = Some m"
    using assms ep by (cases "ls_flows s") (auto simp: oauth_start_inner_def)
  obtain rs where rs: "resolve_server env ep ?ins = Inr rs"
    using assms ep m resolve_server_refused [of env ep ?ins]
    by (cases "resolve_server env ep ?ins") (auto simp: oauth_start_inner_def Let_def)
  obtain s1 q where q: "resolve_client env name ep (redirect_uri_of env) ?ins rs registering (discovering s) = (s1, q)"
    by fastforce
  then obtain choice where choice: "q = Inr choice"
    using assms ep m rs resolve_client_refused [of env name ep "redirect_uri_of env" ?ins rs registering "discovering s" s1]
    by (cases q) (auto simp: oauth_start_inner_def Let_def)
  have reg: "register_login env name ep (generation name m) (redirect_uri_of env) force_consent rs choice s1 = (s', resp)"
    using start ep m rs q choice by (simp add: oauth_start_inner_def Let_def)
  obtain m1 where m1: "ls_flows s1 = Some m1"
    using reg ok200 by (cases "ls_flows s1") (auto simp: register_login_def)
  have name: "fq_endpoint_name (login_request env name rs u choice) = name" for u by (simp add: login_request_def)
  from reg m1 ok200 have "generation name m1 = generation name m"
    by (auto simp: register_login_def start_flow_if_current_def name Let_def split: if_splits)
  with reg m1 have "s' = s1\<lparr>ls_flows := Some (m1\<lparr>pending := hm_insert (mg_state env) (make_flow (le_now (mg_login env))
       (login_request env name rs (redirect_uri_of env) choice) None (generation name m)) (pending m1)\<rparr>)\<rparr>"
    by (auto simp: register_login_def start_flow_if_current_def name Let_def)
  with that ep m rs q choice m1 \<open>generation name m1 = generation name m\<close> show ?thesis by blast
qed


text \<open>An endpoint whose configured client id differs from the one stored by hand can never log in: the start
  answers 200 with the configured id, and every callback for that login, whatever the authorization server
  sends, is refused as superseded by a newer registration before the code is exchanged.\<close>

theorem mismatched_client_never_logs_in:
  assumes start: "oauth_start_inner env discovering registering name force_consent s = (s', resp)"
    and ok200: "ar_status resp = 200"
    and ep: "find_endpoint (mg_config env) name = Some ep" "ec_client_id ep = Some cid"
    and stored: "loaded_client env name (discovering s) = Some creds" "\<not> registered_via_dcr creds"
      "client_id creds \<noteq> []" "client_id creds \<noteq> cid"
    and same_store: "le_codec cenv = le_codec (mg_login env)"
    and returned: "cp_state prm = Some (mg_state env)"
  shows "\<exists>page. snd (callback_begin cenv prm s') = Inl page"
proof -
  obtain ep' rs choice s1 m m1 where ok: "find_endpoint (mg_config env) name = Some ep'"
      "resolve_client env name ep' (redirect_uri_of env)
         (unwrap_or False (rc_allow_insecure_oauth (cf_relay (mg_config env)))) rs registering (discovering s) = (s1, Inr choice)"
      "ls_flows s1 = Some m1"
      "s' = s1\<lparr>ls_flows := Some (m1\<lparr>pending := hm_insert (mg_state env) (make_flow (le_now (mg_login env))
         (login_request env name rs (redirect_uri_of env) choice) None (generation name m)) (pending m1)\<rparr>)\<rparr>"
    by (rule start_success [OF start ok200]) blast
  define flow where "flow = make_flow (le_now (mg_login env))
      (login_request env name rs (redirect_uri_of env) choice) None (generation name m)"
  have chosen: "s1 = discovering s" "choice = (cid, ec_client_secret ep, False)"
    using ok(1,2) ep stored
    by (auto simp: resolve_client_def invalidate_mismatched_def Let_def split: option.splits)
  have flow: "pf_client_id flow = cid" "pf_endpoint_name flow = name" "pf_idp_issuer flow = None"
    by (simp_all add: flow_def make_flow_def login_request_def chosen)
  have flows: "ls_flows s' = Some (m1\<lparr>pending := hm_insert (mg_state env) flow (pending m1)\<rparr>)"
    by (simp add: ok flow_def)
  have "ls_has_tm s1" "read_client (mg_login env) name s1 = Inr (Some creds)"
    using stored(1) by (auto simp: loaded_client_def chosen split: if_splits sum.splits)
  then have "superseded cenv flow (s'\<lparr>ls_flows := x\<rparr>)" for x
    using stored by (simp add: superseded_def flow ok read_client_def same_store client_replaced_def)
  then show ?thesis
    by (auto simp: callback_begin_def returned flows consume_flow_def store_simps Let_def split: option.splits)
qed

text \<open>The client chosen when the start has read a record supplied by hand.\<close>

lemma manual_choice:
  assumes "loaded_client env name s = Some creds" "\<not> registered_via_dcr creds"
  shows "resolve_client env name ep uri ins rs registering s =
    (s, Inr (case ec_client_id ep of
       Some cid \<Rightarrow> (cid, (if client_id creds = cid then client_secret creds else ec_client_secret ep), False)
     | None \<Rightarrow> (client_id creds, client_secret creds, True)))"
  using assms by (auto simp: resolve_client_def invalidate_mismatched_def Let_def split: option.splits)

text \<open>A record that holds only a resource pair stands in the way of registration. When such a record is stored
  and no client id is configured, a start registers no client, even where the server offers registration: a 200
  hands out a login whose client id is empty.\<close>

theorem resource_record_blocks_registration:
  assumes start: "oauth_start_inner env discovering registering name force_consent s = (s', resp)"
    and ok200: "ar_status resp = 200"
    and ep: "find_endpoint (mg_config env) name = Some ep" "ec_client_id ep = None"
    and stored: "loaded_client env name (discovering s) = Some creds" "\<not> registered_via_dcr creds" "client_id creds = []"
  shows "ls_disk s' = ls_disk (discovering s) \<and>
    (\<exists>m flow. ls_flows s' = Some m \<and> hm_get (pending m) (mg_state env) = Some flow \<and> pf_client_id flow = [])"
proof -
  obtain ep' rs choice s1 m m1 where ok: "find_endpoint (mg_config env) name = Some ep'"
      "resolve_client env name ep' (redirect_uri_of env)
         (unwrap_or False (rc_allow_insecure_oauth (cf_relay (mg_config env)))) rs registering (discovering s) = (s1, Inr choice)"
      "ls_flows s1 = Some m1"
      "s' = s1\<lparr>ls_flows := Some (m1\<lparr>pending := hm_insert (mg_state env) (make_flow (le_now (mg_login env))
         (login_request env name rs (redirect_uri_of env) choice) None (generation name m)) (pending m1)\<rparr>)\<rparr>"
    by (rule start_success [OF start ok200]) blast
  have "s1 = discovering s" "choice = ([], client_secret creds, True)"
    using ok(1,2) ep stored by (auto simp: manual_choice)
  then show ?thesis
    by (simp add: ok(4) store_simps make_flow_def login_request_def)
qed

text \<open>A start that read a registered client and finds a manual one when it saves writes nothing.\<close>

lemma update_declined:
  assumes "upd existing = Inr existing" "load_dcr de n w = Inr existing"
  shows "fst (update_dcr ser de n upd w) = w"
  using assms by (auto simp: update_dcr_def delete_dcr_def delete_file_def load_dcr_def load_file_def
      split: option.splits)

text \<open>Credentials supplied by hand survive a re-registration, however they arrive. If the start read a stored
  record and finds one supplied by hand when it comes to save, it writes nothing, and if the registration
  succeeded it hands out no login. A first registration, which read no record, has no such check: what was
  stored meanwhile is overwritten with the registered client.\<close>

theorem registration_and_manual_clients:
  assumes rt: "\<And>d. de_dcr (le_codec (mg_login env)) (ser_dcr (le_codec (mg_login env)) d) = Some d"
    and readable: "io (ls_disk (registering s)) (OpRead (dcr_file name)) = None"
    and writable: "\<And>op. io (ls_disk (registering s)) op = None"
    and tm: "ls_has_tm s" "ls_has_tm (registering s)"
    and manual: "read_client (mg_login env) name (registering s) = Inr (Some c)" "\<not> registered_via_dcr c"
    and registered: "rs_registration_endpoint rs = Some reg"
      "register_client (mg_net env) reg uri name ins = Inr new"
    and run: "resolve_client env name ep uri ins rs registering s = (s', r)"
  shows "case loaded_client env name s of
      Some creds \<Rightarrow> registered_via_dcr creds \<longrightarrow> s' = registering s \<and> r = Inl START_SUPERSEDED
    | None \<Rightarrow> ec_client_id ep = None \<longrightarrow> read_client (mg_login env) name s' =
        Inr (Some (fresh_client (le_wall (mg_login env)) new (rs_issuer rs) None)) \<and>
        r = Inr (cr_client_id new, cr_client_secret new, True)"
proof (cases "loaded_client env name s")
  case (Some creds)
  have keep: "registered_via_dcr creds'" if "registered_via_dcr creds"
      "invalidate_mismatched i (Some creds) = Some creds'" for i creds'
    using that by (auto simp: invalidate_mismatched_def split: if_splits)
  have no_match: "\<not> matches_snapshot ex (Some c)" for ex
    using manual(2) by (simp add: matches_snapshot_def split: option.split)
  have same: "fst (update_dcr ser (de_dcr (le_codec (mg_login env))) name
      (\<lambda>current. if \<not> matches_snapshot ex current then Inr current else f current) (ls_disk (registering s))) =
      ls_disk (registering s)" for ser ex f
    by (rule update_declined [where existing = "Some c"]) (use no_match manual(1) in \<open>simp_all add: read_client_def\<close>)
  have "reregister env name rs ex creds' (Inr new) (registering s) = (registering s, Inl START_SUPERSEDED)" for ex creds'
    using same by (simp add: reregister_def Let_def tm manual(1) no_match)
  moreover obtain creds' where "invalidate_mismatched (rs_issuer rs) (Some creds) = Some creds'"
    by (cases "dcr_issuer_allows_reuse (issuer creds) (rs_issuer rs)"; cases "registered_via_dcr creds")
       (auto simp: invalidate_mismatched_def)
  ultimately show ?thesis
    using run keep registered Some by (auto simp: resolve_client_def Let_def)
next
  case None
  let ?d = "fresh_client (le_wall (mg_login env)) new (rs_issuer rs) None"
  let ?ser = "ser_dcr (le_codec (mg_login env))"
  obtain w where w: "save_dcr ?ser name ?d (ls_disk (registering s)) = (w, Inr ())"
    by (rule save_succeeds [OF writable])
  have "load_dcr (de_dcr (le_codec (mg_login env))) name w = Inr (Some ?d)"
    using load_after_save [OF rt w readable] .
  with run None registered w tm show ?thesis
    by (auto simp: resolve_client_def invalidate_mismatched_def Let_def register_first_def read_client_def)
qed

section \<open>Resetting\<close>

lemma transition_keeps [simp]:
  "tokens (transition_to now st r s) = tokens s" "state (transition_to now st r s) = st"
  "inner_adapter (transition_to now st r s) = inner_adapter s" "refresh_task (transition_to now st r s) = refresh_task s"
  by (auto simp: transition_to_def recorded_transition_def clear_fingerprint_on_degraded_def upd_tick_def
      do_transition_def Let_def split: prod.splits)

lemma begin_keeps [simp]:
  "disk (disconnect_begin s) = disk s" "tokens (disconnect_begin s) = None"
  "inner_adapter (disconnect_begin s) = None" "refresh_task (disconnect_begin s) = None"
  by (auto simp: disconnect_begin_def swap_tools_forwarder_def upd_tick_def)

lemma disconnect_outcome:
  assumes "disconnect cfg now a = (a', r)"
  shows "tokens a' = None" "inner_adapter a' = None" "refresh_task a' = None" "state a' = Disconnected"
    "disk a' = fst (delete_dcr (oc_endpoint_name cfg) (fst (delete_tokens (oc_endpoint_name cfg) (disk a))))"
    "r = snd (delete_tokens (oc_endpoint_name cfg) (disk a))"
  using assms by (auto simp: disconnect_def disconnect_end_def Let_def split: prod.splits)

lemma files_distinct [simp]: "token_file n \<noteq> dcr_file n" "dcr_file n \<noteq> token_file n"
  by (simp_all add: token_file_def dcr_file_def)

lemma delete_file_gone:
  "io w (OpRemove f) = None \<Longrightarrow> hm_get (files (fst (delete_file f w))) f = None \<and> snd (delete_file f w) = Inr ()"
  by (auto simp: delete_file_def store_simps split: option.split)

lemma delete_file_io [simp]: "io (fst (delete_file f w)) = io w"
  by (auto simp: delete_file_def split: option.split)

lemma delete_file_kept:
  "io w (OpRemove f) = Some e \<Longrightarrow> hm_get (files w) f \<noteq> None \<Longrightarrow> delete_file f w = (w, Inl (Io e))"
  by (auto simp: delete_file_def)

lemma load_file_gone: "hm_get (files w) f = None \<Longrightarrow> io w (OpRead f) = None \<Longrightarrow> load_file de f w = Inr None"
  by (simp add: load_file_def)

lemma oauth_inner_adapter: "oauth_inner env name s = Inr inner \<Longrightarrow> adapter_of name s = Some inner"
  by (auto simp: oauth_inner_def adapter_of_def split: option.splits if_splits)

lemma disconnect_inner_outcome:
  assumes "disconnect_inner env name inner s = (s', r)" "oc_endpoint_name (fst inner) = name" "adapter_of name s = Some inner"
  shows "\<exists>a. adapter_of name s' = Some (fst inner, a) \<and> tokens a = None \<and> inner_adapter a = None \<and>
      refresh_task a = None \<and> state a = Disconnected"
    "ls_disk s' = fst (delete_dcr name (fst (delete_tokens name (ls_disk s))))"
    "r = snd (delete_tokens name (ls_disk s))" "ls_has_tm s' = ls_has_tm s"
proof -
  obtain a r' where d: "disconnect (fst inner) (le_mono (mg_login env)) ((snd inner)\<lparr>disk := ls_disk s\<rparr>) = (a, r')"
    by fastforce
  note out = disconnect_outcome [OF d]
  have s': "s' = s\<lparr>ls_adapters := map_option (hm_insert name (fst inner, a)) (ls_adapters s), ls_disk := disk a\<rparr>" "r = r'"
    using assms(1) d by (simp_all add: disconnect_inner_def)
  obtain inners where "ls_adapters s = Some inners" using assms(3) by (auto simp: adapter_of_def bind_eq_Some_conv)
  then show "\<exists>a. adapter_of name s' = Some (fst inner, a) \<and> tokens a = None \<and> inner_adapter a = None \<and>
      refresh_task a = None \<and> state a = Disconnected"
    using out by (auto simp: adapter_of_def s' store_simps)
  show "ls_disk s' = fst (delete_dcr name (fst (delete_tokens name (ls_disk s))))"
    "r = snd (delete_tokens name (ls_disk s))" "ls_has_tm s' = ls_has_tm s"
    using out assms(2) by (simp_all add: s')
qed

text \<open>A reset whose file operations succeed discards the grant and nothing else: no token file, no tokens, no
  transport and no refresh task remain, the adapter is disconnected, and the client registration on disk is what
  it was.\<close>

theorem reset_discards_only_the_grant:
  assumes rt: "\<And>d. de_dcr (le_codec (mg_login env)) (ser_dcr (le_codec (mg_login env)) d) = Some d"
    and inner: "oauth_inner env name s = Inr inner" and keyed: "adapters_keyed s" and tm: "ls_has_tm s"
    and works: "\<And>op. io (ls_disk s) op = None"
    and record_: "read_client (mg_login env) name s = Inr old"
    and run: "reset_grant env show name s = (s', r)"
  shows "r = Inr () \<and> read_client (mg_login env) name s' = Inr old \<and>
    hm_get (files (ls_disk s')) (token_file name) = None \<and>
    (\<exists>cfg a. adapter_of name s' = Some (cfg, a) \<and> tokens a = None \<and> inner_adapter a = None \<and>
      refresh_task a = None \<and> state a = Disconnected)"
proof -
  let ?cd = "le_codec (mg_login env)"
  let ?s1 = "s\<lparr>ls_flows := map_option (\<lambda>m. fst (invalidate_endpoint name m)) (ls_flows s)\<rparr>"
  obtain s2 r2 where d: "disconnect_inner env name inner ?s1 = (s2, r2)" by fastforce
  have a1: "adapter_of name ?s1 = Some inner" using oauth_inner_adapter [OF inner] by (simp add: adapter_of_def)
  have name: "oc_endpoint_name (fst inner) = name"
    using keyed oauth_inner_adapter [OF inner] by (cases inner) (auto simp: adapters_keyed_def)
  note out = disconnect_inner_outcome [OF d name a1]
  let ?w = "fst (delete_tokens name (ls_disk s))"
  have r2: "r2 = Inr ()" using out(3) delete_file_gone [of "ls_disk s" "token_file name"] works by (simp add: delete_tokens_def)
  have disk2: "ls_disk s2 = fst (delete_dcr name ?w)" using out(2) by simp
  have io2: "io (ls_disk s2) op = None" for op using works by (simp add: disk2 delete_dcr_def delete_tokens_def)
  have gone: "hm_get (files (ls_disk s2)) (token_file name) = None"
    "hm_get (files (ls_disk s2)) (dcr_file name) = None"
    using delete_file_gone [of "ls_disk s" "token_file name"] delete_file_gone [of ?w "dcr_file name"] works
    by (simp_all add: disk2 delete_dcr_def delete_tokens_def delete_file_frame)
  have loaded: "loaded_client env name ?s1 = old"
    using record_ tm by (simp add: loaded_client_def read_client_def)
  have s': "s' = restore_registration env name old s2" "r = Inr ()"
    using run inner d r2 loaded by (simp_all add: reset_grant_def Let_def)
  show ?thesis
  proof (cases old)
    case None
    have "read_client (mg_login env) name s2 = Inr None"
      using load_file_gone [OF gone(2) io2] by (simp add: read_client_def load_dcr_def)
    with None s' gone out(1) show ?thesis by (auto simp: restore_registration_def)
  next
    case (Some creds)
    obtain w where w: "save_dcr (ser_dcr ?cd) name creds (ls_disk s2) = (w, Inr ())"
      by (rule save_succeeds [OF io2])
    have s'': "s' = s2\<lparr>ls_disk := w\<rparr>" using s' Some w out(4) tm by (simp add: restore_registration_def)
    have "token_file name \<noteq> tmp_of (dcr_file name)" by (auto simp: token_file_def dcr_file_def tmp_of_def)
    then have "hm_get (files w) (token_file name) = None"
      using save_file_frame [OF w [unfolded save_dcr_def], of "token_file name"] gone by simp
    moreover have "load_dcr (de_dcr ?cd) name w = Inr (Some creds)"
      using load_after_save [OF rt w io2] .
    ultimately show ?thesis using s'(2) s'' out(1) Some by (auto simp: read_client_def adapter_of_def)
  qed
qed

text \<open>A reset that cannot delete the token file loses the client registration. It answers 500 and asks for a
  retry, but its disconnect has already deleted the record, and the copy it took is not put back: a retry
  finds no registration to keep.\<close>

theorem failed_reset_loses_registration:
  assumes inner: "oauth_inner env name s = Inr inner" and keyed: "adapters_keyed s"
    and stuck: "io (ls_disk s) (OpRemove (token_file name)) = Some e"
      "hm_get (files (ls_disk s)) (token_file name) \<noteq> None"
    and works: "io (ls_disk s) (OpRemove (dcr_file name)) = None" "io (ls_disk s) (OpRead (dcr_file name)) = None"
    and run: "reset_grant env show name s = (s', r)"
  shows "(\<exists>resp. r = Inl resp \<and> ar_status resp = 500) \<and> read_client (mg_login env) name s' = Inr None"
proof -
  let ?s1 = "s\<lparr>ls_flows := map_option (\<lambda>m. fst (invalidate_endpoint name m)) (ls_flows s)\<rparr>"
  obtain s2 r2 where d: "disconnect_inner env name inner ?s1 = (s2, r2)" by fastforce
  have a1: "adapter_of name ?s1 = Some inner" using oauth_inner_adapter [OF inner] by (simp add: adapter_of_def)
  have name: "oc_endpoint_name (fst inner) = name"
    using keyed oauth_inner_adapter [OF inner] by (cases inner) (auto simp: adapters_keyed_def)
  note out = disconnect_inner_outcome [OF d name a1]
  have kept: "delete_tokens name (ls_disk s) = (ls_disk s, Inl (Io e))"
    using delete_file_kept [OF stuck] by (simp add: delete_tokens_def)
  have "s' = s2" "\<exists>resp. r = Inl resp \<and> ar_status resp = 500"
    using run inner d out(3) kept by (auto simp: reset_grant_def Let_def)
  moreover have "read_client (mg_login env) name s2 = Inr None"
    using out(2) kept delete_file_gone [OF works(1)] works(2)
    by (simp add: read_client_def load_dcr_def load_file_gone delete_dcr_def)
  ultimately show ?thesis by simp
qed

text \<open>The files of two endpoints can be one. The token file of an endpoint named like another with \<open>.dcr\<close>
  appended is the other's client record: saving the one's tokens leaves the other without readable
  credentials.\<close>

theorem token_file_overwrites_client:
  assumes "save_tokens ser (n @ ''.dcr'') t w = (w', Inr u)" and "de (ser t) = None"
    and "io w (OpRead (dcr_file n)) = None"
  shows "load_dcr de n w' = Inl (Json ''parse'')"
proof -
  have f: "token_file (n @ ''.dcr'') = dcr_file n" by (simp add: token_file_def dcr_file_def)
  show ?thesis
    using save_file_outcome [OF assms(1) [unfolded save_tokens_def f]]
      save_file_io [OF assms(1) [unfolded save_tokens_def f]] assms(2,3)
    by (simp add: load_dcr_def load_file_def)
qed

text \<open>Revoking leaves the logins in progress alone: the callback of one still commits.\<close>

lemma revoke_keeps_flows: "ls_flows (fst (oauth_revoke env show name s)) = ls_flows s"
proof (cases "oauth_inner env name s")
  case (Inl r)
  then show ?thesis by (simp add: oauth_revoke_def)
next
  case (Inr inner)
  obtain s1 r where d: "disconnect_inner env name inner s = (s1, r)" by fastforce
  then have "ls_flows s1 = ls_flows s" using disconnect_inner_flows [of env name inner s] by simp
  with Inr d show ?thesis by (auto simp: oauth_revoke_def split: sum.splits)
qed

text \<open>A login in progress undoes a revoke. A revoke takes neither the commit lock nor a new generation: whatever
  the state, a flow that was current stays current, so the callback of a login begun before the revoke passes
  the check of the commit section after it, which a reset would have failed.\<close>

theorem revoke_spares_logins:
  "flow_current flow (fst (oauth_revoke env show name s)) = flow_current flow s"
  by (simp add: flow_current_def revoke_keeps_flows)

section \<open>Instances\<close>

definition sample_endpoint :: endpoint_config where
  "sample_endpoint = \<lparr>ec_name = ''ep'', ec_description = None, ec_tool_prefix = None, ec_transport = Oauth,
     ec_command = None, ec_args = None, ec_url = Some ''https://mcp'', ec_env = None, ec_headers = None,
     ec_disabled = False, ec_disabled_tools = [], ec_oauth_server_url = Some ''https://as'', ec_client_id = Some ''cfg'',
     ec_client_secret = None, ec_scopes = None, ec_token_endpoint = None, ec_server_type_override = None,
     ec_isolation = None, ec_container_image = None, ec_mounts = None, ec_auth = None\<rparr>"

text \<open>An authorization server that publishes no metadata: the conventional endpoints are used.\<close>

definition silent_net :: oauth_net where
  "silent_net = \<lparr>on_parse = (\<lambda>_. Some \<lparr>uv_guard = \<lparr>url_scheme = ''https'', url_host_str = Some ''as'',
       url_port = Some 443\<rparr>, uv_origin = ''https://as'', uv_path = []\<rparr>),
     on_lookup = (\<lambda>h port. Inr [(V4 (Ipv4 93 184 216 34), port)]),
     on_get = (\<lambda>client url. Inr (404, Inr JNull)),
     on_post = (\<lambda>client url body. Inr (201, None, Inr (JObj [(''client_id'', JStr ''new'')])))\<rparr>"

definition sample_manage :: "endpoint_config \<Rightarrow> document manage_env" where
  "sample_manage ep = \<lparr>mg_login = sample_login, mg_config = (default_config None)\<lparr>cf_endpoints := [ep]\<rparr>,
     mg_registered = [''ep''], mg_port = 9400, mg_net = silent_net, mg_show_http = (\<lambda>_. []), mg_show_ip = (\<lambda>_. []),
     mg_urlencode = id, mg_url_host = (\<lambda>_. None), mg_pkce = \<lparr>pk_verifier = ''v'', pk_challenge = ''c''\<rparr>,
     mg_state = ''st''\<rparr>"

definition with_record :: "dcr_credentials \<Rightarrow> document login_state" where
  "with_record d = idle_state\<lparr>ls_disk := empty_dir\<lparr>files := [(''ep.dcr.json'', \<lparr>content = Client_doc d, mode = 384\<rparr>)]\<rparr>\<rparr>"

lemma sample_round_trip [simp]:
  "mg_login (sample_manage ep) = sample_login" "mg_state (sample_manage ep) = ''st''"
  "de_dcr (le_codec sample_login) (ser_dcr (le_codec sample_login) d) = Some d"
  by (simp_all add: sample_manage_def sample_login_def sample_codec_def)

lemma sample_read [simp]:
  "load_dcr (de_dcr (le_codec sample_login)) ''ep'' (ls_disk (with_record d)) = Inr (Some d)"
  "read_client sample_login ''ep'' (with_record d) = Inr (Some d)"
  "io (ls_disk (with_record d)) op = None" "ls_has_tm (with_record d)"
  by (simp_all add: read_client_def load_dcr_def load_file_def sample_login_def sample_codec_def
      with_record_def idle_state_def sample_state_def empty_dir_def dcr_file_def hm_get_Cons)

lemma sample_resolved:
  assumes "ec_oauth_server_url ep = Some ''https://as''"
  shows "resolve_server (sample_manage ep) ep ins = Inr (by_convention (ec_token_endpoint ep) ''https://as'')"
  by (simp add: resolve_server_def assms discover_authorization_server_def as_candidates_def build_well_known_url_def
      build_well_known_url_root_def build_openid_configuration_url_def silent_net_def sample_manage_def
      trim_slashes_both_def trim_slashes_end_def add_candidate_def validated_client_def validate_and_resolve_def
      and_then_def fetch_well_known_def Let_def)

lemma sample_loaded [simp]: "loaded_client (sample_manage ep) ''ep'' (with_record d) = Some d"
  by (simp add: loaded_client_def)

lemma sample_configured [simp]:
  "find_endpoint (mg_config (sample_manage ep)) ''ep'' = (if ec_name ep = ''ep'' then Some ep else None)"
  by (simp add: find_endpoint_def sample_manage_def)

lemma sample_start:
  assumes "ec_name ep = ''ep''" "ec_oauth_server_url ep = Some ''https://as''" "\<not> registered_via_dcr d"
  shows "ar_status (snd (oauth_start_inner (sample_manage ep) id id ''ep'' False (with_record d))) = 200"
proof -
  have flows: "ls_flows (with_record d) = Some new_flow_manager" by (simp add: with_record_def idle_state_def)
  show ?thesis
    using assms(1)
    by (simp add: oauth_start_inner_def flows sample_resolved [OF assms(2)] manual_choice [OF sample_loaded assms(3)]
        register_login_def start_flow_if_current_def login_request_def Let_def split_beta)
qed

definition resource_only :: dcr_credentials where
  "resource_only = \<lparr>client_id = [], client_secret = None, client_secret_expires_at = 0, registered_at = 7,
     issuer = None, resource_client_id = Some ''rid'', resource_client_secret = None, registered_via_dcr = False\<rparr>"

definition unconfigured :: endpoint_config where
  "unconfigured = sample_endpoint\<lparr>ec_client_id := None\<rparr>"

lemma sample_fields [simp]:
  "ec_name sample_endpoint = ''ep''" "ec_name unconfigured = ''ep''"
  "ec_oauth_server_url sample_endpoint = Some ''https://as''" "ec_oauth_server_url unconfigured = Some ''https://as''"
  "ec_client_id sample_endpoint = Some ''cfg''" "ec_client_id unconfigured = None"
  "registered_via_dcr (manual_client t c k) = False" "client_id (manual_client t c k) = c"
  "registered_via_dcr resource_only = False" "client_id resource_only = []"
  by (simp_all add: sample_endpoint_def unconfigured_def manual_client_def resource_only_def)

definition sample_callback :: callback_params where
  "sample_callback = \<lparr>cp_code = Some ''code'', cp_state = Some ''st'', cp_error = None, cp_iss = None\<rparr>"

text \<open>What the sample start leaves behind.\<close>

definition after_start :: "endpoint_config \<Rightarrow> dcr_credentials \<Rightarrow> document login_state" where
  "after_start ep d = fst (oauth_start_inner (sample_manage ep) id id ''ep'' False (with_record d))"

lemma after_start_run:
  assumes "ec_name ep = ''ep''" "ec_oauth_server_url ep = Some ''https://as''" "\<not> registered_via_dcr d"
  obtains resp where "oauth_start_inner (sample_manage ep) id id ''ep'' False (with_record d) = (after_start ep d, resp)"
    "ar_status resp = 200"
  using sample_start [OF assms] by (metis after_start_def prod.collapse)


theorem mismatched_client_never_logs_in_witness:
  "\<exists>page. snd (callback_begin sample_login sample_callback
     (after_start sample_endpoint (manual_client 7 ''rotated'' (Some ''secret'')))) = Inl page"
proof -
  let ?d = "manual_client 7 ''rotated'' (Some ''secret'')"
  obtain resp where r: "oauth_start_inner (sample_manage sample_endpoint) id id ''ep'' False (with_record ?d) =
      (after_start sample_endpoint ?d, resp)" "ar_status resp = 200"
    by (rule after_start_run [of sample_endpoint ?d]) simp_all
  show ?thesis
    by (rule mismatched_client_never_logs_in [OF r, where ep = sample_endpoint and cid = "''cfg''" and creds = ?d])
       (simp_all add: sample_callback_def)
qed

theorem resource_record_blocks_registration_witness:
  "\<exists>m flow. ls_flows (after_start unconfigured resource_only) = Some m \<and>
     hm_get (pending m) ''st'' = Some flow \<and> pf_client_id flow = []"
proof -
  obtain resp where r: "oauth_start_inner (sample_manage unconfigured) id id ''ep'' False (with_record resource_only) =
      (after_start unconfigured resource_only, resp)" "ar_status resp = 200"
    by (rule after_start_run [of unconfigured resource_only]) simp_all
  from resource_record_blocks_registration [OF r, of unconfigured resource_only] show ?thesis by simp
qed

theorem credentials_merge_witness:
  "\<exists>old new. read_client sample_login ''ep'' (with_record resource_only) = Inr old \<and> storable new \<and>
     resource_pair new = resource_pair old"
proof -
  let ?env = "sample_manage sample_endpoint"
  let ?rq = "\<lparr>rq_client_id = Some ''c'', rq_client_secret = None, rq_resource_client_id = None,
     rq_resource_client_secret = None\<rparr>"
  let ?r = "set_endpoint_credentials ?env (\<lambda>_. []) ''ep'' ?rq (with_record resource_only)"
  have r: "?r = (fst ?r, snd ?r)" by simp
  have c: "trim ''c'' = ''c''"
    by (simp add: trim_def trim_by_def chars_ascii is_ascii_def byte_def is_space_def utf8_def utf8_code_def)
       code_simp
  have "set_credentials_update t ?rq (Some resource_only) = Inr (Some (merged_client t ?rq (Some resource_only)))" for t
    by (simp add: set_credentials_update_def merged_client_def resource_only_def c)
  moreover have "resource_only \<noteq> merged_client t ?rq (Some resource_only)" for t
    by (simp add: merged_client_def resource_only_def c)
  moreover obtain w where "save_dcr (ser_dcr (le_codec sample_login)) ''ep''
      (merged_client (le_wall sample_login) ?rq (Some resource_only)) (ls_disk (with_record resource_only)) = (w, Inr ())"
    by (rule save_succeeds [OF sample_read(3)])
  ultimately have "ar_status (snd ?r) = 200"
    by (simp add: set_endpoint_credentials_def update_client_def update_dcr_def)
  with credentials_merge [OF _ _ r] show ?thesis by auto
qed

definition rotate :: "dcr_credentials \<Rightarrow> document login_state \<Rightarrow> document login_state" where
  "rotate d s = s\<lparr>ls_disk := ls_disk (with_record d)\<rparr>"

lemma rotate_read [simp]:
  "read_client sample_login ''ep'' (rotate d s) = Inr (Some d)" "io (ls_disk (rotate d s)) op = None"
  "ls_has_tm (rotate d s) = ls_has_tm s"
  using sample_read by (simp_all add: rotate_def read_client_def)

definition offering :: resolved_server where
  "offering = (by_convention None ''https://as'')\<lparr>rs_registration_endpoint := Some ''https://as/register''\<rparr>"

lemma sample_registration:
  "register_client (mg_net (sample_manage ep)) ''https://as/register'' uri ''ep'' False =
     Inr \<lparr>cr_client_id = ''new'', cr_client_secret = None, cr_client_secret_expires_at = 0\<rparr>"
  by (simp add: register_client_def sample_manage_def silent_net_def validated_client_def validate_and_resolve_def
      and_then_def parse_registration_def read_string_def read_optional_def hm_get_Cons)

theorem registration_and_manual_clients_witness:
  "\<exists>d. read_client sample_login ''ep'' (fst (resolve_client (sample_manage unconfigured) ''ep'' unconfigured ''u'' False
     offering (rotate (manual_client 7 ''mine'' None)) idle_state)) = Inr (Some d) \<and> client_id d = ''new''"
proof -
  let ?m = "manual_client 7 ''mine'' None"
  let ?run = "resolve_client (sample_manage unconfigured) ''ep'' unconfigured ''u'' False offering (rotate ?m) idle_state"
  have run: "?run = (fst ?run, snd ?run)" by simp
  have tm: "ls_has_tm idle_state" by (simp add: idle_state_def sample_state_def)
  have none: "loaded_client (sample_manage unconfigured) ''ep'' idle_state = None"
    by (simp add: loaded_client_def read_client_def load_dcr_def load_file_def idle_state_def sample_state_def empty_dir_def)
  have "rs_registration_endpoint offering = Some ''https://as/register''" by (simp add: offering_def)
  from registration_and_manual_clients [of "sample_manage unconfigured" "rotate ?m" idle_state "''ep''",
      OF _ _ _ tm _ _ _ this sample_registration run] none tm
  show ?thesis by (simp add: fresh_client_def)
qed

definition sample_oauth :: oauth_config where
  "sample_oauth = \<lparr>oc_endpoint_name = ''ep'', oc_url = ''https://mcp'', oc_token_endpoint_url = ''t'',
     oc_client_id = ''cfg'', oc_client_secret = None, oc_ema = False, oc_probe_failure_threshold = 3\<rparr>"

text \<open>A running adapter; \<open>stuck\<close> is what removing the token file fails with.\<close>

definition running :: "string option \<Rightarrow> document login_state" where
  "running stuck = (with_record (manual_client 7 ''mine'' None))
     \<lparr>ls_disk := \<lparr>io = (\<lambda>op. if op = OpRemove ''ep.json'' then stuck else None), junk = None, default_mode = 420,
        files = [(''ep.dcr.json'', \<lparr>content = Client_doc (manual_client 7 ''mine'' None), mode = 384\<rparr>),
                 (''ep.json'', \<lparr>content = Tokens_doc sample_tokens, mode = 384\<rparr>)]\<rparr>,
      ls_adapters := Some [(''ep'', (sample_oauth, new_adapter empty_dir))]\<rparr>"

lemma running_simps [simp]:
  "oauth_inner (sample_manage ep) ''ep'' (running x) = Inr (sample_oauth, new_adapter empty_dir)"
  "adapters_keyed (running x)" "ls_has_tm (running x)"
  "read_client sample_login ''ep'' (running x) = Inr (Some (manual_client 7 ''mine'' None))"
  "io (ls_disk (running x)) op = (if op = OpRemove ''ep.json'' then x else None)"
  "hm_get (files (ls_disk (running x))) ''ep.json'' \<noteq> None"
  by (simp_all add: oauth_inner_def running_def sample_manage_def hm_get_Cons adapters_keyed_def adapter_of_def
      sample_oauth_def with_record_def idle_state_def sample_state_def read_client_def load_dcr_def load_file_def
      dcr_file_def sample_login_def sample_codec_def)

theorem reset_discards_only_the_grant_witness:
  "read_client sample_login ''ep'' (fst (reset_grant (sample_manage unconfigured) (\<lambda>_. []) ''ep'' (running None))) =
     Inr (Some (manual_client 7 ''mine'' None))"
proof -
  let ?r = "reset_grant (sample_manage unconfigured) (\<lambda>_. []) ''ep'' (running None)"
  have r: "?r = (fst ?r, snd ?r)" by simp
  from reset_discards_only_the_grant [OF _ running_simps(1) running_simps(2,3) _ _ r] show ?thesis by simp
qed

theorem failed_reset_loses_registration_witness:
  "read_client sample_login ''ep''
     (fst (reset_grant (sample_manage unconfigured) (\<lambda>_. []) ''ep'' (running (Some ''busy'')))) = Inr None"
proof -
  let ?r = "reset_grant (sample_manage unconfigured) (\<lambda>_. []) ''ep'' (running (Some ''busy''))"
  have r: "?r = (fst ?r, snd ?r)" by simp
  have f: "token_file ''ep'' = ''ep.json''" "dcr_file ''ep'' \<noteq> ''ep.json''" by (simp_all add: token_file_def dcr_file_def)
  from failed_reset_loses_registration [OF running_simps(1,2) _ _ _ _ r] show ?thesis by (simp add: f)
qed

theorem token_file_overwrites_client_witness:
  "load_dcr client_of ''ep'' (fst (save_tokens Tokens_doc ''ep.dcr'' sample_tokens (ls_disk (with_record resource_only)))) =
     Inl (Json ''parse'')"
proof -
  let ?r = "save_tokens Tokens_doc (''ep'' @ ''.dcr'') sample_tokens (ls_disk (with_record resource_only))"
  have "snd ?r = Inr ()"
    by (simp add: save_tokens_def save_file_def file_ops token_file_def with_record_def empty_dir_def hm_get_Cons)
  then have r: "?r = (fst ?r, Inr ())" by (metis prod.collapse)
  from token_file_overwrites_client [OF r, of client_of] show ?thesis by simp
qed

end
