(* ===== verification/Call_Store.thy ===== *)
theory Call_Store
  imports Routing "HOL-Library.Product_Lexorder" "HOL-Library.Signed_Division"
begin

text \<open>
  \<^verbatim>\<open>src/src/observability/store.rs\<close>: the table of recorded calls. The file's statements are SQL texts;
  the model gives each one the meaning SQLite documents for it over a list of rows in the order of their
  insertion. What SQLite decides by itself (whether a statement fails, how large the file is) comes from a
  record \<open>sqlite\<close>. Integers are \<open>int\<close>; where the source computes in \<^verbatim>\<open>i64\<close> and the result can leave its
  range the wrap-around of a release build is written out (\<open>wrap64\<close>).

  The lemmas cover paging (a walk by cursors meets every row that stays, once, in descending order), the
  filter's substring match, nearest-rank percentiles, retention and the size cap.
\<close>

section \<open>Rows\<close>

record call_table =
  ct_rows :: "call_record list"
  ct_next_id :: int

datatype sql_statement = Sql_insert | Sql_select | Sql_delete | Sql_vacuum

record sqlite =
  sq_error :: "call_table \<Rightarrow> sql_statement \<Rightarrow> string option"
  sq_size :: "call_table \<Rightarrow> string + int"

definition empty_table :: call_table where
  "empty_table = \<lparr>ct_rows = [], ct_next_id = 1\<rparr>"

definition wrap64 :: "int \<Rightarrow> int" where
  "wrap64 x = signed_take_bit 63 x"

definition row_key :: "call_record \<Rightarrow> int \<times> int" where
  "row_key r = (cr_ts_start r, unwrap_or 0 (cr_id r))"

fun number_rows :: "int \<Rightarrow> call_record list \<Rightarrow> call_record list" where
  "number_rows n [] = []"
| "number_rows n (r # rs) = r\<lparr>cr_id := Some n\<rparr> # number_rows (n + 1) rs"

definition insert_batch :: "sqlite \<Rightarrow> call_record list \<Rightarrow> call_table \<Rightarrow> call_table \<times> (string + nat)" where
  "insert_batch q records t =
     (if records = [] then (t, Inr 0)
      else case sq_error q t Sql_insert of
        Some e \<Rightarrow> (t, Inl e)
      | None \<Rightarrow> (\<lparr>ct_rows = ct_rows t @ number_rows (ct_next_id t) records,
                  ct_next_id = ct_next_id t + int (length records)\<rparr>, Inr (length records)))"

section \<open>Queries\<close>

record query_filter =
  qf_server_name :: "string option"
  qf_tool :: "string option"
  qf_success :: "bool option"
  qf_request_uid :: "string option"
  qf_since :: "int option"
  qf_until :: "int option"

definition no_filter :: query_filter where
  "no_filter = \<lparr>qf_server_name = None, qf_tool = None, qf_success = None, qf_request_uid = None,
     qf_since = None, qf_until = None\<rparr>"

definition like_escape :: "nat \<Rightarrow> nat list" where
  "like_escape c = (if c = 92 \<or> c = 37 \<or> c = 95 then [92, c] else [c])"

definition like_contains :: "string \<Rightarrow> string" where
  "like_contains value = utf8 (37 # concat (map like_escape (chars value)) @ [37])"

text \<open>\<^verbatim>\<open>LIKE ... ESCAPE '\'\<close>: case-insensitive for ASCII letters only.\<close>

definition like_fold :: "nat \<Rightarrow> nat" where
  "like_fold c = (if 65 \<le> c \<and> c \<le> 90 then c + 32 else c)"

function sql_like :: "nat list \<Rightarrow> nat list \<Rightarrow> bool" where
  "sql_like [] s = (s = [])"
| "sql_like (p # ps) s =
     (if p = 92 then
        (case ps of [] \<Rightarrow> False
         | q # qs \<Rightarrow> (case s of [] \<Rightarrow> False | c # cs \<Rightarrow> like_fold q = like_fold c \<and> sql_like qs cs))
      else if p = 37 then (sql_like ps s \<or> (case s of [] \<Rightarrow> False | c # cs \<Rightarrow> sql_like (p # ps) cs))
      else (case s of [] \<Rightarrow> False | c # cs \<Rightarrow> (p = 95 \<or> like_fold p = like_fold c) \<and> sql_like ps cs))"
  by pat_completeness auto
termination by (relation "measure (\<lambda>(p, s). length p + length s)") auto

declare sql_like.simps [simp del]

definition like_column :: "string option \<Rightarrow> string \<Rightarrow> bool" where
  "like_column column value =
     (case column of None \<Rightarrow> False | Some s \<Rightarrow> sql_like (chars (like_contains value)) (chars s))"

definition given :: "'a option \<Rightarrow> ('a \<Rightarrow> bool) \<Rightarrow> bool" where
  "given x P = (case x of None \<Rightarrow> True | Some v \<Rightarrow> P v)"

definition row_matches :: "query_filter \<Rightarrow> call_record \<Rightarrow> bool" where
  "row_matches f r =
     (given (qf_server_name f) (like_column (cr_server_name r)) \<and>
      given (qf_tool f) (like_column (Some (cr_tool r))) \<and>
      given (qf_success f) (\<lambda>b. cr_success r = b) \<and>
      given (qf_request_uid f) (\<lambda>u. cr_request_uid r = Some u) \<and>
      given (qf_since f) (\<lambda>t. t \<le> cr_ts_start r) \<and>
      given (qf_until f) (\<lambda>t. cr_ts_start r < t))"

definition newest_first :: "call_record list \<Rightarrow> call_record list" where
  "newest_first rs = rev (sort_key row_key rs)"

definition sql_limit :: "int \<Rightarrow> 'a list \<Rightarrow> 'a list" where
  "sql_limit n xs = (if n < 0 then xs else take (nat n) xs)"

definition selected :: "query_filter \<Rightarrow> (int \<times> int) option \<Rightarrow> call_table \<Rightarrow> call_record list" where
  "selected f cursor t = filter (\<lambda>r. row_matches f r \<and> given cursor (\<lambda>c. row_key r < c)) (ct_rows t)"

definition query :: "sqlite \<Rightarrow> query_filter \<Rightarrow> int \<Rightarrow> (int \<times> int) option \<Rightarrow> call_table \<Rightarrow> string + call_record list" where
  "query q f limit cursor t =
     (case sq_error q t Sql_select of
        Some e \<Rightarrow> Inl e
      | None \<Rightarrow> Inr (sql_limit limit (newest_first (selected f cursor t))))"

definition get_by_request_uid :: "sqlite \<Rightarrow> string \<Rightarrow> call_table \<Rightarrow> string + call_record option" where
  "get_by_request_uid q uid t =
     (case sq_error q t Sql_select of
        Some e \<Rightarrow> Inl e
      | None \<Rightarrow> Inr (case newest_first (filter (\<lambda>r. cr_request_uid r = Some uid) (ct_rows t)) of
                        [] \<Rightarrow> None | r # _ \<Rightarrow> Some r))"

definition request_uids_for_server :: "sqlite \<Rightarrow> string \<Rightarrow> call_table \<Rightarrow> string + string list" where
  "request_uids_for_server q name t =
     (case sq_error q t Sql_select of
        Some e \<Rightarrow> Inl e
      | None \<Rightarrow> Inr (List.map_filter cr_request_uid
                       (filter (\<lambda>r. cr_server_name r = Some name) (ct_rows t))))"

section \<open>Deletions\<close>

definition sql_delete :: "sqlite \<Rightarrow> (call_record \<Rightarrow> bool) \<Rightarrow> call_table \<Rightarrow> call_table \<times> (string + nat)" where
  "sql_delete q P t =
     (case sq_error q t Sql_delete of
        Some e \<Rightarrow> (t, Inl e)
      | None \<Rightarrow> (t\<lparr>ct_rows := filter (\<lambda>r. \<not> P r) (ct_rows t)\<rparr>, Inr (length (filter P (ct_rows t)))))"

definition sql_vacuum :: "sqlite \<Rightarrow> call_table \<Rightarrow> string + unit" where
  "sql_vacuum q t = (case sq_error q t Sql_vacuum of Some e \<Rightarrow> Inl e | None \<Rightarrow> Inr ())"

definition delete_for_server :: "sqlite \<Rightarrow> string \<Rightarrow> call_table \<Rightarrow> call_table \<times> (string + nat)" where
  "delete_for_server q name = sql_delete q (\<lambda>r. cr_server_name r = Some name)"

definition purge_rows :: "sqlite \<Rightarrow> call_table \<Rightarrow> call_table \<times> (string + unit)" where
  "purge_rows q t =
     (case sql_delete q (\<lambda>r. True) t of
        (t', Inl e) \<Rightarrow> (t', Inl e)
      | (t', Inr _) \<Rightarrow> (t', sql_vacuum q t'))"

definition retention_cutoff :: "int \<Rightarrow> int \<Rightarrow> int" where
  "retention_cutoff now days = wrap64 (now - wrap64 (max days 0 * 86400000))"

definition enforce_retention :: "sqlite \<Rightarrow> int \<Rightarrow> int \<Rightarrow> call_table \<Rightarrow> call_table \<times> (string + nat)" where
  "enforce_retention q now days = sql_delete q (\<lambda>r. cr_ts_start r < retention_cutoff now days)"

record size_cap_result =
  sc_evicted :: bool
  sc_deleted_rows :: nat
  sc_oldest_retained_ts :: "int option"

definition size_limit :: "u64 \<Rightarrow> int" where
  "size_limit max_mb = wrap64 (int (min (unat max_mb * (1024 * 1024)) (2 ^ 64 - 1)))"

definition oldest_rows :: "call_table \<Rightarrow> int set" where
  "oldest_rows t = set (map (\<lambda>r. unwrap_or 0 (cr_id r)) (take 256 (sort_key row_key (ct_rows t))))"

definition delete_oldest :: "sqlite \<Rightarrow> call_table \<Rightarrow> call_table \<times> (string + nat)" where
  "delete_oldest q t = sql_delete q (\<lambda>r. unwrap_or 0 (cr_id r) \<in> oldest_rows t) t"

lemma sql_delete_shrinks: "sql_delete q P t = (t', Inr n) \<Longrightarrow> length (ct_rows t') + n = length (ct_rows t)"
  by (auto simp: sql_delete_def sum_length_filter_compl add.commute split: option.splits)

function cap_loop :: "sqlite \<Rightarrow> int \<Rightarrow> nat \<Rightarrow> call_table \<Rightarrow> call_table \<times> (string + nat)" where
  "cap_loop q max_bytes deleted t =
     (case sq_size q t of
        Inl e \<Rightarrow> (t, Inl e)
      | Inr bytes \<Rightarrow>
         (if bytes \<le> max_bytes then (t, Inr deleted)
          else case delete_oldest q t of
            (t', Inl e) \<Rightarrow> (t', Inl e)
          | (t', Inr n) \<Rightarrow>
             (case sql_vacuum q t' of
                Inl e \<Rightarrow> (t', Inl e)
              | Inr _ \<Rightarrow> (if n = 0 then (t', Inr deleted) else cap_loop q max_bytes (deleted + n) t'))))"
  by pat_completeness auto
termination
  by (relation "measure (\<lambda>(q, m, d, t). length (ct_rows t))")
     (auto simp: delete_oldest_def dest!: sql_delete_shrinks [OF sym])

declare cap_loop.simps [simp del]

definition oldest_ts :: "call_table \<Rightarrow> int option" where
  "oldest_ts t = (if ct_rows t = [] then None else Some (Min (cr_ts_start ` set (ct_rows t))))"

definition enforce_size_cap :: "sqlite \<Rightarrow> u64 \<Rightarrow> call_table \<Rightarrow> call_table \<times> (string + size_cap_result)" where
  "enforce_size_cap q max_mb t =
     (case cap_loop q (size_limit max_mb) 0 t of
        (t', Inl e) \<Rightarrow> (t', Inl e)
      | (t', Inr n) \<Rightarrow>
         (case sq_error q t' Sql_select of
            Some e \<Rightarrow> (t', Inl e)
          | None \<Rightarrow> (t', Inr \<lparr>sc_evicted = (0 < n), sc_deleted_rows = n, sc_oldest_retained_ts = oldest_ts t'\<rparr>)))"

section \<open>Aggregates\<close>

record aggregate_bucket =
  ab_server :: "string option"
  ab_bucket_start :: int
  ab_count :: nat
  ab_error_count :: nat
  ab_p50_ms :: int
  ab_p95_ms :: int

definition bucket_of :: "int \<Rightarrow> int \<Rightarrow> int" where
  "bucket_of bucket_ms ts = (ts sdiv bucket_ms) * bucket_ms"

text \<open>The window function numbers a group's rows by duration; the percentile is the row whose number is
  the nearest rank.\<close>

definition nearest_rank :: "nat \<Rightarrow> nat \<Rightarrow> nat" where
  "nearest_rank p n = max 1 (min n ((p * n + 99) div 100))"

definition percentile_of :: "nat \<Rightarrow> int list \<Rightarrow> int" where
  "percentile_of p durs = sort durs ! (nearest_rank p (length durs) - 1)"

definition durations :: "call_record list \<Rightarrow> int list" where
  "durations rs = map (\<lambda>r. max (cr_duration_ms r) 0) rs"

definition bucket_row :: "string option \<Rightarrow> int \<Rightarrow> call_record list \<Rightarrow> aggregate_bucket" where
  "bucket_row server start rs =
     \<lparr>ab_server = server, ab_bucket_start = start, ab_count = length rs,
      ab_error_count = length (filter (\<lambda>r. \<not> cr_success r) rs),
      ab_p50_ms = percentile_of 50 (durations rs), ab_p95_ms = percentile_of 95 (durations rs)\<rparr>"

definition in_window :: "int \<Rightarrow> int \<Rightarrow> call_table \<Rightarrow> call_record list" where
  "in_window since until t = filter (\<lambda>r. since \<le> cr_ts_start r \<and> cr_ts_start r < until) (ct_rows t)"

definition per_server_buckets :: "int \<Rightarrow> call_record list \<Rightarrow> aggregate_bucket list" where
  "per_server_buckets bucket_ms rs =
     (let rows = filter (\<lambda>r. cr_server_name r \<noteq> None) rs;
          groups = sort (remdups (map (\<lambda>r. (the (cr_server_name r), bucket_of bucket_ms (cr_ts_start r))) rows))
      in map (\<lambda>(s, b). bucket_row (Some s) b
           (filter (\<lambda>r. cr_server_name r = Some s \<and> bucket_of bucket_ms (cr_ts_start r) = b) rows)) groups)"

definition global_buckets :: "int \<Rightarrow> call_record list \<Rightarrow> (int \<times> aggregate_bucket) list" where
  "global_buckets bucket_ms rs =
     map (\<lambda>b. (b, bucket_row None b (filter (\<lambda>r. bucket_of bucket_ms (cr_ts_start r) = b) rs)))
       (sort (remdups (map (\<lambda>r. bucket_of bucket_ms (cr_ts_start r)) rs)))"

definition zero_bucket :: "int \<Rightarrow> aggregate_bucket" where
  "zero_bucket b = \<lparr>ab_server = None, ab_bucket_start = b, ab_count = 0, ab_error_count = 0, ab_p50_ms = 0, ab_p95_ms = 0\<rparr>"

function fill_buckets ::
  "int \<Rightarrow> int \<Rightarrow> int \<Rightarrow> (int \<times> aggregate_bucket) list \<Rightarrow> aggregate_bucket list \<times> (int \<times> aggregate_bucket) list" where
  "fill_buckets step until b g =
     (if 0 < step \<and> b < until
      then (let (out, rest) = fill_buckets step until (b + step) (hm_remove b g)
            in (unwrap_or (zero_bucket b) (hm_get g b) # out, rest))
      else ([], g))"
  by pat_completeness auto
termination by (relation "measure (\<lambda>(step, until, b, g). nat (until - b))") auto

declare fill_buckets.simps [simp del]

definition aggregate :: "sqlite \<Rightarrow> int \<Rightarrow> int \<Rightarrow> int \<Rightarrow> call_table \<Rightarrow> string + aggregate_bucket list" where
  "aggregate q bucket_seconds since until t =
     (let bucket_ms = max bucket_seconds 1 * 1000; rows = in_window since until t
      in case sq_error q t Sql_select of
           Some e \<Rightarrow> Inl e
         | None \<Rightarrow>
            (let (filled, rest) = fill_buckets bucket_ms until (bucket_of bucket_ms since) (global_buckets bucket_ms rows)
             in Inr (filled @ map snd rest @ per_server_buckets bucket_ms rows)))"


section \<open>The substring filter\<close>

lemma utf8_bytes_scalar: "utf8_bytes bs = Some cs \<Longrightarrow> (\<forall>b \<in> set bs. b < 256) \<Longrightarrow> list_all scalar cs"
proof (induction bs arbitrary: cs rule: utf8_bytes.induct)
  case (2 a as)
  note conts = seq2_def seq3_def seq4_def is_cont_def
  show ?case
  proof (cases "a < 128")
    case True
    with "2.IH"(1) "2.prems" show ?thesis by (auto simp: scalar_def)
  next
    case multi: False
    then obtain b bs where as: "as = b # bs" using "2.prems" by (auto split: list.splits)
    show ?thesis
    proof (cases "seq2 a b")
      case True
      then have "scalar ((a - 192) * 64 + (b - 128))" by (auto simp: scalar_def conts)
      with "2.IH"(2) [OF multi as True] "2.prems" multi as True show ?thesis by auto
    next
      case no2: False
      then obtain c cs' where bs: "bs = c # cs'" using "2.prems" multi as by (auto split: list.splits)
      show ?thesis
      proof (cases "seq3 a b c")
        case True
        then have "scalar ((a - 224) * 4096 + (b - 128) * 64 + (c - 128))"
          unfolding scalar_def conts by (cases "a = 237") auto
        with "2.IH"(3) [OF multi as no2 bs True] "2.prems" multi as no2 bs True show ?thesis by auto
      next
        case no3: False
        then obtain d ds' where cs': "cs' = d # ds'" using "2.prems" multi as no2 bs by (auto split: list.splits)
        then have s4: "seq4 a b c d" using "2.prems" multi as no2 bs no3 by (auto split: if_splits)
        then have "scalar ((a - 240) * 262144 + (b - 128) * 4096 + (c - 128) * 64 + (d - 128))"
          unfolding scalar_def conts by (cases "a = 240"; cases "a = 244") auto
        with "2.IH"(4) [OF multi as no2 bs no3 cs' s4] "2.prems" multi as no2 bs no3 cs' s4 show ?thesis by auto
      qed
    qed
  qed
qed auto

lemma chars_scalar: "is_utf8 s \<Longrightarrow> list_all scalar (chars s)"
  using utf8_bytes_scalar [of "map byte s"] by (auto simp: is_utf8_def chars_def utf8_decode_def)

definition contains_folded :: "nat list \<Rightarrow> nat list \<Rightarrow> bool" where
  "contains_folded needle hay = (\<exists>k. k + length needle \<le> length hay \<and>
     map like_fold (take (length needle) (drop k hay)) = map like_fold needle)"

lemma sql_like_end: "sql_like [37] s"
  by (induction s) (simp_all add: sql_like.simps)

lemma sql_like_literal:
  "sql_like (concat (map like_escape cs) @ p) s \<longleftrightarrow>
   length cs \<le> length s \<and> map like_fold (take (length cs) s) = map like_fold cs \<and> sql_like p (drop (length cs) s)"
proof (induction cs arbitrary: s)
  case (Cons c cs)
  then show ?case by (cases s) (auto simp: like_escape_def sql_like.simps)
qed simp

lemma sql_like_any: "p \<noteq> [] \<Longrightarrow> sql_like (37 # p) s \<longleftrightarrow> (\<exists>k. k \<le> length s \<and> sql_like p (drop k s))"
proof (induction s)
  case (Cons c s)
  have "sql_like (37 # p) (c # s) \<longleftrightarrow> sql_like p (c # s) \<or> sql_like (37 # p) s" by (simp add: sql_like.simps)
  also have "\<dots> \<longleftrightarrow> (\<exists>k. k \<le> length (c # s) \<and> sql_like p (drop k (c # s)))"
    unfolding Cons.IH [OF Cons.prems]
    by (metis (no_types, lifting) Suc_le_mono drop0 drop_Suc_Cons le0 length_Cons not0_implies_Suc)
  finally show ?case .
qed (simp add: sql_like.simps)

lemma like_contains_chars:
  "is_utf8 v \<Longrightarrow> chars (like_contains v) = 37 # concat (map like_escape (chars v)) @ [37]"
proof -
  assume "is_utf8 v"
  from chars_scalar [OF this] have "list_all scalar (37 # concat (map like_escape (chars v)) @ [37])"
    by (auto simp: list_all_iff like_escape_def scalar_def)
  then show ?thesis by (simp add: like_contains_def chars_utf8 del: append_Cons append.simps)
qed

lemma like_column_contains:
  "is_utf8 v \<Longrightarrow> like_column column v \<longleftrightarrow> (\<exists>s. column = Some s \<and> contains_folded (chars v) (chars s))"
proof (cases column)
  case (Some h)
  assume v: "is_utf8 v"
  have "(\<exists>k \<le> length (chars h). length (chars v) \<le> length (drop k (chars h)) \<and>
      map like_fold (take (length (chars v)) (drop k (chars h))) = map like_fold (chars v)) \<longleftrightarrow>
    contains_folded (chars v) (chars h)"
    unfolding contains_folded_def
    by (rule iff_exI) (simp, linarith)
  then show ?thesis
    by (simp add: Some v like_column_def like_contains_chars sql_like_any sql_like_literal sql_like_end del: length_drop)
qed (simp add: like_column_def)

section \<open>Order and uniqueness of rows\<close>

definition table_wf :: "call_table \<Rightarrow> bool" where
  "table_wf t = (distinct (map cr_id (ct_rows t)) \<and> (\<forall>r \<in> set (ct_rows t). \<exists>i. cr_id r = Some i \<and> i < ct_next_id t))"

lemma number_rows_ids: "map cr_id (number_rows n rs) = map Some [n..n + int (length rs) - 1]"
proof (induction rs arbitrary: n)
  case (Cons r rs)
  have "[n..n + int (length (r # rs)) - 1] = n # [n + 1..(n + 1) + int (length rs) - 1]"
    by (simp add: upto_rec1 algebra_simps)
  with Cons.IH [of "n + 1"] show ?case by simp
qed simp

lemma wf_empty [simp]: "table_wf empty_table"
  by (simp add: table_wf_def empty_table_def)

lemma wf_insert:
  assumes wf: "table_wf t"
  shows "table_wf (fst (insert_batch q rs t))"
proof -
  let ?n = "ct_next_id t" and ?new = "number_rows (ct_next_id t) rs"
  have ids: "cr_id ` set ?new = Some ` {?n..<?n + int (length rs)}"
    using arg_cong [OF number_rows_ids, of set ?n rs] by (auto simp: image_image)
  have new: "\<exists>i. cr_id r = Some i \<and> i < ?n + int (length rs) \<and> ?n \<le> i" if "r \<in> set ?new" for r
    using imageI [OF that, of cr_id] unfolding ids by auto
  have old: "\<exists>i. cr_id r = Some i \<and> i < ?n" if "r \<in> set (ct_rows t)" for r
    using wf that by (simp add: table_wf_def)
  have "cr_id r \<noteq> cr_id r'" if "r \<in> set (ct_rows t)" "r' \<in> set ?new" for r r'
    using old [OF that(1)] new [OF that(2)] by auto
  then have "distinct (map cr_id (ct_rows t @ ?new))"
  proof -
    have "distinct (map cr_id (ct_rows t))" using wf by (simp add: table_wf_def)
    moreover have "distinct (map cr_id ?new)" by (simp add: number_rows_ids distinct_map)
    ultimately show ?thesis using \<open>\<And>r r'. r \<in> set (ct_rows t) \<Longrightarrow> r' \<in> set ?new \<Longrightarrow> cr_id r \<noteq> cr_id r'\<close>
      by (auto simp del: distinct_map simp: disjoint_iff)
  qed
  moreover have "\<exists>i. cr_id r = Some i \<and> i < ?n + int (length rs)" if "r \<in> set (ct_rows t @ ?new)" for r
    using old [of r] new [of r] that by fastforce
  ultimately show ?thesis
    using wf by (auto simp: insert_batch_def table_wf_def split: option.splits)
qed

lemma wf_delete: "table_wf t \<Longrightarrow> table_wf (fst (sql_delete q P t))"
  by (auto simp: sql_delete_def table_wf_def distinct_map_filter split: option.splits)

lemma keys_inj: "table_wf t \<Longrightarrow> inj_on row_key (set (ct_rows t))"
proof (rule inj_onI)
  fix r r' assume wf: "table_wf t" and r: "r \<in> set (ct_rows t)" and r': "r' \<in> set (ct_rows t)" and eq: "row_key r = row_key r'"
  obtain i i' where "cr_id r = Some i" "cr_id r' = Some i'" using wf r r' by (simp add: table_wf_def) blast
  with eq have "cr_id r = cr_id r'" by (simp add: row_key_def)
  moreover have "inj_on cr_id (set (ct_rows t))" using wf by (simp add: table_wf_def distinct_map)
  ultimately show "r = r'" using r r' by (simp add: inj_on_eq_iff)
qed

lemma rows_distinct: "table_wf t \<Longrightarrow> distinct (ct_rows t)"
  by (simp add: table_wf_def distinct_map)

lemma set_newest [simp]: "set (newest_first rs) = set rs"
  by (simp add: newest_first_def)

lemma newest_sorted: "sorted (rev (map row_key (newest_first rs)))"
  by (simp add: newest_first_def rev_map)

lemma newest_distinct: "distinct rs \<Longrightarrow> distinct (newest_first rs)"
  by (simp add: newest_first_def)


abbreviation newer :: "call_record \<Rightarrow> call_record \<Rightarrow> bool" where
  "newer r r' \<equiv> row_key r' < row_key r"

lemma newest_strict:
  assumes "distinct rs" "inj_on row_key (set rs)"
  shows "sorted_wrt newer (newest_first rs)"
proof -
  have "sorted (map row_key (sort_key row_key rs))" "distinct (map row_key (sort_key row_key rs))"
    using assms by (simp_all add: distinct_map)
  then have "sorted_wrt (<) (map row_key (sort_key row_key rs))" by (simp add: strict_sorted_iff)
  then show ?thesis by (simp add: newest_first_def sorted_wrt_rev sorted_wrt_map)
qed

lemma selected_strict:
  assumes "table_wf t"
  shows "sorted_wrt newer (newest_first (selected f cur t))"
  using keys_inj [OF assms] rows_distinct [OF assms]
  by (intro newest_strict) (auto simp: selected_def inj_on_def)

lemma take_rest:
  assumes "sorted_wrt newer xs" "x \<in> set xs" "x \<notin> set (take n xs)" "0 < n"
  shows "length (take n xs) = n \<and> newer (last (take n xs)) x"
proof -
  have x: "x \<in> set (drop n xs)" using assms(2,3) by (metis Un_iff append_take_drop_id set_append)
  then have len: "n < length xs" by (metis drop_all empty_iff empty_set not_le)
  then have "take n xs \<noteq> []" using assms(4) by auto
  then have "last (take n xs) \<in> set (take n xs)" by (rule last_in_set)
  moreover have "sorted_wrt newer (take n xs @ drop n xs)" using assms(1) by (simp only: append_take_drop_id)
  ultimately have "newer (last (take n xs)) x" using x unfolding sorted_wrt_append by blast
  with len show ?thesis by simp
qed

section \<open>Walking the pages\<close>

text \<open>A client fetches a page, then the next with the last row's key as cursor, until a page is not full;
  the table may change between the requests.\<close>

definition page :: "query_filter \<Rightarrow> nat \<Rightarrow> (int \<times> int) option \<Rightarrow> call_table \<Rightarrow> call_record list" where
  "page f n cursor t = take n (newest_first (selected f cursor t))"

fun page_walk :: "query_filter \<Rightarrow> nat \<Rightarrow> (int \<times> int) option \<Rightarrow> call_table list \<Rightarrow> call_record list \<times> bool" where
  "page_walk f n cursor [] = ([], False)"
| "page_walk f n cursor (t # ts) =
     (let p = page f n cursor t
      in if length p < n then (p, True)
         else (let (rest, finished) = page_walk f n (Some (row_key (last p))) ts in (p @ rest, finished)))"

definition before :: "(int \<times> int) option \<Rightarrow> call_record \<Rightarrow> bool" where
  "before cursor r = given cursor (\<lambda>c. row_key r < c)"

lemma page_in: "r \<in> set (page f n cursor t) \<Longrightarrow> r \<in> set (ct_rows t) \<and> row_matches f r \<and> before cursor r"
  by (auto simp: page_def selected_def before_def dest!: in_set_takeD)

lemma page_strict: "table_wf t \<Longrightarrow> sorted_wrt newer (page f n cursor t)"
  using selected_strict [of t f cursor] by (simp add: page_def sorted_wrt_take)

lemma page_skips_older:
  assumes "table_wf t" "0 < n" "r \<in> set (ct_rows t)" "row_matches f r" "before cursor r" "r \<notin> set (page f n cursor t)"
  shows "\<not> length (page f n cursor t) < n \<and> newer (last (page f n cursor t)) r"
  using take_rest [OF selected_strict [OF assms(1)], of r f cursor n] assms(2-)
  by (auto simp: page_def selected_def before_def)

lemma walk_sound:
  assumes "\<forall>t \<in> set ts. table_wf t" "0 < n"
  shows "sorted_wrt newer (fst (page_walk f n cursor ts)) \<and>
    (\<forall>r \<in> set (fst (page_walk f n cursor ts)). row_matches f r \<and> before cursor r \<and> (\<exists>t \<in> set ts. r \<in> set (ct_rows t)))"
  using assms(1)
proof (induction ts arbitrary: cursor)
  case (Cons t ts)
  let ?p = "page f n cursor t"
  show ?case
  proof (cases "length ?p < n")
    case True
    then show ?thesis using page_strict [of t] page_in [of _ f n cursor t] Cons.prems by (auto simp: Let_def)
  next
    case False
    then have ne: "?p \<noteq> []" using assms(2) by auto
    let ?c = "Some (row_key (last ?p))" and ?rest = "fst (page_walk f n (Some (row_key (last ?p))) ts)"
    have all: "fst (page_walk f n cursor (t # ts)) = ?p @ ?rest"
      using False by (simp add: Let_def case_prod_beta)
    have sp: "sorted_wrt newer ?p" using page_strict Cons.prems by simp
    have ih: "sorted_wrt newer ?rest" "\<And>r. r \<in> set ?rest \<Longrightarrow> row_matches f r \<and> newer (last ?p) r \<and> (\<exists>t \<in> set ts. r \<in> set (ct_rows t))"
      using Cons.IH [of ?c] Cons.prems by (auto simp: before_def given_def)
    have le: "row_key (last ?p) \<le> row_key x" if "x \<in> set ?p" for x
    proof -
      have "sorted_wrt newer (butlast ?p @ [last ?p])" using sp ne by simp
      then have "x = last ?p \<or> newer x (last ?p)"
        using that ne by (metis Un_iff append_butlast_last_id list.set_intros(1) set_ConsD set_append sorted_wrt_append empty_iff empty_set)
      then show ?thesis by auto
    qed
    have "before cursor (last ?p)" using page_in [of "last ?p" f n cursor t] ne by simp
    then have bef: "before cursor r" if "newer (last ?p) r" for r
      using that by (auto simp: before_def given_def split: option.splits)
    have "newer x r" if "x \<in> set ?p" "r \<in> set ?rest" for x r
      using le [OF that(1)] ih(2) [OF that(2)] by (meson order_less_le_trans)
    then have "sorted_wrt newer (?p @ ?rest)" using sp ih(1) by (simp add: sorted_wrt_append)
    moreover have "row_matches f r \<and> before cursor r \<and> (\<exists>t' \<in> set (t # ts). r \<in> set (ct_rows t'))"
      if "r \<in> set (?p @ ?rest)" for r
      using that page_in [of r f n cursor t] ih(2) [of r] bef [of r] by auto
    ultimately show ?thesis unfolding all by blast
  qed
qed simp

lemma walk_complete:
  assumes "\<forall>t \<in> set ts. table_wf t \<and> r \<in> set (ct_rows t)" "0 < n" "row_matches f r" "before cursor r"
    and "snd (page_walk f n cursor ts)"
  shows "r \<in> set (fst (page_walk f n cursor ts))"
  using assms(1,4,5)
proof (induction ts arbitrary: cursor)
  case (Cons t ts)
  let ?p = "page f n cursor t"
  show ?case
  proof (cases "r \<in> set ?p")
    case True
    then show ?thesis by (simp add: Let_def case_prod_beta)
  next
    case False
    from page_skips_older [OF _ assms(2) _ assms(3) Cons.prems(2) this] Cons.prems(1)
    have "\<not> length ?p < n" "newer (last ?p) r" by auto
    with Cons.IH [of "Some (row_key (last ?p))"] Cons.prems show ?thesis
      by (simp add: Let_def case_prod_beta before_def given_def)
  qed
qed simp


section \<open>Eviction by age and by size\<close>

lemma delete_oldest_rows:
  assumes wf: "table_wf t" and del: "delete_oldest q t = (t', Inr n)"
  shows "set (ct_rows t') = set (drop 256 (sort_key row_key (ct_rows t)))" and "n = 0 \<longleftrightarrow> ct_rows t = []"
    and "table_wf t'" and "set (ct_rows t') \<subseteq> set (ct_rows t)"
proof -
  let ?s = "sort_key row_key (ct_rows t)"
  have gone: "unwrap_or 0 (cr_id r) \<in> oldest_rows t \<longleftrightarrow> r \<in> set (take 256 ?s)" if r: "r \<in> set (ct_rows t)" for r
  proof
    assume "unwrap_or 0 (cr_id r) \<in> oldest_rows t"
    then obtain r' where r': "r' \<in> set (take 256 ?s)" and eq: "unwrap_or 0 (cr_id r) = unwrap_or 0 (cr_id r')"
      by (auto simp: oldest_rows_def)
    then have in': "r' \<in> set (ct_rows t)" by (metis in_set_takeD set_sort)
    have "\<exists>i. cr_id r = Some i" "\<exists>i. cr_id r' = Some i" using wf r in' by (auto simp: table_wf_def)
    with eq have "cr_id r = cr_id r'" by auto
    then have "r = r'" using wf r in' by (auto simp: table_wf_def distinct_map inj_on_def)
    with r' show "r \<in> set (take 256 ?s)" by simp
  qed (auto simp: oldest_rows_def)
  have dist: "distinct ?s" using rows_distinct [OF wf] by simp
  have rows: "ct_rows t' = filter (\<lambda>r. unwrap_or 0 (cr_id r) \<notin> oldest_rows t) (ct_rows t)"
    and n: "n = length (filter (\<lambda>r. unwrap_or 0 (cr_id r) \<in> oldest_rows t) (ct_rows t))"
    using del by (auto simp: delete_oldest_def sql_delete_def split: option.splits)
  have "set (take 256 ?s) \<inter> set (drop 256 ?s) = {}" using dist by (metis append_take_drop_id distinct_append)
  moreover have "set (take 256 ?s) \<union> set (drop 256 ?s) = set (ct_rows t)" by (metis append_take_drop_id set_append set_sort)
  ultimately show "set (ct_rows t') = set (drop 256 ?s)" using gone by (auto simp: rows)
  show "n = 0 \<longleftrightarrow> ct_rows t = []"
  proof (cases "ct_rows t = []")
    case False
    then obtain r where "r \<in> set (take 256 ?s)"
      by (metis gr0I hd_in_set length_sort list.size(3) take_eq_Nil zero_neq_numeral length_0_conv)
    then have "r \<in> set (ct_rows t)" "unwrap_or 0 (cr_id r) \<in> oldest_rows t"
      by (metis in_set_takeD set_sort) (auto simp: oldest_rows_def \<open>r \<in> set (take 256 ?s)\<close>)
    with False show ?thesis by (auto simp: n filter_empty_conv)
  qed (simp add: n)
  show "table_wf t'" using wf_delete [OF wf] del by (metis delete_oldest_def fst_conv)
  show "set (ct_rows t') \<subseteq> set (ct_rows t)" by (auto simp: rows)
qed

lemma sorted_split_le: "sorted (map f xs) \<Longrightarrow> x \<in> set (take n xs) \<Longrightarrow> y \<in> set (drop n xs) \<Longrightarrow> f x \<le> f y"
  using sorted_append [of "map f (take n xs)" "map f (drop n xs)"] by (simp flip: map_append)

lemma delete_oldest_older:
  assumes wf: "table_wf t" and del: "delete_oldest q t = (t', Inr n)"
    and "r \<in> set (ct_rows t')" "d \<in> set (ct_rows t)" "d \<notin> set (ct_rows t')"
  shows "row_key d < row_key r"
proof -
  let ?s = "sort_key row_key (ct_rows t)"
  note rows = delete_oldest_rows [OF wf del]
  have "d \<in> set (take 256 ?s)" using assms(4,5) rows(1) by (metis Un_iff append_take_drop_id set_append set_sort)
  moreover have "r \<in> set (drop 256 ?s)" using assms(3) rows(1) by simp
  ultimately have "row_key d \<le> row_key r" using sorted_split_le [of row_key ?s] by simp
  moreover have "row_key d \<noteq> row_key r"
    using keys_inj [OF wf] assms(3-5) rows(4) by (metis inj_on_eq_iff subsetD)
  ultimately show ?thesis by simp
qed

lemma cap_loop_keeps_newest:
  assumes "table_wf t" "cap_loop q max_bytes k t = (t', Inr n)"
  shows "table_wf t' \<and> set (ct_rows t') \<subseteq> set (ct_rows t) \<and>
    (\<forall>r \<in> set (ct_rows t'). \<forall>d \<in> set (ct_rows t) - set (ct_rows t'). row_key d < row_key r) \<and>
    n + length (ct_rows t') = k + length (ct_rows t) \<and>
    ((\<exists>bytes. sq_size q t' = Inr bytes \<and> bytes \<le> max_bytes) \<or> ct_rows t' = [])"
  using assms
proof (induction q max_bytes k t rule: cap_loop.induct)
  case (1 q m k t)
  note eq = "1.prems"(2) [unfolded cap_loop.simps [of q m k t]]
  from eq obtain bytes where bytes: "sq_size q t = Inr bytes" by (auto split: sum.splits)
  show ?case
  proof (cases "bytes \<le> m")
    case True
    then have "t' = t" "n = k" using eq bytes by auto
    then show ?thesis using "1.prems"(1) bytes True by auto
  next
    case False
    obtain t1 n1 where del: "delete_oldest q t = (t1, Inr n1)" and vac: "sql_vacuum q t1 = Inr ()"
      using eq bytes False by (auto split: sum.splits prod.splits)
    note rows = delete_oldest_rows [OF "1.prems"(1) del]
    have len: "length (ct_rows t1) + n1 = length (ct_rows t)"
      using del by (auto simp: delete_oldest_def dest: sql_delete_shrinks)
    show ?thesis
    proof (cases "n1 = 0")
      case True
      then have "t' = t1" "n = k" using eq bytes False del vac by auto
      then show ?thesis using rows True len by auto
    next
      case n1: False
      then have rec: "cap_loop q m (k + n1) t1 = (t', Inr n)" using eq bytes False del vac by simp
      note ih = "1.IH" [OF bytes False del [symmetric] refl vac n1 rows(3) rec]
      have "row_key d < row_key r" if "r \<in> set (ct_rows t')" "d \<in> set (ct_rows t) - set (ct_rows t')" for r d
      proof (cases "d \<in> set (ct_rows t1)")
        case True
        then show ?thesis using ih that by blast
      next
        case False
        then show ?thesis using delete_oldest_older [OF "1.prems"(1) del] ih that by blast
      qed
      then show ?thesis using ih rows(4) len by auto
    qed
  qed
qed


section \<open>Percentiles and the global series\<close>

lemma nearest_rank_bounds: "0 < n \<Longrightarrow> p \<le> 100 \<Longrightarrow> 1 \<le> nearest_rank p n \<and> nearest_rank p n \<le> n"
  by (auto simp: nearest_rank_def)

lemma nearest_rank_exact:
  assumes "0 < n" "0 < p" "p \<le> 100"
  shows "p * n \<le> 100 * nearest_rank p n" and "100 * (nearest_rank p n - 1) < p * n"
proof -
  have "p * n \<le> 100 * n" using assms by simp
  then have "(p * n + 99) div 100 \<le> n" by linarith
  moreover have "1 \<le> p * n" using assms by (simp add: Suc_le_eq)
  then have "1 \<le> (p * n + 99) div 100" by linarith
  ultimately have "nearest_rank p n = (p * n + 99) div 100" by (simp add: nearest_rank_def)
  then show "p * n \<le> 100 * nearest_rank p n" "100 * (nearest_rank p n - 1) < p * n"
    using \<open>1 \<le> p * n\<close> by linarith+
qed

lemma sorted_count_le:
  assumes "sorted xs" "i < length xs"
  shows "Suc i \<le> length (filter (\<lambda>x. x \<le> xs ! i) xs)" and "length (filter (\<lambda>x. x < xs ! i) xs) \<le> i"
proof -
  have le: "x \<le> xs ! i" if "x \<in> set (take (Suc i) xs)" for x
    using that assms by (auto simp: in_set_conv_nth sorted_iff_nth_mono)
  have "length (filter (\<lambda>x. x \<le> xs ! i) (take (Suc i) xs)) = Suc i"
    using le assms(2) by (subst filter_True) auto
  then show "Suc i \<le> length (filter (\<lambda>x. x \<le> xs ! i) xs)"
    by (metis append_take_drop_id filter_append le_add1 length_append)
  have "\<not> x < xs ! i" if "x \<in> set (drop i xs)" for x
    using that assms by (auto simp: in_set_conv_nth sorted_iff_nth_mono not_less)
  then have "filter (\<lambda>x. x < xs ! i) (drop i xs) = []" by (simp add: filter_empty_conv)
  then have "length (filter (\<lambda>x. x < xs ! i) xs) = length (filter (\<lambda>x. x < xs ! i) (take i xs))"
    by (metis append_Nil2 append_take_drop_id filter_append)
  also have "\<dots> \<le> i" by (metis length_filter_le length_take min.bounded_iff)
  finally show "length (filter (\<lambda>x. x < xs ! i) xs) \<le> i" .
qed

lemma length_filter_sort: "length (filter P (sort xs)) = length (filter P xs)"
  by (simp add: filter_sort)

definition splits_at :: "nat \<Rightarrow> int list \<Rightarrow> int \<Rightarrow> bool" where
  "splits_at p durs v =
     (v \<in> set durs \<and> p * length durs \<le> 100 * length (filter (\<lambda>d. d \<le> v) durs) \<and>
      100 * length (filter (\<lambda>d. d < v) durs) < p * length durs)"

lemma percentile_nearest:
  assumes "durs \<noteq> []" "0 < p" "p \<le> 100"
  shows "splits_at p durs (percentile_of p durs)"
proof -
  let ?n = "length durs" and ?i = "nearest_rank p (length durs) - 1"
  have n: "0 < ?n" using assms(1) by simp
  have i: "?i < length (sort durs)" using nearest_rank_bounds [OF n assms(3)] n by auto
  note exact = nearest_rank_exact [OF n assms(2,3)]
  have "Suc ?i = nearest_rank p ?n" using nearest_rank_bounds [OF n assms(3)] by simp
  with sorted_count_le [OF sorted_sort i] exact show ?thesis
    using nth_mem [OF i] by (simp add: splits_at_def percentile_of_def length_filter_sort)
qed

lemma bucket_of_nonneg:
  assumes "0 < m" "0 \<le> ts"
  shows "bucket_of m ts = ts div m * m" "bucket_of m ts \<le> ts" "ts < bucket_of m ts + m"
proof -
  have "ts sdiv m = ts div m" using assms by (cases "ts = 0") (auto simp: signed_divide_int_def sgn_if)
  then show e: "bucket_of m ts = ts div m * m" by (simp add: bucket_of_def)
  have "ts = ts div m * m + ts mod m" "0 \<le> ts mod m" "ts mod m < m" using assms(1) by simp_all
  then show "bucket_of m ts \<le> ts" "ts < bucket_of m ts + m" unfolding e by linarith+
qed

definition aligned :: "int \<Rightarrow> int \<Rightarrow> int \<Rightarrow> int list" where
  "aligned step b until = map (\<lambda>k. b + step * int k) [0..<nat ((until - b + step - 1) div step)]"

lemma aligned_step:
  assumes "0 < step"
  shows "aligned step b until = (if b < until then b # aligned step (b + step) until else [])"
proof (cases "b < until")
  case True
  have "until - b + step - 1 = (until - (b + step) + step - 1) + step" by simp
  then have div: "(until - b + step - 1) div step = (until - (b + step) + step - 1) div step + 1"
    using assms by (metis div_add_self2 order_less_irrefl)
  moreover have "0 \<le> (until - (b + step) + step - 1) div step"
    using True assms by (simp add: pos_imp_zdiv_nonneg_iff)
  ultimately have "nat ((until - b + step - 1) div step) = Suc (nat ((until - (b + step) + step - 1) div step))"
    by simp
  then have "[0..<nat ((until - b + step - 1) div step)] = 0 # map Suc [0..<nat ((until - (b + step) + step - 1) div step)]"
    by (simp add: upt_conv_Cons map_Suc_upt del: upt_Suc)
  then show ?thesis using True by (simp add: aligned_def comp_def algebra_simps)
next
  case False
  then have "(until - b + step - 1) div step \<le> (step - 1) div step" using assms by (intro zdiv_mono1) auto
  then have "(until - b + step - 1) div step < 1" using assms by simp
  with False show ?thesis by (simp add: aligned_def)
qed


lemma aligned_ge: "0 < step \<Longrightarrow> x \<in> set (aligned step b until) \<Longrightarrow> b \<le> x"
  by (auto simp: aligned_def)

lemma aligned_mem: "0 < step \<Longrightarrow> b + step * int k < until \<Longrightarrow> b + step * int k \<in> set (aligned step b until)"
proof (induction k arbitrary: b)
  case 0
  then show ?case by (simp add: aligned_step [of step b until])
next
  case (Suc k)
  have less: "b < until" using Suc.prems by (smt (verit) mult_nonneg_nonneg of_nat_0_le_iff)
  have "(b + step) + step * int k \<in> set (aligned step (b + step) until)"
    using Suc.prems by (intro Suc.IH) (auto simp: algebra_simps)
  then show ?case using less Suc.prems(1) by (simp add: aligned_step [of step b until] algebra_simps)
qed

lemma fill_shows:
  "0 < step \<Longrightarrow> fill_buckets step until b g =
     (map (\<lambda>x. unwrap_or (zero_bucket x) (hm_get g x)) (aligned step b until),
      filter (\<lambda>p. fst p \<notin> set (aligned step b until)) g)"
proof (induction step until b g rule: fill_buckets.induct)
  case (1 step until b g)
  show ?case
  proof (cases "b < until")
    case True
    have later: "hm_get (hm_remove b g) x = hm_get g x" if "x \<in> set (aligned step (b + step) until)" for x
      using aligned_ge [OF "1.prems" that] "1.prems" by (simp add: hm_get_remove)
    have "filter (\<lambda>p. fst p \<notin> set (aligned step (b + step) until)) (hm_remove b g) =
        filter (\<lambda>p. fst p \<notin> set (aligned step b until)) g"
      using True "1.prems" by (auto simp: hm_remove_def filter_filter aligned_step [of step b until] intro!: filter_cong)
    with "1.IH" True "1.prems" later show ?thesis
      by (simp add: fill_buckets.simps [of step until b g] aligned_step [of step b until])
  next
    case False
    then show ?thesis using "1.prems" by (simp add: fill_buckets.simps [of step until b g] aligned_step [of step b until])
  qed
qed

lemma global_get:
  "hm_get (global_buckets m rs) b =
     (if b \<in> (\<lambda>r. bucket_of m (cr_ts_start r)) ` set rs
      then Some (bucket_row None b (filter (\<lambda>r. bucket_of m (cr_ts_start r) = b) rs)) else None)"
proof -
  have "map_of (map (\<lambda>b. (b, f b)) bs) b = (if b \<in> set bs then Some (f b) else None)" for f :: "int \<Rightarrow> aggregate_bucket" and bs
    by (induction bs) auto
  then show ?thesis by (simp add: global_buckets_def hm_get_def)
qed

lemma global_in_window:
  assumes "0 < m" "0 \<le> since" "r \<in> set (in_window since until t)"
  shows "bucket_of m (cr_ts_start r) \<in> set (aligned m (bucket_of m since) until)"
proof -
  have ts: "since \<le> cr_ts_start r" "cr_ts_start r < until" using assms(3) by (auto simp: in_window_def)
  have "since div m \<le> cr_ts_start r div m" using ts(1) assms(1) by (rule zdiv_mono1)
  then obtain k where "cr_ts_start r div m = since div m + int k" by (metis zle_iff_zadd)
  then have eq: "bucket_of m (cr_ts_start r) = bucket_of m since + m * int k"
    using assms ts by (simp add: bucket_of_nonneg algebra_simps)
  moreover have "bucket_of m (cr_ts_start r) < until" using bucket_of_nonneg(2) [of m "cr_ts_start r"] assms ts by simp
  ultimately show ?thesis using aligned_mem [OF assms(1)] by simp
qed


lemma aligned_distinct: "0 < step \<Longrightarrow> distinct (aligned step b until)"
  by (simp add: aligned_def distinct_map inj_on_def)

lemma count_partition:
  "distinct bs \<Longrightarrow> (\<And>r. r \<in> set rs \<Longrightarrow> f r \<in> set bs) \<Longrightarrow>
   sum_list (map (\<lambda>b. length (filter (\<lambda>r. f r = b) rs)) bs) = length rs"
proof (induction rs)
  case (Cons r rs)
  have "sum_list (map (\<lambda>b. length (filter (\<lambda>x. f x = b) (r # rs))) bs) =
      (\<Sum>b \<in> set bs. (if f r = b then 1 else 0) + length (filter (\<lambda>x. f x = b) rs))"
    using Cons.prems(1) by (simp add: sum_list_distinct_conv_sum_set if_distrib cong: if_cong) (rule sum.cong, auto)
  also have "\<dots> = 1 + (\<Sum>b \<in> set bs. length (filter (\<lambda>x. f x = b) rs))"
    using Cons.prems by (simp add: sum.distrib)
  also have "\<dots> = length (r # rs)"
    using Cons by (simp add: sum_list_distinct_conv_sum_set)
  finally show ?case .
qed simp

lemma aggregate_parts:
  assumes "0 \<le> since" "aggregate q secs since until t = Inr out"
  defines "m \<equiv> max secs 1 * 1000" and "rows \<equiv> in_window since until t"
  shows "out = map (\<lambda>x. unwrap_or (zero_bucket x) (hm_get (global_buckets m rows) x))
      (aligned m (bucket_of m since) until) @ per_server_buckets m rows"
proof -
  let ?a = "aligned m (bucket_of m since) until"
  have m: "0 < m" by (simp add: m_def)
  have "fst p \<in> set ?a" if "p \<in> set (global_buckets m rows)" for p
    using that global_in_window [OF m assms(1), of _ until t] by (auto simp: global_buckets_def rows_def)
  then have "filter (\<lambda>p. fst p \<notin> set ?a) (global_buckets m rows) = []" by (simp add: filter_empty_conv)
  with assms(2) m show ?thesis
    by (auto simp: aggregate_def Let_def fill_shows m_def rows_def split: option.splits)
qed

section \<open>Properties\<close>

text \<open>A client that walks the calls list by cursors meets rows newest first, each at most once, only
  rows its filter admits; when the walk ends, every admitted row that was in the table at each request has
  been met, whatever was inserted or deleted in between.\<close>

theorem pages_neither_skip_nor_repeat:
  assumes "\<forall>t \<in> set tables. table_wf t" and "0 < n"
  shows "let (rows, finished) = page_walk f n None tables
    in sorted_wrt newer rows \<and> (\<forall>r \<in> set rows. row_matches f r \<and> (\<exists>t \<in> set tables. r \<in> set (ct_rows t))) \<and>
       (finished \<longrightarrow> (\<forall>r. row_matches f r \<and> (\<forall>t \<in> set tables. r \<in> set (ct_rows t)) \<longrightarrow> r \<in> set rows))"
proof -
  have sound: "sorted_wrt newer (fst (page_walk f n None tables)) \<and>
     (\<forall>r \<in> set (fst (page_walk f n None tables)). row_matches f r \<and> before None r \<and> (\<exists>t \<in> set tables. r \<in> set (ct_rows t)))"
    by (rule walk_sound [OF assms])
  have complete: "r \<in> set (fst (page_walk f n None tables))"
    if "snd (page_walk f n None tables)" "row_matches f r" "\<forall>t \<in> set tables. r \<in> set (ct_rows t)" for r
    using walk_complete [of tables r n f None] that assms by (simp add: before_def given_def)
  show ?thesis using sound complete by (simp add: case_prod_beta)
qed

definition sample_call :: "int \<Rightarrow> int \<Rightarrow> call_record" where
  "sample_call ts dur =
     \<lparr>cr_id = None, cr_request_uid = Some ''u'', cr_endpoint = Some ''fs'', cr_server_name = Some ''Files'',
      cr_server_type = None, cr_transport = None, cr_profile = None, cr_client_name = None, cr_client_version = None,
      cr_client_user_agent = None, cr_client_origin = None, cr_tool = ''read'', cr_ts_start = ts, cr_ts_end = ts + dur,
      cr_duration_ms = dur, cr_success = True, cr_error_message = None, cr_request_bytes = 1, cr_response_bytes = 1,
      cr_streamed = False\<rparr>"

definition working_db :: sqlite where
  "working_db = \<lparr>sq_error = (\<lambda>t s. None), sq_size = (\<lambda>t. Inr (int (length (ct_rows t)) * 4096))\<rparr>"

definition two_calls :: call_table where
  "two_calls = fst (insert_batch working_db [sample_call 100 5, sample_call 100 7] empty_table)"

definition three_calls :: call_table where
  "three_calls = fst (insert_batch working_db [sample_call 200 9] two_calls)"

lemma samples_wf [simp]: "table_wf two_calls" "table_wf three_calls"
  by (simp_all add: two_calls_def three_calls_def wf_insert)

theorem pages_neither_skip_nor_repeat_witness:
  "let (rows, finished) = page_walk no_filter 1 None [two_calls, three_calls, two_calls]
   in map cr_duration_ms rows = [7, 5] \<and> finished \<and> sorted_wrt newer rows"
proof -
  have rows: "map cr_duration_ms (fst (page_walk no_filter 1 None [two_calls, three_calls, two_calls])) = [7, 5]"
    and fin: "snd (page_walk no_filter 1 None [two_calls, three_calls, two_calls])" by code_simp+
  from pages_neither_skip_nor_repeat [of "[two_calls, three_calls, two_calls]" 1 no_filter]
  have "sorted_wrt newer (fst (page_walk no_filter 1 None [two_calls, three_calls, two_calls]))"
    by (simp add: case_prod_beta)
  with rows fin show ?thesis by (simp add: case_prod_beta)
qed


text \<open>The name and tool filters of the calls list match exactly the columns that contain the given text,
  ASCII letters in any case; the wildcards of \<^verbatim>\<open>LIKE\<close> and the escape character in the text stand for
  themselves.\<close>

theorem filters_match_substrings:
  assumes "is_utf8 v"
  shows "like_column column v \<longleftrightarrow> (\<exists>s. column = Some s \<and> contains_folded (chars v) (chars s))"
  by (rule like_column_contains [OF assms])

theorem filters_match_substrings_witness:
  "like_column (Some ''My_Files'') ''y_f'' \<and> \<not> like_column (Some ''MyFiles'') ''y_f''"
proof -
  have ascii: "is_ascii ''y_f''" "is_ascii ''My_Files''" "is_ascii ''MyFiles''" by code_simp+
  note iff = filters_match_substrings [OF is_ascii_utf8 [OF ascii(1)]]
  have ch: "chars ''y_f'' = map byte ''y_f''" "chars ''My_Files'' = map byte ''My_Files''"
    "chars ''MyFiles'' = map byte ''MyFiles''" using ascii by (simp_all add: chars_ascii)
  have "contains_folded (map byte ''y_f'') (map byte ''My_Files'')"
    unfolding contains_folded_def by (rule exI [of _ 1]) code_simp
  moreover have "\<not> contains_folded (map byte ''y_f'') (map byte ''MyFiles'')"
  proof
    assume "contains_folded (map byte ''y_f'') (map byte ''MyFiles'')"
    then obtain k where k: "k + length (map byte ''y_f'') \<le> length (map byte ''MyFiles'')" and
      same: "map like_fold (take (length (map byte ''y_f'')) (drop k (map byte ''MyFiles''))) = map like_fold (map byte ''y_f'')"
      unfolding contains_folded_def by blast
    have "\<forall>k \<in> set [0, 1, 2, 3, 4]. map like_fold (take (length (map byte ''y_f'')) (drop k (map byte ''MyFiles''))) \<noteq>
        map like_fold (map byte ''y_f'')"
      by code_simp
    moreover have "k \<in> set [0, 1, 2, 3, 4]" using k by auto
    ultimately show False using same by blast
  qed
  ultimately show ?thesis by (simp add: iff ch)
qed

text \<open>The global series of an aggregate has one point per step of the window, in order and without
  gaps, their counts add up to the calls in the window, and each point's percentiles are durations of its
  calls with at least, and below them less than, that share of the calls.\<close>

theorem series_accounts_for_all:
  assumes "0 \<le> since" and "aggregate q secs since until t = Inr out" and "m = max secs 1 * 1000"
  shows "\<exists>series. out = series @ per_server_buckets m (in_window since until t) \<and>
    map ab_bucket_start series = aligned m (bucket_of m since) until \<and>
    sum_list (map ab_count series) = length (in_window since until t) \<and>
    (\<forall>b \<in> set series. let durs = durations (filter (\<lambda>r. bucket_of m (cr_ts_start r) = ab_bucket_start b) (in_window since until t))
       in ab_server b = None \<and> ab_count b = length durs \<and>
          (durs \<noteq> [] \<longrightarrow> splits_at 50 durs (ab_p50_ms b) \<and> splits_at 95 durs (ab_p95_ms b)))"
proof -
  let ?rows = "in_window since until t"
  let ?as = "aligned m (bucket_of m since) until"
  let ?pt = "\<lambda>x. unwrap_or (zero_bucket x) (hm_get (global_buckets m ?rows) x)"
  have m: "0 < m" by (simp add: assms(3))
  have pt: "ab_bucket_start (?pt x) = x \<and> ab_server (?pt x) = None \<and>
      ab_count (?pt x) = length (filter (\<lambda>r. bucket_of m (cr_ts_start r) = x) ?rows) \<and>
      (filter (\<lambda>r. bucket_of m (cr_ts_start r) = x) ?rows \<noteq> [] \<longrightarrow>
       ab_p50_ms (?pt x) = percentile_of 50 (durations (filter (\<lambda>r. bucket_of m (cr_ts_start r) = x) ?rows)) \<and>
       ab_p95_ms (?pt x) = percentile_of 95 (durations (filter (\<lambda>r. bucket_of m (cr_ts_start r) = x) ?rows)))" for x
    by (auto simp: global_get bucket_row_def zero_bucket_def filter_empty_conv image_iff)
  have counts: "map ab_count (map ?pt ?as) = map (\<lambda>b. length (filter (\<lambda>r. bucket_of m (cr_ts_start r) = b) ?rows)) ?as"
    using pt by simp
  show ?thesis
  proof (intro exI [of _ "map ?pt ?as"] conjI)
    show "out = map ?pt ?as @ per_server_buckets m ?rows"
      using aggregate_parts [OF assms(1,2)] by (simp add: assms(3))
    show "map ab_bucket_start (map ?pt ?as) = ?as" using pt by (simp add: map_idI)
    show "sum_list (map ab_count (map ?pt ?as)) = length ?rows"
      unfolding counts by (rule count_partition [OF aligned_distinct [OF m] global_in_window [OF m assms(1)]])
    show "\<forall>b \<in> set (map ?pt ?as). let durs = durations (filter (\<lambda>r. bucket_of m (cr_ts_start r) = ab_bucket_start b) ?rows)
       in ab_server b = None \<and> ab_count b = length durs \<and>
          (durs \<noteq> [] \<longrightarrow> splits_at 50 durs (ab_p50_ms b) \<and> splits_at 95 durs (ab_p95_ms b))"
    proof (intro ballI)
      fix b assume "b \<in> set (map ?pt ?as)"
      then obtain x where b: "b = ?pt x" by auto
      let ?durs = "durations (filter (\<lambda>r. bucket_of m (cr_ts_start r) = x) ?rows)"
      have "?durs \<noteq> [] \<longrightarrow> ab_p50_ms b = percentile_of 50 ?durs \<and> ab_p95_ms b = percentile_of 95 ?durs"
        using pt [of x] by (simp add: b durations_def)
      moreover have "ab_bucket_start b = x" "ab_server b = None" "ab_count b = length ?durs"
        using pt [of x] by (simp_all add: b durations_def)
      ultimately show "let durs = durations (filter (\<lambda>r. bucket_of m (cr_ts_start r) = ab_bucket_start b) ?rows)
         in ab_server b = None \<and> ab_count b = length durs \<and>
            (durs \<noteq> [] \<longrightarrow> splits_at 50 durs (ab_p50_ms b) \<and> splits_at 95 durs (ab_p95_ms b))"
        using percentile_nearest [of ?durs 50] percentile_nearest [of ?durs 95] by (simp add: Let_def)
    qed
  qed
qed

theorem series_accounts_for_all_witness:
  "\<exists>series rest. aggregate working_db 1 0 2500 two_calls = Inr (series @ rest) \<and> map ab_bucket_start series = [0, 1000, 2000] \<and>
     sum_list (map ab_count series) = 2"
proof -
  obtain out where out: "aggregate working_db 1 0 2500 two_calls = Inr out"
    by (auto simp: aggregate_def working_db_def Let_def case_prod_beta)
  have steps: "aligned 1000 (bucket_of 1000 0) 2500 = [0, 1000, 2000]" by code_simp
  have rows: "length (in_window 0 2500 two_calls) = 2" by code_simp
  from series_accounts_for_all [OF _ out, of 1000] show ?thesis unfolding out steps rows by auto
qed


lemma wrap64_id: "- (2 ^ 63) \<le> x \<Longrightarrow> x < 2 ^ 63 \<Longrightarrow> wrap64 x = x"
  unfolding wrap64_def by (simp add: signed_take_bit_int_eq_self)

text \<open>Enforcing the size cap ends, and when it reports success the file fits the cap or the table is
  empty; only the oldest rows were deleted and the report counts them.\<close>

theorem size_cap_keeps_newest:
  assumes "table_wf t" and "enforce_size_cap q max_mb t = (t', Inr res)"
  shows "set (ct_rows t') \<subseteq> set (ct_rows t) \<and>
    (\<forall>r \<in> set (ct_rows t'). \<forall>d \<in> set (ct_rows t) - set (ct_rows t'). row_key d < row_key r) \<and>
    sc_deleted_rows res + length (ct_rows t') = length (ct_rows t) \<and>
    ((\<exists>bytes. sq_size q t' = Inr bytes \<and> bytes \<le> size_limit max_mb) \<or> ct_rows t' = [])"
proof -
  obtain n where "cap_loop q (size_limit max_mb) 0 t = (t', Inr n)" "sc_deleted_rows res = n"
    using assms(2) by (auto simp: enforce_size_cap_def split: prod.splits sum.splits option.splits)
  with cap_loop_keeps_newest [OF assms(1), of q "size_limit max_mb" 0 t' n] show ?thesis by simp
qed

definition full_db :: sqlite where
  "full_db = \<lparr>sq_error = (\<lambda>t s. None), sq_size = (\<lambda>t. Inr (if ct_rows t = [] then 0 else 2000000))\<rparr>"

theorem size_cap_keeps_newest_witness:
  "ct_rows (fst (enforce_size_cap full_db 1 two_calls)) = []"
proof -
  let ?empty = "two_calls\<lparr>ct_rows := []\<rparr>"
  have limit: "size_limit 1 = 1048576" by (simp add: size_limit_def wrap64_id)
  have del: "delete_oldest full_db two_calls = (?empty, Inr 2)" by code_simp
  have some: "ct_rows two_calls \<noteq> []" by code_simp
  have "cap_loop full_db 1048576 0 two_calls = (?empty, Inr 2)"
    using del some by (simp add: cap_loop.simps full_db_def sql_vacuum_def)
  then have run: "enforce_size_cap full_db 1 two_calls = (?empty,
      Inr \<lparr>sc_evicted = True, sc_deleted_rows = 2, sc_oldest_retained_ts = None\<rparr>)"
    by (simp add: enforce_size_cap_def limit) (simp add: full_db_def oldest_ts_def)
  have len: "length (ct_rows two_calls) = 2" by code_simp
  from size_cap_keeps_newest [OF samples_wf(1) run] len show ?thesis by (simp add: run)
qed

text \<open>Retention deletes exactly the rows older than the configured days while the window fits 64 bits.
  A longer one overflows: the largest number of days (to which the caller saturates every larger setting)
  makes a cutoff one day ahead of now, and every row recorded so far is deleted.\<close>

theorem retention_window:
  "(0 \<le> days \<and> days * 86400000 < 2 ^ 62 \<and> 0 \<le> now \<and> now < 2 ^ 62 \<and> sq_error q t Sql_delete = None \<longrightarrow>
     ct_rows (fst (enforce_retention q now days t)) =
       filter (\<lambda>r. now - days * 86400000 \<le> cr_ts_start r) (ct_rows t)) \<and>
   (0 \<le> now \<and> now < 2 ^ 62 \<and> sq_error q t Sql_delete = None \<and> (\<forall>r \<in> set (ct_rows t). cr_ts_start r \<le> now) \<longrightarrow>
     ct_rows (fst (enforce_retention q now (2 ^ 63 - 1) t)) = [])"
proof (intro conjI impI; elim conjE)
  assume a: "0 \<le> days" "days * 86400000 < 2 ^ 62" "0 \<le> now" "now < 2 ^ 62" "sq_error q t Sql_delete = None"
  then have "retention_cutoff now days = now - days * 86400000"
    by (simp add: retention_cutoff_def wrap64_id)
  then show "ct_rows (fst (enforce_retention q now days t)) =
       filter (\<lambda>r. now - days * 86400000 \<le> cr_ts_start r) (ct_rows t)"
    using a(5) by (simp add: enforce_retention_def sql_delete_def not_less)
next
  assume a: "0 \<le> now" "now < 2 ^ 62" "sq_error q t Sql_delete = None" "\<forall>r \<in> set (ct_rows t). cr_ts_start r \<le> now"
  have "wrap64 (max (2 ^ 63 - 1) 0 * 86400000) = - 86400000" unfolding wrap64_def by (simp add: signed_take_bit_int_eq_self_iff signed_take_bit_eq_take_bit_minus)
  then have "retention_cutoff now (2 ^ 63 - 1) = now + 86400000"
    using a(1,2) by (simp add: retention_cutoff_def wrap64_id)
  then show "ct_rows (fst (enforce_retention q now (2 ^ 63 - 1) t)) = []"
    using a(3,4) by (auto simp: enforce_retention_def sql_delete_def filter_empty_conv)
qed

theorem retention_window_witness:
  "ct_rows (fst (enforce_retention working_db 500 (2 ^ 63 - 1) two_calls)) = []"
proof -
  have "\<forall>r \<in> set (ct_rows two_calls). cr_ts_start r \<le> 500" by code_simp
  with retention_window [of 0 500 working_db two_calls] show ?thesis by (simp add: working_db_def)
qed

end
