(* ===== verification/Payload_Buffer.thy ===== *)
theory Payload_Buffer
  imports Prelude Text
begin

text \<open>
  \<^verbatim>\<open>src/src/observability/payloads.rs\<close>: the in-memory buffer of captured request and response bodies.
  A buffer holds a map from request ids to entries, the ids in order of insertion and the number of bytes
  accounted. Every operation runs under the buffer's mutex and is one function of the state. Instants and
  windows are nanoseconds of the monotonic clock; \<open>to_string\<close> is serde's printer, an argument.

  The lemmas relate the three fields to one list of entries, oldest first (\<open>buffered\<close>): each operation is
  described on that list, and the bookkeeping invariant \<open>buffer_wf\<close> holds after every operation.
\<close>

section \<open>The buffer\<close>

record stored_payloads =
  sp_request :: string
  sp_response :: string
  sp_request_truncated :: bool
  sp_response_truncated :: bool
  sp_streamed :: bool
  sp_captured_at_ms :: int

record payload_entry =
  pe_payloads :: stored_payloads
  pe_instant :: nat
  pe_size :: nat

record payload_inner =
  pi_entries :: "(string, payload_entry) hashmap"
  pi_order :: "string list"
  pi_total_bytes :: nat

record payload_store =
  ps_inner :: payload_inner
  ps_window :: nat
  ps_budget_bytes :: nat
  ps_max_payload_bytes :: nat

definition saturating_mul :: "u64 \<Rightarrow> nat \<Rightarrow> nat" where
  "saturating_mul a n = min (unat a * n) (2 ^ 64 - 1)"

definition payloads_from_raw :: "nat \<Rightarrow> nat \<Rightarrow> nat \<Rightarrow> payload_store" where
  "payloads_from_raw window budget max_payload =
     \<lparr>ps_inner = \<lparr>pi_entries = [], pi_order = [], pi_total_bytes = 0\<rparr>, ps_window = window,
      ps_budget_bytes = budget, ps_max_payload_bytes = max_payload\<rparr>"

definition nanos :: nat where
  "nanos = 1000000000"

definition payload_store_new :: "u64 \<Rightarrow> u64 \<Rightarrow> nat \<Rightarrow> payload_store" where
  "payload_store_new window_minutes budget_mb max_payload =
     payloads_from_raw (saturating_mul window_minutes 60 * nanos) (saturating_mul budget_mb (1024 * 1024)) max_payload"

section \<open>Truncation\<close>

text \<open>\<^verbatim>\<open>str::is_char_boundary\<close>: the end of the string, or a byte that does not continue a character.\<close>

definition is_char_boundary :: "string \<Rightarrow> nat \<Rightarrow> bool" where
  "is_char_boundary s i = (i = 0 \<or> (if i < length s then \<not> is_cont (byte (s ! i)) else i = length s))"

fun floor_boundary :: "string \<Rightarrow> nat \<Rightarrow> nat" where
  "floor_boundary s 0 = 0"
| "floor_boundary s (Suc n) = (if is_char_boundary s (Suc n) then Suc n else floor_boundary s n)"

definition truncate_payload :: "(json \<Rightarrow> string) \<Rightarrow> nat \<Rightarrow> json \<Rightarrow> string \<times> bool" where
  "truncate_payload to_string limit v =
     (let s = to_string v
      in if length s \<le> limit then (s, False) else (take (floor_boundary s limit) s, True))"

section \<open>Eviction\<close>

fun evict_expired_locked :: "nat \<Rightarrow> nat \<Rightarrow> string list \<Rightarrow> (string, payload_entry) hashmap \<Rightarrow> nat \<Rightarrow> payload_inner" where
  "evict_expired_locked window now [] es n = \<lparr>pi_entries = es, pi_order = [], pi_total_bytes = n\<rparr>"
| "evict_expired_locked window now (k # ks) es n =
     (case hm_get es k of
        None \<Rightarrow> evict_expired_locked window now ks es n
      | Some e \<Rightarrow>
         (if window < now - pe_instant e
          then evict_expired_locked window now ks (hm_remove k es) (n - pe_size e)
          else \<lparr>pi_entries = es, pi_order = k # ks, pi_total_bytes = n\<rparr>))"

fun evict_over_budget_locked :: "nat \<Rightarrow> string list \<Rightarrow> (string, payload_entry) hashmap \<Rightarrow> nat \<Rightarrow> payload_inner" where
  "evict_over_budget_locked budget (k # k' # ks) es n =
     (if budget < n
      then (case hm_get es k of
              None \<Rightarrow> evict_over_budget_locked budget (k' # ks) es n
            | Some e \<Rightarrow> evict_over_budget_locked budget (k' # ks) (hm_remove k es) (n - pe_size e))
      else \<lparr>pi_entries = es, pi_order = k # k' # ks, pi_total_bytes = n\<rparr>)"
| "evict_over_budget_locked budget ks es n = \<lparr>pi_entries = es, pi_order = ks, pi_total_bytes = n\<rparr>"

definition evict_expired :: "nat \<Rightarrow> nat \<Rightarrow> payload_inner \<Rightarrow> payload_inner" where
  "evict_expired window now i = evict_expired_locked window now (pi_order i) (pi_entries i) (pi_total_bytes i)"

definition evict_over_budget :: "nat \<Rightarrow> payload_inner \<Rightarrow> payload_inner" where
  "evict_over_budget budget i = evict_over_budget_locked budget (pi_order i) (pi_entries i) (pi_total_bytes i)"

section \<open>Operations\<close>

definition forget_uid :: "string \<Rightarrow> payload_inner \<Rightarrow> payload_inner" where
  "forget_uid uid i =
     (case hm_get (pi_entries i) uid of
        None \<Rightarrow> i
      | Some old \<Rightarrow>
          i\<lparr>pi_entries := hm_remove uid (pi_entries i), pi_total_bytes := pi_total_bytes i - pe_size old,
            pi_order := filter (\<lambda>k. k \<noteq> uid) (pi_order i)\<rparr>)"

definition append_entry :: "string \<Rightarrow> payload_entry \<Rightarrow> payload_inner \<Rightarrow> payload_inner" where
  "append_entry uid e i =
     i\<lparr>pi_entries := hm_insert uid e (pi_entries i), pi_order := pi_order i @ [uid],
       pi_total_bytes := pi_total_bytes i + pe_size e\<rparr>"

definition make_entry ::
  "(json \<Rightarrow> string) \<Rightarrow> nat \<Rightarrow> string \<Rightarrow> json \<Rightarrow> json \<Rightarrow> bool \<Rightarrow> nat \<Rightarrow> int \<Rightarrow> payload_entry" where
  "make_entry to_string limit uid request response streamed instant wall_ms =
     (let (req, req_cut) = truncate_payload to_string limit request;
          (resp, resp_cut) = truncate_payload to_string limit response
      in \<lparr>pe_payloads = \<lparr>sp_request = req, sp_response = resp, sp_request_truncated = req_cut,
            sp_response_truncated = resp_cut, sp_streamed = streamed, sp_captured_at_ms = wall_ms\<rparr>,
          pe_instant = instant, pe_size = length req + length resp + length uid\<rparr>)"

definition insert_at ::
  "(json \<Rightarrow> string) \<Rightarrow> string \<Rightarrow> json \<Rightarrow> json \<Rightarrow> bool \<Rightarrow> nat \<Rightarrow> int \<Rightarrow> payload_store \<Rightarrow> payload_store" where
  "insert_at to_string uid request response streamed instant wall_ms ps =
     (let e = make_entry to_string (ps_max_payload_bytes ps) uid request response streamed instant wall_ms;
          i = append_entry uid e (forget_uid uid (ps_inner ps))
      in ps\<lparr>ps_inner := evict_over_budget (ps_budget_bytes ps) (evict_expired (ps_window ps) instant i)\<rparr>)"

definition sweep_expired :: "nat \<Rightarrow> payload_store \<Rightarrow> payload_store" where
  "sweep_expired now ps = ps\<lparr>ps_inner := evict_expired (ps_window ps) now (ps_inner ps)\<rparr>"

definition get_payloads :: "nat \<Rightarrow> string \<Rightarrow> payload_store \<Rightarrow> payload_store \<times> stored_payloads option" where
  "get_payloads now uid ps =
     (let ps' = sweep_expired now ps
      in (ps', map_option pe_payloads (hm_get (pi_entries (ps_inner ps')) uid)))"

definition purge_payloads :: "payload_store \<Rightarrow> payload_store" where
  "purge_payloads ps = ps\<lparr>ps_inner := \<lparr>pi_entries = [], pi_order = [], pi_total_bytes = 0\<rparr>\<rparr>"

fun drop_keys :: "string list \<Rightarrow> (string, payload_entry) hashmap \<Rightarrow> nat \<Rightarrow> (string, payload_entry) hashmap \<times> nat" where
  "drop_keys [] es n = (es, n)"
| "drop_keys (k # ks) es n =
     (case hm_get es k of
        None \<Rightarrow> drop_keys ks es n
      | Some e \<Rightarrow> drop_keys ks (hm_remove k es) (n - pe_size e))"

definition remove_where :: "(string \<Rightarrow> bool) \<Rightarrow> payload_store \<Rightarrow> payload_store" where
  "remove_where P ps =
     (let i = ps_inner ps;
          (es, n) = drop_keys (filter P (map fst (pi_entries i))) (pi_entries i) (pi_total_bytes i)
      in ps\<lparr>ps_inner := \<lparr>pi_entries = es, pi_order = filter (hm_contains es) (pi_order i), pi_total_bytes = n\<rparr>\<rparr>)"

definition remove_for_server :: "string list \<Rightarrow> payload_store \<Rightarrow> payload_store" where
  "remove_for_server uids = remove_where (\<lambda>uid. uid \<in> set uids)"

definition payloads_len :: "payload_store \<Rightarrow> nat" where
  "payloads_len ps = length (pi_entries (ps_inner ps))"

section \<open>The buffer as a list\<close>

text \<open>\<open>represents es ks n l\<close>: the three fields describe the list \<open>l\<close> of entries, oldest first.\<close>

definition bytes_of :: "(string \<times> payload_entry) list \<Rightarrow> nat" where
  "bytes_of l = sum_list (map (pe_size \<circ> snd) l)"

definition represents ::
  "(string, payload_entry) hashmap \<Rightarrow> string list \<Rightarrow> nat \<Rightarrow> (string \<times> payload_entry) list \<Rightarrow> bool" where
  "represents es ks n l = (hm_wf es \<and> distinct (map fst l) \<and> ks = map fst l \<and> set es = set l \<and> n = bytes_of l)"

definition buffered :: "payload_inner \<Rightarrow> (string \<times> payload_entry) list" where
  "buffered i = map (\<lambda>k. (k, the (hm_get (pi_entries i) k))) (pi_order i)"

definition buffer_wf :: "payload_inner \<Rightarrow> bool" where
  "buffer_wf i = represents (pi_entries i) (pi_order i) (pi_total_bytes i) (buffered i)"

abbreviation shows_list :: "payload_inner \<Rightarrow> (string \<times> payload_entry) list \<Rightarrow> bool" where
  "shows_list i l \<equiv> represents (pi_entries i) (pi_order i) (pi_total_bytes i) l"

lemma bytes_of_simps [simp]: "bytes_of [] = 0" "bytes_of (p # l) = pe_size (snd p) + bytes_of l"
  "bytes_of (l @ l') = bytes_of l + bytes_of l'"
  by (simp_all add: bytes_of_def)

lemma represents_get: "represents es ks n l \<Longrightarrow> hm_get es k = map_of l k"
  unfolding represents_def hm_wf_def hm_get_def by (metis map_of_inject_set)

lemma represents_buffered:
  assumes "shows_list i l"
  shows "buffered i = l"
proof -
  have l: "distinct (map fst l)" "pi_order i = map fst l" using assms by (auto simp: represents_def)
  have "map (\<lambda>p. (fst p, the (map_of l (fst p)))) l = l"
    by (rule map_idI) (auto simp: l(1) map_of_is_SomeI)
  then show ?thesis by (simp add: buffered_def l(2) represents_get [OF assms] comp_def)
qed

lemma represents_wf: "shows_list i l \<Longrightarrow> buffer_wf i"
  by (simp add: buffer_wf_def represents_buffered)

lemma represents_Nil [simp]: "represents [] [] 0 []"
  by (simp add: represents_def)

lemma bytes_without:
  assumes "distinct (map fst l)" "map_of l k = Some e"
  shows "bytes_of l = pe_size e + bytes_of (filter (\<lambda>p. fst p \<noteq> k) l)"
  using assms
proof (induction l)
  case (Cons p l)
  show ?case
  proof (cases "fst p = k")
    case True
    with Cons.prems have "filter (\<lambda>q. fst q \<noteq> k) l = l" by (force simp: filter_id_conv image_iff)
    with True Cons.prems show ?thesis by auto
  next
    case False
    with Cons show ?thesis by auto
  qed
qed simp

lemma represents_remove:
  assumes "represents es ks n l" "map_of l k = Some e"
  shows "represents (hm_remove k es) (filter (\<lambda>x. x \<noteq> k) ks) (n - pe_size e) (filter (\<lambda>p. fst p \<noteq> k) l)"
  using assms bytes_without [of l k e]
  by (auto simp: represents_def hm_remove_def hm_wf_filter distinct_map_filter filter_map comp_def)

lemma represents_tail:
  assumes "represents es ks n ((k, e) # l)"
  shows "represents (hm_remove k es) (map fst l) (n - pe_size e) l"
proof -
  have "k \<notin> fst ` set l" using assms by (simp add: represents_def)
  then have "filter (\<lambda>p. fst p \<noteq> k) l = l" by (auto simp: filter_id_conv)
  with represents_remove [OF assms, of k e] assms show ?thesis
    by (simp add: represents_def filter_id_conv)
qed

section \<open>What each operation does to the list\<close>

abbreviation too_old :: "nat \<Rightarrow> nat \<Rightarrow> string \<times> payload_entry \<Rightarrow> bool" where
  "too_old window now p \<equiv> window < now - pe_instant (snd p)"

fun keep_within :: "nat \<Rightarrow> (string \<times> payload_entry) list \<Rightarrow> (string \<times> payload_entry) list" where
  "keep_within budget (p # q # l) = (if budget < bytes_of (p # q # l) then keep_within budget (q # l) else p # q # l)"
| "keep_within budget l = l"

lemma expired_shows:
  "represents es ks n l \<Longrightarrow> shows_list (evict_expired_locked window now ks es n) (dropWhile (too_old window now) l)"
proof (induction l arbitrary: es ks n)
  case (Cons p l)
  obtain k e where p: "p = (k, e)" by force
  have ks: "ks = k # map fst l" and got: "hm_get es k = Some e"
    using Cons.prems by (auto simp: p represents_def represents_get [OF Cons.prems])
  show ?case
    using Cons.IH [OF represents_tail [OF Cons.prems [unfolded p]]] Cons.prems by (simp add: ks got p)
qed (auto simp: represents_def)

lemma budget_shows:
  "represents es ks n l \<Longrightarrow> shows_list (evict_over_budget_locked budget ks es n) (keep_within budget l)"
proof (induction budget l arbitrary: es ks n rule: keep_within.induct)
  case (1 budget p q l)
  obtain k e where p: "p = (k, e)" by force
  have ks: "ks = k # fst q # map fst l" and got: "hm_get es k = Some e" and n: "n = bytes_of (p # q # l)"
    using "1.prems" by (auto simp: p represents_def represents_get [OF "1.prems"])
  show ?case
  proof (cases "budget < n")
    case True
    then show ?thesis
      using "1.IH" [OF _ represents_tail [OF "1.prems" [unfolded p]]] n by (simp add: ks got p)
  next
    case False
    then show ?thesis using "1.prems" n by (simp add: ks)
  qed
qed (auto simp: represents_def)

lemma forget_shows:
  assumes "shows_list i l"
  shows "shows_list (forget_uid uid i) (filter (\<lambda>p. fst p \<noteq> uid) l)"
proof (cases "map_of l uid")
  case None
  then have "filter (\<lambda>p. fst p \<noteq> uid) l = l" by (auto simp: map_of_eq_None_iff filter_id_conv)
  with None assms show ?thesis by (simp add: forget_uid_def represents_get [OF assms])
next
  case (Some e)
  with represents_remove [OF assms Some] show ?thesis by (simp add: forget_uid_def represents_get [OF assms])
qed

lemma append_shows:
  assumes "shows_list i l" "uid \<notin> fst ` set l"
  shows "shows_list (append_entry uid e i) (l @ [(uid, e)])"
proof -
  have "hm_get (pi_entries i) uid = None"
    using assms(2) by (simp add: represents_get [OF assms(1)] map_of_eq_None_iff)
  then have fresh: "uid \<notin> fst ` set (pi_entries i)" by (simp add: hm_get_eq_None)
  then have "hm_insert uid e m = m @ [(uid, e)]" if "uid \<notin> fst ` set m" for m :: "(string, payload_entry) hashmap"
    using that by (induction m) auto
  with fresh assms show ?thesis by (auto simp: append_entry_def represents_def hm_wf_def)
qed

lemma drop_keys_shows:
  assumes "represents es (map fst l) n l"
  shows "\<exists>es' n'. drop_keys ks es n = (es', n') \<and>
    represents es' (map fst (filter (\<lambda>p. fst p \<notin> set ks) l)) n' (filter (\<lambda>p. fst p \<notin> set ks) l)"
  using assms
proof (induction ks arbitrary: es n l)
  case (Cons k ks)
  have split: "filter (\<lambda>p. fst p \<notin> set (k # ks)) l = filter (\<lambda>p. fst p \<notin> set ks) (filter (\<lambda>p. fst p \<noteq> k) l)"
    by (auto simp: filter_filter intro: filter_cong)
  show ?case
  proof (cases "map_of l k")
    case None
    then have "filter (\<lambda>p. fst p \<noteq> k) l = l" by (auto simp: map_of_eq_None_iff filter_id_conv)
    then have "filter (\<lambda>p. fst p \<notin> set (k # ks)) l = filter (\<lambda>p. fst p \<notin> set ks) l" by (metis split)
    with None Cons.IH [OF Cons.prems] show ?thesis by (simp add: represents_get [OF Cons.prems])
  next
    case (Some e)
    have "represents (hm_remove k es) (map fst (filter (\<lambda>p. fst p \<noteq> k) l)) (n - pe_size e) (filter (\<lambda>p. fst p \<noteq> k) l)"
      using represents_remove [OF Cons.prems Some] by (simp add: filter_map comp_def)
    from Cons.IH [OF this] Some show ?thesis by (simp add: represents_get [OF Cons.prems] split)
  qed
qed simp


lemmas shows_lists = expired_shows budget_shows forget_shows append_shows drop_keys_shows

lemma insert_shows:
  assumes "shows_list (ps_inner ps) l"
    and e: "e = make_entry ts (ps_max_payload_bytes ps) uid req resp streamed instant wall_ms"
  shows "shows_list (ps_inner (insert_at ts uid req resp streamed instant wall_ms ps))
    (keep_within (ps_budget_bytes ps) (dropWhile (too_old (ps_window ps) instant)
       (filter (\<lambda>p. fst p \<noteq> uid) l @ [(uid, e)])))"
proof -
  have "shows_list (append_entry uid e (forget_uid uid (ps_inner ps))) (filter (\<lambda>p. fst p \<noteq> uid) l @ [(uid, e)])"
    by (rule append_shows [OF forget_shows [OF assms(1)]]) auto
  from budget_shows [OF expired_shows [OF this]] show ?thesis
    by (simp add: insert_at_def Let_def evict_expired_def evict_over_budget_def e)
qed

lemma sweep_shows:
  "shows_list (ps_inner ps) l \<Longrightarrow>
   shows_list (ps_inner (sweep_expired now ps)) (dropWhile (too_old (ps_window ps) now) l)"
  using expired_shows by (simp add: sweep_expired_def evict_expired_def)

lemma remove_where_shows:
  assumes "shows_list (ps_inner ps) l"
  shows "shows_list (ps_inner (remove_where P ps)) (filter (\<lambda>p. \<not> P (fst p)) l)"
proof -
  let ?ks = "filter P (map fst (pi_entries (ps_inner ps)))"
  have set_l: "set l = set (pi_entries (ps_inner ps))" and order: "pi_order (ps_inner ps) = map fst l"
    using assms by (auto simp: represents_def)
  have same: "filter (\<lambda>p. fst p \<notin> set ?ks) l = filter (\<lambda>p. \<not> P (fst p)) l"
    by (rule filter_cong) (auto simp flip: set_l)
  obtain es' n' where dropped: "drop_keys ?ks (pi_entries (ps_inner ps)) (pi_total_bytes (ps_inner ps)) = (es', n')"
    and reps: "represents es' (map fst (filter (\<lambda>p. \<not> P (fst p)) l)) n' (filter (\<lambda>p. \<not> P (fst p)) l)"
    using drop_keys_shows [of "pi_entries (ps_inner ps)" l "pi_total_bytes (ps_inner ps)" ?ks, unfolded same]
      assms [unfolded order] by blast
  have "hm_contains es' k \<longleftrightarrow> \<not> P k" if "k \<in> fst ` set l" for k
    using that by (force simp: hm_contains_def represents_get [OF reps] map_of_eq_None_iff)
  then have "filter (hm_contains es') (map fst l) = map fst (filter (\<lambda>p. \<not> P (fst p)) l)"
    by (auto simp: filter_map comp_def intro!: arg_cong [where f = "map fst"] filter_cong)
  with dropped reps show ?thesis by (simp add: remove_where_def Let_def order)
qed

lemma purge_shows [simp]: "shows_list (ps_inner (purge_payloads ps)) []"
  by (simp add: purge_payloads_def)

lemma new_shows [simp]: "shows_list (ps_inner (payloads_from_raw w b m)) []"
  by (simp add: payloads_from_raw_def)

lemma settings_kept [simp]:
  "ps_window (insert_at ts uid req resp st t wm ps) = ps_window ps"
  "ps_budget_bytes (insert_at ts uid req resp st t wm ps) = ps_budget_bytes ps"
  "ps_max_payload_bytes (insert_at ts uid req resp st t wm ps) = ps_max_payload_bytes ps"
  "ps_window (sweep_expired t ps) = ps_window ps" "ps_budget_bytes (sweep_expired t ps) = ps_budget_bytes ps"
  "ps_max_payload_bytes (sweep_expired t ps) = ps_max_payload_bytes ps"
  "ps_window (remove_where P ps) = ps_window ps" "ps_budget_bytes (remove_where P ps) = ps_budget_bytes ps"
  "ps_max_payload_bytes (remove_where P ps) = ps_max_payload_bytes ps"
  "ps_window (purge_payloads ps) = ps_window ps" "ps_budget_bytes (purge_payloads ps) = ps_budget_bytes ps"
  "ps_max_payload_bytes (purge_payloads ps) = ps_max_payload_bytes ps"
  by (simp_all add: insert_at_def sweep_expired_def remove_where_def purge_payloads_def Let_def case_prod_beta)

section \<open>Runs of operations\<close>

datatype buffer_op =
    InsertBodies string json json bool nat int
  | GetBodies nat string
  | SweepExpired nat
  | RemoveUids "string list"
  | PurgeAll

fun buffer_step :: "(json \<Rightarrow> string) \<Rightarrow> buffer_op \<Rightarrow> payload_store \<Rightarrow> payload_store" where
  "buffer_step ts (InsertBodies uid req resp streamed t wall_ms) ps = insert_at ts uid req resp streamed t wall_ms ps"
| "buffer_step ts (GetBodies t uid) ps = fst (get_payloads t uid ps)"
| "buffer_step ts (SweepExpired t) ps = sweep_expired t ps"
| "buffer_step ts (RemoveUids uids) ps = remove_for_server uids ps"
| "buffer_step ts PurgeAll ps = purge_payloads ps"

fun op_time :: "buffer_op \<Rightarrow> nat option" where
  "op_time (InsertBodies _ _ _ _ t _) = Some t"
| "op_time (GetBodies t _) = Some t"
| "op_time (SweepExpired t) = Some t"
| "op_time _ = None"

definition run_buffer :: "(json \<Rightarrow> string) \<Rightarrow> buffer_op list \<Rightarrow> payload_store \<Rightarrow> payload_store" where
  "run_buffer ts ops ps = fold (buffer_step ts) ops ps"

definition clock_of :: "buffer_op list \<Rightarrow> nat list" where
  "clock_of ops = List.map_filter op_time ops"

text \<open>What holds at every moment: the three fields agree, and the accounted bytes are within the budget
  unless a single entry is left; while the clock is monotone the entries stand in the order of their
  instants, none of them ahead of the clock.\<close>

definition buffer_ok :: "payload_store \<Rightarrow> bool" where
  "buffer_ok ps =
     (buffer_wf (ps_inner ps) \<and>
      (pi_total_bytes (ps_inner ps) \<le> ps_budget_bytes ps \<or> length (pi_order (ps_inner ps)) \<le> 1) \<and>
      (\<forall>p \<in> set (buffered (ps_inner ps)).
         length (sp_request (pe_payloads (snd p))) \<le> ps_max_payload_bytes ps \<and>
         length (sp_response (pe_payloads (snd p))) \<le> ps_max_payload_bytes ps))"

definition timely :: "nat \<Rightarrow> payload_store \<Rightarrow> bool" where
  "timely now ps =
     (let ts = map (pe_instant \<circ> snd) (buffered (ps_inner ps)) in sorted ts \<and> (\<forall>t \<in> set ts. t \<le> now))"

lemma buffer_wf_shows: "buffer_wf i \<Longrightarrow> shows_list i (buffered i)"
  by (simp add: buffer_wf_def)

lemma keep_within_suffix: "\<exists>pre. l = pre @ keep_within budget l"
proof (induction budget l rule: keep_within.induct)
  case (1 budget p q l)
  then show ?case by (auto intro: exI [of _ "[]"]) (metis append_Cons)
qed auto

lemma keep_within_last: "l \<noteq> [] \<Longrightarrow> keep_within budget l \<noteq> [] \<and> last (keep_within budget l) = last l"
  by (induction budget l rule: keep_within.induct) auto

lemma keep_within_fits: "bytes_of (keep_within budget l) \<le> budget \<or> length (keep_within budget l) \<le> 1"
  by (induction budget l rule: keep_within.induct) auto

lemma floor_boundary_le: "floor_boundary s n \<le> n"
  by (induction n) auto

lemma floor_boundary_ok: "is_char_boundary s (floor_boundary s n)"
  by (induction n) (auto simp: is_char_boundary_def)

lemma truncate_le: "length (fst (truncate_payload ts limit v)) \<le> limit"
  using floor_boundary_le [of "ts v" limit] by (simp add: truncate_payload_def Let_def)

lemma make_entry_le:
  "length (sp_request (pe_payloads (make_entry ts limit uid req resp st t wm))) \<le> limit"
  "length (sp_response (pe_payloads (make_entry ts limit uid req resp st t wm))) \<le> limit"
  using truncate_le [of ts limit req] truncate_le [of ts limit resp]
  by (auto simp: make_entry_def split: prod.splits)

lemma bytes_of_filter: "bytes_of (filter P l) \<le> bytes_of l"
  by (induction l) auto

lemma bytes_of_dropWhile: "bytes_of (dropWhile P l) \<le> bytes_of l"
  by (induction l) auto


text \<open>A step leaves a sublist of what was buffered, possibly with a new entry at the end.\<close>

lemma ok_shows:
  assumes "shows_list (ps_inner ps) l"
  shows "buffer_ok ps \<longleftrightarrow> (bytes_of l \<le> ps_budget_bytes ps \<or> length l \<le> 1) \<and>
    (\<forall>p \<in> set l. length (sp_request (pe_payloads (snd p))) \<le> ps_max_payload_bytes ps \<and>
       length (sp_response (pe_payloads (snd p))) \<le> ps_max_payload_bytes ps)"
  using assms by (auto simp: buffer_ok_def represents_buffered [OF assms] represents_wf [OF assms] represents_def)

lemma timely_shows:
  assumes "shows_list (ps_inner ps) l"
  shows "timely now ps \<longleftrightarrow> sorted (map (pe_instant \<circ> snd) l) \<and> (\<forall>p \<in> set l. pe_instant (snd p) \<le> now)"
  by (simp add: timely_def represents_buffered [OF assms])

lemma keep_within_in: "p \<in> set (keep_within budget l) \<Longrightarrow> p \<in> set l"
  using keep_within_suffix [of l budget] by (metis Un_iff set_append)

lemma insert_ok:
  assumes "buffer_ok ps"
  shows "buffer_ok (insert_at ts uid req resp st t wm ps)"
proof -
  let ?l = "buffered (ps_inner ps)"
  have l: "shows_list (ps_inner ps) ?l" using assms by (simp add: buffer_ok_def buffer_wf_shows)
  note new = insert_shows [OF l refl, of ts uid req resp st t wm]
  show ?thesis
    using assms keep_within_fits make_entry_le
    by (auto simp: ok_shows [OF new] ok_shows [OF l] dest!: keep_within_in set_dropWhileD)
qed

lemma filter_ok: "bytes_of l \<le> b \<or> length l \<le> 1 \<Longrightarrow> bytes_of (filter P l) \<le> b \<or> length (filter P l) \<le> 1"
  by (meson bytes_of_filter dual_order.trans length_filter_le)

lemma dropWhile_ok: "bytes_of l \<le> b \<or> length l \<le> 1 \<Longrightarrow> bytes_of (dropWhile P l) \<le> b \<or> length (dropWhile P l) \<le> 1"
  by (meson bytes_of_dropWhile dual_order.trans length_dropWhile_le)

lemma step_ok:
  assumes "buffer_ok ps"
  shows "buffer_ok (buffer_step ts x ps)"
proof -
  let ?l = "buffered (ps_inner ps)"
  have l: "shows_list (ps_inner ps) ?l" using assms by (simp add: buffer_ok_def buffer_wf_shows)
  have swept: "buffer_ok (sweep_expired t ps)" for t
    using assms dropWhile_ok
    by (auto simp: ok_shows [OF sweep_shows [OF l]] ok_shows [OF l] dest!: set_dropWhileD)
  have removed: "buffer_ok (remove_where P ps)" for P
    using assms filter_ok by (auto simp: ok_shows [OF remove_where_shows [OF l]] ok_shows [OF l])
  show ?thesis
    using insert_ok [OF assms] swept removed
    by (cases x) (auto simp: get_payloads_def Let_def remove_for_server_def ok_shows [OF purge_shows])
qed

lemma run_ok: "buffer_ok ps \<Longrightarrow> buffer_ok (run_buffer ts ops ps)"
  by (induction ops arbitrary: ps) (auto simp: run_buffer_def step_ok)

lemma sorted_map_dropWhile: "sorted (map f l) \<Longrightarrow> sorted (map f (dropWhile P l))"
  by (induction l) auto

lemma sorted_suffix: "sorted (map f l) \<Longrightarrow> l = pre @ l' \<Longrightarrow> sorted (map f l')"
  by (simp add: sorted_append)

lemma step_timely:
  assumes ok: "buffer_ok ps" and timely: "timely now ps"
    and later: "\<And>t. op_time x = Some t \<Longrightarrow> now \<le> t \<and> t \<le> now'" and mono: "now \<le> now'"
  shows "timely now' (buffer_step ts x ps)"
proof -
  let ?l = "buffered (ps_inner ps)"
  have l: "shows_list (ps_inner ps) ?l" using ok by (simp add: buffer_ok_def buffer_wf_shows)
  have srt: "sorted (map (pe_instant \<circ> snd) ?l)" and le: "\<And>p. p \<in> set ?l \<Longrightarrow> pe_instant (snd p) \<le> now"
    using timely by (auto simp: timely_shows [OF l])
  have swept: "timely now' (sweep_expired t ps)" for t
    using srt le mono
    by (auto simp: timely_shows [OF sweep_shows [OF l]] sorted_map_dropWhile dest!: set_dropWhileD le)
  have removed: "timely now' (remove_where P ps)" for P
    using srt le mono by (auto simp: timely_shows [OF remove_where_shows [OF l]] sorted_filter dest!: le)
  have added: "timely now' (insert_at ts uid req resp st t wm ps)" if t: "now \<le> t" "t \<le> now'" for uid req resp st t wm
  proof -
    let ?e = "make_entry ts (ps_max_payload_bytes ps) uid req resp st t wm"
    let ?a = "filter (\<lambda>p. fst p \<noteq> uid) ?l @ [(uid, ?e)]"
    have at: "pe_instant ?e = t" by (simp add: make_entry_def split: prod.splits)
    have sa: "sorted (map (pe_instant \<circ> snd) ?a)"
      using srt le t at by (auto simp: sorted_append sorted_filter dest: le)
    obtain pre where "dropWhile (too_old (ps_window ps) t) ?a =
        pre @ keep_within (ps_budget_bytes ps) (dropWhile (too_old (ps_window ps) t) ?a)"
      using keep_within_suffix by blast
    from sorted_suffix [OF sorted_map_dropWhile [OF sa] this] le t at mono show ?thesis
      by (fastforce simp: timely_shows [OF insert_shows [OF l refl]] dest!: keep_within_in set_dropWhileD dest: le)
  qed
  show ?thesis
    using added swept removed later
    by (cases x) (auto simp: get_payloads_def Let_def remove_for_server_def timely_shows [OF purge_shows])
qed

lemma run_timely:
  assumes "buffer_ok ps" "timely now ps" "sorted (now # clock_of ops @ [end_time])"
  shows "timely end_time (run_buffer ts ops ps)"
  using assms
proof (induction ops arbitrary: ps now)
  case Nil
  then show ?case using timely_def by (fastforce simp: run_buffer_def clock_of_def)
next
  case (Cons x ops)
  let ?now = "case op_time x of Some t \<Rightarrow> t | None \<Rightarrow> now"
  have "timely ?now (buffer_step ts x ps)"
    using Cons.prems by (intro step_timely) (auto simp: clock_of_def map_filter_simps split: option.splits)
  moreover have "sorted (?now # clock_of ops @ [end_time])"
    using Cons.prems(3) by (auto simp: clock_of_def map_filter_simps split: option.splits)
  ultimately show ?case
    using Cons.IH [OF step_ok [OF Cons.prems(1)]] by (simp add: run_buffer_def)
qed

text \<open>With the entries in the order of their instants, what is left after dropping from the front is
  exactly what is not too old.\<close>

lemma dropWhile_is_filter:
  "sorted (map (pe_instant \<circ> snd) l) \<Longrightarrow> dropWhile (too_old window now) l = filter (\<lambda>p. \<not> too_old window now p) l"
proof (induction l)
  case (Cons p l)
  then show ?case by (cases "too_old window now p") (auto simp: filter_id_conv intro!: filter_True [symmetric])
qed simp


section \<open>Truncation keeps whole characters\<close>

definition cut_of :: "nat list option \<Rightarrow> nat list \<Rightarrow> bool" where
  "cut_of x cs = (\<exists>k. x = Some (take k cs))"

lemma cut_Cons [intro]: "cut_of x ds \<Longrightarrow> cut_of (map_option ((#) c) x) (c # ds)"
  unfolding cut_of_def by (metis option.simps(9) take_Suc_Cons)

lemma cut_Nil [simp]: "cut_of (Some []) cs"
  unfolding cut_of_def by (metis take0)

lemma utf8_bytes_take:
  "utf8_bytes bs = Some cs \<Longrightarrow> i \<le> length bs \<Longrightarrow> i = length bs \<or> \<not> is_cont (bs ! i) \<Longrightarrow>
   cut_of (utf8_bytes (take i bs)) cs"
proof (induction bs arbitrary: i cs rule: utf8_bytes.induct)
  case (2 a as)
  note conts = seq2_def seq3_def seq4_def
  show ?case
  proof (cases i)
    case (Suc j)
    note ih = "2.IH"
    show ?thesis
    proof (cases "a < 128")
      case True
      then obtain ds where ds: "utf8_bytes as = Some ds" "cs = a # ds" using "2.prems" by auto
      with ih(1) [OF True ds(1), of j] "2.prems" Suc True show ?thesis by auto
    next
      case multi: False
      then obtain b bs where as: "as = b # bs" using "2.prems" by (auto split: list.splits)
      show ?thesis
      proof (cases "seq2 a b")
        case True
        then obtain ds where ds: "utf8_bytes bs = Some ds" "cs = ((a - 192) * 64 + (b - 128)) # ds"
          using "2.prems" multi as by auto
        obtain j' where "j = Suc j'" using True "2.prems" Suc as by (cases j) (auto simp: conts)
        with ih(2) [OF multi as True ds(1), of j'] "2.prems" Suc True multi as ds show ?thesis by auto
      next
        case no2: False
        then obtain c cs' where bs: "bs = c # cs'" using "2.prems" multi as by (auto split: list.splits)
        show ?thesis
        proof (cases "seq3 a b c")
          case True
          then obtain ds where ds: "utf8_bytes cs' = Some ds"
              "cs = ((a - 224) * 4096 + (b - 128) * 64 + (c - 128)) # ds"
            using "2.prems" multi as no2 bs by auto
          obtain j' where "j = Suc (Suc j')"
            using True "2.prems" Suc as bs by (cases j; cases "j - 1") (auto simp: conts)
          with ih(3) [OF multi as no2 bs True ds(1), of j'] "2.prems" Suc True multi as no2 bs ds
          show ?thesis by auto
        next
          case no3: False
          then obtain d ds' where cs': "cs' = d # ds'" using "2.prems" multi as no2 bs by (auto split: list.splits)
          then have s4: "seq4 a b c d" using "2.prems" multi as no2 bs no3 by (auto split: if_splits)
          then obtain ds where ds: "utf8_bytes ds' = Some ds"
              "cs = ((a - 240) * 262144 + (b - 128) * 4096 + (c - 128) * 64 + (d - 128)) # ds"
            using "2.prems" multi as no2 bs no3 cs' by auto
          obtain j' where "j = Suc (Suc (Suc j'))"
            using s4 "2.prems" Suc as bs cs' by (cases j; cases "j - 1"; cases "j - 2") (auto simp: conts)
          with ih(4) [OF multi as no2 bs no3 cs' s4 ds(1), of j'] "2.prems" Suc s4 multi as no2 bs no3 cs' ds
          show ?thesis by auto
        qed
      qed
    qed
  qed auto
qed auto

lemma take_boundary_utf8:
  assumes "is_utf8 s" "is_char_boundary s i"
  shows "is_utf8 (take i s) \<and> (\<exists>k. chars (take i s) = take k (chars s))"
proof -
  have "i \<le> length s" using assms(2) by (auto simp: is_char_boundary_def split: if_splits)
  moreover obtain cs where cs: "utf8_bytes (map byte s) = Some cs"
    using assms(1) by (auto simp: is_utf8_def utf8_decode_def)
  moreover have "i = length s \<or> i = 0 \<or> \<not> is_cont (map byte s ! i)"
    using assms(2) by (auto simp: is_char_boundary_def split: if_splits)
  ultimately obtain k where "utf8_bytes (take i (map byte s)) = Some (take k cs)"
    using utf8_bytes_take [of "map byte s" cs i] by (cases "i = 0") (auto simp: cut_of_def intro: exI [of _ 0])
  with cs show ?thesis by (auto simp: is_utf8_def chars_def utf8_decode_def take_map)
qed

lemma floor_boundary_greatest:
  "floor_boundary s n < m \<Longrightarrow> m \<le> n \<Longrightarrow> \<not> is_char_boundary s m"
proof (induction n)
  case (Suc n)
  then show ?case by (cases "is_char_boundary s (Suc n)"; cases "m = Suc n") auto
qed simp

section \<open>Properties\<close>

text \<open>C40: whatever operations run, the buffer's map, its order and its byte count describe the same list
  of entries, the bytes accounted stay within the budget unless one entry is left, and no stored body is
  longer than the cap.\<close>

theorem buffer_stays_bounded:
  "buffer_ok (run_buffer ts ops (payload_store_new window_minutes budget_mb max_payload))"
  by (rule run_ok) (simp add: payload_store_new_def ok_shows [OF new_shows])

lemma run_settings [simp]:
  "ps_window (run_buffer ts ops ps) = ps_window ps" "ps_budget_bytes (run_buffer ts ops ps) = ps_budget_bytes ps"
  "ps_max_payload_bytes (run_buffer ts ops ps) = ps_max_payload_bytes ps"
proof -
  have "ps_window (buffer_step ts x ps) = ps_window ps \<and> ps_budget_bytes (buffer_step ts x ps) = ps_budget_bytes ps \<and>
     ps_max_payload_bytes (buffer_step ts x ps) = ps_max_payload_bytes ps" for x ps
    by (cases x) (auto simp: get_payloads_def Let_def remove_for_server_def)
  then have "ps_window (run_buffer ts ops ps) = ps_window ps \<and> ps_budget_bytes (run_buffer ts ops ps) = ps_budget_bytes ps \<and>
     ps_max_payload_bytes (run_buffer ts ops ps) = ps_max_payload_bytes ps"
    by (induction ops arbitrary: ps) (auto simp: run_buffer_def)
  then show "ps_window (run_buffer ts ops ps) = ps_window ps" "ps_budget_bytes (run_buffer ts ops ps) = ps_budget_bytes ps"
    "ps_max_payload_bytes (run_buffer ts ops ps) = ps_max_payload_bytes ps" by auto
qed

lemma run_new:
  "buffer_ok (run_buffer ts ops (payloads_from_raw w b m))"
  "sorted (clock_of ops @ [now]) \<Longrightarrow> timely now (run_buffer ts ops (payloads_from_raw w b m))"
  using run_timely [of "payloads_from_raw w b m" 0 ops now ts]
  by (auto intro!: run_ok simp: ok_shows [OF new_shows] timely_shows [OF new_shows])


text \<open>As long as the clock does not run backwards, a body is served exactly when its entry is still
  buffered and not older than the window: a fetch never returns an expired body, and expiry never hides a
  fresh one.\<close>

theorem body_served_iff_fresh:
  assumes "sorted (clock_of ops @ [now])"
    and "ps = run_buffer ts ops (payloads_from_raw window budget limit)"
  shows "snd (get_payloads now uid ps) = Some p \<longleftrightarrow>
    (\<exists>e. (uid, e) \<in> set (buffered (ps_inner ps)) \<and> now - pe_instant e \<le> window \<and> p = pe_payloads e)"
proof -
  let ?l = "buffered (ps_inner ps)"
  have l: "shows_list (ps_inner ps) ?l" and win: "ps_window ps = window"
    using run_new(1) by (auto simp: assms(2) buffer_ok_def buffer_wf_shows) (simp add: payloads_from_raw_def)
  have srt: "sorted (map (pe_instant \<circ> snd) ?l)" and dist: "distinct (map fst ?l)"
    using run_new(2) [OF assms(1)] l by (auto simp: assms(2) timely_def Let_def represents_def)
  let ?k = "filter (\<lambda>p. \<not> too_old window now p) ?l"
  have "shows_list (ps_inner (sweep_expired now ps)) ?k"
    using sweep_shows [OF l, of now] by (simp add: win dropWhile_is_filter [OF srt])
  then have "snd (get_payloads now uid ps) = map_option pe_payloads (map_of ?k uid)"
    by (simp add: get_payloads_def Let_def represents_get [of _ _ _ ?k])
  moreover have "map_of ?k uid = Some e \<longleftrightarrow> (uid, e) \<in> set ?l \<and> now - pe_instant e \<le> window" for e
    using dist by (auto simp: distinct_map_filter simp flip: map_of_eq_Some_iff [of ?k])
  ultimately show ?thesis by auto
qed

definition plain_text :: "json \<Rightarrow> string" where
  "plain_text j = (case j of JStr s \<Rightarrow> s | _ \<Rightarrow> ''null'')"

definition two_inserts :: "buffer_op list" where
  "two_inserts = [InsertBodies ''a'' (JStr ''ping'') JNull False 5 0, InsertBodies ''b'' (JStr ''pong'') JNull False 9 0]"

theorem body_served_iff_fresh_witness:
  "let ps = run_buffer plain_text two_inserts (payloads_from_raw 3 100 10)
   in snd (get_payloads 9 ''a'' ps) = None \<and> snd (get_payloads 9 ''b'' ps) \<noteq> None"
proof -
  let ?ps = "run_buffer plain_text two_inserts (payloads_from_raw 3 100 10)"
  let ?e = "make_entry plain_text 10 ''b'' (JStr ''pong'') JNull False 9 0"
  have clock: "sorted (clock_of two_inserts @ [9])" by (simp add: clock_of_def two_inserts_def map_filter_simps)
  have held: "buffered (ps_inner ?ps) = [(''b'', ?e)]" by code_simp
  have at: "pe_instant ?e = 9" by code_simp
  note iff = body_served_iff_fresh [OF clock refl, where ts = plain_text and window = 3 and budget = 100 and limit = 10,
    unfolded held]
  have "snd (get_payloads 9 ''a'' ?ps) \<noteq> Some p" for p using iff by auto
  moreover have "snd (get_payloads 9 ''b'' ?ps) = Some (pe_payloads ?e)" using at by (simp add: iff)
  ultimately show ?thesis by (auto simp: Let_def)
qed

text \<open>Storing a call's bodies moves its id to the end of the buffer, drops from the old end first what
  has expired and then what exceeds the budget, and nothing else; the bodies just stored can be fetched at
  once, even when they alone exceed the budget.\<close>

theorem insert_evicts_oldest:
  assumes "ps = run_buffer ts ops (payloads_from_raw window budget limit)"
    and "e = make_entry ts limit uid request response streamed t wall_ms"
    and "ps' = insert_at ts uid request response streamed t wall_ms ps"
  shows "buffered (ps_inner ps') = keep_within budget (dropWhile (too_old window t)
      (filter (\<lambda>p. fst p \<noteq> uid) (buffered (ps_inner ps)) @ [(uid, e)])) \<and>
    (\<exists>evicted. filter (\<lambda>p. fst p \<noteq> uid) (buffered (ps_inner ps)) @ [(uid, e)] = evicted @ buffered (ps_inner ps')) \<and>
    snd (get_payloads t uid ps') = Some (pe_payloads e)"
proof -
  let ?l = "buffered (ps_inner ps)" and ?b = "buffered (ps_inner ps')"
  let ?a = "filter (\<lambda>p. fst p \<noteq> uid) ?l @ [(uid, e)]"
  have l: "shows_list (ps_inner ps) ?l"
    using run_new(1) by (auto simp: assms(1) buffer_ok_def buffer_wf_shows)
  have set: "ps_window ps = window" "ps_budget_bytes ps = budget" "ps_max_payload_bytes ps = limit" "ps_window ps' = window"
    by (simp_all add: assms(1,3)) (simp_all add: payloads_from_raw_def)
  have sl: "shows_list (ps_inner ps') (keep_within budget (dropWhile (too_old window t) ?a))"
    using insert_shows [OF l, of e ts uid request response streamed t wall_ms] by (simp add: set assms(2,3))
  then have b: "?b = keep_within budget (dropWhile (too_old window t) ?a)" by (rule represents_buffered)
  have at: "pe_instant e = t" by (simp add: assms(2) make_entry_def split: prod.splits)
  have rest: "dropWhile (too_old window t) ?a = dropWhile (too_old window t) (filter (\<lambda>p. fst p \<noteq> uid) ?l) @ [(uid, e)]"
    by (simp add: dropWhile_append3 at)
  then have lst: "?b \<noteq> []" "last ?b = (uid, e)" using keep_within_last [of "dropWhile (too_old window t) ?a" budget] by (simp_all add: b)
  have "\<exists>evicted. ?a = evicted @ ?b"
    unfolding b by (metis append.assoc keep_within_suffix takeWhile_dropWhile_id)
  moreover have "snd (get_payloads t uid ps') = Some (pe_payloads e)"
  proof -
    have front: "(uid, e) \<in> set (dropWhile (too_old window t) ?b)"
    proof -
      have "?b = butlast ?b @ [(uid, e)]" using lst by (metis append_butlast_last_id)
      then have "dropWhile (too_old window t) ?b = dropWhile (too_old window t) (butlast ?b) @ [(uid, e)]"
        by (metis at dropWhile_append3 diff_self_eq_0 not_less_zero snd_conv)
      then show ?thesis by simp
    qed
    have sw: "shows_list (ps_inner (sweep_expired t ps')) (dropWhile (too_old window t) ?b)"
      using sweep_shows [OF sl, of t] by (simp add: set b)
    then have "distinct (map fst (dropWhile (too_old window t) ?b))" by (simp add: represents_def)
    with front have "map_of (dropWhile (too_old window t) ?b) uid = Some e" by simp
    then show ?thesis by (simp add: get_payloads_def Let_def represents_get [OF sw])
  qed
  ultimately show ?thesis using b by blast
qed


theorem insert_evicts_oldest_witness:
  "let ps = run_buffer plain_text two_inserts (payloads_from_raw 100 20 10);
       ps' = insert_at plain_text ''c'' (JStr ''12345678901'') JNull False 10 0 ps
   in map fst (buffered (ps_inner ps)) = [''a'', ''b''] \<and> map fst (buffered (ps_inner ps')) = [''c''] \<and>
      map_option sp_request (snd (get_payloads 10 ''c'' ps')) = Some ''1234567890''"
proof -
  let ?ps = "run_buffer plain_text two_inserts (payloads_from_raw 100 20 10)"
  let ?e = "make_entry plain_text 10 ''c'' (JStr ''12345678901'') JNull False 10 0"
  have held: "map fst (buffered (ps_inner ?ps)) = [''a'', ''b'']" by code_simp
  have after: "map fst (keep_within 20 (dropWhile (too_old 100 10)
      (filter (\<lambda>p. fst p \<noteq> ''c'') (buffered (ps_inner ?ps)) @ [(''c'', ?e)]))) = [''c'']" by code_simp
  have cut: "sp_request (pe_payloads ?e) = ''1234567890''" by code_simp
  from insert_evicts_oldest [OF refl refl refl, where ts = plain_text and ops = two_inserts and window = 100
      and budget = 20 and limit = 10 and uid = "''c''" and request = "JStr ''12345678901''" and response = JNull
      and streamed = False and t = 10 and wall_ms = 0] held after cut
  show ?thesis by (simp add: Let_def)
qed

text \<open>What is stored of a body is its longest beginning that fits the cap and ends at a character:
  valid UTF-8 whenever the body is, flagged exactly when something was cut.\<close>

theorem truncation_keeps_characters:
  assumes "is_utf8 (to_string v)"
  shows "case truncate_payload to_string limit v of (s, flag) \<Rightarrow>
    is_utf8 s \<and> length s \<le> limit \<and> (\<exists>k. chars s = take k (chars (to_string v))) \<and>
    s = take (length s) (to_string v) \<and> (flag \<longleftrightarrow> limit < length (to_string v)) \<and>
    (\<forall>m. length s < m \<and> m \<le> limit \<longrightarrow> \<not> is_char_boundary (to_string v) m \<or> length (to_string v) < m)"
proof (cases "length (to_string v) \<le> limit")
  case True
  have "\<exists>k. chars (to_string v) = take k (chars (to_string v))" by (metis order_refl take_all)
  with True assms show ?thesis by (auto simp: truncate_payload_def Let_def)
next
  case False
  let ?i = "floor_boundary (to_string v) limit"
  have "?i \<le> limit" by (rule floor_boundary_le)
  with False have len: "length (take ?i (to_string v)) = ?i" by simp
  show ?thesis
    using take_boundary_utf8 [OF assms floor_boundary_ok, of limit] floor_boundary_greatest [of "to_string v" limit]
      \<open>?i \<le> limit\<close> False
    by (auto simp: truncate_payload_def Let_def min_def)
qed

theorem truncation_keeps_characters_witness:
  "let v = JStr [CHR ''h'', CHR ''i'', CHR 0xC3, CHR 0xA9]
   in truncate_payload plain_text 3 v = (''hi'', True) \<and> is_utf8 (fst (truncate_payload plain_text 3 v))"
proof -
  let ?v = "JStr [CHR ''h'', CHR ''i'', CHR 0xC3, CHR 0xA9]"
  have cut: "truncate_payload plain_text 3 ?v = (''hi'', True)" by code_simp
  have "is_utf8 (plain_text ?v)" unfolding plain_text_def by code_simp
  from truncation_keeps_characters [where to_string = plain_text and v = ?v, OF this, of 3, unfolded cut prod.case]
  have "is_utf8 ''hi''" by blast
  with cut show ?thesis by (simp add: Let_def)
qed

end
