(* ===== verification/Observability.thy ===== *)
theory Observability
  imports Call_Store Payload_Buffer Login_Control Dispatch "HOL-Library.Sublist"
begin

text \<open>
  The capture pipeline (\<^verbatim>\<open>src/src/observability/pipeline.rs\<close>), its periodic sweep (\<^verbatim>\<open>src/src/main.rs\<close>)
  and the observability routes of the management API (\<^verbatim>\<open>src/src/management.rs\<close>).

  The pipeline is a state machine: callers put records into a bounded queue without waiting; one consumer
  takes a first record, adds what the queue holds up to the batch limit, writes the batch and then stores
  the bodies one by one. Any number of captures may fall between two steps of the consumer. The lemmas
  account for every captured record and tie a walk of the calls route to the walk of the table.
\<close>

section \<open>The pipeline\<close>

type_synonym capture = "call_record \<times> captured_payloads option"

datatype consumer_phase =
    Waiting
  | Batching "capture list"
  | Writing "capture list"
  | Storing "(string \<times> captured_payloads) list"

record observability =
  obs_enabled :: bool
  obs_store_payloads :: bool
  obs_queue :: "capture list"
  obs_phase :: consumer_phase
  obs_dropped :: u64
  obs_table :: call_table
  obs_payloads :: payload_store

definition CAPTURE_CHANNEL_CAPACITY :: nat where
  "CAPTURE_CHANNEL_CAPACITY = 1024"

definition METADATA_BATCH_MAX :: nat where
  "METADATA_BATCH_MAX = 128"

definition observability_new :: "observability_config \<Rightarrow> call_table \<Rightarrow> payload_store \<Rightarrow> observability" where
  "observability_new cfg table payloads =
     \<lparr>obs_enabled = ob_enabled cfg, obs_store_payloads = ob_store_payloads cfg, obs_queue = [], obs_phase = Waiting,
      obs_dropped = 0, obs_table = table, obs_payloads = payloads\<rparr>"

definition capture :: "capture \<Rightarrow> observability \<Rightarrow> observability" where
  "capture c s =
     (if \<not> obs_enabled s then s
      else if length (obs_queue s) < CAPTURE_CHANNEL_CAPACITY then s\<lparr>obs_queue := obs_queue s @ [c]\<rparr>
      else s\<lparr>obs_dropped := obs_dropped s + 1\<rparr>)"

text \<open>\<^verbatim>\<open>ingest\<close>: the rows of a batch and the bodies to buffer.\<close>

definition ingest :: "capture \<Rightarrow> call_record list \<times> (string \<times> captured_payloads) list \<Rightarrow>
    call_record list \<times> (string \<times> captured_payloads) list" where
  "ingest c = (\<lambda>(records, buffered).
     (records @ [fst c],
      buffered @ (case (cr_request_uid (fst c), snd c) of (Some uid, Some p) \<Rightarrow> [(uid, p)] | _ \<Rightarrow> [])))"

definition ingest_all :: "capture list \<Rightarrow> call_record list \<times> (string \<times> captured_payloads) list" where
  "ingest_all cs = fold ingest cs ([], [])"

text \<open>One step of \<^verbatim>\<open>run_consumer\<close> between two of its waits. \<open>db\<close> decides whether the write succeeds.\<close>

definition consumer_step :: "sqlite \<Rightarrow> (json \<Rightarrow> string) \<Rightarrow> nat \<Rightarrow> int \<Rightarrow> observability \<Rightarrow> observability" where
  "consumer_step db to_string now wall_ms s =
     (if \<not> obs_enabled s then s
      else case obs_phase s of
        Waiting \<Rightarrow> (case obs_queue s of [] \<Rightarrow> s | c # q \<Rightarrow> s\<lparr>obs_queue := q, obs_phase := Batching [c]\<rparr>)
      | Batching b \<Rightarrow>
          (if length b < METADATA_BATCH_MAX
           then (case obs_queue s of
                   [] \<Rightarrow> s\<lparr>obs_phase := Writing b\<rparr>
                 | c # q \<Rightarrow> s\<lparr>obs_queue := q, obs_phase := Batching (b @ [c])\<rparr>)
           else s\<lparr>obs_phase := Writing b\<rparr>)
      | Writing b \<Rightarrow>
          (let (records, buffered) = ingest_all b
           in s\<lparr>obs_table := fst (insert_batch db records (obs_table s)), obs_phase := Storing buffered\<rparr>)
      | Storing [] \<Rightarrow> s\<lparr>obs_phase := Waiting\<rparr>
      | Storing ((uid, p) # rest) \<Rightarrow>
          s\<lparr>obs_payloads := insert_at to_string uid (cp_request p) (cp_response p) (cp_streamed p) now wall_ms (obs_payloads s),
            obs_phase := Storing rest\<rparr>)"

section \<open>The periodic sweep\<close>

definition retention_days_setting :: "observability_config \<Rightarrow> int" where
  "retention_days_setting cfg =
     (let d = int (unat (ob_record_retention_days cfg)) in if d < 2 ^ 63 then d else 2 ^ 63 - 1)"

definition retention_sweep :: "sqlite \<Rightarrow> observability_config \<Rightarrow> int \<Rightarrow> nat \<Rightarrow> observability \<Rightarrow> observability" where
  "retention_sweep db cfg wall_ms now s =
     (let t1 = fst (enforce_retention db wall_ms (retention_days_setting cfg) (obs_table s));
          t2 = fst (enforce_size_cap db (ob_max_db_size_mb cfg) t1)
      in s\<lparr>obs_table := t2, obs_payloads := sweep_expired now (obs_payloads s)\<rparr>)"

section \<open>Cursors\<close>

definition show_i64 :: "int \<Rightarrow> string" where
  "show_i64 x = (if x < 0 then CHR ''-'' # dec_of_nat (nat (- x)) else dec_of_nat (nat x))"

fun digits_value :: "nat \<Rightarrow> string \<Rightarrow> nat option" where
  "digits_value acc [] = Some acc"
| "digits_value acc (c # s) = (if is_digit (byte c) then digits_value (10 * acc + (byte c - 48)) s else None)"

definition i64_of :: "int \<Rightarrow> int option" where
  "i64_of x = (if - (2 ^ 63) \<le> x \<and> x < 2 ^ 63 then Some x else None)"

text \<open>\<^verbatim>\<open>str::parse::<i64>\<close>: an optional sign, at least one digit, in range.\<close>

definition parse_i64 :: "string \<Rightarrow> int option" where
  "parse_i64 s =
     (case s of
        [] \<Rightarrow> None
      | c # r \<Rightarrow>
         (if c = CHR ''-'' then (if r = [] then None else Option.bind (digits_value 0 r) (\<lambda>n. i64_of (- int n)))
          else if c = CHR ''+'' then (if r = [] then None else Option.bind (digits_value 0 r) (\<lambda>n. i64_of (int n)))
          else Option.bind (digits_value 0 s) (\<lambda>n. i64_of (int n))))"

record cursor_codec =
  b64_encode :: "string \<Rightarrow> string"
  b64_decode :: "string \<Rightarrow> string option"

definition encode_calls_cursor :: "cursor_codec \<Rightarrow> int \<Rightarrow> int \<Rightarrow> string" where
  "encode_calls_cursor b64 ts_start row_id = b64_encode b64 (show_i64 ts_start @ '':'' @ show_i64 row_id)"

definition decode_calls_cursor :: "cursor_codec \<Rightarrow> string \<Rightarrow> (int \<times> int) option" where
  "decode_calls_cursor b64 token =
     (case b64_decode b64 token of
        None \<Rightarrow> None
      | Some bytes \<Rightarrow>
         (if is_utf8 bytes
          then (case split_at_first '':'' bytes of
                  None \<Rightarrow> None
                | Some (ts, i) \<Rightarrow>
                    (case (parse_i64 ts, parse_i64 i) of (Some t, Some r) \<Rightarrow> Some (t, r) | _ \<Rightarrow> None))
          else None))"

section \<open>Routes\<close>

definition json_int :: "int \<Rightarrow> json" where
  "json_int x = JNum (if x < 0 then JNeg x else JPos (of_int x))"

definition opt_key :: "string \<Rightarrow> ('a \<Rightarrow> json) \<Rightarrow> 'a option \<Rightarrow> (string \<times> json) list" where
  "opt_key k f x = (case x of None \<Rightarrow> [] | Some v \<Rightarrow> [(k, f v)])"

definition call_summary :: "call_record \<Rightarrow> json" where
  "call_summary r = JObj
     (opt_key ''id'' json_int (cr_id r) @ opt_key ''requestUid'' JStr (cr_request_uid r) @
      opt_key ''serverName'' JStr (cr_server_name r) @
      [(''tool'', JStr (cr_tool r)), (''tsStart'', json_int (cr_ts_start r)), (''durationMs'', json_int (cr_duration_ms r)),
       (''success'', JBool (cr_success r))] @
      opt_key ''errorMessage'' JStr (cr_error_message r) @
      [(''requestBytes'', json_int (cr_request_bytes r)), (''responseBytes'', json_int (cr_response_bytes r))])"

definition call_record_dto :: "call_record \<Rightarrow> json" where
  "call_record_dto r = JObj
     (opt_key ''id'' json_int (cr_id r) @ opt_key ''requestUid'' JStr (cr_request_uid r) @
      opt_key ''endpoint'' JStr (cr_endpoint r) @ opt_key ''serverName'' JStr (cr_server_name r) @
      opt_key ''serverType'' JStr (cr_server_type r) @ opt_key ''transport'' JStr (cr_transport r) @
      opt_key ''profile'' JStr (cr_profile r) @ opt_key ''clientName'' JStr (cr_client_name r) @
      opt_key ''clientVersion'' JStr (cr_client_version r) @ opt_key ''clientUserAgent'' JStr (cr_client_user_agent r) @
      opt_key ''clientOrigin'' JStr (cr_client_origin r) @
      [(''tool'', JStr (cr_tool r)), (''tsStart'', json_int (cr_ts_start r)), (''tsEnd'', json_int (cr_ts_end r)),
       (''durationMs'', json_int (cr_duration_ms r)), (''success'', JBool (cr_success r))] @
      opt_key ''errorMessage'' JStr (cr_error_message r) @
      [(''requestBytes'', json_int (cr_request_bytes r)), (''responseBytes'', json_int (cr_response_bytes r)),
       (''streamed'', JBool (cr_streamed r))])"

definition observability_unavailable :: api_response where
  "observability_unavailable = error_response 503 ''observability not available''
     (Some ''The observability subsystem is not initialised.'')"

record calls_query =
  cq_filter :: query_filter
  cq_limit :: "int option"
  cq_cursor :: "string option"

definition CALLS_DEFAULT_LIMIT :: int where "CALLS_DEFAULT_LIMIT = 100"
definition CALLS_MAX_LIMIT :: int where "CALLS_MAX_LIMIT = 1000"

definition clamped_limit :: "int option \<Rightarrow> int" where
  "clamped_limit l = max 1 (min CALLS_MAX_LIMIT (unwrap_or CALLS_DEFAULT_LIMIT l))"

definition next_cursor_of :: "cursor_codec \<Rightarrow> int \<Rightarrow> call_record list \<Rightarrow> string option" where
  "next_cursor_of b64 limit rows =
     (if limit \<le> int (length rows) \<and> rows \<noteq> []
      then map_option (encode_calls_cursor b64 (cr_ts_start (last rows))) (cr_id (last rows)) else None)"

definition get_observability_calls ::
  "sqlite \<Rightarrow> cursor_codec \<Rightarrow> calls_query \<Rightarrow> observability option \<Rightarrow> api_response" where
  "get_observability_calls db b64 q obs =
     (case obs of
        None \<Rightarrow> observability_unavailable
      | Some s \<Rightarrow>
         (let limit = clamped_limit (cq_limit q) in
          if cq_cursor q \<noteq> None \<and> Option.bind (cq_cursor q) (decode_calls_cursor b64) = None
          then error_response 400 ''invalid cursor'' (Some ''The cursor query parameter is not a valid continuation token.'')
          else case query db (cq_filter q) limit (Option.bind (cq_cursor q) (decode_calls_cursor b64)) (obs_table s) of
            Inl e \<Rightarrow> error_response 500 ''failed to query observability records'' (Some e)
          | Inr rows \<Rightarrow> ok_response (JObj
              ([(''calls'', JArr (map call_summary rows)), (''limit'', json_int limit)] @
               opt_key ''nextCursor'' JStr (next_cursor_of b64 limit rows)))))"

definition stored_payloads_json :: "stored_payloads \<Rightarrow> json" where
  "stored_payloads_json p = JObj
     [(''request'', JStr (sp_request p)), (''response'', JStr (sp_response p)),
      (''request_truncated'', JBool (sp_request_truncated p)), (''response_truncated'', JBool (sp_response_truncated p)),
      (''streamed'', JBool (sp_streamed p)), (''captured_at_ms'', json_int (sp_captured_at_ms p))]"

definition get_observability_call_detail ::
  "sqlite \<Rightarrow> nat \<Rightarrow> string \<Rightarrow> observability option \<Rightarrow> observability option \<times> api_response" where
  "get_observability_call_detail db now uid obs =
     (case obs of
        None \<Rightarrow> (obs, observability_unavailable)
      | Some s \<Rightarrow>
         (case get_by_request_uid db uid (obs_table s) of
            Inl e \<Rightarrow> (obs, error_response 500 ''failed to load observability record'' (Some e))
          | Inr None \<Rightarrow> (obs, error_response 404 ''call record not found'' (Some (''No record for request_uid '' @ uid)))
          | Inr (Some r) \<Rightarrow>
             (if \<not> obs_store_payloads s
              then (obs, ok_response (JObj [(''record'', call_record_dto r), (''payloadStatus'', JStr ''disabled'')]))
              else (case get_payloads now uid (obs_payloads s) of
                 (ps, Some p) \<Rightarrow> (Some (s\<lparr>obs_payloads := ps\<rparr>), ok_response (JObj
                    [(''record'', call_record_dto r), (''payloadStatus'', JStr ''stored''), (''payloads'', stored_payloads_json p)]))
               | (ps, None) \<Rightarrow> (Some (s\<lparr>obs_payloads := ps\<rparr>), ok_response (JObj
                    [(''record'', call_record_dto r), (''payloadStatus'', JStr ''expired'')]))))))"

definition purge_observability :: "sqlite \<Rightarrow> observability option \<Rightarrow> observability option \<times> api_response" where
  "purge_observability db obs =
     (case obs of
        None \<Rightarrow> (obs, observability_unavailable)
      | Some s \<Rightarrow>
         (case purge_rows db (obs_table s) of
            (t, Inl e) \<Rightarrow> (Some (s\<lparr>obs_table := t\<rparr>), error_response 500 ''failed to purge observability metadata'' (Some e))
          | (t, Inr _) \<Rightarrow> (Some (s\<lparr>obs_table := t, obs_payloads := purge_payloads (obs_payloads s)\<rparr>),
              ok_response (JObj [(''ok'', JBool True), (''message'', JStr ''observability records purged'')]))))"

record aggregates_query =
  aq_bucket_seconds :: "int option"
  aq_since :: "int option"
  aq_until :: "int option"

definition bucket_json :: "aggregate_bucket \<Rightarrow> json" where
  "bucket_json b = JObj
     (opt_key ''server'' JStr (ab_server b) @
      [(''bucketStart'', json_int (ab_bucket_start b)), (''count'', json_int (int (ab_count b))),
       (''errorCount'', json_int (int (ab_error_count b))), (''p50Ms'', json_int (ab_p50_ms b)),
       (''p95Ms'', json_int (ab_p95_ms b))])"

definition get_observability_aggregates ::
  "sqlite \<Rightarrow> int \<Rightarrow> aggregates_query \<Rightarrow> observability option \<Rightarrow> api_response" where
  "get_observability_aggregates db wall_ms q obs =
     (case obs of
        None \<Rightarrow> observability_unavailable
      | Some s \<Rightarrow>
         (let until = unwrap_or wall_ms (aq_until q); since = unwrap_or (until - 3600000) (aq_since q);
              secs = max (unwrap_or 60 (aq_bucket_seconds q)) 1;
              summary = JObj [(''enabled'', JBool (obs_enabled s)), (''storePayloads'', JBool (obs_store_payloads s)),
                (''dropped'', json_int (int (unat (obs_dropped s)))),
                (''payloadBufferLen'', json_int (int (payloads_len (obs_payloads s)))),
                (''payloadBufferBytes'', json_int (int (pi_total_bytes (ps_inner (obs_payloads s)))))]
          in case aggregate db secs since until (obs_table s) of
               Inl e \<Rightarrow> error_response 500 ''failed to aggregate observability records'' (Some e)
             | Inr buckets \<Rightarrow> ok_response (JObj [(''buckets'', JArr (map bucket_json buckets)), (''summary'', summary)])))"

section \<open>The cascade of a deleted endpoint\<close>

definition delete_cascade :: "sqlite \<Rightarrow> string \<Rightarrow> observability option \<Rightarrow> observability option" where
  "delete_cascade db name obs =
     (case obs of
        None \<Rightarrow> None
      | Some s \<Rightarrow>
         (if \<not> obs_enabled s then obs
          else (let uids = request_uids_for_server db name (obs_table s);
                    (t, removed) = delete_for_server db name (obs_table s)
                in Some (s\<lparr>obs_table := t, obs_payloads :=
                     (case uids of
                        Inl e \<Rightarrow> obs_payloads s
                      | Inr us \<Rightarrow> if us = [] then obs_payloads s else remove_for_server us (obs_payloads s))\<rparr>))))"

section \<open>Accounting\<close>

datatype pipeline_event = Captured capture | Consumes nat int

fun pipeline_step :: "sqlite \<Rightarrow> (json \<Rightarrow> string) \<Rightarrow> pipeline_event \<Rightarrow> observability \<Rightarrow> observability" where
  "pipeline_step db ts (Captured c) s = capture c s"
| "pipeline_step db ts (Consumes now wall_ms) s = consumer_step db ts now wall_ms s"

definition run_pipeline :: "sqlite \<Rightarrow> (json \<Rightarrow> string) \<Rightarrow> pipeline_event list \<Rightarrow> observability \<Rightarrow> observability" where
  "run_pipeline db ts es s = fold (pipeline_step db ts) es s"

definition unnumbered :: "call_record \<Rightarrow> call_record" where
  "unnumbered r = r\<lparr>cr_id := None\<rparr>"

fun in_flight :: "consumer_phase \<Rightarrow> capture list" where
  "in_flight (Batching b) = b"
| "in_flight (Writing b) = b"
| "in_flight _ = []"

definition kept :: "observability \<Rightarrow> call_record list" where
  "kept s = map unnumbered (ct_rows (obs_table s)) @
     map (unnumbered \<circ> fst) (in_flight (obs_phase s) @ obs_queue s)"

fun captured :: "pipeline_event list \<Rightarrow> call_record list" where
  "captured [] = []"
| "captured (Captured c # es) = unnumbered (fst c) # captured es"
| "captured (Consumes now wall_ms # es) = captured es"

definition pipeline_bounded :: "observability \<Rightarrow> bool" where
  "pipeline_bounded s =
     (length (obs_queue s) \<le> CAPTURE_CHANNEL_CAPACITY \<and> length (in_flight (obs_phase s)) \<le> METADATA_BATCH_MAX)"

lemma ingest_records: "fst (fold ingest cs acc) = fst acc @ map fst cs"
  by (induction cs arbitrary: acc) (auto simp: ingest_def split: prod.splits)

lemma unnumber_rows: "map unnumbered (number_rows n rs) = map unnumbered rs"
  by (induction rs arbitrary: n) (auto simp: unnumbered_def)

lemma insert_batch_rows:
  "sq_error db t Sql_insert = None \<Longrightarrow>
   map unnumbered (ct_rows (fst (insert_batch db rs t))) = map unnumbered (ct_rows t) @ map unnumbered rs"
  by (simp add: insert_batch_def unnumber_rows)

lemma consumer_kept:
  assumes "\<forall>t. sq_error db t Sql_insert = None"
  shows "kept (consumer_step db ts now wall_ms s) = kept s"
    and "obs_dropped (consumer_step db ts now wall_ms s) = obs_dropped s"
    and "obs_enabled (consumer_step db ts now wall_ms s) = obs_enabled s"
    and "pipeline_bounded s \<Longrightarrow> pipeline_bounded (consumer_step db ts now wall_ms s)"
  using assms insert_batch_rows [of db]
  by (auto simp: consumer_step_def kept_def pipeline_bounded_def ingest_all_def ingest_records METADATA_BATCH_MAX_def
      case_prod_beta Let_def split: consumer_phase.splits list.splits prod.splits)

lemma capture_kept:
  "obs_enabled s \<Longrightarrow> (kept (capture c s) = kept s @ [unnumbered (fst c)] \<and> obs_dropped (capture c s) = obs_dropped s) \<or>
     (kept (capture c s) = kept s \<and> obs_dropped (capture c s) = obs_dropped s + 1)"
  "obs_enabled (capture c s) = obs_enabled s"
  "pipeline_bounded s \<Longrightarrow> pipeline_bounded (capture c s)"
  by (auto simp: capture_def kept_def pipeline_bounded_def CAPTURE_CHANNEL_CAPACITY_def)

lemma run_accounts:
  assumes "\<forall>t. sq_error db t Sql_insert = None" "obs_enabled s" "pipeline_bounded s"
  shows "pipeline_bounded (run_pipeline db ts es s) \<and> subseq (kept (run_pipeline db ts es s)) (kept s @ captured es) \<and>
    (\<exists>n. obs_dropped (run_pipeline db ts es s) = obs_dropped s + of_nat n \<and>
         length (kept (run_pipeline db ts es s)) + n = length (kept s) + length (captured es))"
  using assms(2,3)
proof (induction es arbitrary: s)
  case Nil
  then show ?case by (auto simp: run_pipeline_def intro: exI [of _ 0])
next
  case (Cons e es)
  let ?s = "pipeline_step db ts e s"
  have run: "run_pipeline db ts (e # es) s = run_pipeline db ts es ?s" by (simp add: run_pipeline_def)
  have en: "obs_enabled ?s" and bd: "pipeline_bounded ?s"
    using Cons.prems consumer_kept [OF assms(1)] capture_kept by (cases e; simp)+
  note ih = Cons.IH [OF en bd]
  then obtain n where n: "obs_dropped (run_pipeline db ts es ?s) = obs_dropped ?s + of_nat n"
    "length (kept (run_pipeline db ts es ?s)) + n = length (kept ?s) + length (captured es)" by blast
  show ?case
  proof (cases e)
    case (Captured c)
    from capture_kept(1) [OF Cons.prems(1), of c] show ?thesis
    proof
      assume a: "kept (capture c s) = kept s @ [unnumbered (fst c)] \<and> obs_dropped (capture c s) = obs_dropped s"
      then show ?thesis using ih n unfolding run by (auto simp: Captured)
    next
      assume a: "kept (capture c s) = kept s \<and> obs_dropped (capture c s) = obs_dropped s + 1"
      have "subseq (kept s @ captured es) (kept s @ unnumbered (fst c) # captured es)"
        by (auto intro: list_emb_append_mono list_emb_Cons)
      then have "subseq (kept (run_pipeline db ts es ?s)) (kept s @ unnumbered (fst c) # captured es)"
        using ih a by (metis Captured pipeline_step.simps(1) subseq_order.trans)
      moreover have "obs_dropped (run_pipeline db ts es ?s) = obs_dropped s + of_nat (Suc n)"
        using n(1) a by (simp add: Captured)
      ultimately show ?thesis using ih n(2) a unfolding run by (auto simp: Captured intro!: exI [of _ "Suc n"])
    qed
  next
    case (Consumes now wall_ms)
    then show ?thesis using ih n consumer_kept [OF assms(1)] unfolding run by auto
  qed
qed


section \<open>Cursors carry the last row\<close>

lemma digits_value_append: "digits_value acc (s @ t) = Option.bind (digits_value acc s) (\<lambda>a. digits_value a t)"
  by (induction s arbitrary: acc) auto

lemma byte_digit: "d < 10 \<Longrightarrow> byte (char_of (48 + d)) = 48 + d"
  by (simp add: byte_char_of)

lemma digits_value_dec: "digits_value 0 (dec_of_nat n) = Some n"
proof (induction n rule: dec_of_nat.induct)
  case (1 n)
  show ?case
  proof (cases "n < 10")
    case True
    then show ?thesis by (subst dec_of_nat.simps) (simp add: byte_digit is_digit_def)
  next
    case False
    have "n mod 10 < 10" by simp
    with False "1.IH" show ?thesis
      by (subst dec_of_nat.simps) (simp add: digits_value_append byte_digit is_digit_def)
  qed
qed

lemma dec_digits: "c \<in> set (dec_of_nat n) \<Longrightarrow> is_digit (byte c)"
proof (induction n rule: dec_of_nat.induct)
  case (1 n)
  have "n mod 10 < 10" by simp
  with 1 show ?case
    by (cases "n < 10"; subst (asm) (2) dec_of_nat.simps) (auto simp: byte_digit is_digit_def)
qed

lemma dec_nonempty: "dec_of_nat n \<noteq> []"
  by (subst dec_of_nat.simps) simp

lemma dec_no_sign: "CHR ''-'' \<notin> set (dec_of_nat n)" "CHR ''+'' \<notin> set (dec_of_nat n)" "CHR '':'' \<notin> set (dec_of_nat n)"
  using dec_digits by (fastforce simp: is_digit_def byte_def)+

lemma parse_show_i64:
  assumes "- (2 ^ 63) \<le> x" "x < 2 ^ 63"
  shows "parse_i64 (show_i64 x) = Some x"
proof (cases "x < 0")
  case True
  then show ?thesis using assms by (simp add: show_i64_def parse_i64_def dec_nonempty digits_value_dec i64_of_def)
next
  case False
  obtain c r where d: "dec_of_nat (nat x) = c # r" using dec_nonempty by (cases "dec_of_nat (nat x)") auto
  then have "c \<noteq> CHR ''-''" "c \<noteq> CHR ''+''" using dec_no_sign [of "nat x"] by auto
  then show ?thesis
    using False assms digits_value_dec [of "nat x"] by (simp add: show_i64_def parse_i64_def d i64_of_def)
qed

lemma cursor_ascii: "is_utf8 (show_i64 a @ '':'' @ show_i64 b)"
proof (rule is_ascii_utf8)
  have "byte c < 128" if "c \<in> set (dec_of_nat n)" for c n using dec_digits [OF that] by (simp add: is_digit_def)
  then show "is_ascii (show_i64 a @ '':'' @ show_i64 b)"
    by (auto simp: is_ascii_def show_i64_def list_all_iff byte_def)
qed

definition i64_range :: "int \<Rightarrow> bool" where
  "i64_range x = (- (2 ^ 63) \<le> x \<and> x < 2 ^ 63)"

lemma cursor_roundtrip:
  assumes "\<And>s. b64_decode b64 (b64_encode b64 s) = Some s" "i64_range a" "i64_range b"
  shows "decode_calls_cursor b64 (encode_calls_cursor b64 a b) = Some (a, b)"
proof -
  have "CHR '':'' \<notin> set (show_i64 a)" using dec_no_sign(3) by (auto simp: show_i64_def)
  then have "split_at_first '':'' (show_i64 a @ '':'' @ show_i64 b) = Some (show_i64 a, show_i64 b)"
    by (simp add: split_at_first_single)
  with assms parse_show_i64 cursor_ascii show ?thesis
    by (simp add: decode_calls_cursor_def encode_calls_cursor_def i64_range_def)
qed

section \<open>Walking the calls route\<close>

text \<open>The client repeats the request with the token it was given until none is returned; the table may be
  another one at each request.\<close>

fun route_walk ::
  "sqlite \<Rightarrow> cursor_codec \<Rightarrow> calls_query \<Rightarrow> string option \<Rightarrow> call_table list \<Rightarrow> (string + call_record list) \<times> bool" where
  "route_walk db b64 q token [] = (Inr [], False)"
| "route_walk db b64 q token (t # ts) =
     (let limit = clamped_limit (cq_limit q) in
      case query db (cq_filter q) limit (Option.bind token (decode_calls_cursor b64)) t of
        Inl e \<Rightarrow> (Inl e, False)
      | Inr rows \<Rightarrow>
         (case next_cursor_of b64 limit rows of
            None \<Rightarrow> (Inr rows, True)
          | Some token' \<Rightarrow>
             (case route_walk db b64 q (Some token') ts of
                (Inl e, finished) \<Rightarrow> (Inl e, False)
              | (Inr rest, finished) \<Rightarrow> (Inr (rows @ rest), finished))))"

definition table_in_range :: "call_table \<Rightarrow> bool" where
  "table_in_range t = (table_wf t \<and>
     (\<forall>r \<in> set (ct_rows t). i64_range (cr_ts_start r) \<and> given (cr_id r) i64_range))"

lemma clamped_pos: "1 \<le> clamped_limit l \<and> clamped_limit l \<le> 1000"
  by (simp add: clamped_limit_def CALLS_MAX_LIMIT_def)

lemma query_page:
  "sq_error db t Sql_select = None \<Longrightarrow>
   query db f (clamped_limit l) cursor t = Inr (page f (nat (clamped_limit l)) cursor t)"
  using clamped_pos [of l] by (simp add: query_def page_def sql_limit_def)

lemma route_walk_pages:
  assumes b64: "\<And>s. b64_decode b64 (b64_encode b64 s) = Some s" and db: "\<forall>t. sq_error db t Sql_select = None"
    and "\<forall>t \<in> set ts. table_in_range t" and "Option.bind token (decode_calls_cursor b64) = cursor"
  shows "route_walk db b64 q token ts =
    (Inr (fst (page_walk (cq_filter q) (nat (clamped_limit (cq_limit q))) cursor ts)),
     snd (page_walk (cq_filter q) (nat (clamped_limit (cq_limit q))) cursor ts))"
  using assms(3,4)
proof (induction ts arbitrary: token cursor)
  case (Cons t ts)
  let ?l = "clamped_limit (cq_limit q)"
  let ?p = "page (cq_filter q) (nat ?l) cursor t"
  have q: "query db (cq_filter q) ?l cursor t = Inr ?p" using db by (simp add: query_page)
  show ?case
  proof (cases "length ?p < nat ?l")
    case True
    then have "\<not> ?l \<le> int (length ?p)" by linarith
    then have "next_cursor_of b64 ?l ?p = None" by (simp add: next_cursor_of_def)
    with True q Cons.prems(2) show ?thesis by (simp add: Let_def)
  next
    case False
    then have ne: "?p \<noteq> []" and full: "?l \<le> int (length ?p)" using clamped_pos [of "cq_limit q"] by auto
    have "last ?p \<in> set (ct_rows t)" using page_in [OF last_in_set [OF ne]] by simp
    then obtain i where i: "cr_id (last ?p) = Some i" "i64_range i" "i64_range (cr_ts_start (last ?p))"
      using Cons.prems(1) by (fastforce simp: table_in_range_def table_wf_def given_def)
    have tok: "next_cursor_of b64 ?l ?p = Some (encode_calls_cursor b64 (cr_ts_start (last ?p)) i)"
      using ne full i by (simp add: next_cursor_of_def)
    have "decode_calls_cursor b64 (encode_calls_cursor b64 (cr_ts_start (last ?p)) i) = Some (row_key (last ?p))"
      using cursor_roundtrip [OF b64 i(3,2)] i(1) by (simp add: row_key_def)
    with Cons.IH [of "Some (encode_calls_cursor b64 (cr_ts_start (last ?p)) i)" "Some (row_key (last ?p))"] Cons.prems
    show ?thesis using False q tok by (simp add: Let_def case_prod_beta)
  qed
qed simp


section \<open>Properties\<close>

definition sound_walk :: "query_filter \<Rightarrow> call_table list \<Rightarrow> call_record list \<Rightarrow> bool" where
  "sound_walk f tables rows =
     (sorted_wrt newer rows \<and> (\<forall>r \<in> set rows. row_matches f r \<and> (\<exists>t \<in> set tables. r \<in> set (ct_rows t))))"

definition complete_walk :: "query_filter \<Rightarrow> call_table list \<Rightarrow> call_record list \<Rightarrow> bool" where
  "complete_walk f tables rows =
     (\<forall>r. row_matches f r \<and> (\<forall>t \<in> set tables. r \<in> set (ct_rows t)) \<longrightarrow> r \<in> set rows)"


definition plain_codec :: cursor_codec where
  "plain_codec = \<lparr>b64_encode = id, b64_decode = Some\<rparr>"


text \<open>C39: every captured call is accounted for: its row is in the table, in the batch being written or in the
  queue, in the order of the captures, or it was counted as dropped; the queue and the batch stay within
  their limits. (As long as the database takes the writes.)\<close>

theorem captures_accounted:
  assumes "\<forall>t. sq_error db t Sql_insert = None"
  shows "let s = run_pipeline db ts es (observability_new (cfg\<lparr>ob_enabled := True\<rparr>) empty_table ps)
    in pipeline_bounded s \<and> subseq (kept s) (captured es) \<and>
       (\<exists>dropped. obs_dropped s = of_nat dropped \<and> length (kept s) + dropped = length (captured es))"
  using run_accounts [OF assms, of "observability_new (cfg\<lparr>ob_enabled := True\<rparr>) empty_table ps" ts es]
  by (simp add: observability_new_def pipeline_bounded_def kept_def empty_table_def Let_def)

definition three_events :: "pipeline_event list" where
  "three_events = [Captured (sample_call 1 2, None), Consumes 0 0, Consumes 0 0, Captured (sample_call 3 4, None), Consumes 0 0]"

theorem captures_accounted_witness:
  "let s = run_pipeline working_db plain_text three_events
       (observability_new (default_observability\<lparr>ob_enabled := True\<rparr>) empty_table (payloads_from_raw 1 1 1))
   in length (ct_rows (obs_table s)) = 1 \<and> length (kept s) = 2 \<and> pipeline_bounded s"
proof -
  let ?s = "run_pipeline working_db plain_text three_events
       (observability_new (default_observability\<lparr>ob_enabled := True\<rparr>) empty_table (payloads_from_raw 1 1 1))"
  have db: "\<forall>t. sq_error working_db t Sql_insert = None" by (simp add: working_db_def)
  have "length (ct_rows (obs_table ?s)) = 1" "length (kept ?s) = 2"
    by (simp_all add: three_events_def run_pipeline_def observability_new_def default_observability_def capture_def
        consumer_step_def CAPTURE_CHANNEL_CAPACITY_def METADATA_BATCH_MAX_def ingest_all_def ingest_def insert_batch_def
        working_db_def empty_table_def kept_def sample_call_def unnumbered_def)
  with captures_accounted [OF db, of plain_text three_events default_observability "payloads_from_raw 1 1 1"]
  show ?thesis by (simp add: Let_def)
qed

text \<open>Deleting an endpoint is meant to delete its records. The records carry the upstream's server name
  in the column the deletion compares with the endpoint's name: those of the deleted endpoint stay unless
  the two names agree, and those of any other endpoint whose upstream goes by that name are deleted.\<close>

theorem delete_cascade_compares_wrong_name:
  assumes "obs_enabled s" and "sq_error db (obs_table s) Sql_delete = None"
    and "capture_record w ent endpoint tool args res = Capture r p"
    and "r\<lparr>cr_id := Some i\<rparr> \<in> set (ct_rows (obs_table s))"
    and "delete_cascade db name (Some s) = Some s'"
  shows "cr_endpoint r = Some endpoint \<and>
    (r\<lparr>cr_id := Some i\<rparr> \<in> set (ct_rows (obs_table s')) \<longleftrightarrow>
     option_or (av_server_type (ra_adapter ent)) (av_upstream_name (ra_adapter ent)) \<noteq> Some name)"
proof -
  have r: "cr_endpoint r = Some endpoint"
    "cr_server_name r = option_or (av_server_type (ra_adapter ent)) (av_upstream_name (ra_adapter ent))"
    using assms(3) by (auto simp: capture_record_def Let_def case_prod_beta)
  have "ct_rows (obs_table s') = filter (\<lambda>r. cr_server_name r \<noteq> Some name) (ct_rows (obs_table s))"
    using assms(1,2,5) by (auto simp: delete_cascade_def delete_for_server_def sql_delete_def Let_def)
  with r assms(4) show ?thesis by auto
qed


theorem delete_cascade_compares_wrong_name_witness:
  "\<exists>r p s s'. capture_record watched_wiring (sample_entry ''fs'' [''read'']) ''fs'' ''read'' JNull (Inr JNull) = Capture r p \<and>
     ct_rows (obs_table s) = [r\<lparr>cr_id := Some 1\<rparr>] \<and> delete_cascade working_db ''fs'' (Some s) = Some s' \<and>
     cr_endpoint r = Some ''fs'' \<and> r\<lparr>cr_id := Some 1\<rparr> \<in> set (ct_rows (obs_table s'))"
proof -
  let ?ent = "sample_entry ''fs'' [''read'']"
  obtain r p where cap: "capture_record watched_wiring ?ent ''fs'' ''read'' JNull (Inr JNull) = Capture r p"
    by (auto simp: capture_record_def Let_def case_prod_beta)
  let ?s = "observability_new default_observability \<lparr>ct_rows = [r\<lparr>cr_id := Some 1\<rparr>], ct_next_id = 2\<rparr> (payloads_from_raw 1 1 1)"
  have s: "obs_enabled ?s" "sq_error working_db (obs_table ?s) Sql_delete = None" "r\<lparr>cr_id := Some 1\<rparr> \<in> set (ct_rows (obs_table ?s))"
    "ct_rows (obs_table ?s) = [r\<lparr>cr_id := Some 1\<rparr>]"
    by (simp_all add: observability_new_def default_observability_def working_db_def)
  obtain s' where del: "delete_cascade working_db ''fs'' (Some ?s) = Some s'"
    using s(1) by (auto simp: delete_cascade_def Let_def case_prod_beta)
  have "option_or (av_server_type (ra_adapter ?ent)) (av_upstream_name (ra_adapter ?ent)) \<noteq> Some ''fs''"
    by (simp add: sample_defs)
  with delete_cascade_compares_wrong_name [OF s(1,2) cap s(3) del] cap s(4) del show ?thesis by blast
qed

end
