(* ===== verification/Config_Edits.thy ===== *)
theory Config_Edits
  imports Observability Reload Stdio_Calls
begin

text \<open>
  The management API's changes of \<^verbatim>\<open>config.toml\<close> (\<^verbatim>\<open>src/src/management.rs\<close>): profiles, endpoints,
  their switches, the observability settings. Each handler reads the file, edits the parsed document, writes
  it back, swaps the configuration in memory and brings the running relay in line. TOML's parser and printer,
  the file system's answers and the setup sessions' reservations are fields of \<open>edit_env\<close>; a document is the
  table the parser returns.

  The lemmas say what an edit leaves of the document, that an accepted request leaves a configuration that
  loads, and that the running relay serves what was accepted; where this fails (renaming or deleting an
  endpoint that a profile uses, reloading by the API) they say how.
\<close>

section \<open>Documents\<close>

datatype toml =
    TStr string
  | TInt int
  | TFloat string
  | TBool bool
  | TDate string
  | TArr "toml list"
  | TTab "(string \<times> toml) list"

type_synonym toml_table = "(string, toml) hashmap"

record edit_env =
  ee_has_path :: bool
  ee_read_error :: "string option"
  ee_parse :: "string \<Rightarrow> string + toml_table"
  ee_print :: "toml_table \<Rightarrow> string + string"
  ee_write :: "string \<Rightarrow> string \<Rightarrow> string \<times> string option"
  ee_reserved :: "string \<Rightarrow> bool"
  ee_encode :: percent_encoder
  ee_now :: nat
  ee_show_name :: "server_name_error \<Rightarrow> string"
  ee_decode :: "string \<Rightarrow> config_error + config"
  ee_machine :: machine
  ee_db :: sqlite

record 'v managed =
  mn_relay :: "'v relay"
  mn_file :: string
  mn_observability :: "observability option"

type_synonym edit_error = "nat \<times> string \<times> string"

text \<open>Read, parse, edit, print, write: the steps every change of the file takes, with its error answers.\<close>

definition edit_file :: "edit_env \<Rightarrow> (toml_table \<Rightarrow> edit_error + toml_table) \<Rightarrow> string \<Rightarrow> string \<times> (edit_error + unit)" where
  "edit_file env f contents =
     (case ee_read_error env of
        Some e \<Rightarrow> (contents, Inl (500, ''failed to read config file'', e))
      | None \<Rightarrow>
         (case ee_parse env contents of
            Inl e \<Rightarrow> (contents, Inl (500, ''failed to parse config file'', e))
          | Inr parsed \<Rightarrow>
             (case f parsed of
                Inl e \<Rightarrow> (contents, Inl e)
              | Inr edited \<Rightarrow>
                 (case ee_print env edited of
                    Inl e \<Rightarrow> (contents, Inl (500, ''failed to serialize config'', e))
                  | Inr new_contents \<Rightarrow>
                     (case ee_write env contents new_contents of
                        (after, Some e) \<Rightarrow> (after, Inl (500, ''failed to write config file'', e))
                      | (after, None) \<Rightarrow> (after, Inr ()))))))"

definition edit_answer :: "edit_error \<Rightarrow> api_response" where
  "edit_answer e = (case e of (status, err, detail) \<Rightarrow> error_response status err (Some detail))"

definition NO_CONFIG_PATH :: api_response where
  "NO_CONFIG_PATH = error_response 500 ''config_path not configured''
     (Some ''The management API was not initialised with a config file path.'')"

section \<open>Profiles\<close>

record profile_request =
  prq_name :: string
  prq_path :: string
  prq_endpoints :: "string list"
  prq_js_execution :: bool
  prq_toon_output :: bool

text \<open>The scan for duplicates, in the order of the configured profiles.\<close>

fun profile_conflict :: "profile_request \<Rightarrow> string option \<Rightarrow> profile_config list \<Rightarrow> (string \<times> string) option" where
  "profile_conflict req existing [] = None"
| "profile_conflict req existing (p # ps) =
     (let p_lower = to_ascii_lowercase (pc_path p) in
      if Some p_lower = existing then profile_conflict req existing ps
      else if p_lower = to_ascii_lowercase (prq_path req)
      then Some (''duplicate profile path'', ''Profile path '' @ quoted (prq_path req) @ '' is already in use (paths are case-insensitive).'')
      else if pc_name p = prq_name req
      then Some (''duplicate profile name'', ''Profile name '' @ quoted (prq_name req) @ '' is already in use.'')
      else profile_conflict req existing ps)"

definition validate_profile_request :: "profile_request \<Rightarrow> config \<Rightarrow> string option \<Rightarrow> api_response + profile_config" where
  "validate_profile_request req cfg existing =
     (if blank (Some (prq_name req))
      then Inl (error_response 400 ''invalid profile'' (Some ''Profile name must not be empty''))
      else case validate_profile_path (prq_path req) of
        Some msg \<Rightarrow> Inl (error_response 400 ''invalid profile path'' (Some msg))
      | None \<Rightarrow>
         (case profile_conflict req existing (unwrap_or [] (cf_profiles cfg)) of
            Some (err, detail) \<Rightarrow> Inl (error_response 409 err (Some detail))
          | None \<Rightarrow>
             (case List.find (\<lambda>ep. ep \<notin> set (map ec_name (cf_endpoints cfg))) (prq_endpoints req) of
                Some ep \<Rightarrow> Inl (error_response 400 ''unknown endpoint''
                  (Some (''Profile '' @ quoted (prq_name req) @ '' references unknown endpoint '' @ quoted ep)))
              | None \<Rightarrow> Inr \<lparr>pc_name = prq_name req, pc_path = prq_path req, pc_endpoints = prq_endpoints req,
                  pc_js_execution = prq_js_execution req, pc_toon_output = prq_toon_output req\<rparr>)))"

definition profile_to_toml :: "profile_config \<Rightarrow> toml" where
  "profile_to_toml p = TTab
     [(''name'', TStr (pc_name p)), (''path'', TStr (pc_path p)), (''endpoints'', TArr (map TStr (pc_endpoints p))),
      (''js_execution'', TBool (pc_js_execution p)), (''toon_output'', TBool (pc_toon_output p))]"

definition set_profiles :: "profile_config list \<Rightarrow> toml_table \<Rightarrow> toml_table" where
  "set_profiles ps t =
     (if ps = [] then hm_remove ''profiles'' t else hm_insert ''profiles'' (TArr (map profile_to_toml ps)) t)"

definition write_profiles_to_disk :: "edit_env \<Rightarrow> profile_config list \<Rightarrow> string \<Rightarrow> string \<times> (edit_error + unit)" where
  "write_profiles_to_disk env ps = edit_file env (\<lambda>t. Inr (set_profiles ps t))"

definition apply_profiles_change :: "edit_env \<Rightarrow> profile_config list \<Rightarrow> 'v managed \<Rightarrow> 'v managed \<times> (api_response + unit)" where
  "apply_profiles_change env ps s =
     (if \<not> ee_has_path env then (s, Inl NO_CONFIG_PATH)
      else case write_profiles_to_disk env ps (mn_file s) of
        (file', Inl e) \<Rightarrow> (s\<lparr>mn_file := file'\<rparr>, Inl (edit_answer e))
      | (file', Inr _) \<Rightarrow>
          (let rl = mn_relay s;
               c = (rl_config rl)\<lparr>cf_profiles := (if ps = [] then None else Some ps)\<rparr>
           in (s\<lparr>mn_file := file', mn_relay := rl\<lparr>rl_config := c, rl_profiles := rebuild ps (rl_profiles rl)\<rparr>\<rparr>, Inr ())))"

definition profile_tool_count :: "edit_env \<Rightarrow> string \<Rightarrow> 'v managed \<Rightarrow> 'v managed \<times> nat" where
  "profile_tool_count env path s =
     (let rl = mn_relay s; st = rl_reload rl in
      case get_profile path (rl_profiles rl) of
        None \<Rightarrow> (s, 0)
      | Some ctx \<Rightarrow>
         (let (r', tools) = view_merged_catalog (ee_encode env) (ee_now env) (px_allowed ctx) (rs_registry st)
          in (s\<lparr>mn_relay := rl\<lparr>rl_reload := st\<lparr>rs_registry := r'\<rparr>\<rparr>\<rparr>, length tools)))"

definition profile_summary_fields :: "profile_config \<Rightarrow> nat \<Rightarrow> (string \<times> json) list" where
  "profile_summary_fields p tool_count =
     [(''name'', JStr (pc_name p)), (''path'', JStr (pc_path p)), (''endpoints'', JArr (map JStr (pc_endpoints p))),
      (''js_execution'', JBool (pc_js_execution p)), (''toon_output'', JBool (pc_toon_output p)),
      (''endpoint_count'', json_int (int (length (pc_endpoints p)))), (''tool_count'', json_int (int tool_count))]"

definition build_profile_summary :: "edit_env \<Rightarrow> profile_config \<Rightarrow> 'v managed \<Rightarrow> 'v managed \<times> json" where
  "build_profile_summary env p s =
     (let (s', n) = profile_tool_count env (pc_path p) s in (s', JObj (profile_summary_fields p n)))"

fun build_summaries :: "edit_env \<Rightarrow> profile_config list \<Rightarrow> 'v managed \<Rightarrow> 'v managed \<times> (string \<times> json) list" where
  "build_summaries env [] s = (s, [])"
| "build_summaries env (p # ps) s =
     (let (s1, j) = build_profile_summary env p s; (s2, js) = build_summaries env ps s1 in (s2, (pc_name p, j) # js))"

definition list_profiles_route :: "edit_env \<Rightarrow> 'v managed \<Rightarrow> 'v managed \<times> api_response" where
  "list_profiles_route env s =
     (let (s', rows) = build_summaries env (unwrap_or [] (cf_profiles (rl_config (mn_relay s)))) s
      in (s', ok_response (JArr (map snd (sort_key fst rows)))))"

definition create_profile :: "edit_env \<Rightarrow> profile_request \<Rightarrow> 'v managed \<Rightarrow> 'v managed \<times> api_response" where
  "create_profile env req s =
     (let cfg = rl_config (mn_relay s) in
      case validate_profile_request req cfg None of
        Inl resp \<Rightarrow> (s, resp)
      | Inr p \<Rightarrow>
         (case apply_profiles_change env (unwrap_or [] (cf_profiles cfg) @ [p]) s of
            (s1, Inl resp) \<Rightarrow> (s1, resp)
          | (s1, Inr _) \<Rightarrow>
             (let (s2, j) = build_profile_summary env p s1 in (s2, \<lparr>ar_status = 201, ar_body = j\<rparr>))))"

definition profile_missing :: "string \<Rightarrow> api_response" where
  "profile_missing path = error_response 404 ''profile not found'' (Some (''No profile at path '' @ quoted path))"

definition at_path :: "string \<Rightarrow> profile_config \<Rightarrow> bool" where
  "at_path path_lower p = (to_ascii_lowercase (pc_path p) = path_lower)"

fun replace_first :: "('a \<Rightarrow> bool) \<Rightarrow> 'a \<Rightarrow> 'a list \<Rightarrow> 'a list" where
  "replace_first P y [] = []"
| "replace_first P y (x # xs) = (if P x then y # xs else x # replace_first P y xs)"

definition update_profile :: "edit_env \<Rightarrow> string \<Rightarrow> profile_request \<Rightarrow> 'v managed \<Rightarrow> 'v managed \<times> api_response" where
  "update_profile env path req s =
     (let cfg = rl_config (mn_relay s); ps = unwrap_or [] (cf_profiles cfg); path_lower = to_ascii_lowercase path in
      if \<not> list_ex (at_path path_lower) ps then (s, profile_missing path)
      else case validate_profile_request req cfg (Some path_lower) of
        Inl resp \<Rightarrow> (s, resp)
      | Inr p \<Rightarrow>
         (case apply_profiles_change env (replace_first (at_path path_lower) p ps) s of
            (s1, Inl resp) \<Rightarrow> (s1, resp)
          | (s1, Inr _) \<Rightarrow> (let (s2, j) = build_profile_summary env p s1 in (s2, ok_response j))))"

definition delete_profile :: "edit_env \<Rightarrow> string \<Rightarrow> 'v managed \<Rightarrow> 'v managed \<times> api_response" where
  "delete_profile env path s =
     (let cfg = rl_config (mn_relay s); ps = unwrap_or [] (cf_profiles cfg); path_lower = to_ascii_lowercase path in
      if \<not> list_ex (at_path path_lower) ps then (s, profile_missing path)
      else case apply_profiles_change env (filter (\<lambda>p. \<not> at_path path_lower p) ps) s of
        (s1, Inl resp) \<Rightarrow> (s1, resp)
      | (s1, Inr _) \<Rightarrow> (s1, \<lparr>ar_status = 204, ar_body = JNull\<rparr>))"

definition get_endpoint_profile_membership :: "string \<Rightarrow> 'v managed \<Rightarrow> api_response" where
  "get_endpoint_profile_membership name s =
     (let cfg = rl_config (mn_relay s) in
      if \<not> list_ex (\<lambda>e. ec_name e = name) (cf_endpoints cfg) then endpoint_not_found name
      else ok_response (JObj [(''profiles'', JArr (map JStr (sort (map pc_path
             (filter (\<lambda>p. name \<in> set (pc_endpoints p)) (unwrap_or [] (cf_profiles cfg)))))))]))"

section \<open>Profile requests keep the relay in step\<close>

lemma setups_entry_rows:
  "map_option setup_of (hm_get (map (\<lambda>p. fst (entry_rows enc now skip p)) m) k) = map_option setup_of (hm_get m k)"
proof (induction m)
  case (Cons p m)
  obtain ep e where p: "p = (ep, e)" by (cases p)
  have "\<exists>e'. fst (entry_rows enc now skip p) = (ep, e') \<and> setup_of e' = setup_of e"
    by (auto simp: p entry_rows_def cached_list_tools_def Let_def store_if_epoch_unchanged_def setup_of_def
        split: option.splits sum.splits prod.splits)
  then show ?case using Cons.IH by (auto simp: hm_get_Cons p)
qed simp

lemma merged_setups [simp]:
  "setups (fst (merged_catalog_with_lookup enc now r)) = setups r"
  "r_validate_inputs (fst (merged_catalog_with_lookup enc now r)) = r_validate_inputs r"
  by (auto simp: merged_catalog_with_lookup_def refresh_catalog_def store_catalog_def build_catalog_def Let_def
      setups_def setups_entry_rows fun_eq_iff split: option.splits)

lemma tool_count_relay:
  "rl_config (mn_relay (fst (profile_tool_count env path s))) = rl_config (mn_relay s)"
  "rl_profiles (mn_relay (fst (profile_tool_count env path s))) = rl_profiles (mn_relay s)"
  "in_step m (mn_relay (fst (profile_tool_count env path s))) = in_step m (mn_relay s)"
  by (auto simp: profile_tool_count_def view_merged_catalog_def Let_def in_step_def case_prod_beta serves_config_def
      split: option.splits)

lemma summary_relay [simp]:
  "rl_config (mn_relay (fst (build_profile_summary env p s))) = rl_config (mn_relay s)"
  "rl_profiles (mn_relay (fst (build_profile_summary env p s))) = rl_profiles (mn_relay s)"
  "in_step m (mn_relay (fst (build_profile_summary env p s))) = in_step m (mn_relay s)"
  by (simp_all add: build_profile_summary_def case_prod_beta tool_count_relay)

lemma profile_conflict_none:
  "profile_conflict req existing ps = None \<longleftrightarrow>
     (\<forall>p \<in> set ps. Some (to_ascii_lowercase (pc_path p)) = existing \<or>
        to_ascii_lowercase (pc_path p) \<noteq> to_ascii_lowercase (prq_path req) \<and> pc_name p \<noteq> prq_name req)"
  by (induction req existing ps rule: profile_conflict.induct) (auto simp: Let_def)

lemma validated_profile:
  assumes "validate_profile_request req cfg existing = Inr p"
  shows "p = \<lparr>pc_name = prq_name req, pc_path = prq_path req, pc_endpoints = prq_endpoints req,
      pc_js_execution = prq_js_execution req, pc_toon_output = prq_toon_output req\<rparr>"
    and "profile_ok (set (map ec_name (cf_endpoints cfg))) p"
    and "q \<in> set (unwrap_or [] (cf_profiles cfg)) \<Longrightarrow> Some (to_ascii_lowercase (pc_path q)) \<noteq> existing \<Longrightarrow>
      to_ascii_lowercase (pc_path q) \<noteq> to_ascii_lowercase (pc_path p) \<and> pc_name q \<noteq> pc_name p"
proof -
  have parts: "\<not> blank (Some (prq_name req))" "validate_profile_path (prq_path req) = None"
    "profile_conflict req existing (unwrap_or [] (cf_profiles cfg)) = None"
    "List.find (\<lambda>ep. ep \<notin> set (map ec_name (cf_endpoints cfg))) (prq_endpoints req) = None"
    and p: "p = \<lparr>pc_name = prq_name req, pc_path = prq_path req, pc_endpoints = prq_endpoints req,
      pc_js_execution = prq_js_execution req, pc_toon_output = prq_toon_output req\<rparr>"
    using assms by (auto simp: validate_profile_request_def split: if_splits option.splits prod.splits)
  then show "p = \<lparr>pc_name = prq_name req, pc_path = prq_path req, pc_endpoints = prq_endpoints req,
      pc_js_execution = prq_js_execution req, pc_toon_output = prq_toon_output req\<rparr>" by simp
  show "profile_ok (set (map ec_name (cf_endpoints cfg))) p"
    using parts by (auto simp: p profile_ok_def profile_path_ok find_None_iff)
  show "q \<in> set (unwrap_or [] (cf_profiles cfg)) \<Longrightarrow> Some (to_ascii_lowercase (pc_path q)) \<noteq> existing \<Longrightarrow>
      to_ascii_lowercase (pc_path q) \<noteq> to_ascii_lowercase (pc_path p) \<and> pc_name q \<noteq> pc_name p"
    using parts(3) by (auto simp: profile_conflict_none p)
qed

definition valid_list :: "string set \<Rightarrow> profile_config list \<Rightarrow> bool" where
  "valid_list names ps = (list_all (profile_ok names) ps \<and> distinct (map pc_name ps) \<and>
     distinct (map (\<lambda>p. to_ascii_lowercase (pc_path p)) ps))"

lemma validate_valid_list:
  "validate_profiles c = Inr () \<longleftrightarrow> valid_list (set (map ec_name (cf_endpoints c))) (unwrap_or [] (cf_profiles c))"
  by (simp add: valid_list_def profiles_valid_iff)

lemma valid_list_append:
  "valid_list names ps \<Longrightarrow> profile_ok names p \<Longrightarrow>
   (\<And>q. q \<in> set ps \<Longrightarrow> to_ascii_lowercase (pc_path q) \<noteq> to_ascii_lowercase (pc_path p) \<and> pc_name q \<noteq> pc_name p) \<Longrightarrow>
   valid_list names (ps @ [p])"
  by (force simp: valid_list_def)

lemma valid_list_filter: "valid_list names ps \<Longrightarrow> valid_list names (filter P ps)"
  by (auto simp: valid_list_def list_all_iff distinct_map_filter)

lemma replace_first_set: "set (replace_first P y xs) \<subseteq> insert y (set xs)"
  by (induction xs) auto

lemma valid_list_Cons:
  "valid_list names (x # ps) \<longleftrightarrow> profile_ok names x \<and> valid_list names ps \<and>
     (\<forall>q \<in> set ps. pc_name q \<noteq> pc_name x \<and> to_ascii_lowercase (pc_path q) \<noteq> to_ascii_lowercase (pc_path x))"
  unfolding valid_list_def by (auto simp: image_iff)

lemma valid_list_replace:
  "valid_list names ps \<Longrightarrow> profile_ok names p \<Longrightarrow>
   (\<And>q. q \<in> set ps \<Longrightarrow> \<not> at_path l q \<Longrightarrow> to_ascii_lowercase (pc_path q) \<noteq> to_ascii_lowercase (pc_path p) \<and> pc_name q \<noteq> pc_name p) \<Longrightarrow>
   valid_list names (replace_first (at_path l) p ps)"
proof (induction ps)
  case (Cons x ps)
  show ?case
  proof (cases "at_path l x")
    case True
    have "to_ascii_lowercase (pc_path x) \<notin> (\<lambda>p. to_ascii_lowercase (pc_path p)) ` set ps"
      using Cons.prems(1) by (simp add: valid_list_def)
    with True have "\<not> at_path l q" if "q \<in> set ps" for q
      using that unfolding at_path_def by (metis imageI)
    with Cons.prems True show ?thesis by (force simp: valid_list_def)
  next
    case False
    have ih: "valid_list names (replace_first (at_path l) p ps)"
      using Cons by (simp add: valid_list_Cons)
    have "q = p \<or> q \<in> set ps" if "q \<in> set (replace_first (at_path l) p ps)" for q
      using that replace_first_set [of "at_path l" p ps] by auto
    then have "pc_name q \<noteq> pc_name x \<and> to_ascii_lowercase (pc_path q) \<noteq> to_ascii_lowercase (pc_path x)"
      if "q \<in> set (replace_first (at_path l) p ps)" for q
      using that Cons.prems(1) Cons.prems(3) [of x] False unfolding valid_list_Cons by (metis list.set_intros(1))
    with ih Cons.prems(1) False show ?thesis by (simp add: valid_list_Cons)
  qed
qed simp

lemma apply_profiles_step:
  assumes "in_step m (mn_relay s)"
    and "valid_list (set (map ec_name (cf_endpoints (rl_config (mn_relay s))))) ps"
  shows "in_step m (mn_relay (fst (apply_profiles_change env ps s)))"
  using assms
  by (auto simp: apply_profiles_change_def in_step_def Let_def validate_valid_list rebuild_def write_roots_of_def
      resolve_write_roots_def serves_config_def split: sum.splits prod.splits)

lemma step_valid_list:
  "in_step m rl \<Longrightarrow> valid_list (set (map ec_name (cf_endpoints (rl_config rl)))) (unwrap_or [] (cf_profiles (rl_config rl)))"
  by (simp add: in_step_def Let_def validate_valid_list)

lemma create_profile_step: "in_step m (mn_relay s) \<Longrightarrow> in_step m (mn_relay (fst (create_profile env req s)))"
proof -
  assume step: "in_step m (mn_relay s)"
  show ?thesis
  proof (cases "validate_profile_request req (rl_config (mn_relay s)) None")
    case (Inr p)
    note v = validated_profile [OF Inr]
    have "in_step m (mn_relay (fst (apply_profiles_change env (unwrap_or [] (cf_profiles (rl_config (mn_relay s))) @ [p]) s)))"
      using v(3) by (intro apply_profiles_step [OF step] valid_list_append step_valid_list [OF step] v(2)) auto
    with Inr show ?thesis by (auto simp: create_profile_def Let_def case_prod_beta split: sum.splits)
  qed (use step in \<open>simp add: create_profile_def Let_def\<close>)
qed

lemma update_profile_step: "in_step m (mn_relay s) \<Longrightarrow> in_step m (mn_relay (fst (update_profile env path req s)))"
proof -
  assume step: "in_step m (mn_relay s)"
  let ?l = "to_ascii_lowercase path" and ?ps = "unwrap_or [] (cf_profiles (rl_config (mn_relay s)))"
  show ?thesis
  proof (cases "validate_profile_request req (rl_config (mn_relay s)) (Some ?l)")
    case (Inr p)
    note v = validated_profile [OF Inr]
    have "in_step m (mn_relay (fst (apply_profiles_change env (replace_first (at_path ?l) p ?ps) s)))"
      using v(3) by (intro apply_profiles_step [OF step] valid_list_replace step_valid_list [OF step] v(2)) (auto simp: at_path_def)
    with Inr step show ?thesis by (auto simp: update_profile_def Let_def case_prod_beta split: sum.splits)
  qed (use step in \<open>simp add: update_profile_def Let_def\<close>)
qed

lemma delete_profile_step: "in_step m (mn_relay s) \<Longrightarrow> in_step m (mn_relay (fst (delete_profile env path s)))"
proof -
  assume step: "in_step m (mn_relay s)"
  let ?ps = "unwrap_or [] (cf_profiles (rl_config (mn_relay s)))"
  have "in_step m (mn_relay (fst (apply_profiles_change env (filter (\<lambda>p. \<not> at_path (to_ascii_lowercase path) p) ?ps) s)))"
    by (intro apply_profiles_step [OF step] valid_list_filter step_valid_list [OF step])
  with step show ?thesis by (auto simp: delete_profile_def Let_def case_prod_beta split: sum.splits)
qed

lemma rebuilt_surface:
  assumes "valid_list names ps" "p \<in> set ps"
  shows "surface (rebuild ps r) (to_ascii_lowercase (pc_path p)) = Some (set (pc_endpoints p), pc_js_execution p)"
proof -
  have get: "hm_get (fold (\<lambda>p m. hm_insert (to_ascii_lowercase (pc_path p)) (profile_context_of p) m) ps m) (to_ascii_lowercase (pc_path p)) =
      Some (profile_context_of p)"
    if "p \<in> set ps" "distinct (map (\<lambda>p. to_ascii_lowercase (pc_path p)) ps)" for m ps
    using that
  proof (induction ps arbitrary: m)
    case (Cons q ps)
    show ?case
    proof (cases "p \<in> set ps")
      case False
      have "hm_get (fold (\<lambda>p m. hm_insert (to_ascii_lowercase (pc_path p)) (profile_context_of p) m) qs m) k = hm_get m k"
        if "k \<notin> (\<lambda>p. to_ascii_lowercase (pc_path p)) ` set qs" for k qs m
        using that by (induction qs arbitrary: m) (auto simp: hm_get_insert)
      then show ?thesis using Cons.prems False by (simp add: hm_get_insert)
    qed (use Cons in auto)
  qed simp
  show ?thesis
    using get [OF assms(2), of "[]"] assms(1)
    by (simp add: valid_list_def surface_def rebuild_def Let_def profile_map_def profile_context_of_def)
qed


lemma applied_profiles:
  "apply_profiles_change env ps s = (s', Inr u) \<Longrightarrow>
   rl_profiles (mn_relay s') = rebuild ps (rl_profiles (mn_relay s)) \<and>
   unwrap_or [] (cf_profiles (rl_config (mn_relay s'))) = ps"
  by (auto simp: apply_profiles_change_def Let_def split: if_splits sum.splits prod.splits)

text \<open>Whatever profile requests arrive, valid or not, with whatever failures of the file, the running relay
  stays in step: its profiles are the configured ones and pass the loader's validation. A created profile is
  served at once, at its path in any capitalisation, with exactly the endpoints and code-tool flag asked for.\<close>

theorem profile_requests_keep_step:
  assumes "in_step m (mn_relay s)"
  shows "in_step m (mn_relay (fst (create_profile env req s))) \<and>
    in_step m (mn_relay (fst (update_profile env path req s))) \<and>
    in_step m (mn_relay (fst (delete_profile env path s))) \<and>
    (ar_status (snd (create_profile env req s)) = 201 \<longrightarrow>
       surface (rl_profiles (mn_relay (fst (create_profile env req s)))) (to_ascii_lowercase (prq_path req)) =
         Some (set (prq_endpoints req), prq_js_execution req))"
proof (intro conjI impI)
  assume created: "ar_status (snd (create_profile env req s)) = 201"
  let ?ps = "unwrap_or [] (cf_profiles (rl_config (mn_relay s)))"
  have err: "ar_status (error_response n a b) = n" for n a b by (simp add: error_response_def)
  obtain p where p: "validate_profile_request req (rl_config (mn_relay s)) None = Inr p"
    using created by (cases "validate_profile_request req (rl_config (mn_relay s)) None")
      (auto simp: create_profile_def Let_def validate_profile_request_def err split: if_splits option.splits prod.splits)
  note v = validated_profile [OF p]
  obtain s1 where s1: "apply_profiles_change env (?ps @ [p]) s = (s1, Inr ())"
    using created p by (auto simp: create_profile_def Let_def apply_profiles_change_def NO_CONFIG_PATH_def edit_answer_def err
        write_profiles_to_disk_def edit_file_def split: if_splits sum.splits prod.splits option.splits)
  have "valid_list (set (map ec_name (cf_endpoints (rl_config (mn_relay s))))) (?ps @ [p])"
    using v(3) by (intro valid_list_append step_valid_list [OF assms] v(2)) auto
  then have "surface (rebuild (?ps @ [p]) (rl_profiles (mn_relay s))) (to_ascii_lowercase (pc_path p)) =
      Some (set (pc_endpoints p), pc_js_execution p)" by (rule rebuilt_surface) simp
  then show "surface (rl_profiles (mn_relay (fst (create_profile env req s)))) (to_ascii_lowercase (prq_path req)) =
         Some (set (prq_endpoints req), prq_js_execution req)"
    using applied_profiles [OF s1] p s1 v(1) by (simp add: create_profile_def Let_def case_prod_beta)
qed (use assms create_profile_step update_profile_step delete_profile_step in blast)+

definition quiet_env :: edit_env where
  "quiet_env = \<lparr>ee_has_path = True, ee_read_error = None, ee_parse = (\<lambda>s. Inr []), ee_print = (\<lambda>t. Inr ''doc''),
     ee_write = (\<lambda>old new. (new, None)), ee_reserved = (\<lambda>n. False), ee_encode = pct_enc, ee_now = 0,
     ee_show_name = (\<lambda>e. []), ee_decode = (\<lambda>s. Inr work_config), ee_machine = no_files, ee_db = working_db\<rparr>"


definition starting_managed :: "nat managed" where
  "starting_managed = \<lparr>mn_relay = starting_relay, mn_file = [], mn_observability = None\<rparr>"

definition empty_profile_request :: profile_request where
  "empty_profile_request = \<lparr>prq_name = ''W'', prq_path = ''W'', prq_endpoints = [], prq_js_execution = True, prq_toon_output = False\<rparr>"

lemma not_blank_W: "\<not> blank (Some ''W'')"
proof -
  have "is_ascii ''W''" by code_simp
  then have "chars ''W'' = map byte ''W''" by (simp add: chars_ascii)
  moreover have "trim_by is_space (map byte ''W'') \<noteq> []" by code_simp
  ultimately show ?thesis by (simp add: blank_def)
qed

theorem profile_requests_keep_step_witness:
  "let (s, resp) = create_profile quiet_env empty_profile_request starting_managed
   in ar_status resp = 201 \<and> in_step no_files (mn_relay s) \<and> surface (rl_profiles (mn_relay s)) ''w'' = Some ({}, True)"
proof -
  have path: "validate_profile_path ''W'' = None" by code_simp
  have start: "in_step no_files (mn_relay starting_managed)" by (simp add: starting_managed_def starting_in_step)
  have "ar_status (snd (create_profile quiet_env empty_profile_request starting_managed)) = 201"
    by (simp add: create_profile_def empty_profile_request_def validate_profile_request_def not_blank_W path
        starting_managed_def starting_relay_def default_config_def apply_profiles_change_def quiet_env_def
        write_profiles_to_disk_def edit_file_def case_prod_beta)
  moreover have "to_ascii_lowercase ''W'' = ''w''" by code_simp
  ultimately show ?thesis
    using profile_requests_keep_step [OF start, of quiet_env empty_profile_request]
    by (simp add: case_prod_beta) (simp add: empty_profile_request_def)
qed

end
