(* ===== verification/Endpoint_Edits.thy ===== *)
theory Endpoint_Edits
  imports Config_Edits Building
begin

text \<open>
  Creating, changing and deleting endpoints through the management API, the write-back of their switches,
  the observability settings, the reload request and the restart of an endpoint (\<^verbatim>\<open>src/src/management.rs\<close>).
  The parts every edit shares are in \<open>Config_Edits\<close>.
\<close>

section \<open>Requests\<close>

record endpoint_request =
  erq_name :: string
  erq_description :: "string option"
  erq_transport :: transport
  erq_tool_prefix :: "string option"
  erq_command :: "string option"
  erq_args :: "string list option"
  erq_url :: "string option"
  erq_env :: "(string, string) hashmap option"
  erq_headers :: "(string, string) hashmap option"
  erq_oauth_server_url :: "string option"
  erq_client_id :: "string option"
  erq_scopes :: "string option"
  erq_token_endpoint :: "string option"
  erq_server_type_override :: "string option"
  erq_isolation :: "string option"
  erq_container_image :: "string option"
  erq_mounts :: "string list option"
  erq_auth :: "endpoint_auth option"
  erq_client_secret :: "json option"
  erq_disabled :: "json option"
  erq_disabled_tools :: "json option"

definition forbidden_field :: "endpoint_request \<Rightarrow> (string \<times> string) option" where
  "forbidden_field req =
     (if erq_client_secret req \<noteq> None then Some (''client_secret not allowed'',
        ''POST the client_secret to /api/endpoints/{name}/credentials instead'' @ dash @
        ''it is persisted via TokenManager (DCR file, chmod 0600) rather than config.toml.'')
      else if erq_disabled req \<noteq> None then Some (''disabled not allowed'',
        ''Use POST /api/endpoints/{name}/disable or /enable instead.'')
      else if erq_disabled_tools req \<noteq> None then Some (''disabled_tools not allowed'',
        ''Use POST /api/endpoints/{name}/tools/{tool}/disable or /enable instead.'')
      else None)"

definition required_field :: "endpoint_request \<Rightarrow> string option" where
  "required_field req =
     (case erq_transport req of
        Stdio \<Rightarrow> (if unwrap_or [] (erq_command req) = []
          then Some (''Endpoint '' @ quoted (erq_name req) @ '': stdio transport requires a '' @ quoted ''command'' @ '' field'') else None)
      | t \<Rightarrow> (if unwrap_or [] (erq_url req) = []
          then Some (''Endpoint '' @ quoted (erq_name req) @ '': '' @ show_transport t @ '' transport requires a '' @ quoted ''url'' @ '' field'')
          else None))"

text \<open>Trimmed, and absent when nothing is left.\<close>

definition trimmed_field :: "string option \<Rightarrow> string option" where
  "trimmed_field x = (case map_option trim x of Some s \<Rightarrow> if s = [] then None else Some s | None \<Rightarrow> None)"

definition override_problem :: "edit_env \<Rightarrow> endpoint_request \<Rightarrow> string option" where
  "override_problem env req =
     (case trimmed_field (erq_server_type_override req) of
        None \<Rightarrow> None
      | Some s \<Rightarrow> (case sanitize_server_name s of
          Inl e \<Rightarrow> Some (''Endpoint '' @ quoted (erq_name req) @ '': '' @ ee_show_name env e) | Inr _ \<Rightarrow> None))"

definition isolation_mistake :: "endpoint_request \<Rightarrow> string option" where
  "isolation_mistake req =
     (case trimmed_field (erq_isolation req) of
        None \<Rightarrow> None
      | Some s \<Rightarrow> (if s \<noteq> ''container'' \<and> s \<noteq> ''none''
          then Some (''Endpoint '' @ quoted (erq_name req) @ '': invalid isolation value '' @ quoted s @ dash @
            ''expected '' @ dq ''container'' @ '' or '' @ dq ''none'') else None))"

definition name_in_use :: "config \<Rightarrow> string option \<Rightarrow> string \<Rightarrow> bool" where
  "name_in_use cfg original nm = list_ex (\<lambda>ep. Some (ec_name ep) \<noteq> original \<and> ec_name ep = nm) (cf_endpoints cfg)"

definition requested_scopes :: "endpoint_request \<Rightarrow> string list option" where
  "requested_scopes req = Option.bind (erq_scopes req) (\<lambda>s. let v = split_whitespace s in if v = [] then None else Some v)"

definition requested_endpoint :: "endpoint_request \<Rightarrow> endpoint_config" where
  "requested_endpoint req =
     \<lparr>ec_name = erq_name req, ec_description = erq_description req, ec_tool_prefix = erq_tool_prefix req,
      ec_transport = erq_transport req, ec_command = erq_command req, ec_args = erq_args req, ec_url = erq_url req,
      ec_env = erq_env req, ec_headers = erq_headers req, ec_disabled = False, ec_disabled_tools = [],
      ec_oauth_server_url = erq_oauth_server_url req, ec_client_id = erq_client_id req, ec_client_secret = None,
      ec_scopes = requested_scopes req, ec_token_endpoint = erq_token_endpoint req,
      ec_server_type_override = trimmed_field (erq_server_type_override req),
      ec_isolation = trimmed_field (erq_isolation req), ec_container_image = erq_container_image req,
      ec_mounts = erq_mounts req, ec_auth = erq_auth req\<rparr>"

definition validate_endpoint_request ::
  "edit_env \<Rightarrow> endpoint_request \<Rightarrow> config \<Rightarrow> string option \<Rightarrow> api_response + endpoint_config" where
  "validate_endpoint_request env req cfg original =
     (case forbidden_field req of
        Some (err, detail) \<Rightarrow> Inl (error_response 400 err (Some detail))
      | None \<Rightarrow>
     (if blank (Some (erq_name req)) then Inl (error_response 400 ''invalid endpoint'' (Some ''Endpoint name must not be empty''))
      else case required_field req of
        Some detail \<Rightarrow> Inl (error_response 400 ''invalid endpoint'' (Some detail))
      | None \<Rightarrow>
     (case override_problem env req of
        Some detail \<Rightarrow> Inl (error_response 400 ''invalid server_type_override'' (Some detail))
      | None \<Rightarrow>
     (case isolation_mistake req of
        Some detail \<Rightarrow> Inl (error_response 400 ''invalid isolation'' (Some detail))
      | None \<Rightarrow>
     (if name_in_use cfg original (erq_name req)
      then Inl (error_response 409 ''duplicate endpoint name'' (Some (''Endpoint name '' @ quoted (erq_name req) @ '' is already in use.'')))
      else case validate_endpoint_auth (requested_endpoint req) of
        Some msg \<Rightarrow> Inl (error_response 400 ''invalid auth'' (Some (''Endpoint '' @ quoted (erq_name req) @ '': '' @ msg)))
      | None \<Rightarrow> Inr (requested_endpoint req))))))"

section \<open>The document\<close>

definition opt_str :: "string \<Rightarrow> string option \<Rightarrow> toml_table" where
  "opt_str k x = (case x of None \<Rightarrow> [] | Some v \<Rightarrow> [(k, TStr v)])"

definition opt_strs :: "string \<Rightarrow> string list option \<Rightarrow> toml_table" where
  "opt_strs k x = (case x of None \<Rightarrow> [] | Some vs \<Rightarrow> if vs = [] then [] else [(k, TArr (map TStr vs))])"

definition opt_map :: "string \<Rightarrow> (string, string) hashmap option \<Rightarrow> toml_table" where
  "opt_map k x = (case x of None \<Rightarrow> [] | Some m \<Rightarrow> if m = [] then [] else [(k, TTab (map (\<lambda>(a, b). (a, TStr b)) m))])"

definition auth_to_toml :: "endpoint_auth \<Rightarrow> toml" where
  "auth_to_toml a = TTab ([(''type'', TStr (ea_type a))] @ opt_str ''organization'' (ea_organization a) @
     opt_str ''idp'' (ea_idp a) @ opt_str ''resource'' (ea_resource a))"

definition endpoint_to_toml_table :: "endpoint_config \<Rightarrow> toml_table" where
  "endpoint_to_toml_table ep =
     [(''name'', TStr (ec_name ep)), (''transport'', TStr (show_transport (ec_transport ep)))] @
     opt_str ''tool_prefix'' (ec_tool_prefix ep) @ opt_str ''command'' (ec_command ep) @
     (case ec_args ep of None \<Rightarrow> [] | Some args \<Rightarrow> [(''args'', TArr (map TStr args))]) @
     opt_str ''url'' (ec_url ep) @ opt_str ''description'' (ec_description ep) @ opt_map ''env'' (ec_env ep) @
     opt_map ''headers'' (ec_headers ep) @ opt_str ''oauth_server_url'' (ec_oauth_server_url ep) @
     opt_str ''client_id'' (ec_client_id ep) @ opt_strs ''scopes'' (ec_scopes ep) @
     opt_str ''token_endpoint'' (ec_token_endpoint ep) @ opt_str ''server_type_override'' (ec_server_type_override ep) @
     opt_str ''isolation'' (ec_isolation ep) @ opt_str ''container_image'' (ec_container_image ep) @
     opt_strs ''mounts'' (ec_mounts ep) @ (case ec_auth ep of None \<Rightarrow> [] | Some a \<Rightarrow> [(''auth'', auth_to_toml a)])"

fun table_name :: "toml \<Rightarrow> string option" where
  "table_name (TTab t) = (case hm_get t ''name'' of Some (TStr n) \<Rightarrow> Some n | _ \<Rightarrow> None)"
| "table_name _ = None"

definition keep_switches :: "toml \<Rightarrow> toml_table \<Rightarrow> toml_table" where
  "keep_switches existing fresh_table =
     (case existing of
        TTab old \<Rightarrow> fold (\<lambda>k t. case hm_get old k of Some v \<Rightarrow> hm_insert k v t | None \<Rightarrow> t)
          [''disabled'', ''disabled_tools'', ''client_secret''] fresh_table
      | _ \<Rightarrow> fresh_table)"

fun position :: "('a \<Rightarrow> bool) \<Rightarrow> 'a list \<Rightarrow> nat option" where
  "position P [] = None"
| "position P (x # xs) = (if P x then Some 0 else map_option Suc (position P xs))"

definition duplicate_name :: "string \<Rightarrow> edit_error" where
  "duplicate_name nm = (409, ''duplicate endpoint name'', ''Endpoint name '' @ quoted nm @ '' is already in use.'')"

definition edit_endpoints :: "endpoint_config \<Rightarrow> string option \<Rightarrow> toml list \<Rightarrow> edit_error + toml list" where
  "edit_endpoints new_ep original arr =
     (let taken = (\<lambda>n. list_ex (\<lambda>v. table_name v = Some n) arr); fresh_table = endpoint_to_toml_table new_ep in
      case original of
        None \<Rightarrow> (if taken (ec_name new_ep) then Inl (duplicate_name (ec_name new_ep)) else Inr (arr @ [TTab fresh_table]))
      | Some orig \<Rightarrow>
         (case position (\<lambda>v. table_name v = Some orig) arr of
            None \<Rightarrow> Inl (404, ''endpoint not found'', ''No endpoint named '' @ quoted orig)
          | Some i \<Rightarrow>
             (if ec_name new_ep \<noteq> orig \<and> taken (ec_name new_ep) then Inl (duplicate_name (ec_name new_ep))
              else Inr (arr[i := TTab (keep_switches (arr ! i) fresh_table)]))))"

definition edit_endpoint_table :: "endpoint_config \<Rightarrow> string option \<Rightarrow> toml_table \<Rightarrow> edit_error + toml_table" where
  "edit_endpoint_table new_ep original t =
     (case unwrap_or (TArr []) (hm_get t ''endpoints'') of
        TArr arr \<Rightarrow> map_sum id (\<lambda>arr'. hm_insert ''endpoints'' (TArr arr') t) (edit_endpoints new_ep original arr)
      | _ \<Rightarrow> Inl (500, ''failed to parse config file'', ''[[endpoints]] section is not an array''))"

definition write_endpoint_to_disk ::
  "edit_env \<Rightarrow> endpoint_config \<Rightarrow> string option \<Rightarrow> string \<Rightarrow> string \<times> (edit_error + unit)" where
  "write_endpoint_to_disk env new_ep original = edit_file env (edit_endpoint_table new_ep original)"

section \<open>Applying an endpoint change\<close>

definition effective_endpoint :: "endpoint_config \<Rightarrow> string option \<Rightarrow> endpoint_config list \<Rightarrow> endpoint_config" where
  "effective_endpoint new_ep original eps =
     (case Option.bind original (\<lambda>orig. List.find (\<lambda>e. ec_name e = orig) eps) of
        None \<Rightarrow> new_ep
      | Some old \<Rightarrow> new_ep\<lparr>ec_disabled := ec_disabled old, ec_disabled_tools := ec_disabled_tools old,
          ec_client_secret := ec_client_secret old\<rparr>)"

definition changed_endpoints :: "endpoint_config \<Rightarrow> string option \<Rightarrow> endpoint_config list \<Rightarrow> endpoint_config list" where
  "changed_endpoints new_ep original eps =
     (let effective = effective_endpoint new_ep original eps in
      case original of
        None \<Rightarrow> eps @ [effective]
      | Some orig \<Rightarrow>
         (if list_ex (\<lambda>e. ec_name e = orig) eps then replace_first (\<lambda>e. ec_name e = orig) effective eps
          else eps @ [effective]))"

definition apply_endpoint_change ::
  "edit_env \<Rightarrow> endpoint_config \<Rightarrow> string option \<Rightarrow> 'v managed \<Rightarrow> 'v managed \<times> (api_response + unit)" where
  "apply_endpoint_change env new_ep original s =
     (if \<not> ee_has_path env then (s, Inl NO_CONFIG_PATH)
      else case write_endpoint_to_disk env new_ep original (mn_file s) of
        (file', Inl e) \<Rightarrow> (s\<lparr>mn_file := file'\<rparr>, Inl (edit_answer e))
      | (file', Inr _) \<Rightarrow>
          (let rl = mn_relay s; old_cfg = rl_config rl;
               new_cfg = old_cfg\<lparr>cf_endpoints := changed_endpoints new_ep original (cf_endpoints old_cfg)\<rparr>;
               st = apply_diff_graceful [] (cf_organizations new_cfg) (diff_configs old_cfg new_cfg) (rl_reload rl)
           in (s\<lparr>mn_file := file', mn_relay := rl\<lparr>rl_config := new_cfg, rl_reload := st\<rparr>\<rparr>, Inr ())))"

definition string_map_json :: "(string, string) hashmap \<Rightarrow> json" where
  "string_map_json m = JObj (map (\<lambda>(k, v). (k, JStr v)) m)"

definition endpoint_summary :: "endpoint_config \<Rightarrow> json" where
  "endpoint_summary ep = JObj
     ([(''name'', JStr (ec_name ep)), (''transport'', JStr (show_transport (ec_transport ep)))] @
      opt_key ''description'' JStr (ec_description ep) @ opt_key ''tool_prefix'' JStr (ec_tool_prefix ep) @
      opt_key ''command'' JStr (ec_command ep) @ opt_key ''args'' (\<lambda>a. JArr (map JStr a)) (ec_args ep) @
      opt_key ''url'' JStr (ec_url ep) @ opt_key ''env'' string_map_json (ec_env ep) @
      opt_key ''headers'' string_map_json (ec_headers ep) @ opt_key ''oauth_server_url'' JStr (ec_oauth_server_url ep) @
      opt_key ''client_id'' JStr (ec_client_id ep) @
      (case unwrap_or [] (ec_scopes ep) of [] \<Rightarrow> [] | scopes \<Rightarrow> [(''scopes'', JArr (map JStr scopes))]) @
      opt_key ''token_endpoint'' JStr (ec_token_endpoint ep) @
      opt_key ''server_type_override'' JStr (ec_server_type_override ep) @ opt_key ''isolation'' JStr (ec_isolation ep) @
      opt_key ''container_image'' JStr (ec_container_image ep) @ opt_key ''mounts'' (\<lambda>a. JArr (map JStr a)) (ec_mounts ep))"

definition name_reserved_by_setup :: "edit_env \<Rightarrow> string \<Rightarrow> api_response option" where
  "name_reserved_by_setup env nm =
     (if ee_reserved env nm then Some (error_response 409 ''duplicate endpoint name''
        (Some (''Endpoint name '' @ quoted nm @ '' is reserved by an OAuth setup session in progress.''))) else None)"

definition create_endpoint :: "edit_env \<Rightarrow> endpoint_request \<Rightarrow> 'v managed \<Rightarrow> 'v managed \<times> api_response" where
  "create_endpoint env req s =
     (case validate_endpoint_request env req (rl_config (mn_relay s)) None of
        Inl resp \<Rightarrow> (s, resp)
      | Inr ep \<Rightarrow>
         (case name_reserved_by_setup env (ec_name ep) of
            Some resp \<Rightarrow> (s, resp)
          | None \<Rightarrow>
             (case apply_endpoint_change env ep None s of
                (s1, Inl resp) \<Rightarrow> (s1, resp)
              | (s1, Inr _) \<Rightarrow> (s1, \<lparr>ar_status = 201, ar_body = endpoint_summary ep\<rparr>))))"

definition update_endpoint :: "edit_env \<Rightarrow> string \<Rightarrow> endpoint_request \<Rightarrow> 'v managed \<Rightarrow> 'v managed \<times> api_response" where
  "update_endpoint env nm req s =
     (let cfg = rl_config (mn_relay s) in
      if \<not> list_ex (\<lambda>e. ec_name e = nm) (cf_endpoints cfg) then (s, endpoint_not_found nm)
      else case validate_endpoint_request env req cfg (Some nm) of
        Inl resp \<Rightarrow> (s, resp)
      | Inr ep \<Rightarrow>
         (case (if ec_name ep \<noteq> nm then name_reserved_by_setup env (ec_name ep) else None) of
            Some resp \<Rightarrow> (s, resp)
          | None \<Rightarrow>
             (case apply_endpoint_change env ep (Some nm) s of
                (s1, Inl resp) \<Rightarrow> (s1, resp)
              | (s1, Inr _) \<Rightarrow> (s1, ok_response (endpoint_summary ep)))))"

section \<open>Deleting\<close>

definition drop_endpoint :: "string \<Rightarrow> toml_table \<Rightarrow> edit_error + toml_table" where
  "drop_endpoint nm t =
     (case hm_get t ''endpoints'' of
        Some (TArr arr) \<Rightarrow>
          (let arr' = filter (\<lambda>v. table_name v \<noteq> Some nm) arr
           in if length arr' < length arr then Inr (hm_insert ''endpoints'' (TArr arr') t)
              else Inl (404, ''Endpoint not found: '' @ nm, []))
      | _ \<Rightarrow> Inl (404, ''Endpoint not found: '' @ nm, []))"

definition delete_answer :: "edit_error \<Rightarrow> api_response" where
  "delete_answer e = (case e of (status, err, detail) \<Rightarrow>
     error_response status err (if status = 404 then None else Some detail))"

definition delete_endpoint :: "edit_env \<Rightarrow> string \<Rightarrow> 'v managed \<Rightarrow> 'v managed \<times> api_response" where
  "delete_endpoint env nm s =
     (if \<not> ee_has_path env then (s, NO_CONFIG_PATH)
      else case edit_file env (drop_endpoint nm) (mn_file s) of
        (file', Inl e) \<Rightarrow> (s\<lparr>mn_file := file'\<rparr>, delete_answer e)
      | (file', Inr _) \<Rightarrow>
          (s\<lparr>mn_file := file', mn_observability := delete_cascade (ee_db env) nm (mn_observability s)\<rparr>,
           ok_response (JObj [(''status'', JStr ''removed''), (''name'', JStr nm)])))"

section \<open>Switches, settings, reload, restart\<close>

text \<open>The configuration keeps its lock during the write; failures are only logged.\<close>

definition mirror_switches :: "'v registry \<Rightarrow> endpoint_config \<Rightarrow> endpoint_config" where
  "mirror_switches r ep =
     (case hm_get (r_adapters r) (ec_name ep) of
        Some e \<Rightarrow> ep\<lparr>ec_disabled := ra_disabled e, ec_disabled_tools := ra_disabled_tools e\<rparr>
      | None \<Rightarrow> ep)"

definition switch_table :: "endpoint_config list \<Rightarrow> toml \<Rightarrow> toml" where
  "switch_table eps v =
     (case v of
        TTab t \<Rightarrow>
          (case Option.bind (table_name v) (\<lambda>n. List.find (\<lambda>e. ec_name e = n) eps) of
             Some ep \<Rightarrow> TTab (hm_insert ''disabled_tools'' (TArr (map TStr (ec_disabled_tools ep)))
               (hm_insert ''disabled'' (TBool (ec_disabled ep)) t))
           | None \<Rightarrow> v)
      | _ \<Rightarrow> v)"

definition edit_switches :: "endpoint_config list \<Rightarrow> toml_table \<Rightarrow> toml_table" where
  "edit_switches eps t =
     (case hm_get t ''endpoints'' of
        Some (TArr arr) \<Rightarrow> hm_insert ''endpoints'' (TArr (map (switch_table eps) arr)) t
      | _ \<Rightarrow> t)"

definition persist_disabled_state :: "edit_env \<Rightarrow> 'v managed \<Rightarrow> 'v managed" where
  "persist_disabled_state env s =
     (if \<not> ee_has_path env then s
      else let rl = mn_relay s;
               c = (rl_config rl)\<lparr>cf_endpoints := map (mirror_switches (rs_registry (rl_reload rl))) (cf_endpoints (rl_config rl))\<rparr>
           in s\<lparr>mn_relay := rl\<lparr>rl_config := c\<rparr>,
                mn_file := fst (edit_file env (\<lambda>t. Inr (edit_switches (cf_endpoints c) t)) (mn_file s))\<rparr>)"

definition edit_observability ::
  "(observability_config \<Rightarrow> string + toml) \<Rightarrow> observability_config \<Rightarrow> toml_table \<Rightarrow> edit_error + toml_table" where
  "edit_observability to_toml c t =
     (case to_toml c of
        Inl e \<Rightarrow> Inl (500, ''failed to serialize observability config'', e)
      | Inr v \<Rightarrow>
         (case unwrap_or (TTab []) (hm_get t ''relay'') of
            TTab relay \<Rightarrow> Inr (hm_insert ''relay'' (TTab (hm_insert ''observability'' v relay)) t)
          | _ \<Rightarrow> Inl (500, ''invalid config file'', [CHR 0x60] @ ''relay'' @ [CHR 0x60] @ '' is not a table'')))"

definition update_observability_config ::
  "edit_env \<Rightarrow> (observability_config \<Rightarrow> string + toml) \<Rightarrow> (observability_config \<Rightarrow> json) \<Rightarrow> observability_config \<Rightarrow>
   'v managed \<Rightarrow> 'v managed \<times> api_response" where
  "update_observability_config env to_toml to_json new_cfg s =
     (if \<not> ee_has_path env then (s, NO_CONFIG_PATH)
      else case edit_file env (edit_observability to_toml new_cfg) (mn_file s) of
        (file', Inl e) \<Rightarrow> (s\<lparr>mn_file := file'\<rparr>, edit_answer e)
      | (file', Inr _) \<Rightarrow>
          (let rl = mn_relay s; c = rl_config rl
           in (s\<lparr>mn_file := file', mn_relay := rl\<lparr>rl_config := c\<lparr>cf_relay := (cf_relay c)\<lparr>rc_observability := new_cfg\<rparr>\<rparr>\<rparr>\<rparr>,
               ok_response (to_json new_cfg))))"

text \<open>The reload request: the difference is applied and the configuration swapped, and nothing else.\<close>

definition action_response :: "bool \<Rightarrow> string \<Rightarrow> api_response" where
  "action_response b msg = ok_response (JObj [(''ok'', JBool b), (''message'', JStr msg)])"

definition reload_config :: "edit_env \<Rightarrow> 'v managed \<Rightarrow> 'v managed \<times> api_response" where
  "reload_config env s =
     (if \<not> ee_has_path env then (s, action_response False ''config_path not configured'')
      else case load_config_graceful (mc_env (ee_machine env)) (mc_home (ee_machine env)) (ee_decode env (mn_file s)) of
        Inl e \<Rightarrow> (s, action_response False (''failed to parse config: '' @ show_config_error e))
      | Inr (new_config, ws) \<Rightarrow>
          (let rl = mn_relay s;
               st = apply_diff_graceful ws (cf_organizations new_config) (diff_configs (rl_config rl) new_config) (rl_reload rl)
           in (s\<lparr>mn_relay := rl\<lparr>rl_config := new_config, rl_reload := st\<rparr>\<rparr>, action_response True ''config reloaded'')))"

text \<open>A restart swaps a placeholder in at once; the background task builds the adapter from the
  configuration it finds then, or initialises the old one again if the endpoint is not configured.\<close>

definition restart_begin :: "string \<Rightarrow> 'v registry \<Rightarrow> ('v registry \<times> adapter_view) option" where
  "restart_begin nm r =
     (case hm_get (r_adapters r) nm of
        None \<Rightarrow> None
      | Some e \<Rightarrow> Some (tick_tools_changed nm (invalidate_catalog_cache (put_entry nm (e\<lparr>ra_adapter := starting_adapter\<rparr>) r)),
                        ra_adapter e))"

definition restart_finish ::
  "(endpoint_config \<Rightarrow> organization list \<Rightarrow> adapter_view) \<Rightarrow> (adapter_view \<Rightarrow> adapter_view \<times> (adapter_error + unit)) \<Rightarrow>
   config \<Rightarrow> string \<Rightarrow> adapter_view \<Rightarrow> 'v registry \<Rightarrow> 'v registry" where
  "restart_finish create reinit cfg nm old r =
     (let new_adapter = (case find_endpoint cfg nm of
            Some ep \<Rightarrow> create ep (cf_organizations cfg)
          | None \<Rightarrow> (case reinit old of (a, Inr _) \<Rightarrow> a | (a, Inl e) \<Rightarrow> failed_adapter (display_error e) None));
          r1 = (case hm_get (r_adapters r) nm of Some e \<Rightarrow> put_entry nm (e\<lparr>ra_adapter := new_adapter\<rparr>) r | None \<Rightarrow> r)
      in tick_tools_changed nm (invalidate_catalog_cache (invalidate_endpoint_tool_cache nm r1)))"

definition restart_reply :: "string \<Rightarrow> api_response" where
  "restart_reply nm = action_response True (''Endpoint '' @ quoted nm @ '' restarted'')"

end
