(* ===== verification/Management_Safety.thy ===== *)
theory Management_Safety
  imports Endpoint_Edits
begin

text \<open>
  What the endpoint requests of the management API guarantee, and where they leave the configuration file
  or the running relay out of step: properties with their witnesses over \<open>Endpoint_Edits\<close>.
\<close>

section \<open>Endpoint requests and the running relay\<close>

definition referenced :: "config \<Rightarrow> string set" where
  "referenced c = (\<Union>p \<in> set (unwrap_or [] (cf_profiles c)). set (pc_endpoints p))"

lemma valid_list_names:
  "valid_list names ps \<Longrightarrow> (\<Union>p \<in> set ps. set (pc_endpoints p)) \<subseteq> names' \<Longrightarrow> valid_list names' ps"
  by (auto simp: valid_list_def list_all_iff profile_ok_def)

lemma valid_list_refs: "valid_list names ps \<Longrightarrow> (\<Union>p \<in> set ps. set (pc_endpoints p)) \<subseteq> names"
  by (auto simp: valid_list_def list_all_iff profile_ok_def)

lemma valid_refs:
  assumes "validate_profiles c = Inr ()" "n \<in> referenced c"
  shows "n \<in> ec_name ` set (cf_endpoints c)"
proof -
  have "referenced c \<subseteq> ec_name ` set (cf_endpoints c)"
    using valid_list_refs assms(1) unfolding validate_valid_list set_map referenced_def .
  with assms(2) show ?thesis by blast
qed

lemma effective_name [simp]: "ec_name (effective_endpoint ep original eps) = ec_name ep"
  by (simp add: effective_endpoint_def split: option.splits)

lemma replace_first_names:
  "set (map f xs) - f ` {x \<in> set xs. P x} \<subseteq> set (map f (replace_first P y xs)) \<and>
   (list_ex P xs \<longrightarrow> f y \<in> set (map f (replace_first P y xs)))"
  by (induction xs) auto

lemma changed_names:
  "ec_name ` set eps - {n. original = Some n} \<subseteq> ec_name ` set (changed_endpoints ep original eps) \<and>
   ec_name ep \<in> ec_name ` set (changed_endpoints ep original eps)"
proof (cases original)
  case (Some orig)
  show ?thesis
  proof (cases "list_ex (\<lambda>e. ec_name e = orig) eps")
    case True
    then have "changed_endpoints ep original eps = replace_first (\<lambda>e. ec_name e = orig) (effective_endpoint ep original eps) eps"
      by (simp add: changed_endpoints_def Some Let_def)
    moreover have "ec_name ` {x \<in> set eps. ec_name x = orig} \<subseteq> {orig}" by auto
    ultimately show ?thesis
      using True replace_first_names [of ec_name eps "\<lambda>e. ec_name e = orig" "effective_endpoint ep original eps"]
      by (auto simp: Some)
  next
    case False
    then show ?thesis by (auto simp: changed_endpoints_def Some Let_def)
  qed
qed (auto simp: changed_endpoints_def Let_def)

lemma apply_change_step:
  assumes step: "in_step m (mn_relay s)"
    and free: "\<And>orig. original = Some orig \<Longrightarrow> ec_name ep = orig \<or> orig \<notin> referenced (rl_config (mn_relay s))"
  shows "in_step m (mn_relay (fst (apply_endpoint_change env ep original s)))"
proof -
  let ?rl = "mn_relay s" let ?old = "rl_config ?rl"
  let ?new = "?old\<lparr>cf_endpoints := changed_endpoints ep original (cf_endpoints ?old)\<rparr>"
  let ?st = "apply_diff_graceful [] (cf_organizations ?new) (diff_configs ?old ?new) (rl_reload ?rl)"
  have serves: "serves_config ?new (rs_registry ?st)"
    using step by (intro apply_serves) (simp add: in_step_def Let_def)
  have vl: "valid_list (ec_name ` set (cf_endpoints ?old)) (unwrap_or [] (cf_profiles ?old))"
    using step_valid_list [OF step] by simp
  have "referenced ?old \<subseteq> ec_name ` set (cf_endpoints ?new)"
  proof
    fix n assume n: "n \<in> referenced ?old"
    have "n \<in> ec_name ` set (cf_endpoints ?old)" using valid_list_refs [OF vl] n by (auto simp: referenced_def)
    with n free changed_names [where eps = "cf_endpoints ?old" and original = original and ep = ep] show "n \<in> ec_name ` set (cf_endpoints ?new)"
      by (cases "original = Some n") auto
  qed
  then have "validate_profiles ?new = Inr ()"
    using valid_list_names [OF vl] by (simp add: validate_valid_list referenced_def)
  with serves step show ?thesis
    by (auto simp: apply_endpoint_change_def in_step_def Let_def write_roots_of_def resolve_write_roots_def
        apply_keeps_validate split: sum.splits prod.splits)
qed

lemma validated_endpoint: "validate_endpoint_request env req cfg original = Inr ep \<Longrightarrow> ep = requested_endpoint req"
  by (auto simp: validate_endpoint_request_def split: option.splits if_splits)

lemma create_endpoint_step: "in_step m (mn_relay s) \<Longrightarrow> in_step m (mn_relay (fst (create_endpoint env req s)))"
  using apply_change_step [of m s None]
  by (auto simp: create_endpoint_def case_prod_beta split: sum.splits option.splits)

lemma update_endpoint_step:
  assumes "in_step m (mn_relay s)" "erq_name req = nm \<or> nm \<notin> referenced (rl_config (mn_relay s))"
  shows "in_step m (mn_relay (fst (update_endpoint env nm req s)))"
proof -
  have "in_step m (mn_relay (fst (apply_endpoint_change env (requested_endpoint req) (Some nm) s)))"
    using assms by (intro apply_change_step) (auto simp: requested_endpoint_def)
  with assms show ?thesis
    by (auto simp: update_endpoint_def Let_def case_prod_beta dest!: validated_endpoint split: sum.splits option.splits)
qed


definition plain_request :: "string \<Rightarrow> endpoint_request" where
  "plain_request nm = \<lparr>erq_name = nm, erq_description = None, erq_transport = Stdio, erq_tool_prefix = None,
     erq_command = Some ''run'', erq_args = None, erq_url = None, erq_env = None, erq_headers = None,
     erq_oauth_server_url = None, erq_client_id = None, erq_scopes = None, erq_token_endpoint = None,
     erq_server_type_override = None, erq_isolation = None, erq_container_image = None, erq_mounts = None,
     erq_auth = None, erq_client_secret = None, erq_disabled = None, erq_disabled_tools = None\<rparr>"


section \<open>What an edit leaves of the document\<close>

definition name_of_table :: "toml list \<Rightarrow> string list" where
  "name_of_table arr = List.map_filter table_name arr"

lemma fresh_name: "table_name (TTab (endpoint_to_toml_table ep)) = Some (ec_name ep)"
  by (simp add: endpoint_to_toml_table_def hm_get_Cons)

definition ENDPOINT_KEYS :: "string list" where
  "ENDPOINT_KEYS = [''name'', ''transport'', ''tool_prefix'', ''command'', ''args'', ''url'', ''description'', ''env'',
     ''headers'', ''oauth_server_url'', ''client_id'', ''scopes'', ''token_endpoint'', ''server_type_override'',
     ''isolation'', ''container_image'', ''mounts'', ''auth'']"

lemma opt_keys:
  "k \<in> S \<Longrightarrow> fst ` set (opt_str k x) \<subseteq> S" "k \<in> S \<Longrightarrow> fst ` set (opt_strs k y) \<subseteq> S"
  "k \<in> S \<Longrightarrow> fst ` set (opt_map k z) \<subseteq> S"
  by (auto simp: opt_str_def opt_strs_def opt_map_def split: option.splits)

lemma case_keys:
  "k \<in> S \<Longrightarrow> fst ` set (case x of None \<Rightarrow> [] | Some v \<Rightarrow> [(k, f v)]) \<subseteq> S"
  by (auto split: option.splits)

lemma endpoint_keys: "fst ` set (endpoint_to_toml_table ep) \<subseteq> set ENDPOINT_KEYS"
  unfolding endpoint_to_toml_table_def set_append image_Un
  by (intro Un_least opt_keys case_keys) (simp_all add: ENDPOINT_KEYS_def)

lemma endpoint_keys_free:
  assumes "k \<in> {''disabled'', ''disabled_tools'', ''client_secret''}"
  shows "hm_get (endpoint_to_toml_table ep) k = None"
proof -
  have "\<forall>k \<in> set [''disabled'', ''disabled_tools'', ''client_secret'']. k \<notin> set ENDPOINT_KEYS" by code_simp
  with assms endpoint_keys [of ep] show ?thesis by (auto simp: hm_get_eq_None)
qed

lemma keep_fold_get:
  "hm_get (fold (\<lambda>k t. case hm_get old k of Some v \<Rightarrow> hm_insert k v t | None \<Rightarrow> t) ks t) k =
     (if k \<in> set ks \<and> hm_get old k \<noteq> None then hm_get old k else hm_get t k)"
  by (induction ks arbitrary: t) (auto simp: hm_get_insert split: option.splits)

lemma keep_switches_get:
  "k \<in> {''disabled'', ''disabled_tools'', ''client_secret''} \<Longrightarrow>
   hm_get (keep_switches existing (endpoint_to_toml_table ep)) k = hm_get (case existing of TTab old \<Rightarrow> old | _ \<Rightarrow> []) k"
  using endpoint_keys_free [of k ep] unfolding keep_switches_def
  by (cases existing) (simp_all only: toml.case keep_fold_get hm_get_empty list.set if_split, auto)

lemma keep_switches_other:
  "k \<notin> {''disabled'', ''disabled_tools'', ''client_secret''} \<Longrightarrow> hm_get (keep_switches existing t) k = hm_get t k"
  unfolding keep_switches_def by (cases existing) (simp_all only: toml.case keep_fold_get list.set if_False, auto)

lemma kept_name: "table_name (TTab (keep_switches existing (endpoint_to_toml_table ep))) = Some (ec_name ep)"
  using fresh_name [of ep] by (simp add: keep_switches_other)

lemma position_Some: "position P xs = Some i \<Longrightarrow> i < length xs \<and> P (xs ! i) \<and> (\<forall>j < i. \<not> P (xs ! j))"
proof (induction xs arbitrary: i)
  case (Cons x xs)
  show ?case
  proof (cases "P x")
    case False
    then obtain j where j: "position P xs = Some j" "i = Suc j" using Cons.prems by auto
    with Cons.IH [OF j(1)] False show ?thesis by (auto simp: less_Suc_eq_0_disj)
  qed (use Cons.prems in auto)
qed simp

lemma name_of_table_set: "set (name_of_table xs) = {n. \<exists>x \<in> set xs. table_name x = Some n}"
  by (induction xs) (auto simp: name_of_table_def map_filter_simps split: option.splits)

lemma distinct_names_update:
  "distinct (name_of_table arr) \<Longrightarrow> i < length arr \<Longrightarrow> table_name v = Some n \<Longrightarrow>
   (\<And>w. w \<in> set arr \<Longrightarrow> table_name w = Some n \<Longrightarrow> table_name (arr ! i) = Some n) \<Longrightarrow>
   distinct (name_of_table (arr[i := v]))"
proof (induction arr arbitrary: i)
  case (Cons w arr)
  note set = name_of_table_set
  show ?case
  proof (cases i)
    case 0
    have "n \<notin> set (name_of_table arr)"
    proof
      assume n: "n \<in> set (name_of_table arr)"
      then have "table_name w = Some n" using Cons.prems(4) 0 set [of arr] by auto
      with n Cons.prems(1) show False by (simp add: name_of_table_def map_filter_simps)
    qed
    with 0 Cons.prems(1,3) show ?thesis by (auto simp: name_of_table_def map_filter_simps split: option.splits)
  next
    case (Suc j)
    have ih: "distinct (name_of_table (arr[j := v]))"
      using Cons.prems Suc by (intro Cons.IH) (auto simp: name_of_table_def map_filter_simps split: option.splits)
    have "k \<notin> set (name_of_table (arr[j := v]))" if k: "table_name w = Some k" for k
    proof
      assume "k \<in> set (name_of_table (arr[j := v]))"
      then obtain x where x: "x \<in> set (arr[j := v])" "table_name x = Some k" using set by blast
      then have "x = v \<or> x \<in> set arr" using set_update_subset_insert [of arr j v] by auto
      moreover have "k \<notin> set (name_of_table arr)" using Cons.prems(1) k by (simp add: name_of_table_def map_filter_simps)
      ultimately have "x = v" using x(2) set [of arr] by blast
      then have "table_name (arr ! j) = Some k" using x(2) Cons.prems(3) Cons.prems(4) [of w] k Suc by simp
      moreover have "arr ! j \<in> set arr" using Cons.prems(2) Suc by simp
      ultimately show False using \<open>k \<notin> set (name_of_table arr)\<close> set [of arr] by blast
    qed
    with ih Suc show ?thesis by (auto simp: name_of_table_def map_filter_simps split: option.splits)
  qed
qed simp

text \<open>C36: an accepted edit of the document changes one entry. Creating appends it; changing replaces the first
  entry of the old name and keeps its switches and its client secret. The new entry has the requested name,
  and no two entries share a name if none did before.\<close>

theorem endpoint_edit_is_local:
  assumes "edit_endpoints ep original arr = Inr arr'" "distinct (name_of_table arr)"
  shows "distinct (name_of_table arr') \<and>
    (case original of
       None \<Rightarrow> arr' = arr @ [TTab (endpoint_to_toml_table ep)]
     | Some orig \<Rightarrow> (\<exists>i < length arr. \<exists>t. table_name (arr ! i) = Some orig \<and> arr' = arr[i := TTab t] \<and>
         table_name (TTab t) = Some (ec_name ep) \<and>
         (\<forall>k \<in> {''disabled'', ''disabled_tools'', ''client_secret''}.
            hm_get t k = hm_get (case arr ! i of TTab old \<Rightarrow> old | _ \<Rightarrow> []) k)))"
proof (cases original)
  case None
  then have arr': "arr' = arr @ [TTab (endpoint_to_toml_table ep)]" and new: "\<not> list_ex (\<lambda>v. table_name v = Some (ec_name ep)) arr"
    using assms(1) by (auto simp: edit_endpoints_def Let_def split: if_splits)
  have "ec_name ep \<notin> set (name_of_table arr)" using new by (auto simp: name_of_table_set list_ex_iff)
  moreover have "name_of_table arr' = name_of_table arr @ [ec_name ep]"
    using fresh_name [of ep] by (simp add: arr' name_of_table_def map_filter_def)
  ultimately show ?thesis using assms(2) by (simp add: None arr')
next
  case (Some orig)
  then obtain i where i: "position (\<lambda>v. table_name v = Some orig) arr = Some i"
    and same: "ec_name ep = orig \<or> \<not> list_ex (\<lambda>v. table_name v = Some (ec_name ep)) arr"
    and arr': "arr' = arr[i := TTab (keep_switches (arr ! i) (endpoint_to_toml_table ep))]"
    using assms(1) by (auto simp: edit_endpoints_def Let_def split: if_splits option.splits)
  note at = position_Some [OF i]
  have "distinct (name_of_table arr')"
    unfolding arr' using at same by (intro distinct_names_update [OF assms(2) _ kept_name]) (auto simp: list_ex_iff)
  moreover have "\<forall>k \<in> {''disabled'', ''disabled_tools'', ''client_secret''}.
      hm_get (keep_switches (arr ! i) (endpoint_to_toml_table ep)) k = hm_get (case arr ! i of TTab old \<Rightarrow> old | _ \<Rightarrow> []) k"
    using keep_switches_get by blast
  ultimately show ?thesis
    unfolding Some option.case
    using at arr' kept_name by (intro conjI exI [of _ i] exI [of _ "keep_switches (arr ! i) (endpoint_to_toml_table ep)"]) simp_all
qed

definition old_entry :: toml where
  "old_entry = TTab [(''name'', TStr ''W''), (''disabled'', TBool True)]"

theorem endpoint_edit_is_local_witness:
  "\<exists>t. edit_endpoints (requested_endpoint (plain_request ''V'')) (Some ''W'') [old_entry] = Inr [TTab t] \<and>
     table_name (TTab t) = Some ''V'' \<and> hm_get t ''disabled'' = Some (TBool True)"
proof -
  have "edit_endpoints (requested_endpoint (plain_request ''V'')) (Some ''W'') [old_entry] =
      Inr [TTab (keep_switches old_entry (endpoint_to_toml_table (requested_endpoint (plain_request ''V''))))]"
    by (simp add: edit_endpoints_def old_entry_def Let_def hm_get_Cons requested_endpoint_def plain_request_def)
  note edit = this
  have "distinct (name_of_table [old_entry])" by (simp add: name_of_table_def map_filter_def)
  from endpoint_edit_is_local [OF edit this] obtain t where
    t: "table_name (TTab t) = Some (ec_name (requested_endpoint (plain_request ''V'')))"
      "hm_get t ''disabled'' = hm_get (case old_entry of TTab old \<Rightarrow> old | _ \<Rightarrow> []) ''disabled''"
      "[TTab (keep_switches old_entry (endpoint_to_toml_table (requested_endpoint (plain_request ''V''))))] = [TTab t]"
    by auto
  have "hm_get t ''disabled'' = Some (TBool True)" "table_name (TTab t) = Some ''V''"
    using t(1,2) by (simp_all add: old_entry_def hm_get_Cons requested_endpoint_def plain_request_def)
  with edit t(3) show ?thesis by (intro exI [of _ t]) simp
qed

section \<open>Names a profile still uses\<close>

lemma apply_change_error: "apply_endpoint_change env ep original s = (s', Inl r) \<Longrightarrow> ar_status r \<noteq> 200"
  by (auto simp: apply_endpoint_change_def NO_CONFIG_PATH_def error_response_def write_endpoint_to_disk_def edit_file_def
      edit_endpoint_table_def edit_endpoints_def duplicate_name_def edit_answer_def Let_def
      split: if_splits sum.splits option.splits prod.splits toml.splits)

text \<open>An accepted rename of an endpoint that a profile uses leaves the relay out of step: the profile names
  an endpoint that does not exist any more, which no configuration may that is loaded.\<close>

theorem rename_leaves_dangling_profile:
  assumes "distinct (map ec_name (cf_endpoints (rl_config (mn_relay s))))"
    and "nm \<in> referenced (rl_config (mn_relay s))" "erq_name req \<noteq> nm"
    and "update_endpoint env nm req s = (s', resp)" "ar_status resp = 200"
  shows "\<not> in_step m (mn_relay s') \<and> \<not> (\<exists>ws. load_config_graceful renv home parsed = Inr (rl_config (mn_relay s'), ws))"
proof -
  let ?old = "rl_config (mn_relay s)" let ?ep = "requested_endpoint req"
  have known: "list_ex (\<lambda>e. ec_name e = nm) (cf_endpoints ?old)"
    using assms(4,5) by (auto simp: update_endpoint_def Let_def endpoint_not_found_def error_response_def split: if_splits)
  have "validate_endpoint_request env req ?old (Some nm) = Inr ?ep"
    using assms(4,5) known
    by (auto simp: update_endpoint_def Let_def validate_endpoint_request_def error_response_def split: sum.splits if_splits option.splits)
  then have "apply_endpoint_change env ?ep (Some nm) s = (s', Inr ())"
    using assms(4,5) known
    by (auto simp: update_endpoint_def Let_def name_reserved_by_setup_def error_response_def
        dest: apply_change_error split: sum.splits if_splits option.splits prod.splits)
  then have c: "rl_config (mn_relay s') = ?old\<lparr>cf_endpoints := changed_endpoints ?ep (Some nm) (cf_endpoints ?old)\<rparr>"
    by (auto simp: apply_endpoint_change_def Let_def split: if_splits sum.splits prod.splits)
  have name: "ec_name (effective_endpoint ?ep (Some nm) (cf_endpoints ?old)) \<noteq> nm"
    using assms(3) by (simp add: requested_endpoint_def)
  have gone: "nm \<notin> ec_name ` set (replace_first (\<lambda>e. ec_name e = nm) x eps)"
    if "distinct (map ec_name eps)" "ec_name x \<noteq> nm" for eps x
    using that by (induction eps) (auto simp: image_iff)
  have "nm \<notin> ec_name ` set (cf_endpoints (rl_config (mn_relay s')))"
    using known gone [OF assms(1) name] by (simp add: c changed_endpoints_def Let_def)
  moreover have "nm \<in> referenced (rl_config (mn_relay s'))" using assms(2) by (simp add: referenced_def c)
  ultimately have "validate_profiles (rl_config (mn_relay s')) \<noteq> Inr ()" using valid_refs by blast
  then show ?thesis using loaded_profiles_valid by (auto simp: in_step_def Let_def)
qed

definition used_profile :: profile_config where
  "used_profile = \<lparr>pc_name = ''P'', pc_path = ''p'', pc_endpoints = [''W''], pc_js_execution = False, pc_toon_output = False\<rparr>"

definition used_config :: config where
  "used_config = (default_config None)\<lparr>cf_endpoints := [requested_endpoint (plain_request ''W'')], cf_profiles := Some [used_profile]\<rparr>"

definition used_managed :: "nat managed" where
  "used_managed = starting_managed\<lparr>mn_relay := starting_relay\<lparr>rl_config := used_config\<rparr>\<rparr>"

definition used_document :: toml_table where
  "used_document = [(''endpoints'', TArr [old_entry]), (''profiles'', TArr [profile_to_toml used_profile])]"

definition used_env :: edit_env where
  "used_env = quiet_env\<lparr>ee_parse := (\<lambda>s. Inr used_document), ee_decode := (\<lambda>s. Inr (used_config\<lparr>cf_endpoints := []\<rparr>))\<rparr>"

lemma not_blank_V: "\<not> blank (Some ''V'')"
proof -
  have "is_ascii ''V''" by code_simp
  then have "chars ''V'' = map byte ''V''" by (simp add: chars_ascii)
  moreover have "trim_by is_space (map byte ''V'') \<noteq> []" by code_simp
  ultimately show ?thesis by (simp add: blank_def)
qed

theorem rename_leaves_dangling_profile_witness:
  "\<exists>s' resp. update_endpoint used_env ''W'' (plain_request ''V'') used_managed = (s', resp) \<and> ar_status resp = 200 \<and>
     \<not> in_step no_files (mn_relay s')"
proof -
  let ?r = "update_endpoint used_env ''W'' (plain_request ''V'') used_managed"
  have cfg: "rl_config (mn_relay used_managed) = used_config" by (simp add: used_managed_def)
  have "validate_endpoint_request used_env (plain_request ''V'') used_config (Some ''W'') =
      Inr (requested_endpoint (plain_request ''V''))"
    by (simp add: validate_endpoint_request_def plain_request_def forbidden_field_def not_blank_V required_field_def
        override_problem_def trimmed_field_def isolation_mistake_def name_in_use_def used_config_def
        validate_endpoint_auth_def requested_endpoint_def)
  then have ok: "ar_status (snd ?r) = 200"
    by (simp add: update_endpoint_def name_reserved_by_setup_def apply_endpoint_change_def used_env_def quiet_env_def
        write_endpoint_to_disk_def edit_file_def edit_endpoint_table_def edit_endpoints_def cfg Let_def case_prod_beta
        used_document_def old_entry_def hm_get_Cons ok_response_def)
      (simp_all add: used_config_def requested_endpoint_def plain_request_def)
  have one: "distinct (map ec_name (cf_endpoints (rl_config (mn_relay used_managed))))"
    and used: "''W'' \<in> referenced (rl_config (mn_relay used_managed))" "erq_name (plain_request ''V'') \<noteq> ''W''"
    by (simp_all add: cfg used_config_def referenced_def used_profile_def plain_request_def)
  show ?thesis
    using rename_leaves_dangling_profile [OF one used, of used_env "fst ?r" "snd ?r"] ok by (metis prod.collapse)
qed

text \<open>What the document names: its endpoints and the endpoints its profiles use.\<close>

definition document_array :: "string \<Rightarrow> toml_table \<Rightarrow> toml list" where
  "document_array k t = (case hm_get t k of Some (TArr arr) \<Rightarrow> arr | _ \<Rightarrow> [])"

definition document_uses :: "toml_table \<Rightarrow> string set" where
  "document_uses t = {n. \<exists>p \<in> set (document_array ''profiles'' t). \<exists>q ns.
     p = TTab q \<and> hm_get q ''endpoints'' = Some (TArr ns) \<and> TStr n \<in> set ns}"

definition reads_back :: "edit_env \<Rightarrow> toml_table \<Rightarrow> bool" where
  "reads_back env t \<longleftrightarrow> (\<exists>doc c. ee_print env t = Inr doc \<and> ee_decode env doc = Inr c \<and>
     ec_name ` set (cf_endpoints c) = set (name_of_table (document_array ''endpoints'' t)) \<and> referenced c = document_uses t)"

lemma graceful_names: "ec_name ` set (fst (resolve_endpoints_graceful renv eps ws)) = ec_name ` set eps"
proof (induction eps arbitrary: ws)
  case (Cons ep eps)
  have "ec_name (fst (resolve_endpoint_graceful renv ep ws)) = ec_name ep"
    by (simp add: resolve_endpoint_graceful_def Let_def split: sum.splits)
  with Cons show ?case by (simp add: case_prod_beta)
qed simp

lemma dangling_is_rejected:
  assumes "n \<in> referenced c" "n \<notin> ec_name ` set (cf_endpoints c)"
  shows "\<exists>e. load_config_graceful renv home (Inr c) = Inl e"
proof (cases "load_config_graceful renv home (Inr c)")
  case (Inr r)
  obtain c' ws where r: "r = (c', ws)" by (cases r)
  with Inr have "validate_profiles c' = Inr ()" using loaded_profiles_valid by blast
  moreover have "cf_profiles c' = cf_profiles c" "ec_name ` set (cf_endpoints c') = ec_name ` set (cf_endpoints c)"
    using Inr r graceful_names [of renv "cf_endpoints c" "[]"]
    by (auto simp: load_config_graceful_def parse_and_validate_graceful_def and_then_Inr_iff Let_def case_prod_beta)
  ultimately show ?thesis using assms valid_refs [of c' n] by (simp add: referenced_def)
qed simp

text \<open>C37: deleting an endpoint that a profile uses is answered with success and written to the file, and the
  relay goes on serving it: neither the watcher's reload nor a reload request accepts the file, since the
  profile names an endpoint that is gone.\<close>

theorem deletion_of_used_endpoint_ignored:
  assumes "ee_has_path env" "ee_read_error env = None" "ee_parse env (mn_file s) = Inr t"
    and "\<forall>old contents. ee_write env old contents = (contents, None)"
    and "drop_endpoint nm t = Inr t'" "reads_back env t'" "nm \<in> document_uses t"
  shows "let (s', resp) = delete_endpoint env nm s
    in ar_status resp = 200 \<and> mn_relay s' = mn_relay s \<and>
       fst (reload_and_apply m (ee_decode env (mn_file s')) (mn_relay s')) = mn_relay s \<and>
       mn_relay (fst (reload_config env s')) = mn_relay s"
proof -
  obtain arr where arr: "hm_get t ''endpoints'' = Some (TArr arr)"
    and t': "t' = hm_insert ''endpoints'' (TArr (filter (\<lambda>v. table_name v \<noteq> Some nm) arr)) t"
    using assms(5) by (auto simp: drop_endpoint_def Let_def split: option.splits toml.splits if_splits)
  obtain doc c where c: "ee_print env t' = Inr doc" "ee_decode env doc = Inr c"
    "ec_name ` set (cf_endpoints c) = set (name_of_table (document_array ''endpoints'' t'))" "referenced c = document_uses t'"
    using assms(6) by (auto simp: reads_back_def)
  have "nm \<notin> ec_name ` set (cf_endpoints c)"
    by (auto simp: c(3) t' document_array_def hm_get_insert name_of_table_set)
  moreover have "nm \<in> referenced c"
    using assms(7) by (simp add: c(4) t' document_uses_def document_array_def hm_get_insert)
  ultimately have bad: "\<exists>e. load_config_graceful renv home (Inr c) = Inl e" for renv home
    using dangling_is_rejected by blast
  have edited: "edit_file env (drop_endpoint nm) (mn_file s) = (doc, Inr ())"
    using assms(2-5) c(1) by (simp add: edit_file_def)
  obtain e1 where e1: "load_config_graceful (mc_env m) (mc_home m) (Inr c) = Inl e1" using bad by blast
  obtain e2 where e2: "load_config_graceful (mc_env (ee_machine env)) (mc_home (ee_machine env)) (Inr c) = Inl e2" using bad by blast
  show ?thesis
    using assms(1) by (simp add: delete_endpoint_def edited ok_response_def reload_and_apply_def reload_config_def c(2) e1 e2)
qed

theorem deletion_of_used_endpoint_ignored_witness:
  "let (s', resp) = delete_endpoint used_env ''W'' used_managed
   in ar_status resp = 200 \<and> mn_relay s' = mn_relay used_managed \<and>
      fst (reload_and_apply no_files (ee_decode used_env (mn_file s')) (mn_relay s')) = mn_relay used_managed \<and>
      mn_relay (fst (reload_config used_env s')) = mn_relay used_managed"
proof (rule deletion_of_used_endpoint_ignored)
  show "drop_endpoint ''W'' used_document = Inr (hm_insert ''endpoints'' (TArr []) used_document)"
    by (simp add: drop_endpoint_def used_document_def old_entry_def hm_get_Cons)
  show "''W'' \<in> document_uses used_document"
    by (simp add: document_uses_def document_array_def used_document_def hm_get_Cons profile_to_toml_def used_profile_def)
  have "ec_name ` set (cf_endpoints (used_config\<lparr>cf_endpoints := []\<rparr>)) =
      set (name_of_table (document_array ''endpoints'' (hm_insert ''endpoints'' (TArr []) used_document)))"
    by (simp add: document_array_def hm_get_insert name_of_table_def map_filter_def)
  moreover have "referenced (used_config\<lparr>cf_endpoints := []\<rparr>) = document_uses (hm_insert ''endpoints'' (TArr []) used_document)"
    by (auto simp: referenced_def used_config_def used_profile_def document_uses_def document_array_def hm_get_insert
        used_document_def hm_get_Cons profile_to_toml_def)
  ultimately show "reads_back used_env (hm_insert ''endpoints'' (TArr []) used_document)"
    unfolding reads_back_def by (simp add: used_env_def quiet_env_def)
qed (simp_all add: used_env_def quiet_env_def)

section \<open>What a reload request leaves out, and restarts\<close>

text \<open>A reload request takes over the endpoints of the file but not its profiles, its code execution
  switch, its write directories or its argument checking, whatever the file says.\<close>

theorem reload_request_is_partial:
  "let rl = mn_relay s; rl' = mn_relay (fst (reload_config env s))
   in rl_profiles rl' = rl_profiles rl \<and> rl_js_execution rl' = rl_js_execution rl \<and> rl_write_roots rl' = rl_write_roots rl \<and>
      r_validate_inputs (rs_registry (rl_reload rl')) = r_validate_inputs (rs_registry (rl_reload rl)) \<and>
      mn_file (fst (reload_config env s)) = mn_file s"
  by (auto simp: reload_config_def Let_def apply_keeps_validate split: sum.splits)

text \<open>A restart builds a new adapter for a disabled endpoint as well, and leaves it disabled.\<close>

lemma restart_ignores_disabled:
  assumes "hm_get (r_adapters r) nm = Some e" "find_endpoint cfg nm = Some ep"
  shows "map_option (\<lambda>e'. (ra_adapter e', ra_disabled e')) (hm_get (r_adapters (restart_finish create reinit cfg nm old r)) nm) =
    Some (create ep (cf_organizations cfg), ra_disabled e)"
proof -
  have tick: "r_adapters (tick_tools_changed nm r') = r_adapters r'" for r' :: "'a registry"
    by (simp add: tick_tools_changed_def)
  from assms show ?thesis by (simp add: restart_finish_def Let_def tick) (simp add: invalidate_tool_cache_def)
qed

text \<open>Writing back the switches never disturbs what the relay serves.\<close>

lemma persist_keeps_step: "in_step m (mn_relay s) \<Longrightarrow> in_step m (mn_relay (persist_disabled_state env s))"
proof -
  have names: "ec_name (mirror_switches r ep) = ec_name ep" for r :: "'a registry" and ep
    by (simp add: mirror_switches_def split: option.splits)
  show "in_step m (mn_relay s) \<Longrightarrow> ?thesis"
    by (simp add: persist_disabled_state_def in_step_def Let_def serves_config_def validate_valid_list write_roots_of_def
        resolve_write_roots_def names image_image)
qed

end
