(* ===== verification/Setup_Flow.thy ===== *)
theory Setup_Flow
  imports Endpoint_Edits
begin

text \<open>
  Adding an OAuth endpoint (\<^verbatim>\<open>oauth_setup\<close> and its siblings in \<^verbatim>\<open>src/management.rs\<close>) and the choice of a
  client (\<^verbatim>\<open>src/oauth/client.rs\<close>). The handlers work on the state of the logins and on the managed relay.
  Where a handler waits for the network or a lock, what other tasks do meanwhile is an argument; the clock
  is read at the three points of a setup (\<open>se_clock\<close>).
\<close>

section \<open>Choosing a client\<close>

definition ENDARA_CLIENT_METADATA_URL :: string where
  "ENDARA_CLIENT_METADATA_URL = ''https://endara.ai/oauth/client-metadata.json''"

datatype client_path = Preregistered | Cimd | Dcr | ManualClient

record client_inputs =
  ci_explicit_manual :: "(string \<times> string option) option"
  ci_preregistered :: "(string \<times> string option) option"
  ci_cimd_supported :: bool
  ci_registration_endpoint :: "string option"

record resolved_client =
  rv_client_id :: string
  rv_client_secret :: "string option"
  rv_expires_at :: u64
  rv_registration :: client_path

datatype 'e client_resolve_error = DcrFailed 'e | NoCredentials

definition resolved :: "string \<times> string option \<Rightarrow> u64 \<Rightarrow> client_path \<Rightarrow> resolved_client" where
  "resolved pair expires path = \<lparr>rv_client_id = fst pair, rv_client_secret = snd pair, rv_expires_at = expires, rv_registration = path\<rparr>"

definition resolve_inputs ::
  "client_inputs \<Rightarrow> (string \<Rightarrow> 'e + client_registration) \<Rightarrow> 'e client_resolve_error + resolved_client" where
  "resolve_inputs inputs dcr =
     (case ci_explicit_manual inputs of
        Some pair \<Rightarrow> Inr (resolved pair 0 ManualClient)
      | None \<Rightarrow> (case ci_preregistered inputs of
          Some pair \<Rightarrow> Inr (resolved pair 0 Preregistered)
        | None \<Rightarrow>
           (if ci_cimd_supported inputs then Inr (resolved (ENDARA_CLIENT_METADATA_URL, None) 0 Cimd)
            else case ci_registration_endpoint inputs of
              Some reg_endpoint \<Rightarrow>
                (case dcr reg_endpoint of
                   Inl e \<Rightarrow> Inl (DcrFailed e)
                 | Inr r \<Rightarrow> Inr (resolved (cr_client_id r, cr_client_secret r) (cr_client_secret_expires_at r) Dcr))
            | None \<Rightarrow> Inl NoCredentials)))"

section \<open>State and environment\<close>

record ('c, 'v) setup_state =
  su_login :: "'c login_state"
  su_managed :: "'v managed"

record 'c setup_env =
  se_manage :: "'c manage_env"
  se_edit :: edit_env
  se_show_error :: "token_error \<Rightarrow> string"
  se_uuid :: nat
  se_show_uuid :: "nat \<Rightarrow> string"
  se_clock :: "nat \<Rightarrow> instant_ns"

record setup_request =
  sq_name :: string
  sq_url :: string
  sq_scopes :: "string list option"
  sq_tool_prefix :: "string option"
  sq_client_id :: "string option"
  sq_client_secret :: "string option"
  sq_oauth_server_url :: "string option"
  sq_server_type_override :: "string option"

definition SETUP_UNAVAILABLE :: api_response where
  "SETUP_UNAVAILABLE = error_response 500 ''Setup manager not available'' None"

definition OAUTH_UNCONFIGURED :: api_response where
  "OAUTH_UNCONFIGURED = error_response 500 ''OAuth not configured'' None"

definition SESSION_GONE :: api_response where
  "SESSION_GONE = error_response 404 ''session not found or expired'' None"

definition INVALID_SESSION :: api_response where
  "INVALID_SESSION = error_response 400 ''invalid session_id'' None"

text \<open>The shorthands for the two states.\<close>

definition on_login :: "('c login_state \<Rightarrow> 'c login_state) \<Rightarrow> ('c, 'v) setup_state \<Rightarrow> ('c, 'v) setup_state" where
  "on_login f s = s\<lparr>su_login := f (su_login s)\<rparr>"

definition on_sessions :: "(sessions \<Rightarrow> sessions) \<Rightarrow> ('c, 'v) setup_state \<Rightarrow> ('c, 'v) setup_state" where
  "on_sessions f = on_login (\<lambda>l. l\<lparr>ls_setups := map_option f (ls_setups l)\<rparr>)"

definition on_flows :: "(flow_manager \<Rightarrow> flow_manager) \<Rightarrow> ('c, 'v) setup_state \<Rightarrow> ('c, 'v) setup_state" where
  "on_flows f = on_login (\<lambda>l. l\<lparr>ls_flows := map_option f (ls_flows l)\<rparr>)"

definition edit_session ::
  "instant_ns \<Rightarrow> nat \<Rightarrow> (oauth_setup_session \<Rightarrow> oauth_setup_session) \<Rightarrow> sessions \<Rightarrow> sessions" where
  "edit_session now sid f m = fst (get_session_mut now sid (\<lambda>x. (f x, ())) m)"

section \<open>Beginning a setup\<close>

definition note_metadata :: "discovery_result \<Rightarrow> oauth_setup_session \<Rightarrow> oauth_setup_session" where
  "note_metadata d x = x\<lparr>ss_authorization_endpoint := Some (dr_authorization_endpoint d),
     ss_token_endpoint := Some (dr_token_endpoint d), ss_registration_endpoint := dr_registration_endpoint d,
     ss_oauth_server_url := Some (dr_auth_server_url d), ss_issuer := Some (dr_issuer d)\<rparr>"

definition note_client :: "resolved_client \<Rightarrow> oauth_setup_session \<Rightarrow> oauth_setup_session" where
  "note_client c x = x\<lparr>ss_client_id := Some (rv_client_id c), ss_client_secret := rv_client_secret c,
     ss_client_secret_expires_at := rv_expires_at c, ss_registered_via_dcr := (rv_registration c = Dcr),
     ss_status := AwaitingAuth\<rparr>"

definition setup_client_record :: "u64 \<Rightarrow> string \<Rightarrow> resolved_client \<Rightarrow> dcr_credentials" where
  "setup_client_record now_secs iss c =
     \<lparr>client_id = rv_client_id c, client_secret = rv_client_secret c, client_secret_expires_at = rv_expires_at c,
      registered_at = now_secs, issuer = (if rv_registration c = ManualClient then None else Some iss),
      resource_client_id = None, resource_client_secret = None, registered_via_dcr = (rv_registration c = Dcr)\<rparr>"

definition setup_inputs :: "setup_request \<Rightarrow> discovery_result \<Rightarrow> client_inputs" where
  "setup_inputs req d =
     \<lparr>ci_explicit_manual = map_option (\<lambda>i. (i, trimmed_field (sq_client_secret req))) (trimmed_field (sq_client_id req)),
      ci_preregistered = None, ci_cimd_supported = dr_client_id_metadata_document_supported d,
      ci_registration_endpoint = dr_registration_endpoint d\<rparr>"

text \<open>A failed save is only logged.\<close>

definition save_client ::
  "'c setup_env \<Rightarrow> string \<Rightarrow> dcr_credentials \<Rightarrow> 'c login_state \<Rightarrow> 'c login_state" where
  "save_client env name creds l =
     (if ls_has_tm l
      then l\<lparr>ls_disk := fst (save_dcr (ser_dcr (le_codec (mg_login (se_manage env)))) name creds (ls_disk l))\<rparr> else l)"

definition setup_flow_request ::
  "'c setup_env \<Rightarrow> nat \<Rightarrow> resolved_server \<Rightarrow> string \<Rightarrow> string option \<Rightarrow> flow_request" where
  "setup_flow_request env sid rs cid secret =
     \<lparr>fq_endpoint_name = ''setup:'' @ se_show_uuid env sid, fq_token_endpoint = rs_token_endpoint rs,
      fq_client_id = cid, fq_client_secret = secret, fq_pkce = mg_pkce (se_manage env),
      fq_redirect_uri = redirect_uri_of (se_manage env), fq_issuer = rs_issuer rs,
      fq_iss_parameter_supported = rs_iss_supported rs\<rparr>"

definition register_setup_login ::
  "'c setup_env \<Rightarrow> instant_ns \<Rightarrow> nat \<Rightarrow> resolved_server \<Rightarrow> string \<Rightarrow> string option \<Rightarrow> ('c, 'v) setup_state \<Rightarrow> ('c, 'v) setup_state" where
  "register_setup_login env now sid rs cid secret =
     on_flows (\<lambda>m. fst (start_flow (mg_state (se_manage env)) now (setup_flow_request env sid rs cid secret) m))"

definition setup_url ::
  "'c setup_env \<Rightarrow> string \<Rightarrow> resolved_server \<Rightarrow> string \<Rightarrow> string option \<Rightarrow> ('c, 'v) setup_state \<Rightarrow> string" where
  "setup_url env name rs cid scopes s =
     authorize_url (se_manage env) rs cid (redirect_uri_of (se_manage env)) (mg_state (se_manage env)) False
       (merge_scopes (prior_scope (se_manage env) name (su_login s)) (unwrap_or [] scopes))"

definition discovery_info :: "discovery_result \<Rightarrow> bool \<Rightarrow> json" where
  "discovery_info d dcr_used = JObj ([(''auth_server'', JStr (dr_auth_server_url d)), (''dcr_used'', JBool dcr_used)] @
     (if dr_scopes_supported d = [] then [] else [(''scopes_available'', JArr (map JStr (dr_scopes_supported d)))]))"

definition setup_resolved ::
  "'c setup_env \<Rightarrow> setup_request \<Rightarrow> nat \<Rightarrow> discovery_result \<Rightarrow> resolved_client \<Rightarrow> ('c, 'v) setup_state \<Rightarrow>
   ('c, 'v) setup_state \<times> api_response" where
  "setup_resolved env req sid d c s =
     (let name = sq_name req; rs = of_discovery None d; now = se_clock env 2;
          s1 = on_login (save_client env name (setup_client_record (le_wall (mg_login (se_manage env))) (dr_issuer d) c)) s;
          s2 = on_sessions (edit_session now sid (note_client c)) s1;
          s3 = register_setup_login env now sid rs (rv_client_id c) (rv_client_secret c) s2
      in (s3, ok_response (JObj [(''session_id'', JStr (se_show_uuid env sid)), (''status'', JStr ''awaiting_auth''),
            (''authorize_url'', JStr (setup_url env name rs (rv_client_id c) (map_option (join '' '') (sq_scopes req)) s3)),
            (''discovery'', discovery_info d (rv_registration c = Dcr))])))"

definition dcr_message :: "'c setup_env \<Rightarrow> dcr_error client_resolve_error \<Rightarrow> string" where
  "dcr_message env e =
     (case e of
        DcrFailed e \<Rightarrow> show_dcr_error (mg_show_http (se_manage env)) (mg_show_ip (se_manage env)) e
      | NoCredentials \<Rightarrow> ''No registration endpoint available'')"

definition setup_unresolved ::
  "'c setup_env \<Rightarrow> nat \<Rightarrow> discovery_result \<Rightarrow> dcr_error client_resolve_error \<Rightarrow> api_response" where
  "setup_unresolved env sid d e =
     \<lparr>ar_status = 422, ar_body = JObj [(''session_id'', JStr (se_show_uuid env sid)),
        (''status'', JStr ''awaiting_credentials''), (''discovery'', discovery_info d False),
        (''dcr_error'', JStr (dcr_message env e))]\<rparr>"

definition setup_discovered ::
  "'c setup_env \<Rightarrow> (('c, 'v) setup_state \<Rightarrow> ('c, 'v) setup_state) \<Rightarrow> setup_request \<Rightarrow> bool \<Rightarrow> nat \<Rightarrow>
   ('c, 'v) setup_state \<Rightarrow> ('c, 'v) setup_state \<times> api_response" where
  "setup_discovered env registering req allow_insecure sid s =
     (let base = unwrap_or (sq_url req) (trimmed_field (sq_oauth_server_url req)); mg = se_manage env in
      case discover_oauth_server (mg_net mg) base allow_insecure of
        Inl e \<Rightarrow> (on_sessions (\<lambda>m. fst (remove_session sid m)) s,
          error_response 400 ''discovery_failed'' (Some (''Could not discover OAuth server. Details: '' @ show_disc mg e)))
      | Inr d \<Rightarrow>
         (let s1 = on_sessions (edit_session (se_clock env 1) sid (note_metadata d)) s;
              dcr = (\<lambda>reg_endpoint. register_client (mg_net mg) reg_endpoint (redirect_uri_of mg) (sq_name req) allow_insecure)
          in case resolve_inputs (setup_inputs req d) dcr of
               Inl e \<Rightarrow> (registering s1, setup_unresolved env sid d e)
             | Inr c \<Rightarrow> setup_resolved env req sid d c (registering s1)))"

definition oauth_setup ::
  "'c setup_env \<Rightarrow> (('c, 'v) setup_state \<Rightarrow> ('c, 'v) setup_state) \<Rightarrow> (('c, 'v) setup_state \<Rightarrow> ('c, 'v) setup_state) \<Rightarrow>
   setup_request \<Rightarrow> ('c, 'v) setup_state \<Rightarrow> ('c, 'v) setup_state \<times> api_response" where
  "oauth_setup env discovering registering req s =
     (case ls_setups (su_login s) of
        None \<Rightarrow> (s, SETUP_UNAVAILABLE)
      | Some m \<Rightarrow>
     (if ls_flows (su_login s) = None then (s, OAUTH_UNCONFIGURED)
      else let config = rl_config (mn_relay (su_managed s)); name = sq_name req in
        if list_ex (\<lambda>e. ec_name e = name) (cf_endpoints config)
        then (s, error_response 409 ''endpoint_exists'' (Some (''An endpoint named '' @ quoted name @ '' already exists. Use a different name.'')))
        else (case create_session (se_uuid env) (se_clock env 0) name (sq_url req) (map_option (join '' '') (sq_scopes req))
                (sq_tool_prefix req) (sq_server_type_override req) m of
            (m1, None) \<Rightarrow> (on_sessions (\<lambda>_. m1) s,
              error_response 409 ''setup_in_progress'' (Some (''Another setup session for '' @ quoted name @
                '' is already in progress. Commit or cancel it first, or wait for it to expire.'')))
          | (m1, Some sid) \<Rightarrow>
              setup_discovered env registering req (unwrap_or False (rc_allow_insecure_oauth (cf_relay config))) sid
                (discovering (on_sessions (\<lambda>_. m1) s)))))"

section \<open>Credentials by hand\<close>

definition note_manual :: "string \<Rightarrow> string option \<Rightarrow> oauth_setup_session \<Rightarrow> oauth_setup_session" where
  "note_manual cid secret x = x\<lparr>ss_client_id := Some cid, ss_client_secret := secret, ss_client_secret_expires_at := 0,
     ss_registered_via_dcr := False, ss_status := AwaitingAuth\<rparr>"

definition session_server :: "oauth_setup_session \<Rightarrow> string \<Rightarrow> string \<Rightarrow> resolved_server" where
  "session_server x auth_endpoint token_endpoint =
     \<lparr>rs_authorization_endpoint = auth_endpoint, rs_token_endpoint = token_endpoint, rs_registration_endpoint = None,
      rs_scopes = [], rs_label = None, rs_issuer = ss_issuer x, rs_iss_supported = False\<rparr>"

definition oauth_setup_credentials ::
  "'c setup_env \<Rightarrow> string \<Rightarrow> string \<Rightarrow> string option \<Rightarrow> ('c, 'v) setup_state \<Rightarrow> ('c, 'v) setup_state \<times> api_response" where
  "oauth_setup_credentials env sid_text cid secret s =
     (case le_uuid (mg_login (se_manage env)) sid_text of
        None \<Rightarrow> (s, INVALID_SESSION)
      | Some sid \<Rightarrow>
     (case ls_setups (su_login s) of
        None \<Rightarrow> (s, SETUP_UNAVAILABLE)
      | Some m \<Rightarrow>
     (if ls_flows (su_login s) = None then (s, OAUTH_UNCONFIGURED)
      else if trim cid = [] then (s, error_response 400 ''client_id must not be empty'' None)
      else case get_session_mut (se_clock env 0) sid (\<lambda>x. (note_manual cid secret x, note_manual cid secret x)) m of
        (m1, r) \<Rightarrow>
         (let s1 = on_sessions (\<lambda>_. m1) s in
          case r of
            None \<Rightarrow> (s1, SESSION_GONE)
          | Some x \<Rightarrow>
             (case (ss_authorization_endpoint x, ss_token_endpoint x) of
                (Some auth_endpoint, Some token_endpoint) \<Rightarrow>
                  (let rs = session_server x auth_endpoint token_endpoint;
                       s2 = on_login (save_client env (ss_name x) (manual_client (le_wall (mg_login (se_manage env))) cid secret)) s1;
                       s3 = register_setup_login env (se_clock env 1) sid rs cid secret s2
                   in (s3, ok_response (JObj [(''status'', JStr ''awaiting_auth''),
                         (''authorize_url'', JStr (setup_url env (ss_name x) rs cid (ss_scopes x) s3))])))
              | _ \<Rightarrow> (s1, SESSION_GONE))))))"

fun setup_status_name :: "setup_session_status \<Rightarrow> string" where
  "setup_status_name AwaitingCredentials = ''awaiting_credentials''"
| "setup_status_name AwaitingAuth = ''awaiting_auth''"
| "setup_status_name Authorized = ''authorized''"
| "setup_status_name Committing = ''committing''"

definition oauth_setup_status :: "'c setup_env \<Rightarrow> string \<Rightarrow> ('c, 'v) setup_state \<Rightarrow> api_response" where
  "oauth_setup_status env sid_text s =
     (case le_uuid (mg_login (se_manage env)) sid_text of
        None \<Rightarrow> INVALID_SESSION
      | Some sid \<Rightarrow>
     (case ls_setups (su_login s) of
        None \<Rightarrow> SETUP_UNAVAILABLE
      | Some m \<Rightarrow>
         (case get_session (se_clock env 0) sid (\<lambda>x. JObj [(''session_id'', JStr (se_show_uuid env sid)),
                 (''status'', JStr (setup_status_name (ss_status x))), (''name'', JStr (ss_name x)), (''url'', JStr (ss_url x))]) m of
            Some body \<Rightarrow> ok_response body
          | None \<Rightarrow> SESSION_GONE)))"

section \<open>Committing\<close>

datatype dcr_commit_error = Mismatch string | TokenProblem token_error

definition session_client_record :: "u64 \<Rightarrow> string \<Rightarrow> oauth_setup_session \<Rightarrow> dcr_credentials" where
  "session_client_record now_secs cid x =
     \<lparr>client_id = cid, client_secret = ss_client_secret x, client_secret_expires_at = ss_client_secret_expires_at x,
      registered_at = now_secs, issuer = (if ss_registered_via_dcr x then ss_issuer x else None),
      resource_client_id = None, resource_client_secret = None, registered_via_dcr = ss_registered_via_dcr x\<rparr>"

definition commit_update ::
  "u64 \<Rightarrow> string \<Rightarrow> oauth_setup_session \<Rightarrow> dcr_credentials option \<Rightarrow> dcr_commit_error + dcr_credentials option" where
  "commit_update now_secs cid x existing =
     (case existing of
        None \<Rightarrow> Inr (Some (session_client_record now_secs cid x))
      | Some c \<Rightarrow> (if client_id c = cid \<and> client_secret c = ss_client_secret x then Inr (Some c) else Inl (Mismatch (client_id c))))"

text \<open>\<^verbatim>\<open>update_dcr\<close> at this handler's error type.\<close>

definition store_session_client ::
  "'c codec \<Rightarrow> u64 \<Rightarrow> string \<Rightarrow> oauth_setup_session \<Rightarrow> 'c world \<Rightarrow> 'c world \<times> (dcr_commit_error + unit)" where
  "store_session_client cd now_secs cid x w =
     (case load_dcr (de_dcr cd) (ss_name x) w of
        Inl e \<Rightarrow> (w, Inl (TokenProblem e))
      | Inr existing \<Rightarrow> (case commit_update now_secs cid x existing of
            Inl e \<Rightarrow> (w, Inl e)
          | Inr new \<Rightarrow> (case update_dcr (ser_dcr cd) (de_dcr cd) (ss_name x) (\<lambda>_. Inr new) w of
              (w1, Inl e) \<Rightarrow> (w1, Inl (TokenProblem e)) | (w1, Inr _) \<Rightarrow> (w1, Inr ()))))"

definition commit_store_answer :: "'c setup_env \<Rightarrow> dcr_commit_error \<Rightarrow> api_response" where
  "commit_store_answer env e =
     (case e of
        Mismatch stored \<Rightarrow> error_response 409 ''dcr_record_mismatch'' (Some
          (''A stored credential record for this endpoint name does not match this setup session'' @ [CHR 0x27] @
           ''s client credentials. Delete the endpoint'' @ [CHR 0x27] @
           ''s stored credentials or re-run setup under a different name.''))
      | TokenProblem t \<Rightarrow> error_response 500 ''dcr_persistence_failed'' (Some
          (''Could not persist client credentials to the credential store: '' @ se_show_error env t @
           ''. The setup session was kept; retry the commit or cancel the session.'')))"

definition commit_client :: "'c setup_env \<Rightarrow> oauth_setup_session \<Rightarrow> 'c login_state \<Rightarrow> 'c login_state \<times> (dcr_commit_error + unit)" where
  "commit_client env x l =
     (case (ls_has_tm l, ss_client_id x) of
        (True, Some cid) \<Rightarrow>
          (case store_session_client (le_codec (mg_login (se_manage env))) (le_wall (mg_login (se_manage env))) cid x (ls_disk l) of
             (w, r) \<Rightarrow> (l\<lparr>ls_disk := w\<rparr>, r))
      | _ \<Rightarrow> (l, Inr ()))"

definition commit_tokens :: "'c setup_env \<Rightarrow> oauth_setup_session \<Rightarrow> 'c login_state \<Rightarrow> 'c login_state" where
  "commit_tokens env x l =
     (case (ls_has_tm l, ss_tokens x) of
        (True, Some toks) \<Rightarrow>
          l\<lparr>ls_disk := fst (save_tokens (ser_tokens (le_codec (mg_login (se_manage env)))) (ss_name x) toks (ls_disk l))\<rparr>
      | _ \<Rightarrow> l)"

definition committed_endpoint :: "oauth_setup_session \<Rightarrow> endpoint_config" where
  "committed_endpoint x =
     \<lparr>ec_name = ss_name x, ec_description = None, ec_tool_prefix = ss_tool_prefix x, ec_transport = Oauth,
      ec_command = None, ec_args = None, ec_url = Some (ss_url x), ec_env = None, ec_headers = None,
      ec_disabled = False, ec_disabled_tools = [], ec_oauth_server_url = ss_oauth_server_url x,
      ec_client_id = ss_client_id x, ec_client_secret = None,
      ec_scopes = (case map_option split_whitespace (ss_scopes x) of Some v \<Rightarrow> if v = [] then None else Some v | None \<Rightarrow> None),
      ec_token_endpoint = ss_token_endpoint x, ec_server_type_override = ss_server_type_override x,
      ec_isolation = None, ec_container_image = None, ec_mounts = None, ec_auth = None\<rparr>"

definition commit_claimed_session ::
  "'c setup_env \<Rightarrow> oauth_setup_session \<Rightarrow> ('c, 'v) setup_state \<Rightarrow> ('c, 'v) setup_state \<times> (api_response + unit)" where
  "commit_claimed_session env x s =
     (if \<not> ee_has_path (se_edit env) then (s, Inl (error_response 500 ''config_path not configured'' None))
      else case commit_client env x (su_login s) of
        (l1, Inl e) \<Rightarrow> (s\<lparr>su_login := l1\<rparr>, Inl (commit_store_answer env e))
      | (l1, Inr _) \<Rightarrow>
          (case apply_endpoint_change (se_edit env) (committed_endpoint x) None (su_managed s) of
             (mn, r) \<Rightarrow> (s\<lparr>su_login := commit_tokens env x l1, su_managed := mn\<rparr>, r)))"

definition oauth_setup_commit ::
  "'c setup_env \<Rightarrow> (('c, 'v) setup_state \<Rightarrow> ('c, 'v) setup_state) \<Rightarrow> string \<Rightarrow> ('c, 'v) setup_state \<Rightarrow>
   ('c, 'v) setup_state \<times> api_response" where
  "oauth_setup_commit env waiting sid_text s =
     (case le_uuid (mg_login (se_manage env)) sid_text of
        None \<Rightarrow> (s, INVALID_SESSION)
      | Some sid \<Rightarrow>
     (case ls_setups (su_login s) of
        None \<Rightarrow> (s, SETUP_UNAVAILABLE)
      | Some m \<Rightarrow>
     (case claim_for_commit (se_clock env 0) sid m of
        (m1, AlreadyCommitting) \<Rightarrow> (on_sessions (\<lambda>_. m1) s, error_response 409 ''commit_in_progress''
          (Some ''Another commit request for this session is in flight.''))
      | (m1, NotAuthorized) \<Rightarrow> (on_sessions (\<lambda>_. m1) s, error_response 409 ''session_not_authorized''
          (Some ''OAuth authorization has not been completed yet.''))
      | (m1, ClaimNotFound) \<Rightarrow> (on_sessions (\<lambda>_. m1) s, SESSION_GONE)
      | (m1, Claimed x) \<Rightarrow>
         (case commit_claimed_session env x (waiting (on_sessions (\<lambda>_. m1) s)) of
            (s2, Inl resp) \<Rightarrow> (on_sessions (release_commit_claim sid) s2, resp)
          | (s2, Inr _) \<Rightarrow> (on_sessions (\<lambda>m. fst (remove_session sid m)) s2,
              ok_response (JObj [(''status'', JStr ''committed''), (''name'', JStr (ss_name x))]))))))"

definition oauth_setup_cancel ::
  "'c setup_env \<Rightarrow> string \<Rightarrow> ('c, 'v) setup_state \<Rightarrow> ('c, 'v) setup_state \<times> api_response" where
  "oauth_setup_cancel env sid_text s =
     (case le_uuid (mg_login (se_manage env)) sid_text of
        None \<Rightarrow> (s, INVALID_SESSION)
      | Some sid \<Rightarrow>
     (case ls_setups (su_login s) of
        None \<Rightarrow> (s, SETUP_UNAVAILABLE)
      | Some m \<Rightarrow>
         (case cancel_session (se_clock env 0) sid m of
            (m1, Cancelled) \<Rightarrow> (on_sessions (\<lambda>_. m1) s, ok_response (JObj [(''status'', JStr ''cancelled'')]))
          | (m1, CommitInProgress) \<Rightarrow> (on_sessions (\<lambda>_. m1) s, error_response 409 ''commit_in_progress''
              (Some ''A commit for this session is in flight; it cannot be cancelled.''))
          | (m1, CancelNotFound) \<Rightarrow> (on_sessions (\<lambda>_. m1) s, SESSION_GONE))))"

end
