(* ===== verification/Setup_Safety.thy ===== *)
theory Setup_Safety
  imports Setup_Flow Management_Safety Login_Safety
begin

text \<open>
  What adding an OAuth endpoint guarantees: no step before the commit touches the configuration, a commit
  either publishes the endpoint with its credentials stored or keeps the session, the configuration never
  depends on the secrets, and the login that comes back is the one that was begun. Two races break the
  pairing of tokens and clients, and of tokens and endpoints.
\<close>

section \<open>What each step touches\<close>

lemma on_parts [simp]:
  "su_managed (on_login f s) = su_managed s" "su_managed (on_sessions g s) = su_managed s"
  "su_managed (on_flows h s) = su_managed s" "su_login (on_login f s) = f (su_login s)"
  "ls_setups (su_login (on_sessions g s)) = map_option g (ls_setups (su_login s))"
  "ls_setups (su_login (on_flows h s)) = ls_setups (su_login s)"
  "ls_flows (su_login (on_flows h s)) = map_option h (ls_flows (su_login s))"
  "ls_flows (su_login (on_sessions g s)) = ls_flows (su_login s)"
  "ls_has_tm (su_login (on_sessions g s)) = ls_has_tm (su_login s)"
  "ls_has_tm (su_login (on_flows h s)) = ls_has_tm (su_login s)"
  "ls_disk (su_login (on_sessions g s)) = ls_disk (su_login s)"
  "ls_disk (su_login (on_flows h s)) = ls_disk (su_login s)"
  by (simp_all add: on_login_def on_sessions_def on_flows_def)

lemma save_client_parts [simp]:
  "ls_setups (save_client env nm c l) = ls_setups l" "ls_flows (save_client env nm c l) = ls_flows l"
  "ls_has_tm (save_client env nm c l) = ls_has_tm l"
  by (simp_all add: save_client_def)

lemma register_setup_parts [simp]:
  "su_managed (register_setup_login env now sid rs cid sec s) = su_managed s"
  "ls_setups (su_login (register_setup_login env now sid rs cid sec s)) = ls_setups (su_login s)"
  by (simp_all add: register_setup_login_def)

lemma setup_resolved_managed [simp]: "su_managed (fst (setup_resolved env req sid d c s)) = su_managed s"
  by (simp add: setup_resolved_def Let_def)

definition keeps_step :: "machine \<Rightarrow> (('c, 'v) setup_state \<Rightarrow> ('c, 'v) setup_state) \<Rightarrow> bool" where
  "keeps_step m f = (\<forall>s. in_step m (mn_relay (su_managed s)) \<longrightarrow> in_step m (mn_relay (su_managed (f s))))"

lemma oauth_setup_step:
  "in_step m (mn_relay (su_managed s)) \<Longrightarrow> keeps_step m disc \<Longrightarrow> keeps_step m reg \<Longrightarrow>
   in_step m (mn_relay (su_managed (fst (oauth_setup env disc reg req s))))"
  by (auto simp: oauth_setup_def setup_discovered_def keeps_step_def Let_def split: option.splits prod.splits sum.splits)

lemma credentials_managed [simp]: "su_managed (fst (oauth_setup_credentials env idt cid sec s)) = su_managed s"
  by (simp add: oauth_setup_credentials_def Let_def split: option.splits prod.splits)

lemma cancel_managed [simp]: "su_managed (fst (oauth_setup_cancel env idt s)) = su_managed s"
  by (simp add: oauth_setup_cancel_def split: option.splits prod.splits cancel_outcome.splits)

lemma commit_claimed_step:
  "in_step m (mn_relay (su_managed s)) \<Longrightarrow> in_step m (mn_relay (su_managed (fst (commit_claimed_session env x s))))"
  using apply_change_step [of m "su_managed s" None "committed_endpoint x" "se_edit env"]
  by (auto simp: commit_claimed_session_def split: prod.splits sum.splits)

lemma oauth_setup_commit_step:
  "in_step m (mn_relay (su_managed s)) \<Longrightarrow> keeps_step m w \<Longrightarrow>
   in_step m (mn_relay (su_managed (fst (oauth_setup_commit env w idt s))))"
proof -
  assume s: "in_step m (mn_relay (su_managed s))" and w: "keeps_step m w"
  have "in_step m (mn_relay (su_managed (fst (commit_claimed_session env x (w (on_sessions g s))))))" for x g
    using s w by (intro commit_claimed_step) (simp add: keeps_step_def)
  then have "commit_claimed_session env x (w (on_sessions g s)) = (s2, r) \<Longrightarrow> in_step m (mn_relay (su_managed s2))" for x g s2 r
    by (metis fst_conv)
  with s show ?thesis
    by (auto simp: oauth_setup_commit_def split: option.splits prod.splits commit_claim.splits sum.splits)
qed

text \<open>No request of a setup, in any order and whatever other tasks do while it waits, takes the running
  relay out of step with an admissible configuration; and none but the commit changes the configuration or
  its file.\<close>

theorem setup_requests_keep_step:
  assumes "in_step m (mn_relay (su_managed s))" "keeps_step m meanwhile" "keeps_step m meanwhile'"
  shows "in_step m (mn_relay (su_managed (fst (oauth_setup env meanwhile meanwhile' req s)))) \<and>
    in_step m (mn_relay (su_managed (fst (oauth_setup_commit env meanwhile sid s)))) \<and>
    su_managed (fst (oauth_setup_credentials env sid cid secret s)) = su_managed s \<and>
    su_managed (fst (oauth_setup_cancel env sid s)) = su_managed s"
  using assms by (simp add: oauth_setup_step oauth_setup_commit_step)

section \<open>The commit\<close>

lemma applied_new:
  "apply_endpoint_change env ep None s = (s', Inr u) \<Longrightarrow>
   rl_config (mn_relay s') = (rl_config (mn_relay s))\<lparr>cf_endpoints := cf_endpoints (rl_config (mn_relay s)) @ [ep]\<rparr>"
  by (auto simp: apply_endpoint_change_def changed_endpoints_def effective_endpoint_def Let_def split: if_splits sum.splits prod.splits)

lemma not_applied:
  "apply_endpoint_change env ep original s = (s', Inl r) \<Longrightarrow> rl_config (mn_relay s') = rl_config (mn_relay s)"
  by (auto simp: apply_endpoint_change_def Let_def split: if_splits sum.splits prod.splits)

lemma commit_answer_error [simp]: "ar_status (commit_store_answer env e) \<noteq> 200"
  by (cases e) (simp_all add: commit_store_answer_def)

lemma commit_parts:
  "commit_client env x l = (l', r) \<Longrightarrow> ls_setups l' = ls_setups l \<and> ls_has_tm l' = ls_has_tm l"
  "ls_setups (commit_tokens env x l) = ls_setups l"
  by (auto simp: commit_client_def commit_tokens_def split: option.splits prod.splits bool.splits)

lemma save_other_load:
  "load_dcr de n (fst (save_tokens ser n t w)) = load_dcr de n w"
proof -
  obtain w1 r where s: "save_tokens ser n t w = (w1, r)" by fastforce
  have "hm_get (files w1) (dcr_file n) = hm_get (files w) (dcr_file n)"
    using save_file_frame [of "token_file n" "ser t" w w1 r "dcr_file n"] s
    by (simp add: save_tokens_def tmp_of_def token_file_def dcr_file_def)
  moreover have "io w1 = io w" using save_file_io [of "token_file n" "ser t" w w1 r] s by (simp add: save_tokens_def)
  ultimately show ?thesis by (simp add: s load_dcr_def load_file_def split: option.split)
qed

text \<open>Reading back what was written, on a directory whose reads succeed.\<close>

definition readable_store :: "'c codec \<Rightarrow> 'c world \<Rightarrow> bool" where
  "readable_store cd w = ((\<forall>c. de_dcr cd (ser_dcr cd c) = Some c) \<and> (\<forall>n. io w (OpRead n) = None))"

lemma store_session_client_outcome:
  assumes "readable_store cd w" "store_session_client cd now_secs cid x w = (w', Inr u)"
  shows "\<exists>c. load_dcr (de_dcr cd) (ss_name x) w' = Inr (Some c) \<and> client_id c = cid \<and> client_secret c = ss_client_secret x"
proof -
  obtain existing new where e: "load_dcr (de_dcr cd) (ss_name x) w = Inr existing" "commit_update now_secs cid x existing = Inr new"
    and up: "\<exists>saved. update_dcr (ser_dcr cd) (de_dcr cd) (ss_name x) (\<lambda>_. Inr new) w = (w', Inr saved)"
    using assms(2) by (auto simp: store_session_client_def split: sum.splits prod.splits)
  obtain saved where up: "update_dcr (ser_dcr cd) (de_dcr cd) (ss_name x) (\<lambda>_. Inr new) w = (w', Inr saved)" using up by blast
  have "load_dcr (de_dcr cd) (ss_name x) w' = Inr saved \<and> saved = new"
    using update_dcr_outcome [OF _ up] assms(1) by (auto simp: readable_store_def)
  moreover have "\<exists>c. new = Some c \<and> client_id c = cid \<and> client_secret c = ss_client_secret x"
    using e(2) by (auto simp: commit_update_def session_client_record_def split: option.splits if_splits)
  ultimately show ?thesis by auto
qed

lemma commit_claimed_cases:
  assumes "commit_claimed_session env x s = (s', r)"
  shows "case r of
      Inl resp \<Rightarrow> ar_status resp \<noteq> 200 \<and> rl_config (mn_relay (su_managed s')) = rl_config (mn_relay (su_managed s))
    | Inr _ \<Rightarrow> rl_config (mn_relay (su_managed s')) = (rl_config (mn_relay (su_managed s)))
        \<lparr>cf_endpoints := cf_endpoints (rl_config (mn_relay (su_managed s))) @ [committed_endpoint x]\<rparr> \<and>
        (\<exists>l. commit_client env x (su_login s) = (l, Inr ()) \<and> su_login s' = commit_tokens env x l)"
  using assms
  by (auto simp: commit_claimed_session_def split: if_splits sum.splits prod.splits
      dest: not_applied applied_new apply_change_error)


section \<open>Secrets\<close>

text \<open>What a commit writes to the configuration and its file does not depend on the secret or on the tokens of
  the session: two sessions that differ in nothing else leave the same configuration, file and registry, and
  the entry written has no key for a secret.\<close>

theorem commit_hides_secrets:
  assumes "commit_claimed_session env x s = (s1, Inr ())"
    and "commit_claimed_session env (x\<lparr>ss_client_secret := secret, ss_client_secret_expires_at := t, ss_tokens := toks\<rparr>) s = (s2, Inr ())"
  shows "su_managed s1 = su_managed s2 \<and>
    hm_get (endpoint_to_toml_table (committed_endpoint x)) ''client_secret'' = None"
proof -
  have same: "committed_endpoint (x\<lparr>ss_client_secret := secret, ss_client_secret_expires_at := t, ss_tokens := toks\<rparr>) = committed_endpoint x"
    by (simp add: committed_endpoint_def)
  have "su_managed s' = fst (apply_endpoint_change (se_edit env) (committed_endpoint y) None (su_managed s))"
    if "commit_claimed_session env y s = (s', Inr ())" for y s'
    using that by (auto simp: commit_claimed_session_def split: if_splits sum.splits prod.splits)
  from this [OF assms(1)] this [OF assms(2)] show ?thesis
    by (simp add: same endpoint_keys_free)
qed

section \<open>From the start to the commit\<close>

lemma edited_session:
  assumes "hm_get m sid = Some x" "ss_status x \<noteq> Committing" "\<not> expired now x"
  shows "hm_get (edit_session now sid f m) sid = Some (f x)"
  using assms by (simp add: edit_session_def get_session_mut_def hm_get_insert)

definition fresh_setup :: "'c setup_env \<Rightarrow> setup_request \<Rightarrow> oauth_setup_session" where
  "fresh_setup env req =
     \<lparr>ss_name = sq_name req, ss_url = sq_url req, ss_scopes = map_option (join '' '') (sq_scopes req),
      ss_tool_prefix = sq_tool_prefix req, ss_server_type_override = sq_server_type_override req,
      ss_authorization_endpoint = None, ss_token_endpoint = None, ss_registration_endpoint = None,
      ss_oauth_server_url = None, ss_issuer = None, ss_client_id = None, ss_client_secret = None,
      ss_client_secret_expires_at = 0, ss_registered_via_dcr = False, ss_tokens = None,
      ss_status = AwaitingCredentials, ss_created_at = se_clock env 0\<rparr>"

lemma created_session:
  "create_session (se_uuid env) (se_clock env 0) (sq_name req) (sq_url req) (map_option (join '' '') (sq_scopes req))
     (sq_tool_prefix req) (sq_server_type_override req) m = (m1, Some sid) \<Longrightarrow>
   sid = se_uuid env \<and> hm_get m1 sid = Some (fresh_setup env req)"
  by (auto simp: create_session_def Let_def fresh_setup_def hm_get_insert split: if_splits)

lemma authorized_claim:
  assumes "hm_get m sid = Some x" "ss_status x \<noteq> Committing" "\<not> expired later x"
    and "le_uuid env idt = Some sid" "ls_setups l = Some m"
  shows "\<exists>m1 m2. ls_setups (fst (commit_setup env idt toks l)) = Some m1 \<and>
    claim_for_commit later sid m1 = (m2, Claimed (x\<lparr>ss_tokens := Some toks, ss_status := Authorized, ss_created_at := later\<rparr>))"
  using assms by (simp add: commit_setup_def mark_authorized_def claim_for_commit_def hm_get_insert expired_def Let_def)

lemma setup_success:
  assumes "oauth_setup env id id req s = (s', resp)" "ar_status resp = 200"
  obtains m m1 d c where "ls_setups (su_login s) = Some m" "ls_flows (su_login s) \<noteq> None"
    "hm_get m1 (se_uuid env) = Some (fresh_setup env req)"
    "s' = fst (setup_resolved env req (se_uuid env) d c
       (on_sessions (edit_session (se_clock env 1) (se_uuid env) (note_metadata d)) (on_sessions (\<lambda>_. m1) s)))"
proof -
  from assms obtain m where m: "ls_setups (su_login s) = Some m" "ls_flows (su_login s) \<noteq> None"
    by (auto simp: oauth_setup_def SETUP_UNAVAILABLE_def OAUTH_UNCONFIGURED_def split: option.splits if_splits)
  obtain m1 r where cr: "create_session (se_uuid env) (se_clock env 0) (sq_name req) (sq_url req)
      (map_option (join '' '') (sq_scopes req)) (sq_tool_prefix req) (sq_server_type_override req) m = (m1, r)" by fastforce
  let ?ins = "unwrap_or False (rc_allow_insecure_oauth (cf_relay (rl_config (mn_relay (su_managed s)))))"
  let ?s1 = "on_sessions (\<lambda>_. m1) s"
  have "\<exists>sid. r = Some sid \<and> setup_discovered env id req ?ins sid ?s1 = (s', resp)"
    using assms m cr by (cases r) (auto simp: oauth_setup_def Let_def split: if_splits dest!: arg_cong [of _ resp ar_status])
  then have r: "r = Some (se_uuid env)" and disc: "setup_discovered env id req ?ins (se_uuid env) ?s1 = (s', resp)"
    and new: "hm_get m1 (se_uuid env) = Some (fresh_setup env req)"
    using cr created_session by blast+
  let ?dr = "discover_oauth_server (mg_net (se_manage env)) (unwrap_or (sq_url req) (trimmed_field (sq_oauth_server_url req))) ?ins"
  obtain d where d: "?dr = Inr d"
    using disc assms(2) by (cases ?dr) (auto simp: setup_discovered_def Let_def)
  let ?rc = "resolve_inputs (setup_inputs req d) (\<lambda>reg_endpoint. register_client (mg_net (se_manage env)) reg_endpoint
      (redirect_uri_of (se_manage env)) (sq_name req) ?ins)"
  obtain c where "?rc = Inr c"
    using disc assms(2) d by (cases ?rc) (auto simp: setup_discovered_def setup_unresolved_def Let_def)
  with disc d have "s' = fst (setup_resolved env req (se_uuid env) d c
      (on_sessions (edit_session (se_clock env 1) (se_uuid env) (note_metadata d)) ?s1))"
    by (simp add: setup_discovered_def Let_def)
  with that [OF m new] show ?thesis by blast
qed


section \<open>Two races\<close>

text \<open>Entering credentials by hand does not end a login of the same setup that is already under way. Its
  callback still commits, and the session can then be claimed with tokens that were issued to the earlier
  login's client and the client pair entered afterwards.\<close>

theorem late_callback_mixes_clients:
  assumes run: "oauth_setup_credentials env idt cid secret s = (s', resp)" "ar_status resp = 200"
    and uuid: "le_uuid (mg_login (se_manage env)) idt = Some sid" "le_uuid (mg_login (se_manage env)) (se_show_uuid env sid) = Some sid"
    and earlier: "ls_flows (su_login s) = Some fm" "hm_get (pending fm) st = Some flow" "st \<noteq> mg_state (se_manage env)"
      "ls_setups (su_login s) = Some m" "hm_get m sid = Some x" "\<not> expired later x"
  shows "\<exists>fm' m1 m2 x'. ls_flows (su_login s') = Some fm' \<and> hm_get (pending fm') st = Some flow \<and>
    is_current flow fm' = is_current flow fm \<and>
    ls_setups (fst (commit_setup (mg_login (se_manage env)) (se_show_uuid env sid) toks (su_login s'))) = Some m1 \<and>
    claim_for_commit later sid m1 = (m2, Claimed x') \<and>
    ss_tokens x' = Some toks \<and> ss_client_id x' = Some cid \<and> ss_client_secret x' = secret"
proof -
  let ?y = "note_manual cid secret x"
  have live: "\<not> expired (se_clock env 0) x" "ss_status x \<noteq> Committing"
    using run uuid(1) earlier
    by (auto simp: oauth_setup_credentials_def get_session_mut_def SESSION_GONE_def split: if_splits)
  let ?m = "hm_insert sid ?y m"
  have edit: "get_session_mut (se_clock env 0) sid (\<lambda>x. (note_manual cid secret x, note_manual cid secret x)) m = (?m, Some ?y)"
    using live earlier(5) by (simp add: get_session_mut_def)
  have setups: "ls_setups (su_login s') = Some ?m" and flows: "\<exists>f. f \<noteq> None \<and> ls_flows (su_login s') =
      Some (fm\<lparr>pending := hm_insert (mg_state (se_manage env)) (the f) (pending fm)\<rparr>)"
    using run uuid(1) earlier edit
    by (auto simp: oauth_setup_credentials_def SESSION_GONE_def register_setup_login_def start_flow_def Let_def
        split: if_splits option.splits)
  then obtain f where f: "ls_flows (su_login s') = Some (fm\<lparr>pending := hm_insert (mg_state (se_manage env)) f (pending fm)\<rparr>)" by blast
  have y: "ss_status ?y \<noteq> Committing" "\<not> expired later ?y"
    using earlier(6) by (simp_all add: note_manual_def expired_def)
  have "hm_get ?m sid = Some ?y" by (simp add: hm_get_insert)
  from authorized_claim [OF this y uuid(2) setups, of toks] obtain m1 m2 where
    "ls_setups (fst (commit_setup (mg_login (se_manage env)) (se_show_uuid env sid) toks (su_login s'))) = Some m1"
    "claim_for_commit later sid m1 = (m2, Claimed (?y\<lparr>ss_tokens := Some toks, ss_status := Authorized, ss_created_at := later\<rparr>))"
    by blast
  with f earlier(2,3) show ?thesis
    by (intro exI [of _ "fm\<lparr>pending := hm_insert (mg_state (se_manage env)) f (pending fm)\<rparr>"] exI [of _ m1] exI [of _ m2] exI)
      (auto simp: hm_get_insert is_current_def note_manual_def)
qed

text \<open>When the file already has an endpoint of the session's name that the running configuration does not know
  yet, the commit is refused with 409, and the refused session's tokens have replaced that endpoint's.\<close>

theorem refused_commit_replaces_tokens:
  assumes "ee_has_path (se_edit env)" "ee_read_error (se_edit env) = None" "ee_parse (se_edit env) (mn_file (su_managed s)) = Inr t"
    and "hm_get t ''endpoints'' = Some (TArr arr)" "list_ex (\<lambda>v. table_name v = Some (ss_name x)) arr"
    and "ls_has_tm (su_login s)" "ss_client_id x = Some cid" "ss_tokens x = Some toks"
    and "load_dcr (de_dcr (le_codec (mg_login (se_manage env)))) (ss_name x) (ls_disk (su_login s)) = Inr (Some c)"
    and "client_id c = cid" "client_secret c = ss_client_secret x"
    and "\<forall>op. io (ls_disk (su_login s)) op = None"
    and "\<forall>k. de_tokens (le_codec (mg_login (se_manage env))) (ser_tokens (le_codec (mg_login (se_manage env))) k) = Some k"
  shows "\<exists>s' resp. commit_claimed_session env x s = (s', Inl resp) \<and> ar_status resp = 409 \<and>
    rl_config (mn_relay (su_managed s')) = rl_config (mn_relay (su_managed s)) \<and>
    load_tokens (de_tokens (le_codec (mg_login (se_manage env)))) (ss_name x) (ls_disk (su_login s')) = Inr (Some toks)"
proof -
  let ?cd = "le_codec (mg_login (se_manage env))" and ?w = "ls_disk (su_login s)"
  have "edit_file (se_edit env) (edit_endpoint_table (committed_endpoint x) None) (mn_file (su_managed s)) =
      (mn_file (su_managed s), Inl (duplicate_name (ss_name x)))"
    using assms(2-5) by (simp add: edit_file_def edit_endpoint_table_def edit_endpoints_def Let_def committed_endpoint_def)
  then have "apply_endpoint_change (se_edit env) (committed_endpoint x) None (su_managed s) =
      ((su_managed s)\<lparr>mn_file := mn_file (su_managed s)\<rparr>, Inl (edit_answer (duplicate_name (ss_name x))))"
    using assms(1) by (simp add: apply_endpoint_change_def write_endpoint_to_disk_def)
  then have refused: "apply_endpoint_change (se_edit env) (committed_endpoint x) None (su_managed s) =
      (su_managed s, Inl (edit_answer (duplicate_name (ss_name x))))" by simp
  have client: "commit_client env x (su_login s) = (su_login s, Inr ())"
    using assms(6,7,9-11) by (simp add: commit_client_def store_session_client_def commit_update_def update_dcr_def)
  obtain w r where save: "save_tokens (ser_tokens ?cd) (ss_name x) toks ?w = (w, r)" by fastforce
  have "r = Inr ()"
    using save assms(12) by (auto simp: save_tokens_def save_file_def file_ops hm_get_insert)
  then have "hm_get (files w) (token_file (ss_name x)) = Some \<lparr>content = ser_tokens ?cd toks, mode = 384\<rparr>" "io w = io ?w"
    using save_file_outcome [of "token_file (ss_name x)" "ser_tokens ?cd toks" ?w w r]
      save_file_io [of "token_file (ss_name x)" "ser_tokens ?cd toks" ?w w r] save by (simp_all add: save_tokens_def)
  then have "load_tokens (de_tokens ?cd) (ss_name x) w = Inr (Some toks)"
    using assms(12,13) by (simp add: load_tokens_def load_file_def)
  then show ?thesis
    using assms(1,6,8) by (simp add: commit_claimed_session_def client refused commit_tokens_def save edit_answer_def duplicate_name_def)
qed

section \<open>Instances\<close>

text \<open>One document that is the resource's metadata and its server's, which accepts metadata clients.\<close>

definition setup_metadata :: json where
  "setup_metadata = JObj [(''resource'', JStr ''https://as/t''), (''authorization_servers'', JArr [JStr ''https://as/t'']),
     (''issuer'', JStr ''https://as/''), (''authorization_endpoint'', JStr ''https://as/authorize''),
     (''token_endpoint'', JStr ''https://as/token''), (''client_id_metadata_document_supported'', JBool True)]"

definition setup_net :: oauth_net where
  "setup_net = sample_net\<lparr>on_get := (\<lambda>client url. if url = ''https://as/.well-known/oauth-authorization-server/t''
     then Inr (404, Inr JNull) else Inr (200, Inr setup_metadata))\<rparr>"

lemma setup_discovery:
  "discover_oauth_server setup_net ''https://as/t'' False =
     Inr \<lparr>dr_auth_server_url = ''https://as/t'', dr_issuer = ''https://as/'',
       dr_authorization_endpoint = ''https://as/authorize'', dr_token_endpoint = ''https://as/token'',
       dr_registration_endpoint = None, dr_scopes_supported = [], dr_code_challenge_methods_supported = [],
       dr_token_endpoint_auth_methods = [], dr_revocation_endpoint = None, dr_iss_parameter_supported = False,
       dr_client_id_metadata_document_supported = True\<rparr>"
  by code_simp

definition setup_env :: "document setup_env" where
  "setup_env = \<lparr>se_manage = (sample_manage sample_endpoint)\<lparr>mg_net := setup_net, mg_login := sample_login\<lparr>le_uuid := (\<lambda>_. Some 7)\<rparr>\<rparr>,
     se_edit = quiet_env, se_show_error = (\<lambda>_. []), se_uuid = 7, se_show_uuid = (\<lambda>_. ''7''), se_clock = (\<lambda>_. 5)\<rparr>"

definition setup_with :: "sessions \<Rightarrow> (document, nat) setup_state" where
  "setup_with m = \<lparr>su_login = idle_state\<lparr>ls_setups := Some m\<rparr>, su_managed = starting_managed\<rparr>"

definition setup_sample :: setup_request where
  "setup_sample = \<lparr>sq_name = ''W'', sq_url = ''https://as/t'', sq_scopes = None, sq_tool_prefix = None, sq_client_id = None,
     sq_client_secret = None, sq_oauth_server_url = None, sq_server_type_override = None\<rparr>"

definition ready_session :: oauth_setup_session where
  "ready_session = sample_session\<lparr>ss_client_id := Some ''c'', ss_client_secret := Some ''s'',
     ss_authorization_endpoint := Some ''a'', ss_token_endpoint := Some ''t'', ss_tokens := Some sample_tokens\<rparr>"

lemma setup_sample_fields [simp]:
  "le_uuid (mg_login (se_manage setup_env)) idt = Some 7" "mg_state (se_manage setup_env) = ''st''"
  "le_codec (mg_login (se_manage setup_env)) = sample_codec" "se_clock setup_env i = 5" "se_edit setup_env = quiet_env"
  "se_uuid setup_env = 7" "se_show_uuid setup_env u = ''7''" "mg_net (se_manage setup_env) = setup_net"
  "ls_setups (su_login (setup_with m)) = Some m" "ls_flows (su_login (setup_with m)) = Some new_flow_manager"
  "ls_has_tm (su_login (setup_with m))" "io (ls_disk (su_login (setup_with m))) op = None"
  "files (ls_disk (su_login (setup_with m))) = []" "su_managed (setup_with m) = starting_managed"
  "de_dcr sample_codec (ser_dcr sample_codec c) = Some c" "de_tokens sample_codec (ser_tokens sample_codec k) = Some k"
  by (simp_all add: setup_env_def sample_manage_def sample_login_def setup_with_def idle_state_def sample_state_def
      empty_dir_def sample_codec_def)

lemma setup_sample_ok: "ar_status (snd (oauth_setup setup_env id id setup_sample (setup_with []))) = 200"
  by (simp add: oauth_setup_def setup_sample_def starting_managed_def starting_relay_def default_config_def default_relay_def
      create_session_def sweep_sessions_def hm_retain_def Let_def setup_discovered_def trimmed_field_def setup_discovery
      resolve_inputs_def setup_inputs_def setup_resolved_def unwrap_or_def)


theorem setup_requests_keep_step_witness:
  "in_step no_files (mn_relay (su_managed (fst (oauth_setup setup_env id id setup_sample (setup_with [])))))"
proof -
  have start: "in_step no_files (mn_relay (su_managed (setup_with [])))" by (simp add: starting_managed_def starting_in_step)
  have "keeps_step no_files id" by (simp add: keeps_step_def)
  from setup_requests_keep_step [OF start this this, of setup_env setup_sample] show ?thesis by blast
qed

lemma ready_claim:
  "claim_for_commit 5 7 [(7, ready_session)] =
     ([(7, ready_session\<lparr>ss_status := Committing, ss_created_at := 5\<rparr>)], Claimed (ready_session\<lparr>ss_created_at := 5\<rparr>))"
  by (simp add: claim_for_commit_def hm_get_Cons expired_def SETUP_SESSION_MAX_AGE_def ready_session_def sample_session_def)

lemma ready_commits:
  fixes secret t toks m
  defines "x \<equiv> ready_session\<lparr>ss_created_at := 5, ss_client_secret := secret, ss_client_secret_expires_at := t, ss_tokens := toks\<rparr>"
  shows "\<exists>s'. commit_claimed_session setup_env x (setup_with m) = (s', Inr ())"
proof -
  have x: "ss_name x = ''n''" "ss_client_id x = Some ''c''" by (simp_all add: x_def ready_session_def sample_session_def)
  have io: "io (ls_disk (su_login (setup_with m))) op = None" for op by simp
  obtain w1 where w1: "save_dcr (ser_dcr sample_codec) ''n''
      (session_client_record (le_wall (mg_login (se_manage setup_env))) ''c'' x) (ls_disk (su_login (setup_with m))) = (w1, Inr ())"
    using save_succeeds [OF io] by blast
  have none: "load_dcr de ''n'' (ls_disk (su_login (setup_with m))) = Inr None" for de :: "document \<Rightarrow> dcr_credentials option"
    by (simp add: load_dcr_def load_file_def)
  have "commit_client setup_env x (su_login (setup_with m)) = ((su_login (setup_with m))\<lparr>ls_disk := w1\<rparr>, Inr ())"
    by (simp add: commit_client_def x store_session_client_def none commit_update_def update_dcr_def w1)
  moreover have "\<exists>mn. apply_endpoint_change quiet_env (committed_endpoint x) None starting_managed = (mn, Inr ())"
    by (simp add: apply_endpoint_change_def quiet_env_def write_endpoint_to_disk_def edit_file_def edit_endpoint_table_def
        edit_endpoints_def Let_def)
  moreover have "ee_has_path quiet_env" by (simp add: quiet_env_def)
  ultimately show ?thesis by (auto simp: commit_claimed_session_def)
qed

theorem commit_hides_secrets_witness:
  "\<exists>s1 s2. commit_claimed_session setup_env (ready_session\<lparr>ss_created_at := 5\<rparr>) (setup_with []) = (s1, Inr ()) \<and>
     commit_claimed_session setup_env (ready_session\<lparr>ss_created_at := 5, ss_client_secret := None, ss_tokens := None\<rparr>) (setup_with []) = (s2, Inr ()) \<and>
     su_managed s1 = su_managed s2"
proof -
  have eqs: "ready_session\<lparr>ss_created_at := 5, ss_client_secret := Some ''s'', ss_client_secret_expires_at := 0, ss_tokens := Some sample_tokens\<rparr> =
      ready_session\<lparr>ss_created_at := 5\<rparr>"
    "ready_session\<lparr>ss_created_at := 5, ss_client_secret := None, ss_client_secret_expires_at := 0, ss_tokens := None\<rparr> =
      ready_session\<lparr>ss_created_at := 5, ss_client_secret := None, ss_tokens := None\<rparr>"
    by (simp_all add: ready_session_def sample_session_def)
  obtain s1 where s1: "commit_claimed_session setup_env (ready_session\<lparr>ss_created_at := 5\<rparr>) (setup_with []) = (s1, Inr ())"
    using ready_commits [where secret = "Some ''s''" and t = 0 and toks = "Some sample_tokens" and m = "[]"] by (simp only: eqs) blast
  obtain s2 where s2: "commit_claimed_session setup_env
      (ready_session\<lparr>ss_created_at := 5, ss_client_secret := None, ss_client_secret_expires_at := 0, ss_tokens := None\<rparr>) (setup_with []) = (s2, Inr ())"
    using ready_commits [where secret = None and t = 0 and toks = None and m = "[]"] by blast
  from commit_hides_secrets [OF s1, of None 0 None s2] s2 have "su_managed s1 = su_managed s2" by simp
  with s1 s2 show ?thesis by (simp only: eqs) blast
qed


lemma utf8_empty: "utf8 cs = [] \<longleftrightarrow> cs = []"
  by (cases cs) (auto simp: utf8_def utf8_code_def)

lemma trim_W: "trim ''W'' \<noteq> []"
  using not_blank_W by (simp add: blank_def trim_def utf8_empty)

definition two_logins :: "(document, nat) setup_state" where
  "two_logins = on_flows (\<lambda>m. m\<lparr>pending := [(''old'', sample_flow)]\<rparr>) (setup_with [(7, ready_session)])"

theorem late_callback_mixes_clients_witness:
  "\<exists>s' resp fm' m1 m2 x'. oauth_setup_credentials setup_env ''7'' ''W'' None two_logins = (s', resp) \<and> ar_status resp = 200 \<and>
     ls_flows (su_login s') = Some fm' \<and> hm_get (pending fm') ''old'' = Some sample_flow \<and> pf_client_id sample_flow = ''c'' \<and>
     ls_setups (fst (commit_setup (mg_login (se_manage setup_env)) ''7'' sample_tokens (su_login s'))) = Some m1 \<and>
     claim_for_commit 9 7 m1 = (m2, Claimed x') \<and> ss_client_id x' = Some ''W''"
proof -
  let ?r = "oauth_setup_credentials setup_env ''7'' ''W'' None two_logins"
  have parts: "ls_flows (su_login two_logins) = Some (new_flow_manager\<lparr>pending := [(''old'', sample_flow)]\<rparr>)"
    "ls_setups (su_login two_logins) = Some [(7, ready_session)]"
    "hm_get [(7, ready_session)] (7 :: nat) = Some ready_session"
    "hm_get (pending (new_flow_manager\<lparr>pending := [(''old'', sample_flow)]\<rparr>)) ''old'' = Some sample_flow"
    by (simp_all add: two_logins_def hm_get_Cons)
  have fresh: "\<not> expired 9 ready_session" "\<not> expired 5 ready_session" "ss_status ready_session = Authorized"
    by (simp_all add: expired_def SETUP_SESSION_MAX_AGE_def ready_session_def sample_session_def)
  have ends: "ss_authorization_endpoint (note_manual c k ready_session) = Some ''a''"
    "ss_token_endpoint (note_manual c k ready_session) = Some ''t''" for c k
    by (simp_all add: note_manual_def ready_session_def)
  have ok: "ar_status (snd ?r) = 200"
    by (simp add: oauth_setup_credentials_def parts trim_W get_session_mut_def fresh ends Let_def)
  have run: "oauth_setup_credentials setup_env ''7'' ''W'' None two_logins = (fst ?r, snd ?r)" by simp
  have ids: "le_uuid (mg_login (se_manage setup_env)) ''7'' = Some 7"
    "le_uuid (mg_login (se_manage setup_env)) (se_show_uuid setup_env 7) = Some 7" "''old'' \<noteq> mg_state (se_manage setup_env)" by simp_all
  have client: "pf_client_id sample_flow = ''c''" by (simp add: sample_flow_def make_flow_def demo_request_def)
  from late_callback_mixes_clients [OF run ok ids(1,2) parts(1,4) ids(3) parts(2,3) fresh(1), of sample_tokens] ok client run
  show ?thesis by (simp del: prod.collapse) metis
qed

definition stored_W :: "(document, nat) setup_state" where
  "stored_W = on_login (\<lambda>l. l\<lparr>ls_disk := empty_dir\<lparr>files :=
     [(''W.dcr.json'', \<lparr>content = Client_doc (manual_client 7 ''c'' (Some ''s'')), mode = 384\<rparr>)]\<rparr>\<rparr>) (setup_with [])"

theorem refused_commit_replaces_tokens_witness:
  "\<exists>s' resp. commit_claimed_session (setup_env\<lparr>se_edit := used_env\<rparr>) (ready_session\<lparr>ss_name := ''W''\<rparr>) stored_W = (s', Inl resp) \<and>
     ar_status resp = 409 \<and> load_tokens tokens_of ''W'' (ls_disk (su_login s')) = Inr (Some sample_tokens)"
proof -
  have env: "ee_has_path used_env" "ee_read_error used_env = None" "ee_parse used_env f = Inr used_document"
    "hm_get used_document ''endpoints'' = Some (TArr [old_entry])" for f
    by (simp_all add: used_env_def quiet_env_def used_document_def hm_get_Cons)
  have session: "ss_name (ready_session\<lparr>ss_name := ''W''\<rparr>) = ''W''" "ss_client_id (ready_session\<lparr>ss_name := ''W''\<rparr>) = Some ''c''"
    "ss_tokens (ready_session\<lparr>ss_name := ''W''\<rparr>) = Some sample_tokens" "ss_client_secret (ready_session\<lparr>ss_name := ''W''\<rparr>) = Some ''s''"
    by (simp_all add: ready_session_def)
  have taken: "list_ex (\<lambda>v. table_name v = Some ''W'') [old_entry]" by (simp add: old_entry_def hm_get_Cons)
  have codec: "le_codec (mg_login (se_manage (setup_env\<lparr>se_edit := used_env\<rparr>))) = sample_codec" by (simp add: setup_env_def)
      (simp add: sample_login_def)
  have stored: "load_dcr (de_dcr sample_codec) ''W'' (ls_disk (su_login stored_W)) = Inr (Some (manual_client 7 ''c'' (Some ''s'')))"
    by (simp add: stored_W_def load_dcr_def load_file_def dcr_file_def empty_dir_def hm_get_Cons sample_codec_def)
  have tm: "ls_has_tm (su_login stored_W)" "\<forall>op. io (ls_disk (su_login stored_W)) op = None"
    by (simp_all add: stored_W_def setup_with_def idle_state_def sample_state_def empty_dir_def)
  have "de_tokens sample_codec = tokens_of" "\<forall>k. tokens_of (ser_tokens sample_codec k) = Some k" by (simp_all add: sample_codec_def)
  with refused_commit_replaces_tokens [where env = "setup_env\<lparr>se_edit := used_env\<rparr>" and x = "ready_session\<lparr>ss_name := ''W''\<rparr>"
      and s = stored_W and t = used_document and arr = "[old_entry]" and cid = "''c''" and toks = sample_tokens
      and c = "manual_client 7 ''c'' (Some ''s'')"] env session taken codec stored tm
  show ?thesis by (simp add: manual_client_def) blast
qed

end
