(* ===== verification/Management_Views.thy ===== *)
theory Management_Views
  imports Management_Safety Addresses
begin

text \<open>
  The views of the management API (\<^verbatim>\<open>src/management.rs\<close>): status, endpoint list, tools, catalog, profile
  detail, configuration and network interfaces; and what they promise. The runtime probe, the clock, the
  process statistics and the operating system's interface list are arguments. A listing fills the tool
  caches, so views return the registry with their answer.
\<close>

section \<open>Status and endpoints\<close>

definition is_healthy :: "registered_adapter \<Rightarrow> bool" where
  "is_healthy e = (av_health (ra_adapter e) = Healthy)"

definition get_status :: "nat \<Rightarrow> bool option \<Rightarrow> 'v registry \<Rightarrow> json" where
  "get_status uptime_seconds runtime r =
     JObj [(''status'', JStr ''ok''), (''uptime_seconds'', json_int (int uptime_seconds)),
       (''endpoint_count'', json_int (int (length (r_adapters r)))),
       (''healthy_count'', json_int (int (length (filter is_healthy (map snd (r_adapters r)))))),
       (''container_runtime_available'', (case runtime of None \<Rightarrow> JNull | Some b \<Rightarrow> JBool b))]"

definition categorize_error :: "string \<Rightarrow> string" where
  "categorize_error reason =
     (let has = contains_str reason in
      if has ''serverInfo.name'' \<or> has ''ServerNameError'' then ''ServerName''
      else if has ''transport'' \<or> has ''connection'' \<or> has ''Connection'' then ''Transport''
      else if has ''timeout'' \<or> has ''Timeout'' then ''Timeout''
      else if has ''protocol'' \<or> has ''Protocol'' then ''Protocol''
      else ''Unknown'')"

datatype lifecycle =
    Initializing
  | Ready "string option" "string option"
  | Failed string string
  | LifecycleStopped

fun lifecycle_json :: "lifecycle \<Rightarrow> json" where
  "lifecycle_json Initializing = JObj [(''state'', JStr ''Initializing'')]"
| "lifecycle_json (Ready server_name raw) = JObj ([(''state'', JStr ''Ready'')] @
     opt_key ''server_name'' JStr server_name @ opt_key ''server_name_raw'' JStr raw)"
| "lifecycle_json (Failed kind detail) = JObj [(''state'', JStr ''Failed''),
     (''error'', JObj [(''kind'', JStr kind), (''detail'', JStr detail)])]"
| "lifecycle_json LifecycleStopped = JObj [(''state'', JStr ''Stopped'')]"

text \<open>What the process knows of an endpoint beyond the registry: seconds since its last activity, container
  statistics, isolation state.\<close>

record endpoint_extras =
  ex_last_activity :: "nat option"
  ex_container_stats :: "json option"
  ex_isolation_state :: "json option"

record endpoint_info =
  ei_name :: string
  ei_transport :: string
  ei_health :: string
  ei_tool_count :: nat
  ei_disabled :: bool
  ei_error :: "string option"
  ei_tool_prefix :: "string option"
  ei_lifecycle :: lifecycle
  ei_extras :: endpoint_extras
  ei_auth :: "endpoint_auth option"

definition endpoint_health :: "registered_adapter \<Rightarrow> nat \<Rightarrow> string \<times> nat \<times> string option \<times> lifecycle" where
  "endpoint_health e listed =
     (if ra_disabled e then (''stopped'', 0, None, LifecycleStopped)
      else case av_health (ra_adapter e) of
        Healthy \<Rightarrow> (''healthy'', listed, None, Ready (av_server_type (ra_adapter e)) (av_upstream_name (ra_adapter e)))
      | Unhealthy reason \<Rightarrow> (''offline'', 0, Some reason, Failed (categorize_error reason) reason)
      | Starting \<Rightarrow> (''starting'', 0, None, Initializing)
      | Stopped \<Rightarrow> (''stopped'', 0, None, LifecycleStopped))"

definition ema_summary :: "config \<Rightarrow> string \<Rightarrow> endpoint_auth option" where
  "ema_summary cfg nm =
     map_of (rev (List.map_filter (\<lambda>ep. case ec_auth ep of
         Some a \<Rightarrow> if ea_type a = ''ema'' then Some (ec_name ep, a\<lparr>ea_idp := None\<rparr>) else None | None \<Rightarrow> None) (cf_endpoints cfg))) nm"

fun list_endpoints ::
  "nat \<Rightarrow> config \<Rightarrow> (string \<Rightarrow> endpoint_extras) \<Rightarrow> adapters \<Rightarrow> adapters \<times> endpoint_info list" where
  "list_endpoints now cfg extras [] = ([], [])"
| "list_endpoints now cfg extras ((nm, e) # es) =
     (let ask = \<not> ra_disabled e \<and> is_healthy e;
          (e', listed) = (if ask then cached_list_tools now e else (e, Inr []));
          (health, tool_count, err, lc) = endpoint_health e (case listed of Inr tools \<Rightarrow> length tools | Inl _ \<Rightarrow> 0);
          (es', infos) = list_endpoints now cfg extras es
      in ((nm, e') # es', \<lparr>ei_name = nm, ei_transport = ra_transport e, ei_health = health, ei_tool_count = tool_count,
            ei_disabled = ra_disabled e, ei_error = err, ei_tool_prefix = ra_tool_prefix e, ei_lifecycle = lc,
            ei_extras = extras nm, ei_auth = ema_summary cfg nm\<rparr> # infos))"

definition get_endpoints ::
  "nat \<Rightarrow> config \<Rightarrow> (string \<Rightarrow> endpoint_extras) \<Rightarrow> 'v registry \<Rightarrow> 'v registry \<times> endpoint_info list" where
  "get_endpoints now cfg extras r =
     (let (es, infos) = list_endpoints now cfg extras (r_adapters r) in (r\<lparr>r_adapters := es\<rparr>, sort_key ei_name infos))"

definition ema_summary_json :: "endpoint_auth \<Rightarrow> json" where
  "ema_summary_json a = JObj ([(''type'', JStr (ea_type a))] @ opt_key ''organization'' JStr (ea_organization a) @
     opt_key ''resource'' JStr (ea_resource a))"

definition endpoint_info_json :: "endpoint_info \<Rightarrow> json" where
  "endpoint_info_json i = JObj
     ([(''name'', JStr (ei_name i)), (''transport'', JStr (ei_transport i)), (''health'', JStr (ei_health i)),
       (''tool_count'', json_int (int (ei_tool_count i))),
       (''last_activity'', (case ex_last_activity (ei_extras i) of None \<Rightarrow> JNull | Some n \<Rightarrow> json_int (int n))),
       (''disabled'', JBool (ei_disabled i))] @
      opt_key ''error'' JStr (ei_error i) @ opt_key ''tool_prefix'' JStr (ei_tool_prefix i) @
      [(''lifecycle'', lifecycle_json (ei_lifecycle i))] @
      opt_key ''container_stats'' id (ex_container_stats (ei_extras i)) @
      opt_key ''isolation_state'' id (ex_isolation_state (ei_extras i)) @ opt_key ''auth'' ema_summary_json (ei_auth i))"

definition get_endpoint_logs :: "(string \<Rightarrow> string list) \<Rightarrow> (string \<Rightarrow> string list) \<Rightarrow> string \<Rightarrow> 'v registry \<Rightarrow> api_response" where
  "get_endpoint_logs stderr_lines activity_log nm r =
     (if hm_get (r_adapters r) nm = None then endpoint_not_found nm
      else ok_response (JObj [(''lines'', JArr (map JStr (stderr_lines nm @ activity_log nm)))]))"

section \<open>Tools and catalog\<close>

definition opt_json :: "('a \<Rightarrow> json) \<Rightarrow> 'a option \<Rightarrow> json" where
  "opt_json f x = (case x of None \<Rightarrow> JNull | Some v \<Rightarrow> f v)"

definition tool_status_json :: "string list \<Rightarrow> tool_info \<Rightarrow> json" where
  "tool_status_json disabled t = JObj ([(''name'', JStr (ti_name t)), (''description'', opt_json JStr (ti_description t)),
     (''inputSchema'', ti_input_schema t), (''disabled'', JBool (ti_name t \<in> set disabled))] @
     opt_key ''annotations'' id (ti_annotations t))"

definition get_endpoint_tools :: "nat \<Rightarrow> string \<Rightarrow> 'v registry \<Rightarrow> 'v registry \<times> api_response" where
  "get_endpoint_tools now nm r =
     (case hm_get (r_adapters r) nm of
        None \<Rightarrow> (r, endpoint_not_found nm)
      | Some e \<Rightarrow>
         (case cached_list_tools now e of
            (e', Inr tools) \<Rightarrow> (put_entry nm e' r,
              ok_response (JArr (map (tool_status_json (ra_disabled_tools e)) (sort_key ti_name tools))))
          | (e', Inl err) \<Rightarrow> (put_entry nm e' r,
              error_response 500 ''failed to list tools'' (Some (display_error err)))))"

record catalog_entry =
  ce_tool :: tool_info
  ce_endpoint :: string
  ce_available :: bool

definition view_row :: "adapters \<Rightarrow> tool_lookup \<Rightarrow> tool_info \<Rightarrow> catalog_entry" where
  "view_row es lookup t =
     (case hm_get lookup (ti_name t) of
        Some (ep, raw) \<Rightarrow> \<lparr>ce_tool = t, ce_endpoint = ep, ce_available =
          (case hm_get es ep of Some e \<Rightarrow> \<not> ra_disabled e \<and> is_healthy e | None \<Rightarrow> False)\<rparr>
      | None \<Rightarrow> \<lparr>ce_tool = t, ce_endpoint = ''unknown'', ce_available = False\<rparr>)"

definition get_catalog :: "percent_encoder \<Rightarrow> nat \<Rightarrow> 'v registry \<Rightarrow> 'v registry \<times> catalog_entry list" where
  "get_catalog enc now r =
     (let (r', tools, lookup) = merged_catalog_with_lookup enc now r
      in (r', sort_key (\<lambda>c. ti_name (ce_tool c)) (map (view_row (r_adapters r') lookup) tools)))"

definition catalog_entry_json :: "catalog_entry \<Rightarrow> json" where
  "catalog_entry_json c = JObj ([(''name'', JStr (ti_name (ce_tool c))),
     (''description'', opt_json JStr (ti_description (ce_tool c))), (''inputSchema'', ti_input_schema (ce_tool c))] @
     opt_key ''annotations'' id (ti_annotations (ce_tool c)) @
     [(''endpoint'', JStr (ce_endpoint c)), (''available'', JBool (ce_available c))])"

text \<open>The detail of a profile: the rows in the order of the profile's catalog.\<close>

definition profile_rows :: "edit_env \<Rightarrow> profile_config \<Rightarrow> 'v managed \<Rightarrow> 'v managed \<times> catalog_entry list" where
  "profile_rows env p s =
     (let rl = mn_relay s; st = rl_reload rl in
      case get_profile (pc_path p) (rl_profiles rl) of
        None \<Rightarrow> (s, [])
      | Some ctx \<Rightarrow>
         (let (r', tools, lookup) = view_merged_catalog_with_lookup (ee_encode env) (ee_now env) (px_allowed ctx) (rs_registry st)
          in (s\<lparr>mn_relay := rl\<lparr>rl_reload := st\<lparr>rs_registry := r'\<rparr>\<rparr>\<rparr>, map (view_row (r_adapters r') lookup) tools)))"

definition get_profile_route :: "edit_env \<Rightarrow> string \<Rightarrow> 'v managed \<Rightarrow> 'v managed \<times> api_response" where
  "get_profile_route env path s =
     (case List.find (at_path (to_ascii_lowercase path)) (unwrap_or [] (cf_profiles (rl_config (mn_relay s)))) of
        None \<Rightarrow> (s, profile_missing path)
      | Some p \<Rightarrow>
         (let (s1, n) = profile_tool_count env (pc_path p) s; (s2, rows) = profile_rows env p s1
          in (s2, ok_response (JObj (profile_summary_fields p n @ [(''tools'', JArr (map catalog_entry_json rows))])))))"

section \<open>Configuration and network\<close>

record sanitized_endpoint =
  se_name :: string
  se_transport :: string
  se_command :: "string option"
  se_args :: "string list option"
  se_url :: "string option"
  se_env :: "(string, string) hashmap option"

record sanitized_config =
  sn_machine_name :: string
  sn_local_js_execution :: "bool option"
  sn_observability :: observability_config
  sn_listen_ips :: "string list option"
  sn_endpoints :: "sanitized_endpoint list"

definition sanitize_endpoint :: "endpoint_config \<Rightarrow> sanitized_endpoint" where
  "sanitize_endpoint ep =
     \<lparr>se_name = ec_name ep, se_transport = show_transport (ec_transport ep), se_command = ec_command ep,
      se_args = ec_args ep, se_url = ec_url ep, se_env = map_option (map (\<lambda>(k, v). (k, ''***''))) (ec_env ep)\<rparr>"

definition sanitize_config :: "config \<Rightarrow> sanitized_config" where
  "sanitize_config c =
     \<lparr>sn_machine_name = rc_machine_name (cf_relay c), sn_local_js_execution = rc_local_js_execution (cf_relay c),
      sn_observability = rc_observability (cf_relay c), sn_listen_ips = rc_listen_ips (cf_relay c),
      sn_endpoints = map sanitize_endpoint (cf_endpoints c)\<rparr>"

record network_interface =
  ni_name :: string
  ni_ip :: string
  ni_family :: string
  ni_kind :: string

definition interface_info :: "(ip \<Rightarrow> string) \<Rightarrow> string \<times> ip \<Rightarrow> network_interface option" where
  "interface_info show_ip p =
     map_option (\<lambda>kind. \<lparr>ni_name = fst p, ni_ip = show_ip (snd p),
       ni_family = (case snd p of V4 _ \<Rightarrow> ''v4'' | V6 _ \<Rightarrow> ''v6''), ni_kind = kind\<rparr>) (eligible_ip_kind (snd p))"

fun collect_interfaces :: "(ip \<Rightarrow> string) \<Rightarrow> (string \<times> ip) list \<Rightarrow> network_interface list \<Rightarrow> network_interface list" where
  "collect_interfaces show_ip [] out = out"
| "collect_interfaces show_ip (c # cs) out =
     (case interface_info show_ip c of
        None \<Rightarrow> collect_interfaces show_ip cs out
      | Some info \<Rightarrow> collect_interfaces show_ip cs (if info \<in> set out then out else out @ [info]))"

definition filter_network_interfaces :: "(ip \<Rightarrow> string) \<Rightarrow> (string \<times> ip) list \<Rightarrow> network_interface list" where
  "filter_network_interfaces show_ip candidates = collect_interfaces show_ip candidates []"

definition network_interfaces_response ::
  "(ip \<Rightarrow> string) \<Rightarrow> string + (string \<times> ip) list \<Rightarrow> string list \<Rightarrow> network_interface list \<times> string list \<times> string option" where
  "network_interfaces_response show_ip candidates listen_ips =
     (case candidates of
        Inr cs \<Rightarrow> (filter_network_interfaces show_ip cs, listen_ips, None)
      | Inl e \<Rightarrow> ([], listen_ips, Some e))"

definition get_network_interfaces ::
  "(string \<Rightarrow> ip option) \<Rightarrow> (ip \<Rightarrow> string) \<Rightarrow> string + (string \<times> ip) list \<Rightarrow> config \<Rightarrow>
   network_interface list \<times> string list \<times> string option" where
  "get_network_interfaces parse show_ip enumerated cfg =
     network_interfaces_response show_ip
       (map_sum (\<lambda>e. ''failed to enumerate network interfaces: '' @ e) id enumerated)
       (canonical_listen_ips parse show_ip (rc_listen_ips (cf_relay cfg)))"

section \<open>What the views promise\<close>

text \<open>Everything of a configuration that may be a secret, replaced: the values of environment variables, the
  headers and the client secrets.\<close>

definition replace_secrets ::
  "(string \<Rightarrow> string \<Rightarrow> string) \<Rightarrow> (string, string) hashmap option \<Rightarrow> string option \<Rightarrow> config \<Rightarrow> config" where
  "replace_secrets f headers secret c =
     c\<lparr>cf_endpoints := map (\<lambda>ep. ep\<lparr>ec_env := map_option (map (\<lambda>(k, v). (k, f k v))) (ec_env ep), ec_headers := headers,
       ec_client_secret := secret\<rparr>) (cf_endpoints c)\<rparr>"

text \<open>The configuration view shows nothing that depends on the value of an environment variable, a header or
  a client secret of any endpoint.\<close>

theorem config_view_hides_values: "sanitize_config (replace_secrets f headers secret c) = sanitize_config c"
  by (simp add: sanitize_config_def replace_secrets_def sanitize_endpoint_def map_option.compositionality comp_def split_def)

lemma collect_interfaces_set:
  "set (collect_interfaces show_ip cs out) = set out \<union> set (List.map_filter (interface_info show_ip) cs)"
  by (induction cs arbitrary: out) (auto simp: map_filter_simps split: option.splits)

lemma collect_interfaces_distinct: "distinct out \<Longrightarrow> distinct (collect_interfaces show_ip cs out)"
  by (induction cs arbitrary: out) (auto split: option.splits)

text \<open>The interface view offers exactly the addresses the listener would accept, none twice.\<close>

theorem interfaces_are_bindable:
  "distinct (filter_network_interfaces show_ip cs) \<and>
   set (filter_network_interfaces show_ip cs) =
     {i. \<exists>(nm, a) \<in> set cs. classify_listen_ip a = Eligible \<and> interface_info show_ip (nm, a) = Some i}"
proof -
  have offered: "interface_info show_ip p = Some i \<Longrightarrow> classify_listen_ip (snd p) = Eligible" for p i
    using eligible_kind_iff [of "snd p"] by (auto simp: interface_info_def)
  have "set (List.map_filter (interface_info show_ip) cs) = {i. \<exists>p \<in> set cs. interface_info show_ip p = Some i}"
    by (induction cs) (auto simp: map_filter_simps split: option.splits)
  also have "\<dots> = {i. \<exists>(nm, a) \<in> set cs. classify_listen_ip a = Eligible \<and> interface_info show_ip (nm, a) = Some i}"
    using offered by fastforce
  finally show ?thesis
    by (simp add: filter_network_interfaces_def collect_interfaces_set collect_interfaces_distinct)
qed

text \<open>The rows of the endpoint list: one for each registered endpoint, in the order of the names, and a listing
  changes nothing but the tool caches.\<close>

lemma list_endpoints_names:
  "map ei_name (snd (list_endpoints now cfg extras es)) = map fst es"
  "map fst (fst (list_endpoints now cfg extras es)) = map fst es"
  by (induction es) (auto simp: Let_def case_prod_beta)

lemma cached_list_keeps: "ra_disabled (fst (cached_list_tools now e)) = ra_disabled e"
  "ra_adapter (fst (cached_list_tools now e)) = ra_adapter e"
  by (simp_all add: cached_list_tools_def store_if_epoch_unchanged_def Let_def split: option.splits sum.splits)

lemma get_endpoints_rows:
  "mset (map ei_name (snd (get_endpoints now cfg extras r))) = mset (map fst (r_adapters r)) \<and>
   sorted (map ei_name (snd (get_endpoints now cfg extras r)))"
proof -
  have "mset (map ei_name (sort_key ei_name xs)) = mset (map ei_name xs)" for xs :: "endpoint_info list"
    by (simp add: mset_map)
  then show ?thesis
    using list_endpoints_names(1) [of now cfg extras "r_adapters r"]
    by (simp add: get_endpoints_def case_prod_beta) (metis mset_map)
qed

text \<open>The catalog view lists exactly the merged catalog, by name, and calls a tool available exactly when the
  endpoint its name leads to is enabled and healthy.\<close>

lemma catalog_rows:
  assumes "merged_catalog_with_lookup enc now r = (r', tools, lookup)" "get_catalog enc now r = (r'', rows)"
  shows "r'' = r'" "mset (map ce_tool rows) = mset tools" "sorted (map (\<lambda>c. ti_name (ce_tool c)) rows)"
    "c \<in> set rows \<Longrightarrow> ce_available c \<longleftrightarrow> (\<exists>raw e. hm_get lookup (ti_name (ce_tool c)) = Some (ce_endpoint c, raw) \<and>
       hm_get (r_adapters r') (ce_endpoint c) = Some e \<and> \<not> ra_disabled e \<and> is_healthy e)"
proof -
  have rows: "r'' = r'" "rows = sort_key (\<lambda>c. ti_name (ce_tool c)) (map (view_row (r_adapters r') lookup) tools)"
    using assms by (auto simp: get_catalog_def)
  have tool: "ce_tool (view_row es lk t) = t" for es lk t
    by (simp add: view_row_def split: option.splits prod.splits)
  show "r'' = r'" by (fact rows(1))
  have "image_mset (ce_tool \<circ> view_row (r_adapters r') lookup) (mset tools) = mset tools" by (simp add: comp_def tool)
  then show "mset (map ce_tool rows) = mset tools" by (simp add: rows(2) multiset.map_comp)
  show "sorted (map (\<lambda>c. ti_name (ce_tool c)) rows)" by (simp add: rows(2))
  show "c \<in> set rows \<Longrightarrow> ce_available c \<longleftrightarrow> (\<exists>raw e. hm_get lookup (ti_name (ce_tool c)) = Some (ce_endpoint c, raw) \<and>
       hm_get (r_adapters r') (ce_endpoint c) = Some e \<and> \<not> ra_disabled e \<and> is_healthy e)"
    by (auto simp: rows(2) view_row_def split: option.splits prod.splits)
qed

end
