(* ===== verification/Organizations.thy ===== *)
theory Organizations
  imports Setup_Flow
begin

text \<open>
  Organizations and their identity providers (\<^verbatim>\<open>src/oauth/idp_providers.rs\<close> and the organization routes of
  \<^verbatim>\<open>src/management.rs\<close>). A handler that validates an issuer waits for the network; \<open>waiting\<close> is what other
  tasks do meanwhile.
\<close>

section \<open>Provider templates\<close>

record idp_provider =
  ip_id :: string
  ip_name :: string
  ip_issuer_pattern :: "string option"
  ip_slug_hint :: "string option"

function replace_str :: "string \<Rightarrow> string \<Rightarrow> string \<Rightarrow> string" where
  "replace_str pat r s =
     (if pat = [] then s
      else case split_at_first pat s of None \<Rightarrow> s | Some (a, b) \<Rightarrow> a @ r @ replace_str pat r b)"
  by pat_completeness auto
termination
  by (relation "measure (\<lambda>(pat, r, s). length s)") (auto dest!: split_at_first_Some)

declare replace_str.simps [simp del]

definition SLUG :: string where "SLUG = ''{slug}''"

definition bad_slug :: "string \<Rightarrow> bool" where
  "bad_slug s = (list_ex (\<lambda>c. c \<in> set [CHR 0x2F, CHR 0x3A, CHR 0x3F, CHR 0x23, CHR 0x40, CHR 0x5C, CHR 0x20]) s \<or> contains_str s ''..'')"

definition build_issuer :: "idp_provider \<Rightarrow> string option \<Rightarrow> string + string" where
  "build_issuer p slug =
     (case ip_issuer_pattern p of
        None \<Rightarrow> Inl (''provider '' @ quoted (ip_id p) @ '' has no issuer template; supply a custom issuer URL'')
      | Some pattern \<Rightarrow>
         (if \<not> contains_str pattern SLUG then Inr pattern
          else case trimmed_field slug of
            None \<Rightarrow> Inl (''provider '' @ quoted (ip_id p) @ '' requires a '' @ quoted ''slug'')
          | Some s \<Rightarrow>
             (if bad_slug s then Inl (''invalid slug '' @ quoted s @ '' for provider '' @ quoted (ip_id p))
              else Inr (replace_str SLUG s pattern))))"

definition IDP_PROVIDERS :: "idp_provider list" where
  "IDP_PROVIDERS =
     [\<lparr>ip_id = ''okta'', ip_name = ''Okta'', ip_issuer_pattern = Some ''https://{slug}.okta.com'',
        ip_slug_hint = Some (''Your Okta org subdomain (e.g. '' @ dq ''acme'' @ '' for https://acme.okta.com)'')\<rparr>,
      \<lparr>ip_id = ''entra'', ip_name = ''Microsoft Entra ID'',
        ip_issuer_pattern = Some ''https://login.microsoftonline.com/{slug}/v2.0'',
        ip_slug_hint = Some (''Your Entra tenant ID or domain (e.g. '' @ dq ''contoso.onmicrosoft.com'' @ '')'')\<rparr>,
      \<lparr>ip_id = ''google'', ip_name = ''Google'', ip_issuer_pattern = Some ''https://accounts.google.com'', ip_slug_hint = None\<rparr>,
      \<lparr>ip_id = ''ping'', ip_name = ''PingOne'', ip_issuer_pattern = Some ''https://auth.pingone.com/{slug}/as'',
        ip_slug_hint = Some ''Your PingOne environment ID''\<rparr>,
      \<lparr>ip_id = ''custom'', ip_name = ''Custom'', ip_issuer_pattern = None, ip_slug_hint = None\<rparr>]"

definition find_provider :: "string \<Rightarrow> idp_provider option" where
  "find_provider i = List.find (\<lambda>p. ip_id p = i) IDP_PROVIDERS"

section \<open>Requests\<close>

record create_organization_request =
  cq_name :: string
  cq_provider :: string
  cq_slug :: "string option"
  cq_idp :: "string option"
  cq_client_id :: "string option"
  cq_client_secret :: "string option"

record update_organization_request =
  uq_name :: "string option"
  uq_provider :: "string option"
  uq_slug :: "string option"
  uq_idp :: "string option"
  uq_client_id :: "string option"
  uq_client_secret :: "string option"

record 'c org_env =
  oe_setup :: "'c setup_env"
  oe_de_idp :: "'c \<Rightarrow> idp_credentials option"

abbreviation oe_manage :: "'c org_env \<Rightarrow> 'c manage_env" where "oe_manage env \<equiv> se_manage (oe_setup env)"
abbreviation oe_login :: "'c org_env \<Rightarrow> 'c login_env" where "oe_login env \<equiv> mg_login (oe_manage env)"

definition org_config :: "('c, 'v) setup_state \<Rightarrow> config" where
  "org_config s = rl_config (mn_relay (su_managed s))"

definition insecure_allowed :: "('c, 'v) setup_state \<Rightarrow> bool" where
  "insecure_allowed s = unwrap_or False (rc_allow_insecure_oauth (cf_relay (org_config s)))"

definition org_not_found :: "string \<Rightarrow> api_response" where
  "org_not_found org = error_response 404 ''organization not found'' (Some (''No organization named '' @ quoted org @ ''.''))"

definition org_exists :: "string \<Rightarrow> api_response" where
  "org_exists nm = error_response 409 ''organization_exists''
     (Some (''An organization named '' @ quoted nm @ '' already exists. Use a different name.''))"

definition NO_PATH :: api_response where
  "NO_PATH = error_response 500 ''config_path not configured'' None"

definition MISSING_IDP :: api_response where
  "MISSING_IDP = error_response 400 ''missing_idp'' (Some (''provider '' @ quoted ''custom'' @ '' requires a full '' @ quoted ''idp'' @ '' issuer URL.''))"

definition template_issuer :: "string \<Rightarrow> string option \<Rightarrow> api_response + string" where
  "template_issuer provider slug =
     (case find_provider provider of
        None \<Rightarrow> Inl (error_response 400 ''unknown_provider'' (Some (''Unknown provider '' @ quoted provider @
          ''. Use GET /api/idp-providers to list templates.'')))
      | Some p \<Rightarrow> (case build_issuer p slug of
          Inl e \<Rightarrow> Inl (error_response 400 ''invalid_slug'' (Some e)) | Inr iss \<Rightarrow> Inr iss))"

definition validate_org_issuer :: "'c org_env \<Rightarrow> string \<Rightarrow> bool \<Rightarrow> api_response + discovery_result" where
  "validate_org_issuer env iss allow_insecure =
     (case discover_authorization_server (mg_net (oe_manage env)) iss allow_insecure of
        Inr d \<Rightarrow> Inr d
      | Inl e \<Rightarrow> Inl (error_response 400 ''invalid_issuer''
          (Some (''Could not validate IdP issuer '' @ quoted iss @ '': '' @ show_disc (oe_manage env) e))))"

definition resolve_org_client ::
  "'c org_env \<Rightarrow> string option \<Rightarrow> discovery_result \<Rightarrow> string \<Rightarrow> bool \<Rightarrow> api_response + (string \<times> client_path)" where
  "resolve_org_client env org_client_id d org_name allow_insecure =
     (let mg = oe_manage env;
          inputs = \<lparr>ci_explicit_manual = map_option (\<lambda>i. (i, None)) (trimmed_field org_client_id), ci_preregistered = None,
            ci_cimd_supported = dr_client_id_metadata_document_supported d,
            ci_registration_endpoint = dr_registration_endpoint d\<rparr>
      in case resolve_inputs inputs (\<lambda>reg. register_client (mg_net mg) reg (redirect_uri_of mg) org_name allow_insecure) of
           Inr r \<Rightarrow> Inr (rv_client_id r, rv_registration r)
         | Inl NoCredentials \<Rightarrow> Inl (error_response 422 ''client_id_required''
             (Some (''This IdP advertises neither CIMD nor Dynamic Client Registration; provide a pre-registered '' @
                quoted ''client_id'' @ '' for the organization.'')))
         | Inl (DcrFailed e) \<Rightarrow> Inl (error_response 502 ''dcr_failed''
             (Some (''Dynamic Client Registration failed: '' @ show_dcr_error (mg_show_http mg) (mg_show_ip mg) e))))"

text \<open>Both network steps of a handler.\<close>

definition resolve_org ::
  "'c org_env \<Rightarrow> string \<Rightarrow> string option \<Rightarrow> string \<Rightarrow> bool \<Rightarrow> api_response + (discovery_result \<times> string \<times> client_path)" where
  "resolve_org env iss org_client_id org_name allow_insecure =
     (case validate_org_issuer env iss allow_insecure of
        Inl resp \<Rightarrow> Inl resp
      | Inr d \<Rightarrow> (case resolve_org_client env org_client_id d org_name allow_insecure of
          Inl resp \<Rightarrow> Inl resp | Inr (cid, path) \<Rightarrow> Inr (d, cid, path)))"

definition persisted_client_id :: "string \<Rightarrow> client_path \<Rightarrow> string option" where
  "persisted_client_id cid path = (if path = Cimd then None else Some cid)"

section \<open>The sign-on\<close>

definition org_flow_request :: "'c org_env \<Rightarrow> string \<Rightarrow> string \<Rightarrow> discovery_result \<Rightarrow> string \<Rightarrow> string option \<Rightarrow> flow_request" where
  "org_flow_request env org_name iss d cid secret =
     \<lparr>fq_endpoint_name = org_name, fq_token_endpoint = dr_token_endpoint d, fq_client_id = cid, fq_client_secret = secret,
      fq_pkce = mg_pkce (oe_manage env), fq_redirect_uri = redirect_uri_of (oe_manage env), fq_issuer = Some iss,
      fq_iss_parameter_supported = False\<rparr>"

definition org_authorize_url :: "'c org_env \<Rightarrow> discovery_result \<Rightarrow> string \<Rightarrow> string" where
  "org_authorize_url env d cid =
     (let mg = oe_manage env; enc = mg_urlencode mg; ae = dr_authorization_endpoint d in
      ae @ (if CHR 0x3F \<in> set ae then [CHR 0x26] else [CHR 0x3F]) @ ''response_type=code&client_id='' @ enc cid @
      ''&redirect_uri='' @ enc (redirect_uri_of mg) @ ''&state='' @ enc (mg_state mg) @
      ''&code_challenge='' @ enc (pk_challenge (mg_pkce mg)) @ ''&code_challenge_method=S256&scope='' @
      enc ''openid offline_access'' @ (if is_google_authorization_endpoint mg ae then ''&access_type=offline'' else []))"

definition compose_org_sso ::
  "'c org_env \<Rightarrow> string \<Rightarrow> string \<Rightarrow> discovery_result \<Rightarrow> string \<Rightarrow> string option \<Rightarrow> ('c, 'v) setup_state \<Rightarrow>
   ('c, 'v) setup_state \<times> string" where
  "compose_org_sso env org_name iss d cid secret s =
     (on_flows (\<lambda>m. fst (start_idp_flow (mg_state (oe_manage env)) (se_clock (oe_setup env) 1)
        (org_flow_request env org_name iss d cid secret) iss org_name m)) s, org_authorize_url env d cid)"

definition sso_response :: "nat \<Rightarrow> string \<Rightarrow> string \<Rightarrow> string \<Rightarrow> string \<Rightarrow> api_response" where
  "sso_response status nm provider iss url = \<lparr>ar_status = status, ar_body = JObj [(''name'', JStr nm),
     (''provider'', JStr provider), (''idp'', JStr iss), (''authorize_url'', JStr url)]\<rparr>"

section \<open>The list in the file\<close>

definition organization_to_toml :: "organization \<Rightarrow> toml" where
  "organization_to_toml o' = TTab ([(''name'', TStr (og_name o')), (''provider'', TStr (og_provider o')),
     (''idp'', TStr (og_idp o'))] @ opt_str ''client_id'' (og_client_id o'))"

definition set_organizations :: "organization list \<Rightarrow> toml_table \<Rightarrow> toml_table" where
  "set_organizations orgs t =
     (if orgs = [] then hm_remove ''organizations'' t
      else hm_insert ''organizations'' (TArr (map organization_to_toml orgs)) t)"

text \<open>Written to the file, then published.\<close>

definition publish_organizations ::
  "'c org_env \<Rightarrow> organization list \<Rightarrow> ('c, 'v) setup_state \<Rightarrow> ('c, 'v) setup_state \<times> (api_response + unit)" where
  "publish_organizations env orgs s =
     (let mn = su_managed s in
      case edit_file (se_edit (oe_setup env)) (\<lambda>t. Inr (set_organizations orgs t)) (mn_file mn) of
        (file', Inl e) \<Rightarrow> (s\<lparr>su_managed := mn\<lparr>mn_file := file'\<rparr>\<rparr>, Inl (edit_answer e))
      | (file', Inr _) \<Rightarrow>
          (let rl = mn_relay mn; c = rl_config rl
           in (s\<lparr>su_managed := mn\<lparr>mn_file := file', mn_relay := rl\<lparr>rl_config := c\<lparr>cf_organizations := orgs\<rparr>\<rparr>\<rparr>\<rparr>, Inr ())))"

section \<open>Stored secrets\<close>

definition org_client_record :: "u64 \<Rightarrow> string \<Rightarrow> string option \<Rightarrow> string \<Rightarrow> dcr_credentials" where
  "org_client_record now_secs cid secret iss =
     \<lparr>client_id = cid, client_secret = secret, client_secret_expires_at = 0, registered_at = now_secs, issuer = Some iss,
      resource_client_id = None, resource_client_secret = None, registered_via_dcr = False\<rparr>"

definition save_org_client ::
  "'c org_env \<Rightarrow> string \<Rightarrow> dcr_credentials \<Rightarrow> ('c, 'v) setup_state \<Rightarrow> ('c, 'v) setup_state \<times> (token_error + unit)" where
  "save_org_client env nm creds s =
     (case save_dcr (ser_dcr (le_codec (oe_login env))) nm creds (ls_disk (su_login s)) of
        (w, r) \<Rightarrow> (on_login (\<lambda>l. l\<lparr>ls_disk := w\<rparr>) s, r))"

definition on_disk :: "('c world \<Rightarrow> 'c world) \<Rightarrow> ('c, 'v) setup_state \<Rightarrow> ('c, 'v) setup_state" where
  "on_disk f = on_login (\<lambda>l. l\<lparr>ls_disk := f (ls_disk l)\<rparr>)"

definition purge_idp :: "'c org_env \<Rightarrow> string \<Rightarrow> ('c, 'v) setup_state \<Rightarrow> ('c, 'v) setup_state" where
  "purge_idp env nm = on_disk (\<lambda>w. fst (delete_idp (le_key_hash (oe_login env)) nm w))"

definition purge_client :: "string \<Rightarrow> ('c, 'v) setup_state \<Rightarrow> ('c, 'v) setup_state" where
  "purge_client nm = on_disk (\<lambda>w. fst (delete_dcr nm w))"

definition org_authenticated :: "'c org_env \<Rightarrow> string \<Rightarrow> ('c, 'v) setup_state \<Rightarrow> bool" where
  "org_authenticated env nm s =
     (ls_has_tm (su_login s) \<and>
      (case load_idp (oe_de_idp env) (le_key_hash (oe_login env)) nm (ls_disk (su_login s)) of
         Inr (Some creds) \<Rightarrow> (case id_token_expires_at creds of Some e \<Rightarrow> le_wall (oe_login env) < e | None \<Rightarrow> True) \<or>
           idp_refresh_token creds \<noteq> None
       | _ \<Rightarrow> False))"

text \<open>The stored secret, if the record is of the client in use.\<close>

definition org_secret :: "'c org_env \<Rightarrow> string \<Rightarrow> string \<Rightarrow> ('c, 'v) setup_state \<Rightarrow> string option" where
  "org_secret env nm cid s =
     (if \<not> ls_has_tm (su_login s) then None
      else case read_client (oe_login env) nm (su_login s) of
        Inr (Some creds) \<Rightarrow> if client_id creds = cid then client_secret creds else None
      | _ \<Rightarrow> None)"

section \<open>Handlers\<close>

text \<open>The steps after the new list is published.\<close>

definition finish_create ::
  "'c org_env \<Rightarrow> create_organization_request \<Rightarrow> string \<Rightarrow> string \<Rightarrow> discovery_result \<Rightarrow> string \<Rightarrow> ('c, 'v) setup_state \<Rightarrow>
   ('c, 'v) setup_state \<times> api_response" where
  "finish_create env req nm iss d cid s2 =
     (let secret = trimmed_field (cq_client_secret req) in
      case (if ls_has_tm (su_login s2) \<and> secret \<noteq> None
          then save_org_client env nm (org_client_record (le_wall (oe_login env)) cid secret iss) s2
          else (s2, Inr ())) of
         (s3, Inl e) \<Rightarrow> (s3, error_response 500 ''failed to persist client secret'' (Some (se_show_error (oe_setup env) e)))
       | (s3, Inr _) \<Rightarrow>
          (let (s4, url) = compose_org_sso env nm iss d cid secret s3
           in (s4, sso_response 201 nm (cq_provider req) iss url)))"

definition create_organization ::
  "'c org_env \<Rightarrow> (('c, 'v) setup_state \<Rightarrow> ('c, 'v) setup_state) \<Rightarrow> create_organization_request \<Rightarrow> ('c, 'v) setup_state \<Rightarrow>
   ('c, 'v) setup_state \<times> api_response" where
  "create_organization env waiting req s =
     (if ls_flows (su_login s) = None then (s, OAUTH_UNCONFIGURED)
      else if \<not> ee_has_path (se_edit (oe_setup env)) then (s, NO_PATH)
      else let nm = trim (cq_name req) in
        if nm = [] then (s, error_response 400 ''invalid_name'' (Some ''Organization name must not be empty.''))
        else if list_ex (\<lambda>o'. og_name o' = nm) (cf_organizations (org_config s)) then (s, org_exists nm)
        else case (if cq_provider req = ''custom''
            then (case trimmed_field (cq_idp req) of Some idp \<Rightarrow> Inr idp | None \<Rightarrow> Inl MISSING_IDP)
            else template_issuer (cq_provider req) (cq_slug req)) of
          Inl resp \<Rightarrow> (s, resp)
        | Inr iss \<Rightarrow>
           (case resolve_org env iss (cq_client_id req) nm (insecure_allowed s) of
              Inl resp \<Rightarrow> (waiting s, resp)
            | Inr (d, cid, path) \<Rightarrow>
               (let s1 = waiting s;
                    org = \<lparr>og_name = nm, og_provider = cq_provider req, og_idp = iss, og_client_id = persisted_client_id cid path\<rparr>
                in case publish_organizations env (cf_organizations (org_config s1) @ [org]) s1 of
                     (s2, Inl resp) \<Rightarrow> (s2, resp)
                   | (s2, Inr _) \<Rightarrow> finish_create env req nm iss d cid s2)))"

definition updated_issuer :: "update_organization_request \<Rightarrow> organization \<Rightarrow> string \<Rightarrow> api_response + string" where
  "updated_issuer req current new_provider =
     (let moved = (new_provider \<noteq> og_provider current) in
      if \<not> moved \<and> uq_slug req = None \<and> uq_idp req = None then Inr (og_idp current)
      else if new_provider = ''custom''
      then (case trimmed_field (uq_idp req) of
              Some idp \<Rightarrow> Inr idp
            | None \<Rightarrow> if moved then Inl MISSING_IDP else Inr (og_idp current))
      else template_issuer new_provider (uq_slug req))"

definition updated_client_id :: "update_organization_request \<Rightarrow> organization \<Rightarrow> string option" where
  "updated_client_id req current = (case uq_client_id req of None \<Rightarrow> og_client_id current | Some i \<Rightarrow> trimmed_field (Some i))"

definition purge_identity ::
  "'c org_env \<Rightarrow> string \<Rightarrow> string \<Rightarrow> bool \<Rightarrow> ('c, 'v) setup_state \<Rightarrow> ('c, 'v) setup_state" where
  "purge_identity env old new identity_changed s =
     (if \<not> (ls_has_tm (su_login s) \<and> identity_changed) then s
      else let s1 = purge_idp env old s in
        if new \<noteq> old then purge_client old (purge_idp env new s1) else purge_client new s1)"

definition apply_secret ::
  "'c org_env \<Rightarrow> string \<Rightarrow> string \<Rightarrow> string \<Rightarrow> string option \<Rightarrow> ('c, 'v) setup_state \<Rightarrow> ('c, 'v) setup_state \<times> (api_response + unit)" where
  "apply_secret env nm cid iss request s =
     (case (request, ls_has_tm (su_login s)) of
        (Some text', True) \<Rightarrow>
          (case trimmed_field (Some text') of
             None \<Rightarrow>
               (case delete_dcr nm (ls_disk (su_login s)) of
                  (w, Inl e) \<Rightarrow> (on_disk (\<lambda>_. w) s, Inl (error_response 500 ''failed to clear client secret'' (Some (se_show_error (oe_setup env) e))))
                | (w, Inr _) \<Rightarrow> (on_disk (\<lambda>_. w) s, Inr ()))
           | secret \<Rightarrow>
               (case save_org_client env nm (org_client_record (le_wall (oe_login env)) cid secret iss) s of
                  (s1, Inl e) \<Rightarrow> (s1, Inl (error_response 500 ''failed to persist client secret'' (Some (se_show_error (oe_setup env) e))))
                | (s1, Inr _) \<Rightarrow> (s1, Inr ())))
      | _ \<Rightarrow> (s, Inr ()))"

definition organization_json :: "'c org_env \<Rightarrow> organization \<Rightarrow> ('c, 'v) setup_state \<Rightarrow> json" where
  "organization_json env o' s = JObj [(''name'', JStr (og_name o')), (''provider'', JStr (og_provider o')),
     (''idp'', JStr (og_idp o')), (''authenticated'', JBool (org_authenticated env (og_name o') s))]"

text \<open>The steps after the changed list is published.\<close>

definition finish_update ::
  "'c org_env \<Rightarrow> update_organization_request \<Rightarrow> string \<Rightarrow> organization \<Rightarrow> discovery_result \<Rightarrow> string \<Rightarrow> bool \<Rightarrow>
   ('c, 'v) setup_state \<Rightarrow> ('c, 'v) setup_state \<times> api_response" where
  "finish_update env req old updated d cid identity_changed s1 =
     (let new_name = og_name updated; iss = og_idp updated in
      case apply_secret env new_name cid iss (uq_client_secret req) (purge_identity env old new_name identity_changed s1) of
        (s2, Inl resp) \<Rightarrow> (s2, resp)
      | (s2, Inr _) \<Rightarrow>
         (if identity_changed
          then let (s3, url) = compose_org_sso env new_name iss d cid (org_secret env new_name cid s2) s2
               in (s3, sso_response 200 new_name (og_provider updated) iss url)
          else (s2, ok_response (organization_json env updated s2))))"

definition update_organization ::
  "'c org_env \<Rightarrow> (('c, 'v) setup_state \<Rightarrow> ('c, 'v) setup_state) \<Rightarrow> string \<Rightarrow> update_organization_request \<Rightarrow>
   ('c, 'v) setup_state \<Rightarrow> ('c, 'v) setup_state \<times> api_response" where
  "update_organization env waiting org req s =
     (if ls_flows (su_login s) = None then (s, OAUTH_UNCONFIGURED)
      else if \<not> ee_has_path (se_edit (oe_setup env)) then (s, NO_PATH)
      else case List.find (\<lambda>o'. og_name o' = org) (cf_organizations (org_config s)) of
        None \<Rightarrow> (s, org_not_found org)
      | Some current \<Rightarrow>
         (let orgs_before = cf_organizations (org_config s);
              new_name = unwrap_or (og_name current) (trimmed_field (uq_name req));
              new_provider = unwrap_or (og_provider current) (trimmed_field (uq_provider req))
          in if new_name \<noteq> og_name current \<and> list_ex (\<lambda>o'. og_name o' = new_name) orgs_before then (s, org_exists new_name)
             else case updated_issuer req current new_provider of
               Inl resp \<Rightarrow> (s, resp)
             | Inr iss \<Rightarrow>
                (case resolve_org env iss (updated_client_id req current) new_name (insecure_allowed s) of
                   Inl resp \<Rightarrow> (waiting s, resp)
                 | Inr (d, cid, path) \<Rightarrow>
                    (let updated = \<lparr>og_name = new_name, og_provider = new_provider, og_idp = iss, og_client_id = persisted_client_id cid path\<rparr>;
                         identity_changed = (new_name \<noteq> og_name current \<or> iss \<noteq> og_idp current \<or>
                           persisted_client_id cid path \<noteq> og_client_id current)
                     in case publish_organizations env (replace_first (\<lambda>o'. og_name o' = og_name current) updated orgs_before) (waiting s) of
                          (s1, Inl resp) \<Rightarrow> (s1, resp)
                        | (s1, Inr _) \<Rightarrow> finish_update env req (og_name current) updated d cid identity_changed s1))))"

definition list_organizations :: "'c org_env \<Rightarrow> ('c, 'v) setup_state \<Rightarrow> api_response" where
  "list_organizations env s = ok_response (JArr (map (\<lambda>o'. organization_json env o' s) (cf_organizations (org_config s))))"

definition delete_organization :: "'c org_env \<Rightarrow> string \<Rightarrow> ('c, 'v) setup_state \<Rightarrow> ('c, 'v) setup_state \<times> api_response" where
  "delete_organization env org s =
     (if \<not> ee_has_path (se_edit (oe_setup env)) then (s, NO_PATH)
      else let orgs = filter (\<lambda>o'. og_name o' \<noteq> org) (cf_organizations (org_config s)) in
        if length orgs = length (cf_organizations (org_config s)) then (s, org_not_found org)
        else case publish_organizations env orgs s of
          (s1, Inl resp) \<Rightarrow> (s1, resp)
        | (s1, Inr _) \<Rightarrow> (if ls_has_tm (su_login s1) then purge_idp env org s1 else s1,
            ok_response (JObj [(''ok'', JBool True), (''name'', JStr org)])))"

definition reauthenticate_organization ::
  "'c org_env \<Rightarrow> (('c, 'v) setup_state \<Rightarrow> ('c, 'v) setup_state) \<Rightarrow> string \<Rightarrow> ('c, 'v) setup_state \<Rightarrow>
   ('c, 'v) setup_state \<times> api_response" where
  "reauthenticate_organization env waiting org s =
     (if ls_flows (su_login s) = None then (s, OAUTH_UNCONFIGURED)
      else case List.find (\<lambda>o'. og_name o' = org) (cf_organizations (org_config s)) of
        None \<Rightarrow> (s, org_not_found org)
      | Some found \<Rightarrow>
         (case resolve_org env (og_idp found) (og_client_id found) org (insecure_allowed s) of
            Inl resp \<Rightarrow> (waiting s, resp)
          | Inr (d, cid, path) \<Rightarrow>
             (let s1 = waiting s; (s2, url) = compose_org_sso env org (og_idp found) d cid (org_secret env org cid s1) s1
              in (s2, sso_response 200 org (og_provider found) (og_idp found) url))))"

definition list_idp_providers :: api_response where
  "list_idp_providers = ok_response (JArr (map (\<lambda>p. JObj ([(''id'', JStr (ip_id p)), (''name'', JStr (ip_name p))] @
     opt_key ''issuer_pattern'' JStr (ip_issuer_pattern p) @ opt_key ''slug_hint'' JStr (ip_slug_hint p))) IDP_PROVIDERS))"

end
