(* ===== verification/Organization_Safety.thy ===== *)
theory Organization_Safety
  imports Organizations Setup_Safety Http_Calls
begin

text \<open>
  What the organization routes keep: the issuer of a provider template stays at the provider, a client secret never
  reaches the configuration, and an organization whose identity moves is logged out. An update publishes the list it
  read before it waited for the network, so that an organization created meanwhile is lost.
\<close>

section \<open>Issuers\<close>

definition issuer_host :: "string \<Rightarrow> string" where
  "issuer_host url = takeWhile (\<lambda>c. c \<notin> {CHR 0x2F, CHR 0x3F, CHR 0x23, CHR 0x5C}) (drop 8 url)"

definition provider_hosts :: "string set" where
  "provider_hosts = {''accounts.google.com'', ''login.microsoftonline.com'', ''auth.pingone.com''}"

lemma replace_none: "\<not> contains_str s pat \<Longrightarrow> replace_str pat r s = s"
  by (auto simp: replace_str.simps [of pat r s] contains_str_def split: option.splits)

lemma replace_at: "pat \<noteq> [] \<Longrightarrow> split_at_first pat s = Some (a, b) \<Longrightarrow> \<not> contains_str b pat \<Longrightarrow> replace_str pat r s = a @ r @ b"
  by (simp add: replace_str.simps [of pat r s] replace_none)

lemma template_split:
  "split_at_first SLUG ''https://{slug}.okta.com'' = Some (''https://'', ''.okta.com'')"
  "split_at_first SLUG ''https://login.microsoftonline.com/{slug}/v2.0'' = Some (''https://login.microsoftonline.com/'', ''/v2.0'')"
  "split_at_first SLUG ''https://auth.pingone.com/{slug}/as'' = Some (''https://auth.pingone.com/'', ''/as'')"
  "\<not> contains_str ''https://accounts.google.com'' SLUG"
  by code_simp+

lemma template_tail: "\<not> contains_str ''.okta.com'' SLUG" "\<not> contains_str ''/v2.0'' SLUG" "\<not> contains_str ''/as'' SLUG"
  by code_simp+

lemma template_issuers:
  "replace_str SLUG s ''https://{slug}.okta.com'' = ''https://'' @ s @ ''.okta.com''"
  "replace_str SLUG s ''https://login.microsoftonline.com/{slug}/v2.0'' = ''https://login.microsoftonline.com/'' @ s @ ''/v2.0''"
  "replace_str SLUG s ''https://auth.pingone.com/{slug}/as'' = ''https://auth.pingone.com/'' @ s @ ''/as''"
  using replace_at [OF _ template_split(1) template_tail(1)] replace_at [OF _ template_split(2) template_tail(2)]
    replace_at [OF _ template_split(3) template_tail(3)] by (simp_all add: SLUG_def)

lemma template_has_slug:
  "contains_str ''https://{slug}.okta.com'' SLUG" "contains_str ''https://login.microsoftonline.com/{slug}/v2.0'' SLUG"
  "contains_str ''https://auth.pingone.com/{slug}/as'' SLUG"
  unfolding contains_str_def template_split by simp_all

lemma good_slug_chars:
  "\<not> bad_slug s \<Longrightarrow> c \<in> set s \<Longrightarrow> c \<notin> {CHR 0x2F, CHR 0x3A, CHR 0x3F, CHR 0x23, CHR 0x40, CHR 0x5C, CHR 0x20}"
  by (auto simp: bad_slug_def list_ex_iff)

text \<open>C31: An issuer built from a provider template stays at that provider. Whatever slug the request carries, an accepted
  issuer is an \<^verbatim>\<open>https\<close> URL whose authority is one of the fixed provider hosts, or a subdomain of
  \<^verbatim>\<open>okta.com\<close>, and the authority has no user information, port or path in it.
\<close>
theorem issuer_stays_at_provider:
  assumes "find_provider i = Some p" "build_issuer p slug = Inr iss"
  shows "take 8 iss = ''https://'' \<and>
    (issuer_host iss \<in> provider_hosts \<or> (\<exists>s. s \<noteq> [] \<and> issuer_host iss = s @ ''.okta.com'' \<and> set s \<inter> {CHR 0x3A, CHR 0x40, CHR 0x20} = {}))"
proof -
  have p: "p \<in> set IDP_PROVIDERS" using assms(1) by (auto simp: find_provider_def find_Some_iff)
  consider (google) "ip_issuer_pattern p = Some ''https://accounts.google.com''"
    | (okta) "ip_issuer_pattern p = Some ''https://{slug}.okta.com''"
    | (entra) "ip_issuer_pattern p = Some ''https://login.microsoftonline.com/{slug}/v2.0''"
    | (ping) "ip_issuer_pattern p = Some ''https://auth.pingone.com/{slug}/as''"
    using p assms(2) by (auto simp: IDP_PROVIDERS_def build_issuer_def)
  then show ?thesis
  proof cases
    case google
    with assms(2) have "iss = ''https://accounts.google.com''" by (simp add: build_issuer_def template_split)
    then show ?thesis by (simp add: issuer_host_def provider_hosts_def)
  next
    case okta
    with assms(2) obtain s where s: "trimmed_field slug = Some s" "\<not> bad_slug s" "iss = ''https://'' @ s @ ''.okta.com''"
      by (auto simp: build_issuer_def template_has_slug template_issuers split: option.splits if_splits)
    have ne: "s \<noteq> []" using s(1) by (auto simp: trimmed_field_def split: option.splits if_splits)
    have clean: "c \<notin> {CHR 0x2F, CHR 0x3F, CHR 0x23, CHR 0x5C}" if "c \<in> set s" for c
      using good_slug_chars [OF s(2) that] by auto
    have "issuer_host iss = takeWhile (\<lambda>c. c \<notin> {CHR 0x2F, CHR 0x3F, CHR 0x23, CHR 0x5C}) (s @ ''.okta.com'')"
      by (simp add: issuer_host_def s(3))
    also have "\<dots> = s @ ''.okta.com''" using clean by (subst takeWhile_append2) auto
    finally have "issuer_host iss = s @ ''.okta.com''" .
    moreover have "set s \<inter> {CHR 0x3A, CHR 0x40, CHR 0x20} = {}" using good_slug_chars [OF s(2)] by auto
    ultimately show ?thesis using ne by (simp add: s(3))
  next
    case entra
    with assms(2) obtain s where "iss = ''https://login.microsoftonline.com/'' @ s @ ''/v2.0''"
      by (auto simp: build_issuer_def template_has_slug template_issuers split: option.splits if_splits)
    then show ?thesis by (simp add: issuer_host_def provider_hosts_def)
  next
    case ping
    with assms(2) obtain s where "iss = ''https://auth.pingone.com/'' @ s @ ''/as''"
      by (auto simp: build_issuer_def template_has_slug template_issuers split: option.splits if_splits)
    then show ?thesis by (simp add: issuer_host_def provider_hosts_def)
  qed
qed

theorem issuer_stays_at_provider_witness:
  "\<exists>p. find_provider ''google'' = Some p \<and> build_issuer p None = Inr ''https://accounts.google.com'' \<and>
     (issuer_host ''https://accounts.google.com'' \<in> provider_hosts \<or>
       (\<exists>s. s \<noteq> [] \<and> issuer_host ''https://accounts.google.com'' = s @ ''.okta.com'' \<and> set s \<inter> {CHR 0x3A, CHR 0x40, CHR 0x20} = {}))"
proof -
  obtain p where p: "find_provider ''google'' = Some p" "ip_issuer_pattern p = Some ''https://accounts.google.com''"
    by (simp add: find_provider_def IDP_PROVIDERS_def)
  then have b: "build_issuer p None = Inr ''https://accounts.google.com''" by (simp add: build_issuer_def template_split)
  show ?thesis using issuer_stays_at_provider [OF p(1) b] p(1) b by blast
qed

section \<open>Publishing\<close>

lemma edit_file_status:
  "edit_file env (\<lambda>t. Inr (f t)) c = (c', Inl e) \<Longrightarrow> fst e = 500"
  by (auto simp: edit_file_def split: option.splits sum.splits prod.splits)

lemma publish_parts:
  assumes "publish_organizations env orgs s = (s', r)"
  shows "su_login s' = su_login s"
    "case r of Inr _ \<Rightarrow> cf_organizations (org_config s') = orgs | Inl resp \<Rightarrow> org_config s' = org_config s \<and> ar_status resp = 500"
proof -
  obtain file' r' where e: "edit_file (se_edit (oe_setup env)) (\<lambda>t. Inr (set_organizations orgs t)) (mn_file (su_managed s)) = (file', r')"
    by fastforce
  show "su_login s' = su_login s"
    using assms by (cases r') (auto simp: publish_organizations_def e Let_def)
  show "case r of Inr _ \<Rightarrow> cf_organizations (org_config s') = orgs | Inl resp \<Rightarrow> org_config s' = org_config s \<and> ar_status resp = 500"
  proof (cases r')
    case (Inl x)
    have "fst x = 500" using edit_file_status e Inl by metis
    with Inl assms show ?thesis
      by (cases x) (auto simp: publish_organizations_def e Let_def org_config_def edit_answer_def error_response_def)
  next
    case (Inr u)
    with assms show ?thesis by (auto simp: publish_organizations_def e Let_def org_config_def)
  qed
qed

lemma on_login_managed [simp]: "su_managed (on_login f s) = su_managed s"
  by (simp add: on_login_def)

lemma org_managed [simp]:
  "su_managed (on_disk f s) = su_managed s" "su_managed (purge_idp env nm s) = su_managed s"
  "su_managed (purge_client nm s) = su_managed s" "su_managed (purge_identity env old new b s) = su_managed s"
  "su_managed (fst (save_org_client env nm c s)) = su_managed s"
  "su_managed (fst (compose_org_sso env nm iss d cid k s)) = su_managed s"
  by (simp_all add: on_disk_def purge_idp_def purge_client_def purge_identity_def save_org_client_def compose_org_sso_def
      on_flows_def Let_def case_prod_beta)

lemma save_org_client_managed: "save_org_client env nm c s = (s', r) \<Longrightarrow> su_managed s' = su_managed s"
  using org_managed(5) [of env nm c s] by simp

lemma apply_secret_managed [simp]: "su_managed (fst (apply_secret env nm cid iss req s)) = su_managed s"
proof (cases "\<exists>t. req = Some t \<and> ls_has_tm (su_login s)")
  case True
  then obtain t where t: "req = Some t" "ls_has_tm (su_login s)" by blast
  obtain w r where w: "delete_dcr nm (ls_disk (su_login s)) = (w, r)" by fastforce
  obtain s1 r1 where s1: "save_org_client env nm (org_client_record (le_wall (oe_login env)) cid (trimmed_field req) iss) s = (s1, r1)"
    by fastforce
  show ?thesis
    using w s1 save_org_client_managed [OF s1] t
    by (cases "trimmed_field req"; cases r; cases r1) (simp_all add: apply_secret_def)
next
  case False
  then have "apply_secret env nm cid iss req s = (s, Inr ())" by (auto simp: apply_secret_def split: option.split)
  then show ?thesis by simp
qed

lemma finish_create_managed [simp]: "su_managed (fst (finish_create env req nm iss d cid s)) = su_managed s"
proof -
  obtain s3 r where r: "(if ls_has_tm (su_login s) \<and> trimmed_field (cq_client_secret req) \<noteq> None
      then save_org_client env nm (org_client_record (le_wall (oe_login env)) cid (trimmed_field (cq_client_secret req)) iss) s
      else (s, Inr ())) = (s3, r)" by fastforce
  then have "su_managed s3 = su_managed s" by (auto dest: save_org_client_managed split: if_splits)
  then show ?thesis unfolding finish_create_def Let_def r by (cases r) (simp_all add: case_prod_beta)
qed

lemma finish_update_managed [simp]: "su_managed (fst (finish_update env req old updated d cid b s)) = su_managed s"
proof -
  obtain s2 r where r: "apply_secret env (og_name updated) cid (og_idp updated) (uq_client_secret req)
      (purge_identity env old (og_name updated) b s) = (s2, r)" by fastforce
  then have "su_managed s2 = su_managed s" by (metis apply_secret_managed fst_conv org_managed(4))
  then show ?thesis unfolding finish_update_def Let_def r by (cases r) (simp_all add: case_prod_beta)
qed

lemma managed_case:
  "su_managed (fst (case z of Inl a \<Rightarrow> f a | Inr b \<Rightarrow> g b)) = (case z of Inl a \<Rightarrow> su_managed (fst (f a)) | Inr b \<Rightarrow> su_managed (fst (g b)))"
  "su_managed (fst (case y of None \<Rightarrow> h | Some c \<Rightarrow> k c)) = (case y of None \<Rightarrow> su_managed (fst h) | Some c \<Rightarrow> su_managed (fst (k c)))"
  "su_managed (fst (case p of (u, v) \<Rightarrow> l u v)) = (case p of (u, v) \<Rightarrow> su_managed (fst (l u v)))"
  "su_managed (fst (if q then m else n)) = (if q then su_managed (fst m) else su_managed (fst n))"
  by (auto split: sum.split option.split prod.split)

lemma secret_aside:
  "cq_name (creq\<lparr>cq_client_secret := k\<rparr>) = cq_name creq" "cq_provider (creq\<lparr>cq_client_secret := k\<rparr>) = cq_provider creq"
  "cq_slug (creq\<lparr>cq_client_secret := k\<rparr>) = cq_slug creq" "cq_idp (creq\<lparr>cq_client_secret := k\<rparr>) = cq_idp creq"
  "cq_client_id (creq\<lparr>cq_client_secret := k\<rparr>) = cq_client_id creq"
  "uq_name (ureq\<lparr>uq_client_secret := k\<rparr>) = uq_name ureq" "uq_provider (ureq\<lparr>uq_client_secret := k\<rparr>) = uq_provider ureq"
  "uq_slug (ureq\<lparr>uq_client_secret := k\<rparr>) = uq_slug ureq" "uq_idp (ureq\<lparr>uq_client_secret := k\<rparr>) = uq_idp ureq"
  "uq_client_id (ureq\<lparr>uq_client_secret := k\<rparr>) = uq_client_id ureq"
  by simp_all

text \<open>C33: The client secret of an organization never reaches the configuration. The file and the running configuration that
  creating or updating an organization leaves are the same whatever secret the request carries, also when storing the
  secret fails.
\<close>
theorem org_secret_stays_out_of_config:
  "su_managed (fst (create_organization env waiting (creq\<lparr>cq_client_secret := k1\<rparr>) s)) =
     su_managed (fst (create_organization env waiting (creq\<lparr>cq_client_secret := k2\<rparr>) s)) \<and>
   su_managed (fst (update_organization env waiting org (ureq\<lparr>uq_client_secret := k1\<rparr>) s)) =
     su_managed (fst (update_organization env waiting org (ureq\<lparr>uq_client_secret := k2\<rparr>) s))"
proof (intro conjI)
  show "su_managed (fst (create_organization env waiting (creq\<lparr>cq_client_secret := k1\<rparr>) s)) =
      su_managed (fst (create_organization env waiting (creq\<lparr>cq_client_secret := k2\<rparr>) s))"
    unfolding create_organization_def Let_def
    by (simp only: managed_case finish_create_managed secret_aside fst_conv)
  show "su_managed (fst (update_organization env waiting org (ureq\<lparr>uq_client_secret := k1\<rparr>) s)) =
      su_managed (fst (update_organization env waiting org (ureq\<lparr>uq_client_secret := k2\<rparr>) s))"
    unfolding update_organization_def Let_def updated_issuer_def updated_client_id_def
    by (simp only: managed_case finish_update_managed secret_aside fst_conv)
qed

section \<open>An update\<close>

lemma status_simps [simp]:
  "ar_status (error_response n m d) = n" "ar_status (ok_response j) = 200" "ar_status (sso_response n nm pr iss url) = n"
  by (simp_all add: error_response_def ok_response_def sso_response_def)

lemma refusal_statuses:
  "updated_issuer req current np = Inl resp \<Longrightarrow> ar_status resp = 400"
  "resolve_org env iss oc nm ai = Inl resp \<Longrightarrow> ar_status resp \<in> {400, 422, 502}"
  by (auto simp: updated_issuer_def template_issuer_def MISSING_IDP_def resolve_org_def validate_org_issuer_def
      resolve_org_client_def Let_def split: if_splits option.splits sum.splits client_resolve_error.splits)

definition update_of :: "update_organization_request \<Rightarrow> organization \<Rightarrow> string \<Rightarrow> string \<Rightarrow> client_path \<Rightarrow> organization" where
  "update_of req current iss cid path =
     \<lparr>og_name = unwrap_or (og_name current) (trimmed_field (uq_name req)),
      og_provider = unwrap_or (og_provider current) (trimmed_field (uq_provider req)), og_idp = iss,
      og_client_id = persisted_client_id cid path\<rparr>"

definition moved_identity :: "organization \<Rightarrow> organization \<Rightarrow> bool" where
  "moved_identity current updated =
     (og_name updated \<noteq> og_name current \<or> og_idp updated \<noteq> og_idp current \<or> og_client_id updated \<noteq> og_client_id current)"

lemma update_parts:
  assumes "update_organization env waiting org req s = (s', resp)" "ar_status resp = 200"
  obtains current iss d cid path s1 where
    "List.find (\<lambda>o'. og_name o' = org) (cf_organizations (org_config s)) = Some current" "og_name current = org"
    "publish_organizations env (replace_first (\<lambda>o'. og_name o' = org) (update_of req current iss cid path)
       (cf_organizations (org_config s))) (waiting s) = (s1, Inr ())"
    "finish_update env req org (update_of req current iss cid path) d cid
       (moved_identity current (update_of req current iss cid path)) s1 = (s', resp)"
    "unwrap_or org (trimmed_field (uq_name req)) = org \<or>
       unwrap_or org (trimmed_field (uq_name req)) \<notin> og_name ` set (cf_organizations (org_config s))"
proof -
  have set_up: "ls_flows (su_login s) \<noteq> None" "ee_has_path (se_edit (oe_setup env))"
    using assms by (auto simp: update_organization_def OAUTH_UNCONFIGURED_def NO_PATH_def split: if_splits)
  obtain current where current: "List.find (\<lambda>o'. og_name o' = org) (cf_organizations (org_config s)) = Some current"
    using assms set_up by (auto simp: update_organization_def org_not_found_def split: option.splits)
  then have named: "og_name current = org" by (auto simp: find_Some_iff)
  let ?np = "unwrap_or (og_provider current) (trimmed_field (uq_provider req))"
    and ?nn = "unwrap_or (og_name current) (trimmed_field (uq_name req))"
  have free: "\<not> (?nn \<noteq> og_name current \<and> list_ex (\<lambda>o'. og_name o' = ?nn) (cf_organizations (org_config s)))"
    using assms set_up current by (auto simp: update_organization_def org_exists_def Let_def split: if_splits)
  obtain iss where iss: "updated_issuer req current ?np = Inr iss"
    using assms set_up current free refusal_statuses(1) [of req current ?np]
    by (cases "updated_issuer req current ?np") (auto simp: update_organization_def Let_def split: if_splits)
  obtain d cid path where resolved: "resolve_org env iss (updated_client_id req current) ?nn (insecure_allowed s) = Inr (d, cid, path)"
    using assms set_up current free iss refusal_statuses(2) [of env iss "updated_client_id req current" ?nn "insecure_allowed s"]
    by (cases "resolve_org env iss (updated_client_id req current) ?nn (insecure_allowed s)")
      (auto simp: update_organization_def Let_def split: if_splits)
  let ?u = "update_of req current iss cid path"
  obtain s1 r where pub: "publish_organizations env (replace_first (\<lambda>o'. og_name o' = og_name current) ?u
      (cf_organizations (org_config s))) (waiting s) = (s1, r)" by fastforce
  have run: "(case r of Inl e \<Rightarrow> (s1, e) | Inr _ \<Rightarrow> finish_update env req (og_name current) ?u d cid (moved_identity current ?u) s1) = (s', resp)"
    using assms(1) set_up free
    by (simp add: update_organization_def Let_def current iss resolved pub [unfolded update_of_def] update_of_def moved_identity_def
        split: if_splits sum.splits)
  have "\<exists>v. r = Inr v" using publish_parts(2) [OF pub] run assms(2) by (cases r) auto
  moreover have "unwrap_or org (trimmed_field (uq_name req)) = org \<or>
      unwrap_or org (trimmed_field (uq_name req)) \<notin> og_name ` set (cf_organizations (org_config s))"
    using free named by (auto simp: list_ex_iff)
  ultimately show ?thesis using run pub named that [OF current named] by auto
qed

lemma finish_managed:
  "finish_update env req old updated d cid b s1 = (s', resp) \<Longrightarrow> su_managed s' = su_managed s1"
  "finish_create env req' nm iss d cid s1 = (s', resp) \<Longrightarrow> su_managed s' = su_managed s1"
  using finish_update_managed [of env req old updated d cid b s1] finish_create_managed [of env req' nm iss d cid s1] by simp_all

lemma update_publishes:
  assumes "update_organization env waiting org req s = (s', resp)" "ar_status resp = 200"
  obtains updated where "og_name updated = unwrap_or org (trimmed_field (uq_name req))"
    "cf_organizations (org_config s') = replace_first (\<lambda>o'. og_name o' = org) updated (cf_organizations (org_config s))"
proof -
  obtain current iss d cid path s1 where u: "og_name current = org"
    "publish_organizations env (replace_first (\<lambda>o'. og_name o' = org) (update_of req current iss cid path)
       (cf_organizations (org_config s))) (waiting s) = (s1, Inr ())"
    "finish_update env req org (update_of req current iss cid path) d cid
       (moved_identity current (update_of req current iss cid path)) s1 = (s', resp)"
    using update_parts [OF assms] by metis
  have "org_config s' = org_config s1" using finish_managed(1) [OF u(3)] by (simp add: org_config_def)
  then have "cf_organizations (org_config s') =
      replace_first (\<lambda>o'. og_name o' = org) (update_of req current iss cid path) (cf_organizations (org_config s))"
    using publish_parts(2) [OF u(2)] by simp
  then show thesis using that [of "update_of req current iss cid path"] u(1) by (simp add: update_of_def)
qed

lemma create_publishes:
  assumes "create_organization env waiting req s = (s', resp)" "ar_status resp = 201"
  shows "trim (cq_name req) \<noteq> [] \<and> trim (cq_name req) \<notin> og_name ` set (cf_organizations (org_config s)) \<and>
    (\<exists>created. og_name created = trim (cq_name req) \<and>
      cf_organizations (org_config s') = cf_organizations (org_config (waiting s)) @ [created])"
proof -
  have set_up: "ls_flows (su_login s) \<noteq> None" "ee_has_path (se_edit (oe_setup env))" "trim (cq_name req) \<noteq> []"
    using assms by (auto simp: create_organization_def OAUTH_UNCONFIGURED_def NO_PATH_def Let_def split: if_splits)
  have fresh: "\<not> list_ex (\<lambda>o'. og_name o' = trim (cq_name req)) (cf_organizations (org_config s))"
    using assms set_up by (auto simp: create_organization_def org_exists_def Let_def split: if_splits)
  define issuer where "issuer = (if cq_provider req = ''custom''
    then (case trimmed_field (cq_idp req) of Some idp \<Rightarrow> Inr idp | None \<Rightarrow> Inl MISSING_IDP)
    else template_issuer (cq_provider req) (cq_slug req))"
  have "ar_status e = 400" if "issuer = Inl e" for e
    using that by (auto simp: issuer_def MISSING_IDP_def template_issuer_def split: if_splits option.splits sum.splits)
  then obtain iss where iss: "issuer = Inr iss"
    using assms set_up fresh by (cases issuer) (auto simp: create_organization_def Let_def issuer_def [symmetric])
  obtain d cid path where resolved: "resolve_org env iss (cq_client_id req) (trim (cq_name req)) (insecure_allowed s) = Inr (d, cid, path)"
    using assms set_up fresh iss refusal_statuses(2) [of env iss "cq_client_id req" "trim (cq_name req)" "insecure_allowed s"]
    by (cases "resolve_org env iss (cq_client_id req) (trim (cq_name req)) (insecure_allowed s)")
      (auto simp: create_organization_def Let_def issuer_def [symmetric])
  define created where "created = \<lparr>og_name = trim (cq_name req), og_provider = cq_provider req, og_idp = iss,
    og_client_id = persisted_client_id cid path\<rparr>"
  obtain s1 r where pub: "publish_organizations env (cf_organizations (org_config (waiting s)) @ [created]) (waiting s) = (s1, r)"
    by fastforce
  have run: "(case r of Inl e \<Rightarrow> (s1, e) | Inr _ \<Rightarrow> finish_create env req (trim (cq_name req)) iss d cid s1) = (s', resp)"
    using assms(1) set_up fresh
    by (simp add: create_organization_def Let_def issuer_def [symmetric] iss resolved pub created_def [symmetric] split: sum.splits)
  obtain v where v: "r = Inr v" using publish_parts(2) [OF pub] run assms(2) by (cases r) auto
  have "su_managed s' = su_managed s1" using finish_managed(2) run v by simp
  then have "org_config s' = org_config s1" by (simp add: org_config_def)
  moreover have "cf_organizations (org_config s1) = cf_organizations (org_config (waiting s)) @ [created]"
    using publish_parts(2) [OF pub] v by simp
  moreover have "og_name created = trim (cq_name req)" by (simp add: created_def)
  ultimately show ?thesis using set_up(3) fresh by (auto simp: list_ex_iff)
qed

lemma set_replace_first: "set (replace_first P y xs) \<subseteq> insert y (set xs)"
  by (induction xs) auto

text \<open>C34: An organization created while another one is being updated is lost. An update publishes the list it copied before it
  waited for the network: when a creation was answered 201 in between, the update's 200 leaves the created organization
  neither in the file it wrote nor in the running configuration.
\<close>
theorem organization_update_loses_creation:
  assumes "update_organization env (\<lambda>x. fst (create_organization env' id creq x)) org req s = (s', resp)" "ar_status resp = 200"
    and "snd (create_organization env' id creq s) = created" "ar_status created = 201"
    and "trimmed_field (uq_name req) \<noteq> Some (trim (cq_name creq))"
  shows "trim (cq_name creq) \<in> og_name ` set (cf_organizations (org_config (fst (create_organization env' id creq s)))) \<and>
    trim (cq_name creq) \<notin> og_name ` set (cf_organizations (org_config s'))"
proof -
  let ?nm = "trim (cq_name creq)" and ?r = "create_organization env' id creq s"
  have c: "?nm \<noteq> []" "?nm \<notin> og_name ` set (cf_organizations (org_config s))"
    "?nm \<in> og_name ` set (cf_organizations (org_config (fst ?r)))"
    using create_publishes [of env' id creq s "fst ?r" created] assms(3,4) by auto
  obtain updated where u: "og_name updated = unwrap_or org (trimmed_field (uq_name req))"
    "cf_organizations (org_config s') = replace_first (\<lambda>o'. og_name o' = org) updated (cf_organizations (org_config s))"
    using update_publishes [OF assms(1,2)] .
  have "org \<in> og_name ` set (cf_organizations (org_config s))"
    using update_parts [OF assms(1,2)] by (metis find_Some_iff image_eqI nth_mem)
  then have "og_name updated \<noteq> ?nm" using u(1) c(2) assms(5) by (cases "trimmed_field (uq_name req)") (auto simp: unwrap_or_def)
  moreover have "set (cf_organizations (org_config s')) \<subseteq> insert updated (set (cf_organizations (org_config s)))"
    unfolding u(2) by (rule set_replace_first)
  ultimately have "?nm \<notin> og_name ` set (cf_organizations (org_config s'))" using c(2) by auto
  then show ?thesis using c(3) by simp
qed

section \<open>Logging out\<close>

lemma idp_file_apart: "idp_file kh k \<noteq> dcr_file n" "idp_file kh k \<noteq> tmp_of (dcr_file n)"
  by (auto simp: idp_file_def dcr_file_def tmp_of_def dest: arg_cong [of _ _ rev])

definition idp_gone :: "'c org_env \<Rightarrow> string \<Rightarrow> 'c world \<Rightarrow> bool" where
  "idp_gone env nm w = (hm_get (files w) (idp_file (le_key_hash (oe_login env)) nm) = None)"

lemma purge_idp_gone:
  assumes "\<forall>op. io (ls_disk (su_login s)) op = None"
  shows "idp_gone env nm (ls_disk (su_login (purge_idp env nm s)))"
    "idp_gone env n w \<Longrightarrow> w = ls_disk (su_login s) \<Longrightarrow> idp_gone env n (ls_disk (su_login (purge_idp env nm s)))"
  using delete_file_gone [of "ls_disk (su_login s)" "idp_file (le_key_hash (oe_login env)) nm"] assms
    delete_file_frame [of "idp_file (le_key_hash (oe_login env)) n" "idp_file (le_key_hash (oe_login env)) nm" w]
  by (cases "idp_file (le_key_hash (oe_login env)) n = idp_file (le_key_hash (oe_login env)) nm";
      simp add: purge_idp_def on_disk_def on_login_def delete_idp_def idp_gone_def)+

lemma idp_frame [simp]:
  "hm_get (files (fst (delete_file (dcr_file n) w))) (idp_file kh k) = hm_get (files w) (idp_file kh k)"
  "hm_get (files (fst (save_file (dcr_file n) c w))) (idp_file kh k) = hm_get (files w) (idp_file kh k)"
  by (rule delete_file_frame [OF idp_file_apart(1)], rule save_frame [OF idp_file_apart(1,2)])

lemma purge_client_gone:
  "idp_gone env n (ls_disk (su_login s)) \<Longrightarrow> idp_gone env n (ls_disk (su_login (purge_client nm s)))"
  by (simp add: purge_client_def on_disk_def on_login_def delete_dcr_def idp_gone_def)

lemma save_client_gone:
  assumes "save_org_client env nm c s = (s', r)" "idp_gone env n (ls_disk (su_login s))"
  shows "idp_gone env n (ls_disk (su_login s'))"
proof -
  have "ls_disk (su_login s') = fst (save_file (dcr_file nm) (ser_dcr (le_codec (oe_login env)) c) (ls_disk (su_login s)))"
    using assms(1) by (auto simp: save_org_client_def on_login_def save_dcr_def split: prod.splits)
  with assms(2) show ?thesis by (simp add: idp_gone_def)
qed

lemma purge_io [simp]:
  "io (ls_disk (su_login (purge_idp env nm s))) = io (ls_disk (su_login s))"
  "io (ls_disk (su_login (purge_client nm s))) = io (ls_disk (su_login s))"
  "ls_has_tm (su_login (purge_idp env nm s)) = ls_has_tm (su_login s)"
  "ls_has_tm (su_login (purge_client nm s)) = ls_has_tm (su_login s)"
  by (simp_all add: purge_idp_def purge_client_def on_disk_def on_login_def delete_idp_def delete_dcr_def)

lemma purge_identity_gone:
  assumes "\<forall>op. io (ls_disk (su_login s)) op = None" "ls_has_tm (su_login s)" "n \<in> {old, new}"
  shows "idp_gone env n (ls_disk (su_login (purge_identity env old new True s)))"
  using assms purge_idp_gone [OF assms(1)] purge_idp_gone [of "purge_idp env old s"]
  by (auto simp: purge_identity_def Let_def intro!: purge_client_gone)

lemma apply_secret_gone:
  assumes "apply_secret env nm cid iss q s = (s', r)" "idp_gone env n (ls_disk (su_login s))"
  shows "idp_gone env n (ls_disk (su_login s'))"
proof (cases "q \<noteq> None \<and> ls_has_tm (su_login s) \<and> trimmed_field q = None")
  case True
  obtain w r1 where w: "delete_dcr nm (ls_disk (su_login s)) = (w, r1)" by fastforce
  have "ls_disk (su_login s') = w"
    using True w assms(1) by (cases r1) (auto simp: apply_secret_def on_disk_def on_login_def)
  moreover have "w = fst (delete_file (dcr_file nm) (ls_disk (su_login s)))" using w by (simp add: delete_dcr_def)
  ultimately show ?thesis using assms(2) by (simp add: idp_gone_def)
next
  case False
  show ?thesis
  proof (cases "s' = s")
    case same: False
    then obtain t where t: "q = Some t" "ls_has_tm (su_login s)" "trimmed_field q \<noteq> None"
      using assms(1) False
      by (cases "ls_has_tm (su_login s)") (auto simp: apply_secret_def split: option.splits)
    obtain s1 r1 where s1: "save_org_client env nm (org_client_record (le_wall (oe_login env)) cid (trimmed_field q) iss) s = (s1, r1)"
      by fastforce
    have "s' = s1" using assms(1) t s1 by (cases r1) (auto simp: apply_secret_def)
    then show ?thesis using save_client_gone [OF s1 assms(2)] by simp
  qed (use assms(2) in simp)
qed

lemma find_replaced:
  assumes "x \<in> set xs" "og_name x = org" "og_name u = org \<or> og_name u \<notin> og_name ` set xs"
  shows "List.find (\<lambda>o'. og_name o' = og_name u) (replace_first (\<lambda>o'. og_name o' = org) u xs) = Some u"
  using assms by (induction xs) auto

lemma sso_disk: "ls_disk (su_login (fst (compose_org_sso env nm iss d cid k s))) = ls_disk (su_login s)"
  by (simp add: compose_org_sso_def on_flows_def on_login_def)

lemma finish_update_disk:
  assumes "finish_update env req old updated d cid b s1 = (s', resp)"
    and "apply_secret env (og_name updated) cid (og_idp updated) (uq_client_secret req)
      (purge_identity env old (og_name updated) b s1) = (s2, r)"
  shows "ls_disk (su_login s') = ls_disk (su_login s2)"
proof (cases r)
  case (Inl resp')
  with assms show ?thesis by (simp add: finish_update_def Let_def)
next
  case (Inr u)
  obtain s3 url where "compose_org_sso env (og_name updated) (og_idp updated) d cid (org_secret env (og_name updated) cid s2) s2 = (s3, url)"
    by fastforce
  moreover from this have "ls_disk (su_login s3) = ls_disk (su_login s2)" by (metis fst_conv sso_disk)
  ultimately show ?thesis using Inr assms by (cases b) (simp_all add: finish_update_def Let_def)
qed

lemma finish_update_gone:
  assumes "finish_update env req old updated d cid True s1 = (s', resp)"
    and "\<forall>op. io (ls_disk (su_login s1)) op = None" "ls_has_tm (su_login s1)" "n \<in> {old, og_name updated}"
  shows "idp_gone env n (ls_disk (su_login s'))"
proof -
  let ?p = "purge_identity env old (og_name updated) True s1"
  obtain s2 r where a: "apply_secret env (og_name updated) cid (og_idp updated) (uq_client_secret req) ?p = (s2, r)" by fastforce
  have "idp_gone env n (ls_disk (su_login s2))" using apply_secret_gone [OF a purge_identity_gone [OF assms(2-4)]] .
  moreover have "ls_disk (su_login s') = ls_disk (su_login s2)"
    using finish_update_disk [OF assms(1) a] .
  ultimately show ?thesis by simp
qed

lemma update_renames_free:
  assumes "update_organization env waiting org req s = (s', resp)" "ar_status resp = 200"
  shows "unwrap_or org (trimmed_field (uq_name req)) = org \<or>
    unwrap_or org (trimmed_field (uq_name req)) \<notin> og_name ` set (cf_organizations (org_config s))"
  using update_parts [OF assms] by metis

lemma purge_identity_io [simp]:
  "io (ls_disk (su_login (purge_identity env old new b s))) = io (ls_disk (su_login s))"
  by (simp add: purge_identity_def Let_def)

lemma apply_secret_io:
  assumes "apply_secret env nm cid iss q s = (s', r)"
  shows "io (ls_disk (su_login s')) = io (ls_disk (su_login s))"
proof -
  obtain w r1 where w: "delete_dcr nm (ls_disk (su_login s)) = (w, r1)" by fastforce
  then have "io w = io (ls_disk (su_login s))" by (metis delete_dcr_def delete_file_io fst_conv)
  moreover obtain w2 r2 where w2: "save_dcr (ser_dcr (le_codec (oe_login env))) nm
      (org_client_record (le_wall (oe_login env)) cid (trimmed_field q) iss) (ls_disk (su_login s)) = (w2, r2)" by fastforce
  then have "io w2 = io (ls_disk (su_login s))" unfolding save_dcr_def by (rule save_file_io)
  ultimately show ?thesis
    using assms w w2
    by (cases "ls_has_tm (su_login s)"; cases r1; cases r2)
      (auto simp: apply_secret_def save_org_client_def on_disk_def on_login_def split: option.splits)
qed

lemma finish_update_io:
  assumes "finish_update env req old updated d cid b s1 = (s', resp)"
  shows "io (ls_disk (su_login s')) = io (ls_disk (su_login s1))"
proof -
  obtain s2 r where a: "apply_secret env (og_name updated) cid (og_idp updated) (uq_client_secret req)
      (purge_identity env old (og_name updated) b s1) = (s2, r)" by fastforce
  then have "io (ls_disk (su_login s2)) = io (ls_disk (su_login s1))" using apply_secret_io [OF a] by simp
  moreover have "ls_disk (su_login s') = ls_disk (su_login s2)"
    using finish_update_disk [OF assms a] .
  ultimately show ?thesis by simp
qed


section \<open>Witnesses\<close>

definition org_disc :: discovery_result where
  "org_disc = \<lparr>dr_auth_server_url = ''https://accounts.google.com'', dr_issuer = ''https://as/'',
     dr_authorization_endpoint = ''https://as/authorize'', dr_token_endpoint = ''https://as/token'',
     dr_registration_endpoint = None, dr_scopes_supported = [], dr_code_challenge_methods_supported = [],
     dr_token_endpoint_auth_methods = [], dr_revocation_endpoint = None, dr_iss_parameter_supported = False,
     dr_client_id_metadata_document_supported = True\<rparr>"

lemma org_discovery: "discover_authorization_server setup_net ''https://accounts.google.com'' False = Inr org_disc"
  by code_simp

lemma google_issuer: "template_issuer ''google'' None = Inr ''https://accounts.google.com''"
  by (simp add: template_issuer_def find_provider_def IDP_PROVIDERS_def build_issuer_def template_split)

lemma trimmed_W: "trim ''W'' = ''W''"
proof -
  have "is_ascii ''W''" "\<not> is_space (byte CHR 0x57)" by code_simp+
  then show ?thesis by (intro trim_same) simp_all
qed

definition org_env :: "document org_env" where
  "org_env = \<lparr>oe_setup = setup_env, oe_de_idp = (\<lambda>_. None)\<rparr>"

definition google_org :: organization where
  "google_org = \<lparr>og_name = ''O'', og_provider = ''google'', og_idp = ''https://accounts.google.com'', og_client_id = None\<rparr>"

definition one_org :: "(document, nat) setup_state" where
  "one_org = (let mn = starting_managed; rl = mn_relay mn; c = rl_config rl in
     (setup_with [])\<lparr>su_managed := mn\<lparr>mn_relay := rl\<lparr>rl_config := c\<lparr>cf_organizations := [google_org]\<rparr>\<rparr>\<rparr>\<rparr>)"

definition second_org :: create_organization_request where
  "second_org = \<lparr>cq_name = ''W'', cq_provider = ''google'', cq_slug = None, cq_idp = None, cq_client_id = None, cq_client_secret = None\<rparr>"

definition org_edit :: "string option \<Rightarrow> update_organization_request" where
  "org_edit cid = \<lparr>uq_name = None, uq_provider = None, uq_slug = None, uq_idp = None, uq_client_id = cid, uq_client_secret = None\<rparr>"

lemma one_org_parts [simp]:
  "su_login one_org = su_login (setup_with [])" "cf_organizations (org_config one_org) = [google_org]"
  "insecure_allowed one_org = False" "oe_setup org_env = setup_env"
  by (simp_all add: one_org_def Let_def insecure_allowed_def org_config_def starting_managed_def starting_relay_def
      default_config_def default_relay_def unwrap_or_def org_env_def)

lemma quiet_path [simp]: "ee_has_path quiet_env"
  by (simp add: quiet_env_def)

lemma org_resolved:
  "resolve_org org_env ''https://accounts.google.com'' None nm False = Inr (org_disc, ENDARA_CLIENT_METADATA_URL, Cimd)"
  "resolve_org org_env ''https://accounts.google.com'' (Some ''W'') nm False = Inr (org_disc, ''W'', ManualClient)"
  by (simp_all add: resolve_org_def validate_org_issuer_def org_discovery resolve_org_client_def resolve_inputs_def trimmed_field_def
      trimmed_W resolved_def org_disc_def)

lemma publish_quiet:
  "\<exists>s'. publish_organizations org_env orgs s = (s', Inr ())"
  by (simp add: publish_organizations_def edit_file_def quiet_env_def Let_def)

lemma second_created: "ar_status (snd (create_organization org_env id second_org one_org)) = 201"
proof -
  obtain s1 where s1: "publish_organizations org_env [google_org, \<lparr>og_name = ''W'', og_provider = ''google'',
      og_idp = ''https://accounts.google.com'', og_client_id = None\<rparr>] one_org = (s1, Inr ())"
    using publish_quiet by blast
  then show ?thesis
    by (simp add: create_organization_def Let_def second_org_def trimmed_W google_issuer org_resolved persisted_client_id_def
        google_org_def finish_create_def trimmed_field_def case_prod_beta)
qed

lemma edited: "ar_status (snd (update_organization org_env waiting ''O'' (org_edit cid) one_org)) = 200"
  if "cid = None \<or> cid = Some ''W''"
proof -
  have upd: "updated_issuer (org_edit cid) google_org ''google'' = Inr ''https://accounts.google.com''"
    by (simp add: updated_issuer_def org_edit_def google_org_def)
  have res: "\<exists>c p. resolve_org org_env ''https://accounts.google.com'' (updated_client_id (org_edit cid) google_org) ''O'' False = Inr (org_disc, c, p)"
    using that org_resolved by (auto simp: updated_client_id_def org_edit_def google_org_def trimmed_field_def trimmed_W)
  then obtain c p where cp: "resolve_org org_env ''https://accounts.google.com'' (updated_client_id (org_edit cid) google_org) ''O'' False = Inr (org_disc, c, p)"
    by blast
  have fin: "ar_status (snd (finish_update org_env (org_edit cid) old u d x b s1)) = 200" for old u d x b and s1 :: "(document, nat) setup_state"
    by (simp add: finish_update_def Let_def apply_secret_def org_edit_def case_prod_beta)
  have org: "og_name google_org = ''O''" "og_provider google_org = ''google''" "trimmed_field None = None"
    "uq_name (org_edit cid) = None" "uq_provider (org_edit cid) = None"
    by (simp_all add: google_org_def trimmed_field_def org_edit_def)
  obtain s1 where s1: "publish_organizations org_env (replace_first (\<lambda>o'. og_name o' = ''O'') (update_of (org_edit cid) google_org
      ''https://accounts.google.com'' c p) [google_org]) (waiting one_org) = (s1, Inr ())"
    using publish_quiet by blast
  then show ?thesis
    by (simp add: update_organization_def Let_def org upd cp unwrap_or_def update_of_def fin)
qed

lemma client_edited:
  "cf_organizations (org_config (fst (update_organization org_env id ''O'' (org_edit (Some ''W'')) one_org))) =
     [google_org\<lparr>og_client_id := Some ''W''\<rparr>]"
proof -
  have upd: "updated_issuer (org_edit (Some ''W'')) google_org ''google'' = Inr ''https://accounts.google.com''"
    "updated_client_id (org_edit (Some ''W'')) google_org = Some ''W''"
    by (simp_all add: updated_issuer_def updated_client_id_def org_edit_def google_org_def trimmed_field_def trimmed_W)
  have org: "og_name google_org = ''O''" "og_provider google_org = ''google''" "trimmed_field None = None"
    "uq_name (org_edit (Some ''W'')) = None" "uq_provider (org_edit (Some ''W'')) = None"
    by (simp_all add: google_org_def trimmed_field_def org_edit_def)
  have new: "\<lparr>og_name = ''O'', og_provider = ''google'', og_idp = ''https://accounts.google.com'',
      og_client_id = persisted_client_id ''W'' ManualClient\<rparr> = google_org\<lparr>og_client_id := Some ''W''\<rparr>"
    by (simp add: google_org_def persisted_client_id_def)
  obtain s1 where s1: "publish_organizations org_env [google_org\<lparr>og_client_id := Some ''W''\<rparr>] one_org = (s1, Inr ())"
    using publish_quiet by blast
  have fin: "org_config (fst (finish_update e q old u d x b s)) = org_config s"
    for e q old u d x b and s :: "(document, nat) setup_state"
    by (simp add: org_config_def)
  have "cf_organizations (org_config s1) = [google_org\<lparr>og_client_id := Some ''W''\<rparr>]" using publish_parts(2) [OF s1] by simp
  then show ?thesis
    by (simp add: update_organization_def Let_def org upd org_resolved unwrap_or_def new s1 fin)
qed

theorem organization_update_loses_creation_witness:
  "''W'' \<in> og_name ` set (cf_organizations (org_config (fst (create_organization org_env id second_org one_org)))) \<and>
   ''W'' \<notin> og_name ` set (cf_organizations (org_config (fst (update_organization org_env
     (\<lambda>x. fst (create_organization org_env id second_org x)) ''O'' (org_edit None) one_org))))"
proof -
  let ?w = "\<lambda>x. fst (create_organization org_env id second_org x)"
  have run: "update_organization org_env ?w ''O'' (org_edit None) one_org =
      (fst (update_organization org_env ?w ''O'' (org_edit None) one_org), snd (update_organization org_env ?w ''O'' (org_edit None) one_org))"
    by simp
  have ok: "ar_status (snd (update_organization org_env ?w ''O'' (org_edit None) one_org)) = 200" by (rule edited) simp
  have "trimmed_field (uq_name (org_edit None)) \<noteq> Some (trim (cq_name second_org))" by (simp add: org_edit_def trimmed_field_def)
  from organization_update_loses_creation [OF run ok refl second_created this] show ?thesis
    by (simp add: second_org_def trimmed_W)
qed


end
