(* ===== verification/Spec2Isabelle.thy ===== *)
theory Spec2Isabelle
  imports Names Resource_Uri Protocol Addresses Tokens OAuth_Safety OAuth_Flows Sessions
    Stdio_Processes Stdio_Calls Http_Recovery Reload Sandbox_Safety Server_Limits Login_Safety Management_Safety
    Setup_Safety Management_Views Organization_Safety
begin

text \<open>
  A model of the Endara relay (the Rust crate under \<^verbatim>\<open>src/src\<close>), which sits between MCP clients and MCP servers: it
  keeps one adapter per configured endpoint, merges their tools, resources and prompts into one catalog, routes the
  requests of clients to the endpoint that owns the name, runs scripts that call tools, logs endpoints in with OAuth,
  and is changed at run time by its configuration file and by a management API. File names below are relative to
  \<^verbatim>\<open>src/src\<close>.

  \<^bold>\<open>How the model is built.\<close> A struct is a record, an enum a datatype, a handler a definition that returns the new state and
  its answer. A \<^verbatim>\<open>HashMap\<close> is an association list without duplicate keys, a \<^verbatim>\<open>str\<close> its UTF-8 bytes, a counter or
  timestamp of fixed width a machine word, an error a branch of a sum type. What holds a lock is one step. What waits
  for the network or another task is cut there: either into the steps of an event system whose runs are every
  interleaving (the adapters, login flows, the watcher), or with an argument \<open>waiting\<close>, \<open>meanwhile\<close>, \<open>discovering\<close> or
  \<open>registering\<close> that is any change of the state by others (the management handlers, the callback). Code outside the
  repository is an argument: the URL parser, DNS, the HTTP clients, TOML text and serde codecs, hashes and random
  values, clocks, SQLite failures and the size of its file, the JavaScript engine, the schema validator.

  \<^bold>\<open>Foundations.\<close> \<open>Prelude\<close> holds hash maps and the interfaces the components share: \<open>keyed_store\<close>, \<open>bounded_queue\<close>,
  \<open>transition_system\<close>, \<open>epoch_counter\<close> (a counter that detects every event of a kind) and \<open>normaliser\<close>, each interpreted
  where a component provides it. \<open>Text\<close> models Rust strings, \<open>Adapter_Core\<close> the vocabulary of \<^verbatim>\<open>adapter/mod.rs\<close>,
  \<open>Protocol\<close> the dialects and messages (\<^verbatim>\<open>protocol.rs\<close>, \<^verbatim>\<open>jsonrpc.rs\<close>), \<open>Names\<close> the prefixing of tools and the
  sanitising of server names (\<^verbatim>\<open>prefix.rs\<close>, \<^verbatim>\<open>adapter/server_name.rs\<close>), \<open>Resource_Uri\<close> the wrapping of resource
  URIs (\<^verbatim>\<open>resource_uri.rs\<close>, locale \<open>percent_codec\<close>), \<open>Addresses\<close> the listener's addresses and the guard on OAuth URLs
  (\<^verbatim>\<open>listen_ips.rs\<close>, \<^verbatim>\<open>local_network.rs\<close>, \<^verbatim>\<open>oauth/url_guard.rs\<close>).

  \<^bold>\<open>Registry and routing.\<close> \<open>Registry\<close> (endpoints, tool caches, merged catalog), \<open>Routing\<close> (tool calls with their gates,
  events and capture, resources, prompts), \<open>Schema_Check\<close> and \<open>Rewrite\<close> (\<^verbatim>\<open>tool_call_rewrite.rs\<close>, locale \<open>slot_walk\<close>)
  model \<^verbatim>\<open>registry.rs\<close>; \<open>Profiles\<close> models \<^verbatim>\<open>profile_registry.rs\<close> over the locale \<open>meta_tool_registry\<close>. \<open>Catalog\<close>, \<open>Caching\<close>
  and \<open>Dispatch\<close> show what they promise: the rows of the catalog are the visible tools, the caches cannot be told from a
  rebuild, an overtaken listing is not stored, a call reaches an adapter exactly if every gate admits it, what is
  advertised reaches its owner, and what is captured is what was called.

  \<^bold>\<open>Adapters.\<close> Stdio (\<^verbatim>\<open>adapter/stdio.rs\<close>): \<open>Supervision\<close> (spawn plans, stderr ring, crash pacing; also the backoff of
  \<^verbatim>\<open>adapter/sse.rs\<close>), \<open>Stdio_Calls\<close>, \<open>Stdio_Lifecycle\<close> with its runs in \<open>Stdio_Safety\<close> and \<open>Stdio_Processes\<close>. Plain HTTP
  (\<^verbatim>\<open>adapter/http.rs\<close>): \<open>Http_Calls\<close>, \<open>Http_Adapter\<close>, with its runs in \<open>Http_Safety\<close> and \<open>Http_Recovery\<close>. OAuth
  (\<^verbatim>\<open>adapter/oauth/\<close>): \<open>OAuth_State\<close>, \<open>OAuth_Adapter\<close>, \<open>OAuth_Refresh\<close>, the events of \<open>OAuth_Runs\<close> and what every run
  guarantees in \<open>OAuth_Safety\<close>: stale refreshes and heartbeats change nothing, no tick is published while refreshing.

  \<^bold>\<open>OAuth.\<close> \<open>Tokens\<close> is \<^verbatim>\<open>token_manager.rs\<close> on a file system whose operations may fail, \<open>OAuth_Flows\<close> the pending logins and
  setup sessions (\<^verbatim>\<open>oauth/mod.rs\<close>), \<open>Discovery\<close> \<^verbatim>\<open>oauth/discovery.rs\<close> and \<^verbatim>\<open>oauth/dcr.rs\<close>, \<open>Login_Callback\<close> the callback
  (\<^verbatim>\<open>server.rs\<close>), \<open>Login_Control\<close> the handlers that start, reset and revoke logins (\<^verbatim>\<open>management.rs\<close>). \<open>Login_Safety\<close>
  composes them: a reset decides its race with a callback, a commit touches one place, a login comes back to where
  it started.

  \<^bold>\<open>Configuration.\<close> \<open>Config\<close> and \<open>Config_Checks\<close> (\<^verbatim>\<open>config.rs\<close>: environment references, strict and graceful validation,
  differences), \<open>Watcher\<close>, \<open>Building\<close> and \<open>Reload\<close> (\<^verbatim>\<open>watcher.rs\<close>): the relay stays in step with an admissible
  configuration through any file changes and initialisations, and settles on the last one.

  \<^bold>\<open>Management API\<close> (\<^verbatim>\<open>management.rs\<close>). \<open>Config_Edits\<close> (profiles), \<open>Endpoint_Edits\<close> (endpoints, switches, observability
  settings, reload, restart), \<open>Setup_Flow\<close> (adding an OAuth endpoint, with the client choice of \<^verbatim>\<open>oauth/client.rs\<close>),
  \<open>Organizations\<close> (with \<^verbatim>\<open>oauth/idp_providers.rs\<close>) and \<open>Management_Views\<close>. The state is the relay with its file
  (\<open>managed\<close>) and, for setups and organizations, the login state beside it (\<open>setup_state\<close>). \<open>Management_Safety\<close>,
  \<open>Setup_Safety\<close> and \<open>Organization_Safety\<close> show that requests keep the relay in step with the exceptions stated there, that a
  setup's commit publishes its endpoint or keeps its session, that secrets stay out of the configuration, that an issuer
  stays at its provider, and which races lose an update.

  \<^bold>\<open>Server and sandbox.\<close> \<open>Sessions\<close> (caller identity and the session store as an LRU cache), \<open>Advertise\<close>
  (\<^verbatim>\<open>advertise.rs\<close>), \<open>Server\<close> (messages and batches of the MCP routes) with \<open>Server_Safety\<close> and \<open>Server_Limits\<close>.
  \<^verbatim>\<open>js_sandbox.rs\<close> and \<^verbatim>\<open>js_sandbox/open_beneath.rs\<close>: \<open>Sandbox_Files\<close>, \<open>Sandbox_Tools\<close>, \<open>Sandbox_Run\<close>, with their
  promises in \<open>Sandbox_Safety\<close>, \<open>Sandbox_Calls\<close> and \<open>Sandbox_Search\<close> (locale \<open>catalog_source\<close>): an allowed path stays below
  its root, a write is all or nothing whatever fails and whatever other processes do, quotas hold, retries end.

  \<^bold>\<open>Observability\<close> (\<^verbatim>\<open>observability/\<close>). \<open>Payload_Buffer\<close>, \<open>Call_Store\<close> (the SQL statements as operations on a list of
  rows) and \<open>Observability\<close> (channel, consumer, sweep, routes): every captured call is accounted for, a walk over the
  pages misses nothing, the buffer stays bounded.

  \<^bold>\<open>Loops and bounds.\<close> Every loop terminates by a measure proved with it. Two loops take fuel: \<open>split_all\<close> gets the
  length of the text it cuts, and every cut shortens the text; \<open>resolve\<close> follows at most \<open>LINK_LIMIT\<close> links, the 40
  after which the kernel gives up with \<^verbatim>\<open>ELOOP\<close>. Counters of 64 bits are words; where a theorem needs that one does not
  wrap within a run, it says so (fewer than 2 to the 64 events). Aggregates assume widths for which the milliseconds
  fit 64 bits.

  \<^bold>\<open>Not modelled.\<close> The probing of container runtimes (\<^verbatim>\<open>container_runtime.rs\<close>, \<^verbatim>\<open>container_stats.rs\<close>) and process glue
  (\<^verbatim>\<open>main.rs\<close> but for the sweep, \<^verbatim>\<open>shell_env.rs\<close>, \<^verbatim>\<open>token_security.rs\<close>) are system calls and wiring. Of the management
  API: the probes of endpoints and organizations, the connection test, OAuth metrics, the event stream, the router, its
  layers and \<^verbatim>\<open>management_listener.rs\<close>. Of the server: the event stream of ticks and the legacy routes that
  call the same handlers. Of OAuth: the EMA token exchange (\<^verbatim>\<open>oauth/ema.rs\<close>) and just-in-time authorization. Of the
  adapters: the activity log and the statistics poller. Of the sandbox: the engine itself, the
  \<^verbatim>\<open>openat2\<close> variant of the path walk, other systems than Unix; search scores are integers in tenths, not
  floating point. Of the schema gate: the wording per kind of validation error. Log output is left out everywhere.

  \<^bold>\<open>Where the code falls short of its intent\<close> is stated as lemmas next to the properties, among others:
  \<open>crlf_reply_lost\<close>, \<open>guard_misses_mapped_loopback\<close>, \<open>disconnect_then_recovery_illegal\<close>, \<open>shutdown_race_leaks_child\<close>,
  \<open>catalog_names_collide\<close>, \<open>refresh_keeps_validator\<close>, \<open>profile_guard_race\<close>, \<open>diff_misses_token_endpoint\<close>,
  \<open>stale_init_wins\<close>, \<open>failed_reset_loses_registration\<close>, \<open>mismatched_client_never_logs_in\<close>, \<open>revoke_spares_logins\<close>,
  \<open>rename_leaves_dangling_profile\<close>, \<open>restart_ignores_disabled\<close>, \<open>late_callback_mixes_clients\<close>,
  \<open>refused_commit_replaces_tokens\<close>.
\<close>

end
